(* ===== verification/Prelude.thy ===== *)
theory Prelude
  imports Complex_Main "HOL-Library.Char_ord" "HOL-Library.List_Lexorder" "HOL-Library.Multiset"
    "HOL-Library.Signed_Division" "HOL-Library.Word"
begin

text \<open>
  Shared vocabulary of the development: the Go values the services compute with, the collections of
  simplification rules, and the generic facts about lists, sorting and maps the components share.

  \<^item> A Go \<^verbatim>\<open>string\<close> is a \<^typ>\<open>string\<close>: a list of bytes, ordered
    byte-lexicographically (\<^verbatim>\<open>a < b\<close> in Go), which is the order of
    \<^verbatim>\<open>List_Lexorder\<close> over \<^verbatim>\<open>Char_ord\<close>.
  \<^item> \<^verbatim>\<open>time.Time\<close> and \<^verbatim>\<open>time.Duration\<close> are integers (nanoseconds);
    \<^verbatim>\<open>time.Now()\<close> is an argument of the operation that reads it.
  \<^item> \<^verbatim>\<open>float64\<close> is \<^typ>\<open>rat\<close>: exact arithmetic, no NaN, no rounding.
  \<^item> \<^verbatim>\<open>int64\<close> arithmetic that can leave the 64-bit range is wrapped by \<open>i64\<close>;
    division truncates (\<open>sdiv\<close>). Counters that only ever grow by one per stored event
    (attempts, fence tokens, renewals) are plain integers.
  \<^item> A Go map is a partial function; reading a missing key of a map of numbers gives 0
    (\<open>get0\<close>).
\<close>

named_theorems go_simps "unfolding rules of the small pure helpers"
named_theorems fsm_simps "transition tables and terminal predicates of the aggregates"
named_theorems order_simps "comparators handed to sort.Slice"

type_synonym gotime = int
type_synonym duration = int
type_synonym float64 = rat

subsection \<open>Integers, maps, membership loops\<close>

definition i64 :: "int \<Rightarrow> int" where
  "i64 x = signed_take_bit 63 x"

definition i64_ok :: "int \<Rightarrow> bool" where
  "i64_ok x \<longleftrightarrow> - (2 ^ 63) \<le> x \<and> x < 2 ^ 63"

definition get0 :: "('k \<rightharpoonup> int) \<Rightarrow> 'k \<Rightarrow> int" where
  "get0 m k = (case m k of None \<Rightarrow> 0 | Some v \<Rightarrow> v)"

lemma i64_id [simp]: "i64_ok x \<Longrightarrow> i64 x = x"
  unfolding i64_def i64_ok_def by (rule signed_take_bit_int_eq_self) simp_all

lemma i64_range: "i64_ok (i64 x)"
  unfolding i64_def i64_ok_def
  using signed_take_bit_int_greater_eq_minus_exp [of 63 x] signed_take_bit_int_less_exp [of 63 x]
  by simp

lemma i64_alt: "i64 x = (x + 2 ^ 63) mod 2 ^ 64 - 2 ^ 63"
  by (simp add: i64_def signed_take_bit_eq_take_bit_shift take_bit_eq_mod)

lemma i64_overflow: "2 ^ 63 \<le> x \<Longrightarrow> x < 3 * 2 ^ 63 \<Longrightarrow> i64 x = x - 2 ^ 64"
  by (simp add: i64_alt mod_pos_geq)

lemma get0_upd [simp]: "get0 (m(k \<mapsto> v)) j = (if j = k then v else get0 m j)"
  by (simp add: get0_def)

lemma get0_empty [simp]: "get0 Map.empty k = 0"
  by (simp add: get0_def)

text \<open>\<open>(n + 59999) / 60000\<close>, Go's rounding up of milliseconds to minutes, on the range
  where the sum does not wrap.\<close>

lemma ceil_minutes:
  assumes "0 \<le> n" and "n + 59999 < 2 ^ 63"
  shows "i64 (n + 59999) sdiv 60000 = (n + 59999) div 60000"
    and "60000 * (i64 (n + 59999) sdiv 60000) \<ge> n"
    and "60000 * (i64 (n + 59999) sdiv 60000) < n + 60000"
proof -
  have "i64 (n + 59999) = n + 59999"
    using assms by (intro i64_id) (simp add: i64_ok_def)
  then have eq: "i64 (n + 59999) sdiv 60000 = (n + 59999) div 60000"
    using assms by (simp add: signed_divide_int_def)
  show "i64 (n + 59999) sdiv 60000 = (n + 59999) div 60000" by (fact eq)
  have "(n + 59999) div 60000 * 60000 + (n + 59999) mod 60000 = n + 59999"
    by (rule div_mult_mod_eq)
  moreover have "0 \<le> (n + 59999) mod 60000" and "(n + 59999) mod 60000 < 60000"
    by (rule pos_mod_sign pos_mod_bound, simp)+
  ultimately show "60000 * (i64 (n + 59999) sdiv 60000) \<ge> n"
    and "60000 * (i64 (n + 59999) sdiv 60000) < n + 60000"
    unfolding eq by linarith+
qed

text \<open>The membership loop \<^verbatim>\<open>containsExact\<close>, repeated in several packages.\<close>

fun contains_exact :: "string list \<Rightarrow> string \<Rightarrow> bool" where
  "contains_exact [] want = False"
| "contains_exact (v # vs) want = (if v = want then True else contains_exact vs want)"

lemma contains_exact_iff [go_simps]: "contains_exact vs w \<longleftrightarrow> w \<in> set vs"
  by (induction vs) auto

text \<open>Order-preserving removal of later duplicates: the \<^verbatim>\<open>seen\<close> map loops.\<close>

fun dedupe_seen :: "'a list \<Rightarrow> 'a list \<Rightarrow> 'a list" where
  "dedupe_seen seen [] = []"
| "dedupe_seen seen (x # xs) =
     (if x \<in> set seen then dedupe_seen seen xs else x # dedupe_seen (x # seen) xs)"

lemma set_dedupe_seen: "set (dedupe_seen seen xs) = set xs - set seen"
  by (induction seen xs rule: dedupe_seen.induct) auto

lemma distinct_dedupe_seen: "distinct (dedupe_seen seen xs)"
  by (induction seen xs rule: dedupe_seen.induct) (auto simp: set_dedupe_seen)

lemma set_dedupe [simp]: "set (dedupe_seen [] xs) = set xs"
  by (simp add: set_dedupe_seen)

lemma sort_mset_cong: "mset xs = mset ys \<Longrightarrow> sort xs = sort ys"
  by (intro properties_for_sort) simp_all

subsection \<open>Sorting\<close>

text \<open>
  \<^verbatim>\<open>sort.SliceStable\<close> with a comparator: elements are inserted behind every
  element that is not greater. \<^verbatim>\<open>sort.Slice\<close> is modelled by the same function; it is
  only used on keys where equal elements are interchangeable or excluded.
\<close>

fun insert_by :: "('a \<Rightarrow> 'a \<Rightarrow> bool) \<Rightarrow> 'a \<Rightarrow> 'a list \<Rightarrow> 'a list" where
  "insert_by lt x [] = [x]"
| "insert_by lt x (y # ys) = (if lt x y then x # y # ys else y # insert_by lt x ys)"

definition sort_by :: "('a \<Rightarrow> 'a \<Rightarrow> bool) \<Rightarrow> 'a list \<Rightarrow> 'a list" where
  "sort_by lt xs = fold (insert_by lt) xs []"

lemma mset_insert_by [simp]: "mset (insert_by lt x ys) = add_mset x (mset ys)"
  by (induction ys) auto

lemma mset_fold_insert_by: "mset (fold (insert_by lt) xs acc) = mset xs + mset acc"
  by (induction xs arbitrary: acc) auto

lemma mset_sort_by [simp]: "mset (sort_by lt xs) = mset xs"
  by (simp add: sort_by_def mset_fold_insert_by)

lemma set_sort_by [simp]: "set (sort_by lt xs) = set xs"
  by (rule mset_eq_setD [OF mset_sort_by])

lemma length_sort_by [simp]: "length (sort_by lt xs) = length xs"
  by (rule mset_eq_length [OF mset_sort_by])

lemma distinct_sort_by [simp]: "distinct (sort_by lt xs) = distinct xs"
  by (rule mset_eq_imp_distinct_iff [OF mset_sort_by])

lemma distinct_map_sort_by: "distinct (map f (sort_by lt xs)) = distinct (map f xs)"
  by (rule mset_eq_imp_distinct_iff) simp

lemma set_insert_by [simp]: "set (insert_by lt x ys) = insert x (set ys)"
  by (induction ys) auto

text \<open>
  The contract \<^verbatim>\<open>sort.Slice\<close> documents for its comparator: a strict weak order.
  The lemmas below are what every caller of the sort relies on.
\<close>

locale slice_order =
  fixes lt :: "'a \<Rightarrow> 'a \<Rightarrow> bool"
  assumes lt_asym: "lt x y \<Longrightarrow> \<not> lt y x"
    and lt_negtrans: "\<not> lt x y \<Longrightarrow> \<not> lt y z \<Longrightarrow> \<not> lt x z"
begin

abbreviation (input) ordered :: "'a list \<Rightarrow> bool" where
  "ordered \<equiv> sorted_wrt (\<lambda>x y. \<not> lt y x)"

lemma ordered_insert_by: "ordered ys \<Longrightarrow> ordered (insert_by lt x ys)"
proof (induction ys)
  case Nil
  then show ?case by simp
next
  case (Cons y ys)
  show ?case
  proof (cases "lt x y")
    case True
    have "\<not> lt z x" if "z \<in> set ys" for z
      using Cons.prems that lt_negtrans [of z y x] lt_asym [OF True] by auto
    with True Cons.prems show ?thesis by (auto dest: lt_asym)
  next
    case False
    with Cons show ?thesis by auto
  qed
qed

lemma ordered_fold: "ordered acc \<Longrightarrow> ordered (fold (insert_by lt) xs acc)"
  by (induction xs arbitrary: acc) (simp_all add: ordered_insert_by)

lemma ordered_sort_by: "ordered (sort_by lt xs)"
  by (simp add: sort_by_def ordered_fold)

lemma ordered_unique:
  assumes "mset xs = mset ys" and "ordered xs" and "ordered ys"
    and "\<And>x y. x \<in> set xs \<Longrightarrow> y \<in> set xs \<Longrightarrow> \<not> lt x y \<Longrightarrow> \<not> lt y x \<Longrightarrow> x = y"
  shows "xs = ys"
  using assms
proof (induction xs arbitrary: ys)
  case Nil
  then show ?case by simp
next
  case (Cons x xs)
  then obtain y ys' where ys: "ys = y # ys'"
    by (cases ys) auto
  have "set (x # xs) = set ys"
    using Cons.prems(1) by (rule mset_eq_setD)
  then have "x \<in> set (y # ys')" and "y \<in> set (x # xs)"
    using ys by auto
  then have "\<not> lt x y" and "\<not> lt y x"
    using Cons.prems(2,3) ys lt_asym by auto
  then have "x = y"
    using Cons.prems(4) \<open>y \<in> set (x # xs)\<close> by auto
  then have "xs = ys'"
    using Cons.prems ys by (intro Cons.IH) auto
  then show ?case using \<open>x = y\<close> ys by simp
qed

lemma strictly_ordered:
  "ordered xs \<Longrightarrow> distinct xs \<Longrightarrow>
     (\<And>x y. x \<in> set xs \<Longrightarrow> y \<in> set xs \<Longrightarrow> \<not> lt x y \<Longrightarrow> \<not> lt y x \<Longrightarrow> x = y) \<Longrightarrow> sorted_wrt lt xs"
proof (induction xs)
  case (Cons x xs)
  then have "lt x y" if "y \<in> set xs" for y
    using that by (metis distinct.simps(2) list.set_intros sorted_wrt.simps(2))
  with Cons show ?case by auto
qed simp

lemma sort_by_permutation_invariant:
  assumes "mset xs = mset ys"
    and "\<And>x y. x \<in> set xs \<Longrightarrow> y \<in> set xs \<Longrightarrow> \<not> lt x y \<Longrightarrow> \<not> lt y x \<Longrightarrow> x = y"
  shows "sort_by lt xs = sort_by lt ys"
  using assms by (intro ordered_unique) (auto simp: ordered_sort_by)

end

text \<open>
  The hand-written insertion sort \<^verbatim>\<open>sortStrings\<close> (four copies in the control plane):
  the inner loop swaps \<open>s[j]\<close> towards the front while it is smaller than its left
  neighbour, so each element is inserted into the sorted prefix from the right.
\<close>

fun insert_right :: "string \<Rightarrow> string list \<Rightarrow> string list" where
  "insert_right x [] = [x]"
| "insert_right x (y # ys) = (if x < y then y # insert_right x ys else x # y # ys)"

definition sortStrings :: "string list \<Rightarrow> string list" where
  "sortStrings s = fold (\<lambda>x prefix. rev (insert_right x (rev prefix))) s []"

lemma mset_insert_right: "mset (insert_right x ys) = add_mset x (mset ys)"
  by (induction ys) auto

lemma set_insert_right: "set (insert_right x ys) = insert x (set ys)"
  by (induction ys) auto

lemma sorted_insert_right:
  "sorted (rev ys) \<Longrightarrow> sorted (rev (insert_right x ys))"
  by (induction ys) (auto simp: sorted_append set_insert_right)

lemma sortStrings_fold:
  "sorted acc \<Longrightarrow> sorted (fold (\<lambda>x prefix. rev (insert_right x (rev prefix))) s acc) \<and>
     mset (fold (\<lambda>x prefix. rev (insert_right x (rev prefix))) s acc) = mset s + mset acc"
  by (induction s arbitrary: acc) (simp_all add: sorted_insert_right mset_insert_right)

lemma sortStrings_eq_sort [go_simps]: "sortStrings s = sort s"
  using sortStrings_fold [of "[]" s] unfolding sortStrings_def
  by (intro sym [OF properties_for_sort]) simp_all

end
