(* ===== verification/Aggregate.thy ===== *)
theory Aggregate
  imports Prelude
begin

text \<open>
  What every aggregate of \<^verbatim>\<open>services/control-plane/internal/domain\<close> shares: the sentinel
  errors, the transition tables and the contract of the \<^verbatim>\<open>Apply\<close> methods. The
  contract is the locale \<open>aggregate\<close>; each aggregate of \<open>Domain\<close> is an
  interpretation of it, and the facts about event sequences (log-and-ignore of post-terminal
  events, reachable states) are proved here once.

  An error wrapped with \<^verbatim>\<open>fmt.Errorf("%w: ...")\<close> is its sentinel: callers test it with
  \<^verbatim>\<open>errors.Is\<close> only.
\<close>

datatype DomErr =
    ErrIllegalTransition | ErrPostTerminal | ErrUnknownEvent | ErrNotFound | ErrConflict
  | ErrLateSubmission | ErrDuplicateHead | ErrLeaseNotRenewable | ErrBudgetExceeded
  | ErrRateLimited | ErrValidationFailed | ErrUnauthorized | ErrBadSignature
  | ErrChainBroken | ErrCheckpointInvalid | ErrRerunBudgetExhausted

record 's transitionRule =
  rule_from :: "'s list"
  rule_to :: 's

type_synonym 's transitions = "(string \<times> 's transitionRule) list"

definition rule :: "'s list \<Rightarrow> 's \<Rightarrow> 's transitionRule" where
  "rule froms dest = \<lparr>rule_from = froms, rule_to = dest\<rparr>"

fun matchesState :: "'s list \<Rightarrow> 's \<Rightarrow> bool" where
  "matchesState [] cur = False"
| "matchesState (f # fs) cur = (if f = cur then True else matchesState fs cur)"

lemma rule_sel [simp]: "rule_from (rule fs d) = fs" "rule_to (rule fs d) = d"
  by (simp_all add: rule_def)

lemma matchesState_iff [simp]: "matchesState fs cur \<longleftrightarrow> cur \<in> set fs"
  by (induction fs) auto

text \<open>
  The steps a table allows between states, and the handling of a stream of triggers by a caller
  that logs and ignores every rejected event (invariant I-08).
\<close>

inductive table_step :: "'s transitions \<Rightarrow> ('s \<Rightarrow> bool) \<Rightarrow> 's \<Rightarrow> 's \<Rightarrow> bool"
  for table terminal where
  fire: "\<not> terminal s \<Longrightarrow> map_of table trigger = Some r \<Longrightarrow> s \<in> set (rule_from r) \<Longrightarrow>
    table_step table terminal s (rule_to r)"

inductive_cases table_stepE: "table_step table terminal s t"

definition deliver :: "('a \<Rightarrow> string \<Rightarrow> DomErr + 'a) \<Rightarrow> 'a \<Rightarrow> string \<Rightarrow> 'a" where
  "deliver app a trigger = (case app a trigger of Inl _ \<Rightarrow> a | Inr a' \<Rightarrow> a')"

definition deliver_all :: "('a \<Rightarrow> string \<Rightarrow> DomErr + 'a) \<Rightarrow> 'a \<Rightarrow> string list \<Rightarrow> 'a" where
  "deliver_all app a triggers = foldl (deliver app) a triggers"

lemma deliver_all_simps [simp]:
  "deliver_all app a [] = a"
  "deliver_all app a (t # ts) = deliver_all app (deliver app a t) ts"
  by (simp_all add: deliver_all_def)

lemma deliver_all_invariant:
  assumes "P a" and "\<And>b t. P b \<Longrightarrow> P (deliver app b t)"
  shows "P (deliver_all app a ts)"
  using assms by (induction ts arbitrary: a) simp_all

lemma deliver_invariantI:
  assumes "P a" and "\<And>a'. app a t = Inr a' \<Longrightarrow> P a'"
  shows "P (deliver app a t)"
  using assms by (simp add: deliver_def split: sum.splits)

locale aggregate =
  fixes state_of :: "'a \<Rightarrow> 's"
    and terminal :: "'s \<Rightarrow> bool"
    and table :: "'s transitions"
    and app :: "'a \<Rightarrow> string \<Rightarrow> DomErr + 'a"
  assumes app_terminal:
    "terminal (state_of a) \<Longrightarrow> app a t = Inl ErrPostTerminal"
    and app_unknown:
    "\<not> terminal (state_of a) \<Longrightarrow> map_of table t = None \<Longrightarrow> app a t = Inl ErrUnknownEvent"
    and app_illegal:
    "\<not> terminal (state_of a) \<Longrightarrow> map_of table t = Some r \<Longrightarrow> state_of a \<notin> set (rule_from r) \<Longrightarrow>
       app a t = Inl ErrIllegalTransition"
    and app_legal:
    "\<not> terminal (state_of a) \<Longrightarrow> map_of table t = Some r \<Longrightarrow> state_of a \<in> set (rule_from r) \<Longrightarrow>
       \<exists>a'. app a t = Inr a' \<and> state_of a' = rule_to r"
begin

lemma app_result [case_names terminal unknown illegal legal]:
  obtains "terminal (state_of a)" "app a t = Inl ErrPostTerminal"
  | "\<not> terminal (state_of a)" "map_of table t = None" "app a t = Inl ErrUnknownEvent"
  | r where "\<not> terminal (state_of a)" "map_of table t = Some r" "state_of a \<notin> set (rule_from r)"
      "app a t = Inl ErrIllegalTransition"
  | r a' where "\<not> terminal (state_of a)" "map_of table t = Some r" "state_of a \<in> set (rule_from r)"
      "app a t = Inr a'" "state_of a' = rule_to r"
proof (cases "terminal (state_of a)")
  case True
  then show ?thesis using that(1) app_terminal by blast
next
  case nonterm: False
  show ?thesis
  proof (cases "map_of table t")
    case None
    with nonterm show ?thesis using that(2) app_unknown by blast
  next
    case (Some r)
    with nonterm show ?thesis using that(3,4) app_illegal app_legal by blast
  qed
qed

lemma app_Inr_iff:
  "(\<exists>a'. app a t = Inr a') \<longleftrightarrow>
     \<not> terminal (state_of a) \<and> (\<exists>r. map_of table t = Some r \<and> state_of a \<in> set (rule_from r))"
  by (rule app_result [of a t]) auto

lemma app_step: "app a t = Inr a' \<Longrightarrow> table_step table terminal (state_of a) (state_of a')"
  by (rule app_result [of a t]) (auto intro: table_step.fire)

lemma app_error_cases:
  "app a t = Inl e \<Longrightarrow> e \<in> {ErrPostTerminal, ErrUnknownEvent, ErrIllegalTransition}"
  by (rule app_result [of a t]) auto

lemma deliver_step:
  "deliver app a t = a \<or> table_step table terminal (state_of a) (state_of (deliver app a t))"
  by (auto simp: deliver_def split: sum.splits intro: app_step)

lemma no_resurrection: "terminal (state_of a) \<Longrightarrow> deliver_all app a ts = a"
  by (induction ts) (simp_all add: deliver_def app_terminal)

lemma deliver_all_reaches:
  "(table_step table terminal)\<^sup>*\<^sup>* (state_of a) (state_of (deliver_all app a ts))"
proof (induction ts arbitrary: a)
  case Nil
  then show ?case by simp
next
  case (Cons t ts)
  have "(table_step table terminal)\<^sup>*\<^sup>* (state_of a) (state_of (deliver app a t))"
    using deliver_step [of a t] by auto
  with Cons.IH [of "deliver app a t"] show ?case
    by (simp add: rtranclp_trans)
qed

end

text \<open>A set of states no row of a table leaves is never left: the reachability argument for
  concrete tables. The row condition is decided by evaluation.\<close>

lemma table_step_closed:
  assumes step: "table_step table terminal s t" and "s \<in> S"
    and rows: "\<forall>(trigger, r) \<in> set table. (\<exists>f \<in> set (rule_from r). f \<in> S \<and> \<not> terminal f) \<longrightarrow> rule_to r \<in> S"
  shows "t \<in> S"
  using step
proof cases
  case (fire trigger r)
  from fire(3) have "(trigger, r) \<in> set table" by (rule map_of_SomeD)
  with rows fire \<open>s \<in> S\<close> show ?thesis by auto
qed

lemma table_reach_closed:
  assumes "(table_step table terminal)\<^sup>*\<^sup>* s t" and "s \<in> S"
    and "\<forall>(trigger, r) \<in> set table. (\<exists>f \<in> set (rule_from r). f \<in> S \<and> \<not> terminal f) \<longrightarrow> rule_to r \<in> S"
  shows "t \<in> S"
  using assms(1,2) by (induction rule: rtranclp_induct) (auto intro: table_step_closed [OF _ _ assms(3)])

end
