(* ===== verification/Domain.thy ===== *)
theory Domain
  imports Aggregate
begin

text \<open>
  The aggregates of \<^verbatim>\<open>services/control-plane/internal/domain\<close>: one record per Go struct, one
  datatype per string enumeration, the transition table and the \<^verbatim>\<open>Apply\<close> method of
  each of the ten lifecycles, and the methods built on them (\<^verbatim>\<open>Classify\<close>,
  \<^verbatim>\<open>Invalidate\<close>, \<^verbatim>\<open>Renew\<close>, \<^verbatim>\<open>RecordAttempt\<close>).
  \<^verbatim>\<open>time.Now()\<close> is the argument \<open>now\<close>. Every \<open>Apply\<close> interprets
  the locale \<open>aggregate\<close>.
\<close>

subsection \<open>Intent\<close>

datatype IntentState = IntentExploring | IntentValidating | IntentBlocked | IntentRepairing
  | IntentMergeReady | IntentDeploying | IntentMonitoring | IntentCompleted | IntentRejected

datatype RiskClass = RiskLow | RiskMedium | RiskHigh | RiskCritical

fun RiskClass_string :: "RiskClass \<Rightarrow> string" where
  "RiskClass_string RiskLow = ''low''"
| "RiskClass_string RiskMedium = ''medium''"
| "RiskClass_string RiskHigh = ''high''"
| "RiskClass_string RiskCritical = ''critical''"

record BudgetValues =
  CPUMinutes :: int
  EnvironmentMinutes :: int
  RepairAttempts :: int

record PolicyRef =
  prPolicyID :: string
  prVersion :: int

datatype IntentOrigin = OriginAgentAPI | OriginCLI | OriginGitHubHook | OriginSynthetic

record IntentDeclared =
  Goal :: string
  dRepo :: string
  BaseRef :: string
  BaseSnapshot :: string
  OwnedSurfaces :: "string list"
  Constraints :: "string list"
  AcceptanceCriteria :: "string list"
  dRiskClass :: RiskClass
  Deadline :: "gotime option"
  dOrigin :: IntentOrigin
  AgentLineage :: "string list"
  dResolvedPolicy :: PolicyRef
  ComputeBudget :: BudgetValues

record Intent =
  iID :: string
  iTenantID :: string
  iState :: IntentState
  Declared :: IntentDeclared
  iCreatedAt :: gotime
  ClosedAt :: "gotime option"
  InitialCandidateID :: string
  iPRNumber :: int

definition IntentState_Terminal :: "IntentState \<Rightarrow> bool" where
  "IntentState_Terminal s \<longleftrightarrow> s \<in> set [IntentCompleted, IntentRejected]"

definition NewIntent :: "string \<Rightarrow> string \<Rightarrow> IntentDeclared \<Rightarrow> gotime \<Rightarrow> Intent" where
  "NewIntent ident tenantID d now = \<lparr>iID = ident, iTenantID = tenantID, iState = IntentExploring,
     Declared = d, iCreatedAt = now, ClosedAt = None, InitialCandidateID = [], iPRNumber = 0\<rparr>"

definition intentTransitions :: "IntentState transitions" where
  "intentTransitions =
    [(''validation.planned'', rule [IntentExploring] IntentValidating),
     (''failure.blocked'', rule [IntentValidating] IntentBlocked),
     (''repair.authorized'', rule [IntentValidating, IntentBlocked] IntentRepairing),
     (''candidate.resubmitted'', rule [IntentRepairing, IntentBlocked] IntentValidating),
     (''decision.eligible'', rule [IntentValidating] IntentMergeReady),
     (''deploy.authorized'', rule [IntentMergeReady] IntentDeploying),
     (''deploy.executed'', rule [IntentDeploying] IntentMonitoring),
     (''post_merge.satisfied'', rule [IntentMonitoring] IntentCompleted),
     (''intent.rejected'', rule [IntentExploring, IntentValidating, IntentBlocked, IntentRepairing,
        IntentMergeReady, IntentDeploying, IntentMonitoring] IntentRejected)]"

definition Intent_Apply :: "gotime \<Rightarrow> Intent \<Rightarrow> string \<Rightarrow> DomErr + Intent" where
  "Intent_Apply now i trigger =
    (if IntentState_Terminal (iState i) then Inl ErrPostTerminal
     else case map_of intentTransitions trigger of
       None \<Rightarrow> Inl ErrUnknownEvent
     | Some r \<Rightarrow>
         if \<not> matchesState (rule_from r) (iState i) then Inl ErrIllegalTransition
         else let i1 = i\<lparr>iState := rule_to r\<rparr>;
                  i2 = (if iState i1 = IntentRejected then i1\<lparr>ClosedAt := Some now\<rparr> else i1);
                  i3 = (if iState i2 = IntentCompleted then i2\<lparr>ClosedAt := Some now\<rparr> else i2)
              in Inr i3)"

subsection \<open>Candidate\<close>

datatype CandidateState = CandSubmitted | CandPlanned | CandValidating | CandRepairing
  | CandEligible | CandRejected | CandBlockedRepresentative | CandSuperseded | CandCancelled

fun CandidateState_string :: "CandidateState \<Rightarrow> string" where
  "CandidateState_string CandSubmitted = ''submitted''"
| "CandidateState_string CandPlanned = ''planned''"
| "CandidateState_string CandValidating = ''validating''"
| "CandidateState_string CandRepairing = ''repairing''"
| "CandidateState_string CandEligible = ''eligible''"
| "CandidateState_string CandRejected = ''rejected''"
| "CandidateState_string CandBlockedRepresentative = ''blocked_representative''"
| "CandidateState_string CandSuperseded = ''superseded''"
| "CandidateState_string CandCancelled = ''cancelled''"

datatype Relation = RelDuplicate | RelAlternative | RelComposable | RelConflicting
  | RelPrerequisite | RelRepresentative

record Candidate =
  cID :: string
  cTenantID :: string
  cIntentID :: string
  cState :: CandidateState
  Submitter :: string
  cPatchRef :: string
  cHeadSHA :: string
  cBaseSHA :: string
  cChangedPaths :: "string list"
  cEstCostMillicents :: int
  PriorityScore :: float64
  cClusterID :: string
  cRelationToRep :: "Relation option"
  cRepo :: string
  cPRNumber :: int
  RerunCount :: int
  cCreatedAt :: gotime

definition CandidateState_Terminal :: "CandidateState \<Rightarrow> bool" where
  "CandidateState_Terminal s \<longleftrightarrow>
     s \<in> set [CandEligible, CandRejected, CandSuperseded, CandCancelled]"

definition NewCandidate :: "string \<Rightarrow> string \<Rightarrow> string \<Rightarrow> string \<Rightarrow> string \<Rightarrow> string \<Rightarrow> string \<Rightarrow>
    string list \<Rightarrow> int \<Rightarrow> gotime \<Rightarrow> DomErr + Candidate" where
  "NewCandidate ident tenantID intentID submitter patchRef headSHA baseSHA changedPaths estCost now =
    (if length headSHA \<noteq> 40 \<or> length baseSHA \<noteq> 40 then Inl ErrValidationFailed
     else if headSHA = baseSHA then Inl ErrValidationFailed
     else Inr \<lparr>cID = ident, cTenantID = tenantID, cIntentID = intentID, cState = CandSubmitted,
       Submitter = submitter, cPatchRef = patchRef, cHeadSHA = headSHA, cBaseSHA = baseSHA,
       cChangedPaths = changedPaths, cEstCostMillicents = estCost, PriorityScore = 0,
       cClusterID = [], cRelationToRep = None, cRepo = [], cPRNumber = 0, RerunCount = 0,
       cCreatedAt = now\<rparr>)"

definition candidateTransitions :: "CandidateState transitions" where
  "candidateTransitions =
    [(''validation.planned'', rule [CandSubmitted] CandPlanned),
     (''validation.admitted'', rule [CandPlanned] CandValidating),
     (''repair.authorized'', rule [CandValidating] CandRepairing),
     (''candidate.resubmitted'', rule [CandRepairing] CandValidating),
     (''decision.eligible'', rule [CandValidating] CandEligible),
     (''decision.rejected'', rule [CandValidating, CandPlanned] CandRejected),
     (''cluster.blocked'', rule [CandPlanned, CandValidating] CandBlockedRepresentative),
     (''candidate.superseded'', rule [CandSubmitted, CandPlanned, CandValidating, CandRepairing,
        CandBlockedRepresentative] CandSuperseded),
     (''candidate.cancelled'', rule [CandSubmitted, CandPlanned, CandValidating, CandRepairing,
        CandBlockedRepresentative] CandCancelled)]"

definition Candidate_Apply :: "Candidate \<Rightarrow> string \<Rightarrow> DomErr + Candidate" where
  "Candidate_Apply c trigger =
    (if CandidateState_Terminal (cState c) then Inl ErrPostTerminal
     else case map_of candidateTransitions trigger of
       None \<Rightarrow> Inl ErrUnknownEvent
     | Some r \<Rightarrow>
         if \<not> matchesState (rule_from r) (cState c) then Inl ErrIllegalTransition
         else Inr (c\<lparr>cState := rule_to r\<rparr>))"

subsection \<open>Cluster\<close>

datatype ClusterState = ClusterForming | ClusterActive | ClusterDissolved

record Cluster =
  clID :: string
  clTenantID :: string
  clState :: ClusterState
  clRepo :: string
  RepCandidateID :: string
  MemberCount :: int
  clStrategyVersion :: string
  clCreatedAt :: gotime

definition ClusterState_Terminal :: "ClusterState \<Rightarrow> bool" where
  "ClusterState_Terminal s \<longleftrightarrow> s \<in> set [ClusterDissolved]"

definition NewCluster :: "string \<Rightarrow> string \<Rightarrow> string \<Rightarrow> string \<Rightarrow> string \<Rightarrow> gotime \<Rightarrow> Cluster" where
  "NewCluster ident tenantID repo repCandidateID strategyVersion now =
     \<lparr>clID = ident, clTenantID = tenantID, clState = ClusterForming, clRepo = repo,
      RepCandidateID = repCandidateID, MemberCount = 1, clStrategyVersion = strategyVersion,
      clCreatedAt = now\<rparr>"

definition clusterTransitions :: "ClusterState transitions" where
  "clusterTransitions =
    [(''cluster.activated'', rule [ClusterForming] ClusterActive),
     (''cluster.dissolved'', rule [ClusterForming, ClusterActive] ClusterDissolved)]"

definition Cluster_Apply :: "Cluster \<Rightarrow> string \<Rightarrow> DomErr + Cluster" where
  "Cluster_Apply c trigger =
    (if ClusterState_Terminal (clState c) then Inl ErrPostTerminal
     else case map_of clusterTransitions trigger of
       None \<Rightarrow> Inl ErrUnknownEvent
     | Some r \<Rightarrow>
         if \<not> matchesState (rule_from r) (clState c) then Inl ErrIllegalTransition
         else Inr (c\<lparr>clState := rule_to r\<rparr>))"

subsection \<open>Decisions\<close>

datatype DecisionVerb = VerbEligibleForMergeTrain | VerbRejected | VerbDeferred

datatype DecisionSubjectType = SubjectIntent | SubjectCandidate | SubjectIntegrationSet

text \<open>A factor's \<^verbatim>\<open>Value any\<close> is a string or a number where the services fill it.\<close>

record ExplanationFactor =
  efName :: string
  efValue :: "string + int"
  efSource :: string

record SkippedEvidence =
  skKind :: string
  skReason :: string

record Explanation =
  exSummary :: string
  exFactors :: "ExplanationFactor list"
  exSkippedEvidence :: "SkippedEvidence list"

record Decision =
  decID :: string
  decTenantID :: string
  decSubjectType :: DecisionSubjectType
  decSubjectID :: string
  decVerb :: DecisionVerb
  decConfidence :: float64
  decPolicy :: PolicyRef
  decExplanation :: Explanation
  decEvidenceRefs :: "string list"
  decInputsHash :: string
  decCausationID :: string
  decRenderedAt :: gotime

subsection \<open>Evidence record\<close>

datatype EvidenceStatus = EvidenceProposed | EvidenceAccepted | EvidenceRejected | EvidenceInvalidated

record EvidenceRecord =
  evID :: string
  evTenantID :: string
  evRunID :: string
  evAttempt :: int
  evCandidateID :: string
  evKind :: string
  evVerdict :: string
  evStatus :: EvidenceStatus
  evDigests :: "string list"
  evInputsHash :: string
  evConfidence :: float64
  evCostMillicents :: int
  ProducedByLease :: string
  AcceptedAt :: "gotime option"
  InvalidatedReason :: string
  evCreatedAt :: gotime

definition EvidenceStatus_Terminal :: "EvidenceStatus \<Rightarrow> bool" where
  "EvidenceStatus_Terminal s \<longleftrightarrow> s \<in> set [EvidenceRejected, EvidenceInvalidated]"

definition NewEvidenceRecord :: "string \<Rightarrow> string \<Rightarrow> string \<Rightarrow> int \<Rightarrow> string \<Rightarrow> string \<Rightarrow> string \<Rightarrow>
    string list \<Rightarrow> string \<Rightarrow> float64 \<Rightarrow> int \<Rightarrow> string \<Rightarrow> gotime \<Rightarrow> EvidenceRecord" where
  "NewEvidenceRecord ident tenantID runID attempt candidateID kind verdict digests inputsHash
     confidence cost leaseID now =
     \<lparr>evID = ident, evTenantID = tenantID, evRunID = runID, evAttempt = attempt,
      evCandidateID = candidateID, evKind = kind, evVerdict = verdict,
      evStatus = EvidenceProposed, evDigests = digests, evInputsHash = inputsHash,
      evConfidence = confidence, evCostMillicents = cost, ProducedByLease = leaseID,
      AcceptedAt = None, InvalidatedReason = [], evCreatedAt = now\<rparr>"

definition evidenceTransitions :: "EvidenceStatus transitions" where
  "evidenceTransitions =
    [(''evidence.accepted'', rule [EvidenceProposed] EvidenceAccepted),
     (''evidence.rejected'', rule [EvidenceProposed] EvidenceRejected),
     (''evidence.invalidated'', rule [EvidenceAccepted] EvidenceInvalidated)]"

definition Evidence_Apply :: "gotime \<Rightarrow> EvidenceRecord \<Rightarrow> string \<Rightarrow> DomErr + EvidenceRecord" where
  "Evidence_Apply now e trigger =
    (if EvidenceStatus_Terminal (evStatus e) then Inl ErrPostTerminal
     else case map_of evidenceTransitions trigger of
       None \<Rightarrow> Inl ErrUnknownEvent
     | Some r \<Rightarrow>
         if \<not> matchesState (rule_from r) (evStatus e) then Inl ErrIllegalTransition
         else let e1 = (if trigger = ''evidence.accepted'' then e\<lparr>AcceptedAt := Some now\<rparr> else e);
                  e2 = (if trigger = ''evidence.invalidated'' \<and> InvalidatedReason e1 = []
                        then e1\<lparr>InvalidatedReason := ''unspecified''\<rparr> else e1)
              in Inr (e2\<lparr>evStatus := rule_to r\<rparr>))"

definition Invalidate :: "gotime \<Rightarrow> EvidenceRecord \<Rightarrow> string \<Rightarrow> DomErr + EvidenceRecord" where
  "Invalidate now e reason =
    (case Evidence_Apply now e ''evidence.invalidated'' of
       Inl err \<Rightarrow> Inl err
     | Inr e' \<Rightarrow> Inr (e'\<lparr>InvalidatedReason := reason\<rparr>))"

subsection \<open>Failure case\<close>

datatype FailureState = FailureOpen | FailureClassified | FailureRouted | FailureClosed

datatype Classification = ClassInfraTransient | ClassKnownFlake | ClassProbableFlake
  | ClassCompileRegression | ClassTestExpectationDrift | ClassFunctionalRegression
  | ClassMergeConflict | ClassSecurityPolicyViolation | ClassTimeout

datatype RoutedAction = RouteRetry | RouteQuarantineFlake | RouteRepair | RouteEscalateHuman
  | RouteReject | RouteNone

record FailureCase =
  fcID :: string
  fcTenantID :: string
  fcCandidateID :: string
  fcRunID :: string
  fcState :: FailureState
  fcSignatureDigest :: string
  fcClassification :: "Classification option"
  fcConfidence :: float64
  fcReproductionCommand :: string
  fcSuspectedPaths :: "string list"
  fcRoutedAction :: RoutedAction
  fcCreatedAt :: gotime

definition FailureState_Terminal :: "FailureState \<Rightarrow> bool" where
  "FailureState_Terminal s \<longleftrightarrow> s \<in> set [FailureClosed]"

definition NewFailureCase :: "string \<Rightarrow> string \<Rightarrow> string \<Rightarrow> string \<Rightarrow> string \<Rightarrow> string \<Rightarrow>
    string list \<Rightarrow> gotime \<Rightarrow> FailureCase" where
  "NewFailureCase ident tenantID candidateID runID signatureDigest reproCmd suspectedPaths now =
     \<lparr>fcID = ident, fcTenantID = tenantID, fcCandidateID = candidateID, fcRunID = runID,
      fcState = FailureOpen, fcSignatureDigest = signatureDigest, fcClassification = None,
      fcConfidence = 0, fcReproductionCommand = reproCmd, fcSuspectedPaths = suspectedPaths,
      fcRoutedAction = RouteNone, fcCreatedAt = now\<rparr>"

definition failureTransitions :: "FailureState transitions" where
  "failureTransitions =
    [(''failure.classified'', rule [FailureOpen] FailureClassified),
     (''failure.routed'', rule [FailureClassified] FailureRouted),
     (''failure.closed'', rule [FailureRouted] FailureClosed)]"

definition Failure_Apply :: "FailureCase \<Rightarrow> string \<Rightarrow> DomErr + FailureCase" where
  "Failure_Apply f trigger =
    (if FailureState_Terminal (fcState f) then Inl ErrPostTerminal
     else case map_of failureTransitions trigger of
       None \<Rightarrow> Inl ErrUnknownEvent
     | Some r \<Rightarrow>
         if \<not> matchesState (rule_from r) (fcState f) then Inl ErrIllegalTransition
         else Inr (f\<lparr>fcState := rule_to r\<rparr>))"

fun domain_routeForClass :: "Classification \<Rightarrow> RoutedAction" where
  "domain_routeForClass ClassInfraTransient = RouteRetry"
| "domain_routeForClass ClassKnownFlake = RouteQuarantineFlake"
| "domain_routeForClass ClassProbableFlake = RouteQuarantineFlake"
| "domain_routeForClass ClassCompileRegression = RouteRepair"
| "domain_routeForClass ClassMergeConflict = RouteRepair"
| "domain_routeForClass ClassFunctionalRegression = RouteRepair"
| "domain_routeForClass ClassSecurityPolicyViolation = RouteEscalateHuman"
| "domain_routeForClass ClassTimeout = RouteRetry"
| "domain_routeForClass _ = RouteEscalateHuman"

definition FailureCase_Classify ::
    "FailureCase \<Rightarrow> Classification \<Rightarrow> float64 \<Rightarrow> DomErr + FailureCase" where
  "FailureCase_Classify f c confidence =
    (case Failure_Apply f ''failure.classified'' of
       Inl err \<Rightarrow> Inl err
     | Inr f' \<Rightarrow> Inr (f'\<lparr>fcClassification := Some c, fcConfidence := confidence,
         fcRoutedAction := domain_routeForClass c\<rparr>))"

subsection \<open>Lease\<close>

datatype LeaseState = LeaseRequested | LeaseGranted | LeaseReleased | LeaseExpired | LeaseRevoked

datatype LeaseScopeKind = ScopeChangeScope | ScopeEnvironment

record LeaseScope =
  lsKind :: LeaseScopeKind
  lsSurfaces :: "string list"
  lsEnvTemplate :: string

record Lease =
  lID :: string
  lTenantID :: string
  lIntentID :: string
  lState :: LeaseState
  lScope :: LeaseScope
  lHolder :: string
  lBudget :: BudgetValues
  TTLExpiresAt :: gotime
  RenewalCount :: int
  QueuePosition :: "int option"
  EtaSeconds :: "int option"
  lRequiredEvidence :: "string list"
  lCreatedAt :: gotime
  ReleasedAt :: "gotime option"

definition LeaseState_Terminal :: "LeaseState \<Rightarrow> bool" where
  "LeaseState_Terminal s \<longleftrightarrow> s \<in> set [LeaseReleased, LeaseExpired, LeaseRevoked]"

definition NewLease :: "string \<Rightarrow> string \<Rightarrow> string \<Rightarrow> LeaseScope \<Rightarrow> string \<Rightarrow> BudgetValues \<Rightarrow>
    duration \<Rightarrow> string list \<Rightarrow> gotime \<Rightarrow> Lease" where
  "NewLease ident tenantID intentID scope holder budget ttl requiredEvidence now =
     \<lparr>lID = ident, lTenantID = tenantID, lIntentID = intentID, lState = LeaseGranted,
      lScope = scope, lHolder = holder, lBudget = budget, TTLExpiresAt = now + ttl,
      RenewalCount = 0, QueuePosition = None, EtaSeconds = None,
      lRequiredEvidence = requiredEvidence, lCreatedAt = now, ReleasedAt = None\<rparr>"

definition leaseTransitions :: "LeaseState transitions" where
  "leaseTransitions =
    [(''lease.granted'', rule [LeaseRequested] LeaseGranted),
     (''lease.renewed'', rule [LeaseGranted] LeaseGranted),
     (''lease.released'', rule [LeaseGranted] LeaseReleased),
     (''lease.expired'', rule [LeaseGranted] LeaseExpired),
     (''lease.revoked'', rule [LeaseGranted] LeaseRevoked)]"

definition Lease_Apply :: "gotime \<Rightarrow> Lease \<Rightarrow> string \<Rightarrow> DomErr + Lease" where
  "Lease_Apply now l trigger =
    (if LeaseState_Terminal (lState l) then Inl ErrPostTerminal
     else case map_of leaseTransitions trigger of
       None \<Rightarrow> Inl ErrUnknownEvent
     | Some r \<Rightarrow>
         if \<not> matchesState (rule_from r) (lState l) then Inl ErrIllegalTransition
         else let l1 = (if trigger = ''lease.released'' \<or> trigger = ''lease.expired'' \<or>
                           trigger = ''lease.revoked'' then l\<lparr>ReleasedAt := Some now\<rparr> else l)
              in Inr (l1\<lparr>lState := rule_to r\<rparr>))"

definition second :: duration where
  "second = 1000000000"

definition Lease_Renew :: "gotime \<Rightarrow> Lease \<Rightarrow> int \<Rightarrow> DomErr + Lease" where
  "Lease_Renew now l ttlSeconds =
    (case Lease_Apply now l ''lease.renewed'' of
       Inl err \<Rightarrow> Inl err
     | Inr l' \<Rightarrow>
         if ttlSeconds < 30 \<or> ttlSeconds > 3600 then Inl ErrValidationFailed
         else Inr (l'\<lparr>TTLExpiresAt := now + ttlSeconds * second,
                     RenewalCount := RenewalCount l' + 1\<rparr>))"

definition Lease_Expired :: "Lease \<Rightarrow> gotime \<Rightarrow> bool" where
  "Lease_Expired l now \<longleftrightarrow> lState l = LeaseGranted \<and> now > TTLExpiresAt l"

subsection \<open>Policy lifecycle\<close>

datatype PolicyStatus = PolicyDraft | PolicyActive | PolicyRetired

record DomResolvedPolicy =
  drRef :: PolicyRef
  drTier3RiskClasses :: "string list"
  drMinSelectionConfidence :: float64
  drProtectedPaths :: "string list"
  drRequiredEvidenceByRisk :: "string \<rightharpoonup> string list"
  drPerCandidateBudget :: BudgetValues
  drPerTenantHourCPU :: int
  drWIPByTier :: "int \<rightharpoonup> int"

definition DefaultPolicy :: DomResolvedPolicy where
  "DefaultPolicy = \<lparr>drRef = \<lparr>prPolicyID = ''pol_cisync_default'', prVersion = 1\<rparr>,
     drTier3RiskClasses = [''high'', ''critical''],
     drMinSelectionConfidence = 98 / 100,
     drProtectedPaths = [''auth/**'', ''migrations/**'', ''infrastructure/prod/**''],
     drRequiredEvidenceByRisk =
       [''low'' \<mapsto> [''hermetic_build'', ''selected_unit''],
        ''medium'' \<mapsto> [''hermetic_build'', ''selected_unit'', ''api_compat''],
        ''high'' \<mapsto> [''hermetic_build'', ''api_compat'', ''payment_contract'', ''idempotency_race'',
          ''sast_diff''],
        ''critical'' \<mapsto> [''hermetic_build'', ''api_compat'', ''full_integration'', ''human_approval'']],
     drPerCandidateBudget = \<lparr>CPUMinutes = 120, EnvironmentMinutes = 30, RepairAttempts = 2\<rparr>,
     drPerTenantHourCPU = 5000,
     drWIPByTier = [0 \<mapsto> 200, 1 \<mapsto> 60, 2 \<mapsto> 20, 3 \<mapsto> 6, 4 \<mapsto> 2]\<rparr>"

definition RequiredEvidence :: "DomResolvedPolicy \<Rightarrow> RiskClass \<Rightarrow> string list option" where
  "RequiredEvidence p r = drRequiredEvidenceByRisk p (RiskClass_string r)"

record PolicyDoc =
  pID :: string
  pVersion :: int
  pStatus :: PolicyStatus
  pBody :: DomResolvedPolicy
  pActivatedBy :: string
  pActivatedAt :: "gotime option"

definition PolicyStatus_Terminal :: "PolicyStatus \<Rightarrow> bool" where
  "PolicyStatus_Terminal s \<longleftrightarrow> s \<in> set [PolicyRetired]"

definition policyTransitions :: "PolicyStatus transitions" where
  "policyTransitions =
    [(''policy.activated'', rule [PolicyDraft] PolicyActive),
     (''policy.retired'', rule [PolicyActive] PolicyRetired)]"

definition Policy_Apply :: "PolicyDoc \<Rightarrow> string \<Rightarrow> DomErr + PolicyDoc" where
  "Policy_Apply p trigger =
    (if PolicyStatus_Terminal (pStatus p) then Inl ErrPostTerminal
     else case map_of policyTransitions trigger of
       None \<Rightarrow> Inl ErrUnknownEvent
     | Some r \<Rightarrow>
         if \<not> matchesState (rule_from r) (pStatus p) then Inl ErrIllegalTransition
         else Inr (p\<lparr>pStatus := rule_to r\<rparr>))"

subsection \<open>Repair task\<close>

datatype RepairState = RepairAuthorized | RepairDispatched | RepairIterating | RepairApplied
  | RepairExhausted | RepairAborted

record RepairEnvelope =
  reReproductionCommand :: string
  reFailedAssertion :: string
  reSuspectedDiffHunks :: "string list"
  reAllowedPaths :: "string list"
  reProhibitedPaths :: "string list"
  reMaxIterations :: int
  reRequiredEvidenceAfterRepair :: "string list"

record RepairTask =
  rtID :: string
  rtTenantID :: string
  rtFailureCaseID :: string
  rtCandidateID :: string
  rtState :: RepairState
  rtEnvelope :: RepairEnvelope
  AttemptsUsed :: int
  ResultingPatchRefs :: "string list"
  rtCreatedAt :: gotime

definition RepairState_Terminal :: "RepairState \<Rightarrow> bool" where
  "RepairState_Terminal s \<longleftrightarrow> s \<in> set [RepairApplied, RepairExhausted, RepairAborted]"

definition NewRepairTask ::
    "string \<Rightarrow> string \<Rightarrow> string \<Rightarrow> string \<Rightarrow> RepairEnvelope \<Rightarrow> gotime \<Rightarrow> RepairTask" where
  "NewRepairTask ident tenantID failureCaseID candidateID env now =
     \<lparr>rtID = ident, rtTenantID = tenantID, rtFailureCaseID = failureCaseID,
      rtCandidateID = candidateID, rtState = RepairAuthorized, rtEnvelope = env,
      AttemptsUsed = 0, ResultingPatchRefs = [], rtCreatedAt = now\<rparr>"

definition repairTransitions :: "RepairState transitions" where
  "repairTransitions =
    [(''repair.dispatched'', rule [RepairAuthorized] RepairDispatched),
     (''repair.iterating'', rule [RepairDispatched, RepairIterating] RepairIterating),
     (''repair.applied'', rule [RepairDispatched, RepairIterating] RepairApplied),
     (''repair.exhausted'', rule [RepairDispatched, RepairIterating] RepairExhausted),
     (''repair.aborted'', rule [RepairAuthorized, RepairDispatched, RepairIterating] RepairAborted)]"

definition Repair_Apply :: "RepairTask \<Rightarrow> string \<Rightarrow> DomErr + RepairTask" where
  "Repair_Apply t trigger =
    (if RepairState_Terminal (rtState t) then Inl ErrPostTerminal
     else case map_of repairTransitions trigger of
       None \<Rightarrow> Inl ErrUnknownEvent
     | Some r \<Rightarrow>
         if \<not> matchesState (rule_from r) (rtState t) then Inl ErrIllegalTransition
         else Inr (t\<lparr>rtState := rule_to r\<rparr>))"

text \<open>A method that may return an error after having changed its receiver gives both: the receiver
  afterwards and the error, if any.\<close>

definition apply_in_place :: "('a \<Rightarrow> string \<Rightarrow> DomErr + 'a) \<Rightarrow> 'a \<Rightarrow> string \<Rightarrow> 'a \<times> DomErr option" where
  "apply_in_place app a trigger =
     (case app a trigger of Inl e \<Rightarrow> (a, Some e) | Inr a' \<Rightarrow> (a', None))"

definition RecordAttempt :: "RepairTask \<Rightarrow> RepairTask \<times> DomErr option" where
  "RecordAttempt t0 =
    (case apply_in_place Repair_Apply t0 ''repair.iterating'' of (t, err) \<Rightarrow>
       if err \<noteq> None \<and> rtState t \<noteq> RepairDispatched \<and> rtState t \<noteq> RepairIterating then (t, err)
       else if AttemptsUsed t \<ge> reMaxIterations (rtEnvelope t)
       then apply_in_place Repair_Apply t ''repair.exhausted''
       else let t' = t\<lparr>AttemptsUsed := AttemptsUsed t + 1\<rparr>
            in if AttemptsUsed t' \<ge> reMaxIterations (rtEnvelope t')
               then apply_in_place Repair_Apply t' ''repair.exhausted''
               else (t', None))"

subsection \<open>Validation plan\<close>

datatype PlanState = PlanActive | PlanSatisfied | PlanInvalidated | PlanSuperseded

record Tier =
  tTier :: int
  tJobs :: "string list"
  tRationale :: string
  tSelectionConfidence :: "float64 option"

record ValidationPlan =
  vpID :: string
  vpTenantID :: string
  vpCandidateID :: string
  vpState :: PlanState
  vpTiers :: "Tier list"
  vpRequiredEvidenceKinds :: "string list"
  vpPolicy :: PolicyRef
  vpInputsHash :: string
  vpCreatedAt :: gotime

definition PlanState_Terminal :: "PlanState \<Rightarrow> bool" where
  "PlanState_Terminal s \<longleftrightarrow> s \<in> set [PlanSatisfied, PlanSuperseded]"

definition NewValidationPlan :: "string \<Rightarrow> string \<Rightarrow> string \<Rightarrow> Tier list \<Rightarrow> string list \<Rightarrow> PolicyRef \<Rightarrow>
    string \<Rightarrow> gotime \<Rightarrow> ValidationPlan" where
  "NewValidationPlan ident tenantID candidateID tiers requiredKinds pol inputsHash now =
     \<lparr>vpID = ident, vpTenantID = tenantID, vpCandidateID = candidateID, vpState = PlanActive,
      vpTiers = tiers, vpRequiredEvidenceKinds = requiredKinds, vpPolicy = pol,
      vpInputsHash = inputsHash, vpCreatedAt = now\<rparr>"

definition planTransitions :: "PlanState transitions" where
  "planTransitions =
    [(''plan.satisfied'', rule [PlanActive] PlanSatisfied),
     (''evidence.invalidated'', rule [PlanActive] PlanInvalidated),
     (''plan.rebuilt'', rule [PlanInvalidated] PlanActive),
     (''plan.superseded'', rule [PlanActive, PlanInvalidated] PlanSuperseded)]"

definition Plan_Apply :: "ValidationPlan \<Rightarrow> string \<Rightarrow> DomErr + ValidationPlan" where
  "Plan_Apply p trigger =
    (if PlanState_Terminal (vpState p) then Inl ErrPostTerminal
     else case map_of planTransitions trigger of
       None \<Rightarrow> Inl ErrUnknownEvent
     | Some r \<Rightarrow>
         if \<not> matchesState (rule_from r) (vpState p) then Inl ErrIllegalTransition
         else Inr (p\<lparr>vpState := rule_to r\<rparr>))"

subsection \<open>Validation run\<close>

datatype RunState = RunQueued | RunDispatched | RunRunning | RunSucceeded | RunFailed | RunTimedOut
  | RunCancelled

text \<open>\<open>jsSimProfile\<close> is the JSON text of the free-form \<^verbatim>\<open>sim_profile\<close> map.\<close>

record DomJobSpec =
  jsKind :: string
  jsRepo :: string
  jsBaseSHA :: string
  jsHeadSHA :: string
  jsPatchRef :: string
  jsInputsHash :: string
  jsTimeoutMS :: int
  jsSimProfile :: string
  jsPreFetchedBundleRef :: string

record ValidationRun =
  vrID :: string
  vrTenantID :: string
  vrPlanID :: string
  vrCandidateID :: string
  vrState :: RunState
  vrTier :: int
  vrJobSpec :: DomJobSpec
  vrAttempt :: int
  vrPool :: string
  vrEstDurationMS :: int
  vrEstCostMillicents :: int
  vrPriority :: float64
  vrFenceToken :: int
  vrTimeoutMS :: int
  vrDispatchedAt :: "gotime option"
  vrFinishedAt :: "gotime option"
  vrCreatedAt :: gotime

definition RunState_Terminal :: "RunState \<Rightarrow> bool" where
  "RunState_Terminal s \<longleftrightarrow> s \<in> set [RunSucceeded, RunCancelled]"

definition NewValidationRun :: "string \<Rightarrow> string \<Rightarrow> string \<Rightarrow> string \<Rightarrow> int \<Rightarrow> DomJobSpec \<Rightarrow> string \<Rightarrow>
    int \<Rightarrow> int \<Rightarrow> float64 \<Rightarrow> gotime \<Rightarrow> ValidationRun" where
  "NewValidationRun ident tenantID planID candidateID tier spec pool estDurationMS estCost priority now =
     \<lparr>vrID = ident, vrTenantID = tenantID, vrPlanID = planID, vrCandidateID = candidateID,
      vrState = RunQueued, vrTier = tier, vrJobSpec = spec, vrAttempt = 1, vrPool = pool,
      vrEstDurationMS = estDurationMS, vrEstCostMillicents = estCost, vrPriority = priority,
      vrFenceToken = 0, vrTimeoutMS = jsTimeoutMS spec, vrDispatchedAt = None,
      vrFinishedAt = None, vrCreatedAt = now\<rparr>"

definition runTransitions :: "RunState transitions" where
  "runTransitions =
    [(''run.dispatched'', rule [RunQueued] RunDispatched),
     (''run.claimed'', rule [RunDispatched] RunRunning),
     (''run.succeeded'', rule [RunRunning, RunDispatched] RunSucceeded),
     (''run.failed'', rule [RunRunning, RunDispatched] RunFailed),
     (''run.timed_out'', rule [RunRunning, RunDispatched] RunTimedOut),
     (''run.retry'', rule [RunFailed] RunQueued),
     (''run.cancelled'', rule [RunQueued, RunDispatched, RunRunning] RunCancelled)]"

definition Run_Apply :: "gotime \<Rightarrow> ValidationRun \<Rightarrow> string \<Rightarrow> DomErr + ValidationRun" where
  "Run_Apply now r trigger =
    (if RunState_Terminal (vrState r) then Inl ErrPostTerminal
     else case map_of runTransitions trigger of
       None \<Rightarrow> Inl ErrUnknownEvent
     | Some rl \<Rightarrow>
         if \<not> matchesState (rule_from rl) (vrState r) then Inl ErrIllegalTransition
         else let r1 = (if trigger = ''run.retry''
                        then r\<lparr>vrAttempt := vrAttempt r + 1, vrFenceToken := vrFenceToken r + 1\<rparr>
                        else if trigger = ''run.dispatched'' \<or> trigger = ''run.claimed''
                        then r\<lparr>vrDispatchedAt := Some now\<rparr>
                        else r\<lparr>vrFinishedAt := Some now\<rparr>);
                  r2 = (if trigger = ''run.cancelled'' \<or> trigger = ''run.succeeded'' \<or>
                           trigger = ''run.failed'' \<or> trigger = ''run.timed_out''
                        then r1\<lparr>vrDispatchedAt := None\<rparr> else r1)
              in Inr (r2\<lparr>vrState := rule_to rl\<rparr>))"

end
