(* ===== verification/Lifecycle.thy ===== *)
theory Lifecycle
  imports Domain "HOL-Library.Sublist"
begin

text \<open>
  The lifecycle laws of the ten aggregates: each \<^verbatim>\<open>Apply\<close> meets the contract
  \<open>aggregate\<close>, and the consequences the rest of the control plane relies on (invariant
  I-08, fencing epochs, bounded repair, immutable classification).
\<close>

text \<open>Concrete aggregates for the witnesses.\<close>

definition sample_run :: ValidationRun where
  "sample_run = NewValidationRun ''run_1'' ''ten_1'' ''pln_1'' ''cand_1'' 0
     \<lparr>jsKind = ''hermetic_build'', jsRepo = ''acme/shop'', jsBaseSHA = [], jsHeadSHA = [],
      jsPatchRef = [], jsInputsHash = [], jsTimeoutMS = 60000, jsSimProfile = [], jsPreFetchedBundleRef = []\<rparr>
     ''pool'' 60000 0 0 7"

definition sample_candidate :: Candidate where
  "sample_candidate = \<lparr>cID = ''cand_1'', cTenantID = ''ten_1'', cIntentID = ''int_1'',
     cState = CandSubmitted, Submitter = ''agent'', cPatchRef = [], cHeadSHA = [], cBaseSHA = [],
     cChangedPaths = [''src/a.go''], cEstCostMillicents = 0, PriorityScore = 0, cClusterID = [],
     cRelationToRep = None, cRepo = ''acme/shop'', cPRNumber = 0, RerunCount = 0, cCreatedAt = 0\<rparr>"

definition sample_failure :: FailureCase where
  "sample_failure = NewFailureCase ''fail_1'' ''ten_1'' ''cand_1'' ''run_1'' ''sig'' ''make test'' [] 0"

lemmas terminal_defs [fsm_simps] =
  IntentState_Terminal_def CandidateState_Terminal_def ClusterState_Terminal_def
  EvidenceStatus_Terminal_def FailureState_Terminal_def LeaseState_Terminal_def
  PolicyStatus_Terminal_def RepairState_Terminal_def PlanState_Terminal_def RunState_Terminal_def

lemmas table_defs [fsm_simps] =
  intentTransitions_def candidateTransitions_def clusterTransitions_def evidenceTransitions_def
  failureTransitions_def leaseTransitions_def policyTransitions_def repairTransitions_def
  planTransitions_def runTransitions_def

interpretation intents: aggregate iState IntentState_Terminal intentTransitions "Intent_Apply now" for now
  by unfold_locales (simp_all add: Intent_Apply_def Let_def)

interpretation candidates: aggregate cState CandidateState_Terminal candidateTransitions Candidate_Apply
  by unfold_locales (simp_all add: Candidate_Apply_def)

interpretation clusters: aggregate clState ClusterState_Terminal clusterTransitions Cluster_Apply
  by unfold_locales (simp_all add: Cluster_Apply_def)

interpretation evidences: aggregate evStatus EvidenceStatus_Terminal evidenceTransitions
    "Evidence_Apply now" for now
  by unfold_locales (simp_all add: Evidence_Apply_def Let_def)

interpretation failures: aggregate fcState FailureState_Terminal failureTransitions Failure_Apply
  by unfold_locales (simp_all add: Failure_Apply_def)

interpretation leases: aggregate lState LeaseState_Terminal leaseTransitions "Lease_Apply now" for now
  by unfold_locales (simp_all add: Lease_Apply_def Let_def)

interpretation policies: aggregate pStatus PolicyStatus_Terminal policyTransitions Policy_Apply
  by unfold_locales (simp_all add: Policy_Apply_def)

interpretation repairs: aggregate rtState RepairState_Terminal repairTransitions Repair_Apply
  by unfold_locales (simp_all add: Repair_Apply_def)

interpretation plans: aggregate vpState PlanState_Terminal planTransitions Plan_Apply
  by unfold_locales (simp_all add: Plan_Apply_def)

interpretation runs: aggregate vrState RunState_Terminal runTransitions "Run_Apply now" for now
  by unfold_locales (simp_all add: Run_Apply_def Let_def)

lemma Run_Apply_epochs:
  "Run_Apply now r t = Inr r' \<Longrightarrow>
     vrAttempt r' - vrAttempt r = vrFenceToken r' - vrFenceToken r \<and> vrFenceToken r \<le> vrFenceToken r' \<and>
     vrID r' = vrID r \<and> vrTenantID r' = vrTenantID r"
  by (clarsimp simp: Run_Apply_def Let_def split: option.split_asm if_split_asm)

text \<open>Whatever triggers are delivered to a validation run, its attempt counter and its
  fence token advance together and never decrease, and its identity and tenant are kept: every
  retry opens a new fencing epoch and nothing else does.\<close>

theorem run_epochs_lockstep:
  "vrAttempt (deliver_all (Run_Apply now) r ts) - vrAttempt r =
     vrFenceToken (deliver_all (Run_Apply now) r ts) - vrFenceToken r \<and>
   vrFenceToken r \<le> vrFenceToken (deliver_all (Run_Apply now) r ts) \<and>
   vrID (deliver_all (Run_Apply now) r ts) = vrID r \<and>
   vrTenantID (deliver_all (Run_Apply now) r ts) = vrTenantID r"
  (is "?P (deliver_all _ _ _)")
proof (rule deliver_all_invariant [where P = ?P])
  show "?P r" by simp
  show "?P (deliver (Run_Apply now) b t)" if "?P b" for b t
    using that by (intro deliver_invariantI [where P = ?P]) (auto dest: Run_Apply_epochs)
qed

lemma Run_Apply_timed_out: "vrState r = RunTimedOut \<Longrightarrow> \<exists>e. Run_Apply now r t = Inl e"
  by (auto simp: Run_Apply_def fsm_simps Let_def split: option.splits if_splits)

text \<open>A timed-out run is not in a terminal state, yet every trigger is rejected there:
  no delivered sequence of triggers changes the run. (\<^verbatim>\<open>run.timed_out\<close> has
  no outgoing row in the table, while \<^verbatim>\<open>run.failed\<close> has
  \<^verbatim>\<open>run.retry\<close>.)\<close>

theorem timed_out_run_is_stuck:
  assumes "vrState r = RunTimedOut"
  shows "\<not> RunState_Terminal (vrState r) \<and> deliver_all (Run_Apply now) r ts = r"
proof -
  have "deliver (Run_Apply now) r t = r" for t
    using Run_Apply_timed_out [OF assms, of now t] by (auto simp: deliver_def)
  then have "deliver_all (Run_Apply now) r ts = r"
    by (intro deliver_all_invariant [where P = "\<lambda>x. x = r"]) simp_all
  with assms show ?thesis by (simp add: fsm_simps)
qed

theorem timed_out_run_is_stuck_witness:
  "deliver_all (Run_Apply 9) (sample_run\<lparr>vrState := RunTimedOut\<rparr>) [''run.retry'', ''run.cancelled''] =
     sample_run\<lparr>vrState := RunTimedOut\<rparr>"
  using timed_out_run_is_stuck [of "sample_run\<lparr>vrState := RunTimedOut\<rparr>" 9] by (simp del: deliver_all_simps)



fun eligibility_trace :: "CandidateState \<Rightarrow> string list" where
  "eligibility_trace CandPlanned = [''validation.planned'']"
| "eligibility_trace CandValidating = [''validation.planned'', ''validation.admitted'']"
| "eligibility_trace CandRepairing = [''validation.planned'', ''validation.admitted'', ''repair.authorized'']"
| "eligibility_trace CandEligible =
     [''validation.planned'', ''validation.admitted'', ''decision.eligible'']"
| "eligibility_trace _ = []"

lemma deliver_all_snoc: "deliver_all app a (ts @ [t]) = deliver app (deliver_all app a ts) t"
  by (simp add: deliver_all_def)

lemma subseq_snocI:
  "subseq xs (ts @ [t])" if "subseq xs ts \<or> (\<exists>ys. xs = ys @ [t] \<and> subseq ys ts)"
  using that by (auto intro: subseq_order.trans [OF _ list_emb_append2] simp: subseq_append)

lemma subseq_butlastD: "subseq (xs @ ys) ts \<Longrightarrow> subseq xs ts"
  by (rule subseq_order.trans [OF _]) auto

lemma Candidate_Apply_trace:
  assumes "Candidate_Apply c t = Inr c'" and "subseq (eligibility_trace (cState c)) ts"
  shows "subseq (eligibility_trace (cState c')) (ts @ [t])"
proof -
  have "subseq [''validation.planned'', ''validation.admitted''] ts"
    if "subseq [''validation.planned'', ''validation.admitted'', ''repair.authorized''] ts"
    using that subseq_butlastD [of "[''validation.planned'', ''validation.admitted'']" "[''repair.authorized'']" ts]
    by simp
  with assms show ?thesis
    by (intro subseq_snocI)
       (auto simp: Candidate_Apply_def fsm_simps split: option.splits if_splits)
qed

lemma Candidate_trace:
  "cState c = CandSubmitted \<Longrightarrow>
     subseq (eligibility_trace (cState (deliver_all Candidate_Apply c ts))) ts"
proof (induction ts rule: rev_induct)
  case Nil
  then show ?case by simp
next
  case (snoc t ts)
  then show ?case
    by (auto simp: deliver_all_snoc deliver_def split: sum.splits intro: Candidate_Apply_trace
        subseq_snocI)
qed

text \<open>A candidate that reaches \<^verbatim>\<open>eligible\<close> was planned, then admitted, then
  decided, in that order: the delivered triggers contain these three as a subsequence, whatever else
  was delivered in between.\<close>

theorem eligible_only_after_validation:
  assumes "cState c = CandSubmitted"
    and "cState (deliver_all Candidate_Apply c ts) = CandEligible"
  shows "subseq [''validation.planned'', ''validation.admitted'', ''decision.eligible''] ts"
  using Candidate_trace [OF assms(1), of ts] assms(2) by simp

theorem eligible_only_after_validation_witness:
  "cState sample_candidate = CandSubmitted \<and>
   subseq [''validation.planned'', ''validation.admitted'', ''decision.eligible'']
     [''validation.planned'', ''validation.admitted'', ''validation.planned'', ''decision.eligible'']"
proof
  show init: "cState sample_candidate = CandSubmitted" by (simp add: sample_candidate_def)
  have "cState (deliver_all Candidate_Apply sample_candidate
      [''validation.planned'', ''validation.admitted'', ''validation.planned'', ''decision.eligible'']) = CandEligible"
    by (simp add: init deliver_def Candidate_Apply_def candidateTransitions_def CandidateState_Terminal_def)
  then show "subseq [''validation.planned'', ''validation.admitted'', ''decision.eligible'']
     [''validation.planned'', ''validation.admitted'', ''validation.planned'', ''decision.eligible'']"
    by (rule eligible_only_after_validation [OF init])
qed

lemma RecordAttempt_live:
  assumes "rtState t \<in> {RepairDispatched, RepairIterating}"
  shows "RecordAttempt t =
    (t\<lparr>rtState := (if AttemptsUsed t + 1 \<ge> reMaxIterations (rtEnvelope t) then RepairExhausted
                  else RepairIterating),
       AttemptsUsed := (if AttemptsUsed t \<ge> reMaxIterations (rtEnvelope t) then AttemptsUsed t
                        else AttemptsUsed t + 1)\<rparr>, None)"
  using assms
  by (auto simp: RecordAttempt_def apply_in_place_def Repair_Apply_def fsm_simps Let_def)

lemma RecordAttempt_exhausted:
  "rtState t = RepairExhausted \<Longrightarrow> RecordAttempt t = (t, Some ErrPostTerminal)"
  by (simp add: RecordAttempt_def apply_in_place_def Repair_Apply_def fsm_simps)

lemma RecordAttempt_iterate:
  assumes "rtState t = RepairDispatched" and "AttemptsUsed t = 0"
  defines "m \<equiv> reMaxIterations (rtEnvelope t)"
  shows "((fst \<circ> RecordAttempt) ^^ n) t =
    t\<lparr>rtState := (if n = 0 then RepairDispatched else if int n \<ge> m then RepairExhausted else RepairIterating),
      AttemptsUsed := min (int n) (max 0 m)\<rparr>"
proof (induction n)
  case 0
  then show ?case using assms by (cases t) simp
next
  case (Suc n)
  consider "n = 0" | "n \<noteq> 0" "int n \<ge> m" | "n \<noteq> 0" "int n < m" by linarith
  then show ?case
    using Suc assms(1,2) 
    by cases (auto simp: RecordAttempt_live RecordAttempt_exhausted m_def)
qed

text \<open>A dispatched repair task asked to record \<open>n\<close> attempts has used
  exactly \<open>min n max_iterations\<close> of them, and it is exhausted exactly when
  \<open>n\<close> has reached the limit (a limit below one behaves as one recorded call).\<close>

theorem repair_iterations_bounded:
  assumes "rtState t = RepairDispatched" and "AttemptsUsed t = 0"
  shows "AttemptsUsed (((fst \<circ> RecordAttempt) ^^ n) t) = min (int n) (max 0 (reMaxIterations (rtEnvelope t))) \<and>
    (rtState (((fst \<circ> RecordAttempt) ^^ n) t) = RepairExhausted \<longleftrightarrow>
       int n \<ge> max 1 (reMaxIterations (rtEnvelope t)))"
  unfolding RecordAttempt_iterate [OF assms] by auto

theorem repair_iterations_bounded_witness:
  "\<exists>t. rtState t = RepairDispatched \<and> reMaxIterations (rtEnvelope t) = 2 \<and>
     rtState (((fst \<circ> RecordAttempt) ^^ 2) t) = RepairExhausted"
proof -
  define t where "t = (NewRepairTask ''t'' ''ten'' ''f'' ''c''
    \<lparr>reReproductionCommand = [], reFailedAssertion = [], reSuspectedDiffHunks = [],
     reAllowedPaths = [], reProhibitedPaths = [], reMaxIterations = 2,
     reRequiredEvidenceAfterRepair = []\<rparr> 0)\<lparr>rtState := RepairDispatched\<rparr>"
  have "rtState t = RepairDispatched" "AttemptsUsed t = 0" "reMaxIterations (rtEnvelope t) = 2"
    by (simp_all add: t_def NewRepairTask_def)
  with repair_iterations_bounded [of t 2] show ?thesis by auto
qed

lemma Failure_Apply_keeps:
  "Failure_Apply f t = Inr f' \<Longrightarrow> f' = f\<lparr>fcState := fcState f'\<rparr>"
  by (clarsimp simp: Failure_Apply_def split: option.split_asm if_split_asm)

lemma Failure_Apply_past_open:
  assumes "fcState f \<noteq> FailureOpen" and "Failure_Apply f t = Inr f'"
  shows "fcState f' \<noteq> FailureOpen"
  using failures.app_step [OF assms(2)] assms(1)
  by (auto simp: fsm_simps elim!: table_stepE split: if_split_asm)

lemma Classify_past_open:
  "fcState f \<noteq> FailureOpen \<Longrightarrow> \<exists>e. FailureCase_Classify f c conf = Inl e"
  by (auto simp: FailureCase_Classify_def Failure_Apply_def fsm_simps)

text \<open>A failure case is classified once: after a successful
  \<^verbatim>\<open>Classify\<close>, every later sequence of lifecycle triggers keeps
  classification, confidence and route, and every later \<^verbatim>\<open>Classify\<close> is
  refused.\<close>

theorem classification_final:
  assumes "FailureCase_Classify f c conf = Inr f1"
  shows "let f2 = deliver_all Failure_Apply f1 ts in
    fcClassification f2 = Some c \<and> fcConfidence f2 = conf \<and>
    fcRoutedAction f2 = domain_routeForClass c \<and>
    (\<forall>c' conf'. \<exists>e. FailureCase_Classify f2 c' conf' = Inl e)"
proof -
  define P where "P f2 \<longleftrightarrow> fcClassification f2 = Some c \<and> fcConfidence f2 = conf \<and>
    fcRoutedAction f2 = domain_routeForClass c \<and> fcState f2 \<noteq> FailureOpen" for f2 :: FailureCase
  have "P f1"
    using assms by (auto simp: P_def FailureCase_Classify_def Failure_Apply_def fsm_simps
        split: sum.split_asm if_split_asm)
  moreover have "P (deliver Failure_Apply b t)" if "P b" for b t
  proof (rule deliver_invariantI [where P = P, OF that])
    fix b' assume app: "Failure_Apply b t = Inr b'"
    then have "b' = b\<lparr>fcState := fcState b'\<rparr>" by (rule Failure_Apply_keeps)
    then have "fcClassification b' = fcClassification b" "fcConfidence b' = fcConfidence b"
      "fcRoutedAction b' = fcRoutedAction b" by (metis FailureCase.select_convs FailureCase.surjective FailureCase.update_convs)+
    with that Failure_Apply_past_open [OF _ app] show "P b'" by (simp add: P_def)
  qed
  ultimately have "P (deliver_all Failure_Apply f1 ts)"
    by (rule deliver_all_invariant)
  then show ?thesis by (simp add: Let_def P_def Classify_past_open)
qed

theorem classification_final_witness:
  "\<exists>f1. FailureCase_Classify sample_failure ClassTimeout 1 = Inr f1 \<and>
     fcClassification (deliver_all Failure_Apply f1 [''failure.routed'', ''failure.closed'']) = Some ClassTimeout"
proof -
  obtain f1 where f1: "FailureCase_Classify sample_failure ClassTimeout 1 = Inr f1"
    by (simp add: FailureCase_Classify_def Failure_Apply_def sample_failure_def NewFailureCase_def
        failureTransitions_def FailureState_Terminal_def)
  show ?thesis
    using f1 classification_final [OF f1, of "[''failure.routed'', ''failure.closed'']"]
    by (simp add: Let_def del: deliver_all_simps)
qed

text \<open>\<^verbatim>\<open>Lease.Renew\<close> succeeds exactly on a granted lease with a
  TTL of 30 to 3600 seconds, and then changes only the expiry (counted from now) and the renewal
  count; otherwise it gives the error of the failing guard.\<close>

theorem Lease_Renew_correct:
  "Lease_Renew now l ttl = 
    (if lState l = LeaseGranted \<and> 30 \<le> ttl \<and> ttl \<le> 3600
     then Inr (l\<lparr>TTLExpiresAt := now + ttl * second, RenewalCount := RenewalCount l + 1\<rparr>)
     else Inl (if LeaseState_Terminal (lState l) then ErrPostTerminal
               else if lState l = LeaseRequested then ErrIllegalTransition else ErrValidationFailed))"
  by (cases "lState l") (auto simp: Lease_Renew_def Lease_Apply_def fsm_simps)

end
