(* ===== verification/Sprintf.thy ===== *)
theory Sprintf
  imports Prelude
begin

text \<open>
  The formatting verbs the services build keys and hash inputs with: \<^verbatim>\<open>%d\<close> as
  \<open>itoa\<close>, string concatenation for \<^verbatim>\<open>%s\<close>, \<^verbatim>\<open>strings.ToLower\<close> on
  ASCII, and the facts that make such keys injective: decimal numerals determine their number and contain no
  separator, and a separator that does not occur in the first component splits a string uniquely.
\<close>

definition digit_char :: "nat \<Rightarrow> char" where
  "digit_char d = char_of (48 + d)"

fun dec_nat :: "nat \<Rightarrow> string" where
  "dec_nat n = (if n < 10 then [digit_char n] else dec_nat (n div 10) @ [digit_char (n mod 10)])"

declare dec_nat.simps [simp del]

definition itoa :: "int \<Rightarrow> string" where
  "itoa i = (if i < 0 then CHR ''-'' # dec_nat (nat (- i)) else dec_nat (nat i))"

definition is_digit :: "char \<Rightarrow> bool" where
  "is_digit c \<longleftrightarrow> 48 \<le> (of_char c :: nat) \<and> (of_char c :: nat) \<le> 57"

definition to_lower_char :: "char \<Rightarrow> char" where
  "to_lower_char c = (if 65 \<le> (of_char c :: nat) \<and> (of_char c :: nat) \<le> 90 then char_of ((of_char c :: nat) + 32) else c)"

definition ToLower :: "string \<Rightarrow> string" where
  "ToLower s = map to_lower_char s"

text \<open>\<^verbatim>\<open>strings.TrimSpace\<close> on ASCII and \<^verbatim>\<open>strings.HasPrefix\<close>.\<close>

definition is_space :: "char \<Rightarrow> bool" where
  "is_space c \<longleftrightarrow> c \<in> {CHR '' '', CHR 0x09, CHR 0x0A, CHR 0x0B, CHR 0x0C, CHR 0x0D}"

definition TrimSpace :: "string \<Rightarrow> string" where
  "TrimSpace s = rev (dropWhile is_space (rev (dropWhile is_space s)))"

definition has_prefix :: "string \<Rightarrow> string \<Rightarrow> bool" where
  "has_prefix s p \<longleftrightarrow> take (length p) s = p"

text \<open>The zero value of \<^verbatim>\<open>time.Time\<close>: year 1, in nanoseconds of the Unix epoch.\<close>

definition zero_time :: gotime where
  "zero_time = - 62135596800000000000"

subsection \<open>Numerals\<close>

definition read_nat :: "string \<Rightarrow> nat" where
  "read_nat s = foldl (\<lambda>acc c. acc * 10 + (of_char c - 48)) 0 s"

lemma of_char_digit: "d < 10 \<Longrightarrow> (of_char (digit_char d) :: nat) = 48 + d"
  by (simp add: digit_char_def)

lemma is_digit_digit_char: "d < 10 \<Longrightarrow> is_digit (digit_char d)"
  by (simp add: is_digit_def of_char_digit)

lemma dec_nat_digits: "\<forall>c \<in> set (dec_nat n). is_digit c"
proof (induction n rule: dec_nat.induct)
  case (1 n)
  then show ?case by (subst dec_nat.simps) (auto simp: is_digit_digit_char)
qed

lemma dec_nat_ne [simp]: "dec_nat n \<noteq> []"
  by (subst dec_nat.simps) simp

lemma read_dec_nat: "read_nat (dec_nat n) = n"
proof (induction n rule: dec_nat.induct)
  case (1 n)
  then show ?case by (subst dec_nat.simps) (auto simp: read_nat_def of_char_digit)
qed

lemma dec_nat_inject: "dec_nat m = dec_nat n \<longleftrightarrow> m = n"
  by (metis read_dec_nat)

lemma itoa_chars: "c \<in> set (itoa i) \<Longrightarrow> is_digit c \<or> c = CHR ''-''"
  using dec_nat_digits by (auto simp: itoa_def split: if_splits)

lemma dec_nat_hd_not_minus: "dec_nat n \<noteq> CHR ''-'' # s"
proof
  assume "dec_nat n = CHR ''-'' # s"
  then have "is_digit (CHR ''-'')" using dec_nat_digits [of n] by simp
  then show False by (simp add: is_digit_def)
qed

lemma itoa_inject [simp]: "itoa i = itoa j \<longleftrightarrow> i = j"
  using dec_nat_hd_not_minus dec_nat_hd_not_minus [symmetric]
  by (auto simp: itoa_def dec_nat_inject split: if_splits)

lemma itoa_free: "\<not> is_digit c \<Longrightarrow> c \<noteq> CHR ''-'' \<Longrightarrow> c \<notin> set (itoa i)"
  using itoa_chars by blast

lemma itoa_no_bar: "CHR ''|'' \<notin> set (itoa i)"
  by (rule itoa_free) (simp_all add: is_digit_def)

lemma itoa_no_colon: "CHR '':'' \<notin> set (itoa i)"
  by (rule itoa_free) (simp_all add: is_digit_def)

subsection \<open>Separators\<close>

lemma sep_split:
  "c \<notin> set a \<Longrightarrow> c \<notin> set a' \<Longrightarrow> a @ c # b = a' @ c # b' \<longleftrightarrow> a = a' \<and> b = b'"
proof (induction a arbitrary: a')
  case Nil
  then show ?case by (cases a') auto
next
  case (Cons x a)
  then show ?case by (cases a') auto
qed

lemma sep_split_last:
  assumes "c \<notin> set b" and "c \<notin> set b'"
  shows "a @ c # b = a' @ c # b' \<longleftrightarrow> a = a' \<and> b = b'"
proof
  assume "a @ c # b = a' @ c # b'"
  then have "rev b @ c # rev a = rev b' @ c # rev a'"
    by (metis append.assoc append_Cons append_Nil rev.simps(2) rev_append)
  then show "a = a' \<and> b = b'"
    using sep_split [of c "rev b" "rev b'" "rev a" "rev a'"] assms by simp
qed simp

text \<open>\<^verbatim>\<open>strconv.Atoi\<close> and \<^verbatim>\<open>strconv.ParseInt(s, 10, 64)\<close>, on a 64-bit platform.\<close>

definition Atoi :: "string \<Rightarrow> int option" where
  "Atoi s = (let neg = (take 1 s = ''-''); ds = (if take 1 s = ''-'' \<or> take 1 s = ''+'' then drop 1 s else s);
       n = (if neg then - int (read_nat ds) else int (read_nat ds)) in
     if ds = [] \<or> \<not> list_all is_digit ds \<or> \<not> i64_ok n then None else Some n)"

subsection \<open>Numbers and times as text\<close>

text \<open>\<^verbatim>\<open>%.2f\<close>: two decimals, ties to even.\<close>

definition round_even :: "rat \<Rightarrow> int" where
  "round_even y = (let f = \<lfloor>y\<rfloor>; r = y - of_int f in
     if r < 1 / 2 then f else if 1 / 2 < r then f + 1 else if even f then f else f + 1)"

definition zero_pad :: "nat \<Rightarrow> int \<Rightarrow> string" where
  "zero_pad width n = (let ds = dec_nat (nat \<bar>n\<bar>) in
     (if n < 0 then ''-'' else []) @ replicate (width - length ds) (CHR ''0'') @ ds)"

definition fmt_2f :: "float64 \<Rightarrow> string" where
  "fmt_2f x = (let n = round_even (\<bar>x\<bar> * 100) in
     (if x < 0 then ''-'' else []) @ itoa (n div 100) @ ''.'' @ zero_pad 2 (n mod 100))"

text \<open>\<^verbatim>\<open>t.UTC().Format\<close>: year, month and day of a number of days since 1970-01-01 in the
  Gregorian calendar, and the layouts \<^verbatim>\<open>time.RFC3339\<close> (with \<^verbatim>\<open>Z\<close>, as the
  time is in UTC) and \<^verbatim>\<open>20060102150405\<close>.\<close>

definition civil_date :: "int \<Rightarrow> int \<times> int \<times> int" where
  "civil_date days =
    (let z = days + 719468; era = z div 146097; doe = z mod 146097;
         yoe = (doe - doe div 1460 + doe div 36524 - doe div 146096) div 365;
         doy = doe - (365 * yoe + yoe div 4 - yoe div 100);
         mp = (5 * doy + 2) div 153;
         d = doy - (153 * mp + 2) div 5 + 1;
         m = (if mp < 10 then mp + 3 else mp - 9);
         y = yoe + era * 400 in
     (if m \<le> 2 then y + 1 else y, m, d))"

definition rfc3339 :: "gotime \<Rightarrow> string" where
  "rfc3339 t = (let secs = t div 1000000000; (y, m, d) = civil_date (secs div 86400); s = secs mod 86400 in
     zero_pad 4 y @ ''-'' @ zero_pad 2 m @ ''-'' @ zero_pad 2 d @ ''T'' @ zero_pad 2 (s div 3600) @ '':'' @
     zero_pad 2 (s div 60 mod 60) @ '':'' @ zero_pad 2 (s mod 60) @ ''Z'')"

definition compact_stamp :: "gotime \<Rightarrow> string" where
  "compact_stamp t = (let secs = t div 1000000000; (y, m, d) = civil_date (secs div 86400); s = secs mod 86400 in
     zero_pad 4 y @ zero_pad 2 m @ zero_pad 2 d @ zero_pad 2 (s div 3600) @ zero_pad 2 (s div 60 mod 60) @ zero_pad 2 (s mod 60))"

text \<open>The code points U+00B7, U+2192 and the line feed.\<close>

definition middot :: string where
  "middot = [CHR 0xC2, CHR 0xB7]"

definition rarrow :: string where
  "rarrow = [CHR 0xE2, CHR 0x86, CHR 0x92]"

definition line_feed :: string where
  "line_feed = [CHR 0x0A]"

end
