(* ===== verification/Ledger.thy ===== *)
theory Ledger
  imports Sprintf Aggregate
begin

text \<open>
  The hash-chained event ledger: the envelope of \<^verbatim>\<open>domain/event.go\<close>, the chained append of
  \<^verbatim>\<open>store/ledger.go\<close> with its outbox rows and signed checkpoints, and the verification pass of
  \<^verbatim>\<open>verify/verifier.go\<close>. Parameters, gathered in the record \<open>Crypto\<close>: the hexadecimal
  SHA-256 digest, the canonical JSON encoder (two \<^verbatim>\<open>encoding/json\<close> round trips), the Ed25519
  signature over a checkpoint message and its verification. Rows are kept in insertion order, which the
  lemmas show to be the order of \<^verbatim>\<open>seq\<close>; the primary key on \<^verbatim>\<open>seq\<close> and the unique
  indexes on event ids make an insert fail.
\<close>

datatype json = JNull | JBool bool | JInt int | JNum float64 | JStr string | JArr "json list" | JObj "(string \<times> json) list"

record Crypto =
  crSHA256 :: "string \<Rightarrow> string"
  crCanonicalJSON :: "json \<Rightarrow> string"
  crSign :: "string \<Rightarrow> string"
  crVerify :: "string \<Rightarrow> string \<Rightarrow> bool"

record AggregateRef =
  agType :: string
  agID :: string

record EventActor =
  actKind :: string
  actID :: string

record Event =
  eID :: string
  eSeq :: int
  eType :: string
  eVersion :: int
  eTenantID :: string
  eAggregate :: AggregateRef
  eCausationID :: string
  eCorrelationID :: string
  eActor :: EventActor
  eOccurredAt :: gotime
  ePayloadSHA256 :: string
  ePrevHash :: string
  eEntryHash :: string
  ePayload :: json

definition HashPrefix :: string where
  "HashPrefix = ''sha256:''"

definition genesisHash :: string where
  "genesisHash = HashPrefix @ replicate 64 (CHR ''0'')"

definition trimHashPrefix :: "string \<Rightarrow> string" where
  "trimHashPrefix s = (if length s > length HashPrefix \<and> take (length HashPrefix) s = HashPrefix
     then drop (length HashPrefix) s else s)"

definition HashPayload :: "Crypto \<Rightarrow> json \<Rightarrow> string" where
  "HashPayload cr payload = HashPrefix @ crSHA256 cr (crCanonicalJSON cr payload)"

definition entry_material :: "int \<Rightarrow> string \<Rightarrow> string \<Rightarrow> int \<Rightarrow> string \<Rightarrow> string \<Rightarrow> string" where
  "entry_material seq ident eventType version payloadSHA prevHash =
     itoa seq @ ''|'' @ ident @ ''|'' @ eventType @ ''|'' @ itoa version @ ''|'' @
     trimHashPrefix payloadSHA @ ''|'' @ trimHashPrefix prevHash"

definition ComputeEntryHash :: "Crypto \<Rightarrow> int \<Rightarrow> string \<Rightarrow> string \<Rightarrow> int \<Rightarrow> string \<Rightarrow> string \<Rightarrow> string" where
  "ComputeEntryHash cr seq ident eventType version payloadSHA prevHash =
     HashPrefix @ crSHA256 cr (entry_material seq ident eventType version payloadSHA prevHash)"

definition NewEvent :: "Crypto \<Rightarrow> string \<Rightarrow> gotime \<Rightarrow> string \<Rightarrow> string \<Rightarrow> AggregateRef \<Rightarrow> string \<Rightarrow> string \<Rightarrow>
    string \<Rightarrow> EventActor \<Rightarrow> json \<Rightarrow> Event" where
  "NewEvent cr newID now newCorrelationID tenantID agg eventType causationID correlationID actor payload =
     \<lparr>eID = newID, eSeq = 0, eType = eventType, eVersion = 1, eTenantID = tenantID, eAggregate = agg,
      eCausationID = causationID,
      eCorrelationID = (if correlationID = [] then newCorrelationID else correlationID),
      eActor = actor, eOccurredAt = now, ePayloadSHA256 = HashPayload cr payload,
      ePrevHash = [], eEntryHash = [], ePayload = payload\<rparr>"

subsection \<open>Appending\<close>

record OutboxRow =
  obEventID :: string
  obSeq :: int
  obTenantID :: string
  obType :: string
  obAggregate :: AggregateRef

record Checkpoint =
  cpSeq :: int
  cpEntryHash :: string
  cpSig :: string

record Ledger =
  lgRows :: "Event list"
  lgOutbox :: "OutboxRow list"
  lgCheckpoints :: "Checkpoint list"

definition CheckpointInterval :: int where
  "CheckpointInterval = 10000"

definition checkpointMessage :: "Crypto \<Rightarrow> int \<Rightarrow> string \<Rightarrow> string" where
  "checkpointMessage cr seq entryHash = crSHA256 cr (itoa seq @ ''|'' @ entryHash)"

definition SignCheckpoint :: "Crypto \<Rightarrow> int \<Rightarrow> string \<Rightarrow> string" where
  "SignCheckpoint cr seq entryHash = crSign cr (checkpointMessage cr seq entryHash)"

definition VerifyCheckpoint :: "Crypto \<Rightarrow> int \<Rightarrow> string \<Rightarrow> string \<Rightarrow> bool" where
  "VerifyCheckpoint cr seq entryHash sig = crVerify cr (checkpointMessage cr seq entryHash) sig"

text \<open>\<^verbatim>\<open>COALESCE(MAX(seq),0)\<close> and the entry hash of the last row, or the genesis hash.\<close>

definition tail_read :: "Event list \<Rightarrow> int \<times> string" where
  "tail_read rows = (if rows = [] then (0, genesisHash)
     else let top = Max (set (map eSeq rows)) in
       (top, case filter (\<lambda>e. eSeq e = top) rows of e # _ \<Rightarrow> eEntryHash e | [] \<Rightarrow> genesisHash))"

fun stamp :: "Crypto \<Rightarrow> int \<Rightarrow> string \<Rightarrow> Event list \<Rightarrow> Event list" where
  "stamp cr seq prevHash [] = []"
| "stamp cr seq prevHash (ev # evs) =
    (let h = ComputeEntryHash cr (seq + 1) (eID ev) (eType ev) (eVersion ev) (ePayloadSHA256 ev) prevHash
     in ev\<lparr>eSeq := seq + 1, ePrevHash := prevHash, eEntryHash := h\<rparr> # stamp cr (seq + 1) h evs)"

definition outbox_row :: "Event \<Rightarrow> OutboxRow" where
  "outbox_row ev = \<lparr>obEventID = eID ev, obSeq = eSeq ev, obTenantID = eTenantID ev, obType = eType ev,
     obAggregate = eAggregate ev\<rparr>"

datatype AppendErr = DuplicateLedgerRow | DuplicateOutboxRow | CheckpointReadFailed | DuplicateCheckpoint

text \<open>The boundary loop: one signed checkpoint per multiple of the interval in the appended range.\<close>

function checkpoint_loop :: "Crypto \<Rightarrow> Event list \<Rightarrow> int \<Rightarrow> int \<Rightarrow> Checkpoint list \<Rightarrow> AppendErr + Checkpoint list" where
  "checkpoint_loop cr rows boundary seq cps =
    (if boundary \<le> seq then
       case filter (\<lambda>e. eSeq e = boundary) rows of
         [] \<Rightarrow> Inl CheckpointReadFailed
       | e # _ \<Rightarrow>
           if boundary \<in> set (map cpSeq cps) then Inl DuplicateCheckpoint
           else checkpoint_loop cr rows (boundary + CheckpointInterval) seq
             (cps @ [\<lparr>cpSeq = boundary, cpEntryHash = eEntryHash e, cpSig = SignCheckpoint cr boundary (eEntryHash e)\<rparr>])
     else Inr cps)"
  by auto
termination
  by (relation "measure (\<lambda>(cr, rows, boundary, seq, cps). nat (seq + 1 - boundary))")
     (auto simp: CheckpointInterval_def)

declare checkpoint_loop.simps [simp del]

definition AppendEventsTx :: "Crypto \<Rightarrow> bool \<Rightarrow> Event list \<Rightarrow> Ledger \<Rightarrow> AppendErr + (Event list \<times> Ledger)" where
  "AppendEventsTx cr hasSigner events l =
    (if events = [] then Inr ([], l)
     else let (startSeq, prevHash) = tail_read (lgRows l);
              stamped = stamp cr startSeq prevHash events;
              seq = startSeq + int (length events);
              rows = lgRows l @ stamped in
       if \<not> distinct (map eID rows) \<or> \<not> distinct (map eSeq rows) then Inl DuplicateLedgerRow
       else if \<not> distinct (map obEventID (lgOutbox l @ map outbox_row stamped)) then Inl DuplicateOutboxRow
       else case (if hasSigner then checkpoint_loop cr rows ((startSeq div CheckpointInterval + 1) * CheckpointInterval)
                    seq (lgCheckpoints l) else Inr (lgCheckpoints l)) of
         Inl e \<Rightarrow> Inl e
       | Inr cps \<Rightarrow> Inr (stamped, \<lparr>lgRows = rows, lgOutbox = lgOutbox l @ map outbox_row stamped,
                          lgCheckpoints = cps\<rparr>))"

definition empty_ledger :: Ledger where
  "empty_ledger = \<lparr>lgRows = [], lgOutbox = [], lgCheckpoints = []\<rparr>"

subsection \<open>Verification\<close>

fun verify_rows :: "Crypto \<Rightarrow> string \<Rightarrow> Event list \<Rightarrow> DomErr + int" where
  "verify_rows cr expectPrev [] = Inr 0"
| "verify_rows cr expectPrev (e # es) =
    (if ComputeEntryHash cr (eSeq e) (eID e) (eType e) (eVersion e) (ePayloadSHA256 e) (ePrevHash e) \<noteq> eEntryHash e
     then Inl ErrChainBroken
     else if expectPrev \<noteq> [] \<and> ePrevHash e \<noteq> expectPrev then Inl ErrChainBroken
     else case verify_rows cr (eEntryHash e) es of Inl err \<Rightarrow> Inl err | Inr n \<Rightarrow> Inr (n + 1))"

definition SignatureSize :: nat where
  "SignatureSize = 64"

fun verify_checkpoints :: "Crypto \<Rightarrow> bool \<Rightarrow> Checkpoint list \<Rightarrow> DomErr + int" where
  "verify_checkpoints cr hasSigner [] = Inr 0"
| "verify_checkpoints cr hasSigner (c # cs) =
    (if length (cpSig c) \<noteq> SignatureSize then Inl ErrCheckpointInvalid
     else if hasSigner \<and> \<not> VerifyCheckpoint cr (cpSeq c) (cpEntryHash c) (cpSig c) then Inl ErrCheckpointInvalid
     else case verify_checkpoints cr hasSigner cs of Inl err \<Rightarrow> Inl err | Inr n \<Rightarrow> Inr (n + 1))"

record Report =
  repEntries :: int
  repCheckpoints :: int

definition Verify :: "Crypto \<Rightarrow> bool \<Rightarrow> Ledger \<Rightarrow> DomErr + Report" where
  "Verify cr hasSigner l =
    (case verify_rows cr [] (sort_key eSeq (lgRows l)) of
       Inl err \<Rightarrow> Inl err
     | Inr n \<Rightarrow> (case verify_checkpoints cr hasSigner (sort_key cpSeq (lgCheckpoints l)) of
         Inl err \<Rightarrow> Inl err
       | Inr m \<Rightarrow> Inr \<lparr>repEntries = n, repCheckpoints = m\<rparr>))"

subsection \<open>The chain invariant\<close>

fun chained :: "Crypto \<Rightarrow> string \<Rightarrow> Event list \<Rightarrow> bool" where
  "chained cr prev [] = True"
| "chained cr prev (e # es) = (ePrevHash e = prev \<and>
     eEntryHash e = ComputeEntryHash cr (eSeq e) (eID e) (eType e) (eVersion e) (ePayloadSHA256 e) (ePrevHash e) \<and>
     chained cr (eEntryHash e) es)"

definition head_hash :: "string \<Rightarrow> Event list \<Rightarrow> string" where
  "head_hash prev es = (if es = [] then prev else eEntryHash (last es))"

definition seqs_from :: "int \<Rightarrow> nat \<Rightarrow> int list" where
  "seqs_from start n = map (\<lambda>i. start + 1 + int i) [0..<n]"

lemma seqs_from_simps [simp]: "seqs_from start 0 = []" "length (seqs_from start n) = n"
    "set (seqs_from start n) = {start <.. start + int n}" "distinct (seqs_from start n)" "sorted (seqs_from start n)"
proof -
  show "set (seqs_from start n) = {start <.. start + int n}"
  proof (rule set_eqI)
    fix x
    have "\<exists>i\<in>{0..<n}. x = start + 1 + int i" if "start < x" "x \<le> start + int n"
      using that by (intro bexI [of _ "nat (x - start - 1)"]) auto
    then show "x \<in> set (seqs_from start n) \<longleftrightarrow> x \<in> {start <.. start + int n}"
      by (auto simp: seqs_from_def image_iff)
  qed
qed (auto simp: seqs_from_def distinct_map inj_on_def sorted_map sorted_wrt_upt intro: sorted_wrt_mono_rel [OF _ sorted_wrt_upt])

lemma seqs_from_Suc: "seqs_from start (Suc n) = (start + 1) # seqs_from (start + 1) n"
  by (simp add: seqs_from_def upt_conv_Cons map_Suc_upt [symmetric] del: upt_Suc)

lemma seqs_from_append: "seqs_from start (m + n) = seqs_from start m @ seqs_from (start + int m) n"
  by (induction m arbitrary: start) (simp_all add: seqs_from_Suc algebra_simps)

lemma chained_append: "chained cr prev (xs @ ys) \<longleftrightarrow> chained cr prev xs \<and> chained cr (head_hash prev xs) ys"
  by (induction xs arbitrary: prev) (auto simp: head_hash_def)

lemma stamp_chained: "chained cr prev (stamp cr seq prev evs)"
  by (induction cr seq prev evs rule: stamp.induct) (simp_all add: Let_def)

lemma stamp_length [simp]: "length (stamp cr seq prev evs) = length evs"
  by (induction cr seq prev evs rule: stamp.induct) (simp_all add: Let_def)

lemma stamp_seqs: "map eSeq (stamp cr seq prev evs) = seqs_from seq (length evs)"
  by (induction cr seq prev evs rule: stamp.induct) (simp_all add: Let_def seqs_from_Suc)

lemma stamp_keeps: "map (\<lambda>e. (eID e, eType e, eAggregate e, ePayload e)) (stamp cr seq prev evs) =
    map (\<lambda>e. (eID e, eType e, eAggregate e, ePayload e)) evs"
  by (induction cr seq prev evs rule: stamp.induct) (simp_all add: Let_def)

lemma stamp_ids: "map eID (stamp cr seq prev evs) = map eID evs"
  by (induction cr seq prev evs rule: stamp.induct) (simp_all add: Let_def)

definition ledger_wf :: "Crypto \<Rightarrow> Ledger \<Rightarrow> bool" where
  "ledger_wf cr l \<longleftrightarrow> map eSeq (lgRows l) = seqs_from 0 (length (lgRows l)) \<and> chained cr genesisHash (lgRows l) \<and>
     lgOutbox l = map outbox_row (lgRows l)"

lemma Max_greaterThanAtMost: "(0::int) < n \<Longrightarrow> Max {0 <.. n} = n"
  by (intro Max_eqI) auto

lemma tail_read_wf:
  assumes "map eSeq rows = seqs_from 0 (length rows)"
  shows "tail_read rows = (int (length rows), head_hash genesisHash rows)"
proof (cases rows rule: rev_cases)
  case Nil
  then show ?thesis by (simp add: tail_read_def head_hash_def)
next
  case (snoc es e)
  have seqs: "map eSeq es @ [eSeq e] = seqs_from 0 (length es) @ [int (length es) + 1]"
    using assms snoc seqs_from_append [of 0 "length es" 1] by (simp add: seqs_from_Suc)
  then have e: "eSeq e = int (length es) + 1" and es: "map eSeq es = seqs_from 0 (length es)" by simp_all
  have "set (map eSeq rows) = {0 <.. int (length rows)}"
    unfolding assms by simp
  then have top: "Max (set (map eSeq rows)) = int (length rows)"
    using snoc by (simp only: Max_greaterThanAtMost) (simp add: Max_greaterThanAtMost)
  have "\<forall>x \<in> set (map eSeq es). x \<noteq> int (length rows)"
    unfolding es using snoc by simp
  then have "filter (\<lambda>x. eSeq x = int (length rows)) es = []"
    by (simp add: filter_empty_conv)
  then have "filter (\<lambda>x. eSeq x = int (length rows)) rows = [e]"
    using snoc e by simp
  with snoc top show ?thesis by (simp add: tail_read_def head_hash_def Let_def)
qed

lemma AppendEventsTx_Inr:
  assumes "ledger_wf cr l" and "AppendEventsTx cr hasSigner events l = Inr (stamped, l')"
  shows "ledger_wf cr l' \<and> lgRows l' = lgRows l @ stamped \<and>
    stamped = stamp cr (int (length (lgRows l))) (head_hash genesisHash (lgRows l)) events"
proof (cases "events = []")
  case True
  with assms show ?thesis by (auto simp: AppendEventsTx_def)
next
  case False
  have seqs: "map eSeq (lgRows l) = seqs_from 0 (length (lgRows l))" using assms(1) by (simp add: ledger_wf_def)
  have l': "stamped = stamp cr (int (length (lgRows l))) (head_hash genesisHash (lgRows l)) events"
      "lgRows l' = lgRows l @ stamped" "lgOutbox l' = lgOutbox l @ map outbox_row stamped"
    using assms(2) False tail_read_wf [OF seqs]
    by (auto simp: AppendEventsTx_def Let_def split: if_splits sum.splits)
  have "ledger_wf cr l'"
    using assms(1) l' seqs_from_append [of 0 "length (lgRows l)" "length events"]
    by (simp add: ledger_wf_def stamp_seqs chained_append stamp_chained)
  with l' show ?thesis by blast
qed

subsection \<open>Checkpoints\<close>

definition checkpoints_ok :: "Crypto \<Rightarrow> Event list \<Rightarrow> nat \<Rightarrow> Checkpoint list \<Rightarrow> bool" where
  "checkpoints_ok cr rows k cps \<longleftrightarrow>
     cps = map (\<lambda>i. let h = eEntryHash (rows ! ((i + 1) * 10000 - 1)) in
       \<lparr>cpSeq = int (i + 1) * 10000, cpEntryHash = h, cpSig = SignCheckpoint cr (int (i + 1) * 10000) h\<rparr>) [0..<k]"

lemma filter_by_seq:
  assumes "map eSeq rows = seqs_from 0 (length rows)" and "b < length rows"
  shows "filter (\<lambda>e. eSeq e = int b + 1) rows = [rows ! b]"
proof -
  have nth: "eSeq (rows ! i) = 1 + int i" if "i < length rows" for i
    using arg_cong [OF assms(1), of "\<lambda>xs. xs ! i"] that by (simp add: seqs_from_def)
  have split: "rows = take b rows @ rows ! b # drop (Suc b) rows"
    using assms(2) by (rule id_take_nth_drop)
  have "filter (\<lambda>e. eSeq e = int b + 1) (take b rows) = []"
    using nth assms(2) by (auto simp: filter_empty_conv in_set_conv_nth)
  moreover have "filter (\<lambda>e. eSeq e = int b + 1) (drop (Suc b) rows) = []"
    using nth by (auto simp: filter_empty_conv in_set_conv_nth)
  ultimately have "filter (\<lambda>e. eSeq e = int b + 1) (take b rows @ rows ! b # drop (Suc b) rows) = [rows ! b]"
    using nth [OF assms(2)] by simp
  then show ?thesis using split by simp
qed

lemma checkpoint_loop_ok:
  assumes "map eSeq rows = seqs_from 0 (length rows)" and "checkpoints_ok cr rows k cps"
    and "k \<le> length rows div 10000"
  shows "\<exists>cps'. checkpoint_loop cr rows (int (k + 1) * 10000) (int (length rows)) cps = Inr cps' \<and>
    checkpoints_ok cr rows (length rows div 10000) cps'"
  using assms(2,3)
proof (induction "length rows div 10000 - k" arbitrary: k cps)
  case 0
  then have k: "k = length rows div 10000" by simp
  then have "length rows < (k + 1) * 10000"
    using div_less_iff_less_mult [of 10000 "length rows" "k + 1"] by simp
  then have "\<not> int (k + 1) * 10000 \<le> int (length rows)" by linarith
  then show ?case using 0 k by (subst checkpoint_loop.simps) simp
next
  case (Suc d)
  then have "k + 1 \<le> length rows div 10000" by simp
  then have le: "(k + 1) * 10000 \<le> length rows"
    using div_times_less_eq_dividend [of "length rows" 10000] by (meson le_trans mult_le_mono1)
  define b where "b = (k + 1) * 10000 - 1"
  have b: "b < length rows" "int b + 1 = int (k + 1) * 10000" using le by (auto simp: b_def)
  then have row: "filter (\<lambda>e. eSeq e = int (k + 1) * 10000) rows = [rows ! b]"
    using filter_by_seq [OF assms(1) b(1)] by simp
  have fresh: "int (k + 1) * 10000 \<notin> set (map cpSeq cps)"
    using Suc.prems(1) by (auto simp: checkpoints_ok_def Let_def)
  let ?c = "\<lparr>cpSeq = int (k + 1) * 10000, cpEntryHash = eEntryHash (rows ! b),
    cpSig = SignCheckpoint cr (int (k + 1) * 10000) (eEntryHash (rows ! b))\<rparr>"
  have "checkpoint_loop cr rows (int (k + 1) * 10000) (int (length rows)) cps =
      checkpoint_loop cr rows (int (k + 1 + 1) * 10000) (int (length rows)) (cps @ [?c])"
    using le row fresh by (subst checkpoint_loop.simps) (simp add: CheckpointInterval_def algebra_simps)
  moreover have "checkpoints_ok cr rows (k + 1) (cps @ [?c])"
    using Suc.prems(1) by (simp add: checkpoints_ok_def Let_def b_def)
  ultimately show ?case
    using Suc.hyps(1) [of "k + 1" "cps @ [?c]"] Suc.hyps(2) \<open>k + 1 \<le> length rows div 10000\<close> by simp
qed

definition ledger_inv :: "Crypto \<Rightarrow> bool \<Rightarrow> Ledger \<Rightarrow> bool" where
  "ledger_inv cr hasSigner l \<longleftrightarrow> ledger_wf cr l \<and>
     checkpoints_ok cr (lgRows l) (if hasSigner then length (lgRows l) div 10000 else 0) (lgCheckpoints l)"

lemma checkpoints_ok_append:
  assumes "checkpoints_ok cr rows k cps" and "k \<le> length rows div 10000"
  shows "checkpoints_ok cr (rows @ extra) k cps"
proof -
  have "(i + 1) * 10000 - 1 < length rows" if "i < k" for i
  proof -
    have "(i + 1) * 10000 \<le> length rows div 10000 * 10000" using that assms(2) by simp
    also have "\<dots> \<le> length rows" by (rule div_times_less_eq_dividend)
    finally show ?thesis using that by simp
  qed
  then show ?thesis
    using assms(1) by (auto simp: checkpoints_ok_def nth_append Let_def intro!: map_cong)
qed

lemma empty_ledger_inv: "ledger_inv cr hasSigner empty_ledger"
  by (simp add: ledger_inv_def ledger_wf_def empty_ledger_def checkpoints_ok_def)

lemma AppendEventsTx_inv:
  assumes inv: "ledger_inv cr hasSigner l" and app: "AppendEventsTx cr hasSigner events l = Inr (stamped, l')"
  shows "ledger_inv cr hasSigner l'"
proof -
  let ?n = "length (lgRows l)"
  have wf: "ledger_wf cr l" and cps: "checkpoints_ok cr (lgRows l) (if hasSigner then ?n div 10000 else 0) (lgCheckpoints l)"
    using inv by (simp_all add: ledger_inv_def)
  have wf': "ledger_wf cr l'" and rows: "lgRows l' = lgRows l @ stamped" and len: "length stamped = length events"
    using AppendEventsTx_Inr [OF wf app] by simp_all
  have seqs': "map eSeq (lgRows l') = seqs_from 0 (length (lgRows l'))" using wf' by (simp add: ledger_wf_def)
  have cps': "checkpoints_ok cr (lgRows l') (if hasSigner then ?n div 10000 else 0) (lgCheckpoints l)"
    unfolding rows using cps by (rule checkpoints_ok_append) simp
  show ?thesis
  proof (cases "hasSigner \<and> events \<noteq> []")
    case True
    have seqs: "map eSeq (lgRows l) = seqs_from 0 ?n" using wf by (simp add: ledger_wf_def)
    have start: "(int ?n div CheckpointInterval + 1) * CheckpointInterval = int (?n div 10000 + 1) * 10000"
      by (simp add: CheckpointInterval_def zdiv_int)
    have last: "int ?n + int (length events) = int (length (lgRows l'))" using rows len by simp
    have "checkpoint_loop cr (lgRows l') (int (?n div 10000 + 1) * 10000) (int (length (lgRows l'))) (lgCheckpoints l)
        = Inr (lgCheckpoints l')"
      using app True tail_read_wf [OF seqs] rows AppendEventsTx_Inr [OF wf app] unfolding start [symmetric] last [symmetric]
      by (auto simp: AppendEventsTx_def Let_def split: if_splits sum.splits)
    moreover have "?n div 10000 \<le> length (lgRows l') div 10000" using rows by (simp add: div_le_mono)
    ultimately show ?thesis
      using checkpoint_loop_ok [OF seqs', of cr "?n div 10000" "lgCheckpoints l"] cps' wf' True
      by (auto simp: ledger_inv_def)
  next
    case False
    then have "lgCheckpoints l' = lgCheckpoints l \<and> (hasSigner \<longrightarrow> stamped = [])"
      using app by (auto simp: AppendEventsTx_def Let_def split: if_splits sum.splits prod.splits)
    with cps' wf' rows show ?thesis by (auto simp: ledger_inv_def)
  qed
qed

lemma verify_rows_chained:
  "chained cr prev rows \<Longrightarrow> expectPrev = [] \<or> expectPrev = prev \<Longrightarrow> verify_rows cr expectPrev rows = Inr (int (length rows))"
  by (induction rows arbitrary: prev expectPrev) auto

lemma verify_stamped: "verify_rows cr [] (stamp cr seq prev evs) = Inr (int (length evs))"
  using verify_rows_chained [OF stamp_chained, of "[]" prev] by simp

lemma verify_checkpoints_ok:
  "(\<And>c. c \<in> set cps \<Longrightarrow> length (cpSig c) = SignatureSize \<and> VerifyCheckpoint cr (cpSeq c) (cpEntryHash c) (cpSig c)) \<Longrightarrow>
     verify_checkpoints cr hasSigner cps = Inr (int (length cps))"
  by (induction cps) simp_all

lemma sort_key_sorted: "sorted (map f xs) \<Longrightarrow> sort_key f xs = xs"
  by (rule sort_key_id_if_sorted)

definition sound_signer :: "Crypto \<Rightarrow> bool" where
  "sound_signer cr \<longleftrightarrow> (\<forall>m. crVerify cr m (crSign cr m) \<and> length (crSign cr m) = SignatureSize)"

lemma inv_Verify:
  assumes "ledger_inv cr hasSigner l" and "sound_signer cr"
  shows "Verify cr hasSigner l = Inr \<lparr>repEntries = int (length (lgRows l)),
    repCheckpoints = (if hasSigner then int (length (lgRows l)) div 10000 else 0)\<rparr>"
proof -
  let ?k = "if hasSigner then length (lgRows l) div 10000 else 0"
  have wf: "ledger_wf cr l" and cps: "checkpoints_ok cr (lgRows l) ?k (lgCheckpoints l)"
    using assms(1) by (simp_all add: ledger_inv_def)
  have "sorted (map eSeq (lgRows l))" using wf by (simp add: ledger_wf_def)
  moreover have "map cpSeq (lgCheckpoints l) = map (\<lambda>i. int (i + 1) * 10000) [0..<?k]"
    using cps by (simp add: checkpoints_ok_def Let_def)
  then have "sorted (map cpSeq (lgCheckpoints l))"
    by (simp add: sorted_map sorted_wrt_upt sorted_wrt_mono_rel [OF _ sorted_wrt_upt] del: upt_Suc)
  moreover have "verify_rows cr [] (lgRows l) = Inr (int (length (lgRows l)))"
    using wf by (intro verify_rows_chained [of cr genesisHash]) (simp_all add: ledger_wf_def)
  moreover have "verify_checkpoints cr hasSigner (lgCheckpoints l) = Inr (int (length (lgCheckpoints l)))"
    using cps assms(2)
    by (intro verify_checkpoints_ok)
       (auto simp: checkpoints_ok_def Let_def sound_signer_def VerifyCheckpoint_def SignCheckpoint_def)
  moreover have "length (lgCheckpoints l) = ?k" using cps by (simp add: checkpoints_ok_def)
  ultimately show ?thesis by (simp add: Verify_def sort_key_sorted zdiv_int)
qed

subsection \<open>Sequences of appends\<close>

fun append_all :: "Crypto \<Rightarrow> bool \<Rightarrow> Event list list \<Rightarrow> Ledger \<Rightarrow> AppendErr + Ledger" where
  "append_all cr hasSigner [] l = Inr l"
| "append_all cr hasSigner (b # bs) l =
    (case AppendEventsTx cr hasSigner b l of Inl e \<Rightarrow> Inl e | Inr (_, l') \<Rightarrow> append_all cr hasSigner bs l')"

lemma append_all_inv:
  "append_all cr hasSigner bs l = Inr l' \<Longrightarrow> ledger_inv cr hasSigner l \<Longrightarrow>
     ledger_inv cr hasSigner l' \<and> (\<exists>ext. lgRows l' = lgRows l @ ext \<and> map eID ext = map eID (concat bs))"
proof (induction cr hasSigner bs l rule: append_all.induct)
  case (2 cr hasSigner b bs l)
  obtain st l1 where step: "AppendEventsTx cr hasSigner b l = Inr (st, l1)" and rest: "append_all cr hasSigner bs l1 = Inr l'"
    using 2(2) by (auto split: sum.splits)
  have wf: "ledger_wf cr l" using 2(3) by (simp add: ledger_inv_def)
  have l1: "lgRows l1 = lgRows l @ st" "map eID st = map eID b"
    using AppendEventsTx_Inr [OF wf step] by (simp_all add: stamp_ids)
  show ?case
    using 2(1) [OF step refl rest AppendEventsTx_inv [OF 2(3) step]] l1 by auto
qed simp

text \<open>Invariant I-07, the round trip of the ledger. Whatever batches of events are appended, starting
  from the empty ledger, the result verifies: the report counts every entry and one checkpoint per
  10000 entries, sequence numbers are 1, 2, 3, ... without gaps, the events stand in the order they were
  appended, and the outbox holds exactly one row per ledger row in the same order.\<close>

theorem appended_ledger_verifies:
  assumes "append_all cr hasSigner batches empty_ledger = Inr l" and "sound_signer cr"
  shows "Verify cr hasSigner l = Inr \<lparr>repEntries = int (length (concat batches)),
      repCheckpoints = (if hasSigner then int (length (concat batches)) div 10000 else 0)\<rparr> \<and>
    map eSeq (lgRows l) = map (\<lambda>i. 1 + int i) [0..<length (lgRows l)] \<and>
    map eID (lgRows l) = map eID (concat batches) \<and> lgOutbox l = map outbox_row (lgRows l)"
proof -
  have inv: "ledger_inv cr hasSigner l" and ids: "map eID (lgRows l) = map eID (concat batches)"
    using append_all_inv [OF assms(1) empty_ledger_inv] by (auto simp: empty_ledger_def)
  then have "length (lgRows l) = length (concat batches)" by (metis length_map)
  with inv_Verify [OF inv assms(2)] inv ids show ?thesis
    by (simp add: ledger_inv_def ledger_wf_def seqs_from_def)
qed

definition sample_crypto :: Crypto where
  "sample_crypto = \<lparr>crSHA256 = (\<lambda>s. s), crCanonicalJSON = (\<lambda>_. ''{}''), crSign = (\<lambda>_. replicate 64 (CHR ''x'')),
     crVerify = (\<lambda>_ sig. sig = replicate 64 (CHR ''x''))\<rparr>"

lemma sample_crypto_sound: "sound_signer sample_crypto"
  by (simp add: sound_signer_def sample_crypto_def SignatureSize_def)

definition sample_event :: "string \<Rightarrow> Event" where
  "sample_event i = NewEvent sample_crypto i 0 ''corr_1'' ''org_1'' \<lparr>agType = ''intent'', agID = ''int_1''\<rparr>
     ''intent.created'' [] [] \<lparr>actKind = ''service'', actID = ''scheduler''\<rparr> (JObj [])"

theorem appended_ledger_verifies_witness:
  "\<exists>l. append_all sample_crypto True [[sample_event ''evt_1'', sample_event ''evt_2''], [sample_event ''evt_3'']] empty_ledger = Inr l \<and>
     Verify sample_crypto True l = Inr \<lparr>repEntries = 3, repCheckpoints = 0\<rparr>"
proof -
  obtain l where l: "append_all sample_crypto True [[sample_event ''evt_1'', sample_event ''evt_2''], [sample_event ''evt_3'']]
      empty_ledger = Inr l"
  proof -
    have "case append_all sample_crypto True [[sample_event ''evt_1'', sample_event ''evt_2''], [sample_event ''evt_3'']]
      empty_ledger of Inl _ \<Rightarrow> False | Inr _ \<Rightarrow> True" by code_simp
    then show thesis using that by (auto split: sum.splits)
  qed
  with appended_ledger_verifies [OF l sample_crypto_sound] show ?thesis by simp
qed

subsection \<open>Tampering\<close>

text \<open>The fields an entry hash covers, as they enter it.\<close>

definition hashed :: "Event \<Rightarrow> int \<times> string \<times> string \<times> int \<times> string \<times> string" where
  "hashed e = (eSeq e, eID e, eType e, eVersion e, trimHashPrefix (ePayloadSHA256 e), trimHashPrefix (ePrevHash e))"

definition material :: "Event \<Rightarrow> string" where
  "material e = entry_material (eSeq e) (eID e) (eType e) (eVersion e) (ePayloadSHA256 e) (ePrevHash e)"

definition no_bar :: "Event \<Rightarrow> bool" where
  "no_bar e \<longleftrightarrow> CHR ''|'' \<notin> set (eID e) \<and> CHR ''|'' \<notin> set (eType e) \<and> CHR ''|'' \<notin> set (trimHashPrefix (ePayloadSHA256 e))"

lemma material_inject:
  assumes "no_bar e" and "no_bar e'"
  shows "material e = material e' \<longleftrightarrow> hashed e = hashed e'"
  using assms itoa_no_bar
  by (simp add: material_def entry_material_def hashed_def no_bar_def sep_split)

lemma trim_entry_inject:
  "\<forall>x. length (crSHA256 cr x) = 64 \<Longrightarrow>
     trimHashPrefix (HashPrefix @ crSHA256 cr x) = trimHashPrefix (HashPrefix @ crSHA256 cr y) \<longleftrightarrow> crSHA256 cr x = crSHA256 cr y"
  by (simp add: trimHashPrefix_def HashPrefix_def)

lemma verify_rows_Cons:
  "verify_rows cr p (e # es) = Inr n \<longleftrightarrow> eEntryHash e = HashPrefix @ crSHA256 cr (material e) \<and>
     (p = [] \<or> ePrevHash e = p) \<and> verify_rows cr (eEntryHash e) es = Inr (n - 1)"
  by (auto simp: ComputeEntryHash_def material_def split: sum.splits)

lemma verify_rows_snoc:
  "verify_rows cr p (es @ [e]) = Inr n \<Longrightarrow>
     (\<exists>m. verify_rows cr p es = Inr m) \<and> eEntryHash e = HashPrefix @ crSHA256 cr (material e) \<and>
     (head_hash p es \<noteq> [] \<longrightarrow> ePrevHash e = head_hash p es)"
proof (induction es arbitrary: p n)
  case Nil
  then show ?case by (auto simp: verify_rows_Cons head_hash_def simp del: verify_rows.simps(2))
next
  case (Cons x es)
  note hd = Cons.prems [unfolded append_Cons verify_rows_Cons]
  then have x: "eEntryHash x = HashPrefix @ crSHA256 cr (material x)" "p = [] \<or> ePrevHash x = p"
      and tail: "verify_rows cr (eEntryHash x) (es @ [e]) = Inr (n - 1)"
    by blast+
  obtain m where "verify_rows cr (eEntryHash x) es = Inr m" using Cons.IH [OF tail] by blast
  then have "verify_rows cr p (x # es) = Inr (m + 1)"
    unfolding verify_rows_Cons using x by auto
  moreover have "head_hash p (x # es) = head_hash (eEntryHash x) es" by (simp add: head_hash_def)
  ultimately show ?case using Cons.IH [OF tail] by auto
qed

lemma verified_last:
  assumes "verify_rows cr expectPrev es = Inr n" and "es \<noteq> []"
  shows "eEntryHash (last es) = HashPrefix @ crSHA256 cr (material (last es))"
  using verify_rows_snoc [of cr expectPrev "butlast es" "last es" n] assms by simp

lemma chain_determined:
  assumes "verify_rows cr p rows = Inr n" and "verify_rows cr p' rows' = Inr n'"
    and "rows \<noteq> []" and "rows' \<noteq> []" and "length rows' \<le> length rows"
    and "eEntryHash (last rows) = eEntryHash (last rows')"
    and len: "\<forall>x. length (crSHA256 cr x) = 64"
    and bars: "\<forall>e \<in> set rows \<union> set rows'. no_bar e"
    and coll: "\<forall>e \<in> set rows. \<forall>e' \<in> set rows'. crSHA256 cr (material e) = crSHA256 cr (material e') \<longrightarrow> material e = material e'"
  shows "map hashed rows' = drop (length rows - length rows') (map hashed rows)"
  using assms(1-6) bars coll
proof (induction rows' arbitrary: rows n n' rule: rev_induct)
  case (snoc e' es')
  obtain es e where rows: "rows = es @ [e]" using snoc.prems(3) by (cases rows rule: rev_cases) auto
  note top = verify_rows_snoc [OF snoc.prems(1) [unfolded rows]] and top' = verify_rows_snoc [OF snoc.prems(2)]
  have "crSHA256 cr (material e) = crSHA256 cr (material e')"
    using snoc.prems(6) rows top top' by simp
  then have eq: "hashed e = hashed e'"
    using snoc.prems(7,8) rows material_inject [of e e'] by simp
  show ?case
  proof (cases "es' = []")
    case True
    with eq rows show ?thesis by simp
  next
    case False
    then have ne: "es \<noteq> []" using snoc.prems(5) rows by auto
    obtain m m' where ver: "verify_rows cr p es = Inr m" "verify_rows cr p' es' = Inr m'" using top top' by blast
    have last: "eEntryHash (last es) = HashPrefix @ crSHA256 cr (material (last es))"
        "eEntryHash (last es') = HashPrefix @ crSHA256 cr (material (last es'))"
      using verified_last [OF ver(1) ne] verified_last [OF ver(2) False] by simp_all
    have "ePrevHash e = eEntryHash (last es)" "ePrevHash e' = eEntryHash (last es')"
      using top top' ne False last by (simp_all add: head_hash_def HashPrefix_def)
    then have "eEntryHash (last es) = eEntryHash (last es')"
      using eq last trim_entry_inject [OF len, of "material (last es)" "material (last es')"] by (simp add: hashed_def)
    then have "map hashed es' = drop (length es - length es') (map hashed es)"
      using ne False snoc.prems(5,7,8) rows by (intro snoc.IH [OF ver]) simp_all
    with eq rows snoc.prems(5) show ?thesis by simp
  qed
qed simp


definition fixed_crypto :: Crypto where
  "fixed_crypto = sample_crypto\<lparr>crSHA256 := (\<lambda>s. take 64 (s @ replicate 64 (CHR ''0'')))\<rparr>"

definition long_digest :: "char \<Rightarrow> Event list" where
  "long_digest c = stamp fixed_crypto 0 genesisHash
     [(sample_event ''evt_1'')\<lparr>ePayloadSHA256 := replicate 63 (CHR ''a'') @ [c]\<rparr>]"


text \<open>The verification pass does not anchor the chain at genesis: it never compares the first row's
  predecessor hash with the genesis hash, nor sequence numbers or checkpoints with the rows. A ledger that
  verifies still verifies after any number of its oldest rows, and any number of its newest rows, are removed.\<close>

theorem Verify_accepts_truncation:
  assumes "Verify cr hasSigner l = Inr rep" and "sorted (map eSeq (lgRows l))"
  shows "\<exists>rep'. Verify cr hasSigner (l\<lparr>lgRows := take n (drop m (lgRows l))\<rparr>) = Inr rep'"
proof -
  have drop1: "\<exists>k. verify_rows cr [] (drop m es) = Inr k" if "verify_rows cr p es = Inr j" for p es j m
    using that
  proof (induction es arbitrary: p j m)
    case (Cons e es)
    have tail: "\<exists>k. verify_rows cr (eEntryHash e) es = Inr k" using Cons.prems by (auto split: if_splits sum.splits)
    show ?case
    proof (cases m)
      case 0
      with Cons.prems show ?thesis by (auto split: if_splits sum.splits)
    next
      case (Suc m')
      with tail Cons.IH show ?thesis by auto
    qed
  qed simp
  have take1: "\<exists>k. verify_rows cr p (take n es) = Inr k" if "verify_rows cr p es = Inr j" for p es j n
    using that
  proof (induction es arbitrary: p j n)
    case (Cons e es)
    have tail: "\<exists>k. verify_rows cr (eEntryHash e) es = Inr k" using Cons.prems by (auto split: if_splits sum.splits)
    show ?case
    proof (cases n)
      case (Suc n')
      obtain k where "verify_rows cr (eEntryHash e) (take n' es) = Inr k" using tail Cons.IH by blast
      with Suc Cons.prems show ?thesis by (auto split: if_splits)
    qed simp
  qed simp
  have v: "\<exists>j. verify_rows cr [] (lgRows l) = Inr j"
    using assms by (auto simp: Verify_def sort_key_sorted split: sum.splits)
  then obtain k where "verify_rows cr [] (take n (drop m (lgRows l))) = Inr k"
    using drop1 take1 by metis
  moreover have "sorted (map eSeq (take n (drop m (lgRows l))))"
    using assms(2) by (simp add: take_map [symmetric] drop_map [symmetric] sorted_wrt_take sorted_wrt_drop)
  ultimately show ?thesis
    using assms(1) by (auto simp: Verify_def sort_key_sorted split: sum.splits)
qed

theorem Verify_accepts_truncation_witness:
  "\<exists>rep'. Verify sample_crypto False (empty_ledger\<lparr>lgRows := take 1 (drop 1
     (stamp sample_crypto 0 genesisHash [sample_event ''evt_1'', sample_event ''evt_2'']))\<rparr>) = Inr rep'"
proof -
  let ?l = "empty_ledger\<lparr>lgRows := stamp sample_crypto 0 genesisHash [sample_event ''evt_1'', sample_event ''evt_2'']\<rparr>"
  have sorted: "sorted (map eSeq (lgRows ?l))" by (simp add: stamp_seqs del: stamp.simps)
  have "verify_rows sample_crypto [] (lgRows ?l) = Inr 2"
    by (simp add: verify_stamped del: stamp.simps)
  then have "Verify sample_crypto False ?l = Inr \<lparr>repEntries = 2, repCheckpoints = 0\<rparr>"
    using sorted by (simp add: Verify_def sort_key_sorted empty_ledger_def del: stamp.simps)
  from Verify_accepts_truncation [OF this sorted, of 1 1] show ?thesis by (simp del: stamp.simps)
qed

end
