(* ===== verification/Ranking.thy ===== *)
theory Ranking
  imports Prelude
begin

text \<open>
  Ranking of queued runs: \<^verbatim>\<open>control-plane/internal/scheduler/priority.go\<close>, \<^verbatim>\<open>ordering.go\<close> and
  the ranking part of \<^verbatim>\<open>dispatch_ranking.go\<close>. Priorities are exact rationals where the code has
  \<^verbatim>\<open>float64\<close>. The comparator \<open>LessRanked\<close> is an instance of the contract
  \<open>slice_order\<close>, from which determinism of the dispatch order follows.
\<close>

subsection \<open>Priority (priority.go)\<close>

record Run =
  runID :: string
  runCandidateID :: string
  runTenantID :: string
  runPool :: string
  runTier :: int
  runJobKind :: string
  runEstDurationMS :: int
  runEstCostMillicents :: int
  runCreatedSeq :: int
  runCreatedULID :: string

record Telemetry =
  DecisionRateKnown :: bool
  DecisionChangeRate :: float64
  tRiskClass :: string
  DownstreamDependents :: int
  HasDeadline :: bool
  HoursToDeadline :: float64
  IsPrerequisite :: bool
  BaseStalenessHours :: float64
  BusinessValue :: float64
  QueueDepth :: int
  PoolCapacity :: int

definition decisionChangeRate :: "Telemetry \<Rightarrow> float64" where
  "decisionChangeRate t =
    (if \<not> DecisionRateKnown t then 1 / 2
     else let r = DecisionChangeRate t in if r < 0 then 0 else if r > 1 then 1 else r)"

definition blastRadiusFactor :: "int \<Rightarrow> float64" where
  "blastRadiusFactor dependents =
    (if dependents \<le> 0 then 1
     else let f = of_int dependents / 20 in if f > 1 then 1 else f)"

definition riskReduction :: "Telemetry \<Rightarrow> float64" where
  "riskReduction t =
    (let base = (if tRiskClass t = ''critical'' then 1
                 else if tRiskClass t = ''high'' then 1
                 else if tRiskClass t = ''medium'' then 7 / 10
                 else 4 / 10)
     in base * blastRadiusFactor (DownstreamDependents t))"

definition urgency :: "Telemetry \<Rightarrow> float64" where
  "urgency t =
    (let u0 = (if HasDeadline t
               then let p0 = 1 - HoursToDeadline t / 72;
                        p1 = (if p0 < 0 then 0 else p0);
                        p2 = (if p1 > 1 then 1 else p1)
                    in 1 / 2 + 1 / 2 * p2
               else 1 / 2);
         u1 = (if IsPrerequisite t then u0 * (125 / 100) else u0);
         stale = (if BaseStalenessHours t < 0 then 0 else BaseStalenessHours t)
     in u1 + stale * (5 / 1000))"

definition businessValue :: "Telemetry \<Rightarrow> float64" where
  "businessValue t = (if BusinessValue t \<le> 0 then 1 else BusinessValue t)"

definition tierDefaultCostMillicents :: "int \<Rightarrow> int" where
  "tierDefaultCostMillicents tier =
    (if tier = 0 then 5000 else if tier = 1 then 20000 else if tier = 2 then 150000
     else if tier = 3 then 1200000 else if tier = 4 then 4000000 else 150000)"

definition costEst :: "Run \<Rightarrow> int" where
  "costEst r = (if runEstCostMillicents r > 0 then runEstCostMillicents r
                else tierDefaultCostMillicents (runTier r))"

definition contentionPenalty :: "Telemetry \<Rightarrow> float64" where
  "contentionPenalty t =
    (if PoolCapacity t \<le> 0 then 1 else of_int (QueueDepth t + 1) / of_int (PoolCapacity t + 1))"

definition Priority :: "Run \<Rightarrow> Telemetry \<Rightarrow> float64" where
  "Priority r t =
    (let numerator = decisionChangeRate t * riskReduction t * urgency t * businessValue t;
         denominator = of_int (costEst r) * contentionPenalty t;
         denominator' = (if denominator \<le> 0 then 1 else denominator)
     in numerator / denominator')"

definition AgingFloor :: "float64 \<Rightarrow> float64" where
  "AgingFloor ageHours =
    (let a = (if ageHours < 0 then 0 else ageHours);
         f = a * (1 / 100)
     in if f > 1 / 2 then 1 / 2 else f)"

definition EffectivePriority :: "float64 \<Rightarrow> float64 \<Rightarrow> float64" where
  "EffectivePriority basePriority ageHours =
    (let f = AgingFloor ageHours in if basePriority > f then basePriority else f)"

subsection \<open>Ordering (ordering.go)\<close>

record RankedRun =
  rrRun :: Run
  rrPriority :: float64

definition LessRanked :: "RankedRun \<Rightarrow> RankedRun \<Rightarrow> bool" where
  "LessRanked a b =
    (if rrPriority a \<noteq> rrPriority b then rrPriority a > rrPriority b
     else if runCreatedSeq (rrRun a) \<noteq> runCreatedSeq (rrRun b)
     then runCreatedSeq (rrRun a) < runCreatedSeq (rrRun b)
     else runCreatedULID (rrRun a) < runCreatedULID (rrRun b))"

definition SortRanked :: "RankedRun list \<Rightarrow> RankedRun list" where
  "SortRanked rs = sort_by LessRanked rs"

subsection \<open>Batch ranking (dispatch\_ranking.go)\<close>

record QueuedRun =
  qrID :: string
  qrTenantID :: string
  qrCandidateID :: string
  qrPool :: string
  qrTier :: int
  qrEstDurationMS :: int
  qrEstCostMillicents :: int
  qrPriority :: float64
  qrCreatedAt :: gotime
  qrCreatedSeq :: int

text \<open>\<^verbatim>\<open>time.Duration.Hours()\<close>, exactly.\<close>

definition hours :: "duration \<Rightarrow> float64" where
  "hours d = of_int d / 3600000000000"

definition rankBatch :: "gotime \<Rightarrow> QueuedRun list \<Rightarrow> RankedRun list" where
  "rankBatch now queued = map (\<lambda>qr.
     \<lparr>rrRun = \<lparr>runID = qrID qr, runCandidateID = qrCandidateID qr, runTenantID = qrTenantID qr,
        runPool = qrPool qr, runTier = qrTier qr, runJobKind = [],
        runEstDurationMS = qrEstDurationMS qr, runEstCostMillicents = qrEstCostMillicents qr,
        runCreatedSeq = qrCreatedSeq qr, runCreatedULID = qrID qr\<rparr>,
      rrPriority = EffectivePriority (qrPriority qr) (hours (now - qrCreatedAt qr))\<rparr>) queued"

subsection \<open>Lemmas and properties\<close>

lemma blastRadiusFactor_bounds: "0 < blastRadiusFactor d \<and> blastRadiusFactor d \<le> 1"
  by (simp add: blastRadiusFactor_def Let_def)

lemma riskReduction_bounds: "0 < riskReduction t \<and> riskReduction t \<le> 1"
proof -
  have "0 < b \<and> b \<le> (1 :: rat) \<Longrightarrow> 0 < b * f \<and> b * f \<le> 1" if "0 < f \<and> f \<le> 1" for b f
    using that by (simp add: mult_le_one)
  with blastRadiusFactor_bounds [of "DownstreamDependents t"] show ?thesis
    by (simp add: riskReduction_def)
qed

lemma urgency_bound: "1 / 2 \<le> urgency t"
  by (auto simp: urgency_def Let_def field_simps)

lemma decisionChangeRate_bounds: "0 \<le> decisionChangeRate t \<and> decisionChangeRate t \<le> 1"
  by (simp add: decisionChangeRate_def Let_def)

lemma businessValue_pos: "0 < businessValue t"
  by (simp add: businessValue_def)

lemma Priority_nonneg: "0 \<le> Priority r t"
  unfolding Priority_def Let_def
  using decisionChangeRate_bounds [of t] riskReduction_bounds [of t] urgency_bound [of t] businessValue_pos [of t]
  by (intro divide_nonneg_pos mult_nonneg_nonneg) auto

lemma Priority_zero_iff: "Priority r t = 0 \<longleftrightarrow> decisionChangeRate t = 0"
  unfolding Priority_def Let_def
  using riskReduction_bounds [of t] urgency_bound [of t] businessValue_pos [of t] by auto

interpretation ranked: slice_order LessRanked
  by unfold_locales (auto simp: LessRanked_def split: if_splits)

lemma AgingFloor_bounds: "0 \<le> AgingFloor h \<and> AgingFloor h \<le> 1 / 2"
  by (simp add: AgingFloor_def Let_def)

lemma AgingFloor_mono: "h \<le> h' \<Longrightarrow> AgingFloor h \<le> AgingFloor h'"
  by (simp add: AgingFloor_def Let_def)

lemma AgingFloor_saturates: "50 \<le> h \<Longrightarrow> AgingFloor h = 1 / 2"
  by (auto simp: AgingFloor_def Let_def field_simps)

lemma EffectivePriority_max: "EffectivePriority p h = max p (AgingFloor h)"
  by (simp add: EffectivePriority_def Let_def max_def)

text \<open>The priority formula is total and never negative, and it is zero only for a decision rate
  known to be zero; a run waiting at least 50 hours ranks strictly before every run whose own
  priority is below one half and that has waited less than 50 hours (no starvation below the aging
  cap).\<close>

theorem aged_runs_overtake:
  assumes "50 \<le> age" and "p < 1 / 2" and "age' < 50"
    and "rrPriority a = EffectivePriority (Priority r t) age" and "rrPriority b = EffectivePriority p age'"
  shows "0 \<le> Priority r t \<and> LessRanked a b"
proof -
  have "AgingFloor age' < 1 / 2" using assms(3) by (simp add: AgingFloor_def Let_def)
  then have "rrPriority b < 1 / 2" using assms(2,5) by (simp add: EffectivePriority_max)
  moreover have "1 / 2 \<le> rrPriority a" using assms(1,4) by (simp add: EffectivePriority_max AgingFloor_saturates)
  ultimately show ?thesis by (simp add: LessRanked_def Priority_nonneg)
qed

text \<open>The dispatch order is deterministic: sorting any two permutations of a batch with distinct
  ULIDs gives the same sequence, ordered by priority (higher first), ledger sequence (older first)
  and ULID.\<close>

theorem SortRanked_deterministic:
  assumes "mset rs = mset rs'" and "distinct (map (runCreatedULID \<circ> rrRun) rs)"
  shows "SortRanked rs = SortRanked rs' \<and> sorted_wrt LessRanked (SortRanked rs)"
proof -
  have unique: "a = b" if "a \<in> set rs" "b \<in> set rs" "\<not> LessRanked a b" "\<not> LessRanked b a" for a b
  proof -
    have "runCreatedULID (rrRun a) = runCreatedULID (rrRun b)"
      using that(3,4) by (auto simp: LessRanked_def split: if_splits)
    then show "a = b"
      using assms(2) that(1,2) inj_onD [of "runCreatedULID \<circ> rrRun" "set rs" a b] by (simp add: distinct_map)
  qed
  have "distinct rs" using assms(2) by (simp add: distinct_map)
  then have "sorted_wrt LessRanked (SortRanked rs)"
    unfolding SortRanked_def using ranked.ordered_sort_by [of rs] unique
    by (intro ranked.strictly_ordered) auto
  then show ?thesis
    using ranked.sort_by_permutation_invariant [OF assms(1)] unique by (simp add: SortRanked_def)
qed

definition sample_queued :: "string \<Rightarrow> float64 \<Rightarrow> gotime \<Rightarrow> QueuedRun" where
  "sample_queued ident p created = \<lparr>qrID = ident, qrTenantID = ''ten_1'', qrCandidateID = ''cand_1'',
     qrPool = ''unit'', qrTier = 1, qrEstDurationMS = 90000, qrEstCostMillicents = 0, qrPriority = p,
     qrCreatedAt = created, qrCreatedSeq = 7\<rparr>"

theorem SortRanked_deterministic_witness:
  "SortRanked (rankBatch 0 [sample_queued ''b'' 1 0, sample_queued ''a'' 1 0]) =
   SortRanked (rankBatch 0 [sample_queued ''a'' 1 0, sample_queued ''b'' 1 0])"
proof -
  let ?x = "rankBatch 0 [sample_queued ''b'' 1 0, sample_queued ''a'' 1 0]"
  and ?y = "rankBatch 0 [sample_queued ''a'' 1 0, sample_queued ''b'' 1 0]"
  have "mset ?x = mset ?y" by (simp add: rankBatch_def add_mset_commute)
  moreover have "distinct (map (runCreatedULID \<circ> rrRun) ?x)" by (simp add: rankBatch_def sample_queued_def)
  ultimately show ?thesis using SortRanked_deterministic by blast
qed

definition sample_telemetry :: Telemetry where
  "sample_telemetry = \<lparr>DecisionRateKnown = False, DecisionChangeRate = 0, tRiskClass = ''low'',
     DownstreamDependents = 0, HasDeadline = False, HoursToDeadline = 0, IsPrerequisite = False,
     BaseStalenessHours = 0, BusinessValue = 0, QueueDepth = 0, PoolCapacity = 0\<rparr>"

theorem aged_runs_overtake_witness:
  "let r = rrRun (rankBatch 0 [sample_queued ''a'' 0 0] ! 0);
       a = \<lparr>rrRun = r, rrPriority = EffectivePriority (Priority r sample_telemetry) 60\<rparr>;
       b = \<lparr>rrRun = r, rrPriority = EffectivePriority (1 / 10) 2\<rparr>
   in LessRanked a b"
  unfolding Let_def
  by (rule aged_runs_overtake [of 60 "1 / 10" 2, THEN conjunct2]) simp_all

end
