(* ===== verification/Glob.thy ===== *)
theory Glob
  imports Prelude
begin

text \<open>
  Path globs: \<^verbatim>\<open>planner/glob.go\<close> and \<^verbatim>\<open>policy/glob.go\<close>. The two files hold the same
  \<^verbatim>\<open>matchSegments\<close> and \<^verbatim>\<open>matchOneSegment\<close>, modelled once; they differ in how a path is
  split (a hand-written loop against \<^verbatim>\<open>strings.Split\<close>) and in the guard for an empty
  pattern. The two-pointer matcher is proved equal to a declarative reference on segments without
  a literal star, and the two front ends are proved equal.
\<close>

subsection \<open>Splitting\<close>

text \<open>The loop of \<^verbatim>\<open>splitPath\<close>; \<open>cur\<close> is \<open>s[start:i]\<close>.\<close>

fun splitPath_loop :: "string \<Rightarrow> string \<Rightarrow> string list" where
  "splitPath_loop cur [] = [cur]"
| "splitPath_loop cur (c # cs) =
     (if c = CHR ''/'' then cur # splitPath_loop [] cs else splitPath_loop (cur @ [c]) cs)"

definition splitPath :: "string \<Rightarrow> string list" where
  "splitPath s = splitPath_loop [] s"

text \<open>\<^verbatim>\<open>strings.Split(s, sep)\<close> for a one-byte separator.\<close>

fun strings_Split :: "string \<Rightarrow> char \<Rightarrow> string list" where
  "strings_Split [] sep = [[]]"
| "strings_Split (c # cs) sep =
     (if c = sep then [] # strings_Split cs sep
      else (case strings_Split cs sep of [] \<Rightarrow> [[c]] | h # t \<Rightarrow> (c # h) # t))"

subsection \<open>Matching\<close>

text \<open>The two-pointer loop over one segment: \<open>star\<close> is \<open>None\<close> where the code has -1.\<close>

function matchOneSegment_loop ::
    "string \<Rightarrow> string \<Rightarrow> nat \<Rightarrow> nat \<Rightarrow> nat option \<Rightarrow> nat \<Rightarrow> bool" where
  "matchOneSegment_loop pattern s pidx sidx star mark =
    (if sidx < length s then
       if pidx < length pattern \<and> pattern ! pidx = s ! sidx
       then matchOneSegment_loop pattern s (pidx + 1) (sidx + 1) star mark
       else if pidx < length pattern \<and> pattern ! pidx = CHR ''*''
       then matchOneSegment_loop pattern s (pidx + 1) sidx (Some pidx) sidx
       else (case star of
               Some k \<Rightarrow> matchOneSegment_loop pattern s (k + 1) (mark + 1) star (mark + 1)
             | None \<Rightarrow> False)
     else pidx + length (takeWhile (\<lambda>c. c = CHR ''*'') (drop pidx pattern)) = length pattern)"
  by pat_completeness auto
termination
  by (relation "measures [\<lambda>(p, s, pidx, sidx, star, mark). if sidx < mark then 1 else 0,
        \<lambda>(p, s, pidx, sidx, star, mark). length s - mark,
        \<lambda>(p, s, pidx, sidx, star, mark). length p - pidx]") auto

declare matchOneSegment_loop.simps [simp del]

definition matchOneSegment :: "string \<Rightarrow> string \<Rightarrow> bool" where
  "matchOneSegment pattern s = matchOneSegment_loop pattern s 0 0 None 0"

fun matchSegments :: "string list \<Rightarrow> string list \<Rightarrow> bool" where
  "matchSegments [] seg = (seg = [])"
| "matchSegments (p # ps) seg =
     (if p = ''**'' then
        if ps = [] then True
        else list_ex (\<lambda>i. matchSegments ps (drop i seg)) [0..<Suc (length seg)]
      else (case seg of
              [] \<Rightarrow> False
            | s # ss \<Rightarrow> if \<not> matchOneSegment p s then False else matchSegments ps ss))"

definition planner_MatchGlob :: "string \<Rightarrow> string \<Rightarrow> bool" where
  "planner_MatchGlob pattern name = matchSegments (splitPath pattern) (splitPath name)"

definition policy_MatchGlob :: "string \<Rightarrow> string \<Rightarrow> bool" where
  "policy_MatchGlob pattern name =
    (if pattern = [] then name = []
     else matchSegments (strings_Split pattern (CHR ''/'')) (strings_Split name (CHR ''/'')))"

fun planner_matchAnyGlob :: "string list \<Rightarrow> string \<Rightarrow> bool" where
  "planner_matchAnyGlob [] v = False"
| "planner_matchAnyGlob (p # ps) v =
     (if planner_MatchGlob p v then True else planner_matchAnyGlob ps v)"

fun policy_matchAnyGlob :: "string list \<Rightarrow> string \<Rightarrow> bool" where
  "policy_matchAnyGlob [] v = False"
| "policy_matchAnyGlob (p # ps) v =
     (if policy_MatchGlob p v then True else policy_matchAnyGlob ps v)"

subsection \<open>Reference semantics of one segment\<close>

text \<open>A star spans any run of bytes; every other byte stands for itself.\<close>

fun glob_ref :: "string \<Rightarrow> string \<Rightarrow> bool" where
  "glob_ref [] s = (s = [])"
| "glob_ref (p # ps) s =
     (if p = CHR ''*'' then list_ex (\<lambda>i. glob_ref ps (drop i s)) [0..<Suc (length s)]
      else (case s of [] \<Rightarrow> False | c # cs \<Rightarrow> p = c \<and> glob_ref ps cs))"

lemma planner_matchAnyGlob_iff [go_simps]:
  "planner_matchAnyGlob ps v \<longleftrightarrow> (\<exists>p \<in> set ps. planner_MatchGlob p v)"
  by (induction ps) auto

lemma policy_matchAnyGlob_iff [go_simps]:
  "policy_matchAnyGlob ps v \<longleftrightarrow> (\<exists>p \<in> set ps. policy_MatchGlob p v)"
  by (induction ps) auto

lemma strings_Split_nonempty [simp]: "strings_Split s sep \<noteq> []"
  by (induction s sep rule: strings_Split.induct) (auto split: list.split)

lemma splitPath_loop_eq:
  "splitPath_loop cur s = (cur @ hd (strings_Split s (CHR ''/''))) # tl (strings_Split s (CHR ''/''))"
  by (induction cur s rule: splitPath_loop.induct) (auto split: list.split)

lemma splitPath_eq_Split: "splitPath s = strings_Split s (CHR ''/'')"
  by (simp add: splitPath_def splitPath_loop_eq)

lemma list_ex_upt [simp]: "list_ex P [0..<n] \<longleftrightarrow> (\<exists>i < n. P i)"
  by (auto simp: list_ex_iff)

lemma glob_ref_star: "glob_ref (CHR ''*'' # ps) s \<longleftrightarrow> (\<exists>i \<le> length s. glob_ref ps (drop i s))"
  by (auto simp: le_less)

lemma glob_ref_literal_prefix:
  assumes "CHR ''*'' \<notin> set b" and "glob_ref (b @ c) t"
  shows "length b \<le> length t \<and> glob_ref c (drop (length b) t)"
  using assms by (induction b arbitrary: t) (auto split: list.splits)

lemma glob_ref_Nil:
  "glob_ref p [] \<longleftrightarrow> length (takeWhile (\<lambda>c. c = CHR ''*'') p) = length p"
  by (induction p) auto

text \<open>
  The loop invariant. When a star is remembered at \<open>k\<close>, the bytes of the pattern between the
  star and the current position hold no further star and have been matched against the bytes from
  \<open>mark\<close> on. The alternatives still open are the later positions of the remembered star only: a
  newer star subsumes every later position of an older one.
\<close>

definition loop_inv :: "string \<Rightarrow> string \<Rightarrow> nat \<Rightarrow> nat \<Rightarrow> nat option \<Rightarrow> nat \<Rightarrow> bool" where
  "loop_inv p s pidx sidx star mark \<longleftrightarrow> pidx \<le> length p \<and> sidx \<le> length s \<and>
     (case star of None \<Rightarrow> True
      | Some k \<Rightarrow> \<exists>b. drop (k + 1) p = b @ drop pidx p \<and> CHR ''*'' \<notin> set b \<and>
          k < length p \<and> sidx = mark + length b)"

definition retry_ref :: "string \<Rightarrow> string \<Rightarrow> nat option \<Rightarrow> nat \<Rightarrow> bool" where
  "retry_ref p s star mark \<longleftrightarrow> (\<exists>k. star = Some k \<and>
     (\<exists>j. mark < j \<and> j \<le> length s \<and> glob_ref (drop (k + 1) p) (drop j s)))"

lemma retry_within_rest:
  assumes "loop_inv p s pidx sidx star mark" and "retry_ref p s star mark"
  shows "\<exists>i > sidx. i \<le> length s \<and> glob_ref (drop pidx p) (drop i s)"
proof -
  obtain k j b where k: "star = Some k" and j: "mark < j" "j \<le> length s"
      and ref: "glob_ref (b @ drop pidx p) (drop j s)"
      and b: "CHR ''*'' \<notin> set b" "sidx = mark + length b"
    using assms by (auto simp: loop_inv_def retry_ref_def)
  have "length b \<le> length s - j" and "glob_ref (drop pidx p) (drop (length b + j) s)"
    using glob_ref_literal_prefix [OF b(1) ref] by auto
  moreover have "length b + j > sidx" using b j by simp
  ultimately show ?thesis using j(2) by (intro exI [of _ "length b + j"]) auto
qed

lemma loop_inv_literal:
  assumes "loop_inv p s pidx sidx star mark" and "pidx < length p" and "sidx < length s"
    and "p ! pidx \<noteq> CHR ''*''"
  shows "loop_inv p s (pidx + 1) (sidx + 1) star mark"
proof (cases star)
  case None
  with assms show ?thesis by (simp add: loop_inv_def)
next
  case (Some k)
  with assms(1) obtain b where "drop (k + 1) p = b @ drop pidx p" "CHR ''*'' \<notin> set b"
      "k < length p" "sidx = mark + length b"
    by (auto simp: loop_inv_def)
  with assms Some show ?thesis
    by (auto simp: loop_inv_def Cons_nth_drop_Suc intro!: exI [of _ "b @ [p ! pidx]"])
qed

lemma glob_ref_at_star:
  assumes "p ! pidx = CHR ''*''" and "pidx < length p" and "i \<le> length s"
  shows "glob_ref (drop pidx p) (drop i s) \<longleftrightarrow>
    (\<exists>j \<ge> i. j \<le> length s \<and> glob_ref (drop (pidx + 1) p) (drop j s))"
proof -
  have drop_p: "drop pidx p = CHR ''*'' # drop (pidx + 1) p"
    using assms by (metis Cons_nth_drop_Suc Suc_eq_plus1)
  show ?thesis
  proof
    assume "glob_ref (drop pidx p) (drop i s)"
    then obtain d where "d \<le> length s - i" "glob_ref (drop (pidx + 1) p) (drop (d + i) s)"
      unfolding drop_p glob_ref_star by auto
    then show "\<exists>j \<ge> i. j \<le> length s \<and> glob_ref (drop (pidx + 1) p) (drop j s)"
      using assms(3) by (intro exI [of _ "d + i"]) auto
  next
    assume "\<exists>j \<ge> i. j \<le> length s \<and> glob_ref (drop (pidx + 1) p) (drop j s)"
    then obtain d where "i + d \<le> length s" "glob_ref (drop (pidx + 1) p) (drop (i + d) s)"
      by (auto simp: le_iff_add)
    then show "glob_ref (drop pidx p) (drop i s)"
      unfolding drop_p glob_ref_star by (intro exI [of _ d]) (auto simp: add.commute)
  qed
qed

lemma open_star:
  assumes "p ! pidx = CHR ''*''" and "pidx < length p" and "sidx \<le> length s"
  shows "glob_ref (drop (pidx + 1) p) (drop sidx s) \<or> retry_ref p s (Some pidx) sidx \<longleftrightarrow>
    glob_ref (drop pidx p) (drop sidx s)"
  unfolding glob_ref_at_star [OF assms] using assms(3) by (auto simp: retry_ref_def le_less)

lemma newer_star_subsumes:
  assumes "p ! pidx = CHR ''*''" and "pidx < length p" and "loop_inv p s pidx sidx star mark"
    and "retry_ref p s star mark"
  shows "glob_ref (drop pidx p) (drop sidx s)"
proof -
  obtain i where "sidx < i" "i \<le> length s" "glob_ref (drop pidx p) (drop i s)"
    using retry_within_rest [OF assms(3,4)] by blast
  then show ?thesis
    using glob_ref_at_star [OF assms(1,2)] by (meson le_trans less_imp_le)
qed

lemma advance_star:
  assumes "mark < length s"
  shows "glob_ref (drop (k + 1) p) (drop (mark + 1) s) \<or> retry_ref p s (Some k) (mark + 1) \<longleftrightarrow>
    retry_ref p s (Some k) mark"
proof -
  define P where "P j \<longleftrightarrow> j \<le> length s \<and> glob_ref (drop (k + 1) p) (drop j s)" for j
  have "P (mark + 1) \<or> (\<exists>j > mark + 1. P j) \<longleftrightarrow> (\<exists>j > mark. P j)"
    by (metis Suc_eq_plus1 Suc_lessI less_add_one less_trans)
  then show ?thesis using assms by (simp add: retry_ref_def P_def)
qed

lemma drop_at: "i < length xs \<Longrightarrow> drop i xs = xs ! i # drop (i + 1) xs"
  by (simp add: Cons_nth_drop_Suc)

lemma mismatch_ref:
  assumes "sidx < length s" and "\<not> (pidx < length p \<and> p ! pidx = s ! sidx)"
    and "\<not> (pidx < length p \<and> p ! pidx = CHR ''*'')"
  shows "\<not> glob_ref (drop pidx p) (drop sidx s)"
proof (cases "pidx < length p")
  case True
  with assms show ?thesis
    using drop_at [of pidx p] drop_at [of sidx s] by auto
next
  case False
  with assms show ?thesis by simp
qed

lemma loop_ref:
  assumes "CHR ''*'' \<notin> set s" and "loop_inv p s pidx sidx star mark"
  shows "matchOneSegment_loop p s pidx sidx star mark \<longleftrightarrow>
    glob_ref (drop pidx p) (drop sidx s) \<or> retry_ref p s star mark"
  using assms
proof (induction p s pidx sidx star mark rule: matchOneSegment_loop.induct)
  case (1 p s pidx sidx star mark)
  note inv = \<open>loop_inv p s pidx sidx star mark\<close>
  have bounds: "pidx \<le> length p" "sidx \<le> length s" using inv by (auto simp: loop_inv_def)
  consider (finished) "\<not> sidx < length s"
    | (lit) "sidx < length s" "pidx < length p" "p ! pidx = s ! sidx"
    | (star) "sidx < length s" "pidx < length p" "p ! pidx = CHR ''*''" "p ! pidx \<noteq> s ! sidx"
    | (fail) "sidx < length s" "\<not> (pidx < length p \<and> p ! pidx = s ! sidx)"
        "\<not> (pidx < length p \<and> p ! pidx = CHR ''*'')"
    by blast
  then show ?case
  proof cases
    case finished
    then have "\<not> retry_ref p s star mark"
      using retry_within_rest [OF inv] by auto
    with finished bounds show ?thesis
      by (subst matchOneSegment_loop.simps) (auto simp: glob_ref_Nil)
  next
    case lit
    then have "s ! sidx \<noteq> CHR ''*''" using 1(4) by (metis nth_mem)
    then show ?thesis
      using 1(1) [OF lit(1)] loop_inv_literal [OF inv lit(2,1)] 1(4) lit
        drop_at [of pidx p] drop_at [of sidx s]
      by (subst matchOneSegment_loop.simps) simp
  next
    case star
    then have "loop_inv p s (pidx + 1) sidx (Some pidx) sidx" by (auto simp: loop_inv_def)
    then have "matchOneSegment_loop p s pidx sidx star mark \<longleftrightarrow> glob_ref (drop pidx p) (drop sidx s)"
      using 1(2) [OF star(1)] star 1(4) open_star [OF star(3,2) bounds(2)]
      by (subst matchOneSegment_loop.simps) auto
    then show ?thesis
      using newer_star_subsumes [OF star(3,2) inv] by blast
  next
    case fail
    show ?thesis
    proof (cases star)
      case None
      with fail show ?thesis
        by (subst matchOneSegment_loop.simps) (auto simp: retry_ref_def mismatch_ref)
    next
      case (Some k)
      then have "k < length p" and mark: "mark < length s"
        using inv fail(1) by (auto simp: loop_inv_def)
      then have "loop_inv p s (k + 1) (mark + 1) star (mark + 1)"
        using Some by (auto simp: loop_inv_def)
      then show ?thesis
        using 1(3) [OF fail(1)] fail 1(4) Some advance_star [OF mark] mismatch_ref [OF fail]
        by (subst matchOneSegment_loop.simps) auto
    qed
  qed
qed

text \<open>On a segment without a literal star, the two-pointer loop of
  \<^verbatim>\<open>matchOneSegment\<close> (which terminates on every input) decides exactly the declarative
  wildcard semantics: stars span any run of bytes, every other byte stands for itself.\<close>

theorem matchOneSegment_ref:
  assumes "CHR ''*'' \<notin> set s"
  shows "matchOneSegment pattern s \<longleftrightarrow> glob_ref pattern s"
  unfolding matchOneSegment_def
  by (subst loop_ref [OF assms]) (auto simp: loop_inv_def retry_ref_def)

theorem matchOneSegment_ref_witness:
  "matchOneSegment ''a*c*e'' ''abcde'' \<and> \<not> matchOneSegment ''a*c*e'' ''abcd''"
proof -
  have "matchOneSegment ''a*c*e'' ''abcde'' = glob_ref ''a*c*e'' ''abcde''"
    and "matchOneSegment ''a*c*e'' ''abcd'' = glob_ref ''a*c*e'' ''abcd''"
    by (rule matchOneSegment_ref, simp)+
  moreover have "glob_ref ''a*c*e'' ''abcde''" and "\<not> glob_ref ''a*c*e'' ''abcd''" by code_simp+
  ultimately show ?thesis by simp
qed

text \<open>A literal star in the name is compared as an ordinary byte before the pattern's star is
  tried as a wildcard: the pattern \<^verbatim>\<open>*b\<close> does not match the name \<^verbatim>\<open>*ab\<close>, although it
  ends in \<^verbatim>\<open>b\<close>. Names with stars do reach the matcher: repair envelopes are filtered by globs over
  other globs.\<close>

theorem literal_star_defeats_wildcard:
  "\<not> matchOneSegment ''*b'' ''*ab'' \<and> glob_ref ''*b'' ''*ab'' \<and> matchOneSegment ''*b'' ''xab''"
  by code_simp

lemma matchOneSegment_loop_literal:
  assumes "CHR ''*'' \<notin> set p" and "pidx \<le> length p" and "sidx \<le> length s" and "star = None"
  shows "matchOneSegment_loop p s pidx sidx star mark \<longleftrightarrow> drop pidx p = drop sidx s"
  using assms
proof (induction p s pidx sidx star mark rule: matchOneSegment_loop.induct)
  case (1 p s pidx sidx star mark)
  have tw: "takeWhile (\<lambda>c. c = CHR ''*'') (drop pidx p) = []"
    using 1(4) set_drop_subset [of pidx p] by (cases "drop pidx p") auto
  consider "\<not> sidx < length s" | "sidx < length s" "pidx < length p" "p ! pidx = s ! sidx"
    | "sidx < length s" "\<not> (pidx < length p \<and> p ! pidx = s ! sidx)" by blast
  then show ?case
  proof cases
    case 1
    with tw \<open>pidx \<le> length p\<close> \<open>sidx \<le> length s\<close> show ?thesis
      by (subst matchOneSegment_loop.simps) auto
  next
    case 2
    then show ?thesis
      using 1(1) [OF 2(1)] 1(4-7) drop_at [of pidx p] drop_at [of sidx s]
      by (subst matchOneSegment_loop.simps) simp
  next
    case 3
    then have "drop pidx p \<noteq> drop sidx s"
      using drop_at [of sidx s] by (metis drop_at drop_eq_Nil list.discI list.inject not_le)
    moreover have "\<not> (pidx < length p \<and> p ! pidx = CHR ''*'')"
      using 1(4) by (metis nth_mem)
    ultimately show ?thesis
      using 3 1(7) by (subst matchOneSegment_loop.simps) auto
  qed
qed

lemma matchOneSegment_literal [simp]:
  "CHR ''*'' \<notin> set p \<Longrightarrow> matchOneSegment p s \<longleftrightarrow> p = s"
  by (simp add: matchOneSegment_def matchOneSegment_loop_literal)

subsection \<open>Whole paths\<close>

fun strings_Join :: "string list \<Rightarrow> string" where
  "strings_Join [] = []"
| "strings_Join [x] = x"
| "strings_Join (x # y # r) = x @ ''/'' @ strings_Join (y # r)"

lemma Join_Split [simp]: "strings_Join (strings_Split s (CHR ''/'')) = s"
proof (induction s)
  case Nil
  then show ?case by simp
next
  case (Cons c cs)
  then show ?case
    by (cases "strings_Split cs (CHR ''/'')" rule: strings_Join.cases)
      (auto split: list.splits)
qed

lemma Join_append:
  "a \<noteq> [] \<Longrightarrow> b \<noteq> [] \<Longrightarrow> strings_Join (a @ b) = strings_Join a @ ''/'' @ strings_Join b"
proof (induction a rule: strings_Join.induct)
  case (2 x)
  then show ?case by (cases b) auto
qed auto

lemma Split_append:
  "strings_Split (a @ CHR ''/'' # b) (CHR ''/'') =
     strings_Split a (CHR ''/'') @ strings_Split b (CHR ''/'')"
proof (induction a)
  case (Cons c cs)
  then show ?case by (cases "strings_Split cs (CHR ''/'')") (auto split: list.splits)
qed simp

lemma Split_chars: "x \<in> set (strings_Split s sep) \<Longrightarrow> set x \<subseteq> set s"
proof (induction s arbitrary: x)
  case (Cons c cs)
  then show ?case by (auto split: if_splits list.splits) blast+
qed simp

lemma matchSegments_literal:
  assumes "\<forall>p \<in> set ps. CHR ''*'' \<notin> set p"
  shows "matchSegments (ps @ qs) seg \<longleftrightarrow>
    (\<exists>rest. seg = ps @ rest \<and> matchSegments qs rest)"
  using assms
proof (induction ps arbitrary: seg)
  case (Cons p ps)
  then have "p \<noteq> ''**''" by auto
  with Cons show ?case by (auto split: list.splits)
qed simp

lemma MatchGlob_eq: "planner_MatchGlob pattern name = policy_MatchGlob pattern name"
proof (cases pattern)
  case Nil
  have "strings_Split name (CHR ''/'') = [[]] \<longleftrightarrow> name = []"
    by (metis Join_Split strings_Join.simps(2) strings_Split.simps(1))
  with Nil show ?thesis
    by (auto simp: planner_MatchGlob_def policy_MatchGlob_def splitPath_eq_Split split: list.split)
qed (simp add: planner_MatchGlob_def policy_MatchGlob_def splitPath_eq_Split)

lemma directory_glob:
  assumes "CHR ''*'' \<notin> set d"
  shows "policy_MatchGlob (d @ ''/**'') name \<longleftrightarrow> name = d \<or> (\<exists>below. name = d @ ''/'' @ below)"
proof -
  let ?D = "strings_Split d (CHR ''/'')"
  have "strings_Split (d @ ''/**'') (CHR ''/'') = ?D @ [''**'']"
    by (simp add: Split_append)
  moreover have "\<forall>p \<in> set ?D. CHR ''*'' \<notin> set p"
    using assms Split_chars by blast
  ultimately have match: "policy_MatchGlob (d @ ''/**'') name \<longleftrightarrow>
      (\<exists>rest. strings_Split name (CHR ''/'') = ?D @ rest)"
    by (simp add: policy_MatchGlob_def matchSegments_literal)
  have "name = d \<or> (\<exists>below. name = d @ ''/'' @ below)"
    if "strings_Split name (CHR ''/'') = ?D @ rest" for rest
    using arg_cong [OF that, of strings_Join] Join_append [of ?D rest] by (cases "rest = []") auto
  moreover have "\<exists>rest. strings_Split (d @ ''/'' @ below) (CHR ''/'') = ?D @ rest" for below
    by (simp add: Split_append)
  ultimately show ?thesis unfolding match by (metis append_Nil2)
qed

text \<open>The planner's and the policy engine's glob matchers, written separately (a splitting loop
  against \<^verbatim>\<open>strings.Split\<close>, with and without a guard for the empty pattern), decide the
  same relation on all patterns and names, alone and over pattern lists.\<close>

theorem planner_policy_globs_agree:
  "planner_MatchGlob pattern name = policy_MatchGlob pattern name \<and>
   planner_matchAnyGlob patterns name = policy_matchAnyGlob patterns name"
  by (simp add: MatchGlob_eq planner_matchAnyGlob_iff policy_matchAnyGlob_iff)

text \<open>A protected-directory pattern \<^verbatim>\<open>d/**\<close> (no star in \<open>d\<close>) matches, in both packages, exactly
  the directory itself and every path below it, whatever bytes the path holds.\<close>

theorem directory_pattern_matches_subtree:
  assumes "CHR ''*'' \<notin> set d"
  shows "(policy_MatchGlob (d @ ''/**'') name \<longleftrightarrow> name = d \<or> (\<exists>below. name = d @ ''/'' @ below)) \<and>
    (planner_MatchGlob (d @ ''/**'') name \<longleftrightarrow> name = d \<or> (\<exists>below. name = d @ ''/'' @ below))"
  using directory_glob [OF assms] by (simp add: MatchGlob_eq)

theorem directory_pattern_matches_subtree_witness:
  "policy_MatchGlob ''auth/**'' ''auth/keys/*.pem'' \<and> \<not> planner_MatchGlob ''auth/**'' ''authz/x''"
  using directory_pattern_matches_subtree [of "''auth''" "''auth/keys/*.pem''"]
    directory_pattern_matches_subtree [of "''auth''" "''authz/x''"] by simp

end
