(* ===== verification/Policy.thy ===== *)
theory Policy
  imports Glob "HOL-Library.Product_Lexorder"
begin

text \<open>
  Policy resolution: \<^verbatim>\<open>control-plane/internal/policy\<close> (\<^verbatim>\<open>policy.go\<close>, \<^verbatim>\<open>resolve.go\<close>,
  \<^verbatim>\<open>default_pack.go\<close>). A registry is the result of \<^verbatim>\<open>ActivePolicies()\<close>: an error or a
  list of records; \<open>None\<close> is a nil registry. The two embedded JSON documents are the records
  \<^verbatim>\<open>json.Unmarshal\<close> builds from them.
\<close>

datatype PolicyErr = ErrNoActivePolicy | ErrRegistryFailed

record ActorSelectors =
  Agents :: "string list"
  Exclude :: "string list"

record ScopeSelectors =
  Repos :: "string list"
  Paths :: "string list"
  RiskClasses :: "string list"
  Actors :: ActorSelectors

record Subject =
  sRepo :: string
  sChangedPaths :: "string list"
  sRiskClass :: string
  sActor :: string

record PerCandidateBudget =
  pcCPUMinutes :: int
  pcEnvironmentMinutes :: int
  pcRepairAttempts :: int

record PerTenantHourBudget =
  thCPUMinutes :: int
  thConcurrentCandidates :: int

record Budgets =
  PerCandidate :: PerCandidateBudget
  PerTenantHour :: PerTenantHourBudget
  WIPByTier :: "string \<rightharpoonup> int"
  EnvTemplates :: "string \<rightharpoonup> int"
  ValueTiers :: "string \<rightharpoonup> float64"

record LadderOverrides =
  Tier3RiskClasses :: "string list"
  MinSelectionConfidence :: float64
  FallbackTriggers :: "string list"
  ProtectedPaths :: "string list"

record Autonomy =
  auLevel :: int
  auLevelsSemantics :: "string \<rightharpoonup> string"
  auAutoMergeRiskClasses :: "string list"
  auAutoRepairClasses :: "string list"
  auEscalateOn :: "string list"

record PolicyBody =
  pbPolicyID :: string
  pbVersion :: int
  pbScopeSelectors :: ScopeSelectors
  pbRequiredEvidenceByRisk :: "string \<rightharpoonup> string list"
  pbLadderOverrides :: LadderOverrides
  pbBudgets :: Budgets
  pbAutonomy :: Autonomy

record PolicyRecord =
  recID :: string
  recVersion :: int
  recStatus :: string
  recBody :: PolicyBody

record ResolvedPolicy =
  rpPolicyID :: string
  rpVersion :: int
  rpBody :: PolicyBody

type_synonym Registry = "string + PolicyRecord list"

subsection \<open>Resolution\<close>

definition StatusActive :: string where "StatusActive = ''active''"

definition specificityWildcard :: int where "specificityWildcard = 0"
definition specificityRepos :: int where "specificityRepos = 2"
definition specificityPaths :: int where "specificityPaths = 4"

definition matchSpecificity :: "ScopeSelectors \<Rightarrow> Subject \<Rightarrow> int \<times> bool" where
  "matchSpecificity sel s =
    (if Repos sel \<noteq> [] \<and> \<not> policy_matchAnyGlob (Repos sel) (sRepo s) then (specificityWildcard, False)
     else if Paths sel \<noteq> [] \<and> \<not> list_ex (\<lambda>p. policy_matchAnyGlob (Paths sel) p) (sChangedPaths s)
       then (specificityWildcard, False)
     else if RiskClasses sel \<noteq> [] \<and> \<not> contains_exact (RiskClasses sel) (sRiskClass s)
       then (specificityWildcard, False)
     else if Agents (Actors sel) \<noteq> [] \<and> \<not> policy_matchAnyGlob (Agents (Actors sel)) (sActor s)
       then (specificityWildcard, False)
     else if Exclude (Actors sel) \<noteq> [] \<and> policy_matchAnyGlob (Exclude (Actors sel)) (sActor s)
       then (specificityWildcard, False)
     else if Paths sel \<noteq> [] then (specificityPaths, True)
     else if Repos sel \<noteq> [] then (specificityRepos, True)
     else (specificityWildcard, True))"

definition better :: "int \<Rightarrow> PolicyRecord \<Rightarrow> int \<Rightarrow> int \<Rightarrow> PolicyRecord list \<Rightarrow> bool" where
  "better spec r bestSpec best recs =
    (if best < 0 then True
     else if spec \<noteq> bestSpec then spec > bestSpec
     else if recVersion r \<noteq> recVersion (recs ! nat best) then recVersion r > recVersion (recs ! nat best)
     else recID r > recID (recs ! nat best))"

text \<open>The loop of \<^verbatim>\<open>Resolve\<close> over \<open>(i, rec)\<close>, giving the final \<open>best\<close>.\<close>

fun Resolve_loop :: "Subject \<Rightarrow> PolicyRecord list \<Rightarrow> nat \<Rightarrow> PolicyRecord list \<Rightarrow> int \<Rightarrow> int \<Rightarrow> int" where
  "Resolve_loop subj recs i [] best bestSpec = best"
| "Resolve_loop subj recs i (r # rest) best bestSpec =
    (if recStatus r \<noteq> StatusActive \<or> pbPolicyID (recBody r) = [] \<or> recVersion r \<le> 0
     then Resolve_loop subj recs (i + 1) rest best bestSpec
     else case matchSpecificity (pbScopeSelectors (recBody r)) subj of (spec, ok) \<Rightarrow>
       if \<not> ok then Resolve_loop subj recs (i + 1) rest best bestSpec
       else if better spec r bestSpec best recs
       then Resolve_loop subj recs (i + 1) rest (int i) spec
       else Resolve_loop subj recs (i + 1) rest best bestSpec)"

definition Resolve :: "Subject \<Rightarrow> Registry option \<Rightarrow> PolicyErr + ResolvedPolicy" where
  "Resolve subj reg =
    (case reg of
       None \<Rightarrow> Inl ErrNoActivePolicy
     | Some (Inl err) \<Rightarrow> Inl ErrRegistryFailed
     | Some (Inr recs) \<Rightarrow>
         let best = Resolve_loop subj recs 0 recs (-1) (-1) in
         if best < 0 then Inl ErrNoActivePolicy
         else let win = recs ! nat best in
           Inr \<lparr>rpPolicyID = recID win, rpVersion = recVersion win, rpBody = recBody win\<rparr>)"

definition record_less :: "PolicyRecord \<Rightarrow> PolicyRecord \<Rightarrow> bool" where
  "record_less a b = (if recID a \<noteq> recID b then recID a < recID b else recVersion a < recVersion b)"

definition SortRecords :: "PolicyRecord list \<Rightarrow> PolicyRecord list" where
  "SortRecords recs = sort_by record_less recs"

subsection \<open>The compiled-in packs\<close>

definition pack_required :: "string \<rightharpoonup> string list" where
  "pack_required =
    [''low'' \<mapsto> [''hermetic_build'', ''selected_unit''],
     ''medium'' \<mapsto> [''hermetic_build'', ''selected_unit'', ''api_compat''],
     ''high'' \<mapsto> [''hermetic_build'', ''api_compat'', ''payment_contract'', ''idempotency_race'',
       ''sast_diff''],
     ''critical'' \<mapsto> [''hermetic_build'', ''api_compat'', ''full_integration'', ''human_approval'']]"

definition pack_ladder :: LadderOverrides where
  "pack_ladder = \<lparr>Tier3RiskClasses = [''high'', ''critical''], MinSelectionConfidence = 98 / 100,
     FallbackTriggers = [''uncertainty_gt_0.02'', ''sparse_history_lt_20'', ''protected_paths''],
     ProtectedPaths = [''auth/**'', ''migrations/**'', ''infrastructure/prod/**'']\<rparr>"

definition pack_budgets :: "(string \<rightharpoonup> float64) \<Rightarrow> Budgets" where
  "pack_budgets valueTiers =
    \<lparr>PerCandidate = \<lparr>pcCPUMinutes = 120, pcEnvironmentMinutes = 30, pcRepairAttempts = 2\<rparr>,
     PerTenantHour = \<lparr>thCPUMinutes = 5000, thConcurrentCandidates = 40\<rparr>,
     WIPByTier = [''0'' \<mapsto> 200, ''1'' \<mapsto> 60, ''2'' \<mapsto> 20, ''3'' \<mapsto> 6, ''4'' \<mapsto> 2],
     EnvTemplates = [''payments-preview'' \<mapsto> 4],
     ValueTiers = valueTiers\<rparr>"

definition pack_autonomy :: Autonomy where
  "pack_autonomy = \<lparr>auLevel = 3,
     auLevelsSemantics =
       [''0'' \<mapsto> ''observe and explain only'',
        ''1'' \<mapsto> ''recommend tests/prioritization/cancellations; human acts'',
        ''2'' \<mapsto> ''trigger pre-approved validation automatically'',
        ''3'' \<mapsto> ''bounded repair attempts on isolated branches'',
        ''4'' \<mapsto> ''mark low-risk candidates merge-eligible'',
        ''5'' \<mapsto> ''auto-merge protected low-risk changes'',
        ''6'' \<mapsto> ''progressive deploy under strict runtime invariants''],
     auAutoMergeRiskClasses = [],
     auAutoRepairClasses = [''compile_regression'', ''merge_conflict'', ''functional_regression''],
     auEscalateOn = [''security_policy_violation'', ''test_expectation_drift'',
       ''classification_confidence_lt_0.8'']\<rparr>"

definition defaultPolicyBody :: PolicyBody where
  "defaultPolicyBody = \<lparr>pbPolicyID = ''pol_payments_high_risk'', pbVersion = 4,
     pbScopeSelectors = \<lparr>Repos = [''acme/payments''],
       Paths = [''services/checkout/**'', ''libs/idempotency/**''],
       RiskClasses = [''high'', ''critical''],
       Actors = \<lparr>Agents = [''agent:*''], Exclude = [''agent:docs-writer'']\<rparr>\<rparr>,
     pbRequiredEvidenceByRisk = pack_required,
     pbLadderOverrides = pack_ladder,
     pbBudgets = pack_budgets [''acme/payments'' \<mapsto> 15 / 10, ''acme/docs'' \<mapsto> 3 / 10],
     pbAutonomy = pack_autonomy\<rparr>"

definition catchAllPolicyBody :: PolicyBody where
  "catchAllPolicyBody = \<lparr>pbPolicyID = ''pol_cisync_default'', pbVersion = 1,
     pbScopeSelectors = \<lparr>Repos = [], Paths = [], RiskClasses = [],
       Actors = \<lparr>Agents = [], Exclude = []\<rparr>\<rparr>,
     pbRequiredEvidenceByRisk = pack_required,
     pbLadderOverrides = pack_ladder,
     pbBudgets = pack_budgets Map.empty,
     pbAutonomy = pack_autonomy\<rparr>"

definition parsePack :: "PolicyBody \<Rightarrow> PolicyRecord" where
  "parsePack body = \<lparr>recID = pbPolicyID body, recVersion = pbVersion body, recStatus = StatusActive,
     recBody = body\<rparr>"

definition DefaultPolicyPack :: PolicyRecord where
  "DefaultPolicyPack = parsePack defaultPolicyBody"

definition CatchAllPolicyPack :: PolicyRecord where
  "CatchAllPolicyPack = parsePack catchAllPolicyBody"

definition DefaultRegistry :: Registry where
  "DefaultRegistry =
    (let recs = [CatchAllPolicyPack] in
     Inr (if recID DefaultPolicyPack \<noteq> [] then recs @ [DefaultPolicyPack] else recs))"

subsection \<open>Lemmas\<close>

text \<open>The records resolution may choose, and the key it maximises: specificity, version, id.\<close>

definition eligible :: "Subject \<Rightarrow> PolicyRecord \<Rightarrow> bool" where
  "eligible subj r \<longleftrightarrow> recStatus r = StatusActive \<and> pbPolicyID (recBody r) \<noteq> [] \<and> recVersion r > 0 \<and>
     snd (matchSpecificity (pbScopeSelectors (recBody r)) subj)"

definition policy_key :: "Subject \<Rightarrow> PolicyRecord \<Rightarrow> int \<times> int \<times> string" where
  "policy_key subj r =
     (fst (matchSpecificity (pbScopeSelectors (recBody r)) subj), recVersion r, recID r)"

definition scan_best :: "Subject \<Rightarrow> PolicyRecord list \<Rightarrow> nat \<Rightarrow> int \<Rightarrow> int \<Rightarrow> bool" where
  "scan_best subj recs n best bestSpec \<longleftrightarrow>
     (if best < 0 then \<forall>r \<in> set (take n recs). \<not> eligible subj r
      else nat best < n \<and> n \<le> length recs \<and> eligible subj (recs ! nat best) \<and>
        bestSpec = fst (policy_key subj (recs ! nat best)) \<and>
        (\<forall>r \<in> set (take n recs). eligible subj r \<longrightarrow> policy_key subj r \<le> policy_key subj (recs ! nat best)))"

lemma better_key:
  "0 \<le> best \<Longrightarrow> bestSpec = fst (policy_key subj (recs ! nat best)) \<Longrightarrow>
   better (fst (matchSpecificity (pbScopeSelectors (recBody r)) subj)) r bestSpec best recs \<longleftrightarrow>
     policy_key subj (recs ! nat best) < policy_key subj r"
  by (auto simp: better_def policy_key_def)

lemma Resolve_loop_Cons:
  "Resolve_loop subj recs n (r # rest) best bestSpec =
    (if eligible subj r \<and> better (fst (policy_key subj r)) r bestSpec best recs
     then Resolve_loop subj recs (n + 1) rest (int n) (fst (policy_key subj r))
     else Resolve_loop subj recs (n + 1) rest best bestSpec)"
  by (auto simp: eligible_def policy_key_def split: prod.splits)

lemma scan_best_step:
  assumes "scan_best subj recs n best bestSpec" and "n < length recs"
  shows "if eligible subj (recs ! n) \<and> better (fst (policy_key subj (recs ! n))) (recs ! n) bestSpec best recs
    then scan_best subj recs (n + 1) (int n) (fst (policy_key subj (recs ! n)))
    else scan_best subj recs (n + 1) best bestSpec"
proof -
  have take: "set (take (n + 1) recs) = insert (recs ! n) (set (take n recs))"
    using assms(2) by (simp add: take_Suc_conv_app_nth)
  show ?thesis
  proof (cases "best < 0")
    case True
    with assms take show ?thesis
      by (auto simp: scan_best_def better_def)
  next
    case False
    then have "better (fst (policy_key subj (recs ! n))) (recs ! n) bestSpec best recs \<longleftrightarrow>
        policy_key subj (recs ! nat best) < policy_key subj (recs ! n)"
      using better_key [of best bestSpec subj recs "recs ! n"] assms(1)
      by (auto simp: scan_best_def policy_key_def)
    with False assms take show ?thesis
      by (auto simp: scan_best_def not_less intro: order_trans less_imp_le)
  qed
qed

lemma Resolve_loop_scan:
  assumes "scan_best subj recs n best bestSpec" and "drop n recs = rest" and "n \<le> length recs"
  shows "\<exists>spec. scan_best subj recs (length recs) (Resolve_loop subj recs n rest best bestSpec) spec"
  using assms
proof (induction rest arbitrary: n best bestSpec)
  case Nil
  then show ?case by auto
next
  case (Cons r rest)
  then have "n < length recs" by (cases "n = length recs") auto
  then have n: "n < length recs" "recs ! n = r" "drop (n + 1) recs = rest"
    using Cons.prems(2) drop_at [of n recs] by auto
  then show ?case
    using Cons.IH [of "n + 1"] scan_best_step [OF Cons.prems(1) n(1)]
    by (auto simp: Resolve_loop_Cons simp del: Resolve_loop.simps split: if_splits)
qed

definition resolved :: "PolicyRecord \<Rightarrow> ResolvedPolicy" where
  "resolved r = \<lparr>rpPolicyID = recID r, rpVersion = recVersion r, rpBody = recBody r\<rparr>"

lemma Resolve_cases:
  obtains "\<forall>r \<in> set recs. \<not> eligible subj r" "Resolve subj (Some (Inr recs)) = Inl ErrNoActivePolicy"
  | r where "r \<in> set recs" "eligible subj r" "Resolve subj (Some (Inr recs)) = Inr (resolved r)"
      "\<forall>r' \<in> set recs. eligible subj r' \<longrightarrow> policy_key subj r' \<le> policy_key subj r"
proof -
  let ?best = "Resolve_loop subj recs 0 recs (-1) (-1)"
  obtain spec where best: "scan_best subj recs (length recs) ?best spec"
    using Resolve_loop_scan [of subj recs 0 "-1" "-1"] by (auto simp: scan_best_def)
  show ?thesis
  proof (cases "?best < 0")
    case True
    with best that(1) show ?thesis by (auto simp: scan_best_def Resolve_def Let_def)
  next
    case False
    with best that(2) [of "recs ! nat ?best"] show ?thesis
      by (auto simp: scan_best_def Resolve_def Let_def resolved_def)
  qed
qed

text \<open>Resolution gives the eligible record that is greatest in the order specificity, then version,
  then id; and it fails closed: an error exactly when the registry is nil, fails, or holds no
  eligible record (active, identified, positive version, every selector matched).\<close>

theorem Resolve_maximal_or_fails_closed:
  "(case Resolve subj reg of
      Inl ErrNoActivePolicy \<Rightarrow> reg = None \<or> (\<exists>recs. reg = Some (Inr recs) \<and> filter (eligible subj) recs = [])
    | Inl ErrRegistryFailed \<Rightarrow> (\<exists>err. reg = Some (Inl err))
    | Inr rp \<Rightarrow> (\<exists>recs r. reg = Some (Inr recs) \<and> r \<in> set (filter (eligible subj) recs) \<and> rp = resolved r \<and>
        policy_key subj r = Max (policy_key subj ` set (filter (eligible subj) recs))))"
proof (cases reg)
  case None
  then show ?thesis by (simp add: Resolve_def)
next
  case (Some out)
  show ?thesis
  proof (cases out)
    case (Inl err)
    with Some show ?thesis by (simp add: Resolve_def)
  next
    case (Inr recs)
    show ?thesis
      by (rule Resolve_cases [of recs subj])
        (auto simp: Some Inr filter_empty_conv intro!: exI [of _ recs] Max_eqI [symmetric])
  qed
qed

text \<open>The order in which a registry lists its policies does not matter, as long as no two records
  share id and version.\<close>

theorem Resolve_order_irrelevant:
  assumes "mset recs = mset recs'" and "distinct (map (\<lambda>r. (recID r, recVersion r)) recs)"
  shows "Resolve subj (Some (Inr recs)) = Resolve subj (Some (Inr recs'))"
proof -
  have same: "set recs = set recs'" using assms(1) by (rule mset_eq_setD)
  have unique: "r = r'" if "r \<in> set recs" "r' \<in> set recs" "policy_key subj r = policy_key subj r'" for r r'
    using assms(2) that by (auto simp: distinct_map policy_key_def dest: inj_onD)
  show ?thesis
  proof (cases rule: Resolve_cases [of recs subj])
    case 1
    then show ?thesis by (cases rule: Resolve_cases [of recs' subj]) (auto simp: same)
  next
    case win: (2 r)
    show ?thesis
    proof (cases rule: Resolve_cases [of recs' subj])
      case 1
      with win show ?thesis by (auto simp: same)
    next
      case (2 r')
      with win have "policy_key subj r = policy_key subj r'" by (intro antisym) (auto simp: same)
      with win 2 have "r = r'" by (intro unique) (auto simp: same)
      with win 2 show ?thesis by simp
    qed
  qed
qed

theorem Resolve_order_irrelevant_witness:
  "Resolve \<lparr>sRepo = ''acme/docs'', sChangedPaths = [], sRiskClass = ''low'', sActor = []\<rparr>
      (Some (Inr [CatchAllPolicyPack, DefaultPolicyPack])) =
   Resolve \<lparr>sRepo = ''acme/docs'', sChangedPaths = [], sRiskClass = ''low'', sActor = []\<rparr>
      (Some (Inr [DefaultPolicyPack, CatchAllPolicyPack]))"
  by (rule Resolve_order_irrelevant)
    (simp_all add: DefaultPolicyPack_def CatchAllPolicyPack_def parsePack_def defaultPolicyBody_def
      catchAllPolicyBody_def)

interpretation records: slice_order record_less
  by unfold_locales (auto simp: record_less_def split: if_splits)

text \<open>The compiled-in registry: the wildcard pack is eligible for every subject, the payments pack
  only within its selectors.\<close>

lemmas pack_defs = DefaultPolicyPack_def CatchAllPolicyPack_def parsePack_def defaultPolicyBody_def
  catchAllPolicyBody_def StatusActive_def

lemma eligible_CatchAll: "eligible subj CatchAllPolicyPack"
  by (simp add: eligible_def pack_defs matchSpecificity_def)

lemma DefaultRegistry_eq: "DefaultRegistry = Inr [CatchAllPolicyPack, DefaultPolicyPack]"
  by (simp add: DefaultRegistry_def pack_defs)

lemma key_packs:
  "eligible subj DefaultPolicyPack \<Longrightarrow> policy_key subj CatchAllPolicyPack < policy_key subj DefaultPolicyPack"
  by (auto simp: eligible_def policy_key_def pack_defs matchSpecificity_def specificityPaths_def
      specificityWildcard_def split: if_splits)

lemma DefaultRegistry_resolve:
  "Resolve subj (Some DefaultRegistry) =
    Inr (resolved (if eligible subj DefaultPolicyPack then DefaultPolicyPack else CatchAllPolicyPack))"
  unfolding DefaultRegistry_eq
proof (cases rule: Resolve_cases [of "[CatchAllPolicyPack, DefaultPolicyPack]" subj])
  case 1
  then show "Resolve subj (Some (Inr [CatchAllPolicyPack, DefaultPolicyPack])) =
    Inr (resolved (if eligible subj DefaultPolicyPack then DefaultPolicyPack else CatchAllPolicyPack))"
    using eligible_CatchAll by simp
next
  case (2 r)
  then show "Resolve subj (Some (Inr [CatchAllPolicyPack, DefaultPolicyPack])) =
    Inr (resolved (if eligible subj DefaultPolicyPack then DefaultPolicyPack else CatchAllPolicyPack))"
    using key_packs [of subj] by (auto simp: not_less)
qed

lemma no_actor_not_payments: "sActor subj = [] \<Longrightarrow> \<not> eligible subj DefaultPolicyPack"
proof -
  have "\<not> policy_MatchGlob ''agent:*'' []" by code_simp
  then show "sActor subj = [] \<Longrightarrow> \<not> eligible subj DefaultPolicyPack"
    by (auto simp: eligible_def pack_defs matchSpecificity_def split: if_splits)
qed

text \<open>The compiled-in registry resolves every subject: to the payments pack where its selectors
  match, and to the wildcard pack everywhere else. A subject without an actor never gets the
  payments pack, whatever its repository, paths and risk class.\<close>

theorem DefaultRegistry_total:
  "Resolve subj (Some DefaultRegistry) =
    Inr (resolved (if eligible subj DefaultPolicyPack then DefaultPolicyPack else CatchAllPolicyPack)) \<and>
   Resolve (subj\<lparr>sActor := []\<rparr>) (Some DefaultRegistry) = Inr (resolved CatchAllPolicyPack)"
  by (simp add: DefaultRegistry_resolve no_actor_not_payments)

end
