(* ===== verification/Admission.thy ===== *)
theory Admission
  imports Ranking Policy
begin

text \<open>
  Admission of a ranked batch: \<^verbatim>\<open>scheduler/admit.go\<close> and the budget part of
  \<^verbatim>\<open>dispatch_ranking.go\<close>. \<^verbatim>\<open>int\<close> and \<^verbatim>\<open>int64\<close> arithmetic wraps at 64 bits. The main
  result is invariant I-06/I-10: an admission pass never reserves more than the WIP caps and tenant
  budgets allow, and its deltas are exactly the reservations of the admitted runs.
\<close>

subsection \<open>Admission (admit.go)\<close>

definition DenyWIPCap :: string where "DenyWIPCap = ''wip_cap_exceeded''"
definition DenyTenantCPU :: string where "DenyTenantCPU = ''tenant_cpu_budget_exhausted''"
definition DenyTenantConc :: string where "DenyTenantConc = ''tenant_concurrency_cap_reached''"

type_synonym Caps = "int \<rightharpoonup> int"
type_synonym WIPSnapshot = "int \<rightharpoonup> int"

record BudgetLedger =
  TenantCPURemaining :: "string \<rightharpoonup> int"
  TenantConcurrentRemaining :: "string \<rightharpoonup> int"

record Admission =
  admRunID :: string
  admCandidateID :: string
  Admitted :: bool
  DenyReason :: string
  ReservedCPU :: int
  ReservedConcurrent :: int

record Deltas =
  CPUMinutesByTenant :: "string \<rightharpoonup> int"
  ConcurrentByTenant :: "string \<rightharpoonup> int"
  WIPAddedByTier :: "int \<rightharpoonup> int"

record BatchResult =
  Admissions :: "Admission list"
  brDeltas :: Deltas
  AdmittedCount :: int

definition cpuMinutes :: "int \<Rightarrow> int" where
  "cpuMinutes estMS = (if estMS \<le> 0 then 0 else i64 (estMS + 59999) sdiv 60000)"

definition recordDelta :: "Deltas \<Rightarrow> string \<Rightarrow> int \<Rightarrow> int \<Rightarrow> int \<Rightarrow> Deltas" where
  "recordDelta d tenant tier cpuNeed concNeed =
    (let d1 = (if cpuNeed > 0
               then d\<lparr>CPUMinutesByTenant := (CPUMinutesByTenant d)
                        (tenant \<mapsto> i64 (get0 (CPUMinutesByTenant d) tenant + cpuNeed))\<rparr> else d);
         d2 = (if concNeed > 0
               then d1\<lparr>ConcurrentByTenant := (ConcurrentByTenant d1)
                         (tenant \<mapsto> i64 (get0 (ConcurrentByTenant d1) tenant + concNeed))\<rparr> else d1)
     in d2\<lparr>WIPAddedByTier := (WIPAddedByTier d2)(tier \<mapsto> i64 (get0 (WIPAddedByTier d2) tier + 1))\<rparr>)"

text \<open>The local variables of the loop of \<^verbatim>\<open>Admit\<close>; \<open>seen\<close> holds the pairs of
  \<^verbatim>\<open>seenCandidates\<close>.\<close>

record AdmitState =
  wipNow :: "int \<rightharpoonup> int"
  cpu :: "string \<rightharpoonup> int"
  conc :: "string \<rightharpoonup> int"
  seen :: "(string \<times> string) list"
  res :: BatchResult

definition deny :: "AdmitState \<Rightarrow> Run \<Rightarrow> string \<Rightarrow> AdmitState" where
  "deny st run reason = st\<lparr>res := (res st)\<lparr>Admissions := Admissions (res st) @
     [\<lparr>admRunID = runID run, admCandidateID = runCandidateID run, Admitted = False,
       DenyReason = reason, ReservedCPU = 0, ReservedConcurrent = 0\<rparr>]\<rparr>\<rparr>"

definition reserve :: "AdmitState \<Rightarrow> Run \<Rightarrow> int \<Rightarrow> int \<Rightarrow> AdmitState" where
  "reserve st run need concNeed =
     \<lparr>wipNow = (wipNow st)(runTier run \<mapsto> i64 (get0 (wipNow st) (runTier run) + 1)),
      cpu = (cpu st)(runTenantID run \<mapsto> i64 (get0 (cpu st) (runTenantID run) - need)),
      conc = (conc st)(runTenantID run \<mapsto> i64 (get0 (conc st) (runTenantID run) - concNeed)),
      seen = (runTenantID run, runCandidateID run) # seen st,
      res = \<lparr>Admissions = Admissions (res st) @
               [\<lparr>admRunID = runID run, admCandidateID = runCandidateID run, Admitted = True,
                 DenyReason = [], ReservedCPU = need, ReservedConcurrent = concNeed\<rparr>],
             brDeltas = recordDelta (brDeltas (res st)) (runTenantID run) (runTier run) need concNeed,
             AdmittedCount = AdmittedCount (res st) + 1\<rparr>\<rparr>"

definition Admit_step :: "Caps \<Rightarrow> AdmitState \<Rightarrow> RankedRun \<Rightarrow> AdmitState" where
  "Admit_step caps st rr =
    (let run = rrRun rr; inFlight = get0 (wipNow st) (runTier run) in
     case caps (runTier run) of
       None \<Rightarrow> deny st run DenyWIPCap
     | Some capTier \<Rightarrow>
         if i64 (inFlight + 1) > capTier then deny st run DenyWIPCap
         else let need = cpuMinutes (runEstDurationMS run) in
           if get0 (cpu st) (runTenantID run) < need then deny st run DenyTenantCPU
           else let concNeed = (if (runTenantID run, runCandidateID run) \<in> set (seen st) then 0 else 1) in
             if get0 (conc st) (runTenantID run) < concNeed then deny st run DenyTenantConc
             else reserve st run need concNeed)"

definition admit_init :: "WIPSnapshot \<Rightarrow> BudgetLedger \<Rightarrow> AdmitState" where
  "admit_init wip budgets = \<lparr>wipNow = wip, cpu = TenantCPURemaining budgets,
     conc = TenantConcurrentRemaining budgets, seen = [],
     res = \<lparr>Admissions = [], brDeltas = \<lparr>CPUMinutesByTenant = Map.empty,
       ConcurrentByTenant = Map.empty, WIPAddedByTier = Map.empty\<rparr>, AdmittedCount = 0\<rparr>\<rparr>"

definition Admit :: "RankedRun list \<Rightarrow> Caps \<Rightarrow> WIPSnapshot \<Rightarrow> BudgetLedger \<Rightarrow> BatchResult" where
  "Admit batch caps wip budgets =
     res (foldl (Admit_step caps) (admit_init wip budgets) (SortRanked batch))"

subsection \<open>Budgets of a batch (dispatch\_ranking.go)\<close>

text \<open>The policy's \<^verbatim>\<open>wip_by_tier\<close> map is iterated in some order: its entries are a list.\<close>

fun parseTier_loop :: "int \<Rightarrow> string \<Rightarrow> int" where
  "parseTier_loop tier [] = tier"
| "parseTier_loop tier (c # cs) =
    (if c < CHR ''0'' \<or> c > CHR ''9'' then -1
     else parseTier_loop (i64 (i64 (tier * 10) + (of_char c - 48))) cs)"

definition parseTier :: "string \<Rightarrow> int" where
  "parseTier tierText = parseTier_loop 0 tierText"

definition capsFromPolicy :: "(string \<times> int) list \<Rightarrow> Caps" where
  "capsFromPolicy wipByTier = foldl (\<lambda>caps (tierText, capValue).
     let tier = parseTier tierText in
     if tier < 0 \<or> capValue < 0 then caps else caps(tier \<mapsto> capValue)) Map.empty wipByTier"

datatype BudgetKind = BudgetCPUMinutes | BudgetEnvironmentMinutes | BudgetRepairAttempts | BudgetConcurrentCandidates

type_synonym Usage = "string \<Rightarrow> BudgetKind \<rightharpoonup> int"

definition remainingBudgets :: "PerTenantHourBudget \<Rightarrow> Usage \<Rightarrow> string list \<Rightarrow> BudgetLedger" where
  "remainingBudgets perTenantHour usage tenants = foldl (\<lambda>b tenantID.
     b\<lparr>TenantCPURemaining := (TenantCPURemaining b)
         (tenantID \<mapsto> thCPUMinutes perTenantHour - get0 (usage tenantID) BudgetCPUMinutes),
       TenantConcurrentRemaining := (TenantConcurrentRemaining b)
         (tenantID \<mapsto> thConcurrentCandidates perTenantHour - get0 (usage tenantID) BudgetConcurrentCandidates)\<rparr>)
     \<lparr>TenantCPURemaining = Map.empty, TenantConcurrentRemaining = Map.empty\<rparr> tenants"

definition tenantsOf :: "QueuedRun list \<Rightarrow> string list" where
  "tenantsOf queued = dedupe_seen [] (map qrTenantID queued)"

subsection \<open>CPU minutes\<close>

lemma cpuMinutes_div:
  "est \<le> 2 ^ 63 - 60000 \<Longrightarrow> cpuMinutes est = (if est \<le> 0 then 0 else (est + 59999) div 60000)"
  using ceil_minutes(1) [of est] by (simp add: cpuMinutes_def)

lemma cpuMinutes_nonneg: "est \<le> 2 ^ 63 - 60000 \<Longrightarrow> 0 \<le> cpuMinutes est"
  by (simp add: cpuMinutes_div pos_imp_zdiv_nonneg_iff)

text \<open>A run's CPU need is its estimated duration rounded up to whole minutes for every estimate up
  to \<open>2 ^ 63 - 60000\<close> milliseconds; the largest estimates overflow the rounding and give a negative
  need, which admission would credit to the tenant.\<close>

theorem cpuMinutes_rounds_up:
  assumes "i64_ok est"
  shows "if est \<le> 2 ^ 63 - 60000
    then 0 \<le> cpuMinutes est \<and> max 0 est \<le> 60000 * cpuMinutes est \<and> 60000 * cpuMinutes est < max 0 est + 60000
    else cpuMinutes est < 0"
proof (cases "est \<le> 2 ^ 63 - 60000")
  case True
  then show ?thesis
    using ceil_minutes [of est] cpuMinutes_nonneg [of est] by (auto simp: cpuMinutes_def)
next
  case False
  then have "i64 (est + 59999) = est + 59999 - 2 ^ 64"
    using assms by (intro i64_overflow) (auto simp: i64_ok_def)
  moreover have "est + 59999 - 2 ^ 64 < - 60000" using assms by (simp add: i64_ok_def)
  ultimately have "i64 (est + 59999) sdiv 60000 < 0"
    by (simp add: signed_divide_int_def pos_imp_zdiv_pos_iff)
  with False show ?thesis by (simp add: cpuMinutes_def)
qed

theorem cpuMinutes_rounds_up_witness: "cpuMinutes 90001 = 2 \<and> cpuMinutes (2 ^ 63 - 1) < 0"
proof -
  have "60000 * cpuMinutes 90001 < 150001 \<and> 90001 \<le> 60000 * cpuMinutes 90001"
    using cpuMinutes_rounds_up [of 90001] by (simp add: i64_ok_def)
  moreover have "cpuMinutes (2 ^ 63 - 1) < 0"
    using cpuMinutes_rounds_up [of "2 ^ 63 - 1"] by (simp add: i64_ok_def)
  ultimately show ?thesis by linarith
qed

subsection \<open>Admission never overruns\<close>

lemma Admit_step_cases [case_names deny reserve]:
  obtains reason where "Admit_step caps st rr = deny st (rrRun rr) reason"
  | need concNeed c where "Admit_step caps st rr = reserve st (rrRun rr) need concNeed"
      "need = cpuMinutes (runEstDurationMS (rrRun rr))"
      "concNeed = (if (runTenantID (rrRun rr), runCandidateID (rrRun rr)) \<in> set (seen st) then 0 else 1)"
      "caps (runTier (rrRun rr)) = Some c" "i64 (get0 (wipNow st) (runTier (rrRun rr)) + 1) \<le> c"
      "need \<le> get0 (cpu st) (runTenantID (rrRun rr))" "concNeed \<le> get0 (conc st) (runTenantID (rrRun rr))"
proof (cases "caps (runTier (rrRun rr))")
  case None
  then show ?thesis using that(1) by (simp add: Admit_step_def Let_def)
next
  case (Some c)
  define need where "need = cpuMinutes (runEstDurationMS (rrRun rr))"
  define concNeed :: int where
    "concNeed = (if (runTenantID (rrRun rr), runCandidateID (rrRun rr)) \<in> set (seen st) then 0 else 1)"
  consider "i64 (get0 (wipNow st) (runTier (rrRun rr)) + 1) > c"
    | "i64 (get0 (wipNow st) (runTier (rrRun rr)) + 1) \<le> c" "get0 (cpu st) (runTenantID (rrRun rr)) < need"
    | "i64 (get0 (wipNow st) (runTier (rrRun rr)) + 1) \<le> c" "need \<le> get0 (cpu st) (runTenantID (rrRun rr))"
        "get0 (conc st) (runTenantID (rrRun rr)) < concNeed"
    | "i64 (get0 (wipNow st) (runTier (rrRun rr)) + 1) \<le> c" "need \<le> get0 (cpu st) (runTenantID (rrRun rr))"
        "concNeed \<le> get0 (conc st) (runTenantID (rrRun rr))"
    by linarith
  then show ?thesis
  proof cases
    case 4
    with Some show ?thesis
      by (intro that(2) [of need concNeed c])
        (simp_all add: Admit_step_def Let_def need_def concNeed_def)
  qed (use Some that(1) in \<open>simp_all add: Admit_step_def Let_def need_def concNeed_def\<close>)
qed

text \<open>Reservations of tenant \<open>x\<close> in the rulings \<open>adms\<close> over the runs \<open>xs\<close>.\<close>

definition reserved :: "(Admission \<Rightarrow> int) \<Rightarrow> string \<Rightarrow> RankedRun list \<Rightarrow> Admission list \<Rightarrow> int" where
  "reserved amount x xs adms =
     (\<Sum>(rr, adm) \<leftarrow> zip xs adms. if runTenantID (rrRun rr) = x then amount adm else 0)"

definition admitted_at :: "int \<Rightarrow> RankedRun list \<Rightarrow> Admission list \<Rightarrow> int" where
  "admitted_at t xs adms =
     (\<Sum>(rr, adm) \<leftarrow> zip xs adms. if runTier (rrRun rr) = t \<and> Admitted adm then 1 else 0)"

text \<open>Inputs within the range of the code's integers: estimates that do not overflow the rounding,
  in-flight counts that stay below \<open>2 ^ 63\<close>, 64-bit budgets.\<close>

definition admit_in_range :: "RankedRun list \<Rightarrow> WIPSnapshot \<Rightarrow> BudgetLedger \<Rightarrow> bool" where
  "admit_in_range batch wip budgets \<longleftrightarrow>
     (\<forall>rr \<in> set batch. runEstDurationMS (rrRun rr) \<le> 2 ^ 63 - 60000) \<and>
     (\<forall>t. 0 \<le> get0 wip t \<and> get0 wip t + int (length batch) < 2 ^ 63) \<and>
     (\<forall>x. i64_ok (get0 (TenantCPURemaining budgets) x)) \<and>
     (\<forall>x. i64_ok (get0 (TenantConcurrentRemaining budgets) x))"

text \<open>The loop invariant, one part per dimension: what remains is the initial amount less the delta,
  the delta is the sum of the rulings' reservations, and a positive delta fits.\<close>

definition pool_inv :: "(string \<rightharpoonup> int) \<Rightarrow> (string \<rightharpoonup> int) \<Rightarrow> (string \<rightharpoonup> int) \<Rightarrow> (string \<Rightarrow> int) \<Rightarrow> bool" where
  "pool_inv start left taken tot \<longleftrightarrow> (\<forall>x. get0 left x = get0 start x - get0 taken x \<and>
     get0 taken x = tot x \<and> 0 \<le> get0 taken x \<and> (0 < get0 taken x \<longrightarrow> get0 taken x \<le> get0 start x))"

definition wip_inv :: "Caps \<Rightarrow> WIPSnapshot \<Rightarrow> WIPSnapshot \<Rightarrow> WIPSnapshot \<Rightarrow> (int \<Rightarrow> int) \<Rightarrow> nat \<Rightarrow> bool" where
  "wip_inv caps start inflight added tot n \<longleftrightarrow> (\<forall>t. get0 inflight t = get0 start t + get0 added t \<and>
     get0 added t = tot t \<and> 0 \<le> get0 added t \<and> get0 added t \<le> int n \<and>
     (0 < get0 added t \<longrightarrow> (\<exists>c. caps t = Some c \<and> get0 start t + get0 added t \<le> c)))"

definition admit_inv :: "Caps \<Rightarrow> WIPSnapshot \<Rightarrow> BudgetLedger \<Rightarrow> RankedRun list \<Rightarrow> AdmitState \<Rightarrow> bool" where
  "admit_inv caps wip budgets xs st \<longleftrightarrow>
     length (Admissions (res st)) = length xs \<and>
     map admRunID (Admissions (res st)) = map (runID \<circ> rrRun) xs \<and>
     AdmittedCount (res st) = int (length (filter Admitted (Admissions (res st)))) \<and>
     pool_inv (TenantCPURemaining budgets) (cpu st) (CPUMinutesByTenant (brDeltas (res st)))
       (\<lambda>x. reserved ReservedCPU x xs (Admissions (res st))) \<and>
     pool_inv (TenantConcurrentRemaining budgets) (conc st) (ConcurrentByTenant (brDeltas (res st)))
       (\<lambda>x. reserved ReservedConcurrent x xs (Admissions (res st))) \<and>
     wip_inv caps wip (wipNow st) (WIPAddedByTier (brDeltas (res st)))
       (\<lambda>t. admitted_at t xs (Admissions (res st))) (length xs)"

lemma reserved_snoc:
  "length xs = length adms \<Longrightarrow> reserved amount x (xs @ [rr]) (adms @ [adm]) =
     reserved amount x xs adms + (if runTenantID (rrRun rr) = x then amount adm else 0)"
  by (simp add: reserved_def)

lemma admitted_at_snoc:
  "length xs = length adms \<Longrightarrow> admitted_at t (xs @ [rr]) (adms @ [adm]) =
     admitted_at t xs adms + (if runTier (rrRun rr) = t \<and> Admitted adm then 1 else 0)"
  by (simp add: admitted_at_def)

lemma pool_invD:
  assumes "pool_inv start left taken tot"
  shows "get0 left x = get0 start x - get0 taken x" and "tot x = get0 taken x" and "0 \<le> get0 taken x"
    and "0 < get0 taken x \<Longrightarrow> get0 taken x \<le> get0 start x"
  using assms unfolding pool_inv_def by metis+

lemma wip_invD:
  assumes "wip_inv caps start inflight added tot n"
  shows "get0 inflight t = get0 start t + get0 added t" and "tot t = get0 added t"
    and "0 \<le> get0 added t" and "get0 added t \<le> int n"
    and "0 < get0 added t \<Longrightarrow> \<exists>c. caps t = Some c \<and> get0 start t + get0 added t \<le> c"
  using assms unfolding wip_inv_def by metis+

lemma pool_inv_take:
  assumes inv: "pool_inv start left taken tot" and ok: "\<forall>x. i64_ok (get0 start x)"
    and need: "0 \<le> need" "need \<le> get0 left x"
    and taken': "taken' = (if need > 0 then taken(x \<mapsto> i64 (get0 taken x + need)) else taken)"
    and tot': "\<forall>y. tot' y = tot y + (if x = y then need else 0)"
  shows "pool_inv start (left(x \<mapsto> i64 (get0 left x - need))) taken' tot'"
  unfolding pool_inv_def
proof
  fix y
  note at = pool_invD [OF inv]
  have "i64_ok (get0 start x)" using ok by blast
  then have "i64 (get0 left x - need) = get0 left x - need" "i64 (get0 taken x + need) = get0 taken x + need"
    using need at(1,3) [of x] by (auto intro!: i64_id simp: i64_ok_def)
  then show "get0 (left(x \<mapsto> i64 (get0 left x - need))) y = get0 start y - get0 taken' y \<and>
      get0 taken' y = tot' y \<and> 0 \<le> get0 taken' y \<and> (0 < get0 taken' y \<longrightarrow> get0 taken' y \<le> get0 start y)"
    using need at [of x] at [of y] tot' by (cases "y = x") (simp_all add: taken')
qed

lemma wip_inv_take:
  assumes inv: "wip_inv caps start inflight added tot n"
    and start: "0 \<le> get0 start t" "get0 start t + int n + 1 < 2 ^ 63"
    and cap: "caps t = Some c" "i64 (get0 inflight t + 1) \<le> c"
    and tot': "\<forall>s. tot' s = tot s + (if t = s then 1 else 0)"
  shows "wip_inv caps start (inflight(t \<mapsto> i64 (get0 inflight t + 1)))
    (added(t \<mapsto> i64 (get0 added t + 1))) tot' (Suc n)"
  unfolding wip_inv_def
proof
  fix s
  note at = wip_invD [OF inv]
  have wrap: "i64 (get0 inflight t + 1) = get0 inflight t + 1" "i64 (get0 added t + 1) = get0 added t + 1"
    using start at(1,3,4) [of t] by (auto intro!: i64_id simp: i64_ok_def)
  show "get0 (inflight(t \<mapsto> i64 (get0 inflight t + 1))) s = get0 start s + get0 (added(t \<mapsto> i64 (get0 added t + 1))) s \<and>
      get0 (added(t \<mapsto> i64 (get0 added t + 1))) s = tot' s \<and> 0 \<le> get0 (added(t \<mapsto> i64 (get0 added t + 1))) s \<and>
      get0 (added(t \<mapsto> i64 (get0 added t + 1))) s \<le> int (Suc n) \<and>
      (0 < get0 (added(t \<mapsto> i64 (get0 added t + 1))) s \<longrightarrow>
        (\<exists>c. caps s = Some c \<and> get0 start s + get0 (added(t \<mapsto> i64 (get0 added t + 1))) s \<le> c))"
    using cap(1) cap(2) [unfolded wrap] at [of t] at [of s] tot'
    unfolding wrap by (cases "s = t") simp_all
qed

lemma pool_inv_cong: "pool_inv start left taken tot \<Longrightarrow> \<forall>x. tot' x = tot x \<Longrightarrow> pool_inv start left taken tot'"
  by (metis (no_types, lifting) ext)

lemma wip_inv_cong:
  "wip_inv caps start inflight added tot n \<Longrightarrow> \<forall>t. tot' t = tot t \<Longrightarrow> wip_inv caps start inflight added tot' (Suc n)"
  unfolding wip_inv_def by (metis le_SucI of_nat_mono order_trans le_refl)

lemma recordDelta_parts:
  "CPUMinutesByTenant (recordDelta d x t n k) =
     (if n > 0 then (CPUMinutesByTenant d)(x \<mapsto> i64 (get0 (CPUMinutesByTenant d) x + n)) else CPUMinutesByTenant d)"
  "ConcurrentByTenant (recordDelta d x t n k) =
     (if k > 0 then (ConcurrentByTenant d)(x \<mapsto> i64 (get0 (ConcurrentByTenant d) x + k)) else ConcurrentByTenant d)"
  "WIPAddedByTier (recordDelta d x t n k) = (WIPAddedByTier d)(t \<mapsto> i64 (get0 (WIPAddedByTier d) t + 1))"
  by (simp_all add: recordDelta_def Let_def)

lemma admit_inv_step:
  assumes inv: "admit_inv caps wip budgets xs st" and range: "admit_in_range (xs @ rr # rest) wip budgets"
  shows "admit_inv caps wip budgets (xs @ [rr]) (Admit_step caps st rr)"
proof (cases rule: Admit_step_cases [of caps st rr])
  case (deny reason)
  with inv show ?thesis
    by (auto simp: admit_inv_def deny_def reserved_snoc admitted_at_snoc intro: pool_inv_cong wip_inv_cong)
next
  case (reserve need concNeed c)
  let ?run = "rrRun rr" and ?adms = "Admissions (res st)" and ?d = "brDeltas (res st)"
  let ?adm = "\<lparr>admRunID = runID ?run, admCandidateID = runCandidateID ?run, Admitted = True,
    DenyReason = [], ReservedCPU = need, ReservedConcurrent = concNeed\<rparr>"
  have pos: "0 \<le> need" "0 \<le> concNeed"
    using reserve range by (simp_all add: admit_in_range_def cpuMinutes_nonneg)
  note parts = inv [unfolded admit_inv_def, THEN conjunct2, THEN conjunct2, THEN conjunct2, THEN conjunct1]
    inv [unfolded admit_inv_def, THEN conjunct2, THEN conjunct2, THEN conjunct2, THEN conjunct2, THEN conjunct1]
    inv [unfolded admit_inv_def, THEN conjunct2, THEN conjunct2, THEN conjunct2, THEN conjunct2, THEN conjunct2]
  have ok: "\<forall>x. i64_ok (get0 (TenantCPURemaining budgets) x)" "\<forall>x. i64_ok (get0 (TenantConcurrentRemaining budgets) x)"
    using range unfolding admit_in_range_def by blast+
  have "\<forall>t. 0 \<le> get0 wip t \<and> get0 wip t + int (length (xs @ rr # rest)) < 2 ^ 63"
    using range unfolding admit_in_range_def by blast
  then have wip: "0 \<le> get0 wip t" "get0 wip t + int (length xs) + 1 < 2 ^ 63" for t
    by (auto dest: spec [of _ t])
  have len: "length xs = length ?adms" using inv by (simp add: admit_inv_def)
  have "pool_inv (TenantCPURemaining budgets) ((cpu st)(runTenantID ?run \<mapsto> i64 (get0 (cpu st) (runTenantID ?run) - need)))
      (CPUMinutesByTenant (recordDelta ?d (runTenantID ?run) (runTier ?run) need concNeed))
      (\<lambda>x. reserved ReservedCPU x (xs @ [rr]) (?adms @ [?adm]))"
    by (rule pool_inv_take [OF parts(1) ok(1) pos(1) reserve(6)]) (simp_all add: recordDelta_parts reserved_snoc len)
  moreover have "pool_inv (TenantConcurrentRemaining budgets)
      ((conc st)(runTenantID ?run \<mapsto> i64 (get0 (conc st) (runTenantID ?run) - concNeed)))
      (ConcurrentByTenant (recordDelta ?d (runTenantID ?run) (runTier ?run) need concNeed))
      (\<lambda>x. reserved ReservedConcurrent x (xs @ [rr]) (?adms @ [?adm]))"
    by (rule pool_inv_take [OF parts(2) ok(2) pos(2) reserve(7)]) (simp_all add: recordDelta_parts reserved_snoc len)
  moreover have "wip_inv caps wip ((wipNow st)(runTier ?run \<mapsto> i64 (get0 (wipNow st) (runTier ?run) + 1)))
      (WIPAddedByTier (recordDelta ?d (runTenantID ?run) (runTier ?run) need concNeed))
      (\<lambda>t. admitted_at t (xs @ [rr]) (?adms @ [?adm])) (Suc (length xs))"
    unfolding recordDelta_parts
    by (rule wip_inv_take [OF parts(3) wip reserve(4,5)]) (simp add: admitted_at_snoc len)
  ultimately show ?thesis
    unfolding reserve(1) using inv len by (simp add: admit_inv_def reserve_def)
qed

lemma admit_inv_foldl:
  "admit_in_range (xs @ ys) wip budgets \<Longrightarrow>
     admit_inv caps wip budgets xs (foldl (Admit_step caps) (admit_init wip budgets) xs)"
proof (induction xs arbitrary: ys rule: rev_induct)
  case Nil
  then show ?case
    by (simp add: admit_inv_def admit_init_def pool_inv_def wip_inv_def reserved_def admitted_at_def)
next
  case (snoc rr xs)
  then show ?case
    using snoc.IH [of "rr # ys"] admit_inv_step [of caps wip budgets xs _ rr ys] by simp
qed

lemma admit_in_range_perm:
  "admit_in_range batch wip budgets \<Longrightarrow> mset batch' = mset batch \<Longrightarrow> admit_in_range batch' wip budgets"
  using mset_eq_length [of batch' batch] mset_eq_setD [of batch' batch] by (simp add: admit_in_range_def)

text \<open>C16: Invariants I-06 and I-10 of an admission pass. The rulings are listed in the sorted order, one
  per run. For every tenant the CPU and concurrency deltas are exactly the sums of its admitted
  runs' reservations and fit what the tenant has left; for every tier the number admitted is the
  WIP delta, and a tier that admitted anything has a configured cap that the runs in flight plus
  the admitted ones do not exceed.\<close>

theorem Admit_conserves_and_never_overruns:
  assumes "admit_in_range batch wip budgets"
  shows "let r = Admit batch caps wip budgets; d = brDeltas r; order = SortRanked batch in
    map admRunID (Admissions r) = map (runID \<circ> rrRun) order \<and>
    AdmittedCount r = int (length (filter Admitted (Admissions r))) \<and>
    (\<forall>x. get0 (CPUMinutesByTenant d) x = reserved ReservedCPU x order (Admissions r) \<and>
       0 \<le> get0 (CPUMinutesByTenant d) x \<and>
       get0 (CPUMinutesByTenant d) x \<le> max 0 (get0 (TenantCPURemaining budgets) x)) \<and>
    (\<forall>x. get0 (ConcurrentByTenant d) x = reserved ReservedConcurrent x order (Admissions r) \<and>
       0 \<le> get0 (ConcurrentByTenant d) x \<and>
       get0 (ConcurrentByTenant d) x \<le> max 0 (get0 (TenantConcurrentRemaining budgets) x)) \<and>
    (\<forall>t. get0 (WIPAddedByTier d) t = admitted_at t order (Admissions r) \<and>
       (get0 (WIPAddedByTier d) t = 0 \<or>
        (\<exists>c. caps t = Some c \<and> get0 wip t + get0 (WIPAddedByTier d) t \<le> c)))"
proof -
  let ?st = "foldl (Admit_step caps) (admit_init wip budgets) (SortRanked batch)"
  have "admit_in_range (SortRanked batch @ []) wip budgets"
    using admit_in_range_perm [OF assms, of "SortRanked batch"] by (simp add: SortRanked_def)
  then have inv: "admit_inv caps wip budgets (SortRanked batch) ?st" by (rule admit_inv_foldl)
  note cpu = pool_invD [of "TenantCPURemaining budgets" "cpu ?st" "CPUMinutesByTenant (brDeltas (res ?st))"
      "\<lambda>x. reserved ReservedCPU x (SortRanked batch) (Admissions (res ?st))"]
  note conc = pool_invD [of "TenantConcurrentRemaining budgets" "conc ?st" "ConcurrentByTenant (brDeltas (res ?st))"
      "\<lambda>x. reserved ReservedConcurrent x (SortRanked batch) (Admissions (res ?st))"]
  note wip = wip_invD [of caps wip "wipNow ?st" "WIPAddedByTier (brDeltas (res ?st))"
      "\<lambda>t. admitted_at t (SortRanked batch) (Admissions (res ?st))" "length (SortRanked batch)"]
  show ?thesis
    unfolding Admit_def Let_def using inv cpu conc wip unfolding admit_inv_def
    by (metis (no_types, lifting) le_less max.cobounded1 max.coboundedI2)
qed

definition sample_ledger :: BudgetLedger where
  "sample_ledger = remainingBudgets \<lparr>thCPUMinutes = 5, thConcurrentCandidates = 1\<rparr>
     (\<lambda>_. Map.empty) [''ten_1'']"

theorem Admit_conserves_and_never_overruns_witness:
  "get0 (WIPAddedByTier (brDeltas (Admit (rankBatch 0 [sample_queued ''a'' 1 0, sample_queued ''b'' 1 0])
     [1 \<mapsto> 1] Map.empty sample_ledger))) 1 \<le> 1"
proof -
  let ?batch = "rankBatch 0 [sample_queued ''a'' 1 0, sample_queued ''b'' 1 0]"
  have "admit_in_range ?batch Map.empty sample_ledger"
    by (simp add: admit_in_range_def rankBatch_def sample_queued_def sample_ledger_def remainingBudgets_def i64_ok_def)
  then show ?thesis
    using Admit_conserves_and_never_overruns [of ?batch Map.empty sample_ledger "[1 \<mapsto> 1]"]
    unfolding Let_def by (smt (verit, ccfv_threshold) fun_upd_same get0_empty option.sel)
qed

text \<open>The caps read from a policy's string-keyed table do not depend on the iteration order: if no
  two keys denote the same tier, tier \<open>t\<close> has cap \<open>c\<close> exactly when the table has an entry with
  a nonnegative cap and a decimal key denoting \<open>t\<close>; every other tier stays unconfigured (and
  admission denies it).\<close>

theorem capsFromPolicy_iff:
  assumes "distinct (map (parseTier \<circ> fst) entries)"
  shows "capsFromPolicy entries t = Some c \<longleftrightarrow>
    (\<exists>k. (k, c) \<in> set entries \<and> parseTier k = t \<and> 0 \<le> t \<and> 0 \<le> c)"
  using assms
proof (induction entries rule: rev_induct)
  case Nil
  then show ?case by (simp add: capsFromPolicy_def)
next
  case (snoc e entries)
  have "capsFromPolicy (entries @ [e]) = (if parseTier (fst e) < 0 \<or> snd e < 0 then capsFromPolicy entries
      else (capsFromPolicy entries)(parseTier (fst e) \<mapsto> snd e))"
    by (simp add: capsFromPolicy_def split_beta Let_def)
  moreover have "parseTier k \<noteq> parseTier (fst e)" if "(k, c) \<in> set entries" for k c
  proof
    assume "parseTier k = parseTier (fst e)"
    with that have "parseTier (fst e) \<in> set (map (parseTier \<circ> fst) entries)"
      by (auto simp: image_iff intro!: bexI [of _ "(k, c)"])
    with snoc.prems show False by simp
  qed
  ultimately show ?case
    using snoc.IH snoc.prems by (cases e) auto
qed

theorem capsFromPolicy_iff_witness:
  "capsFromPolicy [(''3'', 6), (''0'', 200), (''x'', 9)] 3 = Some 6 \<and>
   capsFromPolicy [(''3'', 6), (''0'', 200), (''x'', 9)] 7 = None"
proof -
  have parse: "parseTier ''3'' = 3" "parseTier ''0'' = 0" "parseTier ''x'' = -1" by code_simp+
  then have "distinct (map (parseTier \<circ> fst) [(''3'', 6 :: int), (''0'', 200), (''x'', 9)])" by simp
  note iff = capsFromPolicy_iff [OF this]
  have "capsFromPolicy [(''3'', 6), (''0'', 200), (''x'', 9)] 7 \<noteq> Some c" for c
    unfolding iff by (auto simp: parse)
  then have "capsFromPolicy [(''3'', 6), (''0'', 200), (''x'', 9)] 7 = None"
    by (cases "capsFromPolicy [(''3'', 6), (''0'', 200), (''x'', 9)] 7") auto
  moreover have "capsFromPolicy [(''3'', 6), (''0'', 200), (''x'', 9)] 3 = Some 6"
    unfolding iff by (auto simp: parse)
  ultimately show ?thesis by simp
qed

end
