(* ===== verification/Evidence.thy ===== *)
theory Evidence
  imports Domain
begin

text \<open>
  Evidence evaluation: \<^verbatim>\<open>control-plane/internal/evidence\<close> (\<^verbatim>\<open>evaluate.go\<close>, \<^verbatim>\<open>results.go\<close>,
  \<^verbatim>\<open>sufficiency.go\<close>, \<^verbatim>\<open>engine_evaluator.go\<close>) and the scheduler's adapters in
  \<^verbatim>\<open>scheduler/helpers.go\<close>. Invariants I-01 (skips are never positive evidence), I-02 (full reuse
  key) and I-03 (one accepted record per attempt and per lease) are theorems about the evaluator.
  Outcome counts are 64-bit.
\<close>

subsection \<open>Records and rulings\<close>

record TestResults =
  trTotal :: int
  trPassed :: int
  trFailed :: int
  trSkipped :: int
  trQuarantined :: int

datatype Action = ActionAccept | ActionReject | ActionQuarantine

record ProposedRecord =
  ppID :: string
  ppRunID :: string
  ppCandidateID :: string
  ppKind :: string
  ppVerdict :: string
  ppOutcome :: string
  ppResults :: "TestResults option"
  ppDigests :: "string list"
  ppInputsHash :: string
  ppLeaseJTI :: string
  ppAttempt :: int

record AcceptedRef =
  arRunID :: string
  arAttempt :: int
  arLeaseJTI :: string

record EvContext =
  ExpectedLeaseJTI :: string
  ExpectedInputsHash :: string
  ExpectedDigests :: "string list option"
  ctxAccepted :: "AcceptedRef list"

record Evaluation =
  evalAction :: Action
  evalReason :: string
  evalMeta :: "(string \<times> int) list"

definition ReasonMalformed :: string where "ReasonMalformed = ''malformed_record''"
definition ReasonProvenanceMismatch :: string where "ReasonProvenanceMismatch = ''lease_provenance_mismatch''"
definition ReasonInputsHashMismatch :: string where "ReasonInputsHashMismatch = ''inputs_hash_mismatch''"
definition ReasonDuplicateAttempt :: string where "ReasonDuplicateAttempt = ''duplicate_run_attempt''"
definition ReasonLeaseAlreadyAccepted :: string where "ReasonLeaseAlreadyAccepted = ''lease_jti_already_accepted''"
definition ReasonSkipNeverPositive :: string where
  "ReasonSkipNeverPositive = ''skip_quarantine_never_positive_evidence''"
definition ReasonNoExecutedTests :: string where "ReasonNoExecutedTests = ''outcome_shows_zero_executed_tests''"
definition ReasonVerdictUnsupported :: string where "ReasonVerdictUnsupported = ''verdict_not_supported_by_outcome''"
definition ReasonDigestManifestMismatch :: string where "ReasonDigestManifestMismatch = ''digest_manifest_mismatch''"

definition reject :: "string \<Rightarrow> Evaluation" where
  "reject reason = \<lparr>evalAction = ActionReject, evalReason = reason, evalMeta = []\<rparr>"

subsection \<open>Outcome census (results.go)\<close>

definition Executed :: "TestResults \<Rightarrow> int" where
  "Executed r = i64 (trPassed r + trFailed r)"

definition Sum_results :: "TestResults \<Rightarrow> int" where
  "Sum_results r = i64 (i64 (i64 (trPassed r + trFailed r) + trSkipped r) + trQuarantined r)"

definition Valid_results :: "TestResults \<Rightarrow> bool" where
  "Valid_results r =
    (if trTotal r < 0 \<or> trPassed r < 0 \<or> trFailed r < 0 \<or> trSkipped r < 0 \<or> trQuarantined r < 0
     then False else Sum_results r = trTotal r)"

text \<open>\<open>Inl\<close> is the early ruling; \<open>Inr\<close> lets the evaluation go on.\<close>

definition checkResults :: "ProposedRecord \<Rightarrow> Evaluation + unit" where
  "checkResults p =
    (case ppResults p of
       None \<Rightarrow> Inr ()
     | Some r \<Rightarrow>
         if \<not> Valid_results r then Inl (reject ReasonMalformed)
         else if Executed r = 0
         then Inl (reject (if trSkipped r > 0 \<or> trQuarantined r > 0 then ReasonSkipNeverPositive
                           else ReasonNoExecutedTests))
         else if ppVerdict p = ''pass'' \<and> trFailed r > 0 then Inl (reject ReasonVerdictUnsupported)
         else if ppVerdict p = ''fail'' \<and> trFailed r = 0 then Inl (reject ReasonVerdictUnsupported)
         else Inr ())"

definition resultsMeta :: "ProposedRecord \<Rightarrow> (string \<times> int) list" where
  "resultsMeta p =
    (case ppResults p of
       None \<Rightarrow> []
     | Some r \<Rightarrow> if trSkipped r = 0 then [] else [(''skipped_as_non_evidence'', trSkipped r)])"

subsection \<open>Evaluation (evaluate.go)\<close>

definition is_hex :: "char \<Rightarrow> bool" where
  "is_hex c \<longleftrightarrow> (CHR ''0'' \<le> c \<and> c \<le> CHR ''9'') \<or> (CHR ''a'' \<le> c \<and> c \<le> CHR ''f'') \<or>
     (CHR ''A'' \<le> c \<and> c \<le> CHR ''F'')"

definition isSHA256 :: "string \<Rightarrow> bool" where
  "isSHA256 s =
    (if take 7 s \<noteq> ''sha256:'' then False
     else let hexPart = drop 7 s in if length hexPart \<noteq> 64 then False else list_all is_hex hexPart)"

definition checkWellFormed :: "ProposedRecord \<Rightarrow> string option" where
  "checkWellFormed p =
    (if ppID p = [] \<or> ppRunID p = [] \<or> ppCandidateID p = [] \<or> ppKind p = [] \<or> ppAttempt p < 1
     then Some ReasonMalformed
     else if ppVerdict p \<noteq> ''pass'' \<and> ppVerdict p \<noteq> ''fail'' then Some ReasonMalformed
     else if list_ex (\<lambda>d. \<not> isSHA256 d) (ppDigests p) then Some ReasonMalformed
     else if ppInputsHash p \<noteq> [] \<and> \<not> isSHA256 (ppInputsHash p) then Some ReasonMalformed
     else None)"

definition sameDigestSet :: "string list \<Rightarrow> string list \<Rightarrow> bool" where
  "sameDigestSet a b = (if length a \<noteq> length b then False else sortStrings a = sortStrings b)"

text \<open>The \<^verbatim>\<open>switch p.Outcome\<close>: the reason for an early rejection.\<close>

definition checkOutcome :: "ProposedRecord \<Rightarrow> string option" where
  "checkOutcome p =
    (if ppOutcome p = ''skipped'' \<or> ppOutcome p = ''quarantined'' \<or> ppOutcome p = ''filtered''
     then Some ReasonSkipNeverPositive
     else if ppOutcome p = ''passed'' then (if ppVerdict p \<noteq> ''pass'' then Some ReasonVerdictUnsupported else None)
     else if ppOutcome p = ''failed'' then (if ppVerdict p \<noteq> ''fail'' then Some ReasonVerdictUnsupported else None)
     else Some ReasonVerdictUnsupported)"

definition Evaluate :: "ProposedRecord \<Rightarrow> EvContext \<Rightarrow> Evaluation" where
  "Evaluate p ctx =
    (case checkWellFormed p of Some reason \<Rightarrow> reject reason | None \<Rightarrow>
     if ExpectedLeaseJTI ctx = [] \<or> ppLeaseJTI p \<noteq> ExpectedLeaseJTI ctx then reject ReasonProvenanceMismatch
     else if ppInputsHash p \<noteq> ExpectedInputsHash ctx \<or> ExpectedInputsHash ctx = []
     then reject ReasonInputsHashMismatch
     else if list_ex (\<lambda>ref. arRunID ref = ppRunID p \<and> arAttempt ref = ppAttempt p) (ctxAccepted ctx)
     then reject ReasonDuplicateAttempt
     else if list_ex (\<lambda>ref. ppLeaseJTI p \<noteq> [] \<and> arLeaseJTI ref = ppLeaseJTI p) (ctxAccepted ctx)
     then reject ReasonLeaseAlreadyAccepted
     else case checkOutcome p of Some reason \<Rightarrow> reject reason | None \<Rightarrow>
     case checkResults p of Inl ruling \<Rightarrow> ruling | Inr _ \<Rightarrow>
     case ExpectedDigests ctx of
       Some expected \<Rightarrow>
         if \<not> sameDigestSet (ppDigests p) expected
         then \<lparr>evalAction = ActionQuarantine, evalReason = ReasonDigestManifestMismatch, evalMeta = []\<rparr>
         else \<lparr>evalAction = ActionAccept, evalReason = [], evalMeta = resultsMeta p\<rparr>
     | None \<Rightarrow> \<lparr>evalAction = ActionAccept, evalReason = [], evalMeta = resultsMeta p\<rparr>)"

subsection \<open>Sufficiency (sufficiency.go)\<close>

record AcceptedRecord =
  acKind :: string
  acVerdict :: string
  acStatus :: string

definition dedupeNonEmpty :: "string list \<Rightarrow> string list" where
  "dedupeNonEmpty kinds = dedupe_seen [] (filter (\<lambda>k. k \<noteq> []) kinds)"

definition Sufficiency :: "string list \<Rightarrow> AcceptedRecord list \<Rightarrow> float64" where
  "Sufficiency requiredKinds accepted =
    (let required = dedupeNonEmpty requiredKinds in
     if required = [] then 1
     else of_nat (length (filter (\<lambda>k. list_ex (\<lambda>rec. acVerdict rec = ''pass'' \<and> acStatus rec = ''accepted'' \<and>
             k = acKind rec) accepted) required)) / of_nat (length required))"

subsection \<open>Port adapter (engine\_evaluator.go)\<close>

record ProposedEvidence =
  peRecord :: "EvidenceRecord option"
  peRunState :: RunState
  peFenceToken :: int
  peCurrentFence :: int

record EvidenceOutcome =
  eoAccepted :: bool
  eoReason :: string

definition proposalFromDomain :: "EvidenceRecord \<Rightarrow> ProposedRecord" where
  "proposalFromDomain rec =
     \<lparr>ppID = evID rec, ppRunID = evRunID rec, ppCandidateID = evCandidateID rec, ppKind = evKind rec,
      ppVerdict = evVerdict rec, ppOutcome = (if evVerdict rec = ''pass'' then ''passed'' else ''failed''),
      ppResults = None, ppDigests = evDigests rec, ppInputsHash = evInputsHash rec,
      ppLeaseJTI = ProducedByLease rec, ppAttempt = evAttempt rec\<rparr>"

text \<open>\<open>resolve\<close> is the wired expectations resolver, \<open>None\<close> when nil; \<open>Inl\<close> is its error text.\<close>

definition EngineEvaluator_Evaluate ::
    "(EvidenceRecord \<Rightarrow> string + EvContext) option \<Rightarrow> ProposedEvidence \<Rightarrow> string + EvidenceOutcome" where
  "EngineEvaluator_Evaluate resolve ev =
    (case peRecord ev of
       None \<Rightarrow> Inl ''evidence adapter: nil record''
     | Some rec \<Rightarrow>
         if peFenceToken ev \<noteq> peCurrentFence ev
         then Inr \<lparr>eoAccepted = False, eoReason = ''fence_mismatch''\<rparr>
         else case resolve of
           None \<Rightarrow> Inl ''evidence adapter: no expectations resolver wired''
         | Some f \<Rightarrow>
             (case f rec of
                Inl err \<Rightarrow> Inl err
              | Inr ctx \<Rightarrow> let ruling = Evaluate (proposalFromDomain rec) ctx in
                  Inr \<lparr>eoAccepted = (evalAction ruling = ActionAccept), eoReason = evalReason ruling\<rparr>))"

subsection \<open>Scheduler adapters (scheduler/helpers.go)\<close>

record EvidenceRef =
  refID :: string
  refKind :: string
  refAttempt :: int

definition evidenceContext :: "ValidationPlan \<Rightarrow> string \<Rightarrow> EvidenceRef list \<Rightarrow> EvContext" where
  "evidenceContext plan leaseJTI prior =
     \<lparr>ExpectedLeaseJTI = leaseJTI, ExpectedInputsHash = vpInputsHash plan, ExpectedDigests = None,
      ctxAccepted = map (\<lambda>ref. \<lparr>arRunID = [], arAttempt = refAttempt ref, arLeaseJTI = []\<rparr>) prior\<rparr>"

definition evidenceEvaluate :: "EvidenceRecord \<Rightarrow> EvContext \<Rightarrow> TestResults option \<Rightarrow> Evaluation" where
  "evidenceEvaluate rec ctx results = Evaluate
     \<lparr>ppID = evID rec, ppRunID = evRunID rec, ppCandidateID = evCandidateID rec, ppKind = evKind rec,
      ppVerdict = evVerdict rec,
      ppOutcome = (case results of
          Some census \<Rightarrow> if trFailed census > 0 then ''failed''
                         else if trPassed census > 0 then ''passed'' else ''skipped''
        | None \<Rightarrow> if evVerdict rec = ''pass'' then ''passed'' else ''failed''),
      ppResults = results, ppDigests = evDigests rec, ppInputsHash = evInputsHash rec,
      ppLeaseJTI = ProducedByLease rec, ppAttempt = evAttempt rec\<rparr> ctx"

definition evidenceSufficiency :: "string list \<Rightarrow> EvidenceRef list \<Rightarrow> float64" where
  "evidenceSufficiency requiredKinds accepted = Sufficiency requiredKinds
     (map (\<lambda>ref. \<lparr>acKind = refKind ref, acVerdict = ''pass'', acStatus = ''accepted''\<rparr>) accepted)"

subsection \<open>Lemmas\<close>

lemma reject_action [simp]: "evalAction (reject r) = ActionReject" "evalReason (reject r) = r"
  by (simp_all add: reject_def)

lemma checkResults_Inl: "checkResults p = Inl ruling \<Longrightarrow> evalAction ruling = ActionReject"
  by (auto simp: checkResults_def split: option.splits if_splits)

lemma Evaluate_accept_iff:
  "evalAction (Evaluate p ctx) = ActionAccept \<longleftrightarrow>
     checkWellFormed p = None \<and> ExpectedLeaseJTI ctx \<noteq> [] \<and> ppLeaseJTI p = ExpectedLeaseJTI ctx \<and>
     ppInputsHash p = ExpectedInputsHash ctx \<and> ExpectedInputsHash ctx \<noteq> [] \<and>
     (\<forall>ref \<in> set (ctxAccepted ctx). \<not> (arRunID ref = ppRunID p \<and> arAttempt ref = ppAttempt p)) \<and>
     (\<forall>ref \<in> set (ctxAccepted ctx). arLeaseJTI ref \<noteq> ppLeaseJTI p) \<and>
     checkOutcome p = None \<and> checkResults p = Inr () \<and>
     (case ExpectedDigests ctx of None \<Rightarrow> True | Some ds \<Rightarrow> sameDigestSet (ppDigests p) ds)"
  by (auto simp: Evaluate_def list_ex_iff dest: checkResults_Inl split: option.splits sum.splits if_splits)

text \<open>Invariant I-01. A record accepted with verdict pass has the raw outcome \<^verbatim>\<open>passed\<close>, and where a
  census of 64-bit counts is attached, no test failed and at least one passed: skipped, quarantined
  or absent outcomes never back a pass. The scheduler's adapter, which derives the outcome from the
  census, accepts only such records as well.\<close>

theorem accepted_pass_has_passing_tests:
  assumes "evalAction (Evaluate p ctx) = ActionAccept" and "ppVerdict p = ''pass''"
    and "case ppResults p of None \<Rightarrow> True | Some r \<Rightarrow> i64_ok (trPassed r) \<and> i64_ok (trFailed r)"
  shows "ppOutcome p = ''passed'' \<and> (\<forall>r. ppResults p = Some r \<longrightarrow> trFailed r = 0 \<and> 0 < trPassed r)"
proof -
  have ok: "checkOutcome p = None" "checkResults p = Inr ()"
    using assms(1) by (simp_all add: Evaluate_accept_iff)
  have "ppOutcome p = ''passed''"
    using ok(1) assms(2) by (auto simp: checkOutcome_def split: if_splits)
  moreover have "trFailed r = 0 \<and> 0 < trPassed r" if "ppResults p = Some r" for r
  proof -
    have "Valid_results r" "Executed r \<noteq> 0" "\<not> 0 < trFailed r"
      using ok(2) that assms(2) by (auto simp: checkResults_def split: if_splits)
    moreover from this have "trFailed r = 0" "0 \<le> trPassed r"
      by (auto simp: Valid_results_def split: if_splits)
    ultimately show ?thesis
      using assms(3) that by (auto simp: Executed_def)
  qed
  ultimately show ?thesis by blast
qed

definition sample_hash :: string where
  "sample_hash = ''sha256:0123456789abcdef0123456789abcdef0123456789abcdef0123456789abcdef''"

definition sample_proposal :: ProposedRecord where
  "sample_proposal = \<lparr>ppID = ''ev_1'', ppRunID = ''run_1'', ppCandidateID = ''cand_1'', ppKind = ''hermetic_build'',
     ppVerdict = ''pass'', ppOutcome = ''passed'',
     ppResults = Some \<lparr>trTotal = 3, trPassed = 2, trFailed = 0, trSkipped = 1, trQuarantined = 0\<rparr>,
     ppDigests = [], ppInputsHash = sample_hash, ppLeaseJTI = ''run_1:1:1'', ppAttempt = 1\<rparr>"

definition sample_context :: EvContext where
  "sample_context = \<lparr>ExpectedLeaseJTI = ''run_1:1:1'', ExpectedInputsHash = sample_hash,
     ExpectedDigests = None, ctxAccepted = []\<rparr>"

lemma sample_accepted: "evalAction (Evaluate sample_proposal sample_context) = ActionAccept"
  by code_simp

theorem accepted_pass_has_passing_tests_witness:
  "ppOutcome sample_proposal = ''passed''"
  using accepted_pass_has_passing_tests [OF sample_accepted]
  by (simp add: sample_proposal_def i64_ok_def)

subsection \<open>Uniqueness over a sequence of proposals\<close>

text \<open>A caller that keeps the references of all records accepted so far, as I-03 asks.\<close>

definition ref_of :: "ProposedRecord \<Rightarrow> AcceptedRef" where
  "ref_of p = \<lparr>arRunID = ppRunID p, arAttempt = ppAttempt p, arLeaseJTI = ppLeaseJTI p\<rparr>"

fun accept_all :: "(ProposedRecord \<Rightarrow> EvContext) \<Rightarrow> ProposedRecord list \<Rightarrow> ProposedRecord list \<Rightarrow> ProposedRecord list" where
  "accept_all ctxOf acc [] = acc"
| "accept_all ctxOf acc (p # ps) =
    (if evalAction (Evaluate p ((ctxOf p)\<lparr>ctxAccepted := map ref_of acc\<rparr>)) = ActionAccept
     then accept_all ctxOf (acc @ [p]) ps else accept_all ctxOf acc ps)"

lemma accept_all_unique:
  "distinct (map (\<lambda>p. (ppRunID p, ppAttempt p)) acc) \<Longrightarrow> distinct (map ppLeaseJTI acc) \<Longrightarrow>
     distinct (map (\<lambda>p. (ppRunID p, ppAttempt p)) (accept_all ctxOf acc ps)) \<and>
     distinct (map ppLeaseJTI (accept_all ctxOf acc ps))"
proof (induction ctxOf acc ps rule: accept_all.induct)
  case (2 ctxOf acc p ps)
  show ?case
  proof (cases "evalAction (Evaluate p ((ctxOf p)\<lparr>ctxAccepted := map ref_of acc\<rparr>)) = ActionAccept")
    case True
    then have "(ppRunID p, ppAttempt p) \<notin> set (map (\<lambda>p. (ppRunID p, ppAttempt p)) acc)"
        and "ppLeaseJTI p \<notin> set (map ppLeaseJTI acc)"
      by (auto simp: Evaluate_accept_iff ref_of_def)
    with 2 True show ?thesis by simp
  next
    case False
    with 2 show ?thesis by simp
  qed
qed simp

text \<open>Invariant I-03. A caller that evaluates any sequence of proposals, each against the references of
  the records accepted before it, never accepts two records of the same run attempt or of the same
  lease.\<close>

theorem accepted_records_unique:
  "distinct (map (\<lambda>p. (ppRunID p, ppAttempt p)) (accept_all ctxOf [] ps)) \<and>
   distinct (map ppLeaseJTI (accept_all ctxOf [] ps))"
  using accept_all_unique [of "[]" ctxOf ps] by simp

text \<open>The scheduler builds its references with empty run id and empty lease, so its evaluation does not
  depend on the records accepted before: the uniqueness checks of I-03 never reject anything there.\<close>

theorem scheduler_context_ignores_prior:
  "evidenceEvaluate rec (evidenceContext plan leaseJTI prior) results =
   evidenceEvaluate rec (evidenceContext plan leaseJTI []) results"
  by (auto simp: evidenceEvaluate_def Evaluate_def evidenceContext_def checkWellFormed_def list_ex_iff
      split: option.splits)

subsection \<open>Sufficiency\<close>

lemma set_dedupeNonEmpty: "set (dedupeNonEmpty kinds) = {k \<in> set kinds. k \<noteq> []}"
  by (auto simp: dedupeNonEmpty_def)

lemma filter_length_ratio:
  fixes P :: "'a \<Rightarrow> bool"
  assumes "xs \<noteq> []"
  shows "(of_nat (length (filter P xs)) / of_nat (length xs) :: rat) = 1 \<longleftrightarrow> (\<forall>x \<in> set xs. P x)"
proof -
  have "(of_nat (length (filter P xs)) / of_nat (length xs) :: rat) = 1 \<longleftrightarrow> length (filter P xs) = length xs"
    using assms by (auto simp: divide_eq_1_iff)
  also have "\<dots> \<longleftrightarrow> (\<forall>x \<in> set xs. P x)"
    by (metis filter_True filter_id_conv length_filter_less less_irrefl)
  finally show ?thesis .
qed

lemma Sufficiency_one:
  "Sufficiency req acc = 1 \<longleftrightarrow> (\<forall>k \<in> set req. k \<noteq> [] \<longrightarrow>
     (\<exists>rec \<in> set acc. acVerdict rec = ''pass'' \<and> acStatus rec = ''accepted'' \<and> acKind rec = k))"
proof (cases "dedupeNonEmpty req = []")
  case True
  then have "{k \<in> set req. k \<noteq> []} = {}" by (metis set_dedupeNonEmpty list.set(1))
  with True show ?thesis by (auto simp: Sufficiency_def)
next
  case False
  then show ?thesis
    unfolding Sufficiency_def Let_def using filter_length_ratio [OF False]
    by (simp add: set_dedupeNonEmpty list_ex_iff) blast
qed

lemma Sufficiency_bounds: "0 \<le> Sufficiency req acc \<and> Sufficiency req acc \<le> 1"
  by (simp add: Sufficiency_def Let_def divide_le_eq_1)

text \<open>Sufficiency lies between 0 and 1 and is 1 exactly when every nonempty required kind has an
  accepted passing record; failing, rejected or quarantined records never raise it.\<close>

theorem Sufficiency_complete_iff:
  "0 \<le> Sufficiency req acc \<and> Sufficiency req acc \<le> 1 \<and>
   (Sufficiency req acc = 1 \<longleftrightarrow> set req - {[]} \<subseteq>
      acKind ` {rec \<in> set acc. acVerdict rec = ''pass'' \<and> acStatus rec = ''accepted''}) \<and>
   Sufficiency req acc = Sufficiency req (filter (\<lambda>rec. acVerdict rec = ''pass'' \<and> acStatus rec = ''accepted'') acc)"
proof -
  have "Sufficiency req acc = 1 \<longleftrightarrow> set req - {[]} \<subseteq>
      acKind ` {rec \<in> set acc. acVerdict rec = ''pass'' \<and> acStatus rec = ''accepted''}"
    unfolding Sufficiency_one by (auto simp: image_iff)
  moreover have "list_ex (\<lambda>rec. acVerdict rec = ''pass'' \<and> acStatus rec = ''accepted'' \<and> k = acKind rec) acc =
      list_ex (\<lambda>rec. acVerdict rec = ''pass'' \<and> acStatus rec = ''accepted'' \<and> k = acKind rec)
        (filter (\<lambda>rec. acVerdict rec = ''pass'' \<and> acStatus rec = ''accepted'') acc)" for k
    by (auto simp: list_ex_iff)
  then have "Sufficiency req acc =
      Sufficiency req (filter (\<lambda>rec. acVerdict rec = ''pass'' \<and> acStatus rec = ''accepted'') acc)"
    by (simp add: Sufficiency_def Let_def)
  ultimately show ?thesis using Sufficiency_bounds by blast
qed

end
