(* ===== verification/Failure.thy ===== *)
theory Failure
  imports Policy Lifecycle
begin

text \<open>
  Failure classification and bounded repair: \<^verbatim>\<open>control-plane/internal/failure\<close> and the routing
  functions of \<^verbatim>\<open>scheduler/failures_route.go\<close>. The regular expressions are an argument: a
  \<open>LogScan\<close> holds what each compiled expression finds in a log (whether a rule matches, the
  captured test, package and shell line, the path matches, the normalized text), so every theorem
  holds whatever the expressions recognise. SHA-256 is the parameter \<open>sha256hex\<close>.
\<close>

subsection \<open>Classification (classify.go, normalize.go, reproduce.go)\<close>

record LogScan =
  rule_matches :: "string \<Rightarrow> string \<Rightarrow> bool"
  failingTest :: "string \<Rightarrow> string option"
  goPkgFail :: "string \<Rightarrow> string option"
  shellLine :: "string \<Rightarrow> string option"
  pathMatches :: "string \<Rightarrow> string list"
  NormalizeLog :: "string \<Rightarrow> string"

definition ClassInfraTransient_s :: string where "ClassInfraTransient_s = ''infra_transient''"
definition ClassKnownFlake_s :: string where "ClassKnownFlake_s = ''known_flake''"
definition ClassProbableFlake_s :: string where "ClassProbableFlake_s = ''probable_flake''"
definition ClassCompileRegression_s :: string where "ClassCompileRegression_s = ''compile_regression''"
definition ClassTestExpectationDrift_s :: string where "ClassTestExpectationDrift_s = ''test_expectation_drift''"
definition ClassFunctionalRegression_s :: string where "ClassFunctionalRegression_s = ''functional_regression''"
definition ClassMergeConflict_s :: string where "ClassMergeConflict_s = ''merge_conflict''"
definition ClassSecurityPolicyViolation_s :: string where
  "ClassSecurityPolicyViolation_s = ''security_policy_violation''"
definition ClassTimeout_s :: string where "ClassTimeout_s = ''timeout''"

lemmas class_names = ClassInfraTransient_s_def ClassKnownFlake_s_def ClassProbableFlake_s_def
  ClassCompileRegression_s_def ClassTestExpectationDrift_s_def ClassFunctionalRegression_s_def
  ClassMergeConflict_s_def ClassSecurityPolicyViolation_s_def ClassTimeout_s_def

record class_rule =
  rlID :: string
  rlClass :: string
  rlConf :: float64

definition rules :: "class_rule list" where
  "rules =
    [\<lparr>rlID = ''secret_or_policy_hit'', rlClass = ClassSecurityPolicyViolation_s, rlConf = 99 / 100\<rparr>,
     \<lparr>rlID = ''merge_marker'', rlClass = ClassMergeConflict_s, rlConf = 97 / 100\<rparr>,
     \<lparr>rlID = ''compile_error'', rlClass = ClassCompileRegression_s, rlConf = 93 / 100\<rparr>,
     \<lparr>rlID = ''golden_mismatch'', rlClass = ClassTestExpectationDrift_s, rlConf = 85 / 100\<rparr>,
     \<lparr>rlID = ''infra_failure'', rlClass = ClassInfraTransient_s, rlConf = 9 / 10\<rparr>,
     \<lparr>rlID = ''budget_deadline'', rlClass = ClassTimeout_s, rlConf = 9 / 10\<rparr>,
     \<lparr>rlID = ''flaky_signal'', rlClass = [], rlConf = 0\<rparr>,
     \<lparr>rlID = ''assertion_failure'', rlClass = ClassFunctionalRegression_s, rlConf = 9 / 10\<rparr>]"

record FailContext =
  KnownFlakes :: "string list"
  CorroboratedReruns :: int
  DistinctEnvironments :: int

record ClassifiedFailure =
  cfSignatureDigest :: string
  cfClassification :: string
  cfConfidence :: float64
  cfRuleID :: string
  cfReproductionCommand :: string
  cfCausalSignals :: "string list"
  cfSuspectedPaths :: "string list"

definition SignatureDigest :: "(string \<Rightarrow> string) \<Rightarrow> LogScan \<Rightarrow> string \<Rightarrow> string" where
  "SignatureDigest sha256hex scan logText = ''sha256:'' @ sha256hex (NormalizeLog scan logText)"

definition ExtractFailingTest :: "LogScan \<Rightarrow> string \<Rightarrow> string" where
  "ExtractFailingTest scan logText = (case failingTest scan logText of None \<Rightarrow> [] | Some t \<Rightarrow> t)"

definition ReproductionCommand :: "LogScan \<Rightarrow> string \<Rightarrow> string" where
  "ReproductionCommand scan logText =
    (let test = ExtractFailingTest scan logText;
         fallback = (case shellLine scan logText of Some c \<Rightarrow> c | None \<Rightarrow> [])
     in case goPkgFail scan logText of
          Some pkg \<Rightarrow> if test \<noteq> [] then ''go test '' @ pkg @ '' -run '' @ [CHR 0x27] @ ''^'' @ test @ ''$'' @ [CHR 0x27] @ '' -count=1''
                      else fallback
        | None \<Rightarrow> fallback)"

fun contains_sub :: "string \<Rightarrow> string \<Rightarrow> bool" where
  "contains_sub pat [] = (pat = [])"
| "contains_sub pat (c # cs) = (take (length pat) (c # cs) = pat \<or> contains_sub pat cs)"

definition SuspectedPaths :: "LogScan \<Rightarrow> string \<Rightarrow> string list" where
  "SuspectedPaths scan logText =
     take 10 (sort (dedupe_seen [] (filter (\<lambda>p. \<not> contains_sub ''http'' p) (pathMatches scan logText))))"

definition flakeBranch :: "string \<Rightarrow> string \<Rightarrow> FailContext \<Rightarrow> string \<times> float64" where
  "flakeBranch digest testName ctx =
    (if list_ex (\<lambda>k. k = digest \<or> (testName \<noteq> [] \<and> k = testName)) (KnownFlakes ctx)
     then (ClassKnownFlake_s, 95 / 100)
     else if CorroboratedReruns ctx \<ge> 2 \<and> DistinctEnvironments ctx \<ge> 2 then (ClassProbableFlake_s, 85 / 100)
     else (ClassProbableFlake_s, 55 / 100))"

text \<open>The loop over the rules: signals so far, the decisive rule id (empty while undecided) with its class
  and confidence, and whether any rule matched.\<close>

record ClassifyState =
  csSignals :: "string list"
  csDecisive :: string
  csClass :: string
  csConf :: float64
  csMatched :: bool

definition classify_step :: "LogScan \<Rightarrow> string \<Rightarrow> string \<Rightarrow> FailContext \<Rightarrow> ClassifyState \<Rightarrow> class_rule \<Rightarrow> ClassifyState" where
  "classify_step scan digest logText ctx st r =
    (if \<not> rule_matches scan (rlID r) logText then st
     else let st1 = st\<lparr>csSignals := csSignals st @ [rlID r]\<rparr>;
              st2 = (if csDecisive st1 = [] \<and> \<not> csMatched st1 then
                       if rlClass r = [] then
                         (case flakeBranch digest (ExtractFailingTest scan logText) ctx of (cls, conf) \<Rightarrow>
                            st1\<lparr>csClass := cls, csConf := conf, csDecisive := rlID r\<rparr>)
                       else st1\<lparr>csDecisive := rlID r, csClass := rlClass r, csConf := rlConf r\<rparr>
                     else st1)
          in st2\<lparr>csMatched := True\<rparr>)"

definition classify_start :: ClassifyState where
  "classify_start = \<lparr>csSignals = [], csDecisive = [], csClass = [], csConf = 0, csMatched = False\<rparr>"

definition Classify :: "(string \<Rightarrow> string) \<Rightarrow> LogScan \<Rightarrow> string \<Rightarrow> FailContext \<Rightarrow> ClassifiedFailure" where
  "Classify sha256hex scan logText ctx =
    (let digest = SignatureDigest sha256hex scan logText;
         st = foldl (classify_step scan digest logText ctx) classify_start rules
     in \<lparr>cfSignatureDigest = digest,
         cfClassification = (if csDecisive st = [] then ClassFunctionalRegression_s else csClass st),
         cfConfidence = (if csDecisive st = [] then 30 / 100 else csConf st),
         cfRuleID = (if csDecisive st = [] then ''unclassified_fallback'' else csDecisive st),
         cfReproductionCommand = ReproductionCommand scan logText,
         cfCausalSignals = csSignals st,
         cfSuspectedPaths = SuspectedPaths scan logText\<rparr>)"

subsection \<open>Repair authorization (repair.go)\<close>

record RepairContext =
  IntentOwnedSurfaces :: "string list"
  rctxProhibitedPaths :: "string list"
  rctxRiskClass :: string
  rctxFailedAssertion :: string

record RepairAuthorization =
  raAuthorized :: bool
  raDenyReason :: string
  raEnvelope :: RepairEnvelope

definition zero_envelope :: RepairEnvelope where
  "zero_envelope = \<lparr>reReproductionCommand = [], reFailedAssertion = [], reSuspectedDiffHunks = [],
     reAllowedPaths = [], reProhibitedPaths = [], reMaxIterations = 0, reRequiredEvidenceAfterRepair = []\<rparr>"

definition denied :: "string \<Rightarrow> RepairAuthorization" where
  "denied reason = \<lparr>raAuthorized = False, raDenyReason = reason, raEnvelope = zero_envelope\<rparr>"

definition filterProhibited :: "string list \<Rightarrow> string list \<Rightarrow> string list" where
  "filterProhibited surfaces prohibited =
     sortStrings (filter (\<lambda>s. \<not> policy_matchAnyGlob prohibited s) surfaces)"

definition AuthorizeRepair :: "ClassifiedFailure \<Rightarrow> ResolvedPolicy \<Rightarrow> RepairContext \<Rightarrow> RepairAuthorization" where
  "AuthorizeRepair fc rp rc =
    (if cfClassification fc = ClassSecurityPolicyViolation_s then denied ''security_violation_never_auto_repaired''
     else if auLevel (pbAutonomy (rpBody rp)) < 3 then denied ''autonomy_below_minimum''
     else if \<not> contains_exact (auAutoRepairClasses (pbAutonomy (rpBody rp))) (cfClassification fc)
     then denied ''class_not_repairable''
     else case pbRequiredEvidenceByRisk (rpBody rp) (rctxRiskClass rc) of
       None \<Rightarrow> denied ''unknown_risk_class''
     | Some required \<Rightarrow>
         let allowed = filterProhibited (IntentOwnedSurfaces rc) (rctxProhibitedPaths rc) in
         if allowed = [] then denied ''no_allowed_surface''
         else let policyIter = pcRepairAttempts (PerCandidate (pbBudgets (rpBody rp)));
                  maxIter = (if policyIter \<le> 0 \<or> policyIter > 2 then 2 else policyIter)
           in \<lparr>raAuthorized = True, raDenyReason = [],
               raEnvelope = \<lparr>reReproductionCommand = cfReproductionCommand fc,
                 reFailedAssertion = rctxFailedAssertion rc, reSuspectedDiffHunks = cfSuspectedPaths fc,
                 reAllowedPaths = allowed, reProhibitedPaths = rctxProhibitedPaths rc,
                 reMaxIterations = maxIter, reRequiredEvidenceAfterRepair = required\<rparr>\<rparr>)"

subsection \<open>Routing (failures\_route.go)\<close>

definition routeForClass :: "string \<Rightarrow> string" where
  "routeForClass classification =
    (if classification = ClassInfraTransient_s then ''retry''
     else if classification = ClassKnownFlake_s \<or> classification = ClassProbableFlake_s then ''quarantine_flake''
     else if classification = ClassCompileRegression_s \<or> classification = ClassFunctionalRegression_s \<or>
             classification = ClassMergeConflict_s then ''repair''
     else if classification = ClassSecurityPolicyViolation_s then ''reject''
     else ''escalate_human'')"

definition routeFailure :: "ClassifiedFailure \<Rightarrow> string" where
  "routeFailure fc =
    (if cfRuleID fc = ''unclassified_fallback'' then ''escalate_human'' else routeForClass (cfClassification fc))"

subsection \<open>Properties\<close>

lemma classify_step_skip: "\<not> rule_matches scan (rlID r) t \<Longrightarrow> classify_step scan d t ctx st r = st"
  by (simp add: classify_step_def)

lemma classify_step_decided:
  "csDecisive st \<noteq> [] \<Longrightarrow> csMatched st \<Longrightarrow> rule_matches scan (rlID r) t \<Longrightarrow>
     classify_step scan d t ctx st r = st\<lparr>csSignals := csSignals st @ [rlID r]\<rparr>"
  by (simp add: classify_step_def)

lemma classify_decided:
  assumes "csDecisive st \<noteq> []" and "csMatched st"
  shows "foldl (classify_step scan d t ctx) st rs =
    st\<lparr>csSignals := csSignals st @ map rlID (filter (\<lambda>r. rule_matches scan (rlID r) t) rs)\<rparr>"
  using assms
proof (induction rs arbitrary: st)
  case (Cons r rs)
  then show ?case
    by (cases "rule_matches scan (rlID r) t") (simp_all add: classify_step_skip classify_step_decided)
qed simp

definition rule_verdict :: "string \<Rightarrow> string \<Rightarrow> FailContext \<Rightarrow> class_rule \<Rightarrow> string \<times> float64" where
  "rule_verdict digest test ctx r = (if rlClass r = [] then flakeBranch digest test ctx else (rlClass r, rlConf r))"

lemma classify_fold:
  assumes "\<forall>r \<in> set rs. rlID r \<noteq> []"
  shows "(case filter (\<lambda>r. rule_matches scan (rlID r) t) rs of
      [] \<Rightarrow> foldl (classify_step scan d t ctx) classify_start rs = classify_start
    | r # hits \<Rightarrow> foldl (classify_step scan d t ctx) classify_start rs =
        \<lparr>csSignals = map rlID (r # hits), csDecisive = rlID r,
         csClass = fst (rule_verdict d (ExtractFailingTest scan t) ctx r),
         csConf = snd (rule_verdict d (ExtractFailingTest scan t) ctx r), csMatched = True\<rparr>)"
  using assms
proof (induction rs)
  case (Cons r rs)
  show ?case
  proof (cases "rule_matches scan (rlID r) t")
    case True
    then have "classify_step scan d t ctx classify_start r =
        \<lparr>csSignals = [rlID r], csDecisive = rlID r,
         csClass = fst (rule_verdict d (ExtractFailingTest scan t) ctx r),
         csConf = snd (rule_verdict d (ExtractFailingTest scan t) ctx r), csMatched = True\<rparr>"
      by (simp add: classify_step_def classify_start_def rule_verdict_def Let_def split: prod.split)
    with True Cons.prems show ?thesis by (simp add: classify_decided)
  next
    case False
    with Cons show ?thesis by (auto simp: classify_step_skip split: list.splits)
  qed
qed simp

lemma flakeBranch_class: "fst (flakeBranch d x ctx) \<in> {ClassKnownFlake_s, ClassProbableFlake_s}"
  by (simp add: flakeBranch_def)

lemma route_flakes: "c \<in> {ClassKnownFlake_s, ClassProbableFlake_s} \<Longrightarrow> routeForClass c = ''quarantine_flake''"
  by (auto simp: routeForClass_def class_names)

lemma rules_route:
  "r \<in> set rules \<Longrightarrow> routeForClass (fst (rule_verdict d x ctx r)) = ''reject'' \<longleftrightarrow> rlID r = ''secret_or_policy_hit''"
  using route_flakes [OF flakeBranch_class [of d x ctx]]
  by (auto simp: rules_def rule_verdict_def) (simp_all add: routeForClass_def class_names)

lemma rules_ids: "\<forall>r \<in> set rules. rlID r \<noteq> [] \<and> rlID r \<noteq> ''unclassified_fallback''"
  by (simp add: rules_def)

lemma secret_rule_first:
  "filter (\<lambda>r. P (rlID r)) rules = r # hits \<Longrightarrow> rlID r = ''secret_or_policy_hit'' \<longleftrightarrow> P ''secret_or_policy_hit''"
proof -
  assume hits: "filter (\<lambda>r. P (rlID r)) rules = r # hits"
  have hd: "rlID (hd rules) = ''secret_or_policy_hit''" and ne: "rules = hd rules # tl rules"
    and others: "\<forall>x \<in> set (tl rules). rlID x \<noteq> ''secret_or_policy_hit''"
    by (simp_all add: rules_def)
  show ?thesis
  proof (cases "P ''secret_or_policy_hit''")
    case True
    then have "filter (\<lambda>r. P (rlID r)) rules = hd rules # filter (\<lambda>r. P (rlID r)) (tl rules)"
      using hd by (subst ne) simp
    with hits hd True show ?thesis by simp
  next
    case False
    then have "filter (\<lambda>r. P (rlID r)) rules = filter (\<lambda>r. P (rlID r)) (tl rules)"
      using hd by (subst ne) simp
    then have "r \<in> set (tl rules)"
      using hits by (metis filter_is_subset list.set_intros(1) subsetD)
    with others False show ?thesis by simp
  qed
qed

text \<open>Classification is decided by the first matching rule in the fixed order (a matching secret or
  policy rule always wins), every matching rule is recorded as a signal in order, and a log no rule
  matches is the low-confidence fallback. Whatever the flake context, the result is routed to
  rejection exactly for a decisive secret or policy rule.\<close>

theorem Classify_first_match:
  "let hits = filter (\<lambda>r. rule_matches scan (rlID r) logText) rules;
       fc = Classify sha scan logText ctx in
   cfCausalSignals fc = map rlID hits \<and>
   cfRuleID fc = (case hits of [] \<Rightarrow> ''unclassified_fallback'' | r # _ \<Rightarrow> rlID r) \<and>
   (cfClassification fc, cfConfidence fc) = (case hits of [] \<Rightarrow> (ClassFunctionalRegression_s, 30 / 100)
     | r # _ \<Rightarrow> rule_verdict (SignatureDigest sha scan logText) (ExtractFailingTest scan logText) ctx r) \<and>
   (routeFailure fc = ''reject'' \<longleftrightarrow> rule_matches scan ''secret_or_policy_hit'' logText)"
proof -
  let ?hits = "filter (\<lambda>r. rule_matches scan (rlID r) logText) rules"
  note fold = classify_fold [where rs = rules and scan = scan and t = logText
      and d = "SignatureDigest sha scan logText" and ctx = ctx]
  show ?thesis
  proof (cases ?hits)
    case Nil
    then have "\<not> rule_matches scan ''secret_or_policy_hit'' logText"
      by (simp add: filter_empty_conv) (simp add: rules_def)
    moreover have "foldl (classify_step scan (SignatureDigest sha scan logText) logText ctx) classify_start rules = classify_start"
      using fold rules_ids Nil by simp
    ultimately show ?thesis
      using Nil by (simp add: Classify_def Let_def classify_start_def routeFailure_def)
  next
    case (Cons r rest)
    then have "r \<in> set rules" by (metis filter_is_subset list.set_intros(1) subsetD)
    with Cons fold rules_ids rules_route [of r] secret_rule_first [OF Cons] show ?thesis
      by (simp add: Classify_def Let_def routeFailure_def)
  qed
qed

text \<open>An authorized repair stays bounded: the class is policy-repairable and not a security violation,
  autonomy is at least level 3, one or two iterations are granted whatever the policy says, the
  prohibited list is passed on verbatim, and every allowed surface is an owned surface that no
  prohibited pattern matches.\<close>

theorem AuthorizeRepair_bounded:
  assumes "raAuthorized (AuthorizeRepair fc rp rc)"
  shows "let env = raEnvelope (AuthorizeRepair fc rp rc) in
    cfClassification fc \<noteq> ClassSecurityPolicyViolation_s \<and>
    cfClassification fc \<in> set (auAutoRepairClasses (pbAutonomy (rpBody rp))) \<and>
    3 \<le> auLevel (pbAutonomy (rpBody rp)) \<and>
    1 \<le> reMaxIterations env \<and> reMaxIterations env \<le> 2 \<and>
    reProhibitedPaths env = rctxProhibitedPaths rc \<and> reAllowedPaths env \<noteq> [] \<and>
    set (reAllowedPaths env) = {s \<in> set (IntentOwnedSurfaces rc).
      \<not> (\<exists>pat \<in> set (rctxProhibitedPaths rc). policy_MatchGlob pat s)}"
  using assms
  by (auto simp: AuthorizeRepair_def denied_def Let_def contains_exact_iff filterProhibited_def
      sortStrings_eq_sort policy_matchAnyGlob_iff split: option.splits if_splits)

definition sample_failed :: ClassifiedFailure where
  "sample_failed = \<lparr>cfSignatureDigest = [], cfClassification = ClassCompileRegression_s, cfConfidence = 93 / 100,
     cfRuleID = ''compile_error'', cfReproductionCommand = [], cfCausalSignals = [], cfSuspectedPaths = []\<rparr>"

definition sample_repair_context :: "string list \<Rightarrow> RepairContext" where
  "sample_repair_context owned = \<lparr>IntentOwnedSurfaces = owned, rctxProhibitedPaths = [''auth/**''],
     rctxRiskClass = ''low'', rctxFailedAssertion = []\<rparr>"

lemma sample_authorized:
  "raAuthorized (AuthorizeRepair sample_failed (resolved CatchAllPolicyPack) (sample_repair_context [''src/**'']))"
proof -
  have "policy_MatchGlob ''auth/**'' ''src/**'' = False" by code_simp
  then have "filterProhibited [''src/**''] [''auth/**''] = [''src/**'']"
    by (simp add: filterProhibited_def sortStrings_eq_sort)
  then show ?thesis
    by (simp add: AuthorizeRepair_def sample_failed_def sample_repair_context_def resolved_def pack_defs
        pack_autonomy_def pack_required_def pack_budgets_def class_names Let_def)
qed

theorem AuthorizeRepair_bounded_witness:
  "reMaxIterations (raEnvelope (AuthorizeRepair sample_failed (resolved CatchAllPolicyPack)
     (sample_repair_context [''src/**'']))) \<le> 2"
  using AuthorizeRepair_bounded [OF sample_authorized] by (simp add: Let_def)

text \<open>The filter compares surfaces as strings, so a wide owned surface survives although it covers
  prohibited paths: owning \<^verbatim>\<open>**\<close> with \<^verbatim>\<open>auth/**\<close> prohibited leaves \<^verbatim>\<open>**\<close> allowed, and a path
  exists that both the allowed surface and the prohibited pattern match.\<close>

theorem allowed_surface_covers_prohibited:
  "filterProhibited [''**''] [''auth/**''] = [''**''] \<and>
   policy_MatchGlob ''**'' ''auth/keys.go'' \<and> policy_MatchGlob ''auth/**'' ''auth/keys.go''"
proof -
  have "policy_MatchGlob ''auth/**'' ''**'' = False" "policy_MatchGlob ''**'' ''auth/keys.go''"
      "policy_MatchGlob ''auth/**'' ''auth/keys.go''"
    by code_simp+
  then show ?thesis by (simp add: filterProhibited_def sortStrings_eq_sort)
qed

fun Classification_string :: "Classification \<Rightarrow> string" where
  "Classification_string ClassInfraTransient = ClassInfraTransient_s"
| "Classification_string ClassKnownFlake = ClassKnownFlake_s"
| "Classification_string ClassProbableFlake = ClassProbableFlake_s"
| "Classification_string ClassCompileRegression = ClassCompileRegression_s"
| "Classification_string ClassTestExpectationDrift = ClassTestExpectationDrift_s"
| "Classification_string ClassFunctionalRegression = ClassFunctionalRegression_s"
| "Classification_string ClassMergeConflict = ClassMergeConflict_s"
| "Classification_string ClassSecurityPolicyViolation = ClassSecurityPolicyViolation_s"
| "Classification_string ClassTimeout = ClassTimeout_s"

fun RoutedAction_string :: "RoutedAction \<Rightarrow> string" where
  "RoutedAction_string RouteRetry = ''retry''"
| "RoutedAction_string RouteQuarantineFlake = ''quarantine_flake''"
| "RoutedAction_string RouteRepair = ''repair''"
| "RoutedAction_string RouteEscalateHuman = ''escalate_human''"
| "RoutedAction_string RouteReject = ''reject''"
| "RoutedAction_string RouteNone = ''none''"

text \<open>The two routing tables, the aggregate's and the scheduler's, agree on every class but two:
  timeouts (retry against escalation) and security violations (escalation against rejection).\<close>

theorem routing_tables_differ_on_two_classes:
  "RoutedAction_string (domain_routeForClass c) = routeForClass (Classification_string c) \<longleftrightarrow>
     c \<noteq> ClassTimeout \<and> c \<noteq> ClassSecurityPolicyViolation"
  by (cases c) (simp_all add: routeForClass_def class_names)

end
