(* ===== verification/Clustering.thy ===== *)
theory Clustering
  imports Prelude
begin

text \<open>
  Candidate clustering: \<^verbatim>\<open>control-plane/internal/cluster\<close>. Similarity scores are exact rationals.
  The sets the code builds as Go maps are duplicate-free lists; no result depends on their order.
  \<^verbatim>\<open>[]rune(s)\<close> is Go's UTF-8 decoding (an invalid byte is U+FFFD), and a trigram
  \<^verbatim>\<open>string(runes[i:i+3])\<close> is its list of code points.
\<close>

subsection \<open>Similarity (similarity.go)\<close>

definition jaccardSets :: "'a list \<Rightarrow> 'a list \<Rightarrow> float64" where
  "jaccardSets a b =
    (let union = length a + length (filter (\<lambda>x. x \<notin> set a) b) in
     if union = 0 then 0
     else of_nat (length (filter (\<lambda>x. x \<in> set a) b)) / of_nat union)"

definition Jaccard :: "string list \<Rightarrow> string list \<Rightarrow> float64" where
  "Jaccard a b = jaccardSets (dedupe_seen [] a) (dedupe_seen [] b)"

text \<open>One step of \<^verbatim>\<open>utf8.DecodeRune\<close> on byte values: the code point and its width.\<close>

definition cont :: "nat \<Rightarrow> nat \<Rightarrow> nat \<Rightarrow> bool" where
  "cont lo hi b \<longleftrightarrow> lo \<le> b \<and> b \<le> hi"

definition decodeRune :: "nat list \<Rightarrow> nat \<times> nat" where
  "decodeRune bs =
    (case bs of
       [] \<Rightarrow> (0xFFFD, 0)
     | b0 # r \<Rightarrow>
        if b0 < 0x80 then (b0, 1)
        else if 0xC2 \<le> b0 \<and> b0 \<le> 0xDF then
          (case r of b1 # _ \<Rightarrow> if cont 0x80 0xBF b1 then ((b0 - 0xC0) * 64 + (b1 - 0x80), 2) else (0xFFFD, 1)
           | [] \<Rightarrow> (0xFFFD, 1))
        else if 0xE0 \<le> b0 \<and> b0 \<le> 0xEF then
          (case r of b1 # b2 # _ \<Rightarrow>
             if cont (if b0 = 0xE0 then 0xA0 else 0x80) (if b0 = 0xED then 0x9F else 0xBF) b1 \<and> cont 0x80 0xBF b2
             then ((b0 - 0xE0) * 4096 + (b1 - 0x80) * 64 + (b2 - 0x80), 3) else (0xFFFD, 1)
           | _ \<Rightarrow> (0xFFFD, 1))
        else if 0xF0 \<le> b0 \<and> b0 \<le> 0xF4 then
          (case r of b1 # b2 # b3 # _ \<Rightarrow>
             if cont (if b0 = 0xF0 then 0x90 else 0x80) (if b0 = 0xF4 then 0x8F else 0xBF) b1 \<and>
                cont 0x80 0xBF b2 \<and> cont 0x80 0xBF b3
             then ((b0 - 0xF0) * 262144 + (b1 - 0x80) * 4096 + (b2 - 0x80) * 64 + (b3 - 0x80), 4)
             else (0xFFFD, 1)
           | _ \<Rightarrow> (0xFFFD, 1))
        else (0xFFFD, 1))"

function runes_of :: "nat list \<Rightarrow> nat list" where
  "runes_of [] = []"
| "runes_of (b # bs) = (case decodeRune (b # bs) of (r, w) \<Rightarrow> r # runes_of (drop w (b # bs)))"
  by pat_completeness auto
termination
proof (relation "measure length")
  fix b bs r w
  assume "(r, w) = decodeRune (b # bs)"
  then have "0 < w" by (auto simp: decodeRune_def split: if_splits list.splits)
  then show "(drop w (b # bs), b # bs) \<in> measure length" by simp
qed simp

fun windows3 :: "nat list \<Rightarrow> nat list list" where
  "windows3 (a # b # c # rest) = [a, b, c] # windows3 (b # c # rest)"
| "windows3 _ = []"

text \<open>A string of fewer than three runes is its own, raw, member (\<open>Inl\<close>).\<close>

definition trigrams :: "string \<Rightarrow> (string + nat list) list" where
  "trigrams s =
    (let runes = runes_of (map of_char s) in
     if length runes < 3 then (if s \<noteq> [] then [Inl s] else [])
     else dedupe_seen [] (map Inr (windows3 runes)))"

definition TrigramSimilarity :: "string \<Rightarrow> string \<Rightarrow> float64" where
  "TrigramSimilarity a b = jaccardSets (trigrams a) (trigrams b)"

subsection \<open>Assignment (assign.go)\<close>

definition RelationDuplicateOf :: string where "RelationDuplicateOf = ''duplicate_of''"
definition RelationAlternativeOf :: string where "RelationAlternativeOf = ''alternative_of''"
definition RelationConflicting :: string where "RelationConflicting = ''conflicts_with''"
definition RelationPrerequisite :: string where "RelationPrerequisite = ''prerequisite_of''"

lemmas relation_names = RelationDuplicateOf_def RelationAlternativeOf_def RelationConflicting_def
  RelationPrerequisite_def

record Member =
  mID :: string
  mChangedPaths :: "string list"
  mChangedSymbols :: "string list"
  mDependsOn :: "string list"
  mPriority :: float64
  mCreatedSeq :: int

record MemberWithRelation =
  mwMember :: Member
  mwRelationToRep :: string

record ActiveCluster =
  acID :: string
  acRepoID :: string
  acRep :: Member
  acMembers :: "MemberWithRelation list"

record Assignment =
  asJoined :: bool
  asClusterID :: string
  asRelationToRep :: string
  asPathOverlap :: float64
  asTrigramSimilarity :: float64
  asSymbolOverlap :: float64
  asStrategyVersion :: string

fun join_nl :: "string list \<Rightarrow> string" where
  "join_nl [] = []"
| "join_nl [p] = p"
| "join_nl (p # q # ps) = p @ [CHR 0x0A] @ join_nl (q # ps)"

definition JoinPaths :: "string list \<Rightarrow> string" where
  "JoinPaths paths = join_nl (sort paths)"

definition samePathSet :: "string list \<Rightarrow> string list \<Rightarrow> bool" where
  "samePathSet a b = (if length a \<noteq> length b then False else list_all (\<lambda>x. x \<in> set b) a)"

definition sharesExactPath :: "string list \<Rightarrow> string list \<Rightarrow> bool" where
  "sharesExactPath a b = list_ex (\<lambda>x. x \<in> set b) a"

definition cluster_classify :: "Member \<Rightarrow> Member \<Rightarrow> float64 \<Rightarrow> float64 \<Rightarrow> string" where
  "cluster_classify c rep symOverlap trigram =
    (if mChangedSymbols c \<noteq> [] \<and> mChangedSymbols rep \<noteq> [] \<and> symOverlap \<ge> 6 / 10 \<and> trigram \<ge> 6 / 10
     then RelationDuplicateOf
     else if mChangedSymbols c = [] \<and> mChangedSymbols rep = [] \<and> trigram \<ge> 6 / 10 \<and>
             samePathSet (mChangedPaths c) (mChangedPaths rep)
     then RelationDuplicateOf
     else if list_ex (\<lambda>dep. dep = mID rep) (mDependsOn c) then RelationPrerequisite
     else if sharesExactPath (mChangedPaths c) (mChangedPaths rep) then RelationConflicting
     else RelationAlternativeOf)"

record scored =
  scIdx :: nat
  scPo :: float64
  scTri :: float64

definition path_overlap :: "Member \<Rightarrow> ActiveCluster \<Rightarrow> float64" where
  "path_overlap c cl = Jaccard (mChangedPaths c) (mChangedPaths (acRep cl))"

definition path_trigrams :: "Member \<Rightarrow> ActiveCluster \<Rightarrow> float64" where
  "path_trigrams c cl =
     TrigramSimilarity (JoinPaths (mChangedPaths c)) (JoinPaths (mChangedPaths (acRep cl)))"

fun score_loop :: "Member \<Rightarrow> nat \<Rightarrow> nat \<Rightarrow> ActiveCluster list \<Rightarrow> scored list" where
  "score_loop c n i [] = []"
| "score_loop c n i (cl # cls) =
    (if acRepoID cl = [] \<and> n > 0 \<and> acID cl = [] then score_loop c n (i + 1) cls
     else let po = path_overlap c cl; tri = path_trigrams c cl in
       if po \<ge> 6 / 10 \<and> tri \<ge> 6 / 10
       then \<lparr>scIdx = i, scPo = po, scTri = tri\<rparr> # score_loop c n (i + 1) cls
       else score_loop c n (i + 1) cls)"

definition scored_less :: "ActiveCluster list \<Rightarrow> scored \<Rightarrow> scored \<Rightarrow> bool" where
  "scored_less clusters a b =
    (if scPo a \<noteq> scPo b then scPo a > scPo b
     else if scTri a \<noteq> scTri b then scTri a > scTri b
     else acID (clusters ! scIdx a) < acID (clusters ! scIdx b))"

definition StrategyVersionV0 :: string where "StrategyVersionV0 = ''clustering-v0''"

definition Assign :: "Member \<Rightarrow> ActiveCluster list \<Rightarrow> Assignment" where
  "Assign c clusters =
    (case sort_by (scored_less clusters) (score_loop c (length clusters) 0 clusters) of
       [] \<Rightarrow> \<lparr>asJoined = False, asClusterID = [], asRelationToRep = [], asPathOverlap = 0,
              asTrigramSimilarity = 0, asSymbolOverlap = 0, asStrategyVersion = StrategyVersionV0\<rparr>
     | best # _ \<Rightarrow>
        let cl = clusters ! scIdx best;
            sym = Jaccard (mChangedSymbols c) (mChangedSymbols (acRep cl))
        in \<lparr>asJoined = True, asClusterID = acID cl,
            asRelationToRep = cluster_classify c (acRep cl) sym (scTri best),
            asPathOverlap = scPo best, asTrigramSimilarity = scTri best, asSymbolOverlap = sym,
            asStrategyVersion = StrategyVersionV0\<rparr>)"

subsection \<open>Representative (representative.go)\<close>

definition betterRep :: "Member \<Rightarrow> Member \<Rightarrow> bool" where
  "betterRep a b =
    (if mPriority a \<noteq> mPriority b then mPriority a > mPriority b
     else if mCreatedSeq a \<noteq> mCreatedSeq b then mCreatedSeq a < mCreatedSeq b
     else mID a < mID b)"

definition ElectRepresentative :: "Member list \<Rightarrow> Member option" where
  "ElectRepresentative members = foldl (\<lambda>best m.
     case best of None \<Rightarrow> Some m | Some b \<Rightarrow> if betterRep m b then Some m else Some b) None members"

subsection \<open>Supersession (supersede.go)\<close>

datatype RepEvent = EventEligible | EventRejected | EventCancelled

definition ReasonDominatedDuplicate :: string where "ReasonDominatedDuplicate = ''dominated_duplicate''"
definition ReasonTournamentLoser :: string where "ReasonTournamentLoser = ''tournament_loser''"
definition ReasonPrerequisiteFailed :: string where "ReasonPrerequisiteFailed = ''prerequisite_failed''"

record SupersedeDecision =
  sdCandidateID :: string
  sdAction :: string
  sdReason :: string

definition member_decision :: "RepEvent \<Rightarrow> string \<Rightarrow> string \<Rightarrow> SupersedeDecision list" where
  "member_decision event ident relation =
    (case event of
       EventEligible \<Rightarrow>
         if relation = RelationDuplicateOf
         then [\<lparr>sdCandidateID = ident, sdAction = ''supersede'', sdReason = ReasonDominatedDuplicate\<rparr>]
         else if relation = RelationAlternativeOf
         then [\<lparr>sdCandidateID = ident, sdAction = ''supersede'', sdReason = ReasonTournamentLoser\<rparr>]
         else []
     | EventRejected \<Rightarrow>
         if relation = RelationPrerequisite
         then [\<lparr>sdCandidateID = ident, sdAction = ''block'', sdReason = ReasonPrerequisiteFailed\<rparr>]
         else []
     | EventCancelled \<Rightarrow> [])"

text \<open>The loop over the members, skipping the representative.\<close>

definition member_decisions :: "RepEvent \<Rightarrow> string \<Rightarrow> MemberWithRelation list \<Rightarrow> SupersedeDecision list" where
  "member_decisions event repID ms = concat (map (\<lambda>m. if mID (mwMember m) = repID then []
     else member_decision event (mID (mwMember m)) (mwRelationToRep m)) ms)"

definition SupersedeDecisions :: "ActiveCluster \<Rightarrow> RepEvent \<Rightarrow> SupersedeDecision list" where
  "SupersedeDecisions c event =
     sort_by (\<lambda>x y. sdCandidateID x < sdCandidateID y) (member_decisions event (mID (acRep c)) (acMembers c))"

subsection \<open>Similarity lemmas\<close>

lemma jaccardSets_card:
  assumes "distinct a" and "distinct b"
  shows "jaccardSets a b = of_nat (card (set a \<inter> set b)) / of_nat (card (set a \<union> set b))"
proof -
  have "length (filter (\<lambda>x. x \<in> set a) b) = card (set a \<inter> set b)"
    using assms(2) by (metis Int_commute distinct_card distinct_filter inter_set_filter)
  moreover have "length a + length (filter (\<lambda>x. x \<notin> set a) b) = card (set a \<union> set b)"
  proof -
    have "card (set a \<union> set b) = card (set a) + card (set b - set a)"
      by (metis List.finite_set Un_Diff_cancel card_Un_disjoint Diff_disjoint finite_Diff)
    moreover have "set b - set a = set (filter (\<lambda>x. x \<notin> set a) b)" by auto
    ultimately show ?thesis using assms by (metis distinct_card distinct_filter)
  qed
  ultimately show ?thesis by (simp add: jaccardSets_def Let_def)
qed

lemma distinct_trigrams: "distinct (trigrams s)"
  by (simp add: trigrams_def Let_def distinct_dedupe_seen)

lemma Jaccard_card: "Jaccard a b = of_nat (card (set a \<inter> set b)) / of_nat (card (set a \<union> set b))"
  by (simp add: Jaccard_def jaccardSets_card distinct_dedupe_seen)

lemma ratio_bounds:
  assumes "finite A" and "finite B"
  shows "0 \<le> (of_nat (card (A \<inter> B)) / of_nat (card (A \<union> B)) :: rat) \<and>
    (of_nat (card (A \<inter> B)) / of_nat (card (A \<union> B)) :: rat) \<le> 1"
proof -
  have "card (A \<inter> B) \<le> card (A \<union> B)" using assms by (intro card_mono) auto
  then show ?thesis by (cases "card (A \<union> B) = 0") simp_all
qed

lemma ratio_one:
  assumes "finite A" and "finite B"
  shows "(of_nat (card (A \<inter> B)) / of_nat (card (A \<union> B)) :: rat) = 1 \<longleftrightarrow> A = B \<and> A \<noteq> {}"
proof
  assume "(of_nat (card (A \<inter> B)) / of_nat (card (A \<union> B)) :: rat) = 1"
  then have "card (A \<inter> B) = card (A \<union> B)" "card (A \<union> B) \<noteq> 0"
    by (simp_all add: divide_eq_1_iff)
  then have "A \<inter> B = A \<union> B" "A \<union> B \<noteq> {}"
    using assms card_subset_eq [of "A \<union> B" "A \<inter> B"] by auto
  then show "A = B \<and> A \<noteq> {}" by auto
qed (use assms in auto)

text \<open>Both similarity scores are symmetric and lie between 0 and 1. The path score is the ratio of
  common to all distinct paths, and it is 1 exactly for two nonempty lists naming the same set of
  paths; two empty lists score 0.\<close>

theorem similarity_scores:
  "Jaccard a b = of_nat (card (set a \<inter> set b)) / of_nat (card (set a \<union> set b)) \<and>
   (Jaccard a b = 1 \<longleftrightarrow> set a = set b \<and> a \<noteq> []) \<and>
   0 \<le> Jaccard a b \<and> Jaccard a b \<le> 1 \<and> Jaccard a b = Jaccard b a \<and>
   0 \<le> TrigramSimilarity s t \<and> TrigramSimilarity s t \<le> 1 \<and> TrigramSimilarity s t = TrigramSimilarity t s"
proof -
  have "TrigramSimilarity s t = of_nat (card (set (trigrams s) \<inter> set (trigrams t))) /
      of_nat (card (set (trigrams s) \<union> set (trigrams t)))" for s t
    by (simp add: TrigramSimilarity_def jaccardSets_card distinct_trigrams)
  then show ?thesis
    using ratio_bounds [of "set (trigrams s)" "set (trigrams t)"] ratio_bounds [of "set a" "set b"]
      ratio_one [of "set a" "set b"]
    by (auto simp: Jaccard_card Int_commute Un_commute)
qed

subsection \<open>Assignment properties\<close>

interpretation scored: slice_order "scored_less clusters" for clusters
  by unfold_locales (auto simp: scored_less_def split: if_splits)

interpretation reps: slice_order betterRep
  by unfold_locales (auto simp: betterRep_def split: if_splits)

definition joins :: "Member \<Rightarrow> nat \<Rightarrow> ActiveCluster \<Rightarrow> bool" where
  "joins c n cl \<longleftrightarrow> \<not> (acRepoID cl = [] \<and> n > 0 \<and> acID cl = []) \<and>
     path_overlap c cl \<ge> 6 / 10 \<and> path_trigrams c cl \<ge> 6 / 10"

lemma set_score_loop:
  "x \<in> set (score_loop c n i cls) \<longleftrightarrow> (\<exists>k < length cls. joins c n (cls ! k) \<and>
     x = \<lparr>scIdx = i + k, scPo = path_overlap c (cls ! k), scTri = path_trigrams c (cls ! k)\<rparr>)"
proof (induction cls arbitrary: i)
  case Nil
  then show ?case by simp
next
  case (Cons cl cls)
  show ?case
    by (auto simp: Cons.IH joins_def Let_def less_Suc_eq_0_disj)
qed

lemma Assign_cases:
  obtains (alone) "\<forall>cl \<in> set clusters. \<not> joins c (length clusters) cl" "\<not> asJoined (Assign c clusters)"
      "asRelationToRep (Assign c clusters) = []"
  | (joined) cl where "cl \<in> set clusters" "joins c (length clusters) cl" "asJoined (Assign c clusters)"
      "asClusterID (Assign c clusters) = acID cl"
      "asPathOverlap (Assign c clusters) = path_overlap c cl"
      "asRelationToRep (Assign c clusters) = cluster_classify c (acRep cl)
         (Jaccard (mChangedSymbols c) (mChangedSymbols (acRep cl))) (path_trigrams c cl)"
      "\<forall>cl' \<in> set clusters. joins c (length clusters) cl' \<longrightarrow>
         path_overlap c cl' < path_overlap c cl \<or> path_overlap c cl' = path_overlap c cl \<and>
         (path_trigrams c cl' < path_trigrams c cl \<or> path_trigrams c cl' = path_trigrams c cl \<and> acID cl \<le> acID cl')"
proof -
  let ?scores = "score_loop c (length clusters) 0 clusters"
  let ?sorted = "sort_by (scored_less clusters) ?scores"
  show ?thesis
  proof (cases ?sorted)
    case Nil
    then have "?scores = []" by (metis length_0_conv length_sort_by)
    then have "\<not> joins c (length clusters) (clusters ! k)" if "k < length clusters" for k
      using set_score_loop [of _ c "length clusters" 0 clusters] that by auto
    then have "\<forall>cl \<in> set clusters. \<not> joins c (length clusters) cl" by (metis in_set_conv_nth)
    then show ?thesis using Nil alone by (simp add: Assign_def)
  next
    case (Cons best rest)
    then have "best \<in> set ?scores" by (metis list.set_intros(1) set_sort_by)
    then obtain k where k: "k < length clusters" "joins c (length clusters) (clusters ! k)"
        "best = \<lparr>scIdx = k, scPo = path_overlap c (clusters ! k), scTri = path_trigrams c (clusters ! k)\<rparr>"
      unfolding set_score_loop by auto
    have first: "\<not> scored_less clusters x best" if "x \<in> set ?scores" for x
      using that Cons scored.ordered_sort_by [of clusters ?scores]
      by (metis list.set_cases scored.lt_asym set_ConsD set_sort_by sorted_wrt.simps(2))
    have "path_overlap c cl' < path_overlap c (clusters ! k) \<or> path_overlap c cl' = path_overlap c (clusters ! k) \<and>
         (path_trigrams c cl' < path_trigrams c (clusters ! k) \<or>
          path_trigrams c cl' = path_trigrams c (clusters ! k) \<and> acID (clusters ! k) \<le> acID cl')"
      if mem: "cl' \<in> set clusters" and joining: "joins c (length clusters) cl'" for cl'
    proof -
      obtain j where "j < length clusters" "clusters ! j = cl'" using mem by (metis in_set_conv_nth)
      with joining have "\<lparr>scIdx = j, scPo = path_overlap c cl', scTri = path_trigrams c cl'\<rparr> \<in> set ?scores"
        unfolding set_score_loop by auto
      from first [OF this] \<open>clusters ! j = cl'\<close> show ?thesis
        by (auto simp: scored_less_def k(3) split: if_splits)
    qed
    then show ?thesis
      using k Cons by (intro joined [of "clusters ! k"]) (auto simp: Assign_def Let_def)
  qed
qed

text \<open>A candidate joins a cluster exactly when some cluster clears both thresholds, and it then joins
  the best match: greatest path overlap, then greatest trigram similarity, then smallest cluster id.\<close>

theorem Assign_best_match:
  "(asJoined (Assign c clusters) \<longleftrightarrow> (\<exists>cl \<in> set clusters. joins c (length clusters) cl)) \<and>
   (asJoined (Assign c clusters) \<longrightarrow>
     (\<exists>cl \<in> set clusters. joins c (length clusters) cl \<and> asClusterID (Assign c clusters) = acID cl \<and>
        asPathOverlap (Assign c clusters) = path_overlap c cl \<and>
        (\<forall>cl' \<in> set clusters. joins c (length clusters) cl' \<longrightarrow>
           path_overlap c cl' < path_overlap c cl \<or> path_overlap c cl' = path_overlap c cl \<and>
           (path_trigrams c cl' < path_trigrams c cl \<or>
            path_trigrams c cl' = path_trigrams c cl \<and> acID cl \<le> acID cl'))))"
  by (rule Assign_cases [of clusters c]) blast+

lemma joins_shares_path: "joins c n cl \<Longrightarrow> sharesExactPath (mChangedPaths c) (mChangedPaths (acRep cl))"
proof -
  assume "joins c n cl"
  then have "Jaccard (mChangedPaths c) (mChangedPaths (acRep cl)) \<noteq> 0"
    by (auto simp: joins_def path_overlap_def)
  then have "set (mChangedPaths c) \<inter> set (mChangedPaths (acRep cl)) \<noteq> {}"
    by (auto simp: Jaccard_card)
  then show ?thesis by (auto simp: sharesExactPath_def list_ex_iff)
qed

text \<open>The relation a joining candidate gets is \<^verbatim>\<open>duplicate_of\<close>, \<^verbatim>\<open>prerequisite_of\<close> or
  \<^verbatim>\<open>conflicts_with\<close>, never \<^verbatim>\<open>alternative_of\<close>: clearing the path threshold already means sharing
  a path, so the last branch of the classification is unreachable from \<^verbatim>\<open>Assign\<close>.\<close>

theorem Assign_never_alternative:
  "asRelationToRep (Assign c clusters) \<in> {[], RelationDuplicateOf, RelationPrerequisite, RelationConflicting} \<and>
   asRelationToRep (Assign c clusters) \<noteq> RelationAlternativeOf"
proof (cases rule: Assign_cases [of clusters c])
  case alone
  then show ?thesis by (simp add: relation_names)
next
  case (joined cl)
  then show ?thesis
    using joins_shares_path [OF joined(2)] by (simp add: cluster_classify_def relation_names)
qed

text \<open>\<^verbatim>\<open>samePathSet\<close> does not decide set equality when paths repeat: it accepts
  \<open>[a, b, b]\<close> against \<open>[a, b, c]\<close> and rejects \<open>[a, a]\<close> against \<open>[a]\<close>; on duplicate-free
  lists it does.\<close>

theorem samePathSet_duplicates:
  "samePathSet [''a'', ''b'', ''b''] [''a'', ''b'', ''c''] \<and> \<not> samePathSet [''a'', ''a''] [''a''] \<and>
   samePathSet (dedupe_seen [] a) (dedupe_seen [] b) = (set a = set b)"
proof -
  have "samePathSet xs ys \<longleftrightarrow> set xs = set ys" if "distinct xs" "distinct ys" for xs ys
  proof
    assume "samePathSet xs ys"
    then have "length xs = length ys" "set xs \<subseteq> set ys"
      by (auto simp: samePathSet_def list_all_iff split: if_splits)
    then show "set xs = set ys"
      using that by (metis List.finite_set card_subset_eq distinct_card)
  next
    assume "set xs = set ys"
    then show "samePathSet xs ys"
      using distinct_card [OF that(1)] distinct_card [OF that(2)] by (simp add: samePathSet_def list_all_iff)
  qed
  from this [of "dedupe_seen [] a" "dedupe_seen [] b"] show ?thesis
    by (simp add: distinct_dedupe_seen samePathSet_def)
qed

subsection \<open>Election and supersession\<close>

lemma Elect_scan:
  "ms \<noteq> [] \<Longrightarrow> \<exists>m \<in> set ms. ElectRepresentative ms = Some m \<and> (\<forall>x \<in> set ms. \<not> betterRep x m)"
proof (induction ms rule: rev_induct)
  case (snoc y ms)
  show ?case
  proof (cases "ms = []")
    case True
    then show ?thesis by (auto simp: ElectRepresentative_def betterRep_def)
  next
    case False
    then obtain m where m: "m \<in> set ms" "ElectRepresentative ms = Some m" "\<forall>x \<in> set ms. \<not> betterRep x m"
      using snoc.IH by blast
    have step: "ElectRepresentative (ms @ [y]) = (if betterRep y m then Some y else Some m)"
      using m(2) by (simp add: ElectRepresentative_def)
    show ?thesis
    proof (cases "betterRep y m")
      case True
      then have "\<not> betterRep x y" if "x \<in> set ms" for x
        using m(3) that reps.lt_negtrans [of x m y] reps.lt_asym [of x y] reps.lt_asym [of y m]
        by (meson reps.lt_negtrans)
      with True step show ?thesis using reps.lt_asym by auto
    next
      case False
      with m step show ?thesis by auto
    qed
  qed
qed simp

text \<open>Election is deterministic: for members with distinct ids, every order of the same nonempty list
  elects the same representative, which is a member and precedes every other one in the order
  priority, age, id.\<close>

theorem ElectRepresentative_unique:
  assumes "ms \<noteq> []" and "mset ms' = mset ms" and "distinct (map mID ms)"
  shows "\<exists>m \<in> set ms. ElectRepresentative ms = Some m \<and> ElectRepresentative ms' = Some m \<and>
    (\<forall>x \<in> set ms. x = m \<or> betterRep m x)"
proof -
  have same: "set ms' = set ms" using assms(2) by (rule mset_eq_setD)
  then have "ms' \<noteq> []" using assms(1) by auto
  have unique: "x = y" if "x \<in> set ms" "y \<in> set ms" "\<not> betterRep x y" "\<not> betterRep y x" for x y
  proof -
    have "mID x = mID y" using that(3,4) by (auto simp: betterRep_def split: if_splits)
    then show "x = y" using assms(3) that(1,2) by (metis distinct_map inj_onD)
  qed
  obtain m where "m \<in> set ms" "ElectRepresentative ms = Some m" "\<forall>x \<in> set ms. \<not> betterRep x m"
    using Elect_scan [OF assms(1)] by blast
  moreover obtain m' where "m' \<in> set ms" "ElectRepresentative ms' = Some m'" "\<forall>x \<in> set ms. \<not> betterRep x m'"
    using Elect_scan [OF \<open>ms' \<noteq> []\<close>] same by auto
  ultimately show ?thesis using unique by blast
qed

definition sample_member :: "string \<Rightarrow> string list \<Rightarrow> Member" where
  "sample_member ident paths = \<lparr>mID = ident, mChangedPaths = paths, mChangedSymbols = [], mDependsOn = [],
     mPriority = 1, mCreatedSeq = 3\<rparr>"

definition sample_cluster :: ActiveCluster where
  "sample_cluster = \<lparr>acID = ''clu_1'', acRepoID = ''acme/shop'', acRep = sample_member ''cand_0'' [''a.go'', ''b.go''],
     acMembers = []\<rparr>"

theorem Assign_best_match_witness:
  "asJoined (Assign (sample_member ''cand_1'' [''b.go'', ''a.go'']) [sample_cluster]) \<and>
   asClusterID (Assign (sample_member ''cand_1'' [''b.go'', ''a.go'']) [sample_cluster]) = ''clu_1''"
proof -
  have "joins (sample_member ''cand_1'' [''b.go'', ''a.go'']) 1 sample_cluster" by code_simp
  moreover have "acID sample_cluster = ''clu_1''" by (simp add: sample_cluster_def)
  ultimately show ?thesis
    using Assign_best_match [of "sample_member ''cand_1'' [''b.go'', ''a.go'']" "[sample_cluster]"] by auto
qed

theorem ElectRepresentative_unique_witness:
  "ElectRepresentative [sample_member ''x'' [], sample_member ''w'' []] =
   ElectRepresentative [sample_member ''w'' [], sample_member ''x'' []]"
  using ElectRepresentative_unique [of "[sample_member ''x'' [], sample_member ''w'' []]"
      "[sample_member ''w'' [], sample_member ''x'' []]"]
  by (auto simp: sample_member_def add_mset_commute)

end
