(* ===== verification/Supersession.thy ===== *)
theory Supersession
  imports Clustering Lifecycle
begin

text \<open>
  Propagation of supersessions to candidates and runs (\<^verbatim>\<open>scheduler/cancel.go\<close>) and the guards of
  the completion path (\<^verbatim>\<open>scheduler/completion_guards.go\<close>). The map \<^verbatim>\<open>reasons\<close> is an
  association list; its keys are sorted before use, so its order is irrelevant.
\<close>

datatype Cause = CauseEligible | CauseRejected | CauseCancelled

definition CancelReasonSuperseded :: string where "CancelReasonSuperseded = ''superseded''"

record RelationEdge =
  FromCandidateID :: string
  ToCandidateID :: string
  eRelation :: string

record RunInfo =
  riRunID :: string
  riCandidateID :: string
  riState :: string
  riFenceToken :: int

record CancelState =
  Edges :: "RelationEdge list"
  Runs :: "RunInfo list"

record CandidateCancellation =
  ccCandidateID :: string
  ccReason :: string

record RunCancellation =
  rcRunID :: string
  rcCandidateID :: string
  rcFenceToken :: int
  rcReason :: string

record Propagation =
  propCandidates :: "CandidateCancellation list"
  propRuns :: "RunCancellation list"

definition isLive :: "string \<Rightarrow> bool" where
  "isLive state \<longleftrightarrow> state = ''queued'' \<or> state = ''dispatched'' \<or> state = ''running''"

definition edge_less :: "RelationEdge \<Rightarrow> RelationEdge \<Rightarrow> bool" where
  "edge_less a b =
    (if FromCandidateID a \<noteq> FromCandidateID b then FromCandidateID a < FromCandidateID b
     else if ToCandidateID a \<noteq> ToCandidateID b then ToCandidateID a < ToCandidateID b
     else eRelation a < eRelation b)"

text \<open>Writing a key of the map: in place when present, appended otherwise.\<close>

fun put :: "'k \<Rightarrow> 'v \<Rightarrow> ('k \<times> 'v) list \<Rightarrow> ('k \<times> 'v) list" where
  "put k v [] = [(k, v)]"
| "put k v ((k', v') # m) = (if k' = k then (k, v) # m else (k', v') # put k v m)"

definition setReason :: "(string \<times> string) list \<Rightarrow> string \<Rightarrow> string \<Rightarrow> (string \<times> string) list" where
  "setReason m ident reason =
    (case map_of m ident of
       Some cur \<Rightarrow> if ident \<noteq> [] \<and> cur \<noteq> CancelReasonSuperseded then m else put ident reason m
     | None \<Rightarrow> put ident reason m)"

text \<open>The reason the relation table gives an edge, if it propagates at all.\<close>

definition edge_reason :: "Cause \<Rightarrow> string \<Rightarrow> string option" where
  "edge_reason cause relation =
    (if relation = RelationDuplicateOf \<and> cause = CauseEligible then Some ReasonDominatedDuplicate
     else if relation = RelationAlternativeOf \<and> cause = CauseEligible then Some ReasonTournamentLoser
     else if relation = RelationPrerequisite \<and> cause = CauseRejected then Some ReasonPrerequisiteFailed
     else None)"

definition edge_step :: "string \<Rightarrow> Cause \<Rightarrow> (string \<times> string) list \<Rightarrow> RelationEdge \<Rightarrow> (string \<times> string) list" where
  "edge_step supersededID cause reasons e =
    (if ToCandidateID e = [] \<or> ToCandidateID e \<noteq> supersededID \<or> FromCandidateID e = [] then reasons
     else case edge_reason cause (eRelation e) of
       None \<Rightarrow> reasons
     | Some r \<Rightarrow> setReason reasons (FromCandidateID e) r)"

definition cancel_reasons :: "CancelState \<Rightarrow> string \<Rightarrow> Cause \<Rightarrow> (string \<times> string) list" where
  "cancel_reasons s supersededID cause =
     foldl (edge_step supersededID cause)
       (if supersededID \<noteq> [] then [(supersededID, CancelReasonSuperseded)] else [])
       (sort_by edge_less (Edges s))"

text \<open>The loop over the runs: one kill per live run of a cancelled candidate.\<close>

definition run_kills :: "(string \<times> string) list \<Rightarrow> RunInfo list \<Rightarrow> RunCancellation list" where
  "run_kills reasons runs = concat (map (\<lambda>r. case map_of reasons (riCandidateID r) of
      None \<Rightarrow> []
    | Some reason \<Rightarrow> if \<not> isLive (riState r) then []
        else [\<lparr>rcRunID = riRunID r, rcCandidateID = riCandidateID r,
               rcFenceToken = riFenceToken r, rcReason = reason\<rparr>]) runs)"

definition PropagateCancellation :: "CancelState \<Rightarrow> string \<Rightarrow> Cause \<Rightarrow> Propagation" where
  "PropagateCancellation s supersededID cause =
    (let reasons = cancel_reasons s supersededID cause;
         cands = sortStrings (map fst reasons);
         runs = sort_by (\<lambda>a b. riRunID a < riRunID b) (Runs s)
     in \<lparr>propCandidates = map (\<lambda>ident. \<lparr>ccCandidateID = ident, ccReason = the (map_of reasons ident)\<rparr>)
           (filter (\<lambda>ident. ident \<noteq> supersededID) cands),
         propRuns = run_kills reasons runs\<rparr>)"

subsection \<open>Completion guards (completion\_guards.go)\<close>

definition completionIsDiagnostic :: "RunState \<Rightarrow> CandidateState \<Rightarrow> bool" where
  "completionIsDiagnostic runState candidateState =
    (if CandidateState_Terminal candidateState then True
     else case runState of RunDispatched \<Rightarrow> False | RunRunning \<Rightarrow> False | _ \<Rightarrow> True)"

definition fmtCandidateTerminal :: "CandidateState \<Rightarrow> string" where
  "fmtCandidateTerminal state =
     ''candidate already terminal ('' @ CandidateState_string state @ ''); no further decisions''"

definition eligibilityBlockReason :: "CandidateState \<Rightarrow> int \<Rightarrow> string" where
  "eligibilityBlockReason candidateState failedRequiredRuns =
    (if CandidateState_Terminal candidateState then fmtCandidateTerminal candidateState
     else if candidateState = CandRepairing
     then ''repair pending; eligible forbidden until repair re-entry validates''
     else if failedRequiredRuns > 0
     then ''plan-required run in unresolved failure; verb must never be eligible''
     else [])"

subsection \<open>Lemmas\<close>

interpretation edges: slice_order edge_less
  by unfold_locales (auto simp: edge_less_def split: if_splits)

lemma map_of_put [simp]: "map_of (put k v m) = (map_of m)(k \<mapsto> v)"
  by (induction m rule: put.induct [of _ k v]) (auto simp: fun_eq_iff)

lemma keys_put: "fst ` set (put k v m) = insert k (fst ` set m)"
  by (induction k v m rule: put.induct) auto

lemma distinct_put: "distinct (map fst m) \<Longrightarrow> distinct (map fst (put k v m))"
  by (induction k v m rule: put.induct) (auto simp: keys_put)

text \<open>The edges that propagate, given the superseded candidate and the cause.\<close>

definition propagates :: "string \<Rightarrow> Cause \<Rightarrow> RelationEdge \<Rightarrow> bool" where
  "propagates supersededID cause e \<longleftrightarrow> ToCandidateID e = supersededID \<and> ToCandidateID e \<noteq> [] \<and>
     FromCandidateID e \<noteq> [] \<and> edge_reason cause (eRelation e) \<noteq> None"

lemma keys_setReason: "fst ` set (setReason m ident r) = insert ident (fst ` set m)"
  by (auto simp: setReason_def keys_put split: option.splits dest: map_of_SomeD)
    (metis fst_conv image_eqI map_of_SomeD)

lemma edge_step_keys:
  "fst ` set (edge_step s cause m e) =
     (if propagates s cause e then insert (FromCandidateID e) (fst ` set m) else fst ` set m)"
  by (auto simp: edge_step_def propagates_def keys_setReason split: option.splits)

lemma edge_step_distinct: "distinct (map fst m) \<Longrightarrow> distinct (map fst (edge_step s cause m e))"
  by (auto simp: edge_step_def setReason_def distinct_put split: option.splits)

lemma edge_step_value:
  assumes "map_of (edge_step s cause m e) ident = Some r"
  shows "map_of m ident = Some r \<or>
    propagates s cause e \<and> FromCandidateID e = ident \<and> edge_reason cause (eRelation e) = Some r"
  using assms by (auto simp: edge_step_def propagates_def setReason_def split: option.splits if_splits)

lemma fold_edges:
  assumes "distinct (map fst m)"
  shows "distinct (map fst (foldl (edge_step s cause) m es)) \<and>
    fst ` set (foldl (edge_step s cause) m es) =
      fst ` set m \<union> FromCandidateID ` {e \<in> set es. propagates s cause e} \<and>
    (\<forall>ident r. map_of (foldl (edge_step s cause) m es) ident = Some r \<longrightarrow> map_of m ident = Some r \<or>
      (\<exists>e \<in> set es. propagates s cause e \<and> FromCandidateID e = ident \<and> edge_reason cause (eRelation e) = Some r))"
  using assms
proof (induction es arbitrary: m)
  case Nil
  then show ?case by simp
next
  case (Cons e es)
  note IH = Cons.IH [OF edge_step_distinct [OF Cons.prems, of s cause e]]
  show ?case
  proof (intro conjI allI impI)
    show "distinct (map fst (foldl (edge_step s cause) m (e # es)))" using IH by simp
    show "fst ` set (foldl (edge_step s cause) m (e # es)) =
      fst ` set m \<union> FromCandidateID ` {e' \<in> set (e # es). propagates s cause e'}"
      using IH by (auto simp: edge_step_keys)
    fix ident r
    assume "map_of (foldl (edge_step s cause) m (e # es)) ident = Some r"
    then have "map_of (edge_step s cause m e) ident = Some r \<or>
        (\<exists>e' \<in> set es. propagates s cause e' \<and> FromCandidateID e' = ident \<and> edge_reason cause (eRelation e') = Some r)"
      using IH by (metis foldl_Cons)
    then show "map_of m ident = Some r \<or> (\<exists>e' \<in> set (e # es). propagates s cause e' \<and>
        FromCandidateID e' = ident \<and> edge_reason cause (eRelation e') = Some r)"
      using edge_step_value [of s cause m e ident r] by (metis list.set_intros)
  qed
qed

lemma cancel_reasons_facts:
  assumes "s \<noteq> []"
  shows "distinct (map fst (cancel_reasons st s cause))"
    and "fst ` set (cancel_reasons st s cause) =
      insert s (FromCandidateID ` {e \<in> set (Edges st). propagates s cause e})"
    and "map_of (cancel_reasons st s cause) ident = Some r \<Longrightarrow> ident \<noteq> s \<Longrightarrow>
      \<exists>e \<in> set (Edges st). propagates s cause e \<and> FromCandidateID e = ident \<and> edge_reason cause (eRelation e) = Some r"
proof -
  have eq: "cancel_reasons st s cause =
      foldl (edge_step s cause) [(s, CancelReasonSuperseded)] (sort_by edge_less (Edges st))"
    using assms by (simp add: cancel_reasons_def)
  note fold = fold_edges [of "[(s, CancelReasonSuperseded)]" s cause "sort_by edge_less (Edges st)",
      folded eq, unfolded set_sort_by, simplified]
  show "distinct (map fst (cancel_reasons st s cause))" using fold by blast
  show "fst ` set (cancel_reasons st s cause) =
      insert s (FromCandidateID ` {e \<in> set (Edges st). propagates s cause e})"
    using fold by blast
  show "\<exists>e \<in> set (Edges st). propagates s cause e \<and> FromCandidateID e = ident \<and> edge_reason cause (eRelation e) = Some r"
    if "map_of (cancel_reasons st s cause) ident = Some r" "ident \<noteq> s"
  proof -
    have "map_of [(s, CancelReasonSuperseded)] ident \<noteq> Some r" using that(2) by simp
    moreover have "distinct (map fst [(s, CancelReasonSuperseded)])" by simp
    ultimately show ?thesis
      using fold_edges [of "[(s, CancelReasonSuperseded)]" s cause "sort_by edge_less (Edges st)", folded eq] that(1)
      unfolding set_sort_by by blast
  qed
qed

definition cancel_targets :: "CancelState \<Rightarrow> string \<Rightarrow> Cause \<Rightarrow> string set" where
  "cancel_targets st s cause = FromCandidateID ` {e \<in> set (Edges st). propagates s cause e} - {s}"

lemma propCandidates_ids:
  assumes "s \<noteq> []"
  shows "map ccCandidateID (propCandidates (PropagateCancellation st s cause)) =
    sorted_list_of_set (cancel_targets st s cause)"
proof -
  let ?ids = "filter (\<lambda>ident. ident \<noteq> s) (sort (map fst (cancel_reasons st s cause)))"
  have "distinct ?ids" "sorted ?ids"
    using cancel_reasons_facts(1) [OF assms, of st cause] by (simp_all add: sorted_wrt_filter)
  moreover have "set ?ids = cancel_targets st s cause"
    using cancel_reasons_facts(2) [OF assms, of st cause] by (auto simp: cancel_targets_def)
  ultimately have "?ids = sorted_list_of_set (cancel_targets st s cause)"
    by (metis sorted_list_of_set.idem_if_sorted_distinct)
  then show ?thesis
    by (simp add: PropagateCancellation_def Let_def sortStrings_eq_sort comp_def)
qed

lemma propCandidates_reason:
  assumes "s \<noteq> []" and "c \<in> set (propCandidates (PropagateCancellation st s cause))"
  shows "\<exists>e \<in> set (Edges st). propagates s cause e \<and> FromCandidateID e = ccCandidateID c \<and>
    edge_reason cause (eRelation e) = Some (ccReason c)"
proof -
  let ?m = "cancel_reasons st s cause"
  from assms(2) obtain ident where id: "ident \<in> fst ` set ?m" "ident \<noteq> s"
      "c = \<lparr>ccCandidateID = ident, ccReason = the (map_of ?m ident)\<rparr>"
    by (auto simp: PropagateCancellation_def Let_def sortStrings_eq_sort)
  then obtain r where "map_of ?m ident = Some r"
    by (metis domIff dom_map_of_conv_image_fst option.exhaust)
  with id cancel_reasons_facts(3) [OF assms(1), of st cause ident r] show ?thesis by simp
qed

text \<open>Propagation of one terminal outcome is exact. The cancelled candidates are the sources of the
  edges that the relation table propagates for this cause, without the superseded candidate itself,
  in strictly increasing id order, each with the reason of one of its edges; the killed runs are
  exactly the live runs of these candidates and of the superseded one, each with the fence token of
  the snapshot.\<close>

theorem PropagateCancellation_exact:
  assumes "s \<noteq> []"
  shows "let p = PropagateCancellation st s cause in
    map ccCandidateID (propCandidates p) = sorted_list_of_set (cancel_targets st s cause) \<and>
    (\<forall>c \<in> set (propCandidates p). \<exists>e \<in> set (Edges st). propagates s cause e \<and>
       FromCandidateID e = ccCandidateID c \<and> edge_reason cause (eRelation e) = Some (ccReason c)) \<and>
    map (\<lambda>r. (rcRunID r, rcCandidateID r, rcFenceToken r)) (propRuns p) =
      map (\<lambda>r. (riRunID r, riCandidateID r, riFenceToken r))
        (filter (\<lambda>r. isLive (riState r) \<and> riCandidateID r \<in> insert s (cancel_targets st s cause))
          (sort_by (\<lambda>a b. riRunID a < riRunID b) (Runs st)))"
proof -
  let ?m = "cancel_reasons st s cause"
  have dom: "map_of ?m ident = None \<longleftrightarrow> ident \<notin> insert s (cancel_targets st s cause)" for ident
    using cancel_reasons_facts(2) [OF assms, of st cause] by (simp add: map_of_eq_None_iff cancel_targets_def)
  have "map (\<lambda>r. (rcRunID r, rcCandidateID r, rcFenceToken r)) (run_kills ?m runs) =
      map (\<lambda>r. (riRunID r, riCandidateID r, riFenceToken r))
        (filter (\<lambda>r. isLive (riState r) \<and> riCandidateID r \<in> insert s (cancel_targets st s cause)) runs)" for runs
  proof (induction runs)
    case (Cons r runs)
    then show ?case
      using dom [of "riCandidateID r"] by (cases "map_of ?m (riCandidateID r)") (simp_all add: run_kills_def)
  qed (simp add: run_kills_def)
  then show ?thesis
    using propCandidates_ids [OF assms] propCandidates_reason [OF assms] by (simp add: Let_def PropagateCancellation_def run_kills_def)
qed

definition sample_cancel_state :: CancelState where
  "sample_cancel_state = \<lparr>Edges = [\<lparr>FromCandidateID = ''c2'', ToCandidateID = ''c1'', eRelation = RelationDuplicateOf\<rparr>],
     Runs = [\<lparr>riRunID = ''r2'', riCandidateID = ''c2'', riState = ''running'', riFenceToken = 4\<rparr>,
             \<lparr>riRunID = ''r1'', riCandidateID = ''c2'', riState = ''succeeded'', riFenceToken = 1\<rparr>]\<rparr>"

theorem PropagateCancellation_exact_witness:
  "map (\<lambda>r. (rcRunID r, rcFenceToken r)) (propRuns (PropagateCancellation sample_cancel_state ''c1'' CauseEligible)) =
     [(''r2'', 4)]"
proof -
  have targets: "cancel_targets sample_cancel_state ''c1'' CauseEligible = {''c2''}"
    by (auto simp: cancel_targets_def sample_cancel_state_def propagates_def edge_reason_def)
  have "map (\<lambda>r. (rcRunID r, rcCandidateID r, rcFenceToken r))
      (propRuns (PropagateCancellation sample_cancel_state ''c1'' CauseEligible)) = [(''r2'', ''c2'', 4)]"
    using PropagateCancellation_exact [of "''c1''" sample_cancel_state CauseEligible]
    by (simp add: Let_def targets) (simp add: sample_cancel_state_def isLive_def sort_by_def)
  then show ?thesis by auto
qed

subsection \<open>The two statements of the relation table\<close>

text \<open>The edges of a cluster, and the cause a representative event is.\<close>

definition cluster_edges :: "ActiveCluster \<Rightarrow> RelationEdge list" where
  "cluster_edges c = map (\<lambda>m. \<lparr>FromCandidateID = mID (mwMember m), ToCandidateID = mID (acRep c),
     eRelation = mwRelationToRep m\<rparr>) (acMembers c)"

fun cause_of :: "RepEvent \<Rightarrow> Cause" where
  "cause_of EventEligible = CauseEligible"
| "cause_of EventRejected = CauseRejected"
| "cause_of EventCancelled = CauseCancelled"

definition decision_pairs :: "ActiveCluster \<Rightarrow> RepEvent \<Rightarrow> (string \<times> string) list" where
  "decision_pairs c ev = map (\<lambda>d. (sdCandidateID d, sdReason d)) (SupersedeDecisions c ev)"

lemma member_decision_reason:
  "member_decision ev ident rel = (case edge_reason (cause_of ev) rel of None \<Rightarrow> []
     | Some r \<Rightarrow> [\<lparr>sdCandidateID = ident,
         sdAction = (if ev = EventRejected then ''block'' else ''supersede''), sdReason = r\<rparr>])"
  by (cases ev) (simp_all add: member_decision_def edge_reason_def relation_names)

interpretation ids: slice_order "\<lambda>x y. sdCandidateID x < sdCandidateID y"
  by unfold_locales auto

lemma SupersedeDecisions_set:
  "(i, r) \<in> set (decision_pairs c ev) \<longleftrightarrow> (\<exists>m \<in> set (acMembers c). mID (mwMember m) = i \<and>
     i \<noteq> mID (acRep c) \<and> edge_reason (cause_of ev) (mwRelationToRep m) = Some r)"
  by (force simp: decision_pairs_def SupersedeDecisions_def member_decisions_def member_decision_reason split: option.splits if_splits)

lemma member_decisions_ids:
  "set (map sdCandidateID (member_decisions ev rep ms)) \<subseteq> set (map (mID \<circ> mwMember) ms)"
  by (induction ms) (auto simp: member_decisions_def member_decision_reason split: option.splits if_splits)

lemma member_decisions_distinct:
  "distinct (map (mID \<circ> mwMember) ms) \<Longrightarrow> distinct (map sdCandidateID (member_decisions ev rep ms))"
proof (induction ms)
  case (Cons m ms)
  then have "mID (mwMember m) \<notin> set (map sdCandidateID (member_decisions ev rep ms))"
    using member_decisions_ids [of ev rep ms] by auto
  with Cons show ?case by (auto simp: member_decisions_def member_decision_reason split: option.splits)
qed (simp add: member_decisions_def)

lemma SupersedeDecisions_sorted:
  assumes "distinct (map (mID \<circ> mwMember) (acMembers c))"
  shows "sorted (map fst (decision_pairs c ev))" and "distinct (map fst (decision_pairs c ev))"
proof -
  have "sorted (map sdCandidateID (SupersedeDecisions c ev))"
    unfolding SupersedeDecisions_def sorted_map
    by (rule sorted_wrt_mono_rel [OF _ ids.ordered_sort_by]) simp
  then show "sorted (map fst (decision_pairs c ev))"
    by (simp add: decision_pairs_def comp_def)
  have "distinct (map sdCandidateID (SupersedeDecisions c ev))"
    unfolding SupersedeDecisions_def distinct_map_sort_by by (rule member_decisions_distinct [OF assms])
  then show "distinct (map fst (decision_pairs c ev))"
    by (simp add: decision_pairs_def comp_def)
qed

lemma same_pairs:
  assumes "set xs \<subseteq> set ys" and "fst ` set xs = fst ` set ys" and "distinct (map fst ys)"
  shows "set xs = set ys"
proof
  have inj: "inj_on fst (set ys)" using assms(3) by (simp add: distinct_map)
  show "set ys \<subseteq> set xs"
  proof
    fix y assume y: "y \<in> set ys"
    then obtain x where x: "x \<in> set xs" "fst x = fst y" using assms(2) by (metis imageE imageI)
    then have "x = y" using inj_onD [OF inj] assms(1) y by blast
    with x show "y \<in> set xs" by simp
  qed
qed (fact assms(1))

text \<open>The cluster package's decision table and the scheduler's propagation agree: on the edges of one
  cluster (nonempty distinct member ids), both give the same candidates with the same reasons in
  the same order.\<close>

theorem supersede_tables_agree:
  assumes "mID (acRep c) \<noteq> []" and "distinct (map (mID \<circ> mwMember) (acMembers c))"
    and "\<forall>m \<in> set (acMembers c). mID (mwMember m) \<noteq> []"
  shows "map (\<lambda>x. (ccCandidateID x, ccReason x)) (propCandidates
      (PropagateCancellation \<lparr>Edges = cluster_edges c, Runs = runs\<rparr> (mID (acRep c)) (cause_of ev))) =
    map (\<lambda>d. (sdCandidateID d, sdReason d)) (SupersedeDecisions c ev)"
proof -
  let ?st = "\<lparr>Edges = cluster_edges c, Runs = runs\<rparr>" and ?s = "mID (acRep c)"
  let ?p = "propCandidates (PropagateCancellation ?st ?s (cause_of ev))"
  let ?pairs = "map (\<lambda>x. (ccCandidateID x, ccReason x)) ?p"
  have ids: "map fst ?pairs = sorted_list_of_set (cancel_targets ?st ?s (cause_of ev))"
    using propCandidates_ids [OF assms(1), of ?st "cause_of ev"] by (simp add: comp_def)
  have fin: "finite (cancel_targets ?st ?s (cause_of ev))" by (simp add: cancel_targets_def)
  have target: "i \<in> cancel_targets ?st ?s (cause_of ev) \<longleftrightarrow> (\<exists>m \<in> set (acMembers c). mID (mwMember m) = i \<and>
      i \<noteq> ?s \<and> edge_reason (cause_of ev) (mwRelationToRep m) \<noteq> None)" for i
    using assms(1,3) by (force simp: cancel_targets_def propagates_def cluster_edges_def)
  have member: "(i, r) \<in> set ?pairs \<Longrightarrow> (i, r) \<in> set (decision_pairs c ev)" for i r
  proof -
    assume "(i, r) \<in> set ?pairs"
    then obtain x where x: "x \<in> set ?p" "ccCandidateID x = i" "ccReason x = r" by auto
    then have "i \<in> cancel_targets ?st ?s (cause_of ev)"
      using propCandidates_ids [OF assms(1), of ?st "cause_of ev"] fin by (metis image_eqI list.set_map set_sorted_list_of_set)
    then have "i \<noteq> ?s" by (simp add: cancel_targets_def)
    then show ?thesis
      using propCandidates_reason [OF assms(1) x(1)] x(2,3)
      by (auto simp: SupersedeDecisions_set cluster_edges_def)
  qed
  moreover have "fst ` set (decision_pairs c ev) = {i. \<exists>r. (i, r) \<in> set (decision_pairs c ev)}" by force
  then have "fst ` set (decision_pairs c ev) = cancel_targets ?st ?s (cause_of ev)"
    unfolding SupersedeDecisions_set target [abs_def, symmetric]
    by (simp only: set_eq_iff mem_Collect_eq target not_None_eq) blast
  then have "fst ` set ?pairs = fst ` set (decision_pairs c ev)"
    using ids fin by (metis list.set_map set_sorted_list_of_set)
  ultimately have "set ?pairs = set (decision_pairs c ev)"
    using SupersedeDecisions_sorted(2) [OF assms(2), of ev]
    by (intro same_pairs) (auto simp del: set_map)
  then have "?pairs = decision_pairs c ev"
    using SupersedeDecisions_sorted [OF assms(2), of ev] ids
    by (intro map_sorted_distinct_set_unique [of fst]) (auto simp: distinct_map)
  then show ?thesis by (simp add: decision_pairs_def)
qed

theorem supersede_tables_agree_witness:
  "map (\<lambda>x. (ccCandidateID x, ccReason x)) (propCandidates (PropagateCancellation
      \<lparr>Edges = cluster_edges (sample_cluster\<lparr>acMembers :=
         [\<lparr>mwMember = sample_member ''cand_9'' [], mwRelationToRep = RelationDuplicateOf\<rparr>]\<rparr>), Runs = []\<rparr>
      ''cand_0'' CauseEligible)) = [(''cand_9'', ReasonDominatedDuplicate)]"
  using supersede_tables_agree [of "sample_cluster\<lparr>acMembers :=
      [\<lparr>mwMember = sample_member ''cand_9'' [], mwRelationToRep = RelationDuplicateOf\<rparr>]\<rparr>" "[]" EventEligible]
  by (simp add: sample_cluster_def sample_member_def SupersedeDecisions_def member_decisions_def
      member_decision_def sort_by_def)

subsection \<open>Completion guards\<close>

text \<open>A completion is absorbed as a diagnostic exactly when the candidate is terminal or the run's own
  lifecycle would reject the outcome: otherwise each of the three outcome triggers is legal.\<close>

theorem completion_guard_exact:
  "(\<not> completionIsDiagnostic (vrState r) cs \<longleftrightarrow>
     \<not> CandidateState_Terminal cs \<and> (\<exists>r'. Run_Apply now r ''run.succeeded'' = Inr r')) \<and>
   (\<not> completionIsDiagnostic (vrState r) cs \<longleftrightarrow>
     \<not> CandidateState_Terminal cs \<and> (\<exists>r'. Run_Apply now r ''run.failed'' = Inr r')) \<and>
   (\<not> completionIsDiagnostic (vrState r) cs \<longleftrightarrow>
     \<not> CandidateState_Terminal cs \<and> (\<exists>r'. Run_Apply now r ''run.timed_out'' = Inr r'))"
  unfolding runs.app_Inr_iff
  by (cases "vrState r") (simp_all add: completionIsDiagnostic_def RunState_Terminal_def runTransitions_def)

end
