(* ===== verification/Store.thy ===== *)
theory Store
  imports Ledger Admission Evidence Failure Supersession
begin

text \<open>
  The control-plane database as the scheduler uses it: the tables of \<^verbatim>\<open>services/control-plane/migrations\<close>
  as lists of rows in table order, and the queries and statements of \<^verbatim>\<open>internal/store\<close> over them. A row
  pairs the value with its \<^verbatim>\<open>seq\<close> column. Reads are functions of the database; statements inside a
  transaction are actions of type \<open>'a tx\<close> that thread the world (database, id source, calls made to the
  fleet, the engine's in-memory set of audited denials) and stop at the first error. \<open>withTx\<close> restores the database on an error; calls to other
  services are not undone. One transaction runs at a time: the append lock and row locks of Postgres are
  the reason the code may assume so. Reads through the connection pool inside a transaction see the database as
  it was when the transaction began; they take that database as the argument \<open>pool\<close>. Violations of unique
  indexes are errors; any other failure of the database (lost connections) is not modelled.
\<close>

subsection \<open>The world and transactions\<close>

datatype EngErr = EDomain DomErr | EPermanent DomErr | EBudgetExhausted | EStorage | EAppend AppendErr
  | ENoLeaseSigner | EMint | EFleet

record 'a Row =
  rowSeq :: int
  rowVal :: 'a

record BudgetCounter =
  bcUsed :: int
  bcUpdatedSeq :: int
  bcWindow :: gotime

record FailureRow =
  frID :: string
  frTenantID :: string
  frCandidateID :: string
  frRunID :: string
  frSignature :: string
  frClassification :: string
  frConfidence :: float64
  frReproductionCommand :: string
  frSuspectedPaths :: "string list"
  frRoutedAction :: string
  frState :: string

record AuditEvent =
  adTenantID :: string
  adKind :: string
  adActor :: EventActor
  adSubject :: json
  adDetail :: json

record CommandRow =
  ckTenantID :: string
  ckEndpoint :: string
  ckKey :: string
  ckRequestHash :: string
  ckResponseCode :: int
  ckResponseBody :: json

record DB =
  dbLedger :: Ledger
  dbAudit :: "AuditEvent list"
  dbIntents :: "Intent Row list"
  dbLeases :: "Lease Row list"
  dbCandidates :: "Candidate Row list"
  dbClusters :: "Cluster Row list"
  dbMembers :: "(string \<times> string \<times> string) list"
  dbPlans :: "ValidationPlan Row list"
  dbRuns :: "ValidationRun Row list"
  dbEvidence :: "EvidenceRecord Row list"
  dbFailures :: "FailureRow Row list"
  dbRepairs :: "RepairTask Row list"
  dbDecisions :: "Decision Row list"
  dbProcessed :: "(string \<times> string) list"
  dbFeedRetries :: "string \<times> string \<rightharpoonup> int"
  dbBudgets :: "string \<times> BudgetKind \<rightharpoonup> BudgetCounter"
  dbCommands :: "CommandRow list"
  dbSuspended :: "string list"
  dbRateLimits :: "string \<times> string \<rightharpoonup> float64 \<times> gotime"

record World =
  wDB :: DB
  wNonce :: nat
  wCancels :: "(string \<times> string) list"
  wDenied :: "string list"

type_synonym 'a tx = "World \<Rightarrow> (EngErr + 'a) \<times> World"

definition returnT :: "'a \<Rightarrow> 'a tx" where
  "returnT x w = (Inr x, w)"

definition failT :: "EngErr \<Rightarrow> 'a tx" where
  "failT e w = (Inl e, w)"

definition bindT :: "'a tx \<Rightarrow> ('a \<Rightarrow> 'b tx) \<Rightarrow> 'b tx" where
  "bindT m f w = (case m w of (Inl e, w') \<Rightarrow> (Inl e, w') | (Inr x, w') \<Rightarrow> f x w')"

definition thenT :: "'a tx \<Rightarrow> 'b tx \<Rightarrow> 'b tx" where
  "thenT m n = bindT m (\<lambda>_. n)"

definition getDB :: "DB tx" where
  "getDB w = (Inr (wDB w), w)"

definition modifyDB :: "(DB \<Rightarrow> DB) \<Rightarrow> unit tx" where
  "modifyDB f w = (Inr (), w\<lparr>wDB := f (wDB w)\<rparr>)"

definition liftT :: "EngErr + 'a \<Rightarrow> 'a tx" where
  "liftT r w = (r, w)"

fun forT :: "('a \<Rightarrow> unit tx) \<Rightarrow> 'a list \<Rightarrow> unit tx" where
  "forT f [] = returnT ()"
| "forT f (x # xs) = thenT (f x) (forT f xs)"

definition withTx :: "'a tx \<Rightarrow> 'a tx" where
  "withTx m w = (case m w of (Inl e, w') \<Rightarrow> (Inl e, w'\<lparr>wDB := wDB w\<rparr>) | (Inr x, w') \<Rightarrow> (Inr x, w'))"

definition fleetCancel :: "string \<Rightarrow> string \<Rightarrow> unit tx" where
  "fleetCancel rid reason w = (Inr (), w\<lparr>wCancels := wCancels w @ [(rid, reason)]\<rparr>)"

text \<open>What the engine is wired with: digests and keys, the ULID source (\<^verbatim>\<open>domain.NewID\<close>, drawing
  the \<open>n\<close>-th id of a prefix), the clock and its RFC 3339 format, the log scanner and redactor, the retry bound, the policy source with
  the order its WIP map is ranged over, the per-tick batch, the job-lease signer, the materializer and the fleet's
  answer to an enqueue.\<close>

record EnqueueRequest =
  eqRunID :: string
  eqAttempt :: int
  eqTier :: int
  eqPool :: string
  eqJobSpec :: DomJobSpec
  eqLeaseToken :: string

record JobLeaseClaims =
  jlAudience :: string
  jlID :: string
  jlRunID :: string
  jlAttempt :: int
  jlFenceToken :: int
  jlRepo :: string
  jlTier :: int
  jlIssuedAt :: gotime
  jlExpiresAt :: gotime

record EngineEnv =
  envCrypto :: Crypto
  envHasSigner :: bool
  envNewID :: "string \<Rightarrow> nat \<Rightarrow> string"
  envNow :: gotime
  envRFC3339 :: "gotime \<Rightarrow> string"
  envScan :: LogScan
  envRedact :: "string \<Rightarrow> string"
  envMaxRetry :: int
  envPolicy :: ResolvedPolicy
  envWIPRange :: "(string \<times> int) list"
  envBatch :: nat
  envLeaseSigner :: "(JobLeaseClaims \<Rightarrow> string) option"
  envMaterialize :: "ValidationRun \<Rightarrow> string"
  envEnqueue :: "EnqueueRequest \<Rightarrow> bool"

definition freshID :: "EngineEnv \<Rightarrow> string \<Rightarrow> string tx" where
  "freshID env px w = (Inr (envNewID env px (wNonce w)), w\<lparr>wNonce := wNonce w + 1\<rparr>)"

subsection \<open>Events and audit rows\<close>

definition appendT :: "EngineEnv \<Rightarrow> Event list \<Rightarrow> Event list tx" where
  "appendT env evs w = (case AppendEventsTx (envCrypto env) (envHasSigner env) evs (dbLedger (wDB w)) of
     Inl e \<Rightarrow> (Inl (EAppend e), w)
   | Inr (stamped, l) \<Rightarrow> (Inr stamped, w\<lparr>wDB := (wDB w)\<lparr>dbLedger := l\<rparr>\<rparr>))"

text \<open>\<^verbatim>\<open>domain.NewEvent\<close> followed by \<^verbatim>\<open>AppendEventsTx\<close> on the one event; the
  result is the sequence number stamped onto it.\<close>

definition emitT :: "EngineEnv \<Rightarrow> string \<Rightarrow> string \<Rightarrow> AggregateRef \<Rightarrow> string \<Rightarrow> json \<Rightarrow> int tx" where
  "emitT env actor tenantID agg eventType payload =
     bindT (freshID env ''corr_'') (\<lambda>corr.
     bindT (freshID env ''evt_'') (\<lambda>ident.
     bindT (appendT env [NewEvent (envCrypto env) ident (envNow env) corr tenantID agg eventType [] corr
              \<lparr>actKind = ''service'', actID = actor\<rparr> payload]) (\<lambda>stamped.
     returnT (eSeq (hd stamped)))))"

definition InsertSecurityAuditTx :: "AuditEvent \<Rightarrow> unit tx" where
  "InsertSecurityAuditTx ev = modifyDB (\<lambda>db. db\<lparr>dbAudit := dbAudit db @ [ev]\<rparr>)"

subsection \<open>Rows\<close>

definition update_rows :: "('a \<Rightarrow> bool) \<Rightarrow> ('a \<Rightarrow> 'a) \<Rightarrow> int \<Rightarrow> 'a Row list \<Rightarrow> 'a Row list" where
  "update_rows P f seq rows = map (\<lambda>r. if P (rowVal r) then \<lparr>rowSeq = seq, rowVal = f (rowVal r)\<rparr> else r) rows"

definition select :: "('a \<Rightarrow> bool) \<Rightarrow> 'a Row list \<Rightarrow> 'a list" where
  "select P rows = filter P (map rowVal rows)"

definition select_one :: "('a \<Rightarrow> bool) \<Rightarrow> 'a Row list \<Rightarrow> 'a option" where
  "select_one P rows = (case select P rows of [] \<Rightarrow> None | x # _ \<Rightarrow> Some x)"

subsection \<open>Processed keys and feed retries\<close>

definition MarkProcessedTx :: "string \<Rightarrow> string \<Rightarrow> bool tx" where
  "MarkProcessedTx consumer eventID =
     bindT getDB (\<lambda>db. if (eventID, consumer) \<in> set (dbProcessed db) then returnT False
       else thenT (modifyDB (\<lambda>d. d\<lparr>dbProcessed := dbProcessed d @ [(eventID, consumer)]\<rparr>)) (returnT True))"

definition ProcessedKeys :: "DB \<Rightarrow> string \<Rightarrow> string list \<Rightarrow> string \<Rightarrow> bool" where
  "ProcessedKeys db consumer keys key \<longleftrightarrow> key \<in> set keys \<and> (key, consumer) \<in> set (dbProcessed db)"

definition MaxFeedAttempts :: int where
  "MaxFeedAttempts = 5"

text \<open>The statement returns \<^verbatim>\<open>tag.RowsAffected()\<close>: an upsert of one row.\<close>

definition RecordFeedFailureTx :: "string \<Rightarrow> string \<Rightarrow> int tx" where
  "RecordFeedFailureTx consumer eventKey =
     thenT (modifyDB (\<lambda>db. db\<lparr>dbFeedRetries := (dbFeedRetries db)((consumer, eventKey) \<mapsto>
             (case dbFeedRetries db (consumer, eventKey) of None \<Rightarrow> 1 | Some n \<Rightarrow> n + 1))\<rparr>))
       (returnT 1)"

definition FeedFailureCount :: "DB \<Rightarrow> string \<Rightarrow> string \<Rightarrow> int" where
  "FeedFailureCount db consumer eventKey = get0 (dbFeedRetries db) (consumer, eventKey)"

definition ClearFeedRetriesTx :: "string \<Rightarrow> string list \<Rightarrow> unit tx" where
  "ClearFeedRetriesTx consumer keys = modifyDB (\<lambda>db. db\<lparr>dbFeedRetries := (\<lambda>(c, k).
     if c = consumer \<and> k \<in> set keys then None else dbFeedRetries db (c, k))\<rparr>)"

subsection \<open>Budget counters (budget.go)\<close>

definition hour_bucket :: "gotime \<Rightarrow> gotime" where
  "hour_bucket now = now div 3600000000000 * 3600000000000"

fun ReserveBudgetsTx :: "EngineEnv \<Rightarrow> string \<Rightarrow> int \<Rightarrow> (BudgetKind \<times> int) list \<Rightarrow> (BudgetKind \<rightharpoonup> int) \<Rightarrow> unit tx" where
  "ReserveBudgetsTx env tenantID seq [] limits = returnT ()"
| "ReserveBudgetsTx env tenantID seq ((kind, delta) # deltas) limits =
    (if delta \<le> 0 then ReserveBudgetsTx env tenantID seq deltas limits
     else let limit = get0 limits kind; bucket = hour_bucket (envNow env) in
       if limit \<le> 0 then failT EBudgetExhausted
       else bindT getDB (\<lambda>db.
         let used = (case dbBudgets db (tenantID, kind) of None \<Rightarrow> delta
               | Some c \<Rightarrow> if bcWindow c < bucket then delta else bcUsed c + delta) in
         thenT (modifyDB (\<lambda>d. d\<lparr>dbBudgets := (dbBudgets d)((tenantID, kind) \<mapsto>
                  \<lparr>bcUsed = used, bcUpdatedSeq = seq, bcWindow = bucket\<rparr>)\<rparr>))
           (if used > limit then failT EBudgetExhausted
            else ReserveBudgetsTx env tenantID seq deltas limits)))"

fun ReleaseBudgetsTx :: "string \<Rightarrow> int \<Rightarrow> (BudgetKind \<times> int) list \<Rightarrow> unit tx" where
  "ReleaseBudgetsTx tenantID seq [] = returnT ()"
| "ReleaseBudgetsTx tenantID seq ((kind, delta) # deltas) =
    (if delta \<le> 0 then ReleaseBudgetsTx tenantID seq deltas
     else thenT (modifyDB (\<lambda>d. d\<lparr>dbBudgets := (case dbBudgets d (tenantID, kind) of
              None \<Rightarrow> dbBudgets d
            | Some c \<Rightarrow> (dbBudgets d)((tenantID, kind) \<mapsto> c\<lparr>bcUsed := max 0 (bcUsed c - delta), bcUpdatedSeq := seq\<rparr>))\<rparr>))
       (ReleaseBudgetsTx tenantID seq deltas))"

definition BudgetUsageSnapshot :: "EngineEnv \<Rightarrow> string list \<Rightarrow> Usage tx" where
  "BudgetUsageSnapshot env tenants =
     (if tenants = [] then returnT (\<lambda>_. Map.empty)
      else thenT (modifyDB (\<lambda>d. d\<lparr>dbBudgets := (\<lambda>(t, k). map_option (\<lambda>c.
             if t \<in> set tenants \<and> bcWindow c < hour_bucket (envNow env)
             then c\<lparr>bcUsed := 0, bcWindow := hour_bucket (envNow env)\<rparr> else c) (dbBudgets d (t, k)))\<rparr>))
        (bindT getDB (\<lambda>db. returnT (\<lambda>t k. if t \<in> set tenants then map_option bcUsed (dbBudgets db (t, k)) else None))))"

definition ActualCPUMinutes :: "int \<Rightarrow> int \<Rightarrow> int" where
  "ActualCPUMinutes actualDurationMS estDurationMS =
    (let minutes = i64 (actualDurationMS + 59999) sdiv 60000 in
     if minutes \<le> 0 then i64 (estDurationMS + 59999) sdiv 60000 else minutes)"

subsection \<open>Runs (runs.go, run\_failures.go, effect\_reads.go)\<close>

definition run_before :: "ValidationRun \<Rightarrow> ValidationRun \<Rightarrow> bool" where
  "run_before a b \<longleftrightarrow> vrPriority a > vrPriority b \<or>
     vrPriority a = vrPriority b \<and> (vrCreatedAt a < vrCreatedAt b \<or> vrCreatedAt a = vrCreatedAt b \<and> vrID a < vrID b)"

definition QueuedRuns :: "DB \<Rightarrow> nat \<Rightarrow> QueuedRun list" where
  "QueuedRuns db limit = take limit (map (\<lambda>r. let v = rowVal r in
       \<lparr>qrID = vrID v, qrTenantID = vrTenantID v, qrCandidateID = vrCandidateID v, qrPool = vrPool v, qrTier = vrTier v,
        qrEstDurationMS = vrEstDurationMS v, qrEstCostMillicents = vrEstCostMillicents v, qrPriority = vrPriority v,
        qrCreatedAt = vrCreatedAt v, qrCreatedSeq = rowSeq r\<rparr>)
     (sort_by (\<lambda>a b. run_before (rowVal a) (rowVal b)) (filter (\<lambda>r. vrState (rowVal r) = RunQueued \<and>
       list_ex (\<lambda>c. cID (rowVal c) = vrCandidateID (rowVal r) \<and> cTenantID (rowVal c) = vrTenantID (rowVal r) \<and>
         cState (rowVal c) \<notin> {CandBlockedRepresentative, CandSuperseded, CandCancelled, CandRejected, CandEligible})
         (dbCandidates db)) (dbRuns db))))"

definition InFlightByTier :: "DB \<Rightarrow> WIPSnapshot" where
  "InFlightByTier db tier = (let n = length (select (\<lambda>v. vrTier v = tier \<and> vrState v \<in> {RunDispatched, RunRunning}) (dbRuns db))
     in if n = 0 then None else Some (int n))"

definition GetRunByID :: "DB \<Rightarrow> string \<Rightarrow> ValidationRun option" where
  "GetRunByID db rid = select_one (\<lambda>v. vrID v = rid) (dbRuns db)"

definition run_agg :: "string \<Rightarrow> AggregateRef" where
  "run_agg rid = \<lparr>agType = ''validation_run'', agID = rid\<rparr>"

definition DispatchRunTx :: "EngineEnv \<Rightarrow> ValidationRun \<Rightarrow> int tx" where
  "DispatchRunTx env run0 =
    (let run = (case Run_Apply (envNow env) run0 ''run.dispatched'' of Inl _ \<Rightarrow> run0 | Inr r \<Rightarrow> r) in
     bindT (emitT env ''scheduler'' (vrTenantID run) (run_agg (vrID run)) ''validation.started'' (JObj
       [(''run_id'', JStr (vrID run)), (''attempt'', JInt (vrAttempt run)), (''fence_token'', JInt (vrFenceToken run)),
        (''worker_id'', JStr ''pending-claim''), (''provider'', JStr ''sim''), (''candidate_id'', JStr (vrCandidateID run))])) (\<lambda>seq.
     bindT getDB (\<lambda>db.
     let P = (\<lambda>v. vrID v = vrID run \<and> vrTenantID v = vrTenantID run \<and> vrState v = RunQueued) in
     thenT (modifyDB (\<lambda>d. d\<lparr>dbRuns := update_rows P (\<lambda>v. v\<lparr>vrState := RunDispatched, vrFenceToken := vrFenceToken run,
              vrDispatchedAt := Some (envNow env)\<rparr>) seq (dbRuns d)\<rparr>))
       (if length (select P (dbRuns db)) \<noteq> 1 then failT (EDomain ErrConflict) else returnT seq))))"

definition cancel_target :: "EngineEnv \<Rightarrow> string \<Rightarrow> string \<Rightarrow> string \<Rightarrow> ValidationRun \<Rightarrow> bool tx" where
  "cancel_target env actor reason tenantID target =
     bindT (emitT env actor tenantID (run_agg (vrID target)) ''validation.cancelled'' (JObj
       [(''run_ids'', JArr [JStr (vrID target)]), (''reason'', JStr reason)])) (\<lambda>seq.
     bindT getDB (\<lambda>db.
     let P = (\<lambda>v. vrID v = vrID target \<and> vrTenantID v = tenantID \<and> vrState v \<in> {RunQueued, RunDispatched}) in
     thenT (modifyDB (\<lambda>d. d\<lparr>dbRuns := update_rows P (\<lambda>v. v\<lparr>vrState := RunCancelled, vrFinishedAt := Some (envNow env)\<rparr>) seq (dbRuns d)\<rparr>))
       (if length (select P (dbRuns db)) = 1 then
          thenT (if vrState target = RunDispatched
                 then ReleaseBudgetsTx tenantID seq [(BudgetCPUMinutes, ActualCPUMinutes 0 (vrEstDurationMS target)),
                   (BudgetConcurrentCandidates, 1)]
                 else returnT ()) (returnT True)
        else returnT False)))"

fun cancel_targets_loop :: "EngineEnv \<Rightarrow> string \<Rightarrow> string \<Rightarrow> string \<Rightarrow> string list \<Rightarrow> ValidationRun list \<Rightarrow> string list tx" where
  "cancel_targets_loop env actor reason tenantID cancelled [] = returnT cancelled"
| "cancel_targets_loop env actor reason tenantID cancelled (t # ts) =
     bindT (cancel_target env actor reason tenantID t) (\<lambda>hit.
       cancel_targets_loop env actor reason tenantID (if hit then cancelled @ [vrID t] else cancelled) ts)"

definition CancelRunsForCandidateTx :: "EngineEnv \<Rightarrow> string \<Rightarrow> string \<Rightarrow> string \<Rightarrow> string list tx" where
  "CancelRunsForCandidateTx env tenantID candidateID reason =
     bindT getDB (\<lambda>db. cancel_targets_loop env ''scheduler'' reason tenantID [] (select (\<lambda>v. vrTenantID v = tenantID \<and>
       vrCandidateID v = candidateID \<and> vrState v \<in> {RunQueued, RunDispatched}) (dbRuns db)))"

definition CountFailedRequiredRunsTx :: "DB \<Rightarrow> string \<Rightarrow> string \<Rightarrow> string list \<Rightarrow> int" where
  "CountFailedRequiredRunsTx db tenantID candidateID requiredKinds =
    (if requiredKinds = [] then 0
     else int (length (select (\<lambda>v. vrTenantID v = tenantID \<and> vrCandidateID v = candidateID \<and>
       vrState v \<in> {RunFailed, RunTimedOut} \<and> jsKind (vrJobSpec v) \<in> set requiredKinds) (dbRuns db))))"

text \<open>\<^verbatim>\<open>CancelStaleDispatchedRuns\<close> of the reconciler: one transaction per stale run, stopping at the
  first error with the runs cancelled so far (which the error discards, as the caller returns it).\<close>

fun stale_loop :: "EngineEnv \<Rightarrow> string \<Rightarrow> string list \<Rightarrow> ValidationRun list \<Rightarrow> string list tx" where
  "stale_loop env reason cancelled [] = returnT cancelled"
| "stale_loop env reason cancelled (t # ts) =
     bindT (withTx (cancel_target env ''reconciler'' reason (vrTenantID t) t)) (\<lambda>hit.
       stale_loop env reason (if hit then cancelled @ [vrID t] else cancelled) ts)"

definition CancelStaleDispatchedRuns :: "EngineEnv \<Rightarrow> duration \<Rightarrow> string \<Rightarrow> string list tx" where
  "CancelStaleDispatchedRuns env maxAge reason =
     bindT getDB (\<lambda>db. stale_loop env reason [] (take 100 (select (\<lambda>v. vrState v = RunDispatched \<and>
       (case vrDispatchedAt v of None \<Rightarrow> False | Some t \<Rightarrow> t < envNow env - maxAge)) (dbRuns db))))"

subsection \<open>Candidates, plans, clusters\<close>

text \<open>\<^verbatim>\<open>GetCandidate\<close> selects eleven columns; the other fields of the struct stay zero.\<close>

definition GetCandidate :: "DB \<Rightarrow> string \<Rightarrow> string \<Rightarrow> Candidate option" where
  "GetCandidate db tenantID candidateID = map_option (\<lambda>c. c\<lparr>cTenantID := [], Submitter := [], cChangedPaths := [],
     cRepo := [], cPRNumber := 0, RerunCount := 0\<rparr>)
     (select_one (\<lambda>c. cID c = candidateID \<and> cTenantID c = tenantID) (dbCandidates db))"

definition CandidateStateByID :: "DB \<Rightarrow> string \<Rightarrow> string \<Rightarrow> CandidateState option" where
  "CandidateStateByID db tenantID candidateID =
     map_option cState (select_one (\<lambda>c. cID c = candidateID \<and> cTenantID c = tenantID) (dbCandidates db))"

definition MarkCandidateStateTx :: "string \<Rightarrow> string \<Rightarrow> CandidateState \<Rightarrow> CandidateState list \<Rightarrow> int \<Rightarrow> unit tx" where
  "MarkCandidateStateTx tenantID candidateID st fromStates seq = modifyDB (\<lambda>d. d\<lparr>dbCandidates :=
     update_rows (\<lambda>c. cID c = candidateID \<and> cTenantID c = tenantID \<and> cState c \<in> set fromStates) (\<lambda>c. c\<lparr>cState := st\<rparr>) seq
       (dbCandidates d)\<rparr>)"

definition LiveCandidateCountByIntentTx :: "DB \<Rightarrow> string \<Rightarrow> string \<Rightarrow> int" where
  "LiveCandidateCountByIntentTx db tenantID intentID = int (length (select (\<lambda>c. cTenantID c = tenantID \<and> cIntentID c = intentID \<and>
     cState c \<notin> {CandSuperseded, CandCancelled, CandRejected, CandEligible}) (dbCandidates db)))"

definition ActivePlanForCandidate :: "DB \<Rightarrow> string \<Rightarrow> string \<Rightarrow> ValidationPlan option" where
  "ActivePlanForCandidate db tenantID candidateID =
    (case sort_by (\<lambda>a b. rowSeq a > rowSeq b) (filter (\<lambda>r. vpTenantID (rowVal r) = tenantID \<and>
        vpCandidateID (rowVal r) = candidateID) (dbPlans db)) of
       [] \<Rightarrow> None | r # _ \<Rightarrow> Some (rowVal r))"

definition MarkPlanSatisfiedTx :: "string \<Rightarrow> string \<Rightarrow> int \<Rightarrow> unit tx" where
  "MarkPlanSatisfiedTx tenantID planID seq = modifyDB (\<lambda>d. d\<lparr>dbPlans :=
     update_rows (\<lambda>p. vpID p = planID \<and> vpTenantID p = tenantID \<and> vpState p = PlanActive) (\<lambda>p. p\<lparr>vpState := PlanSatisfied\<rparr>) seq
       (dbPlans d)\<rparr>)"

record ClusterSnapshot =
  csnID :: string
  csnTenantID :: string
  csnRepo :: string
  csnRepCandidateID :: string
  csnMembers :: "MemberWithRelation list"

definition memberFromCandidate :: "DB \<Rightarrow> string \<Rightarrow> string \<Rightarrow> EngErr + Member" where
  "memberFromCandidate db tenantID candidateID =
    (case filter (\<lambda>r. cID (rowVal r) = candidateID \<and> cTenantID (rowVal r) = tenantID) (dbCandidates db) of
       [] \<Rightarrow> Inl EStorage
     | r # _ \<Rightarrow> Inr \<lparr>mID = cID (rowVal r), mChangedPaths = cChangedPaths (rowVal r), mChangedSymbols = [], mDependsOn = [],
         mPriority = PriorityScore (rowVal r), mCreatedSeq = rowSeq r\<rparr>)"

fun members_of :: "DB \<Rightarrow> string \<Rightarrow> (string \<times> string) list \<Rightarrow> EngErr + MemberWithRelation list" where
  "members_of db tenantID [] = Inr []"
| "members_of db tenantID ((candidateID, relation) # refs) =
    (case memberFromCandidate db tenantID candidateID of Inl e \<Rightarrow> Inl e
     | Inr m \<Rightarrow> (case members_of db tenantID refs of Inl e \<Rightarrow> Inl e
         | Inr ms \<Rightarrow> Inr (\<lparr>mwMember = m, mwRelationToRep = relation\<rparr> # ms)))"

definition appendMembers :: "DB \<Rightarrow> ClusterSnapshot \<Rightarrow> EngErr + ClusterSnapshot" where
  "appendMembers db snap =
    (case members_of db (csnTenantID snap) ((csnRepCandidateID snap, []) #
        map snd (filter (\<lambda>(cl, _). cl = csnID snap) (dbMembers db))) of
       Inl e \<Rightarrow> Inl e
     | Inr ms \<Rightarrow> Inr (snap\<lparr>csnMembers := csnMembers snap @ ms\<rparr>))"

definition ClusterForCandidate :: "DB \<Rightarrow> string \<Rightarrow> string \<Rightarrow> EngErr + ClusterSnapshot option" where
  "ClusterForCandidate db tenantID candidateID =
    (case select_one (\<lambda>c. cID c = candidateID \<and> cTenantID c = tenantID) (dbCandidates db) of
       None \<Rightarrow> Inr None
     | Some c \<Rightarrow> if cClusterID c = [] then Inr None
         else case select_one (\<lambda>cl. clID cl = cClusterID c \<and> clTenantID cl = tenantID) (dbClusters db) of
           None \<Rightarrow> Inr None
         | Some cl \<Rightarrow> map_sum (\<lambda>e. e) Some (appendMembers db \<lparr>csnID = cClusterID c, csnTenantID = tenantID, csnRepo = clRepo cl,
             csnRepCandidateID = RepCandidateID cl, csnMembers = []\<rparr>))"

subsection \<open>Evidence, decisions, failures\<close>

definition evidence_ref :: "EvidenceRecord \<Rightarrow> EvidenceRef" where
  "evidence_ref e = \<lparr>refID = evID e, refKind = evKind e, refAttempt = evAttempt e\<rparr>"

definition AcceptedEvidenceForRun :: "DB \<Rightarrow> string \<Rightarrow> string \<Rightarrow> EvidenceRef list" where
  "AcceptedEvidenceForRun db tenantID rid = map evidence_ref (select (\<lambda>e. evTenantID e = tenantID \<and> evRunID e = rid \<and>
     evStatus e = EvidenceAccepted) (dbEvidence db))"

definition AcceptedEvidenceRefsForCandidateTx :: "DB \<Rightarrow> string \<Rightarrow> string \<Rightarrow> EvidenceRef list" where
  "AcceptedEvidenceRefsForCandidateTx db tenantID candidateID = map evidence_ref (select (\<lambda>e. evTenantID e = tenantID \<and>
     evCandidateID e = candidateID \<and> evStatus e = EvidenceAccepted \<and> evVerdict e = ''pass'') (dbEvidence db))"

definition InsertEvidenceTx :: "EngineEnv \<Rightarrow> EvidenceRecord \<Rightarrow> int \<Rightarrow> unit tx" where
  "InsertEvidenceTx env rec seq = bindT getDB (\<lambda>db.
     if list_ex (\<lambda>r. evID (rowVal r) = evID rec) (dbEvidence db) then returnT ()
     else if evStatus rec = EvidenceAccepted \<and> list_ex (\<lambda>r. evRunID (rowVal r) = evRunID rec \<and> evAttempt (rowVal r) = evAttempt rec \<and>
       evStatus (rowVal r) = EvidenceAccepted) (dbEvidence db) then failT EStorage
     else modifyDB (\<lambda>d. d\<lparr>dbEvidence := dbEvidence d @ [\<lparr>rowSeq = seq,
       rowVal = rec\<lparr>AcceptedAt := Some (envNow env), evCreatedAt := envNow env\<rparr>\<rparr>]\<rparr>))"

definition LatestDecisionForCandidateTx :: "DB \<Rightarrow> string \<Rightarrow> string \<Rightarrow> Decision option" where
  "LatestDecisionForCandidateTx db tenantID candidateID =
    (case sort_by (\<lambda>a b. decRenderedAt a > decRenderedAt b) (select (\<lambda>d. decTenantID d = tenantID \<and>
        decSubjectType d = SubjectCandidate \<and> decSubjectID d = candidateID) (dbDecisions db)) of
       [] \<Rightarrow> None | d # _ \<Rightarrow> Some d)"

definition InsertDecisionTx :: "Decision \<Rightarrow> int \<Rightarrow> unit tx" where
  "InsertDecisionTx dec seq = bindT getDB (\<lambda>db.
     if list_ex (\<lambda>r. decID (rowVal r) = decID dec) (dbDecisions db) then returnT ()
     else modifyDB (\<lambda>d. d\<lparr>dbDecisions := dbDecisions d @ [\<lparr>rowSeq = seq, rowVal = dec\<rparr>]\<rparr>))"

definition InsertFailureCaseTx :: "FailureRow \<Rightarrow> int \<Rightarrow> unit tx" where
  "InsertFailureCaseTx row seq = bindT getDB (\<lambda>db.
     if list_ex (\<lambda>r. frID (rowVal r) = frID row) (dbFailures db) then failT EStorage
     else modifyDB (\<lambda>d. d\<lparr>dbFailures := dbFailures d @ [\<lparr>rowSeq = seq, rowVal = row\<rparr>]\<rparr>))"

definition InsertRepairTaskTx :: "RepairTask \<Rightarrow> int \<Rightarrow> unit tx" where
  "InsertRepairTaskTx task seq = bindT getDB (\<lambda>db.
     if list_ex (\<lambda>r. rtID (rowVal r) = rtID task) (dbRepairs db) then failT EStorage
     else modifyDB (\<lambda>d. d\<lparr>dbRepairs := dbRepairs d @ [\<lparr>rowSeq = seq, rowVal = task\<rparr>]\<rparr>))"

subsection \<open>Intents and leases\<close>

text \<open>\<^verbatim>\<open>GetIntent\<close> and \<^verbatim>\<open>GetLease\<close> select some columns; \<^verbatim>\<open>GetLease\<close> reads the
  budget and required evidence columns but never unmarshals them.\<close>

definition zero_budget :: BudgetValues where
  "zero_budget = \<lparr>CPUMinutes = 0, EnvironmentMinutes = 0, RepairAttempts = 0\<rparr>"

definition GetIntent :: "DB \<Rightarrow> string \<Rightarrow> string \<Rightarrow> Intent option" where
  "GetIntent db tenantID intentID = map_option (\<lambda>i. i\<lparr>Declared := (Declared i)\<lparr>Constraints := [], AcceptanceCriteria := [],
     AgentLineage := [], dResolvedPolicy := \<lparr>prPolicyID = [], prVersion = 0\<rparr>, ComputeBudget := zero_budget\<rparr>, iPRNumber := 0\<rparr>)
     (select_one (\<lambda>i. iID i = intentID \<and> iTenantID i = tenantID) (dbIntents db))"

definition GetLease :: "DB \<Rightarrow> string \<Rightarrow> string \<Rightarrow> Lease option" where
  "GetLease db tenantID leaseID = map_option (\<lambda>l. l\<lparr>lBudget := zero_budget, lRequiredEvidence := []\<rparr>)
     (select_one (\<lambda>l. lID l = leaseID \<and> lTenantID l = tenantID) (dbLeases db))"

definition LeaseForIntent :: "DB \<Rightarrow> string \<Rightarrow> string \<Rightarrow> string list" where
  "LeaseForIntent db tenantID intentID = map lID (take 5 (sort_by (\<lambda>a b. lCreatedAt a > lCreatedAt b)
     (select (\<lambda>l. lTenantID l = tenantID \<and> lIntentID l = intentID \<and> lState l = LeaseGranted) (dbLeases db))))"

definition DueLeases :: "DB \<Rightarrow> gotime \<Rightarrow> (string \<times> string) list" where
  "DueLeases db now = map (\<lambda>l. (lTenantID l, lID l)) (take 100 (select (\<lambda>l. lState l = LeaseGranted \<and> TTLExpiresAt l < now) (dbLeases db)))"

definition TeardownLeaseReasons :: "string list" where
  "TeardownLeaseReasons = [''tenant_teardown'', ''repo_deleted'']"

definition releaseLeaseTx :: "EngineEnv \<Rightarrow> Lease \<Rightarrow> string \<Rightarrow> unit tx" where
  "releaseLeaseTx env l reason =
     bindT (emitT env ''control-plane'' (lTenantID l) \<lparr>agType = ''lease'', agID = lID l\<rparr>
        (if reason = ''ttl'' then ''lease.expired'' else ''lease.revoked'') (JObj
       [(''lease_id'', JStr (lID l)), (''reason'', JStr reason),
        (''released_budget'', JObj [(''cpu_minutes'', JInt (CPUMinutes (lBudget l))),
           (''environment_minutes'', JInt (EnvironmentMinutes (lBudget l))), (''repair_attempts'', JInt (RepairAttempts (lBudget l)))])])) (\<lambda>seq.
     thenT (if reason \<in> set TeardownLeaseReasons
            then InsertSecurityAuditTx \<lparr>adTenantID = lTenantID l, adKind = ''lease_revocation'',
              adActor = \<lparr>actKind = ''service'', actID = ''control-plane''\<rparr>,
              adSubject = JObj [(''lease_id'', JStr (lID l)), (''intent_id'', JStr (lIntentID l))],
              adDetail = JObj [(''reason'', JStr reason)]\<rparr>
            else returnT ())
     (modifyDB (\<lambda>d. d\<lparr>dbLeases := update_rows (\<lambda>x. lID x = lID l \<and> lTenantID x = lTenantID l \<and> lState x = LeaseGranted)
        (\<lambda>x. x\<lparr>lState := lState l, ReleasedAt := Some (envNow env)\<rparr>) seq (dbLeases d)\<rparr>)))"

definition RenewLease :: "EngineEnv \<Rightarrow> string \<Rightarrow> string \<Rightarrow> int \<Rightarrow> (gotime \<times> int) tx" where
  "RenewLease env tenantID leaseID ttlSeconds = withTx (bindT getDB (\<lambda>db.
     let P = (\<lambda>l. lID l = leaseID \<and> lTenantID l = tenantID \<and> lState l = LeaseGranted \<and> TTLExpiresAt l > envNow env) in
     thenT (modifyDB (\<lambda>d. d\<lparr>dbLeases := map (\<lambda>r. if P (rowVal r) then r\<lparr>rowVal := (rowVal r)\<lparr>
              TTLExpiresAt := envNow env + ttlSeconds * 1000000000, RenewalCount := RenewalCount (rowVal r) + 1\<rparr>\<rparr> else r) (dbLeases d)\<rparr>))
     (if length (select P (dbLeases db)) \<noteq> 1 then failT (EDomain ErrConflict)
      else bindT getDB (\<lambda>db1. case select_one (\<lambda>l. lID l = leaseID \<and> lTenantID l = tenantID) (dbLeases db1) of
        None \<Rightarrow> failT EStorage
      | Some l \<Rightarrow> bindT (emitT env ''control-plane'' tenantID \<lparr>agType = ''lease'', agID = leaseID\<rparr> ''lease.renewed'' (JObj
            [(''lease_id'', JStr leaseID), (''ttl_expires_at'', JStr (envRFC3339 env (TTLExpiresAt l))), (''renewal_count'', JInt (RenewalCount l))])) (\<lambda>seq.
          thenT (modifyDB (\<lambda>d. d\<lparr>dbLeases := update_rows (\<lambda>l. lID l = leaseID \<and> lTenantID l = tenantID) (\<lambda>l. l) seq (dbLeases d)\<rparr>))
            (returnT (TTLExpiresAt l, RenewalCount l)))))))"

subsection \<open>Frames\<close>

text \<open>
  \<open>keeps Q m\<close>: whatever the outcome of \<open>m\<close>, the databases before and after it are related by
  \<open>Q\<close>. The locale \<open>db_order\<close> gives the composition rules for a preorder \<open>Q\<close>;
  \<open>db_frame\<close> adds that the individual writes of the store stay inside \<open>Q\<close>, and derives it for
  the store's statements. The engine's theorems instantiate \<open>Q\<close>.
\<close>

definition keeps :: "(DB \<Rightarrow> DB \<Rightarrow> bool) \<Rightarrow> 'a tx \<Rightarrow> bool" where
  "keeps Q m \<longleftrightarrow> (\<forall>w. Q (wDB w) (wDB (snd (m w))))"

lemmas tx_defs = returnT_def failT_def bindT_def thenT_def getDB_def modifyDB_def liftT_def

locale db_order =
  fixes Q :: "DB \<Rightarrow> DB \<Rightarrow> bool"
  assumes refl_Q: "Q db db"
    and trans_Q: "Q db db' \<Longrightarrow> Q db' db'' \<Longrightarrow> Q db db''"
begin

lemma r_return: "keeps Q (returnT x)"
  by (simp add: keeps_def returnT_def refl_Q)

lemma r_fail: "keeps Q (failT e)"
  by (simp add: keeps_def failT_def refl_Q)

lemma r_get: "keeps Q getDB"
  by (simp add: keeps_def getDB_def refl_Q)

lemma r_lift: "keeps Q (liftT r)"
  by (simp add: keeps_def liftT_def refl_Q)

lemma r_fresh: "keeps Q (freshID env px)"
  by (simp add: keeps_def freshID_def refl_Q)

lemma r_cancel: "keeps Q (fleetCancel rid reason)"
  by (simp add: keeps_def fleetCancel_def refl_Q)

lemma r_modify: "(\<And>db. Q db (f db)) \<Longrightarrow> keeps Q (modifyDB f)"
  by (simp add: keeps_def modifyDB_def)

lemma r_bind:
  assumes "keeps Q m" and "\<And>x. keeps Q (f x)"
  shows "keeps Q (bindT m f)"
  unfolding keeps_def
proof
  fix w
  have step: "Q (wDB w) (wDB (snd (m w)))" using assms(1) by (simp add: keeps_def)
  show "Q (wDB w) (wDB (snd (bindT m f w)))"
  proof (cases "fst (m w)")
    case (Inl e)
    with step show ?thesis by (simp add: bindT_def case_prod_beta)
  next
    case (Inr x)
    have "Q (wDB (snd (m w))) (wDB (snd (f x (snd (m w)))))" using assms(2) by (simp add: keeps_def)
    with step Inr show ?thesis by (simp add: bindT_def case_prod_beta trans_Q)
  qed
qed

lemma r_bind_get: "(\<And>db. keeps Q (f db)) \<Longrightarrow> keeps Q (bindT getDB f)"
  by (rule r_bind [OF r_get])

lemma r_then: "keeps Q m \<Longrightarrow> keeps Q n \<Longrightarrow> keeps Q (thenT m n)"
  by (simp add: thenT_def r_bind)

lemma r_for: "(\<And>x. x \<in> set xs \<Longrightarrow> keeps Q (f x)) \<Longrightarrow> keeps Q (forT f xs)"
  by (induction xs) (simp_all add: r_return r_then)

lemma r_if: "(b \<Longrightarrow> keeps Q m) \<Longrightarrow> (\<not> b \<Longrightarrow> keeps Q n) \<Longrightarrow> keeps Q (if b then m else n)"
  by simp

lemma r_withTx:
  assumes "keeps Q m"
  shows "keeps Q (withTx m)"
  unfolding keeps_def
proof
  fix w
  have "Q (wDB w) (wDB (snd (m w)))" using assms by (simp add: keeps_def)
  then show "Q (wDB w) (wDB (snd (withTx m w)))"
    by (auto simp: withTx_def case_prod_beta refl_Q split: sum.splits)
qed

lemmas r_rules = r_return r_fail r_get r_lift r_fresh r_cancel r_bind r_then r_for r_if r_withTx

end

locale db_frame = db_order +
  fixes env :: EngineEnv
  assumes w_ledger: "AppendEventsTx (envCrypto env) (envHasSigner env) evs (dbLedger db) = Inr (stamped, l) \<Longrightarrow>
      Q db (db\<lparr>dbLedger := l\<rparr>)"
    and w_audit: "Q db (db\<lparr>dbAudit := dbAudit db @ [a]\<rparr>)"
    and w_processed: "Q db (db\<lparr>dbProcessed := dbProcessed db @ [k]\<rparr>)"
    and w_retries: "Q db (db\<lparr>dbFeedRetries := rt\<rparr>)"
    and w_budgets: "Q db (db\<lparr>dbBudgets := bg\<rparr>)"
    and w_runs: "Q db (db\<lparr>dbRuns := update_rows Pr fr seq (dbRuns db)\<rparr>)"
    and w_candidates: "\<forall>s \<in> set froms. \<not> CandidateState_Terminal s \<Longrightarrow> Q db (db\<lparr>dbCandidates :=
      update_rows (\<lambda>c. cID c = ci \<and> cTenantID c = ti \<and> cState c \<in> set froms) (\<lambda>c. c\<lparr>cState := st\<rparr>) seq (dbCandidates db)\<rparr>)"
    and w_leases: "Q db (db\<lparr>dbLeases := update_rows Pl fl seq (dbLeases db)\<rparr>)"
begin

lemma r_append: "keeps Q (appendT env evs)"
  unfolding keeps_def
proof
  fix w
  show "Q (wDB w) (wDB (snd (appendT env evs w)))"
    by (auto simp: appendT_def refl_Q w_ledger split: sum.splits)
qed

lemma r_emit: "keeps Q (emitT env actor tenantID agg ty payload)"
  unfolding emitT_def by (intro r_rules r_append)

lemma r_audit: "keeps Q (InsertSecurityAuditTx a)"
  unfolding InsertSecurityAuditTx_def by (intro r_modify w_audit)

lemma r_mark: "keeps Q (MarkProcessedTx consumer key)"
  unfolding MarkProcessedTx_def by (intro r_rules r_modify w_processed)

lemma r_record_failure: "keeps Q (RecordFeedFailureTx consumer key)"
  unfolding RecordFeedFailureTx_def by (intro r_rules r_modify w_retries)

lemma r_clear: "keeps Q (ClearFeedRetriesTx consumer keys)"
  unfolding ClearFeedRetriesTx_def by (intro r_modify w_retries)

lemma r_reserve: "keeps Q (ReserveBudgetsTx env tenantID seq deltas limits)"
  by (induction env tenantID seq deltas limits rule: ReserveBudgetsTx.induct)
     (auto simp: Let_def intro!: r_rules r_modify w_budgets)

lemma r_release: "keeps Q (ReleaseBudgetsTx tenantID seq deltas)"
  by (induction tenantID seq deltas rule: ReleaseBudgetsTx.induct)
     (auto intro!: r_rules r_modify w_budgets)

lemma r_snapshot: "keeps Q (BudgetUsageSnapshot env tenants)"
  unfolding BudgetUsageSnapshot_def by (intro r_rules r_modify w_budgets)

lemma r_dispatch_run: "keeps Q (DispatchRunTx env run)"
  unfolding DispatchRunTx_def Let_def by (intro r_rules r_emit r_modify w_runs)

lemma r_cancel_target: "keeps Q (cancel_target env actor reason tenantID t)"
  unfolding cancel_target_def Let_def by (intro r_rules r_emit r_modify w_runs r_release)

lemma r_cancel_targets: "keeps Q (cancel_targets_loop env actor reason tenantID acc ts)"
  by (induction ts arbitrary: acc) (simp_all add: r_return r_bind r_cancel_target)

lemma r_cancel_runs: "keeps Q (CancelRunsForCandidateTx env tenantID candidateID reason)"
  unfolding CancelRunsForCandidateTx_def by (intro r_bind_get r_cancel_targets)

lemma r_stale: "keeps Q (CancelStaleDispatchedRuns env maxAge reason)"
proof -
  have "keeps Q (stale_loop env reason acc ts)" for acc ts
    by (induction ts arbitrary: acc) (simp_all add: r_return r_bind r_withTx r_cancel_target)
  then show ?thesis unfolding CancelStaleDispatchedRuns_def by (intro r_bind_get)
qed

lemma r_mark_candidate:
  "\<forall>s \<in> set froms. \<not> CandidateState_Terminal s \<Longrightarrow> keeps Q (MarkCandidateStateTx tenantID candidateID st froms seq)"
  unfolding MarkCandidateStateTx_def by (intro r_modify w_candidates)

lemma r_release_lease: "keeps Q (releaseLeaseTx env l reason)"
  unfolding releaseLeaseTx_def by (intro r_rules r_emit r_audit r_modify w_leases)

end

end
