(* ===== verification/Engine.thy ===== *)
theory Engine
  imports Store
begin

text \<open>
  The engine scheduler's effect pipeline (\<^verbatim>\<open>internal/scheduler\<close>: completions.go, completions\_poison.go,
  effects.go, decide.go, failures\_route.go, audit.go, dispatch.go, engine.go): what one row of the fleet's
  completion feed does to the database, how decisions are rendered and superseded candidates cancelled, and how
  queued runs are admitted and dispatched. The operations compose as in the code; log lines and metrics are dropped.
\<close>

subsection \<open>Completion feed rows\<close>

record CompletedJob =
  cjRunID :: string
  cjAttempt :: int
  cjFenceToken :: int
  cjTier :: int
  cjPool :: string
  cjStatus :: string
  cjLogsDigest :: string
  cjLogsExcerpt :: string
  cjArtifactDigests :: "string list"
  cjDurationMS :: int
  cjCostMillicents :: int
  cjClassification :: string
  cjResults :: "TestResults option"
  cjResultsDigest :: string

definition completionConsumer :: string where
  "completionConsumer = ''completion_ingest''"

definition mapFleetStatus :: "string \<Rightarrow> string" where
  "mapFleetStatus status = ToLower status"

definition dedupeKey :: "string \<Rightarrow> int \<Rightarrow> string" where
  "dedupeKey rid fenceToken = ''fleet:'' @ rid @ '':'' @ itoa fenceToken"

definition JTIBuilds :: "string \<Rightarrow> int \<Rightarrow> int \<Rightarrow> string" where
  "JTIBuilds rid attempt fence = ''fleet:'' @ rid @ '':'' @ itoa attempt @ '':'' @ itoa fence"

definition censusPayload :: "TestResults option \<Rightarrow> json" where
  "censusPayload r = (case r of None \<Rightarrow> JNull
     | Some t \<Rightarrow> JObj [(''total'', JInt (trTotal t)), (''passed'', JInt (trPassed t)), (''failed'', JInt (trFailed t)),
         (''skipped'', JInt (trSkipped t)), (''quarantined'', JInt (trQuarantined t))])"

definition evidenceCensusFromJob :: "CompletedJob \<Rightarrow> TestResults" where
  "evidenceCensusFromJob job = (case cjResults job of
     None \<Rightarrow> \<lparr>trTotal = 0, trPassed = 0, trFailed = 0, trSkipped = 0, trQuarantined = 0\<rparr> | Some t \<Rightarrow> t)"

definition toAnySlice :: "string list \<Rightarrow> json" where
  "toAnySlice xs = JArr (map JStr xs)"

text \<open>The run is advanced in memory, the event appended, and the projection updated with the fence token of the
  feed row. The result is the advanced run, which the callers go on to use, and the event's sequence number.\<close>

definition appendCompletedTx :: "EngineEnv \<Rightarrow> ValidationRun \<Rightarrow> CompletedJob \<Rightarrow> (ValidationRun \<times> int) tx" where
  "appendCompletedTx env run job =
    (case Run_Apply (envNow env) run (''run.'' @ mapFleetStatus (cjStatus job)) of
       Inl e \<Rightarrow> failT (EDomain e)
     | Inr run1 \<Rightarrow>
         bindT (emitT env ''scheduler'' (vrTenantID run1) (run_agg (vrID run1)) ''validation.completed'' (JObj
           [(''run_id'', JStr (vrID run1)), (''attempt'', JInt (cjAttempt job)), (''status'', JStr (cjStatus job)),
            (''logs_digest'', JStr (cjLogsDigest job)), (''artifact_digests'', toAnySlice (cjArtifactDigests job)),
            (''duration_ms'', JInt (cjDurationMS job)), (''actual_cost_millicents'', JInt (cjCostMillicents job)),
            (''results_census'', censusPayload (cjResults job)), (''candidate_id'', JStr (vrCandidateID run1))])) (\<lambda>seq.
         thenT (modifyDB (\<lambda>d. d\<lparr>dbRuns := update_rows (\<lambda>v. vrID v = vrID run1 \<and> vrTenantID v = vrTenantID run1 \<and> vrState v \<noteq> RunCancelled)
             (\<lambda>v. v\<lparr>vrState := vrState run1, vrFenceToken := cjFenceToken job, vrFinishedAt := Some (envNow env)\<rparr>) seq (dbRuns d)\<rparr>))
           (returnT (run1, seq))))"

subsection \<open>Rendering decisions (decide.go)\<close>

record renderRequest =
  rrqTenantID :: string
  rrqCandidateID :: string
  rrqPlanID :: string
  rrqVerb :: DecisionVerb
  rrqPolicy :: PolicyRef
  rrqSummary :: string
  rrqEvidenceRefs :: "string list"
  rrqInputsHash :: string

fun DecisionVerb_string :: "DecisionVerb \<Rightarrow> string" where
  "DecisionVerb_string VerbEligibleForMergeTrain = ''eligible_for_merge_train''"
| "DecisionVerb_string VerbRejected = ''rejected''"
| "DecisionVerb_string VerbDeferred = ''deferred''"

definition explanationFor :: "renderRequest \<Rightarrow> Explanation" where
  "explanationFor req = \<lparr>exSummary = rrqSummary req,
     exFactors = [\<lparr>efName = ''policy_id'', efValue = Inl (prPolicyID (rrqPolicy req)), efSource = ''resolved_policy''\<rparr>,
       \<lparr>efName = ''policy_version'', efValue = Inr (prVersion (rrqPolicy req)), efSource = ''resolved_policy''\<rparr>],
     exSkippedEvidence = []\<rparr>"

definition decisionConfidence :: "DecisionVerb \<Rightarrow> float64" where
  "decisionConfidence verb = (if verb = VerbDeferred then 6 / 10 else 95 / 100)"

definition explanation_json :: "Explanation \<Rightarrow> json" where
  "explanation_json ex = JObj ([(''summary'', JStr (exSummary ex)),
     (''factors'', JArr (map (\<lambda>f. JObj [(''name'', JStr (efName f)),
        (''value'', case efValue f of Inl s \<Rightarrow> JStr s | Inr i \<Rightarrow> JInt i), (''source'', JStr (efSource f))]) (exFactors ex)))] @
     (if exSkippedEvidence ex = [] then [] else [(''skipped_evidence'',
        JArr (map (\<lambda>k. JObj [(''kind'', JStr (skKind k)), (''reason'', JStr (skReason k))]) (exSkippedEvidence ex)))]))"

text \<open>\<^verbatim>\<open>toEngineCluster\<close>: the representative is taken out only where it stands first.\<close>

definition zero_member :: Member where
  "zero_member = \<lparr>mID = [], mChangedPaths = [], mChangedSymbols = [], mDependsOn = [], mPriority = 0, mCreatedSeq = 0\<rparr>"

definition toEngineCluster :: "ClusterSnapshot \<Rightarrow> ActiveCluster" where
  "toEngineCluster snap = foldl (\<lambda>active (i, m).
     if mID (mwMember m) = csnRepCandidateID snap \<and> i = (0::nat) then active\<lparr>acRep := mwMember m\<rparr>
     else active\<lparr>acMembers := acMembers active @ [m]\<rparr>)
     \<lparr>acID = csnID snap, acRepoID = csnRepo snap, acRep = zero_member, acMembers = []\<rparr>
     (List.enumerate 0 (csnMembers snap))"

definition live_states :: "CandidateState list" where
  "live_states = [CandSubmitted, CandPlanned, CandValidating, CandRepairing]"

definition supersedeOne :: "EngineEnv \<Rightarrow> DB \<Rightarrow> string \<Rightarrow> string \<Rightarrow> SupersedeDecision \<Rightarrow> unit tx" where
  "supersedeOne env pool tenantID winnerID d =
    (case GetCandidate pool tenantID (sdCandidateID d) of
       None \<Rightarrow> returnT ()
     | Some _ \<Rightarrow>
         bindT (emitT env ''scheduler'' tenantID \<lparr>agType = ''candidate'', agID = sdCandidateID d\<rparr> ''candidate.superseded'' (JObj
           [(''candidate_id'', JStr (sdCandidateID d)), (''by_candidate_id'', JStr winnerID),
            (''relation'', JStr ''duplicate_of''), (''reason'', JStr ''dominated_duplicate'')])) (\<lambda>seq.
         thenT (MarkCandidateStateTx tenantID (sdCandidateID d) CandSuperseded
             [CandSubmitted, CandPlanned, CandValidating, CandBlockedRepresentative, CandRepairing] seq)
         (bindT (CancelRunsForCandidateTx env tenantID (sdCandidateID d) ''superseded'') (\<lambda>cancelled.
         forT (\<lambda>rid. fleetCancel rid ''superseded'') cancelled))))"

definition propagateSupersession :: "EngineEnv \<Rightarrow> DB \<Rightarrow> string \<Rightarrow> string \<Rightarrow> unit tx" where
  "propagateSupersession env pool tenantID winnerID =
    (case ClusterForCandidate pool tenantID winnerID of
       Inl e \<Rightarrow> failT e
     | Inr None \<Rightarrow> returnT ()
     | Inr (Some snap) \<Rightarrow>
         forT (supersedeOne env pool tenantID winnerID) (SupersedeDecisions (toEngineCluster snap) EventEligible))"

definition maybeRevokeLease :: "EngineEnv \<Rightarrow> DB \<Rightarrow> string \<Rightarrow> string \<Rightarrow> unit tx" where
  "maybeRevokeLease env pool tenantID intentID = bindT getDB (\<lambda>db.
     if LiveCandidateCountByIntentTx db tenantID intentID > 0 then returnT ()
     else case LeaseForIntent pool tenantID intentID of
       [] \<Rightarrow> returnT ()
     | leaseID # _ \<Rightarrow> (case GetLease pool tenantID leaseID of
           None \<Rightarrow> failT (EDomain ErrNotFound)
         | Some lease \<Rightarrow> (case Lease_Apply (envNow env) lease ''lease.revoked'' of
               Inl _ \<Rightarrow> returnT ()
             | Inr lease1 \<Rightarrow> releaseLeaseTx env lease1 ''superseded'')))"

definition renderDecision :: "EngineEnv \<Rightarrow> DB \<Rightarrow> renderRequest \<Rightarrow> unit tx" where
  "renderDecision env pool req =
    (case GetCandidate pool (rrqTenantID req) (rrqCandidateID req) of
       None \<Rightarrow> failT (EDomain ErrNotFound)
     | Some cand \<Rightarrow>
         bindT (freshID env ''dec_'') (\<lambda>decisionID.
         let decision = \<lparr>decID = decisionID, decTenantID = rrqTenantID req, decSubjectType = SubjectCandidate,
               decSubjectID = rrqCandidateID req, decVerb = rrqVerb req, decConfidence = decisionConfidence (rrqVerb req),
               decPolicy = rrqPolicy req, decExplanation = explanationFor req, decEvidenceRefs = rrqEvidenceRefs req,
               decInputsHash = rrqInputsHash req, decCausationID = [], decRenderedAt = envNow env\<rparr> in
         bindT (emitT env ''scheduler'' (rrqTenantID req) \<lparr>agType = ''decision'', agID = decisionID\<rparr> ''decision.rendered'' (JObj
           [(''decision_id'', JStr decisionID),
            (''subject'', JObj [(''type'', JStr ''candidate''), (''id'', JStr (rrqCandidateID req))]),
            (''verb'', JStr (DecisionVerb_string (rrqVerb req))), (''confidence'', JNum (decConfidence decision)),
            (''policy'', JObj [(''policy_id'', JStr (prPolicyID (rrqPolicy req))), (''policy_version'', JInt (prVersion (rrqPolicy req)))]),
            (''explanation'', explanation_json (decExplanation decision)),
            (''evidence_refs'', toAnySlice (rrqEvidenceRefs req)), (''inputs_hash'', JStr (rrqInputsHash req))])) (\<lambda>seq.
         thenT (InsertDecisionTx decision seq)
         (thenT
           (case rrqVerb req of
              VerbEligibleForMergeTrain \<Rightarrow>
                thenT (MarkPlanSatisfiedTx (rrqTenantID req) (rrqPlanID req) seq)
                (thenT (MarkCandidateStateTx (rrqTenantID req) (rrqCandidateID req) CandEligible live_states seq)
                (propagateSupersession env pool (rrqTenantID req) (cID cand)))
            | VerbRejected \<Rightarrow> MarkCandidateStateTx (rrqTenantID req) (rrqCandidateID req) CandRejected live_states seq
            | VerbDeferred \<Rightarrow> returnT ())
         (maybeRevokeLease env pool (rrqTenantID req) (cIntentID cand))))))"

subsection \<open>Succeeded runs (effects.go)\<close>

definition jobSelectionConfidence :: "ValidationPlan \<Rightarrow> float64" where
  "jobSelectionConfidence plan = foldl (\<lambda>conf t. case tSelectionConfidence t of None \<Rightarrow> conf
     | Some c \<Rightarrow> if c > conf then c else conf) (9 / 10) (vpTiers plan)"

definition maybeRenderEligible :: "EngineEnv \<Rightarrow> DB \<Rightarrow> string \<Rightarrow> string \<Rightarrow> ValidationPlan \<Rightarrow> EvidenceRef option \<Rightarrow> unit tx" where
  "maybeRenderEligible env pool tenantID candidateID plan extra = bindT getDB (\<lambda>db.
    if LatestDecisionForCandidateTx db tenantID candidateID \<noteq> None then returnT ()
    else let failedRequired = CountFailedRequiredRunsTx db tenantID candidateID (vpRequiredEvidenceKinds plan);
             blocked = (case CandidateStateByID db tenantID candidateID of
               None \<Rightarrow> failedRequired > 0 | Some candState \<Rightarrow> eligibilityBlockReason candState failedRequired \<noteq> []) in
      if blocked then returnT ()
      else let accepted = AcceptedEvidenceRefsForCandidateTx db tenantID candidateID @ (case extra of None \<Rightarrow> [] | Some r \<Rightarrow> [r]) in
        if evidenceSufficiency (vpRequiredEvidenceKinds plan) accepted < 1 then returnT ()
        else renderDecision env pool \<lparr>rrqTenantID = tenantID, rrqCandidateID = candidateID, rrqPlanID = vpID plan,
          rrqVerb = VerbEligibleForMergeTrain, rrqPolicy = vpPolicy plan, rrqSummary = ''all required evidence kinds accepted'',
          rrqEvidenceRefs = map refID accepted, rrqInputsHash = vpInputsHash plan\<rparr>)"

definition auditEvidenceTamperTx :: "ValidationRun \<Rightarrow> string \<Rightarrow> Evaluation \<Rightarrow> unit tx" where
  "auditEvidenceTamperTx run kind outcome =
    (if evalAction outcome = ActionQuarantine \<or> evalReason outcome = ReasonProvenanceMismatch
     then InsertSecurityAuditTx \<lparr>adTenantID = vrTenantID run, adKind = ''evidence_tamper'',
       adActor = \<lparr>actKind = ''service'', actID = ''scheduler''\<rparr>,
       adSubject = JObj [(''run_id'', JStr (vrID run)), (''candidate_id'', JStr (vrCandidateID run)), (''kind'', JStr kind)],
       adDetail = JObj [(''action'', JStr (if evalAction outcome = ActionQuarantine then ''quarantine'' else ''reject'')),
         (''reason'', JStr (evalReason outcome))]\<rparr>
     else returnT ())"

definition evidence_payload :: "EvidenceRecord \<Rightarrow> (string \<times> int) list \<Rightarrow> json" where
  "evidence_payload rec outcomeMeta = JObj ([(''ev_id'', JStr (evID rec)), (''run_id'', JStr (evRunID rec)),
     (''candidate_id'', JStr (evCandidateID rec)), (''kind'', JStr (evKind rec)), (''verdict'', JStr (evVerdict rec)),
     (''digests'', toAnySlice (evDigests rec)), (''inputs_hash'', JStr (evInputsHash rec)),
     (''confidence'', JNum (evConfidence rec)), (''cost_millicents'', JInt (evCostMillicents rec))] @
     (if outcomeMeta = [] then [] else [(''outcome_meta'', JObj (map (\<lambda>(k, n). (k, JStr (itoa n))) outcomeMeta))]))"

definition onRunSucceeded :: "EngineEnv \<Rightarrow> DB \<Rightarrow> ValidationRun \<Rightarrow> CompletedJob \<Rightarrow> unit tx" where
  "onRunSucceeded env pool run job =
    (case ActivePlanForCandidate pool (vrTenantID run) (vrCandidateID run) of
       None \<Rightarrow> failT (EPermanent ErrNotFound)
     | Some plan \<Rightarrow>
         let kind = jsKind (vrJobSpec run) in
         if kind \<notin> set (vpRequiredEvidenceKinds plan)
         then maybeRenderEligible env pool (vrTenantID run) (vrCandidateID run) plan None
         else let leaseJTI = JTIBuilds (vrID run) (vrAttempt run) (cjFenceToken job);
                  prior = AcceptedEvidenceForRun pool (vrTenantID run) (vrID run) in
           bindT (freshID env ''ev_'') (\<lambda>ident.
           let rec = NewEvidenceRecord ident (vrTenantID run) (vrID run) (vrAttempt run) (vrCandidateID run) kind
                 ''pass'' (cjArtifactDigests job) (vpInputsHash plan) (jobSelectionConfidence plan) (cjCostMillicents job)
                 leaseJTI (envNow env);
               outcome = evidenceEvaluate rec (evidenceContext plan leaseJTI prior) (Some (evidenceCensusFromJob job)) in
           if evalAction outcome \<noteq> ActionAccept
           then thenT (auditEvidenceTamperTx run kind outcome)
                  (maybeRenderEligible env pool (vrTenantID run) (vrCandidateID run) plan None)
           else bindT (emitT env ''scheduler'' (vrTenantID run) \<lparr>agType = ''evidence'', agID = ident\<rparr> ''evidence.recorded''
                   (evidence_payload rec (evalMeta outcome))) (\<lambda>seq.
                thenT (InsertEvidenceTx env (rec\<lparr>evStatus := EvidenceAccepted\<rparr>) seq)
                  (maybeRenderEligible env pool (vrTenantID run) (vrCandidateID run) plan
                     (Some \<lparr>refID = ident, refKind = kind, refAttempt = 0\<rparr>)))))"

subsection \<open>Failed runs (failures\_route.go)\<close>

definition deferReq :: "ValidationRun \<Rightarrow> renderRequest" where
  "deferReq run = \<lparr>rrqTenantID = vrTenantID run, rrqCandidateID = vrCandidateID run, rrqPlanID = [], rrqVerb = VerbDeferred,
     rrqPolicy = \<lparr>prPolicyID = [], prVersion = 0\<rparr>, rrqSummary = [], rrqEvidenceRefs = [], rrqInputsHash = []\<rparr>"

definition deferCandidate :: "EngineEnv \<Rightarrow> DB \<Rightarrow> renderRequest \<Rightarrow> string \<Rightarrow> unit tx" where
  "deferCandidate env pool req reason =
    (let req1 = req\<lparr>rrqVerb := VerbDeferred, rrqSummary := reason\<rparr> in
     renderDecision env pool (if prPolicyID (rrqPolicy req1) = [] then req1\<lparr>rrqPolicy := drRef DefaultPolicy\<rparr> else req1))"

definition rejectCandidate :: "EngineEnv \<Rightarrow> DB \<Rightarrow> ValidationRun \<Rightarrow> string \<Rightarrow> unit tx" where
  "rejectCandidate env pool run reason =
     renderDecision env pool \<lparr>rrqTenantID = vrTenantID run, rrqCandidateID = vrCandidateID run, rrqPlanID = [], rrqVerb = VerbRejected,
       rrqPolicy = drRef DefaultPolicy, rrqSummary = reason, rrqEvidenceRefs = [], rrqInputsHash = []\<rparr>"

definition retryRun :: "EngineEnv \<Rightarrow> ValidationRun \<Rightarrow> unit tx" where
  "retryRun env run0 =
    (case Run_Apply (envNow env) run0 ''run.retry'' of
       Inl e \<Rightarrow> failT (EDomain e)
     | Inr run \<Rightarrow>
         bindT (emitT env ''scheduler'' (vrTenantID run) (run_agg (vrID run)) ''validation.requested'' (JObj
           [(''run_id'', JStr (vrID run)), (''plan_id'', JStr (vrPlanID run)), (''candidate_id'', JStr (vrCandidateID run)),
            (''tier'', JInt (vrTier run)), (''est_duration_ms'', JInt (vrEstDurationMS run)),
            (''est_cost_millicents'', JInt (vrEstCostMillicents run)), (''priority'', JNum (vrPriority run)),
            (''cancellation_conditions'', JObj []), (''pool'', JStr (vrPool run))])) (\<lambda>seq.
         modifyDB (\<lambda>d. d\<lparr>dbRuns := update_rows (\<lambda>v. vrID v = vrID run \<and> vrTenantID v = vrTenantID run)
           (\<lambda>v. v\<lparr>vrState := RunQueued, vrAttempt := vrAttempt run, vrFenceToken := vrFenceToken run, vrFinishedAt := None\<rparr>) seq (dbRuns d)\<rparr>)))"

definition engineResolvedPolicy :: ResolvedPolicy where
  "engineResolvedPolicy = \<lparr>rpPolicyID = recID DefaultPolicyPack, rpVersion = recVersion DefaultPolicyPack, rpBody = recBody DefaultPolicyPack\<rparr>"

definition authorizeRepairOrDefer :: "EngineEnv \<Rightarrow> DB \<Rightarrow> ValidationRun \<Rightarrow> ClassifiedFailure \<Rightarrow> string \<Rightarrow> Intent \<Rightarrow> unit tx" where
  "authorizeRepairOrDefer env pool run fc fcIdent intent =
    (let resolvedPolicy = (case Resolve \<lparr>sRepo = dRepo (Declared intent), sChangedPaths = OwnedSurfaces (Declared intent),
            sRiskClass = RiskClass_string (dRiskClass (Declared intent)), sActor = []\<rparr> (Some DefaultRegistry) of
          Inr r \<Rightarrow> r | Inl _ \<Rightarrow> engineResolvedPolicy);
         prohibited = ProtectedPaths (pbLadderOverrides (rpBody resolvedPolicy));
         auth = AuthorizeRepair fc resolvedPolicy \<lparr>IntentOwnedSurfaces = OwnedSurfaces (Declared intent), rctxProhibitedPaths = prohibited,
            rctxRiskClass = RiskClass_string (dRiskClass (Declared intent)), rctxFailedAssertion = []\<rparr> in
     if \<not> raAuthorized auth then deferCandidate env pool (deferReq run) (''repair denied: '' @ raDenyReason auth)
     else bindT (freshID env ''repair_'') (\<lambda>repairID.
       let en = raEnvelope auth in
       bindT (emitT env ''scheduler'' (vrTenantID run) \<lparr>agType = ''repair_task'', agID = repairID\<rparr> ''repair.authorized'' (JObj
         [(''repair_id'', JStr repairID), (''envelope'', JObj [(''reproduction_command'', JStr (reReproductionCommand en)),
            (''allowed_paths'', toAnySlice (reAllowedPaths en)), (''prohibited_paths'', toAnySlice (reProhibitedPaths en)),
            (''max_iterations'', JInt (reMaxIterations en))])])) (\<lambda>seq.
       thenT (InsertRepairTaskTx \<lparr>rtID = repairID, rtTenantID = vrTenantID run, rtFailureCaseID = fcIdent, rtCandidateID = vrCandidateID run,
           rtState = RepairAuthorized, rtEnvelope = en\<lparr>reSuspectedDiffHunks := [], reRequiredEvidenceAfterRepair := []\<rparr>,
           AttemptsUsed = 0, ResultingPatchRefs = [], rtCreatedAt = envNow env\<rparr> seq)
       (MarkCandidateStateTx (vrTenantID run) (vrCandidateID run) CandRepairing [CandSubmitted, CandPlanned, CandValidating] seq))))"

definition intentIDForCandidate :: "DB \<Rightarrow> string \<Rightarrow> string \<Rightarrow> string" where
  "intentIDForCandidate db tenantID candidateID = (case GetCandidate db tenantID candidateID of None \<Rightarrow> [] | Some c \<Rightarrow> cIntentID c)"

definition onRunFailed :: "EngineEnv \<Rightarrow> DB \<Rightarrow> ValidationRun \<Rightarrow> CompletedJob \<Rightarrow> unit tx" where
  "onRunFailed env pool run job =
    (let fc = Classify (crSHA256 (envCrypto env)) (envScan env) (envRedact env (cjLogsExcerpt job))
                \<lparr>KnownFlakes = [], CorroboratedReruns = 0, DistinctEnvironments = 0\<rparr> in
     case GetIntent pool (vrTenantID run) (intentIDForCandidate pool (vrTenantID run) (vrCandidateID run)) of
       None \<Rightarrow> failT (EPermanent ErrNotFound)
     | Some intent \<Rightarrow>
         bindT (freshID env ''fc_'') (\<lambda>fcIdent.
         bindT (emitT env ''scheduler'' (vrTenantID run) \<lparr>agType = ''failure_case'', agID = fcIdent\<rparr> ''failure.classified'' (JObj
           [(''fc_id'', JStr fcIdent), (''run_id'', JStr (vrID run)), (''classification'', JStr (cfClassification fc)),
            (''confidence'', JNum (cfConfidence fc)), (''signature_digest'', JStr (cfSignatureDigest fc)),
            (''suspected_paths'', toAnySlice (cfSuspectedPaths fc)), (''reproduction_command'', JStr (cfReproductionCommand fc))])) (\<lambda>seq.
         let routedAction = routeFailure fc in
         thenT (InsertFailureCaseTx \<lparr>frID = fcIdent, frTenantID = vrTenantID run, frCandidateID = vrCandidateID run, frRunID = vrID run,
             frSignature = cfSignatureDigest fc, frClassification = cfClassification fc, frConfidence = cfConfidence fc,
             frReproductionCommand = cfReproductionCommand fc, frSuspectedPaths = cfSuspectedPaths fc,
             frRoutedAction = routedAction, frState = ''classified''\<rparr> seq)
         (if cfClassification fc = ClassInfraTransient_s \<and> vrAttempt run < envMaxRetry env then retryRun env run
          else if routedAction = ''reject'' then rejectCandidate env pool run ''security or policy violation never auto-waived''
          else if routedAction = ''quarantine_flake'' then deferCandidate env pool (deferReq run) ''flake quarantined; human triage pending''
          else if routedAction = ''repair'' then authorizeRepairOrDefer env pool run fc fcIdent intent
          else deferCandidate env pool (deferReq run) ''failure class awaiting escalation''))))"

subsection \<open>Completions (completions.go, completions\_poison.go, audit.go)\<close>

definition absorbCompletionRow :: "string \<Rightarrow> unit tx" where
  "absorbCompletionRow key = withTx (thenT (MarkProcessedTx completionConsumer key) (ClearFeedRetriesTx completionConsumer [key]))"

definition recordPoisonAttempt :: "string \<Rightarrow> int tx" where
  "recordPoisonAttempt key = withTx (RecordFeedFailureTx completionConsumer key)"

fun RunState_string :: "RunState \<Rightarrow> string" where
  "RunState_string RunQueued = ''queued''"
| "RunState_string RunDispatched = ''dispatched''"
| "RunState_string RunRunning = ''running''"
| "RunState_string RunSucceeded = ''succeeded''"
| "RunState_string RunFailed = ''failed''"
| "RunState_string RunTimedOut = ''timed_out''"
| "RunState_string RunCancelled = ''cancelled''"

definition absorbStaleCompletion :: "ValidationRun \<Rightarrow> CompletedJob \<Rightarrow> unit tx" where
  "absorbStaleCompletion run job =
    (let key = dedupeKey (cjRunID job) (cjFenceToken job) in
     withTx (thenT (MarkProcessedTx completionConsumer key)
      (thenT (InsertSecurityAuditTx \<lparr>adTenantID = vrTenantID run, adKind = ''fence_mismatch'',
         adActor = \<lparr>actKind = ''service'', actID = ''scheduler''\<rparr>,
         adSubject = JObj [(''run_id'', JStr (vrID run)), (''candidate_id'', JStr (vrCandidateID run))],
         adDetail = JObj [(''attempt'', JInt (cjAttempt job)), (''presented_fence'', JInt (cjFenceToken job)),
           (''expected_fence'', JInt (vrFenceToken run)), (''run_state'', JStr (RunState_string (vrState run))),
           (''rejection'', JStr ''stale_fence_token'')]\<rparr>)
       (ClearFeedRetriesTx completionConsumer [key]))))"

text \<open>The effect transaction of one completion; the result says whether effects were applied.\<close>

definition completionTx :: "EngineEnv \<Rightarrow> DB \<Rightarrow> ValidationRun \<Rightarrow> CompletedJob \<Rightarrow> bool tx" where
  "completionTx env pool run job =
    (let key = dedupeKey (cjRunID job) (cjFenceToken job) in
     bindT (MarkProcessedTx completionConsumer key) (\<lambda>first.
     if \<not> first then returnT False
     else bindT (appendCompletedTx env run job) (\<lambda>(run1, seq).
       thenT (ReleaseBudgetsTx (vrTenantID run1) seq [(BudgetCPUMinutes, ActualCPUMinutes (cjDurationMS job) (vrEstDurationMS run1)),
           (BudgetConcurrentCandidates, 1)])
       (thenT (if cjStatus job = ''succeeded'' then onRunSucceeded env pool run1 job
               else if cjStatus job = ''failed'' \<or> cjStatus job = ''timed_out'' then onRunFailed env pool run1 job
               else returnT ())
       (thenT (ClearFeedRetriesTx completionConsumer [key]) (returnT True))))))"

definition applyCompletion :: "EngineEnv \<Rightarrow> CompletedJob \<Rightarrow> bool tx" where
  "applyCompletion env job = bindT getDB (\<lambda>db.
     case GetRunByID db (cjRunID job) of
       None \<Rightarrow> thenT (absorbCompletionRow (dedupeKey (cjRunID job) (cjFenceToken job))) (returnT False)
     | Some run \<Rightarrow>
         if cjFenceToken job \<noteq> vrFenceToken run \<or> cjAttempt job \<noteq> vrAttempt run
         then thenT (absorbStaleCompletion run job) (returnT False)
         else if (case CandidateStateByID db (vrTenantID run) (vrCandidateID run) of
                    Some candState \<Rightarrow> completionIsDiagnostic (vrState run) candState
                  | None \<Rightarrow> vrState run \<notin> {RunDispatched, RunRunning})
         then thenT (withTx (MarkProcessedTx completionConsumer (dedupeKey (cjRunID job) (cjFenceToken job)))) (returnT False)
         else withTx (completionTx env db run job))"

text \<open>The body of the feed loop for one row that the pre-check has not skipped; the result is how many
  completions it consumed.\<close>

definition ingestOne :: "EngineEnv \<Rightarrow> CompletedJob \<Rightarrow> int tx" where
  "ingestOne env job w =
    (let key = dedupeKey (cjRunID job) (cjFenceToken job) in
     case applyCompletion env job w of
       (Inr applied, w1) \<Rightarrow> (Inr (if applied then 1 else 0), w1)
     | (Inl (EPermanent e), w1) \<Rightarrow> thenT (absorbCompletionRow key) (returnT 0) w1
     | (Inl e, w1) \<Rightarrow> bindT (recordPoisonAttempt key) (\<lambda>attempts.
         if attempts \<ge> MaxFeedAttempts then thenT (absorbCompletionRow key) (returnT 0) else returnT 0) w1)"

fun ingest_loop :: "EngineEnv \<Rightarrow> (string \<Rightarrow> bool) \<Rightarrow> int \<Rightarrow> CompletedJob list \<Rightarrow> int tx" where
  "ingest_loop env doneKeys consumed [] = returnT consumed"
| "ingest_loop env doneKeys consumed (job # jobs) =
    (if doneKeys (dedupeKey (cjRunID job) (cjFenceToken job)) then ingest_loop env doneKeys consumed jobs
     else bindT (ingestOne env job) (\<lambda>n. ingest_loop env doneKeys (consumed + n) jobs))"

definition IngestCompletions :: "EngineEnv \<Rightarrow> CompletedJob list \<Rightarrow> int tx" where
  "IngestCompletions env jobs = bindT getDB (\<lambda>db.
     ingest_loop env (ProcessedKeys db completionConsumer (map (\<lambda>job. dedupeKey (cjRunID job) (cjFenceToken job)) jobs)) 0 jobs)"

subsection \<open>Dispatch (dispatch.go)\<close>

record BudgetReservation =
  bvCPUMinutes :: int
  bvConcurrentCandidates :: int

definition Audience :: string where
  "Audience = ''cisync-fleet''"

definition Mint :: "(JobLeaseClaims \<Rightarrow> string) \<Rightarrow> JobLeaseClaims \<Rightarrow> EngErr + string" where
  "Mint signCompact claims =
    (if jlExpiresAt claims - jlIssuedAt claims > 3600 then Inl EMint
     else if jlAudience claims \<noteq> Audience then Inl EMint
     else if jlID claims \<noteq> JTIBuilds (jlRunID claims) (jlAttempt claims) (jlFenceToken claims) then Inl EMint
     else Inr (signCompact claims))"

definition mintJobLease :: "EngineEnv \<Rightarrow> (JobLeaseClaims \<Rightarrow> string) \<Rightarrow> ValidationRun \<Rightarrow> EngErr + string" where
  "mintJobLease env signCompact run =
     Mint signCompact \<lparr>jlAudience = Audience, jlID = JTIBuilds (vrID run) (vrAttempt run) (vrFenceToken run), jlRunID = vrID run,
       jlAttempt = vrAttempt run, jlFenceToken = vrFenceToken run, jlRepo = jsRepo (vrJobSpec run), jlTier = vrTier run,
       jlIssuedAt = envNow env div 1000000000, jlExpiresAt = (envNow env + 3600000000000) div 1000000000\<rparr>"

definition relayEnqueueRequest :: "ValidationRun \<Rightarrow> string \<Rightarrow> EnqueueRequest" where
  "relayEnqueueRequest run leaseToken = \<lparr>eqRunID = vrID run, eqAttempt = vrAttempt run, eqTier = vrTier run, eqPool = vrPool run,
     eqJobSpec = vrJobSpec run, eqLeaseToken = leaseToken\<rparr>"

definition dispatchOne :: "EngineEnv \<Rightarrow> string \<Rightarrow> BudgetReservation \<Rightarrow> int tx" where
  "dispatchOne env rid reservation = bindT getDB (\<lambda>db.
     case GetRunByID db rid of
       None \<Rightarrow> failT (EDomain ErrNotFound)
     | Some run0 \<Rightarrow>
         if vrState run0 \<noteq> RunQueued then returnT 0
         else case envLeaseSigner env of
           None \<Rightarrow> failT ENoLeaseSigner
         | Some signCompact \<Rightarrow>
             let ref = envMaterialize env run0;
                 run1 = (if ref \<noteq> [] then run0\<lparr>vrJobSpec := (vrJobSpec run0)\<lparr>jsPreFetchedBundleRef := ref\<rparr>\<rparr> else run0);
                 run = run1\<lparr>vrFenceToken := 1\<rparr>;
                 perTenantHour = PerTenantHour (pbBudgets (rpBody (envPolicy env))) in
             bindT (liftT (mintJobLease env signCompact run)) (\<lambda>leaseToken.
             if \<not> envEnqueue env (relayEnqueueRequest run leaseToken) then failT EFleet
             else thenT (withTx (bindT (DispatchRunTx env run) (\<lambda>seq.
               ReserveBudgetsTx env (vrTenantID run) seq
                 [(BudgetCPUMinutes, bvCPUMinutes reservation), (BudgetConcurrentCandidates, bvConcurrentCandidates reservation)]
                 [BudgetCPUMinutes \<mapsto> thCPUMinutes perTenantHour,
                  BudgetConcurrentCandidates \<mapsto> thConcurrentCandidates perTenantHour]))) (returnT 1)))"

definition auditBudgetAdmissionDenied :: "string \<Rightarrow> Admission \<Rightarrow> unit tx" where
  "auditBudgetAdmissionDenied tenantID adm w =
    (if DenyReason adm \<notin> {DenyTenantCPU, DenyTenantConc} then returnT () w
     else if admRunID adm \<in> set (wDenied w) then returnT () w
     else InsertSecurityAuditTx \<lparr>adTenantID = tenantID, adKind = ''budget_exceeded'',
       adActor = \<lparr>actKind = ''service'', actID = ''scheduler''\<rparr>,
       adSubject = JObj [(''run_id'', JStr (admRunID adm)), (''candidate_id'', JStr (admCandidateID adm))],
       adDetail = JObj [(''deny_reason'', JStr (DenyReason adm)), (''scope'', JStr ''admission_denied'')]\<rparr>
       (w\<lparr>wDenied := wDenied w @ [admRunID adm]\<rparr>))"

definition auditDispatchReserveExhausted :: "string \<Rightarrow> string \<Rightarrow> EngErr \<Rightarrow> unit tx" where
  "auditDispatchReserveExhausted rid tenantID cause =
    (if cause \<noteq> EBudgetExhausted then returnT ()
     else InsertSecurityAuditTx \<lparr>adTenantID = tenantID, adKind = ''budget_exceeded'',
       adActor = \<lparr>actKind = ''service'', actID = ''scheduler''\<rparr>,
       adSubject = JObj [(''run_id'', JStr rid)],
       adDetail = JObj [(''reason'', JStr ''budget limit exceeded''), (''scope'', JStr ''dispatch_reserve'')]\<rparr>)"

definition tryDispatch :: "EngineEnv \<Rightarrow> string \<Rightarrow> string \<Rightarrow> BudgetReservation \<Rightarrow> int tx" where
  "tryDispatch env rid tenantID reservation w =
    (case dispatchOne env rid reservation w of
       (Inr n, w1) \<Rightarrow> (Inr n, w1)
     | (Inl e, w1) \<Rightarrow> thenT (auditDispatchReserveExhausted rid tenantID e) (returnT 0) w1)"

definition admission_for :: "Admission list \<Rightarrow> string \<Rightarrow> Admission option" where
  "admission_for adms rid = map_of (rev (map (\<lambda>a. (admRunID a, a)) (filter Admitted adms))) rid"

fun dispatch_loop :: "EngineEnv \<Rightarrow> Admission list \<Rightarrow> int \<Rightarrow> QueuedRun list \<Rightarrow> int tx" where
  "dispatch_loop env adms dispatched [] = returnT dispatched"
| "dispatch_loop env adms dispatched (q # qs) =
    (case admission_for adms (qrID q) of
       None \<Rightarrow> dispatch_loop env adms dispatched qs
     | Some a \<Rightarrow> bindT (tryDispatch env (qrID q) (qrTenantID q)
           \<lparr>bvCPUMinutes = ReservedCPU a, bvConcurrentCandidates = ReservedConcurrent a\<rparr>) (\<lambda>n.
         dispatch_loop env adms (dispatched + n) qs))"

definition tenant_of :: "QueuedRun list \<Rightarrow> string \<Rightarrow> string" where
  "tenant_of queued rid = (case map_of (rev (map (\<lambda>q. (qrID q, qrTenantID q)) queued)) rid of None \<Rightarrow> [] | Some t \<Rightarrow> t)"

definition dispatchQueued :: "EngineEnv \<Rightarrow> int tx" where
  "dispatchQueued env = bindT getDB (\<lambda>db.
     let queued = QueuedRuns db (envBatch env * 4) in
     if queued = [] then returnT 0
     else bindT (BudgetUsageSnapshot env (tenantsOf queued)) (\<lambda>usage.
       let budgets = remainingBudgets (PerTenantHour (pbBudgets (rpBody (envPolicy env)))) usage (tenantsOf queued);
           adms = Admissions (Admit (rankBatch (envNow env) queued) (capsFromPolicy (envWIPRange env)) (InFlightByTier db) budgets) in
       thenT (forT (\<lambda>a. auditBudgetAdmissionDenied (tenant_of queued (admRunID a)) a) (filter (\<lambda>a. \<not> Admitted a) adms))
         (if filter Admitted adms = [] then returnT 0 else dispatch_loop env adms 0 queued)))"

text \<open>One tick: \<open>jobs\<close> is what the fleet's feed returns (at most 50 rows).\<close>

definition Tick :: "EngineEnv \<Rightarrow> CompletedJob list \<Rightarrow> int tx" where
  "Tick env jobs = bindT (dispatchQueued env) (\<lambda>dispatched. thenT (IngestCompletions env jobs) (returnT dispatched))"

subsection \<open>Frames of the engine\<close>

text \<open>
  \<open>effect_frame\<close> covers the operations that write neither evidence nor decisions,
  \<open>engine_frame\<close> the whole engine: whatever relation on databases the individual writes satisfy holds across
  completions, ticks and reconciliation, on success and on error.
\<close>

locale effect_frame = db_frame +
  assumes w_plans: "Q db (db\<lparr>dbPlans := update_rows Pp fp seq (dbPlans db)\<rparr>)"
    and w_failures: "Q db (db\<lparr>dbFailures := dbFailures db @ [fr]\<rparr>)"
    and w_repairs: "Q db (db\<lparr>dbRepairs := dbRepairs db @ [rr]\<rparr>)"
begin

lemma r_append_completed: "keeps Q (appendCompletedTx env run job)"
  unfolding appendCompletedTx_def
  by (cases "Run_Apply (envNow env) run (''run.'' @ mapFleetStatus (cjStatus job))")
     (auto intro!: r_rules r_emit r_modify w_runs)

lemma r_plan_satisfied: "keeps Q (MarkPlanSatisfiedTx tenantID planID seq)"
  unfolding MarkPlanSatisfiedTx_def by (intro r_modify w_plans)

lemma r_supersede_one: "keeps Q (supersedeOne env pool tenantID winnerID d)"
  unfolding supersedeOne_def
  by (cases "GetCandidate pool tenantID (sdCandidateID d)")
     (auto intro!: r_rules r_emit r_mark_candidate r_cancel_runs simp: CandidateState_Terminal_def)

lemma r_propagate: "keeps Q (propagateSupersession env pool tenantID winnerID)"
  unfolding propagateSupersession_def
  by (auto intro!: r_rules r_supersede_one split: sum.split option.split)

lemma r_revoke: "keeps Q (maybeRevokeLease env pool tenantID intentID)"
  unfolding maybeRevokeLease_def
  by (auto intro!: r_rules r_release_lease split: list.split option.split sum.split)

lemma r_retry: "keeps Q (retryRun env run)"
  unfolding retryRun_def by (auto intro!: r_rules r_emit r_modify w_runs split: sum.split)

lemma r_failure_case: "keeps Q (InsertFailureCaseTx row seq)"
  unfolding InsertFailureCaseTx_def by (intro r_rules r_modify w_failures)

lemma r_repair_task: "keeps Q (InsertRepairTaskTx task seq)"
  unfolding InsertRepairTaskTx_def by (intro r_rules r_modify w_repairs)

lemma r_tamper: "keeps Q (auditEvidenceTamperTx run kind outcome)"
  unfolding auditEvidenceTamperTx_def by (intro r_rules r_audit)

lemma r_live_states: "keeps Q (MarkCandidateStateTx tenantID candidateID st live_states seq)"
  by (rule r_mark_candidate) (simp add: live_states_def CandidateState_Terminal_def)

lemma r_absorb: "keeps Q (absorbCompletionRow key)"
  unfolding absorbCompletionRow_def by (intro r_rules r_mark r_clear)

lemma r_poison: "keeps Q (recordPoisonAttempt key)"
  unfolding recordPoisonAttempt_def by (intro r_rules r_record_failure)

lemma r_absorb_stale: "keeps Q (absorbStaleCompletion run job)"
  unfolding absorbStaleCompletion_def Let_def by (intro r_rules r_mark r_audit r_clear)

lemma r_dispatch_one: "keeps Q (dispatchOne env rid reservation)"
  unfolding dispatchOne_def Let_def
  by (auto intro!: r_rules r_dispatch_run r_reserve split: option.split)

lemma r_try_dispatch: "keeps Q (tryDispatch env rid tenantID reservation)"
proof -
  have aud: "keeps Q (thenT (auditDispatchReserveExhausted rid tenantID e) (returnT 0))" for e
    unfolding auditDispatchReserveExhausted_def by (intro r_rules r_audit)
  show ?thesis
    unfolding keeps_def
  proof
    fix w
    have "Q (wDB w) (wDB (snd (dispatchOne env rid reservation w)))"
      using r_dispatch_one by (simp add: keeps_def)
    then show "Q (wDB w) (wDB (snd (tryDispatch env rid tenantID reservation w)))"
      using aud by (auto simp: tryDispatch_def keeps_def case_prod_beta split: sum.split intro: trans_Q)
  qed
qed

lemma r_audit_denied: "keeps Q (auditBudgetAdmissionDenied tenantID adm)"
  unfolding keeps_def
proof
  fix w
  have "Q (wDB w) (wDB (snd (InsertSecurityAuditTx a (w\<lparr>wDenied := ds\<rparr>))))" for a ds
    using w_audit [of "wDB w"] by (simp add: InsertSecurityAuditTx_def modifyDB_def)
  then show "Q (wDB w) (wDB (snd (auditBudgetAdmissionDenied tenantID adm w)))"
    by (simp add: auditBudgetAdmissionDenied_def returnT_def refl_Q)
qed

lemma r_dispatch_loop: "keeps Q (dispatch_loop env adms n qs)"
  by (induction qs arbitrary: n) (auto intro!: r_rules r_try_dispatch split: option.split)

lemma r_dispatch_queued: "keeps Q (dispatchQueued env)"
  unfolding dispatchQueued_def Let_def
  by (intro r_rules r_snapshot r_audit_denied r_dispatch_loop)

end

text \<open>With decisions other than eligible admissible, the paths of failed runs follow.\<close>

locale decision_frame = effect_frame +
  assumes w_not_eligible: "decVerb (rowVal dr) \<noteq> VerbEligibleForMergeTrain \<Longrightarrow> Q db (db\<lparr>dbDecisions := dbDecisions db @ [dr]\<rparr>)"
begin

lemma r_insert_decision: "decVerb d \<noteq> VerbEligibleForMergeTrain \<Longrightarrow> keeps Q (InsertDecisionTx d seq)"
  unfolding InsertDecisionTx_def by (intro r_rules r_modify w_not_eligible) simp

lemma r_render: "rrqVerb req \<noteq> VerbEligibleForMergeTrain \<Longrightarrow> keeps Q (renderDecision env pool req)"
  unfolding renderDecision_def Let_def
  by (auto intro!: r_rules r_emit r_insert_decision r_live_states r_revoke split: option.split DecisionVerb.split)

lemma r_defer: "keeps Q (deferCandidate env pool req reason)"
  unfolding deferCandidate_def Let_def by (rule r_render) simp

lemma r_authorize: "keeps Q (authorizeRepairOrDefer env pool run fc fcIdent intent)"
  unfolding authorizeRepairOrDefer_def Let_def
  by (intro r_rules r_defer r_emit r_repair_task r_mark_candidate) (auto simp: CandidateState_Terminal_def)

lemma r_failed: "keeps Q (onRunFailed env pool run job)"
proof -
  have reject: "keeps Q (rejectCandidate env pool run reason)" for reason
    unfolding rejectCandidate_def by (rule r_render) simp
  show ?thesis
    unfolding onRunFailed_def Let_def
    by (auto intro!: r_rules r_emit r_failure_case r_retry reject r_defer r_authorize split: option.split)
qed

end

locale engine_frame = decision_frame +
  assumes w_evidence: "Q db (db\<lparr>dbEvidence := dbEvidence db @ [er]\<rparr>)"
    and r_maybe_render: "keeps Q (maybeRenderEligible env pool tenantID candidateID plan extra)"
begin

lemma r_insert_evidence: "keeps Q (InsertEvidenceTx env rec seq)"
  unfolding InsertEvidenceTx_def by (intro r_rules r_modify w_evidence)

lemma r_succeeded: "keeps Q (onRunSucceeded env pool run job)"
  unfolding onRunSucceeded_def Let_def
  by (auto intro!: r_rules r_maybe_render r_tamper r_emit r_insert_evidence split: option.split)

lemma r_completion: "keeps Q (completionTx env pool run job)"
  unfolding completionTx_def Let_def
  by (auto intro!: r_rules r_mark r_append_completed r_release r_succeeded r_failed r_clear)

lemma r_apply: "keeps Q (applyCompletion env job)"
  unfolding applyCompletion_def
  by (auto intro!: r_rules r_absorb r_absorb_stale r_mark r_completion split: option.split)

lemma r_ingest_one: "keeps Q (ingestOne env job)"
proof -
  let ?key = "dedupeKey (cjRunID job) (cjFenceToken job)"
  have absorb: "keeps Q (thenT (absorbCompletionRow ?key) (returnT 0))" by (intro r_rules r_absorb)
  have poison: "keeps Q (bindT (recordPoisonAttempt ?key) (\<lambda>attempts. if attempts \<ge> MaxFeedAttempts
      then thenT (absorbCompletionRow ?key) (returnT 0) else returnT 0))"
    by (intro r_rules r_poison r_absorb)
  show ?thesis
    unfolding keeps_def
  proof
    fix w
    have step: "Q (wDB w) (wDB (snd (applyCompletion env job w)))" using r_apply by (simp add: keeps_def)
    obtain r w1 where app: "applyCompletion env job w = (r, w1)" by fastforce
    show "Q (wDB w) (wDB (snd (ingestOne env job w)))"
      using step absorb poison app
      by (auto simp: ingestOne_def keeps_def Let_def split: sum.split EngErr.split intro: trans_Q)
  qed
qed

lemma r_ingest: "keeps Q (IngestCompletions env jobs)"
proof -
  have "keeps Q (ingest_loop env doneKeys n js)" for doneKeys n js
    by (induction js arbitrary: n) (auto intro!: r_rules r_ingest_one)
  then show ?thesis unfolding IngestCompletions_def by (intro r_bind_get)
qed

lemma r_tick: "keeps Q (Tick env jobs)"
  unfolding Tick_def by (intro r_rules r_dispatch_queued r_ingest)

end

text \<open>Where every decision is admissible, the rule for eligible decisions follows.\<close>

locale full_frame = effect_frame +
  assumes any_evidence: "Q db (db\<lparr>dbEvidence := dbEvidence db @ [er]\<rparr>)"
    and any_decision: "Q db (db\<lparr>dbDecisions := dbDecisions db @ [dr]\<rparr>)"
begin

lemma any_render: "keeps Q (renderDecision env pool req)"
proof -
  have "keeps Q (InsertDecisionTx d seq)" for d seq
    unfolding InsertDecisionTx_def by (intro r_rules r_modify any_decision)
  then show ?thesis
    unfolding renderDecision_def Let_def
    by (auto intro!: r_rules r_emit r_plan_satisfied r_live_states r_propagate r_revoke
        split: option.split DecisionVerb.split)
qed

lemma any_maybe_render: "keeps Q (maybeRenderEligible env pool tenantID candidateID plan extra)"
  unfolding maybeRenderEligible_def Let_def by (intro r_rules any_render)

end

sublocale full_frame \<subseteq> engine_frame
  by unfold_locales (simp_all add: any_evidence any_decision any_maybe_render)

end
