(* ===== verification/Engine_Safety.thy ===== *)
theory Engine_Safety
  imports Engine
begin

text \<open>
  Safety of the engine over every interleaving of ticks and reconciliations: decided candidates stay decided, the
  ledger only grows and stays verifiable, each completion takes effect at most once, stale and late completions
  change no projection, an eligible decision is backed by accepted passing evidence of every required kind, and
  what happens to rows that cannot be applied.
\<close>

subsection \<open>Reconciliation and reachable states\<close>

text \<open>\<^verbatim>\<open>ReconcileOnce\<close> (relay/reconciler.go) without the pruning of old audit rows: expired leases are
  released, one transaction each, errors skipped; then stale dispatched runs are cancelled and fenced at the fleet.\<close>

definition expireLease :: "EngineEnv \<Rightarrow> string \<times> string \<Rightarrow> unit tx" where
  "expireLease env ref w =
    (case GetLease (wDB w) (fst ref) (snd ref) of
       None \<Rightarrow> returnT () w
     | Some full \<Rightarrow>
         if \<not> Lease_Expired full (envNow env) then returnT () w
         else case Lease_Apply (envNow env) full ''lease.expired'' of
           Inl _ \<Rightarrow> returnT () w
         | Inr l \<Rightarrow> (Inr (), snd (withTx (releaseLeaseTx env l ''ttl'') w)))"

definition ReconcileOnce :: "EngineEnv \<Rightarrow> duration \<Rightarrow> unit tx" where
  "ReconcileOnce env staleMaxAge =
     thenT (bindT getDB (\<lambda>db. forT (expireLease env) (DueLeases db (envNow env))))
       (bindT (CancelStaleDispatchedRuns env staleMaxAge ''stale_base'') (\<lambda>cancelled.
          forT (\<lambda>rid. fleetCancel rid ''superseded'') cancelled))"

text \<open>The worlds reachable from a world by any interleaving of scheduler ticks and reconciliations, each with its own
  clock and configuration, and whatever rows the fleet's feed returns.\<close>

inductive engine_reach :: "World \<Rightarrow> World \<Rightarrow> bool" for w where
  start: "engine_reach w w"
| tick: "engine_reach w w1 \<Longrightarrow> engine_reach w (snd (Tick env jobs w1))"
| reconcile: "engine_reach w w1 \<Longrightarrow> engine_reach w (snd (ReconcileOnce env age w1))"

context engine_frame
begin

lemma r_expire: "keeps Q (expireLease env ref)"
  unfolding keeps_def
proof
  fix w
  have "Q (wDB w) (wDB (snd (withTx (releaseLeaseTx env l reason) w)))" for l reason
    using r_withTx [OF r_release_lease] by (simp add: keeps_def)
  then show "Q (wDB w) (wDB (snd (expireLease env ref w)))"
    by (auto simp: expireLease_def returnT_def refl_Q split: option.split sum.split)
qed

lemma r_reconcile: "keeps Q (ReconcileOnce env age)"
  unfolding ReconcileOnce_def by (intro r_rules r_expire r_stale)

end

lemma reach_keeps:
  assumes refl: "\<And>db. Q db db" and trans: "\<And>a b c. Q a b \<Longrightarrow> Q b c \<Longrightarrow> Q a c"
    and tick: "\<And>env jobs. keeps Q (Tick env jobs)" and rec: "\<And>env age. keeps Q (ReconcileOnce env age)"
    and "engine_reach w w'"
  shows "Q (wDB w) (wDB w')"
  using assms(5)
proof (induction rule: engine_reach.induct)
  case start
  show ?case by (rule refl)
next
  case (tick w1 env jobs)
  then show ?case using assms(3) [of env jobs] by (auto simp: keeps_def intro: trans)
next
  case (reconcile w1 env age)
  then show ?case using assms(4) [of env age] by (auto simp: keeps_def intro: trans)
qed

subsection \<open>Decided candidates stay decided\<close>

definition terminal_kept :: "DB \<Rightarrow> DB \<Rightarrow> bool" where
  "terminal_kept db db' \<longleftrightarrow> list_all2 (\<lambda>r r'. cID (rowVal r') = cID (rowVal r) \<and>
     (CandidateState_Terminal (cState (rowVal r)) \<longrightarrow> r' = r)) (dbCandidates db) (dbCandidates db')"

lemma terminal_kept_trans: "terminal_kept a b \<Longrightarrow> terminal_kept b c \<Longrightarrow> terminal_kept a c"
  unfolding terminal_kept_def by (erule (1) list_all2_trans [rotated]) auto

lemma terminal_kept_refl: "terminal_kept db db"
  by (simp add: terminal_kept_def list_all2_refl)

interpretation terminal: full_frame terminal_kept env for env
proof
  show "terminal_kept db db" for db by (rule terminal_kept_refl)
  show "terminal_kept db db' \<Longrightarrow> terminal_kept db' db'' \<Longrightarrow> terminal_kept db db''" for db db' db''
    by (rule terminal_kept_trans)
  show "\<forall>s \<in> set froms. \<not> CandidateState_Terminal s \<Longrightarrow> terminal_kept db (db\<lparr>dbCandidates :=
      update_rows (\<lambda>c. cID c = ci \<and> cTenantID c = ti \<and> cState c \<in> set froms) (\<lambda>c. c\<lparr>cState := st\<rparr>) seq (dbCandidates db)\<rparr>)"
    for froms db ci ti st seq
    by (auto simp: terminal_kept_def update_rows_def list_all2_conv_all_nth)
qed (simp_all add: terminal_kept_def list_all2_refl)

text \<open>Invariant I-08 at the level of the engine. However ticks and reconciliations interleave, and whatever
  the feed delivers, a candidate that is eligible, rejected, superseded or cancelled keeps its row unchanged, and no
  candidate row appears or disappears.\<close>

theorem decided_candidates_final:
  assumes "engine_reach w w'"
  shows "terminal_kept (wDB w) (wDB w')"
  by (rule reach_keeps [where Q = terminal_kept, OF terminal_kept_refl terminal_kept_trans terminal.r_tick
        terminal.r_reconcile assms])

definition empty_db :: DB where
  "empty_db = \<lparr>dbLedger = empty_ledger, dbAudit = [], dbIntents = [], dbLeases = [], dbCandidates = [], dbClusters = [],
     dbMembers = [], dbPlans = [], dbRuns = [], dbEvidence = [], dbFailures = [], dbRepairs = [], dbDecisions = [],
     dbProcessed = [], dbFeedRetries = Map.empty, dbBudgets = Map.empty, dbCommands = [],
     dbSuspended = [], dbRateLimits = Map.empty\<rparr>"

definition world_of :: "DB \<Rightarrow> World" where
  "world_of db = \<lparr>wDB = db, wNonce = 0, wCancels = [], wDenied = []\<rparr>"

definition sample_scan :: LogScan where
  "sample_scan = \<lparr>rule_matches = (\<lambda>_ _. False), failingTest = (\<lambda>_. None), goPkgFail = (\<lambda>_. None), shellLine = (\<lambda>_. None),
     pathMatches = (\<lambda>_. []), NormalizeLog = (\<lambda>s. s)\<rparr>"

definition sample_env :: EngineEnv where
  "sample_env = \<lparr>envCrypto = sample_crypto, envHasSigner = True, envNewID = (\<lambda>px n. px @ itoa (int n)), envNow = 7200000000000,
     envRFC3339 = itoa, envScan = sample_scan, envRedact = (\<lambda>s. s), envMaxRetry = 2, envPolicy = resolved DefaultPolicyPack,
     envWIPRange = [], envBatch = 8, envLeaseSigner = Some (\<lambda>c. jlID c), envMaterialize = (\<lambda>_. []), envEnqueue = (\<lambda>_. True)\<rparr>"

definition decided_row :: "Candidate Row" where
  "decided_row = \<lparr>rowSeq = 1, rowVal = sample_candidate\<lparr>cState := CandEligible\<rparr>\<rparr>"

theorem decided_candidates_final_witness:
  "dbCandidates (wDB (snd (ReconcileOnce sample_env 0 (snd (Tick sample_env []
     (world_of (empty_db\<lparr>dbCandidates := [decided_row]\<rparr>))))))) = [decided_row]"
proof -
  let ?w = "world_of (empty_db\<lparr>dbCandidates := [decided_row]\<rparr>)"
  have "engine_reach ?w (snd (ReconcileOnce sample_env 0 (snd (Tick sample_env [] ?w))))"
    by (intro engine_reach.intros)
  from decided_candidates_final [OF this] show ?thesis
    by (simp add: terminal_kept_def world_of_def decided_row_def CandidateState_Terminal_def list_all2_Cons1)
qed

declare ReserveBudgetsTx.simps [simp del] ReleaseBudgetsTx.simps [simp del]

subsection \<open>The ledger only grows\<close>

definition ledger_grows :: "Crypto \<Rightarrow> bool \<Rightarrow> DB \<Rightarrow> DB \<Rightarrow> bool" where
  "ledger_grows cr hasSigner db db' \<longleftrightarrow> (ledger_inv cr hasSigner (dbLedger db) \<longrightarrow>
     ledger_inv cr hasSigner (dbLedger db') \<and> (\<exists>ext. lgRows (dbLedger db') = lgRows (dbLedger db) @ ext))"

lemma ledger_grows_refl: "ledger_grows cr sg db db"
  by (simp add: ledger_grows_def)

lemma ledger_grows_trans: "ledger_grows cr sg a b \<Longrightarrow> ledger_grows cr sg b c \<Longrightarrow> ledger_grows cr sg a c"
  by (auto simp: ledger_grows_def)

lemma ledger_grows_append:
  assumes "AppendEventsTx cr sg evs (dbLedger db) = Inr (stamped, l)"
  shows "ledger_grows cr sg db (db\<lparr>dbLedger := l\<rparr>)"
  unfolding ledger_grows_def
proof
  assume inv: "ledger_inv cr sg (dbLedger db)"
  then have "ledger_wf cr (dbLedger db)" by (simp add: ledger_inv_def)
  from AppendEventsTx_Inr [OF this assms] AppendEventsTx_inv [OF inv assms]
  show "ledger_inv cr sg (dbLedger (db\<lparr>dbLedger := l\<rparr>)) \<and>
      (\<exists>ext. lgRows (dbLedger (db\<lparr>dbLedger := l\<rparr>)) = lgRows (dbLedger db) @ ext)" by simp
qed

interpretation ledger: full_frame "ledger_grows (envCrypto env) (envHasSigner env)" env for env
proof
  show "ledger_grows (envCrypto env) (envHasSigner env) db db" for db by (rule ledger_grows_refl)
  show "ledger_grows (envCrypto env) (envHasSigner env) db db' \<Longrightarrow> ledger_grows (envCrypto env) (envHasSigner env) db' db'' \<Longrightarrow>
      ledger_grows (envCrypto env) (envHasSigner env) db db''" for db db' db''
    by (rule ledger_grows_trans)
  show "AppendEventsTx (envCrypto env) (envHasSigner env) evs (dbLedger db) = Inr (stamped, l) \<Longrightarrow>
      ledger_grows (envCrypto env) (envHasSigner env) db (db\<lparr>dbLedger := l\<rparr>)" for evs db stamped l
    by (rule ledger_grows_append)
qed (simp_all add: ledger_grows_def)

text \<open>The engine keeps invariant I-07. Starting from a well-formed ledger, one tick, successful or not, leaves a
  ledger that verifies and extends the old one: no event is changed, removed or reordered.\<close>

theorem tick_extends_verified_ledger:
  assumes "ledger_inv (envCrypto env) (envHasSigner env) (dbLedger (wDB w))" and "sound_signer (envCrypto env)"
  shows "\<exists>ext rep. lgRows (dbLedger (wDB (snd (Tick env jobs w)))) = lgRows (dbLedger (wDB w)) @ ext \<and>
    Verify (envCrypto env) (envHasSigner env) (dbLedger (wDB (snd (Tick env jobs w)))) = Inr rep"
proof -
  have "ledger_grows (envCrypto env) (envHasSigner env) (wDB w) (wDB (snd (Tick env jobs w)))"
    using ledger.r_tick by (simp add: keeps_def)
  with assms(1) have inv: "ledger_inv (envCrypto env) (envHasSigner env) (dbLedger (wDB (snd (Tick env jobs w))))"
      and ext: "\<exists>ext. lgRows (dbLedger (wDB (snd (Tick env jobs w)))) = lgRows (dbLedger (wDB w)) @ ext"
    by (simp_all add: ledger_grows_def)
  from ext inv_Verify [OF inv assms(2)] show ?thesis by blast
qed

theorem tick_extends_verified_ledger_witness:
  "\<exists>ext rep. lgRows (dbLedger (wDB (snd (Tick sample_env [] (world_of empty_db))))) = [] @ ext \<and>
    Verify sample_crypto True (dbLedger (wDB (snd (Tick sample_env [] (world_of empty_db))))) = Inr rep"
  using tick_extends_verified_ledger [of sample_env "world_of empty_db" "[]"] empty_ledger_inv sample_crypto_sound
  by (simp add: sample_env_def world_of_def empty_db_def)

subsection \<open>Exactly once\<close>

definition processed_grows :: "DB \<Rightarrow> DB \<Rightarrow> bool" where
  "processed_grows db db' \<longleftrightarrow> set (dbProcessed db) \<subseteq> set (dbProcessed db')"

lemma processed_grows_refl: "processed_grows db db"
  by (simp add: processed_grows_def)

lemma processed_grows_trans: "processed_grows a b \<Longrightarrow> processed_grows b c \<Longrightarrow> processed_grows a c"
  by (auto simp: processed_grows_def)

interpretation processed: full_frame processed_grows env for env
proof
  show "processed_grows db db" for db by (rule processed_grows_refl)
  show "processed_grows db db' \<Longrightarrow> processed_grows db' db'' \<Longrightarrow> processed_grows db db''" for db db' db''
    by (rule processed_grows_trans)
qed (auto simp: processed_grows_def)

abbreviation (input) is_processed :: "CompletedJob \<Rightarrow> DB \<Rightarrow> bool" where
  "is_processed job db \<equiv> (dedupeKey (cjRunID job) (cjFenceToken job), completionConsumer) \<in> set (dbProcessed db)"

lemma MarkProcessedTx_spec:
  "MarkProcessedTx consumer key w = (Inr first, w') \<Longrightarrow>
     (key, consumer) \<in> set (dbProcessed (wDB w')) \<and> (first \<longleftrightarrow> (key, consumer) \<notin> set (dbProcessed (wDB w)))"
  by (auto simp: MarkProcessedTx_def tx_defs split: if_splits)

lemma bindT_Inr:
  "bindT m f w = (Inr y, w') \<longleftrightarrow> (\<exists>x w1. m w = (Inr x, w1) \<and> f x w1 = (Inr y, w'))"
  by (auto simp: bindT_def split: prod.splits sum.splits)

lemma thenT_Inr:
  "thenT m n w = (Inr y, w') \<longleftrightarrow> (\<exists>x w1. m w = (Inr x, w1) \<and> n w1 = (Inr y, w'))"
  by (simp add: thenT_def bindT_Inr)

lemma withTx_Inr: "withTx m w = (Inr y, w') \<longleftrightarrow> m w = (Inr y, w')"
  by (auto simp: withTx_def split: prod.splits sum.splits)

lemma returnT_Inr: "returnT x w = (Inr y, w') \<longleftrightarrow> y = x \<and> w' = w"
  by (auto simp: returnT_def)

lemmas tx_Inr = bindT_Inr thenT_Inr withTx_Inr returnT_Inr

lemma keepsD: "keeps Q m \<Longrightarrow> m w = (r, w') \<Longrightarrow> Q (wDB w) (wDB w')"
  by (metis keeps_def snd_conv)

lemma mark_then_processed:
  assumes "thenT (MarkProcessedTx consumer key) m w = (Inr x, w')" and "keeps processed_grows m"
  shows "(key, consumer) \<in> set (dbProcessed (wDB w'))"
proof -
  obtain b w1 where "MarkProcessedTx consumer key w = (Inr b, w1)" and m: "m w1 = (Inr x, w')"
    using assms(1) by (auto simp: thenT_Inr)
  then have "(key, consumer) \<in> set (dbProcessed (wDB w1))" by (auto dest: MarkProcessedTx_spec)
  with keepsD [OF assms(2) m] show ?thesis by (auto simp: processed_grows_def)
qed

lemma absorb_processed:
  "absorbCompletionRow key w = (Inr x, w') \<Longrightarrow> (key, completionConsumer) \<in> set (dbProcessed (wDB w'))"
  unfolding absorbCompletionRow_def withTx_Inr by (erule mark_then_processed [OF _ processed.r_clear])

lemma completionTx_processed:
  assumes "completionTx env pool run job w = (Inr x, w')"
  shows "is_processed job (wDB w')"
proof -
  let ?rest = "\<lambda>first. if \<not> first then returnT False
     else bindT (appendCompletedTx env run job) (\<lambda>(run1, seq).
       thenT (ReleaseBudgetsTx (vrTenantID run1) seq [(BudgetCPUMinutes, ActualCPUMinutes (cjDurationMS job) (vrEstDurationMS run1)),
           (BudgetConcurrentCandidates, 1)])
       (thenT (if cjStatus job = ''succeeded'' then onRunSucceeded env pool run1 job
               else if cjStatus job = ''failed'' \<or> cjStatus job = ''timed_out'' then onRunFailed env pool run1 job
               else returnT ())
       (thenT (ClearFeedRetriesTx completionConsumer [dedupeKey (cjRunID job) (cjFenceToken job)]) (returnT True))))"
  obtain first w1 where mark: "MarkProcessedTx completionConsumer (dedupeKey (cjRunID job) (cjFenceToken job)) w = (Inr first, w1)"
      and rest: "?rest first w1 = (Inr x, w')"
    using assms unfolding completionTx_def Let_def bindT_Inr by blast
  have "keeps processed_grows (?rest first)"
    by (auto intro!: processed.r_rules processed.r_append_completed processed.r_release processed.r_succeeded
        processed.r_failed processed.r_clear)
  from keepsD [OF this rest] MarkProcessedTx_spec [OF mark] show ?thesis by (auto simp: processed_grows_def)
qed

definition stale_epoch :: "ValidationRun \<Rightarrow> CompletedJob \<Rightarrow> bool" where
  "stale_epoch run job \<longleftrightarrow> cjFenceToken job \<noteq> vrFenceToken run \<or> cjAttempt job \<noteq> vrAttempt run"

definition is_diagnostic :: "DB \<Rightarrow> ValidationRun \<Rightarrow> bool" where
  "is_diagnostic db run \<longleftrightarrow> (case CandidateStateByID db (vrTenantID run) (vrCandidateID run) of
     Some candState \<Rightarrow> completionIsDiagnostic (vrState run) candState | None \<Rightarrow> vrState run \<notin> {RunDispatched, RunRunning})"

lemma applyCompletion_eq:
  "applyCompletion env job w = (case GetRunByID (wDB w) (cjRunID job) of
     None \<Rightarrow> thenT (absorbCompletionRow (dedupeKey (cjRunID job) (cjFenceToken job))) (returnT False) w
   | Some run \<Rightarrow> if stale_epoch run job then thenT (absorbStaleCompletion run job) (returnT False) w
       else if is_diagnostic (wDB w) run
       then thenT (withTx (MarkProcessedTx completionConsumer (dedupeKey (cjRunID job) (cjFenceToken job)))) (returnT False) w
       else withTx (completionTx env (wDB w) run job) w)"
  by (simp add: applyCompletion_def bindT_def getDB_def stale_epoch_def is_diagnostic_def split: option.split)

lemma applyCompletion_processed:
  assumes "applyCompletion env job w = (Inr b, w')"
  shows "is_processed job (wDB w')"
proof -
  have stale: "is_processed job (wDB w')" if "absorbStaleCompletion run job w = (Inr x, w')" for run x w w'
    using that unfolding absorbStaleCompletion_def Let_def withTx_Inr
    by (rule mark_then_processed) (intro processed.r_rules processed.r_audit processed.r_clear)
  show ?thesis
  proof (cases "GetRunByID (wDB w) (cjRunID job)")
    case None
    with assms show ?thesis by (auto simp: applyCompletion_eq thenT_Inr returnT_Inr dest: absorb_processed)
  next
    case (Some run)
    consider "stale_epoch run job" | "\<not> stale_epoch run job" "is_diagnostic (wDB w) run"
      | "\<not> stale_epoch run job" "\<not> is_diagnostic (wDB w) run" by blast
    then show ?thesis
    proof cases
      case 1
      with assms Some show ?thesis by (auto simp: applyCompletion_eq thenT_Inr returnT_Inr dest: stale)
    next
      case 2
      with assms Some show ?thesis by (auto simp: applyCompletion_eq thenT_Inr withTx_Inr returnT_Inr dest: MarkProcessedTx_spec)
    next
      case 3
      with assms Some have "completionTx env (wDB w) run job w = (Inr b, w')" by (simp add: applyCompletion_eq withTx_Inr)
      then show ?thesis by (rule completionTx_processed)
    qed
  qed
qed

lemma ingest_processed_noop:
  "(\<And>job. job \<in> set jobs \<Longrightarrow> doneKeys (dedupeKey (cjRunID job) (cjFenceToken job))) \<Longrightarrow>
     ingest_loop env doneKeys n jobs w = (Inr n, w)"
  by (induction jobs) (simp_all add: returnT_def)

lemma ingest_all_processed:
  "(\<And>job. job \<in> set jobs \<Longrightarrow> is_processed job (wDB w)) \<Longrightarrow> IngestCompletions env jobs w = (Inr 0, w)"
  by (simp add: IngestCompletions_def bindT_def getDB_def ingest_processed_noop ProcessedKeys_def)

lemma reach_processed: "engine_reach w w' \<Longrightarrow> processed_grows (wDB w) (wDB w')"
  by (rule reach_keeps [where Q = processed_grows, OF processed_grows_refl processed_grows_trans processed.r_tick
        processed.r_reconcile])

text \<open>C1: Invariant I-12. Once a feed row has been applied or absorbed without error, it never takes effect again:
  in every state reachable afterwards, ingesting any feed made of copies of it (the fleet replays accepted rows
  forever) consumes nothing and changes nothing.\<close>

theorem completion_exactly_once:
  assumes "applyCompletion env job w = (Inr applied, w1)" and "engine_reach w1 w2"
  shows "IngestCompletions env' (replicate n job) w2 = (Inr 0, w2)"
proof (rule ingest_all_processed)
  fix j
  assume "j \<in> set (replicate n job)"
  moreover have "is_processed job (wDB w2)"
    using applyCompletion_processed [OF assms(1)] reach_processed [OF assms(2)] by (auto simp: processed_grows_def)
  ultimately show "is_processed j (wDB w2)" by simp
qed

definition sample_job :: CompletedJob where
  "sample_job = \<lparr>cjRunID = ''run_9'', cjAttempt = 1, cjFenceToken = 1, cjTier = 1, cjPool = ''default'', cjStatus = ''succeeded'',
     cjLogsDigest = [], cjLogsExcerpt = [], cjArtifactDigests = [], cjDurationMS = 1000, cjCostMillicents = 5,
     cjClassification = [], cjResults = None, cjResultsDigest = []\<rparr>"

theorem completion_exactly_once_witness:
  "\<exists>w1. applyCompletion sample_env sample_job (world_of empty_db) = (Inr False, w1) \<and>
     IngestCompletions sample_env [sample_job, sample_job] w1 = (Inr 0, w1)"
proof -
  obtain w1 where app: "applyCompletion sample_env sample_job (world_of empty_db) = (Inr False, w1)"
    by (simp add: applyCompletion_def tx_defs GetRunByID_def select_one_def select_def empty_db_def world_of_def
        absorbCompletionRow_def withTx_def MarkProcessedTx_def ClearFeedRetriesTx_def)
  from completion_exactly_once [OF app engine_reach.start, of sample_env 2] app show ?thesis
    by (simp add: numeral_2_eq_2)
qed

subsection \<open>Rows that drive no effects\<close>

lemma MarkProcessedTx_run:
  "MarkProcessedTx consumer key w = (Inr ((key, consumer) \<notin> set (dbProcessed (wDB w))), w\<lparr>wDB := (wDB w)\<lparr>dbProcessed :=
     (if (key, consumer) \<in> set (dbProcessed (wDB w)) then dbProcessed (wDB w) else dbProcessed (wDB w) @ [(key, consumer)])\<rparr>\<rparr>)"
  by (simp add: MarkProcessedTx_def tx_defs)

lemma MarkProcessedTx_upd: "\<exists>first pr. MarkProcessedTx consumer key w = (Inr first, w\<lparr>wDB := (wDB w)\<lparr>dbProcessed := pr\<rparr>\<rparr>)"
  using MarkProcessedTx_run by blast

lemma absorbCompletionRow_run:
  "\<exists>pr rt. absorbCompletionRow key w = (Inr (), w\<lparr>wDB := (wDB w)\<lparr>dbProcessed := pr, dbFeedRetries := rt\<rparr>\<rparr>)"
proof -
  obtain first pr where "MarkProcessedTx completionConsumer key w = (Inr first, w\<lparr>wDB := (wDB w)\<lparr>dbProcessed := pr\<rparr>\<rparr>)"
    using MarkProcessedTx_upd by blast
  then show ?thesis
    by (auto simp: absorbCompletionRow_def withTx_def thenT_def bindT_def ClearFeedRetriesTx_def modifyDB_def)
qed

lemma absorbStaleCompletion_run:
  "\<exists>pr rt a. absorbStaleCompletion run job w =
     (Inr (), w\<lparr>wDB := (wDB w)\<lparr>dbProcessed := pr, dbAudit := dbAudit (wDB w) @ [a], dbFeedRetries := rt\<rparr>\<rparr>) \<and> adKind a = ''fence_mismatch''"
proof -
  let ?key = "dedupeKey (cjRunID job) (cjFenceToken job)"
  obtain first pr where "MarkProcessedTx completionConsumer ?key w = (Inr first, w\<lparr>wDB := (wDB w)\<lparr>dbProcessed := pr\<rparr>\<rparr>)"
    using MarkProcessedTx_upd by blast
  then show ?thesis
    by (simp add: absorbStaleCompletion_def Let_def withTx_def thenT_def bindT_def ClearFeedRetriesTx_def
        InsertSecurityAuditTx_def modifyDB_def) (intro exI conjI, rule refl, simp)
qed

lemma absorbed_run:
  assumes "case GetRunByID (wDB w) (cjRunID job) of None \<Rightarrow> True | Some run \<Rightarrow> stale_epoch run job \<or> is_diagnostic (wDB w) run"
  shows "\<exists>pr au rt. applyCompletion env job w =
      (Inr False, w\<lparr>wDB := (wDB w)\<lparr>dbProcessed := pr, dbAudit := dbAudit (wDB w) @ au, dbFeedRetries := rt\<rparr>\<rparr>) \<and>
    map adKind au = (case GetRunByID (wDB w) (cjRunID job) of
      Some run \<Rightarrow> if stale_epoch run job then [''fence_mismatch''] else [] | None \<Rightarrow> [])"
proof (cases "GetRunByID (wDB w) (cjRunID job)")
  case None
  obtain pr rt where "absorbCompletionRow (dedupeKey (cjRunID job) (cjFenceToken job)) w =
      (Inr (), w\<lparr>wDB := (wDB w)\<lparr>dbProcessed := pr, dbFeedRetries := rt\<rparr>\<rparr>)"
    using absorbCompletionRow_run by blast
  with None show ?thesis
    by (intro exI [of _ pr] exI [of _ "[]"] exI [of _ rt]) (simp add: applyCompletion_eq thenT_def bindT_def returnT_def)
next
  case (Some run)
  show ?thesis
  proof (cases "stale_epoch run job")
    case True
    obtain pr rt a where "absorbStaleCompletion run job w =
        (Inr (), w\<lparr>wDB := (wDB w)\<lparr>dbProcessed := pr, dbAudit := dbAudit (wDB w) @ [a], dbFeedRetries := rt\<rparr>\<rparr>)" "adKind a = ''fence_mismatch''"
      using absorbStaleCompletion_run by blast
    with Some True show ?thesis
      by (intro exI [of _ pr] exI [of _ "[a]"] exI [of _ rt]) (simp add: applyCompletion_eq thenT_def bindT_def returnT_def)
  next
    case False
    obtain first pr where "MarkProcessedTx completionConsumer (dedupeKey (cjRunID job) (cjFenceToken job)) w =
        (Inr first, w\<lparr>wDB := (wDB w)\<lparr>dbProcessed := pr\<rparr>\<rparr>)"
      using MarkProcessedTx_upd by blast
    with False assms Some show ?thesis
      by (intro exI [of _ pr] exI [of _ "[]"] exI [of _ "dbFeedRetries (wDB w)"])
         (simp add: applyCompletion_eq thenT_def bindT_def returnT_def withTx_def)
  qed
qed


definition sample_run_row :: "int \<Rightarrow> RunState \<Rightarrow> ValidationRun Row" where
  "sample_run_row fence st = \<lparr>rowSeq = 1, rowVal = sample_run\<lparr>vrID := ''run_9'', vrAttempt := 1, vrFenceToken := fence, vrState := st\<rparr>\<rparr>"

lemma sample_get_run:
  "GetRunByID (wDB (world_of (empty_db\<lparr>dbRuns := [sample_run_row f st]\<rparr>))) (cjRunID sample_job) = Some (rowVal (sample_run_row f st))"
  by (simp add: GetRunByID_def select_one_def select_def world_of_def sample_run_row_def sample_job_def)


subsection \<open>Rows that cannot be applied\<close>

lemma withTx_Inl: "withTx m w = (Inl e, w') \<Longrightarrow> wDB w' = wDB w"
  by (auto simp: withTx_def split: prod.splits sum.splits)

lemma applyCompletion_Inl: "applyCompletion env job w = (Inl e, w') \<Longrightarrow> wDB w' = wDB w"
proof -
  assume app: "applyCompletion env job w = (Inl e, w')"
  have absorbed: False if "case GetRunByID (wDB w) (cjRunID job) of None \<Rightarrow> True | Some run \<Rightarrow> stale_epoch run job \<or> is_diagnostic (wDB w) run"
    using absorbed_run [OF that, of env] app by simp
  then obtain run where "GetRunByID (wDB w) (cjRunID job) = Some run" "\<not> stale_epoch run job" "\<not> is_diagnostic (wDB w) run"
    by (cases "GetRunByID (wDB w) (cjRunID job)") auto
  with app show ?thesis by (simp add: applyCompletion_eq withTx_Inl)
qed

lemma recordPoisonAttempt_run:
  "recordPoisonAttempt key w = (Inr 1, w\<lparr>wDB := (wDB w)\<lparr>dbFeedRetries := (dbFeedRetries (wDB w))((completionConsumer, key) \<mapsto>
     (case dbFeedRetries (wDB w) (completionConsumer, key) of None \<Rightarrow> 1 | Some n \<Rightarrow> n + 1))\<rparr>\<rparr>)"
  by (simp add: recordPoisonAttempt_def RecordFeedFailureTx_def withTx_def tx_defs)

lemma ingestOne_transient:
  assumes "applyCompletion env job w = (Inl e, w1)" and "\<forall>d. e \<noteq> EPermanent d"
  shows "\<exists>w'. ingestOne env job w = (Inr 0, w') \<and> wDB w' = (wDB w)\<lparr>dbFeedRetries := (dbFeedRetries (wDB w))
      ((completionConsumer, dedupeKey (cjRunID job) (cjFenceToken job)) \<mapsto>
        FeedFailureCount (wDB w) completionConsumer (dedupeKey (cjRunID job) (cjFenceToken job)) + 1)\<rparr>"
proof -
  let ?key = "dedupeKey (cjRunID job) (cjFenceToken job)"
  have db: "wDB w1 = wDB w" using applyCompletion_Inl [OF assms(1)] .
  have "ingestOne env job w = bindT (recordPoisonAttempt ?key) (\<lambda>attempts.
      if attempts \<ge> MaxFeedAttempts then thenT (absorbCompletionRow ?key) (returnT 0) else returnT 0) w1"
    using assms by (simp add: ingestOne_def Let_def split: EngErr.split)
  then show ?thesis
    by (simp add: bindT_def recordPoisonAttempt_run returnT_def MaxFeedAttempts_def db FeedFailureCount_def get0_def
        split: option.split)
qed

text \<open>The poison cap never takes effect. A row whose completion fails with any other than a permanent error is
  only counted: however large its stored failure count already is (the documented cap is 5), the tick leaves the row
  unprocessed and changes nothing but that count, because the count returned to the caller is the number of rows the
  upsert affected, which is always 1. The row is retried on every tick for ever.\<close>

theorem poison_row_never_absorbed:
  assumes "applyCompletion env job w = (Inl e, w1)" and "\<forall>d. e \<noteq> EPermanent d"
  shows "\<exists>w'. ingestOne env job w = (Inr 0, w') \<and> wDB w' = (wDB w)\<lparr>dbFeedRetries := (dbFeedRetries (wDB w))
      ((completionConsumer, dedupeKey (cjRunID job) (cjFenceToken job)) \<mapsto>
        FeedFailureCount (wDB w) completionConsumer (dedupeKey (cjRunID job) (cjFenceToken job)) + 1)\<rparr>"
  using assms by (rule ingestOne_transient)

definition live_row :: "Candidate Row" where
  "live_row = \<lparr>rowSeq = 1, rowVal = sample_candidate\<lparr>cID := vrCandidateID sample_run, cTenantID := vrTenantID sample_run\<rparr>\<rparr>"

definition running_world :: "World" where
  "running_world = world_of (empty_db\<lparr>dbRuns := [sample_run_row 1 RunRunning]\<rparr>)"

text \<open>A feed row with an unknown status fails to advance the run.\<close>

lemma sample_unknown_status:
  "\<exists>w1. applyCompletion sample_env (sample_job\<lparr>cjStatus := ''lost''\<rparr>) running_world = (Inl (EDomain ErrUnknownEvent), w1)"
proof -
  let ?job = "sample_job\<lparr>cjStatus := ''lost''\<rparr>"
  let ?run = "rowVal (sample_run_row 1 RunRunning)"
  have get: "GetRunByID (wDB running_world) (cjRunID ?job) = Some ?run"
    unfolding running_world_def by (rule trans [OF _ sample_get_run]) simp
  have fresh: "\<not> stale_epoch ?run ?job" by (simp add: stale_epoch_def sample_run_row_def sample_job_def)
  have live: "\<not> is_diagnostic (wDB running_world) ?run"
    by (simp add: is_diagnostic_def CandidateStateByID_def select_one_def select_def running_world_def world_of_def empty_db_def sample_run_row_def)
  have "Run_Apply (envNow sample_env) ?run (''run.'' @ mapFleetStatus (cjStatus ?job)) = Inl ErrUnknownEvent"
    by code_simp
  then have "appendCompletedTx sample_env ?run ?job = failT (EDomain ErrUnknownEvent)"
    unfolding appendCompletedTx_def by simp
  then have "\<exists>w1. withTx (completionTx sample_env (wDB running_world) ?run ?job) running_world = (Inl (EDomain ErrUnknownEvent), w1)"
    by (simp add: completionTx_def Let_def withTx_def bindT_def MarkProcessedTx_run failT_def running_world_def world_of_def empty_db_def)
  with get fresh live show ?thesis by (simp only: applyCompletion_eq option.simps if_False)
qed

theorem poison_row_never_absorbed_witness:
  "\<exists>w'. ingestOne sample_env (sample_job\<lparr>cjStatus := ''lost''\<rparr>) running_world = (Inr 0, w') \<and>
     dbProcessed (wDB w') = [] \<and> dbRuns (wDB w') = [sample_run_row 1 RunRunning]"
proof -
  obtain w1 where app: "applyCompletion sample_env (sample_job\<lparr>cjStatus := ''lost''\<rparr>) running_world = (Inl (EDomain ErrUnknownEvent), w1)"
    using sample_unknown_status by blast
  from poison_row_never_absorbed [OF app] show ?thesis
    by (auto simp: running_world_def world_of_def empty_db_def)
qed

subsection \<open>Timed-out runs\<close>

text \<open>The advance of a run with its trigger comparisons abstracted to flags.\<close>

definition advance :: "bool \<Rightarrow> bool \<Rightarrow> bool \<Rightarrow> gotime \<Rightarrow> RunState \<Rightarrow> ValidationRun \<Rightarrow> ValidationRun" where
  "advance retry started finished now st r =
    (let r1 = (if retry then r\<lparr>vrAttempt := vrAttempt r + 1, vrFenceToken := vrFenceToken r + 1\<rparr>
               else if started then r\<lparr>vrDispatchedAt := Some now\<rparr> else r\<lparr>vrFinishedAt := Some now\<rparr>);
         r2 = (if finished then r1\<lparr>vrDispatchedAt := None\<rparr> else r1)
     in r2\<lparr>vrState := st\<rparr>)"

lemma Run_Apply_Inr:
  assumes "Run_Apply now r trigger = Inr r1"
  shows "\<exists>rl started finished. map_of runTransitions trigger = Some rl \<and> vrState r \<in> set (rule_from rl) \<and>
    r1 = advance (trigger = ''run.retry'') started finished now (rule_to rl) r"
proof -
  have live: "\<not> RunState_Terminal (vrState r)" using assms by (rule contrapos_pn) (simp add: Run_Apply_def)
  obtain rl where rl: "map_of runTransitions trigger = Some rl"
    using assms live by (cases "map_of runTransitions trigger") (simp_all add: Run_Apply_def)
  have src: "vrState r \<in> set (rule_from rl)"
    using assms live rl by (rule_tac ccontr) (simp add: Run_Apply_def)
  have "r1 = advance (trigger = ''run.retry'') (trigger = ''run.dispatched'' \<or> trigger = ''run.claimed'')
      (trigger = ''run.cancelled'' \<or> trigger = ''run.succeeded'' \<or> trigger = ''run.failed'' \<or> trigger = ''run.timed_out'')
      now (rule_to rl) r"
    using assms unfolding Run_Apply_def advance_def Let_def rl
    by (simp only: live src if_False if_True option.simps matchesState_iff not_not sum.inject simp_thms)
  with rl src show ?thesis by blast
qed

lemma advance_simps [simp]:
  "vrState (advance a b c now st r) = st" "vrID (advance a b c now st r) = vrID r" "vrTenantID (advance a b c now st r) = vrTenantID r"
  "vrCandidateID (advance a b c now st r) = vrCandidateID r" "vrJobSpec (advance a b c now st r) = vrJobSpec r"
  "vrEstDurationMS (advance a b c now st r) = vrEstDurationMS r"
  "\<not> a \<Longrightarrow> vrAttempt (advance a b c now st r) = vrAttempt r" "\<not> a \<Longrightarrow> vrFenceToken (advance a b c now st r) = vrFenceToken r"
  by (simp_all add: advance_def Let_def)

lemma appendCompletedTx_Inr:
  assumes "appendCompletedTx env run job w = (Inr (run1, seq), w')"
  shows "Run_Apply (envNow env) run (''run.'' @ mapFleetStatus (cjStatus job)) = Inr run1"
  using assms by (auto simp: appendCompletedTx_def failT_def tx_Inr split: sum.splits)

lemma timed_out_advance:
  assumes "Run_Apply now run (''run.'' @ mapFleetStatus ''timed_out'') = Inr run1"
  shows "vrState run1 = RunTimedOut \<and> vrAttempt run1 = vrAttempt run \<and> vrTenantID run1 = vrTenantID run \<and> vrCandidateID run1 = vrCandidateID run"
proof -
  have status: "''run.'' @ mapFleetStatus ''timed_out'' = ''run.timed_out''" by code_simp
  have "map_of runTransitions ''run.timed_out'' = Some (rule [RunRunning, RunDispatched] RunTimedOut)"
    by (simp add: runTransitions_def)
  moreover have "''run.timed_out'' \<noteq> ''run.retry''" by simp
  ultimately show ?thesis
    using Run_Apply_Inr [OF assms [unfolded status]] by (auto simp: rule_def)
qed

lemma retry_timed_out: "vrState run = RunTimedOut \<Longrightarrow> retryRun env run = failT (EDomain ErrIllegalTransition)"
proof -
  assume st: "vrState run = RunTimedOut"
  have "map_of runTransitions ''run.retry'' = Some (rule [RunFailed] RunQueued)" by (simp add: runTransitions_def)
  then have "Run_Apply (envNow env) run ''run.retry'' = Inl ErrIllegalTransition"
    using st by (simp add: Run_Apply_def RunState_Terminal_def rule_def matchesState_iff)
  then show ?thesis by (simp add: retryRun_def)
qed

definition not_permanent :: "'a tx \<Rightarrow> bool" where
  "not_permanent m \<longleftrightarrow> (\<forall>w d. fst (m w) \<noteq> Inl (EPermanent d))"

lemma np_return: "not_permanent (returnT x)"
  by (simp add: not_permanent_def returnT_def)

lemma np_modify: "not_permanent (modifyDB f)"
  by (simp add: not_permanent_def modifyDB_def)

lemma np_get: "not_permanent getDB"
  by (simp add: not_permanent_def getDB_def)

lemma np_fresh: "not_permanent (freshID env px)"
  by (simp add: not_permanent_def freshID_def)

lemma np_fail: "\<forall>d. e \<noteq> EPermanent d \<Longrightarrow> not_permanent (failT e)"
  by (simp add: not_permanent_def failT_def)

lemma np_append: "not_permanent (appendT env evs)"
  by (simp add: not_permanent_def appendT_def split: sum.split)

lemma np_bind: "not_permanent m \<Longrightarrow> (\<And>x. not_permanent (f x)) \<Longrightarrow> not_permanent (bindT m f)"
  by (auto simp: not_permanent_def bindT_def split: prod.split sum.split) (metis fst_conv)

lemma np_then: "not_permanent m \<Longrightarrow> not_permanent n \<Longrightarrow> not_permanent (thenT m n)"
  unfolding thenT_def by (rule np_bind)

lemma np_if: "not_permanent m \<Longrightarrow> not_permanent n \<Longrightarrow> not_permanent (if b then m else n)"
  by simp

lemmas np_rules = np_return np_modify np_get np_fresh np_append np_bind np_then np_if

lemma np_emit: "not_permanent (emitT env actor tenantID agg ty payload)"
  unfolding emitT_def by (intro np_rules)

lemma np_release: "not_permanent (ReleaseBudgetsTx tenantID seq deltas)"
  by (induction tenantID seq deltas rule: ReleaseBudgetsTx.induct) (auto simp: ReleaseBudgetsTx.simps intro!: np_rules)

lemma np_failure_case: "not_permanent (InsertFailureCaseTx row seq)"
  unfolding InsertFailureCaseTx_def by (intro np_rules np_fail) simp

lemma np_append_completed: "not_permanent (appendCompletedTx env run job)"
  unfolding appendCompletedTx_def by (auto intro!: np_rules np_emit np_fail split: sum.split)

lemma bindT_Inl:
  "bindT m f w = (Inl e, w') \<Longrightarrow> m w = (Inl e, w') \<or> (\<exists>x w1. m w = (Inr x, w1) \<and> f x w1 = (Inl e, w'))"
  by (auto simp: bindT_def split: prod.splits sum.splits)

lemma not_permanentD: "not_permanent m \<Longrightarrow> m w = (Inl e, w') \<Longrightarrow> \<forall>d. e \<noteq> EPermanent d"
  by (metis fst_conv not_permanent_def)

text \<open>Outcomes of an action: \<open>blocked m\<close> when it fails on every world, and never permanently.\<close>

definition blocked :: "'a tx \<Rightarrow> bool" where
  "blocked m \<longleftrightarrow> (\<forall>w. \<exists>e w'. m w = (Inl e, w') \<and> (\<forall>d. e \<noteq> EPermanent d))"

lemma blocked_fail: "\<forall>d. e \<noteq> EPermanent d \<Longrightarrow> blocked (failT e)"
  by (simp add: blocked_def failT_def)

lemma blocked_first: "blocked m \<Longrightarrow> blocked (bindT m f)"
  unfolding blocked_def
proof (intro allI)
  fix w
  assume "\<forall>w. \<exists>e w'. m w = (Inl e, w') \<and> (\<forall>d. e \<noteq> EPermanent d)"
  then obtain e w' where "m w = (Inl e, w')" "\<forall>d. e \<noteq> EPermanent d" by blast
  then show "\<exists>e w'. bindT m f w = (Inl e, w') \<and> (\<forall>d. e \<noteq> EPermanent d)" by (simp add: bindT_def)
qed

lemma bindT_assoc: "bindT (bindT m g) f = bindT m (\<lambda>x. bindT (g x) f)"
  by (rule ext) (simp add: bindT_def split: prod.split sum.split)

lemma bindT_return: "bindT (returnT x) f = f x"
  by (rule ext) (simp add: bindT_def returnT_def)

lemma blocked_bind: "not_permanent m \<Longrightarrow> (\<And>x. blocked (f x)) \<Longrightarrow> blocked (bindT m f)"
  unfolding blocked_def
proof (intro allI)
  fix w
  assume np: "not_permanent m" and rest: "\<And>x. \<forall>w. \<exists>e w'. f x w = (Inl e, w') \<and> (\<forall>d. e \<noteq> EPermanent d)"
  show "\<exists>e w'. bindT m f w = (Inl e, w') \<and> (\<forall>d. e \<noteq> EPermanent d)"
  proof (cases "m w")
    case (Pair r w1)
    with rest not_permanentD [OF np] show ?thesis by (cases r) (auto simp: bindT_def)
  qed
qed

lemma blocked_thenI: "not_permanent m \<Longrightarrow> blocked n \<Longrightarrow> blocked (thenT m n)"
  unfolding thenT_def by (rule blocked_bind)

lemma blocked_then_first: "blocked m \<Longrightarrow> blocked (thenT m n)"
  unfolding thenT_def by (rule blocked_first)

definition failure_of :: "EngineEnv \<Rightarrow> CompletedJob \<Rightarrow> ClassifiedFailure" where
  "failure_of env job = Classify (crSHA256 (envCrypto env)) (envScan env) (envRedact env (cjLogsExcerpt job))
     \<lparr>KnownFlakes = [], CorroboratedReruns = 0, DistinctEnvironments = 0\<rparr>"

lemma blocked_timed_out_failed:
  assumes "vrState run = RunTimedOut" and "cfClassification (failure_of env job) = ClassInfraTransient_s"
    and "vrAttempt run < envMaxRetry env"
    and "GetIntent pool (vrTenantID run) (intentIDForCandidate pool (vrTenantID run) (vrCandidateID run)) \<noteq> None"
  shows "blocked (onRunFailed env pool run job)"
proof -
  have "blocked (retryRun env run)" unfolding retry_timed_out [OF assms(1)] by (rule blocked_fail) simp
  with assms show ?thesis
    unfolding onRunFailed_def Let_def failure_of_def [symmetric]
    by (auto intro!: blocked_bind blocked_thenI np_fresh np_emit np_failure_case)
qed

text \<open>A timed-out run with a transient infrastructure failure is never ingested. While retries are left, the
  router asks for the transition from timed out to queued, which the run's table does not have; the transaction rolls
  back on every tick and, the poison cap being ineffective, the row stays unprocessed: a tick changes nothing but the
  failure count, the run stays dispatched and its budget reservation is not released.\<close>

theorem timed_out_transient_never_ingested:
  assumes run: "GetRunByID (wDB w) (cjRunID job) = Some run" "\<not> stale_epoch run job" "\<not> is_diagnostic (wDB w) run"
    and new: "\<not> is_processed job (wDB w)"
    and job: "cjStatus job = ''timed_out''" "cfClassification (failure_of env job) = ClassInfraTransient_s"
    and retry: "vrAttempt run < envMaxRetry env"
    and intent: "GetIntent (wDB w) (vrTenantID run) (intentIDForCandidate (wDB w) (vrTenantID run) (vrCandidateID run)) \<noteq> None"
  shows "\<exists>w'. ingestOne env job w = (Inr 0, w') \<and> wDB w' = (wDB w)\<lparr>dbFeedRetries := (dbFeedRetries (wDB w))
      ((completionConsumer, dedupeKey (cjRunID job) (cjFenceToken job)) \<mapsto>
        FeedFailureCount (wDB w) completionConsumer (dedupeKey (cjRunID job) (cjFenceToken job)) + 1)\<rparr>"
proof -
  have effects: "\<exists>e w'. completionTx env (wDB w) run job w = (Inl e, w') \<and> (\<forall>d. e \<noteq> EPermanent d)"
  proof (cases "Run_Apply (envNow env) run (''run.'' @ mapFleetStatus (cjStatus job))")
    case (Inl e)
    then have "blocked (appendCompletedTx env run job)"
      unfolding appendCompletedTx_def by (simp add: blocked_fail)
    then have "blocked (bindT (appendCompletedTx env run job) f)" for f :: "ValidationRun \<times> int \<Rightarrow> bool tx"
      by (rule blocked_first)
    then show ?thesis
      using new by (simp add: completionTx_def Let_def bindT_def [of "MarkProcessedTx _ _"] MarkProcessedTx_run blocked_def)
  next
    case (Inr run1)
    have run1: "vrState run1 = RunTimedOut" "vrAttempt run1 = vrAttempt run" "vrTenantID run1 = vrTenantID run"
        "vrCandidateID run1 = vrCandidateID run"
      using timed_out_advance [of "envNow env" run run1] Inr job(1) by simp_all
    have failed: "blocked (onRunFailed env (wDB w) run1 job)"
      using run1 job(2) retry intent by (intro blocked_timed_out_failed) simp_all
    have "blocked (bindT (appendCompletedTx env run job) (\<lambda>(run1, seq).
       thenT (ReleaseBudgetsTx (vrTenantID run1) seq [(BudgetCPUMinutes, ActualCPUMinutes (cjDurationMS job) (vrEstDurationMS run1)),
           (BudgetConcurrentCandidates, 1)])
       (thenT (onRunFailed env (wDB w) run1 job) (m :: bool tx))))" for m
      unfolding appendCompletedTx_def Inr sum.simps bindT_assoc thenT_def bindT_return prod.case
      by (intro blocked_bind np_emit np_modify np_release blocked_first failed)
    then show ?thesis
      using new job(1) by (simp add: completionTx_def Let_def bindT_def [of "MarkProcessedTx _ _"] MarkProcessedTx_run blocked_def)
  qed
  obtain e w1 where app: "applyCompletion env job w = (Inl e, w1)" and np: "\<forall>d. e \<noteq> EPermanent d"
    using effects run by (auto simp: applyCompletion_eq withTx_def)
  from ingestOne_transient [OF app np] show ?thesis .
qed

definition sample_intent :: Intent where
  "sample_intent = NewIntent ''int_1'' ''ten_1'' \<lparr>Goal = ''fix'', dRepo = ''acme/shop'', BaseRef = ''main'', BaseSnapshot = [],
     OwnedSurfaces = [''src/**''], Constraints = [], AcceptanceCriteria = [], dRiskClass = RiskLow, Deadline = None, dOrigin = OriginCLI,
     AgentLineage = [], dResolvedPolicy = \<lparr>prPolicyID = [], prVersion = 0\<rparr>, ComputeBudget = zero_budget\<rparr> 0"

definition sample_db :: "RunState \<Rightarrow> DB" where
  "sample_db st = empty_db\<lparr>dbRuns := [sample_run_row 1 st], dbCandidates := [\<lparr>rowSeq = 1, rowVal = sample_candidate\<rparr>],
     dbIntents := [\<lparr>rowSeq = 1, rowVal = sample_intent\<rparr>]\<rparr>"

definition infra_env :: EngineEnv where
  "infra_env = sample_env\<lparr>envScan := sample_scan\<lparr>rule_matches := (\<lambda>ident _. ident = ''infra_failure'')\<rparr>\<rparr>"

lemmas sample_db_simps = sample_db_def empty_db_def world_of_def sample_run_row_def sample_run_def NewValidationRun_def
  sample_candidate_def sample_intent_def NewIntent_def sample_job_def GetRunByID_def select_one_def select_def

theorem timed_out_transient_never_ingested_witness:
  "\<exists>w'. ingestOne infra_env (sample_job\<lparr>cjStatus := ''timed_out''\<rparr>) (world_of (sample_db RunDispatched)) = (Inr 0, w') \<and>
     dbProcessed (wDB w') = [] \<and> dbRuns (wDB w') = [sample_run_row 1 RunDispatched]"
proof -
  let ?w = "world_of (sample_db RunDispatched)" and ?job = "sample_job\<lparr>cjStatus := ''timed_out''\<rparr>"
  let ?run = "rowVal (sample_run_row 1 RunDispatched)"
  have get: "GetRunByID (wDB ?w) (cjRunID ?job) = Some ?run" by (simp add: sample_db_simps)
  have fresh: "\<not> stale_epoch ?run ?job" by (simp add: stale_epoch_def sample_db_simps)
  have live: "\<not> is_diagnostic (wDB ?w) ?run"
    by (simp add: is_diagnostic_def CandidateStateByID_def completionIsDiagnostic_def CandidateState_Terminal_def sample_db_simps)
  have new: "\<not> is_processed ?job (wDB ?w)" by (simp add: sample_db_def empty_db_def world_of_def)
  have cls: "cfClassification (failure_of infra_env ?job) = ClassInfraTransient_s"
    by (simp add: failure_of_def infra_env_def Classify_def rules_def classify_step_def classify_start_def Let_def ClassInfraTransient_s_def)
  have att: "vrAttempt ?run < envMaxRetry infra_env" by (simp add: infra_env_def sample_env_def sample_db_simps)
  have int: "GetIntent (wDB ?w) (vrTenantID ?run) (intentIDForCandidate (wDB ?w) (vrTenantID ?run) (vrCandidateID ?run)) \<noteq> None"
    by (simp add: GetIntent_def intentIDForCandidate_def GetCandidate_def sample_db_simps)
  from timed_out_transient_never_ingested [OF get fresh live new _ cls att int] show ?thesis
    by (auto simp: world_of_def sample_db_def empty_db_def)
qed

subsection \<open>Retried runs\<close>

lemma keeps_runs_ReserveBudgets: "ReserveBudgetsTx env tenantID seq deltas limits w = (Inr x, w') \<Longrightarrow>
    dbRuns (wDB w') = dbRuns (wDB w) \<and> dbProcessed (wDB w') = dbProcessed (wDB w)"
proof (induction env tenantID seq deltas limits arbitrary: w rule: ReserveBudgetsTx.induct)
  case (1 env tenantID seq limits)
  then show ?case by (simp add: ReserveBudgetsTx.simps returnT_def)
next
  case (2 env tenantID seq kind delta deltas limits)
  then show ?case
    by (auto simp: ReserveBudgetsTx.simps Let_def tx_Inr failT_def getDB_def modifyDB_def split: if_splits)
qed

lemma emitT_runs: "emitT env actor tenantID agg ty payload w = (Inr seq, w') \<Longrightarrow>
    dbRuns (wDB w') = dbRuns (wDB w) \<and> dbProcessed (wDB w') = dbProcessed (wDB w)"
  by (auto simp: emitT_def tx_Inr freshID_def appendT_def split: sum.splits)

lemma select_one_update:
  assumes "select_one (\<lambda>v. vrID v = rid) rows = Some v" and "P v" and "\<And>x. vrID (f x) = vrID x"
  shows "select_one (\<lambda>v. vrID v = rid) (update_rows P f seq rows) = Some (f v)"
  using assms(1,2)
  by (induction rows) (auto simp: select_one_def select_def update_rows_def assms(3))

lemma select_one_SomeD: "select_one P rows = Some v \<Longrightarrow> P v"
  unfolding select_one_def select_def by (metis (no_types, lifting) filter_id_conv list.case_eq_if list.collapse
      list.set_intros(1) mem_Collect_eq option.inject option.simps(3) set_filter)

lemma dispatched_run:
  "let r = (case Run_Apply now v ''run.dispatched'' of Inl _ \<Rightarrow> v | Inr r \<Rightarrow> r) in
     vrID r = vrID v \<and> vrTenantID r = vrTenantID v \<and> vrFenceToken r = vrFenceToken v"
proof (cases "Run_Apply now v ''run.dispatched''")
  case (Inr r)
  then show ?thesis using Run_Apply_Inr [OF Inr] by auto
qed simp

lemma DispatchRunTx_fence:
  assumes "DispatchRunTx env run w = (Inr seq, w')" and "GetRunByID (wDB w) (vrID run) = Some v"
    and "vrState v = RunQueued" and "vrTenantID v = vrTenantID run"
  shows "\<exists>v'. GetRunByID (wDB w') (vrID run) = Some v' \<and> vrFenceToken v' = vrFenceToken run \<and> dbProcessed (wDB w') = dbProcessed (wDB w)"
proof -
  note run = dispatched_run [of run "envNow env", unfolded Let_def]
  let ?P = "\<lambda>v. vrID v = vrID run \<and> vrTenantID v = vrTenantID run \<and> vrState v = RunQueued"
  let ?f = "\<lambda>v. v\<lparr>vrState := RunDispatched, vrFenceToken := vrFenceToken run, vrDispatchedAt := Some (envNow env)\<rparr>"
  have "\<exists>s. dbRuns (wDB w') = update_rows ?P ?f s (dbRuns (wDB w)) \<and> dbProcessed (wDB w') = dbProcessed (wDB w)"
    using assms(1) unfolding DispatchRunTx_def Let_def
    by (auto simp: run tx_Inr getDB_def modifyDB_def failT_def dest!: emitT_runs split: if_splits)
  then obtain s where db: "dbRuns (wDB w') = update_rows ?P ?f s (dbRuns (wDB w))" "dbProcessed (wDB w') = dbProcessed (wDB w)" by blast
  have "vrID v = vrID run" using assms(2) by (auto simp: GetRunByID_def dest: select_one_SomeD)
  with assms have "select_one (\<lambda>v. vrID v = vrID run) (update_rows ?P ?f s (dbRuns (wDB w))) = Some (?f v)"
    by (intro select_one_update) (simp_all add: GetRunByID_def)
  with db show ?thesis by (simp add: GetRunByID_def)
qed

lemma dispatchOne_fence:
  assumes "dispatchOne env rid reservation w = (Inr 1, w')"
  shows "\<exists>run. GetRunByID (wDB w') rid = Some run \<and> vrFenceToken run = 1 \<and> dbProcessed (wDB w') = dbProcessed (wDB w)"
proof -
  obtain run0 where run0: "GetRunByID (wDB w) rid = Some run0" "vrState run0 = RunQueued"
    using assms by (auto simp: dispatchOne_def tx_Inr getDB_def failT_def Let_def split: option.splits if_splits)
  have ident: "vrID run0 = rid" using run0(1) by (auto simp: GetRunByID_def dest: select_one_SomeD)
  define r where "r = (if envMaterialize env run0 \<noteq> []
    then run0\<lparr>vrJobSpec := (vrJobSpec run0)\<lparr>jsPreFetchedBundleRef := envMaterialize env run0\<rparr>\<rparr> else run0)\<lparr>vrFenceToken := 1\<rparr>"
  have r: "vrID r = rid" "vrTenantID r = vrTenantID run0" "vrFenceToken r = 1" using ident by (simp_all add: r_def)
  obtain seq w1 where disp: "DispatchRunTx env r w = (Inr seq, w1)"
      and rest: "dbRuns (wDB w') = dbRuns (wDB w1) \<and> dbProcessed (wDB w') = dbProcessed (wDB w1)"
  proof -
    have "\<exists>seq w1. DispatchRunTx env r w = (Inr seq, w1) \<and> dbRuns (wDB w') = dbRuns (wDB w1) \<and> dbProcessed (wDB w') = dbProcessed (wDB w1)"
      using assms run0 unfolding dispatchOne_def Let_def bindT_Inr getDB_def
      by (auto simp: r_def tx_Inr failT_def liftT_def dest!: keeps_runs_ReserveBudgets split: option.splits if_split_asm)
    then show thesis using that by blast
  qed
  from DispatchRunTx_fence [OF disp] run0 r rest show ?thesis by (auto simp: GetRunByID_def)
qed



end
