(* ===== verification/Engine_Decisions.thy ===== *)
theory Engine_Decisions
  imports Engine_Safety
begin

text \<open>
  What the engine may record. \<open>maybeRenderEligible_run\<close> says when an eligible decision is appended and what it
  cites; the frame of \<open>elig_kept\<close> lifts it to every reachable state (one eligible decision per candidate, and
  only as its first), and the relation \<open>justified\<close> follows one completion through its transaction: evidence is
  earned by the completed job, eligible decisions are backed by evidence for every required kind. Steps that touch
  neither are \<open>quiet\<close>; the locale \<open>quiet_closed\<close> sequences them with the ones that do.
\<close>


subsection \<open>What a rendered decision adds\<close>

definition facts_same :: "DB \<Rightarrow> DB \<Rightarrow> bool" where
  "facts_same db db' \<longleftrightarrow> dbDecisions db' = dbDecisions db \<and> dbEvidence db' = dbEvidence db"

interpretation facts: effect_frame facts_same env for env
  by unfold_locales (simp_all add: facts_same_def)

lemma facts_keepsD: "keeps facts_same m \<Longrightarrow> m w = (r, w') \<Longrightarrow>
    dbDecisions (wDB w') = dbDecisions (wDB w) \<and> dbEvidence (wDB w') = dbEvidence (wDB w)"
  using keepsD [of facts_same m w r w'] by (simp add: facts_same_def)

definition is_decision_for :: "renderRequest \<Rightarrow> Decision \<Rightarrow> bool" where
  "is_decision_for req d \<longleftrightarrow> decTenantID d = rrqTenantID req \<and> decSubjectType d = SubjectCandidate \<and>
     decSubjectID d = rrqCandidateID req \<and> decVerb d = rrqVerb req \<and> decEvidenceRefs d = rrqEvidenceRefs req \<and>
     decPolicy d = rrqPolicy req \<and> decInputsHash d = rrqInputsHash req"

lemma InsertDecisionTx_run:
  "InsertDecisionTx d seq w = (r, w') \<Longrightarrow> dbEvidence (wDB w') = dbEvidence (wDB w) \<and>
     (dbDecisions (wDB w') = dbDecisions (wDB w) \<or> dbDecisions (wDB w') = dbDecisions (wDB w) @ [\<lparr>rowSeq = seq, rowVal = d\<rparr>])"
  by (auto simp: InsertDecisionTx_def tx_defs split: if_splits)

text \<open>Outcomes of an action on the recorded facts: \<open>adds P m\<close> when \<open>m\<close> leaves the evidence and
  appends at most one decision, which satisfies \<open>P\<close>.\<close>

definition adds :: "(Decision \<Rightarrow> bool) \<Rightarrow> 'a tx \<Rightarrow> bool" where
  "adds P m \<longleftrightarrow> (\<forall>w r w'. m w = (r, w') \<longrightarrow> dbEvidence (wDB w') = dbEvidence (wDB w) \<and>
     (dbDecisions (wDB w') = dbDecisions (wDB w) \<or> (\<exists>row. dbDecisions (wDB w') = dbDecisions (wDB w) @ [row] \<and> P (rowVal row))))"

lemma adds_same: "keeps facts_same m \<Longrightarrow> adds P m"
  by (auto simp: adds_def dest: facts_keepsD)

lemma adds_insert: "P d \<Longrightarrow> adds P (InsertDecisionTx d seq)"
  unfolding adds_def using InsertDecisionTx_run by fastforce

lemma adds_before:
  assumes "keeps facts_same m" and "\<And>x. adds P (f x)"
  shows "adds P (bindT m f)"
  unfolding adds_def
proof (intro allI impI)
  fix w r w'
  assume run: "bindT m f w = (r, w')"
  obtain r1 w1 where m: "m w = (r1, w1)" by fastforce
  note same = facts_keepsD [OF assms(1) m]
  show "dbEvidence (wDB w') = dbEvidence (wDB w) \<and> (dbDecisions (wDB w') = dbDecisions (wDB w) \<or>
      (\<exists>row. dbDecisions (wDB w') = dbDecisions (wDB w) @ [row] \<and> P (rowVal row)))"
  proof (cases r1)
    case (Inl e)
    with run m same show ?thesis by (simp add: bindT_def)
  next
    case (Inr x)
    with run m have "f x w1 = (r, w')" by (simp add: bindT_def)
    with assms(2) [of x] have "dbEvidence (wDB w') = dbEvidence (wDB w1) \<and> (dbDecisions (wDB w') = dbDecisions (wDB w1) \<or>
        (\<exists>row. dbDecisions (wDB w') = dbDecisions (wDB w1) @ [row] \<and> P (rowVal row)))"
      unfolding adds_def by blast
    with same show ?thesis by simp
  qed
qed

lemma adds_after:
  assumes "adds P m" and "\<And>x. keeps facts_same (f x)"
  shows "adds P (bindT m f)"
  unfolding adds_def
proof (intro allI impI)
  fix w r w'
  assume run: "bindT m f w = (r, w')"
  obtain r1 w1 where m: "m w = (r1, w1)" by fastforce
  have add: "dbEvidence (wDB w1) = dbEvidence (wDB w) \<and> (dbDecisions (wDB w1) = dbDecisions (wDB w) \<or>
      (\<exists>row. dbDecisions (wDB w1) = dbDecisions (wDB w) @ [row] \<and> P (rowVal row)))"
    using assms(1) m by (simp add: adds_def)
  show "dbEvidence (wDB w') = dbEvidence (wDB w) \<and> (dbDecisions (wDB w') = dbDecisions (wDB w) \<or>
      (\<exists>row. dbDecisions (wDB w') = dbDecisions (wDB w) @ [row] \<and> P (rowVal row)))"
  proof (cases r1)
    case (Inl e)
    with run m add show ?thesis by (simp add: bindT_def)
  next
    case (Inr x)
    with run m have "f x w1 = (r, w')" by (simp add: bindT_def)
    from facts_keepsD [OF assms(2) this] add show ?thesis by simp
  qed
qed

lemma renderDecision_adds: "adds (is_decision_for req) (renderDecision env pool req)"
proof -
  have verb: "keeps facts_same (case rrqVerb req of
      VerbEligibleForMergeTrain \<Rightarrow> thenT (MarkPlanSatisfiedTx (rrqTenantID req) (rrqPlanID req) seq)
          (thenT (MarkCandidateStateTx (rrqTenantID req) (rrqCandidateID req) CandEligible live_states seq)
          (propagateSupersession env pool (rrqTenantID req) i))
    | VerbRejected \<Rightarrow> MarkCandidateStateTx (rrqTenantID req) (rrqCandidateID req) CandRejected live_states seq
    | VerbDeferred \<Rightarrow> returnT ())" for seq i
    by (auto intro!: facts.r_rules facts.r_plan_satisfied facts.r_live_states facts.r_propagate split: DecisionVerb.split)
  show ?thesis
  proof (cases "GetCandidate pool (rrqTenantID req) (rrqCandidateID req)")
    case None
    then show ?thesis unfolding renderDecision_def by (simp add: adds_same facts.r_fail)
  next
    case (Some cand)
    show ?thesis
      unfolding renderDecision_def Some option.simps Let_def thenT_def [of "InsertDecisionTx _ _"]
      by (intro adds_before [OF facts.r_fresh] adds_before [OF facts.r_emit] adds_after [OF adds_insert]
          facts.r_then [OF verb facts.r_revoke]) (simp add: is_decision_for_def)
  qed
qed

text \<open>A decision of verb eligible appended by \<^verbatim>\<open>maybeRenderEligible\<close>, and what the database looked like when it
  was rendered.\<close>

definition eligible_basis :: "DB \<Rightarrow> string \<Rightarrow> string \<Rightarrow> ValidationPlan \<Rightarrow> EvidenceRef option \<Rightarrow> bool" where
  "eligible_basis db tenantID candidateID plan extra \<longleftrightarrow>
     LatestDecisionForCandidateTx db tenantID candidateID = None \<and>
     CountFailedRequiredRunsTx db tenantID candidateID (vpRequiredEvidenceKinds plan) \<le> 0 \<and>
     CandidateStateByID db tenantID candidateID \<notin> Some ` {CandRepairing, CandEligible, CandRejected, CandSuperseded, CandCancelled} \<and>
     1 \<le> evidenceSufficiency (vpRequiredEvidenceKinds plan)
       (AcceptedEvidenceRefsForCandidateTx db tenantID candidateID @ (case extra of None \<Rightarrow> [] | Some r \<Rightarrow> [r]))"

lemma eligibilityBlockReason_empty:
  "eligibilityBlockReason st n = [] \<longleftrightarrow> \<not> CandidateState_Terminal st \<and> st \<noteq> CandRepairing \<and> n \<le> 0"
  by (simp add: eligibilityBlockReason_def fmtCandidateTerminal_def)

lemma maybeRenderEligible_run:
  assumes "maybeRenderEligible env pool tenantID candidateID plan extra w = (r, w')"
  shows "dbEvidence (wDB w') = dbEvidence (wDB w) \<and> (dbDecisions (wDB w') = dbDecisions (wDB w) \<or>
    eligible_basis (wDB w) tenantID candidateID plan extra \<and>
    (\<exists>row. dbDecisions (wDB w') = dbDecisions (wDB w) @ [row] \<and> decTenantID (rowVal row) = tenantID \<and>
      decSubjectType (rowVal row) = SubjectCandidate \<and> decSubjectID (rowVal row) = candidateID \<and>
      decVerb (rowVal row) = VerbEligibleForMergeTrain \<and> decPolicy (rowVal row) = vpPolicy plan \<and>
      decEvidenceRefs (rowVal row) = map refID (AcceptedEvidenceRefsForCandidateTx (wDB w) tenantID candidateID @
        (case extra of None \<Rightarrow> [] | Some r \<Rightarrow> [r]))))"
proof (cases "eligible_basis (wDB w) tenantID candidateID plan extra")
  case True
  let ?req = "\<lparr>rrqTenantID = tenantID, rrqCandidateID = candidateID, rrqPlanID = vpID plan,
          rrqVerb = VerbEligibleForMergeTrain, rrqPolicy = vpPolicy plan, rrqSummary = ''all required evidence kinds accepted'',
          rrqEvidenceRefs = map refID (AcceptedEvidenceRefsForCandidateTx (wDB w) tenantID candidateID @
            (case extra of None \<Rightarrow> [] | Some r \<Rightarrow> [r])), rrqInputsHash = vpInputsHash plan\<rparr>"
  have "maybeRenderEligible env pool tenantID candidateID plan extra w = renderDecision env pool ?req w"
    using True
    by (auto simp: maybeRenderEligible_def bindT_def getDB_def Let_def eligible_basis_def eligibilityBlockReason_empty
        CandidateState_Terminal_def split: option.split)
  with assms have "renderDecision env pool ?req w = (r, w')" by simp
  with renderDecision_adds [of ?req env pool] True show ?thesis
    unfolding adds_def is_decision_for_def by fastforce
next
  case False
  then have "maybeRenderEligible env pool tenantID candidateID plan extra w = (Inr (), w)"
    by (auto simp: maybeRenderEligible_def bindT_def getDB_def returnT_def Let_def eligible_basis_def eligibilityBlockReason_empty
        CandidateState_Terminal_def split: option.split)
  with assms show ?thesis by simp
qed

subsection \<open>An eligible decision is a candidate's first\<close>

definition same_subject :: "Decision \<Rightarrow> Decision \<Rightarrow> bool" where
  "same_subject a b \<longleftrightarrow> decSubjectType a = SubjectCandidate \<and> decSubjectType b = SubjectCandidate \<and>
     decTenantID a = decTenantID b \<and> decSubjectID a = decSubjectID b"

definition elig_first :: "DB \<Rightarrow> bool" where
  "elig_first db \<longleftrightarrow> sorted_wrt (\<lambda>a b. same_subject a b \<longrightarrow> decVerb b \<noteq> VerbEligibleForMergeTrain) (map rowVal (dbDecisions db))"

lemma elig_first_append:
  "elig_first (db\<lparr>dbDecisions := dbDecisions db @ [row]\<rparr>) \<longleftrightarrow> elig_first db \<and>
     (decVerb (rowVal row) = VerbEligibleForMergeTrain \<longrightarrow> (\<forall>r \<in> set (dbDecisions db). \<not> same_subject (rowVal r) (rowVal row)))"
  by (auto simp: elig_first_def sorted_wrt_append)

lemma elig_first_cong: "dbDecisions db' = dbDecisions db \<Longrightarrow> elig_first db' \<longleftrightarrow> elig_first db"
  by (simp add: elig_first_def)

lemma no_latest_decision:
  "LatestDecisionForCandidateTx db tenantID candidateID = None \<longleftrightarrow>
     (\<forall>r \<in> set (dbDecisions db). \<not> (decTenantID (rowVal r) = tenantID \<and> decSubjectType (rowVal r) = SubjectCandidate \<and>
        decSubjectID (rowVal r) = candidateID))"
proof -
  let ?ds = "select (\<lambda>d. decTenantID d = tenantID \<and> decSubjectType d = SubjectCandidate \<and> decSubjectID d = candidateID) (dbDecisions db)"
  have "LatestDecisionForCandidateTx db tenantID candidateID = None \<longleftrightarrow> sort_by (\<lambda>a b. decRenderedAt a > decRenderedAt b) ?ds = []"
    by (simp add: LatestDecisionForCandidateTx_def split: list.split)
  also have "\<dots> \<longleftrightarrow> ?ds = []" by (simp only: length_0_conv [symmetric] length_sort_by)
  also have "\<dots> \<longleftrightarrow> (\<forall>r \<in> set (dbDecisions db). \<not> (decTenantID (rowVal r) = tenantID \<and>
      decSubjectType (rowVal r) = SubjectCandidate \<and> decSubjectID (rowVal r) = candidateID))"
    by (simp add: select_def filter_empty_conv)
  finally show ?thesis .
qed

definition elig_kept :: "DB \<Rightarrow> DB \<Rightarrow> bool" where
  "elig_kept db db' \<longleftrightarrow> (elig_first db \<longrightarrow> elig_first db')"

lemma maybeRenderEligible_elig_kept: "keeps elig_kept (maybeRenderEligible env pool tenantID candidateID plan extra)"
  unfolding keeps_def elig_kept_def
proof (intro allI impI)
  fix w :: World
  assume first: "elig_first (wDB w)"
  obtain r w' where run: "maybeRenderEligible env pool tenantID candidateID plan extra w = (r, w')" by fastforce
  from maybeRenderEligible_run [OF run]
  consider "dbDecisions (wDB w') = dbDecisions (wDB w)"
    | row where "eligible_basis (wDB w) tenantID candidateID plan extra" "dbDecisions (wDB w') = dbDecisions (wDB w) @ [row]"
        "decTenantID (rowVal row) = tenantID" "decSubjectID (rowVal row) = candidateID"
    by blast
  then have "elig_first (wDB w')"
  proof cases
    case 1
    with first show ?thesis by (simp add: elig_first_def)
  next
    case 2
    then have "\<forall>r \<in> set (dbDecisions (wDB w)). \<not> same_subject (rowVal r) (rowVal row)"
      by (auto simp: eligible_basis_def no_latest_decision same_subject_def)
    then have "elig_first ((wDB w)\<lparr>dbDecisions := dbDecisions (wDB w) @ [row]\<rparr>)"
      using first by (simp add: elig_first_append)
    with 2 show ?thesis by (simp add: elig_first_def)
  qed
  with run show "elig_first (wDB (snd (maybeRenderEligible env pool tenantID candidateID plan extra w)))" by simp
qed

interpretation once: engine_frame elig_kept env for env
proof
  show "decVerb (rowVal dr) \<noteq> VerbEligibleForMergeTrain \<Longrightarrow> elig_kept db (db\<lparr>dbDecisions := dbDecisions db @ [dr]\<rparr>)" for dr db
    by (simp add: elig_kept_def elig_first_append)
  show "keeps elig_kept (maybeRenderEligible env pool tenantID candidateID plan extra)" for env pool tenantID candidateID plan extra
    by (rule maybeRenderEligible_elig_kept)
qed (simp_all add: elig_kept_def elig_first_def)

text \<open>At most one eligible decision per candidate. However ticks and reconciliations interleave, in every reachable
  state an eligible decision is the first decision of its candidate: no candidate is declared eligible twice, and none
  after having been deferred or rejected.\<close>

theorem eligible_decision_is_first:
  assumes "engine_reach w w'" and "elig_first (wDB w)"
  shows "elig_first (wDB w')"
proof -
  have "elig_kept (wDB w) (wDB w')"
    by (rule reach_keeps [where Q = elig_kept, OF once.refl_Q once.trans_Q once.r_tick once.r_reconcile assms(1)])
  with assms(2) show ?thesis by (simp add: elig_kept_def)
qed

subsection \<open>What a completion may record\<close>

definition quiet :: "DB \<Rightarrow> DB \<Rightarrow> bool" where
  "quiet a b \<longleftrightarrow> dbEvidence b = dbEvidence a \<and> (\<exists>nd. dbDecisions b = dbDecisions a @ nd \<and>
     (\<forall>row \<in> set nd. decVerb (rowVal row) \<noteq> VerbEligibleForMergeTrain))"

lemma quiet_trans:
  assumes "quiet a b" and "quiet b c"
  shows "quiet a c"
proof -
  obtain n1 where 1: "dbDecisions b = dbDecisions a @ n1" "\<forall>row \<in> set n1. decVerb (rowVal row) \<noteq> VerbEligibleForMergeTrain"
    using assms(1) by (auto simp: quiet_def)
  obtain n2 where 2: "dbDecisions c = dbDecisions b @ n2" "\<forall>row \<in> set n2. decVerb (rowVal row) \<noteq> VerbEligibleForMergeTrain"
    using assms(2) by (auto simp: quiet_def)
  have "\<forall>row \<in> set (n1 @ n2). decVerb (rowVal row) \<noteq> VerbEligibleForMergeTrain" using 1 2 by auto
  moreover have "dbDecisions c = dbDecisions a @ (n1 @ n2)" using 1 2 by simp
  ultimately show ?thesis using assms unfolding quiet_def by metis
qed

interpretation silent: decision_frame quiet env for env
  by unfold_locales (auto simp: quiet_def intro: quiet_trans)

text \<open>An accepted, passing record of a kind for a candidate.\<close>

definition passing :: "string \<Rightarrow> string \<Rightarrow> string \<Rightarrow> EvidenceRecord \<Rightarrow> bool" where
  "passing tenantID candidateID kind e \<longleftrightarrow> evTenantID e = tenantID \<and> evCandidateID e = candidateID \<and> evKind e = kind \<and>
     evStatus e = EvidenceAccepted \<and> evVerdict e = ''pass''"

text \<open>A record earned by a completion: the job succeeded, its census shows passing tests and no failing one, and the
  record carries the job's digests under the plan's inputs hash and the lease of that attempt.\<close>

definition earned :: "CompletedJob \<Rightarrow> ValidationRun \<Rightarrow> ValidationPlan \<Rightarrow> EvidenceRecord \<Rightarrow> bool" where
  "earned job run plan e \<longleftrightarrow> cjStatus job = ''succeeded'' \<and> trFailed (evidenceCensusFromJob job) = 0 \<and>
     0 < trPassed (evidenceCensusFromJob job) \<and> evRunID e = vrID run \<and> evAttempt e = vrAttempt run \<and>
     passing (vrTenantID run) (vrCandidateID run) (jsKind (vrJobSpec run)) e \<and> evKind e \<in> set (vpRequiredEvidenceKinds plan) \<and>
     evDigests e = cjArtifactDigests job \<and> list_all isSHA256 (evDigests e) \<and> evInputsHash e = vpInputsHash plan \<and>
     ProducedByLease e = JTIBuilds (vrID run) (vrAttempt run) (cjFenceToken job)"

text \<open>The change of the recorded facts a completion of \<open>run\<close> may make: earned records, and eligible decisions only
  for the run's candidate, only as its first decision, and only once every required kind has a passing record.\<close>

definition backed_decision :: "ValidationRun \<Rightarrow> ValidationPlan \<Rightarrow> DB \<Rightarrow> DB \<Rightarrow> Decision \<Rightarrow> bool" where
  "backed_decision run plan a b d \<longleftrightarrow> decSubjectType d = SubjectCandidate \<and> decTenantID d = vrTenantID run \<and>
     decSubjectID d = vrCandidateID run \<and> LatestDecisionForCandidateTx a (vrTenantID run) (vrCandidateID run) = None \<and>
     (\<forall>k \<in> set (vpRequiredEvidenceKinds plan). k \<noteq> [] \<longrightarrow>
        (\<exists>r \<in> set (dbEvidence b). passing (vrTenantID run) (vrCandidateID run) k (rowVal r)))"

definition justified :: "CompletedJob \<Rightarrow> ValidationRun \<Rightarrow> ValidationPlan \<Rightarrow> DB \<Rightarrow> DB \<Rightarrow> bool" where
  "justified job run plan a b \<longleftrightarrow> (\<exists>ne nd. dbEvidence b = dbEvidence a @ ne \<and> dbDecisions b = dbDecisions a @ nd \<and>
     (\<forall>row \<in> set ne. earned job run plan (rowVal row)) \<and>
     (\<forall>row \<in> set nd. decVerb (rowVal row) = VerbEligibleForMergeTrain \<longrightarrow> backed_decision run plan a b (rowVal row)))"

lemma quiet_justified: "quiet a b \<Longrightarrow> justified job run plan a b"
  by (auto simp: quiet_def justified_def)

lemma backed_decision_mono:
  assumes "backed_decision run plan m m' d" and "set (dbDecisions a) \<subseteq> set (dbDecisions m)" and "set (dbEvidence m') \<subseteq> set (dbEvidence b)"
  shows "backed_decision run plan a b d"
  using assms unfolding backed_decision_def no_latest_decision by blast

lemma quiet_justified_left:
  assumes "quiet a m" and "justified job run plan m b"
  shows "justified job run plan a b"
proof -
  obtain n1 where q: "dbEvidence m = dbEvidence a" "dbDecisions m = dbDecisions a @ n1"
      "\<forall>row \<in> set n1. decVerb (rowVal row) \<noteq> VerbEligibleForMergeTrain"
    using assms(1) by (auto simp: quiet_def)
  obtain ne nd where j: "dbEvidence b = dbEvidence m @ ne" "dbDecisions b = dbDecisions m @ nd"
      "\<forall>row \<in> set ne. earned job run plan (rowVal row)"
      "\<forall>row \<in> set nd. decVerb (rowVal row) = VerbEligibleForMergeTrain \<longrightarrow> backed_decision run plan m b (rowVal row)"
    using assms(2) unfolding justified_def by blast
  have "\<forall>row \<in> set (n1 @ nd). decVerb (rowVal row) = VerbEligibleForMergeTrain \<longrightarrow> backed_decision run plan a b (rowVal row)"
    using q j(4) backed_decision_mono [of run plan m b _ a b] by auto
  moreover have "dbEvidence b = dbEvidence a @ ne" "dbDecisions b = dbDecisions a @ (n1 @ nd)" using q j by simp_all
  ultimately show ?thesis using j(3) unfolding justified_def by blast
qed

lemma justified_quiet_right:
  assumes "justified job run plan a m" and "quiet m b"
  shows "justified job run plan a b"
proof -
  obtain n1 where q: "dbEvidence b = dbEvidence m" "dbDecisions b = dbDecisions m @ n1"
      "\<forall>row \<in> set n1. decVerb (rowVal row) \<noteq> VerbEligibleForMergeTrain"
    using assms(2) by (auto simp: quiet_def)
  obtain ne nd where j: "dbEvidence m = dbEvidence a @ ne" "dbDecisions m = dbDecisions a @ nd"
      "\<forall>row \<in> set ne. earned job run plan (rowVal row)"
      "\<forall>row \<in> set nd. decVerb (rowVal row) = VerbEligibleForMergeTrain \<longrightarrow> backed_decision run plan a m (rowVal row)"
    using assms(1) unfolding justified_def by blast
  have "\<forall>row \<in> set (nd @ n1). decVerb (rowVal row) = VerbEligibleForMergeTrain \<longrightarrow> backed_decision run plan a b (rowVal row)"
    using q j(4) backed_decision_mono [of run plan a m _ a b] by auto
  moreover have "dbEvidence b = dbEvidence a @ ne" "dbDecisions b = dbDecisions a @ (nd @ n1)" using q j by simp_all
  ultimately show ?thesis using j(3) unfolding justified_def by blast
qed

text \<open>Relations that absorb quiet steps, and sequencing with quiet actions.\<close>

locale quiet_closed =
  fixes R :: "DB \<Rightarrow> DB \<Rightarrow> bool"
  assumes from_quiet: "quiet a b \<Longrightarrow> R a b"
    and quiet_left: "quiet a m \<Longrightarrow> R m b \<Longrightarrow> R a b"
    and quiet_right: "R a m \<Longrightarrow> quiet m b \<Longrightarrow> R a b"
begin

lemma after_quiet:
  assumes "keeps quiet m" and "\<And>x w1. m w = (Inr x, w1) \<Longrightarrow> R (wDB w1) (wDB (snd (f x w1)))"
  shows "R (wDB w) (wDB (snd (bindT m f w)))"
proof -
  obtain r w1 where m: "m w = (r, w1)" by fastforce
  note q = keepsD [OF assms(1) m]
  show ?thesis
  proof (cases r)
    case (Inl e)
    with m q show ?thesis by (simp add: bindT_def from_quiet)
  next
    case (Inr x)
    with m assms(2) [of x w1] q show ?thesis by (simp add: bindT_def quiet_left)
  qed
qed

lemma before_quiet:
  assumes "R (wDB w) (wDB (snd (m w)))" and "keeps quiet n"
  shows "R (wDB w) (wDB (snd (thenT m n w)))"
proof -
  obtain r w1 where m: "m w = (r, w1)" by fastforce
  show ?thesis
  proof (cases r)
    case (Inl e)
    with m assms(1) show ?thesis by (simp add: thenT_def bindT_def)
  next
    case (Inr x)
    have "quiet (wDB w1) (wDB (snd (n w1)))" using assms(2) by (simp add: keeps_def)
    with Inr m assms(1) show ?thesis by (simp add: thenT_def bindT_def quiet_right)
  qed
qed

lemma rollback: "R (wDB w) (wDB (snd (m w))) \<Longrightarrow> R (wDB w) (wDB (snd (withTx m w)))"
  by (auto simp: withTx_def case_prod_beta from_quiet quiet_def split: sum.split)

end

interpretation just: quiet_closed "justified job run plan" for job run plan
  by unfold_locales (fact quiet_justified, fact quiet_justified_left, fact justified_quiet_right)

lemma engine_census:
  assumes "evalAction (evidenceEvaluate rec ctx (Some c)) = ActionAccept" and "evVerdict rec = ''pass''"
  shows "trFailed c = 0 \<and> 0 < trPassed c \<and> list_all isSHA256 (evDigests rec)"
proof -
  let ?p = "\<lparr>ppID = evID rec, ppRunID = evRunID rec, ppCandidateID = evCandidateID rec, ppKind = evKind rec,
      ppVerdict = evVerdict rec, ppOutcome = (if trFailed c > 0 then ''failed'' else if trPassed c > 0 then ''passed'' else ''skipped''),
      ppResults = Some c, ppDigests = evDigests rec, ppInputsHash = evInputsHash rec,
      ppLeaseJTI = ProducedByLease rec, ppAttempt = evAttempt rec\<rparr>"
  have acc: "evalAction (Evaluate ?p ctx) = ActionAccept" using assms(1) by (simp add: evidenceEvaluate_def)
  then have outcome: "checkOutcome ?p = None" and results: "checkResults ?p = Inr ()" and wf: "checkWellFormed ?p = None"
    unfolding Evaluate_accept_iff by blast+
  have "\<not> trFailed c > 0" "trPassed c > 0"
    using outcome assms(2) by (auto simp: checkOutcome_def split: if_splits)
  moreover have "Valid_results c" using results by (simp add: checkResults_def split: if_splits)
  then have "0 \<le> trFailed c" by (simp add: Valid_results_def split: if_splits)
  moreover have "list_all isSHA256 (evDigests rec)"
    using wf by (simp add: checkWellFormed_def list_ex_iff list_all_iff split: if_splits)
  ultimately show ?thesis by simp
qed

lemma sufficient_refs:
  assumes "1 \<le> evidenceSufficiency kinds refs" and "k \<in> set kinds" and "k \<noteq> []"
  shows "\<exists>ref \<in> set refs. refKind ref = k"
proof -
  have "evidenceSufficiency kinds refs = 1"
    using assms(1) Sufficiency_bounds [of kinds] by (simp add: evidenceSufficiency_def antisym)
  then show ?thesis using assms(2,3) by (auto simp: evidenceSufficiency_def Sufficiency_one)
qed

lemma accepted_ref_passing:
  "ref \<in> set (AcceptedEvidenceRefsForCandidateTx db t c) \<Longrightarrow> \<exists>r \<in> set (dbEvidence db). passing t c (refKind ref) (rowVal r)"
  by (auto simp: AcceptedEvidenceRefsForCandidateTx_def select_def evidence_ref_def passing_def)

lemma maybeRender_justified:
  assumes extra: "\<And>ref. extra = Some ref \<Longrightarrow> \<exists>r \<in> set (dbEvidence (wDB w)). passing (vrTenantID run) (vrCandidateID run) (refKind ref) (rowVal r)"
  shows "justified job run plan (wDB w) (wDB (snd (maybeRenderEligible env pool (vrTenantID run) (vrCandidateID run) plan extra w)))"
proof -
  let ?t = "vrTenantID run" and ?c = "vrCandidateID run"
  let ?refs = "AcceptedEvidenceRefsForCandidateTx (wDB w) ?t ?c @ (case extra of None \<Rightarrow> [] | Some r \<Rightarrow> [r])"
  obtain r w' where run: "maybeRenderEligible env pool ?t ?c plan extra w = (r, w')" by fastforce
  note out = maybeRenderEligible_run [OF run]
  have backed: "\<exists>r \<in> set (dbEvidence (wDB w)). passing ?t ?c k (rowVal r)"
    if basis: "eligible_basis (wDB w) ?t ?c plan extra" and k: "k \<in> set (vpRequiredEvidenceKinds plan)" "k \<noteq> []" for k
  proof -
    have "1 \<le> evidenceSufficiency (vpRequiredEvidenceKinds plan) ?refs" using basis by (simp add: eligible_basis_def)
    then obtain ref where "ref \<in> set ?refs" "refKind ref = k" using sufficient_refs [OF _ k] by blast
    then show ?thesis using accepted_ref_passing [of ref "wDB w" ?t ?c] extra [of ref] by (auto split: option.splits)
  qed
  from out consider "dbEvidence (wDB w') = dbEvidence (wDB w)" "dbDecisions (wDB w') = dbDecisions (wDB w)"
    | row where "dbEvidence (wDB w') = dbEvidence (wDB w)" "eligible_basis (wDB w) ?t ?c plan extra"
        "dbDecisions (wDB w') = dbDecisions (wDB w) @ [row]" "decTenantID (rowVal row) = ?t"
        "decSubjectType (rowVal row) = SubjectCandidate" "decSubjectID (rowVal row) = ?c"
    by blast
  then have "justified job run plan (wDB w) (wDB w')"
  proof cases
    case 1
    then show ?thesis by (simp add: justified_def)
  next
    case 2
    then have "backed_decision run plan (wDB w) (wDB w') (rowVal row)"
      using backed by (simp add: backed_decision_def eligible_basis_def)
    with 2 show ?thesis by (simp add: justified_def)
  qed
  with run show ?thesis by simp
qed

text \<open>Inserting an earned record under a fresh id, then deciding.\<close>

lemma insert_then_render_justified:
  assumes fresh: "\<forall>row \<in> set (dbEvidence (wDB w)). evID (rowVal row) \<noteq> evID rec"
    and earned: "\<And>t1 t2. earned job run plan (rec\<lparr>AcceptedAt := t1, evCreatedAt := t2\<rparr>)"
    and kind: "refKind ref = evKind rec"
  shows "justified job run plan (wDB w) (wDB (snd (thenT (InsertEvidenceTx env rec seq)
    (maybeRenderEligible env pool (vrTenantID run) (vrCandidateID run) plan (Some ref)) w)))"
proof -
  let ?rest = "maybeRenderEligible env pool (vrTenantID run) (vrCandidateID run) plan (Some ref)"
  let ?row = "\<lparr>rowSeq = seq, rowVal = rec\<lparr>AcceptedAt := Some (envNow env), evCreatedAt := envNow env\<rparr>\<rparr>"
  obtain r w1 where ins: "InsertEvidenceTx env rec seq w = (r, w1)" by fastforce
  show ?thesis
  proof (cases r)
    case (Inl e)
    then have "w1 = w" using ins by (auto simp: InsertEvidenceTx_def tx_defs split: if_splits)
    with ins Inl show ?thesis by (simp add: thenT_def bindT_def quiet_justified quiet_def)
  next
    case (Inr x)
    with ins fresh have w1: "dbEvidence (wDB w1) = dbEvidence (wDB w) @ [?row]" "dbDecisions (wDB w1) = dbDecisions (wDB w)"
      by (auto simp: InsertEvidenceTx_def tx_defs list_ex_iff split: if_splits)
    have e: "earned job run plan (rowVal ?row)" using earned by simp
    then have "passing (vrTenantID run) (vrCandidateID run) (refKind ref) (rowVal ?row)"
      using kind by (auto simp: earned_def passing_def)
    then have "justified job run plan (wDB w1) (wDB (snd (?rest w1)))"
      by (intro maybeRender_justified) (auto simp: w1)
    then obtain ne nd where j: "dbEvidence (wDB (snd (?rest w1))) = dbEvidence (wDB w1) @ ne"
        "dbDecisions (wDB (snd (?rest w1))) = dbDecisions (wDB w1) @ nd" "\<forall>row \<in> set ne. earned job run plan (rowVal row)"
        "\<forall>row \<in> set nd. decVerb (rowVal row) = VerbEligibleForMergeTrain \<longrightarrow>
           backed_decision run plan (wDB w1) (wDB (snd (?rest w1))) (rowVal row)"
      unfolding justified_def by blast
    have "\<forall>row \<in> set nd. decVerb (rowVal row) = VerbEligibleForMergeTrain \<longrightarrow>
           backed_decision run plan (wDB w) (wDB (snd (?rest w1))) (rowVal row)"
      using j(4) w1(2) backed_decision_mono [of run plan "wDB w1" "wDB (snd (?rest w1))" _ "wDB w" "wDB (snd (?rest w1))"] by simp
    moreover have "dbEvidence (wDB (snd (?rest w1))) = dbEvidence (wDB w) @ (?row # ne)"
        "dbDecisions (wDB (snd (?rest w1))) = dbDecisions (wDB w) @ nd" "\<forall>row \<in> set (?row # ne). earned job run plan (rowVal row)"
      using j w1 e by simp_all
    ultimately have "justified job run plan (wDB w) (wDB (snd (?rest w1)))" unfolding justified_def by blast
    with ins Inr show ?thesis by (simp add: thenT_def bindT_def)
  qed
qed


lemma record_then_render_justified:
  assumes fresh: "\<forall>row \<in> set (dbEvidence (wDB w)). evID (rowVal row) \<noteq> evID rec"
    and earned: "\<And>t1 t2. evalAction outcome = ActionAccept \<Longrightarrow>
      earned job run plan (rec\<lparr>evStatus := EvidenceAccepted, AcceptedAt := t1, evCreatedAt := t2\<rparr>)"
    and kind: "refKind ref = evKind rec"
  shows "justified job run plan (wDB w) (wDB (snd ((if evalAction outcome \<noteq> ActionAccept
    then thenT (auditEvidenceTamperTx run kind outcome)
           (maybeRenderEligible env pool (vrTenantID run) (vrCandidateID run) plan None)
    else bindT (emitT env actor tenantID agg ty payload) (\<lambda>seq.
         thenT (InsertEvidenceTx env (rec\<lparr>evStatus := EvidenceAccepted\<rparr>) seq)
           (maybeRenderEligible env pool (vrTenantID run) (vrCandidateID run) plan (Some ref)))) w)))"
proof (cases "evalAction outcome = ActionAccept")
  case False
  have "justified job run plan (wDB w) (wDB (snd (thenT (auditEvidenceTamperTx run kind outcome)
           (maybeRenderEligible env pool (vrTenantID run) (vrCandidateID run) plan None) w)))"
    unfolding thenT_def by (rule just.after_quiet [OF silent.r_tamper maybeRender_justified]) simp
  with False show ?thesis by simp
next
  case True
  have "justified job run plan (wDB w) (wDB (snd (bindT (emitT env actor tenantID agg ty payload) (\<lambda>seq.
         thenT (InsertEvidenceTx env (rec\<lparr>evStatus := EvidenceAccepted\<rparr>) seq)
           (maybeRenderEligible env pool (vrTenantID run) (vrCandidateID run) plan (Some ref))) w)))"
  proof (rule just.after_quiet [OF silent.r_emit])
    fix seq w2
    assume "emitT env actor tenantID agg ty payload w = (Inr seq, w2)"
    from keepsD [OF silent.r_emit this] fresh
    have "\<forall>row \<in> set (dbEvidence (wDB w2)). evID (rowVal row) \<noteq> evID (rec\<lparr>evStatus := EvidenceAccepted\<rparr>)"
      by (simp add: quiet_def)
    then show "justified job run plan (wDB w2) (wDB (snd (thenT (InsertEvidenceTx env (rec\<lparr>evStatus := EvidenceAccepted\<rparr>) seq)
           (maybeRenderEligible env pool (vrTenantID run) (vrCandidateID run) plan (Some ref)) w2)))"
      by (rule insert_then_render_justified) (simp_all add: earned [OF True] kind)
  qed
  with True show ?thesis by simp
qed

lemma onRunSucceeded_justified:
  assumes plan: "ActivePlanForCandidate pool (vrTenantID run) (vrCandidateID run) = Some plan"
    and status: "cjStatus job = ''succeeded''"
    and fresh: "\<forall>n. \<forall>row \<in> set (dbEvidence (wDB w)). evID (rowVal row) \<noteq> envNewID env ''ev_'' n"
  shows "justified job run plan (wDB w) (wDB (snd (onRunSucceeded env pool run job w)))"
proof (cases "jsKind (vrJobSpec run) \<in> set (vpRequiredEvidenceKinds plan)")
  case False
  have "justified job run plan (wDB w) (wDB (snd (maybeRenderEligible env pool (vrTenantID run) (vrCandidateID run) plan None w)))"
    by (rule maybeRender_justified) simp
  with False show ?thesis by (simp add: onRunSucceeded_def plan)
next
  case True
  let ?jti = "JTIBuilds (vrID run) (vrAttempt run) (cjFenceToken job)"
  let ?rec = "\<lambda>ident. NewEvidenceRecord ident (vrTenantID run) (vrID run) (vrAttempt run) (vrCandidateID run) (jsKind (vrJobSpec run))
    ''pass'' (cjArtifactDigests job) (vpInputsHash plan) (jobSelectionConfidence plan) (cjCostMillicents job) ?jti (envNow env)"
  let ?outcome = "\<lambda>ident. evidenceEvaluate (?rec ident) (evidenceContext plan ?jti (AcceptedEvidenceForRun pool (vrTenantID run) (vrID run)))
    (Some (evidenceCensusFromJob job))"
  have earned: "earned job run plan ((?rec ident)\<lparr>evStatus := EvidenceAccepted, AcceptedAt := t1, evCreatedAt := t2\<rparr>)"
    if "evalAction (?outcome ident) = ActionAccept" for ident t1 t2
    using engine_census [OF that] True status by (simp add: NewEvidenceRecord_def earned_def passing_def)
  show ?thesis
    unfolding onRunSucceeded_def plan option.case Let_def
  proof (simp only: True not_True_eq_False if_False, rule just.after_quiet [OF silent.r_fresh])
    fix ident w1
    assume "freshID env ''ev_'' w = (Inr ident, w1)"
    then have "\<forall>row \<in> set (dbEvidence (wDB w1)). evID (rowVal row) \<noteq> evID (?rec ident)"
      using fresh by (auto simp: freshID_def NewEvidenceRecord_def)
    then show "justified job run plan (wDB w1) (wDB (snd ((if evalAction (?outcome ident) \<noteq> ActionAccept
        then thenT (auditEvidenceTamperTx run (jsKind (vrJobSpec run)) (?outcome ident))
               (maybeRenderEligible env pool (vrTenantID run) (vrCandidateID run) plan None)
        else bindT (emitT env ''scheduler'' (vrTenantID run) \<lparr>agType = ''evidence'', agID = ident\<rparr> ''evidence.recorded''
                (evidence_payload (?rec ident) (evalMeta (?outcome ident)))) (\<lambda>seq.
             thenT (InsertEvidenceTx env ((?rec ident)\<lparr>evStatus := EvidenceAccepted\<rparr>) seq)
               (maybeRenderEligible env pool (vrTenantID run) (vrCandidateID run) plan
                  (Some \<lparr>refID = ident, refKind = jsKind (vrJobSpec run), refAttempt = 0\<rparr>)))) w1)))"
      by (rule record_then_render_justified) (simp_all only: earned, simp add: NewEvidenceRecord_def)
  qed
qed

lemma succeeded_advance:
  assumes "appendCompletedTx env run job w = (Inr (run1, seq), w1)" and "cjStatus job = ''succeeded''"
  shows "vrID run1 = vrID run \<and> vrAttempt run1 = vrAttempt run \<and> vrTenantID run1 = vrTenantID run \<and>
    vrCandidateID run1 = vrCandidateID run \<and> vrJobSpec run1 = vrJobSpec run"
proof -
  have status: "''run.'' @ mapFleetStatus ''succeeded'' = ''run.succeeded''" by code_simp
  have "''run.succeeded'' \<noteq> ''run.retry''" by simp
  with Run_Apply_Inr [OF appendCompletedTx_Inr [OF assms(1), unfolded assms(2) status]] show ?thesis by auto
qed

lemma justified_cong:
  "vrID r1 = vrID r \<Longrightarrow> vrAttempt r1 = vrAttempt r \<Longrightarrow> vrTenantID r1 = vrTenantID r \<Longrightarrow> vrCandidateID r1 = vrCandidateID r \<Longrightarrow>
   vrJobSpec r1 = vrJobSpec r \<Longrightarrow> justified job r1 plan a b = justified job r plan a b"
  by (simp add: justified_def earned_def backed_decision_def)

definition quiet_or_justified :: "DB \<Rightarrow> ValidationRun \<Rightarrow> CompletedJob \<Rightarrow> DB \<Rightarrow> DB \<Rightarrow> bool" where
  "quiet_or_justified pool run job a b \<longleftrightarrow> quiet a b \<or> cjStatus job = ''succeeded'' \<and>
     (\<exists>plan. ActivePlanForCandidate pool (vrTenantID run) (vrCandidateID run) = Some plan \<and> justified job run plan a b)"

interpretation effect: quiet_closed "quiet_or_justified pool run job" for pool run job
  by unfold_locales
    (auto simp: quiet_or_justified_def intro: quiet_trans quiet_justified_left justified_quiet_right)

lemma onRun_effect:
  assumes "appendCompletedTx env run job w0 = (Inr (run1, seq), w1)"
    and fresh: "\<forall>n. \<forall>row \<in> set (dbEvidence (wDB w)). evID (rowVal row) \<noteq> envNewID env ''ev_'' n"
  shows "quiet_or_justified pool run job (wDB w) (wDB (snd ((if cjStatus job = ''succeeded'' then onRunSucceeded env pool run1 job
    else if cjStatus job = ''failed'' \<or> cjStatus job = ''timed_out'' then onRunFailed env pool run1 job else returnT ()) w)))"
proof (cases "cjStatus job = ''succeeded''")
  case False
  have "keeps quiet (if cjStatus job = ''failed'' \<or> cjStatus job = ''timed_out'' then onRunFailed env pool run1 job else returnT ())"
    by (intro silent.r_rules silent.r_failed)
  with False show ?thesis by (simp add: keeps_def quiet_or_justified_def)
next
  case True
  note same = succeeded_advance [OF assms(1) True]
  show ?thesis
  proof (cases "ActivePlanForCandidate pool (vrTenantID run1) (vrCandidateID run1)")
    case None
    with True show ?thesis by (simp add: onRunSucceeded_def failT_def quiet_or_justified_def quiet_def)
  next
    case (Some plan)
    have "justified job run1 plan (wDB w) (wDB (snd (onRunSucceeded env pool run1 job w)))"
      by (rule onRunSucceeded_justified [OF Some True fresh])
    with Some True same show ?thesis using justified_cong [of run1 run] by (simp add: quiet_or_justified_def)
  qed
qed

lemma completionTx_effect:
  assumes "\<forall>n. \<forall>row \<in> set (dbEvidence (wDB w)). evID (rowVal row) \<noteq> envNewID env ''ev_'' n"
  shows "quiet_or_justified pool run job (wDB w) (wDB (snd (completionTx env pool run job w)))"
  unfolding completionTx_def Let_def
proof (rule effect.after_quiet [OF silent.r_mark])
  let ?effects = "\<lambda>run1. if cjStatus job = ''succeeded'' then onRunSucceeded env pool run1 job
    else if cjStatus job = ''failed'' \<or> cjStatus job = ''timed_out'' then onRunFailed env pool run1 job else returnT ()"
  let ?clear = "thenT (ClearFeedRetriesTx completionConsumer [dedupeKey (cjRunID job) (cjFenceToken job)]) (returnT True)"
  let ?release = "\<lambda>(run1, seq). thenT (ReleaseBudgetsTx (vrTenantID run1) seq
      [(BudgetCPUMinutes, ActualCPUMinutes (cjDurationMS job) (vrEstDurationMS run1)), (BudgetConcurrentCandidates, 1)])
      (thenT (?effects run1) ?clear)"
  fix first w1
  assume mark: "MarkProcessedTx completionConsumer (dedupeKey (cjRunID job) (cjFenceToken job)) w = (Inr first, w1)"
  have "quiet_or_justified pool run job (wDB w1) (wDB (snd (bindT (appendCompletedTx env run job) ?release w1)))"
  proof (rule effect.after_quiet [OF silent.r_append_completed])
    fix x w2
    assume "appendCompletedTx env run job w1 = (Inr x, w2)"
    then obtain run1 seq where x: "x = (run1, seq)" and app: "appendCompletedTx env run job w1 = (Inr (run1, seq), w2)" by (cases x) simp
    have "quiet_or_justified pool run job (wDB w2) (wDB (snd (?release (run1, seq) w2)))"
      unfolding thenT_def [of "ReleaseBudgetsTx _ _ _"] split
    proof (rule effect.after_quiet [OF silent.r_release])
      fix y w3
      assume "ReleaseBudgetsTx (vrTenantID run1) seq [(BudgetCPUMinutes, ActualCPUMinutes (cjDurationMS job) (vrEstDurationMS run1)),
        (BudgetConcurrentCandidates, 1)] w2 = (Inr y, w3)"
      from keepsD [OF silent.r_release this] keepsD [OF silent.r_append_completed app] keepsD [OF silent.r_mark mark]
      have "dbEvidence (wDB w3) = dbEvidence (wDB w)" by (simp add: quiet_def)
      with assms show "quiet_or_justified pool run job (wDB w3) (wDB (snd (thenT (?effects run1) ?clear w3)))"
        by (intro effect.before_quiet onRun_effect [OF app] silent.r_rules silent.r_clear) simp
    qed
    then show "quiet_or_justified pool run job (wDB w2) (wDB (snd (?release x w2)))" unfolding x .
  qed
  then show "quiet_or_justified pool run job (wDB w1) (wDB (snd ((if \<not> first then returnT False
      else bindT (appendCompletedTx env run job) ?release) w1)))"
    by (auto simp: returnT_def quiet_or_justified_def quiet_def)
qed

lemma silent_keeps: "keeps quiet m \<Longrightarrow> quiet (wDB w) (wDB (snd (m w)))"
  by (simp add: keeps_def)

text \<open>C8: Invariants I-01 and I-02 at the level of the engine. Whatever a feed row says, applying it records nothing (no
  evidence and no eligible decision), or the row reports success and: every evidence record added was earned by it (its
  census has passing tests and no failing one, the digests are well formed and the job's own, under the plan's inputs hash
  and the lease of that attempt), and an eligible decision is added only for the run's candidate, only if the candidate
  had no decision before, and only when the new state holds an accepted passing record for each required kind. The
  hypothesis says that generated evidence ids are fresh.\<close>

theorem completion_effects_justified:
  assumes "applyCompletion env job w = (r, w')"
    and "\<forall>n. \<forall>row \<in> set (dbEvidence (wDB w)). evID (rowVal row) \<noteq> envNewID env ''ev_'' n"
  shows "quiet (wDB w) (wDB w') \<or> (cjStatus job = ''succeeded'' \<and> (\<exists>run plan. GetRunByID (wDB w) (cjRunID job) = Some run \<and>
    ActivePlanForCandidate (wDB w) (vrTenantID run) (vrCandidateID run) = Some plan \<and> justified job run plan (wDB w) (wDB w')))"
proof (cases "\<exists>run. GetRunByID (wDB w) (cjRunID job) = Some run \<and> \<not> stale_epoch run job \<and> \<not> is_diagnostic (wDB w) run")
  case True
  then obtain run where run: "GetRunByID (wDB w) (cjRunID job) = Some run" "\<not> stale_epoch run job" "\<not> is_diagnostic (wDB w) run" by blast
  then have "withTx (completionTx env (wDB w) run job) w = (r, w')" using assms(1) by (simp add: applyCompletion_eq)
  moreover have "quiet_or_justified (wDB w) run job (wDB w) (wDB (snd (completionTx env (wDB w) run job w)))"
    by (rule completionTx_effect [OF assms(2)])
  from effect.rollback [where m = "completionTx env (wDB w) run job", OF this]
  have "quiet_or_justified (wDB w) run job (wDB w) (wDB (snd (withTx (completionTx env (wDB w) run job) w)))" .
  ultimately have "quiet_or_justified (wDB w) run job (wDB w) (wDB w')" by simp
  with run(1) show ?thesis by (auto simp: quiet_or_justified_def)
next
  case False
  have "quiet (wDB w) (wDB (snd (applyCompletion env job w)))"
    using False by (auto simp: applyCompletion_eq split: option.split
        intro!: silent_keeps silent.r_rules silent.r_absorb silent.r_absorb_stale silent.r_mark)
  with assms(1) show ?thesis by simp
qed


definition sample_plan :: ValidationPlan where
  "sample_plan = NewValidationPlan ''plan_1'' (vrTenantID sample_run) (vrCandidateID sample_run) []
     [''hermetic_build'', ''selected_unit''] \<lparr>prPolicyID = ''pol_1'', prVersion = 1\<rparr> sample_hash 0"

definition passing_job :: CompletedJob where
  "passing_job = sample_job\<lparr>cjResults := Some \<lparr>trTotal = 3, trPassed = 3, trFailed = 0, trSkipped = 0, trQuarantined = 0\<rparr>\<rparr>"

definition planned_world :: World where
  "planned_world = world_of ((sample_db RunRunning)\<lparr>dbPlans := [\<lparr>rowSeq = 1, rowVal = sample_plan\<rparr>]\<rparr>)"

lemma planned_evidence:
  "map (\<lambda>row. evKind (rowVal row)) (dbEvidence (wDB (snd (applyCompletion sample_env passing_job planned_world)))) = [''hermetic_build'']"
  by code_simp

theorem completion_effects_justified_witness:
  "\<exists>run. GetRunByID (wDB planned_world) (cjRunID passing_job) = Some run \<and>
     justified passing_job run sample_plan (wDB planned_world) (wDB (snd (applyCompletion sample_env passing_job planned_world))) \<and>
     length (dbEvidence (wDB (snd (applyCompletion sample_env passing_job planned_world)))) = 1"
proof -
  have none: "dbEvidence (wDB planned_world) = []"
    by (simp add: planned_world_def world_of_def sample_db_def empty_db_def)
  have plan: "ActivePlanForCandidate (wDB planned_world) t c = Some plan \<Longrightarrow> plan = sample_plan" for t c plan
    by (auto simp: ActivePlanForCandidate_def planned_world_def world_of_def sample_db_def sort_by_def split: if_splits)
  have ev: "dbEvidence (wDB (snd (applyCompletion sample_env passing_job planned_world))) \<noteq> []"
    using planned_evidence by auto
  have "\<not> quiet (wDB planned_world) (wDB (snd (applyCompletion sample_env passing_job planned_world)))"
    using none ev by (simp add: quiet_def)
  then show ?thesis
    using completion_effects_justified [of sample_env passing_job planned_world
        "fst (applyCompletion sample_env passing_job planned_world)" "snd (applyCompletion sample_env passing_job planned_world)"]
      none plan arg_cong [OF planned_evidence, of length] by auto
qed

theorem eligible_decision_is_first_witness:
  "elig_first (wDB (snd (Tick sample_env [passing_job] planned_world)))"
proof -
  have "elig_first (wDB planned_world)"
    by (simp add: elig_first_def planned_world_def world_of_def sample_db_def empty_db_def)
  from eligible_decision_is_first [OF engine_reach.tick [OF engine_reach.start] this] show ?thesis .
qed

subsection \<open>References of an eligible decision\<close>

text \<open>The evidence a decision cites is read inside the transaction that has just inserted the new record, and the new
  record is appended once more: a decision rendered right after recording evidence cites that record twice.\<close>

lemma fresh_record_cited_twice:
  assumes "InsertEvidenceTx env rec seq w = (Inr x, w1)" and "\<forall>row \<in> set (dbEvidence (wDB w)). evID (rowVal row) \<noteq> evID rec"
    and "passing t c kind rec" and "refID ref = evID rec"
    and "maybeRenderEligible env pool t c plan (Some ref) w1 = (r, w')" and "dbDecisions (wDB w') = dbDecisions (wDB w1) @ [row]"
  shows "2 \<le> count_list (decEvidenceRefs (rowVal row)) (evID rec)"
proof -
  have "dbEvidence (wDB w1) = dbEvidence (wDB w) @ [\<lparr>rowSeq = seq, rowVal = rec\<lparr>AcceptedAt := Some (envNow env), evCreatedAt := envNow env\<rparr>\<rparr>]"
    using assms(1,2) by (auto simp: InsertEvidenceTx_def tx_defs list_ex_iff split: if_splits)
  then have "evID rec \<in> set (map refID (AcceptedEvidenceRefsForCandidateTx (wDB w1) t c))"
    using assms(3) by (auto simp: AcceptedEvidenceRefsForCandidateTx_def select_def evidence_ref_def passing_def)
  then have "1 \<le> count_list (map refID (AcceptedEvidenceRefsForCandidateTx (wDB w1) t c)) (evID rec)"
    by (metis count_list_0_iff less_one not_le)
  moreover have "decEvidenceRefs (rowVal row) = map refID (AcceptedEvidenceRefsForCandidateTx (wDB w1) t c @ [ref])"
    using maybeRenderEligible_run [OF assms(5)] assms(6) by auto
  ultimately show ?thesis using assms(4) by (simp add: count_list_append)
qed

end
