(* ===== verification/Planner.thy ===== *)
theory Planner
  imports Policy Domain
begin

text \<open>
  The validation planner: \<^verbatim>\<open>control-plane/internal/planner\<close>. Tier catalogs, the seven fallback
  triggers, the ladder composition of \<^verbatim>\<open>Plan\<close>, the reuse key \<^verbatim>\<open>HashInputs\<close> and the
  adapter \<^verbatim>\<open>EnginePlanner\<close> the API calls. The hexadecimal SHA-256 digest of a byte string is the
  parameter \<open>sha256hex\<close>; no law about it is assumed.
\<close>

subsection \<open>Tier catalogs (tier\_defaults.go)\<close>

definition TierAdmission :: int where "TierAdmission = 0"
definition TierLocal :: int where "TierLocal = 1"
definition TierContract :: int where "TierContract = 2"
definition TierSystem :: int where "TierSystem = 3"
definition TierIntegration :: int where "TierIntegration = 4"

lemmas tier_numbers [simp] = TierAdmission_def TierLocal_def TierContract_def TierSystem_def
  TierIntegration_def

record envelope =
  timeoutSeconds :: int
  costMillicents :: int
  envPool :: string

definition tierEnvelope :: "int \<rightharpoonup> envelope" where
  "tierEnvelope =
    [0 \<mapsto> \<lparr>timeoutSeconds = 60, costMillicents = 5000, envPool = ''fast''\<rparr>,
     1 \<mapsto> \<lparr>timeoutSeconds = 900, costMillicents = 20000, envPool = ''unit''\<rparr>,
     2 \<mapsto> \<lparr>timeoutSeconds = 1800, costMillicents = 150000, envPool = ''contract''\<rparr>,
     3 \<mapsto> \<lparr>timeoutSeconds = 3600, costMillicents = 1200000, envPool = ''system''\<rparr>,
     4 \<mapsto> \<lparr>timeoutSeconds = 5400, costMillicents = 4000000, envPool = ''merge_train''\<rparr>]"

record JobSpec =
  jName :: string
  jKind :: string
  jTimeoutSeconds :: int
  jEstCostMillicents :: int
  jPool :: string

definition job :: "int \<Rightarrow> string \<Rightarrow> string \<Rightarrow> JobSpec" where
  "job tier name kind =
    (let env = (case tierEnvelope tier of Some e \<Rightarrow> e
                | None \<Rightarrow> \<lparr>timeoutSeconds = 0, costMillicents = 0, envPool = []\<rparr>) in
     \<lparr>jName = name, jKind = kind, jTimeoutSeconds = timeoutSeconds env,
      jEstCostMillicents = costMillicents env, jPool = envPool env\<rparr>)"

definition tier0Jobs :: "JobSpec list" where
  "tier0Jobs =
    [job TierAdmission ''secret_scan'' ''secret_scan'',
     job TierAdmission ''format_lint'' ''format_lint'',
     job TierAdmission ''typecheck_lite'' ''typecheck_lite'',
     job TierAdmission ''diff_sanity'' ''diff_sanity'',
     job TierAdmission ''policy_admissibility'' ''policy_admissibility'']"

definition tier1SelectedJobs :: "JobSpec list" where
  "tier1SelectedJobs =
    [job TierLocal ''hermetic_build'' ''hermetic_build'',
     job TierLocal ''compile_affected_targets'' ''compile'',
     job TierLocal ''selected_unit_tests'' ''selected_unit'',
     job TierLocal ''sast_diff_scan'' ''sast_diff'']"

definition tier1FullJobs :: "JobSpec list" where
  "tier1FullJobs =
    [job TierLocal ''hermetic_build'' ''hermetic_build'',
     job TierLocal ''compile_affected_targets'' ''compile'',
     job TierLocal ''full_unit_suite'' ''selected_unit'',
     job TierLocal ''sast_diff_scan'' ''sast_diff'']"

definition tier2SelectedBase :: "JobSpec list" where
  "tier2SelectedBase =
    [job TierContract ''impacted_integration_tests'' ''integration'',
     job TierContract ''api_compat'' ''api_compat'',
     job TierContract ''schema_migration_compat'' ''migration_compat'',
     job TierContract ''dependency_license_check'' ''license_check'']"

definition tier2FullBase :: "JobSpec list" where
  "tier2FullBase =
    [job TierContract ''full_integration_suite'' ''integration'',
     job TierContract ''api_compat'' ''api_compat'',
     job TierContract ''schema_migration_compat'' ''migration_compat'',
     job TierContract ''dependency_license_check'' ''license_check'']"

definition tier2PaymentJob :: JobSpec where
  "tier2PaymentJob = job TierContract ''payment_contract_check'' ''payment_contract''"

definition tier2IdempotencyJob :: JobSpec where
  "tier2IdempotencyJob = job TierContract ''idempotency_race_probe'' ''idempotency_race''"

definition tier3Jobs :: "JobSpec list" where
  "tier3Jobs =
    [job TierSystem ''e2e_browser_mobile'' ''e2e'',
     job TierSystem ''load_affected_surfaces'' ''load'',
     job TierSystem ''fuzz_affected_surfaces'' ''fuzz'',
     job TierSystem ''preview_env_validation'' ''preview_env'']"

definition tier4Jobs :: "JobSpec list" where
  "tier4Jobs =
    [job TierIntegration ''merge_train_simulation'' ''integration_train'',
     job TierIntegration ''integrated_build_sign'' ''integrated_build'',
     job TierIntegration ''canary_gate'' ''canary_gate'']"

definition TierDefaultCost :: "int \<Rightarrow> int" where
  "TierDefaultCost tier = (case tierEnvelope tier of Some env \<Rightarrow> costMillicents env | None \<Rightarrow> 150000)"

definition TierDefaultTimeoutSeconds :: "int \<Rightarrow> int" where
  "TierDefaultTimeoutSeconds tier =
     (case tierEnvelope tier of Some env \<Rightarrow> timeoutSeconds env | None \<Rightarrow> 1800)"

subsection \<open>Evidence kinds (kinds.go)\<close>

definition jobKindByName :: "string \<rightharpoonup> string" where
  "jobKindByName = foldl (\<lambda>index j. index(jName j \<mapsto> jKind j)) Map.empty
     (concat [tier0Jobs, tier1SelectedJobs, tier1FullJobs, tier2SelectedBase, tier2FullBase,
        [tier2PaymentJob, tier2IdempotencyJob], tier3Jobs, tier4Jobs])"

definition EvidenceKindForJob :: "string \<Rightarrow> string" where
  "EvidenceKindForJob jobName =
     (case jobKindByName jobName of Some kind \<Rightarrow> kind | None \<Rightarrow> ''hermetic_build'')"

fun EvidenceKindsForJobs_loop :: "string list \<Rightarrow> string list \<Rightarrow> string list" where
  "EvidenceKindsForJobs_loop out [] = out"
| "EvidenceKindsForJobs_loop out (name # names) =
    (case jobKindByName name of
       None \<Rightarrow> EvidenceKindsForJobs_loop out names
     | Some kind \<Rightarrow> if contains_exact out kind then EvidenceKindsForJobs_loop out names
                    else EvidenceKindsForJobs_loop (out @ [kind]) names)"

definition EvidenceKindsForJobs :: "string list \<Rightarrow> string list" where
  "EvidenceKindsForJobs jobNames = EvidenceKindsForJobs_loop [] jobNames"

definition RequiredKindsCoveredByTier :: "string list \<Rightarrow> string list \<Rightarrow> string list" where
  "RequiredKindsCoveredByTier jobNames requiredKinds =
     filter (contains_exact requiredKinds) (EvidenceKindsForJobs jobNames)"

subsection \<open>Inputs\<close>

record PlanInput =
  piCandidateID :: string
  piIntentID :: string
  piTenantID :: string
  piRepo :: string
  piBaseSHA :: string
  piHeadSHA :: string
  piPatchRef :: string
  piRiskClass :: string
  piChangedPaths :: "string list"
  piLockfiles :: "string list"
  piFlags :: "string list"
  piToolchain :: string
  piSelectionConfidence :: "float64 option"
  piSurfaceSamples :: "string \<rightharpoonup> int"
  piQuarantinedOrFlakeSignals :: "string list"
  piComposingIntegrationSet :: bool
  piRelationConflicting :: bool
  piAmbiguousRetryFailureConfidence :: "float64 option"
  piExplicitFullSuiteOverride :: bool

record TierPlan =
  tpTier :: int
  tpJobs :: "string list"
  tpRationale :: string
  tpSelectionConfidence :: "float64 option"

record PolicyStamp =
  psPolicyID :: string
  psVersion :: int

record EnginePlan =
  epCandidateID :: string
  epPolicyRef :: PolicyStamp
  epTiers :: "TierPlan list"
  epRequiredEvidenceKinds :: "string list"
  epInputsHash :: string
  epFallbackTriggers :: "string list"

subsection \<open>Surface classes and selection confidence (surfaces.go)\<close>

text \<open>The inner loop: the bytes before the first slash, or \<^verbatim>\<open>_root\<close> when there is none.\<close>

fun surface_class :: "string \<Rightarrow> string \<Rightarrow> string" where
  "surface_class pre [] = ''_root''"
| "surface_class pre (c # cs) = (if c = CHR ''/'' then pre else surface_class (pre @ [c]) cs)"

definition SurfaceClasses :: "string list \<Rightarrow> string list" where
  "SurfaceClasses paths = sortStrings (dedupe_seen [] (map (surface_class []) paths))"

definition effectiveSelectionConfidence :: "PlanInput \<Rightarrow> float64" where
  "effectiveSelectionConfidence inp =
    (case piSelectionConfidence inp of
       None \<Rightarrow> 1 / 2
     | Some c \<Rightarrow> if c < 0 then 0 else if c > 1 then 1 else c)"

subsection \<open>Fallback triggers (triggers.go)\<close>

definition FallbackUncertainty :: string where "FallbackUncertainty = ''uncertainty_gt_0.02''"
definition FallbackSparseHistory :: string where "FallbackSparseHistory = ''sparse_history_lt_20''"
definition FallbackProtectedPaths :: string where "FallbackProtectedPaths = ''protected_paths''"
definition FallbackFlakeSignal :: string where
  "FallbackFlakeSignal = ''flake_signal_or_quarantine_14d''"
definition FallbackConflictCompose :: string where "FallbackConflictCompose = ''conflicting_composition''"
definition FallbackAmbiguousRetry :: string where "FallbackAmbiguousRetry = ''ambiguous_failure_after_retry''"
definition FallbackExplicitOverride :: string where "FallbackExplicitOverride = ''explicit_override''"

lemmas fallback_names = FallbackUncertainty_def FallbackSparseHistory_def FallbackProtectedPaths_def
  FallbackFlakeSignal_def FallbackConflictCompose_def FallbackAmbiguousRetry_def
  FallbackExplicitOverride_def

definition matchAnyPath :: "string \<Rightarrow> string list \<Rightarrow> bool" where
  "matchAnyPath pattern paths = list_ex (\<lambda>p. planner_MatchGlob pattern p) paths"

definition evaluateFallbacks :: "PlanInput \<Rightarrow> PolicyBody \<Rightarrow> string list" where
  "evaluateFallbacks inp body =
    (let conf = effectiveSelectionConfidence inp in
     (if conf < MinSelectionConfidence (pbLadderOverrides body) then [FallbackUncertainty] else []) @
     (if list_ex (\<lambda>cls. get0 (piSurfaceSamples inp) cls < 20) (SurfaceClasses (piChangedPaths inp))
      then [FallbackSparseHistory] else []) @
     (if list_ex (\<lambda>p. matchAnyPath p (piChangedPaths inp)) (ProtectedPaths (pbLadderOverrides body))
      then [FallbackProtectedPaths] else []) @
     (if piQuarantinedOrFlakeSignals inp \<noteq> [] then [FallbackFlakeSignal] else []) @
     (if piComposingIntegrationSet inp \<or> piRelationConflicting inp then [FallbackConflictCompose] else []) @
     (case piAmbiguousRetryFailureConfidence inp of
        None \<Rightarrow> [] | Some c \<Rightarrow> if c < 8 / 10 then [FallbackAmbiguousRetry] else []) @
     (if piExplicitFullSuiteOverride inp then [FallbackExplicitOverride] else []))"

subsection \<open>Ladder helpers (ladder.go)\<close>

fun joinComma :: "string list \<Rightarrow> string" where
  "joinComma [] = []"
| "joinComma [p] = p"
| "joinComma (p # q # ps) = p @ '','' @ joinComma (q # ps)"

definition tierPlan :: "int \<Rightarrow> string list \<Rightarrow> string \<Rightarrow> TierPlan" where
  "tierPlan tier jobs rationale =
     \<lparr>tpTier = tier, tpJobs = jobs, tpRationale = rationale, tpSelectionConfidence = None\<rparr>"

definition specNames :: "JobSpec list \<Rightarrow> string list" where
  "specNames jobs = map jName jobs"

definition joinFallbackRationale :: "string list \<Rightarrow> string" where
  "joinFallbackRationale triggers = joinComma (map (\<lambda>t. ''fallback:'' @ t) triggers)"

definition widenTier2 :: "JobSpec list \<Rightarrow> JobSpec list" where
  "widenTier2 jobs =
     map (\<lambda>j. if jName j = ''impacted_integration_tests'' then tier2FullBase ! 0 else j) jobs"

definition composeTier2Jobs :: "string list \<Rightarrow> JobSpec list" where
  "composeTier2Jobs required = tier2SelectedBase @
     concat (map (\<lambda>k. if k = ''payment_contract'' then [tier2PaymentJob]
                      else if k = ''idempotency_race'' then [tier2IdempotencyJob] else []) required)"

definition explicitUncertaintyFallback :: "string list \<Rightarrow> bool" where
  "explicitUncertaintyFallback triggers \<longleftrightarrow>
     list_ex (\<lambda>t. t = FallbackUncertainty \<or> t = FallbackExplicitOverride) triggers"

definition tier3Rationale :: "PlanInput \<Rightarrow> PolicyBody \<Rightarrow> string list \<Rightarrow> string" where
  "tier3Rationale inp body triggers =
    (if contains_exact (Tier3RiskClasses (pbLadderOverrides body)) (piRiskClass inp)
     then ''policy_tier3_risk_class''
     else joinComma
       ((if piExplicitFullSuiteOverride inp then [''explicit_override''] else []) @
        (if contains_exact triggers FallbackUncertainty then [joinFallbackRationale triggers] else [])))"

definition tier4Rationale :: "PlanInput \<Rightarrow> string list \<Rightarrow> string" where
  "tier4Rationale inp triggers =
    (if piComposingIntegrationSet inp \<and> triggers \<noteq> []
     then joinComma [''composition_validation'', joinFallbackRationale triggers]
     else if piComposingIntegrationSet inp then ''composition_validation''
     else ''explicit_override'')"

subsection \<open>Reuse key (inputs\_hash.go)\<close>

record InputsMaterial =
  imBaseSHA :: string
  imLockfiles :: "string list"
  imFlags :: "string list"
  imToolchain :: string

text \<open>\<open>nl\<close> is the newline byte.\<close>

definition nl :: string where "nl = [CHR 0x0A]"

definition inputs_serialization :: "InputsMaterial \<Rightarrow> string" where
  "inputs_serialization m =
     ''base_sha='' @ imBaseSHA m @ nl @ ''lockfiles='' @ joinComma (sort (imLockfiles m)) @
     nl @ ''flags='' @ joinComma (sort (imFlags m)) @ nl @ ''toolchain='' @ imToolchain m"

definition HashInputs :: "(string \<Rightarrow> string) \<Rightarrow> InputsMaterial \<Rightarrow> string" where
  "HashInputs sha256hex m = ''sha256:'' @ sha256hex (inputs_serialization m)"

subsection \<open>Plan (plan.go)\<close>

datatype PlannerErr = ErrInvalidInput | PlannerPolicyErr PolicyErr

definition validateInput :: "PlanInput \<Rightarrow> PlannerErr option" where
  "validateInput inp =
    (if piCandidateID inp = [] then Some ErrInvalidInput
     else if piBaseSHA inp = [] \<or> piHeadSHA inp = [] \<or> piBaseSHA inp = piHeadSHA inp
     then Some ErrInvalidInput
     else None)"

definition Plan :: "(string \<Rightarrow> string) \<Rightarrow> PlanInput \<Rightarrow> ResolvedPolicy \<Rightarrow> PlannerErr + EnginePlan" where
  "Plan sha256hex inp rp =
    (case validateInput inp of Some err \<Rightarrow> Inl err | None \<Rightarrow>
     if rpPolicyID rp = [] \<or> rpVersion rp \<le> 0 then Inl ErrInvalidInput
     else let body = rpBody rp in
     case pbRequiredEvidenceByRisk body (piRiskClass inp) of None \<Rightarrow> Inl ErrInvalidInput | Some required \<Rightarrow>
     if required = [] then Inl ErrInvalidInput
     else let triggers = evaluateFallbacks inp body;
              widened = triggers \<noteq> [];
              fallbackRationale = joinFallbackRationale triggers;
              conf = effectiveSelectionConfidence inp;
              tp0 = tierPlan TierAdmission (specNames tier0Jobs) ''admission_gate'';
              t1Jobs = (if widened then tier1FullJobs else tier1SelectedJobs);
              t1Rationale = (if widened then fallbackRationale else ''impact_selection'');
              tp1 = (tierPlan TierLocal (specNames t1Jobs) t1Rationale)\<lparr>tpSelectionConfidence := Some conf\<rparr>;
              t2Jobs = (if widened then widenTier2 (composeTier2Jobs required) else composeTier2Jobs required);
              t2Rationale = (if widened then fallbackRationale else ''policy_contract_requirements'');
              tp2 = (tierPlan TierContract (specNames t2Jobs) t2Rationale)\<lparr>tpSelectionConfidence := Some conf\<rparr>;
              tp3 = (if contains_exact (Tier3RiskClasses (pbLadderOverrides body)) (piRiskClass inp) \<or>
                        explicitUncertaintyFallback triggers
                     then [tierPlan TierSystem (specNames tier3Jobs) (tier3Rationale inp body triggers)]
                     else []);
              tp4 = (if piComposingIntegrationSet inp \<or> piExplicitFullSuiteOverride inp
                     then [tierPlan TierIntegration (specNames tier4Jobs) (tier4Rationale inp triggers)]
                     else [])
          in Inr \<lparr>epCandidateID = piCandidateID inp,
               epPolicyRef = \<lparr>psPolicyID = rpPolicyID rp, psVersion = rpVersion rp\<rparr>,
               epTiers = [tp0, tp1, tp2] @ tp3 @ tp4,
               epRequiredEvidenceKinds = required,
               epInputsHash = HashInputs sha256hex \<lparr>imBaseSHA = piBaseSHA inp,
                 imLockfiles = piLockfiles inp, imFlags = piFlags inp, imToolchain = piToolchain inp\<rparr>,
               epFallbackTriggers = triggers\<rparr>)"

subsection \<open>The engine adapter (adapter.go)\<close>

record CandidateInput =
  ciCandidateID :: string
  ciIntentID :: string
  ciRepo :: string
  ciBaseSHA :: string
  ciHeadSHA :: string
  ciPatchRef :: string
  ciChangedPaths :: "string list"
  ciRiskClass :: RiskClass

definition engineInput :: "CandidateInput \<Rightarrow> PlanInput" where
  "engineInput cand =
     \<lparr>piCandidateID = ciCandidateID cand, piIntentID = ciIntentID cand, piTenantID = [],
      piRepo = ciRepo cand, piBaseSHA = ciBaseSHA cand, piHeadSHA = ciHeadSHA cand,
      piPatchRef = ciPatchRef cand, piRiskClass = RiskClass_string (ciRiskClass cand),
      piChangedPaths = ciChangedPaths cand, piLockfiles = [], piFlags = [], piToolchain = [],
      piSelectionConfidence = None, piSurfaceSamples = Map.empty,
      piQuarantinedOrFlakeSignals = [], piComposingIntegrationSet = False,
      piRelationConflicting = False, piAmbiguousRetryFailureConfidence = None,
      piExplicitFullSuiteOverride = False\<rparr>"

definition NewEnginePlanner :: "Registry option \<Rightarrow> Registry" where
  "NewEnginePlanner reg = (case reg of None \<Rightarrow> DefaultRegistry | Some r \<Rightarrow> r)"

definition domain_tier :: "TierPlan \<Rightarrow> Tier" where
  "domain_tier t = \<lparr>tTier = tpTier t, tJobs = tpJobs t, tRationale = tpRationale t,
     tSelectionConfidence = tpSelectionConfidence t\<rparr>"

text \<open>\<open>planID\<close> is the fresh \<^verbatim>\<open>NewID(PrefixPlan)\<close>, \<open>now\<close> the clock.\<close>

definition EnginePlanner_Plan :: "(string \<Rightarrow> string) \<Rightarrow> string \<Rightarrow> gotime \<Rightarrow> Registry \<Rightarrow> CandidateInput \<Rightarrow>
    PlannerErr + ValidationPlan" where
  "EnginePlanner_Plan sha256hex planID now registry cand =
    (case Resolve \<lparr>sRepo = ciRepo cand, sChangedPaths = ciChangedPaths cand,
            sRiskClass = RiskClass_string (ciRiskClass cand), sActor = []\<rparr> (Some registry) of
       Inl err \<Rightarrow> Inl (PlannerPolicyErr err)
     | Inr rp \<Rightarrow>
         (case Plan sha256hex (engineInput cand) rp of
            Inl err \<Rightarrow> Inl err
          | Inr out \<Rightarrow> Inr (NewValidationPlan planID [] (ciCandidateID cand)
              (map domain_tier (epTiers out)) (epRequiredEvidenceKinds out)
              \<lparr>prPolicyID = psPolicyID (epPolicyRef out), prVersion = psVersion (epPolicyRef out)\<rparr>
              (epInputsHash out) now)))"

subsection \<open>Lemmas\<close>

lemmas catalog_defs = tier0Jobs_def tier1SelectedJobs_def tier1FullJobs_def tier2SelectedBase_def
  tier2FullBase_def tier2PaymentJob_def tier2IdempotencyJob_def tier3Jobs_def tier4Jobs_def

lemma job_sel [simp]: "jName (job t n k) = n" "jKind (job t n k) = k"
  by (simp_all add: job_def Let_def)

lemma set_EvidenceKinds_loop:
  "set (EvidenceKindsForJobs_loop out names) = set out \<union> {k. \<exists>n \<in> set names. jobKindByName n = Some k}"
  by (induction out names rule: EvidenceKindsForJobs_loop.induct)
    (auto simp: contains_exact_iff split: option.splits)

lemma distinct_EvidenceKinds_loop:
  "distinct out \<Longrightarrow> distinct (EvidenceKindsForJobs_loop out names)"
  by (induction out names rule: EvidenceKindsForJobs_loop.induct)
    (auto simp: contains_exact_iff split: option.splits)

lemma set_EvidenceKinds: "set (EvidenceKindsForJobs names) = {k. \<exists>n \<in> set names. jobKindByName n = Some k}"
  by (simp add: EvidenceKindsForJobs_def set_EvidenceKinds_loop)

text \<open>The index as a table.\<close>

definition job_kinds :: "(string \<times> string) list" where
  "job_kinds =
   [(''secret_scan'', ''secret_scan''), (''format_lint'', ''format_lint''), (''typecheck_lite'', ''typecheck_lite''),
    (''diff_sanity'', ''diff_sanity''), (''policy_admissibility'', ''policy_admissibility''),
    (''hermetic_build'', ''hermetic_build''), (''compile_affected_targets'', ''compile''),
    (''selected_unit_tests'', ''selected_unit''), (''sast_diff_scan'', ''sast_diff''),
    (''full_unit_suite'', ''selected_unit''), (''impacted_integration_tests'', ''integration''),
    (''api_compat'', ''api_compat''), (''schema_migration_compat'', ''migration_compat''),
    (''dependency_license_check'', ''license_check''), (''full_integration_suite'', ''integration''),
    (''payment_contract_check'', ''payment_contract''), (''idempotency_race_probe'', ''idempotency_race''),
    (''e2e_browser_mobile'', ''e2e''), (''load_affected_surfaces'', ''load''),
    (''fuzz_affected_surfaces'', ''fuzz''), (''preview_env_validation'', ''preview_env''),
    (''merge_train_simulation'', ''integration_train''), (''integrated_build_sign'', ''integrated_build''),
    (''canary_gate'', ''canary_gate'')]"

lemma jobKindByName_table: "jobKindByName = map_of job_kinds"
  by (rule ext) (simp add: jobKindByName_def job_kinds_def catalog_defs)

lemmas jobKindByName_eq = jobKindByName_table [unfolded job_kinds_def]


lemma uncertainty_fires:
  "effectiveSelectionConfidence inp < MinSelectionConfidence (pbLadderOverrides body) \<Longrightarrow>
     FallbackUncertainty \<in> set (evaluateFallbacks inp body)"
  by (simp add: evaluateFallbacks_def Let_def)

text \<open>What \<^verbatim>\<open>Plan\<close> accepts, and the ladder it then builds.\<close>

definition plannable :: "PlanInput \<Rightarrow> ResolvedPolicy \<Rightarrow> bool" where
  "plannable inp rp \<longleftrightarrow> piCandidateID inp \<noteq> [] \<and> piBaseSHA inp \<noteq> [] \<and> piHeadSHA inp \<noteq> [] \<and>
     piBaseSHA inp \<noteq> piHeadSHA inp \<and> rpPolicyID rp \<noteq> [] \<and> rpVersion rp > 0 \<and>
     (\<exists>ks. pbRequiredEvidenceByRisk (rpBody rp) (piRiskClass inp) = Some ks \<and> ks \<noteq> [])"

lemma Plan_ok_iff: "(\<exists>p. Plan sha inp rp = Inr p) \<longleftrightarrow> plannable inp rp"
  by (auto simp: Plan_def plannable_def validateInput_def Let_def split: option.splits)

definition system_tier :: "PlanInput \<Rightarrow> ResolvedPolicy \<Rightarrow> bool" where
  "system_tier inp rp \<longleftrightarrow> piRiskClass inp \<in> set (Tier3RiskClasses (pbLadderOverrides (rpBody rp))) \<or>
     effectiveSelectionConfidence inp < MinSelectionConfidence (pbLadderOverrides (rpBody rp)) \<or>
     piExplicitFullSuiteOverride inp"

lemma explicitUncertaintyFallback_iff:
  "explicitUncertaintyFallback (evaluateFallbacks inp body) \<longleftrightarrow>
     effectiveSelectionConfidence inp < MinSelectionConfidence (pbLadderOverrides body) \<or>
     piExplicitFullSuiteOverride inp"
  by (auto simp: explicitUncertaintyFallback_def evaluateFallbacks_def fallback_names Let_def
      split: option.splits)

lemma Plan_tiers:
  assumes "Plan sha inp rp = Inr p"
  shows "map tpTier (epTiers p) = [0, 1, 2] @ (if system_tier inp rp then [3] else []) @
      (if piComposingIntegrationSet inp \<or> piExplicitFullSuiteOverride inp then [4] else [])"
  using assms
  by (auto simp: Plan_def validateInput_def Let_def tierPlan_def system_tier_def contains_exact_iff
      explicitUncertaintyFallback_iff split: option.splits if_splits)

lemma set_specNames_widen:
  "set (specNames (widenTier2 (composeTier2Jobs required))) =
     insert ''full_integration_suite'' (set (specNames (composeTier2Jobs required)) - {''impacted_integration_tests''})"
  by (auto simp: specNames_def widenTier2_def composeTier2Jobs_def catalog_defs)

lemma Plan_widened_jobs:
  assumes "Plan sha inp rp = Inr p"
  shows "''full_unit_suite'' \<in> set (tpJobs (epTiers p ! 1)) \<longleftrightarrow> epFallbackTriggers p \<noteq> []"
    and "''selected_unit_tests'' \<in> set (tpJobs (epTiers p ! 1)) \<longleftrightarrow> epFallbackTriggers p = []"
    and "''full_integration_suite'' \<in> set (tpJobs (epTiers p ! 2)) \<longleftrightarrow> epFallbackTriggers p \<noteq> []"
    and "''impacted_integration_tests'' \<in> set (tpJobs (epTiers p ! 2)) \<longleftrightarrow> epFallbackTriggers p = []"
proof -
  have base: "''impacted_integration_tests'' \<in> set (specNames (composeTier2Jobs ks))"
    and no_full: "''full_integration_suite'' \<notin> set (specNames (composeTier2Jobs ks))" for ks
    by (auto simp: specNames_def composeTier2Jobs_def catalog_defs)
  note jobs = assms [unfolded Plan_def Let_def]
  show "''full_unit_suite'' \<in> set (tpJobs (epTiers p ! 1)) \<longleftrightarrow> epFallbackTriggers p \<noteq> []"
    and "''selected_unit_tests'' \<in> set (tpJobs (epTiers p ! 1)) \<longleftrightarrow> epFallbackTriggers p = []"
    using jobs by (auto simp: tierPlan_def specNames_def tier1FullJobs_def tier1SelectedJobs_def
        split: option.splits if_splits)
  show "''full_integration_suite'' \<in> set (tpJobs (epTiers p ! 2)) \<longleftrightarrow> epFallbackTriggers p \<noteq> []"
    and "''impacted_integration_tests'' \<in> set (tpJobs (epTiers p ! 2)) \<longleftrightarrow> epFallbackTriggers p = []"
    using jobs base no_full by (auto simp: tierPlan_def set_specNames_widen split: option.splits if_splits)
qed

text \<open>A plan the planner accepts has tiers 0 to 2, tier 3 exactly for a tier-3 risk class or an
  uncertainty or override fallback, tier 4 exactly for composition or override, in this order; and
  its unit and integration jobs are the full suites exactly when some fallback trigger fired.\<close>

theorem Plan_ladder:
  assumes "Plan sha inp rp = Inr p"
  shows "map tpTier (epTiers p) = [0, 1, 2] @ (if system_tier inp rp then [3] else []) @
      (if piComposingIntegrationSet inp \<or> piExplicitFullSuiteOverride inp then [4] else []) \<and>
    (''full_unit_suite'' \<in> set (tpJobs (epTiers p ! 1)) \<longleftrightarrow> epFallbackTriggers p \<noteq> []) \<and>
    (''selected_unit_tests'' \<in> set (tpJobs (epTiers p ! 1)) \<longleftrightarrow> epFallbackTriggers p = []) \<and>
    (''full_integration_suite'' \<in> set (tpJobs (epTiers p ! 2)) \<longleftrightarrow> epFallbackTriggers p \<noteq> []) \<and>
    (''impacted_integration_tests'' \<in> set (tpJobs (epTiers p ! 2)) \<longleftrightarrow> epFallbackTriggers p = [])"
  using Plan_tiers [OF assms] Plan_widened_jobs [OF assms] by blast

lemma protected_iff:
  "FallbackProtectedPaths \<in> set (evaluateFallbacks inp body) \<longleftrightarrow>
    (\<exists>g \<in> set (ProtectedPaths (pbLadderOverrides body)). \<exists>p \<in> set (piChangedPaths inp). planner_MatchGlob g p)"
  by (auto simp: evaluateFallbacks_def matchAnyPath_def fallback_names Let_def list_ex_iff
      split: option.splits)

text \<open>\<open>below_dir d p\<close>: the path is the directory or lies in it.\<close>

definition below_dir :: "string \<Rightarrow> string \<Rightarrow> bool" where
  "below_dir d p \<longleftrightarrow> p = d \<or> (\<exists>below. p = d @ ''/'' @ below)"

definition protected_dirs :: "string list" where
  "protected_dirs = [''auth'', ''migrations'', ''infrastructure/prod'']"

lemma pack_protected: "ProtectedPaths pack_ladder = map (\<lambda>d. d @ ''/**'') protected_dirs"
  by (simp add: pack_ladder_def protected_dirs_def)

lemma protected_dirs_literal: "\<forall>d \<in> set protected_dirs. CHR ''*'' \<notin> set d"
  by (simp add: protected_dirs_def)

lemma protected_directories:
  assumes "pbLadderOverrides body = pack_ladder"
  shows "FallbackProtectedPaths \<in> set (evaluateFallbacks inp body) \<longleftrightarrow>
    (\<exists>d \<in> set protected_dirs. \<exists>p \<in> set (piChangedPaths inp). below_dir d p)"
proof -
  have "planner_MatchGlob (d @ ''/**'') p \<longleftrightarrow> below_dir d p" if "d \<in> set protected_dirs" for d p
    unfolding MatchGlob_eq below_dir_def using protected_dirs_literal that directory_glob by blast
  then show ?thesis unfolding protected_iff assms pack_protected by simp
qed

lemma Plan_triggers: "Plan sha inp rp = Inr p \<Longrightarrow> epFallbackTriggers p = evaluateFallbacks inp (rpBody rp)"
  by (clarsimp simp: Plan_def Let_def split: option.split_asm if_split_asm)

text \<open>Under either compiled-in policy, touching any path in a protected directory makes the
  planner record the protected-paths trigger and plan the full unit and integration suites.\<close>

theorem protected_path_forces_full_suites:
  assumes "Plan sha inp rp = Inr p" and "pbLadderOverrides (rpBody rp) = pack_ladder"
    and "d \<in> set protected_dirs" and "path \<in> set (piChangedPaths inp)" and "below_dir d path"
  shows "FallbackProtectedPaths \<in> set (epFallbackTriggers p) \<and>
    ''full_unit_suite'' \<in> set (tpJobs (epTiers p ! 1)) \<and>
    ''full_integration_suite'' \<in> set (tpJobs (epTiers p ! 2))"
proof -
  have "FallbackProtectedPaths \<in> set (epFallbackTriggers p)"
    unfolding Plan_triggers [OF assms(1)] protected_directories [OF assms(2)] using assms(3-5) by blast
  then show ?thesis
    unfolding Plan_widened_jobs [OF assms(1)] by (cases "epFallbackTriggers p") simp_all
qed

definition sample_input :: CandidateInput where
  "sample_input = \<lparr>ciCandidateID = ''cand_1'', ciIntentID = ''int_1'', ciRepo = ''acme/payments'',
     ciBaseSHA = ''b'', ciHeadSHA = ''h'', ciPatchRef = [],
     ciChangedPaths = [''services/checkout/pay.go'', ''auth/keys.go''], ciRiskClass = RiskHigh\<rparr>"

lemma sample_plannable:
  "plannable (engineInput sample_input) (resolved CatchAllPolicyPack)"
  by (simp add: plannable_def engineInput_def sample_input_def resolved_def pack_defs pack_required_def)

theorem Plan_ladder_witness:
  "\<exists>p. Plan rev (engineInput sample_input) (resolved CatchAllPolicyPack) = Inr p \<and>
     map tpTier (epTiers p) = [0, 1, 2, 3]"
proof -
  obtain p where p: "Plan rev (engineInput sample_input) (resolved CatchAllPolicyPack) = Inr p"
    using sample_plannable Plan_ok_iff by blast
  then show ?thesis using Plan_ladder [OF p]
    by (simp add: system_tier_def engineInput_def sample_input_def resolved_def pack_defs pack_ladder_def)
qed

lemma catch_all_ladder [simp]:
  "pbLadderOverrides (rpBody (resolved CatchAllPolicyPack)) = pack_ladder"
  "pbRequiredEvidenceByRisk (rpBody (resolved CatchAllPolicyPack)) = pack_required"
  by (simp_all add: resolved_def pack_defs)

theorem protected_path_forces_full_suites_witness:
  "\<exists>p. Plan rev (engineInput sample_input) (resolved CatchAllPolicyPack) = Inr p \<and>
     ''full_unit_suite'' \<in> set (tpJobs (epTiers p ! 1))"
proof -
  obtain p where p: "Plan rev (engineInput sample_input) (resolved CatchAllPolicyPack) = Inr p"
    using sample_plannable Plan_ok_iff by blast
  have "''full_unit_suite'' \<in> set (tpJobs (epTiers p ! 1))"
    by (rule protected_path_forces_full_suites [OF p, of "''auth''" "''auth/keys.go''", THEN conjunct2, THEN conjunct1])
      (simp_all add: engineInput_def sample_input_def protected_dirs_def below_dir_def)
  with p show ?thesis by blast
qed

subsection \<open>Evidence the ladder can produce\<close>

definition plan_job_names :: "EnginePlan \<Rightarrow> string list" where
  "plan_job_names p = concat (map tpJobs (epTiers p))"

lemma Plan_shape:
  assumes "Plan sha inp rp = Inr p"
  obtains rest where "epTiers p = [tierPlan 0 (specNames tier0Jobs) ''admission_gate'',
      epTiers p ! 1, epTiers p ! 2] @ rest"
    and "tpJobs (epTiers p ! 1) = specNames (if epFallbackTriggers p \<noteq> [] then tier1FullJobs else tier1SelectedJobs)"
    and "tpJobs (epTiers p ! 2) = specNames ((if epFallbackTriggers p \<noteq> [] then widenTier2 else id)
      (composeTier2Jobs (epRequiredEvidenceKinds p)))"
    and "pbRequiredEvidenceByRisk (rpBody rp) (piRiskClass inp) = Some (epRequiredEvidenceKinds p)"
proof (rule that)
  show "epTiers p = [tierPlan 0 (specNames tier0Jobs) ''admission_gate'', epTiers p ! 1, epTiers p ! 2] @
      drop 3 (epTiers p)"
    using assms by (clarsimp simp: Plan_def Let_def split: option.split_asm if_split_asm)
  show "tpJobs (epTiers p ! 1) = specNames (if epFallbackTriggers p \<noteq> [] then tier1FullJobs else tier1SelectedJobs)"
    "tpJobs (epTiers p ! 2) = specNames ((if epFallbackTriggers p \<noteq> [] then widenTier2 else id)
      (composeTier2Jobs (epRequiredEvidenceKinds p)))"
    "pbRequiredEvidenceByRisk (rpBody rp) (piRiskClass inp) = Some (epRequiredEvidenceKinds p)"
    using assms by (clarsimp simp: Plan_def Let_def tierPlan_def split: option.split_asm if_split_asm)+
qed

lemma tier1_kinds:
  "set (EvidenceKindsForJobs (specNames tier1FullJobs)) = {''hermetic_build'', ''compile'', ''selected_unit'', ''sast_diff''}"
  "set (EvidenceKindsForJobs (specNames tier1SelectedJobs)) = {''hermetic_build'', ''compile'', ''selected_unit'', ''sast_diff''}"
  by (simp_all add: EvidenceKindsForJobs_def specNames_def tier1FullJobs_def tier1SelectedJobs_def jobKindByName_eq)

lemma EvidenceKinds_append:
  "set (EvidenceKindsForJobs (a @ b)) = set (EvidenceKindsForJobs a) \<union> set (EvidenceKindsForJobs b)"
  by (auto simp: set_EvidenceKinds)

lemma compose_names:
  "''api_compat'' \<in> set (specNames (composeTier2Jobs req))"
  "''payment_contract'' \<in> set req \<Longrightarrow> ''payment_contract_check'' \<in> set (specNames (composeTier2Jobs req))"
  "''idempotency_race'' \<in> set req \<Longrightarrow> ''idempotency_race_probe'' \<in> set (specNames (composeTier2Jobs req))"
proof -
  show "''api_compat'' \<in> set (specNames (composeTier2Jobs req))"
    by (simp add: specNames_def composeTier2Jobs_def tier2SelectedBase_def)
  show "''payment_contract_check'' \<in> set (specNames (composeTier2Jobs req))" if "''payment_contract'' \<in> set req"
    unfolding specNames_def composeTier2Jobs_def set_map set_append
    by (intro image_eqI [of _ _ tier2PaymentJob] UnI2)
      (simp add: tier2PaymentJob_def, use that in \<open>auto intro!: bexI [of _ "''payment_contract''"]\<close>)
  show "''idempotency_race_probe'' \<in> set (specNames (composeTier2Jobs req))" if "''idempotency_race'' \<in> set req"
    unfolding specNames_def composeTier2Jobs_def set_map set_append
    by (intro image_eqI [of _ _ tier2IdempotencyJob] UnI2)
      (simp add: tier2IdempotencyJob_def, use that in \<open>auto intro!: bexI [of _ "''idempotency_race''"]\<close>)
qed

lemma widen_keeps:
  "n \<in> set (specNames (composeTier2Jobs req)) \<Longrightarrow> n \<noteq> ''impacted_integration_tests'' \<Longrightarrow>
     n \<in> set (specNames ((if w then widenTier2 else id) (composeTier2Jobs req)))"
  by (cases w) (simp_all add: set_specNames_widen)

lemma kind_made: "n \<in> set names \<Longrightarrow> jobKindByName n = Some k \<Longrightarrow> k \<in> set (EvidenceKindsForJobs names)"
  by (auto simp: set_EvidenceKinds)

lemma unproducible:
  "''full_integration'' \<notin> set (EvidenceKindsForJobs names)" "''human_approval'' \<notin> set (EvidenceKindsForJobs names)"
proof -
  have "k \<in> snd ` set job_kinds" if "k \<in> set (EvidenceKindsForJobs names)" for k
    using that by (force simp: set_EvidenceKinds jobKindByName_table dest: map_of_SomeD)
  then show "''full_integration'' \<notin> set (EvidenceKindsForJobs names)"
    and "''human_approval'' \<notin> set (EvidenceKindsForJobs names)"
    by (fastforce simp: job_kinds_def)+
qed

lemma Plan_makes:
  assumes "Plan sha inp rp = Inr p"
  defines "made \<equiv> set (EvidenceKindsForJobs (plan_job_names p))"
  shows "''hermetic_build'' \<in> made" "''selected_unit'' \<in> made" "''sast_diff'' \<in> made" "''api_compat'' \<in> made"
    and "''payment_contract'' \<in> set (epRequiredEvidenceKinds p) \<Longrightarrow> ''payment_contract'' \<in> made"
    and "''idempotency_race'' \<in> set (epRequiredEvidenceKinds p) \<Longrightarrow> ''idempotency_race'' \<in> made"
proof -
  obtain rest where tiers: "epTiers p = [tierPlan 0 (specNames tier0Jobs) ''admission_gate'',
      epTiers p ! 1, epTiers p ! 2] @ rest"
    and t1: "tpJobs (epTiers p ! 1) = specNames (if epFallbackTriggers p \<noteq> [] then tier1FullJobs else tier1SelectedJobs)"
    and t2: "tpJobs (epTiers p ! 2) = specNames ((if epFallbackTriggers p \<noteq> [] then widenTier2 else id)
      (composeTier2Jobs (epRequiredEvidenceKinds p)))"
    by (rule Plan_shape [OF assms(1)])
  have parts: "set (EvidenceKindsForJobs (tpJobs (epTiers p ! i))) \<subseteq> made" if "i \<in> {1, 2}" for i
    unfolding made_def plan_job_names_def by (subst tiers) (use that in \<open>auto simp: EvidenceKinds_append\<close>)
  have "set (EvidenceKindsForJobs (tpJobs (epTiers p ! 1))) =
      {''hermetic_build'', ''compile'', ''selected_unit'', ''sast_diff''}"
    unfolding t1 by (simp only: tier1_kinds split: if_split) simp
  then show "''hermetic_build'' \<in> made" "''selected_unit'' \<in> made" "''sast_diff'' \<in> made"
    using parts [of 1] by simp_all
  note tier2 = subsetD [OF parts [of 2, unfolded t2] kind_made [OF widen_keeps [OF compose_names(1)]]]
    subsetD [OF parts [of 2, unfolded t2] kind_made [OF widen_keeps [OF compose_names(2)]]]
    subsetD [OF parts [of 2, unfolded t2] kind_made [OF widen_keeps [OF compose_names(3)]]]
  show "''api_compat'' \<in> made" by (rule tier2(1)) (simp_all add: jobKindByName_eq)
  show "''payment_contract'' \<in> made" if "''payment_contract'' \<in> set (epRequiredEvidenceKinds p)"
    by (rule tier2(2) [OF _ that]) (simp_all add: jobKindByName_eq)
  show "''idempotency_race'' \<in> made" if "''idempotency_race'' \<in> set (epRequiredEvidenceKinds p)"
    by (rule tier2(3) [OF _ that]) (simp_all add: jobKindByName_eq)
qed

lemma pack_required_cases:
  assumes "pack_required risk = Some ks"
  shows "ks = [''hermetic_build'', ''selected_unit''] \<and> risk \<noteq> ''critical'' \<or>
    ks = [''hermetic_build'', ''selected_unit'', ''api_compat''] \<and> risk \<noteq> ''critical'' \<or>
    ks = [''hermetic_build'', ''api_compat'', ''payment_contract'', ''idempotency_race'', ''sast_diff''] \<and> risk \<noteq> ''critical'' \<or>
    ks = [''hermetic_build'', ''api_compat'', ''full_integration'', ''human_approval''] \<and> risk = ''critical''"
  using assms unfolding pack_required_def by (simp split: if_split_asm)

text \<open>Under the compiled-in evidence table, every plan for a low, medium or high risk class has
  jobs producing all required evidence kinds, while for the critical class two of the four required
  kinds (\<^verbatim>\<open>full_integration\<close>, \<^verbatim>\<open>human_approval\<close>) are produced by no job the planner knows.\<close>

theorem plan_covers_required_evidence:
  assumes "Plan sha inp rp = Inr p" and "pbRequiredEvidenceByRisk (rpBody rp) = pack_required"
  shows "set (epRequiredEvidenceKinds p) - set (EvidenceKindsForJobs (plan_job_names p)) =
    (if piRiskClass inp = ''critical'' then {''full_integration'', ''human_approval''} else {})"
proof -
  let ?made = "set (EvidenceKindsForJobs (plan_job_names p))"
  have "pack_required (piRiskClass inp) = Some (epRequiredEvidenceKinds p)"
    using Plan_shape [OF assms(1)] assms(2) by metis
  then show ?thesis
    using Plan_makes [OF assms(1)] unproducible [of "plan_job_names p"]
    by (elim disjE conjE pack_required_cases [elim_format]) (simp_all add: insert_Diff_if)
qed

theorem plan_covers_required_evidence_witness:
  "\<exists>p. Plan rev (engineInput sample_input) (resolved CatchAllPolicyPack) = Inr p \<and>
     set (epRequiredEvidenceKinds p) \<subseteq> set (EvidenceKindsForJobs (plan_job_names p))"
proof -
  obtain p where p: "Plan rev (engineInput sample_input) (resolved CatchAllPolicyPack) = Inr p"
    using sample_plannable Plan_ok_iff by blast
  have "piRiskClass (engineInput sample_input) \<noteq> ''critical''"
    by (simp add: engineInput_def sample_input_def)
  with plan_covers_required_evidence [OF p] have "set (epRequiredEvidenceKinds p) - set (EvidenceKindsForJobs (plan_job_names p)) = {}"
    by simp
  with p show ?thesis by blast
qed

text \<open>The planner the API wires (default registry) plans every candidate with distinct nonempty
  commits, and always the same way: it resolves the wildcard policy, whatever repository, paths and
  risk class the candidate has, and without learned statistics the uncertainty trigger fires, so the
  plan always has tiers 0 to 3 with the full unit and integration suites.\<close>

theorem EnginePlanner_always_widened:
  assumes "ciCandidateID cand \<noteq> []" and "ciBaseSHA cand \<noteq> []" and "ciHeadSHA cand \<noteq> []"
    and "ciBaseSHA cand \<noteq> ciHeadSHA cand"
  shows "\<exists>p. EnginePlanner_Plan sha planID now (NewEnginePlanner None) cand = Inr p \<and>
    vpPolicy p = \<lparr>prPolicyID = ''pol_cisync_default'', prVersion = 1\<rparr> \<and>
    map tTier (vpTiers p) = [0, 1, 2, 3] \<and>
    ''full_unit_suite'' \<in> set (tJobs (vpTiers p ! 1)) \<and>
    ''full_integration_suite'' \<in> set (tJobs (vpTiers p ! 2)) \<and> vpState p = PlanActive"
proof -
  let ?inp = "engineInput cand" and ?rp = "resolved CatchAllPolicyPack"
  have "plannable ?inp ?rp"
    using assms by (cases "ciRiskClass cand")
      (simp_all add: plannable_def engineInput_def resolved_def pack_defs pack_required_def)
  then obtain out where out: "Plan sha ?inp ?rp = Inr out" using Plan_ok_iff by blast
  have "effectiveSelectionConfidence ?inp < MinSelectionConfidence pack_ladder"
    by (simp add: effectiveSelectionConfidence_def engineInput_def pack_ladder_def)
  then have fired: "FallbackUncertainty \<in> set (epFallbackTriggers out)" "system_tier ?inp ?rp"
    unfolding Plan_triggers [OF out] system_tier_def by (simp_all add: uncertainty_fires)
  then have widened: "epFallbackTriggers out \<noteq> []" by auto
  have tiers: "map tpTier (epTiers out) = [0, 1, 2, 3]"
    using Plan_tiers [OF out] fired(2) by (simp add: engineInput_def)
  then have len: "length (epTiers out) = length [0, 1, 2, 3 :: int]"
    by (metis length_map)
  have ref: "epPolicyRef out = \<lparr>psPolicyID = ''pol_cisync_default'', psVersion = 1\<rparr>"
    using out by (clarsimp simp: Plan_def Let_def resolved_def pack_defs split: option.split_asm if_split_asm)
  have "EnginePlanner_Plan sha planID now (NewEnginePlanner None) cand =
      Inr (NewValidationPlan planID [] (ciCandidateID cand) (map domain_tier (epTiers out))
        (epRequiredEvidenceKinds out) \<lparr>prPolicyID = ''pol_cisync_default'', prVersion = 1\<rparr> (epInputsHash out) now)"
    using DefaultRegistry_resolve no_actor_not_payments
    by (simp add: EnginePlanner_Plan_def NewEnginePlanner_def out ref)
  then show ?thesis
    using tiers len Plan_widened_jobs [OF out] widened
    by (simp add: NewValidationPlan_def domain_tier_def comp_def)
qed

theorem EnginePlanner_always_widened_witness:
  "\<exists>p. EnginePlanner_Plan rev ''pln_1'' 0 (NewEnginePlanner None) sample_input = Inr p \<and>
     prPolicyID (vpPolicy p) = ''pol_cisync_default''"
proof -
  obtain p where "EnginePlanner_Plan rev ''pln_1'' 0 (NewEnginePlanner None) sample_input = Inr p"
      "vpPolicy p = \<lparr>prPolicyID = ''pol_cisync_default'', prVersion = 1\<rparr>"
    using EnginePlanner_always_widened [of sample_input rev "''pln_1''" 0]
    by (auto simp: sample_input_def)
  then show ?thesis by auto
qed

subsection \<open>The reuse key\<close>

lemma append_sep_inject:
  "c \<notin> set a \<Longrightarrow> c \<notin> set a' \<Longrightarrow> a @ c # b = a' @ c # b' \<longleftrightarrow> a = a' \<and> b = b'"
proof (induction a arbitrary: a')
  case Nil
  then show ?case by (cases a') auto
next
  case (Cons x a)
  then show ?case by (cases a') auto
qed

lemma Split_sep_free: "sep \<notin> set x \<Longrightarrow> strings_Split x sep = [x]"
  by (induction x) auto

lemma Split_prefix: "sep \<notin> set x \<Longrightarrow> strings_Split (x @ sep # r) sep = x # strings_Split r sep"
  by (induction x) auto

lemma Split_joinComma:
  "xs \<noteq> [] \<Longrightarrow> \<forall>x \<in> set xs. CHR '','' \<notin> set x \<Longrightarrow> strings_Split (joinComma xs) (CHR '','') = xs"
  by (induction xs rule: joinComma.induct) (simp_all add: Split_sep_free Split_prefix)

text \<open>Materials whose list entries are nonempty and free of commas, and whose fields are free of
  newlines.\<close>

definition clean_entry :: "string \<Rightarrow> bool" where
  "clean_entry x \<longleftrightarrow> x \<noteq> [] \<and> CHR '','' \<notin> set x \<and> CHR 0x0A \<notin> set x"

definition clean_material :: "InputsMaterial \<Rightarrow> bool" where
  "clean_material m \<longleftrightarrow> CHR 0x0A \<notin> set (imBaseSHA m) \<and>
     list_all clean_entry (imLockfiles m) \<and> list_all clean_entry (imFlags m)"

lemma joinComma_empty: "list_all clean_entry xs \<Longrightarrow> joinComma xs = [] \<longleftrightarrow> xs = []"
  by (cases xs rule: joinComma.cases) (auto simp: clean_entry_def)

lemma joinComma_inject:
  assumes "list_all clean_entry xs" and "list_all clean_entry ys" and "joinComma xs = joinComma ys"
  shows "xs = ys"
proof (cases "xs = []")
  case True
  with assms joinComma_empty [of ys] show ?thesis by simp
next
  case False
  with assms have "ys \<noteq> []" using joinComma_empty by metis
  moreover have "\<forall>x \<in> set xs. CHR '','' \<notin> set x" "\<forall>y \<in> set ys. CHR '','' \<notin> set y"
    using assms by (auto simp: list_all_iff clean_entry_def)
  ultimately show ?thesis
    using False assms(3) Split_joinComma by metis
qed

lemma joinComma_chars:
  "c \<in> set (joinComma xs) \<Longrightarrow> c = CHR '','' \<or> (\<exists>x \<in> set xs. c \<in> set x)"
  by (induction xs rule: joinComma.induct) auto

lemma no_newline_joinComma:
  "list_all clean_entry xs \<Longrightarrow> CHR 0x0A \<notin> set (joinComma xs)"
  using joinComma_chars [of "CHR 0x0A" xs] by (auto simp: list_all_iff clean_entry_def)

lemma list_all_sort: "list_all P (sort xs) = list_all P xs"
  by (simp add: list_all_iff)

lemma inputs_serialization_inject:
  assumes "clean_material m" and "clean_material m'"
    and "inputs_serialization m = inputs_serialization m'"
  shows "imBaseSHA m = imBaseSHA m' \<and> mset (imLockfiles m) = mset (imLockfiles m') \<and>
    mset (imFlags m) = mset (imFlags m') \<and> imToolchain m = imToolchain m'"
proof -
  note clean = assms(1,2) [unfolded clean_material_def]
  have "imBaseSHA m = imBaseSHA m'" "imToolchain m = imToolchain m'"
      "joinComma (sort (imLockfiles m)) = joinComma (sort (imLockfiles m'))"
      "joinComma (sort (imFlags m)) = joinComma (sort (imFlags m'))"
    using assms(3) clean
    by (simp_all add: inputs_serialization_def nl_def append_sep_inject no_newline_joinComma list_all_sort)
  with clean have "sort (imLockfiles m) = sort (imLockfiles m')" "sort (imFlags m) = sort (imFlags m')"
      "imBaseSHA m = imBaseSHA m'" "imToolchain m = imToolchain m'"
    by (auto intro!: joinComma_inject simp: list_all_sort)
  then show ?thesis by (metis mset_sort)
qed

text \<open>The reuse key identifies its inputs: two materials with the same key (entries nonempty, no
  commas, no newlines) have the same base commit and toolchain and the same lockfiles and flags up
  to order, or else their two serializations are a SHA-256 collision. Conversely, reordering
  lockfiles and flags never changes the key.\<close>

theorem HashInputs_identifies_inputs:
  assumes "clean_material m" and "clean_material m'"
  shows "HashInputs sha m = HashInputs sha m' \<longleftrightarrow>
    (imBaseSHA m = imBaseSHA m' \<and> mset (imLockfiles m) = mset (imLockfiles m') \<and>
     mset (imFlags m) = mset (imFlags m') \<and> imToolchain m = imToolchain m') \<or>
    (inputs_serialization m \<noteq> inputs_serialization m' \<and>
     sha (inputs_serialization m) = sha (inputs_serialization m'))"
proof -
  have "inputs_serialization m = inputs_serialization m'"
    if "imBaseSHA m = imBaseSHA m'" "mset (imLockfiles m) = mset (imLockfiles m')"
      "mset (imFlags m) = mset (imFlags m')" "imToolchain m = imToolchain m'"
    using that sort_mset_cong [of "imLockfiles m"] sort_mset_cong [of "imFlags m"]
    by (simp add: inputs_serialization_def)
  then show ?thesis
    using inputs_serialization_inject [OF assms] by (auto simp: HashInputs_def)
qed

theorem HashInputs_identifies_inputs_witness:
  "HashInputs rev \<lparr>imBaseSHA = ''b'', imLockfiles = [''x'', ''y''], imFlags = [], imToolchain = ''go''\<rparr> =
   HashInputs rev \<lparr>imBaseSHA = ''b'', imLockfiles = [''y'', ''x''], imFlags = [], imToolchain = ''go''\<rparr>"
  by (subst HashInputs_identifies_inputs) (simp_all add: clean_material_def clean_entry_def add_mset_commute)

text \<open>A change of the material does not always change the key: a lockfile name with a
  comma is serialized like two lockfiles, so two different materials share a key under every
  digest.\<close>

theorem HashInputs_comma_ambiguity:
  "HashInputs sha \<lparr>imBaseSHA = b, imLockfiles = [''a,b''], imFlags = fl, imToolchain = tc\<rparr> =
   HashInputs sha \<lparr>imBaseSHA = b, imLockfiles = [''a'', ''b''], imFlags = fl, imToolchain = tc\<rparr>"
  by (simp add: HashInputs_def inputs_serialization_def)

end
