(* ===== verification/Submission.thy ===== *)
theory Submission
  imports Engine_Decisions Planner
begin

text \<open>
  The command endpoints of the control plane (internal/api: intent\_handler.go, candidate\_handler.go, revalidate\_handler.go,
  lease\_handler.go and their encoders) and the transactions behind them (internal/store: command.go, intents.go,
  candidate\_submit\_tx.go, replan.go, clusters.go, rate\_limit.go). A request is its decoded parts; a handler is a function on
  the world that gives the answer. JSON decoding, the request digest, the planner port and RFC 3339 are parameters, gathered in \<open>ApiEnv\<close>;
  response bodies are JSON values. Metrics, headers and log lines are left out.
\<close>

subsection \<open>Answers (respond.go, hmac.go)\<close>

datatype ApiResp = RespErr int string | RespJSON int json

fun resp_status :: "ApiResp \<Rightarrow> int" where
  "resp_status (RespErr status _) = status"
| "resp_status (RespJSON status _) = status"

definition WriteDomainError :: "EngErr \<Rightarrow> ApiResp" where
  "WriteDomainError err = (case err of
      EDomain ErrNotFound \<Rightarrow> RespErr 404 ''not_found''
    | EDomain ErrUnauthorized \<Rightarrow> RespErr 401 ''unauthorized''
    | EDomain ErrBadSignature \<Rightarrow> RespErr 401 ''unauthorized''
    | EDomain ErrLateSubmission \<Rightarrow> RespErr 409 ''conflict_state''
    | EDomain ErrDuplicateHead \<Rightarrow> RespErr 409 ''conflict_state''
    | EDomain ErrLeaseNotRenewable \<Rightarrow> RespErr 409 ''conflict_state''
    | EDomain ErrBudgetExceeded \<Rightarrow> RespErr 429 ''budget_exceeded''
    | EDomain ErrRateLimited \<Rightarrow> RespErr 429 ''rate_limited''
    | EDomain ErrValidationFailed \<Rightarrow> RespErr 400 ''validation_failed''
    | _ \<Rightarrow> RespErr 503 ''unavailable'')"

text \<open>A handler in the transaction monad answers its error with \<open>WriteDomainError\<close>.\<close>

definition respond :: "ApiResp tx \<Rightarrow> World \<Rightarrow> ApiResp \<times> World" where
  "respond m w = (case m w of (Inl e, w') \<Rightarrow> (WriteDomainError e, w') | (Inr r, w') \<Rightarrow> (r, w'))"

definition maxBodyBytes :: int where
  "maxBodyBytes = 10485760"

record candidateSubmit =
  csPatchRef :: string
  csHeadSHA :: string
  csBaseSHA :: string
  csChangedPaths :: "string list"

record intentCreate =
  icGoal :: string
  icRepository :: string
  icBase :: string
  icExpectedSurfaces :: "string list"
  icAcceptanceCriteria :: "string list"
  icConstraints :: "string list"
  icRisk :: string
  icDeadline :: "string option"
  icAgentLineage :: "string list"

record ApiEnv =
  apEng :: EngineEnv
  apPlan :: "string \<Rightarrow> gotime \<Rightarrow> CandidateInput \<Rightarrow> DomResolvedPolicy \<Rightarrow> EngErr + ValidationPlan"
  apRequestHash :: "string \<Rightarrow> string"
  apDecodeSubmit :: "string \<Rightarrow> candidateSubmit option"
  apDecodeIntent :: "string \<Rightarrow> intentCreate option"
  apDecodeTTL :: "string \<Rightarrow> int option"
  apValidJSON :: "string \<Rightarrow> bool"
  apParseTime :: "string \<Rightarrow> gotime option"
  apLeaseTTL :: duration
  apRatePerMin :: int
  apRerunMax :: int

subsection \<open>Idempotent commands (store/command.go)\<close>

definition LookupCommand :: "DB \<Rightarrow> string \<Rightarrow> string \<Rightarrow> string \<Rightarrow> string \<Rightarrow> EngErr + (int \<times> json) option" where
  "LookupCommand db tenantID endpoint key requestHash =
    (case find (\<lambda>c. ckTenantID c = tenantID \<and> ckEndpoint c = endpoint \<and> ckKey c = key) (dbCommands db) of
       None \<Rightarrow> Inr None
     | Some c \<Rightarrow> if ckRequestHash c \<noteq> requestHash then Inl (EDomain ErrConflict)
         else Inr (Some (ckResponseCode c, ckResponseBody c)))"

definition RecordCommandTx :: "string \<Rightarrow> string \<Rightarrow> string \<Rightarrow> string \<Rightarrow> int \<Rightarrow> json \<Rightarrow> unit tx" where
  "RecordCommandTx tenantID endpoint key requestHash code body = modifyDB (\<lambda>d.
     if list_ex (\<lambda>c. ckTenantID c = tenantID \<and> ckEndpoint c = endpoint \<and> ckKey c = key) (dbCommands d) then d
     else d\<lparr>dbCommands := dbCommands d @ [\<lparr>ckTenantID = tenantID, ckEndpoint = endpoint, ckKey = key, ckRequestHash = requestHash,
       ckResponseCode = code, ckResponseBody = body\<rparr>]\<rparr>)"

text \<open>The frame every POST endpoint shares: size cap, key length, replay of the recorded answer. \<open>fresh\<close> runs when the key
  is new.\<close>

definition idempotent :: "ApiEnv \<Rightarrow> string \<Rightarrow> string \<Rightarrow> string \<Rightarrow> string \<Rightarrow> (World \<Rightarrow> ApiResp \<times> World) \<Rightarrow> World \<Rightarrow> ApiResp \<times> World" where
  "idempotent ae tenant endpoint key raw fresh w =
    (if int (length raw) > maxBodyBytes then (RespErr 413 ''validation_failed'', w)
     else if length key < 16 \<or> length key > 128 then (RespErr 400 ''validation_failed'', w)
     else case LookupCommand (wDB w) tenant endpoint key (apRequestHash ae raw) of
       Inl e \<Rightarrow> (WriteDomainError e, w)
     | Inr (Some (code, body)) \<Rightarrow> (RespJSON code body, w)
     | Inr None \<Rightarrow> fresh w)"

subsection \<open>Events and rows\<close>

definition eventT :: "EngineEnv \<Rightarrow> EventActor \<Rightarrow> string \<Rightarrow> AggregateRef \<Rightarrow> string \<Rightarrow> string \<Rightarrow> string \<Rightarrow> json \<Rightarrow> Event tx" where
  "eventT env actor tenantID agg eventType causation corr payload =
     bindT (if corr = [] then freshID env ''corr_'' else returnT corr) (\<lambda>c.
     bindT (freshID env ''evt_'') (\<lambda>ident.
     returnT (NewEvent (envCrypto env) ident (envNow env) c tenantID agg eventType causation corr actor payload)))"

fun mapT :: "('a \<Rightarrow> 'b tx) \<Rightarrow> 'a list \<Rightarrow> 'b list tx" where
  "mapT f [] = returnT []"
| "mapT f (x # xs) = bindT (f x) (\<lambda>y. bindT (mapT f xs) (\<lambda>ys. returnT (y # ys)))"

text \<open>\<^verbatim>\<open>INSERT ... ON CONFLICT (id) DO UPDATE SET seq, state WHERE seq < EXCLUDED.seq\<close>.\<close>

definition upsert :: "('a \<Rightarrow> string) \<Rightarrow> ('a \<Rightarrow> 'a \<Rightarrow> 'a) \<Rightarrow> int \<Rightarrow> 'a \<Rightarrow> 'a Row list \<Rightarrow> 'a Row list" where
  "upsert ident setState seq x rows =
    (if list_ex (\<lambda>r. ident (rowVal r) = ident x) rows
     then map (\<lambda>r. if ident (rowVal r) = ident x \<and> rowSeq r < seq then \<lparr>rowSeq = seq, rowVal = setState x (rowVal r)\<rparr> else r) rows
     else rows @ [\<lparr>rowSeq = seq, rowVal = x\<rparr>])"

text \<open>The partial unique index on live candidates (migration 0006).\<close>

definition live_head :: "Candidate \<Rightarrow> bool" where
  "live_head c \<longleftrightarrow> cState c \<notin> {CandSuperseded, CandCancelled}"

definition heads_unique :: "Candidate Row list \<Rightarrow> bool" where
  "heads_unique rows \<longleftrightarrow> distinct (map (\<lambda>c. (cIntentID c, cHeadSHA c, cBaseSHA c)) (select live_head rows))"

definition upsert_candidate :: "int \<Rightarrow> Candidate \<Rightarrow> Candidate Row list \<Rightarrow> Candidate Row list" where
  "upsert_candidate = upsert cID (\<lambda>new old. old\<lparr>cState := cState new\<rparr>)"

definition insertCandidateT :: "Candidate \<Rightarrow> int \<Rightarrow> unit tx" where
  "insertCandidateT cand seq = bindT getDB (\<lambda>db.
     if heads_unique (upsert_candidate seq cand (dbCandidates db))
     then modifyDB (\<lambda>d. d\<lparr>dbCandidates := upsert_candidate seq cand (dbCandidates d)\<rparr>) else failT EStorage)"

definition insertPlanTx :: "ValidationPlan \<Rightarrow> int \<Rightarrow> unit tx" where
  "insertPlanTx plan seq = modifyDB (\<lambda>d. d\<lparr>dbPlans := upsert vpID (\<lambda>new old. old\<lparr>vpState := vpState new\<rparr>) seq plan (dbPlans d)\<rparr>)"

definition insertRunTx :: "ValidationRun \<Rightarrow> int \<Rightarrow> unit tx" where
  "insertRunTx run seq = modifyDB (\<lambda>d. d\<lparr>dbRuns := upsert vrID (\<lambda>new old. old\<lparr>vrState := vrState new\<rparr>) seq run (dbRuns d)\<rparr>)"

subsection \<open>Submitting a candidate (store/candidate\_submit\_tx.go)\<close>

record ClusterAssignmentData =
  cdJoined :: bool
  cdClusterID :: string
  cdRepo :: string
  cdRepCandidateID :: string
  cdRelationToRep :: string
  cdPathOverlap :: float64
  cdTrigramSimilarity :: float64
  cdSymbolOverlap :: float64
  cdStrategyVersion :: string

definition tier_json :: "Tier \<Rightarrow> json" where
  "tier_json t = JObj ([(''tier'', JInt (tTier t)), (''jobs'', toAnySlice (tJobs t)), (''rationale'', JStr (tRationale t))] @
     (case tSelectionConfidence t of None \<Rightarrow> [] | Some c \<Rightarrow> [(''selection_confidence'', JNum c)]))"

definition planned_payload :: "ValidationPlan \<Rightarrow> json" where
  "planned_payload plan = JObj [(''plan_id'', JStr (vpID plan)), (''candidate_id'', JStr (vpCandidateID plan)),
     (''tiers'', JArr (map tier_json (vpTiers plan))), (''required_evidence_kinds'', toAnySlice (vpRequiredEvidenceKinds plan)),
     (''inputs_hash'', JStr (vpInputsHash plan)),
     (''policy_version'', JObj [(''policy_id'', JStr (prPolicyID (vpPolicy plan))), (''policy_version'', JInt (prVersion (vpPolicy plan)))])]"

definition requested_payload :: "ValidationPlan \<Rightarrow> ValidationRun \<Rightarrow> json" where
  "requested_payload plan run = JObj [(''run_id'', JStr (vrID run)), (''plan_id'', JStr (vpID plan)), (''candidate_id'', JStr (vrCandidateID run)),
     (''tier'', JInt (vrTier run)), (''est_duration_ms'', JInt (vrEstDurationMS run)), (''est_cost_millicents'', JInt (vrEstCostMillicents run)),
     (''priority'', JNum (vrPriority run)), (''cancellation_conditions'', JObj []), (''pool'', JStr (vrPool run))]"

definition submitted_payload :: "Candidate \<Rightarrow> json" where
  "submitted_payload cand = JObj [(''candidate_id'', JStr (cID cand)), (''intent_id'', JStr (cIntentID cand)), (''submitter'', JStr (Submitter cand)),
     (''patch_ref'', JStr (cPatchRef cand)), (''head_sha'', JStr (cHeadSHA cand)), (''base_sha'', JStr (cBaseSHA cand)),
     (''changed_paths'', toAnySlice (cChangedPaths cand)), (''est_cost_millicents'', JInt (cEstCostMillicents cand))]"

definition newClusterAssignedEvent :: "EngineEnv \<Rightarrow> Candidate \<Rightarrow> ClusterAssignmentData \<Rightarrow> Event tx" where
  "newClusterAssignedEvent env cand a =
     bindT (freshID env ''corr_'') (\<lambda>corr.
     eventT env \<lparr>actKind = ''service'', actID = ''cluster''\<rparr> (cTenantID cand) \<lparr>agType = ''cluster'', agID = cdClusterID a\<rparr> ''cluster.assigned'' [] corr
       (JObj [(''cluster_id'', JStr (cdClusterID a)), (''candidate_id'', JStr (cID cand)), (''rep_candidate_id'', JStr (cdRepCandidateID a)),
         (''relation'', JStr (cdRelationToRep a)), (''similarity_score'', JNum (cdTrigramSimilarity a)), (''strategy_version'', JStr (cdStrategyVersion a))]))"

definition applyClusterProjectionTx :: "EngineEnv \<Rightarrow> Candidate \<Rightarrow> ClusterAssignmentData \<Rightarrow> int \<Rightarrow> unit tx" where
  "applyClusterProjectionTx env cand a seq = bindT getDB (\<lambda>db.
     if cdRepCandidateID a = [] \<or> cdRepCandidateID a = cID cand then
       (if list_ex (\<lambda>r. clID (rowVal r) = cdClusterID a) (dbClusters db) then failT EStorage
        else modifyDB (\<lambda>d. d\<lparr>dbClusters := dbClusters d @ [\<lparr>rowSeq = seq, rowVal = \<lparr>clID = cdClusterID a, clTenantID = cTenantID cand,
          clState = ClusterActive, clRepo = cdRepo a, RepCandidateID = cID cand, MemberCount = 1, clStrategyVersion = cdStrategyVersion a,
          clCreatedAt = envNow env\<rparr>\<rparr>]\<rparr>))
     else if list_ex (\<lambda>(cl, c, _). cl = cdClusterID a \<and> c = cID cand) (dbMembers db) then failT EStorage
     else modifyDB (\<lambda>d. d\<lparr>dbMembers := dbMembers d @ [(cdClusterID a, cID cand, cdRelationToRep a)],
       dbClusters := map (\<lambda>r. if clID (rowVal r) = cdClusterID a \<and> clTenantID (rowVal r) = cTenantID cand
         then r\<lparr>rowVal := (rowVal r)\<lparr>MemberCount := MemberCount (rowVal r) + 1\<rparr>\<rparr> else r) (dbClusters d)\<rparr>))"

definition advanceIntentT :: "string \<Rightarrow> string \<Rightarrow> int \<Rightarrow> unit tx" where
  "advanceIntentT tenantID intentID seq = modifyDB (\<lambda>d. d\<lparr>dbIntents := map (\<lambda>r. if iID (rowVal r) = intentID \<and> iTenantID (rowVal r) = tenantID \<and>
     iState (rowVal r) = IntentExploring \<and> rowSeq r < seq then \<lparr>rowSeq = seq, rowVal = (rowVal r)\<lparr>iState := IntentValidating\<rparr>\<rparr> else r) (dbIntents d)\<rparr>)"

definition SubmitCandidateTx :: "EngineEnv \<Rightarrow> Candidate \<Rightarrow> ValidationPlan \<Rightarrow> ValidationRun list \<Rightarrow> ClusterAssignmentData option \<Rightarrow> Event list tx" where
  "SubmitCandidateTx env cand plan runs assignment =
    (let actor = \<lparr>actKind = ''agent'', actID = Submitter cand\<rparr>;
         clustered = (case assignment of None \<Rightarrow> False | Some a \<Rightarrow> cdJoined a \<or> cdClusterID a \<noteq> []) in
     bindT (freshID env ''corr_'') (\<lambda>corr.
     bindT (eventT env actor (cTenantID cand) \<lparr>agType = ''candidate'', agID = cID cand\<rparr> ''candidate.submitted'' [] corr (submitted_payload cand)) (\<lambda>sub.
     bindT (eventT env actor (cTenantID cand) \<lparr>agType = ''validation_plan'', agID = vpID plan\<rparr> ''validation.planned'' (eID sub) corr (planned_payload plan)) (\<lambda>planned.
     bindT (mapT (\<lambda>run. eventT env actor (cTenantID cand) (run_agg (vrID run)) ''validation.requested'' (eID planned) corr (requested_payload plan run)) runs) (\<lambda>reqs.
     bindT (if clustered then bindT (newClusterAssignedEvent env cand (the assignment)) (\<lambda>ev. returnT [ev]) else returnT []) (\<lambda>assigned.
     bindT (appendT env (sub # planned # reqs @ assigned)) (\<lambda>stamped.
     let seqs = map eSeq stamped in
     thenT (advanceIntentT (cTenantID cand) (cIntentID cand) (seqs ! 1))
     (thenT (insertCandidateT cand (seqs ! 0))
     (thenT (insertPlanTx plan (seqs ! 1))
     (thenT (forT (\<lambda>(run, seq). insertRunTx run seq) (zip runs (drop 2 seqs)))
     (thenT (if clustered then applyClusterProjectionTx env cand (the assignment) (last seqs) else returnT ())
     (returnT stamped))))))))))))"

subsection \<open>Planning a candidate (candidate\_encode.go, cluster\_assign.go)\<close>

fun riskPriority :: "RiskClass \<Rightarrow> float64" where
  "riskPriority RiskLow = 4 / 10"
| "riskPriority RiskMedium = 7 / 10"
| "riskPriority RiskHigh = 1"
| "riskPriority RiskCritical = 1"

text \<open>Duration and cost of a tier; a missing entry of the map is the zero struct.\<close>

definition tierDefaults :: "int \<Rightarrow> int \<times> int" where
  "tierDefaults tier = (if tier = 0 then (60000, 5000) else if tier = 1 then (900000, 20000) else if tier = 2 then (1800000, 150000)
     else if tier = 3 then (3600000, 1200000) else if tier = 4 then (5400000, 4000000) else (0, 0))"

definition dquote :: string where
  "dquote = [CHR 0x22]"

definition jobSpecFor :: "Intent \<Rightarrow> Candidate \<Rightarrow> ValidationPlan \<Rightarrow> DomJobSpec" where
  "jobSpecFor intent cand plan = \<lparr>jsKind = ''hermetic_build'', jsRepo = dRepo (Declared intent), jsBaseSHA = cBaseSHA cand, jsHeadSHA = cHeadSHA cand,
     jsPatchRef = cPatchRef cand, jsInputsHash = vpInputsHash plan, jsTimeoutMS = 900000,
     jsSimProfile = ''{'' @ dquote @ ''duration_ms'' @ dquote @ '':800,'' @ dquote @ ''outcome_bias'' @ dquote @ '':'' @ dquote @ ''pass'' @ dquote @ ''}'',
     jsPreFetchedBundleRef = []\<rparr>"

text \<open>One run per job of the plan, in the order of the tiers; the loop is the same in the submission, webhook and replan
  paths.\<close>

definition plan_jobs :: "ValidationPlan \<Rightarrow> (int \<times> string) list" where
  "plan_jobs plan = concat (map (\<lambda>t. map (\<lambda>j. (tTier t, j)) (tJobs t)) (vpTiers plan))"

definition run_for :: "EngineEnv \<Rightarrow> Intent \<Rightarrow> Candidate \<Rightarrow> ValidationPlan \<Rightarrow> string \<Rightarrow> int \<times> string \<Rightarrow> ValidationRun tx" where
  "run_for env intent cand plan tenant tj =
     bindT (freshID env ''run_'') (\<lambda>rid.
     returnT (NewValidationRun rid tenant (vpID plan) (cID cand) (fst tj) ((jobSpecFor intent cand plan)\<lparr>jsKind := EvidenceKindForJob (snd tj)\<rparr>)
       ''sim'' (fst (tierDefaults (fst tj))) (snd (tierDefaults (fst tj))) (riskPriority (dRiskClass (Declared intent)) * of_int (10 - fst tj) / 10)
       (envNow env)))"

definition runs_for_plan :: "EngineEnv \<Rightarrow> Intent \<Rightarrow> Candidate \<Rightarrow> ValidationPlan \<Rightarrow> string \<Rightarrow> ValidationRun list tx" where
  "runs_for_plan env intent cand plan tenant = mapT (run_for env intent cand plan tenant) (plan_jobs plan)"

definition plan_cost :: "ValidationPlan \<Rightarrow> int" where
  "plan_cost plan = sum_list (map (\<lambda>tj. snd (tierDefaults (fst tj))) (plan_jobs plan))"

definition planT :: "ApiEnv \<Rightarrow> CandidateInput \<Rightarrow> ValidationPlan tx" where
  "planT ae inp = bindT (freshID (apEng ae) ''val_'') (\<lambda>pid. liftT (apPlan ae pid (envNow (apEng ae)) inp DefaultPolicy))"

definition ActiveClustersForRepo :: "DB \<Rightarrow> string \<Rightarrow> string \<Rightarrow> EngErr + ClusterSnapshot list" where
  "ActiveClustersForRepo db tenantID repo = foldr (\<lambda>cl acc.
     case appendMembers db \<lparr>csnID = clID cl, csnTenantID = tenantID, csnRepo = repo, csnRepCandidateID = RepCandidateID cl, csnMembers = []\<rparr> of
       Inl e \<Rightarrow> Inl e | Inr snap \<Rightarrow> map_sum (\<lambda>e. e) (\<lambda>snaps. snap # snaps) acc)
     (select (\<lambda>cl. clTenantID cl = tenantID \<and> clRepo cl = repo \<and> clState cl = ClusterActive) (dbClusters db)) (Inr [])"

definition activeCluster :: "ClusterSnapshot \<Rightarrow> ActiveCluster" where
  "activeCluster snap = foldl (\<lambda>active m. if mID (mwMember m) = csnRepCandidateID snap then active\<lparr>acRep := mwMember m\<rparr>
     else active\<lparr>acMembers := acMembers active @ [m]\<rparr>)
     \<lparr>acID = csnID snap, acRepoID = csnRepo snap, acRep = zero_member, acMembers = []\<rparr> (csnMembers snap)"

definition no_assignment :: Assignment where
  "no_assignment = \<lparr>asJoined = False, asClusterID = [], asRelationToRep = [], asPathOverlap = 0, asTrigramSimilarity = 0, asSymbolOverlap = 0,
     asStrategyVersion = StrategyVersionV0\<rparr>"

definition assignCluster :: "DB \<Rightarrow> string \<Rightarrow> string \<Rightarrow> string \<Rightarrow> string list \<Rightarrow> float64 \<Rightarrow> Assignment \<times> string" where
  "assignCluster db tenantID repo candidateID changedPaths priority =
    (case ActiveClustersForRepo db tenantID repo of
       Inl _ \<Rightarrow> (no_assignment, [])
     | Inr snaps \<Rightarrow>
         let assignment = Assign \<lparr>mID = candidateID, mChangedPaths = changedPaths, mChangedSymbols = [], mDependsOn = [], mPriority = priority,
               mCreatedSeq = 0\<rparr> (map activeCluster snaps) in
         if \<not> asJoined assignment then (assignment, [])
         else (assignment, case find (\<lambda>snap. csnID snap = asClusterID assignment) snaps of Some snap \<Rightarrow> csnRepCandidateID snap | None \<Rightarrow> []))"

fun Relation_of :: "string \<Rightarrow> Relation option" where
  "Relation_of s = (if s = ''duplicate_of'' then Some RelDuplicate else if s = ''alternative_of'' then Some RelAlternative
     else if s = ''composable_with'' then Some RelComposable else if s = ''conflicts_with'' then Some RelConflicting
     else if s = ''prerequisite_of'' then Some RelPrerequisite else if s = ''representative'' then Some RelRepresentative else None)"

definition planSummaryJSON :: "ValidationPlan \<Rightarrow> json" where
  "planSummaryJSON plan = JObj [(''tiers'', JArr (map (\<lambda>t. JObj [(''tier'', JInt (tTier t)), (''jobs'', toAnySlice (tJobs t)),
       (''rationale'', JStr (tRationale t)), (''selection_confidence'', case tSelectionConfidence t of None \<Rightarrow> JNull | Some c \<Rightarrow> JNum c)]) (vpTiers plan))),
     (''deferred'', JArr [])]"

definition candidateAcceptedJSON :: "Candidate \<Rightarrow> ValidationPlan \<Rightarrow> string \<Rightarrow> json" where
  "candidateAcceptedJSON cand plan leaseID = JObj [(''candidate_id'', JStr (cID cand)), (''plan_summary'', planSummaryJSON plan), (''lease_id'', JStr leaseID)]"

subsection \<open>POST /v1/change-intents/{intentId}/candidates (candidate\_handler.go)\<close>

definition LiveCandidateExists :: "DB \<Rightarrow> string \<Rightarrow> string \<Rightarrow> string \<Rightarrow> string \<Rightarrow> bool" where
  "LiveCandidateExists db tenantID intentID headSHA baseSHA = list_ex (\<lambda>r. let c = rowVal r in cTenantID c = tenantID \<and> cIntentID c = intentID \<and>
     cHeadSHA c = headSHA \<and> cBaseSHA c = baseSHA \<and> live_head c) (dbCandidates db)"

definition decodeCandidateSubmit :: "ApiEnv \<Rightarrow> string \<Rightarrow> string \<Rightarrow> string \<Rightarrow> DB \<Rightarrow> ApiResp + Intent \<times> candidateSubmit" where
  "decodeCandidateSubmit ae tenant intentID raw db = (case apDecodeSubmit ae raw of
      None \<Rightarrow> Inl (RespErr 400 ''validation_failed'')
    | Some inp \<Rightarrow>
        if csPatchRef inp = [] \<or> length (csHeadSHA inp) \<noteq> 40 \<or> length (csBaseSHA inp) \<noteq> 40 then Inl (RespErr 400 ''validation_failed'')
        else (case GetIntent db tenant intentID of
            None \<Rightarrow> Inl (WriteDomainError (EDomain ErrNotFound))
          | Some intent \<Rightarrow>
              if iState intent \<notin> {IntentExploring, IntentValidating} then Inl (WriteDomainError (EDomain ErrLateSubmission))
              else if LiveCandidateExists db tenant (iID intent) (csHeadSHA inp) (csBaseSHA inp) then Inl (WriteDomainError (EDomain ErrDuplicateHead))
              else Inr (intent, inp)))"

definition claimInitialCandidateSlot :: "string \<Rightarrow> string \<Rightarrow> string \<Rightarrow> bool tx" where
  "claimInitialCandidateSlot tenant intentID slot =
    (if slot = [] then returnT False
     else bindT getDB (\<lambda>db. let P = (\<lambda>i. iID i = intentID \<and> iTenantID i = tenant \<and> InitialCandidateID i = slot) in
       thenT (modifyDB (\<lambda>d. d\<lparr>dbIntents := map (\<lambda>r. if P (rowVal r) then r\<lparr>rowVal := (rowVal r)\<lparr>InitialCandidateID := []\<rparr>\<rparr> else r) (dbIntents d)\<rparr>))
         (returnT (length (select P (dbIntents db)) = 1))))"

definition candidate_id :: "ApiEnv \<Rightarrow> string \<Rightarrow> Intent \<Rightarrow> string tx" where
  "candidate_id ae tenant intent =
     bindT (freshID (apEng ae) ''cand_'') (\<lambda>fresh.
     bindT (if InitialCandidateID intent \<noteq> [] then claimInitialCandidateSlot tenant (iID intent) (InitialCandidateID intent) else returnT False) (\<lambda>ok.
     returnT (if ok then InitialCandidateID intent else fresh)))"

definition candidates_endpoint :: "string \<Rightarrow> string" where
  "candidates_endpoint intentID = ''POST /v1/change-intents/{intentId}/candidates:'' @ intentID"

definition clustered_candidate :: "Candidate \<Rightarrow> Assignment \<Rightarrow> string \<Rightarrow> Candidate" where
  "clustered_candidate cand a clusterID = cand\<lparr>cClusterID := clusterID,
     cRelationToRep := (if asRelationToRep a = [] then None else Relation_of (asRelationToRep a)),
     cState := (if asRelationToRep a = RelationDuplicateOf then CandBlockedRepresentative else cState cand)\<rparr>"

definition assignmentData :: "Assignment \<Rightarrow> string \<Rightarrow> string \<Rightarrow> string \<Rightarrow> ClusterAssignmentData" where
  "assignmentData a repo clusterID repID = \<lparr>cdJoined = asJoined a, cdClusterID = clusterID, cdRepo = repo, cdRepCandidateID = repID,
     cdRelationToRep = asRelationToRep a, cdPathOverlap = asPathOverlap a, cdTrigramSimilarity = asTrigramSimilarity a, cdSymbolOverlap = asSymbolOverlap a,
     cdStrategyVersion = asStrategyVersion a\<rparr>"

definition submit_as :: "ApiEnv \<Rightarrow> string \<Rightarrow> string \<Rightarrow> string \<Rightarrow> string \<Rightarrow> Intent \<Rightarrow> candidateSubmit \<Rightarrow> string \<Rightarrow> ApiResp tx" where
  "submit_as ae tenant endpoint key raw intent inp candID =
    (let env = apEng ae; repo = dRepo (Declared intent) in
     bindT (liftT (map_sum EDomain (\<lambda>c. c) (NewCandidate candID tenant (iID intent) (''agent:'' @ tenant) (csPatchRef inp) (csHeadSHA inp) (csBaseSHA inp)
        (csChangedPaths inp) 0 (envNow env)))) (\<lambda>cand0.
     bindT (planT ae \<lparr>ciCandidateID = cID cand0, ciIntentID = iID intent, ciRepo = repo, ciBaseSHA = csBaseSHA inp, ciHeadSHA = csHeadSHA inp,
        ciPatchRef = csPatchRef inp, ciChangedPaths = csChangedPaths inp, ciRiskClass = dRiskClass (Declared intent)\<rparr>) (\<lambda>plan0.
     let plan = plan0\<lparr>vpTenantID := tenant\<rparr> in
     bindT (runs_for_plan env intent cand0 plan tenant) (\<lambda>runs.
     bindT getDB (\<lambda>db.
     let (a, repID) = assignCluster db tenant repo (cID cand0) (csChangedPaths inp) (riskPriority (dRiskClass (Declared intent))) in
     bindT (if asJoined a then returnT (asClusterID a) else freshID env ''clus_'') (\<lambda>clusterID.
     let cand = clustered_candidate (cand0\<lparr>cEstCostMillicents := cEstCostMillicents cand0 + plan_cost plan\<rparr>) a clusterID;
         leaseID = (case LeaseForIntent db tenant (iID intent) of [] \<Rightarrow> [] | l # _ \<Rightarrow> l);
         body = candidateAcceptedJSON cand plan leaseID in
     thenT (withTx (thenT (SubmitCandidateTx env cand plan runs (Some (assignmentData a repo clusterID (if asJoined a then repID else cID cand))))
        (RecordCommandTx tenant endpoint key (apRequestHash ae raw) 201 body)))
     (returnT (RespJSON 201 body))))))))"

definition submit_decoded :: "ApiEnv \<Rightarrow> string \<Rightarrow> string \<Rightarrow> string \<Rightarrow> string \<Rightarrow> Intent \<Rightarrow> candidateSubmit \<Rightarrow> ApiResp tx" where
  "submit_decoded ae tenant endpoint key raw intent inp =
     bindT (candidate_id ae tenant intent) (submit_as ae tenant endpoint key raw intent inp)"

definition handleSubmitCandidate :: "ApiEnv \<Rightarrow> string \<Rightarrow> string \<Rightarrow> string \<Rightarrow> string \<Rightarrow> World \<Rightarrow> ApiResp \<times> World" where
  "handleSubmitCandidate ae tenant intentID key raw = idempotent ae tenant (candidates_endpoint intentID) key raw (\<lambda>w.
     case decodeCandidateSubmit ae tenant intentID raw (wDB w) of
       Inl resp \<Rightarrow> (resp, w)
     | Inr (intent, inp) \<Rightarrow> respond (submit_decoded ae tenant (candidates_endpoint intentID) key raw intent inp) w)"

definition ListCandidates :: "DB \<Rightarrow> string \<Rightarrow> string \<Rightarrow> Candidate list" where
  "ListCandidates db tenantID intentID = sort_by (\<lambda>a b. cCreatedAt a < cCreatedAt b)
     (select (\<lambda>c. cTenantID c = tenantID \<and> cIntentID c = intentID) (dbCandidates db))"

fun Relation_string :: "Relation \<Rightarrow> string" where
  "Relation_string RelDuplicate = ''duplicate_of''"
| "Relation_string RelAlternative = ''alternative_of''"
| "Relation_string RelComposable = ''composable_with''"
| "Relation_string RelConflicting = ''conflicts_with''"
| "Relation_string RelPrerequisite = ''prerequisite_of''"
| "Relation_string RelRepresentative = ''representative''"

definition candidateToSummary :: "Candidate \<Rightarrow> json" where
  "candidateToSummary c = JObj [(''candidate_id'', JStr (cID c)), (''state'', JStr (CandidateState_string (cState c))), (''head_sha'', JStr (cHeadSHA c)),
     (''priority_score'', JNum (PriorityScore c)), (''cluster_id'', if cClusterID c = [] then JNull else JStr (cClusterID c)),
     (''relation_to_rep'', case cRelationToRep c of None \<Rightarrow> JNull | Some r \<Rightarrow> JStr (Relation_string r))]"

definition handleListCandidates :: "string \<Rightarrow> string \<Rightarrow> DB \<Rightarrow> ApiResp" where
  "handleListCandidates tenant intentID db = (case GetIntent db tenant intentID of
      None \<Rightarrow> WriteDomainError (EDomain ErrNotFound)
    | Some _ \<Rightarrow> RespJSON 200 (JArr (map candidateToSummary (ListCandidates db tenant intentID))))"

subsection \<open>POST /v1/change-intents (intent\_handler.go, intent\_grant\_encode.go, store/intents.go)\<close>

record ConflictRef =
  cfIntentID :: string
  cfRelation :: string
  cfOwner :: string
  cfRecommendation :: string

definition conflict_json :: "ConflictRef \<Rightarrow> json" where
  "conflict_json c = JObj [(''intent_id'', JStr (cfIntentID c)), (''relation'', JStr (cfRelation c)), (''owner'', JStr (cfOwner c)),
     (''recommendation'', JStr (cfRecommendation c))]"

definition budget_json :: "BudgetValues \<Rightarrow> json" where
  "budget_json b = JObj [(''cpu_minutes'', JInt (CPUMinutes b)), (''environment_minutes'', JInt (EnvironmentMinutes b)),
     (''repair_attempts'', JInt (RepairAttempts b))]"

fun IntentOrigin_string :: "IntentOrigin \<Rightarrow> string" where
  "IntentOrigin_string OriginAgentAPI = ''agent_api''"
| "IntentOrigin_string OriginCLI = ''cli''"
| "IntentOrigin_string OriginGitHubHook = ''github_webhook''"
| "IntentOrigin_string OriginSynthetic = ''synthetic''"

fun LeaseScopeKind_string :: "LeaseScopeKind \<Rightarrow> string" where
  "LeaseScopeKind_string ScopeChangeScope = ''change_scope''"
| "LeaseScopeKind_string ScopeEnvironment = ''environment''"

definition TakeToken :: "EngineEnv \<Rightarrow> string \<Rightarrow> string \<Rightarrow> int \<Rightarrow> int \<Rightarrow> (bool \<times> duration) tx" where
  "TakeToken env tenantID bucket capacity perMinute = withTx (bindT getDB (\<lambda>db.
     let refillPerSec = (of_int perMinute :: rat) / 60;
         tokens = (case dbRateLimits db (tenantID, bucket) of
             None \<Rightarrow> of_int capacity
           | Some (t, lastRefill) \<Rightarrow> min (t + of_int (envNow env - lastRefill) / 1000000000 * refillPerSec) (of_int capacity));
         granted = (tokens \<ge> 1);
         left = (if granted then tokens - 1 else tokens) in
     thenT (modifyDB (\<lambda>d. d\<lparr>dbRateLimits := (dbRateLimits d)((tenantID, bucket) \<mapsto> (left, envNow env))\<rparr>))
       (returnT (granted, if granted then 0 else \<lfloor>(1 - tokens) / refillPerSec * 1000000000\<rfloor>))))"

definition validRisk :: "string \<Rightarrow> RiskClass option" where
  "validRisk s = (if s = ''low'' then Some RiskLow else if s = ''medium'' then Some RiskMedium else if s = ''high'' then Some RiskHigh
     else if s = ''critical'' then Some RiskCritical else None)"

definition validateIntentCreate :: "ApiEnv \<Rightarrow> intentCreate \<Rightarrow> DomErr + gotime option" where
  "validateIntentCreate ae inp =
    (if icGoal inp = [] \<or> length (icGoal inp) > 2000 \<or> icRepository inp = [] \<or> icBase inp = [] \<or> icExpectedSurfaces inp = [] \<or> validRisk (icRisk inp) = None
     then Inl ErrValidationFailed
     else case icDeadline inp of
       None \<Rightarrow> Inr None
     | Some s \<Rightarrow> if s = [] then Inr None
         else case apParseTime ae s of
           None \<Rightarrow> Inl ErrValidationFailed
         | Some t \<Rightarrow> Inr (Some (case apParseTime ae (envRFC3339 (apEng ae) t) of Some t' \<Rightarrow> t' | None \<Rightarrow> zero_time)))"

text \<open>The search is over all repositories of the tenant: the repository argument is not used by the query.\<close>

definition OverlappingIntents :: "DB \<Rightarrow> string \<Rightarrow> string \<Rightarrow> string list \<Rightarrow> ConflictRef list" where
  "OverlappingIntents db tenantID repo surfaces =
    (if surfaces = [] then []
     else map (\<lambda>i. \<lparr>cfIntentID = iID i, cfRelation = ''overlapping'', cfOwner = dRepo (Declared i), cfRecommendation = ''coordinate''\<rparr>)
       (take 50 (select (\<lambda>i. iTenantID i = tenantID \<and> iState i \<notin> {IntentCompleted, IntentRejected} \<and>
          list_ex (\<lambda>x. x \<in> set surfaces) (OwnedSurfaces (Declared i))) (dbIntents db))))"

definition baseSnapshot :: "Crypto \<Rightarrow> string \<Rightarrow> string \<Rightarrow> string" where
  "baseSnapshot cr repo base = base @ ''@'' @ take 7 (crSHA256 cr (repo @ [CHR 0x00] @ base))"

definition intersectMissing :: "string list \<Rightarrow> string list \<Rightarrow> string list" where
  "intersectMissing protected allowed = filter (\<lambda>p. p \<notin> set allowed) protected"

definition buildIntentGrant :: "Intent \<Rightarrow> Lease \<Rightarrow> ConflictRef list \<Rightarrow> string list \<Rightarrow> json" where
  "buildIntentGrant intent lease conflicts prohibited = JObj [(''intent_id'', JStr (iID intent)), (''lease_id'', JStr (lID lease)),
     (''base_snapshot'', JStr (BaseSnapshot (Declared intent))), (''worktree_or_branch'', JStr (''agent/'' @ iID intent @ ''/candidate_01'')),
     (''allowed_paths'', toAnySlice (OwnedSurfaces (Declared intent))), (''prohibited_paths'', toAnySlice prohibited),
     (''conflicts'', JArr (map conflict_json conflicts)), (''required_evidence'', toAnySlice (lRequiredEvidence lease)),
     (''compute_budget'', budget_json (lBudget lease)), (''queue_position'', JNull), (''eta_seconds'', JNull)]"

definition intent_payload :: "Intent \<Rightarrow> json" where
  "intent_payload i = JObj [(''intent_id'', JStr (iID i)), (''goal'', JStr (Goal (Declared i))), (''owned_surfaces'', toAnySlice (OwnedSurfaces (Declared i))),
     (''risk_class'', JStr (RiskClass_string (dRiskClass (Declared i)))), (''origin'', JStr (IntentOrigin_string (dOrigin (Declared i)))),
     (''agent_lineage'', toAnySlice (AgentLineage (Declared i))),
     (''resolved_policy'', JObj [(''policy_id'', JStr (prPolicyID (dResolvedPolicy (Declared i)))), (''policy_version'', JInt (prVersion (dResolvedPolicy (Declared i))))]),
     (''compute_budget'', budget_json (ComputeBudget (Declared i))), (''acceptance_criteria'', toAnySlice (AcceptanceCriteria (Declared i))),
     (''constraints'', toAnySlice (Constraints (Declared i))), (''initial_candidate_id'', JStr (InitialCandidateID i))]"

definition lease_payload :: "EngineEnv \<Rightarrow> Intent \<Rightarrow> Lease \<Rightarrow> ConflictRef list \<Rightarrow> json" where
  "lease_payload env i l conflicts = JObj [(''lease_id'', JStr (lID l)), (''intent_id'', JStr (lIntentID l)),
     (''scope'', JObj [(''kind'', JStr (LeaseScopeKind_string (lsKind (lScope l)))), (''surfaces'', toAnySlice (lsSurfaces (lScope l)))]),
     (''holder'', JStr (lHolder l)), (''budget'', budget_json (lBudget l)), (''ttl_expires_at'', JStr (envRFC3339 env (TTLExpiresAt l))),
     (''conflicts'', JArr (map conflict_json conflicts)), (''required_evidence'', toAnySlice (lRequiredEvidence l)),
     (''initial_candidate_id'', JStr (InitialCandidateID i))]"

definition CreateIntentTx :: "EngineEnv \<Rightarrow> Intent \<Rightarrow> Lease \<Rightarrow> ConflictRef list \<Rightarrow> Event list tx" where
  "CreateIntentTx env intent lease conflicts =
    (let actor = \<lparr>actKind = ''agent'', actID = ''api''\<rparr> in
     bindT (freshID env ''corr_'') (\<lambda>corr.
     bindT (eventT env actor (iTenantID intent) \<lparr>agType = ''intent'', agID = iID intent\<rparr> ''intent.declared'' [] corr (intent_payload intent)) (\<lambda>ie.
     bindT (eventT env actor (lTenantID lease) \<lparr>agType = ''lease'', agID = lID lease\<rparr> ''lease.granted'' (eID ie) corr (lease_payload env intent lease conflicts)) (\<lambda>le.
     bindT (appendT env [ie, le]) (\<lambda>stamped.
     thenT (modifyDB (\<lambda>d. d\<lparr>dbIntents := upsert iID (\<lambda>new old. old\<lparr>iState := iState new\<rparr>) (eSeq (stamped ! 0)) intent (dbIntents d)\<rparr>))
     (thenT (modifyDB (\<lambda>d. d\<lparr>dbLeases := upsert lID (\<lambda>new old. old\<lparr>lState := lState new\<rparr>) (eSeq (stamped ! 1)) lease (dbLeases d)\<rparr>))
     (returnT stamped)))))))"

definition intents_endpoint :: string where
  "intents_endpoint = ''POST /v1/change-intents''"

definition create_decoded :: "ApiEnv \<Rightarrow> string \<Rightarrow> string \<Rightarrow> string \<Rightarrow> intentCreate \<Rightarrow> ApiResp tx" where
  "create_decoded ae tenant key raw inp =
    (let env = apEng ae in
     bindT (liftT (map_sum EDomain (\<lambda>x. x) (validateIntentCreate ae inp))) (\<lambda>deadline.
     case validRisk (icRisk inp) of None \<Rightarrow> failT (EDomain ErrValidationFailed)
     | Some risk \<Rightarrow> (case RequiredEvidence DefaultPolicy risk of None \<Rightarrow> returnT (RespErr 400 ''validation_failed'')
       | Some required \<Rightarrow>
         bindT getDB (\<lambda>db. let conflicts = OverlappingIntents db tenant (icRepository inp) (icExpectedSurfaces inp) in
         bindT (freshID env ''int_'') (\<lambda>intentID.
         bindT (freshID env ''lease_'') (\<lambda>leaseID.
         bindT (freshID env ''cand_'') (\<lambda>initialCand.
         let declared = \<lparr>Goal = icGoal inp, dRepo = icRepository inp, BaseRef = icBase inp, BaseSnapshot = baseSnapshot (envCrypto env) (icRepository inp) (icBase inp),
               OwnedSurfaces = icExpectedSurfaces inp, Constraints = icConstraints inp, AcceptanceCriteria = icAcceptanceCriteria inp, dRiskClass = risk,
               Deadline = deadline, dOrigin = OriginAgentAPI, AgentLineage = icAgentLineage inp, dResolvedPolicy = drRef DefaultPolicy,
               ComputeBudget = drPerCandidateBudget DefaultPolicy\<rparr>;
             intent = (NewIntent intentID tenant declared (envNow env))\<lparr>InitialCandidateID := initialCand\<rparr>;
             lease = NewLease leaseID tenant intentID \<lparr>lsKind = ScopeChangeScope, lsSurfaces = icExpectedSurfaces inp, lsEnvTemplate = []\<rparr>
               (''agent:'' @ tenant) (drPerCandidateBudget DefaultPolicy) (apLeaseTTL ae) required (envNow env);
             grant = buildIntentGrant intent lease conflicts (intersectMissing (drProtectedPaths DefaultPolicy) (icExpectedSurfaces inp)) in
         thenT (withTx (thenT (CreateIntentTx env intent lease conflicts) (RecordCommandTx tenant intents_endpoint key (apRequestHash ae raw) 200 grant)))
         (returnT (RespJSON 200 grant)))))))))"

definition handleCreateIntent :: "ApiEnv \<Rightarrow> string \<Rightarrow> string \<Rightarrow> string \<Rightarrow> World \<Rightarrow> ApiResp \<times> World" where
  "handleCreateIntent ae tenant key raw = idempotent ae tenant intents_endpoint key raw (respond
     (bindT (TakeToken (apEng ae) tenant ''intents_per_minute'' (apRatePerMin ae) (apRatePerMin ae)) (\<lambda>(ok, _).
      if \<not> ok then returnT (RespErr 429 ''rate_limited'')
      else case apDecodeIntent ae raw of None \<Rightarrow> returnT (RespErr 400 ''validation_failed'')
        | Some inp \<Rightarrow> create_decoded ae tenant key raw inp)))"

subsection \<open>POST /v1/candidates/{candidateId}/revalidate (revalidate\_handler.go, store/replan.go)\<close>

definition buildReplan :: "ApiEnv \<Rightarrow> Intent \<Rightarrow> Candidate \<Rightarrow> (ValidationPlan \<times> ValidationRun list) tx" where
  "buildReplan ae intent cand =
    (let env = apEng ae in
     bindT (planT ae \<lparr>ciCandidateID = cID cand, ciIntentID = cIntentID cand, ciRepo = dRepo (Declared intent), ciBaseSHA = cBaseSHA cand,
        ciHeadSHA = cHeadSHA cand, ciPatchRef = cPatchRef cand, ciChangedPaths = [], ciRiskClass = dRiskClass (Declared intent)\<rparr>) (\<lambda>plan0.
     bindT (freshID env ''val_'') (\<lambda>pid.
     let plan = plan0\<lparr>vpID := pid, vpTenantID := cTenantID cand, vpCreatedAt := envNow env\<rparr> in
     bindT (runs_for_plan env intent cand plan (cTenantID cand)) (\<lambda>runs. returnT (plan, runs)))))"

definition QueuedRunIDsTx :: "DB \<Rightarrow> string \<Rightarrow> string \<Rightarrow> string list" where
  "QueuedRunIDsTx db tenantID candidateID = map vrID (select (\<lambda>v. vrTenantID v = tenantID \<and> vrCandidateID v = candidateID \<and> vrState v = RunQueued) (dbRuns db))"

text \<open>\<^verbatim>\<open>UPDATE ... SET state='cancelled' WHERE id=$1 AND state IN ('queued','dispatched')\<close>; the sequence number of the
  row stays.\<close>

definition cancelRunRow :: "EngineEnv \<Rightarrow> string \<Rightarrow> unit tx" where
  "cancelRunRow env rid = modifyDB (\<lambda>d. d\<lparr>dbRuns := map (\<lambda>r. if vrID (rowVal r) = rid \<and> vrState (rowVal r) \<in> {RunQueued, RunDispatched}
     then r\<lparr>rowVal := (rowVal r)\<lparr>vrState := RunCancelled, vrFinishedAt := Some (envNow env)\<rparr>\<rparr> else r) (dbRuns d)\<rparr>)"

definition BuildValidationPlannedEvents :: "EngineEnv \<Rightarrow> string \<Rightarrow> ValidationPlan \<Rightarrow> ValidationRun list \<Rightarrow> string \<Rightarrow> string \<Rightarrow> EventActor \<Rightarrow> Event list tx" where
  "BuildValidationPlannedEvents env tenantID plan runs causation corr actor =
     bindT (eventT env actor tenantID \<lparr>agType = ''validation_plan'', agID = vpID plan\<rparr> ''validation.planned'' causation corr (planned_payload plan)) (\<lambda>planned.
     bindT (mapT (\<lambda>run. eventT env actor tenantID (run_agg (vrID run)) ''validation.requested'' (eID planned) corr (requested_payload plan run)) runs) (\<lambda>reqs.
     returnT (planned # reqs)))"

definition AppendReplanTx :: "EngineEnv \<Rightarrow> ValidationPlan \<Rightarrow> ValidationRun list \<Rightarrow> Event list tx" where
  "AppendReplanTx env plan runs =
    (let actor = \<lparr>actKind = ''service'', actID = ''revalidate''\<rparr> in
     bindT getDB (\<lambda>db. let prior = QueuedRunIDsTx db (vpTenantID plan) (vpCandidateID plan) in
     bindT (freshID env ''corr_'') (\<lambda>corr.
     bindT (mapT (\<lambda>rid. eventT env actor (vpTenantID plan) (run_agg rid) ''validation.cancelled'' [] corr
        (JObj [(''run_ids'', JArr [JStr rid]), (''reason'', JStr ''superseded'')])) prior) (\<lambda>cancelled.
     bindT (BuildValidationPlannedEvents env (vpTenantID plan) plan runs [] corr actor) (\<lambda>planned.
     bindT (appendT env (cancelled @ planned)) (\<lambda>stamped.
     let seqs = drop (length prior) (map eSeq stamped) in
     thenT (forT (\<lambda>(run, seq). thenT (insertPlanTx plan (hd seqs)) (insertRunTx run seq)) (zip runs (tl seqs)))
     (thenT (forT (cancelRunRow env) prior)
     (returnT stamped))))))))"

definition revalidate_endpoint :: "string \<Rightarrow> string" where
  "revalidate_endpoint candidateID = ''POST /v1/candidates/{candidateId}/revalidate:'' @ candidateID"

definition bumpRerun :: "ApiEnv \<Rightarrow> string \<Rightarrow> string \<Rightarrow> unit tx" where
  "bumpRerun ae tenant candidateID = bindT getDB (\<lambda>db.
     let P = (\<lambda>c. cID c = candidateID \<and> cTenantID c = tenant \<and> RerunCount c < apRerunMax ae \<and> \<not> CandidateState_Terminal (cState c)) in
     if select P (dbCandidates db) = [] then failT (EDomain ErrRerunBudgetExhausted)
     else modifyDB (\<lambda>d. d\<lparr>dbCandidates := map (\<lambda>r. if P (rowVal r) then r\<lparr>rowVal := (rowVal r)\<lparr>RerunCount := RerunCount (rowVal r) + 1\<rparr>\<rparr> else r) (dbCandidates d)\<rparr>))"

text \<open>The reads go through the pool, so they see the database at the start of the transaction (\<open>pool\<close>).\<close>

definition revalidateTx :: "ApiEnv \<Rightarrow> string \<Rightarrow> string \<Rightarrow> string \<Rightarrow> string \<Rightarrow> DB \<Rightarrow> string tx" where
  "revalidateTx ae tenant candidateID key raw pool =
    (case GetCandidate pool tenant candidateID of None \<Rightarrow> failT (EDomain ErrNotFound)
     | Some cand \<Rightarrow> (case GetIntent pool tenant (cIntentID cand) of None \<Rightarrow> failT (EDomain ErrNotFound)
       | Some intent \<Rightarrow>
         bindT (buildReplan ae intent cand) (\<lambda>(plan, runs).
         thenT (AppendReplanTx (apEng ae) plan runs)
         (thenT (bumpRerun ae tenant candidateID)
         (thenT (RecordCommandTx tenant (revalidate_endpoint candidateID) key (apRequestHash ae raw) 202 (JObj [(''plan_id'', JStr (vpID plan))]))
         (returnT (vpID plan)))))))"

definition handleRevalidate :: "ApiEnv \<Rightarrow> string \<Rightarrow> string \<Rightarrow> string \<Rightarrow> string \<Rightarrow> World \<Rightarrow> ApiResp \<times> World" where
  "handleRevalidate ae tenant candidateID key raw = idempotent ae tenant (revalidate_endpoint candidateID) key raw (\<lambda>w.
     if \<not> apValidJSON ae raw \<and> raw \<noteq> [] then (RespErr 400 ''validation_failed'', w)
     else (case withTx (revalidateTx ae tenant candidateID key raw (wDB w)) w of
       (Inr planID, w') \<Rightarrow> (RespJSON 202 (JObj [(''plan_id'', JStr planID)]), w')
     | (Inl e, w') \<Rightarrow> (if e = EDomain ErrRerunBudgetExhausted then RespErr 409 ''conflict_state'' else WriteDomainError e, w')))"

subsection \<open>Leases (lease\_handler.go)\<close>

definition renew_endpoint :: "string \<Rightarrow> string" where
  "renew_endpoint leaseID = ''POST /v1/leases/{leaseId}/renew:'' @ leaseID"

definition handleRenewLease :: "ApiEnv \<Rightarrow> string \<Rightarrow> string \<Rightarrow> string \<Rightarrow> string \<Rightarrow> World \<Rightarrow> ApiResp \<times> World" where
  "handleRenewLease ae tenant leaseID key raw = idempotent ae tenant (renew_endpoint leaseID) key raw (\<lambda>w.
     case (if raw = [] then Some 0 else apDecodeTTL ae raw) of
       None \<Rightarrow> (RespErr 400 ''validation_failed'', w)
     | Some ttl0 \<Rightarrow>
         let ttl = (if ttl0 = 0 then 1500 else ttl0) in
         if ttl < 30 \<or> ttl > 3600 then (RespErr 400 ''validation_failed'', w)
         else (case RenewLease (apEng ae) tenant leaseID ttl w of
           (Inl e, w') \<Rightarrow> (if e = EDomain ErrConflict then RespErr 409 ''conflict_state'' else WriteDomainError e, w')
         | (Inr (expires, renewals), w') \<Rightarrow> (RespJSON 200 (JObj [(''lease_id'', JStr leaseID), (''ttl_expires_at'', JStr (envRFC3339 (apEng ae) expires)),
             (''renewal_count'', JInt renewals)]), w')))"

definition handleReleaseLease :: "ApiEnv \<Rightarrow> string \<Rightarrow> string \<Rightarrow> World \<Rightarrow> ApiResp \<times> World" where
  "handleReleaseLease ae tenant leaseID w = (case GetLease (wDB w) tenant leaseID of
      None \<Rightarrow> (RespJSON 204 JNull, w)
    | Some lease \<Rightarrow>
        if lState lease \<noteq> LeaseGranted then (RespJSON 204 JNull, w)
        else (case Lease_Apply (envNow (apEng ae)) lease ''lease.released'' of
           Inl _ \<Rightarrow> (RespJSON 204 JNull, w)
         | Inr l \<Rightarrow> (case withTx (releaseLeaseTx (apEng ae) l ''intent_terminal'') w of
             (Inl e, w') \<Rightarrow> (WriteDomainError e, w')
           | (Inr _, w') \<Rightarrow> (RespJSON 204 JNull, w'))))"

end
