(* ===== verification/Delivery.thy ===== *)
theory Delivery
  imports Submission
begin

text \<open>
  What a webhook does to the control plane (internal/api: delivery\_handler.go, delivery\_normalize.go, delivery\_effects.go,
  delivery\_candidate.go, delivery\_cascade.go, delivery\_installation\_effects.go, delivery\_audit\_seams.go; internal/store:
  webhook\_projection.go). A delivery is normalised to a view and applied in one transaction that starts with its
  deduplication key. The payload is the value \<^verbatim>\<open>encoding/json\<close> decodes into \<^verbatim>\<open>any\<close>; decoding, HMAC and the request digest
  are parameters. Metrics and log lines are left out, and so is the audit stream of the direct GitHub route.
\<close>

subsection \<open>Payloads and views (delivery\_normalize.go)\<close>

datatype pval = PNull | PBool bool | PNum float64 | PStr string | PArr "pval list" | PObj "(string \<times> pval) list"

type_synonym payload = "(string \<times> pval) list"

fun payloadPath :: "payload \<Rightarrow> string list \<Rightarrow> pval option" where
  "payloadPath m [] = None"
| "payloadPath m [p] = map_of m p"
| "payloadPath m (p # q # ps) = (case map_of m p of Some (PObj m') \<Rightarrow> payloadPath m' (q # ps) | _ \<Rightarrow> None)"

definition payloadStringPath :: "payload \<Rightarrow> string list \<Rightarrow> string" where
  "payloadStringPath m path = (case payloadPath m path of Some (PStr s) \<Rightarrow> s | _ \<Rightarrow> [])"

definition payloadString :: "payload \<Rightarrow> string \<Rightarrow> string" where
  "payloadString m key = (case map_of m key of Some (PStr s) \<Rightarrow> s | _ \<Rightarrow> [])"

definition payloadBoolPath :: "payload \<Rightarrow> string list \<Rightarrow> bool" where
  "payloadBoolPath m path = (case payloadPath m path of Some (PBool b) \<Rightarrow> b | _ \<Rightarrow> False)"

definition payloadNumber :: "payload \<Rightarrow> string \<Rightarrow> float64" where
  "payloadNumber m key = (case map_of m key of Some (PNum x) \<Rightarrow> x | _ \<Rightarrow> 0)"

text \<open>Go's conversion of a \<^verbatim>\<open>float64\<close> in range to \<^verbatim>\<open>int\<close>.\<close>

definition truncate_float :: "float64 \<Rightarrow> int" where
  "truncate_float x = (if x \<ge> 0 then \<lfloor>x\<rfloor> else \<lceil>x\<rceil>)"

datatype NormalizedKind = KindPROpened | KindPRSynchronize | KindPRClosed | KindPushBaseAdv | KindPushBranch
  | KindInstallCreated | KindInstallDeleted | KindInstallPerms | KindCheckRereq | KindNone

fun NormalizedKind_string :: "NormalizedKind \<Rightarrow> string" where
  "NormalizedKind_string KindPROpened = ''pr.opened''"
| "NormalizedKind_string KindPRSynchronize = ''pr.synchronize''"
| "NormalizedKind_string KindPRClosed = ''pr.closed''"
| "NormalizedKind_string KindPushBaseAdv = ''push.base_advanced''"
| "NormalizedKind_string KindPushBranch = ''push.branch''"
| "NormalizedKind_string KindInstallCreated = ''installation.created''"
| "NormalizedKind_string KindInstallDeleted = ''installation.deleted''"
| "NormalizedKind_string KindInstallPerms = ''installation.permissions_changed''"
| "NormalizedKind_string KindCheckRereq = ''check_run.rerequested''"
| "NormalizedKind_string KindNone = []"

record prEventView =
  prvNumber :: int
  prvHeadSHA :: string
  prvBaseSHA :: string
  prvBaseRef :: string
  prvDiffURL :: string
  prvTitle :: string
  prvSender :: string
  prvMerged :: bool

record pushEventView =
  puRef :: string
  puBranch :: string
  puOldSHA :: string
  puNewSHA :: string
  puDeleted :: bool

record installationEventView =
  inAccount :: string
  inRepos :: "string list"

record deliveryView =
  dvwKind :: NormalizedKind
  dvwRaw :: string
  dvwRepo :: string
  dvwTrackedBase :: bool
  dvwPR :: prEventView
  dvwPush :: pushEventView
  dvwInstall :: installationEventView

definition zero_pr :: prEventView where
  "zero_pr = \<lparr>prvNumber = 0, prvHeadSHA = [], prvBaseSHA = [], prvBaseRef = [], prvDiffURL = [], prvTitle = [], prvSender = [], prvMerged = False\<rparr>"

definition zero_push :: pushEventView where
  "zero_push = \<lparr>puRef = [], puBranch = [], puOldSHA = [], puNewSHA = [], puDeleted = False\<rparr>"

definition zero_install :: installationEventView where
  "zero_install = \<lparr>inAccount = [], inRepos = []\<rparr>"

fun split_dot :: "string \<Rightarrow> string \<Rightarrow> string \<times> string option" where
  "split_dot acc [] = (rev acc, None)"
| "split_dot acc (c # cs) = (if c = CHR ''.'' then (rev acc, Some cs) else split_dot (c # acc) cs)"

definition splitEventKind :: "string \<Rightarrow> string \<times> string" where
  "splitEventKind eventKind = (case split_dot [] eventKind of (name, Some action) \<Rightarrow> (name, action) | (_, None) \<Rightarrow> (eventKind, []))"

definition unknownLabel :: "string \<Rightarrow> string \<Rightarrow> string" where
  "unknownLabel event action = ''unknown.'' @ event @ (if action = [] then [] else ''.'' @ action)"

definition prView :: "payload \<Rightarrow> prEventView" where
  "prView payload = (case map_of payload ''pull_request'' of
      Some (PObj pr) \<Rightarrow> \<lparr>prvNumber = truncate_float (payloadNumber pr ''number''), prvHeadSHA = payloadStringPath pr [''head'', ''sha''],
        prvBaseSHA = payloadStringPath pr [''base'', ''sha''], prvBaseRef = payloadStringPath pr [''base'', ''ref''],
        prvDiffURL = payloadString pr ''diff_url'', prvTitle = payloadString pr ''title'',
        prvSender = payloadStringPath payload [''sender'', ''login''], prvMerged = payloadBoolPath pr [''merged'']\<rparr>
    | _ \<Rightarrow> zero_pr)"

definition trim_prefix :: "string \<Rightarrow> string \<Rightarrow> string" where
  "trim_prefix s px = (if has_prefix s px then drop (length px) s else s)"

definition pushView :: "payload \<Rightarrow> pushEventView" where
  "pushView payload = \<lparr>puRef = payloadString payload ''ref'', puBranch = trim_prefix (payloadString payload ''ref'') ''refs/heads/'',
     puOldSHA = payloadString payload ''before'', puNewSHA = payloadString payload ''after'',
     puDeleted = (payloadString payload ''after'' = replicate 40 (CHR ''0''))\<rparr>"

definition repo_name :: "pval \<Rightarrow> string" where
  "repo_name v = (case v of PObj m \<Rightarrow> (if payloadString m ''full_name'' = [] then payloadString m ''name'' else payloadString m ''full_name'') | _ \<Rightarrow> [])"

definition installationView :: "payload \<Rightarrow> installationEventView" where
  "installationView payload =
    (let listed = (case map_of payload ''repositories'' of Some (PArr rs) \<Rightarrow> filter (\<lambda>n. n \<noteq> []) (map repo_name rs) | _ \<Rightarrow> []);
         single = payloadStringPath payload [''repository'', ''full_name''] in
     \<lparr>inAccount = payloadStringPath payload [''installation'', ''account'', ''login''],
      inRepos = (if listed = [] \<and> single \<noteq> [] then [single] else listed)\<rparr>)"

definition trackedBranch :: "string list \<Rightarrow> string \<Rightarrow> bool" where
  "trackedBranch bases branch \<longleftrightarrow> branch \<in> set bases"

definition normalizeDelivery :: "string \<Rightarrow> string \<Rightarrow> payload \<Rightarrow> string list \<Rightarrow> deliveryView" where
  "normalizeDelivery eventKind repo payload trackedBases =
    (let (eventName, action0) = splitEventKind eventKind;
         action = (if action0 = [] then payloadString payload ''action'' else action0);
         view = \<lparr>dvwKind = KindNone, dvwRaw = [], dvwRepo = repo, dvwTrackedBase = False, dvwPR = zero_pr, dvwPush = zero_push, dvwInstall = zero_install\<rparr>;
         unknown = (\<lambda>v. v\<lparr>dvwRaw := unknownLabel eventName action\<rparr>) in
     if eventName = ''pull_request'' then
       (let v = view\<lparr>dvwPR := prView payload\<rparr> in
        if action = ''opened'' \<or> action = ''reopened'' then v\<lparr>dvwKind := KindPROpened\<rparr>
        else if action = ''synchronize'' then v\<lparr>dvwKind := KindPRSynchronize\<rparr>
        else if action = ''closed'' then v\<lparr>dvwKind := KindPRClosed, dvwPR := (dvwPR v)\<lparr>prvMerged := payloadBoolPath payload [''pull_request'', ''merged'']\<rparr>\<rparr>
        else unknown v)
     else if eventName = ''push'' then
       (let push = pushView payload; tracked = trackedBranch trackedBases (puBranch push) in
        view\<lparr>dvwPush := push, dvwTrackedBase := tracked, dvwKind := (if \<not> puDeleted push \<and> tracked \<and> length (puNewSHA push) = 40 \<and> length (puOldSHA push) = 40
          then KindPushBaseAdv else KindPushBranch)\<rparr>)
     else if eventName = ''installation'' then
       (let v = view\<lparr>dvwInstall := installationView payload\<rparr> in
        if action = ''created'' then v\<lparr>dvwKind := KindInstallCreated\<rparr>
        else if action = ''deleted'' then v\<lparr>dvwKind := KindInstallDeleted\<rparr>
        else if action = ''new_permissions_accepted'' then v\<lparr>dvwKind := KindInstallPerms\<rparr>
        else unknown v)
     else if eventName = ''check_run'' \<and> action = ''rerequested'' then view\<lparr>dvwKind := KindCheckRereq\<rparr>
     else unknown view)"

definition normalizedLabel :: "deliveryView \<Rightarrow> string" where
  "normalizedLabel view = (if dvwKind view = KindNone \<and> dvwRaw view \<noteq> [] then dvwRaw view else NormalizedKind_string (dvwKind view))"

subsection \<open>Reads and row updates (store/webhook\_projection.go)\<close>

definition IntentForPR :: "DB \<Rightarrow> string \<Rightarrow> string \<Rightarrow> int \<Rightarrow> Intent option" where
  "IntentForPR db tenantID repo prNumber =
    (case sort_by (\<lambda>a b. iCreatedAt a > iCreatedAt b) (select (\<lambda>i. iTenantID i = tenantID \<and> dRepo (Declared i) = repo \<and> iPRNumber i = prNumber) (dbIntents db)) of
       [] \<Rightarrow> None | i # _ \<Rightarrow> GetIntent db tenantID (iID i))"

definition CandidateHeadStateTx :: "DB \<Rightarrow> string \<Rightarrow> string \<Rightarrow> string \<Rightarrow> bool \<times> bool" where
  "CandidateHeadStateTx db tenantID intentID headSHA =
    (let cs = select (\<lambda>c. cTenantID c = tenantID \<and> cIntentID c = intentID \<and> cHeadSHA c = headSHA) (dbCandidates db) in
     (list_ex live_head cs, cs \<noteq> []))"

definition candidate_live :: "Candidate \<Rightarrow> bool" where
  "candidate_live c \<longleftrightarrow> cState c \<notin> {CandSuperseded, CandCancelled, CandRejected, CandEligible}"

definition LiveCandidatesForIntentTx :: "DB \<Rightarrow> string \<Rightarrow> string \<Rightarrow> Candidate list" where
  "LiveCandidatesForIntentTx db tenantID intentID = sort_by (\<lambda>a b. cCreatedAt a < cCreatedAt b)
     (select (\<lambda>c. cTenantID c = tenantID \<and> cIntentID c = intentID \<and> candidate_live c) (dbCandidates db))"

definition LiveCandidatesByRepoBase :: "DB \<Rightarrow> string \<Rightarrow> string \<Rightarrow> string \<Rightarrow> Candidate list" where
  "LiveCandidatesByRepoBase db tenantID repo oldBaseSHA = sort_by (\<lambda>a b. cCreatedAt a < cCreatedAt b)
     (select (\<lambda>c. cTenantID c = tenantID \<and> cRepo c = repo \<and> cBaseSHA c = oldBaseSHA \<and> candidate_live c) (dbCandidates db))"

definition AcceptedEvidenceIDsTx :: "DB \<Rightarrow> string \<Rightarrow> string \<Rightarrow> string list" where
  "AcceptedEvidenceIDsTx db tenantID candidateID = map evID (select (\<lambda>e. evTenantID e = tenantID \<and> evCandidateID e = candidateID \<and>
     evStatus e = EvidenceAccepted) (dbEvidence db))"

definition ActiveRepairTaskIDsTx :: "DB \<Rightarrow> string \<Rightarrow> string \<Rightarrow> string list" where
  "ActiveRepairTaskIDsTx db tenantID candidateID = map rtID (select (\<lambda>t. rtTenantID t = tenantID \<and> rtCandidateID t = candidateID \<and>
     \<not> RepairState_Terminal (rtState t)) (dbRepairs db))"

definition closeCandidateTx :: "CandidateState \<Rightarrow> string \<Rightarrow> string \<Rightarrow> int \<Rightarrow> unit tx" where
  "closeCandidateTx st tenantID candidateID seq = bindT getDB (\<lambda>db.
     let P = (\<lambda>c. cID c = candidateID \<and> cTenantID c = tenantID \<and> cState c \<notin> {CandSuperseded, CandCancelled}) in
     thenT (modifyDB (\<lambda>d. d\<lparr>dbCandidates := update_rows P (\<lambda>c. c\<lparr>cState := st\<rparr>) seq (dbCandidates d)\<rparr>))
       (if select P (dbCandidates db) = [] then failT (EDomain ErrPostTerminal) else returnT ()))"

definition SupersedeCandidateTx :: "string \<Rightarrow> string \<Rightarrow> int \<Rightarrow> unit tx" where
  "SupersedeCandidateTx = closeCandidateTx CandSuperseded"

definition CancelCandidateTx :: "string \<Rightarrow> string \<Rightarrow> int \<Rightarrow> unit tx" where
  "CancelCandidateTx = closeCandidateTx CandCancelled"

definition SuspendReposTx :: "string list \<Rightarrow> unit tx" where
  "SuspendReposTx repos = forT (\<lambda>repo. modifyDB (\<lambda>d. if repo \<in> set (dbSuspended d) then d else d\<lparr>dbSuspended := dbSuspended d @ [repo]\<rparr>)) repos"

definition RepoSuspended :: "DB \<Rightarrow> string \<Rightarrow> bool" where
  "RepoSuspended db repo \<longleftrightarrow> repo \<in> set (dbSuspended db)"

record LeaseRevocation =
  lrLeaseID :: string
  lrIntentID :: string
  lrReleasedBudget :: BudgetValues

definition ActiveLeasesForRepos :: "DB \<Rightarrow> string \<Rightarrow> string list \<Rightarrow> LeaseRevocation list" where
  "ActiveLeasesForRepos db tenantID repos = concat (map (\<lambda>l.
     map (\<lambda>i. \<lparr>lrLeaseID = lID l, lrIntentID = iID i, lrReleasedBudget = ComputeBudget (Declared i)\<rparr>)
       (select (\<lambda>i. iID i = lIntentID l \<and> iTenantID i = lTenantID l \<and> dRepo (Declared i) \<in> set repos) (dbIntents db)))
     (select (\<lambda>l. lTenantID l = tenantID \<and> lState l \<in> {LeaseRequested, LeaseGranted}) (dbLeases db)))"

subsection \<open>Cascades (delivery\_cascade.go, delivery\_effects.go)\<close>

definition webhookActor :: "string \<Rightarrow> EventActor" where
  "webhookActor login = \<lparr>actKind = ''github'', actID = (if login = [] then ''github'' else login)\<rparr>"

definition candidate_agg :: "string \<Rightarrow> AggregateRef" where
  "candidate_agg ident = \<lparr>agType = ''candidate'', agID = ident\<rparr>"

definition abortRepairRow :: "string \<Rightarrow> unit tx" where
  "abortRepairRow rid = modifyDB (\<lambda>d. d\<lparr>dbRepairs := map (\<lambda>r. if rtID (rowVal r) = rid then r\<lparr>rowVal := (rowVal r)\<lparr>rtState := RepairAborted\<rparr>\<rparr> else r) (dbRepairs d)\<rparr>)"

definition appendEventsAndProjectCancels :: "EngineEnv \<Rightarrow> Event list \<Rightarrow> string list \<Rightarrow> string list \<Rightarrow> Event list tx" where
  "appendEventsAndProjectCancels env events runIDs repairIDs =
     bindT (appendT env events) (\<lambda>stamped.
     thenT (forT (cancelRunRow env) runIDs)
     (thenT (forT abortRepairRow repairIDs)
     (returnT stamped)))"

definition cancelQueuedRunsEvents :: "EngineEnv \<Rightarrow> string \<Rightarrow> string list \<Rightarrow> string \<Rightarrow> EventActor \<Rightarrow> Event list tx" where
  "cancelQueuedRunsEvents env tenant runIDs reason actor = mapT (\<lambda>rid.
     bindT (freshID env ''corr_'') (\<lambda>corr.
     eventT env actor tenant (run_agg rid) ''validation.cancelled'' [] corr (JObj [(''run_ids'', JArr [JStr rid]), (''reason'', JStr reason)]))) runIDs"

definition supersedeCandidateTx :: "EngineEnv \<Rightarrow> string \<Rightarrow> string \<Rightarrow> Candidate \<Rightarrow> string \<Rightarrow> unit tx" where
  "supersedeCandidateTx env tenant extDeliveryID prior successorID =
    (let actor = webhookActor [] in
     bindT (freshID env ''corr_'') (\<lambda>corr.
     bindT (eventT env actor tenant (candidate_agg (cID prior)) ''candidate.superseded'' extDeliveryID corr
        (JObj [(''candidate_id'', JStr (cID prior)), (''by_candidate_id'', JStr successorID), (''reason'', JStr ''head_advanced'')])) (\<lambda>ev.
     bindT getDB (\<lambda>db.
     let runIDs = QueuedRunIDsTx db tenant (cID prior); evIDs = AcceptedEvidenceIDsTx db tenant (cID prior);
         repairIDs = ActiveRepairTaskIDsTx db tenant (cID prior) in
     bindT (cancelQueuedRunsEvents env tenant runIDs ''superseded'' actor) (\<lambda>cancels.
     bindT (case evIDs of [] \<Rightarrow> returnT [] | e # _ \<Rightarrow> bindT (eventT env actor tenant \<lparr>agType = ''evidence'', agID = e\<rparr> ''evidence.invalidated'' extDeliveryID corr
        (JObj [(''ev_ids'', toAnySlice evIDs), (''reason'', JStr ''base_advanced'')])) (\<lambda>inv. returnT [inv])) (\<lambda>invs.
     bindT (mapT (\<lambda>rid. eventT env actor tenant \<lparr>agType = ''repair_task'', agID = rid\<rparr> ''repair.completed'' extDeliveryID corr
        (JObj [(''repair_id'', JStr rid), (''outcome'', JStr ''aborted''), (''attempts_used'', JInt 0)])) repairIDs) (\<lambda>aborts.
     bindT (appendEventsAndProjectCancels env (ev # cancels @ invs @ aborts) runIDs repairIDs) (\<lambda>stamped.
     SupersedeCandidateTx tenant (cID prior) (eSeq (hd stamped))))))))))"

definition cancelCandidate :: "EngineEnv \<Rightarrow> string \<Rightarrow> string \<Rightarrow> string \<Rightarrow> Candidate \<Rightarrow> unit tx" where
  "cancelCandidate env tenant extID reason p =
    (let actor = webhookActor [] in
     bindT (freshID env ''corr_'') (\<lambda>corr.
     bindT (eventT env actor tenant (candidate_agg (cID p)) ''candidate.cancelled'' extID corr
        (JObj [(''candidate_id'', JStr (cID p)), (''reason'', JStr reason)])) (\<lambda>cancelEv.
     bindT getDB (\<lambda>db. let runIDs = QueuedRunIDsTx db tenant (cID p) in
     bindT (cancelQueuedRunsEvents env tenant runIDs ''intent_closed'' actor) (\<lambda>cancels.
     bindT (appendEventsAndProjectCancels env (cancelEv # cancels) runIDs []) (\<lambda>stamped.
     CancelCandidateTx tenant (cID p) (eSeq (hd stamped))))))))"

subsection \<open>Pull requests (delivery\_candidate.go, delivery\_effects.go, delivery\_cascade.go)\<close>

definition createSyntheticIntentTx :: "ApiEnv \<Rightarrow> string \<Rightarrow> deliveryView \<Rightarrow> Intent tx" where
  "createSyntheticIntentTx ae tenant view =
    (let env = apEng ae; pr = dvwPR view in
     bindT (freshID env ''int_'') (\<lambda>intentID.
     let intent = (NewIntent intentID tenant \<lparr>Goal = ''synthetic: '' @ prvTitle pr @ '' (#'' @ itoa (prvNumber pr) @ '')'', dRepo = dvwRepo view,
           BaseRef = prvBaseRef pr, BaseSnapshot = prvBaseSHA pr, OwnedSurfaces = [''**''], Constraints = [], AcceptanceCriteria = [],
           dRiskClass = RiskMedium, Deadline = None, dOrigin = OriginGitHubHook, AgentLineage = [''github:'' @ prvSender pr],
           dResolvedPolicy = drRef DefaultPolicy, ComputeBudget = drPerCandidateBudget DefaultPolicy\<rparr> (envNow env))\<lparr>iPRNumber := prvNumber pr\<rparr> in
     bindT (freshID env ''lease_'') (\<lambda>leaseID.
     let lease = NewLease leaseID tenant intentID \<lparr>lsKind = ScopeChangeScope, lsSurfaces = [''**''], lsEnvTemplate = []\<rparr>
           (actID (webhookActor (prvSender pr))) (drPerCandidateBudget DefaultPolicy) (apLeaseTTL ae) [] (envNow env) in
     thenT (CreateIntentTx env intent lease []) (returnT intent))))"

definition submitWebhookCandidateTx :: "ApiEnv \<Rightarrow> Intent \<Rightarrow> string \<Rightarrow> deliveryView \<Rightarrow> Candidate option tx" where
  "submitWebhookCandidateTx ae intent tenant view =
    (let env = apEng ae; pr = dvwPR view in
     bindT getDB (\<lambda>db.
     if fst (CandidateHeadStateTx db tenant (iID intent) (prvHeadSHA pr)) then returnT None
     else bindT (freshID env ''cand_'') (\<lambda>candID.
       bindT (liftT (map_sum EDomain (\<lambda>c. c) (NewCandidate candID tenant (iID intent) (''github:'' @ prvSender pr) (prvDiffURL pr) (prvHeadSHA pr)
          (prvBaseSHA pr) [] 0 (envNow env)))) (\<lambda>cand0.
       bindT (planT ae \<lparr>ciCandidateID = candID, ciIntentID = iID intent, ciRepo = dvwRepo view, ciBaseSHA = prvBaseSHA pr, ciHeadSHA = prvHeadSHA pr,
          ciPatchRef = prvDiffURL pr, ciChangedPaths = [], ciRiskClass = dRiskClass (Declared intent)\<rparr>) (\<lambda>plan0.
       let plan = plan0\<lparr>vpTenantID := tenant\<rparr>;
           cand = cand0\<lparr>cRepo := dvwRepo view, cPRNumber := prvNumber pr, cEstCostMillicents := plan_cost plan\<rparr> in
       bindT (runs_for_plan env intent cand plan tenant) (\<lambda>runs.
       thenT (SubmitCandidateTx env cand plan runs None) (returnT (Some cand))))))))"

text \<open>Reads outside the transaction's connection take the database \<open>pool\<close> of its start.\<close>

definition applyPROpened :: "ApiEnv \<Rightarrow> string \<Rightarrow> deliveryView \<Rightarrow> DB \<Rightarrow> unit tx" where
  "applyPROpened ae tenant view pool =
    (if RepoSuspended pool (dvwRepo view) then returnT ()
     else bindT (case IntentForPR pool tenant (dvwRepo view) (prvNumber (dvwPR view)) of
         None \<Rightarrow> createSyntheticIntentTx ae tenant view | Some intent \<Rightarrow> returnT intent) (\<lambda>intent.
       thenT (submitWebhookCandidateTx ae intent tenant view) (returnT ())))"

definition applyPRSynchronize :: "ApiEnv \<Rightarrow> string \<Rightarrow> string \<Rightarrow> deliveryView \<Rightarrow> DB \<Rightarrow> unit tx" where
  "applyPRSynchronize ae tenant extID view pool =
    (case IntentForPR pool tenant (dvwRepo view) (prvNumber (dvwPR view)) of
       None \<Rightarrow> returnT ()
     | Some intent \<Rightarrow>
         bindT getDB (\<lambda>db.
         if snd (CandidateHeadStateTx db tenant (iID intent) (prvHeadSHA (dvwPR view))) then returnT ()
         else let prior = LiveCandidatesForIntentTx db tenant (iID intent) in
           bindT (submitWebhookCandidateTx ae intent tenant view) (\<lambda>successor.
           case successor of None \<Rightarrow> failT EStorage
           | Some s \<Rightarrow> forT (\<lambda>p. if cID p = cID s then returnT () else supersedeCandidateTx (apEng ae) tenant extID p (cID s)) prior)))"

definition applyPRClosed :: "ApiEnv \<Rightarrow> string \<Rightarrow> string \<Rightarrow> deliveryView \<Rightarrow> DB \<Rightarrow> unit tx" where
  "applyPRClosed ae tenant extID view pool =
    (case IntentForPR pool tenant (dvwRepo view) (prvNumber (dvwPR view)) of
       None \<Rightarrow> returnT ()
     | Some intent \<Rightarrow> bindT getDB (\<lambda>db.
         forT (cancelCandidate (apEng ae) tenant extID (if prvMerged (dvwPR view) then ''merged'' else ''closed_without_merge''))
           (LiveCandidatesForIntentTx db tenant (iID intent))))"

subsection \<open>Base advances and uninstallation (delivery\_installation\_effects.go)\<close>

definition ignoring_post_terminal :: "unit tx \<Rightarrow> unit tx" where
  "ignoring_post_terminal m w = (case m w of (Inl (EDomain ErrPostTerminal), w') \<Rightarrow> (Inr (), w') | r \<Rightarrow> r)"

definition applyPushBaseAdvanced :: "ApiEnv \<Rightarrow> string \<Rightarrow> string \<Rightarrow> deliveryView \<Rightarrow> DB \<Rightarrow> unit tx" where
  "applyPushBaseAdvanced ae tenant extID view pool =
    (let env = apEng ae; push = dvwPush view; affected = LiveCandidatesByRepoBase pool tenant (dvwRepo view) (puOldSHA push) in
     bindT (freshID env ''corr_'') (\<lambda>corr.
     bindT (freshID env ''dlv_'') (\<lambda>dlv.
     bindT (eventT env (webhookActor []) tenant \<lparr>agType = ''delivery'', agID = dlv\<rparr> ''merge_base.advanced'' extID corr
        (JObj [(''repo'', JStr (dvwRepo view)), (''old_sha'', JStr (puOldSHA push)), (''new_sha'', JStr (puNewSHA push)),
          (''affected_candidate_ids'', toAnySlice (map cID affected)), (''branch'', JStr (puBranch push))])) (\<lambda>ev.
     thenT (appendT env [ev])
     (forT (\<lambda>cand. ignoring_post_terminal (supersedeCandidateTx env tenant extID cand (cID cand))) affected)))))"

text \<open>The sequence number written with a cancelled candidate is that of the event before it was appended, which is 0.\<close>

definition cancelForUninstall :: "EngineEnv \<Rightarrow> string \<Rightarrow> Candidate \<Rightarrow> (Event list \<times> string list) tx" where
  "cancelForUninstall env tenant p =
    (let actor = webhookActor [] in
     bindT (freshID env ''corr_'') (\<lambda>corr.
     bindT (eventT env actor tenant (candidate_agg (cID p)) ''candidate.cancelled'' [] corr
        (JObj [(''candidate_id'', JStr (cID p)), (''reason'', JStr ''intent_closed'')])) (\<lambda>cancelEv.
     bindT getDB (\<lambda>db. let queued = QueuedRunIDsTx db tenant (cID p) in
     bindT (cancelQueuedRunsEvents env tenant queued ''intent_closed'' actor) (\<lambda>cancels.
     thenT (ignoring_post_terminal (CancelCandidateTx tenant (cID p) (eSeq cancelEv)))
     (returnT (cancelEv # cancels, queued)))))))"

definition revokeLease :: "EngineEnv \<Rightarrow> string \<Rightarrow> string list \<Rightarrow> LeaseRevocation \<Rightarrow> (Event list \<times> string list) tx" where
  "revokeLease env tenant repos lr =
     bindT (freshID env ''corr_'') (\<lambda>corr.
     bindT (eventT env (webhookActor []) tenant \<lparr>agType = ''lease'', agID = lrLeaseID lr\<rparr> ''lease.revoked'' [] corr
        (JObj [(''lease_id'', JStr (lrLeaseID lr)), (''reason'', JStr ''repo_deleted''), (''released_budget'', budget_json (lrReleasedBudget lr))])) (\<lambda>ev.
     thenT (modifyDB (\<lambda>d. d\<lparr>dbLeases := map (\<lambda>r. if lID (rowVal r) = lrLeaseID lr \<and> lState (rowVal r) \<in> {LeaseRequested, LeaseGranted}
        then r\<lparr>rowVal := (rowVal r)\<lparr>lState := LeaseRevoked, ReleasedAt := Some (envNow env)\<rparr>\<rparr> else r) (dbLeases d)\<rparr>))
     (thenT (InsertSecurityAuditTx \<lparr>adTenantID = tenant, adKind = ''lease_revocation'', adActor = \<lparr>actKind = ''github'', actID = ''installation_cascade''\<rparr>,
        adSubject = JObj [(''lease_id'', JStr (lrLeaseID lr))], adDetail = JObj [(''reason'', JStr ''repo_deleted''), (''repos'', toAnySlice repos)]\<rparr>)
     (bindT getDB (\<lambda>db.
     bindT (mapT (cancelForUninstall env tenant) (LiveCandidatesForIntentTx db tenant (lrIntentID lr))) (\<lambda>parts.
     returnT (ev # concat (map fst parts), concat (map snd parts))))))))"

definition applyInstallationDeleted :: "ApiEnv \<Rightarrow> string \<Rightarrow> deliveryView \<Rightarrow> DB \<Rightarrow> unit tx" where
  "applyInstallationDeleted ae tenant view pool =
    (let env = apEng ae; repos = inRepos (dvwInstall view) in
     if repos = [] then returnT ()
     else bindT (mapT (revokeLease env tenant repos) (ActiveLeasesForRepos pool tenant repos)) (\<lambda>parts.
       thenT (appendEventsAndProjectCancels env (concat (map fst parts)) (concat (map snd parts)) [])
       (SuspendReposTx repos)))"

subsection \<open>The endpoint (delivery\_handler.go, delivery\_audit\_seams.go)\<close>

record deliveryBody =
  wbSource :: string
  wbExtDeliveryID :: string
  wbEventKind :: string
  wbRepo :: string
  wbPayload :: string
  wbQuarantineReason :: string
  wbDuplicateSuspect :: bool

record DeliveryEnv =
  wvApi :: ApiEnv
  wvTenantID :: string
  wvTracked :: "string list"
  wvVerifyHMAC :: "string \<Rightarrow> string \<Rightarrow> bool"
  wvDecode :: "string \<Rightarrow> deliveryBody option"
  wvPayload :: "string \<Rightarrow> payload option"

definition deliveries_endpoint :: string where
  "deliveries_endpoint = ''POST /internal/ctrl/deliveries''"

definition accepted_body :: json where
  "accepted_body = JObj [(''accepted'', JBool True)]"

definition replay_body :: json where
  "replay_body = JObj [(''accepted'', JBool True), (''replay'', JBool True)]"

definition delivery_consumer :: string where
  "delivery_consumer = ''delivery-normalizer''"

definition buildDeliveryAcceptedEvent :: "EngineEnv \<Rightarrow> string \<Rightarrow> deliveryBody \<Rightarrow> string \<Rightarrow> Event tx" where
  "buildDeliveryAcceptedEvent env tenantID body normalized =
     bindT (freshID env ''dlv_'') (\<lambda>dlv.
     eventT env \<lparr>actKind = ''github'', actID = ''github''\<rparr> tenantID \<lparr>agType = ''delivery'', agID = dlv\<rparr> ''delivery.accepted'' [] []
       (JObj [(''source'', JStr (wbSource body)), (''ext_delivery_id'', JStr (wbExtDeliveryID body)), (''normalized_kind'', JStr normalized),
         (''repo'', JStr (wbRepo body))]))"

definition applyDeliveryEffects :: "DeliveryEnv \<Rightarrow> deliveryBody \<Rightarrow> deliveryView \<Rightarrow> DB \<Rightarrow> unit tx" where
  "applyDeliveryEffects de body view pool = (let ae = wvApi de; tenant = wvTenantID de; extID = wbExtDeliveryID body in
     case dvwKind view of
       KindPROpened \<Rightarrow> applyPROpened ae tenant view pool
     | KindPRSynchronize \<Rightarrow> applyPRSynchronize ae tenant extID view pool
     | KindPRClosed \<Rightarrow> applyPRClosed ae tenant extID view pool
     | KindPushBaseAdv \<Rightarrow> applyPushBaseAdvanced ae tenant extID view pool
     | KindInstallDeleted \<Rightarrow> applyInstallationDeleted ae tenant view pool
     | _ \<Rightarrow> returnT ())"

definition sigfailed_mark :: string where
  "sigfailed_mark = ''.sigfailed.''"

text \<open>\<^verbatim>\<open>strings.LastIndex\<close>.\<close>

definition last_index :: "string \<Rightarrow> string \<Rightarrow> nat option" where
  "last_index s sub = (case filter (\<lambda>i. has_prefix (drop i s) sub) [0..<Suc (length s)] of [] \<Rightarrow> None | is \<Rightarrow> Some (last is))"

definition quarantinedGUID :: "string \<Rightarrow> string" where
  "quarantinedGUID markerID = (case last_index markerID sigfailed_mark of Some i \<Rightarrow> if i > 0 then take i markerID else markerID | None \<Rightarrow> markerID)"

definition recordDelivery :: "DeliveryEnv \<Rightarrow> string \<Rightarrow> string \<Rightarrow> unit tx" where
  "recordDelivery de extID hash = RecordCommandTx (wvTenantID de) deliveries_endpoint extID hash 202 accepted_body"

definition applyQuarantineMarker :: "DeliveryEnv \<Rightarrow> string \<Rightarrow> deliveryBody \<Rightarrow> ApiResp tx" where
  "applyQuarantineMarker de hash body = withTx (
     bindT (MarkProcessedTx delivery_consumer (wbExtDeliveryID body)) (\<lambda>fresh.
     if \<not> fresh then returnT (RespJSON 200 replay_body)
     else thenT (InsertSecurityAuditTx \<lparr>adTenantID = wvTenantID de, adKind = ''webhook_signature_failed'', adActor = \<lparr>actKind = ''github'', actID = ''webhook''\<rparr>,
         adSubject = JObj [(''ext_delivery_id'', JStr (wbExtDeliveryID body)), (''repo'', JStr (wbRepo body))],
         adDetail = JObj [(''quarantined_ext_delivery_id'', JStr (quarantinedGUID (wbExtDeliveryID body))), (''event_kind'', JStr (wbEventKind body)),
           (''reason'', JStr (wbQuarantineReason body))]\<rparr>)
       (thenT (recordDelivery de (wbExtDeliveryID body) hash) (returnT (RespJSON 202 accepted_body)))))"

definition applyDuplicateSuspect :: "DeliveryEnv \<Rightarrow> string \<Rightarrow> deliveryBody \<Rightarrow> ApiResp tx" where
  "applyDuplicateSuspect de hash body = withTx (
     bindT (MarkProcessedTx delivery_consumer (wbExtDeliveryID body)) (\<lambda>fresh.
     thenT (if fresh then recordDelivery de (wbExtDeliveryID body) hash else returnT ()) (returnT (RespJSON 202 accepted_body))))"

definition deliveryTx :: "DeliveryEnv \<Rightarrow> string \<Rightarrow> string \<Rightarrow> deliveryBody \<Rightarrow> deliveryView \<Rightarrow> Event \<Rightarrow> DB \<Rightarrow> ApiResp tx" where
  "deliveryTx de extID hash body view ev pool = withTx (
     bindT (MarkProcessedTx delivery_consumer extID) (\<lambda>fresh.
     if \<not> fresh then returnT (RespJSON 200 replay_body)
     else thenT (appendT (apEng (wvApi de)) [ev])
       (thenT (applyDeliveryEffects de body view pool)
       (thenT (recordDelivery de extID hash)
       (returnT (RespJSON 202 accepted_body))))))"

definition or_unavailable :: "ApiResp tx \<Rightarrow> World \<Rightarrow> ApiResp \<times> World" where
  "or_unavailable m w = (case m w of (Inl _, w') \<Rightarrow> (RespErr 503 ''unavailable'', w') | (Inr r, w') \<Rightarrow> (r, w'))"

definition handleDelivery :: "DeliveryEnv \<Rightarrow> string \<Rightarrow> string \<Rightarrow> string \<Rightarrow> World \<Rightarrow> ApiResp \<times> World" where
  "handleDelivery de sig extID raw w =
    (if int (length raw) > maxBodyBytes then (RespErr 413 ''validation_failed'', w)
     else if \<not> wvVerifyHMAC de raw sig then (RespErr 401 ''unauthorized'', w)
     else if extID = [] then (RespErr 400 ''validation_failed'', w)
     else case wvDecode de raw of None \<Rightarrow> (RespErr 400 ''validation_failed'', w)
     | Some body \<Rightarrow>
         let hash = apRequestHash (wvApi de) raw;
             payload = (case wvPayload de (wbPayload body) of Some p \<Rightarrow> p | None \<Rightarrow> []) in
         (case LookupCommand (wDB w) (wvTenantID de) deliveries_endpoint extID hash of
            Inr (Some _) \<Rightarrow> (RespJSON 200 replay_body, w)
          | _ \<Rightarrow>
            if wbQuarantineReason body \<noteq> [] then or_unavailable (applyQuarantineMarker de hash body) w
            else if wbDuplicateSuspect body then or_unavailable (applyDuplicateSuspect de hash body) w
            else let view = normalizeDelivery (wbEventKind body) (wbRepo body) payload (wvTracked de) in
              or_unavailable (bindT (buildDeliveryAcceptedEvent (apEng (wvApi de)) (wvTenantID de) body (normalizedLabel view)) (\<lambda>ev.
                deliveryTx de extID hash body view ev (wDB w))) w))"

definition handleGitHubWebhook :: "DeliveryEnv \<Rightarrow> string \<Rightarrow> string \<Rightarrow> string \<Rightarrow> string \<Rightarrow> World \<Rightarrow> ApiResp \<times> World" where
  "handleGitHubWebhook de sig delivery event raw w =
    (if int (length raw) > maxBodyBytes then (RespErr 413 ''validation_failed'', w)
     else if sig = [] \<or> delivery = [] \<or> event = [] then (RespErr 401 ''unauthorized'', w)
     else if \<not> wvVerifyHMAC de raw sig then (RespErr 401 ''unauthorized'', w)
     else respond (bindT (buildDeliveryAcceptedEvent (apEng (wvApi de)) (wvTenantID de)
         \<lparr>wbSource = ''github'', wbExtDeliveryID = delivery, wbEventKind = event, wbRepo = [], wbPayload = [], wbQuarantineReason = [], wbDuplicateSuspect = False\<rparr> event)
       (\<lambda>ev. thenT (withTx (appendT (apEng (wvApi de)) [ev])) (returnT (RespJSON 202 accepted_body)))) w)"

end
