(* ===== verification/Handlers.thy ===== *)
theory Handlers
  imports Delivery
begin

text \<open>
  What the control plane's handlers can write. A small logic for the transaction monad bounds what an action may do to the
  database; the locale \<open>api_frame\<close> derives such bounds for every handler of the API from bounds on the individual
  writes, given which candidate ids may be touched, and \<open>intent_frame\<close> does so for relations that ignore intents.
\<close>

subsection \<open>Bounded actions\<close>

text \<open>\<open>stays N S Q m A\<close>: from a world that has drawn at least \<open>N\<close> ids and whose live candidates have ids in
  \<open>S\<close>, the action \<open>m\<close> stays in such worlds, changes the database only as \<open>Q\<close> allows, and a result satisfies \<open>A\<close>.\<close>

definition live_in :: "string set \<Rightarrow> DB \<Rightarrow> bool" where
  "live_in S db \<longleftrightarrow> (\<forall>r \<in> set (dbCandidates db). candidate_live (rowVal r) \<longrightarrow> cID (rowVal r) \<in> S)"

definition stays :: "nat \<Rightarrow> string set \<Rightarrow> (DB \<Rightarrow> DB \<Rightarrow> bool) \<Rightarrow> 'a tx \<Rightarrow> ('a \<Rightarrow> bool) \<Rightarrow> bool" where
  "stays N S Q m A \<longleftrightarrow> (\<forall>w. N \<le> wNonce w \<longrightarrow> live_in S (wDB w) \<longrightarrow>
     N \<le> wNonce (snd (m w)) \<and> live_in S (wDB (snd (m w))) \<and> Q (wDB w) (wDB (snd (m w))) \<and> (\<forall>x. fst (m w) = Inr x \<longrightarrow> A x))"

definition slots_of :: "Intent Row list \<Rightarrow> string list" where
  "slots_of rows = filter (\<lambda>s. s \<noteq> []) (map (\<lambda>r. InitialCandidateID (rowVal r)) rows)"

locale api_frame = db_order +
  fixes de :: DeliveryEnv and N :: nat and S :: "string set"
  assumes a_fresh: "N \<le> n \<Longrightarrow> envNewID (apEng (wvApi de)) ''cand_'' n \<in> S"
    and a_ledger: "AppendEventsTx (envCrypto (apEng (wvApi de))) (envHasSigner (apEng (wvApi de))) evs (dbLedger db) = Inr (stamped, l) \<Longrightarrow> Q db (db\<lparr>dbLedger := l\<rparr>)"
    and a_insert: "cID cand \<in> S \<Longrightarrow> heads_unique (upsert_candidate seq cand (dbCandidates db)) \<Longrightarrow> Q db (db\<lparr>dbCandidates := upsert_candidate seq cand (dbCandidates db)\<rparr>)"
    and a_close: "ci \<in> S \<Longrightarrow> st \<in> {CandSuperseded, CandCancelled} \<Longrightarrow> Q db (db\<lparr>dbCandidates := update_rows (\<lambda>c. cID c = ci \<and> cTenantID c = ti \<and>
      cState c \<notin> {CandSuperseded, CandCancelled}) (\<lambda>c. c\<lparr>cState := st\<rparr>) seq (dbCandidates db)\<rparr>)"
    and a_rerun: "live_in S db \<Longrightarrow> (\<And>c. P c \<Longrightarrow> \<not> CandidateState_Terminal (cState c)) \<Longrightarrow> Q db (db\<lparr>dbCandidates := map (\<lambda>r. if P (rowVal r) then
      r\<lparr>rowVal := (rowVal r)\<lparr>RerunCount := RerunCount (rowVal r) + 1\<rparr>\<rparr> else r) (dbCandidates db)\<rparr>)"
    and a_intents: "slots_of is = slots_of (dbIntents db) \<Longrightarrow> Q db (db\<lparr>dbIntents := is\<rparr>)"
    and a_audit: "Q db (db\<lparr>dbAudit := dbAudit db @ [a]\<rparr>)"
    and a_processed: "Q db (db\<lparr>dbProcessed := dbProcessed db @ [k]\<rparr>)"
    and a_commands: "Q db (db\<lparr>dbCommands := dbCommands db @ [ck]\<rparr>)"
    and a_suspended: "Q db (db\<lparr>dbSuspended := dbSuspended db @ [repo]\<rparr>)"
    and a_rates: "Q db (db\<lparr>dbRateLimits := rl\<rparr>)"
    and a_runs: "Q db (db\<lparr>dbRuns := rs\<rparr>)"
    and a_plans: "Q db (db\<lparr>dbPlans := ps\<rparr>)"
    and a_clusters: "Q db (db\<lparr>dbClusters := cs\<rparr>)"
    and a_members: "Q db (db\<lparr>dbMembers := ms\<rparr>)"
    and a_leases: "Q db (db\<lparr>dbLeases := ls\<rparr>)"
    and a_repairs: "Q db (db\<lparr>dbRepairs := ts\<rparr>)"
begin

subsection \<open>Rules of the logic\<close>

lemma wi_weaken: "stays N S Q m A \<Longrightarrow> (\<And>x. A x \<Longrightarrow> B x) \<Longrightarrow> stays N S Q m B"
  by (auto simp: stays_def)

lemma wi_any: "stays N S Q m A \<Longrightarrow> stays N S Q m (\<lambda>_. True)"
  by (auto simp: stays_def)

lemma wi_return: "A x \<Longrightarrow> stays N S Q (returnT x) A"
  by (simp add: stays_def returnT_def refl_Q)

lemma wi_fail: "stays N S Q (failT e) A"
  by (simp add: stays_def failT_def refl_Q)

lemma wi_lift: "(\<And>x. r = Inr x \<Longrightarrow> A x) \<Longrightarrow> stays N S Q (liftT r) A"
  by (simp add: stays_def liftT_def refl_Q)

lemma wi_fresh: "stays N S Q (freshID (apEng (wvApi de)) px) (\<lambda>x. px = ''cand_'' \<longrightarrow> x \<in> S)"
  by (auto simp: stays_def freshID_def refl_Q a_fresh)

lemma wi_modify:
  assumes "\<And>db. live_in S db \<Longrightarrow> live_in S (f db) \<and> Q db (f db)"
  shows "stays N S Q (modifyDB f) (\<lambda>_. True)"
  using assms by (simp add: stays_def modifyDB_def)

lemma wi_bind:
  assumes "stays N S Q m A" and "\<And>x. A x \<Longrightarrow> stays N S Q (f x) B"
  shows "stays N S Q (bindT m f) B"
  unfolding stays_def
proof (intro allI impI)
  fix w :: World assume n: "N \<le> wNonce w" and l: "live_in S (wDB w)"
  obtain r w1 where m: "m w = (r, w1)" by fastforce
  have s: "N \<le> wNonce w1" "live_in S (wDB w1)" "Q (wDB w) (wDB w1)" "\<And>x. r = Inr x \<Longrightarrow> A x"
    using assms(1) n l m by (auto simp: stays_def)
  show "N \<le> wNonce (snd (bindT m f w)) \<and> live_in S (wDB (snd (bindT m f w))) \<and> Q (wDB w) (wDB (snd (bindT m f w))) \<and>
      (\<forall>x. fst (bindT m f w) = Inr x \<longrightarrow> B x)"
  proof (cases r)
    case (Inl e)
    then show ?thesis using s m by (simp add: bindT_def)
  next
    case (Inr x)
    with s(4) have "stays N S Q (f x) B" by (intro assms(2)) simp
    with s(1,2) have t: "N \<le> wNonce (snd (f x w1)) \<and> live_in S (wDB (snd (f x w1))) \<and> Q (wDB w1) (wDB (snd (f x w1))) \<and>
        (\<forall>y. fst (f x w1) = Inr y \<longrightarrow> B y)" unfolding stays_def by blast
    then have "Q (wDB w) (wDB (snd (f x w1)))" using trans_Q s(3) by blast
    with t show ?thesis using Inr m by (simp add: bindT_def)
  qed
qed

lemma wi_get: "(\<And>db. live_in S db \<Longrightarrow> stays N S Q (f db) A) \<Longrightarrow> stays N S Q (bindT getDB f) A"
  by (simp add: stays_def bindT_def getDB_def)

lemma wi_then: "stays N S Q m (\<lambda>_. True) \<Longrightarrow> stays N S Q n B \<Longrightarrow> stays N S Q (thenT m n) B"
  unfolding thenT_def by (rule wi_bind)

lemma wi_if: "(b \<Longrightarrow> stays N S Q m A) \<Longrightarrow> (\<not> b \<Longrightarrow> stays N S Q n A) \<Longrightarrow> stays N S Q (if b then m else n) A"
  by simp

lemma wi_for: "(\<And>x. x \<in> set xs \<Longrightarrow> stays N S Q (f x) A) \<Longrightarrow> stays N S Q (forT f xs) (\<lambda>_. True)"
proof (induction xs)
  case (Cons x xs)
  show ?case unfolding forT.simps by (rule wi_then [OF wi_any [OF Cons.prems] Cons.IH]) (simp_all add: Cons.prems)
qed (simp add: wi_return)

lemma wi_map: "(\<And>x. x \<in> set xs \<Longrightarrow> stays N S Q (f x) (A x)) \<Longrightarrow> stays N S Q (mapT f xs) (\<lambda>ys. list_all2 A xs ys)"
proof (induction xs)
  case (Cons x xs)
  show ?case unfolding mapT.simps
    by (rule wi_bind [OF Cons.prems], simp, rule wi_bind [OF Cons.IH]) (simp_all add: Cons.prems wi_return)
qed (simp add: wi_return)

lemma wi_withTx:
  assumes "stays N S Q m A"
  shows "stays N S Q (withTx m) A"
  unfolding stays_def
proof (intro allI impI)
  fix w :: World assume n: "N \<le> wNonce w" and l: "live_in S (wDB w)"
  obtain r w1 where m: "m w = (r, w1)" by fastforce
  then show "N \<le> wNonce (snd (withTx m w)) \<and> live_in S (wDB (snd (withTx m w))) \<and> Q (wDB w) (wDB (snd (withTx m w))) \<and>
      (\<forall>x. fst (withTx m w) = Inr x \<longrightarrow> A x)"
    using assms n l refl_Q unfolding stays_def by (cases r) (auto simp: withTx_def dest!: spec [of _ w])
qed

lemma wi_respond:
  assumes "stays N S Q m A" and "N \<le> wNonce w" and "live_in S (wDB w)"
  shows "Q (wDB w) (wDB (snd (respond m w)))"
  using assms unfolding stays_def respond_def by (auto simp: case_prod_beta split: sum.split dest!: spec [of _ w])

subsection \<open>The store's statements\<close>

lemma wi_append: "stays N S Q (appendT (apEng (wvApi de)) evs) (\<lambda>_. True)"
  by (auto simp: stays_def appendT_def refl_Q a_ledger live_in_def split: sum.split)

lemma wi_event: "stays N S Q (eventT (apEng (wvApi de)) actor tenantID agg ty causation corr payload) (\<lambda>_. True)"
  unfolding eventT_def by (intro wi_bind [where A = "\<lambda>_. True"] wi_if wi_return wi_any [OF wi_fresh]) simp_all

lemma wi_audit: "stays N S Q (InsertSecurityAuditTx a) (\<lambda>_. True)"
  unfolding InsertSecurityAuditTx_def by (rule wi_modify) (simp add: a_audit live_in_def)

lemma wi_mark: "stays N S Q (MarkProcessedTx consumer key) (\<lambda>_. True)"
  unfolding MarkProcessedTx_def by (intro wi_get wi_if wi_then wi_modify wi_return) (simp_all add: a_processed live_in_def)

lemma wi_record: "stays N S Q (RecordCommandTx tenantID endpoint key hash code body) (\<lambda>_. True)"
  unfolding RecordCommandTx_def by (rule wi_modify) (simp add: a_commands refl_Q live_in_def)

lemma wi_runs: "stays N S Q (modifyDB (\<lambda>d. d\<lparr>dbRuns := f d\<rparr>)) (\<lambda>_. True)"
  by (rule wi_modify) (simp add: a_runs live_in_def)

lemma wi_leases: "stays N S Q (modifyDB (\<lambda>d. d\<lparr>dbLeases := f d\<rparr>)) (\<lambda>_. True)"
  by (rule wi_modify) (simp add: a_leases live_in_def)

lemma upsert_candidate_cases:
  "r \<in> set (upsert_candidate seq cand rows) \<Longrightarrow> r \<in> set rows \<or> cID (rowVal r) = cID cand"
  by (auto simp: upsert_candidate_def upsert_def split: if_splits)

lemma wi_update:
  assumes "\<And>db. live_in S db \<Longrightarrow> P db \<Longrightarrow> live_in S (f db) \<and> Q db (f db)"
  shows "stays N S Q (bindT getDB (\<lambda>db. if P db then modifyDB f else failT e)) (\<lambda>_. True)"
  using assms by (auto simp: stays_def bindT_def getDB_def modifyDB_def failT_def refl_Q)

lemma wi_insert: "cID cand \<in> S \<Longrightarrow> stays N S Q (insertCandidateT cand seq) (\<lambda>_. True)"
  unfolding insertCandidateT_def
  by (rule wi_update) (auto simp: a_insert live_in_def dest: upsert_candidate_cases)

lemma wi_cluster: "stays N S Q (applyClusterProjectionTx (apEng (wvApi de)) cand a seq) (\<lambda>_. True)"
proof -
  have two: "Q db (db\<lparr>dbMembers := ms, dbClusters := cs\<rparr>)" for db ms cs
  proof -
    have "Q (db\<lparr>dbMembers := ms\<rparr>) (db\<lparr>dbMembers := ms\<rparr>\<lparr>dbClusters := cs\<rparr>)" by (rule a_clusters)
    from trans_Q [OF a_members this] show ?thesis .
  qed
  show ?thesis unfolding applyClusterProjectionTx_def
    by (intro wi_get wi_if wi_modify wi_fail) (simp_all add: a_clusters two live_in_def)
qed

lemma wi_advance: "stays N S Q (advanceIntentT tenantID intentID seq) (\<lambda>_. True)"
  unfolding advanceIntentT_def
  by (rule wi_modify) (auto simp: slots_of_def live_in_def comp_def intro!: a_intents arg_cong [where f = "filter _"])

lemma wi_submit: "cID cand \<in> S \<Longrightarrow> stays N S Q (SubmitCandidateTx (apEng (wvApi de)) cand plan runs a) (\<lambda>_. True)"
  unfolding SubmitCandidateTx_def Let_def insertPlanTx_def insertRunTx_def newClusterAssignedEvent_def
  by (intro wi_bind [where A = "\<lambda>_. True"] wi_then wi_any [OF wi_map [where A = "\<lambda>_ _. True"]] wi_if wi_any [OF wi_fresh] wi_event wi_append
      wi_advance wi_insert wi_for [where A = "\<lambda>_. True"] wi_cluster wi_return)
     (auto intro!: wi_modify simp: a_plans a_runs live_in_def)

lemmas wi_seq = wi_bind [where A = "\<lambda>_. True"] wi_then wi_if wi_return wi_fail wi_get wi_any [OF wi_fresh] wi_event wi_append

lemma wi_events: "(\<And>x. stays N S Q (f x) (\<lambda>_. True)) \<Longrightarrow> stays N S Q (mapT f xs) (\<lambda>_. True)"
  by (rule wi_any [OF wi_map [where A = "\<lambda>_ _. True"]]) simp

lemma slots_upsert_plain:
  assumes "InitialCandidateID intent = []"
  shows "slots_of (upsert iID (\<lambda>new old. old\<lparr>iState := iState new\<rparr>) seq intent rows) = slots_of rows"
  using assms by (auto simp: upsert_def slots_of_def comp_def intro!: arg_cong [where f = "filter _"])

lemma wi_create: "InitialCandidateID intent = [] \<Longrightarrow> stays N S Q (CreateIntentTx (apEng (wvApi de)) intent lease conflicts) (\<lambda>_. True)"
  unfolding CreateIntentTx_def Let_def
  by (intro wi_seq wi_leases wi_modify) (simp_all add: a_intents slots_upsert_plain live_in_def)

lemma wi_cancel_row: "stays N S Q (cancelRunRow (apEng (wvApi de)) rid) (\<lambda>_. True)"
  unfolding cancelRunRow_def by (rule wi_runs)

lemma wi_abort_row: "stays N S Q (abortRepairRow rid) (\<lambda>_. True)"
  unfolding abortRepairRow_def by (rule wi_modify) (simp add: a_repairs live_in_def)

lemma wi_project: "stays N S Q (appendEventsAndProjectCancels (apEng (wvApi de)) events runIDs repairIDs) (\<lambda>_. True)"
  unfolding appendEventsAndProjectCancels_def
  by (intro wi_seq wi_for [where A = "\<lambda>_. True"] wi_cancel_row wi_abort_row) simp_all

lemma wi_cancel_events: "stays N S Q (cancelQueuedRunsEvents (apEng (wvApi de)) tenant runIDs reason actor) (\<lambda>_. True)"
  unfolding cancelQueuedRunsEvents_def by (intro wi_events wi_seq)

lemma wi_close: "st \<in> {CandSuperseded, CandCancelled} \<Longrightarrow> ci \<in> S \<Longrightarrow> stays N S Q (closeCandidateTx st ti ci seq) (\<lambda>_. True)"
  unfolding closeCandidateTx_def Let_def
  by (intro wi_seq wi_modify conjI a_close) (auto simp: live_in_def update_rows_def candidate_live_def split: if_splits)

lemma wi_supersede: "cID prior \<in> S \<Longrightarrow> stays N S Q (supersedeCandidateTx (apEng (wvApi de)) tenant extID prior successorID) (\<lambda>_. True)"
  unfolding supersedeCandidateTx_def Let_def SupersedeCandidateTx_def
  by (auto intro!: wi_seq wi_events wi_cancel_events wi_project wi_close split: list.split)

lemma wi_cancel: "cID p \<in> S \<Longrightarrow> stays N S Q (cancelCandidate (apEng (wvApi de)) tenant extID reason p) (\<lambda>_. True)"
  unfolding cancelCandidate_def Let_def CancelCandidateTx_def
  by (intro wi_seq wi_cancel_events wi_project wi_close) simp_all

lemma wi_ignoring:
  assumes "stays N S Q m (\<lambda>_. True)"
  shows "stays N S Q (ignoring_post_terminal m) (\<lambda>_. True)"
  unfolding stays_def
proof (intro allI impI)
  fix w :: World assume n: "N \<le> wNonce w" and l: "live_in S (wDB w)"
  have "snd (ignoring_post_terminal m w) = snd (m w)"
    by (auto simp: ignoring_post_terminal_def split: prod.split sum.split EngErr.split DomErr.split)
  then show "N \<le> wNonce (snd (ignoring_post_terminal m w)) \<and> live_in S (wDB (snd (ignoring_post_terminal m w))) \<and>
      Q (wDB w) (wDB (snd (ignoring_post_terminal m w))) \<and> (\<forall>x. fst (ignoring_post_terminal m w) = Inr x \<longrightarrow> True)"
    using assms n l by (simp add: stays_def)
qed

subsection \<open>Webhook effects\<close>

lemma wi_option:
  "(opt = None \<Longrightarrow> stays N S Q m A) \<Longrightarrow> (\<And>x. opt = Some x \<Longrightarrow> stays N S Q (f x) A) \<Longrightarrow>
    stays N S Q (case opt of None \<Rightarrow> m | Some x \<Rightarrow> f x) A"
  by (cases opt) simp_all

lemma live_for_intent: "live_in S db \<Longrightarrow> p \<in> set (LiveCandidatesForIntentTx db tenant intentID) \<Longrightarrow> cID p \<in> S"
  by (auto simp: LiveCandidatesForIntentTx_def select_def live_in_def)

lemma live_by_base: "live_in S db \<Longrightarrow> p \<in> set (LiveCandidatesByRepoBase db tenant repo sha) \<Longrightarrow> cID p \<in> S"
  by (auto simp: LiveCandidatesByRepoBase_def select_def live_in_def)

lemma wi_plan: "stays N S Q (planT (wvApi de) inp) (\<lambda>_. True)"
  unfolding planT_def by (intro wi_seq wi_lift) simp_all

lemma wi_plan_runs: "stays N S Q (runs_for_plan (apEng (wvApi de)) intent cand plan tenant) (\<lambda>_. True)"
  unfolding runs_for_plan_def run_for_def by (intro wi_events wi_seq) simp_all

lemma wi_synthetic: "stays N S Q (createSyntheticIntentTx (wvApi de) tenant view) (\<lambda>_. True)"
  unfolding createSyntheticIntentTx_def Let_def by (intro wi_seq wi_create) (simp_all add: NewIntent_def)

lemma NewCandidate_id: "map_sum EDomain (\<lambda>c. c) (NewCandidate ident t i su pr h b cp e now) = Inr c \<Longrightarrow> cID c = ident"
  by (auto simp: NewCandidate_def split: if_splits)

lemma wi_new_candidate: "ident \<in> S \<Longrightarrow>
    stays N S Q (liftT (map_sum EDomain (\<lambda>c. c) (NewCandidate ident t i su pr h b cp e now))) (\<lambda>c. cID c \<in> S)"
  by (rule wi_lift) (simp add: NewCandidate_id)

lemma wi_webhook_candidate: "stays N S Q (submitWebhookCandidateTx (wvApi de) intent tenant view) (\<lambda>_. True)"
  unfolding submitWebhookCandidateTx_def Let_def
  by (intro wi_get wi_if wi_return wi_bind [OF wi_fresh] wi_bind [OF wi_new_candidate] wi_bind [OF wi_plan] wi_bind [OF wi_plan_runs] wi_then
      wi_submit) simp_all

lemma wi_opened: "stays N S Q (applyPROpened (wvApi de) tenant view pool) (\<lambda>_. True)"
  unfolding applyPROpened_def by (intro wi_seq wi_option wi_synthetic wi_webhook_candidate) simp_all

lemma wi_synchronize: "stays N S Q (applyPRSynchronize (wvApi de) tenant extID view pool) (\<lambda>_. True)"
  unfolding applyPRSynchronize_def Let_def
  by (intro wi_option wi_get wi_if wi_return wi_bind [OF wi_webhook_candidate] wi_fail wi_for [where A = "\<lambda>_. True"] wi_supersede)
     (auto intro: live_for_intent)

lemma wi_closed: "stays N S Q (applyPRClosed (wvApi de) tenant extID view pool) (\<lambda>_. True)"
  unfolding applyPRClosed_def
  by (intro wi_option wi_return wi_get wi_for [where A = "\<lambda>_. True"] wi_cancel) (auto intro: live_for_intent)

lemma wi_base_advanced: "live_in S pool \<Longrightarrow> stays N S Q (applyPushBaseAdvanced (wvApi de) tenant extID view pool) (\<lambda>_. True)"
  unfolding applyPushBaseAdvanced_def Let_def
  by (intro wi_seq wi_for [where A = "\<lambda>_. True"] wi_ignoring wi_supersede) (auto intro: live_by_base)

lemma wi_uninstall_cancel: "cID p \<in> S \<Longrightarrow> stays N S Q (cancelForUninstall (apEng (wvApi de)) tenant p) (\<lambda>_. True)"
  unfolding cancelForUninstall_def Let_def CancelCandidateTx_def
  by (intro wi_seq wi_cancel_events wi_ignoring wi_close) simp_all

lemma wi_revoke: "stays N S Q (revokeLease (apEng (wvApi de)) tenant repos lr) (\<lambda>_. True)"
  unfolding revokeLease_def
  by (intro wi_seq wi_leases wi_audit wi_any [OF wi_map [where A = "\<lambda>_ _. True"]] wi_uninstall_cancel) (auto intro: live_for_intent)

lemma wi_suspend: "stays N S Q (SuspendReposTx repos) (\<lambda>_. True)"
  unfolding SuspendReposTx_def
  by (intro wi_for [where A = "\<lambda>_. True"] wi_modify) (simp add: a_suspended refl_Q live_in_def)

lemma wi_uninstall: "stays N S Q (applyInstallationDeleted (wvApi de) tenant view pool) (\<lambda>_. True)"
  unfolding applyInstallationDeleted_def Let_def by (intro wi_seq wi_events wi_revoke wi_project wi_suspend) simp_all

lemma wi_effects:
  assumes "live_in S pool"
  shows "stays N S Q (applyDeliveryEffects de body view pool) (\<lambda>_. True)"
  using wi_opened wi_synchronize wi_closed wi_base_advanced [OF assms] wi_uninstall
  by (cases "dvwKind view") (simp_all add: wi_return applyDeliveryEffects_def Let_def)

lemma wi_delivery:
  assumes "live_in S pool"
  shows "stays N S Q (deliveryTx de extID hash body view ev pool) (\<lambda>_. True)"
  unfolding deliveryTx_def recordDelivery_def by (intro wi_withTx wi_seq wi_mark wi_record wi_effects assms) simp_all

lemma wi_accept: "live_in S pool \<Longrightarrow>
    stays N S Q (bindT (buildDeliveryAcceptedEvent (apEng (wvApi de)) t body l) (\<lambda>ev. deliveryTx de extID hash body view ev pool)) (\<lambda>_. True)"
  unfolding buildDeliveryAcceptedEvent_def by (intro wi_seq wi_delivery)

lemma or_unavailable_snd [simp]: "snd (or_unavailable m w) = snd (m w)"
  by (simp add: or_unavailable_def split: prod.split sum.split)

lemma respond_snd [simp]: "snd (respond m w) = snd (m w)"
  by (simp add: respond_def split: prod.split sum.split)

lemma stays_Q: "stays N S Q m A \<Longrightarrow> N \<le> wNonce w \<Longrightarrow> live_in S (wDB w) \<Longrightarrow> Q (wDB w) (wDB (snd (m w)))"
  by (simp add: stays_def)

lemma fr_delivery:
  assumes "N \<le> wNonce w" and "live_in S (wDB w)"
  shows "Q (wDB w) (wDB (snd (handleDelivery de sig extID raw w)))"
proof -
  have "Q (wDB w) (wDB (snd (applyQuarantineMarker de hash body w)))" for hash body
    unfolding applyQuarantineMarker_def recordDelivery_def
    by (rule stays_Q [OF _ assms]) (intro wi_withTx wi_seq wi_mark wi_audit wi_record; simp)
  moreover have "Q (wDB w) (wDB (snd (applyDuplicateSuspect de hash body w)))" for hash body
    unfolding applyDuplicateSuspect_def recordDelivery_def
    by (rule stays_Q [OF _ assms]) (intro wi_withTx wi_seq wi_mark wi_audit wi_record; simp)
  moreover have "Q (wDB w) (wDB (snd (bindT (buildDeliveryAcceptedEvent (apEng (wvApi de)) t body l) (\<lambda>ev. deliveryTx de extID hash body view ev (wDB w)) w)))"
    for t body l hash view
    by (rule stays_Q [OF wi_accept assms]) (rule assms(2))
  ultimately show ?thesis by (simp add: handleDelivery_def refl_Q Let_def split: option.split sum.split)
qed

lemma fr_webhook:
  assumes "N \<le> wNonce w" and "live_in S (wDB w)"
  shows "Q (wDB w) (wDB (snd (handleGitHubWebhook de sig delivery event raw w)))"
proof -
  have "Q (wDB w) (wDB (snd (bindT (buildDeliveryAcceptedEvent (apEng (wvApi de)) t body l) (\<lambda>ev. thenT (withTx (appendT (apEng (wvApi de)) [ev])) (returnT r)) w)))"
    for t body l and r :: ApiResp
    unfolding buildDeliveryAcceptedEvent_def
    by (rule stays_Q [OF _ assms]) (intro wi_seq wi_withTx; simp)
  then show ?thesis by (simp add: handleGitHubWebhook_def refl_Q)
qed

subsection \<open>Commands\<close>

lemma fr_idempotent:
  "Q (wDB w) (wDB (snd (fresh w))) \<Longrightarrow> Q (wDB w) (wDB (snd (idempotent ae tenant endpoint key raw fresh w)))"
  by (simp add: idempotent_def refl_Q split: sum.split option.split prod.split)

lemma wi_submit_as: "candID \<in> S \<Longrightarrow> stays N S Q (submit_as (wvApi de) tenant endpoint key raw intent inp candID) (\<lambda>_. True)"
  unfolding submit_as_def Let_def case_prod_beta
  by (intro wi_bind [OF wi_new_candidate] wi_bind [OF wi_plan] wi_bind [OF wi_plan_runs] wi_get wi_bind [where A = "\<lambda>_. True"] wi_then wi_if wi_return
      wi_any [OF wi_fresh] wi_withTx wi_record wi_submit) (simp_all add: clustered_candidate_def)

lemma wi_replan: "stays N S Q (AppendReplanTx (apEng (wvApi de)) plan runs) (\<lambda>_. True)"
  unfolding AppendReplanTx_def BuildValidationPlannedEvents_def insertPlanTx_def insertRunTx_def Let_def case_prod_beta
  by (intro wi_seq wi_events wi_for [where A = "\<lambda>_. True"] wi_cancel_row wi_runs wi_modify) (simp_all add: a_plans live_in_def)

lemma wi_bump: "stays N S Q (bumpRerun ae tenant candidateID) (\<lambda>_. True)"
proof -
  have "stays N S Q (modifyDB (\<lambda>d. d\<lparr>dbCandidates := map (\<lambda>r. if P (rowVal r) then r\<lparr>rowVal := (rowVal r)\<lparr>RerunCount := RerunCount (rowVal r) + 1\<rparr>\<rparr> else r)
      (dbCandidates d)\<rparr>)) (\<lambda>_. True)" if "\<And>c. P c \<Longrightarrow> \<not> CandidateState_Terminal (cState c)" for P
    using that by (intro wi_modify conjI a_rerun) (auto simp: live_in_def candidate_live_def)
  note this [of "\<lambda>c. cID c = candidateID \<and> cTenantID c = tenant \<and> RerunCount c < apRerunMax ae \<and> \<not> CandidateState_Terminal (cState c)"]
  then show ?thesis unfolding bumpRerun_def Let_def by (intro wi_get wi_if wi_fail) simp_all
qed

lemma wi_revalidate: "stays N S Q (revalidateTx (wvApi de) tenant candidateID key raw pool) (\<lambda>_. True)"
  unfolding revalidateTx_def buildReplan_def Let_def case_prod_beta
  by (intro wi_option wi_seq wi_plan wi_plan_runs wi_replan wi_bump wi_record) simp_all

lemma fr_revalidate:
  assumes "N \<le> wNonce w" and "live_in S (wDB w)"
  shows "Q (wDB w) (wDB (snd (handleRevalidate (wvApi de) tenant candidateID key raw w)))"
proof -
  have "Q (wDB w) (wDB (snd (withTx (revalidateTx (wvApi de) tenant candidateID key raw (wDB w)) w)))"
    by (rule stays_Q [OF wi_withTx [OF wi_revalidate] assms])
  then show ?thesis unfolding handleRevalidate_def
    by (intro fr_idempotent) (auto simp: refl_Q case_prod_beta split: sum.split)
qed

lemma fr_renew:
  assumes "N \<le> wNonce w" and "live_in S (wDB w)"
  shows "Q (wDB w) (wDB (snd (handleRenewLease (wvApi de) tenant leaseID key raw w)))"
proof -
  have "stays N S Q (RenewLease (apEng (wvApi de)) tenant leaseID ttl) (\<lambda>_. True)" for ttl
    unfolding RenewLease_def emitT_def Let_def
    by (intro wi_withTx wi_seq wi_leases wi_option) simp_all
  then have "Q (wDB w) (wDB (snd (RenewLease (apEng (wvApi de)) tenant leaseID ttl w)))" for ttl
    by (rule stays_Q [OF _ assms])
  then show ?thesis unfolding handleRenewLease_def
    by (intro fr_idempotent) (auto simp: refl_Q Let_def case_prod_beta split: option.split sum.split)
qed

lemma fr_release:
  assumes "N \<le> wNonce w" and "live_in S (wDB w)"
  shows "Q (wDB w) (wDB (snd (handleReleaseLease (wvApi de) tenant leaseID w)))"
proof -
  have "stays N S Q (withTx (releaseLeaseTx (apEng (wvApi de)) l reason)) (\<lambda>_. True)" for l reason
    unfolding releaseLeaseTx_def emitT_def Let_def by (intro wi_withTx wi_seq wi_leases wi_audit) simp_all
  then have "Q (wDB w) (wDB (snd (withTx (releaseLeaseTx (apEng (wvApi de)) l reason) w)))" for l reason
    by (rule stays_Q [OF _ assms])
  then show ?thesis unfolding handleReleaseLease_def
    by (auto simp: refl_Q case_prod_beta split: option.split sum.split)
qed

end

text \<open>Relations that do not look at intents hold for the whole API, whatever ids are drawn.\<close>

locale intent_frame = api_frame Q de 0 UNIV for Q de +
  assumes a_any: "Q db (db\<lparr>dbIntents := is\<rparr>)"
begin

lemma live_in_UNIV: "live_in UNIV db"
  by (simp add: live_in_def)

lemma fr_any: "stays 0 UNIV Q m A \<Longrightarrow> Q (wDB w) (wDB (snd (m w)))"
  by (simp add: stays_def live_in_UNIV)

lemma wi_intents: "stays 0 UNIV Q (modifyDB (\<lambda>d. d\<lparr>dbIntents := f d\<rparr>)) (\<lambda>_. True)"
  by (rule wi_modify) (simp add: a_any live_in_UNIV)

lemma fr_submit: "Q (wDB w) (wDB (snd (handleSubmitCandidate (wvApi de) tenant intentID key raw w)))"
proof -
  have "stays 0 UNIV Q (submit_decoded (wvApi de) tenant endpoint key raw intent inp) (\<lambda>_. True)" for endpoint intent inp
    unfolding submit_decoded_def candidate_id_def claimInitialCandidateSlot_def Let_def
    by (intro wi_seq wi_intents wi_submit_as) simp_all
  from fr_any [OF this] show ?thesis unfolding handleSubmitCandidate_def
    by (intro fr_idempotent) (auto simp: refl_Q split: sum.split)
qed

lemma fr_create: "Q (wDB w) (wDB (snd (handleCreateIntent (wvApi de) tenant key raw w)))"
proof -
  have token: "stays 0 UNIV Q (TakeToken env' tenant bucket c r) (\<lambda>_. True)" for env' bucket c r
    unfolding TakeToken_def Let_def by (intro wi_withTx wi_seq wi_modify) (simp_all add: a_rates live_in_UNIV)
  have create: "stays 0 UNIV Q (CreateIntentTx (apEng (wvApi de)) intent lease conflicts) (\<lambda>_. True)" for intent lease conflicts
    unfolding CreateIntentTx_def Let_def by (intro wi_seq wi_leases wi_intents) simp_all
  have "stays 0 UNIV Q (create_decoded (wvApi de) tenant key raw inp) (\<lambda>_. True)" for inp
    unfolding create_decoded_def Let_def by (intro wi_seq wi_option wi_lift wi_withTx wi_record create) simp_all
  then show ?thesis unfolding handleCreateIntent_def
    by (intro fr_idempotent) (auto simp: case_prod_beta intro!: fr_any wi_seq token wi_option)
qed

lemmas fr_api = fr_submit fr_create fr_revalidate [OF le0 live_in_UNIV] fr_renew [OF le0 live_in_UNIV] fr_release [OF le0 live_in_UNIV]
  fr_delivery [OF le0 live_in_UNIV] fr_webhook [OF le0 live_in_UNIV]

end

end
