(* ===== verification/Plane.thy ===== *)
theory Plane
  imports Handlers
begin

text \<open>
  The control plane as a whole: the writing routes of the API (internal/api/server.go), the scheduler's ticks and the
  reconciler over one database, as one step relation. Every relation below is shown once for the engine
  (\<open>full_frame\<close>) and once for the API (\<open>api_frame\<close>), and so holds however the steps interleave.
\<close>

subsection \<open>Routes and steps\<close>

datatype Request =
    ReqCreateIntent string string string
  | ReqSubmitCandidate string string string string
  | ReqRevalidate string string string string
  | ReqRenewLease string string string string
  | ReqReleaseLease string string
  | ReqDelivery string string string
  | ReqWebhook string string string string

text \<open>The authenticated tenant is an argument of the request.\<close>

fun serve :: "DeliveryEnv \<Rightarrow> Request \<Rightarrow> World \<Rightarrow> ApiResp \<times> World" where
  "serve de (ReqCreateIntent tenant key raw) = handleCreateIntent (wvApi de) tenant key raw"
| "serve de (ReqSubmitCandidate tenant intentID key raw) = handleSubmitCandidate (wvApi de) tenant intentID key raw"
| "serve de (ReqRevalidate tenant candidateID key raw) = handleRevalidate (wvApi de) tenant candidateID key raw"
| "serve de (ReqRenewLease tenant leaseID key raw) = handleRenewLease (wvApi de) tenant leaseID key raw"
| "serve de (ReqReleaseLease tenant leaseID) = handleReleaseLease (wvApi de) tenant leaseID"
| "serve de (ReqDelivery sig extID raw) = handleDelivery de sig extID raw"
| "serve de (ReqWebhook sig delivery event raw) = handleGitHubWebhook de sig delivery event raw"

definition cand_ids :: "DB \<Rightarrow> string list" where
  "cand_ids db = map (\<lambda>r. cID (rowVal r)) (dbCandidates db)"

definition slots :: "DB \<Rightarrow> string list" where
  "slots db = slots_of (dbIntents db)"

text \<open>What ULIDs promise: an id drawn from now on is not the id of a candidate, nor one reserved for an intent's first
  candidate.\<close>

definition fresh_ids :: "EngineEnv \<Rightarrow> World \<Rightarrow> bool" where
  "fresh_ids env w \<longleftrightarrow> (\<forall>n \<ge> wNonce w. envNewID env ''cand_'' n \<notin> set (cand_ids (wDB w)) \<union> set (slots (wDB w)))"

inductive plane_step :: "Crypto \<Rightarrow> bool \<Rightarrow> World \<Rightarrow> World \<Rightarrow> bool" for cr sg w where
  tick: "envCrypto env = cr \<Longrightarrow> envHasSigner env = sg \<Longrightarrow> plane_step cr sg w (snd (Tick env jobs w))"
| reconcile: "envCrypto env = cr \<Longrightarrow> envHasSigner env = sg \<Longrightarrow> plane_step cr sg w (snd (ReconcileOnce env age w))"
| request: "envCrypto (apEng (wvApi de)) = cr \<Longrightarrow> envHasSigner (apEng (wvApi de)) = sg \<Longrightarrow> fresh_ids (apEng (wvApi de)) w \<Longrightarrow>
    plane_step cr sg w (snd (serve de req w))"

abbreviation plane_reach :: "Crypto \<Rightarrow> bool \<Rightarrow> World \<Rightarrow> World \<Rightarrow> bool" where
  "plane_reach cr sg \<equiv> (plane_step cr sg)\<^sup>*\<^sup>*"

context intent_frame
begin

lemma fr_serve: "Q (wDB w) (wDB (snd (serve de req w)))"
  by (cases req) (simp_all add: fr_api)

end

lemma plane_keeps:
  assumes refl: "\<And>db. Q db db" and trans: "\<And>a b c. Q a b \<Longrightarrow> Q b c \<Longrightarrow> Q a c"
    and engine: "\<And>env jobs age. envCrypto env = cr \<Longrightarrow> envHasSigner env = sg \<Longrightarrow> keeps Q (Tick env jobs) \<and> keeps Q (ReconcileOnce env age)"
    and api: "\<And>de req w. envCrypto (apEng (wvApi de)) = cr \<Longrightarrow> envHasSigner (apEng (wvApi de)) = sg \<Longrightarrow> Q (wDB w) (wDB (snd (serve de req w)))"
    and "plane_reach cr sg w w'"
  shows "Q (wDB w) (wDB w')"
  using assms(5)
proof (induction rule: rtranclp_induct)
  case base
  show ?case by (rule refl)
next
  case (step y z)
  from step.hyps(2) have "Q (wDB y) (wDB z)"
    by (cases rule: plane_step.cases) (use engine api in \<open>auto simp: keeps_def\<close>)
  with step.IH show ?case by (rule trans)
qed

subsection \<open>Recorded commands, processed deliveries and the ledger\<close>

definition commands_grow :: "DB \<Rightarrow> DB \<Rightarrow> bool" where
  "commands_grow db db' \<longleftrightarrow> (\<exists>ext. dbCommands db' = dbCommands db @ ext)"

lemma commands_grow_refl: "commands_grow db db"
  by (simp add: commands_grow_def)

lemma commands_grow_trans: "commands_grow a b \<Longrightarrow> commands_grow b c \<Longrightarrow> commands_grow a c"
  by (auto simp: commands_grow_def)

interpretation cmds_engine: full_frame commands_grow env for env
proof
  show "commands_grow a b \<Longrightarrow> commands_grow b c \<Longrightarrow> commands_grow a c" for a b c by (rule commands_grow_trans)
qed (simp_all add: commands_grow_def)

interpretation cmds_api: intent_frame commands_grow de for de
  by unfold_locales (simp_all add: commands_grow_def)

interpretation processed_api: intent_frame processed_grows de for de
  by unfold_locales (auto simp: processed_grows_def)

interpretation ledger_api: intent_frame "ledger_grows (envCrypto (apEng (wvApi de))) (envHasSigner (apEng (wvApi de)))" de for de
proof unfold_locales
  show "AppendEventsTx (envCrypto (apEng (wvApi de))) (envHasSigner (apEng (wvApi de))) evs (dbLedger db) = Inr (stamped, l) \<Longrightarrow>
      ledger_grows (envCrypto (apEng (wvApi de))) (envHasSigner (apEng (wvApi de))) db (db\<lparr>dbLedger := l\<rparr>)" for evs db stamped l
    by (rule ledger_grows_append)
qed (simp_all add: ledger_grows_def)

lemma plane_commands: "plane_reach cr sg w w' \<Longrightarrow> commands_grow (wDB w) (wDB w')"
  by (erule plane_keeps [where Q = commands_grow, rotated 4])
     (simp_all add: commands_grow_refl cmds_engine.r_tick cmds_engine.r_reconcile cmds_api.fr_serve, rule commands_grow_trans)

lemma plane_processed: "plane_reach cr sg w w' \<Longrightarrow> processed_grows (wDB w) (wDB w')"
  by (erule plane_keeps [where Q = processed_grows, rotated 4])
     (simp_all add: processed_grows_refl processed.r_tick processed.r_reconcile processed_api.fr_serve, rule processed_grows_trans)

lemma plane_ledger: "plane_reach cr sg w w' \<Longrightarrow> ledger_grows cr sg (wDB w) (wDB w')"
proof (erule plane_keeps [where Q = "ledger_grows cr sg", rotated 4])
  show "envCrypto env = cr \<Longrightarrow> envHasSigner env = sg \<Longrightarrow> keeps (ledger_grows cr sg) (Tick env jobs) \<and> keeps (ledger_grows cr sg) (ReconcileOnce env age)"
    for env jobs age using ledger.r_tick [of env jobs] ledger.r_reconcile [of env age] by simp
  show "envCrypto (apEng (wvApi de)) = cr \<Longrightarrow> envHasSigner (apEng (wvApi de)) = sg \<Longrightarrow> ledger_grows cr sg (wDB w) (wDB (snd (serve de req w)))"
    for de req w using ledger_api.fr_serve [of de w req] by simp
qed (simp add: ledger_grows_refl, rule ledger_grows_trans)

subsection \<open>Candidates\<close>

lemma distinct_map_filter_mono:
  assumes "distinct (map k (filter P xs))" and "\<And>x. x \<in> set xs \<Longrightarrow> k (g x) = k x \<and> (P (g x) \<longrightarrow> P x)"
  shows "distinct (map k (filter P (map g xs)))"
  using assms(1) assms(2)
proof (induction xs)
  case (Cons a xs)
  then have "distinct (map k (filter P (map g xs)))" by (auto split: if_splits)
  moreover have "k (g a) \<noteq> k y" if "P (g a)" and y: "y \<in> g ` set xs" "P y" for y
  proof -
    from y obtain x where "x \<in> set xs" "y = g x" by blast
    with y(2) that(1) Cons.prems show ?thesis by force
  qed
  ultimately show ?case by force
qed simp

definition head_key :: "Candidate \<Rightarrow> string \<times> string \<times> string" where
  "head_key c = (cIntentID c, cHeadSHA c, cBaseSHA c)"

lemma heads_unique_map:
  assumes "heads_unique rows" and "\<And>r. head_key (rowVal (g r)) = head_key (rowVal r) \<and> (live_head (rowVal (g r)) \<longrightarrow> live_head (rowVal r))"
  shows "heads_unique (map g rows)"
proof -
  have eq: "heads_unique rs \<longleftrightarrow> distinct (map (\<lambda>r. head_key (rowVal r)) (filter (\<lambda>r. live_head (rowVal r)) rs))" for rs
    by (simp add: heads_unique_def select_def comp_def filter_map head_key_def)
  from assms show ?thesis unfolding eq by (rule distinct_map_filter_mono)
qed

definition decided_kept :: "DB \<Rightarrow> DB \<Rightarrow> bool" where
  "decided_kept db db' \<longleftrightarrow> set (cand_ids db) \<subseteq> set (cand_ids db') \<and>
     (\<forall>r \<in> set (dbCandidates db). CandidateState_Terminal (cState (rowVal r)) \<longrightarrow> r \<in> set (dbCandidates db'))"

definition plane_inv :: "DB \<Rightarrow> bool" where
  "plane_inv db \<longleftrightarrow> distinct (cand_ids db) \<and> heads_unique (dbCandidates db) \<and> distinct (slots db) \<and> set (slots db) \<inter> set (cand_ids db) = {}"

text \<open>For the engine.\<close>

definition engine_within :: "DB \<Rightarrow> DB \<Rightarrow> bool" where
  "engine_within db db' \<longleftrightarrow> dbIntents db' = dbIntents db \<and> (heads_unique (dbCandidates db) \<longrightarrow> heads_unique (dbCandidates db'))"

lemma heads_unique_update:
  assumes "\<forall>s \<in> set froms. \<not> CandidateState_Terminal s" and "heads_unique rows"
  shows "heads_unique (update_rows (\<lambda>c. cID c = ci \<and> cTenantID c = ti \<and> cState c \<in> set froms) (\<lambda>c. c\<lparr>cState := st\<rparr>) seq rows)"
  unfolding update_rows_def
  by (rule heads_unique_map [OF assms(2)]) (use assms(1) in \<open>auto simp: head_key_def live_head_def CandidateState_Terminal_def\<close>)

interpretation engine_heads: full_frame engine_within env for env
proof
  show "engine_within a b \<Longrightarrow> engine_within b c \<Longrightarrow> engine_within a c" for a b c by (simp add: engine_within_def)
  show "\<forall>s \<in> set froms. \<not> CandidateState_Terminal s \<Longrightarrow> engine_within db (db\<lparr>dbCandidates :=
      update_rows (\<lambda>c. cID c = ci \<and> cTenantID c = ti \<and> cState c \<in> set froms) (\<lambda>c. c\<lparr>cState := st\<rparr>) seq (dbCandidates db)\<rparr>)"
    for froms db ci ti st seq by (simp add: engine_within_def heads_unique_update)
qed (simp_all add: engine_within_def)

lemma engine_step_inv:
  assumes "terminal_kept a b" and "engine_within a b" and "plane_inv a"
  shows "plane_inv b \<and> decided_kept a b"
proof -
  have "cand_ids b = cand_ids a"
    using assms(1) by (auto simp: terminal_kept_def cand_ids_def list_all2_conv_all_nth intro: nth_equalityI)
  moreover have "slots b = slots a" using assms(2) by (simp add: slots_def engine_within_def)
  moreover have "r \<in> set (dbCandidates b)" if "r \<in> set (dbCandidates a)" "CandidateState_Terminal (cState (rowVal r))" for r
    using assms(1) that unfolding terminal_kept_def list_all2_conv_all_nth by (metis in_set_conv_nth)
  ultimately show ?thesis using assms(2,3) by (auto simp: plane_inv_def decided_kept_def engine_within_def)
qed

text \<open>For the API: only candidates with ids in \<open>S\<close> change or appear.\<close>

definition confined :: "string set \<Rightarrow> DB \<Rightarrow> DB \<Rightarrow> bool" where
  "confined S db db' \<longleftrightarrow> slots db' = slots db \<and> set (cand_ids db) \<subseteq> set (cand_ids db') \<and> set (cand_ids db') \<subseteq> set (cand_ids db) \<union> S \<and>
     (distinct (cand_ids db) \<longrightarrow> distinct (cand_ids db')) \<and> (heads_unique (dbCandidates db) \<longrightarrow> heads_unique (dbCandidates db')) \<and>
     filter (\<lambda>r. cID (rowVal r) \<notin> S) (dbCandidates db') = filter (\<lambda>r. cID (rowVal r) \<notin> S) (dbCandidates db)"

definition touchable :: "DeliveryEnv \<Rightarrow> nat \<Rightarrow> string set \<Rightarrow> string set" where
  "touchable de N T = envNewID (apEng (wvApi de)) ''cand_'' ` {N..} \<union> T"

lemma confined_map:
  assumes "\<And>r. r \<in> set (dbCandidates db) \<Longrightarrow> cID (rowVal (g r)) = cID (rowVal r) \<and> (cID (rowVal r) \<notin> S \<longrightarrow> g r = r)"
    and "heads_unique (dbCandidates db) \<longrightarrow> heads_unique (map g (dbCandidates db))"
  shows "confined S db (db\<lparr>dbCandidates := map g (dbCandidates db)\<rparr>)"
proof -
  have ids: "map (\<lambda>r. cID (rowVal (g r))) (dbCandidates db) = map (\<lambda>r. cID (rowVal r)) (dbCandidates db)"
    using assms(1) by simp
  then have "cand_ids (db\<lparr>dbCandidates := map g (dbCandidates db)\<rparr>) = cand_ids db" by (simp add: cand_ids_def comp_def)
  moreover have "filter (\<lambda>r. cID (rowVal r) \<notin> S) (map g rs) = filter (\<lambda>r. cID (rowVal r) \<notin> S) rs" if "set rs \<subseteq> set (dbCandidates db)" for rs
    using that assms(1) by (induction rs) auto
  ultimately show ?thesis using assms(2) by (simp add: confined_def slots_def)
qed

lemma confined_insert:
  assumes "cID cand \<in> S" and "heads_unique (upsert_candidate seq cand (dbCandidates db))"
  shows "confined S db (db\<lparr>dbCandidates := upsert_candidate seq cand (dbCandidates db)\<rparr>)"
proof (cases "list_ex (\<lambda>r. cID (rowVal r) = cID cand) (dbCandidates db)")
  case True
  then show ?thesis using assms unfolding upsert_candidate_def upsert_def by (simp, intro confined_map) auto
next
  case False
  then show ?thesis using assms
    by (auto simp: upsert_candidate_def upsert_def confined_def cand_ids_def slots_def list_ex_iff)
qed

interpretation confined_api: api_frame "confined (touchable de N T)" de N "touchable de N T" for de N T
proof
  let ?S = "touchable de N T"
  show "confined ?S a b \<Longrightarrow> confined ?S b c \<Longrightarrow> confined ?S a c" for a b c
    by (auto simp: confined_def)
  show "N \<le> n \<Longrightarrow> envNewID (apEng (wvApi de)) ''cand_'' n \<in> ?S" for n by (simp add: touchable_def)
  show "cID cand \<in> ?S \<Longrightarrow> heads_unique (upsert_candidate seq cand (dbCandidates db)) \<Longrightarrow>
      confined ?S db (db\<lparr>dbCandidates := upsert_candidate seq cand (dbCandidates db)\<rparr>)" for cand seq db
    by (rule confined_insert)
  show "ci \<in> ?S \<Longrightarrow> st \<in> {CandSuperseded, CandCancelled} \<Longrightarrow> confined ?S db (db\<lparr>dbCandidates := update_rows (\<lambda>c. cID c = ci \<and> cTenantID c = ti \<and>
      cState c \<notin> {CandSuperseded, CandCancelled}) (\<lambda>c. c\<lparr>cState := st\<rparr>) seq (dbCandidates db)\<rparr>)" for ci st db ti seq
    unfolding update_rows_def
    by (rule confined_map) (auto simp: live_head_def head_key_def intro!: heads_unique_map)
  show "live_in ?S db \<Longrightarrow> (\<And>c. P c \<Longrightarrow> \<not> CandidateState_Terminal (cState c)) \<Longrightarrow> confined ?S db (db\<lparr>dbCandidates := map (\<lambda>r. if P (rowVal r) then
      r\<lparr>rowVal := (rowVal r)\<lparr>RerunCount := RerunCount (rowVal r) + 1\<rparr>\<rparr> else r) (dbCandidates db)\<rparr>)" for db P
    by (rule confined_map) (auto simp: live_in_def candidate_live_def CandidateState_Terminal_def live_head_def head_key_def intro!: heads_unique_map split: if_splits)
qed (simp_all add: confined_def cand_ids_def slots_def)

lemma confined_step_inv:
  assumes inv: "plane_inv a" and c: "confined (F \<union> T) a b" and F: "F \<inter> (set (cand_ids a) \<union> set (slots a)) = {}" and T: "T \<inter> set (slots a) = {}"
    and live: "\<And>r. r \<in> set (dbCandidates a) \<Longrightarrow> CandidateState_Terminal (cState (rowVal r)) \<Longrightarrow> cID (rowVal r) \<notin> T"
  shows "plane_inv b \<and> decided_kept a b"
proof -
  have "r \<in> set (dbCandidates b)" if r: "r \<in> set (dbCandidates a)" "CandidateState_Terminal (cState (rowVal r))" for r
  proof -
    have "cID (rowVal r) \<notin> F \<union> T" using live [OF r] F r(1) by (auto simp: cand_ids_def)
    with r(1) have "r \<in> set (filter (\<lambda>r. cID (rowVal r) \<notin> F \<union> T) (dbCandidates a))" by simp
    with c have "r \<in> set (filter (\<lambda>r. cID (rowVal r) \<notin> F \<union> T) (dbCandidates b))" by (simp add: confined_def)
    then show ?thesis by simp
  qed
  moreover have "set (slots b) \<inter> set (cand_ids b) = {}"
    using c inv F T by (fastforce simp: confined_def plane_inv_def)
  ultimately show ?thesis using c inv by (auto simp: plane_inv_def decided_kept_def confined_def)
qed

definition live_ids :: "DB \<Rightarrow> string set" where
  "live_ids db = (\<lambda>r. cID (rowVal r)) ` {r \<in> set (dbCandidates db). candidate_live (rowVal r)}"

lemma live_ids_decided:
  assumes "distinct (cand_ids db)" and "r \<in> set (dbCandidates db)" and "CandidateState_Terminal (cState (rowVal r))"
  shows "cID (rowVal r) \<notin> live_ids db"
  using assms unfolding live_ids_def cand_ids_def distinct_map
  by (auto simp: candidate_live_def CandidateState_Terminal_def dest!: inj_onD)

lemma live_ids_in: "live_in (touchable de N (live_ids db \<union> T)) db"
  by (auto simp: live_in_def touchable_def live_ids_def)

lemma fresh_touchable: "fresh_ids (apEng (wvApi de)) w \<Longrightarrow>
    (envNewID (apEng (wvApi de)) ''cand_'' ` {wNonce w..}) \<inter> (set (cand_ids (wDB w)) \<union> set (slots (wDB w))) = {}"
  by (auto simp: fresh_ids_def)

lemma live_ids_sub: "live_ids db \<subseteq> set (cand_ids db)"
  by (auto simp: live_ids_def cand_ids_def)

lemma confined_handler_inv:
  assumes inv: "plane_inv (wDB w)" and fresh: "fresh_ids (apEng (wvApi de)) w"
    and c: "confined (touchable de (wNonce w) (live_ids (wDB w))) (wDB w) db'"
  shows "plane_inv db' \<and> decided_kept (wDB w) db'"
proof (rule confined_step_inv [OF inv c [unfolded touchable_def] fresh_touchable [OF fresh]])
  show "live_ids (wDB w) \<inter> set (slots (wDB w)) = {}" using inv live_ids_sub by (auto simp: plane_inv_def)
  show "r \<in> set (dbCandidates (wDB w)) \<Longrightarrow> CandidateState_Terminal (cState (rowVal r)) \<Longrightarrow> cID (rowVal r) \<notin> live_ids (wDB w)" for r
    using inv by (simp add: live_ids_decided plane_inv_def)
qed

subsection \<open>Reserved candidate ids\<close>

lemma slots_cleared:
  "slots_of (map (\<lambda>r. if P (rowVal r) then r\<lparr>rowVal := (rowVal r)\<lparr>InitialCandidateID := []\<rparr>\<rparr> else r) rows) = slots_of (filter (\<lambda>r. \<not> P (rowVal r)) rows)"
  by (induction rows) (auto simp: slots_of_def)

lemma slots_of_filter: "set (slots_of (filter P rows)) \<subseteq> set (slots_of rows) \<and> (distinct (slots_of rows) \<longrightarrow> distinct (slots_of (filter P rows)))"
  by (induction rows) (auto simp: slots_of_def)

lemma slot_gone:
  assumes "distinct (slots_of rows)" and "r \<in> set rows" and "P (rowVal r)" and "InitialCandidateID (rowVal r) = slot" and "slot \<noteq> []"
  shows "slot \<in> set (slots_of rows) \<and> slot \<notin> set (slots_of (filter (\<lambda>r. \<not> P (rowVal r)) rows))"
  using assms by (induction rows) (auto simp: slots_of_def)

lemma candidate_id_run:
  assumes "distinct (slots (wDB w))" and "candidate_id ae tenant intent w = (r, w1)"
  obtains candID where "r = Inr candID" and "wNonce w1 = Suc (wNonce w)" and "dbCandidates (wDB w1) = dbCandidates (wDB w)"
    and "set (slots (wDB w1)) \<subseteq> set (slots (wDB w))" and "distinct (slots (wDB w1))"
    and "candID = envNewID (apEng ae) ''cand_'' (wNonce w) \<or> candID \<in> set (slots (wDB w)) - set (slots (wDB w1))"
proof (cases "InitialCandidateID intent = []")
  case True
  then show ?thesis using assms that
    by (auto simp: candidate_id_def tx_defs freshID_def)
next
  case False
  define P where "P = (\<lambda>i :: Intent. iID i = iID intent \<and> iTenantID i = tenant \<and> InitialCandidateID i = InitialCandidateID intent)"
  let ?rows = "dbIntents (wDB w)"
  have w1: "r = Inr (if length (select P ?rows) = 1 then InitialCandidateID intent else envNewID (apEng ae) ''cand_'' (wNonce w))"
      "w1 = w\<lparr>wNonce := Suc (wNonce w), wDB := (wDB w)\<lparr>dbIntents := map (\<lambda>r. if P (rowVal r) then r\<lparr>rowVal := (rowVal r)\<lparr>InitialCandidateID := []\<rparr>\<rparr> else r) ?rows\<rparr>\<rparr>"
    using assms(2) False by (auto simp: candidate_id_def claimInitialCandidateSlot_def tx_defs freshID_def P_def Let_def)
  have s: "slots (wDB w1) = slots_of (filter (\<lambda>r. \<not> P (rowVal r)) ?rows)" by (simp add: w1(2) slots_def slots_cleared)
  have "InitialCandidateID intent \<in> set (slots (wDB w)) - set (slots (wDB w1))" if "length (select P ?rows) = 1"
  proof -
    from that have "select P ?rows \<noteq> []" by auto
    then obtain r where r: "r \<in> set ?rows" "P (rowVal r)" by (auto simp: select_def filter_empty_conv)
    then have "InitialCandidateID (rowVal r) = InitialCandidateID intent" by (simp add: P_def)
    from slot_gone [where P = P, OF assms(1) [unfolded slots_def] r this False] show ?thesis unfolding s by (simp add: slots_def)
  qed
  with that w1 s slots_of_filter [of "\<lambda>r. \<not> P (rowVal r)" ?rows] assms(1) show ?thesis
    by (cases "length (select P ?rows) = 1") (auto simp: slots_def)
qed

lemma snd_bindT: "snd (bindT m f w) = (case m w of (Inl e, w') \<Rightarrow> w' | (Inr x, w') \<Rightarrow> snd (f x w'))"
  by (simp add: bindT_def split: prod.split sum.split)

lemma submit_inv:
  fixes de :: DeliveryEnv
  assumes inv: "plane_inv (wDB w)" and fresh: "fresh_ids (apEng (wvApi de)) w"
  shows "plane_inv (wDB (snd (submit_decoded (wvApi de) tenant endpoint key raw intent inp w))) \<and>
    decided_kept (wDB w) (wDB (snd (submit_decoded (wvApi de) tenant endpoint key raw intent inp w)))"
proof -
  obtain r w1 where m: "candidate_id (wvApi de) tenant intent w = (r, w1)" by fastforce
  have "distinct (slots (wDB w))" using inv by (simp add: plane_inv_def)
  from candidate_id_run [OF this m] obtain candID where r: "r = Inr candID" and n: "wNonce w1 = Suc (wNonce w)"
    and same: "dbCandidates (wDB w1) = dbCandidates (wDB w)" and sl: "set (slots (wDB w1)) \<subseteq> set (slots (wDB w))" "distinct (slots (wDB w1))"
    and cd: "candID = envNewID (apEng (wvApi de)) ''cand_'' (wNonce w) \<or> candID \<in> set (slots (wDB w)) - set (slots (wDB w1))" by metis
  define T where "T = live_ids (wDB w1) \<union> (set (slots (wDB w)) - set (slots (wDB w1)))"
  let ?w2 = "snd (submit_as (wvApi de) tenant endpoint key raw intent inp candID w1)"
  have ids: "cand_ids (wDB w1) = cand_ids (wDB w)" by (simp add: cand_ids_def same)
  have inv1: "plane_inv (wDB w1)" using inv sl by (auto simp: plane_inv_def ids same)
  have "candID \<in> touchable de (wNonce w) T" using cd by (auto simp: touchable_def T_def)
  from confined_api.stays_Q [OF confined_api.wi_submit_as [OF this], of w1] live_ids_in [of de "wNonce w" "wDB w1"] n
  have c: "confined (touchable de (wNonce w) T) (wDB w1) (wDB ?w2)" by (simp add: T_def)
  have "plane_inv (wDB ?w2) \<and> decided_kept (wDB w1) (wDB ?w2)"
  proof (rule confined_step_inv [OF inv1 c [unfolded touchable_def]])
    show "envNewID (apEng (wvApi de)) ''cand_'' ` {wNonce w..} \<inter> (set (cand_ids (wDB w1)) \<union> set (slots (wDB w1))) = {}"
      using fresh_touchable [OF fresh] sl by (auto simp: ids)
    show "T \<inter> set (slots (wDB w1)) = {}" using inv1 live_ids_sub by (auto simp: T_def plane_inv_def)
    show "row \<in> set (dbCandidates (wDB w1)) \<Longrightarrow> CandidateState_Terminal (cState (rowVal row)) \<Longrightarrow> cID (rowVal row) \<notin> T" for row
      using live_ids_decided [of "wDB w1" row] inv inv1 by (auto simp: T_def plane_inv_def cand_ids_def same)
  qed
  then show ?thesis by (simp add: submit_decoded_def snd_bindT m r decided_kept_def cand_ids_def same)
qed

lemma slots_upsert:
  "slots_of (upsert iID (\<lambda>new old. old\<lparr>iState := iState new\<rparr>) seq intent rows) \<in>
    {slots_of rows, slots_of rows @ filter (\<lambda>s. s \<noteq> []) [InitialCandidateID intent]}"
  by (auto simp: upsert_def slots_of_def comp_def intro!: arg_cong [where f = "filter _"])

definition adds_slot :: "string \<Rightarrow> DB \<Rightarrow> DB \<Rightarrow> bool" where
  "adds_slot x db db' \<longleftrightarrow> dbCandidates db' = dbCandidates db \<and> slots db' \<in> {slots db, slots db @ filter (\<lambda>s. s \<noteq> []) [x]}"

definition work_same :: "DB \<Rightarrow> DB \<Rightarrow> bool" where
  "work_same db db' \<longleftrightarrow> dbCandidates db' = dbCandidates db \<and> dbIntents db' = dbIntents db"

interpretation work: db_order work_same
  by unfold_locales (simp_all add: work_same_def)

lemma work_append: "keeps work_same (appendT env evs)"
  by (auto simp: keeps_def appendT_def work_same_def split: sum.split)

lemma work_event: "keeps work_same (eventT env actor tenantID agg ty causation corr payload)"
  unfolding eventT_def by (intro work.r_rules)

lemma adds_slot_before:
  assumes "keeps work_same m" and "\<And>y w. adds_slot x (wDB w) (wDB (snd (f y w)))"
  shows "adds_slot x (wDB w) (wDB (snd (bindT m f w)))"
proof -
  obtain r w1 where m: "m w = (r, w1)" by fastforce
  with assms(1) have "work_same (wDB w) (wDB w1)" by (rule keepsD)
  then show ?thesis using assms(2) [of w1] by (cases r) (simp_all add: snd_bindT m adds_slot_def work_same_def slots_def)
qed

lemma adds_slot_after:
  assumes "\<And>w. adds_slot x (wDB w) (wDB (snd (m w)))" and "keeps work_same n"
  shows "adds_slot x (wDB w) (wDB (snd (thenT m n w)))"
proof -
  obtain r w1 where m: "m w = (r, w1)" by fastforce
  have "work_same (wDB w1) (wDB (snd (n w1)))" using assms(2) by (simp add: keeps_def)
  then show ?thesis using assms(1) [of w] by (auto simp: thenT_def snd_bindT m adds_slot_def work_same_def slots_def split: sum.split)
qed

lemma CreateIntentTx_slot: "adds_slot (InitialCandidateID intent) (wDB w) (wDB (snd (CreateIntentTx env intent lease conflicts w)))"
proof -
  have "adds_slot (InitialCandidateID intent) (wDB w) (wDB (snd (modifyDB (\<lambda>d. d\<lparr>dbIntents :=
      upsert iID (\<lambda>new old. old\<lparr>iState := iState new\<rparr>) seq intent (dbIntents d)\<rparr>) w)))" for w seq
    using slots_upsert [of seq intent "dbIntents (wDB w)"] by (auto simp: modifyDB_def adds_slot_def slots_def)
  then show ?thesis unfolding CreateIntentTx_def Let_def
    by (intro adds_slot_before adds_slot_after work.r_rules work_event work_append work.r_modify) (simp_all add: work_same_def)
qed

lemma adds_slot_tx:
  assumes "\<And>w. adds_slot x (wDB w) (wDB (snd (m w)))"
  shows "adds_slot x (wDB w) (wDB (snd (withTx m w)))"
proof -
  obtain r w1 where m: "m w = (r, w1)" by fastforce
  with assms [of w] show ?thesis by (cases r) (simp_all add: withTx_def adds_slot_def)
qed

lemma create_tx_slot:
  assumes "wDB w = db" and "InitialCandidateID intent = x"
  shows "adds_slot x db (wDB (snd (thenT (withTx (thenT (CreateIntentTx env intent lease conflicts) (RecordCommandTx t e k h c b))) (returnT r) w)))"
proof -
  have "keeps work_same (RecordCommandTx t e k h c b)" unfolding RecordCommandTx_def by (rule work.r_modify) (simp add: work_same_def)
  then have "adds_slot x (wDB w) (wDB (snd (thenT (withTx (thenT (CreateIntentTx env intent lease conflicts) (RecordCommandTx t e k h c b))) (returnT r) w)))"
    by (intro adds_slot_after adds_slot_tx work.r_return) (simp_all add: CreateIntentTx_slot assms(2) [symmetric])
  then show ?thesis by (simp add: assms(1))
qed

lemma create_decoded_slot:
  "\<exists>n \<ge> wNonce w. adds_slot (envNewID (apEng ae) ''cand_'' n) (wDB w) (wDB (snd (create_decoded ae tenant key raw inp w)))"
proof -
  have none: "adds_slot x db db" for x db by (simp add: adds_slot_def)
  have "adds_slot (envNewID (apEng ae) ''cand_'' (Suc (Suc (wNonce w)))) (wDB w) (wDB (snd (create_decoded ae tenant key raw inp w)))"
    unfolding create_decoded_def Let_def
    by (simp add: snd_bindT liftT_def freshID_def getDB_def failT_def returnT_def [of "RespErr _ _"] none create_tx_slot split: sum.split option.split)
  then show ?thesis by (intro exI [of _ "Suc (Suc (wNonce w))"]) simp
qed

lemma create_slot:
  "\<exists>n \<ge> wNonce w. adds_slot (envNewID (apEng ae) ''cand_'' n) (wDB w) (wDB (snd (handleCreateIntent ae tenant key raw w)))"
proof -
  have none: "\<exists>n \<ge> wNonce w. adds_slot (envNewID (apEng ae) ''cand_'' n) (wDB w) (wDB w)" by (auto simp: adds_slot_def)
  have token: "\<exists>x rl. TakeToken env tenant bucket c r w = (Inr x, w\<lparr>wDB := (wDB w)\<lparr>dbRateLimits := rl\<rparr>\<rparr>)" for env bucket c r
    by (auto simp: TakeToken_def tx_defs withTx_def Let_def)
  obtain g rl where t: "TakeToken (apEng ae) tenant ''intents_per_minute'' (apRatePerMin ae) (apRatePerMin ae) w = (Inr g, w\<lparr>wDB := (wDB w)\<lparr>dbRateLimits := rl\<rparr>\<rparr>)"
    using token by blast
  have rates: "\<exists>n \<ge> wNonce w. adds_slot (envNewID (apEng ae) ''cand_'' n) (wDB w) (wDB (snd (create_decoded ae tenant key raw inp (w\<lparr>wDB := (wDB w)\<lparr>dbRateLimits := rl\<rparr>\<rparr>))))"
    for inp using create_decoded_slot [of "w\<lparr>wDB := (wDB w)\<lparr>dbRateLimits := rl\<rparr>\<rparr>"] by (simp add: adds_slot_def slots_def)
  have "\<exists>n \<ge> wNonce w. adds_slot (envNewID (apEng ae) ''cand_'' n) (wDB w) (wDB (snd (w', w\<lparr>wDB := (wDB w)\<lparr>dbRateLimits := rl\<rparr>\<rparr>)))" for w' :: ApiResp
    by (auto simp: adds_slot_def slots_def)
  with none rates show ?thesis
    by (auto simp: handleCreateIntent_def idempotent_def snd_bindT t case_prod_beta returnT_def split: sum.split option.split)
qed

lemma adds_slot_inv:
  assumes "plane_inv a" and "adds_slot x a b" and "x \<notin> set (cand_ids a) \<union> set (slots a)"
  shows "plane_inv b \<and> decided_kept a b"
proof -
  have c: "dbCandidates b = dbCandidates a" "cand_ids b = cand_ids a" using assms(2) by (simp_all add: adds_slot_def cand_ids_def)
  have "distinct (slots b) \<and> set (slots b) \<subseteq> set (slots a) \<union> {x}"
    using assms by (auto simp: adds_slot_def plane_inv_def split: if_splits)
  with assms(1,3) c show ?thesis by (auto simp: plane_inv_def decided_kept_def)
qed

lemma create_inv:
  assumes inv: "plane_inv (wDB w)" and fresh: "fresh_ids (apEng ae) w"
  shows "plane_inv (wDB (snd (handleCreateIntent ae tenant key raw w))) \<and> decided_kept (wDB w) (wDB (snd (handleCreateIntent ae tenant key raw w)))"
proof -
  obtain n where "n \<ge> wNonce w" and a: "adds_slot (envNewID (apEng ae) ''cand_'' n) (wDB w) (wDB (snd (handleCreateIntent ae tenant key raw w)))"
    using create_slot by blast
  with fresh have "envNewID (apEng ae) ''cand_'' n \<notin> set (cand_ids (wDB w)) \<union> set (slots (wDB w))" by (simp add: fresh_ids_def)
  with adds_slot_inv [OF inv a] show ?thesis .
qed

lemma serve_inv:
  fixes de :: DeliveryEnv
  assumes inv: "plane_inv (wDB w)" and fresh: "fresh_ids (apEng (wvApi de)) w"
  shows "plane_inv (wDB (snd (serve de req w))) \<and> decided_kept (wDB w) (wDB (snd (serve de req w)))"
proof -
  have self: "plane_inv (wDB w) \<and> decided_kept (wDB w) (wDB w)" using inv by (simp add: decided_kept_def)
  note l = live_ids_in [of de "wNonce w" "wDB w" "{}", simplified]
  note c = confined_handler_inv [OF inv fresh]
  show ?thesis
  proof (cases req)
    case (ReqSubmitCandidate tenant intentID key raw)
    then show ?thesis using self submit_inv [OF inv fresh]
      by (simp add: handleSubmitCandidate_def idempotent_def confined_api.respond_snd split: sum.split option.split)
  qed (simp_all add: create_inv [OF inv fresh] c [OF confined_api.fr_revalidate [OF order_refl l]] c [OF confined_api.fr_renew [OF order_refl l]]
      c [OF confined_api.fr_release [OF order_refl l]] c [OF confined_api.fr_delivery [OF order_refl l]] c [OF confined_api.fr_webhook [OF order_refl l]])
qed

lemma plane_step_inv:
  assumes "plane_step cr sg w w'" and "plane_inv (wDB w)"
  shows "plane_inv (wDB w') \<and> decided_kept (wDB w) (wDB w')"
  using assms(1)
proof cases
  case (tick env jobs)
  then show ?thesis using engine_step_inv [OF keepsD [OF terminal.r_tick] keepsD [OF engine_heads.r_tick] assms(2)]
    by (metis prod.collapse)
next
  case (reconcile env age)
  then show ?thesis using engine_step_inv [OF keepsD [OF terminal.r_reconcile] keepsD [OF engine_heads.r_reconcile] assms(2)]
    by (metis prod.collapse)
next
  case (request de req)
  then show ?thesis using serve_inv [OF assms(2)] by simp
qed

subsection \<open>Samples\<close>

definition light_crypto :: Crypto where
  "light_crypto = sample_crypto\<lparr>crSHA256 := (\<lambda>_. ''h'')\<rparr>"

definition light_env :: EngineEnv where
  "light_env = sample_env\<lparr>envCrypto := light_crypto, envHasSigner := False, envNewID := (\<lambda>px n. px @ ''x'' @ itoa (int n)), envRFC3339 := (\<lambda>_. [])\<rparr>"

definition one_job_plan :: "string \<Rightarrow> gotime \<Rightarrow> CandidateInput \<Rightarrow> ValidationPlan" where
  "one_job_plan pid now inp = NewValidationPlan pid [] (ciCandidateID inp)
     [\<lparr>tTier = 0, tJobs = [''build''], tRationale = [], tSelectionConfidence = None\<rparr>] [''hermetic_build''] \<lparr>prPolicyID = ''pol_1'', prVersion = 1\<rparr> [] now"

definition sample_sha :: "char \<Rightarrow> string" where
  "sample_sha c = replicate 40 c"

definition sample_api :: ApiEnv where
  "sample_api = \<lparr>apEng = light_env, apPlan = (\<lambda>pid now inp pol. Inr (one_job_plan pid now inp)), apRequestHash = (\<lambda>s. s),
     apDecodeSubmit = (\<lambda>_. Some \<lparr>csPatchRef = ''p'', csHeadSHA = sample_sha (CHR ''a''), csBaseSHA = sample_sha (CHR ''b''), csChangedPaths = []\<rparr>),
     apDecodeIntent = (\<lambda>_. Some \<lparr>icGoal = ''g'', icRepository = ''acme/api'', icBase = ''main'', icExpectedSurfaces = [''api/**''], icAcceptanceCriteria = [],
       icConstraints = [], icRisk = ''low'', icDeadline = None, icAgentLineage = []\<rparr>),
     apDecodeTTL = (\<lambda>_. None), apValidJSON = (\<lambda>_. True), apParseTime = (\<lambda>_. None), apLeaseTTL = 900000000000, apRatePerMin = 60, apRerunMax = 3\<rparr>"

definition sample_body :: "string \<Rightarrow> deliveryBody" where
  "sample_body kind = \<lparr>wbSource = ''github'', wbExtDeliveryID = ''guid-1'', wbEventKind = kind, wbRepo = ''acme/api'', wbPayload = ''{}'',
     wbQuarantineReason = [], wbDuplicateSuspect = False\<rparr>"

definition sample_pr :: "string \<Rightarrow> payload" where
  "sample_pr head = [(''pull_request'', PObj [(''number'', PNum 7), (''title'', PStr ''t''), (''diff_url'', PStr ''d''),
     (''head'', PObj [(''sha'', PStr head)]), (''base'', PObj [(''sha'', PStr (sample_sha (CHR ''b''))), (''ref'', PStr ''main'')])]),
     (''sender'', PObj [(''login'', PStr ''dev'')])]"

definition sample_de :: "string \<Rightarrow> string \<Rightarrow> DeliveryEnv" where
  "sample_de kind head = \<lparr>wvApi = sample_api, wvTenantID = ''org_1'', wvTracked = [''main''], wvVerifyHMAC = (\<lambda>_ _. True),
     wvDecode = (\<lambda>_. Some (sample_body kind)), wvPayload = (\<lambda>_. Some (sample_pr head))\<rparr>"

definition rereq_de :: DeliveryEnv where
  "rereq_de = sample_de ''check_run.rerequested'' []"

lemma light_append: "AppendEventsTx cr False [e] empty_ledger = Inr (stamp cr 0 genesisHash [e],
    \<lparr>lgRows = stamp cr 0 genesisHash [e], lgOutbox = map outbox_row (stamp cr 0 genesisHash [e]), lgCheckpoints = []\<rparr>)"
  by (simp add: AppendEventsTx_def empty_ledger_def tail_read_def Let_def)

lemma sample_fresh: "slots (wDB w) = [] \<Longrightarrow> set (cand_ids (wDB w)) \<subseteq> {cID sample_candidate} \<Longrightarrow> fresh_ids (apEng (wvApi (sample_de kind head))) w"
  by (auto simp: fresh_ids_def sample_de_def sample_api_def light_env_def sample_candidate_def)

definition decided_world :: World where
  "decided_world = world_of (empty_db\<lparr>dbCandidates := [decided_row]\<rparr>)"

definition opened_req :: Request where
  "opened_req = ReqDelivery [] ''guid-1'' []"

definition opened_de :: DeliveryEnv where
  "opened_de = sample_de ''pull_request.opened'' (sample_sha (CHR ''a''))"

lemma sample_reach:
  assumes "fresh_ids (apEng (wvApi opened_de)) w"
  shows "plane_reach light_crypto False w (snd (Tick light_env [] (snd (serve opened_de opened_req w))))"
proof -
  have "plane_step light_crypto False w (snd (serve opened_de opened_req w))"
    by (rule plane_step.request) (simp_all add: assms, simp_all add: opened_de_def sample_de_def sample_api_def light_env_def)
  moreover have "plane_step light_crypto False (snd (serve opened_de opened_req w)) (snd (Tick light_env [] (snd (serve opened_de opened_req w))))"
    by (rule plane_step.tick) (simp_all add: light_env_def)
  ultimately show ?thesis by simp
qed

lemma decided_kept_trans: "decided_kept a b \<Longrightarrow> decided_kept b c \<Longrightarrow> decided_kept a c"
  by (auto simp: decided_kept_def)

text \<open>C2: However API requests, webhook deliveries, ticks and reconciliations interleave, candidate
  ids stay unique, at most one candidate per intent, head and base is neither superseded nor cancelled, the ids reserved for first candidates stay
  unused, and a candidate that is eligible, rejected, superseded or cancelled keeps its row for ever. The API steps
  rely on fresh ULIDs.\<close>

theorem plane_invariant:
  assumes "plane_inv (wDB w)" and "plane_reach cr sg w w'"
  shows "plane_inv (wDB w') \<and> decided_kept (wDB w) (wDB w')"
  using assms(2)
proof (induction rule: rtranclp_induct)
  case base
  show ?case using assms(1) by (simp add: decided_kept_def)
next
  case (step y z)
  with plane_step_inv [OF step.hyps(2)] show ?case by (auto intro: decided_kept_trans)
qed

theorem plane_invariant_witness:
  "decided_row \<in> set (dbCandidates (wDB (snd (Tick light_env [] (snd (serve opened_de opened_req decided_world)))))) \<and>
   plane_inv (wDB (snd (Tick light_env [] (snd (serve opened_de opened_req decided_world)))))"
proof -
  have "fresh_ids (apEng (wvApi opened_de)) decided_world" unfolding opened_de_def
    by (rule sample_fresh) (simp_all add: decided_world_def world_of_def empty_db_def slots_def slots_of_def cand_ids_def decided_row_def)
  moreover have "plane_inv (wDB decided_world)"
    by (simp add: decided_world_def world_of_def empty_db_def plane_inv_def cand_ids_def slots_def slots_of_def heads_unique_def select_def decided_row_def)
  ultimately have "plane_inv (wDB (snd (Tick light_env [] (snd (serve opened_de opened_req decided_world))))) \<and>
      decided_kept (wDB decided_world) (wDB (snd (Tick light_env [] (snd (serve opened_de opened_req decided_world)))))"
    using plane_invariant sample_reach by blast
  then show ?thesis by (simp add: decided_kept_def decided_world_def world_of_def decided_row_def CandidateState_Terminal_def)
qed

text \<open>C5: The ledger of the whole control plane only grows and verifies in every reachable state.\<close>

theorem plane_ledger_verifies:
  assumes "ledger_inv cr sg (dbLedger (wDB w))" and "sound_signer cr" and "plane_reach cr sg w w'"
  shows "\<exists>ext rep. lgRows (dbLedger (wDB w')) = lgRows (dbLedger (wDB w)) @ ext \<and> Verify cr sg (dbLedger (wDB w')) = Inr rep"
proof -
  have "ledger_inv cr sg (dbLedger (wDB w')) \<and> (\<exists>ext. lgRows (dbLedger (wDB w')) = lgRows (dbLedger (wDB w)) @ ext)"
    using plane_ledger [OF assms(3)] assms(1) by (simp add: ledger_grows_def)
  with inv_Verify [OF _ assms(2)] show ?thesis by blast
qed

theorem plane_ledger_verifies_witness:
  "\<exists>rep. Verify light_crypto False (dbLedger (wDB (snd (Tick light_env [] (snd (serve opened_de opened_req (world_of empty_db))))))) = Inr rep"
proof -
  have "fresh_ids (apEng (wvApi opened_de)) (world_of empty_db)" unfolding opened_de_def
    by (rule sample_fresh) (simp_all add: world_of_def empty_db_def slots_def slots_of_def cand_ids_def)
  from plane_ledger_verifies [OF _ _ sample_reach [OF this]] show ?thesis
    by (auto simp: world_of_def empty_db_def empty_ledger_inv light_crypto_def sound_signer_def sample_crypto_def SignatureSize_def)
qed

subsection \<open>Replays\<close>

lemma LookupCommand_grows:
  assumes "LookupCommand db tenantID endpoint key hash = Inr (Some x)" and "commands_grow db db'"
  shows "LookupCommand db' tenantID endpoint key hash = Inr (Some x)"
proof -
  have "find P xs = Some c \<Longrightarrow> find P (xs @ ys) = Some c" for P c and xs ys :: "CommandRow list"
    by (induction xs) auto
  with assms show ?thesis by (auto simp: LookupCommand_def commands_grow_def split: option.splits if_splits)
qed

definition commands_same :: "DB \<Rightarrow> DB \<Rightarrow> bool" where
  "commands_same db db' \<longleftrightarrow> dbCommands db' = dbCommands db"

interpretation cs: db_order commands_same
  by unfold_locales (simp_all add: commands_same_def)

lemma cs_modify: "(\<And>db. dbCommands (f db) = dbCommands db) \<Longrightarrow> keeps commands_same (modifyDB f)"
  by (simp add: keeps_def modifyDB_def commands_same_def)

lemma cs_append: "keeps commands_same (appendT env evs)"
  by (auto simp: keeps_def appendT_def commands_same_def split: sum.split)

lemma cs_event: "keeps commands_same (eventT env actor tenantID agg ty causation corr payload)"
  unfolding eventT_def by (intro cs.r_rules)

lemma cs_map: "(\<And>x. keeps commands_same (f x)) \<Longrightarrow> keeps commands_same (mapT f xs)"
  by (induction xs) (auto intro!: cs.r_rules)

lemmas cs_rules = cs.r_rules cs_modify cs_append cs_event cs_map

lemma cs_plan: "keeps commands_same (planT ae inp)"
  unfolding planT_def by (intro cs_rules)

lemma cs_runs: "keeps commands_same (runs_for_plan env intent cand plan tenant)"
  unfolding runs_for_plan_def run_for_def by (intro cs_rules)

lemma cs_candidate_id: "keeps commands_same (candidate_id ae tenant intent)"
  unfolding candidate_id_def claimInitialCandidateSlot_def Let_def by (intro cs_rules) simp

lemma cs_submit: "keeps commands_same (SubmitCandidateTx env cand plan runs a)"
  unfolding SubmitCandidateTx_def insertPlanTx_def insertRunTx_def insertCandidateT_def newClusterAssignedEvent_def advanceIntentT_def
    applyClusterProjectionTx_def Let_def case_prod_beta
  by (intro cs_rules) simp_all

lemma cs_create: "keeps commands_same (CreateIntentTx env intent lease conflicts)"
  unfolding CreateIntentTx_def Let_def by (intro cs_rules) simp_all

lemma cs_replan: "keeps commands_same (AppendReplanTx env plan runs)"
  unfolding AppendReplanTx_def BuildValidationPlannedEvents_def insertPlanTx_def insertRunTx_def cancelRunRow_def Let_def case_prod_beta
  by (intro cs_rules) simp_all

lemma cs_bump: "keeps commands_same (bumpRerun ae tenant candidateID)"
  unfolding bumpRerun_def Let_def by (intro cs_rules) simp_all

text \<open>\<open>records t e k h ans m\<close>: when the key is new and \<open>m\<close> succeeds with an answer, that answer is on record.\<close>

definition records :: "string \<Rightarrow> string \<Rightarrow> string \<Rightarrow> string \<Rightarrow> ('a \<Rightarrow> (int \<times> json) option) \<Rightarrow> 'a tx \<Rightarrow> bool" where
  "records t e k h ans m \<longleftrightarrow> (\<forall>w x w' a. LookupCommand (wDB w) t e k h = Inr None \<longrightarrow> m w = (Inr x, w') \<longrightarrow> ans x = Some a \<longrightarrow>
     LookupCommand (wDB w') t e k h = Inr (Some a))"

lemma records_bind:
  assumes "keeps commands_same m" and "\<And>x. records t e k h ans (f x)"
  shows "records t e k h ans (bindT m f)"
  unfolding records_def bindT_Inr
proof (intro allI impI, elim exE conjE)
  fix w x w' a y w1
  assume l: "LookupCommand (wDB w) t e k h = Inr None" and m: "m w = (Inr y, w1)" and f: "f y w1 = (Inr x, w')" and a: "ans x = Some a"
  from keepsD [OF assms(1) m] l have "LookupCommand (wDB w1) t e k h = Inr None" by (simp add: commands_same_def LookupCommand_def)
  with assms(2) [of y] f a show "LookupCommand (wDB w') t e k h = Inr (Some a)" unfolding records_def by blast
qed

lemma records_then: "keeps commands_same m \<Longrightarrow> records t e k h ans n \<Longrightarrow> records t e k h ans (thenT m n)"
  unfolding thenT_def by (rule records_bind)

lemma records_none: "ans x = None \<Longrightarrow> records t e k h ans (returnT x)"
  by (simp add: records_def returnT_def)

lemma records_fail: "records t e k h ans (failT err)"
  by (simp add: records_def failT_def)

lemma RecordCommandTx_lookup:
  assumes "LookupCommand (wDB w) t e k h = Inr None"
  shows "LookupCommand (wDB (snd (RecordCommandTx t e k h c b w))) t e k h = Inr (Some (c, b))"
proof -
  let ?P = "\<lambda>c. ckTenantID c = t \<and> ckEndpoint c = e \<and> ckKey c = k"
  have none: "find ?P (dbCommands (wDB w)) = None" using assms by (auto simp: LookupCommand_def split: option.splits if_splits)
  have "find Q xs = None \<Longrightarrow> \<not> list_ex Q xs \<and> find Q (xs @ [r]) = (if Q r then Some r else None)" for Q xs and r :: CommandRow
    by (induction xs) (auto split: if_splits)
  from this [OF none] show ?thesis by (simp add: RecordCommandTx_def modifyDB_def LookupCommand_def)
qed

lemma records_command:
  assumes "ans x = Some (c, b)"
  shows "records t e k h ans (thenT (RecordCommandTx t e k h c b) (returnT x))"
  using RecordCommandTx_lookup assms by (auto simp: records_def thenT_Inr returnT_Inr) (metis snd_conv)

lemma records_tx:
  assumes "keeps commands_same m" and "ans x = Some (c, b)"
  shows "records t e k h ans (thenT (withTx (thenT m (RecordCommandTx t e k h c b))) (returnT x))"
proof -
  have "records t e k h ans (thenT m (thenT (RecordCommandTx t e k h c b) (returnT x)))"
    by (rule records_then [OF assms(1) records_command]) (rule assms(2))
  then show ?thesis unfolding records_def thenT_Inr withTx_Inr by blast
qed

lemma records_if: "(b \<Longrightarrow> records t e k h ans m) \<Longrightarrow> (\<not> b \<Longrightarrow> records t e k h ans n) \<Longrightarrow> records t e k h ans (if b then m else n)"
  by simp

lemma records_option:
  "records t e k h ans m \<Longrightarrow> (\<And>x. records t e k h ans (f x)) \<Longrightarrow> records t e k h ans (case opt of None \<Rightarrow> m | Some x \<Rightarrow> f x)"
  by (cases opt) simp_all

lemmas records_rules = records_bind records_if records_option records_fail records_none

fun answer :: "ApiResp \<Rightarrow> (int \<times> json) option" where
  "answer (RespJSON code body) = Some (code, body)"
| "answer (RespErr _ _) = None"

lemma submit_records: "records tenant endpoint key (apRequestHash ae raw) answer (submit_decoded ae tenant endpoint key raw intent inp)"
  unfolding submit_decoded_def submit_as_def Let_def case_prod_beta
  by (intro records_bind records_tx cs_rules cs_plan cs_runs cs_candidate_id cs_submit) simp_all

lemma create_records: "records tenant intents_endpoint key (apRequestHash ae raw) answer (create_decoded ae tenant key raw inp)"
  unfolding create_decoded_def Let_def
  by (intro records_rules records_tx cs_rules cs_create) simp_all

lemma revalidate_records:
  "records tenant (revalidate_endpoint candidateID) key (apRequestHash ae raw) (\<lambda>planID. Some (202, JObj [(''plan_id'', JStr planID)]))
    (revalidateTx ae tenant candidateID key raw pool)"
  unfolding revalidateTx_def buildReplan_def Let_def case_prod_beta
  by (intro records_option records_fail records_bind records_then records_command cs_rules cs_plan cs_runs cs_replan cs_bump) simp_all

lemma respond_answer: "fst (respond m w) = RespJSON code body \<Longrightarrow> m w = (Inr (RespJSON code body), snd (respond m w))"
  by (auto simp: respond_def WriteDomainError_def split: prod.splits sum.splits EngErr.splits DomErr.splits)

lemma records_respond:
  assumes "records t e k h answer m" and "LookupCommand (wDB w) t e k h = Inr None" and "fst (respond m w) = RespJSON code body"
  shows "LookupCommand (wDB (snd (respond m w))) t e k h = Inr (Some (code, body))"
  using assms(1,2) respond_answer [OF assms(3)] unfolding records_def by fastforce

text \<open>The key of an idempotent command.\<close>

fun command_key :: "Request \<Rightarrow> (string \<times> string \<times> string \<times> string) option" where
  "command_key (ReqCreateIntent tenant key raw) = Some (tenant, intents_endpoint, key, raw)"
| "command_key (ReqSubmitCandidate tenant intentID key raw) = Some (tenant, candidates_endpoint intentID, key, raw)"
| "command_key (ReqRevalidate tenant candidateID key raw) = Some (tenant, revalidate_endpoint candidateID, key, raw)"
| "command_key _ = None"

definition on_record :: "ApiEnv \<Rightarrow> string \<Rightarrow> string \<Rightarrow> string \<Rightarrow> string \<Rightarrow> int \<Rightarrow> json \<Rightarrow> DB \<Rightarrow> bool" where
  "on_record ae tenant endpoint key raw code body db \<longleftrightarrow> LookupCommand db tenant endpoint key (apRequestHash ae raw) = Inr (Some (code, body)) \<and>
     int (length raw) \<le> maxBodyBytes \<and> 16 \<le> length key \<and> length key \<le> 128"

lemma idempotent_replay:
  "on_record ae tenant endpoint key raw code body (wDB w) \<Longrightarrow> idempotent ae tenant endpoint key raw fresh w = (RespJSON code body, w)"
  by (simp add: idempotent_def on_record_def)

lemma idempotent_answered:
  assumes "fst (idempotent ae tenant endpoint key raw fresh w) = RespJSON code body"
    and "LookupCommand (wDB w) tenant endpoint key (apRequestHash ae raw) = Inr None \<Longrightarrow> fst (fresh w) = RespJSON code body \<Longrightarrow>
      LookupCommand (wDB (snd (fresh w))) tenant endpoint key (apRequestHash ae raw) = Inr (Some (code, body))"
  shows "on_record ae tenant endpoint key raw code body (wDB (snd (idempotent ae tenant endpoint key raw fresh w)))"
  using assms by (auto simp: on_record_def idempotent_def WriteDomainError_def split: if_splits sum.splits option.splits EngErr.splits DomErr.splits)

lemma create_recorded:
  assumes "fst (handleCreateIntent ae tenant key raw w) = RespJSON code body"
  shows "on_record ae tenant intents_endpoint key raw code body (wDB (snd (handleCreateIntent ae tenant key raw w)))"
proof -
  have token: "keeps commands_same (TakeToken (apEng ae) tenant b c p)" for b c p
    unfolding TakeToken_def Let_def by (intro cs_rules) simp
  show ?thesis using assms unfolding handleCreateIntent_def
    by (rule idempotent_answered, intro records_respond records_bind token)
       (auto simp: case_prod_beta intro!: records_if records_option create_records records_none)
qed

lemma submit_recorded:
  assumes "fst (handleSubmitCandidate ae tenant intentID key raw w) = RespJSON code body"
  shows "on_record ae tenant (candidates_endpoint intentID) key raw code body (wDB (snd (handleSubmitCandidate ae tenant intentID key raw w)))"
proof -
  have "decodeCandidateSubmit ae tenant intentID raw db \<noteq> Inl (RespJSON st msg)" for db st msg
    by (auto simp: decodeCandidateSubmit_def WriteDomainError_def split: option.splits if_splits)
  then show ?thesis using assms records_respond [OF submit_records] unfolding handleSubmitCandidate_def
    by (intro idempotent_answered) (auto split: sum.splits)
qed

lemma revalidate_recorded:
  assumes "fst (handleRevalidate ae tenant candidateID key raw w) = RespJSON code body"
  shows "on_record ae tenant (revalidate_endpoint candidateID) key raw code body (wDB (snd (handleRevalidate ae tenant candidateID key raw w)))"
proof -
  have "LookupCommand (wDB w') tenant (revalidate_endpoint candidateID) key (apRequestHash ae raw) = Inr (Some (202, JObj [(''plan_id'', JStr planID)]))"
    if "LookupCommand (wDB w) tenant (revalidate_endpoint candidateID) key (apRequestHash ae raw) = Inr None"
      and "withTx (revalidateTx ae tenant candidateID key raw (wDB w)) w = (Inr planID, w')" for planID w'
    using revalidate_records [of tenant candidateID key ae raw "wDB w"] that unfolding records_def withTx_Inr by blast
  then show ?thesis using assms unfolding handleRevalidate_def
    by (intro idempotent_answered) (auto simp: WriteDomainError_def split: if_splits prod.splits sum.splits EngErr.splits DomErr.splits)
qed

lemma command_recorded:
  assumes "command_key req = Some (tenant, endpoint, key, raw)" and "fst (serve de req w) = RespJSON code body"
  shows "on_record (wvApi de) tenant endpoint key raw code body (wDB (snd (serve de req w)))"
  using assms by (cases req) (auto simp: create_recorded submit_recorded revalidate_recorded)

text \<open>C4: Commands are idempotent. Once a create, submit or revalidate request has been answered with a
  success, the same request gets the same answer in every later state of the control plane and changes nothing.\<close>

theorem command_replays:
  assumes "command_key req = Some (tenant, endpoint, key, raw)" and "fst (serve de req w) = RespJSON code body"
    and "plane_reach cr sg (snd (serve de req w)) w'" and "apRequestHash (wvApi de') = apRequestHash (wvApi de)"
  shows "serve de' req w' = (RespJSON code body, w')"
proof -
  have "on_record (wvApi de') tenant endpoint key raw code body (wDB w')"
    using command_recorded [OF assms(1,2)] LookupCommand_grows [OF _ plane_commands [OF assms(3)]] by (simp add: on_record_def assms(4))
  then show ?thesis using assms(1)
    by (cases req) (auto simp: handleCreateIntent_def handleSubmitCandidate_def handleRevalidate_def intro: idempotent_replay)
qed

definition create_req :: Request where
  "create_req = ReqCreateIntent ''org_1'' ''0123456789abcdef'' []"

lemma light_append2: "eID a \<noteq> eID b \<Longrightarrow> AppendEventsTx cr False [a, b] \<lparr>lgRows = [], lgOutbox = [], lgCheckpoints = []\<rparr> \<noteq> Inl e"
  by (simp add: AppendEventsTx_def tail_read_def Let_def outbox_row_def)

lemma eID_NewEvent [simp]: "eID (NewEvent cr newID now newCorr tenantID agg ty cause corr actor payload) = newID"
  by (simp add: NewEvent_def)

lemma create_answer: "\<exists>body. fst (serve opened_de create_req (world_of empty_db)) = RespJSON 200 body"
proof -
  have ids: "itoa 4 \<noteq> itoa 5" by code_simp
  have req: "\<exists>y. RequiredEvidence DefaultPolicy RiskLow = Some y" by (simp add: RequiredEvidence_def DefaultPolicy_def)
  show ?thesis
    using req ids
    by (auto simp: create_req_def opened_de_def sample_de_def sample_api_def light_env_def handleCreateIntent_def idempotent_def maxBodyBytes_def LookupCommand_def
        world_of_def empty_db_def empty_ledger_def Let_def respond_def TakeToken_def tx_defs withTx_def create_decoded_def validateIntentCreate_def validRisk_def
        CreateIntentTx_def eventT_def freshID_def appendT_def RecordCommandTx_def light_append2 split: sum.split option.split)
qed

theorem command_replays_witness:
  "\<exists>body. serve opened_de create_req (snd (Tick light_env [] (snd (serve opened_de create_req (world_of empty_db))))) =
     (RespJSON 200 body, snd (Tick light_env [] (snd (serve opened_de create_req (world_of empty_db)))))"
proof -
  let ?w = "snd (serve opened_de create_req (world_of empty_db))"
  obtain body where b: "fst (serve opened_de create_req (world_of empty_db)) = RespJSON 200 body"
    using create_answer by blast
  have "plane_reach light_crypto False ?w (snd (Tick light_env [] ?w))"
    by (rule r_into_rtranclp, rule plane_step.tick) (simp_all add: light_env_def)
  from command_replays [OF _ b this refl] show ?thesis by (auto simp: create_req_def)
qed

subsection \<open>Deliveries\<close>

lemma marked_processed:
  assumes "bindT (MarkProcessedTx consumer key) f w = (Inr x, w')" and "\<And>b. stays 0 UNIV processed_grows (f b) (\<lambda>_. True)"
  shows "(key, consumer) \<in> set (dbProcessed (wDB w'))"
proof -
  obtain b w1 where "MarkProcessedTx consumer key w = (Inr b, w1)" and f: "f b w1 = (Inr x, w')"
    using assms(1) by (auto simp: bindT_Inr)
  then have "(key, consumer) \<in> set (dbProcessed (wDB w1))" by (auto dest: MarkProcessedTx_spec)
  moreover have "processed_grows (wDB w1) (wDB w')" using processed_api.fr_any [OF assms(2) [of b], of w1] f by simp
  ultimately show ?thesis by (auto simp: processed_grows_def)
qed

lemma MarkProcessedTx_seen: "(key, consumer) \<in> set (dbProcessed (wDB w)) \<Longrightarrow> MarkProcessedTx consumer key w = (Inr False, w)"
  by (simp add: MarkProcessedTx_def tx_defs)

lemma deliveryTx_seen:
  "(extID, delivery_consumer) \<in> set (dbProcessed (wDB w)) \<Longrightarrow> deliveryTx de extID hash body view ev pool w = (Inr (RespJSON 200 replay_body), w)"
  by (simp add: deliveryTx_def withTx_def bindT_def MarkProcessedTx_seen returnT_def)

lemma accepted_event_run: "\<exists>ev n. buildDeliveryAcceptedEvent env tenantID body l w = (Inr ev, w\<lparr>wNonce := n\<rparr>)"
  by (auto simp: buildDeliveryAcceptedEvent_def eventT_def bindT_def freshID_def returnT_def)

lemma or_unavailable_202:
  "fst (or_unavailable m w) = RespJSON 202 b \<Longrightarrow> m w = (Inr (RespJSON 202 b), snd (or_unavailable m w))"
  by (auto simp: or_unavailable_def split: prod.splits sum.splits)

text \<open>The key a delivery is remembered by.\<close>

definition delivery_key :: "string \<Rightarrow> deliveryBody \<Rightarrow> string" where
  "delivery_key extID body = (if wbQuarantineReason body \<noteq> [] \<or> wbDuplicateSuspect body then wbExtDeliveryID body else extID)"

lemma delivery_processed:
  assumes "fst (handleDelivery de sig extID raw w) = RespJSON 202 b"
  obtains body where "wvDecode de raw = Some body" and "int (length raw) \<le> maxBodyBytes" and "wvVerifyHMAC de raw sig" and "extID \<noteq> []"
    and "(delivery_key extID body, delivery_consumer) \<in> set (dbProcessed (wDB (snd (handleDelivery de sig extID raw w))))"
proof -
  obtain body where d: "wvDecode de raw = Some body" and g: "int (length raw) \<le> maxBodyBytes" "wvVerifyHMAC de raw sig" "extID \<noteq> []"
    using assms by (auto simp: handleDelivery_def split: if_splits option.splits)
  let ?h = "apRequestHash (wvApi de) raw"
  let ?view = "normalizeDelivery (wbEventKind body) (wbRepo body) (case wvPayload de (wbPayload body) of Some p \<Rightarrow> p | None \<Rightarrow> []) (wvTracked de)"
  let ?m = "if wbQuarantineReason body \<noteq> [] then applyQuarantineMarker de ?h body
    else if wbDuplicateSuspect body then applyDuplicateSuspect de ?h body
    else bindT (buildDeliveryAcceptedEvent (apEng (wvApi de)) (wvTenantID de) body (normalizedLabel ?view)) (\<lambda>ev. deliveryTx de extID ?h body ?view ev (wDB w))"
  have run: "handleDelivery de sig extID raw w = or_unavailable ?m w"
    using assms d g by (auto simp: handleDelivery_def Let_def split: sum.splits option.splits if_splits)
  then have m: "?m w = (Inr (RespJSON 202 b), snd (handleDelivery de sig extID raw w))" using assms or_unavailable_202 by metis
  have "(delivery_key extID body, delivery_consumer) \<in> set (dbProcessed (wDB (snd (handleDelivery de sig extID raw w))))"
  proof (cases "wbQuarantineReason body \<noteq> [] \<or> wbDuplicateSuspect body")
    case True
    then have "(wbExtDeliveryID body, delivery_consumer) \<in> set (dbProcessed (wDB (snd (handleDelivery de sig extID raw w))))"
      using m unfolding applyQuarantineMarker_def applyDuplicateSuspect_def recordDelivery_def
      by (auto simp only: withTx_Inr if_True if_False split: if_splits elim!: marked_processed
          intro!: processed_api.wi_seq processed_api.wi_audit processed_api.wi_record)
    with True show ?thesis by (simp add: delivery_key_def)
  next
    case False
    with m obtain ev w1 where "deliveryTx de extID ?h body ?view ev (wDB w) w1 = (Inr (RespJSON 202 b), snd (handleDelivery de sig extID raw w))"
      by (auto simp: bindT_Inr)
    then have "(extID, delivery_consumer) \<in> set (dbProcessed (wDB (snd (handleDelivery de sig extID raw w))))"
      unfolding deliveryTx_def withTx_Inr recordDelivery_def
      by (elim marked_processed) (intro processed_api.wi_seq processed_api.wi_effects processed_api.wi_record processed_api.live_in_UNIV; simp)
    with False show ?thesis by (simp add: delivery_key_def)
  qed
  with that d g show ?thesis by blast
qed


lemma rereq_answer: "fst (handleDelivery rereq_de [] ''guid-1'' [] (world_of empty_db)) = RespJSON 202 accepted_body"
  by (simp add: rereq_de_def sample_de_def sample_body_def sample_api_def light_env_def handleDelivery_def maxBodyBytes_def LookupCommand_def world_of_def
      empty_db_def Let_def or_unavailable_def buildDeliveryAcceptedEvent_def eventT_def freshID_def deliveryTx_def MarkProcessedTx_def tx_defs withTx_def
      appendT_def light_append normalizeDelivery_def splitEventKind_def applyDeliveryEffects_def recordDelivery_def RecordCommandTx_def)


end
