(* ===== verification/Replan.thy ===== *)
theory Replan
  imports Plane
begin

text \<open>
  Revalidation (internal/api/revalidate\_handler.go, internal/store/replan.go). The candidate the handler reads carries no
  tenant, so the new plan and its runs are filed under the empty tenant, where neither the scheduler nor the dossier looks:
  the request is answered 202 and nothing is run again.
\<close>

subsection \<open>Rows of a named tenant\<close>

definition named_runs :: "DB \<Rightarrow> ValidationRun Row list" where
  "named_runs db = filter (\<lambda>r. vrTenantID (rowVal r) \<noteq> []) (dbRuns db)"

definition named_plans :: "DB \<Rightarrow> ValidationPlan Row list" where
  "named_plans db = filter (\<lambda>r. vpTenantID (rowVal r) \<noteq> []) (dbPlans db)"

definition cand_view :: "Candidate Row \<Rightarrow> string \<times> string \<times> CandidateState" where
  "cand_view r = (cID (rowVal r), cTenantID (rowVal r), cState (rowVal r))"

text \<open>Everything the scheduler reads of runs, plans and candidates is kept.\<close>

definition pinned :: "ValidationRun Row list \<Rightarrow> ValidationPlan Row list \<Rightarrow> (string \<times> string \<times> CandidateState) list \<Rightarrow> DB \<Rightarrow> bool" where
  "pinned R P C db \<longleftrightarrow> named_runs db = R \<and> named_plans db = P \<and> map cand_view (dbCandidates db) = C"

definition pins :: "ValidationRun Row list \<Rightarrow> ValidationPlan Row list \<Rightarrow> (string \<times> string \<times> CandidateState) list \<Rightarrow> DB \<Rightarrow> DB \<Rightarrow> bool" where
  "pins R P C a b \<longleftrightarrow> (pinned R P C a \<longrightarrow> pinned R P C b)"

interpretation pin: db_order "pins R P C" for R P C
  by unfold_locales (simp_all add: pins_def)

lemma pin_modify: "(\<And>db. pinned R P C db \<Longrightarrow> pinned R P C (f db)) \<Longrightarrow> keeps (pins R P C) (modifyDB f)"
  by (simp add: keeps_def modifyDB_def pins_def)

lemma pin_append: "keeps (pins R P C) (appendT env evs)"
  by (auto simp: keeps_def appendT_def pins_def pinned_def named_runs_def named_plans_def split: sum.split)

lemma pin_event: "keeps (pins R P C) (eventT env actor tenantID agg ty causation corr payload)"
  unfolding eventT_def by (intro pin.r_rules)

lemma pin_map: "(\<And>x. x \<in> set xs \<Longrightarrow> keeps (pins R P C) (f x)) \<Longrightarrow> keeps (pins R P C) (mapT f xs)"
  by (induction xs) (auto intro!: pin.r_rules)

lemma pin_for: "(\<And>x. x \<in> set xs \<Longrightarrow> keeps (pins R P C) (f x)) \<Longrightarrow> keeps (pins R P C) (forT f xs)"
  by (induction xs) (auto intro!: pin.r_rules)

lemma pin_get: "keeps (pins R P C) (f (wDB w)) \<Longrightarrow> pins R P C (wDB w) (wDB (snd (bindT getDB f w)))"
  by (simp add: keeps_def bindT_def getDB_def)

lemma filter_upsert:
  assumes "\<not> V x" and "\<And>new old. V (set_state new old) = V old" and "ident x \<notin> ident ` rowVal ` set (filter (\<lambda>r. V (rowVal r)) rows)"
  shows "filter (\<lambda>r. V (rowVal r)) (upsert ident set_state seq x rows) = filter (\<lambda>r. V (rowVal r)) rows"
proof -
  have "filter (\<lambda>r. V (rowVal r)) (map (\<lambda>r. if ident (rowVal r) = ident x \<and> rowSeq r < seq then \<lparr>rowSeq = seq, rowVal = set_state x (rowVal r)\<rparr> else r) rows) =
      filter (\<lambda>r. V (rowVal r)) rows"
    using assms(2,3) by (induction rows) (auto simp: image_iff split: if_splits)
  then show ?thesis using assms(1) by (simp add: upsert_def)
qed

lemma pin_run:
  assumes "vrTenantID run = []" and "vrID run \<notin> (\<lambda>r. vrID (rowVal r)) ` set R"
  shows "keeps (pins R P C) (insertRunTx run seq)"
  unfolding insertRunTx_def
  by (rule pin_modify) (use assms in \<open>auto simp: pinned_def named_runs_def named_plans_def image_iff
      intro!: filter_upsert [where V = "\<lambda>v. vrTenantID v \<noteq> []", simplified]\<close>)

lemma pin_plan:
  assumes "vpTenantID plan = []" and "vpID plan \<notin> (\<lambda>r. vpID (rowVal r)) ` set P"
  shows "keeps (pins R P C) (insertPlanTx plan seq)"
  unfolding insertPlanTx_def
  by (rule pin_modify) (use assms in \<open>auto simp: pinned_def named_runs_def named_plans_def image_iff
      intro!: filter_upsert [where V = "\<lambda>v. vpTenantID v \<noteq> []", simplified]\<close>)

lemma pin_cancel:
  assumes "rid \<notin> (\<lambda>r. vrID (rowVal r)) ` set R"
  shows "keeps (pins R P C) (cancelRunRow env rid)"
proof -
  define g where "g = (\<lambda>r :: ValidationRun Row. if vrID (rowVal r) = rid \<and> vrState (rowVal r) \<in> {RunQueued, RunDispatched}
     then r\<lparr>rowVal := (rowVal r)\<lparr>vrState := RunCancelled, vrFinishedAt := Some (envNow env)\<rparr>\<rparr> else r)"
  have g: "vrTenantID (rowVal (g r)) = vrTenantID (rowVal r)" "vrID (rowVal r) \<noteq> rid \<Longrightarrow> g r = r" for r by (simp_all add: g_def)
  have "filter (\<lambda>r. vrTenantID (rowVal r) \<noteq> []) (map g rows) = filter (\<lambda>r. vrTenantID (rowVal r) \<noteq> []) rows"
    if "rid \<notin> (\<lambda>r. vrID (rowVal r)) ` set (filter (\<lambda>r. vrTenantID (rowVal r) \<noteq> []) rows)" for rows
    using that by (induction rows) (auto simp: g image_iff split: if_splits)
  with assms show ?thesis unfolding cancelRunRow_def g_def [symmetric]
    by (intro pin_modify) (auto simp: pinned_def named_runs_def named_plans_def)
qed

lemma pin_bump: "keeps (pins R P C) (bumpRerun ae tenant candidateID)"
proof -
  have "keeps (pins R P C) (modifyDB (\<lambda>d. d\<lparr>dbCandidates := map (\<lambda>r. if p (rowVal r) then r\<lparr>rowVal := (rowVal r)\<lparr>RerunCount := RerunCount (rowVal r) + 1\<rparr>\<rparr> else r)
      (dbCandidates d)\<rparr>))" for p
    by (rule pin_modify) (auto simp: pinned_def named_runs_def named_plans_def cand_view_def comp_def)
  then show ?thesis unfolding bumpRerun_def Let_def by (intro pin.r_rules)
qed

subsection \<open>The transaction\<close>

lemma run_for_run:
  obtains run where "run_for env intent cand plan tenant tj w = (Inr run, w\<lparr>wNonce := Suc (wNonce w)\<rparr>)"
    and "vrTenantID run = tenant" and "vrID run = envNewID env ''run_'' (wNonce w)"
  by (simp add: run_for_def bindT_def freshID_def returnT_def NewValidationRun_def)

lemma run_for_ids:
  "mapT (run_for env intent cand plan tenant) tjs w = (Inr runs, w') \<Longrightarrow> wDB w' = wDB w \<and>
    (\<forall>run \<in> set runs. vrTenantID run = tenant \<and> (\<exists>n \<ge> wNonce w. vrID run = envNewID env ''run_'' n))"
proof (induction tjs arbitrary: w runs)
  case (Cons tj tjs)
  obtain run where r: "run_for env intent cand plan tenant tj w = (Inr run, w\<lparr>wNonce := Suc (wNonce w)\<rparr>)" "vrTenantID run = tenant"
    "vrID run = envNewID env ''run_'' (wNonce w)" by (rule run_for_run)
  with Cons.prems obtain rest where m: "mapT (run_for env intent cand plan tenant) tjs (w\<lparr>wNonce := Suc (wNonce w)\<rparr>) = (Inr rest, w')" and runs: "runs = run # rest"
    by (auto simp: bindT_Inr returnT_Inr)
  from Cons.IH [OF m] have "wDB w' = wDB w" and "\<forall>run \<in> set rest. vrTenantID run = tenant \<and> (\<exists>n \<ge> wNonce w. vrID run = envNewID env ''run_'' n)"
    by (simp_all) (meson Suc_leD)
  with r(2,3) show ?case by (auto simp: runs)
qed (simp add: returnT_def)

lemma buildReplan_run:
  assumes "buildReplan ae intent cand w = (Inr (plan, runs), w1)"
  shows "wDB w1 = wDB w \<and> vpTenantID plan = cTenantID cand \<and> (\<exists>n \<ge> wNonce w. vpID plan = envNewID (apEng ae) ''val_'' n) \<and>
    (\<forall>run \<in> set runs. vrTenantID run = cTenantID cand \<and> (\<exists>n \<ge> wNonce w. vrID run = envNewID (apEng ae) ''run_'' n))"
proof -
  obtain p0 where p: "plan = p0\<lparr>vpID := envNewID (apEng ae) ''val_'' (Suc (wNonce w)), vpTenantID := cTenantID cand, vpCreatedAt := envNow (apEng ae)\<rparr>"
    and m: "mapT (run_for (apEng ae) intent cand plan (cTenantID cand)) (plan_jobs plan) (w\<lparr>wNonce := Suc (Suc (wNonce w))\<rparr>) = (Inr runs, w1)"
    using assms by (auto simp: buildReplan_def planT_def bindT_Inr returnT_Inr freshID_def liftT_def Let_def runs_for_plan_def)
  have "\<exists>n \<ge> wNonce w. vpID plan = envNewID (apEng ae) ''val_'' n" by (rule exI [of _ "Suc (wNonce w)"]) (simp add: p)
  moreover have "vpTenantID plan = cTenantID cand" by (simp add: p)
  moreover have "wDB w1 = wDB w" "\<forall>run \<in> set runs. vrTenantID run = cTenantID cand \<and> (\<exists>n \<ge> wNonce w. vrID run = envNewID (apEng ae) ''run_'' n)"
    using run_for_ids [OF m] by (simp_all) (meson Suc_leD)
  ultimately show ?thesis by blast
qed

lemma pin_replan:
  assumes plan: "vpTenantID plan = []" "vpID plan \<notin> (\<lambda>r. vpID (rowVal r)) ` set P"
    and runs: "\<And>run. run \<in> set runs \<Longrightarrow> vrTenantID run = [] \<and> vrID run \<notin> (\<lambda>r. vrID (rowVal r)) ` set R"
    and w: "distinct (map (\<lambda>r. vrID (rowVal r)) (dbRuns (wDB w)))" "pinned R P C (wDB w)"
  shows "pinned R P C (wDB (snd (AppendReplanTx env plan runs w)))"
proof -
  let ?prior = "QueuedRunIDsTx (wDB w) (vpTenantID plan) (vpCandidateID plan)"
  have prior: "rid \<notin> (\<lambda>r. vrID (rowVal r)) ` set R" if "rid \<in> set ?prior" for rid
  proof
    assume "rid \<in> (\<lambda>r. vrID (rowVal r)) ` set R"
    then obtain r where r: "r \<in> set (dbRuns (wDB w))" "vrTenantID (rowVal r) \<noteq> []" "vrID (rowVal r) = rid"
      using w(2) by (auto simp: pinned_def named_runs_def)
    from that obtain r' where r': "r' \<in> set (dbRuns (wDB w))" "vrTenantID (rowVal r') = []" "vrID (rowVal r') = rid"
      by (auto simp: QueuedRunIDsTx_def select_def plan(1))
    from w(1) r r' have "r = r'" by (auto simp: distinct_map dest: inj_onD)
    with r r' show False by simp
  qed
  have "keeps (pins R P C) (forT (\<lambda>(run, seq). thenT (insertPlanTx plan s0) (insertRunTx run seq)) (zip runs seqs))" for s0 seqs
    by (rule pin_for) (auto intro!: pin.r_then pin_plan pin_run plan dest!: set_zip_leftD runs)
  moreover have "keeps (pins R P C) (forT (cancelRunRow env) ?prior)" by (rule pin_for) (simp add: pin_cancel prior)
  ultimately have "pins R P C (wDB w) (wDB (snd (AppendReplanTx env plan runs w)))"
    unfolding AppendReplanTx_def BuildValidationPlannedEvents_def Let_def
    by (intro pin_get pin.r_bind pin.r_then pin.r_fresh pin.r_return pin_map pin_event pin_append)
  with w(2) show ?thesis by (simp add: pins_def)
qed

text \<open>What the scheduler and the readers of plans see is a function of the pinned data.\<close>

lemma pinned_queue:
  assumes "pinned R P C a" and "pinned R P C b" and "list_all (\<lambda>(i, t, s). t \<noteq> []) C"
  shows "QueuedRuns b limit = QueuedRuns a limit"
proof -
  have "filter (\<lambda>r. vrState (rowVal r) = RunQueued \<and> list_ex (\<lambda>c. cID (rowVal c) = vrCandidateID (rowVal r) \<and> cTenantID (rowVal c) = vrTenantID (rowVal r) \<and>
         cState (rowVal c) \<notin> {CandBlockedRepresentative, CandSuperseded, CandCancelled, CandRejected, CandEligible}) (dbCandidates db)) (dbRuns db) =
      filter (\<lambda>r. vrState (rowVal r) = RunQueued \<and> list_ex (\<lambda>(i, t, s). i = vrCandidateID (rowVal r) \<and> t = vrTenantID (rowVal r) \<and>
         s \<notin> {CandBlockedRepresentative, CandSuperseded, CandCancelled, CandRejected, CandEligible}) C) R" if "pinned R P C db" for db
  proof -
    have C: "C = map cand_view (dbCandidates db)" and R: "R = filter (\<lambda>r. vrTenantID (rowVal r) \<noteq> []) (dbRuns db)"
      using that by (simp_all add: pinned_def named_runs_def)
    have "\<forall>c \<in> set (dbCandidates db). cTenantID (rowVal c) \<noteq> []" using assms(3) by (auto simp: C list_all_iff cand_view_def)
    then show ?thesis unfolding R C filter_filter by (intro filter_cong) (auto simp: list_ex_iff cand_view_def)
  qed
  with assms(1,2) show ?thesis by (simp add: QueuedRuns_def)
qed

lemma pinned_plan: "pinned R P C a \<Longrightarrow> pinned R P C b \<Longrightarrow> t \<noteq> [] \<Longrightarrow> ActivePlanForCandidate b t c = ActivePlanForCandidate a t c"
proof -
  have "filter (\<lambda>r. vpTenantID (rowVal r) = t \<and> vpCandidateID (rowVal r) = c) (dbPlans db) = filter (\<lambda>r. vpTenantID (rowVal r) = t \<and> vpCandidateID (rowVal r) = c) P"
    if "pinned R P C db" "t \<noteq> []" for db
  proof -
    have P: "P = filter (\<lambda>r. vpTenantID (rowVal r) \<noteq> []) (dbPlans db)" using that by (simp add: pinned_def named_plans_def)
    show ?thesis unfolding P filter_filter using that(2) by (intro filter_cong) auto
  qed
  then show "pinned R P C a \<Longrightarrow> pinned R P C b \<Longrightarrow> t \<noteq> [] \<Longrightarrow> ActivePlanForCandidate b t c = ActivePlanForCandidate a t c"
    by (simp add: ActivePlanForCandidate_def)
qed

text \<open>C38: Revalidation is ineffective. A revalidation answered with 202 leaves what the scheduler would dispatch and the
  active plan of every candidate of every tenant as they were: the prior queued runs are not cancelled and no run of
  the new plan is ever picked up.\<close>

theorem revalidation_has_no_effect:
  assumes "handleRevalidate ae tenant candidateID key raw w = (RespJSON 202 body, w')"
    and "list_all (\<lambda>r. cTenantID (rowVal r) \<noteq> []) (dbCandidates (wDB w))" and "distinct (map (\<lambda>r. vrID (rowVal r)) (dbRuns (wDB w)))"
    and "\<And>n r. wNonce w \<le> n \<Longrightarrow> r \<in> set (dbRuns (wDB w)) \<Longrightarrow> vrID (rowVal r) \<noteq> envNewID (apEng ae) ''run_'' n"
    and "\<And>n r. wNonce w \<le> n \<Longrightarrow> r \<in> set (dbPlans (wDB w)) \<Longrightarrow> vpID (rowVal r) \<noteq> envNewID (apEng ae) ''val_'' n"
    and "t \<noteq> []"
  shows "QueuedRuns (wDB w') limit = QueuedRuns (wDB w) limit \<and> ActivePlanForCandidate (wDB w') t c = ActivePlanForCandidate (wDB w) t c"
proof -
  let ?R = "named_runs (wDB w)" and ?P = "named_plans (wDB w)" and ?C = "map cand_view (dbCandidates (wDB w))"
  have self: "pinned ?R ?P ?C (wDB w)" by (simp add: pinned_def)
  have "pinned ?R ?P ?C (wDB w')"
  proof (cases "w' = w")
    case False
    with assms(1) obtain planID where tx: "revalidateTx ae tenant candidateID key raw (wDB w) w = (Inr planID, w')"
      by (auto simp: handleRevalidate_def idempotent_def WriteDomainError_def withTx_Inr split: if_splits sum.splits option.splits prod.splits EngErr.splits DomErr.splits)
    then obtain cand intent plan runs w1 stamped w2 where cand: "GetCandidate (wDB w) tenant candidateID = Some cand"
      and b: "buildReplan ae intent cand w = (Inr (plan, runs), w1)" and a: "AppendReplanTx (apEng ae) plan runs w1 = (Inr stamped, w2)"
      and rest: "thenT (bumpRerun ae tenant candidateID) (thenT (RecordCommandTx tenant (revalidate_endpoint candidateID) key (apRequestHash ae raw) 202
         (JObj [(''plan_id'', JStr (vpID plan))])) (returnT (vpID plan))) w2 = (Inr planID, w')"
      by (auto simp: revalidateTx_def failT_def bindT_Inr thenT_Inr split: option.splits)
    have "cTenantID cand = []" using cand by (auto simp: GetCandidate_def)
    note run = buildReplan_run [OF b, unfolded this]
    have "pinned ?R ?P ?C (wDB (snd (AppendReplanTx (apEng ae) plan runs w1)))"
    proof (rule pin_replan)
      show "vpTenantID plan = []" using run by simp
      show "vpID plan \<notin> (\<lambda>r. vpID (rowVal r)) ` set ?P" using run assms(5) by (fastforce simp: named_plans_def)
      show "run \<in> set runs \<Longrightarrow> vrTenantID run = [] \<and> vrID run \<notin> (\<lambda>r. vrID (rowVal r)) ` set ?R" for run
        using run assms(4) by (fastforce simp: named_runs_def)
    qed (use run assms(3) self in simp_all)
    then have "pinned ?R ?P ?C (wDB w2)" by (simp add: a)
    moreover have "keeps (pins ?R ?P ?C) (RecordCommandTx t e k h cc bb)" for t e k h cc bb
      unfolding RecordCommandTx_def by (rule pin_modify) (simp add: pinned_def named_runs_def named_plans_def)
    ultimately show ?thesis using keepsD [OF pin.r_then [OF pin_bump pin.r_then [OF _ pin.r_return]] rest] by (simp add: pins_def)
  qed (simp add: self)
  then show ?thesis using pinned_queue [OF self] pinned_plan [OF self _ assms(6)] assms(2) by (simp add: list_all_iff cand_view_def)
qed

definition planned_api_world :: World where
  "planned_api_world = world_of ((sample_db RunQueued)\<lparr>dbPlans := [\<lparr>rowSeq = 1, rowVal = sample_plan\<rparr>]\<rparr>)"

lemma revalidate_answer:
  "map_option fst (answer (fst (handleRevalidate sample_api ''ten_1'' ''cand_1'' ''0123456789abcdef'' [] planned_api_world))) = Some 202 \<and>
   length (QueuedRuns (wDB planned_api_world) 8) = 1"
  by code_simp

theorem revalidation_has_no_effect_witness:
  "QueuedRuns (wDB (snd (handleRevalidate sample_api ''ten_1'' ''cand_1'' ''0123456789abcdef'' [] planned_api_world))) 8 = QueuedRuns (wDB planned_api_world) 8 \<and>
   length (QueuedRuns (wDB planned_api_world) 8) = 1"
proof -
  let ?h = "handleRevalidate sample_api ''ten_1'' ''cand_1'' ''0123456789abcdef'' [] planned_api_world"
  obtain body where h: "?h = (RespJSON 202 body, snd ?h)"
    using revalidate_answer by (cases "fst ?h") (auto simp: prod_eq_iff)
  have "QueuedRuns (wDB (snd ?h)) 8 = QueuedRuns (wDB planned_api_world) 8 \<and>
      ActivePlanForCandidate (wDB (snd ?h)) ''ten_1'' ''cand_1'' = ActivePlanForCandidate (wDB planned_api_world) ''ten_1'' ''cand_1''"
    by (rule revalidation_has_no_effect [OF h])
      (auto simp: planned_api_world_def world_of_def sample_db_def empty_db_def sample_candidate_def sample_run_row_def sample_run_def NewValidationRun_def
        sample_plan_def NewValidationPlan_def sample_api_def light_env_def)
  with revalidate_answer show ?thesis by blast
qed

end
