(* ===== verification/Cascade.thy ===== *)
theory Cascade
  imports Plane
begin

text \<open>
  The effects of the control plane's larger transactions: what a head update, a closed pull request, an uninstallation and a
  revalidation leave behind in the projections.
\<close>

subsection \<open>Candidates and runs that are closed\<close>

text \<open>\<open>waned X a b\<close>: from \<open>a\<close> to \<open>b\<close> candidates with ids in \<open>X\<close> may have been superseded or
  cancelled and runs may have been cancelled, and nothing else happened to either table.\<close>

definition waned :: "string set \<Rightarrow> DB \<Rightarrow> DB \<Rightarrow> bool" where
  "waned X a b \<longleftrightarrow>
     list_all2 (\<lambda>r r'. r' = r \<or> cID (rowVal r) \<in> X \<and> (\<exists>st \<in> {CandSuperseded, CandCancelled}. rowVal r' = (rowVal r)\<lparr>cState := st\<rparr>)) (dbCandidates a) (dbCandidates b) \<and>
     list_all2 (\<lambda>r r'. r' = r \<or> vrState (rowVal r') = RunCancelled \<and> vrID (rowVal r') = vrID (rowVal r)) (dbRuns a) (dbRuns b)"

definition gone :: "string \<Rightarrow> string \<Rightarrow> DB \<Rightarrow> bool" where
  "gone tenant candidateID db \<longleftrightarrow>
     \<not> list_ex (\<lambda>r. cID (rowVal r) = candidateID \<and> cTenantID (rowVal r) = tenant \<and> live_head (rowVal r)) (dbCandidates db) \<and>
     QueuedRunIDsTx db tenant candidateID = []"

lemma waned_refl: "waned X a a"
  by (simp add: waned_def list_all2_refl)

lemma waned_trans:
  assumes "waned X a b" and "waned X b c"
  shows "waned X a c"
  unfolding waned_def
proof
  show "list_all2 (\<lambda>r r'. r' = r \<or> cID (rowVal r) \<in> X \<and> (\<exists>st \<in> {CandSuperseded, CandCancelled}. rowVal r' = (rowVal r)\<lparr>cState := st\<rparr>))
      (dbCandidates a) (dbCandidates c)"
    by (rule list_all2_trans [OF _ assms(1) [unfolded waned_def, THEN conjunct1] assms(2) [unfolded waned_def, THEN conjunct1]]) force
  show "list_all2 (\<lambda>r r'. r' = r \<or> vrState (rowVal r') = RunCancelled \<and> vrID (rowVal r') = vrID (rowVal r)) (dbRuns a) (dbRuns c)"
    by (rule list_all2_trans [OF _ assms(1) [unfolded waned_def, THEN conjunct2] assms(2) [unfolded waned_def, THEN conjunct2]]) auto
qed

lemma waned_mono: "waned X a b \<Longrightarrow> X \<subseteq> Y \<Longrightarrow> waned Y a b"
  unfolding waned_def by (auto elim!: list_all2_mono)

lemma list_all2_back:
  assumes "list_all2 P xs ys" and "y \<in> set ys" and "\<And>x. P x y \<Longrightarrow> y = x"
  shows "y \<in> set xs"
  using assms unfolding list_all2_conv_all_nth by (metis in_set_conv_nth)

lemma waned_candidate:
  assumes "waned X a b" and "r' \<in> set (dbCandidates b)" and "live_head (rowVal r')"
  shows "r' \<in> set (dbCandidates a)"
  by (rule list_all2_back [OF assms(1) [unfolded waned_def, THEN conjunct1] assms(2)]) (use assms(3) in \<open>auto simp: live_head_def\<close>)

lemma waned_run:
  assumes "waned X a b" and "r' \<in> set (dbRuns b)" and "vrState (rowVal r') = RunQueued"
  shows "r' \<in> set (dbRuns a)"
  by (rule list_all2_back [OF assms(1) [unfolded waned_def, THEN conjunct2] assms(2)]) (use assms(3) in auto)

lemma waned_gone: "waned X a b \<Longrightarrow> gone tenant c a \<Longrightarrow> gone tenant c b"
  unfolding gone_def QueuedRunIDsTx_def select_def list_ex_iff
  by (auto simp: filter_empty_conv dest: waned_candidate waned_run)

lemma waned_other:
  assumes "waned X a b" and "r \<in> set (dbCandidates a)" and "cID (rowVal r) \<notin> X"
  shows "r \<in> set (dbCandidates b)"
  using assms unfolding waned_def list_all2_conv_all_nth in_set_conv_nth by metis

interpretation wane: db_order "waned X" for X
  by unfold_locales (simp_all add: waned_refl, rule waned_trans)

subsection \<open>One candidate is closed\<close>

lemma waned_same: "dbCandidates b = dbCandidates a \<Longrightarrow> dbRuns b = dbRuns a \<Longrightarrow> waned X a b"
  using waned_refl [of X a] by (simp add: waned_def)

lemma wn_modify: "(\<And>db. dbCandidates (f db) = dbCandidates db \<and> dbRuns (f db) = dbRuns db) \<Longrightarrow> keeps (waned X) (modifyDB f)"
  by (simp add: keeps_def modifyDB_def waned_same)

lemma wn_append: "keeps (waned X) (appendT env evs)"
  by (auto simp: keeps_def appendT_def waned_refl waned_same split: sum.split)

lemma wn_event: "keeps (waned X) (eventT env actor tenantID agg ty causation corr payload)"
  unfolding eventT_def by (intro wane.r_rules)

lemma wn_map: "(\<And>x. keeps (waned X) (f x)) \<Longrightarrow> keeps (waned X) (mapT f xs)"
  by (induction xs) (auto intro!: wane.r_rules)

lemma wn_cancel_row: "keeps (waned X) (cancelRunRow env rid)"
  by (auto simp: keeps_def cancelRunRow_def modifyDB_def waned_def list_all2_refl list_all2_conv_all_nth)

lemma wn_close:
  assumes "st \<in> {CandSuperseded, CandCancelled}"
  shows "keeps (waned {ci}) (closeCandidateTx st ti ci seq)"
proof -
  have "keeps (waned {ci}) (modifyDB (\<lambda>d. d\<lparr>dbCandidates := update_rows (\<lambda>c. cID c = ci \<and> cTenantID c = ti \<and> cState c \<notin> {CandSuperseded, CandCancelled})
      (\<lambda>c. c\<lparr>cState := st\<rparr>) seq (dbCandidates d)\<rparr>))"
    using assms by (auto simp: keeps_def modifyDB_def waned_def update_rows_def list_all2_refl list_all2_conv_all_nth)
  then show ?thesis unfolding closeCandidateTx_def Let_def by (intro wane.r_rules)
qed

lemmas wn_rules = wane.r_rules wn_modify wn_append wn_event wn_map wn_cancel_row

lemma cancel_rows_done:
  assumes "forT (cancelRunRow env) ids w = (Inr (), w')" and "r' \<in> set (dbRuns (wDB w'))" and "vrID (rowVal r') \<in> set ids"
  shows "vrState (rowVal r') \<noteq> RunQueued"
  using assms
proof (induction ids arbitrary: w)
  case (Cons i ids)
  from Cons.prems(1) obtain w1 where w1: "cancelRunRow env i w = (Inr (), w1)" and rest: "forT (cancelRunRow env) ids w1 = (Inr (), w')"
    by (auto simp: thenT_Inr)
  show ?case
  proof (cases "vrID (rowVal r') \<in> set ids")
    case True
    with Cons.IH [OF rest Cons.prems(2)] show ?thesis by simp
  next
    case False
    with Cons.prems(3) have i: "vrID (rowVal r') = i" by simp
    have "waned {} (wDB w1) (wDB w')" using keepsD [OF wane.r_for [OF wn_cancel_row] rest] .
    moreover have "vrState (rowVal r) \<noteq> RunQueued" if "r \<in> set (dbRuns (wDB w1))" "vrID (rowVal r) = i" for r
    proof -
      define g where "g = (\<lambda>r :: ValidationRun Row. if vrID (rowVal r) = i \<and> vrState (rowVal r) \<in> {RunQueued, RunDispatched}
        then r\<lparr>rowVal := (rowVal r)\<lparr>vrState := RunCancelled, vrFinishedAt := Some (envNow env)\<rparr>\<rparr> else r)"
      from w1 have "dbRuns (wDB w1) = map g (dbRuns (wDB w))" by (auto simp: cancelRunRow_def modifyDB_def g_def)
      with that(1) obtain r0 where "r = g r0" by auto
      with that(2) show ?thesis by (cases "vrID (rowVal r0) = i \<and> vrState (rowVal r0) \<in> {RunQueued, RunDispatched}") (auto simp: g_def)
    qed
    ultimately show ?thesis using waned_run [OF _ Cons.prems(2)] i by auto
  qed
qed simp

lemma project_done:
  assumes "appendEventsAndProjectCancels env evs (QueuedRunIDsTx db tenant c) repairIDs w = (Inr stamped, w')"
    and "waned {} db (wDB w)"
  shows "QueuedRunIDsTx (wDB w') tenant c = []"
proof -
  obtain w1 w2 where a: "appendT env evs w = (Inr stamped, w1)" and c: "forT (cancelRunRow env) (QueuedRunIDsTx db tenant c) w1 = (Inr (), w2)"
    and d: "forT abortRepairRow repairIDs w2 = (Inr (), w')"
    using assms(1) by (auto simp: appendEventsAndProjectCancels_def bindT_Inr thenT_Inr returnT_Inr)
  have ab: "keeps (waned {}) (abortRepairRow i)" for i unfolding abortRepairRow_def by (rule wn_modify) simp
  have w': "waned {} (wDB w2) (wDB w')" by (rule keepsD [OF wane.r_for [OF ab] d])
  have w1: "waned {} db (wDB w1)" by (rule waned_trans [OF assms(2) keepsD [OF wn_append a]])
  have "r' \<notin> set (dbRuns (wDB w'))" if r: "vrTenantID (rowVal r') = tenant" "vrCandidateID (rowVal r') = c" "vrState (rowVal r') = RunQueued" for r'
  proof
    assume "r' \<in> set (dbRuns (wDB w'))"
    then have r2: "r' \<in> set (dbRuns (wDB w2))" using waned_run [OF w' _ r(3)] by simp
    have "waned {} (wDB w1) (wDB w2)" by (rule keepsD [OF wane.r_for [OF wn_cancel_row] c])
    with w1 have "waned {} db (wDB w2)" by (rule waned_trans)
    from waned_run [OF this r2 r(3)] have "vrID (rowVal r') \<in> set (QueuedRunIDsTx db tenant c)"
      using r by (auto simp: QueuedRunIDsTx_def select_def)
    with cancel_rows_done [OF c r2] r(3) show False by simp
  qed
  then show ?thesis by (auto simp: QueuedRunIDsTx_def select_def filter_empty_conv)
qed

lemma close_done:
  assumes "closeCandidateTx st tenant c seq w = (Inr (), w')" and "st \<in> {CandSuperseded, CandCancelled}"
  shows "\<not> list_ex (\<lambda>r. cID (rowVal r) = c \<and> cTenantID (rowVal r) = tenant \<and> live_head (rowVal r)) (dbCandidates (wDB w'))"
proof -
  have "dbCandidates (wDB w') = update_rows (\<lambda>x. cID x = c \<and> cTenantID x = tenant \<and> cState x \<notin> {CandSuperseded, CandCancelled}) (\<lambda>x. x\<lparr>cState := st\<rparr>) seq
      (dbCandidates (wDB w))"
    using assms(1) by (cases w) (auto simp only: closeCandidateTx_def Let_def bindT_Inr thenT_Inr getDB_def modifyDB_def returnT_Inr failT_def split: if_splits; simp)
  moreover define g where "g = (\<lambda>r :: Candidate Row. if cID (rowVal r) = c \<and> cTenantID (rowVal r) = tenant \<and> cState (rowVal r) \<notin> {CandSuperseded, CandCancelled}
    then \<lparr>rowSeq = seq, rowVal = (rowVal r)\<lparr>cState := st\<rparr>\<rparr> else r)"
  ultimately have rows: "dbCandidates (wDB w') = map g (dbCandidates (wDB w))" by (simp add: update_rows_def g_def)
  have "\<not> live_head (rowVal (g r))" if "cID (rowVal (g r)) = c" "cTenantID (rowVal (g r)) = tenant" for r
    using that assms(2) by (cases "cID (rowVal r) = c \<and> cTenantID (rowVal r) = tenant \<and> cState (rowVal r) \<notin> {CandSuperseded, CandCancelled}")
      (auto simp: live_head_def g_def)
  then show ?thesis by (auto simp: rows list_ex_iff)
qed

text \<open>\<open>retires\<close>: whenever \<open>m\<close> succeeds, the candidate is closed, its queued runs are cancelled, and no other
  candidate changes.\<close>

definition retires :: "string \<Rightarrow> string \<Rightarrow> unit tx \<Rightarrow> bool" where
  "retires tenant c m \<longleftrightarrow> (\<forall>w w'. m w = (Inr (), w') \<longrightarrow> waned {c} (wDB w) (wDB w') \<and> gone tenant c (wDB w'))"

definition retires_from :: "DB \<Rightarrow> string \<Rightarrow> string \<Rightarrow> unit tx \<Rightarrow> bool" where
  "retires_from db tenant c m \<longleftrightarrow> (\<forall>w w'. waned {} db (wDB w) \<longrightarrow> m w = (Inr (), w') \<longrightarrow> waned {c} db (wDB w') \<and> gone tenant c (wDB w'))"

lemma retires_from_bind:
  assumes "keeps (waned {}) m" and "\<And>x. retires_from db tenant c (f x)"
  shows "retires_from db tenant c (bindT m f)"
  unfolding retires_from_def bindT_Inr
proof (intro allI impI, elim exE conjE)
  fix w w' x w1 assume w: "waned {} db (wDB w)" and m: "m w = (Inr x, w1)" and f: "f x w1 = (Inr (), w')"
  from waned_trans [OF w keepsD [OF assms(1) m]] assms(2) [of x] f
  show "waned {c} db (wDB w') \<and> gone tenant c (wDB w')" by (simp add: retires_from_def)
qed

lemma retires_bind:
  assumes "keeps (waned {}) m" and "\<And>x. retires tenant c (f x)"
  shows "retires tenant c (bindT m f)"
  unfolding retires_def bindT_Inr
proof (intro allI impI, elim exE conjE)
  fix w w' x w1 assume m: "m w = (Inr x, w1)" and f: "f x w1 = (Inr (), w')"
  from assms(2) [of x] f have "waned {c} (wDB w1) (wDB w')" "gone tenant c (wDB w')" by (auto simp: retires_def)
  with waned_mono [OF keepsD [OF assms(1) m], of "{c}"]
  show "waned {c} (wDB w) (wDB w') \<and> gone tenant c (wDB w')" by (auto intro: waned_trans)
qed

lemma retires_get: "(\<And>db. retires_from db tenant c (f db)) \<Longrightarrow> retires tenant c (bindT getDB f)"
  by (simp add: retires_def retires_from_def bindT_Inr getDB_def) (metis waned_refl)

lemma project_then_close:
  assumes "st \<in> {CandSuperseded, CandCancelled}"
  shows "retires_from db tenant c (bindT (appendEventsAndProjectCancels env evs (QueuedRunIDsTx db tenant c) repairIDs)
    (\<lambda>stamped. closeCandidateTx st tenant c (f stamped)))"
  unfolding retires_from_def bindT_Inr
proof (intro allI impI, elim exE conjE)
  fix w w' stamped w1
  assume db: "waned {} db (wDB w)" and p: "appendEventsAndProjectCancels env evs (QueuedRunIDsTx db tenant c) repairIDs w = (Inr stamped, w1)"
    and cl: "closeCandidateTx st tenant c (f stamped) w1 = (Inr (), w')"
  have "keeps (waned {c}) (appendEventsAndProjectCancels env evs (QueuedRunIDsTx db tenant c) repairIDs)"
    unfolding appendEventsAndProjectCancels_def abortRepairRow_def by (intro wn_rules) simp
  from keepsD [OF this p] keepsD [OF wn_close [OF assms] cl] waned_mono [OF db, of "{c}"]
  have w: "waned {c} db (wDB w')" "waned {c} (wDB w1) (wDB w')" using waned_trans by blast+
  have "QueuedRunIDsTx (wDB w') tenant c = []"
    using project_done [OF p db] w(2) by (auto simp: QueuedRunIDsTx_def select_def filter_empty_conv dest: waned_run)
  with w(1) close_done [OF cl assms] show "waned {c} db (wDB w') \<and> gone tenant c (wDB w')" by (simp add: gone_def)
qed

lemma wn_cancel_events: "keeps (waned X) (cancelQueuedRunsEvents env tenant ids reason actor)"
  unfolding cancelQueuedRunsEvents_def by (intro wn_rules)

lemma supersede_retires: "retires tenant (cID p) (supersedeCandidateTx env tenant extID p successorID)"
  unfolding supersedeCandidateTx_def SupersedeCandidateTx_def Let_def
  by (intro retires_bind retires_get retires_from_bind project_then_close wn_rules wn_cancel_events)
     (auto split: list.split intro!: wn_rules)

lemma cancel_retires: "retires tenant (cID p) (cancelCandidate env tenant extID reason p)"
  unfolding cancelCandidate_def CancelCandidateTx_def Let_def
  by (intro retires_bind retires_get retires_from_bind project_then_close wn_rules wn_cancel_events) simp

lemma retires_for:
  assumes "\<And>p. p \<in> set ps \<Longrightarrow> retires tenant (cID p) (f p)" and "forT f ps w = (Inr (), w')"
  shows "waned (cID ` set ps) (wDB w) (wDB w') \<and> (\<forall>p \<in> set ps. gone tenant (cID p) (wDB w'))"
  using assms
proof (induction ps arbitrary: w)
  case (Cons p ps)
  from Cons.prems(2) obtain w1 where p: "f p w = (Inr (), w1)" and rest: "forT f ps w1 = (Inr (), w')" by (auto simp: thenT_Inr)
  have r: "waned {cID p} (wDB w) (wDB w1)" "gone tenant (cID p) (wDB w1)" using Cons.prems(1) [of p] p by (auto simp: retires_def)
  have i: "waned (cID ` set ps) (wDB w1) (wDB w')" "\<forall>q \<in> set ps. gone tenant (cID q) (wDB w')"
    using Cons.IH [OF _ rest] Cons.prems(1) by auto
  from waned_trans [OF waned_mono [OF r(1)] waned_mono [OF i(1)], of "cID ` set (p # ps)"] i(2) waned_gone [OF i(1) r(2)]
  show ?case by auto
qed (simp add: returnT_def waned_refl)

subsection \<open>A closed pull request\<close>

lemma live_candidates_set:
  "c \<in> set (LiveCandidatesForIntentTx db tenant intentID) \<longleftrightarrow>
    (\<exists>r \<in> set (dbCandidates db). rowVal r = c \<and> cTenantID c = tenant \<and> cIntentID c = intentID \<and> candidate_live c)"
  by (auto simp: LiveCandidatesForIntentTx_def select_def)

lemma live_is_head: "candidate_live c \<Longrightarrow> live_head c"
  by (simp add: candidate_live_def live_head_def)

text \<open>C32: When the closing of a pull request is applied, no candidate of its intent is live any more, and none of those that
  were has a queued run.\<close>

theorem closed_pr_leaves_nothing:
  assumes "applyPRClosed ae tenant extID view pool w = (Inr (), w')"
    and "IntentForPR pool tenant (dvwRepo view) (prvNumber (dvwPR view)) = Some intent"
  shows "LiveCandidatesForIntentTx (wDB w') tenant (iID intent) = [] \<and>
    (\<forall>p \<in> set (LiveCandidatesForIntentTx (wDB w) tenant (iID intent)). gone tenant (cID p) (wDB w'))"
proof -
  let ?ps = "LiveCandidatesForIntentTx (wDB w) tenant (iID intent)"
  from assms have "forT (cancelCandidate (apEng ae) tenant extID (if prvMerged (dvwPR view) then ''merged'' else ''closed_without_merge'')) ?ps w = (Inr (), w')"
    by (simp add: applyPRClosed_def bindT_def getDB_def)
  from retires_for [OF cancel_retires this] have wn: "waned (cID ` set ?ps) (wDB w) (wDB w')" and g: "\<forall>p \<in> set ?ps. gone tenant (cID p) (wDB w')" by simp_all
  have "c \<notin> set (LiveCandidatesForIntentTx (wDB w') tenant (iID intent))" for c
  proof
    assume "c \<in> set (LiveCandidatesForIntentTx (wDB w') tenant (iID intent))"
    then obtain r where r: "r \<in> set (dbCandidates (wDB w'))" "rowVal r = c" "cTenantID c = tenant" "cIntentID c = iID intent" "candidate_live c"
      by (auto simp: live_candidates_set)
    then have "r \<in> set (dbCandidates (wDB w))" using waned_candidate [OF wn r(1)] live_is_head by simp
    with r have "c \<in> set ?ps" by (auto simp: live_candidates_set)
    with g have "gone tenant (cID c) (wDB w')" by blast
    with r live_is_head show False by (auto simp: gone_def list_ex_iff)
  qed
  then have "LiveCandidatesForIntentTx (wDB w') tenant (iID intent) = []" by (metis list.set_intros(1) neq_Nil_conv)
  with g show ?thesis by blast
qed

definition pr_intent :: Intent where
  "pr_intent = sample_intent\<lparr>iPRNumber := 7\<rparr>"

definition pr_lease :: Lease where
  "pr_lease = NewLease ''lease_1'' ''ten_1'' ''int_1'' \<lparr>lsKind = ScopeChangeScope, lsSurfaces = [], lsEnvTemplate = []\<rparr> ''agent'' zero_budget 900 [] 0"

definition pr_world :: World where
  "pr_world = world_of (empty_db\<lparr>dbIntents := [\<lparr>rowSeq = 1, rowVal = pr_intent\<rparr>], dbLeases := [\<lparr>rowSeq = 1, rowVal = pr_lease\<rparr>],
     dbCandidates := [\<lparr>rowSeq = 2, rowVal = sample_candidate\<rparr>], dbRuns := [sample_run_row 0 RunQueued]\<rparr>)"

definition pr_view :: "NormalizedKind \<Rightarrow> deliveryView" where
  "pr_view kind = \<lparr>dvwKind = kind, dvwRaw = [], dvwRepo = ''acme/shop'', dvwTrackedBase = True,
     dvwPR = \<lparr>prvNumber = 7, prvHeadSHA = sample_sha (CHR ''c''), prvBaseSHA = sample_sha (CHR ''b''), prvBaseRef = ''main'', prvDiffURL = ''d'',
       prvTitle = ''t'', prvSender = ''dev'', prvMerged = False\<rparr>, dvwPush = zero_push, dvwInstall = \<lparr>inAccount = ''acme'', inRepos = [''acme/shop'']\<rparr>\<rparr>"

lemma pr_world_found: "\<exists>intent. IntentForPR (wDB pr_world) ''ten_1'' (dvwRepo (pr_view k)) (prvNumber (dvwPR (pr_view k))) = Some intent \<and> iID intent = ''int_1''"
proof -
  have "map_option iID (IntentForPR (wDB pr_world) ''ten_1'' ''acme/shop'' 7) = Some ''int_1''" by code_simp
  then show ?thesis by (auto simp: pr_view_def)
qed

lemma pr_world_live: "map cID (LiveCandidatesForIntentTx (wDB pr_world) ''ten_1'' ''int_1'') = [''cand_1''] \<and> QueuedRunIDsTx (wDB pr_world) ''ten_1'' ''cand_1'' = [''run_9'']"
  by code_simp

lemma closed_run: "fst (applyPRClosed sample_api ''ten_1'' ''guid'' (pr_view KindPRClosed) (wDB pr_world) pr_world) = Inr ()"
  by code_simp

theorem closed_pr_leaves_nothing_witness:
  "LiveCandidatesForIntentTx (wDB (snd (applyPRClosed sample_api ''ten_1'' ''guid'' (pr_view KindPRClosed) (wDB pr_world) pr_world))) ''ten_1'' ''int_1'' = [] \<and>
   gone ''ten_1'' ''cand_1'' (wDB (snd (applyPRClosed sample_api ''ten_1'' ''guid'' (pr_view KindPRClosed) (wDB pr_world) pr_world)))"
proof -
  obtain intent where i: "IntentForPR (wDB pr_world) ''ten_1'' (dvwRepo (pr_view KindPRClosed)) (prvNumber (dvwPR (pr_view KindPRClosed))) = Some intent" "iID intent = ''int_1''"
    using pr_world_found by blast
  have run: "applyPRClosed sample_api ''ten_1'' ''guid'' (pr_view KindPRClosed) (wDB pr_world) pr_world =
      (Inr (), snd (applyPRClosed sample_api ''ten_1'' ''guid'' (pr_view KindPRClosed) (wDB pr_world) pr_world))"
    using closed_run by (metis prod.collapse)
  from pr_world_live have "\<exists>p \<in> set (LiveCandidatesForIntentTx (wDB pr_world) ''ten_1'' ''int_1''). cID p = ''cand_1''" by auto
  with closed_pr_leaves_nothing [OF run i(1)] i(2) show ?thesis by auto
qed

subsection \<open>A new head\<close>

definition cands_same :: "DB \<Rightarrow> DB \<Rightarrow> bool" where
  "cands_same db db' \<longleftrightarrow> dbCandidates db' = dbCandidates db"

interpretation cd: db_order cands_same
  by unfold_locales (simp_all add: cands_same_def)

lemma cd_modify: "(\<And>db. dbCandidates (f db) = dbCandidates db) \<Longrightarrow> keeps cands_same (modifyDB f)"
  by (simp add: keeps_def modifyDB_def cands_same_def)

lemma cd_append: "keeps cands_same (appendT env evs)"
  by (auto simp: keeps_def appendT_def cands_same_def split: sum.split)

lemma cd_event: "keeps cands_same (eventT env actor tenantID agg ty causation corr payload)"
  unfolding eventT_def by (intro cd.r_rules)

lemma cd_map: "(\<And>x. keeps cands_same (f x)) \<Longrightarrow> keeps cands_same (mapT f xs)"
  by (induction xs) (auto intro!: cd.r_rules)

lemmas cd_rules = cd.r_rules cd_modify cd_append cd_event cd_map

definition puts :: "Candidate \<Rightarrow> 'a tx \<Rightarrow> bool" where
  "puts c m \<longleftrightarrow> (\<forall>w x w'. m w = (Inr x, w') \<longrightarrow> (\<exists>seq. dbCandidates (wDB w') = upsert_candidate seq c (dbCandidates (wDB w))))"

lemma puts_bind: "keeps cands_same m \<Longrightarrow> (\<And>x. puts c (f x)) \<Longrightarrow> puts c (bindT m f)"
  unfolding puts_def bindT_Inr by (fastforce dest: keepsD simp: cands_same_def)

lemma puts_first: "keeps cands_same m \<Longrightarrow> puts c n \<Longrightarrow> puts c (thenT m n)"
  unfolding thenT_def by (rule puts_bind)

lemma puts_then: "puts c m \<Longrightarrow> keeps cands_same n \<Longrightarrow> puts c (thenT m n)"
  unfolding puts_def thenT_Inr by (fastforce dest: keepsD simp: cands_same_def)

lemma puts_insert: "puts c (insertCandidateT c seq)"
  by (auto simp: puts_def insertCandidateT_def bindT_Inr getDB_def modifyDB_def failT_def split: if_splits)

lemma submit_puts: "puts cand (SubmitCandidateTx env cand plan runs a)"
  unfolding SubmitCandidateTx_def Let_def insertPlanTx_def insertRunTx_def newClusterAssignedEvent_def advanceIntentT_def
    applyClusterProjectionTx_def case_prod_beta
  by (intro puts_bind puts_first puts_then puts_insert cd_rules) simp_all

lemma map_sum_id_Inr: "map_sum f (\<lambda>c. c) r = Inr c \<longleftrightarrow> r = Inr c"
  by (cases r) auto

lemma cd_plan: "keeps cands_same (planT ae inp)"
  unfolding planT_def by (intro cd_rules)

lemma cd_runs: "keeps cands_same (runs_for_plan env i c p t)"
  unfolding runs_for_plan_def run_for_def by (intro cd_rules)

lemma webhook_candidate_steps:
  assumes "submitWebhookCandidateTx ae intent tenant view w = (Inr (Some s), w')"
  obtains cand0 inp plan0 plan runs w2 w3 stamped where
    "NewCandidate (envNewID (apEng ae) ''cand_'' (wNonce w)) tenant (iID intent) (''github:'' @ prvSender (dvwPR view)) (prvDiffURL (dvwPR view))
      (prvHeadSHA (dvwPR view)) (prvBaseSHA (dvwPR view)) [] 0 (envNow (apEng ae)) = Inr cand0"
    and "planT ae inp (w\<lparr>wNonce := wNonce w + 1\<rparr>) = (Inr plan0, w2)" and "plan = plan0\<lparr>vpTenantID := tenant\<rparr>"
    and "s = cand0\<lparr>cRepo := dvwRepo view, cPRNumber := prvNumber (dvwPR view), cEstCostMillicents := plan_cost plan\<rparr>"
    and "runs_for_plan (apEng ae) intent s plan tenant w2 = (Inr runs, w3)"
    and "SubmitCandidateTx (apEng ae) s plan runs None w3 = (Inr stamped, w')"
  using assms unfolding submitWebhookCandidateTx_def Let_def
  by (auto simp: bindT_Inr thenT_Inr returnT_Inr getDB_def freshID_def liftT_def map_sum_id_Inr returnT_def [of None] split: if_splits)

lemma in_cand_ids: "r \<in> set (dbCandidates db) \<Longrightarrow> cID (rowVal r) \<in> set (cand_ids db)"
  by (simp add: cand_ids_def)

lemma webhook_candidate_run:
  assumes "submitWebhookCandidateTx ae intent tenant view w = (Inr (Some s), w')" and "fresh_ids (apEng ae) w"
  obtains seq where "dbCandidates (wDB w') = dbCandidates (wDB w) @ [\<lparr>rowSeq = seq, rowVal = s\<rparr>]" and "cID s \<notin> set (cand_ids (wDB w))"
    and "cTenantID s = tenant" and "cIntentID s = iID intent" and "cHeadSHA s = prvHeadSHA (dvwPR view)" and "cState s = CandSubmitted"
proof -
  obtain cand0 inp plan0 plan runs w2 w3 stamped where n: "NewCandidate (envNewID (apEng ae) ''cand_'' (wNonce w)) tenant (iID intent)
      (''github:'' @ prvSender (dvwPR view)) (prvDiffURL (dvwPR view)) (prvHeadSHA (dvwPR view)) (prvBaseSHA (dvwPR view)) [] 0 (envNow (apEng ae)) = Inr cand0"
    and p: "planT ae inp (w\<lparr>wNonce := wNonce w + 1\<rparr>) = (Inr plan0, w2)"
    and s: "s = cand0\<lparr>cRepo := dvwRepo view, cPRNumber := prvNumber (dvwPR view), cEstCostMillicents := plan_cost plan\<rparr>"
    and r: "runs_for_plan (apEng ae) intent s plan tenant w2 = (Inr runs, w3)"
    and m: "SubmitCandidateTx (apEng ae) s plan runs None w3 = (Inr stamped, w')"
    by (rule webhook_candidate_steps [OF assms(1)])
  have c0: "cID cand0 = envNewID (apEng ae) ''cand_'' (wNonce w)" "cTenantID cand0 = tenant" "cIntentID cand0 = iID intent"
      "cHeadSHA cand0 = prvHeadSHA (dvwPR view)" "cState cand0 = CandSubmitted"
    using n by (auto simp: NewCandidate_def split: if_splits)
  have same: "dbCandidates (wDB w3) = dbCandidates (wDB w)"
    using keepsD [OF cd_plan p] keepsD [OF cd_runs r] by (simp add: cands_same_def)
  have fresh: "cID s \<notin> set (cand_ids (wDB w))" using assms(2) c0(1) by (simp add: s fresh_ids_def)
  obtain seq where "dbCandidates (wDB w') = upsert_candidate seq s (dbCandidates (wDB w))"
    using submit_puts m same unfolding puts_def by metis
  with fresh have "dbCandidates (wDB w') = dbCandidates (wDB w) @ [\<lparr>rowSeq = seq, rowVal = s\<rparr>]"
    by (auto simp: upsert_candidate_def upsert_def list_ex_iff dest: in_cand_ids split: if_splits)
  with that fresh c0 show ?thesis by (simp add: s)
qed

text \<open>C6: A head update hands over. When a \<^verbatim>\<open>synchronize\<close> for a head the intent has not seen is applied, exactly one
  candidate of the intent is live, it is new and has the new head, and every candidate that was live is closed and has no
  queued run.\<close>

theorem synchronize_hands_over:
  assumes "applyPRSynchronize ae tenant extID view pool w = (Inr (), w')"
    and "IntentForPR pool tenant (dvwRepo view) (prvNumber (dvwPR view)) = Some intent"
    and "\<not> snd (CandidateHeadStateTx (wDB w) tenant (iID intent) (prvHeadSHA (dvwPR view)))" and "fresh_ids (apEng ae) w"
  shows "\<exists>s. LiveCandidatesForIntentTx (wDB w') tenant (iID intent) = [s] \<and> cHeadSHA s = prvHeadSHA (dvwPR view) \<and> cID s \<notin> set (cand_ids (wDB w)) \<and>
    (\<forall>p \<in> set (LiveCandidatesForIntentTx (wDB w) tenant (iID intent)). gone tenant (cID p) (wDB w'))"
proof -
  let ?ps = "LiveCandidatesForIntentTx (wDB w) tenant (iID intent)"
  obtain s w1 where sub: "submitWebhookCandidateTx ae intent tenant view w = (Inr (Some s), w1)"
    and loop: "forT (\<lambda>p. if cID p = cID s then returnT () else supersedeCandidateTx (apEng ae) tenant extID p (cID s)) ?ps w1 = (Inr (), w')"
    using assms(1-3) by (auto simp: applyPRSynchronize_def bindT_Inr getDB_def Let_def failT_def split: option.splits)
  obtain seq where c: "dbCandidates (wDB w1) = dbCandidates (wDB w) @ [\<lparr>rowSeq = seq, rowVal = s\<rparr>]" and new: "cID s \<notin> set (cand_ids (wDB w))"
    and s: "cTenantID s = tenant" "cIntentID s = iID intent" "cHeadSHA s = prvHeadSHA (dvwPR view)" "cState s = CandSubmitted"
    by (rule webhook_candidate_run [OF sub assms(4)])
  have old: "cID p \<noteq> cID s" if "p \<in> set ?ps" for p
    using that new by (auto simp: live_candidates_set dest: in_cand_ids)
  have "retires tenant (cID p) (if cID p = cID s then returnT () else supersedeCandidateTx (apEng ae) tenant extID p (cID s))" if "p \<in> set ?ps" for p
    using old [OF that] supersede_retires by simp
  from retires_for [OF this loop] have wn: "waned (cID ` set ?ps) (wDB w1) (wDB w')" and g: "\<forall>p \<in> set ?ps. gone tenant (cID p) (wDB w')" by simp_all
  let ?P = "\<lambda>r. cTenantID (rowVal r) = tenant \<and> cIntentID (rowVal r) = iID intent \<and> candidate_live (rowVal r)"
  obtain old' r' where split: "dbCandidates (wDB w') = old' @ [r']"
    and "list_all2 (\<lambda>r r'. r' = r \<or> cID (rowVal r) \<in> cID ` set ?ps \<and> (\<exists>st \<in> {CandSuperseded, CandCancelled}. rowVal r' = (rowVal r)\<lparr>cState := st\<rparr>)) (dbCandidates (wDB w)) old'"
    and r': "r' = \<lparr>rowSeq = seq, rowVal = s\<rparr>"
  proof -
    have "cID s \<notin> cID ` set ?ps" using old by force
    then show ?thesis using wn that unfolding waned_def c by (auto simp: list_all2_append1 list_all2_Cons1)
  qed
  have "\<not> ?P r" if r: "r \<in> set old'" for r
  proof
    assume P: "?P r"
    have "r \<in> set (dbCandidates (wDB w))"
      by (rule list_all2_back [OF \<open>list_all2 _ _ old'\<close> r]) (use P in \<open>auto simp: candidate_live_def\<close>)
    with P have "rowVal r \<in> set ?ps" by (auto simp: live_candidates_set)
    with g have "gone tenant (cID (rowVal r)) (wDB w')" by blast
    with P r split live_is_head show False by (auto simp: gone_def list_ex_iff)
  qed
  then have "filter ?P old' = []" by (simp add: filter_empty_conv)
  then have "select (\<lambda>c. cTenantID c = tenant \<and> cIntentID c = iID intent \<and> candidate_live c) (dbCandidates (wDB w')) = [s]"
    using s by (simp add: select_def split r' filter_map comp_def candidate_live_def)
  then have "LiveCandidatesForIntentTx (wDB w') tenant (iID intent) = [s]"
    by (simp add: LiveCandidatesForIntentTx_def sort_by_def)
  with g new s(3) show ?thesis by blast
qed

lemma synchronize_run: "fst (applyPRSynchronize sample_api ''ten_1'' ''guid'' (pr_view KindPRSynchronize) (wDB pr_world) pr_world) = Inr () \<and>
    \<not> snd (CandidateHeadStateTx (wDB pr_world) ''ten_1'' ''int_1'' (prvHeadSHA (dvwPR (pr_view KindPRSynchronize))))"
  by code_simp

theorem synchronize_hands_over_witness:
  "\<exists>s. LiveCandidatesForIntentTx (wDB (snd (applyPRSynchronize sample_api ''ten_1'' ''guid'' (pr_view KindPRSynchronize) (wDB pr_world) pr_world))) ''ten_1'' ''int_1'' = [s] \<and>
     cHeadSHA s = sample_sha (CHR ''c'') \<and> cID s \<noteq> ''cand_1'' \<and>
     gone ''ten_1'' ''cand_1'' (wDB (snd (applyPRSynchronize sample_api ''ten_1'' ''guid'' (pr_view KindPRSynchronize) (wDB pr_world) pr_world)))"
proof -
  let ?r = "applyPRSynchronize sample_api ''ten_1'' ''guid'' (pr_view KindPRSynchronize) (wDB pr_world) pr_world"
  obtain intent where i: "IntentForPR (wDB pr_world) ''ten_1'' (dvwRepo (pr_view KindPRSynchronize)) (prvNumber (dvwPR (pr_view KindPRSynchronize))) = Some intent"
      "iID intent = ''int_1''" using pr_world_found by blast
  have run: "?r = (Inr (), snd ?r)" using synchronize_run by (metis prod.collapse)
  have ids: "cand_ids (wDB pr_world) = [''cand_1'']" "slots (wDB pr_world) = []"
    by (simp_all add: pr_world_def world_of_def empty_db_def cand_ids_def slots_def slots_of_def sample_candidate_def pr_intent_def sample_intent_def NewIntent_def)
  have "fresh_ids (apEng (wvApi opened_de)) pr_world" unfolding opened_de_def
    by (rule sample_fresh) (simp_all add: ids sample_candidate_def)
  then have fresh: "fresh_ids (apEng sample_api) pr_world" by (simp add: opened_de_def sample_de_def)
  from pr_world_live have "\<exists>p \<in> set (LiveCandidatesForIntentTx (wDB pr_world) ''ten_1'' ''int_1''). cID p = ''cand_1''" by auto
  with synchronize_hands_over [OF run i(1) _ fresh] synchronize_run i(2) ids show ?thesis by (auto simp: pr_view_def)
qed

subsection \<open>Suspended repositories\<close>

definition suspended_grow :: "DB \<Rightarrow> DB \<Rightarrow> bool" where
  "suspended_grow db db' \<longleftrightarrow> set (dbSuspended db) \<subseteq> set (dbSuspended db')"

interpretation susp_engine: full_frame suspended_grow env for env
proof
  show "suspended_grow a b \<Longrightarrow> suspended_grow b c \<Longrightarrow> suspended_grow a c" for a b c by (auto simp: suspended_grow_def)
qed (auto simp: suspended_grow_def)

interpretation susp_api: intent_frame suspended_grow de for de
  by unfold_locales (auto simp: suspended_grow_def)

lemma plane_suspended: "plane_reach cr sg w w' \<Longrightarrow> suspended_grow (wDB w) (wDB w')"
  by (erule plane_keeps [where Q = suspended_grow, rotated 4])
     (simp_all add: susp_engine.refl_Q susp_engine.r_tick susp_engine.r_reconcile susp_api.fr_serve, rule susp_engine.trans_Q)

definition work_untouched :: "DB \<Rightarrow> DB \<Rightarrow> bool" where
  "work_untouched db db' \<longleftrightarrow> dbIntents db' = dbIntents db \<and> dbLeases db' = dbLeases db \<and> dbCandidates db' = dbCandidates db \<and> dbPlans db' = dbPlans db \<and> dbRuns db' = dbRuns db"

interpretation untouched: db_order work_untouched
  by unfold_locales (simp_all add: work_untouched_def)

lemma un_append: "keeps work_untouched (appendT env evs)"
  by (auto simp: keeps_def appendT_def work_untouched_def split: sum.split)

lemma un_modify: "(\<And>db. work_untouched db (f db)) \<Longrightarrow> keeps work_untouched (modifyDB f)"
  by (simp add: keeps_def modifyDB_def)

lemma suspend_done:
  assumes "SuspendReposTx repos w = (Inr (), w')" and "repo \<in> set repos"
  shows "repo \<in> set (dbSuspended (wDB w'))"
  using assms
proof (induction repos arbitrary: w)
  case (Cons r repos)
  from Cons.prems(1) obtain w1 where w1: "w1 = w\<lparr>wDB := (if r \<in> set (dbSuspended (wDB w)) then wDB w else (wDB w)\<lparr>dbSuspended := dbSuspended (wDB w) @ [r]\<rparr>)\<rparr>"
    and rest: "SuspendReposTx repos w1 = (Inr (), w')" by (auto simp: SuspendReposTx_def thenT_Inr modifyDB_def)
  have "keeps suspended_grow (SuspendReposTx repos)" unfolding SuspendReposTx_def
    by (intro susp_engine.r_for susp_engine.r_modify) (auto simp: suspended_grow_def)
  from keepsD [OF this rest] Cons.IH [OF rest] Cons.prems(2) show ?case by (auto simp: w1 suspended_grow_def split: if_splits)
qed (simp add: SuspendReposTx_def)

text \<open>C33: An uninstallation is final for new work. Once the deletion of an installation has been applied, a pull
  request opened on one of its repositories, in any later state of the control plane, leaves intents, leases, candidates,
  plans and runs as they are.\<close>

theorem uninstalled_repo_stays_quiet:
  assumes "applyInstallationDeleted ae tenant view pool w = (Inr (), w1)" and "dvwRepo view' \<in> set (inRepos (dvwInstall view))"
    and "plane_reach cr sg w1 w2" and "dvwKind view' = KindPROpened"
  shows "work_untouched (wDB w2) (wDB (snd (deliveryTx de extID hash body view' ev (wDB w2) w2)))"
proof -
  have "dvwRepo view' \<in> set (dbSuspended (wDB w1))"
    using assms(1,2) suspend_done by (auto simp: applyInstallationDeleted_def Let_def bindT_Inr thenT_Inr split: if_splits)
  with plane_suspended [OF assms(3)] have "RepoSuspended (wDB w2) (dvwRepo view')" by (auto simp: RepoSuspended_def suspended_grow_def)
  then have eff: "applyDeliveryEffects de body view' (wDB w2) = returnT ()"
    using assms(4) by (simp add: applyDeliveryEffects_def applyPROpened_def Let_def)
  have "keeps work_untouched (deliveryTx de extID hash body view' ev (wDB w2))"
    unfolding deliveryTx_def eff recordDelivery_def RecordCommandTx_def MarkProcessedTx_def
    by (intro untouched.r_rules un_append un_modify) (simp_all add: work_untouched_def)
  then show ?thesis by (simp add: keeps_def)
qed

lemma uninstall_run: "fst (applyInstallationDeleted sample_api ''ten_1'' (pr_view KindInstallDeleted) (wDB pr_world) pr_world) = Inr ()"
  by code_simp

definition uninstalled_world :: World where
  "uninstalled_world = snd (Tick light_env [] (snd (applyInstallationDeleted sample_api ''ten_1'' (pr_view KindInstallDeleted) (wDB pr_world) pr_world)))"

theorem uninstalled_repo_stays_quiet_witness:
  "work_untouched (wDB uninstalled_world)
    (wDB (snd (deliveryTx opened_de ''guid-2'' [] (sample_body ''pull_request.opened'') (pr_view KindPROpened) (sample_event ''evt_9'') (wDB uninstalled_world) uninstalled_world)))"
proof -
  let ?w = "snd (applyInstallationDeleted sample_api ''ten_1'' (pr_view KindInstallDeleted) (wDB pr_world) pr_world)"
  have run: "applyInstallationDeleted sample_api ''ten_1'' (pr_view KindInstallDeleted) (wDB pr_world) pr_world = (Inr (), ?w)"
    using uninstall_run by (metis prod.collapse)
  have "plane_reach light_crypto False ?w uninstalled_world" unfolding uninstalled_world_def
    by (rule r_into_rtranclp, rule plane_step.tick) (simp_all add: light_env_def)
  from uninstalled_repo_stays_quiet [OF run _ this] show ?thesis by (simp add: pr_view_def)
qed

end
