(* ===== verification/Intake.thy ===== *)
theory Intake
  imports Cascade
begin

text \<open>
  What a submission writes (internal/store/candidate\_submit\_tx.go, called by the submit handler and by the webhook
  path): the candidate, its plan, and one queued run per job of the plan, each once and with its event.
\<close>

definition work_rows :: "DB \<Rightarrow> Candidate list \<times> ValidationPlan list \<times> ValidationRun list" where
  "work_rows db = (map rowVal (dbCandidates db), map rowVal (dbPlans db), map rowVal (dbRuns db))"

definition rows_same :: "DB \<Rightarrow> DB \<Rightarrow> bool" where
  "rows_same db db' \<longleftrightarrow> dbCandidates db' = dbCandidates db \<and> dbPlans db' = dbPlans db \<and> dbRuns db' = dbRuns db"

interpretation rs: db_order rows_same
  by unfold_locales (simp_all add: rows_same_def)

lemma rs_modify: "(\<And>db. rows_same db (f db)) \<Longrightarrow> keeps rows_same (modifyDB f)"
  by (simp add: keeps_def modifyDB_def)

lemma rs_append: "keeps rows_same (appendT env evs)"
  by (auto simp: keeps_def appendT_def rows_same_def split: sum.split)

lemma rs_event: "keeps rows_same (eventT env actor tenantID agg ty causation corr payload)"
  unfolding eventT_def by (intro rs.r_rules)

lemma rs_map: "(\<And>x. keeps rows_same (f x)) \<Longrightarrow> keeps rows_same (mapT f xs)"
  by (induction xs) (auto intro!: rs.r_rules)

lemmas rs_rules = rs.r_rules rs_append rs_event rs_map

lemma mapT_length: "mapT f xs w = (Inr ys, w') \<Longrightarrow> length ys = length xs"
  by (induction xs arbitrary: w ys) (auto simp: returnT_Inr bindT_Inr)

lemma append_length: "appendT env evs w = (Inr stamped, w') \<Longrightarrow> length stamped = length evs"
proof -
  have "length (stamp cr seq prev es) = length es" for cr seq prev es
    by (induction es arbitrary: seq prev) (simp_all add: Let_def)
  then show "appendT env evs w = (Inr stamped, w') \<Longrightarrow> length stamped = length evs"
    by (auto simp: appendT_def AppendEventsTx_def Let_def split: if_splits sum.splits prod.splits)
qed

lemma upsert_new: "ident x \<notin> (\<lambda>r. ident (rowVal r)) ` set rows \<Longrightarrow> upsert ident f seq x rows = rows @ [\<lparr>rowSeq = seq, rowVal = x\<rparr>]"
  by (auto simp: upsert_def list_ex_iff image_iff)

lemma insert_runs:
  assumes "forT (\<lambda>(run, seq). insertRunTx run seq) (zip runs seqs) w = (Inr (), w')" and "length runs \<le> length seqs"
    and "distinct (map vrID runs)" and "vrID ` set runs \<inter> (\<lambda>r. vrID (rowVal r)) ` set (dbRuns (wDB w)) = {}"
  shows "map rowVal (dbRuns (wDB w')) = map rowVal (dbRuns (wDB w)) @ runs \<and> dbCandidates (wDB w') = dbCandidates (wDB w) \<and> dbPlans (wDB w') = dbPlans (wDB w)"
  using assms
proof (induction runs arbitrary: seqs w)
  case (Cons run runs)
  then obtain s ss where seqs: "seqs = s # ss" by (cases seqs) auto
  let ?w1 = "w\<lparr>wDB := (wDB w)\<lparr>dbRuns := dbRuns (wDB w) @ [\<lparr>rowSeq = s, rowVal = run\<rparr>]\<rparr>\<rparr>"
  have "insertRunTx run s w = (Inr (), ?w1)"
    using Cons.prems(4) by (simp add: insertRunTx_def modifyDB_def upsert_new)
  with Cons.prems(1) have "forT (\<lambda>(run, seq). insertRunTx run seq) (zip runs ss) ?w1 = (Inr (), w')" by (simp add: seqs thenT_Inr)
  from Cons.IH [OF this] Cons.prems(2-4) show ?case by (auto simp: seqs)
qed (simp add: returnT_def)

text \<open>The six writes, in their order.\<close>

lemma submit_steps:
  assumes "SubmitCandidateTx env cand plan runs a w = (Inr stamped, w')"
  obtains w1 w2 w3 w4 w5 seqs where "rows_same (wDB w) (wDB w1)" and "length seqs = length stamped" and "length runs + 2 \<le> length stamped"
    and "advanceIntentT (cTenantID cand) (cIntentID cand) (seqs ! 1) w1 = (Inr (), w2)" and "insertCandidateT cand (seqs ! 0) w2 = (Inr (), w3)"
    and "insertPlanTx plan (seqs ! 1) w3 = (Inr (), w4)" and "forT (\<lambda>(run, seq). insertRunTx run seq) (zip runs (drop 2 seqs)) w4 = (Inr (), w5)"
    and "rows_same (wDB w5) (wDB w')"
proof -
  define clustered where "clustered = (case a of None \<Rightarrow> False | Some a \<Rightarrow> cdJoined a \<or> cdClusterID a \<noteq> [])"
  have cl: "keeps rows_same (if clustered then applyClusterProjectionTx env cand (the a) s else returnT ())" for s
    unfolding applyClusterProjectionTx_def by (intro rs_rules rs_modify) (simp_all add: rows_same_def)
  have asg: "keeps rows_same (if clustered then bindT (newClusterAssignedEvent env cand (the a)) (\<lambda>ev. returnT [ev]) else returnT [])"
    unfolding newClusterAssignedEvent_def by (intro rs_rules)
  obtain corr v1 sub v2 planned v3 reqs v4 assigned v5 w1 w2 w3 w4 w5 and u2 u3 u4 u5 u6 :: unit where
      s1: "freshID env ''corr_'' w = (Inr corr, v1)"
      and s2: "eventT env \<lparr>actKind = ''agent'', actID = Submitter cand\<rparr> (cTenantID cand) \<lparr>agType = ''candidate'', agID = cID cand\<rparr> ''candidate.submitted'' [] corr (submitted_payload cand) v1 = (Inr sub, v2)"
      and s3: "eventT env \<lparr>actKind = ''agent'', actID = Submitter cand\<rparr> (cTenantID cand) \<lparr>agType = ''validation_plan'', agID = vpID plan\<rparr> ''validation.planned'' (eID sub) corr (planned_payload plan) v2 = (Inr planned, v3)"
      and s4: "mapT (\<lambda>run. eventT env \<lparr>actKind = ''agent'', actID = Submitter cand\<rparr> (cTenantID cand) (run_agg (vrID run)) ''validation.requested'' (eID planned) corr (requested_payload plan run)) runs v3 = (Inr reqs, v4)"
      and s5: "(if clustered then bindT (newClusterAssignedEvent env cand (the a)) (\<lambda>ev. returnT [ev]) else returnT []) v4 = (Inr assigned, v5)"
      and s6: "appendT env (sub # planned # reqs @ assigned) v5 = (Inr stamped, w1)"
      and s7: "advanceIntentT (cTenantID cand) (cIntentID cand) (map eSeq stamped ! 1) w1 = (Inr u2, w2)"
      and s8: "insertCandidateT cand (map eSeq stamped ! 0) w2 = (Inr u3, w3)"
      and s9: "insertPlanTx plan (map eSeq stamped ! 1) w3 = (Inr u4, w4)"
      and s10: "forT (\<lambda>(run, seq). insertRunTx run seq) (zip runs (drop 2 (map eSeq stamped))) w4 = (Inr u5, w5)"
      and s11: "(if clustered then applyClusterProjectionTx env cand (the a) (last (map eSeq stamped)) else returnT ()) w5 = (Inr u6, w')"
    using assms unfolding SubmitCandidateTx_def Let_def clustered_def [symmetric] by (auto simp only: bindT_Inr thenT_Inr returnT_Inr)
  have "rows_same (wDB w) (wDB v1)" "rows_same (wDB v1) (wDB v2)" "rows_same (wDB v2) (wDB v3)" "rows_same (wDB v3) (wDB v4)" "rows_same (wDB v4) (wDB v5)" "rows_same (wDB v5) (wDB w1)"
    using keepsD [OF rs.r_fresh s1] keepsD [OF rs_event s2] keepsD [OF rs_event s3] keepsD [OF rs_map [OF rs_event] s4] keepsD [OF asg s5] keepsD [OF rs_append s6] .
  then have "rows_same (wDB w) (wDB w1)" by (simp add: rows_same_def)
  moreover have "length runs + 2 \<le> length stamped" using append_length [OF s6] mapT_length [OF s4] by simp
  ultimately show ?thesis using that [of w1 "map eSeq stamped" w2 w3 w4 w5] s7 s8 s9 s10 keepsD [OF cl s11] by simp
qed

lemma submit_rows:
  assumes "SubmitCandidateTx env cand plan runs a w = (Inr stamped, w')"
    and "cID cand \<notin> set (cand_ids (wDB w))" and "vpID plan \<notin> (\<lambda>r. vpID (rowVal r)) ` set (dbPlans (wDB w))"
    and "distinct (map vrID runs)" and "vrID ` set runs \<inter> (\<lambda>r. vrID (rowVal r)) ` set (dbRuns (wDB w)) = {}"
  shows "work_rows (wDB w') = (map rowVal (dbCandidates (wDB w)) @ [cand], map rowVal (dbPlans (wDB w)) @ [plan], map rowVal (dbRuns (wDB w)) @ runs)"
proof -
  obtain w1 w2 w3 w4 w5 seqs where w1: "rows_same (wDB w) (wDB w1)" and len: "length seqs = length stamped" "length runs + 2 \<le> length stamped"
    and a: "advanceIntentT (cTenantID cand) (cIntentID cand) (seqs ! 1) w1 = (Inr (), w2)" and c: "insertCandidateT cand (seqs ! 0) w2 = (Inr (), w3)"
    and p: "insertPlanTx plan (seqs ! 1) w3 = (Inr (), w4)" and r: "forT (\<lambda>(run, seq). insertRunTx run seq) (zip runs (drop 2 seqs)) w4 = (Inr (), w5)"
    and w': "rows_same (wDB w5) (wDB w')" by (rule submit_steps [OF assms(1)])
  have w2: "rows_same (wDB w) (wDB w2)" using w1 a by (auto simp: advanceIntentT_def modifyDB_def rows_same_def)
  have w3: "dbCandidates (wDB w3) = dbCandidates (wDB w) @ [\<lparr>rowSeq = seqs ! 0, rowVal = cand\<rparr>]" "dbPlans (wDB w3) = dbPlans (wDB w)" "dbRuns (wDB w3) = dbRuns (wDB w)"
    using c w2 assms(2) by (auto simp: insertCandidateT_def bindT_Inr getDB_def modifyDB_def failT_def rows_same_def upsert_candidate_def upsert_new cand_ids_def split: if_splits)
  have w4: "dbPlans (wDB w4) = dbPlans (wDB w) @ [\<lparr>rowSeq = seqs ! 1, rowVal = plan\<rparr>]" "dbCandidates (wDB w4) = dbCandidates (wDB w3)" "dbRuns (wDB w4) = dbRuns (wDB w)"
    using p w3 assms(3) by (auto simp: insertPlanTx_def modifyDB_def upsert_new)
  have "map rowVal (dbRuns (wDB w5)) = map rowVal (dbRuns (wDB w4)) @ runs \<and> dbCandidates (wDB w5) = dbCandidates (wDB w4) \<and> dbPlans (wDB w5) = dbPlans (wDB w4)"
    by (rule insert_runs [OF r]) (use len assms(4,5) w4 in simp_all)
  with w3 w4 w' show ?thesis by (simp add: work_rows_def rows_same_def)
qed

lemma run_for_shape:
  "mapT (run_for env intent cand plan tenant) tjs w = (Inr runs, w') \<Longrightarrow>
    rows_same (wDB w) (wDB w') \<and> map vrID runs = map (envNewID env ''run_'') [wNonce w..<wNonce w + length tjs] \<and>
    map (\<lambda>v. (vrTier v, jsKind (vrJobSpec v))) runs = map (\<lambda>(t, j). (t, EvidenceKindForJob j)) tjs \<and>
    list_all (\<lambda>v. vrState v = RunQueued \<and> vrCandidateID v = cID cand \<and> vrPlanID v = vpID plan \<and> vrTenantID v = tenant) runs"
proof (induction tjs arbitrary: w runs)
  case (Cons tj tjs)
  define run where "run = fst (run_for env intent cand plan tenant tj w)"
  have r: "run_for env intent cand plan tenant tj w = (run, w\<lparr>wNonce := Suc (wNonce w)\<rparr>)"
    by (simp add: run_def run_for_def bindT_def freshID_def returnT_def)
  obtain v where v: "run = Inr v" "vrID v = envNewID env ''run_'' (wNonce w)" "vrTier v = fst tj" "jsKind (vrJobSpec v) = EvidenceKindForJob (snd tj)"
      "vrState v = RunQueued" "vrCandidateID v = cID cand" "vrPlanID v = vpID plan" "vrTenantID v = tenant"
    by (simp add: run_def run_for_def bindT_def freshID_def returnT_def NewValidationRun_def)
  with Cons.prems r obtain rest where m: "mapT (run_for env intent cand plan tenant) tjs (w\<lparr>wNonce := Suc (wNonce w)\<rparr>) = (Inr rest, w')" and runs: "runs = v # rest"
    by (auto simp: bindT_Inr returnT_Inr)
  have up: "map (envNewID env ''run_'') [wNonce w..<wNonce w + length (tj # tjs)] =
      envNewID env ''run_'' (wNonce w) # map (envNewID env ''run_'') [Suc (wNonce w)..<Suc (wNonce w) + length tjs]"
    by (simp add: upt_conv_Cons del: upt_Suc)
  from Cons.IH [OF m] v show ?case unfolding up runs by (cases tj) (simp add: rows_same_def)
qed (simp add: returnT_def rows_same_def)

text \<open>What ULIDs promise of the rows a submission writes.\<close>

definition fresh_rows :: "EngineEnv \<Rightarrow> nat \<Rightarrow> DB \<Rightarrow> bool" where
  "fresh_rows env N db \<longleftrightarrow> inj (envNewID env ''run_'') \<and>
     (\<forall>n \<ge> N. envNewID env ''run_'' n \<notin> (\<lambda>r. vrID (rowVal r)) ` set (dbRuns db))"

text \<open>C7: A submission queues the whole plan. When the runs of a plan are built and submitted, the candidate and the plan are
  added once, and behind the existing runs stands exactly one queued run per job of the plan, in the order of the
  tiers, each with the tier of its job and the evidence kind the job earns.\<close>

theorem submission_queues_every_job:
  assumes "runs_for_plan env intent cand plan tenant w = (Inr runs, w1)" and "SubmitCandidateTx env cand plan runs a w1 = (Inr stamped, w')"
    and "cID cand \<notin> set (cand_ids (wDB w))" and "vpID plan \<notin> (\<lambda>r. vpID (rowVal r)) ` set (dbPlans (wDB w))" and "fresh_rows env (wNonce w) (wDB w)"
  shows "\<exists>new. work_rows (wDB w') = (map rowVal (dbCandidates (wDB w)) @ [cand], map rowVal (dbPlans (wDB w)) @ [plan], map rowVal (dbRuns (wDB w)) @ new) \<and>
    map (\<lambda>v. (vrTier v, jsKind (vrJobSpec v))) new = map (\<lambda>(t, j). (t, EvidenceKindForJob j)) (plan_jobs plan) \<and>
    list_all (\<lambda>v. vrState v = RunQueued \<and> vrCandidateID v = cID cand \<and> vrPlanID v = vpID plan \<and> vrTenantID v = tenant) new"
proof -
  note runs = run_for_shape [OF assms(1) [unfolded runs_for_plan_def]]
  have "distinct (map vrID runs)" using runs assms(5) by (auto simp: fresh_rows_def distinct_map intro: inj_on_subset)
  moreover have "vrID ` set runs \<inter> (\<lambda>r. vrID (rowVal r)) ` set (dbRuns (wDB w)) = {}"
  proof -
    have "set (map vrID runs) = set (map (envNewID env ''run_'') [wNonce w..<wNonce w + length (plan_jobs plan)])" using runs by simp
    then have "vrID ` set runs = envNewID env ''run_'' ` {wNonce w..<wNonce w + length (plan_jobs plan)}" by simp
    with assms(5) show ?thesis by (auto simp: fresh_rows_def)
  qed
  ultimately have "work_rows (wDB w') = (map rowVal (dbCandidates (wDB w1)) @ [cand], map rowVal (dbPlans (wDB w1)) @ [plan], map rowVal (dbRuns (wDB w1)) @ runs)"
    using runs assms(3,4) by (intro submit_rows [OF assms(2)]) (simp_all add: rows_same_def cand_ids_def)
  with runs show ?thesis by (auto simp: rows_same_def)
qed

definition queued_plan :: ValidationPlan where
  "queued_plan = one_job_plan ''val_9'' 0 \<lparr>ciCandidateID = ''cand_1'', ciIntentID = ''int_1'', ciRepo = ''acme/shop'', ciBaseSHA = [], ciHeadSHA = [],
     ciPatchRef = [], ciChangedPaths = [], ciRiskClass = RiskLow\<rparr>"

definition queued_runs :: "(EngErr + ValidationRun list) \<times> World" where
  "queued_runs = runs_for_plan light_env pr_intent sample_candidate queued_plan ''ten_1'' (world_of empty_db)"

definition queued_result :: "(EngErr + Event list) \<times> World" where
  "queued_result = SubmitCandidateTx light_env sample_candidate queued_plan (projr (fst queued_runs)) None (snd queued_runs)"

lemma queued_ok: "\<not> isl (fst queued_runs) \<and> \<not> isl (fst queued_result)"
  by code_simp

theorem submission_queues_every_job_witness:
  "map (\<lambda>r. (vrState (rowVal r), jsKind (vrJobSpec (rowVal r)))) (dbRuns (wDB (snd queued_result))) = [(RunQueued, EvidenceKindForJob ''build'')]"
proof -
  have r: "runs_for_plan light_env pr_intent sample_candidate queued_plan ''ten_1'' (world_of empty_db) = (Inr (projr (fst queued_runs)), snd queued_runs)"
    using queued_ok by (cases "fst queued_runs") (auto simp: queued_runs_def prod_eq_iff)
  have s: "SubmitCandidateTx light_env sample_candidate queued_plan (projr (fst queued_runs)) None (snd queued_runs) = (Inr (projr (fst queued_result)), snd queued_result)"
    using queued_ok by (cases "fst queued_result") (auto simp: queued_result_def prod_eq_iff)
  have "fresh_rows light_env (wNonce (world_of empty_db)) (wDB (world_of empty_db))"
    by (auto simp: fresh_rows_def light_env_def world_of_def empty_db_def inj_def)
  from submission_queues_every_job [OF r s _ _ this] obtain new where
    "work_rows (wDB (snd queued_result)) = ([sample_candidate], [queued_plan], new)"
    "map (\<lambda>v. (vrTier v, jsKind (vrJobSpec v))) new = [(0, EvidenceKindForJob ''build'')]" "list_all (\<lambda>v. vrState v = RunQueued) new"
    by (auto simp: world_of_def empty_db_def cand_ids_def plan_jobs_def queued_plan_def one_job_plan_def NewValidationPlan_def list_all_iff)
  then show ?thesis by (auto simp: work_rows_def map_eq_Cons_conv)
qed

end
