(* ===== verification/Joblease.thy ===== *)
theory Joblease
  imports Engine
begin

text \<open>
  Job-lease tokens (joblease/joblease.go and verifier.go of both services): compact EdDSA tokens the control plane mints
  per dispatched run and the fleet verifies before a worker may mutate the job (invariant I-04). Base64, JSON and Ed25519
  are parameters (\<open>JwtCodec\<close>); what the code relies on of them is \<open>codec_ok\<close>: decoding inverts encoding,
  base64url text has no dot, and a signature made with the private key verifies under the public one.
\<close>

record JwtCodec =
  b64Enc :: "string \<Rightarrow> string"
  b64Dec :: "string \<Rightarrow> string option"
  headerAlg :: "string \<Rightarrow> string option"
  marshalClaims :: "JobLeaseClaims \<Rightarrow> string"
  unmarshalClaims :: "string \<Rightarrow> JobLeaseClaims option"
  edSign :: "string \<Rightarrow> string"
  edVerify :: "string \<Rightarrow> string \<Rightarrow> bool"

definition jwtHeader :: string where
  \<open>jwtHeader = ''{"alg":"EdDSA","typ":"JWT"}''\<close>

definition signCompact :: "JwtCodec \<Rightarrow> JobLeaseClaims \<Rightarrow> string" where
  "signCompact cd claims =
    (let headerB64 = b64Enc cd jwtHeader; payloadB64 = b64Enc cd (marshalClaims cd claims);
         sig = edSign cd (headerB64 @ ''.'' @ payloadB64)
     in headerB64 @ ''.'' @ payloadB64 @ ''.'' @ b64Enc cd sig)"

definition splitCompact :: "string \<Rightarrow> (string \<times> string \<times> string) option" where
  "splitCompact token = (case strings_Split token (CHR ''.'') of [h, p, s] \<Rightarrow> Some (h, p, s) | _ \<Rightarrow> None)"

definition decodeSegment :: "JwtCodec \<Rightarrow> (string \<Rightarrow> 'a option) \<Rightarrow> string \<Rightarrow> 'a option" where
  "decodeSegment cd decode seg = (case b64Dec cd seg of None \<Rightarrow> None | Some raw \<Rightarrow> decode raw)"

text \<open>\<open>None\<close> is the opaque \<^verbatim>\<open>ErrInvalid\<close>; \<open>now\<close> is in seconds.\<close>

definition Verify_lease :: "JwtCodec \<Rightarrow> gotime \<Rightarrow> string \<Rightarrow> JobLeaseClaims option" where
  "Verify_lease cd now token =
    (case splitCompact token of None \<Rightarrow> None | Some (headerB64, payloadB64, sigB64) \<Rightarrow>
     if decodeSegment cd (headerAlg cd) headerB64 \<noteq> Some ''EdDSA'' then None
     else case b64Dec cd sigB64 of None \<Rightarrow> None | Some sig \<Rightarrow>
     if \<not> edVerify cd (headerB64 @ ''.'' @ payloadB64) sig then None
     else case decodeSegment cd (unmarshalClaims cd) payloadB64 of None \<Rightarrow> None | Some claims \<Rightarrow>
     if jlAudience claims \<noteq> Audience then None
     else if now \<ge> jlExpiresAt claims then None
     else if jlRunID claims = [] \<or> jlAttempt claims < 1 \<or>
       jlID claims \<noteq> JTIBuilds (jlRunID claims) (jlAttempt claims) (jlFenceToken claims) then None
     else Some claims)"

definition FromAuthorizationHeader :: "string \<Rightarrow> string option" where
  "FromAuthorizationHeader header =
    (if length header \<le> 7 \<or> ToLower (take 7 header) \<noteq> ToLower ''Bearer '' then None
     else let token = TrimSpace (drop 7 header) in
       if token = [] \<or> CHR '' '' \<in> set token \<or> CHR 0x09 \<in> set token then None else Some token)"

subsection \<open>Tokens identify the attempt\<close>

lemma JTIBuilds_inject [simp]: "JTIBuilds r a f = JTIBuilds r' a' f' \<longleftrightarrow> r = r' \<and> a = a' \<and> f = f'"
proof
  assume eq: "JTIBuilds r a f = JTIBuilds r' a' f'"
  then have "(r @ '':'' @ itoa a) @ CHR '':'' # itoa f = (r' @ '':'' @ itoa a') @ CHR '':'' # itoa f'"
    by (simp add: JTIBuilds_def)
  from iffD1 [OF sep_split_last [OF itoa_no_colon itoa_no_colon] this]
  have f: "f = f'" and "r @ CHR '':'' # itoa a = r' @ CHR '':'' # itoa a'" by simp_all
  from iffD1 [OF sep_split_last [OF itoa_no_colon itoa_no_colon] this(2)] f show "r = r' \<and> a = a' \<and> f = f'" by simp
qed simp

subsection \<open>Minted tokens verify\<close>

definition codec_ok :: "JwtCodec \<Rightarrow> bool" where
  "codec_ok cd \<longleftrightarrow> (\<forall>s. b64Dec cd (b64Enc cd s) = Some s) \<and> (\<forall>s. CHR ''.'' \<notin> set (b64Enc cd s)) \<and>
     headerAlg cd jwtHeader = Some ''EdDSA'' \<and> (\<forall>c. unmarshalClaims cd (marshalClaims cd c) = Some c) \<and>
     (\<forall>m. edVerify cd m (edSign cd m))"

lemma strings_Split_free: "sep \<notin> set s \<Longrightarrow> strings_Split s sep = [s]"
  by (induction s) auto

lemma strings_Split_cons: "sep \<notin> set a \<Longrightarrow> strings_Split (a @ sep # s) sep = a # strings_Split s sep"
  by (induction a) auto

lemma splitCompact_join:
  assumes "CHR ''.'' \<notin> set h" "CHR ''.'' \<notin> set p" "CHR ''.'' \<notin> set s"
  shows "splitCompact (h @ ''.'' @ p @ ''.'' @ s) = Some (h, p, s)"
  using assms by (simp add: splitCompact_def strings_Split_cons strings_Split_free)

lemma splitCompact_SomeD: "splitCompact token = Some (h, p, s) \<Longrightarrow> strings_Split token (CHR ''.'') = [h, p, s]"
  by (auto simp: splitCompact_def split: list.splits)

lemma Verify_signCompact:
  assumes "codec_ok cd"
  shows "Verify_lease cd now (signCompact cd claims) =
    (if jlAudience claims = Audience \<and> now < jlExpiresAt claims \<and> jlRunID claims \<noteq> [] \<and> 1 \<le> jlAttempt claims \<and>
        jlID claims = JTIBuilds (jlRunID claims) (jlAttempt claims) (jlFenceToken claims) then Some claims else None)"
proof -
  have dots: "CHR ''.'' \<notin> set (b64Enc cd s)" and dec: "b64Dec cd (b64Enc cd s) = Some s" for s
    using assms by (simp_all add: codec_ok_def)
  have split: "splitCompact (signCompact cd claims) = Some (b64Enc cd jwtHeader, b64Enc cd (marshalClaims cd claims),
      b64Enc cd (edSign cd (b64Enc cd jwtHeader @ ''.'' @ b64Enc cd (marshalClaims cd claims))))"
    unfolding signCompact_def Let_def by (rule splitCompact_join) (rule dots)+
  have "headerAlg cd jwtHeader = Some ''EdDSA''" "unmarshalClaims cd (marshalClaims cd claims) = Some claims"
      "edVerify cd m (edSign cd m)" for m
    using assms by (simp_all add: codec_ok_def)
  then show ?thesis
    unfolding Verify_lease_def split by (auto simp: dec decodeSegment_def)
qed

lemma Mint_Inr:
  "Mint sign claims = Inr token \<longleftrightarrow> jlExpiresAt claims - jlIssuedAt claims \<le> 3600 \<and> jlAudience claims = Audience \<and>
     jlID claims = JTIBuilds (jlRunID claims) (jlAttempt claims) (jlFenceToken claims) \<and> token = sign claims"
  by (auto simp: Mint_def)

text \<open>The lease round trip of invariant I-04. A token minted for a run with an id and an attempt of at least 1
  verifies at the fleet exactly until it expires, at most an hour after it was issued, and gives back the claims it was
  minted with. The hypothesis on the codec is decoding inverts encoding, no dot in base64url text, and signatures verify.\<close>

theorem minted_lease_verifies:
  assumes "codec_ok cd" and "Mint (signCompact cd) claims = Inr token" and "jlRunID claims \<noteq> []" and "1 \<le> jlAttempt claims"
  shows "Verify_lease cd now token = (if now < jlExpiresAt claims then Some claims else None)
    \<and> jlExpiresAt claims \<le> jlIssuedAt claims + 3600"
  using assms by (auto simp: Mint_Inr Verify_signCompact)

lemma Verify_lease_Some:
  assumes "Verify_lease cd now token = Some claims"
  shows "\<exists>h p s sig. strings_Split token (CHR ''.'') = [h, p, s] \<and> b64Dec cd s = Some sig \<and> edVerify cd (h @ ''.'' @ p) sig \<and>
    decodeSegment cd (unmarshalClaims cd) p = Some claims \<and> jlAudience claims = Audience \<and> now < jlExpiresAt claims \<and>
    jlRunID claims \<noteq> [] \<and> 1 \<le> jlAttempt claims \<and> jlID claims = JTIBuilds (jlRunID claims) (jlAttempt claims) (jlFenceToken claims)"
  using assms unfolding Verify_lease_def
  by (auto split: option.splits if_splits dest!: splitCompact_SomeD)

subsection \<open>A codec that satisfies the hypothesis\<close>

text \<open>Strings as three decimal digits per byte, claims as comma-separated fields.\<close>

definition dec3_char :: "char \<Rightarrow> string" where
  "dec3_char c = (let n = of_char c :: nat in [digit_char (n div 100), digit_char (n div 10 mod 10), digit_char (n mod 10)])"

definition dec3 :: "string \<Rightarrow> string" where
  "dec3 s = concat (map dec3_char s)"

fun undec3 :: "string \<Rightarrow> string" where
  "undec3 (a # b # c # s) = char_of (read_nat [a, b, c]) # undec3 s"
| "undec3 _ = []"

lemma three_digits:
  fixes n :: nat
  assumes "n < 256"
  shows "n div 100 < 10" and "(n div 100 * 10 + n div 10 mod 10) * 10 + n mod 10 = n"
proof -
  show "n div 100 < 10" using assms by (simp add: less_mult_imp_div_less)
  have "n div 100 = n div 10 div 10" by (simp add: div_mult2_eq [symmetric])
  then show "(n div 100 * 10 + n div 10 mod 10) * 10 + n mod 10 = n" by (simp add: div_mult_mod_eq)
qed

lemma undec3_dec3: "undec3 (dec3 s) = s"
proof (induction s)
  case (Cons c s)
  let ?n = "of_char c :: nat"
  note digits = three_digits [OF nat_of_char_less_256 [of c]]
  have "read_nat (dec3_char c) = ?n"
    using digits by (simp only: dec3_char_def Let_def read_nat_def foldl.simps) (simp add: of_char_digit)
  with Cons show ?case by (simp add: dec3_def dec3_char_def Let_def)
qed (simp add: dec3_def)

lemma dec3_digits: "c \<in> set (dec3 s) \<Longrightarrow> is_digit c"
proof -
  assume "c \<in> set (dec3 s)"
  then obtain x where "c \<in> set (dec3_char x)" by (auto simp: dec3_def)
  moreover have "(of_char x :: nat) div 100 < 10" by (rule three_digits) simp
  ultimately show "is_digit c" by (auto simp: dec3_char_def Let_def intro: is_digit_digit_char)
qed

lemma dec3_free: "\<not> is_digit c \<Longrightarrow> c \<notin> set (dec3 s)"
  using dec3_digits by blast

definition read_int :: "string \<Rightarrow> int" where
  "read_int s = (case s of c # ds \<Rightarrow> if c = CHR ''-'' then - int (read_nat ds) else int (read_nat s) | [] \<Rightarrow> 0)"

lemma read_itoa: "read_int (itoa i) = i"
proof (cases "i < 0")
  case True
  then show ?thesis by (simp add: itoa_def read_int_def read_dec_nat)
next
  case False
  obtain c ds where cds: "dec_nat (nat i) = c # ds" by (cases "dec_nat (nat i)") simp_all
  then have "c \<noteq> CHR ''-''" using dec_nat_hd_not_minus [of "nat i" ds] by auto
  with False cds read_dec_nat [of "nat i"] show ?thesis by (simp add: itoa_def read_int_def)
qed

definition sample_marshal :: "JobLeaseClaims \<Rightarrow> string" where
  "sample_marshal c = dec3 (jlAudience c) @ '','' @ dec3 (jlID c) @ '','' @ dec3 (jlRunID c) @ '','' @ itoa (jlAttempt c) @ '','' @
     itoa (jlFenceToken c) @ '','' @ dec3 (jlRepo c) @ '','' @ itoa (jlTier c) @ '','' @ itoa (jlIssuedAt c) @ '','' @ itoa (jlExpiresAt c)"

definition sample_unmarshal :: "string \<Rightarrow> JobLeaseClaims option" where
  "sample_unmarshal s = (case strings_Split s (CHR '','') of
     [au, jti, rid, att, fen, repo, tier, iat, ex] \<Rightarrow> Some \<lparr>jlAudience = undec3 au, jlID = undec3 jti, jlRunID = undec3 rid,
       jlAttempt = read_int att, jlFenceToken = read_int fen, jlRepo = undec3 repo, jlTier = read_int tier, jlIssuedAt = read_int iat,
       jlExpiresAt = read_int ex\<rparr>
   | _ \<Rightarrow> None)"

definition sample_codec :: JwtCodec where
  "sample_codec = \<lparr>b64Enc = dec3, b64Dec = (\<lambda>s. Some (undec3 s)), headerAlg = (\<lambda>_. Some ''EdDSA''), marshalClaims = sample_marshal,
     unmarshalClaims = sample_unmarshal, edSign = (\<lambda>m. ''key'' @ m), edVerify = (\<lambda>m sig. sig = ''key'' @ m)\<rparr>"

lemma sample_codec_ok: "codec_ok sample_codec"
proof -
  have comma: "CHR '','' \<notin> set (dec3 s)" "CHR '','' \<notin> set (itoa i)" for s i
    by (rule dec3_free, simp add: is_digit_def) (rule itoa_free, simp_all add: is_digit_def)
  have "sample_unmarshal (sample_marshal c) = Some c" for c
    by (simp add: sample_unmarshal_def sample_marshal_def strings_Split_cons strings_Split_free comma undec3_dec3 read_itoa)
  moreover have "CHR ''.'' \<notin> set (dec3 s)" for s by (rule dec3_free) (simp add: is_digit_def)
  ultimately show ?thesis by (simp add: codec_ok_def sample_codec_def undec3_dec3)
qed

definition sample_claims :: JobLeaseClaims where
  "sample_claims = \<lparr>jlAudience = Audience, jlID = JTIBuilds ''run_9'' 1 1, jlRunID = ''run_9'', jlAttempt = 1, jlFenceToken = 1,
     jlRepo = ''acme/shop'', jlTier = 0, jlIssuedAt = 7200, jlExpiresAt = 10800\<rparr>"

theorem minted_lease_verifies_witness:
  "Verify_lease sample_codec 9000 (signCompact sample_codec sample_claims) = Some sample_claims"
proof -
  have "Mint (signCompact sample_codec) sample_claims = Inr (signCompact sample_codec sample_claims)"
    by (simp add: Mint_Inr sample_claims_def)
  from minted_lease_verifies [OF sample_codec_ok this, of 9000] show ?thesis by (simp add: sample_claims_def)
qed

end
