(* ===== verification/Secaudit.thy ===== *)
theory Secaudit
  imports Prelude "HOL-Library.Sublist"
begin

text \<open>
  The security-audit stream of the control plane (audit/event.go, encode.go, stream.go): handlers emit events without
  waiting, a worker hands them to the sink one at a time, and a full buffer sheds its oldest event. The stream is a record
  of the fields of the Go struct with the event in the hands of the worker, every critical section under the mutex is one
  step, and the hooks are the two counters the server wires them to.
\<close>

record SecEvent =
  seID :: string
  seTenantID :: string
  seKind :: string
  seActorKind :: string
  seActorID :: string
  seSubject :: string
  seDetail :: string

definition KindAuthzRejected :: string where "KindAuthzRejected = ''authz_rejected''"

definition KindAuthnAccepted :: string where "KindAuthnAccepted = ''authn_accepted''"

text \<open>\<^verbatim>\<open>json.Marshal\<close> of an object is a parameter, \<open>None\<close> its error.\<close>

definition marshalObject :: "((string \<times> string) list \<Rightarrow> string option) \<Rightarrow> (string \<times> string) list \<Rightarrow> string option" where
  "marshalObject marshal m = (if m = [] then Some ''{}'' else marshal m)"

definition New_SecEvent :: "((string \<times> string) list \<Rightarrow> string option) \<Rightarrow> string \<Rightarrow> string \<Rightarrow> string \<Rightarrow> string \<times> string \<Rightarrow>
    (string \<times> string) list \<Rightarrow> (string \<times> string) list \<Rightarrow> SecEvent option" where
  "New_SecEvent marshal ident tenantID kind act subject detail =
    (case marshalObject marshal subject of None \<Rightarrow> None | Some subj \<Rightarrow>
     case marshalObject marshal detail of None \<Rightarrow> None | Some det \<Rightarrow>
       Some \<lparr>seID = ident, seTenantID = tenantID, seKind = kind, seActorKind = fst act, seActorID = snd act, seSubject = subj, seDetail = det\<rparr>)"

record Stream =
  stCapacity :: int
  stBuf :: "SecEvent list"
  stStopped :: bool
  stDropped :: "string \<Rightarrow> int"
  stInHand :: "SecEvent option"
  stDone :: bool
  stOnEmitted :: "string \<Rightarrow> int"
  stOnDropped :: "string \<Rightarrow> int"

definition DefaultCapacity :: int where "DefaultCapacity = 1024"

definition NewStream :: "int \<Rightarrow> Stream" where
  "NewStream capacity = \<lparr>stCapacity = (if capacity \<le> 0 then DefaultCapacity else capacity), stBuf = [], stStopped = False,
     stDropped = (\<lambda>_. 0), stInHand = None, stDone = False, stOnEmitted = (\<lambda>_. 0), stOnDropped = (\<lambda>_. 0)\<rparr>"

definition notifyEmit :: "string \<Rightarrow> Stream \<Rightarrow> Stream" where
  "notifyEmit kind s = s\<lparr>stOnEmitted := (stOnEmitted s)(kind := stOnEmitted s kind + 1)\<rparr>"

definition notifyDrop :: "string \<Rightarrow> Stream \<Rightarrow> Stream" where
  "notifyDrop kind s = s\<lparr>stOnDropped := (stOnDropped s)(kind := stOnDropped s kind + 1)\<rparr>"

definition count_drop :: "string \<Rightarrow> Stream \<Rightarrow> Stream" where
  "count_drop kind s = s\<lparr>stDropped := (stDropped s)(kind := stDropped s kind + 1)\<rparr>"

definition stream_full :: "Stream \<Rightarrow> bool" where
  "stream_full s \<longleftrightarrow> stCapacity s \<le> int (length (stBuf s))"

definition Emit :: "SecEvent \<Rightarrow> Stream \<Rightarrow> Stream" where
  "Emit ev s =
    (if stStopped s then s
     else if stream_full s then
       let shed = hd (stBuf s); s1 = count_drop (seKind shed) s\<lparr>stBuf := tl (stBuf s) @ [ev]\<rparr> in
       if seKind shed \<noteq> [] then notifyDrop (seKind shed) s1 else s1
     else s\<lparr>stBuf := stBuf s @ [ev]\<rparr>)"

definition CountDirect :: "SecEvent \<Rightarrow> Stream \<Rightarrow> Stream" where
  "CountDirect ev s = notifyEmit (seKind ev) s"

text \<open>The first half of \<^verbatim>\<open>Stop\<close>; the second waits for \<open>stDone\<close>.\<close>

definition Stop_stream :: "Stream \<Rightarrow> Stream" where
  "Stop_stream s = s\<lparr>stStopped := True\<rparr>"

text \<open>The worker: it waits, leaves, or takes the oldest event; then it gives the event to the sink.\<close>

definition worker_take :: "Stream \<Rightarrow> Stream" where
  "worker_take s =
    (if stDone s \<or> stInHand s \<noteq> None then s
     else case stBuf s of
       [] \<Rightarrow> if stStopped s then s\<lparr>stDone := True\<rparr> else s
     | ev # rest \<Rightarrow> s\<lparr>stBuf := rest, stInHand := Some ev\<rparr>)"

definition worker_sink :: "bool \<Rightarrow> Stream \<Rightarrow> Stream" where
  "worker_sink ok s = (case stInHand s of None \<Rightarrow> s | Some ev \<Rightarrow>
     if ok then notifyEmit (seKind ev) (s\<lparr>stInHand := None\<rparr>)
     else notifyDrop (seKind ev) (count_drop (seKind ev) (s\<lparr>stInHand := None\<rparr>)))"

definition DroppedSnapshot :: "Stream \<Rightarrow> string \<Rightarrow> int" where
  "DroppedSnapshot s = stDropped s"

lemmas stream_defs = Emit_def CountDirect_def Stop_stream_def worker_take_def worker_sink_def notifyEmit_def notifyDrop_def count_drop_def Let_def

subsection \<open>The stream with its history\<close>

text \<open>What was accepted by \<^verbatim>\<open>Emit\<close>, what the sink took and what was given up, beside the stream.\<close>

record StreamRun =
  srStream :: Stream
  srAccepted :: "SecEvent list"
  srSunk :: "SecEvent list"
  srLost :: "SecEvent list"

definition run_emit :: "SecEvent \<Rightarrow> StreamRun \<Rightarrow> StreamRun" where
  "run_emit ev r = (let s = srStream r in r\<lparr>srStream := Emit ev s,
     srAccepted := srAccepted r @ (if stStopped s then [] else [ev]),
     srLost := srLost r @ (if \<not> stStopped s \<and> stream_full s then [hd (stBuf s)] else [])\<rparr>)"

definition run_sink :: "bool \<Rightarrow> StreamRun \<Rightarrow> StreamRun" where
  "run_sink ok r = (let s = srStream r; hand = (case stInHand s of None \<Rightarrow> [] | Some ev \<Rightarrow> [ev]) in
     r\<lparr>srStream := worker_sink ok s, srSunk := srSunk r @ (if ok then hand else []), srLost := srLost r @ (if ok then [] else hand)\<rparr>)"

definition run_start :: "int \<Rightarrow> StreamRun" where
  "run_start capacity = \<lparr>srStream = NewStream capacity, srAccepted = [], srSunk = [], srLost = []\<rparr>"

inductive stream_step :: "StreamRun \<Rightarrow> StreamRun \<Rightarrow> bool" where
  ss_emit: "stream_step r (run_emit ev r)"
| ss_direct: "stream_step r (r\<lparr>srStream := CountDirect ev (srStream r)\<rparr>)"
| ss_take: "stream_step r (r\<lparr>srStream := worker_take (srStream r)\<rparr>)"
| ss_sink: "stream_step r (run_sink ok r)"
| ss_stop: "stream_step r (r\<lparr>srStream := Stop_stream (srStream r)\<rparr>)"

definition in_stream :: "Stream \<Rightarrow> SecEvent list" where
  "in_stream s = (case stInHand s of None \<Rightarrow> [] | Some ev \<Rightarrow> [ev]) @ stBuf s"

definition stream_inv :: "StreamRun \<Rightarrow> bool" where
  "stream_inv r \<longleftrightarrow> (let s = srStream r in 0 < stCapacity s \<and> int (length (stBuf s)) \<le> stCapacity s \<and>
     mset (srAccepted r) = mset (srSunk r) + mset (srLost r) + mset (in_stream s) \<and>
     subseq (srSunk r @ in_stream s) (srAccepted r) \<and>
     (\<forall>k. stDropped s k = int (length (filter (\<lambda>e. seKind e = k) (srLost r)))) \<and>
     (stDone s \<longrightarrow> stStopped s \<and> in_stream s = []))"

lemma subseq_drop_middle: "subseq (a @ x # b) c \<Longrightarrow> subseq (a @ b) c"
  by (rule subseq_order.trans [of _ "a @ x # b"]) (simp_all add: subseq_append' list_emb_Cons)

lemma stream_invD:
  assumes "stream_inv r"
  shows "0 < stCapacity (srStream r)" and "int (length (stBuf (srStream r))) \<le> stCapacity (srStream r)"
    and "mset (srAccepted r) = mset (srSunk r) + mset (srLost r) + mset (in_stream (srStream r))"
    and "subseq (srSunk r @ in_stream (srStream r)) (srAccepted r)"
    and "stDropped (srStream r) k = int (length (filter (\<lambda>e. seKind e = k) (srLost r)))"
    and "stDone (srStream r) \<Longrightarrow> stStopped (srStream r) \<and> in_stream (srStream r) = []"
  using assms by (simp_all add: stream_inv_def Let_def)

lemma stream_invI:
  assumes "stream_inv r" and "stCapacity (srStream r') = stCapacity (srStream r)" and "int (length (stBuf (srStream r'))) \<le> stCapacity (srStream r)"
    and "mset (srAccepted r') = mset (srSunk r') + mset (srLost r') + mset (in_stream (srStream r'))"
    and "subseq (srSunk r' @ in_stream (srStream r')) (srAccepted r')"
    and "\<And>k. stDropped (srStream r') k = int (length (filter (\<lambda>e. seKind e = k) (srLost r')))"
    and "stDone (srStream r') \<Longrightarrow> stStopped (srStream r') \<and> in_stream (srStream r') = []"
  shows "stream_inv r'"
  using assms by (simp add: stream_inv_def Let_def)

lemma Emit_effect:
  assumes "stream_inv r" and "\<not> stStopped (srStream r)"
  defines "s \<equiv> srStream r" and "shed \<equiv> (if stream_full (srStream r) then [hd (stBuf (srStream r))] else [])"
  shows "stBuf s = shed @ drop (length shed) (stBuf s)" and "stBuf (Emit ev s) = drop (length shed) (stBuf s) @ [ev]"
    and "stInHand (Emit ev s) = stInHand s" and "stCapacity (Emit ev s) = stCapacity s" and "stDone (Emit ev s) = stDone s"
    and "stStopped (Emit ev s) = stStopped s" and "stDropped (Emit ev s) k = stDropped s k + int (length (filter (\<lambda>e. seKind e = k) shed))"
proof -
  have "stream_full s \<Longrightarrow> stBuf s \<noteq> []" using stream_invD(1) [OF assms(1)] by (auto simp: stream_full_def s_def)
  then show "stBuf s = shed @ drop (length shed) (stBuf s)" "stBuf (Emit ev s) = drop (length shed) (stBuf s) @ [ev]"
    using assms(2) by (auto simp: shed_def s_def Emit_def Let_def count_drop_def notifyDrop_def drop_Suc)
qed (use assms(2) in \<open>simp_all add: shed_def s_def Emit_def Let_def count_drop_def notifyDrop_def\<close>)

lemma stream_inv_emit: "stream_inv r \<Longrightarrow> stream_inv (run_emit ev r)"
proof (cases "stStopped (srStream r)")
  case False
  assume inv: "stream_inv r"
  define shed where "shed = (if stream_full (srStream r) then [hd (stBuf (srStream r))] else [])"
  define rest where "rest = drop (length shed) (stBuf (srStream r))"
  define hand where "hand = (case stInHand (srStream r) of None \<Rightarrow> [] | Some ev \<Rightarrow> [ev])"
  note eff = Emit_effect [OF inv False, folded shed_def, folded rest_def]
  have sub: "subseq (srSunk r @ hand @ shed @ rest) (srAccepted r)"
    using stream_invD(4) [OF inv] eff(1) by (simp add: in_stream_def hand_def)
  then have "subseq ((srSunk r @ hand) @ rest) (srAccepted r)"
    by (cases "stream_full (srStream r)") (simp_all add: shed_def subseq_drop_middle [of "srSunk r @ hand", simplified])
  then have sub': "subseq (((srSunk r @ hand) @ rest) @ [ev]) (srAccepted r @ [ev])" by (intro list_emb_append_mono) simp_all
  have buf: "length (stBuf (srStream r)) = length shed + length rest" by (subst eff(1)) simp
  have r: "srStream (run_emit ev r) = Emit ev (srStream r)" "srAccepted (run_emit ev r) = srAccepted r @ [ev]" "srSunk (run_emit ev r) = srSunk r"
    "srLost (run_emit ev r) = srLost r @ shed"
    using False by (simp_all add: run_emit_def Let_def shed_def)
  have inside: "in_stream (Emit ev (srStream r)) = hand @ rest @ [ev]" by (simp add: in_stream_def eff hand_def)
  have old: "in_stream (srStream r) = hand @ shed @ rest" using eff(1) by (simp add: in_stream_def hand_def)
  show ?thesis
  proof (rule stream_invI [OF inv], unfold r inside eff)
    show "int (length (rest @ [ev])) \<le> stCapacity (srStream r)"
      using buf stream_invD(2) [OF inv] by (auto simp: shed_def stream_full_def split: if_splits)
    show "mset (srAccepted r @ [ev]) = mset (srSunk r) + mset (srLost r @ shed) + mset (hand @ rest @ [ev])"
      using stream_invD(3) [OF inv] by (simp add: old)
    show "subseq (srSunk r @ hand @ rest @ [ev]) (srAccepted r @ [ev])" using sub' by simp
    show "stDropped (srStream r) k + int (length (filter (\<lambda>e. seKind e = k) shed)) = int (length (filter (\<lambda>e. seKind e = k) (srLost r @ shed)))" for k
      using stream_invD(5) [OF inv, of k] by simp
    show "stDone (srStream r) \<Longrightarrow> stStopped (srStream r) \<and> hand @ rest @ [ev] = []" using stream_invD(6) [OF inv] False by simp
  qed simp
qed (simp add: stream_inv_def run_emit_def Emit_def Let_def)

lemma stream_inv_sink: "stream_inv r \<Longrightarrow> stream_inv (run_sink ok r)"
proof (cases "stInHand (srStream r)")
  case (Some ev)
  assume inv: "stream_inv r"
  have old: "in_stream (srStream r) = ev # stBuf (srStream r)" by (simp add: in_stream_def Some)
  have r: "in_stream (srStream (run_sink ok r)) = stBuf (srStream r)" "srAccepted (run_sink ok r) = srAccepted r"
    "srSunk (run_sink ok r) = srSunk r @ (if ok then [ev] else [])" "srLost (run_sink ok r) = srLost r @ (if ok then [] else [ev])"
    "stCapacity (srStream (run_sink ok r)) = stCapacity (srStream r)" "stBuf (srStream (run_sink ok r)) = stBuf (srStream r)"
    "stDone (srStream (run_sink ok r)) = stDone (srStream r)"
    using Some by (simp_all add: run_sink_def worker_sink_def Let_def in_stream_def count_drop_def notifyDrop_def notifyEmit_def)
  have drops: "stDropped (srStream (run_sink ok r)) k = stDropped (srStream r) k + (if \<not> ok \<and> seKind ev = k then 1 else 0)" for k
    using Some by (simp add: run_sink_def worker_sink_def Let_def count_drop_def notifyDrop_def notifyEmit_def)
  show ?thesis
  proof (rule stream_invI [OF inv], unfold r drops)
    show "mset (srAccepted r) = mset (srSunk r @ (if ok then [ev] else [])) + mset (srLost r @ (if ok then [] else [ev])) + mset (stBuf (srStream r))"
      using stream_invD(3) [OF inv] by (simp add: old)
    show "subseq ((srSunk r @ (if ok then [ev] else [])) @ stBuf (srStream r)) (srAccepted r)"
      using stream_invD(4) [OF inv] subseq_drop_middle [of "srSunk r" ev] by (simp add: old)
    show "stDropped (srStream r) k + (if \<not> ok \<and> seKind ev = k then 1 else 0) = int (length (filter (\<lambda>e. seKind e = k) (srLost r @ (if ok then [] else [ev]))))" for k
      using stream_invD(5) [OF inv, of k] by simp
  qed (use stream_invD(2,6) [OF inv] old in simp_all)
qed (simp add: stream_inv_def run_sink_def worker_sink_def Let_def in_stream_def)

lemma stream_inv_take: "stream_inv r \<Longrightarrow> stream_inv (r\<lparr>srStream := worker_take (srStream r)\<rparr>)"
  by (auto simp: stream_inv_def worker_take_def Let_def in_stream_def split: list.splits option.splits)

lemma stream_step_inv: "stream_step r r' \<Longrightarrow> stream_inv r \<Longrightarrow> stream_inv r'"
proof (induction rule: stream_step.induct)
  case (ss_direct r ev)
  then show ?case by (simp add: stream_inv_def CountDirect_def notifyEmit_def Let_def in_stream_def)
next
  case (ss_stop r)
  then show ?case by (simp add: stream_inv_def Stop_stream_def Let_def in_stream_def)
qed (simp_all add: stream_inv_emit stream_inv_sink stream_inv_take)

lemma stream_inv_start: "stream_inv (run_start capacity)"
  by (simp add: stream_inv_def run_start_def NewStream_def DefaultCapacity_def in_stream_def Let_def)

lemma stream_reach_inv: "stream_step\<^sup>*\<^sup>* (run_start capacity) r \<Longrightarrow> stream_inv r"
  by (induction rule: rtranclp_induct) (auto intro: stream_step_inv stream_inv_start)

text \<open>C15: The audit stream accounts for every event. However handlers, worker and shutdown interleave, the buffer stays within
  its capacity; every accepted event was taken by the sink, or was given up and counted under its kind, or is still in the
  stream; and the sink gets the events in the order they were emitted.\<close>

theorem audit_stream_accounts:
  assumes "stream_step\<^sup>*\<^sup>* (run_start capacity) r"
  shows "int (length (stBuf (srStream r))) \<le> stCapacity (srStream r) \<and>
    mset (srAccepted r) = mset (srSunk r) + mset (srLost r) + mset (in_stream (srStream r)) \<and>
    subseq (srSunk r @ in_stream (srStream r)) (srAccepted r) \<and>
    (\<forall>k. DroppedSnapshot (srStream r) k = int (length (filter (\<lambda>e. seKind e = k) (srLost r))))"
  using stream_reach_inv [OF assms] by (simp add: stream_inv_def Let_def DroppedSnapshot_def)

subsection \<open>Shutdown\<close>

text \<open>The loop of the worker once \<^verbatim>\<open>Stop\<close> was called, over what the sink answers.\<close>

fun worker_run :: "bool list \<Rightarrow> StreamRun \<Rightarrow> StreamRun" where
  "worker_run [] r = r"
| "worker_run (ok # oks) r = worker_run oks (run_sink ok (r\<lparr>srStream := worker_take (srStream r)\<rparr>))"

lemma worker_run_done: "stDone (srStream r) \<Longrightarrow> stInHand (srStream r) = None \<Longrightarrow> worker_run oks r = r"
proof (induction oks)
  case (Cons ok oks)
  then have "run_sink ok (r\<lparr>srStream := worker_take (srStream r)\<rparr>) = r" by (simp add: run_sink_def worker_take_def worker_sink_def Let_def)
  with Cons show ?case by simp
qed simp

lemma worker_run_reach: "stream_step\<^sup>*\<^sup>* r (worker_run oks r)"
proof (induction oks arbitrary: r)
  case (Cons ok oks)
  have "stream_step\<^sup>*\<^sup>* r (run_sink ok (r\<lparr>srStream := worker_take (srStream r)\<rparr>))"
    by (rule rtranclp.rtrancl_into_rtrancl [OF r_into_rtranclp [of stream_step, OF ss_take] ss_sink])
  with Cons show ?case by (simp add: rtranclp_trans)
qed simp

lemma worker_run_drains:
  assumes "stStopped (srStream r)" and "stInHand (srStream r) = None" and "\<not> stDone (srStream r)" and "length (stBuf (srStream r)) < length oks"
  shows "stDone (srStream (worker_run oks r)) \<and> in_stream (srStream (worker_run oks r)) = [] \<and>
    srSunk (worker_run oks r) = srSunk r @ map fst (filter snd (zip (stBuf (srStream r)) oks)) \<and> srAccepted (worker_run oks r) = srAccepted r"
  using assms
proof (induction oks arbitrary: r)
  case (Cons ok oks)
  let ?r = "run_sink ok (r\<lparr>srStream := worker_take (srStream r)\<rparr>)"
  show ?case
  proof (cases "stBuf (srStream r)")
    case Nil
    then have r: "stDone (srStream ?r)" "stInHand (srStream ?r) = None" "stBuf (srStream ?r) = []" "srSunk ?r = srSunk r" "srAccepted ?r = srAccepted r"
      using Cons.prems by (simp_all add: run_sink_def worker_take_def worker_sink_def Let_def)
    then show ?thesis using Nil by (simp add: worker_run_done in_stream_def)
  next
    case buf: (Cons ev rest)
    then have r: "stStopped (srStream ?r)" "stInHand (srStream ?r) = None" "\<not> stDone (srStream ?r)" "stBuf (srStream ?r) = rest"
      "srSunk ?r = srSunk r @ (if ok then [ev] else [])" "srAccepted ?r = srAccepted r"
      using Cons.prems buf by (simp_all add: run_sink_def worker_take_def worker_sink_def Let_def notifyEmit_def notifyDrop_def count_drop_def)
    with Cons.IH [of ?r] Cons.prems buf show ?thesis by simp
  qed
qed simp

text \<open>A stopped stream is flushed. Once \<^verbatim>\<open>Stop\<close> was called and the worker is between two events, one pass per buffered
  event and one more ends the worker with nothing left in the stream; the sink got, in order, the buffered events it accepted,
  and every event ever accepted by the stream was stored or is counted as dropped under its kind.\<close>

theorem stopped_stream_flushes:
  assumes "stream_step\<^sup>*\<^sup>* (run_start capacity) r" and "stStopped (srStream r)" and "stInHand (srStream r) = None" and "\<not> stDone (srStream r)"
    and "length (stBuf (srStream r)) < length oks"
  shows "stDone (srStream (worker_run oks r)) \<and>
    srSunk (worker_run oks r) = srSunk r @ map fst (filter snd (zip (stBuf (srStream r)) oks)) \<and>
    (\<forall>k. int (length (filter (\<lambda>e. seKind e = k) (srAccepted r))) =
       int (length (filter (\<lambda>e. seKind e = k) (srSunk (worker_run oks r)))) + DroppedSnapshot (srStream (worker_run oks r)) k)"
proof -
  note fin = worker_run_drains [OF assms(2-5)]
  have inv: "stream_inv (worker_run oks r)" using worker_run_reach [of r oks] assms(1) by (intro stream_reach_inv) (rule rtranclp_trans)
  have "mset (srAccepted r) = mset (srSunk (worker_run oks r)) + mset (srLost (worker_run oks r))"
    using stream_invD(3) [OF inv] fin by simp
  then have "size (filter_mset (\<lambda>e. seKind e = k) (mset (srAccepted r))) =
      size (filter_mset (\<lambda>e. seKind e = k) (mset (srSunk (worker_run oks r)))) + size (filter_mset (\<lambda>e. seKind e = k) (mset (srLost (worker_run oks r))))" for k
    by simp
  then have "length (filter (\<lambda>e. seKind e = k) (srAccepted r)) =
      length (filter (\<lambda>e. seKind e = k) (srSunk (worker_run oks r))) + length (filter (\<lambda>e. seKind e = k) (srLost (worker_run oks r)))" for k
    by (simp only: size_mset mset_filter [symmetric])
  then show ?thesis using fin stream_invD(5) [OF inv] by (simp add: DroppedSnapshot_def)
qed

subsection \<open>A flooded stream\<close>

definition sample_sec :: "string \<Rightarrow> SecEvent" where
  "sample_sec ident = \<lparr>seID = ident, seTenantID = ''org_1'', seKind = KindAuthzRejected, seActorKind = ''anonymous'', seActorID = [], seSubject = ''{}'', seDetail = ''{}''\<rparr>"

definition flooded :: StreamRun where
  "flooded = (let r = fold (\<lambda>i. run_emit (sample_sec i)) [''1'', ''2'', ''3''] (run_start 2) in r\<lparr>srStream := Stop_stream (srStream r)\<rparr>)"

lemma flooded_reach: "stream_step\<^sup>*\<^sup>* (run_start 2) flooded"
proof -
  have emit: "stream_step\<^sup>*\<^sup>* (run_start 2) (run_emit ev r)" if "stream_step\<^sup>*\<^sup>* (run_start 2) r" for ev r
    using that ss_emit by (rule rtranclp.rtrancl_into_rtrancl)
  have "stream_step\<^sup>*\<^sup>* (run_start 2) (run_emit (sample_sec ''3'') (run_emit (sample_sec ''2'') (run_emit (sample_sec ''1'') (run_start 2))))"
    by (intro emit rtranclp.rtrancl_refl)
  then show ?thesis unfolding flooded_def Let_def using ss_stop by (simp add: rtranclp.rtrancl_into_rtrancl)
qed

lemma flooded_state:
  "stBuf (srStream flooded) = [sample_sec ''2'', sample_sec ''3'']" "srSunk flooded = []" "srAccepted flooded = map sample_sec [''1'', ''2'', ''3'']"
  "srLost flooded = [sample_sec ''1'']" "stStopped (srStream flooded)" "stInHand (srStream flooded) = None" "\<not> stDone (srStream flooded)" "stCapacity (srStream flooded) = 2"
  "stDropped (srStream flooded) KindAuthzRejected = 1"
  by code_simp+

theorem audit_stream_accounts_witness:
  "subseq (srSunk flooded @ in_stream (srStream flooded)) (srAccepted flooded) \<and> DroppedSnapshot (srStream flooded) KindAuthzRejected = 1"
  using audit_stream_accounts [OF flooded_reach] by (simp add: flooded_state sample_sec_def)

theorem stopped_stream_flushes_witness:
  "stDone (srStream (worker_run [True, False, True] flooded)) \<and> srSunk (worker_run [True, False, True] flooded) = [sample_sec ''2'']"
  using stopped_stream_flushes [OF flooded_reach, of "[True, False, True]"] by (simp add: flooded_state)

end
