(* ===== verification/Session.thy ===== *)
theory Session
  imports Submission Joblease Secaudit
begin

text \<open>
  Accounts and sessions of the control plane (authusers/password.go, authusers/session.go, store/users.go, api/auth.go,
  api/auth\_handler.go, api/auth\_session.go): sign-up and sign-in with e-mail and password, the session token a sign-in is
  answered with, and the two bearer checks. Argon2, base64, JSON and Ed25519 are parameters; random bytes and the clock are
  arguments. Case folding and trimming are those of ASCII, as in the rest of the library.
\<close>

subsection \<open>Passwords (authusers/password.go)\<close>

record Kdf =
  kdIDKey :: "string \<Rightarrow> string \<Rightarrow> int \<Rightarrow> int \<Rightarrow> int \<Rightarrow> int \<Rightarrow> string"
  kdB64Enc :: "string \<Rightarrow> string"
  kdB64Dec :: "string \<Rightarrow> string option"

definition argonVersion :: int where "argonVersion = 19"
definition argonMemoryKiB :: int where "argonMemoryKiB = 64 * 1024"
definition argonTime :: int where "argonTime = 3"
definition argonThreads :: int where "argonThreads = 1"
definition argonKeyLen :: int where "argonKeyLen = 32"
definition MinPasswordLen :: int where "MinPasswordLen = 10"

datatype PwErr = WeakPasswordError string | SaltErr

fun PwErr_Error :: "PwErr \<Rightarrow> string" where
  "PwErr_Error (WeakPasswordError reason) = ''weak_password: '' @ reason"
| "PwErr_Error SaltErr = ''authusers: salt''"

definition HashPassword :: "Kdf \<Rightarrow> string option \<Rightarrow> string \<Rightarrow> PwErr + string" where
  "HashPassword kd salt password =
    (if int (length password) < MinPasswordLen then Inl (WeakPasswordError (''password must be at least '' @ itoa MinPasswordLen @ '' characters''))
     else if TrimSpace password = [] then Inl (WeakPasswordError ''password must contain non-whitespace characters'')
     else case salt of None \<Rightarrow> Inl SaltErr | Some salt \<Rightarrow>
       let key = kdIDKey kd password salt argonTime argonMemoryKiB argonThreads argonKeyLen in
       Inr (''$argon2id$v='' @ itoa argonVersion @ ''$m='' @ itoa argonMemoryKiB @ '',t='' @ itoa argonTime @ '',p='' @ itoa argonThreads @
         ''$'' @ kdB64Enc kd salt @ ''$'' @ kdB64Enc kd key))"

text \<open>\<^verbatim>\<open>fmt.Sscanf\<close> as it is used here: literal text, and \<^verbatim>\<open>%d\<close> into a \<^verbatim>\<open>uint32\<close>, which skips spaces but no line
  break, needs a digit and refuses a value of more than 32 bits. What follows the last verb is not looked at.\<close>

definition scan_literal :: "string \<Rightarrow> string \<Rightarrow> string option" where
  "scan_literal lit s = (if has_prefix s lit then Some (drop (length lit) s) else None)"

definition scan_uint32 :: "string \<Rightarrow> (int \<times> string) option" where
  "scan_uint32 s = (let r = dropWhile is_space s; ds = takeWhile is_digit r in
     if CHR 0x0A \<in> set (takeWhile is_space s) \<or> ds = [] \<or> 2 ^ 32 \<le> read_nat ds then None
     else Some (int (read_nat ds), dropWhile is_digit r))"

definition parseParams :: "string \<Rightarrow> (int \<times> int \<times> int) option" where
  "parseParams field =
    (case Option.bind (scan_literal ''m='' field) scan_uint32 of None \<Rightarrow> None | Some (memory, s1) \<Rightarrow>
     case Option.bind (scan_literal '',t='' s1) scan_uint32 of None \<Rightarrow> None | Some (timeParam, s2) \<Rightarrow>
     case Option.bind (scan_literal '',p='' s2) scan_uint32 of None \<Rightarrow> None | Some (threads, _) \<Rightarrow>
     if memory = 0 \<or> timeParam = 0 \<or> threads = 0 then None else Some (memory, timeParam, threads))"

definition VerifyPassword :: "Kdf \<Rightarrow> string \<Rightarrow> string \<Rightarrow> bool" where
  "VerifyPassword kd password encoded =
    (case strings_Split encoded (CHR ''$'') of
       [_, alg, version, params, saltB64, keyB64] \<Rightarrow>
         if alg \<noteq> ''argon2id'' then False
         else case Option.bind (scan_literal ''v='' version) scan_uint32 of None \<Rightarrow> False | Some (v, _) \<Rightarrow>
         if v \<noteq> argonVersion then False
         else if parseParams params \<noteq> Some (argonMemoryKiB, argonTime, argonThreads) then False
         else case kdB64Dec kd saltB64 of None \<Rightarrow> False | Some salt \<Rightarrow>
         if salt = [] then False
         else case kdB64Dec kd keyB64 of None \<Rightarrow> False | Some want \<Rightarrow>
         if int (length want) \<noteq> argonKeyLen then False
         else kdIDKey kd password salt argonTime argonMemoryKiB argonThreads (int (length want)) = want
     | _ \<Rightarrow> False)"

text \<open>What is relied on: unpadded base64 is inverted by its decoder and has no dollar sign, and the key has the length asked for.\<close>

definition kdf_ok :: "Kdf \<Rightarrow> bool" where
  "kdf_ok kd \<longleftrightarrow> (\<forall>s. kdB64Dec kd (kdB64Enc kd s) = Some s) \<and> (\<forall>s. CHR ''$'' \<notin> set (kdB64Enc kd s)) \<and>
     (\<forall>p s. int (length (kdIDKey kd p s argonTime argonMemoryKiB argonThreads argonKeyLen)) = argonKeyLen)"

lemmas argon_consts = argonVersion_def argonMemoryKiB_def argonTime_def argonThreads_def argonKeyLen_def

lemma HashPassword_Inr: "HashPassword kd salt password = Inr h \<longleftrightarrow> (\<exists>s. salt = Some s \<and> MinPasswordLen \<le> int (length password) \<and> TrimSpace password \<noteq> [] \<and>
    h = ''$argon2id$v=19$m=65536,t=3,p=1$'' @ kdB64Enc kd s @ ''$'' @ kdB64Enc kd (kdIDKey kd password s argonTime argonMemoryKiB argonThreads argonKeyLen))"
proof -
  have nums: "itoa argonVersion = ''19''" "itoa argonMemoryKiB = ''65536''" "itoa argonTime = ''3''" "itoa argonThreads = ''1''"
    by (simp_all add: argon_consts itoa_def dec_nat.simps digit_char_def) code_simp+
  show ?thesis by (auto simp: HashPassword_def Let_def nums split: option.splits if_splits)
qed

lemma VerifyPassword_hash:
  assumes "kdf_ok kd" and "HashPassword kd (Some salt) password = Inr h" and "salt \<noteq> []"
  shows "VerifyPassword kd attempt h \<longleftrightarrow>
    kdIDKey kd attempt salt argonTime argonMemoryKiB argonThreads argonKeyLen = kdIDKey kd password salt argonTime argonMemoryKiB argonThreads argonKeyLen"
proof -
  let ?key = "kdIDKey kd password salt argonTime argonMemoryKiB argonThreads argonKeyLen"
  have dec: "kdB64Dec kd (kdB64Enc kd s) = Some s" and free: "CHR ''$'' \<notin> set (kdB64Enc kd s)" and len: "int (length ?key) = argonKeyLen" for s
    using assms(1) by (simp_all add: kdf_ok_def)
  have h: "h = [] @ CHR ''$'' # ''argon2id'' @ CHR ''$'' # ''v=19'' @ CHR ''$'' # ''m=65536,t=3,p=1'' @ CHR ''$'' # kdB64Enc kd salt @ CHR ''$'' # kdB64Enc kd ?key"
    using assms(2) by (simp add: HashPassword_Inr)
  have fields: "strings_Split h (CHR ''$'') = [[], ''argon2id'', ''v=19'', ''m=65536,t=3,p=1'', kdB64Enc kd salt, kdB64Enc kd ?key]"
    unfolding h by (simp only: strings_Split_cons strings_Split_free free set_simps insert_iff char.inject empty_iff simp_thms not_False_eq_True)
  have version: "Option.bind (scan_literal ''v='' ''v=19'') scan_uint32 = Some (argonVersion, [])"
    by (simp add: argon_consts scan_literal_def has_prefix_def scan_uint32_def is_space_def is_digit_def read_nat_def)
  have params: "parseParams ''m=65536,t=3,p=1'' = Some (argonMemoryKiB, argonTime, argonThreads)"
    by (simp add: argon_consts parseParams_def scan_literal_def has_prefix_def scan_uint32_def is_space_def is_digit_def read_nat_def)
  show ?thesis unfolding VerifyPassword_def fields using assms(3) len by (simp add: version params dec)
qed

subsection \<open>Session tokens (authusers/session.go)\<close>

record SessionClaims =
  scEmail :: string
  scUID :: string
  scIat :: int
  scExp :: int

record SessionCodec =
  snB64Enc :: "string \<Rightarrow> string"
  snB64Dec :: "string \<Rightarrow> string option"
  snAlg :: "string \<Rightarrow> string option"
  snMarshal :: "SessionClaims \<Rightarrow> string"
  snUnmarshal :: "string \<Rightarrow> SessionClaims option"
  snSign :: "string \<Rightarrow> string"
  snVerify :: "string \<Rightarrow> string \<Rightarrow> bool"

definition SessionTTL :: duration where "SessionTTL = 30 * 24 * 3600000000000"

definition go_Unix :: "gotime \<Rightarrow> int" where "go_Unix t = t div 1000000000"

definition stamped_claims :: "SessionClaims \<Rightarrow> gotime \<Rightarrow> SessionClaims" where
  "stamped_claims claims now = claims\<lparr>scIat := go_Unix now, scExp := go_Unix (now + SessionTTL)\<rparr>"

definition Mint_session :: "SessionCodec \<Rightarrow> SessionClaims \<Rightarrow> gotime \<Rightarrow> string option" where
  "Mint_session cd claims now =
    (if scEmail claims = [] then None
     else let hB64 = snB64Enc cd jwtHeader; pB64 = snB64Enc cd (snMarshal cd (stamped_claims claims now));
              sig = snSign cd (hB64 @ ''.'' @ pB64) in
       Some (hB64 @ ''.'' @ pB64 @ ''.'' @ snB64Enc cd sig))"

text \<open>\<open>None\<close> is \<^verbatim>\<open>ErrSessionInvalid\<close>.\<close>

definition Verify_session :: "SessionCodec \<Rightarrow> string \<Rightarrow> gotime \<Rightarrow> SessionClaims option" where
  "Verify_session cd token now =
    (case splitCompact token of None \<Rightarrow> None | Some (h, p, s) \<Rightarrow>
     if h = [] \<or> p = [] \<or> s = [] then None
     else case snB64Dec cd s of None \<Rightarrow> None | Some sig \<Rightarrow>
     if \<not> snVerify cd (h @ ''.'' @ p) sig then None
     else if Option.bind (snB64Dec cd h) (snAlg cd) \<noteq> Some ''EdDSA'' then None
     else case Option.bind (snB64Dec cd p) (snUnmarshal cd) of None \<Rightarrow> None | Some claims \<Rightarrow>
     if scEmail claims = [] then None
     else if go_Unix now \<ge> scExp claims then None
     else Some claims)"

text \<open>What a token relies on: base64url text is inverted by its decoder, not empty for a non-empty text and free of dots and
  white space; a signature is not empty and verifies; the claims survive JSON.\<close>

definition session_codec_ok :: "SessionCodec \<Rightarrow> SessionClaims \<Rightarrow> bool" where
  "session_codec_ok cd claims \<longleftrightarrow> (\<forall>s. snB64Dec cd (snB64Enc cd s) = Some s) \<and> (\<forall>s. s \<noteq> [] \<longrightarrow> snB64Enc cd s \<noteq> []) \<and>
     (\<forall>s. \<forall>c \<in> set (snB64Enc cd s). c \<noteq> CHR ''.'' \<and> \<not> is_space c) \<and> snAlg cd jwtHeader = Some ''EdDSA'' \<and>
     (\<forall>m. snSign cd m \<noteq> [] \<and> snVerify cd m (snSign cd m)) \<and> snMarshal cd claims \<noteq> [] \<and> snUnmarshal cd (snMarshal cd claims) = Some claims"

lemma Verify_minted:
  assumes "session_codec_ok cd (stamped_claims claims t0)" and "Mint_session cd claims t0 = Some token"
  shows "Verify_session cd token now = (if go_Unix now < go_Unix (t0 + SessionTTL) then Some (stamped_claims claims t0) else None)"
    and "token \<noteq> []" and "\<forall>c \<in> set token. \<not> is_space c"
proof -
  let ?h = "snB64Enc cd jwtHeader" and ?p = "snB64Enc cd (snMarshal cd (stamped_claims claims t0))"
  let ?s = "snB64Enc cd (snSign cd (?h @ ''.'' @ ?p))"
  note ok = assms(1) [unfolded session_codec_ok_def]
  have token: "token = ?h @ ''.'' @ ?p @ ''.'' @ ?s" "scEmail claims \<noteq> []" using assms(2) by (auto simp: Mint_session_def Let_def split: if_splits)
  have dot: "CHR ''.'' \<notin> set (snB64Enc cd s)" for s using ok by blast
  have split: "splitCompact token = Some (?h, ?p, ?s)" unfolding token by (rule splitCompact_join) (rule dot)+
  have ne: "?h \<noteq> []" "?p \<noteq> []" "?s \<noteq> []" using ok by (simp_all add: jwtHeader_def)
  show "Verify_session cd token now = (if go_Unix now < go_Unix (t0 + SessionTTL) then Some (stamped_claims claims t0) else None)"
    unfolding Verify_session_def split using ne ok token(2) by (simp add: stamped_claims_def)
  show "token \<noteq> []" by (simp add: token)
  show "\<forall>c \<in> set token. \<not> is_space c" using ok by (auto simp: token is_space_def)
qed

lemma Split_glue: "strings_Split s sep = x # xs \<Longrightarrow> s = x @ concat (map ((#) sep) xs)"
proof (induction s arbitrary: x xs)
  case (Cons c s)
  obtain y ys where eq: "strings_Split s sep = y # ys" using strings_Split_nonempty [of s sep] by (cases "strings_Split s sep") auto
  have "x = (if c = sep then [] else c # y)" "xs = (if c = sep then y # ys else ys)" using Cons.prems eq by (auto split: if_splits)
  then have "x @ concat (map ((#) sep) xs) = c # y @ concat (map ((#) sep) ys)" by simp
  with Cons.IH [OF eq] show ?case by simp
qed simp

lemma bearer_token:
  assumes "token \<noteq> []" and "\<forall>c \<in> set token. \<not> is_space c"
  shows "FromAuthorizationHeader (''Bearer '' @ token) = Some token"
proof -
  have "dropWhile is_space xs = xs" if "\<forall>c \<in> set xs. \<not> is_space c" for xs using that by (cases xs) auto
  from this [of token] this [of "rev token"] have "TrimSpace token = token" using assms(2) by (simp add: TrimSpace_def)
  moreover have "CHR '' '' \<notin> set token" "CHR 0x09 \<notin> set token" using assms(2) by (auto simp: is_space_def)
  ultimately show ?thesis using assms(1) by (simp add: FromAuthorizationHeader_def)
qed

lemma Verify_session_Some:
  assumes "Verify_session cd token now = Some claims"
  shows "\<exists>h p s sig. token = h @ ''.'' @ p @ ''.'' @ s \<and> snB64Dec cd s = Some sig \<and> snVerify cd (h @ ''.'' @ p) sig \<and>
    Option.bind (snB64Dec cd p) (snUnmarshal cd) = Some claims \<and> scEmail claims \<noteq> [] \<and> go_Unix now < scExp claims"
proof -
  obtain h p s where split: "splitCompact token = Some (h, p, s)" using assms by (auto simp: Verify_session_def split: option.splits)
  have "\<exists>sig. snB64Dec cd s = Some sig \<and> snVerify cd (h @ ''.'' @ p) sig \<and>
    Option.bind (snB64Dec cd p) (snUnmarshal cd) = Some claims \<and> scEmail claims \<noteq> [] \<and> go_Unix now < scExp claims"
    using assms unfolding Verify_session_def split by (simp split: option.splits if_splits)
  moreover have "token = h @ ''.'' @ p @ ''.'' @ s" using Split_glue [OF splitCompact_SomeD [OF split]] by simp
  ultimately show ?thesis by blast
qed

subsection \<open>The users table (store/users.go, migration 0014)\<close>

record AuthUser =
  usID :: string
  usEmail :: string
  usPasswordHash :: string
  usCreatedAt :: gotime
  usLastLoginAt :: "gotime option"

datatype UserErr = ErrEmailTaken | ErrUserNotFound | UsersDown

text \<open>The column is case insensitive (\<^verbatim>\<open>citext\<close>) and unique, as is the id; either violation is reported as a taken address.\<close>

definition same_email :: "string \<Rightarrow> string \<Rightarrow> bool" where
  "same_email a b \<longleftrightarrow> ToLower a = ToLower b"

definition CreateUser :: "bool \<Rightarrow> string \<Rightarrow> gotime \<Rightarrow> string \<Rightarrow> string \<Rightarrow> AuthUser list \<Rightarrow> UserErr + AuthUser \<times> AuthUser list" where
  "CreateUser up ident now email passwordHash users =
    (if \<not> up then Inl UsersDown
     else if list_ex (\<lambda>u. usID u = ident \<or> same_email (usEmail u) email) users then Inl ErrEmailTaken
     else let u = \<lparr>usID = ident, usEmail = email, usPasswordHash = passwordHash, usCreatedAt = now, usLastLoginAt = None\<rparr> in Inr (u, users @ [u]))"

definition FindUserByEmail :: "bool \<Rightarrow> string \<Rightarrow> AuthUser list \<Rightarrow> UserErr + AuthUser" where
  "FindUserByEmail up email users =
    (if \<not> up then Inl UsersDown
     else case find (\<lambda>u. same_email (usEmail u) email) users of None \<Rightarrow> Inl ErrUserNotFound | Some u \<Rightarrow> Inr u)"

definition TouchLogin :: "bool \<Rightarrow> string \<Rightarrow> gotime \<Rightarrow> AuthUser list \<Rightarrow> AuthUser list" where
  "TouchLogin up userID t users = (if up then map (\<lambda>u. if usID u = userID then u\<lparr>usLastLoginAt := Some t\<rparr> else u) users else users)"

subsection \<open>Requests and responses (api/auth.go, api/auth\_handler.go, api/auth\_session.go)\<close>

record AuthReq =
  aqMethod :: string
  aqPath :: string
  aqAuthorization :: string
  aqForwardedFor :: string
  aqRemoteAddr :: string
  aqBody :: string

datatype AuthResp = AuthErr int string string "int option" | AuthJSON int json | AuthPanic

text \<open>The server and what one request draws from its surroundings: clocks, random bytes, fresh ids, the answers of the database.
  The signer and the verifier are set together by \<^verbatim>\<open>UseSessionKey\<close>.\<close>

record AuthEnv =
  auEng :: EngineEnv
  auTenant :: string
  auAdminToken :: string
  auHasStore :: bool
  auSession :: "SessionCodec option"
  auKdf :: Kdf
  auDummySalt :: string
  auDecode :: "string \<Rightarrow> (string \<times> string) option"
  auMarshal :: "(string \<times> string) list \<Rightarrow> string option"
  auSalt :: "string option"
  auUserID :: string
  auAuditID :: string
  auNow :: gotime
  auTouchAt :: gotime
  auBucketUp :: bool
  auUsersUp :: bool
  auTouchUp :: bool

record AuthState =
  asWorld :: World
  asUsers :: "AuthUser list"
  asAudit :: Stream

definition dummyPassword :: string where
  "dummyPassword = concat (replicate 2 ''timing-equalizer-'')"

definition dummyHash :: "AuthEnv \<Rightarrow> string" where
  "dummyHash env = (case HashPassword (auKdf env) (Some (auDummySalt env)) dummyPassword of Inl _ \<Rightarrow> [] | Inr h \<Rightarrow> h)"

definition contains_dots :: "string \<Rightarrow> bool" where
  "contains_dots s = list_ex (\<lambda>i. s ! i = CHR ''.'' \<and> s ! Suc i = CHR ''.'') [0..<length s - 1]"

definition validEmail :: "string \<Rightarrow> bool" where
  "validEmail email =
    (if count_list email (CHR ''@'') \<noteq> 1 then False
     else let i = length (takeWhile (\<lambda>c. c \<noteq> CHR ''@'') email) in
       if i = 0 \<or> i = length email - 1 then False
       else let local = take i email; domain = drop (i + 1) email in
         if length local > 64 \<or> list_ex (\<lambda>c. c \<in> {CHR '' '', CHR 0x09, CHR 0x0D, CHR 0x0A}) email then False
         else let dot = int (length domain) - 1 - int (length (takeWhile (\<lambda>c. c \<noteq> CHR ''.'') (rev domain))) in
           dot > 0 \<and> dot < int (length domain) - 1 \<and> \<not> contains_dots domain)"

text \<open>\<^verbatim>\<open>net.SplitHostPort\<close>, of which only the host is used.\<close>

definition split_host :: "string \<Rightarrow> string option" where
  "split_host hp =
    (let i = length hp - 1 - length (takeWhile (\<lambda>c. c \<noteq> CHR '':'') (rev hp)) in
     if CHR '':'' \<notin> set hp then None
     else if hd hp = CHR ''['' then
       let e = length (takeWhile (\<lambda>c. c \<noteq> CHR '']'') hp) in
       if CHR '']'' \<notin> set hp \<or> e + 1 \<noteq> i then None
       else if CHR ''['' \<in> set (drop 1 hp) \<or> CHR '']'' \<in> set (drop (e + 1) hp) then None
       else Some (take (e - 1) (drop 1 hp))
     else let host = take i hp in
       if CHR '':'' \<in> set host \<or> CHR ''['' \<in> set hp \<or> CHR '']'' \<in> set hp then None else Some host)"

definition clientIP :: "AuthReq \<Rightarrow> string" where
  "clientIP rq = (let hop = TrimSpace (hd (strings_Split (aqForwardedFor rq) (CHR '',''))) in
     if aqForwardedFor rq \<noteq> [] \<and> hop \<noteq> [] then hop
     else case split_host (aqRemoteAddr rq) of None \<Rightarrow> aqRemoteAddr rq | Some host \<Rightarrow> host)"

definition writeAuthError :: "int \<Rightarrow> string \<Rightarrow> string \<Rightarrow> AuthResp" where
  "writeAuthError status code message = AuthErr status code message None"

definition emit_audit :: "SecEvent option \<Rightarrow> AuthState \<Rightarrow> AuthState" where
  "emit_audit ev st = (case ev of None \<Rightarrow> st | Some e \<Rightarrow> st\<lparr>asAudit := Emit e (asAudit st)\<rparr>)"

definition auditAuthzRejection :: "AuthEnv \<Rightarrow> AuthReq \<Rightarrow> string \<Rightarrow> AuthState \<Rightarrow> AuthState" where
  "auditAuthzRejection env rq reason = emit_audit (New_SecEvent (auMarshal env) (auAuditID env) (auTenant env) KindAuthzRejected (''anonymous'', [])
     [(''method'', aqMethod rq), (''path'', aqPath rq)] [(''reason'', reason)])"

definition auditAuthEvent :: "AuthEnv \<Rightarrow> AuthReq \<Rightarrow> string \<Rightarrow> string \<Rightarrow> AuthState \<Rightarrow> AuthState" where
  "auditAuthEvent env rq action email = emit_audit (New_SecEvent (auMarshal env) (auAuditID env) (auTenant env) KindAuthnAccepted (''user'', email)
     [(''method'', aqMethod rq), (''path'', aqPath rq)] [(''action'', action)])"

definition requireAuth :: "AuthEnv \<Rightarrow> AuthReq \<Rightarrow> (string \<Rightarrow> AuthState \<Rightarrow> AuthResp \<times> AuthState) \<Rightarrow> AuthState \<Rightarrow> AuthResp \<times> AuthState" where
  "requireAuth env rq next st =
    (if \<not> has_prefix (aqAuthorization rq) ''Bearer '' then
       (writeAuthError 401 ''unauthorized'' ''missing bearer token'', auditAuthzRejection env rq ''missing_bearer_token'' st)
     else if drop 7 (aqAuthorization rq) \<noteq> auAdminToken env then
       (writeAuthError 401 ''unauthorized'' ''invalid bearer token'', auditAuthzRejection env rq ''invalid_bearer_token'' st)
     else next (auTenant env) st)"

definition user_json :: "string \<Rightarrow> json" where
  "user_json email = JObj [(''email'', JStr email)]"

definition handleAuthSignup :: "AuthEnv \<Rightarrow> AuthReq \<Rightarrow> AuthState \<Rightarrow> AuthResp \<times> AuthState" where
  "handleAuthSignup env rq st =
    (if \<not> auHasStore env \<or> auSession env = None then (writeAuthError 503 ''unavailable'' ''auth storage or session key not configured'', st)
     else case auDecode env (aqBody rq) of None \<Rightarrow> (writeAuthError 400 ''validation_failed'' ''body must be { email, password }'', st) | Some (rawEmail, password) \<Rightarrow>
     let email = ToLower (TrimSpace rawEmail) in
     if \<not> validEmail email then (writeAuthError 400 ''invalid_email'' ''email address format is invalid'', st)
     else case HashPassword (auKdf env) (auSalt env) password of Inl err \<Rightarrow> (writeAuthError 400 ''weak_password'' (PwErr_Error err), st) | Inr h \<Rightarrow>
     case CreateUser (auUsersUp env) (auUserID env) (auNow env) email h (asUsers st) of
       Inl ErrEmailTaken \<Rightarrow> (writeAuthError 409 ''exists'' ''an account with this email already exists'', st)
     | Inl _ \<Rightarrow> (writeAuthError 503 ''unavailable'' ''control plane busy; retry'', st)
     | Inr (user, users) \<Rightarrow> (AuthJSON 201 (JObj [(''user'', user_json (usEmail user))]), auditAuthEvent env rq ''signup'' email (st\<lparr>asUsers := users\<rparr>)))"

definition login_bucket :: "AuthReq \<Rightarrow> string \<Rightarrow> string" where
  "login_bucket rq email = ''authlogin:'' @ clientIP rq @ ''|'' @ email"

text \<open>The part of the handler behind the rate limit.\<close>

definition login_verify :: "AuthEnv \<Rightarrow> AuthReq \<Rightarrow> string \<Rightarrow> string \<Rightarrow> AuthState \<Rightarrow> AuthResp \<times> AuthState" where
  "login_verify env rq email password st =
    (let found = FindUserByEmail (auUsersUp env) email (asUsers st);
         stored = (case found of Inr user \<Rightarrow> usPasswordHash user | Inl _ \<Rightarrow> dummyHash env) in
     if found = Inl UsersDown then (writeAuthError 503 ''unavailable'' ''control plane busy; retry'', st)
     else if \<not> VerifyPassword (auKdf env) password stored then
       (writeAuthError 401 ''invalid_credentials'' ''invalid email or password'', auditAuthzRejection env rq ''invalid_credentials'' st)
     else case found of Inl _ \<Rightarrow> (AuthPanic, st) | Inr user \<Rightarrow>
     case Option.bind (auSession env) (\<lambda>cd. Mint_session cd \<lparr>scEmail = email, scUID = usID user, scIat = 0, scExp = 0\<rparr> (auNow env)) of
       None \<Rightarrow> (writeAuthError 503 ''unavailable'' ''control plane busy; retry'', st)
     | Some token \<Rightarrow> (AuthJSON 200 (JObj [(''token'', JStr token), (''user'', user_json email)]),
         auditAuthEvent env rq ''login'' email (st\<lparr>asUsers := TouchLogin (auTouchUp env) (usID user) (auTouchAt env) (asUsers st)\<rparr>)))"

definition handleAuthLogin :: "AuthEnv \<Rightarrow> AuthReq \<Rightarrow> AuthState \<Rightarrow> AuthResp \<times> AuthState" where
  "handleAuthLogin env rq st =
    (if \<not> auHasStore env \<or> auSession env = None then (writeAuthError 503 ''unavailable'' ''auth storage or session key not configured'', st)
     else case auDecode env (aqBody rq) of None \<Rightarrow> (writeAuthError 400 ''validation_failed'' ''body must be { email, password }'', st) | Some (rawEmail, password) \<Rightarrow>
     let email = ToLower (TrimSpace rawEmail) in
     if email = [] \<or> password = [] then (writeAuthError 400 ''validation_failed'' ''body must be { email, password }'', st)
     else if \<not> auBucketUp env then (writeAuthError 503 ''unavailable'' ''control plane busy; retry'', st)
     else case TakeToken (auEng env) (auTenant env) (login_bucket rq email) 5 5 (asWorld st) of
       (Inl _, w) \<Rightarrow> (writeAuthError 503 ''unavailable'' ''control plane busy; retry'', st\<lparr>asWorld := w\<rparr>)
     | (Inr (granted, retryAfter), w) \<Rightarrow>
         if \<not> granted then (AuthErr 429 ''rate_limited'' ''too many login attempts; retry later'' (Some ((retryAfter + 1000000000 - 1000000) div 1000000000)), st\<lparr>asWorld := w\<rparr>)
         else login_verify env rq email password (st\<lparr>asWorld := w\<rparr>))"

definition bearerToken :: "AuthReq \<Rightarrow> string option" where
  "bearerToken rq = FromAuthorizationHeader (aqAuthorization rq)"

definition requireSession :: "AuthEnv \<Rightarrow> AuthReq \<Rightarrow> (string \<Rightarrow> AuthState \<Rightarrow> AuthResp \<times> AuthState) \<Rightarrow> AuthState \<Rightarrow> AuthResp \<times> AuthState" where
  "requireSession env rq next st =
    (case auSession env of None \<Rightarrow> (writeAuthError 401 ''unauthorized'' ''missing or invalid session'', st) | Some cd \<Rightarrow>
     case Option.bind (bearerToken rq) (\<lambda>raw. Verify_session cd raw (auNow env)) of
       Some claims \<Rightarrow> next (scEmail claims) st
     | None \<Rightarrow> (writeAuthError 401 ''unauthorized'' ''missing or invalid session'', auditAuthzRejection env rq ''invalid_session_token'' st))"

definition handleAuthMe :: "string \<Rightarrow> AuthState \<Rightarrow> AuthResp \<times> AuthState" where
  "handleAuthMe email st = (AuthJSON 200 (JObj [(''user'', user_json email)]), st)"

subsection \<open>The accounts over a sequence of requests\<close>

text \<open>Requests to the three routes, whatever they carry and draw, between steps of the rest of the control plane.\<close>

inductive auth_step :: "AuthState \<Rightarrow> AuthState \<Rightarrow> bool" where
  as_signup: "auth_step st (snd (handleAuthSignup env rq st))"
| as_login: "auth_step st (snd (handleAuthLogin env rq st))"
| as_me: "auth_step st (snd (requireSession env rq handleAuthMe st))"
| as_other: "auth_step st (st\<lparr>asWorld := w, asAudit := a\<rparr>)"

definition users_ok :: "AuthUser list \<Rightarrow> bool" where
  "users_ok us \<longleftrightarrow> distinct (map usID us) \<and> distinct (map (\<lambda>u. ToLower (usEmail u)) us)"

definition credentials :: "AuthUser \<Rightarrow> string \<times> string \<times> string" where
  "credentials u = (usID u, usEmail u, usPasswordHash u)"

definition accounts_kept :: "AuthUser list \<Rightarrow> AuthUser list \<Rightarrow> bool" where
  "accounts_kept us us' \<longleftrightarrow> credentials ` set us \<subseteq> credentials ` set us'"

lemma audit_keeps [simp]:
  "asUsers (auditAuthzRejection env rq reason st) = asUsers st" "asWorld (auditAuthzRejection env rq reason st) = asWorld st"
  "asUsers (auditAuthEvent env rq action email st) = asUsers st" "asWorld (auditAuthEvent env rq action email st) = asWorld st"
  by (simp_all add: auditAuthzRejection_def auditAuthEvent_def emit_audit_def split: option.splits)

lemma CreateUser_Inr: "CreateUser up ident now email h us = Inr (u, us') \<longleftrightarrow> up \<and> u = \<lparr>usID = ident, usEmail = email, usPasswordHash = h, usCreatedAt = now, usLastLoginAt = None\<rparr> \<and>
    us' = us @ [u] \<and> (\<forall>v \<in> set us. usID v \<noteq> ident \<and> ToLower (usEmail v) \<noteq> ToLower email)"
  by (auto simp: CreateUser_def Let_def list_ex_iff same_email_def)

lemma Signup_created:
  assumes "handleAuthSignup env rq st = (AuthJSON code body, st')"
  shows "\<exists>rawEmail password salt u. auDecode env (aqBody rq) = Some (rawEmail, password) \<and> auSalt env = Some salt \<and>
    HashPassword (auKdf env) (Some salt) password = Inr (usPasswordHash u) \<and> usEmail u = ToLower (TrimSpace rawEmail) \<and> validEmail (usEmail u) \<and>
    CreateUser (auUsersUp env) (auUserID env) (auNow env) (usEmail u) (usPasswordHash u) (asUsers st) = Inr (u, asUsers st') \<and> code = 201"
proof -
  obtain rawEmail password h u us where *: "auDecode env (aqBody rq) = Some (rawEmail, password)" "validEmail (ToLower (TrimSpace rawEmail))"
    "HashPassword (auKdf env) (auSalt env) password = Inr h"
    "CreateUser (auUsersUp env) (auUserID env) (auNow env) (ToLower (TrimSpace rawEmail)) h (asUsers st) = Inr (u, us)" "asUsers st' = us" "code = 201"
    using assms by (auto simp: handleAuthSignup_def writeAuthError_def Let_def split: if_splits option.splits prod.splits sum.splits UserErr.splits)
  moreover from *(3) obtain salt where "auSalt env = Some salt" by (auto simp: HashPassword_Inr)
  moreover from *(4) have "usEmail u = ToLower (TrimSpace rawEmail)" "usPasswordHash u = h" by (simp_all add: CreateUser_Inr)
  ultimately show ?thesis by auto
qed

lemma Signup_users:
  "asUsers (snd (handleAuthSignup env rq st)) = asUsers st \<or> (\<exists>u. asUsers (snd (handleAuthSignup env rq st)) = asUsers st @ [u] \<and>
     (\<forall>v \<in> set (asUsers st). usID v \<noteq> usID u \<and> ToLower (usEmail v) \<noteq> ToLower (usEmail u)))"
  by (auto simp: handleAuthSignup_def CreateUser_Inr Let_def split: option.splits prod.splits sum.splits UserErr.splits)

lemma Login_users: "\<exists>up ident t. asUsers (snd (handleAuthLogin env rq st)) = TouchLogin up ident t (asUsers st)"
proof -
  have same: "\<exists>up ident t. us = TouchLogin up ident t us" for us by (rule exI [of _ False]) (simp add: TouchLogin_def)
  have "\<exists>up ident t. asUsers (snd (login_verify env rq email password st)) = TouchLogin up ident t (asUsers st)" for email password st
    using same by (auto simp: login_verify_def Let_def split: option.splits sum.splits)
  from this [of _ _ "st\<lparr>asWorld := w\<rparr>" for w] show ?thesis using same
    by (auto simp: handleAuthLogin_def Let_def split: option.splits sum.splits prod.splits)
qed

lemma Session_users: "asUsers (snd (requireSession env rq handleAuthMe st)) = asUsers st"
  by (simp add: requireSession_def handleAuthMe_def split: option.splits)

lemma TouchLogin_keeps:
  "map usID (TouchLogin up ident t us) = map usID us" "map (\<lambda>u. ToLower (usEmail u)) (TouchLogin up ident t us) = map (\<lambda>u. ToLower (usEmail u)) us"
  "credentials ` set (TouchLogin up ident t us) = credentials ` set us"
proof -
  have "credentials (if usID u = ident then u\<lparr>usLastLoginAt := Some t\<rparr> else u) = credentials u" for u by (simp add: credentials_def)
  then show "credentials ` set (TouchLogin up ident t us) = credentials ` set us" by (simp only: TouchLogin_def set_map image_image if_cancel simp_thms split: if_split)
qed (auto simp: TouchLogin_def)

lemma auth_step_users: "auth_step st st' \<Longrightarrow> (users_ok (asUsers st) \<longrightarrow> users_ok (asUsers st')) \<and> accounts_kept (asUsers st) (asUsers st')"
proof (induction rule: auth_step.induct)
  case (as_signup st env rq)
  then show ?case using Signup_users [of env rq st] by (auto simp: users_ok_def accounts_kept_def) blast+
next
  case (as_login st env rq)
  then show ?case using Login_users [of env rq st] by (auto simp: users_ok_def accounts_kept_def TouchLogin_keeps)
qed (simp_all add: Session_users users_ok_def accounts_kept_def)

lemma auth_reach_users: "auth_step\<^sup>*\<^sup>* st st' \<Longrightarrow> (users_ok (asUsers st) \<longrightarrow> users_ok (asUsers st')) \<and> accounts_kept (asUsers st) (asUsers st')"
proof (induction rule: rtranclp_induct)
  case (step st1 st2)
  then show ?case using auth_step_users [of st1 st2] by (auto simp: accounts_kept_def)
qed (simp add: accounts_kept_def)

lemma find_unique:
  assumes "x \<in> set xs" and "P x" and "\<And>y. y \<in> set xs \<Longrightarrow> P y \<Longrightarrow> y = x"
  shows "find P xs = Some x"
proof (cases "find P xs")
  case None
  with assms(1,2) show ?thesis unfolding find_None_iff by blast
next
  case (Some y)
  then have "y \<in> set xs \<and> P y" by (auto simp: find_Some_iff)
  with Some assms(3) show ?thesis by blast
qed

lemma find_account:
  assumes "users_ok us" and "(ident, email, h) \<in> credentials ` set us" and "ToLower email' = ToLower email"
  shows "\<exists>u. FindUserByEmail True email' us = Inr u \<and> usID u = ident \<and> usEmail u = email \<and> usPasswordHash u = h"
proof -
  obtain u where u: "u \<in> set us" "usID u = ident" "usEmail u = email" "usPasswordHash u = h" using assms(2) by (auto simp: credentials_def)
  have "find (\<lambda>v. same_email (usEmail v) email') us = Some u"
  proof (rule find_unique [OF u(1)])
    show "same_email (usEmail u) email'" using u(3) assms(3) by (simp add: same_email_def)
  next
    fix v
    assume "v \<in> set us" "same_email (usEmail v) email'"
    moreover have "inj_on (\<lambda>u. ToLower (usEmail u)) (set us)" using assms(1) by (simp add: users_ok_def distinct_map)
    ultimately show "v = u" using u(1,3) assms(3) by (intro inj_onD [of "\<lambda>u. ToLower (usEmail u)" "set us"]) (simp_all add: same_email_def)
  qed
  with u show ?thesis by (simp add: FindUserByEmail_def)
qed

lemma login_admitted:
  assumes "auDecode env (aqBody rq) = Some (rawEmail, attempt)" and "ToLower (TrimSpace rawEmail) = email" and "email \<noteq> []" and "attempt \<noteq> []"
    and "auHasStore env" and "auBucketUp env" and "auSession env = Some cd"
    and "fst (TakeToken (auEng env) (auTenant env) (login_bucket rq email) 5 5 (asWorld st)) = Inr (True, d)"
  shows "\<exists>w. handleAuthLogin env rq st = login_verify env rq email attempt (st\<lparr>asWorld := w\<rparr>)"
proof -
  obtain w where "TakeToken (auEng env) (auTenant env) (login_bucket rq email) 5 5 (asWorld st) = (Inr (True, d), w)" using assms(8) by (metis prod.collapse)
  then have "handleAuthLogin env rq st = login_verify env rq email attempt (st\<lparr>asWorld := w\<rparr>)" using assms(1-7) by (simp add: handleAuthLogin_def)
  then show ?thesis ..
qed

text \<open>C14: Signing up, in and on. After a sign-up was answered 201, whatever requests came in between, a sign-in to the same address
  that the rate limit admits is answered by the password alone: when its Argon2 key under the stored salt is that of the
  sign-up password, the answer is a token with which the session check lets every request of the next thirty days through
  as that address; otherwise it is the uniform 401.\<close>

theorem signup_then_login:
  assumes "users_ok (asUsers st)" and "handleAuthSignup env rq st = (AuthJSON 201 body, st1)" and "auth_step\<^sup>*\<^sup>* st1 st2"
    and "auDecode env (aqBody rq) = Some (rawEmail, password)" and "auDecode env2 (aqBody rq2) = Some (rawEmail2, attempt)"
    and "email = ToLower (TrimSpace rawEmail)" and "ToLower (TrimSpace rawEmail2) = email" and "attempt \<noteq> []"
    and "auKdf env = kd" and "auKdf env2 = kd" and "kdf_ok kd" and "auSalt env = Some salt" and "salt \<noteq> []"
    and "auHasStore env2" and "auBucketUp env2" and "auUsersUp env2" and "auSession env2 = Some cd"
    and "\<forall>claims. scEmail claims = email \<longrightarrow> session_codec_ok cd claims"
    and "fst (TakeToken (auEng env2) (auTenant env2) (login_bucket rq2 email) 5 5 (asWorld st2)) = Inr (True, d)"
  shows "if kdIDKey kd attempt salt argonTime argonMemoryKiB argonThreads argonKeyLen = kdIDKey kd password salt argonTime argonMemoryKiB argonThreads argonKeyLen
    then \<exists>token st3. handleAuthLogin env2 rq2 st2 = (AuthJSON 200 (JObj [(''token'', JStr token), (''user'', user_json email)]), st3) \<and>
      (\<forall>env3 rq3 st4. auSession env3 = Some cd \<longrightarrow> go_Unix (auNow env3) < go_Unix (auNow env2 + SessionTTL) \<longrightarrow> aqAuthorization rq3 = ''Bearer '' @ token \<longrightarrow>
        requireSession env3 rq3 handleAuthMe st4 = (AuthJSON 200 (JObj [(''user'', user_json email)]), st4))
    else fst (handleAuthLogin env2 rq2 st2) = writeAuthError 401 ''invalid_credentials'' ''invalid email or password''"
proof -
  from Signup_created [OF assms(2)] assms(4,6,9,12) obtain u where hash: "HashPassword kd (Some salt) password = Inr (usPasswordHash u)"
    and u: "usEmail u = email" "validEmail email" and ins: "CreateUser (auUsersUp env) (auUserID env) (auNow env) email (usPasswordHash u) (asUsers st) = Inr (u, asUsers st1)"
    by auto
  have "users_ok (asUsers st1)" using auth_step_users [OF as_signup [of st env rq]] assms(1,2) by simp
  with auth_reach_users [OF assms(3)] have ok: "users_ok (asUsers st2)" and "accounts_kept (asUsers st1) (asUsers st2)" by blast+
  moreover have "credentials u \<in> credentials ` set (asUsers st1)" using ins by (simp add: CreateUser_Inr)
  ultimately have "(usID u, email, usPasswordHash u) \<in> credentials ` set (asUsers st2)" using u(1) by (auto simp: accounts_kept_def credentials_def)
  from find_account [OF ok this refl] obtain v where v: "FindUserByEmail True email (asUsers st2) = Inr v" "usPasswordHash v = usPasswordHash u" by blast
  have ne: "email \<noteq> []" using u(2) by (auto simp: validEmail_def)
  obtain w where login: "handleAuthLogin env2 rq2 st2 = login_verify env2 rq2 email attempt (st2\<lparr>asWorld := w\<rparr>)"
    using login_admitted [OF assms(5,7) ne assms(8,14,15,17,19)] ..
  note verify = VerifyPassword_hash [OF assms(11) hash assms(13), of attempt]
  define cl where "cl = \<lparr>scEmail = email, scUID = usID v, scIat = 0, scExp = 0\<rparr>"
  obtain token where mint: "Mint_session cd cl (auNow env2) = Some token" using ne by (simp add: Mint_session_def Let_def cl_def)
  have codec: "session_codec_ok cd (stamped_claims cl (auNow env2))" using assms(18) by (simp add: stamped_claims_def cl_def)
  show ?thesis
  proof (rule if_bool_eq_conj [THEN iffD2], intro conjI impI)
    assume "kdIDKey kd attempt salt argonTime argonMemoryKiB argonThreads argonKeyLen = kdIDKey kd password salt argonTime argonMemoryKiB argonThreads argonKeyLen"
    with verify have "\<exists>st3. handleAuthLogin env2 rq2 st2 = (AuthJSON 200 (JObj [(''token'', JStr token), (''user'', user_json email)]), st3)"
      unfolding login using v assms(10,16,17) mint by (simp add: login_verify_def cl_def)
    moreover have "requireSession env3 rq3 handleAuthMe st4 = (AuthJSON 200 (JObj [(''user'', user_json email)]), st4)"
      if "auSession env3 = Some cd" "go_Unix (auNow env3) < go_Unix (auNow env2 + SessionTTL)" "aqAuthorization rq3 = ''Bearer '' @ token" for env3 rq3 st4
      using that Verify_minted(1) [OF codec mint] bearer_token [OF Verify_minted(2,3) [OF codec mint]]
      by (simp add: requireSession_def bearerToken_def handleAuthMe_def stamped_claims_def cl_def)
    ultimately show "\<exists>token st3. handleAuthLogin env2 rq2 st2 = (AuthJSON 200 (JObj [(''token'', JStr token), (''user'', user_json email)]), st3) \<and>
      (\<forall>env3 rq3 st4. auSession env3 = Some cd \<longrightarrow> go_Unix (auNow env3) < go_Unix (auNow env2 + SessionTTL) \<longrightarrow> aqAuthorization rq3 = ''Bearer '' @ token \<longrightarrow>
        requireSession env3 rq3 handleAuthMe st4 = (AuthJSON 200 (JObj [(''user'', user_json email)]), st4))" by blast
  next
    assume "kdIDKey kd attempt salt argonTime argonMemoryKiB argonThreads argonKeyLen \<noteq> kdIDKey kd password salt argonTime argonMemoryKiB argonThreads argonKeyLen"
    with verify show "fst (handleAuthLogin env2 rq2 st2) = writeAuthError 401 ''invalid_credentials'' ''invalid email or password''"
      unfolding login using v assms(10,16) by (simp add: login_verify_def)
  qed
qed

text \<open>C35: Unknown addresses. A sign-in to an address without an account is never answered with a token. It gets the uniform 401 of
  a wrong password unless its password has the key of the password the dummy hash was made of: then verification
  succeeds and the handler dereferences the user that was not found.\<close>

theorem unknown_account_login:
  assumes "\<forall>u \<in> set (asUsers st). \<not> same_email (usEmail u) email" and "auDecode env (aqBody rq) = Some (rawEmail, attempt)"
    and "email = ToLower (TrimSpace rawEmail)" and "email \<noteq> []" and "attempt \<noteq> []" and "kdf_ok (auKdf env)" and "auDummySalt env \<noteq> []"
    and "auHasStore env" and "auBucketUp env" and "auUsersUp env" and "auSession env = Some cd"
    and "fst (TakeToken (auEng env) (auTenant env) (login_bucket rq email) 5 5 (asWorld st)) = Inr (True, d)"
  shows "fst (handleAuthLogin env rq st) =
    (if kdIDKey (auKdf env) attempt (auDummySalt env) argonTime argonMemoryKiB argonThreads argonKeyLen =
        kdIDKey (auKdf env) dummyPassword (auDummySalt env) argonTime argonMemoryKiB argonThreads argonKeyLen
     then AuthPanic else writeAuthError 401 ''invalid_credentials'' ''invalid email or password'')"
proof -
  have "find (\<lambda>v. same_email (usEmail v) email) (asUsers st) = None" using assms(1) by (simp add: find_None_iff)
  then have none: "FindUserByEmail True email (asUsers st) = Inl ErrUserNotFound" by (simp add: FindUserByEmail_def)
  have strong: "MinPasswordLen \<le> int (length dummyPassword)" "TrimSpace dummyPassword \<noteq> []"
    by (simp_all add: MinPasswordLen_def dummyPassword_def numeral_2_eq_2 TrimSpace_def is_space_def)
  then obtain h where h: "HashPassword (auKdf env) (Some (auDummySalt env)) dummyPassword = Inr h" by (simp add: HashPassword_Inr)
  obtain w where "handleAuthLogin env rq st = login_verify env rq email attempt (st\<lparr>asWorld := w\<rparr>)"
    using login_admitted [OF assms(2) assms(3) [symmetric] assms(4,5,8,9,11,12)] ..
  then show ?thesis using VerifyPassword_hash [OF assms(6) h assms(7), of attempt] none assms(10) h by (simp add: login_verify_def dummyHash_def)
qed

subsection \<open>The bearer checks\<close>

text \<open>The administrative check passes a request on exactly when its header is the word Bearer, one space and the configured token;
  any other request is answered 401 and leaves accounts and database alone.\<close>

theorem requireAuth_exact:
  "requireAuth env rq next st = next (auTenant env) st \<and> aqAuthorization rq = ''Bearer '' @ auAdminToken env \<or>
   aqAuthorization rq \<noteq> ''Bearer '' @ auAdminToken env \<and>
   (\<exists>msg aud. requireAuth env rq next st = (AuthErr 401 ''unauthorized'' msg None, st\<lparr>asAudit := aud\<rparr>))"
proof -
  have reject: "\<exists>aud. auditAuthzRejection env rq reason st = st\<lparr>asAudit := aud\<rparr>" for reason
  proof (cases "New_SecEvent (auMarshal env) (auAuditID env) (auTenant env) KindAuthzRejected (''anonymous'', []) [(''method'', aqMethod rq), (''path'', aqPath rq)] [(''reason'', reason)]")
    case None
    then have "auditAuthzRejection env rq reason st = st\<lparr>asAudit := asAudit st\<rparr>" by (simp add: auditAuthzRejection_def emit_audit_def)
    then show ?thesis ..
  qed (auto simp: auditAuthzRejection_def emit_audit_def)
  have "has_prefix (aqAuthorization rq) ''Bearer '' \<and> drop 7 (aqAuthorization rq) = auAdminToken env \<longleftrightarrow> aqAuthorization rq = ''Bearer '' @ auAdminToken env"
    (is "?split \<longleftrightarrow> ?whole")
  proof
    assume ?split
    then have "take 7 (aqAuthorization rq) = ''Bearer ''" "drop 7 (aqAuthorization rq) = auAdminToken env" by (simp_all add: has_prefix_def eval_nat_numeral)
    then show ?whole by (metis append_take_drop_id)
  next
    assume ?whole
    then show ?split by (simp add: has_prefix_def)
  qed
  moreover have "requireAuth env rq next st = next (auTenant env) st" if "has_prefix (aqAuthorization rq) ''Bearer ''" "drop 7 (aqAuthorization rq) = auAdminToken env"
    using that by (simp add: requireAuth_def)
  moreover have "\<exists>msg aud. requireAuth env rq next st = (AuthErr 401 ''unauthorized'' msg None, st\<lparr>asAudit := aud\<rparr>)"
    if "\<not> (has_prefix (aqAuthorization rq) ''Bearer '' \<and> drop 7 (aqAuthorization rq) = auAdminToken env)"
    using that reject [of "''missing_bearer_token''"] reject [of "''invalid_bearer_token''"] by (simp add: requireAuth_def writeAuthError_def)
  ultimately show ?thesis by blast
qed

text \<open>A request that the session check answers with an identity carries a token whose first two parts are signed with the
  session key and whose claims name that address and have not expired.\<close>

theorem session_is_signed:
  assumes "requireSession env rq handleAuthMe st = (AuthJSON code (JObj [(''user'', user_json email)]), st')"
  shows "\<exists>cd h p s sig claims. auSession env = Some cd \<and> bearerToken rq = Some (h @ ''.'' @ p @ ''.'' @ s) \<and> snB64Dec cd s = Some sig \<and>
    snVerify cd (h @ ''.'' @ p) sig \<and> Option.bind (snB64Dec cd p) (snUnmarshal cd) = Some claims \<and> scEmail claims = email \<and> go_Unix (auNow env) < scExp claims"
proof -
  obtain cd raw claims where "auSession env = Some cd" "bearerToken rq = Some raw" "Verify_session cd raw (auNow env) = Some claims" "scEmail claims = email"
    using assms by (auto simp: requireSession_def writeAuthError_def handleAuthMe_def user_json_def split: option.splits bind_splits)
  with Verify_session_Some [of cd raw "auNow env" claims] show ?thesis by blast
qed

subsection \<open>A sample account\<close>

definition sample_kdf :: Kdf where
  "sample_kdf = \<lparr>kdIDKey = (\<lambda>p s t m th l. take (nat l) (p @ replicate (nat l) (CHR ''k''))), kdB64Enc = dec3, kdB64Dec = (\<lambda>s. Some (undec3 s))\<rparr>"

lemma sample_kdf_ok: "kdf_ok sample_kdf"
proof -
  have "CHR ''$'' \<notin> set (dec3 s)" for s by (rule dec3_free) (simp add: is_digit_def)
  then show ?thesis by (auto simp: kdf_ok_def sample_kdf_def undec3_dec3 argonKeyLen_def)
qed

definition session_text :: "SessionClaims \<Rightarrow> string" where
  "session_text c = dec3 (scEmail c) @ '','' @ dec3 (scUID c) @ '','' @ itoa (scIat c) @ '','' @ itoa (scExp c)"

definition sample_session :: SessionCodec where
  "sample_session = \<lparr>snB64Enc = dec3, snB64Dec = (\<lambda>s. Some (undec3 s)), snAlg = (\<lambda>_. Some ''EdDSA''), snMarshal = session_text,
     snUnmarshal = (\<lambda>s. case strings_Split s (CHR '','') of [em, uid, iat, ex] \<Rightarrow>
       Some \<lparr>scEmail = undec3 em, scUID = undec3 uid, scIat = read_int iat, scExp = read_int ex\<rparr> | _ \<Rightarrow> None),
     snSign = (\<lambda>m. ''key'' @ m), snVerify = (\<lambda>m sig. sig = ''key'' @ m)\<rparr>"

lemma sample_session_ok: "session_codec_ok sample_session claims"
proof -
  have comma: "CHR '','' \<notin> set (dec3 s)" "CHR '','' \<notin> set (itoa i)" for s i
    by (rule dec3_free, simp add: is_digit_def) (rule itoa_free, simp_all add: is_digit_def)
  have plain: "\<forall>c \<in> set (dec3 s). c \<noteq> CHR ''.'' \<and> \<not> is_space c" for s 
    using dec3_digits [of _ s] by (auto simp: is_space_def) (auto simp: is_digit_def dest!: dec3_digits)
  have "snUnmarshal sample_session (session_text claims) = Some claims"
    by (simp add: sample_session_def session_text_def strings_Split_cons strings_Split_free comma undec3_dec3 read_itoa)
  moreover have "dec3 s \<noteq> []" if "s \<noteq> []" for s using that by (cases s) (simp_all add: dec3_def dec3_char_def Let_def)
  ultimately show ?thesis using plain by (simp add: session_codec_ok_def sample_session_def undec3_dec3) (simp add: session_text_def)
qed

definition account_env :: "string \<Rightarrow> string \<Rightarrow> AuthEnv" where
  "account_env email password = \<lparr>auEng = sample_env, auTenant = ''org_1'', auAdminToken = ''adm'', auHasStore = True, auSession = Some sample_session,
     auKdf = sample_kdf, auDummySalt = ''s0'', auDecode = (\<lambda>_. Some (email, password)), auMarshal = (\<lambda>_. Some ''{}''), auSalt = Some ''s1'', auUserID = ''u1'',
     auAuditID = ''a1'', auNow = 0, auTouchAt = 0, auBucketUp = True, auUsersUp = True, auTouchUp = True\<rparr>"

definition account_req :: AuthReq where
  "account_req = \<lparr>aqMethod = ''POST'', aqPath = ''/v1/auth/login'', aqAuthorization = [], aqForwardedFor = [], aqRemoteAddr = ''10.0.0.1:99'', aqBody = ''{}''\<rparr>"

definition no_accounts :: AuthState where
  "no_accounts = \<lparr>asWorld = world_of empty_db, asUsers = [], asAudit = NewStream 0\<rparr>"

definition one_account :: AuthState where
  "one_account = snd (handleAuthSignup (account_env '' Ann@acme.io'' ''correct horse'') account_req no_accounts)"

lemma sample_signup:
  "handleAuthSignup (account_env '' Ann@acme.io'' ''correct horse'') account_req no_accounts = (AuthJSON 201 (JObj [(''user'', user_json ''ann@acme.io'')]), one_account)"
  "asWorld one_account = world_of empty_db"
proof -
  have email: "ToLower (TrimSpace '' Ann@acme.io'') = ''ann@acme.io''" "validEmail ''ann@acme.io''" by code_simp+
  obtain h where h: "HashPassword sample_kdf (Some ''s1'') ''correct horse'' = Inr h"
    by (simp add: HashPassword_Inr MinPasswordLen_def TrimSpace_def is_space_def)
  have signup: "handleAuthSignup (account_env '' Ann@acme.io'' ''correct horse'') account_req no_accounts = (AuthJSON 201 (JObj [(''user'', user_json ''ann@acme.io'')]),
      auditAuthEvent (account_env '' Ann@acme.io'' ''correct horse'') account_req ''signup'' ''ann@acme.io''
        (no_accounts\<lparr>asUsers := [\<lparr>usID = ''u1'', usEmail = ''ann@acme.io'', usPasswordHash = h, usCreatedAt = 0, usLastLoginAt = None\<rparr>]\<rparr>))"
    by (simp add: handleAuthSignup_def account_env_def email h CreateUser_def no_accounts_def Let_def)
  then show "handleAuthSignup (account_env '' Ann@acme.io'' ''correct horse'') account_req no_accounts = (AuthJSON 201 (JObj [(''user'', user_json ''ann@acme.io'')]), one_account)"
    "asWorld one_account = world_of empty_db"
    unfolding one_account_def by (simp_all add: no_accounts_def)
qed

lemma fresh_bucket: "fst (TakeToken env tenant bucket 5 5 (world_of empty_db)) = Inr (True, 0)"
  by (simp add: TakeToken_def withTx_def bindT_def thenT_def getDB_def modifyDB_def returnT_def world_of_def empty_db_def Let_def)

theorem signup_then_login_witness:
  "(\<exists>token st3. handleAuthLogin (account_env ''ANN@acme.io'' ''correct horse'') account_req one_account =
      (AuthJSON 200 (JObj [(''token'', JStr token), (''user'', user_json ''ann@acme.io'')]), st3)) \<and>
    fst (handleAuthLogin (account_env ''ann@acme.io'' ''correct pony'') account_req one_account) = writeAuthError 401 ''invalid_credentials'' ''invalid email or password''"
proof -
  have email: "''ann@acme.io'' = ToLower (TrimSpace '' Ann@acme.io'')" "ToLower (TrimSpace ''ANN@acme.io'') = ''ann@acme.io''" "ToLower (TrimSpace ''ann@acme.io'') = ''ann@acme.io''"
    by code_simp+
  have none: "users_ok (asUsers no_accounts)" by (simp add: no_accounts_def users_ok_def)
  have codec: "\<forall>claims. scEmail claims = ''ann@acme.io'' \<longrightarrow> session_codec_ok sample_session claims" by (simp add: sample_session_ok)
  note use = signup_then_login [OF none sample_signup(1) rtranclp.rtrancl_refl _ _ email(1) _ _ _ _ sample_kdf_ok _ _ _ _ _ _ codec]
  show ?thesis
    using use [of "''correct horse''" "account_env ''ANN@acme.io'' ''correct horse''" account_req "''ANN@acme.io''" "''correct horse''" "''s1''" 0]
      use [of "''correct horse''" "account_env ''ann@acme.io'' ''correct pony''" account_req "''ann@acme.io''" "''correct pony''" "''s1''" 0]
    by (simp add: email(2,3) sample_signup(2) fresh_bucket) (auto simp: account_env_def sample_kdf_def argonKeyLen_def eval_nat_numeral)
qed

theorem unknown_account_login_witness:
  "fst (handleAuthLogin (account_env ''bob@acme.io'' dummyPassword) account_req no_accounts) = AuthPanic"
proof -
  have "''bob@acme.io'' = ToLower (TrimSpace ''bob@acme.io'')" by code_simp
  from unknown_account_login [OF _ _ this, of no_accounts "account_env ''bob@acme.io'' dummyPassword" account_req dummyPassword sample_session 0] show ?thesis
    by (simp add: no_accounts_def fresh_bucket account_env_def sample_kdf_ok dummyPassword_def numeral_2_eq_2)
qed

end
