(* ===== verification/Fleet.thy ===== *)
theory Fleet
  imports Joblease
begin

text \<open>
  The execution plane (runner-fleet): jobs, the two stores behind the \<^verbatim>\<open>Store\<close> interface and the fencing
  contract both promise. The in-memory store is a map of jobs with an insertion order; the Postgres store is a table of
  rows, one statement per operation, with the rows other transactions hold locked (\<^verbatim>\<open>SKIP LOCKED\<close>) as an
  argument of the claim. The contract is the relation \<open>core_step\<close> on what a run's job looks like from outside
  (status, fence token, acceptance); both stores refine it, and the fencing invariant I-11 is proved once from it, in the
  locale \<open>fenced_store\<close>. Fence tokens are plain integers: each operation adds at most 1.
\<close>

subsection \<open>Jobs (domain/job.go, domain/errors.go)\<close>

datatype FleetStatus = StatusQueued | StatusRunning | StatusSucceeded | StatusFailed | StatusTimedOut | StatusCancelled
  | StatusOther string

fun FleetStatus_string :: "FleetStatus \<Rightarrow> string" where
  "FleetStatus_string StatusQueued = ''queued''"
| "FleetStatus_string StatusRunning = ''running''"
| "FleetStatus_string StatusSucceeded = ''succeeded''"
| "FleetStatus_string StatusFailed = ''failed''"
| "FleetStatus_string StatusTimedOut = ''timed_out''"
| "FleetStatus_string StatusCancelled = ''cancelled''"
| "FleetStatus_string (StatusOther s) = s"

fun FleetTerminal :: "FleetStatus \<Rightarrow> bool" where
  "FleetTerminal StatusSucceeded = True"
| "FleetTerminal StatusFailed = True"
| "FleetTerminal StatusTimedOut = True"
| "FleetTerminal StatusCancelled = True"
| "FleetTerminal _ = False"

datatype FleetErr = FErrNotFound | FErrFenceMismatch | FErrAlreadyAccepted | FErrDuplicateRun | FErrStorage

record SimProfile =
  spDurationMS :: int
  spOutcomeBias :: string

record FleetSpec =
  fsKind :: string
  fsRepo :: string
  fsBaseSHA :: string
  fsHeadSHA :: string
  fsPatchRef :: string
  fsInputsHash :: string
  fsTimeoutMS :: int
  fsSimProfile :: "SimProfile option"
  fsPreFetchedBundleRef :: string

record Job =
  jobRunID :: string
  jobAttempt :: int
  jobFenceToken :: int
  jobTier :: int
  jobPool :: string
  jobSpec :: FleetSpec
  jobLeaseToken :: string

record Artifact =
  artName :: string
  artDigest :: string
  artSizeBytes :: int
  artContent :: string
  artContentType :: string

subsection \<open>Completions and result documents (store/store.go)\<close>

text \<open>Values a Go \<^verbatim>\<open>map[string]any\<close> holds here; JSON turns every number into a \<^verbatim>\<open>float64\<close>
  and every string slice into a slice of \<^verbatim>\<open>any\<close>.\<close>

datatype goval = GInt int | GFloat float64 | GStr string | GStrs "string list" | GAnys "goval list" | GMap "(string \<times> goval) list"

text \<open>Conversion of an integer to a \<^verbatim>\<open>float64\<close>: 53 bits of significand, ties to even. \<open>excess_bits\<close> counts the
  bits beyond them, at most 11 for a 64-bit integer.\<close>

definition excess_bits :: "int \<Rightarrow> nat" where
  "excess_bits m = length (filter (\<lambda>k. 2 ^ (53 + k) \<le> m) [0..<11])"

definition float_of_int :: "int \<Rightarrow> float64" where
  "float_of_int n = (let m = \<bar>n\<bar>; unit = 2 ^ excess_bits m; q = m div unit; r = m mod unit;
       q' = (if 2 * r > unit \<or> 2 * r = unit \<and> odd q then q + 1 else q)
     in of_int (sgn n * (q' * unit)))"

definition float_exact :: "int \<Rightarrow> bool" where
  "float_exact n \<longleftrightarrow> \<bar>n\<bar> \<le> 2 ^ 53"

lemma upt_11: "[0..<11] = [0, 1, 2, 3, 4, 5, 6, 7, 8, 9, 10]"
  by (simp add: upt_rec)

lemma float_of_int_exact: "float_exact n \<Longrightarrow> float_of_int n = of_int n"
proof -
  assume "float_exact n"
  then have "\<bar>n\<bar> < 2 ^ 53 \<or> \<bar>n\<bar> = 2 ^ 53" by (auto simp: float_exact_def)
  then have "float_of_int n = of_int (sgn n * \<bar>n\<bar>)"
  proof
    assume "\<bar>n\<bar> < 2 ^ 53"
    then have "excess_bits \<bar>n\<bar> = 0" by (simp add: excess_bits_def upt_11)
    then show ?thesis by (simp add: float_of_int_def Let_def)
  next
    assume n: "\<bar>n\<bar> = 2 ^ 53"
    then have "excess_bits \<bar>n\<bar> = 1" by (simp add: excess_bits_def upt_11)
    with n show ?thesis by (simp add: float_of_int_def Let_def)
  qed
  then show ?thesis by (simp only: sgn_mult_abs)
qed

fun json_value :: "goval \<Rightarrow> goval" where
  "json_value (GInt n) = GFloat (float_of_int n)"
| "json_value (GFloat x) = GFloat x"
| "json_value (GStr s) = GStr s"
| "json_value (GStrs xs) = GAnys (map GStr xs)"
| "json_value (GAnys vs) = GAnys (map json_value vs)"
| "json_value (GMap kvs) = GMap (map (\<lambda>(k, v). (k, json_value v)) kvs)"

record Completion =
  cmFenceToken :: int
  cmStatus :: FleetStatus
  cmLogsDigest :: string
  cmArtifactDigests :: "string list"
  cmDurationMS :: int
  cmActualCostMilliCents :: int
  cmClassification :: string
  cmLogsExcerpt :: string
  cmResults :: "TestResults option"

text \<open>\<open>marshal\<close> is \<^verbatim>\<open>json.Marshal\<close> on a census, \<open>sha\<close> the hex digest.\<close>

record FleetCodec =
  fcMarshalResults :: "TestResults \<Rightarrow> string"
  fcSHA256 :: "string \<Rightarrow> string"
  fcRFC3339 :: "gotime \<Rightarrow> string"

definition census_doc :: "TestResults \<Rightarrow> (string \<times> goval) list" where
  "census_doc r = [(''total'', GFloat (float_of_int (trTotal r))), (''passed'', GFloat (float_of_int (trPassed r))),
     (''failed'', GFloat (float_of_int (trFailed r))), (''skipped'', GFloat (float_of_int (trSkipped r))),
     (''quarantined'', GFloat (float_of_int (trQuarantined r)))]"

definition ResultRef :: "FleetCodec \<Rightarrow> Completion \<Rightarrow> (string \<times> goval) list" where
  "ResultRef fc c =
     [(''status'', GStr (FleetStatus_string (cmStatus c))), (''logs_digest'', GStr (cmLogsDigest c)),
      (''duration_ms'', GInt (cmDurationMS c)), (''cost_millicents'', GInt (cmActualCostMilliCents c))] @
     (if cmClassification c \<noteq> [] then [(''class'', GStr (cmClassification c))] else []) @
     (if cmArtifactDigests c \<noteq> [] then [(''artifact_digests'', GStrs (cmArtifactDigests c))] else []) @
     (if cmLogsExcerpt c \<noteq> [] then [(''logs_excerpt'', GStr (cmLogsExcerpt c))] else []) @
     (case cmResults c of None \<Rightarrow> []
      | Some r \<Rightarrow> [(''results'', GMap (census_doc r)), (''results_digest'', GStr (''sha256:'' @ fcSHA256 fc (fcMarshalResults fc r)))])"

record FleetJob =
  fjID :: string
  fjRunID :: string
  fjAttempt :: int
  fjTier :: int
  fjPool :: string
  fjStatus :: FleetStatus
  fjFenceToken :: int
  fjClaimedBy :: string
  fjClaimedAt :: gotime
  fjLastHeartbeat :: gotime
  fjFinishedAt :: gotime
  fjResultRef :: "(string \<times> goval) list"
  fjAccepted :: bool
  fjSpec :: FleetSpec
  fjLeaseToken :: string
  fjCreatedAt :: gotime

record Claim =
  clPool :: string
  clProvider :: string
  clLimit :: int
  clWorkerID :: string

subsection \<open>The in-memory store (store/memory.go)\<close>

record MemoryStore =
  msJobs :: "string \<rightharpoonup> FleetJob"
  msOrder :: "string list"
  msWorkers :: "string \<rightharpoonup> gotime"
  msNextID :: int

definition NewMemoryStore :: MemoryStore where
  "NewMemoryStore = \<lparr>msJobs = Map.empty, msOrder = [], msWorkers = Map.empty, msNextID = 0\<rparr>"

definition pad8 :: "int \<Rightarrow> string" where
  "pad8 n = replicate (8 - length (itoa n)) (CHR ''0'') @ itoa n"

definition mem_Enqueue :: "gotime \<Rightarrow> Job \<Rightarrow> MemoryStore \<Rightarrow> FleetErr + MemoryStore" where
  "mem_Enqueue now job s =
    (case msJobs s (jobRunID job) of
       Some _ \<Rightarrow> Inl FErrDuplicateRun
     | None \<Rightarrow> let next = msNextID s + 1 in
         Inr (s\<lparr>msNextID := next,
           msJobs := (msJobs s)(jobRunID job \<mapsto> \<lparr>fjID = ''job_'' @ pad8 next, fjRunID = jobRunID job, fjAttempt = jobAttempt job,
             fjTier = jobTier job, fjPool = jobPool job, fjStatus = StatusQueued, fjFenceToken = 0, fjClaimedBy = [],
             fjClaimedAt = zero_time, fjLastHeartbeat = zero_time, fjFinishedAt = zero_time, fjResultRef = [], fjAccepted = False,
             fjSpec = jobSpec job, fjLeaseToken = jobLeaseToken job, fjCreatedAt = now\<rparr>),
           msOrder := msOrder s @ [jobRunID job]\<rparr>))"

definition mem_EnsureWorker :: "string \<Rightarrow> gotime \<Rightarrow> MemoryStore \<Rightarrow> MemoryStore" where
  "mem_EnsureWorker ident now s = s\<lparr>msWorkers := (msWorkers s)(ident \<mapsto> now)\<rparr>"

definition claimed_job :: "FleetJob \<Rightarrow> Job" where
  "claimed_job j = \<lparr>jobRunID = fjRunID j, jobAttempt = fjAttempt j, jobFenceToken = fjFenceToken j, jobTier = fjTier j,
     jobPool = fjPool j, jobSpec = fjSpec j, jobLeaseToken = fjLeaseToken j\<rparr>"

text \<open>One iteration of the claim loop over the insertion order. A run id without job would be a nil dereference; the
  invariant \<open>mem_inv\<close> excludes it.\<close>

definition claim_one :: "Claim \<Rightarrow> gotime \<Rightarrow> FleetJob \<Rightarrow> FleetJob" where
  "claim_one c now j = j\<lparr>fjStatus := StatusRunning, fjFenceToken := fjFenceToken j + 1, fjClaimedBy := clWorkerID c,
     fjClaimedAt := now, fjLastHeartbeat := now, fjFinishedAt := zero_time, fjAccepted := False, fjResultRef := []\<rparr>"

fun claim_loop :: "Claim \<Rightarrow> gotime \<Rightarrow> string list \<Rightarrow> (string \<rightharpoonup> FleetJob) \<Rightarrow> Job list \<Rightarrow> (string \<rightharpoonup> FleetJob) \<times> Job list" where
  "claim_loop c now [] jobs claimed = (jobs, claimed)"
| "claim_loop c now (rid # order) jobs claimed =
    (if int (length claimed) \<ge> clLimit c then (jobs, claimed)
     else case jobs rid of
       None \<Rightarrow> claim_loop c now order jobs claimed
     | Some j \<Rightarrow>
         if fjPool j \<noteq> clPool c \<or> fjStatus j \<noteq> StatusQueued then claim_loop c now order jobs claimed
         else claim_loop c now order (jobs(rid \<mapsto> claim_one c now j)) (claimed @ [claimed_job (claim_one c now j)]))"

definition mem_ClaimJobs :: "Claim \<Rightarrow> gotime \<Rightarrow> MemoryStore \<Rightarrow> Job list \<times> MemoryStore" where
  "mem_ClaimJobs c now s =
    (let (jobs, claimed) = claim_loop c now (msOrder s) (msJobs s) []
     in (claimed, s\<lparr>msWorkers := (msWorkers s)(clWorkerID c \<mapsto> now), msJobs := jobs\<rparr>))"

definition mem_Get :: "string \<Rightarrow> MemoryStore \<Rightarrow> FleetErr + FleetJob" where
  "mem_Get rid s = (case msJobs s rid of None \<Rightarrow> Inl FErrNotFound | Some j \<Rightarrow> Inr j)"

definition mem_Heartbeat :: "string \<Rightarrow> int \<Rightarrow> gotime \<Rightarrow> MemoryStore \<Rightarrow> FleetErr + MemoryStore" where
  "mem_Heartbeat rid fenceToken now s =
    (case msJobs s rid of
       None \<Rightarrow> Inl FErrNotFound
     | Some j \<Rightarrow>
         if fjStatus j \<noteq> StatusRunning \<or> fjFenceToken j \<noteq> fenceToken then Inl FErrFenceMismatch
         else Inr (s\<lparr>msJobs := (msJobs s)(rid \<mapsto> j\<lparr>fjLastHeartbeat := now\<rparr>),
           msWorkers := (if fjClaimedBy j \<noteq> [] then (msWorkers s)(fjClaimedBy j \<mapsto> now) else msWorkers s)\<rparr>))"

definition mem_Complete :: "FleetCodec \<Rightarrow> string \<Rightarrow> Completion \<Rightarrow> gotime \<Rightarrow> MemoryStore \<Rightarrow> FleetErr + MemoryStore" where
  "mem_Complete fc rid c now s =
    (case msJobs s rid of
       None \<Rightarrow> Inl FErrNotFound
     | Some j \<Rightarrow>
         if fjAccepted j then Inl FErrAlreadyAccepted
         else if fjStatus j \<noteq> StatusRunning \<or> fjFenceToken j \<noteq> cmFenceToken c then Inl FErrFenceMismatch
         else Inr (s\<lparr>msJobs := (msJobs s)(rid \<mapsto> j\<lparr>fjStatus := cmStatus c, fjAccepted := True, fjFinishedAt := now,
           fjResultRef := ResultRef fc c\<rparr>)\<rparr>))"

definition mem_Cancel :: "FleetCodec \<Rightarrow> string \<Rightarrow> string \<Rightarrow> gotime \<Rightarrow> MemoryStore \<Rightarrow> FleetErr + bool \<times> MemoryStore" where
  "mem_Cancel fc rid reason now s =
    (case msJobs s rid of
       None \<Rightarrow> Inl FErrNotFound
     | Some j \<Rightarrow>
         if FleetTerminal (fjStatus j) then Inr (False, s)
         else Inr (True, s\<lparr>msJobs := (msJobs s)(rid \<mapsto> j\<lparr>fjStatus := StatusCancelled, fjFenceToken := fjFenceToken j + 1,
           fjFinishedAt := now, fjResultRef := [(''reason'', GStr reason), (''cancelled_at'', GStr (fcRFC3339 fc now))]\<rparr>)\<rparr>))"

definition mem_RecordArtifacts :: "string \<Rightarrow> Artifact list \<Rightarrow> MemoryStore \<Rightarrow> FleetErr + MemoryStore" where
  "mem_RecordArtifacts rid artifacts s = (case msJobs s rid of None \<Rightarrow> Inl FErrNotFound | Some _ \<Rightarrow> Inr s)"

definition requeue_one :: "FleetJob \<Rightarrow> FleetJob" where
  "requeue_one j = j\<lparr>fjStatus := StatusQueued, fjFenceToken := fjFenceToken j + 1, fjClaimedBy := []\<rparr>"

fun requeue_loop :: "duration \<Rightarrow> gotime \<Rightarrow> string list \<Rightarrow> (string \<rightharpoonup> FleetJob) \<Rightarrow> string list \<Rightarrow> (string \<rightharpoonup> FleetJob) \<times> string list" where
  "requeue_loop threshold now [] jobs requeued = (jobs, requeued)"
| "requeue_loop threshold now (rid # order) jobs requeued =
    (case jobs rid of
       None \<Rightarrow> requeue_loop threshold now order jobs requeued
     | Some j \<Rightarrow>
         if fjStatus j \<noteq> StatusRunning \<or> now - fjLastHeartbeat j < threshold then requeue_loop threshold now order jobs requeued
         else requeue_loop threshold now order (jobs(rid \<mapsto> requeue_one j)) (requeued @ [rid]))"

definition mem_RequeueStale :: "duration \<Rightarrow> gotime \<Rightarrow> MemoryStore \<Rightarrow> string list \<times> MemoryStore" where
  "mem_RequeueStale threshold now s =
    (let (jobs, requeued) = requeue_loop threshold now (msOrder s) (msJobs s) []
     in (requeued, s\<lparr>msJobs := jobs, msWorkers := (\<lambda>ident. case msWorkers s ident of None \<Rightarrow> None
           | Some hb \<Rightarrow> if now - hb \<ge> threshold then None else Some hb)\<rparr>))"

fun depth_loop :: "string list \<Rightarrow> (string \<rightharpoonup> FleetJob) \<Rightarrow> (string \<rightharpoonup> int) \<Rightarrow> (string \<rightharpoonup> int)" where
  "depth_loop [] jobs depth = depth"
| "depth_loop (rid # order) jobs depth =
    (case jobs rid of
       None \<Rightarrow> depth_loop order jobs depth
     | Some j \<Rightarrow> if fjStatus j = StatusQueued
         then let key = fjPool j @ ''/'' @ itoa (fjTier j) in depth_loop order jobs (depth(key \<mapsto> get0 depth key + 1))
         else depth_loop order jobs depth)"

definition mem_QueueDepth :: "MemoryStore \<Rightarrow> (string \<rightharpoonup> int)" where
  "mem_QueueDepth s = depth_loop (msOrder s) (msJobs s) Map.empty"

fun feed_loop :: "nat \<Rightarrow> string list \<Rightarrow> (string \<rightharpoonup> FleetJob) \<Rightarrow> FleetJob list \<Rightarrow> FleetJob list" where
  "feed_loop limit [] jobs out = out"
| "feed_loop limit (rid # order) jobs out =
    (if length out \<ge> limit then out
     else case jobs rid of
       None \<Rightarrow> feed_loop limit order jobs out
     | Some j \<Rightarrow> if fjAccepted j \<and> FleetTerminal (fjStatus j) then feed_loop limit order jobs (out @ [j]) else feed_loop limit order jobs out)"

definition mem_TerminalAccepted :: "nat \<Rightarrow> MemoryStore \<Rightarrow> FleetJob list" where
  "mem_TerminalAccepted limit s = feed_loop limit (rev (msOrder s)) (msJobs s) []"

subsection \<open>The fencing contract\<close>

record JobCore =
  kAttempt :: int
  kTier :: int
  kPool :: string
  kSpec :: FleetSpec
  kLease :: string
  kStatus :: FleetStatus
  kFence :: int
  kAccepted :: bool

inductive core_step :: "JobCore option \<Rightarrow> JobCore option \<Rightarrow> bool" where
  enqueue: "kStatus c = StatusQueued \<Longrightarrow> kFence c = 0 \<Longrightarrow> \<not> kAccepted c \<Longrightarrow> core_step None (Some c)"
| claim: "kStatus c = StatusQueued \<Longrightarrow> core_step (Some c) (Some (c\<lparr>kStatus := StatusRunning, kFence := kFence c + 1\<rparr>))"
| complete: "kStatus c = StatusRunning \<Longrightarrow> \<not> kAccepted c \<Longrightarrow> FleetTerminal st \<Longrightarrow>
    core_step (Some c) (Some (c\<lparr>kStatus := st, kAccepted := True\<rparr>))"
| cancel: "\<not> FleetTerminal (kStatus c) \<Longrightarrow> core_step (Some c) (Some (c\<lparr>kStatus := StatusCancelled, kFence := kFence c + 1\<rparr>))"
| requeue: "kStatus c = StatusRunning \<Longrightarrow> core_step (Some c) (Some (c\<lparr>kStatus := StatusQueued, kFence := kFence c + 1\<rparr>))"

inductive_cases core_step_SomeE: "core_step (Some c) x"
inductive_cases core_step_NoneE: "core_step None x"

definition same_job :: "JobCore \<Rightarrow> JobCore \<Rightarrow> bool" where
  "same_job c c' \<longleftrightarrow> kAttempt c' = kAttempt c \<and> kTier c' = kTier c \<and> kPool c' = kPool c \<and> kSpec c' = kSpec c \<and> kLease c' = kLease c"

definition core_ok :: "JobCore \<Rightarrow> bool" where
  "core_ok c \<longleftrightarrow> 0 \<le> kFence c \<and> (kStatus c = StatusRunning \<longrightarrow> 1 \<le> kFence c) \<and> (kAccepted c \<longrightarrow> FleetTerminal (kStatus c)) \<and>
     (kStatus c = StatusQueued \<or> kStatus c = StatusRunning \<or> FleetTerminal (kStatus c))"

text \<open>What one step may do to a job that exists.\<close>

lemma core_step_Some:
  assumes "core_step (Some c) x"
  obtains c' where "x = Some c'" "same_job c c'" "\<not> FleetTerminal (kStatus c)" "kFence c \<le> kFence c'"
    "kFence c < kFence c' \<or> kStatus c = StatusRunning \<and> kAccepted c' \<and> FleetTerminal (kStatus c')" "core_ok c \<longrightarrow> core_ok c'"
  using assms by (cases rule: core_step_SomeE) (auto simp: same_job_def core_ok_def)

lemma core_step_new: "core_step None (Some c) \<Longrightarrow> core_ok c \<and> kFence c = 0 \<and> kStatus c = StatusQueued"
  by (auto simp: core_ok_def elim: core_step_NoneE)

lemma terminal_frozen: "core_step\<^sup>*\<^sup>* (Some c) x \<Longrightarrow> FleetTerminal (kStatus c) \<Longrightarrow> x = Some c"
  by (induction rule: rtranclp_induct) (auto elim: core_step_Some)

lemma core_steps_Some:
  assumes "core_step\<^sup>*\<^sup>* (Some c) x"
  shows "\<exists>c'. x = Some c' \<and> same_job c c' \<and> kFence c \<le> kFence c' \<and> (core_ok c \<longrightarrow> core_ok c')"
  using assms
proof (induction rule: rtranclp_induct)
  case base
  show ?case by (simp add: same_job_def)
next
  case (step y z)
  then obtain c1 where "y = Some c1" "same_job c c1" "kFence c \<le> kFence c1" "core_ok c \<longrightarrow> core_ok c1" by blast
  with step(2) show ?case by (auto elim!: core_step_Some simp: same_job_def)
qed

text \<open>While the token is the same, the holder's job is untouched or completed.\<close>

lemma same_fence_same_holder:
  assumes "core_step\<^sup>*\<^sup>* (Some c) (Some c')" and "kFence c' = kFence c"
  shows "c' = c \<or> kStatus c = StatusRunning \<and> kAccepted c' \<and> FleetTerminal (kStatus c')"
  using assms(1)
proof (cases rule: converse_rtranclpE)
  case (step y)
  from step(1) obtain c1 where c1: "y = Some c1" "kFence c \<le> kFence c1"
      "kFence c < kFence c1 \<or> kStatus c = StatusRunning \<and> kAccepted c1 \<and> FleetTerminal (kStatus c1)"
    by (auto elim: core_step_Some)
  from core_steps_Some [OF step(2) [unfolded c1(1)]] have "kFence c1 \<le> kFence c'" by auto
  with c1 assms(2) have "kStatus c = StatusRunning \<and> kAccepted c1 \<and> FleetTerminal (kStatus c1)" by auto
  moreover from this terminal_frozen [OF step(2) [unfolded c1(1)]] have "c' = c1" by auto
  ultimately show ?thesis by blast
qed simp

text \<open>A store that refines the contract: \<open>core s r\<close> is what run \<open>r\<close> looks like in state \<open>s\<close>,
  \<open>step\<close> is one operation with any arguments.\<close>

locale fenced_store =
  fixes core :: "'s \<Rightarrow> string \<Rightarrow> JobCore option" and inv :: "'s \<Rightarrow> bool" and step :: "'s \<Rightarrow> 's \<Rightarrow> bool"
  assumes inv_step: "inv s \<Longrightarrow> step s s' \<Longrightarrow> inv s'"
    and refines: "inv s \<Longrightarrow> step s s' \<Longrightarrow> core_step\<^sup>=\<^sup>= (core s r) (core s' r)"
    and inv_ok: "inv s \<Longrightarrow> core s r = Some c \<Longrightarrow> core_ok c"
begin

lemma reach:
  assumes "step\<^sup>*\<^sup>* s s'" and "inv s"
  shows "inv s' \<and> core_step\<^sup>*\<^sup>* (core s r) (core s' r)"
  using assms
proof (induction rule: rtranclp_induct)
  case (step y z)
  then have "core_step\<^sup>=\<^sup>= (core y r) (core z r)" by (intro refines) simp_all
  with step show ?case by (auto intro: inv_step rtranclp.rtrancl_into_rtrancl)
qed simp

lemma accepted_final:
  assumes "inv s" and "core s r = Some c" and "kAccepted c" and "step\<^sup>*\<^sup>* s s'"
  shows "core s' r = Some c"
  using reach [OF assms(4,1), of r] inv_ok [OF assms(1,2)] assms(2,3) by (auto simp: core_ok_def dest: terminal_frozen)

lemma fence_monotone:
  assumes "inv s" and "core s r = Some c" and "step\<^sup>*\<^sup>* s s'"
  shows "\<exists>c'. core s' r = Some c' \<and> same_job c c' \<and> kFence c \<le> kFence c'"
  using reach [OF assms(3,1), of r] assms(2) core_steps_Some by fastforce

lemma stale_token:
  assumes "inv s" and "core s r = Some c" and "f < kFence c" and "step\<^sup>*\<^sup>* s s'" and "core s' r = Some c'"
  shows "kFence c' \<noteq> f"
  using fence_monotone [OF assms(1,2,4)] assms(3,5) by auto

lemma holder_untouched:
  assumes "inv s" and "core s r = Some c" and "kStatus c = StatusRunning" and "step\<^sup>*\<^sup>* s s'" and "core s' r = Some c'"
    and "kFence c' = kFence c"
  shows "c' = c \<or> kAccepted c' \<and> FleetTerminal (kStatus c')"
  using same_fence_same_holder [OF _ assms(6)] reach [OF assms(4,1), of r] assms(2,5) by auto

end


subsection \<open>The in-memory store refines the contract\<close>

definition job_core :: "FleetJob \<Rightarrow> JobCore" where
  "job_core j = \<lparr>kAttempt = fjAttempt j, kTier = fjTier j, kPool = fjPool j, kSpec = fjSpec j, kLease = fjLeaseToken j,
     kStatus = fjStatus j, kFence = fjFenceToken j, kAccepted = fjAccepted j\<rparr>"

definition mem_core :: "MemoryStore \<Rightarrow> string \<Rightarrow> JobCore option" where
  "mem_core s r = map_option job_core (msJobs s r)"

definition mem_inv :: "MemoryStore \<Rightarrow> bool" where
  "mem_inv s \<longleftrightarrow> distinct (msOrder s) \<and> set (msOrder s) = dom (msJobs s) \<and>
     (\<forall>r j. msJobs s r = Some j \<longrightarrow> fjRunID j = r \<and> core_ok (job_core j))"

text \<open>One operation, with any arguments; completions carry a terminal status, as both callers guarantee (the handler
  checks it, providers report one).\<close>

inductive mem_step :: "MemoryStore \<Rightarrow> MemoryStore \<Rightarrow> bool" where
  enqueue: "mem_Enqueue now job s = Inr s' \<Longrightarrow> mem_step s s'"
| worker: "mem_step s (mem_EnsureWorker ident now s)"
| claim: "mem_ClaimJobs c now s = (claimed, s') \<Longrightarrow> mem_step s s'"
| heartbeat: "mem_Heartbeat r f now s = Inr s' \<Longrightarrow> mem_step s s'"
| complete: "mem_Complete fc r c now s = Inr s' \<Longrightarrow> FleetTerminal (cmStatus c) \<Longrightarrow> mem_step s s'"
| cancel: "mem_Cancel fc r reason now s = Inr (b, s') \<Longrightarrow> mem_step s s'"
| artifacts: "mem_RecordArtifacts r arts s = Inr s' \<Longrightarrow> mem_step s s'"
| requeue: "mem_RequeueStale threshold now s = (requeued, s') \<Longrightarrow> mem_step s s'"

text \<open>What the two loops do to a single job.\<close>

lemma claim_loop_jobs:
  "distinct order \<Longrightarrow> claim_loop c now order jobs claimed = (jobs', claimed') \<Longrightarrow>
     jobs' r = jobs r \<or> r \<in> set order \<and> (\<exists>j. jobs r = Some j \<and> fjStatus j = StatusQueued \<and> fjPool j = clPool c \<and>
       jobs' r = Some (claim_one c now j))"
proof (induction c now order jobs claimed arbitrary: jobs' claimed' rule: claim_loop.induct)
  case (2 c now rid order jobs claimed)
  show ?case
  proof (cases "\<exists>j. \<not> int (length claimed) \<ge> clLimit c \<and> jobs rid = Some j \<and> fjPool j = clPool c \<and> fjStatus j = StatusQueued")
    case True
    then obtain j where j: "\<not> int (length claimed) \<ge> clLimit c" "jobs rid = Some j" "fjPool j = clPool c" "fjStatus j = StatusQueued"
      by blast
    with 2(5) have run: "claim_loop c now order (jobs(rid \<mapsto> claim_one c now j)) (claimed @ [claimed_job (claim_one c now j)]) = (jobs', claimed')"
      by simp
    from 2(3) [OF j(1,2) _ _ run] j 2(4) show ?thesis by (cases "r = rid") auto
  next
    case False
    with 2(1,2,4,5) show ?thesis by (auto split: if_splits option.splits)
  qed
qed simp

lemma claim_loop_dom: "claim_loop c now order jobs claimed = (jobs', claimed') \<Longrightarrow> dom jobs' = dom jobs"
  by (induction c now order jobs claimed arbitrary: jobs' claimed' rule: claim_loop.induct)
     (auto split: if_splits option.splits)

lemma requeue_loop_jobs:
  "distinct order \<Longrightarrow> requeue_loop th now order jobs acc = (jobs', acc') \<Longrightarrow>
     jobs' r = jobs r \<or> r \<in> set order \<and> (\<exists>j. jobs r = Some j \<and> fjStatus j = StatusRunning \<and> jobs' r = Some (requeue_one j))"
proof (induction th now order jobs acc arbitrary: jobs' acc' rule: requeue_loop.induct)
  case (2 th now rid order jobs acc)
  show ?case
  proof (cases "\<exists>j. jobs rid = Some j \<and> fjStatus j = StatusRunning \<and> \<not> now - fjLastHeartbeat j < th")
    case True
    then obtain j where j: "jobs rid = Some j" "fjStatus j = StatusRunning" "\<not> now - fjLastHeartbeat j < th" by blast
    with 2(5) have run: "requeue_loop th now order (jobs(rid \<mapsto> requeue_one j)) (acc @ [rid]) = (jobs', acc')" by simp
    from 2(3) [OF j(1) _ _ run] j 2(4) show ?thesis by (cases "r = rid") auto
  next
    case False
    with 2(1,2,4,5) show ?thesis by (auto split: if_splits option.splits)
  qed
qed simp

lemma requeue_loop_dom: "requeue_loop th now order jobs acc = (jobs', acc') \<Longrightarrow> dom jobs' = dom jobs"
  by (induction th now order jobs acc arbitrary: jobs' acc' rule: requeue_loop.induct)
     (auto split: if_splits option.splits)

text \<open>Every operation changes each job by at most one step of the contract, keeps its key and never loses it.\<close>

definition mem_change :: "(string \<rightharpoonup> FleetJob) \<Rightarrow> (string \<rightharpoonup> FleetJob) \<Rightarrow> string \<Rightarrow> bool" where
  "mem_change m m' r \<longleftrightarrow> (core_step\<^sup>=\<^sup>= (map_option job_core (m r)) (map_option job_core (m' r)) \<and>
     (\<forall>j'. m' r = Some j' \<longrightarrow> (case m r of None \<Rightarrow> fjRunID j' = r | Some j \<Rightarrow> fjRunID j' = fjRunID j)))"

lemma mem_change_refl: "m' r = m r \<Longrightarrow> mem_change m m' r"
  by (simp add: mem_change_def split: option.split)

lemma mem_change_some:
  "m r = Some j \<Longrightarrow> m' r = Some j' \<Longrightarrow> fjRunID j' = fjRunID j \<Longrightarrow> core_step (Some (job_core j)) (Some (job_core j')) \<Longrightarrow> mem_change m m' r"
  by (simp add: mem_change_def)

lemma mem_change_upd:
  "m' = m(r' \<mapsto> j') \<Longrightarrow> m r' = Some j \<Longrightarrow> fjRunID j' = fjRunID j \<Longrightarrow> core_step (Some (job_core j)) (Some (job_core j')) \<Longrightarrow> mem_change m m' r"
  by (cases "r = r'") (auto simp: mem_change_some mem_change_refl)

lemma claim_one_step:
  assumes "fjStatus j = StatusQueued" and "core_ok (job_core j)"
  shows "core_step (Some (job_core j)) (Some (job_core (claim_one c now j)))"
proof -
  have "\<not> fjAccepted j" using assms by (auto simp: core_ok_def job_core_def)
  then have "job_core (claim_one c now j) = (job_core j)\<lparr>kStatus := StatusRunning, kFence := kFence (job_core j) + 1\<rparr>"
    by (simp add: job_core_def claim_one_def)
  moreover have "kStatus (job_core j) = StatusQueued" using assms(1) by (simp add: job_core_def)
  ultimately show ?thesis using core_step.claim [of "job_core j"] by (simp only:)
qed

lemma requeue_one_step:
  assumes "fjStatus j = StatusRunning"
  shows "core_step (Some (job_core j)) (Some (job_core (requeue_one j)))"
proof -
  have "job_core (requeue_one j) = (job_core j)\<lparr>kStatus := StatusQueued, kFence := kFence (job_core j) + 1\<rparr>"
    by (simp add: job_core_def requeue_one_def)
  moreover have "kStatus (job_core j) = StatusRunning" using assms by (simp add: job_core_def)
  ultimately show ?thesis using core_step.requeue [of "job_core j"] by (simp only:)
qed


lemma complete_step:
  assumes "fjStatus j = StatusRunning" and "\<not> fjAccepted j" and "FleetTerminal st"
  shows "core_step (Some (job_core j)) (Some (job_core (j\<lparr>fjStatus := st, fjAccepted := True, fjFinishedAt := now, fjResultRef := ref\<rparr>)))"
proof -
  have "job_core (j\<lparr>fjStatus := st, fjAccepted := True, fjFinishedAt := now, fjResultRef := ref\<rparr>) =
      (job_core j)\<lparr>kStatus := st, kAccepted := True\<rparr>"
    by (simp add: job_core_def)
  moreover have "kStatus (job_core j) = StatusRunning" "\<not> kAccepted (job_core j)" using assms by (simp_all add: job_core_def)
  ultimately show ?thesis using core_step.complete [of "job_core j" st] assms(3) by (simp only: simp_thms)
qed

lemma cancel_step:
  assumes "\<not> FleetTerminal (fjStatus j)"
  shows "core_step (Some (job_core j)) (Some (job_core (j\<lparr>fjStatus := StatusCancelled, fjFenceToken := fjFenceToken j + 1,
    fjFinishedAt := now, fjResultRef := ref\<rparr>)))"
proof -
  have "job_core (j\<lparr>fjStatus := StatusCancelled, fjFenceToken := fjFenceToken j + 1, fjFinishedAt := now, fjResultRef := ref\<rparr>) =
      (job_core j)\<lparr>kStatus := StatusCancelled, kFence := kFence (job_core j) + 1\<rparr>"
    by (simp add: job_core_def)
  moreover have "\<not> FleetTerminal (kStatus (job_core j))" using assms by (simp add: job_core_def)
  ultimately show ?thesis using core_step.cancel [of "job_core j"] by (simp only: simp_thms)
qed

lemma mem_step_change:
  assumes "mem_step s s'" and inv: "mem_inv s"
  shows "mem_change (msJobs s) (msJobs s') r"
  using assms(1)
proof cases
  case (enqueue now job)
  then have new: "msJobs s (jobRunID job) = None" by (auto simp: mem_Enqueue_def split: option.splits)
  show ?thesis
  proof (cases "r = jobRunID job")
    case True
    with enqueue new show ?thesis
      by (auto simp: mem_Enqueue_def mem_change_def Let_def job_core_def intro!: core_step.enqueue)
  next
    case False
    with enqueue new show ?thesis by (auto simp: mem_Enqueue_def Let_def intro!: mem_change_refl)
  qed
next
  case (worker ident now)
  then show ?thesis by (simp add: mem_EnsureWorker_def mem_change_refl)
next
  case (claim c now claimed)
  obtain jobs where loop: "claim_loop c now (msOrder s) (msJobs s) [] = (jobs, claimed)" and s': "msJobs s' = jobs"
    using claim by (auto simp: mem_ClaimJobs_def split: prod.splits)
  from claim_loop_jobs [OF _ loop, of r] inv consider "jobs r = msJobs s r"
    | j where "msJobs s r = Some j" "fjStatus j = StatusQueued" "jobs r = Some (claim_one c now j)" by (auto simp: mem_inv_def)
  then show ?thesis
  proof cases
    case 1
    then show ?thesis by (simp add: s' mem_change_refl)
  next
    case 2
    from 2(1) inv have "core_ok (job_core j)" by (auto simp: mem_inv_def)
    from claim_one_step [OF 2(2) this] show ?thesis unfolding s'
      by (intro mem_change_some [where j = j and j' = "claim_one c now j"] 2) (simp_all add: claim_one_def)
  qed
next
  case (heartbeat r' f now)
  then show ?thesis by (auto simp: mem_Heartbeat_def mem_change_def job_core_def split: option.splits if_splits)
next
  case (complete fc r' c now)
  then obtain j where j: "msJobs s r' = Some j" "\<not> fjAccepted j" "fjStatus j = StatusRunning"
      "msJobs s' = (msJobs s)(r' \<mapsto> j\<lparr>fjStatus := cmStatus c, fjAccepted := True, fjFinishedAt := now, fjResultRef := ResultRef fc c\<rparr>)"
    by (auto simp: mem_Complete_def split: option.splits if_splits)
  show ?thesis by (rule mem_change_upd [OF j(4,1) _ complete_step [OF j(3,2) complete(2)]]) simp
next
  case (cancel fc r' reason now b)
  then consider "s' = s" | j where "msJobs s r' = Some j" "\<not> FleetTerminal (fjStatus j)"
      "msJobs s' = (msJobs s)(r' \<mapsto> j\<lparr>fjStatus := StatusCancelled, fjFenceToken := fjFenceToken j + 1, fjFinishedAt := now,
        fjResultRef := [(''reason'', GStr reason), (''cancelled_at'', GStr (fcRFC3339 fc now))]\<rparr>)"
    by (auto simp: mem_Cancel_def split: option.splits if_splits)
  then show ?thesis
  proof cases
    case 2
    show ?thesis by (rule mem_change_upd [OF 2(3,1) _ cancel_step [OF 2(2)]]) simp
  qed (simp add: mem_change_refl)
next
  case (artifacts r' arts)
  then show ?thesis by (auto simp: mem_RecordArtifacts_def mem_change_refl split: option.splits)
next
  case (requeue th now requeued)
  obtain jobs where loop: "requeue_loop th now (msOrder s) (msJobs s) [] = (jobs, requeued)" and s': "msJobs s' = jobs"
    using requeue by (auto simp: mem_RequeueStale_def split: prod.splits)
  from requeue_loop_jobs [OF _ loop, of r] inv consider "jobs r = msJobs s r"
    | j where "msJobs s r = Some j" "fjStatus j = StatusRunning" "jobs r = Some (requeue_one j)" by (auto simp: mem_inv_def)
  then show ?thesis
  proof cases
    case 1
    then show ?thesis by (simp add: s' mem_change_refl)
  next
    case 2
    from requeue_one_step [OF 2(2)] show ?thesis unfolding s'
      by (intro mem_change_some [where j = j and j' = "requeue_one j"] 2) (simp_all add: requeue_one_def)
  qed
qed

lemma mem_step_order:
  assumes "mem_step s s'" and "mem_inv s"
  shows "distinct (msOrder s') \<and> set (msOrder s') = dom (msJobs s')"
  using assms(1)
proof cases
  case (claim c now claimed)
  then have "msOrder s' = msOrder s" "dom (msJobs s') = dom (msJobs s)"
    using claim_loop_dom [of c now "msOrder s" "msJobs s" "[]"] by (force simp: mem_ClaimJobs_def split: prod.splits)+
  with assms(2) show ?thesis by (simp add: mem_inv_def)
next
  case (requeue th now requeued)
  then have "msOrder s' = msOrder s" "dom (msJobs s') = dom (msJobs s)"
    using requeue_loop_dom [of th now "msOrder s" "msJobs s" "[]"] by (force simp: mem_RequeueStale_def split: prod.splits)+
  with assms(2) show ?thesis by (simp add: mem_inv_def)
qed (use assms(2) in \<open>auto simp: mem_inv_def mem_Enqueue_def mem_EnsureWorker_def mem_Heartbeat_def mem_Complete_def mem_Cancel_def
       mem_RecordArtifacts_def Let_def split: option.splits if_splits\<close>)

lemma mem_step_inv:
  assumes "mem_step s s'" and "mem_inv s"
  shows "mem_inv s'"
proof -
  have "fjRunID j' = r \<and> core_ok (job_core j')" if j': "msJobs s' r = Some j'" for r j'
  proof -
    have change: "mem_change (msJobs s) (msJobs s') r" by (rule mem_step_change [OF assms])
    show ?thesis
    proof (cases "msJobs s r")
      case None
      with change j' show ?thesis by (auto simp: mem_change_def dest: core_step_new)
    next
      case (Some j)
      then have "core_ok (job_core j)" "fjRunID j = r" using assms(2) by (auto simp: mem_inv_def)
      with change Some j' show ?thesis by (auto simp: mem_change_def elim!: core_step_Some)
    qed
  qed
  with mem_step_order [OF assms] show ?thesis by (auto simp: mem_inv_def)
qed

interpretation mem: fenced_store mem_core mem_inv mem_step
proof
  fix s s' r c
  show "mem_inv s \<Longrightarrow> mem_step s s' \<Longrightarrow> mem_inv s'" by (rule mem_step_inv)
  show "mem_inv s \<Longrightarrow> mem_step s s' \<Longrightarrow> core_step\<^sup>=\<^sup>= (mem_core s r) (mem_core s' r)"
    using mem_step_change [of s s' r] by (simp add: mem_change_def mem_core_def)
  show "mem_inv s \<Longrightarrow> mem_core s r = Some c \<Longrightarrow> core_ok c" by (auto simp: mem_inv_def mem_core_def)
qed

end
