(* ===== verification/Fleet_PG.thy ===== *)
theory Fleet_PG
  imports Fleet
begin

text \<open>
  The Postgres store of the fleet (store/pg.go, pg_lifecycle.go, pg_job_read.go, pg_maintenance.go): one table of jobs and
  one of workers, nullable columns as options, each operation the statement it sends. \<^verbatim>\<open>UPDATE\<close> acts on the
  rows its condition selects and its command tag counts them; the check constraint on the status column and the foreign
  key \<^verbatim>\<open>claimed_by ... ON DELETE SET NULL\<close> are part of the statements. It refines the fencing contract of
  \<^verbatim>\<open>Fleet\<close>, and its rulings are compared with those of the in-memory store.
\<close>

subsection \<open>Tables\<close>

record PGRow =
  pgID :: string
  pgRunID :: string
  pgAttempt :: int
  pgProvider :: "string option"
  pgPool :: string
  pgTier :: int
  pgStatus :: FleetStatus
  pgFenceToken :: int
  pgClaimedBy :: "string option"
  pgClaimedAt :: "gotime option"
  pgLastHeartbeat :: "gotime option"
  pgFinishedAt :: "gotime option"
  pgResultRef :: "(string \<times> goval) list option"
  pgAccepted :: bool
  pgSpec :: FleetSpec
  pgLeaseToken :: string
  pgCreatedAt :: gotime

record PGWorker =
  pwID :: string
  pwPool :: string
  pwCapacity :: int
  pwLastHeartbeat :: gotime

record PGArtifact =
  paDigest :: string
  paKind :: string
  paSizeBytes :: int
  paPayload :: string
  paProducedBy :: string
  paCreatedAt :: gotime

record PGStore =
  pgJobs :: "PGRow list"
  pgWorkers :: "PGWorker list"
  pgArtifacts :: "PGArtifact list"

definition update_where :: "('a \<Rightarrow> bool) \<Rightarrow> ('a \<Rightarrow> 'a) \<Rightarrow> 'a list \<Rightarrow> 'a list" where
  "update_where P f rows = map (\<lambda>x. if P x then f x else x) rows"

definition rows_affected :: "('a \<Rightarrow> bool) \<Rightarrow> 'a list \<Rightarrow> nat" where
  "rows_affected P rows = length (filter P rows)"

text \<open>The check constraint on the status column.\<close>

definition status_check :: "FleetStatus \<Rightarrow> bool" where
  "status_check st = (case st of StatusOther _ \<Rightarrow> False | _ \<Rightarrow> True)"

definition json_doc :: "(string \<times> goval) list \<Rightarrow> (string \<times> goval) list" where
  "json_doc kvs = map (\<lambda>(k, v). (k, json_value v)) kvs"

subsection \<open>Operations\<close>

definition pg_Enqueue :: "gotime \<Rightarrow> Job \<Rightarrow> PGStore \<Rightarrow> FleetErr + PGStore" where
  "pg_Enqueue now job s =
    (if list_ex (\<lambda>row. pgRunID row = jobRunID job) (pgJobs s) then Inl FErrDuplicateRun
     else Inr (s\<lparr>pgJobs := pgJobs s @ [\<lparr>pgID = ''job_'' @ jobRunID job, pgRunID = jobRunID job, pgAttempt = jobAttempt job,
       pgProvider = None, pgPool = jobPool job, pgTier = jobTier job, pgStatus = StatusQueued, pgFenceToken = 0, pgClaimedBy = None,
       pgClaimedAt = None, pgLastHeartbeat = None, pgFinishedAt = None, pgResultRef = None, pgAccepted = False, pgSpec = jobSpec job,
       pgLeaseToken = jobLeaseToken job, pgCreatedAt = now\<rparr>]\<rparr>))"

definition pg_EnsureWorker :: "string \<Rightarrow> string \<Rightarrow> int \<Rightarrow> gotime \<Rightarrow> PGStore \<Rightarrow> PGStore" where
  "pg_EnsureWorker ident pool capacity now s = s\<lparr>pgWorkers :=
     (if list_ex (\<lambda>w. pwID w = ident) (pgWorkers s)
      then update_where (\<lambda>w. pwID w = ident) (\<lambda>w. w\<lparr>pwPool := pool, pwCapacity := capacity, pwLastHeartbeat := now\<rparr>) (pgWorkers s)
      else pgWorkers s @ [\<lparr>pwID = ident, pwPool = pool, pwCapacity = capacity, pwLastHeartbeat = now\<rparr>])\<rparr>"

text \<open>The sub-select of the claim: queued rows of the pool by creation time and id, rows locked by other transactions
  skipped, at most \<open>limit\<close> of them.\<close>

definition claim_order :: "PGRow \<Rightarrow> PGRow \<Rightarrow> bool" where
  "claim_order a b \<longleftrightarrow> pgCreatedAt a < pgCreatedAt b \<or> pgCreatedAt a = pgCreatedAt b \<and> pgID a < pgID b"

definition claimable :: "(string \<Rightarrow> bool) \<Rightarrow> Claim \<Rightarrow> PGRow list \<Rightarrow> string list" where
  "claimable locked c rows = map pgID (take (nat (clLimit c)) (sort_by claim_order
     (filter (\<lambda>row. pgPool row = clPool c \<and> pgStatus row = StatusQueued \<and> \<not> locked (pgID row)) rows)))"

definition pg_claim_row :: "Claim \<Rightarrow> gotime \<Rightarrow> PGRow \<Rightarrow> PGRow" where
  "pg_claim_row c now row = row\<lparr>pgStatus := StatusRunning, pgProvider := Some (clProvider c), pgFenceToken := pgFenceToken row + 1,
     pgClaimedBy := Some (clWorkerID c), pgClaimedAt := Some now, pgLastHeartbeat := Some now\<rparr>"

definition pg_claimed_job :: "Claim \<Rightarrow> PGRow \<Rightarrow> Job" where
  "pg_claimed_job c row = \<lparr>jobRunID = pgRunID row, jobAttempt = pgAttempt row, jobFenceToken = pgFenceToken row, jobTier = pgTier row,
     jobPool = clPool c, jobSpec = pgSpec row, jobLeaseToken = pgLeaseToken row\<rparr>"

definition pg_ClaimJobs :: "(string \<Rightarrow> bool) \<Rightarrow> Claim \<Rightarrow> gotime \<Rightarrow> PGStore \<Rightarrow> FleetErr + (Job list \<times> PGStore)" where
  "pg_ClaimJobs locked c now s =
    (if clLimit c < 0 then Inl FErrStorage
     else let workers = (if list_ex (\<lambda>w. pwID w = clWorkerID c) (pgWorkers s) then pgWorkers s
            else pgWorkers s @ [\<lparr>pwID = clWorkerID c, pwPool = clPool c, pwCapacity = 1, pwLastHeartbeat = now\<rparr>]);
         ids = claimable locked c (pgJobs s);
         hit = (\<lambda>row. pgID row \<in> set ids)
     in Inr (map (pg_claimed_job c) (map (pg_claim_row c now) (filter hit (pgJobs s))),
         s\<lparr>pgWorkers := workers, pgJobs := update_where hit (pg_claim_row c now) (pgJobs s)\<rparr>))"

text \<open>\<^verbatim>\<open>Get\<close> and the scan of the feed coalesce null columns; a null document reads as an empty one.\<close>

definition scan_row :: "PGRow \<Rightarrow> FleetJob" where
  "scan_row row = \<lparr>fjID = pgID row, fjRunID = pgRunID row, fjAttempt = pgAttempt row, fjTier = pgTier row, fjPool = pgPool row,
     fjStatus = pgStatus row, fjFenceToken = pgFenceToken row, fjClaimedBy = (case pgClaimedBy row of None \<Rightarrow> [] | Some w \<Rightarrow> w),
     fjClaimedAt = (case pgClaimedAt row of None \<Rightarrow> 0 | Some t \<Rightarrow> t),
     fjLastHeartbeat = (case pgLastHeartbeat row of None \<Rightarrow> 0 | Some t \<Rightarrow> t),
     fjFinishedAt = (case pgFinishedAt row of None \<Rightarrow> 0 | Some t \<Rightarrow> t),
     fjResultRef = (case pgResultRef row of None \<Rightarrow> [] | Some d \<Rightarrow> d), fjAccepted = pgAccepted row, fjSpec = pgSpec row,
     fjLeaseToken = pgLeaseToken row, fjCreatedAt = pgCreatedAt row\<rparr>"

definition pg_find :: "string \<Rightarrow> PGStore \<Rightarrow> PGRow option" where
  "pg_find rid s = find (\<lambda>row. pgRunID row = rid) (pgJobs s)"

definition pg_Get :: "string \<Rightarrow> PGStore \<Rightarrow> FleetErr + FleetJob" where
  "pg_Get rid s = (case pg_find rid s of None \<Rightarrow> Inl FErrNotFound | Some row \<Rightarrow> Inr (scan_row row))"

definition pg_Heartbeat :: "string \<Rightarrow> int \<Rightarrow> gotime \<Rightarrow> PGStore \<Rightarrow> FleetErr + PGStore" where
  "pg_Heartbeat rid fenceToken now s =
    (let hit = (\<lambda>row. pgRunID row = rid \<and> pgStatus row = StatusRunning \<and> pgFenceToken row = fenceToken) in
     if rows_affected hit (pgJobs s) = 0
     then case pg_Get rid s of Inl e \<Rightarrow> Inl e
       | Inr j \<Rightarrow> if fjStatus j \<noteq> StatusRunning \<or> fjFenceToken j \<noteq> fenceToken then Inl FErrFenceMismatch else Inl FErrStorage
     else Inr (s\<lparr>pgJobs := update_where hit (\<lambda>row. row\<lparr>pgLastHeartbeat := Some now\<rparr>) (pgJobs s),
       pgWorkers := update_where (\<lambda>w. list_ex (\<lambda>row. pgRunID row = rid \<and> pgClaimedBy row = Some (pwID w)) (pgJobs s))
         (\<lambda>w. w\<lparr>pwLastHeartbeat := now\<rparr>) (pgWorkers s)\<rparr>))"

definition pg_Complete :: "FleetCodec \<Rightarrow> string \<Rightarrow> Completion \<Rightarrow> gotime \<Rightarrow> PGStore \<Rightarrow> FleetErr + PGStore" where
  "pg_Complete fc rid c now s =
    (let hit = (\<lambda>row. pgRunID row = rid \<and> pgStatus row = StatusRunning \<and> pgFenceToken row = cmFenceToken c \<and> \<not> pgAccepted row) in
     if rows_affected hit (pgJobs s) > 0 \<and> \<not> status_check (cmStatus c) then Inl FErrStorage
     else if rows_affected hit (pgJobs s) = 1
     then Inr (s\<lparr>pgJobs := update_where hit (\<lambda>row. row\<lparr>pgStatus := cmStatus c, pgAccepted := True, pgFinishedAt := Some now,
       pgResultRef := Some (json_doc (ResultRef fc c))\<rparr>) (pgJobs s)\<rparr>)
     else case pg_Get rid s of Inl e \<Rightarrow> Inl e
       | Inr j \<Rightarrow> if fjAccepted j then Inl FErrAlreadyAccepted else Inl FErrFenceMismatch)"

definition pg_Cancel :: "string \<Rightarrow> string \<Rightarrow> gotime \<Rightarrow> PGStore \<Rightarrow> bool \<times> PGStore" where
  "pg_Cancel rid reason now s =
    (let hit = (\<lambda>row. pgRunID row = rid \<and> (pgStatus row = StatusQueued \<or> pgStatus row = StatusRunning))
     in (rows_affected hit (pgJobs s) > 0,
         s\<lparr>pgJobs := update_where hit (\<lambda>row. row\<lparr>pgStatus := StatusCancelled, pgFenceToken := pgFenceToken row + 1,
           pgFinishedAt := Some now, pgResultRef := Some [(''reason'', GStr reason)]\<rparr>) (pgJobs s)\<rparr>))"

fun insert_artifacts :: "string \<Rightarrow> gotime \<Rightarrow> Artifact list \<Rightarrow> PGArtifact list \<Rightarrow> PGArtifact list" where
  "insert_artifacts rid now [] rows = rows"
| "insert_artifacts rid now (a # as) rows =
    (if list_ex (\<lambda>x. paDigest x = artDigest a) rows then insert_artifacts rid now as rows
     else insert_artifacts rid now as (rows @ [\<lparr>paDigest = artDigest a, paKind = artName a, paSizeBytes = artSizeBytes a,
       paPayload = artContent a, paProducedBy = rid, paCreatedAt = now\<rparr>]))"

text \<open>The batch fails as a whole when a digest violates the format check of the table.\<close>

definition is_lower_hex :: "char \<Rightarrow> bool" where
  "is_lower_hex c \<longleftrightarrow> (CHR ''0'' \<le> c \<and> c \<le> CHR ''9'') \<or> (CHR ''a'' \<le> c \<and> c \<le> CHR ''f'')"

definition digest_ok :: "string \<Rightarrow> bool" where
  "digest_ok d \<longleftrightarrow> take 7 d = ''sha256:'' \<and> length d = 71 \<and> list_all is_lower_hex (drop 7 d)"

definition pg_RecordArtifacts :: "string \<Rightarrow> Artifact list \<Rightarrow> gotime \<Rightarrow> PGStore \<Rightarrow> FleetErr + PGStore" where
  "pg_RecordArtifacts rid artifacts now s =
    (if list_ex (\<lambda>a. \<not> digest_ok (artDigest a)) artifacts then Inl FErrStorage
     else Inr (s\<lparr>pgArtifacts := insert_artifacts rid now artifacts (pgArtifacts s)\<rparr>))"

definition stale_row :: "duration \<Rightarrow> gotime \<Rightarrow> PGRow \<Rightarrow> bool" where
  "stale_row threshold now row \<longleftrightarrow> pgStatus row = StatusRunning \<and>
     (case pgLastHeartbeat row of None \<Rightarrow> False | Some hb \<Rightarrow> hb < now - threshold)"

definition pg_requeue_row :: "PGRow \<Rightarrow> PGRow" where
  "pg_requeue_row row = row\<lparr>pgStatus := StatusQueued, pgFenceToken := pgFenceToken row + 1, pgClaimedBy := None\<rparr>"

definition pg_RequeueStale :: "duration \<Rightarrow> gotime \<Rightarrow> PGStore \<Rightarrow> string list \<times> PGStore" where
  "pg_RequeueStale threshold now s =
    (let requeued = map pgRunID (filter (stale_row threshold now) (pgJobs s));
         dead = (\<lambda>w. pwLastHeartbeat w < now - threshold);
         deadIDs = map pwID (filter dead (pgWorkers s));
         unclaim = (\<lambda>row. row\<lparr>pgClaimedBy := (case pgClaimedBy row of None \<Rightarrow> None | Some w \<Rightarrow> if w \<in> set deadIDs then None else Some w)\<rparr>)
     in (requeued, s\<lparr>pgJobs := map unclaim (update_where (stale_row threshold now) pg_requeue_row (pgJobs s)),
           pgWorkers := filter (\<lambda>w. \<not> dead w) (pgWorkers s)\<rparr>))"

definition pg_QueueDepth :: "PGStore \<Rightarrow> (string \<rightharpoonup> int)" where
  "pg_QueueDepth s = fold (\<lambda>row depth. let key = pgPool row @ ''/'' @ itoa (pgTier row) in depth(key \<mapsto>
       int (length (filter (\<lambda>r. pgStatus r = StatusQueued \<and> pgPool r = pgPool row \<and> pgTier r = pgTier row) (pgJobs s)))))
     (filter (\<lambda>r. pgStatus r = StatusQueued) (pgJobs s)) Map.empty"

definition pg_TerminalAccepted :: "nat \<Rightarrow> PGStore \<Rightarrow> FleetJob list" where
  "pg_TerminalAccepted limit s = map scan_row (take limit (sort_by (\<lambda>a b. case (pgFinishedAt a, pgFinishedAt b) of
       (None, None) \<Rightarrow> False | (None, Some _) \<Rightarrow> True | (Some _, None) \<Rightarrow> False | (Some x, Some y) \<Rightarrow> x > y)
     (filter (\<lambda>row. pgAccepted row \<and> FleetTerminal (pgStatus row)) (pgJobs s))))"

subsection \<open>The Postgres store refines the contract\<close>

definition row_core :: "PGRow \<Rightarrow> JobCore" where
  "row_core row = \<lparr>kAttempt = pgAttempt row, kTier = pgTier row, kPool = pgPool row, kSpec = pgSpec row, kLease = pgLeaseToken row,
     kStatus = pgStatus row, kFence = pgFenceToken row, kAccepted = pgAccepted row\<rparr>"

definition pg_core :: "PGStore \<Rightarrow> string \<Rightarrow> JobCore option" where
  "pg_core s r = map_option row_core (pg_find r s)"

definition pg_inv :: "PGStore \<Rightarrow> bool" where
  "pg_inv s \<longleftrightarrow> distinct (map pgRunID (pgJobs s)) \<and> (\<forall>row \<in> set (pgJobs s). pgID row = ''job_'' @ pgRunID row \<and> core_ok (row_core row))"

inductive pg_step :: "PGStore \<Rightarrow> PGStore \<Rightarrow> bool" where
  enqueue: "pg_Enqueue now job s = Inr s' \<Longrightarrow> pg_step s s'"
| worker: "pg_step s (pg_EnsureWorker ident pool capacity now s)"
| claim: "pg_ClaimJobs locked c now s = Inr (claimed, s') \<Longrightarrow> pg_step s s'"
| heartbeat: "pg_Heartbeat r f now s = Inr s' \<Longrightarrow> pg_step s s'"
| complete: "pg_Complete fc r c now s = Inr s' \<Longrightarrow> FleetTerminal (cmStatus c) \<Longrightarrow> pg_step s s'"
| cancel: "pg_Cancel r reason now s = (b, s') \<Longrightarrow> pg_step s s'"
| artifacts: "pg_RecordArtifacts r arts now s = Inr s' \<Longrightarrow> pg_step s s'"
| requeue: "pg_RequeueStale threshold now s = (requeued, s') \<Longrightarrow> pg_step s s'"

lemma find_map_key: "(\<And>x. x \<in> set xs \<Longrightarrow> k (f x) = k x) \<Longrightarrow> find (\<lambda>x. k x = r) (map f xs) = map_option f (find (\<lambda>x. k x = r) xs)"
  by (induction xs) auto

lemma find_append_one: "find P (xs @ [y]) = (case find P xs of None \<Rightarrow> if P y then Some y else None | Some x \<Rightarrow> Some x)"
  by (induction xs) auto

lemma pg_find_SomeD: "pg_find r s = Some row \<Longrightarrow> row \<in> set (pgJobs s) \<and> pgRunID row = r"
  by (auto simp: pg_find_def find_Some_iff)

definition row_change :: "PGRow \<Rightarrow> PGRow \<Rightarrow> bool" where
  "row_change row row' \<longleftrightarrow> pgRunID row' = pgRunID row \<and> pgID row' = pgID row \<and>
     core_step\<^sup>=\<^sup>= (Some (row_core row)) (Some (row_core row'))"

lemma row_change_same: "pgRunID row' = pgRunID row \<Longrightarrow> pgID row' = pgID row \<Longrightarrow> row_core row' = row_core row \<Longrightarrow> row_change row row'"
  by (simp add: row_change_def)

lemma row_change_refl: "row_change row row"
  by (simp add: row_change_def)

text \<open>A statement that maps every row by at most one step of the contract.\<close>

lemma map_rows_step:
  assumes inv: "pg_inv s" and jobs: "pgJobs s' = map f (pgJobs s)" and ch: "\<And>row. row \<in> set (pgJobs s) \<Longrightarrow> row_change row (f row)"
  shows "pg_inv s' \<and> core_step\<^sup>=\<^sup>= (pg_core s r) (pg_core s' r)"
proof
  have key: "\<And>row. row \<in> set (pgJobs s) \<Longrightarrow> pgRunID (f row) = pgRunID row" using ch by (simp add: row_change_def)
  then have "map pgRunID (pgJobs s') = map pgRunID (pgJobs s)" by (simp add: jobs)
  then have "distinct (map pgRunID (pgJobs s'))" using inv by (simp only: pg_inv_def)
  moreover have "pgID (f row) = ''job_'' @ pgRunID (f row) \<and> core_ok (row_core (f row))" if "row \<in> set (pgJobs s)" for row
    using ch [OF that] inv that by (auto simp: row_change_def pg_inv_def elim!: core_step_Some)
  ultimately show "pg_inv s'" by (auto simp: pg_inv_def jobs)
  have "pg_find r s' = map_option f (pg_find r s)" unfolding pg_find_def jobs by (rule find_map_key) (rule key)
  then show "core_step\<^sup>=\<^sup>= (pg_core s r) (pg_core s' r)"
    using ch by (cases "pg_find r s") (auto simp: pg_core_def row_change_def dest!: pg_find_SomeD)
qed

lemma update_where_step:
  assumes "pg_inv s" and "pgJobs s' = update_where P f (pgJobs s)" and "\<And>row. row \<in> set (pgJobs s) \<Longrightarrow> P row \<Longrightarrow> row_change row (f row)"
  shows "pg_inv s' \<and> core_step\<^sup>=\<^sup>= (pg_core s r) (pg_core s' r)"
  by (rule map_rows_step [OF assms(1), where f = "\<lambda>row. if P row then f row else row"])
     (auto simp: assms(2) update_where_def row_change_refl assms(3))

lemma pg_ids_unique:
  assumes "pg_inv s" and "a \<in> set (pgJobs s)" and "b \<in> set (pgJobs s)" and "pgID a = pgID b"
  shows "a = b"
proof -
  have "pgRunID a = pgRunID b" using assms by (auto simp: pg_inv_def)
  moreover have "inj_on pgRunID (set (pgJobs s))" using assms(1) by (auto simp: pg_inv_def distinct_map)
  ultimately show ?thesis using assms(2,3) by (auto dest: inj_onD)
qed

lemma claimable_queued:
  assumes "pg_inv s" and "row \<in> set (pgJobs s)" and "pgID row \<in> set (claimable locked c (pgJobs s))"
  shows "pgStatus row = StatusQueued \<and> pgPool row = clPool c"
proof -
  obtain row' where "row' \<in> set (pgJobs s)" "pgID row' = pgID row" "pgStatus row' = StatusQueued" "pgPool row' = clPool c"
    using assms(3) by (auto simp: claimable_def dest!: in_set_takeD)
  with pg_ids_unique [OF assms(1), of row' row] assms(2) show ?thesis by auto
qed

lemma claim_row_change: "pgStatus row = StatusQueued \<Longrightarrow> row_change row (pg_claim_row c now row)"
  using core_step.claim [of "row_core row"] by (simp add: row_change_def row_core_def pg_claim_row_def)

lemma complete_row_change:
  "pgStatus row = StatusRunning \<Longrightarrow> \<not> pgAccepted row \<Longrightarrow> FleetTerminal st \<Longrightarrow>
     row_change row (row\<lparr>pgStatus := st, pgAccepted := True, pgFinishedAt := t, pgResultRef := d\<rparr>)"
  using core_step.complete [of "row_core row" st] by (simp add: row_change_def row_core_def)

lemma cancel_row_change:
  "pgStatus row = StatusQueued \<or> pgStatus row = StatusRunning \<Longrightarrow>
     row_change row (row\<lparr>pgStatus := StatusCancelled, pgFenceToken := pgFenceToken row + 1, pgFinishedAt := t, pgResultRef := d\<rparr>)"
  using core_step.cancel [of "row_core row"] by (auto simp: row_change_def row_core_def)

lemma requeue_row_change:
  "pgStatus row = StatusRunning \<Longrightarrow> row_change row ((pg_requeue_row row)\<lparr>pgClaimedBy := w\<rparr>)"
  using core_step.requeue [of "row_core row"] by (simp add: row_change_def row_core_def pg_requeue_row_def)

lemma pg_step_refines:
  assumes "pg_step s s'" and inv: "pg_inv s"
  shows "pg_inv s' \<and> core_step\<^sup>=\<^sup>= (pg_core s r) (pg_core s' r)"
  using assms(1)
proof cases
  case (enqueue now job)
  then have new: "\<forall>row \<in> set (pgJobs s). pgRunID row \<noteq> jobRunID job"
    and jobs: "pgJobs s' = pgJobs s @ [\<lparr>pgID = ''job_'' @ jobRunID job, pgRunID = jobRunID job, pgAttempt = jobAttempt job,
       pgProvider = None, pgPool = jobPool job, pgTier = jobTier job, pgStatus = StatusQueued, pgFenceToken = 0, pgClaimedBy = None,
       pgClaimedAt = None, pgLastHeartbeat = None, pgFinishedAt = None, pgResultRef = None, pgAccepted = False, pgSpec = jobSpec job,
       pgLeaseToken = jobLeaseToken job, pgCreatedAt = now\<rparr>]"
    by (auto simp: pg_Enqueue_def list_ex_iff split: if_splits)
  have "pg_inv s'" using inv new by (auto simp: pg_inv_def jobs core_ok_def row_core_def)
  moreover have "core_step\<^sup>=\<^sup>= (pg_core s r) (pg_core s' r)"
  proof (cases "r = jobRunID job")
    case True
    then have "pg_find r s = None" using new by (auto simp: pg_find_def find_None_iff)
    then show ?thesis using True new
      by (auto simp: pg_core_def pg_find_def jobs find_append_one row_core_def intro!: core_step.enqueue)
  next
    case False
    then show ?thesis by (auto simp: pg_core_def pg_find_def jobs find_append_one split: option.splits)
  qed
  ultimately show ?thesis ..
next
  case (worker ident pool capacity now)
  then show ?thesis by (intro map_rows_step [OF inv, where f = "\<lambda>row. row"]) (simp_all add: pg_EnsureWorker_def row_change_refl)
next
  case (claim locked c now claimed)
  then have "pgJobs s' = update_where (\<lambda>row. pgID row \<in> set (claimable locked c (pgJobs s))) (pg_claim_row c now) (pgJobs s)"
    by (auto simp: pg_ClaimJobs_def Let_def split: if_splits)
  then show ?thesis
    by (rule update_where_step [OF inv]) (use claimable_queued [OF inv] in \<open>blast intro: claim_row_change\<close>)
next
  case (heartbeat r' f now)
  then have "pgJobs s' = update_where (\<lambda>row. pgRunID row = r' \<and> pgStatus row = StatusRunning \<and> pgFenceToken row = f)
      (\<lambda>row. row\<lparr>pgLastHeartbeat := Some now\<rparr>) (pgJobs s)"
    by (auto simp: pg_Heartbeat_def Let_def split: if_splits sum.splits)
  then show ?thesis by (rule update_where_step [OF inv]) (rule row_change_same, simp_all add: row_core_def)
next
  case (complete fc r' c now)
  then have "pgJobs s' = update_where (\<lambda>row. pgRunID row = r' \<and> pgStatus row = StatusRunning \<and> pgFenceToken row = cmFenceToken c \<and>
      \<not> pgAccepted row) (\<lambda>row. row\<lparr>pgStatus := cmStatus c, pgAccepted := True, pgFinishedAt := Some now,
       pgResultRef := Some (json_doc (ResultRef fc c))\<rparr>) (pgJobs s)"
    by (auto simp: pg_Complete_def Let_def split: if_splits sum.splits)
  then show ?thesis by (rule update_where_step [OF inv]) (use complete(2) in \<open>simp add: complete_row_change\<close>)
next
  case (cancel r' reason now b)
  then have "pgJobs s' = update_where (\<lambda>row. pgRunID row = r' \<and> (pgStatus row = StatusQueued \<or> pgStatus row = StatusRunning))
      (\<lambda>row. row\<lparr>pgStatus := StatusCancelled, pgFenceToken := pgFenceToken row + 1,
           pgFinishedAt := Some now, pgResultRef := Some [(''reason'', GStr reason)]\<rparr>) (pgJobs s)"
    by (auto simp: pg_Cancel_def Let_def)
  then show ?thesis by (rule update_where_step [OF inv]) (simp add: cancel_row_change)
next
  case (artifacts r' arts now)
  then have "pgJobs s' = pgJobs s" by (auto simp: pg_RecordArtifacts_def split: if_splits)
  then show ?thesis by (intro map_rows_step [OF inv, where f = "\<lambda>row. row"]) (simp_all add: row_change_refl)
next
  case (requeue th now requeued)
  let ?dead = "set (map pwID (filter (\<lambda>w. pwLastHeartbeat w < now - th) (pgWorkers s)))"
  let ?un = "\<lambda>row. row\<lparr>pgClaimedBy := (case pgClaimedBy row of None \<Rightarrow> None | Some w \<Rightarrow> if w \<in> ?dead then None else Some w)\<rparr>"
  have "pgJobs s' = map (\<lambda>row. ?un (if stale_row th now row then pg_requeue_row row else row)) (pgJobs s)"
    using requeue by (auto simp: pg_RequeueStale_def Let_def update_where_def)
  moreover have "row_change row (?un (if stale_row th now row then pg_requeue_row row else row))" for row
  proof (cases "stale_row th now row")
    case True
    then show ?thesis by (simp add: stale_row_def requeue_row_change)
  next
    case False
    then show ?thesis by (simp add: row_change_same row_core_def)
  qed
  ultimately show ?thesis by (rule map_rows_step [OF inv])
qed

interpretation pg: fenced_store pg_core pg_inv pg_step
proof
  fix s s' r c
  show "pg_inv s \<Longrightarrow> pg_step s s' \<Longrightarrow> pg_inv s'" using pg_step_refines by blast
  show "pg_inv s \<Longrightarrow> pg_step s s' \<Longrightarrow> core_step\<^sup>=\<^sup>= (pg_core s r) (pg_core s' r)" using pg_step_refines by blast
  show "pg_inv s \<Longrightarrow> pg_core s r = Some c \<Longrightarrow> core_ok c" by (auto simp: pg_inv_def pg_core_def dest: pg_find_SomeD)
qed

subsection \<open>Rulings\<close>

lemma filter_unique_key:
  "distinct (map k xs) \<Longrightarrow> filter (\<lambda>x. k x = r \<and> P x) xs = (case find (\<lambda>x. k x = r) xs of None \<Rightarrow> [] | Some x \<Rightarrow> if P x then [x] else [])"
proof (induction xs)
  case (Cons x xs)
  show ?case
  proof (cases "k x = r")
    case True
    with Cons(2) have "filter (\<lambda>x. k x = r \<and> P x) xs = []" by (auto simp: filter_empty_conv) (metis imageI)
    with True show ?thesis by simp
  next
    case False
    with Cons show ?thesis by simp
  qed
qed simp

lemma pg_affected:
  "pg_inv s \<Longrightarrow> rows_affected (\<lambda>row. pgRunID row = r \<and> P row) (pgJobs s) =
     (case pg_find r s of None \<Rightarrow> 0 | Some row \<Rightarrow> if P row then 1 else 0)"
  by (auto simp: rows_affected_def filter_unique_key pg_inv_def pg_find_def split: option.split)

lemma find_update_key:
  "(\<And>x. k (f x) = k x) \<Longrightarrow> find (\<lambda>x. k x = r) (update_where (\<lambda>x. k x = r \<and> P x) f xs) =
     map_option (\<lambda>x. if P x then f x else x) (find (\<lambda>x. k x = r) xs)"
  by (induction xs) (auto simp: update_where_def)

lemma pg_find_update:
  "(\<And>row. pgRunID (f row) = pgRunID row) \<Longrightarrow> pgJobs s' = update_where (\<lambda>row. pgRunID row = r \<and> P row) f (pgJobs s) \<Longrightarrow>
     pg_find r s' = map_option (\<lambda>row. if P row then f row else row) (pg_find r s)"
  by (simp add: pg_find_def find_update_key)

definition complete_ruling :: "JobCore option \<Rightarrow> int \<Rightarrow> FleetStatus \<Rightarrow> FleetErr + JobCore option" where
  "complete_ruling k f st = (case k of None \<Rightarrow> Inl FErrNotFound | Some c \<Rightarrow>
     if kAccepted c then Inl FErrAlreadyAccepted
     else if kStatus c \<noteq> StatusRunning \<or> kFence c \<noteq> f then Inl FErrFenceMismatch
     else Inr (Some (c\<lparr>kStatus := st, kAccepted := True\<rparr>)))"

lemma mem_Complete_ruling:
  "map_sum id (\<lambda>s'. mem_core s' r) (mem_Complete fc r c now s) = complete_ruling (mem_core s r) (cmFenceToken c) (cmStatus c)"
  by (simp add: mem_Complete_def complete_ruling_def mem_core_def job_core_def split: option.split)

lemma terminal_checked: "FleetTerminal st \<Longrightarrow> status_check st"
  by (cases st) (simp_all add: status_check_def)

lemma pg_Complete_ruling:
  assumes "pg_inv s" and "FleetTerminal (cmStatus c)"
  shows "map_sum id (\<lambda>s'. pg_core s' r) (pg_Complete fc r c now s) = complete_ruling (pg_core s r) (cmFenceToken c) (cmStatus c)"
proof -
  let ?P = "\<lambda>row. pgStatus row = StatusRunning \<and> pgFenceToken row = cmFenceToken c \<and> \<not> pgAccepted row"
  let ?f = "\<lambda>row. row\<lparr>pgStatus := cmStatus c, pgAccepted := True, pgFinishedAt := Some now, pgResultRef := Some (json_doc (ResultRef fc c))\<rparr>"
  have find: "pg_find r (s\<lparr>pgJobs := update_where (\<lambda>row. pgRunID row = r \<and> ?P row) ?f (pgJobs s)\<rparr>) =
      map_option (\<lambda>row. if ?P row then ?f row else row) (pg_find r s)"
    by (rule pg_find_update) simp_all
  have affected: "rows_affected (\<lambda>row. pgRunID row = r \<and> ?P row) (pgJobs s) = (case pg_find r s of None \<Rightarrow> 0 | Some row \<Rightarrow> if ?P row then 1 else 0)"
    by (rule pg_affected [OF assms(1)])
  show ?thesis
    unfolding pg_Complete_def Let_def affected
    using terminal_checked [OF assms(2)]
    by (cases "pg_find r s")
       (auto simp: find pg_core_def pg_Get_def complete_ruling_def row_core_def scan_row_def)
qed

definition heartbeat_ruling :: "JobCore option \<Rightarrow> int \<Rightarrow> FleetErr + JobCore option" where
  "heartbeat_ruling k f = (case k of None \<Rightarrow> Inl FErrNotFound | Some c \<Rightarrow>
     if kStatus c \<noteq> StatusRunning \<or> kFence c \<noteq> f then Inl FErrFenceMismatch else Inr (Some c))"

lemma mem_Heartbeat_ruling:
  "map_sum id (\<lambda>s'. mem_core s' r) (mem_Heartbeat r f now s) = heartbeat_ruling (mem_core s r) f"
  by (simp add: mem_Heartbeat_def heartbeat_ruling_def mem_core_def job_core_def split: option.split)

lemma pg_Heartbeat_ruling:
  assumes "pg_inv s"
  shows "map_sum id (\<lambda>s'. pg_core s' r) (pg_Heartbeat r f now s) = heartbeat_ruling (pg_core s r) f"
proof -
  let ?P = "\<lambda>row. pgStatus row = StatusRunning \<and> pgFenceToken row = f"
  have find: "pg_find r (s\<lparr>pgJobs := update_where (\<lambda>row. pgRunID row = r \<and> ?P row) (\<lambda>row. row\<lparr>pgLastHeartbeat := Some now\<rparr>) (pgJobs s),
      pgWorkers := ws\<rparr>) = map_option (\<lambda>row. if ?P row then row\<lparr>pgLastHeartbeat := Some now\<rparr> else row) (pg_find r s)" for ws
    by (rule pg_find_update) simp_all
  have affected: "rows_affected (\<lambda>row. pgRunID row = r \<and> ?P row) (pgJobs s) = (case pg_find r s of None \<Rightarrow> 0 | Some row \<Rightarrow> if ?P row then 1 else 0)"
    by (rule pg_affected [OF assms(1)])
  show ?thesis
    unfolding pg_Heartbeat_def Let_def affected
    by (cases "pg_find r s") (auto simp: find pg_core_def pg_Get_def heartbeat_ruling_def row_core_def scan_row_def)
qed

definition cancel_ruling :: "JobCore \<Rightarrow> bool \<times> JobCore" where
  "cancel_ruling c = (if FleetTerminal (kStatus c) then (False, c)
     else (True, c\<lparr>kStatus := StatusCancelled, kFence := kFence c + 1\<rparr>))"

lemma mem_Cancel_ruling:
  "map_sum id (\<lambda>(b, s'). (b, mem_core s' r)) (mem_Cancel fc r reason now s) =
     (case mem_core s r of None \<Rightarrow> Inl FErrNotFound | Some c \<Rightarrow> Inr (map_prod id Some (cancel_ruling c)))"
  by (auto simp: mem_Cancel_def cancel_ruling_def mem_core_def job_core_def split: option.split)

lemma pg_Cancel_ruling:
  assumes "pg_inv s"
  shows "(case pg_Cancel r reason now s of (b, s') \<Rightarrow> (b, pg_core s' r)) =
    (case pg_core s r of None \<Rightarrow> (False, None) | Some c \<Rightarrow> map_prod id Some (cancel_ruling c))"
proof -
  let ?P = "\<lambda>row. pgStatus row = StatusQueued \<or> pgStatus row = StatusRunning"
  let ?f = "\<lambda>row. row\<lparr>pgStatus := StatusCancelled, pgFenceToken := pgFenceToken row + 1, pgFinishedAt := Some now,
    pgResultRef := Some [(''reason'', GStr reason)]\<rparr>"
  have find: "pg_find r (s\<lparr>pgJobs := update_where (\<lambda>row. pgRunID row = r \<and> ?P row) ?f (pgJobs s)\<rparr>) =
      map_option (\<lambda>row. if ?P row then ?f row else row) (pg_find r s)"
    by (rule pg_find_update) simp_all
  have affected: "rows_affected (\<lambda>row. pgRunID row = r \<and> ?P row) (pgJobs s) = (case pg_find r s of None \<Rightarrow> 0 | Some row \<Rightarrow> if ?P row then 1 else 0)"
    by (rule pg_affected [OF assms(1)])
  have ok: "pg_find r s = Some row \<Longrightarrow> ?P row \<or> FleetTerminal (pgStatus row)" for row
    using assms by (auto simp: pg_inv_def core_ok_def row_core_def dest!: pg_find_SomeD)
  show ?thesis
    unfolding pg_Cancel_def Let_def affected
    using ok by (cases "pg_find r s") (auto simp: find pg_core_def cancel_ruling_def row_core_def)
qed


subsection \<open>Theorems\<close>


text \<open>The two stores rule alike. Where a run's job looks the same in both, a completion with a terminal status and a
  heartbeat get the same verdict from both and leave the same job, and so does a cancellation of a known run. They differ
  on the cancellation of an unknown run: the in-memory store reports it as not found, the Postgres store as nothing to do.\<close>

theorem fleet_stores_rule_alike:
  assumes "pg_inv t" and "mem_core s r = pg_core t r" and "FleetTerminal (cmStatus c)"
  shows "map_sum id (\<lambda>s'. mem_core s' r) (mem_Complete fc r c now s) = map_sum id (\<lambda>t'. pg_core t' r) (pg_Complete fc r c now t) \<and>
    map_sum id (\<lambda>s'. mem_core s' r) (mem_Heartbeat r f now s) = map_sum id (\<lambda>t'. pg_core t' r) (pg_Heartbeat r f now t) \<and>
    map_sum id (\<lambda>(b, s'). (b, mem_core s' r)) (mem_Cancel fc r reason now s) =
      (if mem_core s r = None then Inl FErrNotFound else Inr (case pg_Cancel r reason now t of (b, t') \<Rightarrow> (b, pg_core t' r))) \<and>
    (pg_core t r = None \<longrightarrow> (case pg_Cancel r reason now t of (b, t') \<Rightarrow> (b, pg_core t' r)) = (False, None))"
  using assms by (simp add: mem_Complete_ruling pg_Complete_ruling mem_Heartbeat_ruling pg_Heartbeat_ruling mem_Cancel_ruling
      pg_Cancel_ruling split: option.split)

lemma map_sum_Inr: "map_sum id f x = y \<Longrightarrow> x = Inr a \<Longrightarrow> y = Inr (f a)"
  by auto

lemma map_sum_Inl: "map_sum id f x = Inl e \<Longrightarrow> x = Inl e"
  by (cases x) simp_all

lemma complete_ruling_Inr:
  "complete_ruling k f st = Inr k' \<Longrightarrow> \<exists>c'. k' = Some c' \<and> kAccepted c' \<and> (\<exists>c. k = Some c \<and> kFence c = f \<and> kStatus c = StatusRunning)"
  by (auto simp: complete_ruling_def split: option.splits if_splits)

text \<open>C18: Invariant I-11, acceptance at most once. After a completion was accepted, whatever operations follow in
  whatever order, every further completion of that run is refused as already accepted, and the job keeps its status,
  fence and attempt. This holds for the in-memory store and for the Postgres store.\<close>

theorem completion_accepted_once:
  assumes "mem_inv s" and "mem_Complete fc r c now s = Inr s1" and "FleetTerminal (cmStatus c)" and "mem_step\<^sup>*\<^sup>* s1 s2"
    and "pg_inv t" and "pg_Complete fc r c now t = Inr t1" and "pg_step\<^sup>*\<^sup>* t1 t2" and "FleetTerminal (cmStatus c')"
  shows "mem_Complete fc' r c' now' s2 = Inl FErrAlreadyAccepted \<and> mem_core s2 r = mem_core s1 r \<and>
    pg_Complete fc' r c' now' t2 = Inl FErrAlreadyAccepted \<and> pg_core t2 r = pg_core t1 r"
proof -
  have inv1: "mem_inv s1" "pg_inv t1"
    using mem.inv_step [OF assms(1) mem_step.complete [OF assms(2,3)]] pg.inv_step [OF assms(5) pg_step.complete [OF assms(6,3)]] .
  obtain k where k: "mem_core s1 r = Some k" "kAccepted k"
    using map_sum_Inr [OF mem_Complete_ruling assms(2)] by (auto dest: complete_ruling_Inr)
  obtain l where l: "pg_core t1 r = Some l" "kAccepted l"
    using map_sum_Inr [OF pg_Complete_ruling [OF assms(5,3)] assms(6)] by (auto dest: complete_ruling_Inr)
  have final: "mem_core s2 r = Some k" "pg_core t2 r = Some l"
    using mem.accepted_final [OF inv1(1) k assms(4)] pg.accepted_final [OF inv1(2) l assms(7)] .
  have inv2: "pg_inv t2" using pg.reach [OF assms(7) inv1(2)] by blast
  have "mem_Complete fc' r c' now' s2 = Inl FErrAlreadyAccepted"
    using mem_Complete_ruling [of r fc' c' now' s2] final(1) k(2) by (auto simp: complete_ruling_def intro: map_sum_Inl)
  moreover have "pg_Complete fc' r c' now' t2 = Inl FErrAlreadyAccepted"
    using pg_Complete_ruling [OF inv2 assms(8), of r fc' now'] final(2) l(2) by (auto simp: complete_ruling_def intro: map_sum_Inl)
  ultimately show ?thesis using final k l by simp
qed

text \<open>Invariant I-11, stale holders. Once the job of a run has moved past a fence token (it was cancelled, requeued or
  claimed again), no completion and no heartbeat presenting that token ever succeeds again, whatever operations follow.\<close>

theorem stale_fence_never_accepted:
  assumes "pg_inv t" and "pg_core t r = Some k" and "f < kFence k" and "pg_step\<^sup>*\<^sup>* t t'" and "FleetTerminal (cmStatus c)"
    and "cmFenceToken c = f"
  shows "(\<nexists>t''. pg_Complete fc r c now t' = Inr t'') \<and> (\<nexists>t''. pg_Heartbeat r f now t' = Inr t'')"
proof -
  obtain k' where k': "pg_core t' r = Some k'" "kFence k \<le> kFence k'"
    using pg.fence_monotone [OF assms(1,2,4)] by blast
  have inv: "pg_inv t'" using pg.reach [OF assms(4,1)] by blast
  have "\<nexists>t''. pg_Complete fc r c now t' = Inr t''"
    using pg_Complete_ruling [OF inv assms(5), of r fc now] k' assms(3,6)
    by (auto simp: complete_ruling_def split: if_splits)
  moreover have "\<nexists>t''. pg_Heartbeat r f now t' = Inr t''"
    using pg_Heartbeat_ruling [OF inv, of r f now] k' assms(3) by (auto simp: heartbeat_ruling_def)
  ultimately show ?thesis ..
qed


subsection \<open>Claims\<close>

lemma pg_find_member:
  assumes "pg_inv t" and "row \<in> set (pgJobs t)"
  shows "pg_find (pgRunID row) t = Some row"
proof -
  have "pg_find (pgRunID row) t \<noteq> None" using assms(2) by (auto simp: pg_find_def find_None_iff)
  then obtain row' where "pg_find (pgRunID row) t = Some row'" by blast
  with pg_find_SomeD [OF this] assms show ?thesis by (auto simp: pg_inv_def distinct_map dest!: inj_onD)
qed

text \<open>Every token the claim hands out is the job's new fence, one above the old one.\<close>

lemma pg_claim_token:
  assumes "pg_inv t" and "pg_ClaimJobs locked c now t = Inr (jobs, t')" and "j \<in> set jobs"
  shows "\<exists>k. pg_core t (jobRunID j) = Some k \<and> kStatus k = StatusQueued \<and> kPool k = clPool c \<and> jobFenceToken j = kFence k + 1 \<and>
    jobLeaseToken j = kLease k \<and> pg_core t' (jobRunID j) = Some (k\<lparr>kStatus := StatusRunning, kFence := kFence k + 1\<rparr>)"
proof -
  let ?hit = "\<lambda>row. pgID row \<in> set (claimable locked c (pgJobs t))"
  from assms(2) have jobs: "jobs = map (pg_claimed_job c) (map (pg_claim_row c now) (filter ?hit (pgJobs t)))"
    and t': "pgJobs t' = update_where ?hit (pg_claim_row c now) (pgJobs t)"
    by (auto simp: pg_ClaimJobs_def Let_def split: if_splits)
  from assms(3) jobs obtain row where row: "row \<in> set (pgJobs t)" "?hit row" "j = pg_claimed_job c (pg_claim_row c now row)" by auto
  have rid: "jobRunID j = pgRunID row" by (simp add: row(3) pg_claimed_job_def pg_claim_row_def)
  have find: "pg_find (pgRunID row) t = Some row" by (rule pg_find_member [OF assms(1) row(1)])
  have "pg_find (pgRunID row) t' = map_option (\<lambda>x. if ?hit x then pg_claim_row c now x else x) (pg_find (pgRunID row) t)"
    unfolding pg_find_def t' update_where_def by (rule find_map_key) (simp add: pg_claim_row_def)
  with find row(2) have "pg_find (pgRunID row) t' = Some (pg_claim_row c now row)" by simp
  with find claimable_queued [OF assms(1) row(1,2)] show ?thesis
    unfolding rid by (simp add: pg_core_def row_core_def pg_claim_row_def row(3) pg_claimed_job_def)
qed

text \<open>C19: A run is held by one worker at a time. If a worker claimed a run, and after any further operations the run is
  claimed again, the second token is strictly larger, so the first holder has been fenced off; and as long as the
  job still carries the first token it is untouched or its completion has been accepted.\<close>

theorem claims_are_exclusive:
  assumes "pg_inv t" and "pg_ClaimJobs locked c now t = Inr (jobs, t1)" and "j \<in> set jobs" and "pg_step\<^sup>*\<^sup>* t1 t2"
  shows "(\<forall>locked' c' now' jobs' t3 j'. pg_ClaimJobs locked' c' now' t2 = Inr (jobs', t3) \<and> j' \<in> set jobs' \<and> jobRunID j' = jobRunID j \<longrightarrow>
      jobFenceToken j < jobFenceToken j') \<and>
    (\<exists>k. pg_core t2 (jobRunID j) = Some k \<and> (kFence k = jobFenceToken j \<longrightarrow>
      pg_core t2 (jobRunID j) = pg_core t1 (jobRunID j) \<or> kAccepted k \<and> FleetTerminal (kStatus k)))"
proof -
  have inv1: "pg_inv t1" using pg.inv_step [OF assms(1) pg_step.claim [OF assms(2)]] .
  have inv2: "pg_inv t2" using pg.reach [OF assms(4) inv1] by blast
  obtain k1 where k1: "pg_core t1 (jobRunID j) = Some k1" "kStatus k1 = StatusRunning" "kFence k1 = jobFenceToken j"
    using pg_claim_token [OF assms(1-3)] by auto
  obtain k2 where k2: "pg_core t2 (jobRunID j) = Some k2" "kFence k1 \<le> kFence k2"
    using pg.fence_monotone [OF inv1 k1(1) assms(4)] by blast
  have "jobFenceToken j < jobFenceToken j'"
    if "pg_ClaimJobs locked' c' now' t2 = Inr (jobs', t3)" "j' \<in> set jobs'" "jobRunID j' = jobRunID j" for locked' c' now' jobs' t3 j'
    using pg_claim_token [OF inv2 that(1,2)] that(3) k1(3) k2 by auto
  moreover have "kFence k2 = jobFenceToken j \<longrightarrow> pg_core t2 (jobRunID j) = pg_core t1 (jobRunID j) \<or> kAccepted k2 \<and> FleetTerminal (kStatus k2)"
    using pg.holder_untouched [OF inv1 k1(1,2) assms(4) k2(1)] k1 k2 by auto
  ultimately show ?thesis using k2(1) by blast
qed

subsection \<open>Sample runs\<close>

definition sample_spec :: FleetSpec where
  "sample_spec = \<lparr>fsKind = ''hermetic_build'', fsRepo = ''acme/shop'', fsBaseSHA = [], fsHeadSHA = [], fsPatchRef = [], fsInputsHash = [],
     fsTimeoutMS = 60000, fsSimProfile = None, fsPreFetchedBundleRef = []\<rparr>"

definition sample_fleet_job :: Job where
  "sample_fleet_job = \<lparr>jobRunID = ''run_9'', jobAttempt = 1, jobFenceToken = 0, jobTier = 0, jobPool = ''sim'', jobSpec = sample_spec,
     jobLeaseToken = ''lease''\<rparr>"

definition sample_claim :: Claim where
  "sample_claim = \<lparr>clPool = ''sim'', clProvider = ''sim'', clLimit = 1, clWorkerID = ''w1''\<rparr>"

definition sample_fc :: FleetCodec where
  "sample_fc = \<lparr>fcMarshalResults = (\<lambda>r. itoa (trTotal r)), fcSHA256 = (\<lambda>s. s), fcRFC3339 = itoa\<rparr>"

definition sample_completion :: Completion where
  "sample_completion = \<lparr>cmFenceToken = 1, cmStatus = StatusSucceeded, cmLogsDigest = [], cmArtifactDigests = [], cmDurationMS = 5,
     cmActualCostMilliCents = 1, cmClassification = [], cmLogsExcerpt = [], cmResults = None\<rparr>"

definition mem_claimed :: MemoryStore where
  "mem_claimed = snd (mem_ClaimJobs sample_claim 5 (projr (mem_Enqueue 1 sample_fleet_job NewMemoryStore)))"

definition pg_empty :: PGStore where
  "pg_empty = \<lparr>pgJobs = [], pgWorkers = [], pgArtifacts = []\<rparr>"

definition pg_claimed :: PGStore where
  "pg_claimed = snd (projr (pg_ClaimJobs (\<lambda>_. False) sample_claim 5 (projr (pg_Enqueue 1 sample_fleet_job pg_empty))))"

lemma mem_claimed_inv: "mem_inv mem_claimed"
proof -
  have "mem_inv NewMemoryStore" by (simp add: mem_inv_def NewMemoryStore_def)
  moreover have "mem_Enqueue 1 sample_fleet_job NewMemoryStore = Inr (projr (mem_Enqueue 1 sample_fleet_job NewMemoryStore))"
    by (simp add: mem_Enqueue_def NewMemoryStore_def Let_def)
  ultimately have "mem_inv (projr (mem_Enqueue 1 sample_fleet_job NewMemoryStore))" by (blast intro: mem_step_inv mem_step.enqueue)
  then show ?thesis unfolding mem_claimed_def by (metis mem_step_inv mem_step.claim prod.collapse)
qed

lemma pg_enqueued: "pg_Enqueue 1 sample_fleet_job pg_empty = Inr (projr (pg_Enqueue 1 sample_fleet_job pg_empty))"
  by (simp add: pg_Enqueue_def pg_empty_def)

lemma pg_enqueued_inv: "pg_inv (projr (pg_Enqueue 1 sample_fleet_job pg_empty))"
proof -
  have "pg_inv pg_empty" by (simp add: pg_inv_def pg_empty_def)
  with pg_step_refines [OF pg_step.enqueue [OF pg_enqueued]] show ?thesis by blast
qed

lemma pg_claim_result:
  "\<not> isl (pg_ClaimJobs (\<lambda>_. False) sample_claim 5 (projr (pg_Enqueue 1 sample_fleet_job pg_empty))) \<and>
     map (\<lambda>j. (jobRunID j, jobFenceToken j)) (fst (projr (pg_ClaimJobs (\<lambda>_. False) sample_claim 5
       (projr (pg_Enqueue 1 sample_fleet_job pg_empty))))) = [(''run_9'', 1)]"
  by code_simp

lemma pg_claim_run:
  "\<exists>j. pg_ClaimJobs (\<lambda>_. False) sample_claim 5 (projr (pg_Enqueue 1 sample_fleet_job pg_empty)) = Inr ([j], pg_claimed) \<and>
     jobFenceToken j = 1 \<and> jobRunID j = ''run_9''"
proof -
  let ?x = "pg_ClaimJobs (\<lambda>_. False) sample_claim 5 (projr (pg_Enqueue 1 sample_fleet_job pg_empty))"
  have "?x = Inr (fst (projr ?x), pg_claimed)" using pg_claim_result by (cases ?x) (simp_all add: pg_claimed_def)
  moreover obtain j where "fst (projr ?x) = [j]" "jobFenceToken j = 1" "jobRunID j = ''run_9''" using pg_claim_result by auto
  ultimately show ?thesis by metis
qed

lemma pg_claimed_inv: "pg_inv pg_claimed"
  using pg_claim_run pg_step_refines [OF pg_step.claim pg_enqueued_inv] by blast

lemma claimed_cores: "mem_core mem_claimed ''run_9'' = pg_core pg_claimed ''run_9'' \<and> map_option kFence (pg_core pg_claimed ''run_9'') = Some 1"
  by code_simp

lemma completed_runs:
  "\<not> isl (mem_Complete sample_fc ''run_9'' sample_completion 6 mem_claimed) \<and> \<not> isl (pg_Complete sample_fc ''run_9'' sample_completion 6 pg_claimed)"
  by code_simp


theorem fleet_stores_rule_alike_witness:
  "map_sum id (\<lambda>s'. mem_core s' ''run_9'') (mem_Complete sample_fc ''run_9'' sample_completion 6 mem_claimed) =
     map_sum id (\<lambda>t'. pg_core t' ''run_9'') (pg_Complete sample_fc ''run_9'' sample_completion 6 pg_claimed)"
proof -
  have "FleetTerminal (cmStatus sample_completion)" by (simp add: sample_completion_def)
  with fleet_stores_rule_alike [OF pg_claimed_inv claimed_cores [THEN conjunct1]] show ?thesis by blast
qed

theorem completion_accepted_once_witness:
  "mem_Complete sample_fc ''run_9'' sample_completion 7 (projr (mem_Complete sample_fc ''run_9'' sample_completion 6 mem_claimed)) =
     Inl FErrAlreadyAccepted"
proof -
  have trm: "FleetTerminal (cmStatus sample_completion)" by (simp add: sample_completion_def)
  have m: "mem_Complete sample_fc ''run_9'' sample_completion 6 mem_claimed =
      Inr (projr (mem_Complete sample_fc ''run_9'' sample_completion 6 mem_claimed))"
    using completed_runs by (metis sum.collapse(2))
  have p: "pg_Complete sample_fc ''run_9'' sample_completion 6 pg_claimed =
      Inr (projr (pg_Complete sample_fc ''run_9'' sample_completion 6 pg_claimed))"
    using completed_runs by (metis sum.collapse(2))
  from completion_accepted_once [OF mem_claimed_inv m trm rtranclp.rtrancl_refl pg_claimed_inv p rtranclp.rtrancl_refl trm]
  show ?thesis by blast
qed

theorem stale_fence_never_accepted_witness:
  "\<nexists>t''. pg_Heartbeat ''run_9'' 0 7 pg_claimed = Inr t''"
proof -
  obtain k where "pg_core pg_claimed ''run_9'' = Some k" "0 < kFence k" using claimed_cores by auto
  from stale_fence_never_accepted [OF pg_claimed_inv this rtranclp.rtrancl_refl, of "sample_completion\<lparr>cmFenceToken := 0\<rparr>"]
  show ?thesis by (simp add: sample_completion_def)
qed

theorem claims_are_exclusive_witness:
  "\<exists>k. pg_core pg_claimed ''run_9'' = Some k \<and> kFence k = 1"
proof -
  obtain j where j: "pg_ClaimJobs (\<lambda>_. False) sample_claim 5 (projr (pg_Enqueue 1 sample_fleet_job pg_empty)) = Inr ([j], pg_claimed)"
      "jobRunID j = ''run_9''"
    using pg_claim_run by blast
  from claims_are_exclusive [OF pg_enqueued_inv j(1) _ rtranclp.rtrancl_refl, of j] j(2) claimed_cores show ?thesis by auto
qed

end
