(* ===== verification/Fleet_Api.thy ===== *)
theory Fleet_Api
  imports Fleet_PG Engine_Safety
begin

text \<open>
  The fleet's worker protocol over the Postgres store: the HTTP handlers (api/), with the lease gate in front of every
  mutation, the embedded executor (execute/) with the same gate, and the completion feed. A request is its decoded body
  (\<open>None\<close> where decoding fails), a response its status code and error code or reason; metrics and log lines are
  left out. \<open>verify\<close> is the configured verifier at the time of the request, \<open>None\<close> when no key is
  configured.
\<close>

type_synonym lease_verifier = "(string \<Rightarrow> JobLeaseClaims option) option"

record HttpResp =
  rsCode :: nat
  rsReason :: string

definition writeError :: "nat \<Rightarrow> string \<Rightarrow> HttpResp" where
  "writeError code errCode = \<lparr>rsCode = code, rsReason = errCode\<rparr>"

definition fenceConflict :: "string \<Rightarrow> HttpResp" where
  "fenceConflict reason = \<lparr>rsCode = 409, rsReason = reason\<rparr>"

definition noContent :: HttpResp where
  "noContent = \<lparr>rsCode = 204, rsReason = []\<rparr>"

subsection \<open>The lease gate (api/lease\_auth.go)\<close>

definition authorizeJobMutation :: "lease_verifier \<Rightarrow> string \<Rightarrow> string \<Rightarrow> PGStore \<Rightarrow> HttpResp + JobLeaseClaims" where
  "authorizeJobMutation verify authHeader rid s =
    (case verify of None \<Rightarrow> Inl (writeError 401 ''unauthorized'') | Some vf \<Rightarrow>
     case FromAuthorizationHeader authHeader of None \<Rightarrow> Inl (writeError 401 ''unauthorized'') | Some rawToken \<Rightarrow>
     case vf rawToken of None \<Rightarrow> Inl (writeError 401 ''unauthorized'') | Some claims \<Rightarrow>
     case pg_Get rid s of Inl _ \<Rightarrow> Inl (writeError 404 ''not_found'') | Inr job \<Rightarrow>
     if jlRunID claims \<noteq> rid \<or> jlAttempt claims \<noteq> fjAttempt job then Inl (writeError 401 ''unauthorized'')
     else Inr claims)"

subsection \<open>Complete (api/complete\_handler.go)\<close>

record CompleteRequest =
  crqFenceToken :: int
  crqStatus :: FleetStatus
  crqLogsDigest :: string
  crqArtifactDigests :: "string list"
  crqDurationMS :: int
  crqActualCostMilliCents :: int
  crqResults :: "TestResults option"

definition census_error :: "TestResults \<Rightarrow> bool" where
  "census_error c \<longleftrightarrow> trTotal c < 0 \<or> trPassed c < 0 \<or> trFailed c < 0 \<or> trSkipped c < 0 \<or> trQuarantined c < 0 \<or>
     i64 (i64 (i64 (trPassed c + trFailed c) + trSkipped c) + trQuarantined c) \<noteq> trTotal c"

definition CompleteHandler :: "FleetCodec \<Rightarrow> lease_verifier \<Rightarrow> string \<Rightarrow> string \<Rightarrow> string \<Rightarrow> CompleteRequest option \<Rightarrow> gotime \<Rightarrow>
    PGStore \<Rightarrow> HttpResp \<times> PGStore" where
  "CompleteHandler fc verify meth authHeader rid body now s =
    (if meth \<noteq> ''POST'' then (writeError 405 [], s)
     else case body of None \<Rightarrow> (writeError 400 ''validation_failed'', s) | Some req \<Rightarrow>
     if crqStatus req \<notin> {StatusSucceeded, StatusFailed, StatusTimedOut} then (writeError 400 ''validation_failed'', s)
     else if \<not> digest_ok (crqLogsDigest req) then (writeError 400 ''validation_failed'', s)
     else if list_ex (\<lambda>d. \<not> digest_ok d) (crqArtifactDigests req) then (writeError 400 ''validation_failed'', s)
     else if crqDurationMS req < 0 \<or> crqActualCostMilliCents req < 0 then (writeError 400 ''validation_failed'', s)
     else if (case crqResults req of None \<Rightarrow> False | Some c \<Rightarrow> census_error c) then (writeError 400 ''validation_failed'', s)
     else case authorizeJobMutation verify authHeader rid s of Inl resp \<Rightarrow> (resp, s) | Inr _ \<Rightarrow>
     case pg_Complete fc rid \<lparr>cmFenceToken = crqFenceToken req, cmStatus = crqStatus req, cmLogsDigest = crqLogsDigest req,
         cmArtifactDigests = crqArtifactDigests req, cmDurationMS = crqDurationMS req,
         cmActualCostMilliCents = crqActualCostMilliCents req, cmClassification = [], cmLogsExcerpt = [], cmResults = crqResults req\<rparr> now s of
       Inr s' \<Rightarrow> (\<lparr>rsCode = 200, rsReason = []\<rparr>, s')
     | Inl FErrAlreadyAccepted \<Rightarrow> (fenceConflict ''already_accepted'', s)
     | Inl FErrFenceMismatch \<Rightarrow> (fenceConflict ''fence_mismatch'', s)
     | Inl FErrNotFound \<Rightarrow> (writeError 404 ''not_found'', s)
     | Inl _ \<Rightarrow> (writeError 500 ''unavailable'', s))"

subsection \<open>Heartbeat and cancel\<close>

definition HeartbeatHandler :: "lease_verifier \<Rightarrow> string \<Rightarrow> string \<Rightarrow> string \<Rightarrow> int option \<Rightarrow> gotime \<Rightarrow> PGStore \<Rightarrow> HttpResp \<times> PGStore" where
  "HeartbeatHandler verify meth authHeader rid body now s =
    (if meth \<noteq> ''POST'' then (writeError 405 [], s)
     else case body of None \<Rightarrow> (writeError 400 ''validation_failed'', s) | Some fence \<Rightarrow>
     case authorizeJobMutation verify authHeader rid s of Inl resp \<Rightarrow> (resp, s) | Inr _ \<Rightarrow>
     case pg_Heartbeat rid fence now s of
       Inr s' \<Rightarrow> (noContent, s')
     | Inl FErrNotFound \<Rightarrow> (writeError 404 ''not_found'', s)
     | Inl _ \<Rightarrow> (fenceConflict ''fence_mismatch'', s))"

text \<open>The best-effort call to the provider after a cancellation has no effect on the store.\<close>

definition CancelHandler :: "lease_verifier \<Rightarrow> string \<Rightarrow> string \<Rightarrow> string \<Rightarrow> string option \<Rightarrow> gotime \<Rightarrow> PGStore \<Rightarrow> HttpResp \<times> PGStore" where
  "CancelHandler verify meth authHeader rid body now s =
    (if meth \<noteq> ''POST'' then (writeError 405 [], s)
     else case body of None \<Rightarrow> (writeError 400 ''validation_failed'', s) | Some reason \<Rightarrow>
     case authorizeJobMutation verify authHeader rid s of Inl resp \<Rightarrow> (resp, s) | Inr _ \<Rightarrow>
     case pg_Get rid s of Inl _ \<Rightarrow> (writeError 404 ''not_found'', s) | Inr job \<Rightarrow>
     if FleetTerminal (fjStatus job) then (noContent, s)
     else (noContent, snd (pg_Cancel rid reason now s)))"

subsection \<open>Enqueue and claim\<close>

record FleetEnqueueRequest =
  feqRunID :: string
  feqAttempt :: int
  feqTier :: int
  feqPool :: string
  feqJobSpec :: FleetSpec
  feqLeaseToken :: string

text \<open>The read loop: each read delivers bytes and whether it ended the stream; the size is checked after every read but
  the last.\<close>

definition maxEnqueueBodyBytes :: nat where
  "maxEnqueueBodyBytes = 1048576"

fun read_body :: "string \<Rightarrow> (string \<times> bool) list \<Rightarrow> string option" where
  "read_body raw [] = Some raw"
| "read_body raw ((chunk, eof) # reads) =
    (let raw' = raw @ chunk in
     if eof then Some raw' else if length raw' > maxEnqueueBodyBytes then None else read_body raw' reads)"

definition EnqueueHandler :: "(string \<Rightarrow> FleetEnqueueRequest option) \<Rightarrow> string \<Rightarrow> (string \<times> bool) list \<Rightarrow> gotime \<Rightarrow> PGStore \<Rightarrow> HttpResp \<times> PGStore" where
  "EnqueueHandler unmarshal meth reads now s =
    (if meth \<noteq> ''POST'' then (writeError 405 [], s)
     else case read_body [] reads of None \<Rightarrow> (writeError 413 ''too_large'', s) | Some raw \<Rightarrow>
     case unmarshal raw of None \<Rightarrow> (writeError 400 ''validation_failed'', s) | Some req \<Rightarrow>
     if feqRunID req = [] \<or> feqPool req = [] \<or> fsKind (feqJobSpec req) = [] then (writeError 400 ''validation_failed'', s)
     else case pg_Enqueue now \<lparr>jobRunID = feqRunID req, jobAttempt = (if feqAttempt req \<le> 0 then 1 else feqAttempt req), jobFenceToken = 0,
         jobTier = feqTier req, jobPool = feqPool req, jobSpec = feqJobSpec req, jobLeaseToken = feqLeaseToken req\<rparr> s of
       Inr s' \<Rightarrow> (\<lparr>rsCode = 202, rsReason = []\<rparr>, s')
     | Inl FErrDuplicateRun \<Rightarrow> (\<lparr>rsCode = 200, rsReason = ''replay''\<rparr>, s)
     | Inl _ \<Rightarrow> (writeError 500 ''unavailable'', s))"

record ClaimRequest =
  clrPool :: string
  clrLimit :: int
  clrWorkerID :: string

definition ClaimHandler :: "(string \<Rightarrow> bool) \<Rightarrow> string \<Rightarrow> ClaimRequest option \<Rightarrow> gotime \<Rightarrow> PGStore \<Rightarrow> (HttpResp + Job list) \<times> PGStore" where
  "ClaimHandler locked meth body now s =
    (if meth \<noteq> ''POST'' then (Inl (writeError 405 []), s)
     else case body of None \<Rightarrow> (Inl (writeError 400 ''validation_failed''), s) | Some req \<Rightarrow>
     if clrPool req = [] then (Inl (writeError 400 ''validation_failed''), s)
     else let limit0 = (if clrLimit req \<le> 0 then 4 else clrLimit req);
              limit = (if limit0 > 32 then 32 else limit0);
              worker = (if clrWorkerID req = [] then ''anonymous'' else clrWorkerID req);
              s1 = pg_EnsureWorker worker (clrPool req) 1 now s in
       case pg_ClaimJobs locked \<lparr>clPool = clrPool req, clProvider = ''external'', clLimit = limit, clWorkerID = worker\<rparr> now s1 of
         Inl _ \<Rightarrow> (Inl (writeError 500 ''unavailable''), s1)
       | Inr (jobs, s2) \<Rightarrow> (Inr jobs, s2))"

subsection \<open>The completion feed (api/completed\_handler.go)\<close>

text \<open>Reading a number of a decoded document: anything but a \<^verbatim>\<open>float64\<close> reads as 0, a \<^verbatim>\<open>float64\<close> is truncated.\<close>

definition int_of_float :: "float64 \<Rightarrow> int" where
  "int_of_float v = (if v < 0 then \<lceil>v\<rceil> else \<lfloor>v\<rfloor>)"

definition numOf :: "(string \<times> goval) list \<Rightarrow> string \<Rightarrow> int" where
  "numOf doc key = (case map_of doc key of Some (GFloat v) \<Rightarrow> int_of_float v | _ \<Rightarrow> 0)"

definition durationOf :: "(string \<times> goval) list \<Rightarrow> int" where
  "durationOf ref = numOf ref ''duration_ms''"

definition costOf :: "(string \<times> goval) list \<Rightarrow> int" where
  "costOf ref = numOf ref ''cost_millicents''"

definition stringOf :: "(string \<times> goval) list \<Rightarrow> string \<Rightarrow> string" where
  "stringOf ref key = (case map_of ref key of Some (GStr v) \<Rightarrow> v | _ \<Rightarrow> [])"

definition resultsViewOf :: "(string \<times> goval) list \<Rightarrow> TestResults" where
  "resultsViewOf doc = \<lparr>trTotal = numOf doc ''total'', trPassed = numOf doc ''passed'', trFailed = numOf doc ''failed'',
     trSkipped = numOf doc ''skipped'', trQuarantined = numOf doc ''quarantined''\<rparr>"

definition digestsOf :: "(string \<times> goval) list \<Rightarrow> string list" where
  "digestsOf ref = (case map_of ref ''artifact_digests'' of
     Some (GAnys vs) \<Rightarrow> concat (map (\<lambda>v. case v of GStr d \<Rightarrow> [d] | _ \<Rightarrow> []) vs) | _ \<Rightarrow> [])"

text \<open>One row of the feed, in the shape the control plane decodes it (\<^verbatim>\<open>relay.CompletedJob\<close>).\<close>

definition feed_view :: "FleetJob \<Rightarrow> CompletedJob" where
  "feed_view j = \<lparr>cjRunID = fjRunID j, cjAttempt = fjAttempt j, cjFenceToken = fjFenceToken j, cjTier = fjTier j, cjPool = fjPool j,
     cjStatus = FleetStatus_string (fjStatus j), cjLogsDigest = stringOf (fjResultRef j) ''logs_digest'',
     cjLogsExcerpt = stringOf (fjResultRef j) ''logs_excerpt'', cjArtifactDigests = digestsOf (fjResultRef j),
     cjDurationMS = durationOf (fjResultRef j), cjCostMillicents = costOf (fjResultRef j), cjClassification = stringOf (fjResultRef j) ''class'',
     cjResults = (case map_of (fjResultRef j) ''results'' of Some (GMap doc) \<Rightarrow> Some (resultsViewOf doc) | _ \<Rightarrow> None),
     cjResultsDigest = stringOf (fjResultRef j) ''results_digest''\<rparr>"

definition CompletedHandler :: "string \<Rightarrow> string \<Rightarrow> PGStore \<Rightarrow> HttpResp + CompletedJob list" where
  "CompletedHandler meth rawLimit s =
    (if meth \<noteq> ''GET'' then Inl (writeError 405 [])
     else if rawLimit = [] then Inr (map feed_view (pg_TerminalAccepted 100 s))
     else case Atoi rawLimit of
       None \<Rightarrow> Inl (writeError 400 ''validation_failed'')
     | Some n \<Rightarrow> if n \<le> 0 \<or> n > 1000 then Inl (writeError 400 ''validation_failed'')
         else Inr (map feed_view (pg_TerminalAccepted (nat n) s)))"


subsection \<open>The embedded executor (execute/)\<close>

record Outcome =
  ocStatus :: FleetStatus
  ocClassification :: string
  ocLogs :: string
  ocArtifacts :: "Artifact list"
  ocDurationMS :: int
  ocCostMilliCents :: int
  ocResults :: "TestResults option"

definition authorizeInternal :: "lease_verifier \<Rightarrow> Job \<Rightarrow> bool" where
  "authorizeInternal verify job =
    (case verify of None \<Rightarrow> False | Some vf \<Rightarrow>
     if jobLeaseToken job = [] then False
     else case vf (jobLeaseToken job) of None \<Rightarrow> False | Some claims \<Rightarrow>
       jlRunID claims = jobRunID job \<and> jlAttempt claims = jobAttempt job \<and> jlFenceToken claims = jobFenceToken job)"

definition DigestOf :: "FleetCodec \<Rightarrow> string \<Rightarrow> string" where
  "DigestOf fc d = ''sha256:'' @ fcSHA256 fc d"

definition completion_of :: "FleetCodec \<Rightarrow> Job \<Rightarrow> Outcome \<Rightarrow> Completion" where
  "completion_of fc job oc = \<lparr>cmFenceToken = jobFenceToken job, cmStatus = ocStatus oc, cmLogsDigest = DigestOf fc (ocLogs oc),
     cmArtifactDigests = map artDigest (ocArtifacts oc), cmDurationMS = ocDurationMS oc, cmActualCostMilliCents = ocCostMilliCents oc,
     cmClassification = ocClassification oc, cmLogsExcerpt = take 4096 (ocLogs oc), cmResults = ocResults oc\<rparr>"

definition completeInternal :: "FleetCodec \<Rightarrow> lease_verifier \<Rightarrow> Job \<Rightarrow> Outcome \<Rightarrow> gotime \<Rightarrow> PGStore \<Rightarrow> PGStore" where
  "completeInternal fc verify job oc now s =
    (if \<not> authorizeInternal verify job then s
     else case pg_Complete fc (jobRunID job) (completion_of fc job oc) now s of
       Inl _ \<Rightarrow> s
     | Inr s1 \<Rightarrow> (case pg_RecordArtifacts (jobRunID job) (ocArtifacts oc) now s1 of Inl _ \<Rightarrow> s1 | Inr s2 \<Rightarrow> s2))"

definition heartbeatOnce :: "lease_verifier \<Rightarrow> Job \<Rightarrow> gotime \<Rightarrow> PGStore \<Rightarrow> bool \<times> PGStore" where
  "heartbeatOnce verify job now s =
    (if \<not> authorizeInternal verify job then (False, s)
     else case pg_Heartbeat (jobRunID job) (jobFenceToken job) now s of Inl _ \<Rightarrow> (False, s) | Inr s1 \<Rightarrow> (True, s1))"

text \<open>The loop of \<^verbatim>\<open>runJob\<close> over what each iteration observes: the context ends, the deadline fires and the
  provider is polled once more, or a poll. \<open>None\<close> means no outcome: the context ended, or the loop is still
  running. An empty status is \<open>StatusOther []\<close>. The heartbeats of the goroutine beside the loop are steps
  \<open>heartbeatOnce\<close> of their own; \<open>runJob\<close> acts on the store as it is when the outcome is settled.\<close>

datatype PollState = PollRunning | PollDone

datatype LoopObs = CtxDone | DeadlineFired PollState Outcome | Polled PollState Outcome

definition timeoutOutcome :: Outcome where
  "timeoutOutcome = \<lparr>ocStatus = StatusTimedOut, ocClassification = ''timeout'', ocLogs = ''job exceeded timeout_ms; killed'' @ [CHR 0x0A],
     ocArtifacts = [], ocDurationMS = 0, ocCostMilliCents = 0, ocResults = None\<rparr>"

fun run_loop :: "LoopObs list \<Rightarrow> (Outcome \<times> bool) option" where
  "run_loop [] = None"
| "run_loop (CtxDone # obs) = None"
| "run_loop (DeadlineFired st oc # obs) =
    Some (if st \<noteq> PollDone \<or> ocStatus oc = StatusOther [] then timeoutOutcome else oc\<lparr>ocStatus := StatusTimedOut\<rparr>, True)"
| "run_loop (Polled st oc # obs) = (if st = PollDone \<and> ocStatus oc \<noteq> StatusOther [] then Some (oc, False) else run_loop obs)"

definition settle :: "int \<Rightarrow> Outcome \<times> bool \<Rightarrow> Outcome" where
  "settle elapsedMS result = (let (oc, timedOut) = result;
       oc1 = (if timedOut \<and> ocClassification oc = [] then oc\<lparr>ocClassification := ''timeout''\<rparr> else oc)
     in if ocDurationMS oc1 = 0 then oc1\<lparr>ocDurationMS := elapsedMS\<rparr> else oc1)"

definition runJob :: "FleetCodec \<Rightarrow> lease_verifier \<Rightarrow> Job \<Rightarrow> string + LoopObs list \<Rightarrow> int \<Rightarrow> gotime \<Rightarrow> PGStore \<Rightarrow> PGStore" where
  "runJob fc verify job submitted elapsedMS now s =
    (case submitted of
       Inl err \<Rightarrow> completeInternal fc verify job \<lparr>ocStatus = StatusFailed, ocClassification = ''infra_transient'',
         ocLogs = ''provider unavailable: '' @ err @ [CHR 0x0A], ocArtifacts = [], ocDurationMS = 0, ocCostMilliCents = 0, ocResults = None\<rparr> now s
     | Inr obs \<Rightarrow> (case run_loop obs of None \<Rightarrow> s | Some result \<Rightarrow> completeInternal fc verify job (settle elapsedMS result) now s))"

subsection \<open>The control plane's client (control-plane relay/fleet\_client.go)\<close>

text \<open>The cancel request carries a content type and no \<^verbatim>\<open>Authorization\<close> header, and any answer below 500
  counts as success.\<close>

definition FleetClient_Cancel :: "lease_verifier \<Rightarrow> string \<Rightarrow> string \<Rightarrow> gotime \<Rightarrow> PGStore \<Rightarrow> (string + unit) \<times> PGStore" where
  "FleetClient_Cancel verify rid reason now s =
    (case CancelHandler verify ''POST'' [] rid (Some reason) now s of
       (resp, s') \<Rightarrow> (if rsCode resp \<ge> 500 then Inl ''fleet cancel status'' else Inr (), s'))"

definition FleetClient_Enqueue :: "(string \<Rightarrow> FleetEnqueueRequest option) \<Rightarrow> string \<Rightarrow> gotime \<Rightarrow> PGStore \<Rightarrow> (string + unit) \<times> PGStore" where
  "FleetClient_Enqueue unmarshal body now s =
    (case EnqueueHandler unmarshal ''POST'' [(body, True)] now s of
       (resp, s') \<Rightarrow> (if rsCode resp \<ge> 500 then Inl ''fleet enqueue status'' else Inr (), s'))"

subsection \<open>Theorems\<close>

lemma authorize_Inr:
  "authorizeJobMutation verify hdr rid s = Inr claims \<Longrightarrow> \<exists>vf token job. verify = Some vf \<and> FromAuthorizationHeader hdr = Some token \<and>
     vf token = Some claims \<and> pg_Get rid s = Inr job \<and> jlRunID claims = rid \<and> jlAttempt claims = fjAttempt job"
  by (auto simp: authorizeJobMutation_def split: option.splits sum.splits if_splits)

lemma handlers_unauthorized:
  assumes "authorizeJobMutation verify hdr rid s = Inl resp"
  shows "snd (CompleteHandler fc verify meth hdr rid body now s) = s" and "snd (HeartbeatHandler verify meth hdr rid hb now s) = s"
    and "snd (CancelHandler verify meth hdr rid cb now s) = s"
  using assms by (simp_all add: CompleteHandler_def HeartbeatHandler_def CancelHandler_def split: option.split)


text \<open>The control plane cannot cancel fleet jobs. Its client sends the cancel request without the lease the handler
  demands, the handler answers 401 and changes nothing, and the client takes the answer for success.\<close>

theorem control_plane_cancel_is_ignored:
  "FleetClient_Cancel verify rid reason now s = (Inr (), s)"
proof -
  have "FromAuthorizationHeader [] = None" by (simp add: FromAuthorizationHeader_def)
  then have "authorizeJobMutation verify [] rid s = Inl (writeError 401 ''unauthorized'')"
    by (simp add: authorizeJobMutation_def split: option.split)
  then show ?thesis by (simp add: FleetClient_Cancel_def CancelHandler_def writeError_def)
qed


subsection \<open>Reclaimed and retried jobs\<close>

lemma pg_requeue_token:
  assumes "pg_inv t" and "pg_RequeueStale th now t = (requeued, t')" and "r \<in> set requeued"
  shows "\<exists>k k'. pg_core t r = Some k \<and> pg_core t' r = Some k' \<and> same_job k k' \<and> kStatus k' = StatusQueued \<and> 2 \<le> kFence k'"
proof -
  let ?dead = "set (map pwID (filter (\<lambda>w. pwLastHeartbeat w < now - th) (pgWorkers t)))"
  let ?f = "\<lambda>row. (if stale_row th now row then pg_requeue_row row else row)\<lparr>pgClaimedBy := (case pgClaimedBy
    (if stale_row th now row then pg_requeue_row row else row) of None \<Rightarrow> None | Some w \<Rightarrow> if w \<in> ?dead then None else Some w)\<rparr>"
  have t': "pgJobs t' = map ?f (pgJobs t)" and req: "requeued = map pgRunID (filter (stale_row th now) (pgJobs t))"
    using assms(2) by (auto simp: pg_RequeueStale_def Let_def update_where_def)
  obtain row where row: "row \<in> set (pgJobs t)" "stale_row th now row" "pgRunID row = r" using assms(3) req by auto
  have find: "pg_find r t = Some row" using row by (auto intro: pg_find_member [OF assms(1)])
  have "pg_find r t' = map_option ?f (pg_find r t)"
    unfolding pg_find_def t' by (rule find_map_key) (simp add: pg_requeue_row_def)
  then have find': "pg_find r t' = Some (?f row)" by (simp add: find)
  have "pgStatus row = StatusRunning" using row(2) by (simp add: stale_row_def)
  moreover have "core_ok (row_core row)" using assms(1) row(1) by (simp add: pg_inv_def)
  ultimately have "1 \<le> pgFenceToken row" by (simp add: core_ok_def row_core_def)
  then show ?thesis
    using find find' row(2) by (simp add: pg_core_def row_core_def same_job_def pg_requeue_row_def)
qed

text \<open>C36: A reclaimed job never completes in process. The lease of a dispatched run is minted for fence token 1. Once the
  job has been requeued for a missed heartbeat, every later claim hands out a fence of at least 3 together with the same
  lease, and the executor, which demands that the lease names the fence it holds, discards the result and stops the
  heartbeats of that job, at every later claim and whatever the outcome.\<close>

theorem reclaimed_job_never_completes:
  assumes "codec_ok cd" and "pg_inv t" and "pg_core t r = Some k"
    and "mintJobLease env (signCompact cd) (run\<lparr>vrFenceToken := 1\<rparr>) = Inr (kLease k)"
    and "pg_RequeueStale th now0 t = (requeued, t1)" and "r \<in> set requeued" and "pg_step\<^sup>*\<^sup>* t1 t2"
    and "pg_ClaimJobs locked c now t2 = Inr (jobs, t3)" and "j \<in> set jobs" and "jobRunID j = r"
  shows "3 \<le> jobFenceToken j \<and> completeInternal fc (Some (Verify_lease cd vt)) j oc now' s = s \<and>
    heartbeatOnce (Some (Verify_lease cd vt)) j now' s = (False, s)"
proof -
  obtain k1 where k1: "pg_core t1 r = Some k1" "same_job k k1" "2 \<le> kFence k1"
    using pg_requeue_token [OF assms(2,5,6)] assms(3) by auto
  have inv1: "pg_inv t1" using pg.inv_step [OF assms(2) pg_step.requeue [OF assms(5)]] .
  have inv2: "pg_inv t2" using pg.reach [OF assms(7) inv1] by blast
  obtain k2 where k2: "pg_core t2 r = Some k2" "same_job k1 k2" "kFence k1 \<le> kFence k2"
    using pg.fence_monotone [OF inv1 k1(1) assms(7)] by blast
  have j: "jobFenceToken j = kFence k2 + 1" "jobLeaseToken j = kLease k2"
    using pg_claim_token [OF inv2 assms(8,9)] k2(1) assms(10) by auto
  have lease: "jobLeaseToken j = kLease k" using j k1 k2 by (simp add: same_job_def)
  have fence: "3 \<le> jobFenceToken j" using j k1 k2 by simp
  have "jlFenceToken claims = 1" if "Verify_lease cd vt (jobLeaseToken j) = Some claims" for claims
  proof -
    obtain cl where "kLease k = signCompact cd cl" "jlFenceToken cl = 1"
      using assms(4) unfolding mintJobLease_def Mint_Inr by auto
    with that show ?thesis unfolding lease by (simp add: Verify_signCompact [OF assms(1)] split: if_splits)
  qed
  then have "\<not> authorizeInternal (Some (Verify_lease cd vt)) j"
    using fence by (auto simp: authorizeInternal_def split: option.split)
  with fence show ?thesis by (simp add: completeInternal_def heartbeatOnce_def)
qed

text \<open>A retry is dropped at the fleet. The control plane retries a failed run under the same run id. Once the fleet
  has accepted a result for that id, the enqueue of a further attempt is answered as an accepted replay and changes
  nothing, and no claim ever hands the run out again, so the retried attempt never executes.\<close>

theorem retry_is_dropped_at_fleet:
  assumes "pg_inv t" and "pg_core t r = Some k" and "kAccepted k" and "pg_step\<^sup>*\<^sup>* t t1"
    and "unmarshal body = Some req" and "feqRunID req = r" and "r \<noteq> []" and "feqPool req \<noteq> []" and "fsKind (feqJobSpec req) \<noteq> []"
  shows "FleetClient_Enqueue unmarshal body now t1 = (Inr (), t1) \<and>
    (\<forall>locked c now' jobs t2. pg_ClaimJobs locked c now' t1 = Inr (jobs, t2) \<longrightarrow> r \<notin> jobRunID ` set jobs)"
proof
  have inv1: "pg_inv t1" using pg.reach [OF assms(4,1)] by blast
  have core: "pg_core t1 r = Some k" by (rule pg.accepted_final [OF assms(1-4)])
  then obtain row where "row \<in> set (pgJobs t1)" "pgRunID row = r" by (auto simp: pg_core_def dest!: pg_find_SomeD)
  then have "list_ex (\<lambda>row. pgRunID row = r) (pgJobs t1)" by (auto simp: list_ex_iff)
  then show "FleetClient_Enqueue unmarshal body now t1 = (Inr (), t1)"
    using assms(5-9) by (simp add: FleetClient_Enqueue_def EnqueueHandler_def pg_Enqueue_def)
  have "FleetTerminal (kStatus k)" using pg.inv_ok [OF assms(1,2)] assms(3) by (simp add: core_ok_def)
  then show "\<forall>locked c now' jobs t2. pg_ClaimJobs locked c now' t1 = Inr (jobs, t2) \<longrightarrow> r \<notin> jobRunID ` set jobs"
    using pg_claim_token [OF inv1] core by fastforce
qed


subsection \<open>The completion feed\<close>

definition census_exact :: "TestResults \<Rightarrow> bool" where
  "census_exact r \<longleftrightarrow> float_exact (trTotal r) \<and> float_exact (trPassed r) \<and> float_exact (trFailed r) \<and> float_exact (trSkipped r) \<and>
     float_exact (trQuarantined r)"

definition feed_exact :: "Completion \<Rightarrow> bool" where
  "feed_exact c \<longleftrightarrow> float_exact (cmDurationMS c) \<and> float_exact (cmActualCostMilliCents c) \<and> pred_option census_exact (cmResults c)"

lemma int_of_float_exact: "float_exact n \<Longrightarrow> int_of_float (float_of_int n) = n"
  by (simp add: int_of_float_def float_of_int_exact)

lemma results_roundtrip: "census_exact r \<Longrightarrow> resultsViewOf (map (\<lambda>(k, v). (k, json_value v)) (census_doc r)) = r"
  by (simp add: resultsViewOf_def census_doc_def numOf_def census_exact_def int_of_float_exact)

lemma ResultRef_numbers:
  "feed_exact c \<Longrightarrow> durationOf (json_doc (ResultRef fc c)) = cmDurationMS c"
  "feed_exact c \<Longrightarrow> costOf (json_doc (ResultRef fc c)) = cmActualCostMilliCents c"
  by (auto simp: durationOf_def costOf_def numOf_def json_doc_def ResultRef_def feed_exact_def int_of_float_exact split: option.split)

lemma ResultRef_lookup:
  "stringOf (json_doc (ResultRef fc c)) ''logs_digest'' = cmLogsDigest c" "stringOf (json_doc (ResultRef fc c)) ''logs_excerpt'' = cmLogsExcerpt c"
  "stringOf (json_doc (ResultRef fc c)) ''class'' = cmClassification c" "digestsOf (json_doc (ResultRef fc c)) = cmArtifactDigests c"
  "map_of (json_doc (ResultRef fc c)) ''results'' =
     map_option (\<lambda>r. GMap (map (\<lambda>(k, v). (k, json_value v)) (census_doc r))) (cmResults c)"
  by (auto simp: stringOf_def digestsOf_def json_doc_def ResultRef_def o_def split: option.split)

lemma pg_Complete_row:
  assumes "pg_inv s" and "pg_Complete fc r c now s = Inr s'"
  shows "\<exists>row. pg_find r s = Some row \<and> pgFenceToken row = cmFenceToken c \<and> pg_find r s' = Some (row\<lparr>pgStatus := cmStatus c,
    pgAccepted := True, pgFinishedAt := Some now, pgResultRef := Some (json_doc (ResultRef fc c))\<rparr>)"
proof -
  let ?P = "\<lambda>row. pgStatus row = StatusRunning \<and> pgFenceToken row = cmFenceToken c \<and> \<not> pgAccepted row"
  let ?f = "\<lambda>row. row\<lparr>pgStatus := cmStatus c, pgAccepted := True, pgFinishedAt := Some now, pgResultRef := Some (json_doc (ResultRef fc c))\<rparr>"
  have affected: "rows_affected (\<lambda>row. pgRunID row = r \<and> ?P row) (pgJobs s) = (case pg_find r s of None \<Rightarrow> 0 | Some row \<Rightarrow> if ?P row then 1 else 0)"
    by (rule pg_affected [OF assms(1)])
  then obtain row where row: "pg_find r s = Some row" "?P row"
    using assms(2) by (auto simp: pg_Complete_def Let_def split: option.splits if_splits sum.splits)
  have "pgJobs s' = update_where (\<lambda>row. pgRunID row = r \<and> ?P row) ?f (pgJobs s)"
    using assms(2) affected row by (auto simp: pg_Complete_def Let_def split: if_splits)
  from pg_find_update [OF _ this] row show ?thesis by auto
qed

text \<open>What a worker reports is what the control plane reads. After an accepted completion, as long as the store holds
  at most the default page of 100 jobs, the completion feed has a row for the run with the fence token, status, logs digest
  and excerpt, artifact digests, duration, cost, classification and census of the report, although the store keeps them in
  a JSON document whose numbers come back as floats; integers up to \<open>2 ^ 53\<close> in absolute value are exact.\<close>

theorem completion_reaches_the_feed:
  assumes "pg_inv s" and "FleetTerminal (cmStatus c)" and "pg_Complete fc r c now s = Inr s'" and "feed_exact c"
    and "length (pgJobs s') \<le> 100"
  shows "\<exists>jobs v. CompletedHandler ''GET'' [] s' = Inr jobs \<and> v \<in> set jobs \<and> cjRunID v = r \<and> cjFenceToken v = cmFenceToken c \<and>
    cjStatus v = FleetStatus_string (cmStatus c) \<and> cjLogsDigest v = cmLogsDigest c \<and> cjLogsExcerpt v = cmLogsExcerpt c \<and>
    cjArtifactDigests v = cmArtifactDigests c \<and> cjDurationMS v = cmDurationMS c \<and> cjCostMillicents v = cmActualCostMilliCents c \<and>
    cjClassification v = cmClassification c \<and> cjResults v = cmResults c"
proof -
  obtain row where row: "pgFenceToken row = cmFenceToken c" "pg_find r s' = Some (row\<lparr>pgStatus := cmStatus c,
    pgAccepted := True, pgFinishedAt := Some now, pgResultRef := Some (json_doc (ResultRef fc c))\<rparr>)" (is "_ = Some ?row")
    using pg_Complete_row [OF assms(1,3)] by blast
  let ?acc = "filter (\<lambda>row. pgAccepted row \<and> FleetTerminal (pgStatus row)) (pgJobs s')"
  have "?row \<in> set ?acc" "pgRunID ?row = r" using pg_find_SomeD [OF row(2)] assms(2) by auto
  moreover have "length (sort_by lt ?acc) \<le> 100" for lt
    using assms(5) by (metis le_trans length_filter_le mset_sort_by size_mset)
  ultimately have "feed_view (scan_row ?row) \<in> set (map feed_view (pg_TerminalAccepted 100 s'))"
    by (auto simp: pg_TerminalAccepted_def set_sort_by intro!: imageI)
  moreover have "CompletedHandler ''GET'' [] s' = Inr (map feed_view (pg_TerminalAccepted 100 s'))" by (simp add: CompletedHandler_def)
  moreover have "cjResults (feed_view (scan_row ?row)) = cmResults c"
    using assms(4) by (cases "cmResults c") (simp_all add: feed_view_def scan_row_def ResultRef_lookup feed_exact_def results_roundtrip)
  ultimately show ?thesis using row(1) \<open>pgRunID ?row = r\<close>
    by (intro exI [of _ "map feed_view (pg_TerminalAccepted 100 s')"] exI [of _ "feed_view (scan_row ?row)"])
       (auto simp: feed_view_def scan_row_def ResultRef_lookup ResultRef_numbers [OF assms(4)])
qed

text \<open>The in-memory store keeps the document as it was built, so the handler's type assertions fail: the feed of a
  fleet that runs on it reports no duration, no cost and no artifacts.\<close>

lemma memory_feed_loses_numbers:
  "durationOf (ResultRef fc c) = 0 \<and> costOf (ResultRef fc c) = 0 \<and> digestsOf (ResultRef fc c) = []"
  by (auto simp: durationOf_def costOf_def numOf_def digestsOf_def ResultRef_def split: option.split)


subsection \<open>Sample requests\<close>

lemma sample_heartbeat:
  "map pgLastHeartbeat (pgJobs (snd (HeartbeatHandler (Some (\<lambda>_. Some sample_claims)) ''POST'' ''Bearer t'' ''run_9'' (Some 1) 7 pg_claimed))) =
     [Some 7] \<and> map pgLastHeartbeat (pgJobs pg_claimed) = [Some 5]"
  by code_simp


definition dispatched_run :: ValidationRun where
  "dispatched_run = sample_run\<lparr>vrID := ''run_9'', vrAttempt := 1\<rparr>"

definition sample_lease :: string where
  "sample_lease = projr (mintJobLease sample_env (signCompact sample_codec) (dispatched_run\<lparr>vrFenceToken := 1\<rparr>))"

definition leased_store :: PGStore where
  "leased_store = snd (projr (pg_ClaimJobs (\<lambda>_. False) sample_claim 5
     (projr (pg_Enqueue 1 (sample_fleet_job\<lparr>jobLeaseToken := sample_lease\<rparr>) pg_empty))))"

lemmas claim_run_simps = pg_ClaimJobs_def pg_Enqueue_def pg_empty_def sample_fleet_job_def sample_claim_def claimable_def sort_by_def
  update_where_def pg_claim_row_def pg_claimed_job_def Let_def

lemma leased_store_claim:
  "\<exists>jobs. pg_ClaimJobs (\<lambda>_. False) sample_claim 5 (projr (pg_Enqueue 1 (sample_fleet_job\<lparr>jobLeaseToken := sample_lease\<rparr>) pg_empty)) =
     Inr (jobs, leased_store)"
  by (simp add: leased_store_def claim_run_simps)

lemma leased_store_inv: "pg_inv leased_store"
proof -
  have "pg_Enqueue 1 (sample_fleet_job\<lparr>jobLeaseToken := sample_lease\<rparr>) pg_empty =
      Inr (projr (pg_Enqueue 1 (sample_fleet_job\<lparr>jobLeaseToken := sample_lease\<rparr>) pg_empty))"
    by (simp add: pg_Enqueue_def pg_empty_def)
  then have "pg_inv (projr (pg_Enqueue 1 (sample_fleet_job\<lparr>jobLeaseToken := sample_lease\<rparr>) pg_empty))"
    by (rule pg_step_refines [OF pg_step.enqueue, THEN conjunct1]) (simp add: pg_inv_def pg_empty_def)
  with leased_store_claim pg_step_refines [OF pg_step.claim] show ?thesis by blast
qed

lemma leased_store_requeued:
  "\<exists>j jobs t3 k. pg_core leased_store ''run_9'' = Some k \<and> kLease k = sample_lease \<and>
     fst (pg_RequeueStale 10 100 leased_store) = [''run_9''] \<and>
     pg_ClaimJobs (\<lambda>_. False) sample_claim 200 (snd (pg_RequeueStale 10 100 leased_store)) = Inr (jobs, t3) \<and>
     j \<in> set jobs \<and> jobRunID j = ''run_9'' \<and> jobFenceToken j = 3"
  by (simp add: leased_store_def claim_run_simps pg_RequeueStale_def stale_row_def pg_requeue_row_def pg_core_def pg_find_def row_core_def)

theorem reclaimed_job_never_completes_witness:
  "\<exists>j. jobRunID j = ''run_9'' \<and> (\<forall>oc s. completeInternal sample_fc (Some (Verify_lease sample_codec 9000)) j oc 300 s = s)"
proof -
  obtain j jobs t3 k where run: "pg_core leased_store ''run_9'' = Some k" "kLease k = sample_lease"
      "fst (pg_RequeueStale 10 100 leased_store) = [''run_9'']"
      "pg_ClaimJobs (\<lambda>_. False) sample_claim 200 (snd (pg_RequeueStale 10 100 leased_store)) = Inr (jobs, t3)" "j \<in> set jobs" "jobRunID j = ''run_9''"
    using leased_store_requeued by blast
  have lease: "mintJobLease sample_env (signCompact sample_codec) (dispatched_run\<lparr>vrFenceToken := 1\<rparr>) = Inr (kLease k)"
    unfolding run(2) sample_lease_def by (simp add: mintJobLease_def Mint_def sample_env_def)
  have "completeInternal sample_fc (Some (Verify_lease sample_codec 9000)) j oc 300 s = s" for oc s
    using reclaimed_job_never_completes [OF sample_codec_ok leased_store_inv run(1) lease surjective_pairing _ rtranclp.rtrancl_refl run(4-6)] run(3)
    by simp
  with run(6) show ?thesis by blast
qed

definition sample_enqueue :: FleetEnqueueRequest where
  "sample_enqueue = \<lparr>feqRunID = ''run_9'', feqAttempt = 2, feqTier = 0, feqPool = ''sim'', feqJobSpec = sample_spec, feqLeaseToken = []\<rparr>"

lemma sample_completed:
  "case pg_core (projr (pg_Complete sample_fc ''run_9'' sample_completion 6 pg_claimed)) ''run_9'' of None \<Rightarrow> False | Some k \<Rightarrow> kAccepted k"
  by code_simp

lemma completed_inv: "pg_inv (projr (pg_Complete sample_fc ''run_9'' sample_completion 6 pg_claimed))"
proof -
  have "pg_Complete sample_fc ''run_9'' sample_completion 6 pg_claimed = Inr (projr (pg_Complete sample_fc ''run_9'' sample_completion 6 pg_claimed))"
    using completed_runs by simp
  from pg_step_refines [OF pg_step.complete [OF this] pg_claimed_inv] show ?thesis by (simp add: sample_completion_def)
qed

theorem retry_is_dropped_at_fleet_witness:
  "FleetClient_Enqueue (\<lambda>_. Some sample_enqueue) [] 9 (projr (pg_Complete sample_fc ''run_9'' sample_completion 6 pg_claimed)) =
     (Inr (), projr (pg_Complete sample_fc ''run_9'' sample_completion 6 pg_claimed))"
proof -
  obtain k where "pg_core (projr (pg_Complete sample_fc ''run_9'' sample_completion 6 pg_claimed)) ''run_9'' = Some k" "kAccepted k"
    using sample_completed by (auto split: option.splits)
  from retry_is_dropped_at_fleet [OF completed_inv this rtranclp.rtrancl_refl, of "\<lambda>_. Some sample_enqueue" "[]" sample_enqueue 9]
  show ?thesis by (simp add: sample_enqueue_def sample_spec_def)
qed

theorem completion_reaches_the_feed_witness:
  "\<exists>jobs v. CompletedHandler ''GET'' [] (projr (pg_Complete sample_fc ''run_9'' sample_completion 6 pg_claimed)) = Inr jobs \<and> v \<in> set jobs \<and>
     cjRunID v = ''run_9'' \<and> cjDurationMS v = 5 \<and> cjStatus v = ''succeeded''"
proof -
  have run: "pg_Complete sample_fc ''run_9'' sample_completion 6 pg_claimed = Inr (projr (pg_Complete sample_fc ''run_9'' sample_completion 6 pg_claimed))"
    using completed_runs by simp
  have "length (pgJobs (projr (pg_Complete sample_fc ''run_9'' sample_completion 6 pg_claimed))) = 1" by code_simp
  then have "length (pgJobs (projr (pg_Complete sample_fc ''run_9'' sample_completion 6 pg_claimed))) \<le> 100" by simp
  from completion_reaches_the_feed [OF pg_claimed_inv _ run _ this] show ?thesis
    by (simp add: sample_completion_def feed_exact_def float_exact_def) blast
qed

subsection \<open>The executor settles what it claims\<close>

definition observed_ok :: "LoopObs \<Rightarrow> bool" where
  "observed_ok ob = (case ob of CtxDone \<Rightarrow> False | DeadlineFired _ _ \<Rightarrow> True
     | Polled st oc \<Rightarrow> st = PollDone \<longrightarrow> ocStatus oc = StatusOther [] \<or> FleetTerminal (ocStatus oc))"

definition observed_end :: "LoopObs \<Rightarrow> bool" where
  "observed_end ob = (case ob of CtxDone \<Rightarrow> False | DeadlineFired _ _ \<Rightarrow> True | Polled st oc \<Rightarrow> st = PollDone \<and> ocStatus oc \<noteq> StatusOther [])"

lemma run_loop_settles:
  "list_all observed_ok obs \<Longrightarrow> list_ex observed_end obs \<Longrightarrow> \<exists>oc late. run_loop obs = Some (oc, late) \<and> FleetTerminal (ocStatus oc)"
  by (induction obs rule: run_loop.induct) (auto simp: observed_ok_def observed_end_def timeoutOutcome_def)

lemma ocStatus_settle [simp]: "ocStatus (settle elapsed (oc, late)) = ocStatus oc"
  by (simp add: settle_def Let_def)

lemma RecordArtifacts_core: "pg_RecordArtifacts r arts now s = Inr s' \<Longrightarrow> pg_core s' = pg_core s"
  by (auto simp: pg_RecordArtifacts_def pg_core_def pg_find_def fun_eq_iff split: if_splits)

lemma completeInternal_accepts:
  assumes "pg_inv s" and "authorizeInternal verify job" and "pg_core s (jobRunID job) = Some k" and "kStatus k = StatusRunning"
    and "kFence k = jobFenceToken job" and "FleetTerminal (ocStatus oc)"
  shows "pg_core (completeInternal fc verify job oc now s) (jobRunID job) = Some (k\<lparr>kStatus := ocStatus oc, kAccepted := True\<rparr>)"
proof -
  have "\<not> kAccepted k" using pg.inv_ok [OF assms(1,3)] assms(4) by (auto simp: core_ok_def)
  moreover have "map_sum id (\<lambda>s'. pg_core s' (jobRunID job)) (pg_Complete fc (jobRunID job) (completion_of fc job oc) now s) =
      complete_ruling (Some k) (jobFenceToken job) (ocStatus oc)"
    using pg_Complete_ruling [OF assms(1), of "completion_of fc job oc"] assms(3,6) by (simp add: completion_of_def)
  ultimately obtain s1 where s1: "pg_Complete fc (jobRunID job) (completion_of fc job oc) now s = Inr s1"
      "pg_core s1 (jobRunID job) = Some (k\<lparr>kStatus := ocStatus oc, kAccepted := True\<rparr>)"
    using assms(4,5)
    by (cases "pg_Complete fc (jobRunID job) (completion_of fc job oc) now s") (auto simp: complete_ruling_def)
  then show ?thesis
    using assms(2) by (auto simp: completeInternal_def dest: RecordArtifacts_core split: sum.split)
qed


definition held_job :: Job where
  "held_job = sample_fleet_job\<lparr>jobFenceToken := 1\<rparr>"


end
