(* ===== verification/Relay.thy ===== *)
theory Relay
  imports Engine_Safety
begin

text \<open>
  The outbox relay of the control plane (internal/relay/relay.go, store/relay\_queue.go) and the consumer that pushes rendered
  decisions to the connector (relay/connector\_publisher.go). The outbox table is a list of rows; a handler is a function on
  the state it works on. Two goroutines drain the outbox, the poll loop and the notification loop, so the relay is a step
  relation over the table and the items each worker has claimed: claim, deliver one item, append, crash. Shown: an item is
  in the hands of at most one worker, no row is attempted more than ten times, published and parked rows never come back,
  enough passes settle every row, and a row whose worker went away is never delivered again.
\<close>

subsection \<open>The outbox table (store/relay\_queue.go)\<close>

datatype OutboxStatus = OutboxPending | OutboxDelivering | OutboxPublished | OutboxFailed

record OutboxEntry =
  oeID :: int
  oeRow :: OutboxRow
  oeStatus :: OutboxStatus
  oeAttempts :: int
  oeNextAt :: gotime
  oeCreatedAt :: gotime

record OutboxItem =
  oiID :: int
  oiEventID :: string
  oiTenantID :: string
  oiType :: string
  oiAggType :: string
  oiAggID :: string
  oiAttempts :: int

definition due_entry :: "gotime \<Rightarrow> OutboxEntry \<Rightarrow> bool" where
  "due_entry now e \<longleftrightarrow> oeStatus e = OutboxPending \<and> oeNextAt e \<le> now"

definition claim_rows :: "gotime \<Rightarrow> int \<Rightarrow> OutboxEntry list \<Rightarrow> OutboxEntry list" where
  "claim_rows now batch q = take (nat batch) (sort_by (\<lambda>a b. oeID a < oeID b) (filter (due_entry now) q))"

definition claimed_entry :: "OutboxEntry \<Rightarrow> OutboxEntry" where
  "claimed_entry e = e\<lparr>oeStatus := OutboxDelivering, oeAttempts := oeAttempts e + 1\<rparr>"

definition claimed_item :: "OutboxEntry \<Rightarrow> OutboxItem" where
  "claimed_item e = \<lparr>oiID = oeID e, oiEventID = obEventID (oeRow e), oiTenantID = obTenantID (oeRow e), oiType = obType (oeRow e),
     oiAggType = agType (obAggregate (oeRow e)), oiAggID = agID (obAggregate (oeRow e)), oiAttempts = oeAttempts e + 1\<rparr>"

text \<open>\<^verbatim>\<open>FOR UPDATE SKIP LOCKED\<close> in one transaction: claims of two workers are atomic.\<close>

definition ClaimOutboxBatch :: "gotime \<Rightarrow> int \<Rightarrow> OutboxEntry list \<Rightarrow> OutboxItem list \<times> OutboxEntry list" where
  "ClaimOutboxBatch now batch q =
    (let claimed = claim_rows now batch q in
     (map claimed_item claimed, map (\<lambda>e. if oeID e \<in> oeID ` set claimed then claimed_entry e else e) q))"

definition MarkPublished :: "int \<Rightarrow> OutboxEntry list \<Rightarrow> OutboxEntry list" where
  "MarkPublished ident q = map (\<lambda>e. if oeID e = ident then e\<lparr>oeStatus := OutboxPublished\<rparr> else e) q"

definition failed_entry :: "gotime \<Rightarrow> int \<Rightarrow> OutboxEntry \<Rightarrow> OutboxEntry" where
  "failed_entry now attempts e = e\<lparr>oeStatus := (if attempts \<ge> 10 then OutboxFailed else OutboxPending), oeNextAt := now + attempts * 1000000000\<rparr>"

definition MarkFailed :: "gotime \<Rightarrow> int \<Rightarrow> int \<Rightarrow> OutboxEntry list \<Rightarrow> OutboxEntry list" where
  "MarkFailed now ident attempts q = map (\<lambda>e. if oeID e = ident then failed_entry now attempts e else e) q"

definition ReclaimStuckDelivering :: "gotime \<Rightarrow> duration \<Rightarrow> OutboxEntry list \<Rightarrow> OutboxEntry list" where
  "ReclaimStuckDelivering now olderThan q =
     map (\<lambda>e. if oeStatus e = OutboxDelivering \<and> oeCreatedAt e < now - olderThan then e\<lparr>oeStatus := OutboxPending\<rparr> else e) q"

definition OutboxDepth :: "OutboxEntry list \<Rightarrow> nat" where
  "OutboxDepth q = length (filter (\<lambda>e. oeStatus e \<in> {OutboxPending, OutboxDelivering}) q)"

text \<open>The rows \<open>AppendEventsTx\<close> inserts; the id is the serial of the table, the other columns have their defaults.\<close>

definition fresh_entry :: "OutboxEntry \<Rightarrow> bool" where
  "fresh_entry e \<longleftrightarrow> oeStatus e = OutboxPending \<and> oeAttempts e = 0 \<and> oeNextAt e = oeCreatedAt e"

subsection \<open>Delivering (relay.go)\<close>

datatype HandlerResult = HandlerOk | HandlerErr | HandlerPanic

type_synonym 's Handler = "OutboxItem \<Rightarrow> 's \<Rightarrow> HandlerResult \<times> 's"

type_synonym 's Handlers = "(string \<times> 's Handler list) list"

text \<open>The handlers of one type stop at the first error; the outer loop over the map goes on with the other types. A panic
  takes the process down.\<close>

fun run_handlers :: "'s Handler list \<Rightarrow> OutboxItem \<Rightarrow> 's \<Rightarrow> HandlerResult \<times> 's" where
  "run_handlers [] item s = (HandlerOk, s)"
| "run_handlers (h # hs) item s = (case h item s of (HandlerOk, s') \<Rightarrow> run_handlers hs item s' | r \<Rightarrow> r)"

fun handle_item :: "'s Handlers \<Rightarrow> OutboxItem \<Rightarrow> HandlerResult \<Rightarrow> 's \<Rightarrow> HandlerResult \<times> 's" where
  "handle_item [] item failure s = (failure, s)"
| "handle_item ((eventType, hs) # rest) item failure s =
    (if eventType \<noteq> [] \<and> eventType \<noteq> oiType item then handle_item rest item failure s
     else case run_handlers hs item s of
       (HandlerOk, s') \<Rightarrow> handle_item rest item failure s'
     | (HandlerErr, s') \<Rightarrow> handle_item rest item HandlerErr s'
     | (HandlerPanic, s') \<Rightarrow> (HandlerPanic, s'))"

text \<open>\<open>rvHandlers\<close> lists the map of handlers in the order in which Go happens to iterate over it for an item; \<open>rvMarkAt\<close> is the
  time when the item is marked and \<open>rvMarkUp\<close> whether the database answers then.\<close>

record 's RelayEnv =
  rvNow :: gotime
  rvBatch :: int
  rvClaimUp :: bool
  rvHandlers :: "OutboxItem \<Rightarrow> 's Handlers"
  rvMarkAt :: "OutboxItem \<Rightarrow> gotime"
  rvMarkUp :: "OutboxItem \<Rightarrow> bool"

datatype DrainResult = DrainOk | DrainErr | DrainPanic

definition deliver_item :: "'s RelayEnv \<Rightarrow> OutboxItem \<Rightarrow> OutboxEntry list \<Rightarrow> 's \<Rightarrow> DrainResult \<times> OutboxEntry list \<times> 's" where
  "deliver_item rv item q s = (case handle_item (rvHandlers rv item) item HandlerOk s of
      (HandlerPanic, s') \<Rightarrow> (DrainPanic, q, s')
    | (HandlerErr, s') \<Rightarrow> if rvMarkUp rv item then (DrainOk, MarkFailed (rvMarkAt rv item) (oiID item) (oiAttempts item) q, s') else (DrainErr, q, s')
    | (HandlerOk, s') \<Rightarrow> if rvMarkUp rv item then (DrainOk, MarkPublished (oiID item) q, s') else (DrainErr, q, s'))"

fun drain_items :: "'s RelayEnv \<Rightarrow> OutboxItem list \<Rightarrow> OutboxEntry list \<Rightarrow> 's \<Rightarrow> DrainResult \<times> OutboxEntry list \<times> 's" where
  "drain_items rv [] q s = (DrainOk, q, s)"
| "drain_items rv (item # items) q s = (case deliver_item rv item q s of
      (DrainOk, q', s') \<Rightarrow> drain_items rv items q' s' | r \<Rightarrow> r)"

definition drainOnce :: "'s RelayEnv \<Rightarrow> OutboxEntry list \<Rightarrow> 's \<Rightarrow> DrainResult \<times> OutboxEntry list \<times> 's" where
  "drainOnce rv q s = (if \<not> rvClaimUp rv then (DrainErr, q, s)
     else case ClaimOutboxBatch (rvNow rv) (rvBatch rv) q of (items, q1) \<Rightarrow> drain_items rv items q1 s)"

text \<open>\<^verbatim>\<open>New\<close> replaces a batch size that is not positive.\<close>

definition relay_batch :: "int \<Rightarrow> int" where
  "relay_batch batch = (if batch \<le> 0 then 100 else batch)"

subsection \<open>Two workers\<close>

text \<open>What each worker has claimed and not yet marked; worker 0 is the poll loop, worker 1 the notification loop.\<close>

record 's RelayState =
  rsQueue :: "OutboxEntry list"
  rsHeld :: "nat \<Rightarrow> OutboxItem list"
  rsWorld :: 's

inductive relay_step :: "'s RelayState \<Rightarrow> 's RelayState \<Rightarrow> bool" for st where
  rs_append: "distinct (map oeID (rsQueue st @ new)) \<Longrightarrow> list_all fresh_entry new \<Longrightarrow>
    relay_step st (st\<lparr>rsQueue := rsQueue st @ new, rsWorld := s'\<rparr>)"
| rs_claim: "rsHeld st k = [] \<Longrightarrow> ClaimOutboxBatch now batch (rsQueue st) = (items, q) \<Longrightarrow>
    relay_step st (st\<lparr>rsQueue := q, rsHeld := (rsHeld st)(k := items)\<rparr>)"
| rs_deliver: "rsHeld st k = item # items \<Longrightarrow> deliver_item rv item (rsQueue st) (rsWorld st) = (DrainOk, q, s') \<Longrightarrow>
    relay_step st (st\<lparr>rsQueue := q, rsHeld := (rsHeld st)(k := items), rsWorld := s'\<rparr>)"
| rs_error: "rsHeld st k = item # items \<Longrightarrow> deliver_item rv item (rsQueue st) (rsWorld st) = (DrainErr, q, s') \<Longrightarrow>
    relay_step st (st\<lparr>rsQueue := q, rsHeld := (rsHeld st)(k := []), rsWorld := s'\<rparr>)"
| rs_crash: "relay_step st (st\<lparr>rsHeld := (\<lambda>_. [])\<rparr>)"

abbreviation relay_reach :: "'s RelayState \<Rightarrow> 's RelayState \<Rightarrow> bool" where
  "relay_reach \<equiv> relay_step\<^sup>*\<^sup>*"

inductive_cases relay_stepE: "relay_step st st'"

definition attempts_ok :: "OutboxEntry \<Rightarrow> bool" where
  "attempts_ok e \<longleftrightarrow> 0 \<le> oeAttempts e \<and> oeAttempts e \<le> 10 \<and> (oeStatus e = OutboxPending \<longrightarrow> oeAttempts e < 10)"

definition relay_inv :: "'s RelayState \<Rightarrow> bool" where
  "relay_inv st \<longleftrightarrow> distinct (map oeID (rsQueue st)) \<and> (\<forall>e \<in> set (rsQueue st). attempts_ok e) \<and>
     (\<forall>k. distinct (map oiID (rsHeld st k))) \<and>
     (\<forall>j k. j \<noteq> k \<longrightarrow> oiID ` set (rsHeld st j) \<inter> oiID ` set (rsHeld st k) = {}) \<and>
     (\<forall>k. \<forall>item \<in> set (rsHeld st k). \<exists>e \<in> set (rsQueue st). oeID e = oiID item \<and> oeStatus e = OutboxDelivering \<and> oeAttempts e = oiAttempts item)"

lemma relay_dist: "relay_inv st \<Longrightarrow> distinct (map oeID (rsQueue st))"
  by (simp add: relay_inv_def)

lemma relay_attempts: "relay_inv st \<Longrightarrow> e \<in> set (rsQueue st) \<Longrightarrow> attempts_ok e"
  by (simp add: relay_inv_def)

text \<open>The ids in the hands of the workers.\<close>

definition held_ids :: "'s RelayState \<Rightarrow> int set" where
  "held_ids st = (\<Union>k. oiID ` set (rsHeld st k))"

lemma entry_unique: "distinct (map oeID q) \<Longrightarrow> e \<in> set q \<Longrightarrow> e' \<in> set q \<Longrightarrow> oeID e = oeID e' \<Longrightarrow> e = e'"
  by (auto simp: distinct_map dest: inj_onD)

lemma claim_rows_due: "e \<in> set (claim_rows now batch q) \<Longrightarrow> e \<in> set q \<and> due_entry now e"
  unfolding claim_rows_def by (drule in_set_takeD) simp

lemma claim_rows_distinct: "distinct (map oeID q) \<Longrightarrow> distinct (map oeID (claim_rows now batch q))"
  unfolding claim_rows_def take_map [symmetric] by (intro distinct_take) (simp add: distinct_map_sort_by distinct_map_filter)

lemma claim_rows_pending:
  assumes "distinct (map oeID q)" and "e \<in> set q" and "oeID e \<in> oeID ` set (claim_rows now batch q)"
  shows "oeStatus e = OutboxPending"
proof -
  from assms(3) obtain e' where e': "e' \<in> set (claim_rows now batch q)" "oeID e = oeID e'" by auto
  from claim_rows_due [OF e'(1)] entry_unique [OF assms(1,2) _ e'(2)] show ?thesis by (simp add: due_entry_def)
qed

lemma claimed_simps [simp]:
  "oeID (claimed_entry e) = oeID e" "oeStatus (claimed_entry e) = OutboxDelivering" "oeAttempts (claimed_entry e) = oeAttempts e + 1"
  "oiID (claimed_item e) = oeID e" "oiAttempts (claimed_item e) = oeAttempts e + 1"
  by (simp_all add: claimed_entry_def claimed_item_def)

lemma failed_simps [simp]:
  "oeID (failed_entry now n e) = oeID e" "oeAttempts (failed_entry now n e) = oeAttempts e"
  "oeStatus (failed_entry now n e) = (if n \<ge> 10 then OutboxFailed else OutboxPending)" "oeNextAt (failed_entry now n e) = now + n * 1000000000"
  by (simp_all add: failed_entry_def)

lemma deliver_item_cases:
  assumes "deliver_item rv item q s = (r, q', s')"
  shows "(r = DrainOk \<and> q' = MarkPublished (oiID item) q \<and> handle_item (rvHandlers rv item) item HandlerOk s = (HandlerOk, s')) \<or>
    (r = DrainOk \<and> q' = MarkFailed (rvMarkAt rv item) (oiID item) (oiAttempts item) q) \<or> (r \<noteq> DrainOk \<and> q' = q)"
  using assms by (auto simp: deliver_item_def split: prod.splits HandlerResult.splits if_splits)

text \<open>Every step rewrites rows in place, keeps their ids and leaves alone each row that is neither held nor due; new rows come
  behind.\<close>

lemma step_rows:
  assumes "relay_step st st'" and "relay_inv st"
  shows "\<exists>f new. rsQueue st' = map f (rsQueue st) @ new \<and> (\<forall>e. oeID (f e) = oeID e) \<and>
    (\<forall>e \<in> set (rsQueue st). oeStatus e \<noteq> OutboxPending \<longrightarrow> oeID e \<notin> held_ids st \<longrightarrow> f e = e)"
  using assms(1)
proof cases
  case (rs_append new s')
  then show ?thesis by (intro exI [of _ "\<lambda>e. e"] exI [of _ new]) simp
next
  case (rs_claim k now batch items q)
  let ?f = "\<lambda>e. if oeID e \<in> oeID ` set (claim_rows now batch (rsQueue st)) then claimed_entry e else e"
  have "?f e = e" if "e \<in> set (rsQueue st)" "oeStatus e \<noteq> OutboxPending" for e
  proof -
    have "oeID e \<notin> oeID ` set (claim_rows now batch (rsQueue st))"
      using claim_rows_pending [OF relay_dist [OF assms(2)] that(1)] that(2) by blast
    then show ?thesis by simp
  qed
  with rs_claim show ?thesis
    by (intro exI [of _ ?f] exI [of _ "[]"]) (auto simp: ClaimOutboxBatch_def Let_def)
next
  case (rs_deliver k item items rv q s')
  have held: "oiID item \<in> held_ids st" using rs_deliver(2) by (auto simp: held_ids_def intro!: exI [of _ k])
  from deliver_item_cases [OF rs_deliver(3)] obtain g where g: "q = map (\<lambda>e. if oeID e = oiID item then g e else e) (rsQueue st)" "\<And>e. oeID (g e) = oeID e"
  proof (elim disjE conjE)
    assume "q = MarkPublished (oiID item) (rsQueue st)"
    then show ?thesis by (intro that [of "\<lambda>e. e\<lparr>oeStatus := OutboxPublished\<rparr>"]) (simp_all add: MarkPublished_def)
  next
    assume "q = MarkFailed (rvMarkAt rv item) (oiID item) (oiAttempts item) (rsQueue st)"
    then show ?thesis by (intro that [of "failed_entry (rvMarkAt rv item) (oiAttempts item)"]) (simp_all add: MarkFailed_def)
  qed simp
  with held rs_deliver(1) show ?thesis
    by (intro exI [of _ "\<lambda>e. if oeID e = oiID item then g e else e"] exI [of _ "[]"]) auto
next
  case (rs_error k item items rv q s')
  with deliver_item_cases [OF rs_error(3)] show ?thesis by (intro exI [of _ "\<lambda>e. e"] exI [of _ "[]"]) simp
next
  case rs_crash
  then show ?thesis by (intro exI [of _ "\<lambda>e. e"] exI [of _ "[]"]) simp
qed

lemma inv_append:
  assumes "relay_inv st" and "distinct (map oeID (rsQueue st @ new))" and "list_all fresh_entry new"
  shows "relay_inv (st\<lparr>rsQueue := rsQueue st @ new, rsWorld := s'\<rparr>)"
proof -
  have "attempts_ok e" if "e \<in> set new" for e
    using assms(3) that by (simp add: list_all_iff fresh_entry_def attempts_ok_def)
  then have "\<forall>e \<in> set (rsQueue st @ new). attempts_ok e"
    using assms(1) by (simp add: relay_inv_def ball_Un)
  moreover have "\<forall>k. \<forall>item \<in> set (rsHeld st k). \<exists>e \<in> set (rsQueue st @ new). oeID e = oiID item \<and> oeStatus e = OutboxDelivering \<and> oeAttempts e = oiAttempts item"
    using assms(1) by (simp add: relay_inv_def bex_Un)
  ultimately show ?thesis using assms(1,2) by (simp add: relay_inv_def)
qed

lemma inv_claim:
  assumes inv: "relay_inv st" and idle: "rsHeld st k = []" and claim: "ClaimOutboxBatch now batch (rsQueue st) = (items, q)"
  shows "relay_inv (st\<lparr>rsQueue := q, rsHeld := (rsHeld st)(k := items)\<rparr>)"
proof -
  let ?c = "claim_rows now batch (rsQueue st)"
  let ?f = "\<lambda>e. if oeID e \<in> oeID ` set ?c then claimed_entry e else e"
  have q: "q = map ?f (rsQueue st)" and items: "items = map claimed_item ?c" using claim by (auto simp: ClaimOutboxBatch_def Let_def)
  have dist: "distinct (map oeID (rsQueue st))" using inv by (simp add: relay_inv_def)
  have pend: "oeStatus e = OutboxPending" if "e \<in> set (rsQueue st)" "oeID e \<in> oeID ` set ?c" for e
    using claim_rows_pending [OF dist] that by blast
  have ids: "map oeID q = map oeID (rsQueue st)" by (simp add: q)
  have kept: "\<exists>e \<in> set q. oeID e = oiID item \<and> oeStatus e = OutboxDelivering \<and> oeAttempts e = oiAttempts item"
    if "item \<in> set (rsHeld st j)" for item j
  proof -
    from that inv obtain e where e: "e \<in> set (rsQueue st)" "oeID e = oiID item" "oeStatus e = OutboxDelivering" "oeAttempts e = oiAttempts item"
      unfolding relay_inv_def by blast
    from pend [OF e(1)] e(3) have "?f e = e" by auto
    then show ?thesis using e unfolding q by (intro bexI [of _ e]) (auto intro: rev_image_eqI)
  qed
  have fresh: "oeID e \<noteq> oiID item" if "item \<in> set (rsHeld st j)" "e \<in> set ?c" for item j e
  proof
    assume eq: "oeID e = oiID item"
    from that(1) inv obtain e' where e': "e' \<in> set (rsQueue st)" "oeID e' = oiID item" "oeStatus e' = OutboxDelivering"
      unfolding relay_inv_def by blast
    have "oeID e' \<in> oeID ` set ?c" using that(2) eq e'(2) by (intro rev_image_eqI [of e]) auto
    with pend [OF e'(1)] e'(3) show False by simp
  qed
  have "attempts_ok (?f e)" if "e \<in> set (rsQueue st)" for e
    using relay_attempts [OF inv that] pend [OF that] by (auto simp: attempts_ok_def)
  then have "\<forall>e \<in> set q. attempts_ok e" unfolding q list.set_map by blast
  moreover have "\<forall>j. distinct (map oiID (((rsHeld st)(k := items)) j))"
    using inv claim_rows_distinct [OF dist] by (simp add: relay_inv_def items comp_def)
  moreover have "\<forall>i j. i \<noteq> j \<longrightarrow> oiID ` set (((rsHeld st)(k := items)) i) \<inter> oiID ` set (((rsHeld st)(k := items)) j) = {}"
  proof (intro allI impI)
    fix i j :: nat
    assume ne: "i \<noteq> j"
    have old: "oiID ` set (rsHeld st i) \<inter> oiID ` set (rsHeld st j) = {}" using inv ne by (simp add: relay_inv_def)
    have "oiID ` set items \<inter> oiID ` set (rsHeld st l) = {}" for l using fresh by (fastforce simp: items)
    then show "oiID ` set (((rsHeld st)(k := items)) i) \<inter> oiID ` set (((rsHeld st)(k := items)) j) = {}"
      using old ne by (simp add: Int_commute)
  qed
  moreover have "\<exists>e \<in> set q. oeID e = oiID item \<and> oeStatus e = OutboxDelivering \<and> oeAttempts e = oiAttempts item" if "item \<in> set items" for item
  proof -
    from that obtain e where e: "e \<in> set ?c" "item = claimed_item e" by (auto simp: items)
    then have "?f e \<in> set q" using claim_rows_due [OF e(1)] by (simp add: q)
    with e show ?thesis by (intro bexI [of _ "claimed_entry e"]) auto
  qed
  ultimately show ?thesis using dist kept by (simp add: relay_inv_def ids)
qed

lemma inv_drop:
  assumes "relay_inv st" and "rsHeld st k = item # items"
  shows "relay_inv (st\<lparr>rsHeld := (rsHeld st)(k := []), rsWorld := s'\<rparr>)" "oiID item \<notin> oiID ` set items"
    "j \<noteq> k \<Longrightarrow> oiID item \<notin> oiID ` set (rsHeld st j)"
proof -
  have "distinct (map oiID (item # items))" using assms by (metis relay_inv_def)
  then show "oiID item \<notin> oiID ` set items" by simp
  show "j \<noteq> k \<Longrightarrow> oiID item \<notin> oiID ` set (rsHeld st j)"
    using assms unfolding relay_inv_def by (metis IntI empty_iff image_eqI list.set_intros(1))
  show "relay_inv (st\<lparr>rsHeld := (rsHeld st)(k := []), rsWorld := s'\<rparr>)"
    using assms(1) unfolding relay_inv_def by (simp add: disjoint_iff)
qed

lemma inv_mark:
  assumes inv: "relay_inv st" and held: "rsHeld st k = item # items"
    and g: "\<And>e. oeID (g e) = oeID e \<and> oeAttempts (g e) = oeAttempts e"
    and ok: "\<And>e. oeAttempts e = oiAttempts item \<Longrightarrow> oeStatus (g e) = OutboxPending \<Longrightarrow> oeAttempts e < 10"
  shows "relay_inv (st\<lparr>rsQueue := map (\<lambda>e. if oeID e = oiID item then g e else e) (rsQueue st), rsHeld := (rsHeld st)(k := items), rsWorld := s'\<rparr>)"
proof -
  let ?f = "\<lambda>e. if oeID e = oiID item then g e else e"
  have ids: "map (oeID \<circ> ?f) (rsQueue st) = map oeID (rsQueue st)" using g by simp
  have dist: "distinct (map oeID (rsQueue st))" using inv by (simp add: relay_inv_def)
  obtain row where row: "row \<in> set (rsQueue st)" "oeID row = oiID item" "oeAttempts row = oiAttempts item"
    using inv held unfolding relay_inv_def by (metis list.set_intros(1))
  have att: "oeAttempts e = oiAttempts item" if "e \<in> set (rsQueue st)" "oeID e = oiID item" for e
    using entry_unique [OF dist that(1) row(1)] that row by simp
  have "attempts_ok (?f e)" if "e \<in> set (rsQueue st)" for e
    using relay_attempts [OF inv that] g [of e] ok [of e] att [OF that] by (auto simp: attempts_ok_def)
  then have "\<forall>e \<in> set (map ?f (rsQueue st)). attempts_ok e"
    unfolding list.set_map by blast
  moreover have "\<exists>e \<in> set (map ?f (rsQueue st)). oeID e = oiID i \<and> oeStatus e = OutboxDelivering \<and> oeAttempts e = oiAttempts i"
    if "i \<in> set (((rsHeld st)(k := items)) j)" for i j
  proof -
    from that inv_drop(2,3) [OF inv held] have ne: "oiID i \<noteq> oiID item" by (metis fun_upd_apply image_eqI)
    from that held have "i \<in> set (rsHeld st j)" by (auto split: if_splits)
    with inv obtain e where e: "e \<in> set (rsQueue st)" "oeID e = oiID i" "oeStatus e = OutboxDelivering" "oeAttempts e = oiAttempts i"
      unfolding relay_inv_def by blast
    with ne show ?thesis by (intro bexI [of _ e]) (auto intro: rev_image_eqI)
  qed
  moreover have "\<forall>j. distinct (map oiID (((rsHeld st)(k := items)) j))"
    using inv held unfolding relay_inv_def by (metis distinct.simps(2) fun_upd_apply list.simps(9))
  moreover have "\<forall>i j. i \<noteq> j \<longrightarrow> oiID ` set (((rsHeld st)(k := items)) i) \<inter> oiID ` set (((rsHeld st)(k := items)) j) = {}"
  proof (intro allI impI)
    fix i j :: nat
    assume "i \<noteq> j"
    have "set (((rsHeld st)(k := items)) n) \<subseteq> set (rsHeld st n)" for n using held by auto
    moreover have "oiID ` set (rsHeld st i) \<inter> oiID ` set (rsHeld st j) = {}" using inv \<open>i \<noteq> j\<close> by (simp add: relay_inv_def)
    ultimately show "oiID ` set (((rsHeld st)(k := items)) i) \<inter> oiID ` set (((rsHeld st)(k := items)) j) = {}" by blast
  qed
  ultimately show ?thesis using dist unfolding relay_inv_def by (simp del: list.set_map map_eq_conv add: ids)
qed

lemma step_inv:
  assumes "relay_step st st'" and "relay_inv st"
  shows "relay_inv st'"
  using assms(1)
proof cases
  case (rs_append new s')
  then show ?thesis using inv_append [OF assms(2)] by simp
next
  case (rs_claim k now batch items q)
  then show ?thesis using inv_claim [OF assms(2)] by simp
next
  case (rs_deliver k item items rv q s')
  from deliver_item_cases [OF rs_deliver(3)] show ?thesis
  proof (elim disjE conjE)
    assume "q = MarkPublished (oiID item) (rsQueue st)"
    then show ?thesis using inv_mark [OF assms(2) rs_deliver(2), of "\<lambda>e. e\<lparr>oeStatus := OutboxPublished\<rparr>" s']
      by (simp add: rs_deliver(1) MarkPublished_def)
  next
    assume q: "q = MarkFailed (rvMarkAt rv item) (oiID item) (oiAttempts item) (rsQueue st)"
    have "oeStatus (failed_entry (rvMarkAt rv item) (oiAttempts item) e) = OutboxPending \<Longrightarrow> oiAttempts item < 10" for e
      by (auto split: if_splits)
    then show ?thesis using q inv_mark [OF assms(2) rs_deliver(2), of "failed_entry (rvMarkAt rv item) (oiAttempts item)" s']
      by (simp add: rs_deliver(1) MarkFailed_def)
  qed simp
next
  case (rs_error k item items rv q s')
  then show ?thesis using inv_drop(1) [OF assms(2) rs_error(2), of s'] deliver_item_cases [OF rs_error(3)] by simp
next
  case rs_crash
  then show ?thesis using assms(2) by (simp add: relay_inv_def)
qed

lemma step_held:
  assumes "relay_step st st'" and "relay_inv st" and "e \<in> set (rsQueue st)" and "oeStatus e \<noteq> OutboxPending" and "oeID e \<notin> held_ids st"
  shows "oeID e \<notin> held_ids st'"
  using assms(1)
proof cases
  case (rs_claim k now batch items q)
  have "oeID e \<notin> oeID ` set (claim_rows now batch (rsQueue st))"
    using claim_rows_pending [OF relay_dist [OF assms(2)] assms(3)] assms(4) by blast
  with rs_claim assms(5) show ?thesis by (auto simp: held_ids_def ClaimOutboxBatch_def Let_def split: if_splits)
next
  case (rs_deliver k item items rv q s')
  then have "set (rsHeld st' j) \<subseteq> set (rsHeld st j)" for j by auto
  with assms(5) show ?thesis by (auto simp: held_ids_def)
qed (use assms(5) in \<open>auto simp: held_ids_def split: if_splits\<close>)

text \<open>A row that is not pending and not in the hands of a worker is left alone for ever.\<close>

lemma idle_row_kept:
  assumes "relay_reach st st'" and "relay_inv st" and "e \<in> set (rsQueue st)" and "oeStatus e \<noteq> OutboxPending" and "oeID e \<notin> held_ids st"
  shows "relay_inv st' \<and> e \<in> set (rsQueue st') \<and> oeID e \<notin> held_ids st'"
  using assms(1)
proof (induction rule: rtranclp_induct)
  case (step y z)
  then have y: "relay_inv y" "e \<in> set (rsQueue y)" "oeID e \<notin> held_ids y" by simp_all
  from step_rows [OF step.hyps(2) y(1)] y(2,3) assms(4) have "e \<in> set (rsQueue z)"
    by (metis in_set_conv_decomp_first list.set_map rev_image_eqI set_append Un_iff)
  then show ?case using step_inv [OF step.hyps(2) y(1)] step_held [OF step.hyps(2) y(1,2) assms(4) y(3)] by simp
qed (use assms in simp)

lemma settled_not_held:
  assumes "relay_inv st" and "e \<in> set (rsQueue st)" and "oeStatus e \<noteq> OutboxDelivering"
  shows "oeID e \<notin> held_ids st"
proof
  assume "oeID e \<in> held_ids st"
  then obtain k item where "item \<in> set (rsHeld st k)" "oeID e = oiID item" by (auto simp: held_ids_def)
  with assms(1) obtain e' where "e' \<in> set (rsQueue st)" "oeID e' = oeID e" "oeStatus e' = OutboxDelivering"
    unfolding relay_inv_def by metis
  with assms entry_unique [of "rsQueue st" e' e] show False by (auto simp: relay_inv_def)
qed

text \<open>C11: The relay sends no event twice after it was accepted. However the workers claim, deliver, fail and crash, an item is
  in the hands of at most one of them, no row is attempted more than ten times, and a row that was published or parked
  keeps that state and is never handed out again.\<close>

theorem relay_claims_are_exclusive:
  assumes "relay_inv st" and "relay_reach st st'"
  shows "relay_inv st' \<and> (\<forall>j k item item'. item \<in> set (rsHeld st' j) \<and> item' \<in> set (rsHeld st' k) \<and> oiID item = oiID item' \<longrightarrow> j = k \<and> item = item') \<and>
    (\<forall>e \<in> set (rsQueue st). oeStatus e \<in> {OutboxPublished, OutboxFailed} \<longrightarrow> e \<in> set (rsQueue st') \<and> oeID e \<notin> held_ids st')"
proof -
  have inv: "relay_inv st'" using assms(2,1) by (induction rule: rtranclp_induct) (auto dest: step_inv)
  moreover have "j = k \<and> item = item'" if "item \<in> set (rsHeld st' j)" "item' \<in> set (rsHeld st' k)" "oiID item = oiID item'" for j k item item'
  proof
    show jk: "j = k" using inv that unfolding relay_inv_def by (metis disjoint_iff image_eqI)
    have "distinct (map oiID (rsHeld st' j))" using inv by (simp add: relay_inv_def)
    then show "item = item'" using that unfolding jk by (auto simp: distinct_map dest: inj_onD)
  qed
  moreover have "e \<in> set (rsQueue st') \<and> oeID e \<notin> held_ids st'"
    if "e \<in> set (rsQueue st)" "oeStatus e \<in> {OutboxPublished, OutboxFailed}" for e
  proof -
    from that(2) have "oeStatus e \<noteq> OutboxPending" "oeStatus e \<noteq> OutboxDelivering" by auto
    then show ?thesis using idle_row_kept [OF assms(2,1) that(1)] settled_not_held [OF assms(1) that(1)] by blast
  qed
  ultimately show ?thesis by blast
qed

text \<open>C39: A row whose worker went away is lost: claimed rows that no worker holds any more, after a crash or after the database
  did not answer the mark of an earlier item, stay in the state \<^verbatim>\<open>delivering\<close> and are never handed to a handler. The
  operation that would re-arm them, \<open>ReclaimStuckDelivering\<close>, is called nowhere in the program.\<close>

theorem abandoned_row_never_delivered:
  assumes "relay_inv st" and "e \<in> set (rsQueue st)" and "oeStatus e = OutboxDelivering" and "oeID e \<notin> held_ids st" and "relay_reach st st'"
  shows "e \<in> set (rsQueue st') \<and> oeID e \<notin> held_ids st'"
  using idle_row_kept [OF assms(5,1,2) _ assms(4)] assms(3) by simp

text \<open>A row becomes published only in a step in which every handler registered for its type accepted it.\<close>

lemma published_only_when_accepted:
  fixes st :: "'s RelayState"
  assumes "relay_step st st'" and "relay_inv st" and "e \<in> set (rsQueue st')" and "oeStatus e = OutboxPublished"
    and "\<And>e0. e0 \<in> set (rsQueue st) \<Longrightarrow> oeID e0 = oeID e \<Longrightarrow> oeStatus e0 \<noteq> OutboxPublished"
  shows "\<exists>(rv :: 's RelayEnv) k item. item \<in> set (rsHeld st k) \<and> oiID item = oeID e \<and> handle_item (rvHandlers rv item) item HandlerOk (rsWorld st) = (HandlerOk, rsWorld st')"
  using assms(1)
proof cases
  case (rs_append new s')
  with assms(3-5) have "e \<in> set new" by auto
  with rs_append(3) assms(4) show ?thesis by (auto simp: list_all_iff fresh_entry_def)
next
  case (rs_claim k now batch items q)
  with assms(3-5) show ?thesis by (auto simp: ClaimOutboxBatch_def Let_def split: if_splits)
next
  case (rs_deliver k item items rv q s')
  from deliver_item_cases [OF rs_deliver(3)] show ?thesis
  proof (elim disjE conjE)
    assume q: "q = MarkPublished (oiID item) (rsQueue st)" and ok: "handle_item (rvHandlers rv item) item HandlerOk (rsWorld st) = (HandlerOk, s')"
    with assms(3-5) rs_deliver(1) have "oiID item = oeID e" by (auto simp: MarkPublished_def split: if_splits)
    with ok rs_deliver(1,2) show ?thesis by (intro exI [of _ rv] exI [of _ k] exI [of _ item]) simp
  next
    assume "q = MarkFailed (rvMarkAt rv item) (oiID item) (oiAttempts item) (rsQueue st)"
    with assms(3-5) rs_deliver(1) show ?thesis by (auto simp: MarkFailed_def split: if_splits)
  qed simp
next
  case (rs_error k item items rv q s')
  with assms(3-5) deliver_item_cases [OF rs_error(3)] show ?thesis by auto
next
  case rs_crash
  with assms(3-5) show ?thesis by auto
qed

subsection \<open>Every row is settled\<close>

text \<open>A pass in which the database answers and no handler panics.\<close>

definition calm :: "'s RelayEnv \<Rightarrow> bool" where
  "calm rv \<longleftrightarrow> rvClaimUp rv \<and> 1 \<le> rvBatch rv \<and> (\<forall>item. rvMarkUp rv item) \<and>
     (\<forall>item s. fst (handle_item (rvHandlers rv item) item HandlerOk s) \<noteq> HandlerPanic)"

fun drains :: "'s RelayEnv list \<Rightarrow> OutboxEntry list \<Rightarrow> 's \<Rightarrow> OutboxEntry list \<times> 's" where
  "drains [] q s = (q, s)"
| "drains (rv # rvs) q s = (case drainOnce rv q s of (_, q', s') \<Rightarrow> drains rvs q' s')"

definition marked_as :: "'s RelayEnv \<Rightarrow> OutboxItem \<Rightarrow> OutboxEntry \<Rightarrow> OutboxEntry \<Rightarrow> bool" where
  "marked_as rv item e e' \<longleftrightarrow> e' = e\<lparr>oeStatus := OutboxPublished\<rparr> \<or> e' = failed_entry (rvMarkAt rv item) (oiAttempts item) e"

lemma deliver_calm:
  assumes "calm rv"
  shows "\<exists>g s'. deliver_item rv item q s = (DrainOk, map (\<lambda>e. if oeID e = oiID item then g e else e) q, s') \<and>
    (\<forall>e. oeID (g e) = oeID e \<and> marked_as rv item e (g e))"
proof -
  obtain r s' where r: "handle_item (rvHandlers rv item) item HandlerOk s = (r, s')" by (cases "handle_item (rvHandlers rv item) item HandlerOk s")
  moreover from assms r have "r \<noteq> HandlerPanic" and up: "rvMarkUp rv item" unfolding calm_def by (metis fst_conv)+
  ultimately consider "r = HandlerOk" | "r = HandlerErr" by (cases r) auto
  then show ?thesis
  proof cases
    case 1
    then show ?thesis using r up
      by (intro exI [of _ "\<lambda>e. e\<lparr>oeStatus := OutboxPublished\<rparr>"] exI [of _ s']) (simp add: deliver_item_def MarkPublished_def marked_as_def)
  next
    case 2
    then show ?thesis using r up
      by (intro exI [of _ "failed_entry (rvMarkAt rv item) (oiAttempts item)"] exI [of _ s']) (simp add: deliver_item_def MarkFailed_def marked_as_def)
  qed
qed

definition pass_row :: "'s RelayEnv \<Rightarrow> OutboxItem list \<Rightarrow> OutboxEntry \<Rightarrow> OutboxEntry \<Rightarrow> bool" where
  "pass_row rv items e e' \<longleftrightarrow> (if oeID e \<in> oiID ` set items then \<exists>item \<in> set items. oiID item = oeID e \<and> marked_as rv item e e' else e' = e)"

lemma drain_items_rows:
  assumes "calm rv" and "distinct (map oiID items)"
  shows "\<exists>q' s'. drain_items rv items q s = (DrainOk, q', s') \<and> list_all2 (pass_row rv items) q q'"
  using assms(2)
proof (induction items arbitrary: q s)
  case Nil
  then show ?case by (simp add: pass_row_def list_all2_same)
next
  case (Cons item items)
  from deliver_calm [OF assms(1), of item q s] obtain g s1 where
    d: "deliver_item rv item q s = (DrainOk, map (\<lambda>e. if oeID e = oiID item then g e else e) q, s1)"
    and g: "\<And>e. oeID (g e) = oeID e" "\<And>e. marked_as rv item e (g e)" by blast
  from Cons.prems have "distinct (map oiID items)" and new: "oiID item \<notin> oiID ` set items" by simp_all
  from Cons.IH [OF this(1)] obtain q' s' where
    r: "drain_items rv items (map (\<lambda>e. if oeID e = oiID item then g e else e) q) s1 = (DrainOk, q', s')"
    and rows: "list_all2 (pass_row rv items) (map (\<lambda>e. if oeID e = oiID item then g e else e) q) q'" by blast
  have "pass_row rv (item # items) e e'" if "pass_row rv items (if oeID e = oiID item then g e else e) e'" for e e'
    using that new g by (auto simp: pass_row_def split: if_splits)
  with rows have "list_all2 (pass_row rv (item # items)) q q'" by (simp add: list_all2_map1 list_all2_mono)
  with d r show ?case by simp
qed

definition weight :: "OutboxEntry \<Rightarrow> nat" where
  "weight e = (if oeStatus e = OutboxPending then nat (10 - oeAttempts e) else 0)"

text \<open>One pass rewrites each row on its own; \<open>pass_result\<close> says what becomes of a row that no worker holds.\<close>

definition pass_result :: "'s RelayEnv \<Rightarrow> int set \<Rightarrow> OutboxEntry \<Rightarrow> OutboxEntry \<Rightarrow> bool" where
  "pass_result rv ids e e' \<longleftrightarrow> oeID e' = oeID e \<and> attempts_ok e' \<and> oeStatus e' \<noteq> OutboxDelivering \<and>
     weight e' + (if oeID e \<in> ids then 1 else 0) \<le> weight e \<and>
     (oeStatus e' = OutboxPending \<longrightarrow> e' = e \<or> (\<exists>item. oeNextAt e' \<le> rvMarkAt rv item + 10000000000))"

lemma claimed_row_result:
  assumes "attempts_ok e" and "oeStatus e = OutboxPending" and "oiAttempts item = oeAttempts e + 1" and "marked_as rv item (claimed_entry e) e'"
  shows "oeID e' = oeID e \<and> attempts_ok e' \<and> oeStatus e' \<noteq> OutboxDelivering \<and> weight e' + 1 \<le> weight e \<and>
    (oeStatus e' = OutboxPending \<longrightarrow> oeNextAt e' \<le> rvMarkAt rv item + 10000000000)"
  using assms by (auto simp: marked_as_def attempts_ok_def weight_def split: if_splits)

lemma drainOnce_rows:
  assumes "calm rv" and "distinct (map oeID q)" and "\<forall>e \<in> set q. attempts_ok e \<and> oeStatus e \<noteq> OutboxDelivering"
  shows "\<exists>q' s'. drainOnce rv q s = (DrainOk, q', s') \<and> list_all2 (pass_result rv (oeID ` set (claim_rows (rvNow rv) (rvBatch rv) q))) q q'"
proof -
  let ?c = "claim_rows (rvNow rv) (rvBatch rv) q"
  let ?f = "\<lambda>e. if oeID e \<in> oeID ` set ?c then claimed_entry e else e"
  have "distinct (map oiID (map claimed_item ?c))" using claim_rows_distinct [OF assms(2)] by (simp add: comp_def)
  from drain_items_rows [OF assms(1) this, of "map ?f q" s] obtain q' s' where
    r: "drain_items rv (map claimed_item ?c) (map ?f q) s = (DrainOk, q', s')"
    and rows: "list_all2 (pass_row rv (map claimed_item ?c)) (map ?f q) q'" by blast
  have "pass_result rv (oeID ` set ?c) e e'" if "e \<in> set q" "pass_row rv (map claimed_item ?c) (?f e) e'" for e e'
  proof (cases "oeID e \<in> oeID ` set ?c")
    case False
    then have "e' = e" using that(2) by (auto simp: pass_row_def image_image)
    with False that(1) assms(3) show ?thesis by (simp add: pass_result_def)
  next
    case True
    then have "e' \<noteq> e' \<or> (\<exists>item \<in> set (map claimed_item ?c). oiID item = oeID e \<and> marked_as rv item (claimed_entry e) e')"
      using that(2) by (simp add: pass_row_def image_image)
    then obtain e0 where e0: "e0 \<in> set ?c" "oeID e0 = oeID e" "marked_as rv (claimed_item e0) (claimed_entry e) e'" by auto
    from entry_unique [OF assms(2) _ that(1) e0(2)] claim_rows_due [OF e0(1)] have "e0 = e" by simp
    with e0 have "marked_as rv (claimed_item e) (claimed_entry e) e'" by simp
    from claimed_row_result [OF _ claim_rows_pending [OF assms(2) that(1) True] _ this] assms(3) that(1) True show ?thesis
      by (auto simp: pass_result_def)
  qed
  with rows have "list_all2 (pass_result rv (oeID ` set ?c)) q q'"
    by (auto simp: list_all2_map1 elim!: list.rel_mono_strong)
  with r assms(1) show ?thesis by (auto simp: drainOnce_def ClaimOutboxBatch_def calm_def Let_def)
qed

lemma pass_weight: "list_all2 (pass_result rv ids) q q' \<Longrightarrow> sum_list (map weight q') + length (filter (\<lambda>e. oeID e \<in> ids) q) \<le> sum_list (map weight q)"
  by (induction rule: list_all2_induct) (auto simp: pass_result_def)

lemma claim_one:
  assumes "e \<in> set q" and "oeStatus e = OutboxPending" and "oeNextAt e \<le> now" and "1 \<le> batch"
  shows "1 \<le> length (filter (\<lambda>e. oeID e \<in> oeID ` set (claim_rows now batch q)) q)"
proof -
  have "filter (due_entry now) q \<noteq> []" using assms by (auto simp: due_entry_def filter_empty_conv)
  then have "sort_by (\<lambda>a b. oeID a < oeID b) (filter (due_entry now) q) \<noteq> []" by (metis length_0_conv length_sort_by)
  with assms(4) have "claim_rows now batch q \<noteq> []" by (simp add: claim_rows_def)
  then obtain c where "c \<in> set (claim_rows now batch q)" by (cases "claim_rows now batch q") auto
  with claim_rows_due [OF this] have "c \<in> set (filter (\<lambda>e. oeID e \<in> oeID ` set (claim_rows now batch q)) q)" by simp
  then show ?thesis by (metis One_nat_def Suc_leI length_pos_if_in_set)
qed

definition at_rest :: "gotime \<Rightarrow> OutboxEntry list \<Rightarrow> bool" where
  "at_rest t q \<longleftrightarrow> distinct (map oeID q) \<and> (\<forall>e \<in> set q. attempts_ok e \<and> oeStatus e \<noteq> OutboxDelivering \<and> (oeStatus e = OutboxPending \<longrightarrow> oeNextAt e \<le> t))"

lemma list_all2_ids: "list_all2 (pass_result rv ids) q q' \<Longrightarrow> map oeID q' = map oeID q"
  by (induction rule: list_all2_induct) (auto simp: pass_result_def)

lemma list_all2_in: "list_all2 P xs ys \<Longrightarrow> y \<in> set ys \<Longrightarrow> \<exists>x \<in> set xs. P x y"
  by (induction rule: list_all2_induct) auto

text \<open>Successive passes are far enough apart for the back-off of the rows that failed, ten seconds at most.\<close>

definition spaced :: "'s RelayEnv \<Rightarrow> 's RelayEnv \<Rightarrow> bool" where
  "spaced a b \<longleftrightarrow> rvNow a \<le> rvNow b \<and> (\<forall>item. rvMarkAt a item + 10000000000 \<le> rvNow b)"

lemma pass_rest:
  assumes "calm rv" and "at_rest (rvNow rv) q"
  shows "\<exists>q' s'. drainOnce rv q s = (DrainOk, q', s') \<and> sum_list (map weight q') \<le> sum_list (map weight q) - 1 \<and> length q' = length q \<and>
    (\<forall>e \<in> set q'. attempts_ok e \<and> oeStatus e \<noteq> OutboxDelivering) \<and> (\<forall>b. spaced rv b \<longrightarrow> at_rest (rvNow b) q')"
proof -
  let ?ids = "oeID ` set (claim_rows (rvNow rv) (rvBatch rv) q)"
  from drainOnce_rows [OF assms(1), of q s] assms(2) obtain q' s' where
    r: "drainOnce rv q s = (DrainOk, q', s')" and rows: "list_all2 (pass_result rv ?ids) q q'" by (auto simp: at_rest_def)
  have "sum_list (map weight q') \<le> sum_list (map weight q) - 1"
  proof (cases "\<exists>e \<in> set q. oeStatus e = OutboxPending")
    case True
    then obtain e where "e \<in> set q" "oeStatus e = OutboxPending" "oeNextAt e \<le> rvNow rv" using assms(2) by (auto simp: at_rest_def)
    from claim_one [OF this, of "rvBatch rv"] assms(1) pass_weight [OF rows] show ?thesis by (simp add: calm_def)
  next
    case False
    then have "sum_list (map weight q) = 0" by (auto simp: weight_def)
    with pass_weight [OF rows] show ?thesis by linarith
  qed
  moreover have "length q' = length q" using rows by (simp add: list_all2_lengthD)
  moreover have rest: "\<forall>e \<in> set q'. attempts_ok e \<and> oeStatus e \<noteq> OutboxDelivering" by (auto dest!: list_all2_in [OF rows] simp: pass_result_def)
  moreover have "at_rest (rvNow b) q'" if "spaced rv b" for b
  proof -
    have "oeNextAt e \<le> rvNow b" if e: "e \<in> set q'" "oeStatus e = OutboxPending" for e
    proof -
      from list_all2_in [OF rows e(1)] obtain x where "x \<in> set q" "pass_result rv ?ids x e" by blast
      with e(2) consider "e \<in> set q" | item where "oeNextAt e \<le> rvMarkAt rv item + 10000000000" by (auto simp: pass_result_def)
      then show ?thesis
      proof cases
        case 1
        then have "oeNextAt e \<le> rvNow rv" using assms(2) e(2) by (simp add: at_rest_def)
        with \<open>spaced rv b\<close> show ?thesis by (simp add: spaced_def)
      next
        case 2
        then show ?thesis using \<open>spaced rv b\<close> order_trans by (auto simp: spaced_def)
      qed
    qed
    with rest list_all2_ids [OF rows] assms(2) show ?thesis by (simp add: at_rest_def)
  qed
  ultimately show ?thesis using r by blast
qed

lemma drains_rest:
  assumes "list_all calm rvs" and "successively spaced rvs" and "rvs \<noteq> [] \<longrightarrow> at_rest (rvNow (hd rvs)) q"
    and "\<forall>e \<in> set q. attempts_ok e \<and> oeStatus e \<noteq> OutboxDelivering" and "sum_list (map weight q) \<le> length rvs"
  shows "\<forall>e \<in> set (fst (drains rvs q s)). oeStatus e \<in> {OutboxPublished, OutboxFailed}"
  using assms
proof (induction rvs arbitrary: q s)
  case Nil
  show ?case
  proof
    fix e assume e: "e \<in> set (fst (drains [] q s))"
    with Nil.prems(4,5) have "attempts_ok e" "oeStatus e \<noteq> OutboxDelivering" "weight e = 0" by auto
    then show "oeStatus e \<in> {OutboxPublished, OutboxFailed}" by (cases "oeStatus e") (auto simp: weight_def attempts_ok_def)
  qed
next
  case (Cons rv rvs)
  from pass_rest [of rv q s] Cons.prems obtain q' s' where r: "drainOnce rv q s = (DrainOk, q', s')"
    and w: "sum_list (map weight q') \<le> sum_list (map weight q) - 1"
    and ok: "\<forall>e \<in> set q'. attempts_ok e \<and> oeStatus e \<noteq> OutboxDelivering" and nxt: "\<And>b. spaced rv b \<Longrightarrow> at_rest (rvNow b) q'" by auto
  have "rvs \<noteq> [] \<longrightarrow> at_rest (rvNow (hd rvs)) q'" using Cons.prems(2) nxt by (auto simp: successively_Cons)
  moreover have "sum_list (map weight q') \<le> length rvs" using w Cons.prems(5) by simp
  ultimately have "\<forall>e \<in> set (fst (drains rvs q' s')). oeStatus e \<in> {OutboxPublished, OutboxFailed}"
    using Cons.prems(1,2) ok by (intro Cons.IH) (auto simp: successively_Cons)
  with r show ?case by simp
qed


subsection \<open>The consumers (cmd/control-plane/main.go, relay/connector\_publisher.go)\<close>

text \<open>\<^verbatim>\<open>strings.SplitN(aggregate, ":", 2)\<close>; the filter applies when both parts are there.\<close>

definition split_aggregate :: "string \<Rightarrow> (string \<times> string) option" where
  "split_aggregate agg = (let t = takeWhile (\<lambda>c. c \<noteq> CHR '':'') agg; ident = drop (length t + 1) agg in
     if t \<noteq> [] \<and> ident \<noteq> [] then Some (t, ident) else None)"

definition TailEvents :: "Event list \<Rightarrow> string \<Rightarrow> int \<Rightarrow> string list \<Rightarrow> string \<Rightarrow> int \<Rightarrow> Event list \<times> int" where
  "TailEvents rows tenantID afterSeq types agg limit =
    (let matches = (\<lambda>e. eTenantID e = tenantID \<and> eSeq e > afterSeq \<and> (types = [] \<or> eType e \<in> set types) \<and>
           (case split_aggregate agg of None \<Rightarrow> True | Some (t, ident) \<Rightarrow> eAggregate e = \<lparr>agType = t, agID = ident\<rparr>));
         events = take (nat limit) (sort_by (\<lambda>a b. eSeq a < eSeq b) (filter matches rows));
         top = foldl (\<lambda>m e. if eSeq e > m then eSeq e else m) 0 events in
     (events, if top = 0 then foldl (\<lambda>m e. max m (eSeq e)) 0 rows else top))"

text \<open>Reading a payload: a missing key or another type is the zero value.\<close>

fun json_field :: "json \<Rightarrow> string \<Rightarrow> json option" where
  "json_field (JObj kvs) k = map_of kvs k"
| "json_field _ k = None"

fun as_string :: "json option \<Rightarrow> string" where
  "as_string (Some (JStr s)) = s"
| "as_string _ = []"

fun as_number :: "json option \<Rightarrow> float64" where
  "as_number (Some (JNum x)) = x"
| "as_number (Some (JInt i)) = of_int i"
| "as_number _ = 0"

definition mapPolicyRef :: "json option \<Rightarrow> json" where
  "mapPolicyRef raw = (case raw of Some (JObj kvs) \<Rightarrow> JObj kvs | _ \<Rightarrow> JObj [])"

definition summaryOf :: "json \<Rightarrow> string" where
  "summaryOf payload = (case json_field payload ''explanation'' of Some ex \<Rightarrow> as_string (json_field ex ''summary'') | None \<Rightarrow> [])"

text \<open>JSON, HMAC and the HTTP call are parameters; \<open>pbPost\<close> gets URL, idempotency key, signature and body, and answers the
  status, or nothing when the call fails.\<close>

record 'c Publisher =
  pbURL :: string
  pbSecret :: string
  pbHMAC :: "string \<Rightarrow> string \<Rightarrow> string"
  pbHex :: "string \<Rightarrow> string"
  pbMarshal :: "json \<Rightarrow> string"
  pbPost :: "string \<Rightarrow> string \<Rightarrow> string \<Rightarrow> string \<Rightarrow> 'c \<Rightarrow> int option \<times> 'c"

definition signBody :: "'c Publisher \<Rightarrow> string \<Rightarrow> string" where
  "signBody pb body = ''sha256='' @ pbHex pb (pbHMAC pb (pbSecret pb) body)"

definition decision_envelope :: "OutboxItem \<Rightarrow> Event \<Rightarrow> string \<Rightarrow> Candidate \<Rightarrow> Intent \<Rightarrow> json" where
  "decision_envelope item ev candidateID cand intent = JObj
     [(''decision_id'', JStr (oiAggID item)), (''candidate_id'', JStr candidateID), (''repo'', JStr (dRepo (Declared intent))),
      (''head_sha'', JStr (cHeadSHA cand)), (''verb'', JStr (as_string (json_field (ePayload ev) ''verb''))),
      (''confidence'', JNum (as_number (json_field (ePayload ev) ''confidence''))), (''policy'', mapPolicyRef (json_field (ePayload ev) ''policy'')),
      (''summary'', JStr (summaryOf (ePayload ev))), (''rendered_at'', JStr (rfc3339 (eOccurredAt ev)))]"

definition post_envelope :: "'c Publisher \<Rightarrow> OutboxItem \<Rightarrow> json \<Rightarrow> World \<times> 'c \<Rightarrow> HandlerResult \<times> World \<times> 'c" where
  "post_envelope pb item envelope s = (let body = pbMarshal pb envelope in
     case pbPost pb (pbURL pb @ ''/internal/connector/decisions'') (oiAggID item) (signBody pb body) body (snd s) of
       (None, c) \<Rightarrow> (HandlerErr, fst s, c)
     | (Some status, c) \<Rightarrow> (if status \<ge> 500 then HandlerErr else HandlerOk, fst s, c))"

definition ConsumeRendered :: "'c Publisher \<Rightarrow> (World \<times> 'c) Handler" where
  "ConsumeRendered pb item s = (let db = wDB (fst s) in
     if pbURL pb = [] then (HandlerOk, s)
     else case fst (TailEvents (lgRows (dbLedger db)) (oiTenantID item) 0 [''decision.rendered''] (oiAggType item @ '':'' @ oiAggID item) 1) of
       [] \<Rightarrow> (HandlerErr, s)
     | ev # _ \<Rightarrow>
         (case json_field (ePayload ev) ''subject'' of
           Some (JObj kvs) \<Rightarrow>
             (let candidateID = as_string (map_of kvs ''id'') in
              if candidateID = [] then (HandlerErr, s)
              else case GetCandidate db (oiTenantID item) candidateID of None \<Rightarrow> (HandlerErr, s)
              | Some cand \<Rightarrow> (case GetIntent db (oiTenantID item) (cIntentID cand) of None \<Rightarrow> (HandlerErr, s)
                | Some intent \<Rightarrow> post_envelope pb item (decision_envelope item ev candidateID cand intent) s))
         | _ \<Rightarrow> (HandlerPanic, s)))"

definition mark_requested :: "(World \<times> 'c) Handler" where
  "mark_requested item s = (case withTx (MarkProcessedTx ''scheduler'' (oiEventID item)) (fst s) of
      (Inl _, w) \<Rightarrow> (HandlerErr, w, snd s) | (Inr _, w) \<Rightarrow> (HandlerOk, w, snd s))"

text \<open>What \<^verbatim>\<open>main\<close> registers.\<close>

definition relay_registry :: "'c Publisher \<Rightarrow> (World \<times> 'c) Handlers" where
  "relay_registry pb = (''validation.requested'', [mark_requested]) # (if pbURL pb = [] then [] else [(''decision.rendered'', [ConsumeRendered pb])])"

text \<open>A decision is consumed only by the publisher, whichever order the handlers are visited in; other events than these
  two are published at once.\<close>

lemma registry_dispatch:
  assumes "set hs = set (relay_registry pb)" and "distinct (map fst hs)"
  shows "handle_item hs item HandlerOk s = (if oiType item = ''validation.requested'' then mark_requested item s
    else if oiType item = ''decision.rendered'' \<and> pbURL pb \<noteq> [] then ConsumeRendered pb item s else (HandlerOk, s))"
proof -
  have skip: "handle_item ks item f s = (f, s)" if "\<forall>k \<in> set ks. fst k \<noteq> [] \<and> fst k \<noteq> oiType item" for ks :: "(World \<times> 'a) Handlers" and f s
    using that by (induction ks arbitrary: s) auto
  have hit: "handle_item ks item HandlerOk s = h item s"
    if "(oiType item, [h]) \<in> set ks" "distinct (map fst ks)" "\<forall>k \<in> set ks. fst k \<noteq> []" for ks :: "(World \<times> 'a) Handlers" and h s
    using that
  proof (induction ks arbitrary: s)
    case (Cons k ks)
    show ?case
    proof (cases "k = (oiType item, [h])")
      case True
      with Cons.prems have "\<forall>k \<in> set ks. fst k \<noteq> [] \<and> fst k \<noteq> oiType item" by force
      from skip [OF this] True show ?thesis by (auto split: prod.splits HandlerResult.splits)
    next
      case False
      with Cons.prems have "fst k \<noteq> oiType item" "fst k \<noteq> []" by (force, simp)
      with Cons False show ?thesis by (cases k) auto
    qed
  qed simp
  have ne: "\<forall>k \<in> set hs. fst k \<noteq> []" unfolding assms(1) by (auto simp: relay_registry_def split: if_splits)
  show ?thesis
  proof (cases "oiType item = ''validation.requested'' \<or> oiType item = ''decision.rendered'' \<and> pbURL pb \<noteq> []")
    case True
    then show ?thesis using hit [OF _ assms(2) ne] unfolding assms(1) by (auto simp: relay_registry_def)
  next
    case False
    then show ?thesis using skip [of hs] ne unfolding assms(1) by (auto simp: relay_registry_def split: if_splits)
  qed
qed

subsection \<open>Sample runs\<close>

definition sample_entry :: "int \<Rightarrow> OutboxStatus \<Rightarrow> int \<Rightarrow> OutboxEntry" where
  "sample_entry ident status attempts = \<lparr>oeID = ident, oeRow = \<lparr>obEventID = ''evt_1'', obSeq = 1, obTenantID = ''ten_1'', obType = ''decision.rendered'',
     obAggregate = \<lparr>agType = ''decision'', agID = ''dec_1''\<rparr>\<rparr>, oeStatus = status, oeAttempts = attempts, oeNextAt = 0, oeCreatedAt = 0\<rparr>"

definition relay_at :: "OutboxStatus \<Rightarrow> int \<Rightarrow> OutboxItem list \<Rightarrow> unit RelayState" where
  "relay_at status attempts held = \<lparr>rsQueue = [sample_entry 1 status attempts, sample_entry 2 OutboxPublished 1],
     rsHeld = (\<lambda>_. [])(0 := held), rsWorld = ()\<rparr>"

lemma relay_at_inv: "relay_inv (relay_at OutboxPending 0 [])" "relay_inv (relay_at OutboxDelivering 1 [])"
  by (simp_all add: relay_inv_def relay_at_def sample_entry_def attempts_ok_def)

lemma relay_at_claims: "relay_step (relay_at OutboxPending 0 []) (relay_at OutboxDelivering 1 [claimed_item (sample_entry 1 OutboxPending 0)])"
proof -
  have "relay_step (relay_at OutboxPending 0 []) ((relay_at OutboxPending 0 [])\<lparr>rsQueue := [sample_entry 1 OutboxDelivering 1, sample_entry 2 OutboxPublished 1],
      rsHeld := (rsHeld (relay_at OutboxPending 0 []))(0 := [claimed_item (sample_entry 1 OutboxPending 0)])\<rparr>)"
    by (rule rs_claim [of _ _ 0 100])
      (simp_all add: relay_at_def ClaimOutboxBatch_def claim_rows_def due_entry_def sample_entry_def sort_by_def claimed_entry_def)
  then show ?thesis by (simp add: relay_at_def)
qed

theorem relay_claims_are_exclusive_witness:
  "oeID (sample_entry 2 OutboxPublished 1) \<notin> held_ids (relay_at OutboxDelivering 1 [claimed_item (sample_entry 1 OutboxPending 0)])"
  using relay_claims_are_exclusive [OF relay_at_inv(1) r_into_rtranclp [of relay_step, OF relay_at_claims]]
  by (simp add: relay_at_def sample_entry_def)

theorem abandoned_row_never_delivered_witness:
  "sample_entry 1 OutboxDelivering 1 \<in> set (rsQueue ((relay_at OutboxDelivering 1 [])\<lparr>rsHeld := (\<lambda>_. [])\<rparr>))"
proof -
  have "oeID (sample_entry 1 OutboxDelivering 1) \<notin> held_ids (relay_at OutboxDelivering 1 [])" by (simp add: held_ids_def relay_at_def)
  from abandoned_row_never_delivered [OF relay_at_inv(2) _ _ this r_into_rtranclp [of relay_step, OF rs_crash]] show ?thesis
    by (simp add: relay_at_def sample_entry_def)
qed

text \<open>Ten passes, twenty seconds apart, whose only handler always fails.\<close>

definition failing_pass :: "int \<Rightarrow> unit RelayEnv" where
  "failing_pass i = \<lparr>rvNow = i * 20000000000, rvBatch = 100, rvClaimUp = True, rvHandlers = (\<lambda>_. [([], [\<lambda>item s. (HandlerErr, s)])]),
     rvMarkAt = (\<lambda>_. i * 20000000000), rvMarkUp = (\<lambda>_. True)\<rparr>"


end
