(* ===== verification/Ratelimit.thy ===== *)
theory Ratelimit
  imports Sprintf
begin

text \<open>
  The write budget of the GitHub connector (services/github-connector/internal/ratelimit): one token bucket per
  installation, and the gate that runs a GitHub write under it with bounded retries. The clock is an argument of every
  operation; what the write function does is a parameter over a state of its own, and the jitter of a backoff is drawn by an
  argument indexed by the attempt.
\<close>

subsection \<open>Token buckets (bucket.go)\<close>

record Bucket =
  bkTokens :: float64
  bkCapacity :: float64
  bkRate :: float64
  bkLast :: gotime

definition gosecond :: duration where
  "gosecond = 1000000000"

definition NewBucket :: "int \<Rightarrow> gotime \<Rightarrow> Bucket" where
  "NewBucket perHour now = \<lparr>bkTokens = of_int perHour, bkCapacity = of_int perHour, bkRate = of_int perHour / 3600, bkLast = now\<rparr>"

definition refill :: "gotime \<Rightarrow> Bucket \<Rightarrow> Bucket" where
  "refill now b = (let elapsed = now - bkLast b in
     if elapsed \<le> 0 then b
     else let tokens = bkTokens b + of_int elapsed / of_int gosecond * bkRate b in
       b\<lparr>bkTokens := (if tokens > bkCapacity b then bkCapacity b else tokens), bkLast := now\<rparr>)"

definition Bucket_TryAcquire :: "gotime \<Rightarrow> Bucket \<Rightarrow> bool \<times> Bucket" where
  "Bucket_TryAcquire now b = (let b' = refill now b in
     if bkTokens b' < 1 then (False, b') else (True, b'\<lparr>bkTokens := bkTokens b' - 1\<rparr>))"

text \<open>\<^verbatim>\<open>time.Duration(x)\<close> drops the fraction of a non-negative float.\<close>

definition Bucket_RetryIn :: "gotime \<Rightarrow> Bucket \<Rightarrow> duration \<times> Bucket" where
  "Bucket_RetryIn now b = (let b' = refill now b in
     (if bkTokens b' \<ge> 1 then 0
      else if bkRate b' \<le> 0 then 3600 * gosecond
      else \<lfloor>(1 - bkTokens b') / bkRate b' * of_int gosecond\<rfloor>, b'))"

record Budget =
  bgPerHour :: int
  bgBuckets :: "int \<rightharpoonup> Bucket"

definition NewBudget :: "int \<Rightarrow> Budget" where
  "NewBudget perHour = \<lparr>bgPerHour = perHour, bgBuckets = Map.empty\<rparr>"

definition Budget_TryAcquire :: "gotime \<Rightarrow> int \<Rightarrow> Budget \<Rightarrow> bool \<times> Budget" where
  "Budget_TryAcquire now inst g =
    (let b = (case bgBuckets g inst of Some b \<Rightarrow> b | None \<Rightarrow> NewBucket (bgPerHour g) now);
         (ok, b') = Bucket_TryAcquire now b in
     (ok, g\<lparr>bgBuckets := (bgBuckets g)(inst \<mapsto> b')\<rparr>))"

definition Budget_RetryIn :: "gotime \<Rightarrow> int \<Rightarrow> Budget \<Rightarrow> duration \<times> Budget" where
  "Budget_RetryIn now inst g = (case bgBuckets g inst of None \<Rightarrow> (0, g)
     | Some b \<Rightarrow> let (wait, b') = Bucket_RetryIn now b in (wait, g\<lparr>bgBuckets := (bgBuckets g)(inst \<mapsto> b')\<rparr>))"

subsection \<open>The gate (gate.go)\<close>

text \<open>What \<^verbatim>\<open>errors.As\<close> finds in the error of a write: the retry hint of an abuse error, a
  primary rate limit, and the status with the Retry-After header of an error response.\<close>

record GhErr =
  geAbuse :: "duration option option"
  geRateLimit :: bool
  geResponse :: "(int \<times> string) option"
  geText :: string

datatype GateErr = GateBudgetExhausted | GateCancelled | GateGitHub GhErr

definition retryAfterHeader :: "string \<Rightarrow> duration option" where
  "retryAfterHeader header = (let raw = TrimSpace header in
     if raw = [] then None
     else case Atoi raw of None \<Rightarrow> None | Some secs \<Rightarrow> if secs < 0 then None else Some (i64 (secs * gosecond)))"

definition gate_backoffBase :: duration where
  "gate_backoffBase = 500000000"

definition jitteredBackoff :: "nat \<Rightarrow> (int \<Rightarrow> int) \<Rightarrow> duration" where
  "jitteredBackoff attempt draw = (let backoff = i64 (gate_backoffBase * 2 ^ attempt) in backoff + draw (backoff div 2))"

definition backoffFor :: "GhErr \<Rightarrow> nat \<Rightarrow> (int \<Rightarrow> int) \<Rightarrow> duration \<times> bool" where
  "backoffFor err attempt draw =
    (case geAbuse err of Some (Some wait) \<Rightarrow> (wait, True)
     | _ \<Rightarrow> if geRateLimit err then (jitteredBackoff attempt draw, True)
       else (case geResponse err of None \<Rightarrow> (0, False)
         | Some (code, header) \<Rightarrow>
             (case if code = 429 then retryAfterHeader header else None of Some wait \<Rightarrow> (wait, True)
              | None \<Rightarrow> if code \<ge> 500 then (jitteredBackoff attempt draw, True) else (0, False))))"

definition gate_limit :: nat where
  "gate_limit = 3"

text \<open>The loop of \<^verbatim>\<open>Do\<close>: the error it returns, the waits it slept and the state the write function left.\<close>

function gate_loop :: "(nat \<Rightarrow> bool) \<Rightarrow> (nat \<Rightarrow> int \<Rightarrow> int) \<Rightarrow> ('s \<Rightarrow> GhErr option \<times> 's) \<Rightarrow> nat \<Rightarrow> GateErr option \<Rightarrow> 's \<Rightarrow>
    GateErr option \<times> duration list \<times> 's" where
  "gate_loop cancelled draw fn attempt lastErr s =
    (if attempt \<ge> gate_limit then (lastErr, [], s)
     else if cancelled attempt then (Some GateCancelled, [], s)
     else case fn s of
       (None, s') \<Rightarrow> (None, [], s')
     | (Some err, s') \<Rightarrow>
         (let (wait, retryable) = backoffFor err attempt (draw attempt) in
          if \<not> retryable \<or> attempt = gate_limit - 1 then (Some (GateGitHub err), [], s')
          else let (e, ws, s'') = gate_loop cancelled draw fn (attempt + 1) (Some (GateGitHub err)) s' in (e, wait # ws, s'')))"
  by pat_completeness auto
termination by (relation "measure (\<lambda>(_, _, _, attempt, _, _). gate_limit - attempt)") auto

declare gate_loop.simps [simp del]

definition Gate_Do :: "gotime \<Rightarrow> (nat \<Rightarrow> bool) \<Rightarrow> (nat \<Rightarrow> int \<Rightarrow> int) \<Rightarrow> int \<Rightarrow> ('s \<Rightarrow> GhErr option \<times> 's) \<Rightarrow> Budget \<Rightarrow> 's \<Rightarrow>
    GateErr option \<times> duration list \<times> Budget \<times> 's" where
  "Gate_Do now cancelled draw inst fn g s =
    (let (ok, g') = Budget_TryAcquire now inst g in
     if \<not> ok then (Some GateBudgetExhausted, [], g', s)
     else let (e, ws, s') = gate_loop cancelled draw fn 0 None s in (e, ws, g', s'))"


subsection \<open>What a bucket grants\<close>

text \<open>The two calls the connector makes on the budget, in any order and at any clock readings (the clock may even go
  back); \<open>granted i\<close> counts the tokens installation \<open>i\<close> received.\<close>

datatype BudgetCall = CallTryAcquire int | CallRetryIn int

fun call_installation :: "BudgetCall \<Rightarrow> int" where
  "call_installation (CallTryAcquire i) = i"
| "call_installation (CallRetryIn i) = i"

fun budget_call :: "gotime \<times> BudgetCall \<Rightarrow> Budget \<Rightarrow> bool \<times> Budget" where
  "budget_call (now, CallTryAcquire i) g = Budget_TryAcquire now i g"
| "budget_call (now, CallRetryIn i) g = (False, snd (Budget_RetryIn now i g))"

fun budget_after :: "(gotime \<times> BudgetCall) list \<Rightarrow> Budget \<Rightarrow> Budget" where
  "budget_after [] g = g"
| "budget_after (c # cs) g = budget_after cs (snd (budget_call c g))"

fun granted :: "int \<Rightarrow> (gotime \<times> BudgetCall) list \<Rightarrow> Budget \<Rightarrow> nat" where
  "granted i [] g = 0"
| "granted i (c # cs) g = (if fst (budget_call c g) \<and> call_installation (snd c) = i then 1 else 0) + granted i cs (snd (budget_call c g))"

definition bucket_ok :: "int \<Rightarrow> Bucket \<Rightarrow> bool" where
  "bucket_ok p b \<longleftrightarrow> bkCapacity b = of_int p \<and> bkRate b = of_int p / 3600 \<and> 0 \<le> bkTokens b \<and> bkTokens b \<le> of_int p"

definition budget_ok :: "int \<Rightarrow> Budget \<Rightarrow> bool" where
  "budget_ok p g \<longleftrightarrow> bgPerHour g = p \<and> (\<forall>b \<in> ran (bgBuckets g). bucket_ok p b)"

lemma gosecond_pos [simp]: "0 < gosecond" "0 \<le> gosecond" "gosecond \<noteq> 0"
  by (simp_all add: gosecond_def)

lemma bucket_ok_New: "0 \<le> p \<Longrightarrow> bucket_ok p (NewBucket p now)"
  by (simp add: bucket_ok_def NewBucket_def)

lemma refill_last [simp]: "bkLast (refill now b) = max now (bkLast b)"
  by (auto simp: refill_def Let_def max_def)

lemma refill_tokens:
  "bkTokens (refill now b) = (if now \<le> bkLast b then bkTokens b
     else min (bkCapacity b) (bkTokens b + of_int (now - bkLast b) / of_int gosecond * bkRate b))"
  by (simp add: refill_def Let_def min_def)

lemma bucket_ok_refill: "0 \<le> p \<Longrightarrow> bucket_ok p b \<Longrightarrow> bucket_ok p (refill now b)"
  by (auto simp: bucket_ok_def refill_def Let_def divide_nonneg_pos intro!: add_nonneg_nonneg mult_nonneg_nonneg)

lemma bucket_ok_TryAcquire: "0 \<le> p \<Longrightarrow> bucket_ok p b \<Longrightarrow> bucket_ok p (snd (Bucket_TryAcquire now b))"
  using bucket_ok_refill [of p b now] by (auto simp: bucket_ok_def Bucket_TryAcquire_def Let_def)

lemma budget_ok_New: "budget_ok p (NewBudget p)"
  by (simp add: budget_ok_def NewBudget_def)

lemma budget_ok_upd: "budget_ok p g \<Longrightarrow> bucket_ok p b \<Longrightarrow> budget_ok p (g\<lparr>bgBuckets := (bgBuckets g)(i \<mapsto> b)\<rparr>)"
  by (auto simp: budget_ok_def ran_def split: if_splits)

lemma budget_ok_bucket: "budget_ok p g \<Longrightarrow> bgBuckets g i = Some b \<Longrightarrow> bucket_ok p b"
  by (auto simp: budget_ok_def intro: ranI)

lemma budget_ok_call: "0 \<le> p \<Longrightarrow> budget_ok p g \<Longrightarrow> budget_ok p (snd (budget_call c g))"
proof (induction c g rule: budget_call.induct)
  case (1 now i g)
  then have "bucket_ok p (case bgBuckets g i of Some b \<Rightarrow> b | None \<Rightarrow> NewBucket (bgPerHour g) now)"
    by (auto simp: bucket_ok_New budget_ok_def ranI split: option.split)
  then show ?case
    using 1 bucket_ok_TryAcquire
    by (auto simp: Budget_TryAcquire_def Let_def case_prod_beta intro!: budget_ok_upd)
next
  case (2 now i g)
  then show ?case
    using budget_ok_bucket [OF 2(2)]
    by (auto simp: Budget_RetryIn_def Bucket_RetryIn_def Let_def case_prod_beta
        intro!: budget_ok_upd bucket_ok_refill split: option.split)
qed

lemma budget_ok_after: "0 \<le> p \<Longrightarrow> budget_ok p g \<Longrightarrow> budget_ok p (budget_after cs g)"
  by (induction cs g rule: budget_after.induct) (auto simp: budget_ok_call)

text \<open>What a bucket can still grant in a window \<open>[t0, t1]\<close>.\<close>

definition headroom :: "int \<Rightarrow> gotime \<Rightarrow> gotime \<Rightarrow> Bucket option \<Rightarrow> rat" where
  "headroom p t0 t1 ob = (case ob of
     Some b \<Rightarrow> if t0 \<le> bkLast b then bkTokens b + of_int (max 0 (t1 - bkLast b)) / of_int gosecond * (of_int p / 3600)
       else of_int p + of_int (t1 - t0) / of_int gosecond * (of_int p / 3600)
   | None \<Rightarrow> of_int p + of_int (t1 - t0) / of_int gosecond * (of_int p / 3600))"

lemma headroom_refill:
  assumes p: "0 \<le> p" and ok: "bucket_ok p b" and t: "t0 \<le> t" "t \<le> t1"
  shows "headroom p t0 t1 (Some (refill t b)) \<le> headroom p t0 t1 (Some b)"
proof -
  define r where "r = (of_int p / 3600 / of_int gosecond :: rat)"
  have r: "0 \<le> r" using p by (simp add: r_def)
  have scale: "of_int x / of_int gosecond * (of_int p / 3600) = of_int x * r" for x
    by (simp add: r_def field_simps)
  have m: "of_int (t1 - t) * r \<le> of_int (t1 - t0) * r" if "t0 \<le> t" for t
    using r that by (intro mult_right_mono) simp_all
  show ?thesis
  proof (cases "t \<le> bkLast b")
    case True
    then have "refill t b = b" by (simp add: refill_def)
    then show ?thesis by simp
  next
    case False
    have rate: "of_int (t - bkLast b) / of_int gosecond * bkRate b = of_int (t - bkLast b) * r"
      using ok by (simp only: bucket_ok_def scale)
    have late: "bkTokens (refill t b) \<le> of_int p" "bkTokens (refill t b) \<le> bkTokens b + of_int (t - bkLast b) * r"
      using False ok unfolding refill_tokens rate by (simp_all add: bucket_ok_def)
    show ?thesis
      using False late m [OF t(1)] t unfolding headroom_def option.case scale refill_last
      by (auto simp: max_def algebra_simps)
  qed
qed

lemma headroom_TryAcquire:
  assumes p: "0 \<le> p" and ok: "bucket_ok p b" and t: "t0 \<le> t" "t \<le> t1"
  shows "(if fst (Bucket_TryAcquire t b) then 1 else 0) + headroom p t0 t1 (Some (snd (Bucket_TryAcquire t b)))
    \<le> headroom p t0 t1 (Some b)"
proof -
  have "t0 \<le> bkLast (refill t b)" using t by simp
  then have "(if fst (Bucket_TryAcquire t b) then 1 else 0) + headroom p t0 t1 (Some (snd (Bucket_TryAcquire t b)))
      = headroom p t0 t1 (Some (refill t b))"
    by (simp add: Bucket_TryAcquire_def Let_def headroom_def)
  then show ?thesis using headroom_refill [OF assms] by simp
qed

lemma headroom_New: "0 \<le> p \<Longrightarrow> t0 \<le> t \<Longrightarrow> t \<le> t1 \<Longrightarrow> headroom p t0 t1 (Some (NewBucket p t)) \<le> headroom p t0 t1 None"
  by (auto simp: headroom_def NewBucket_def max_def intro!: divide_right_mono mult_right_mono)

lemma headroom_nonneg: "0 \<le> p \<Longrightarrow> t0 \<le> t1 \<Longrightarrow> budget_ok p g \<Longrightarrow> 0 \<le> headroom p t0 t1 (bgBuckets g i)"
  by (auto simp: headroom_def bucket_ok_def dest!: budget_ok_bucket split: option.split
      intro!: add_nonneg_nonneg mult_nonneg_nonneg divide_nonneg_pos)

lemma headroom_le: "0 \<le> p \<Longrightarrow> t0 \<le> t1 \<Longrightarrow> budget_ok p g \<Longrightarrow> headroom p t0 t1 (bgBuckets g i)
    \<le> of_int p + of_int (t1 - t0) / of_int gosecond * (of_int p / 3600)"
  by (auto simp: headroom_def bucket_ok_def dest!: budget_ok_bucket split: option.split
      intro!: add_mono mult_right_mono divide_right_mono)

lemma headroom_call:
  assumes p: "0 \<le> p" and ok: "budget_ok p g" and t: "t0 \<le> fst c" "fst c \<le> t1"
  shows "(if fst (budget_call c g) \<and> call_installation (snd c) = i then 1 else 0) + headroom p t0 t1 (bgBuckets (snd (budget_call c g)) i)
    \<le> headroom p t0 t1 (bgBuckets g i)"
  using ok t
proof (induction c g rule: budget_call.induct)
  case (1 now j g)
  let ?b = "case bgBuckets g j of Some b \<Rightarrow> b | None \<Rightarrow> NewBucket (bgPerHour g) now"
  have b: "bucket_ok p ?b"
    using 1(1) p by (auto simp: bucket_ok_New budget_ok_def ranI split: option.split)
  have "headroom p t0 t1 (Some ?b) \<le> headroom p t0 t1 (bgBuckets g j)"
    using headroom_New [of p t0 now t1] p 1 by (auto simp: budget_ok_def split: option.split)
  then show ?case
    using headroom_TryAcquire [OF p b, of t0 now t1] 1
    by (auto simp: Budget_TryAcquire_def Let_def case_prod_beta)
next
  case (2 now j g)
  then show ?case
    using headroom_refill [OF p, of _ t0 now t1] budget_ok_bucket [OF 2(1)]
    by (auto simp: Budget_RetryIn_def Bucket_RetryIn_def Let_def case_prod_beta split: option.split)
qed

lemma granted_headroom:
  assumes p: "0 \<le> p" and "t0 \<le> t1"
  shows "budget_ok p g \<Longrightarrow> \<forall>c \<in> set cs. t0 \<le> fst c \<and> fst c \<le> t1 \<Longrightarrow> of_nat (granted i cs g) \<le> headroom p t0 t1 (bgBuckets g i)"
proof (induction cs arbitrary: g)
  case Nil
  then show ?case using headroom_nonneg [OF assms] by simp
next
  case (Cons c cs)
  have "of_nat (granted i cs (snd (budget_call c g))) \<le> headroom p t0 t1 (bgBuckets (snd (budget_call c g)) i)"
    using Cons by (intro Cons.IH) (auto simp: budget_ok_call p)
  then show ?case using headroom_call [OF p Cons.prems(1), of t0 c t1 i] Cons.prems(2) by auto
qed

text \<open>Only the calls of its own installation matter to a bucket.\<close>

lemma budget_call_other:
  "call_installation (snd c) \<noteq> i \<Longrightarrow> bgBuckets (snd (budget_call c g)) i = bgBuckets g i"
  by (cases "(c, g)" rule: budget_call.cases)
    (auto simp: Budget_TryAcquire_def Budget_RetryIn_def Let_def case_prod_beta split: option.split)

lemma budget_call_PerHour [simp]: "bgPerHour (snd (budget_call c g)) = bgPerHour g"
  by (cases "(c, g)" rule: budget_call.cases)
    (auto simp: Budget_TryAcquire_def Budget_RetryIn_def Let_def case_prod_beta split: option.split)

lemma budget_call_same:
  "bgBuckets g i = bgBuckets h i \<Longrightarrow> bgPerHour g = bgPerHour h \<Longrightarrow> call_installation (snd c) = i \<Longrightarrow>
     fst (budget_call c g) = fst (budget_call c h) \<and> bgBuckets (snd (budget_call c g)) i = bgBuckets (snd (budget_call c h)) i"
  by (cases "(c, g)" rule: budget_call.cases)
    (auto simp: Budget_TryAcquire_def Budget_RetryIn_def Let_def case_prod_beta split: option.split)

lemma granted_isolated:
  "bgBuckets g i = bgBuckets h i \<Longrightarrow> bgPerHour g = bgPerHour h \<Longrightarrow>
     granted i cs g = granted i (filter (\<lambda>c. call_installation (snd c) = i) cs) h"
proof (induction cs arbitrary: g h)
  case (Cons c cs)
  show ?case
  proof (cases "call_installation (snd c) = i")
    case True
    then show ?thesis using budget_call_same [OF Cons.prems True] Cons.prems by (simp add: Cons.IH)
  next
    case False
    then show ?thesis using Cons.prems by (simp add: Cons.IH budget_call_other)
  qed
qed simp

text \<open>C27: Write budget. After any history of calls, an installation is granted at most its hourly budget plus what the
  refill rate adds over the window, whatever the other installations ask for in between: the grants are those of the same
  calls without the other installations.\<close>

theorem budget_bounds_writes:
  assumes "0 \<le> perHour" and "t0 \<le> t1" and "\<forall>c \<in> set window. t0 \<le> fst c \<and> fst c \<le> t1"
  shows "of_nat (granted i window (budget_after history (NewBudget perHour)))
      \<le> (of_int perHour + of_int perHour * of_int (t1 - t0) / of_int (3600 * gosecond) :: rat)
    \<and> granted i window (budget_after history (NewBudget perHour)) =
      granted i (filter (\<lambda>c. call_installation (snd c) = i) window) (budget_after history (NewBudget perHour))"
proof
  let ?g = "budget_after history (NewBudget perHour)"
  have g: "budget_ok perHour ?g" by (rule budget_ok_after [OF assms(1) budget_ok_New])
  have "of_nat (granted i window ?g) \<le> headroom perHour t0 t1 (bgBuckets ?g i)"
    by (rule granted_headroom [OF assms(1,2) g assms(3)])
  also have "\<dots> \<le> of_int perHour + of_int (t1 - t0) / of_int gosecond * (of_int perHour / 3600)"
    by (rule headroom_le [OF assms(1,2) g])
  finally show "of_nat (granted i window ?g) \<le> (of_int perHour + of_int perHour * of_int (t1 - t0) / of_int (3600 * gosecond) :: rat)"
    by (simp add: field_simps)
  show "granted i window ?g = granted i (filter (\<lambda>c. call_installation (snd c) = i) window) ?g"
    by (rule granted_isolated) simp_all
qed

text \<open>A nanosecond after the wait \<^verbatim>\<open>RetryIn\<close> reports, a token is there (the wait drops a
  fraction of a nanosecond).\<close>

lemma refill_later:
  assumes "bucket_ok p b" and "0 < d" and "x \<le> of_int p" and "x \<le> bkTokens b + of_int d / of_int gosecond * bkRate b"
  shows "x \<le> bkTokens (refill (bkLast b + d) b)"
  using assms by (simp add: refill_tokens bucket_ok_def)

lemma RetryIn_then_token:
  assumes "1 \<le> perHour" and "bucket_ok perHour b"
  shows "fst (Bucket_TryAcquire (max now (bkLast b) + fst (Bucket_RetryIn now b) + 1) (snd (Bucket_RetryIn now b)))"
proof -
  let ?b = "refill now b" and ?w = "fst (Bucket_RetryIn now b)"
  have ok: "bucket_ok perHour ?b" using assms by (intro bucket_ok_refill) auto
  have b': "snd (Bucket_RetryIn now b) = ?b" by (simp add: Bucket_RetryIn_def Let_def)
  have rate: "0 < bkRate ?b" using ok assms(1) by (simp add: bucket_ok_def)
  have "0 \<le> ?w \<and> 1 \<le> bkTokens ?b + of_int (?w + 1) / of_int gosecond * bkRate ?b"
  proof (cases "bkTokens ?b \<ge> 1")
    case True
    then have "?w = 0" by (simp add: Bucket_RetryIn_def Let_def)
    moreover have "0 \<le> of_int 1 / of_int gosecond * bkRate ?b" using rate by simp
    ultimately show ?thesis using True by auto
  next
    case False
    define need where "need = (1 - bkTokens ?b) / bkRate ?b * of_int gosecond"
    have w: "?w = \<lfloor>need\<rfloor>" using False rate by (simp add: Bucket_RetryIn_def Let_def need_def)
    have "0 \<le> need" using False rate by (simp add: need_def)
    then have pos: "0 \<le> ?w" by (simp add: w)
    have "need \<le> of_int (?w + 1)" unfolding w by linarith
    then have "need * bkRate ?b \<le> of_int (?w + 1) * bkRate ?b" using rate by (intro mult_right_mono) auto
    moreover have "need * bkRate ?b = (1 - bkTokens ?b) * of_int gosecond" using rate by (simp add: need_def)
    ultimately have "1 - bkTokens ?b \<le> of_int (?w + 1) * bkRate ?b / of_int gosecond"
      by (simp add: pos_le_divide_eq)
    then show ?thesis using pos by simp
  qed
  then have "1 \<le> bkTokens (refill (bkLast ?b + (?w + 1)) ?b)"
    using assms(1) by (intro refill_later [OF ok]) auto
  moreover have "bkLast ?b + (?w + 1) = max now (bkLast b) + ?w + 1" by simp
  ultimately show ?thesis unfolding b' by (simp add: Bucket_TryAcquire_def Let_def add.assoc not_less)
qed

theorem budget_bounds_writes_witness:
  "of_nat (granted 7 [(0, CallTryAcquire 7), (0, CallTryAcquire 8), (0, CallTryAcquire 7), (1800 * gosecond, CallTryAcquire 7)]
      (budget_after [] (NewBudget 1))) \<le> (3 / 2 :: rat)"
  using budget_bounds_writes [of 1 0 "1800 * gosecond"
      "[(0, CallTryAcquire 7), (0, CallTryAcquire 8), (0, CallTryAcquire 7), (1800 * gosecond, CallTryAcquire 7)]" 7 "[]"]
  by (simp add: gosecond_def)


subsection \<open>What the gate runs\<close>

abbreviation after_tries :: "('s \<Rightarrow> GhErr option \<times> 's) \<Rightarrow> nat \<Rightarrow> 's \<Rightarrow> 's" where
  "after_tries fn k s \<equiv> ((\<lambda>x. snd (fn x)) ^^ k) s"

lemma gate_loop_calls:
  "gate_loop cancelled draw fn attempt lastErr s = (e, ws, s') \<Longrightarrow> lastErr \<noteq> Some GateBudgetExhausted \<Longrightarrow>
     \<exists>k \<le> gate_limit - attempt. s' = after_tries fn k s \<and> length ws \<le> gate_limit - 1 - attempt \<and> e \<noteq> Some GateBudgetExhausted \<and>
       (e = None \<longrightarrow> lastErr = None \<and> gate_limit \<le> attempt \<or> 0 < k \<and> fst (fn (after_tries fn (k - 1) s)) = None)"
proof (induction cancelled draw fn attempt lastErr s arbitrary: e ws s' rule: gate_loop.induct)
  case (1 cancelled draw fn attempt lastErr s)
  obtain o1 s1 where fn: "fn s = (o1, s1)" by force
  show ?case
  proof (cases "attempt \<ge> gate_limit \<or> cancelled attempt")
    case True
    then show ?thesis using 1(2,3) by (auto simp: gate_loop.simps [of _ _ _ _ _ s] split: if_splits)
  next
    case go: False
    show ?thesis
    proof (cases o1)
      case None
      then show ?thesis using 1(2,3) go fn by (intro exI [of _ 1]) (auto simp: gate_loop.simps [of _ _ _ _ _ s])
    next
      case (Some err)
      obtain wait retryable where b: "backoffFor err attempt (draw attempt) = (wait, retryable)" by force
      show ?thesis
      proof (cases "retryable \<and> attempt \<noteq> gate_limit - 1")
        case False
        then show ?thesis
          using 1(2,3) go fn Some b by (intro exI [of _ 1]) (auto simp: gate_loop.simps [of _ _ _ _ _ s])
      next
        case True
        obtain ws' where rest: "gate_loop cancelled draw fn (attempt + 1) (Some (GateGitHub err)) s1 = (e, ws', s')" and ws: "ws = wait # ws'"
          using 1(2) go fn Some b True by (auto simp: gate_loop.simps [of _ _ _ _ _ s] split: prod.splits)
        have "\<exists>k \<le> gate_limit - (attempt + 1). s' = after_tries fn k s1 \<and> length ws' \<le> gate_limit - 1 - (attempt + 1) \<and> e \<noteq> Some GateBudgetExhausted \<and>
            (e = None \<longrightarrow> Some (GateGitHub err) = None \<and> gate_limit \<le> attempt + 1 \<or> 0 < k \<and> fst (fn (after_tries fn (k - 1) s1)) = None)"
          using go fn Some b True rest by (intro 1(1)) auto
        then obtain k where "k \<le> gate_limit - (attempt + 1)" "s' = after_tries fn k s1" "length ws' \<le> gate_limit - 1 - (attempt + 1)"
            "e \<noteq> Some GateBudgetExhausted" "e = None \<longrightarrow> 0 < k \<and> fst (fn (after_tries fn (k - 1) s1)) = None"
          by auto
        moreover have "after_tries fn (Suc j) s = after_tries fn j s1" for j
          using fn by (simp add: funpow_Suc_right del: funpow.simps)
        ultimately show ?thesis
          using go ws True by (intro exI [of _ "Suc k"]) (auto simp: gr0_conv_Suc simp del: funpow.simps)
      qed
    qed
  qed
qed

text \<open>Gate. A write runs at most three times, and not at all without a token; success means that its last run
  succeeded, and only a refused token is reported as an exhausted budget.\<close>

theorem gate_runs_write_bounded:
  assumes "Gate_Do now cancelled draw inst fn g s = (e, waits, g', s')"
  shows "\<exists>k \<le> 3. s' = after_tries fn k s \<and> length waits \<le> 2 \<and> g' = snd (Budget_TryAcquire now inst g) \<and>
    (e = Some GateBudgetExhausted \<longleftrightarrow> \<not> fst (Budget_TryAcquire now inst g)) \<and>
    (e = Some GateBudgetExhausted \<longrightarrow> k = 0) \<and>
    (e = None \<longrightarrow> 0 < k \<and> fst (fn (after_tries fn (k - 1) s)) = None)"
proof (cases "fst (Budget_TryAcquire now inst g)")
  case True
  obtain e1 ws1 s1 where l: "gate_loop cancelled draw fn 0 None s = (e1, ws1, s1)" by (metis prod_cases3)
  show ?thesis
    using gate_loop_calls [OF l] assms True l
    by (auto simp: Gate_Do_def case_prod_beta gate_limit_def)
next
  case False
  then show ?thesis using assms by (auto simp: Gate_Do_def case_prod_beta)
qed

definition gh_status :: "int \<Rightarrow> GhErr" where
  "gh_status code = \<lparr>geAbuse = None, geRateLimit = False, geResponse = Some (code, []), geText = []\<rparr>"

text \<open>The token pays for one call, and the two retries of a failing write are free: with a budget of one write per hour,
  three calls reach GitHub at the same instant.\<close>

lemma one_token_three_calls:
  "Gate_Do 0 (\<lambda>_. False) (\<lambda>_ _. 0) 7 (\<lambda>n. (Some (gh_status 503), n + 1)) (NewBudget 1) (0 :: int)
     = (Some (GateGitHub (gh_status 503)), [500000000, 1000000000], snd (Budget_TryAcquire 0 7 (NewBudget 1)), 3)"
  by (simp add: Gate_Do_def Budget_TryAcquire_def NewBudget_def Bucket_TryAcquire_def NewBucket_def refill_def gate_loop.simps
      gate_limit_def backoffFor_def gh_status_def jitteredBackoff_def gate_backoffBase_def i64_ok_def)

theorem gate_runs_write_bounded_witness:
  "\<exists>k \<le> 3. (3 :: int) = after_tries (\<lambda>n. (Some (gh_status 503), n + 1)) k 0"
  using gate_runs_write_bounded [OF one_token_three_calls] by auto

end
