(* ===== verification/Checks.thy ===== *)
theory Checks
  imports Sprintf
begin

text \<open>
  The data the GitHub connector pushes to pull requests (services/github-connector): the three envelopes of the internal push
  protocol with their validation (internal/domain) and the rendering of check runs (internal/checks). Wire enums
  (kinds, verbs, phases) are strings, because what the code does with an unknown value is part of it. The texts are byte
  strings; the non-ASCII punctuation of the frozen summaries is written out in UTF-8.
\<close>

subsection \<open>Kinds and phases (domain/kinds.go, domain/lifecycle.go)\<close>

datatype EnvelopeKind = KindDecision | KindLifecycle | KindRerun

fun kind_string :: "EnvelopeKind \<Rightarrow> string" where
  "kind_string KindDecision = ''decision''"
| "kind_string KindLifecycle = ''lifecycle''"
| "kind_string KindRerun = ''rerun_requested''"

definition KindFor :: "string \<Rightarrow> EnvelopeKind option" where
  "KindFor raw = (if raw = [] then Some KindDecision
     else if raw = kind_string KindDecision then Some KindDecision
     else if raw = kind_string KindLifecycle then Some KindLifecycle
     else if raw = kind_string KindRerun then Some KindRerun
     else None)"

definition PhaseQueued :: string where
  "PhaseQueued = ''queued''"

definition PhaseInProgress :: string where
  "PhaseInProgress = ''in_progress''"

definition PhaseCompleted :: string where
  "PhaseCompleted = ''completed''"

definition GitHubStatus :: "string \<Rightarrow> string" where
  "GitHubStatus p = (if p = PhaseQueued then ''queued'' else if p = PhaseInProgress then ''in_progress''
     else if p = PhaseCompleted then ''completed'' else ''unknown_phase_'' @ p)"

definition GitHubPhase :: "string \<Rightarrow> string option" where
  "GitHubPhase p = (if p = ''queued'' then Some PhaseQueued else if p = ''in_progress'' then Some PhaseInProgress else None)"

subsection \<open>Envelopes (domain/decision.go, domain/report.go, domain/lifecycle.go)\<close>

datatype EnvelopeErr =
    BadKind | BadDecisionID | BadCandidateID | BadRepo | BadHeadSHA | BadVerb | BadPolicy | BadStamp | BadPRNumber
  | BadPhase | EvidenceNegative | EvidenceInconsistent | BadReport string nat | BadAnnotation nat

record EvidenceCounts =
  evRequired :: int
  evAccepted :: int
  evDeferred :: int
  evFailed :: int

definition EvidenceCounts_validate :: "EvidenceCounts \<Rightarrow> EnvelopeErr option" where
  "EvidenceCounts_validate e =
    (if evRequired e < 0 \<or> evAccepted e < 0 \<or> evDeferred e < 0 \<or> evFailed e < 0 then Some EvidenceNegative
     else if evAccepted e > evRequired e \<or> i64 (evDeferred e + evFailed e) > evRequired e then Some EvidenceInconsistent
     else None)"

record FindingAnnotation =
  faPath :: string
  faStartLine :: int
  faMessage :: string
  faKind :: string

definition FindingAnnotation_valid :: "FindingAnnotation \<Rightarrow> bool" where
  "FindingAnnotation_valid a \<longleftrightarrow> (if faMessage a = [] then False else if faKind a = [] then False
     else if faStartLine a < 0 then False else if faPath a \<noteq> [] \<and> has_prefix (faPath a) ''/'' then False else True)"

record EvidenceRow =
  erKind :: string
  erTier :: int
  erVerdict :: string
  erExecuted :: int
  erSkipped :: int
  erDurationMS :: int

definition EvidenceRow_valid :: "EvidenceRow \<Rightarrow> bool" where
  "EvidenceRow_valid e \<longleftrightarrow> (if erKind e = [] then False
     else if erVerdict e \<notin> {''accepted'', ''deferred'', ''failed''} then False
     else if erTier e < 0 \<or> erExecuted e < 0 \<or> erSkipped e < 0 then False
     else if erDurationMS e < 0 then False else True)"

record SkippedNonEvidence =
  snTotal :: int
  snRationale :: string

definition SkippedNonEvidence_valid :: "SkippedNonEvidence \<Rightarrow> bool" where
  "SkippedNonEvidence_valid s \<longleftrightarrow> (if snTotal s < 0 then False else if snRationale s = [] then False else True)"

record FailureCaseReport =
  fcKind :: string
  fcClassification :: string
  fcConfidence :: float64
  fcReproductionCommand :: string
  fcRoutedAction :: string
  fcRepairAttempt :: int
  fcRepairMax :: int

definition FailureCaseReport_valid :: "FailureCaseReport \<Rightarrow> bool" where
  "FailureCaseReport_valid f \<longleftrightarrow> (if fcKind f = [] \<or> fcClassification f = [] \<or> fcRoutedAction f = [] then False
     else if fcConfidence f < 0 \<or> fcConfidence f > 1 then False
     else if fcRepairAttempt f < 0 \<or> fcRepairMax f < 0 \<or> (fcRepairMax f > 0 \<and> fcRepairAttempt f > fcRepairMax f) then False
     else True)"

record TimelineEvent =
  teAt :: gotime
  teEvent :: string

definition TimelineEvent_valid :: "TimelineEvent \<Rightarrow> bool" where
  "TimelineEvent_valid t \<longleftrightarrow> (if teAt t = zero_time then False else if teEvent t = [] then False else True)"

record ReportDossier =
  rdEvidenceRows :: "EvidenceRow list"
  rdSkipped :: "SkippedNonEvidence option"
  rdFailures :: "FailureCaseReport list"
  rdTimeline :: "TimelineEvent list"

text \<open>The validation loops stop at the first element that fails and report its index.\<close>

fun first_invalid :: "('a \<Rightarrow> bool) \<Rightarrow> nat \<Rightarrow> 'a list \<Rightarrow> nat option" where
  "first_invalid ok i [] = None"
| "first_invalid ok i (x # xs) = (if \<not> ok x then Some i else first_invalid ok (i + 1) xs)"

definition ReportDossier_validate :: "ReportDossier \<Rightarrow> EnvelopeErr option" where
  "ReportDossier_validate r =
    (case first_invalid EvidenceRow_valid 0 (rdEvidenceRows r) of Some i \<Rightarrow> Some (BadReport ''evidence_rows'' i)
     | None \<Rightarrow> if (case rdSkipped r of Some s \<Rightarrow> \<not> SkippedNonEvidence_valid s | None \<Rightarrow> False) then Some (BadReport ''skipped_non_evidence'' 0)
       else (case first_invalid FailureCaseReport_valid 0 (rdFailures r) of Some i \<Rightarrow> Some (BadReport ''failures'' i)
         | None \<Rightarrow> (case first_invalid TimelineEvent_valid 0 (rdTimeline r) of Some i \<Rightarrow> Some (BadReport ''timeline'' i)
             | None \<Rightarrow> None)))"

definition VerbEligibleForMergeTrain :: string where
  "VerbEligibleForMergeTrain = ''eligible_for_merge_train''"

definition VerbRejected :: string where
  "VerbRejected = ''rejected''"

definition VerbDeferred :: string where
  "VerbDeferred = ''deferred''"

record DecisionEnvelope =
  deKind :: string
  deDecisionID :: string
  deCandidateID :: string
  deRepo :: string
  deHeadSHA :: string
  deVerb :: string
  deConfidence :: float64
  dePolicyID :: string
  dePolicyVersion :: int
  deSummary :: string
  deRenderedAt :: gotime
  deEvidence :: "EvidenceCounts option"
  deAnnotations :: "FindingAnnotation list"
  dePRNumber :: int
  deReport :: "ReportDossier option"

definition isHex :: "string \<Rightarrow> bool" where
  "isHex s \<longleftrightarrow> list_all (\<lambda>c. is_digit c \<or> 97 \<le> (of_char c :: nat) \<and> (of_char c :: nat) \<le> 102) s"

definition validateRepoHead :: "string \<Rightarrow> string \<Rightarrow> EnvelopeErr option" where
  "validateRepoHead repo headSHA = (if repo = [] \<or> count_list repo (CHR ''/'') \<noteq> 1 then Some BadRepo
     else if length headSHA \<noteq> 40 \<or> \<not> isHex headSHA then Some BadHeadSHA else None)"

definition DecisionEnvelope_Validate :: "DecisionEnvelope \<Rightarrow> EnvelopeErr option" where
  "DecisionEnvelope_Validate d =
    (if deKind d \<noteq> [] \<and> deKind d \<noteq> kind_string KindDecision then Some BadKind
     else if \<not> has_prefix (deDecisionID d) ''dec_'' then Some BadDecisionID
     else if \<not> has_prefix (deCandidateID d) ''cand_'' then Some BadCandidateID
     else case validateRepoHead (deRepo d) (deHeadSHA d) of Some e \<Rightarrow> Some e
     | None \<Rightarrow>
       if deVerb d \<notin> {VerbEligibleForMergeTrain, VerbRejected, VerbDeferred} then Some BadVerb
       else if dePolicyID d = [] \<or> dePolicyVersion d \<le> 0 then Some BadPolicy
       else if deRenderedAt d = zero_time then Some BadStamp
       else if dePRNumber d < 0 then Some BadPRNumber
       else case (case deEvidence d of None \<Rightarrow> None | Some e \<Rightarrow> EvidenceCounts_validate e) of Some e \<Rightarrow> Some e
       | None \<Rightarrow> (case (case deReport d of None \<Rightarrow> None | Some r \<Rightarrow> ReportDossier_validate r) of Some e \<Rightarrow> Some e
         | None \<Rightarrow> (case first_invalid FindingAnnotation_valid 0 (deAnnotations d) of Some i \<Rightarrow> Some (BadAnnotation i)
           | None \<Rightarrow> None)))"

definition isCandID :: "string \<Rightarrow> bool" where
  "isCandID ident \<longleftrightarrow> length ident > 5 \<and> take 5 ident = ''cand_''"

record LifecycleEnvelope =
  leKind :: string
  lePhase :: string
  leCandidateID :: string
  leRepo :: string
  leHeadSHA :: string
  leAt :: gotime

definition LifecycleEnvelope_Validate :: "LifecycleEnvelope \<Rightarrow> EnvelopeErr option" where
  "LifecycleEnvelope_Validate e =
    (if leKind e \<noteq> kind_string KindLifecycle then Some BadKind
     else if GitHubPhase (lePhase e) = None then Some BadPhase
     else if \<not> isCandID (leCandidateID e) then Some BadCandidateID
     else case validateRepoHead (leRepo e) (leHeadSHA e) of Some x \<Rightarrow> Some x
     | None \<Rightarrow> if leAt e = zero_time then Some BadStamp else None)"

record RerunEnvelope =
  reKind :: string
  reCandidateID :: string
  reRepo :: string
  reHeadSHA :: string
  reRequestedBy :: string
  reRequestedAt :: gotime

definition RerunEnvelope_Validate :: "RerunEnvelope \<Rightarrow> EnvelopeErr option" where
  "RerunEnvelope_Validate e =
    (if reKind e \<noteq> kind_string KindRerun then Some BadKind
     else if \<not> isCandID (reCandidateID e) then Some BadCandidateID
     else case validateRepoHead (reRepo e) (reHeadSHA e) of Some x \<Rightarrow> Some x
     | None \<Rightarrow> if reRequestedAt e = zero_time then Some BadStamp else None)"


subsection \<open>Summaries (checks/summary.go)\<close>

definition headlineForVerb :: "string \<Rightarrow> string option" where
  "headlineForVerb verb = (if verb = VerbEligibleForMergeTrain then Some ''Eligible for merge train''
     else if verb = VerbRejected then Some ''Rejected'' else if verb = VerbDeferred then Some ''Deferred'' else None)"

definition decisionSummary :: "DecisionEnvelope \<Rightarrow> string \<Rightarrow> bool \<Rightarrow> string option" where
  "decisionSummary d detailsURL cached = (case headlineForVerb (deVerb d) of None \<Rightarrow> None
     | Some headline \<Rightarrow> (case deEvidence d of
         None \<Rightarrow> Some (deSummary d @ '' (verb='' @ deVerb d @ '' confidence='' @ fmt_2f (deConfidence d) @ '' policy='' @ dePolicyID d @
           '' v'' @ itoa (dePolicyVersion d) @ '')'')
       | Some e \<Rightarrow> Some (''**'' @ headline @ ''** '' @ middot @ '' confidence '' @ fmt_2f (deConfidence d) @ '' '' @ middot @ '' policy '' @
           dePolicyID d @ '' v'' @ itoa (dePolicyVersion d) @ line_feed @
           ''Evidence: '' @ itoa (evAccepted e) @ ''/'' @ itoa (evRequired e) @ '' required accepted '' @ middot @ '' '' @
           itoa (evDeferred e) @ '' deferred (reason-linked) '' @ middot @ '' '' @ itoa (evFailed e) @ '' failed'' @ line_feed @
           rarrow @ '' Full dossier: '' @ detailsURL @
           (if cached then line_feed @ ''_cached replay (no recompute)_'' else []))))"

definition lifecycleSummary :: "LifecycleEnvelope \<Rightarrow> string \<Rightarrow> string \<Rightarrow> string" where
  "lifecycleSummary e detailsURL phase =
    (if phase = PhaseQueued then ''**Queued** '' @ middot @ '' CISync accepted candidate '' @ leCandidateID e @ '' for verification'' @ line_feed
     else if phase = PhaseInProgress then ''**In progress** '' @ middot @ '' CISync verification started for '' @ leCandidateID e @ line_feed
     else []) @
    rarrow @ '' Full dossier: '' @ detailsURL @ line_feed @
    (if phase = PhaseQueued then ''_queued '' @ rfc3339 (leAt e) @ ''_''
     else if phase = PhaseInProgress then ''_in progress since '' @ rfc3339 (leAt e) @ ''_''
     else [])"

definition stalledSummary :: "string \<Rightarrow> string \<Rightarrow> gotime \<Rightarrow> string" where
  "stalledSummary candidateID detailsURL now =
    ''**Stalled** '' @ middot @ '' no verification result within the time budget'' @ line_feed @
    rarrow @ '' Full dossier: '' @ detailsURL @ line_feed @
    ''_flipped neutral by stalled-check sweeper '' @ rfc3339 now @ ''_''"

definition rerunDeclinedSummary :: "string \<Rightarrow> string \<Rightarrow> gotime \<Rightarrow> bool \<Rightarrow> string" where
  "rerunDeclinedSummary candidateID detailsURL now exhausted =
    (if exhausted then ''**Re-run budget exhausted** '' @ middot @ '' cap reached for this candidate or hour'' @ line_feed
     else ''**Re-run unavailable** '' @ middot @ '' control-plane unreachable; request not lost'' @ line_feed) @
    rarrow @ '' Full dossier: '' @ detailsURL @ line_feed @
    (if exhausted then ''_re-run declined '' @ rfc3339 now @ '' '' @ middot @ '' see dossier for the standing verdict_''
     else ''_re-run declined '' @ rfc3339 now @ '' '' @ middot @ '' retry the GitHub re-run later_'')"

definition overflowMessage :: "nat \<Rightarrow> string" where
  "overflowMessage hidden = itoa (int hidden) @ '' more failing findings in the dossier''"

subsection \<open>Check payloads (checks/render.go)\<close>

definition CheckName :: string where
  "CheckName = ''Agent Verification Gate''"

definition MaxAnnotationsPerBatch :: nat where
  "MaxAnnotationsPerBatch = 50"

record Annotation =
  anPath :: string
  anStartLine :: int
  anEndLine :: int
  anMessage :: string
  anTitle :: string

record CheckPayload =
  cpName :: string
  cpHeadSHA :: string
  cpStatus :: string
  cpConclusion :: string
  cpDetailsURL :: string
  cpExternalID :: string
  cpSummary :: string
  cpAnnotations :: "Annotation list"
  cpCompletedAt :: "gotime option"

definition detailsURLFor :: "string \<Rightarrow> string \<Rightarrow> string" where
  "detailsURLFor base candidateID = (if base = [] then ''/candidates/'' @ candidateID
     else rev (dropWhile (\<lambda>c. c = CHR ''/'') (rev base)) @ ''/candidates/'' @ candidateID)"

definition ConclusionForVerb :: "string \<Rightarrow> string option" where
  "ConclusionForVerb verb = (if verb = VerbEligibleForMergeTrain then Some ''success''
     else if verb = VerbRejected then Some ''failure'' else if verb = VerbDeferred then Some ''neutral'' else None)"

definition annotation_of :: "FindingAnnotation \<Rightarrow> Annotation" where
  "annotation_of f = \<lparr>anPath = faPath f, anStartLine = faStartLine f, anEndLine = faStartLine f, anMessage = faMessage f, anTitle = faKind f\<rparr>"

definition failureAnnotations :: "FindingAnnotation list \<Rightarrow> Annotation list" where
  "failureAnnotations findings =
    (if findings = [] then []
     else let overflow = (if length findings > MaxAnnotationsPerBatch then length findings - (MaxAnnotationsPerBatch - 1) else 0);
              keep = (if length findings > MaxAnnotationsPerBatch then take (MaxAnnotationsPerBatch - 1) findings else findings) in
       map annotation_of keep @
       (if overflow > 0 then [\<lparr>anPath = [], anStartLine = 0, anEndLine = 0, anMessage = overflowMessage overflow, anTitle = ''dossier''\<rparr>]
        else []))"

definition render_completed :: "DecisionEnvelope \<Rightarrow> string \<Rightarrow> bool \<Rightarrow> CheckPayload option" where
  "render_completed d detailsBase cached = (case ConclusionForVerb (deVerb d) of None \<Rightarrow> None
     | Some conclusion \<Rightarrow> (let detailsURL = detailsURLFor detailsBase (deCandidateID d) in
         case decisionSummary d detailsURL cached of None \<Rightarrow> None
         | Some summary \<Rightarrow> Some \<lparr>cpName = CheckName, cpHeadSHA = deHeadSHA d, cpStatus = ''completed'', cpConclusion = conclusion,
             cpDetailsURL = detailsURL, cpExternalID = deCandidateID d, cpSummary = summary,
             cpAnnotations = (if conclusion = ''failure'' then failureAnnotations (deAnnotations d) else []),
             cpCompletedAt = Some (deRenderedAt d)\<rparr>))"

definition RenderDecision :: "DecisionEnvelope \<Rightarrow> string \<Rightarrow> CheckPayload option" where
  "RenderDecision d detailsBase = render_completed d detailsBase False"

definition RenderCached :: "DecisionEnvelope \<Rightarrow> string \<Rightarrow> CheckPayload option" where
  "RenderCached d detailsBase = render_completed d detailsBase True"

definition RenderLifecycle :: "LifecycleEnvelope \<Rightarrow> string \<Rightarrow> CheckPayload option" where
  "RenderLifecycle e detailsBase = (case GitHubPhase (lePhase e) of None \<Rightarrow> None
     | Some phase \<Rightarrow> (let detailsURL = detailsURLFor detailsBase (leCandidateID e) in
         Some \<lparr>cpName = CheckName, cpHeadSHA = leHeadSHA e, cpStatus = GitHubStatus phase, cpConclusion = [], cpDetailsURL = detailsURL,
           cpExternalID = leCandidateID e, cpSummary = lifecycleSummary e detailsURL phase, cpAnnotations = [], cpCompletedAt = None\<rparr>))"

definition RenderStalled :: "string \<Rightarrow> string \<Rightarrow> string \<Rightarrow> gotime \<Rightarrow> CheckPayload" where
  "RenderStalled candidateID headSHA detailsBase now = (let detailsURL = detailsURLFor detailsBase candidateID in
     \<lparr>cpName = CheckName, cpHeadSHA = headSHA, cpStatus = ''completed'', cpConclusion = ''neutral'', cpDetailsURL = detailsURL,
      cpExternalID = candidateID, cpSummary = stalledSummary candidateID detailsURL now, cpAnnotations = [], cpCompletedAt = Some now\<rparr>)"

definition RenderRerunDeclined :: "string \<Rightarrow> string \<Rightarrow> string \<Rightarrow> gotime \<Rightarrow> bool \<Rightarrow> CheckPayload" where
  "RenderRerunDeclined candidateID headSHA detailsBase now exhausted = (let detailsURL = detailsURLFor detailsBase candidateID in
     \<lparr>cpName = CheckName, cpHeadSHA = headSHA, cpStatus = ''completed'', cpConclusion = ''neutral'', cpDetailsURL = detailsURL,
      cpExternalID = candidateID, cpSummary = rerunDeclinedSummary candidateID detailsURL now exhausted, cpAnnotations = [],
      cpCompletedAt = Some now\<rparr>)"

subsection \<open>Repositories (checks/publisher.go)\<close>

text \<open>\<^verbatim>\<open>SplitRepo\<close>: the loop counts the slashes and cuts at the first one.\<close>

fun split_repo_loop :: "string \<Rightarrow> nat \<Rightarrow> string \<Rightarrow> string \<times> string \<times> nat \<Rightarrow> string \<times> string \<times> nat" where
  "split_repo_loop repo i [] acc = acc"
| "split_repo_loop repo i (c # cs) (owner, name, slash) =
    (if c = CHR ''/'' then
       (if slash + 1 = 1 then split_repo_loop repo (i + 1) cs (take i repo, drop (i + 1) repo, slash + 1)
        else split_repo_loop repo (i + 1) cs (owner, name, slash + 1))
     else split_repo_loop repo (i + 1) cs (owner, name, slash))"

definition SplitRepo :: "string \<Rightarrow> (string \<times> string) option" where
  "SplitRepo repo = (case split_repo_loop repo 0 repo ([], [], 0) of (owner, name, slash) \<Rightarrow>
     if owner = [] \<or> name = [] \<or> slash \<noteq> 1 then None else Some (owner, name))"


subsection \<open>Envelopes\<close>

lemmas verb_defs = VerbEligibleForMergeTrain_def VerbRejected_def VerbDeferred_def

lemmas phase_defs = PhaseQueued_def PhaseInProgress_def PhaseCompleted_def

lemma KindFor_iff: "KindFor raw = Some k \<longleftrightarrow> raw = kind_string k \<or> raw = [] \<and> k = KindDecision"
  by (cases k) (auto simp: KindFor_def)

lemma first_invalid_None [simp]: "first_invalid ok i xs = None \<longleftrightarrow> list_all ok xs"
  by (induction ok i xs rule: first_invalid.induct) auto

lemma validate_verb: "DecisionEnvelope_Validate d = None \<Longrightarrow> deVerb d \<in> {VerbEligibleForMergeTrain, VerbRejected, VerbDeferred}"
  by (auto simp: DecisionEnvelope_Validate_def split: if_splits option.splits)

lemma validate_counts:
  assumes "EvidenceCounts_validate e = None"
    and "evDeferred e < 2 ^ 62" and "evFailed e < 2 ^ 62"
  shows "0 \<le> evAccepted e \<and> evAccepted e \<le> evRequired e \<and> evDeferred e + evFailed e \<le> evRequired e"
proof -
  have pos: "0 \<le> evDeferred e" "0 \<le> evFailed e"
    using assms(1) by (auto simp: EvidenceCounts_validate_def split: if_splits)
  then have "i64 (evDeferred e + evFailed e) = evDeferred e + evFailed e"
    using assms(2,3) by (intro i64_id) (simp add: i64_ok_def)
  then show ?thesis using assms(1) by (auto simp: EvidenceCounts_validate_def split: if_splits)
qed

text \<open>The sum of the two counts is a 64-bit sum: counts whose sum wraps pass the consistency check.\<close>

lemma validate_counts_wraps:
  "EvidenceCounts_validate \<lparr>evRequired = 0, evAccepted = 0, evDeferred = 2 ^ 62, evFailed = 2 ^ 62\<rparr> = None"
  by (simp add: EvidenceCounts_validate_def i64_alt)

subsection \<open>Repositories\<close>

lemma split_repo_loop_found:
  "0 < k \<Longrightarrow> split_repo_loop repo i cs (owner, name, k) = (owner, name, k + count_list cs (CHR ''/''))"
  by (induction cs arbitrary: i k) auto

lemma split_repo_loop_first:
  "length pre = i \<Longrightarrow> split_repo_loop (pre @ cs) i cs ([], [], 0) =
     (if CHR ''/'' \<in> set cs
      then (pre @ takeWhile (\<lambda>c. c \<noteq> CHR ''/'') cs, tl (dropWhile (\<lambda>c. c \<noteq> CHR ''/'') cs), count_list cs (CHR ''/''))
      else ([], [], 0))"
proof (induction cs arbitrary: pre i)
  case (Cons c cs)
  show ?case
  proof (cases "c = CHR ''/''")
    case True
    then show ?thesis using Cons.prems by (simp add: split_repo_loop_found)
  next
    case False
    then show ?thesis using Cons.IH [of "pre @ [c]" "i + 1"] Cons.prems by auto
  qed
qed simp

lemma count_list_0 [simp]: "count_list xs x = 0 \<longleftrightarrow> x \<notin> set xs"
  by (rule count_list_0_iff)

lemma SplitRepo_iff:
  "SplitRepo repo = Some (owner, name) \<longleftrightarrow>
     repo = owner @ CHR ''/'' # name \<and> owner \<noteq> [] \<and> name \<noteq> [] \<and> CHR ''/'' \<notin> set owner \<and> CHR ''/'' \<notin> set name"
proof
  assume s: "SplitRepo repo = Some (owner, name)"
  let ?P = "\<lambda>c. c \<noteq> CHR ''/''"
  have at1: "CHR ''/'' \<in> set repo" "owner = takeWhile ?P repo" "name = tl (dropWhile ?P repo)" "count_list repo (CHR ''/'') = 1" "owner \<noteq> []" "name \<noteq> []"
    using s split_repo_loop_first [of "[]" 0 repo] by (auto simp: SplitRepo_def split: if_splits)
  obtain ys zs where repo: "repo = ys @ CHR ''/'' # zs" "CHR ''/'' \<notin> set ys" using at1(1) split_list_first by metis
  then have eq: "owner = ys" "name = zs" using at1(2,3) by (simp_all add: takeWhile_append dropWhile_append)
  have "CHR ''/'' \<notin> set zs" using at1(4) repo by simp
  then show "repo = owner @ CHR ''/'' # name \<and> owner \<noteq> [] \<and> name \<noteq> [] \<and> CHR ''/'' \<notin> set owner \<and> CHR ''/'' \<notin> set name"
    using repo eq at1(5,6) by simp
next
  assume r: "repo = owner @ CHR ''/'' # name \<and> owner \<noteq> [] \<and> name \<noteq> [] \<and> CHR ''/'' \<notin> set owner \<and> CHR ''/'' \<notin> set name"
  then have "takeWhile (\<lambda>c. c \<noteq> CHR ''/'') repo = owner" "dropWhile (\<lambda>c. c \<noteq> CHR ''/'') repo = CHR ''/'' # name"
    by (simp_all add: takeWhile_append dropWhile_append)
  then show "SplitRepo repo = Some (owner, name)"
    using r split_repo_loop_first [of "[]" 0 repo] by (simp add: SplitRepo_def)
qed

text \<open>The boundary check counts slashes only: a repository without an owner passes it and then fails in
  \<^verbatim>\<open>SplitRepo\<close>.\<close>

lemma ownerless_repo_validates:
  "validateRepoHead ''/name'' (replicate 40 (CHR ''a'')) = None \<and> SplitRepo ''/name'' = None"
  by code_simp

subsection \<open>Payloads\<close>

text \<open>What the Checks API accepts: a conclusion and a completion time exactly on completed runs, a conclusion it knows, at
  most 50 annotations and only under a failure.\<close>

definition payload_ok :: "CheckPayload \<Rightarrow> bool" where
  "payload_ok p \<longleftrightarrow> cpName p = CheckName \<and> cpStatus p \<in> {''queued'', ''in_progress'', ''completed''} \<and>
     (cpStatus p = ''completed'' \<longleftrightarrow> cpConclusion p \<in> {''success'', ''failure'', ''neutral''}) \<and>
     (cpStatus p \<noteq> ''completed'' \<longleftrightarrow> cpConclusion p = []) \<and>
     (cpStatus p = ''completed'' \<longleftrightarrow> cpCompletedAt p \<noteq> None) \<and>
     length (cpAnnotations p) \<le> MaxAnnotationsPerBatch \<and> (cpAnnotations p \<noteq> [] \<longrightarrow> cpConclusion p = ''failure'')"

lemma failureAnnotations_length: "length (failureAnnotations fs) \<le> MaxAnnotationsPerBatch"
  by (auto simp: failureAnnotations_def MaxAnnotationsPerBatch_def Let_def)

lemma render_completed_ok: "render_completed d base cached = Some p \<Longrightarrow> payload_ok p \<and> cpExternalID p = deCandidateID d"
  by (auto simp: render_completed_def ConclusionForVerb_def payload_ok_def Let_def failureAnnotations_length
      split: if_splits option.splits)

lemma RenderLifecycle_ok: "RenderLifecycle e base = Some p \<Longrightarrow> payload_ok p \<and> cpExternalID p = leCandidateID e"
  by (auto simp: RenderLifecycle_def GitHubPhase_def GitHubStatus_def phase_defs payload_ok_def Let_def split: if_splits option.splits)

lemma RenderStalled_ok: "payload_ok (RenderStalled cand sha base now)"
  by (simp add: RenderStalled_def payload_ok_def Let_def)

lemma RenderRerunDeclined_ok: "payload_ok (RenderRerunDeclined cand sha base now exhausted)"
  by (simp add: RenderRerunDeclined_def payload_ok_def Let_def)


definition hidden_findings :: "FindingAnnotation list \<Rightarrow> nat" where
  "hidden_findings fs = (if length fs \<le> 50 then 0 else length fs - 49)"

lemma failureAnnotations_exact:
  "failureAnnotations fs = map annotation_of (take (length fs - hidden_findings fs) fs) @
     (if hidden_findings fs = 0 then [] else
       [\<lparr>anPath = [], anStartLine = 0, anEndLine = 0, anMessage = itoa (int (hidden_findings fs)) @ '' more failing findings in the dossier'', anTitle = ''dossier''\<rparr>])"
  by (auto simp: failureAnnotations_def hidden_findings_def MaxAnnotationsPerBatch_def overflowMessage_def Let_def)

lemma render_completed_shape:
  assumes "deVerb d \<in> {VerbEligibleForMergeTrain, VerbRejected, VerbDeferred}"
  shows "\<exists>p. render_completed d base cached = Some p \<and> cpStatus p = ''completed'' \<and> cpHeadSHA p = deHeadSHA d
    \<and> cpConclusion p = (if deVerb d = VerbEligibleForMergeTrain then ''success'' else if deVerb d = VerbRejected then ''failure'' else ''neutral'')
    \<and> cpAnnotations p = (if deVerb d = VerbRejected then failureAnnotations (deAnnotations d) else [])"
proof -
  have summary: "\<exists>t. decisionSummary d url cached = Some t" for url
    using assms by (cases "deEvidence d") (auto simp: decisionSummary_def headlineForVerb_def)
  show ?thesis
    using assms summary [of "detailsURLFor base (deCandidateID d)"]
    by (elim insertE emptyE exE) (simp_all add: render_completed_def ConclusionForVerb_def verb_defs Let_def)
qed

text \<open>A validated decision always renders, a success is shown exactly for an eligible candidate and a failure exactly for
  a rejected one, and of the findings of a rejection none is lost: each is shown, in order, or counted in the last
  annotation.\<close>

theorem validated_decision_renders_verdict:
  assumes "DecisionEnvelope_Validate d = None"
  shows "\<exists>p. RenderDecision d base = Some p \<and> cpStatus p = ''completed'' \<and> cpHeadSHA p = deHeadSHA d
    \<and> (cpConclusion p = ''success'' \<longleftrightarrow> deVerb d = VerbEligibleForMergeTrain)
    \<and> (cpConclusion p = ''failure'' \<longleftrightarrow> deVerb d = VerbRejected)
    \<and> cpAnnotations p = (if deVerb d = VerbRejected then map annotation_of (take (length (deAnnotations d) - hidden_findings (deAnnotations d)) (deAnnotations d)) @
       (if hidden_findings (deAnnotations d) = 0 then [] else
         [\<lparr>anPath = [], anStartLine = 0, anEndLine = 0,
           anMessage = itoa (int (hidden_findings (deAnnotations d))) @ '' more failing findings in the dossier'', anTitle = ''dossier''\<rparr>]) else [])"
  using render_completed_shape [OF validate_verb [OF assms], of base False]
  by (auto simp: RenderDecision_def verb_defs failureAnnotations_exact)

definition sample_decision :: DecisionEnvelope where
  "sample_decision = \<lparr>deKind = [], deDecisionID = ''dec_1'', deCandidateID = ''cand_1'', deRepo = ''acme/app'',
     deHeadSHA = replicate 40 (CHR ''a''), deVerb = VerbRejected, deConfidence = 7 / 8, dePolicyID = ''base'', dePolicyVersion = 3,
     deSummary = ''two kinds failed'', deRenderedAt = 1800000000000000000, deEvidence = None,
     deAnnotations = [\<lparr>faPath = ''a.go'', faStartLine = 3, faMessage = ''unit failed'', faKind = ''unit''\<rparr>], dePRNumber = 7, deReport = None\<rparr>"

theorem validated_decision_renders_verdict_witness:
  "\<exists>p. RenderDecision sample_decision [] = Some p \<and> cpConclusion p = ''failure'' \<and> length (cpAnnotations p) = 1"
proof -
  have "DecisionEnvelope_Validate sample_decision = None" by code_simp
  from validated_decision_renders_verdict [OF this, of "[]"]
  show ?thesis by (auto simp: sample_decision_def hidden_findings_def)
qed

lemma sample_decision_golden:
  "map_option cpSummary (RenderDecision sample_decision []) = Some ''two kinds failed (verb=rejected confidence=0.88 policy=base v3)''"
  by code_simp

lemma rfc3339_golden: "rfc3339 1800000000000000000 = ''2027-01-15T08:00:00Z'' \<and> rfc3339 (-1) = ''1969-12-31T23:59:59Z''"
  by code_simp

end
