(* ===== verification/Pending.thy ===== *)
theory Pending
  imports Ratelimit Checks
begin

text \<open>
  The outbox of the connector: check writes that found the budget empty (internal/queue, internal/store/pg_queue.go) and the
  drainer that replays them. The drainer calls the outbox through its interface, so the operations are arguments of its
  definitions; the locale \<open>pending_store\<close> states what it relies on, and the in-memory and the Postgres
  outbox are the two providers. \<open>up\<close> tells whether the database answers a call; ids drawn from the random source and
  clock readings are arguments.
\<close>

subsection \<open>Pending writes (queue/pending.go)\<close>

datatype Op = OpCreateCheck | OpUpdateCheck

record PendingWrite =
  pwID :: string
  pwKey :: string
  pwInstallationID :: int
  pwRepo :: string
  pwOp :: Op
  pwCheckRunID :: int
  pwPayload :: CheckPayload
  pwCreatedAt :: gotime
  pwNextAttemptAt :: gotime
  pwAttempts :: int

definition stamp_write :: "string \<Rightarrow> gotime \<Rightarrow> PendingWrite \<Rightarrow> PendingWrite" where
  "stamp_write ident now w =
    (let created = (if pwCreatedAt w = zero_time then now else pwCreatedAt w) in
     w\<lparr>pwID := (if pwID w = [] then ident else pwID w), pwCreatedAt := created,
       pwNextAttemptAt := (if pwNextAttemptAt w = zero_time then created else pwNextAttemptAt w)\<rparr>)"

record MemQueue =
  mqWrites :: "string \<rightharpoonup> PendingWrite"
  mqOrder :: "string list"
  mqSeq :: int

definition NewMemQueue :: MemQueue where
  "NewMemQueue = \<lparr>mqWrites = Map.empty, mqOrder = [], mqSeq = 0\<rparr>"

text \<open>\<^verbatim>\<open>m.writes[id]\<close> for the ids of \<^verbatim>\<open>order\<close>; an absent id would read as
  the zero write and is skipped here, which \<open>mem_queue_ok\<close> shows never to happen.\<close>

definition mem_listed :: "MemQueue \<Rightarrow> PendingWrite list" where
  "mem_listed m = List.map_filter (mqWrites m) (mqOrder m)"

definition byKeyLocked :: "string \<Rightarrow> MemQueue \<Rightarrow> PendingWrite option" where
  "byKeyLocked key m = find (\<lambda>w. pwKey w = key) (mem_listed m)"

definition Mem_Enqueue :: "bool \<Rightarrow> string \<Rightarrow> gotime \<Rightarrow> PendingWrite \<Rightarrow> MemQueue \<Rightarrow> MemQueue option" where
  "Mem_Enqueue up fresh now w m = (case byKeyLocked (pwKey w) m of Some _ \<Rightarrow> Some m
     | None \<Rightarrow>
       (let seq = mqSeq m + 1; w' = stamp_write (''pw_'' @ compact_stamp now @ ''_'' @ itoa seq) now w in
        Some \<lparr>mqWrites = (mqWrites m)(pwID w' \<mapsto> w'), mqOrder = mqOrder m @ [pwID w'], mqSeq = seq\<rparr>))"

definition Mem_Due :: "bool \<Rightarrow> gotime \<Rightarrow> nat \<Rightarrow> MemQueue \<Rightarrow> PendingWrite list option" where
  "Mem_Due up now limit m = Some (take limit (filter (\<lambda>w. pwNextAttemptAt w \<le> now) (mem_listed m)))"

definition Mem_MarkDelivered :: "bool \<Rightarrow> string \<Rightarrow> gotime \<Rightarrow> MemQueue \<Rightarrow> MemQueue option" where
  "Mem_MarkDelivered up ident now m = Some (m\<lparr>mqWrites := (mqWrites m)(ident := None), mqOrder := remove1 ident (mqOrder m)\<rparr>)"

definition Mem_Reschedule :: "bool \<Rightarrow> string \<Rightarrow> gotime \<Rightarrow> int \<Rightarrow> MemQueue \<Rightarrow> MemQueue option" where
  "Mem_Reschedule up ident next_at attempts m = Some (case mqWrites m ident of None \<Rightarrow> m
     | Some w \<Rightarrow> m\<lparr>mqWrites := (mqWrites m)(ident \<mapsto> w\<lparr>pwNextAttemptAt := next_at, pwAttempts := attempts\<rparr>)\<rparr>)"

definition Mem_Depth :: "MemQueue \<Rightarrow> nat" where
  "Mem_Depth m = card (dom (mqWrites m))"

subsection \<open>The Postgres outbox (store/pg_queue.go)\<close>

text \<open>A row is a write with its delivery time. The primary key is the id, and the partial unique index covers the keys of
  the undelivered rows. A second row with the same id is an error of the insert.\<close>

type_synonym PGQueue = "(PendingWrite \<times> gotime option) list"

definition PG_Enqueue :: "bool \<Rightarrow> string \<Rightarrow> gotime \<Rightarrow> PendingWrite \<Rightarrow> PGQueue \<Rightarrow> PGQueue option" where
  "PG_Enqueue up fresh now w rows = (let w' = stamp_write fresh now w in
     if \<not> up then None
     else if list_ex (\<lambda>(r, delivered). delivered = None \<and> pwKey r = pwKey w') rows then Some rows
     else if list_ex (\<lambda>(r, _). pwID r = pwID w') rows then None
     else Some (rows @ [(w', None)]))"

definition due_order :: "PendingWrite \<Rightarrow> PendingWrite \<Rightarrow> bool" where
  "due_order a b \<longleftrightarrow> pwCreatedAt a < pwCreatedAt b \<or> pwCreatedAt a = pwCreatedAt b \<and> pwID a < pwID b"

definition PG_Due :: "bool \<Rightarrow> gotime \<Rightarrow> nat \<Rightarrow> PGQueue \<Rightarrow> PendingWrite list option" where
  "PG_Due up now limit rows = (if \<not> up then None
     else Some (take limit (sort_by due_order
       (map fst (filter (\<lambda>(w, delivered). delivered = None \<and> pwNextAttemptAt w \<le> now) rows)))))"

definition PG_MarkDelivered :: "bool \<Rightarrow> string \<Rightarrow> gotime \<Rightarrow> PGQueue \<Rightarrow> PGQueue option" where
  "PG_MarkDelivered up ident now rows = (if \<not> up then None
     else Some (map (\<lambda>(w, delivered). if pwID w = ident \<and> delivered = None then (w, Some now) else (w, delivered)) rows))"

definition PG_Reschedule :: "bool \<Rightarrow> string \<Rightarrow> gotime \<Rightarrow> int \<Rightarrow> PGQueue \<Rightarrow> PGQueue option" where
  "PG_Reschedule up ident next_at attempts rows = (if \<not> up then None
     else Some (map (\<lambda>(w, delivered). if pwID w = ident then (w\<lparr>pwNextAttemptAt := next_at, pwAttempts := attempts\<rparr>, delivered) else (w, delivered)) rows))"

subsection \<open>The drainer (queue/drainer.go)\<close>

definition drain_backoffBase :: duration where
  "drain_backoffBase = 2 * gosecond"

definition backoffCap :: duration where
  "backoffCap = 900 * gosecond"

definition backoffForAttempt :: "nat \<Rightarrow> duration" where
  "backoffForAttempt attempt = (let backoff = i64 (drain_backoffBase * 2 ^ attempt) in
     if backoff > backoffCap \<or> backoff \<le> 0 then backoffCap else backoff)"

text \<open>What one pass over a write meets: the clock when the token is asked for and after the write, the cancellation of the
  context, the jitter, and whether the database answers the final update.\<close>

record DrainEnv =
  dvAcquireAt :: gotime
  dvDoneAt :: gotime
  dvCancelled :: "nat \<Rightarrow> bool"
  dvDraw :: "nat \<Rightarrow> int \<Rightarrow> int"
  dvUp :: bool

definition deliverOne :: "(bool \<Rightarrow> string \<Rightarrow> gotime \<Rightarrow> 'q \<Rightarrow> 'q option) \<Rightarrow> (bool \<Rightarrow> string \<Rightarrow> gotime \<Rightarrow> int \<Rightarrow> 'q \<Rightarrow> 'q option) \<Rightarrow>
    (PendingWrite \<Rightarrow> 's \<Rightarrow> GhErr option \<times> 's) \<Rightarrow> DrainEnv \<Rightarrow> PendingWrite \<Rightarrow> 'q \<times> Budget \<times> 's \<Rightarrow> GateErr option \<times> 'q \<times> Budget \<times> 's" where
  "deliverOne mark resch deliver ev w st = (case st of (q, g, s) \<Rightarrow>
     (case Gate_Do (dvAcquireAt ev) (dvCancelled ev) (dvDraw ev) (pwInstallationID w) (deliver w) g s of (err, _, g1, s1) \<Rightarrow>
       (case err of
          None \<Rightarrow> (err, case mark (dvUp ev) (pwID w) (dvDoneAt ev) q of Some q1 \<Rightarrow> q1 | None \<Rightarrow> q, g1, s1)
        | Some GateBudgetExhausted \<Rightarrow>
            (let (wait0, g2) = Budget_RetryIn (dvDoneAt ev) (pwInstallationID w) g1;
                 wait = (if wait0 \<le> 0 then 60 * gosecond else wait0) in
             (err, case resch (dvUp ev) (pwID w) (dvDoneAt ev + wait) (pwAttempts w) q of Some q1 \<Rightarrow> q1 | None \<Rightarrow> q, g2, s1))
        | Some _ \<Rightarrow>
            (let attempts = pwAttempts w + 1; next_at = dvDoneAt ev + backoffForAttempt (nat attempts) in
             (err, case resch (dvUp ev) (pwID w) next_at attempts q of Some q1 \<Rightarrow> q1 | None \<Rightarrow> q, g1, s1)))))"

fun deliver_due :: "(bool \<Rightarrow> string \<Rightarrow> gotime \<Rightarrow> 'q \<Rightarrow> 'q option) \<Rightarrow> (bool \<Rightarrow> string \<Rightarrow> gotime \<Rightarrow> int \<Rightarrow> 'q \<Rightarrow> 'q option) \<Rightarrow>
    (PendingWrite \<Rightarrow> 's \<Rightarrow> GhErr option \<times> 's) \<Rightarrow> (nat \<Rightarrow> DrainEnv) \<Rightarrow> nat \<Rightarrow> PendingWrite list \<Rightarrow> 'q \<times> Budget \<times> 's \<Rightarrow>
    (PendingWrite \<times> GateErr option) list \<times> 'q \<times> Budget \<times> 's" where
  "deliver_due mark resch deliver ev i [] st = ([], st)"
| "deliver_due mark resch deliver ev i (w # ws) st =
    (let (err, st1) = deliverOne mark resch deliver (ev i) w st;
         (outs, st2) = deliver_due mark resch deliver ev (i + 1) ws st1 in
     ((w, err) # outs, st2))"

definition drain_batch :: nat where
  "drain_batch = 25"

definition drain_tick :: "(bool \<Rightarrow> gotime \<Rightarrow> nat \<Rightarrow> 'q \<Rightarrow> PendingWrite list option) \<Rightarrow> (bool \<Rightarrow> string \<Rightarrow> gotime \<Rightarrow> 'q \<Rightarrow> 'q option) \<Rightarrow>
    (bool \<Rightarrow> string \<Rightarrow> gotime \<Rightarrow> int \<Rightarrow> 'q \<Rightarrow> 'q option) \<Rightarrow> (PendingWrite \<Rightarrow> 's \<Rightarrow> GhErr option \<times> 's) \<Rightarrow>
    bool \<Rightarrow> gotime \<Rightarrow> (nat \<Rightarrow> DrainEnv) \<Rightarrow> 'q \<times> Budget \<times> 's \<Rightarrow> (PendingWrite \<times> GateErr option) list \<times> 'q \<times> Budget \<times> 's" where
  "drain_tick due mark resch deliver up now ev st = (case due up now drain_batch (fst st) of None \<Rightarrow> ([], st)
     | Some ws \<Rightarrow> deliver_due mark resch deliver ev 0 ws st)"


subsection \<open>What the drainer relies on\<close>

text \<open>The view of an outbox is the list of its undelivered writes; \<open>usable\<close> says that a drawn id is not taken.\<close>

locale pending_store =
  fixes view :: "'q \<Rightarrow> PendingWrite list"
    and ok :: "'q \<Rightarrow> bool"
    and usable :: "string \<Rightarrow> 'q \<Rightarrow> bool"
    and enq :: "bool \<Rightarrow> string \<Rightarrow> gotime \<Rightarrow> PendingWrite \<Rightarrow> 'q \<Rightarrow> 'q option"
    and due :: "bool \<Rightarrow> gotime \<Rightarrow> nat \<Rightarrow> 'q \<Rightarrow> PendingWrite list option"
    and mark :: "bool \<Rightarrow> string \<Rightarrow> gotime \<Rightarrow> 'q \<Rightarrow> 'q option"
    and resch :: "bool \<Rightarrow> string \<Rightarrow> gotime \<Rightarrow> int \<Rightarrow> 'q \<Rightarrow> 'q option"
  assumes ok_ids: "ok q \<Longrightarrow> distinct (map pwID (view q))"
    and ok_keys: "ok q \<Longrightarrow> distinct (map pwKey (view q))"
    and enq_ok: "ok q \<Longrightarrow> pwID w = [] \<Longrightarrow> usable fresh q \<Longrightarrow> enq up fresh now w q = Some q' \<Longrightarrow> ok q'"
    and enq_known: "ok q \<Longrightarrow> pwKey w \<in> pwKey ` set (view q) \<Longrightarrow> enq up fresh now w q = Some q' \<Longrightarrow> q' = q"
    and enq_new: "ok q \<Longrightarrow> pwID w = [] \<Longrightarrow> usable fresh q \<Longrightarrow> pwKey w \<notin> pwKey ` set (view q) \<Longrightarrow> enq up fresh now w q = Some q' \<Longrightarrow>
      \<exists>ident. view q' = view q @ [stamp_write ident now w]"
    and enq_up: "ok q \<Longrightarrow> pwID w = [] \<Longrightarrow> usable fresh q \<Longrightarrow> enq True fresh now w q \<noteq> None"
    and due_some: "ok q \<Longrightarrow> due up now n q = Some ws \<Longrightarrow>
      \<exists>xs. mset xs = mset (filter (\<lambda>w. pwNextAttemptAt w \<le> now) (view q)) \<and> ws = take n xs"
    and due_up: "due True now n q \<noteq> None"
    and mark_some: "ok q \<Longrightarrow> mark up ident now q = Some q' \<Longrightarrow> ok q' \<and> view q' = filter (\<lambda>w. pwID w \<noteq> ident) (view q)"
    and mark_up: "mark True ident now q \<noteq> None"
    and resch_some: "ok q \<Longrightarrow> resch up ident next_at attempts q = Some q' \<Longrightarrow> ok q' \<and>
      view q' = map (\<lambda>w. if pwID w = ident then w\<lparr>pwNextAttemptAt := next_at, pwAttempts := attempts\<rparr> else w) (view q)"

text \<open>A write without its schedule, which is all a retry changes.\<close>

definition unscheduled :: "PendingWrite \<Rightarrow> PendingWrite" where
  "unscheduled w = w\<lparr>pwNextAttemptAt := 0, pwAttempts := 0\<rparr>"

lemma unscheduled_id: "unscheduled a = unscheduled b \<Longrightarrow> pwID a = pwID b"
  by (metis PendingWrite.ext_inject PendingWrite.surjective PendingWrite.update_convs(9) PendingWrite.update_convs(10) unscheduled_def)

lemma unscheduled_upd [simp]: "unscheduled (w\<lparr>pwNextAttemptAt := a, pwAttempts := b\<rparr>) = unscheduled w"
  by (simp add: unscheduled_def)


lemma gate_success:
  assumes "Gate_Do now cancelled draw inst fn g s = (None, waits, g', s')"
  shows "\<exists>s1. fst (fn s1) = None"
proof -
  obtain e1 ws1 s1 where l: "gate_loop cancelled draw fn 0 None s = (e1, ws1, s1)" by (metis prod_cases3)
  then show ?thesis
    using gate_loop_calls [OF l] assms
    by (auto simp: Gate_Do_def case_prod_beta gate_limit_def split: if_splits)
qed

context pending_store
begin

lemma deliverOne_effect:
  assumes "ok q" and "deliverOne mark resch deliver ev w (q, g, s) = (err, q', g', s')"
  shows "ok q' \<and> (map unscheduled (view q') = map unscheduled (view q) \<or> err = None \<and> view q' = filter (\<lambda>x. pwID x \<noteq> pwID w) (view q))
    \<and> (dvUp ev \<and> err = None \<longrightarrow> view q' = filter (\<lambda>x. pwID x \<noteq> pwID w) (view q))"
proof -
  obtain e ws g1 s1 where gd: "Gate_Do (dvAcquireAt ev) (dvCancelled ev) (dvDraw ev) (pwInstallationID w) (deliver w) g s = (e, ws, g1, s1)"
    by (metis prod_cases4)
  have keep: "ok (case resch up ident t a q of Some q1 \<Rightarrow> q1 | None \<Rightarrow> q) \<and>
      map unscheduled (view (case resch up ident t a q of Some q1 \<Rightarrow> q1 | None \<Rightarrow> q)) = map unscheduled (view q)" for up ident t a
    using resch_some [OF assms(1)] assms(1) by (cases "resch up ident t a q") auto
  show ?thesis
  proof (cases e)
    case None
    then show ?thesis
      using assms gd mark_some [OF assms(1)] mark_up [of "pwID w" "dvDoneAt ev" q]
      by (cases "mark (dvUp ev) (pwID w) (dvDoneAt ev) q") (auto simp: deliverOne_def)
  next
    case (Some x)
    then show ?thesis
      using assms(2) gd keep by (cases x) (auto simp: deliverOne_def Let_def split: prod.splits)
  qed
qed

lemma deliverOne_success:
  assumes "deliverOne mark resch deliver ev w (q, g, s) = (None, q', g', s')"
  shows "\<exists>s1. fst (deliver w s1) = None"
proof -
  obtain e ws g1 s1 where gd: "Gate_Do (dvAcquireAt ev) (dvCancelled ev) (dvDraw ev) (pwInstallationID w) (deliver w) g s = (e, ws, g1, s1)"
    by (metis prod_cases4)
  then have "e = None" using assms by (cases e) (auto simp: deliverOne_def Let_def case_prod_beta split: GateErr.splits)
  with gd show ?thesis by (auto dest: gate_success)
qed

lemma deliver_due_effect:
  assumes "ok q" and "deliver_due mark resch deliver ev i ws (q, g, s) = (outs, q', g', s')"
  shows "ok q' \<and> unscheduled ` set (view q') \<subseteq> unscheduled ` set (view q)
    \<and> (\<forall>x \<in> set (view q). unscheduled x \<in> unscheduled ` set (view q') \<or> (\<exists>w. (w, None) \<in> set outs \<and> pwID w = pwID x))
    \<and> ((\<forall>j. dvUp (ev j)) \<longrightarrow> (\<forall>x \<in> set (view q'). \<forall>w. (w, None) \<in> set outs \<longrightarrow> pwID w \<noteq> pwID x))
    \<and> map fst outs = ws \<and> (\<forall>w. (w, None) \<in> set outs \<longrightarrow> (\<exists>s1. fst (deliver w s1) = None))"
  using assms
proof (induction ws arbitrary: q g s i outs)
  case (Cons w ws)
  obtain err q1 g1 s1 where d1: "deliverOne mark resch deliver (ev i) w (q, g, s) = (err, q1, g1, s1)" by (metis prod_cases4)
  obtain outs2 where d2: "deliver_due mark resch deliver ev (i + 1) ws (q1, g1, s1) = (outs2, q', g', s')" and outs: "outs = (w, err) # outs2"
    using Cons.prems(2) d1 by (auto split: prod.splits)
  note e1 = deliverOne_effect [OF Cons.prems(1) d1]
  note ih = Cons.IH [OF conjunct1 [OF e1] d2]
  note e2 = ih [THEN conjunct1] ih [THEN conjunct2, THEN conjunct1] ih [THEN conjunct2, THEN conjunct2, THEN conjunct1]
    ih [THEN conjunct2, THEN conjunct2, THEN conjunct2, THEN conjunct1]
    ih [THEN conjunct2, THEN conjunct2, THEN conjunct2, THEN conjunct2, THEN conjunct1]
    ih [THEN conjunct2, THEN conjunct2, THEN conjunct2, THEN conjunct2, THEN conjunct2]
  have sub: "unscheduled ` set (view q1) \<subseteq> unscheduled ` set (view q)"
    using e1 by (metis (no_types, lifting) filter_is_subset image_mono image_set order_refl)
  have left: "unscheduled x \<in> unscheduled ` set (view q1) \<or> err = None \<and> pwID w = pwID x" if "x \<in> set (view q)" for x
  proof -
    consider "map unscheduled (view q1) = map unscheduled (view q)" | "err = None" "view q1 = filter (\<lambda>x. pwID x \<noteq> pwID w) (view q)"
      using e1 by blast
    then show ?thesis
    proof cases
      case 1
      then have "unscheduled ` set (view q1) = unscheduled ` set (view q)" by (metis list.set_map)
      then show ?thesis using that by simp
    qed (use that in auto)
  qed
  have gone: "pwID x \<noteq> pwID w" if x: "x \<in> set (view q')" and up: "err = None" "\<forall>j. dvUp (ev j)" for x
  proof -
    obtain y where y: "y \<in> set (view q1)" "unscheduled x = unscheduled y"
      using subsetD [OF e2(2) imageI [OF x]] by (elim imageE)
    have "view q1 = filter (\<lambda>x. pwID x \<noteq> pwID w) (view q)" using e1 [THEN conjunct2, THEN conjunct2] up by simp
    then show ?thesis using y(1) unscheduled_id [OF y(2)] by simp
  qed
  have keeps: "unscheduled x \<in> unscheduled ` set (view q') \<or> (\<exists>w. (w, None) \<in> set outs \<and> pwID w = pwID x)" if x: "x \<in> set (view q)" for x
  proof (cases "err = None \<and> pwID w = pwID x")
    case False
    then obtain y where y: "y \<in> set (view q1)" "unscheduled x = unscheduled y" using left [OF x] by (elim disjE imageE) auto
    then have "unscheduled y \<in> unscheduled ` set (view q') \<or> (\<exists>w. (w, None) \<in> set outs2 \<and> pwID w = pwID y)" using e2(3) by blast
    then show ?thesis using y(2) unscheduled_id [OF y(2)] unfolding outs by auto
  qed (auto simp: outs)
  have succ: "\<exists>s1. fst (deliver v s1) = None" if "(v, None) \<in> set outs" for v
  proof (cases "(v, None) \<in> set outs2")
    case True
    then show ?thesis using e2(6) by blast
  next
    case False
    then show ?thesis using that d1 deliverOne_success [of deliver "ev i" v q g s] unfolding outs by auto
  qed
  have absent: "pwID v \<noteq> pwID x" if "\<forall>j. dvUp (ev j)" "x \<in> set (view q')" "(v, None) \<in> set outs" for x v
    using gone [OF that(2) _ that(1)] e2(4) that unfolding outs by auto
  have "unscheduled ` set (view q') \<subseteq> unscheduled ` set (view q)" by (rule order_trans [OF e2(2) sub])
  moreover have "map fst outs = w # ws" using e2(5) by (simp add: outs)
  ultimately show ?case using e2(1) keeps succ absent by (intro conjI ballI allI impI) simp_all
qed simp

end

subsection \<open>The two outboxes provide it\<close>

definition mem_queue_ok :: "MemQueue \<Rightarrow> bool" where
  "mem_queue_ok m \<longleftrightarrow> distinct (mqOrder m) \<and> set (mqOrder m) = dom (mqWrites m) \<and>
     (\<forall>i w. mqWrites m i = Some w \<longrightarrow> pwID w = i \<and> (\<exists>t k. i = ''pw_'' @ t @ ''_'' @ itoa k \<and> k \<le> mqSeq m)) \<and>
     distinct (map pwKey (mem_listed m))"

lemma map_filter_dom: "set xs \<subseteq> dom f \<Longrightarrow> List.map_filter f xs = map (\<lambda>x. the (f x)) xs"
  by (induction xs) auto

lemma mem_listed_map: "mem_queue_ok m \<Longrightarrow> mem_listed m = map (\<lambda>i. the (mqWrites m i)) (mqOrder m)"
  by (simp add: mem_listed_def map_filter_dom mem_queue_ok_def)

lemma mem_ok_id: "mem_queue_ok m \<Longrightarrow> mqWrites m i = Some w \<Longrightarrow> pwID w = i"
  by (simp add: mem_queue_ok_def)

lemma mem_ok_order: "mem_queue_ok m \<Longrightarrow> i \<in> set (mqOrder m) \<Longrightarrow> \<exists>w. mqWrites m i = Some w \<and> pwID w = i"
  by (auto simp: mem_queue_ok_def)

lemma mem_listed_ids: "mem_queue_ok m \<Longrightarrow> map pwID (mem_listed m) = mqOrder m"
  unfolding mem_listed_map by (force simp: intro!: map_idI dest: mem_ok_order)

lemma mem_new_id:
  assumes "mem_queue_ok m"
  shows "mqWrites m (''pw_'' @ compact_stamp now @ ''_'' @ itoa (mqSeq m + 1)) = None"
proof (rule ccontr)
  assume "mqWrites m (''pw_'' @ compact_stamp now @ ''_'' @ itoa (mqSeq m + 1)) \<noteq> None"
  then obtain t k where "(''pw_'' @ compact_stamp now) @ CHR ''_'' # itoa (mqSeq m + 1) = (''pw_'' @ t) @ CHR ''_'' # itoa k" "k \<le> mqSeq m"
    using assms by (force simp: mem_queue_ok_def)
  moreover have "CHR ''_'' \<notin> set (itoa i)" for i by (rule itoa_free) (simp_all add: is_digit_def)
  ultimately show False by (subst (asm) sep_split_last) auto
qed

lemma mem_enqueue_new:
  assumes ok: "mem_queue_ok m" and "pwID w = []" and new: "pwKey w \<notin> pwKey ` set (mem_listed m)"
    and e: "Mem_Enqueue up fresh now w m = Some m'"
  shows "mem_queue_ok m' \<and> (\<exists>ident. mem_listed m' = mem_listed m @ [stamp_write ident now w])"
proof -
  define ident where "ident = ''pw_'' @ compact_stamp now @ ''_'' @ itoa (mqSeq m + 1)"
  define w' where "w' = stamp_write ident now w"
  have "byKeyLocked (pwKey w) m = None" using new by (auto simp: byKeyLocked_def find_None_iff image_iff)
  moreover have id: "pwID w' = ident" "pwKey w' = pwKey w" using assms(2) by (simp_all add: w'_def stamp_write_def Let_def)
  ultimately have m': "m' = \<lparr>mqWrites = (mqWrites m)(ident \<mapsto> w'), mqOrder = mqOrder m @ [ident], mqSeq = mqSeq m + 1\<rparr>"
    using e unfolding Mem_Enqueue_def Let_def ident_def [symmetric] w'_def [symmetric] by simp
  have form: "\<exists>t k. ident = ''pw_'' @ t @ ''_'' @ itoa k \<and> k \<le> mqSeq m + 1" unfolding ident_def by blast
  have fresh: "ident \<notin> set (mqOrder m)" using mem_new_id [OF ok, of now] ok unfolding ident_def by (auto simp: mem_queue_ok_def domIff)
  have dom: "set (mqOrder m') \<subseteq> dom (mqWrites m')" using ok by (auto simp: m' mem_queue_ok_def)
  have listed: "mem_listed m' = mem_listed m @ [w']"
    unfolding mem_listed_def [of m'] map_filter_dom [OF dom] mem_listed_map [OF ok]
    using fresh by (auto simp: m' intro!: map_cong)
  have old: "\<exists>t k. i = ''pw_'' @ t @ ''_'' @ itoa k \<and> k \<le> mqSeq m + 1" if "mqWrites m i = Some v" for i v
    using ok that unfolding mem_queue_ok_def by (meson add_increasing2 zero_le_one)
  have "\<forall>i v. mqWrites m' i = Some v \<longrightarrow> pwID v = i \<and> (\<exists>t k. i = ''pw_'' @ t @ ''_'' @ itoa k \<and> k \<le> mqSeq m')"
    using form old id mem_ok_id [OF ok] unfolding m' by simp
  moreover have "distinct (mqOrder m')" "set (mqOrder m') = dom (mqWrites m')" using ok fresh by (auto simp: m' mem_queue_ok_def)
  moreover have "distinct (map pwKey (mem_listed m'))" using ok new id unfolding listed mem_queue_ok_def by simp
  ultimately have "mem_queue_ok m'" unfolding mem_queue_ok_def by blast
  then show ?thesis using listed unfolding w'_def by blast
qed

lemma mem_mark:
  assumes ok: "mem_queue_ok m"
  shows "mem_queue_ok (m\<lparr>mqWrites := (mqWrites m)(ident := None), mqOrder := remove1 ident (mqOrder m)\<rparr>) \<and>
    mem_listed (m\<lparr>mqWrites := (mqWrites m)(ident := None), mqOrder := remove1 ident (mqOrder m)\<rparr>) = filter (\<lambda>w. pwID w \<noteq> ident) (mem_listed m)"
    (is "mem_queue_ok ?m \<and> _")
proof -
  have order: "mqOrder ?m = filter (\<lambda>i. i \<noteq> ident) (mqOrder m)"
    using conjunct1 [OF ok [unfolded mem_queue_ok_def]]
    by (auto simp: distinct_remove1_removeAll removeAll_filter_not_eq intro!: filter_cong)
  have "filter (\<lambda>w. pwID w \<noteq> ident) (map (\<lambda>i. the (mqWrites m i)) xs) = map (\<lambda>i. the (mqWrites ?m i)) (filter (\<lambda>i. i \<noteq> ident) xs)"
    if "set xs \<subseteq> set (mqOrder m)" for xs
    using that by (induction xs) (auto dest!: mem_ok_order [OF ok])
  moreover have "mem_listed ?m = map (\<lambda>i. the (mqWrites ?m i)) (mqOrder ?m)"
    using ok unfolding mem_listed_def order by (subst map_filter_dom) (auto simp: mem_queue_ok_def)
  ultimately have listed: "mem_listed ?m = filter (\<lambda>w. pwID w \<noteq> ident) (mem_listed m)"
    unfolding mem_listed_map [OF ok] order by simp
  have "mem_queue_ok ?m"
    using ok unfolding mem_queue_ok_def listed order by (auto simp: distinct_map_filter)
  then show ?thesis using listed by blast
qed

lemma mem_reschedule:
  assumes ok: "mem_queue_ok m" and r: "Mem_Reschedule up ident t a m = Some m'"
  shows "mem_queue_ok m' \<and> mem_listed m' = map (\<lambda>w. if pwID w = ident then w\<lparr>pwNextAttemptAt := t, pwAttempts := a\<rparr> else w) (mem_listed m)"
proof (cases "mqWrites m ident")
  case None
  then have "m' = m" using r by (simp add: Mem_Reschedule_def)
  moreover have "pwID w \<noteq> ident" if "w \<in> set (mem_listed m)" for w
  proof -
    have "pwID w \<in> set (map pwID (mem_listed m))" using that by simp
    then have "pwID w \<in> set (mqOrder m)" unfolding mem_listed_ids [OF ok] .
    then show ?thesis using mem_ok_order [OF ok] None by fastforce
  qed
  ultimately show ?thesis using ok by (auto intro!: map_idI [symmetric])
next
  case (Some w)
  then have m': "m' = m\<lparr>mqWrites := (mqWrites m)(ident \<mapsto> w\<lparr>pwNextAttemptAt := t, pwAttempts := a\<rparr>)\<rparr>"
    using r by (simp add: Mem_Reschedule_def)
  have "mem_listed m' = map (\<lambda>i. the (mqWrites m' i)) (mqOrder m')"
    using ok unfolding mem_listed_def m' by (subst map_filter_dom) (auto simp: mem_queue_ok_def)
  then have listed: "mem_listed m' = map (\<lambda>w. if pwID w = ident then w\<lparr>pwNextAttemptAt := t, pwAttempts := a\<rparr> else w) (mem_listed m)"
    unfolding mem_listed_map [OF ok] m' using Some by (auto dest!: mem_ok_order [OF ok])
  have "distinct (map pwKey (mem_listed m'))"
    using ok unfolding listed mem_queue_ok_def by (simp add: o_def if_distrib cong: if_cong)
  then have "mem_queue_ok m'"
    using ok Some mem_ok_id [OF ok Some] unfolding mem_queue_ok_def m' by auto
  then show ?thesis using listed by blast
qed

definition mem_usable :: "string \<Rightarrow> MemQueue \<Rightarrow> bool" where
  "mem_usable fresh m \<longleftrightarrow> True"

interpretation memq: pending_store mem_listed mem_queue_ok mem_usable Mem_Enqueue Mem_Due Mem_MarkDelivered Mem_Reschedule
proof unfold_locales
  fix m m' :: MemQueue and w up fresh now
  assume ok: "mem_queue_ok m"
  show "distinct (map pwID (mem_listed m))" using mem_listed_ids [OF ok] ok by (simp add: mem_queue_ok_def)
  show "distinct (map pwKey (mem_listed m))" using ok by (simp add: mem_queue_ok_def)
  show known: "m' = m" if "pwKey w \<in> pwKey ` set (mem_listed m)" "Mem_Enqueue up fresh now w m = Some m'"
    using that by (auto simp: Mem_Enqueue_def byKeyLocked_def find_None_iff split: option.splits)
  assume w: "pwID w = []"
  show "\<exists>ident. mem_listed m' = mem_listed m @ [stamp_write ident now w]"
    if "pwKey w \<notin> pwKey ` set (mem_listed m)" "Mem_Enqueue up fresh now w m = Some m'"
    using mem_enqueue_new [OF ok w that] by blast
  show "mem_queue_ok m'" if "Mem_Enqueue up fresh now w m = Some m'"
    using mem_enqueue_new [OF ok w _ that] known that ok by (cases "pwKey w \<in> pwKey ` set (mem_listed m)") auto
  show "Mem_Enqueue True fresh now w m \<noteq> None"
    by (simp add: Mem_Enqueue_def Let_def split: option.split)
next
  fix m m' :: MemQueue and up now n ws ident t a
  assume ok: "mem_queue_ok m"
  show "\<exists>xs. mset xs = mset (filter (\<lambda>w. pwNextAttemptAt w \<le> now) (mem_listed m)) \<and> ws = take n xs" if "Mem_Due up now n m = Some ws"
    using that by (intro exI [of _ "filter (\<lambda>w. pwNextAttemptAt w \<le> now) (mem_listed m)"]) (simp add: Mem_Due_def)
  show "mem_queue_ok m' \<and> mem_listed m' = filter (\<lambda>w. pwID w \<noteq> ident) (mem_listed m)" if "Mem_MarkDelivered up ident now m = Some m'"
    using mem_mark [OF ok, of ident] that by (simp add: Mem_MarkDelivered_def)
  show "mem_queue_ok m' \<and> mem_listed m' = map (\<lambda>w. if pwID w = ident then w\<lparr>pwNextAttemptAt := t, pwAttempts := a\<rparr> else w) (mem_listed m)"
    if "Mem_Reschedule up ident t a m = Some m'"
    using mem_reschedule [OF ok that] .
qed (simp_all add: Mem_Due_def Mem_MarkDelivered_def)

definition pg_undelivered :: "PGQueue \<Rightarrow> PendingWrite list" where
  "pg_undelivered rows = map fst (filter (\<lambda>(w, delivered). delivered = None) rows)"

definition pg_queue_ok :: "PGQueue \<Rightarrow> bool" where
  "pg_queue_ok rows \<longleftrightarrow> distinct (map (\<lambda>r. pwID (fst r)) rows) \<and> distinct (map pwKey (pg_undelivered rows))"

definition pg_usable :: "string \<Rightarrow> PGQueue \<Rightarrow> bool" where
  "pg_usable fresh rows \<longleftrightarrow> fresh \<noteq> [] \<and> fresh \<notin> (\<lambda>r. pwID (fst r)) ` set rows"

lemma pg_mark_view:
  "pg_undelivered (map (\<lambda>(w, delivered). if pwID w = ident \<and> delivered = None then (w, Some now) else (w, delivered)) rows) =
     filter (\<lambda>w. pwID w \<noteq> ident) (pg_undelivered rows)"
  by (induction rows) (auto simp: pg_undelivered_def split: if_splits)

lemma pg_resch_view:
  "pg_undelivered (map (\<lambda>(w, delivered). if pwID w = ident then (w\<lparr>pwNextAttemptAt := t, pwAttempts := a\<rparr>, delivered) else (w, delivered)) rows) =
     map (\<lambda>w. if pwID w = ident then w\<lparr>pwNextAttemptAt := t, pwAttempts := a\<rparr> else w) (pg_undelivered rows)"
  by (induction rows) (auto simp: pg_undelivered_def)

lemma pg_ids_sub: "distinct (map (\<lambda>r. pwID (fst r)) rows) \<Longrightarrow> distinct (map pwID (pg_undelivered rows))"
  by (induction rows) (auto simp: pg_undelivered_def)

lemma pg_due_filter:
  "map fst (filter (\<lambda>(w, delivered). delivered = None \<and> pwNextAttemptAt w \<le> now) rows) = filter (\<lambda>w. pwNextAttemptAt w \<le> now) (pg_undelivered rows)"
  by (induction rows) (auto simp: pg_undelivered_def)

lemma pg_mark:
  assumes "pg_queue_ok rows" and "PG_MarkDelivered up ident now rows = Some rows'"
  shows "pg_queue_ok rows' \<and> pg_undelivered rows' = filter (\<lambda>w. pwID w \<noteq> ident) (pg_undelivered rows)"
proof -
  let ?f = "\<lambda>(w, delivered). if pwID w = ident \<and> delivered = None then (w, Some now) else (w, delivered)"
  have rows': "rows' = map ?f rows" using assms(2) by (simp add: PG_MarkDelivered_def split: if_splits)
  have ids: "map (\<lambda>r. pwID (fst r)) rows' = map (\<lambda>r. pwID (fst r)) rows" unfolding rows' by auto
  have view: "pg_undelivered rows' = filter (\<lambda>w. pwID w \<noteq> ident) (pg_undelivered rows)" unfolding rows' by (rule pg_mark_view)
  show ?thesis using assms(1) unfolding pg_queue_ok_def ids view by (simp add: distinct_map_filter)
qed

lemma pg_resch:
  assumes "pg_queue_ok rows" and "PG_Reschedule up ident t a rows = Some rows'"
  shows "pg_queue_ok rows' \<and> pg_undelivered rows' =
    map (\<lambda>w. if pwID w = ident then w\<lparr>pwNextAttemptAt := t, pwAttempts := a\<rparr> else w) (pg_undelivered rows)"
proof -
  let ?f = "\<lambda>(w, delivered). if pwID w = ident then (w\<lparr>pwNextAttemptAt := t, pwAttempts := a\<rparr>, delivered) else (w, delivered)"
  have rows': "rows' = map ?f rows" using assms(2) by (simp add: PG_Reschedule_def split: if_splits)
  have ids: "map (\<lambda>r. pwID (fst r)) rows' = map (\<lambda>r. pwID (fst r)) rows" unfolding rows' by auto
  have view: "pg_undelivered rows' = map (\<lambda>w. if pwID w = ident then w\<lparr>pwNextAttemptAt := t, pwAttempts := a\<rparr> else w) (pg_undelivered rows)"
    unfolding rows' by (rule pg_resch_view)
  have keys: "map pwKey (map (\<lambda>w. if pwID w = ident then w\<lparr>pwNextAttemptAt := t, pwAttempts := a\<rparr> else w) ws) = map pwKey ws" for ws
    by auto
  show ?thesis using assms(1) unfolding pg_queue_ok_def ids view keys by simp
qed

lemma pg_enqueue:
  assumes ok: "pg_queue_ok rows" and w: "pwID w = []" and fresh: "pg_usable fresh rows"
    and new: "pwKey w \<notin> pwKey ` set (pg_undelivered rows)" and e: "PG_Enqueue up fresh now w rows = Some rows'"
  shows "pg_queue_ok rows' \<and> pg_undelivered rows' = pg_undelivered rows @ [stamp_write fresh now w]"
proof -
  have id: "pwID (stamp_write fresh now w) = fresh" "pwKey (stamp_write fresh now w) = pwKey w" using w by (simp_all add: stamp_write_def Let_def)
  have "\<not> list_ex (\<lambda>(r, delivered). delivered = None \<and> pwKey r = pwKey w) rows"
    using new by (auto simp: list_ex_iff pg_undelivered_def image_iff)
  then have rows': "rows' = rows @ [(stamp_write fresh now w, None)]"
    using e by (simp add: PG_Enqueue_def Let_def id split: if_splits)
  then show ?thesis
    using ok fresh new by (auto simp: pg_queue_ok_def pg_undelivered_def pg_usable_def id)
qed

lemma pg_enqueue_known:
  "pwKey w \<in> pwKey ` set (pg_undelivered rows) \<Longrightarrow> PG_Enqueue up fresh now w rows = Some rows' \<Longrightarrow> rows' = rows"
  by (auto simp: PG_Enqueue_def Let_def list_ex_iff pg_undelivered_def stamp_write_def split: if_splits)

interpretation pgq: pending_store pg_undelivered pg_queue_ok pg_usable PG_Enqueue PG_Due PG_MarkDelivered PG_Reschedule
proof unfold_locales
  fix rows rows' :: PGQueue and w up fresh now
  assume ok: "pg_queue_ok rows"
  show "distinct (map pwID (pg_undelivered rows))" "distinct (map pwKey (pg_undelivered rows))"
    using ok by (simp_all add: pg_queue_ok_def pg_ids_sub)
  show "rows' = rows" if "pwKey w \<in> pwKey ` set (pg_undelivered rows)" "PG_Enqueue up fresh now w rows = Some rows'"
    using pg_enqueue_known that by blast
  assume w: "pwID w = []" and fresh: "pg_usable fresh rows"
  show "\<exists>ident. pg_undelivered rows' = pg_undelivered rows @ [stamp_write ident now w]"
    if "pwKey w \<notin> pwKey ` set (pg_undelivered rows)" "PG_Enqueue up fresh now w rows = Some rows'"
    using pg_enqueue [OF ok w fresh that] by blast
  show "pg_queue_ok rows'" if "PG_Enqueue up fresh now w rows = Some rows'"
    using pg_enqueue [OF ok w fresh _ that] pg_enqueue_known [OF _ that] ok by (cases "pwKey w \<in> pwKey ` set (pg_undelivered rows)") auto
  show "PG_Enqueue True fresh now w rows \<noteq> None"
    using w fresh by (force simp: PG_Enqueue_def Let_def list_ex_iff pg_usable_def stamp_write_def)
next
  fix rows rows' :: PGQueue and up now n ws ident t a
  assume ok: "pg_queue_ok rows"
  show "\<exists>xs. mset xs = mset (filter (\<lambda>w. pwNextAttemptAt w \<le> now) (pg_undelivered rows)) \<and> ws = take n xs" if "PG_Due up now n rows = Some ws"
    using that by (intro exI [of _ "sort_by due_order (filter (\<lambda>w. pwNextAttemptAt w \<le> now) (pg_undelivered rows))"])
      (simp add: PG_Due_def pg_due_filter split: if_splits)
  show "pg_queue_ok rows' \<and> pg_undelivered rows' = filter (\<lambda>w. pwID w \<noteq> ident) (pg_undelivered rows)" if "PG_MarkDelivered up ident now rows = Some rows'"
    by (rule pg_mark [OF ok that])
  show "pg_queue_ok rows' \<and> pg_undelivered rows' = map (\<lambda>w. if pwID w = ident then w\<lparr>pwNextAttemptAt := t, pwAttempts := a\<rparr> else w) (pg_undelivered rows)"
    if "PG_Reschedule up ident t a rows = Some rows'"
    by (rule pg_resch [OF ok that])
qed (simp_all add: PG_Due_def PG_MarkDelivered_def)

subsection \<open>The retry clock\<close>

text \<open>The delay doubles from four seconds and never leaves the range up to a quarter of an hour, also where the 64-bit
  shift wraps.\<close>

lemma i64_multiple: "2 ^ 40 dvd x \<Longrightarrow> 2 ^ 40 dvd i64 x"
  unfolding i64_alt by (intro dvd_diff dvd_mod dvd_add) (auto simp: le_imp_power_dvd)

theorem backoffForAttempt_exact:
  "backoffForAttempt n = (if n \<le> 8 then 2 ^ (n + 1) * gosecond else 900 * gosecond)"
proof (cases "n < 30")
  case True
  have "n \<in> {..<30}" using True by simp
  then have "n \<in> set [0..<30]" by simp
  moreover have "list_all (\<lambda>n. backoffForAttempt n = (if n \<le> 8 then 2 ^ (n + 1) * gosecond else 900 * gosecond)) [0..<30]"
    by code_simp
  ultimately show ?thesis by (simp only: list_all_iff)
next
  case False
  then have "drain_backoffBase * 2 ^ n = 2 ^ 40 * (1953125 * 2 ^ (n - 30))"
    using power_add [of "2 :: int" 30 "n - 30"] by (simp add: drain_backoffBase_def gosecond_def)
  then have "2 ^ 40 dvd i64 (drain_backoffBase * 2 ^ n)" by (intro i64_multiple) simp
  then obtain k where k: "i64 (drain_backoffBase * 2 ^ n) = 2 ^ 40 * k" by (elim dvdE)
  have "2 ^ 40 * k \<le> 0 \<or> backoffCap < 2 ^ 40 * k" by (cases "k \<le> 0") (auto simp: backoffCap_def gosecond_def mult_le_0_iff)
  then show ?thesis using False unfolding backoffForAttempt_def Let_def k by (auto simp: backoffCap_def)
qed


subsection \<open>Draining\<close>

context pending_store
begin

lemma drain_tick_keeps:
  assumes ok: "ok q" and t: "drain_tick due mark resch deliver up now ev (q, g, s) = (outs, q', g', s')"
  shows "ok q' \<and> (\<forall>x \<in> set (view q). unscheduled x \<in> unscheduled ` set (view q') \<or> (x, None) \<in> set outs)
    \<and> unscheduled ` set (view q') \<subseteq> unscheduled ` set (view q)
    \<and> (\<forall>w. (w, None) \<in> set outs \<longrightarrow> w \<in> set (view q) \<and> (\<exists>s1. fst (deliver w s1) = None))"
proof (cases "due up now drain_batch q")
  case None
  then show ?thesis using assms by (auto simp: drain_tick_def)
next
  case (Some ws)
  then have d: "deliver_due mark resch deliver ev 0 ws (q, g, s) = (outs, q', g', s')" using t by (simp add: drain_tick_def)
  obtain xs where xs: "mset xs = mset (filter (\<lambda>w. pwNextAttemptAt w \<le> now) (view q))" "ws = take drain_batch xs"
    using due_some [OF ok Some] by blast
  have "set ws \<subseteq> set (view q)" using mset_eq_setD [OF xs(1)] set_take_subset [of drain_batch xs] unfolding xs(2) by auto
  note e = deliver_due_effect [OF ok d]
  have outs: "w \<in> set (view q)" if "(w, None) \<in> set outs" for w
  proof -
    have "w \<in> set (map fst outs)" using that by force
    then show ?thesis using e [THEN conjunct2, THEN conjunct2, THEN conjunct2, THEN conjunct2, THEN conjunct1] \<open>set ws \<subseteq> set (view q)\<close> by auto
  qed
  have same: "w = x" if "w \<in> set (view q)" "x \<in> set (view q)" "pwID w = pwID x" for w x
    using ok_ids [OF ok] that by (auto simp: distinct_map inj_on_def)
  have "unscheduled x \<in> unscheduled ` set (view q') \<or> (x, None) \<in> set outs" if "x \<in> set (view q)" for x
    using e [THEN conjunct2, THEN conjunct2, THEN conjunct1, rule_format, OF that] same outs that by metis
  then show ?thesis using e outs by blast
qed

end

definition drained_ok :: "PendingWrite list \<Rightarrow> (PendingWrite \<times> GateErr option) list \<Rightarrow> PendingWrite list \<Rightarrow> bool" where
  "drained_ok before outs after \<longleftrightarrow>
     (\<forall>x \<in> set before. unscheduled x \<in> unscheduled ` set after \<or> (x, None) \<in> set outs) \<and>
     unscheduled ` set after \<subseteq> unscheduled ` set before \<and> (\<forall>w. (w, None) \<in> set outs \<longrightarrow> w \<in> set before)"

text \<open>C28: Nothing queued is lost. Over one pass of the drainer, each undelivered write is still queued, with all but its
  schedule unchanged, or the pass delivered it, which means that its write to GitHub succeeded; nothing else enters the
  outbox. This holds for the Postgres and for the in-memory outbox, whether or not the database answers.\<close>

theorem drain_loses_no_write:
  assumes "pg_queue_ok rows" and "drain_tick PG_Due PG_MarkDelivered PG_Reschedule deliver up now ev (rows, g, s) = (outs, rows', g', s')"
    and "mem_queue_ok m" and "drain_tick Mem_Due Mem_MarkDelivered Mem_Reschedule deliver up now ev (m, g, s) = (mouts, m', mg', ms')"
  shows "drained_ok (pg_undelivered rows) outs (pg_undelivered rows') \<and> pg_queue_ok rows' \<and>
    drained_ok (mem_listed m) mouts (mem_listed m') \<and> mem_queue_ok m' \<and>
    (\<forall>w. (w, None) \<in> set (outs @ mouts) \<longrightarrow> (\<exists>s1. fst (deliver w s1) = None))"
  using pgq.drain_tick_keeps [OF assms(1,2)] memq.drain_tick_keeps [OF assms(3,4)]
  unfolding drained_ok_def by (auto 0 3)

subsection \<open>The outbox empties\<close>

text \<open>\<open>rich T k p g\<close>: from time \<open>T\<close> on, every installation has \<open>k\<close> tokens.\<close>

definition rich :: "gotime \<Rightarrow> nat \<Rightarrow> int \<Rightarrow> Budget \<Rightarrow> bool" where
  "rich T k p g \<longleftrightarrow> 0 \<le> p \<and> budget_ok p g \<and> int k \<le> p \<and>
     (\<forall>i b t. bgBuckets g i = Some b \<longrightarrow> T \<le> t \<longrightarrow> of_nat k \<le> bkTokens (refill t b))"

lemma refill_mono: "0 \<le> p \<Longrightarrow> bucket_ok p b \<Longrightarrow> bkTokens b \<le> bkTokens (refill t b)"
  by (auto simp: refill_tokens bucket_ok_def)

lemma rich_after_hour:
  assumes "0 \<le> p" and ok: "budget_ok p g" and "int k \<le> p" and idle: "\<forall>b \<in> ran (bgBuckets g). bkLast b + 3600 * gosecond \<le> T"
  shows "rich T k p g"
  unfolding rich_def
proof (intro conjI allI impI)
  fix i b t
  assume b: "bgBuckets g i = Some b" and t: "T \<le> t"
  have bok: "bucket_ok p b" by (rule budget_ok_bucket [OF ok b])
  have late: "bkLast b + 3600 * gosecond \<le> t" using idle b t by (force intro: ranI)
  have "of_int (3600 * gosecond) * (of_int p / 3600 / of_int gosecond) \<le> of_int (t - bkLast b) * (of_int p / 3600 / of_int gosecond :: rat)"
    using late assms(1) by (intro mult_right_mono) (auto simp del: of_int_mult of_int_diff simp: of_int_le_iff)
  then have "of_int p \<le> of_int (t - bkLast b) / of_int gosecond * (of_int p / 3600 :: rat)" by (simp add: field_simps)
  moreover have rate: "bkRate b = of_int p / 3600" "0 \<le> bkTokens b" using bok unfolding bucket_ok_def by blast+
  ultimately have full: "of_int p \<le> bkTokens b + of_int (t - bkLast b) / of_int gosecond * bkRate b" unfolding rate(1) by linarith
  have "0 < t - bkLast b" using late gosecond_pos(1) by linarith
  then have "of_int p \<le> bkTokens (refill (bkLast b + (t - bkLast b)) b)"
    by (rule refill_later [OF bok _ order_refl full])
  then have "of_int p \<le> bkTokens (refill t b)" by simp
  moreover have "of_nat k \<le> (of_int p :: rat)" using assms(3) by (metis of_int_le_iff of_int_of_nat_eq)
  ultimately show "of_nat k \<le> bkTokens (refill t b)" by (rule order_trans [rotated])
qed (use assms in auto)

lemma rich_acquire:
  assumes r: "rich T (Suc k) p g" and t: "T \<le> t"
  shows "fst (Budget_TryAcquire t i g)" and "rich T k p (snd (Budget_TryAcquire t i g))"
    and "(\<forall>b \<in> ran (bgBuckets g). bkLast b \<le> E) \<Longrightarrow> t \<le> E \<Longrightarrow> \<forall>b \<in> ran (bgBuckets (snd (Budget_TryAcquire t i g))). bkLast b \<le> E"
proof -
  define b where "b = (case bgBuckets g i of Some b \<Rightarrow> b | None \<Rightarrow> NewBucket (bgPerHour g) t)"
  have p: "0 \<le> p" "int (Suc k) \<le> p" and g: "budget_ok p g" using r by (auto simp: rich_def)
  have b: "bucket_ok p b" using g p by (auto simp: b_def bucket_ok_New budget_ok_def ranI split: option.split)
  have "of_nat (Suc k) \<le> (of_int p :: rat)" using p(2) by (metis of_int_le_iff of_int_of_nat_eq)
  then have tok: "of_nat (Suc k) \<le> bkTokens (refill t b)"
  proof (cases "bgBuckets g i")
    case None
    then show ?thesis using \<open>of_nat (Suc k) \<le> of_int p\<close> g by (simp add: b_def refill_def NewBucket_def budget_ok_def)
  next
    case (Some b0)
    then show ?thesis using r t by (simp add: b_def rich_def)
  qed
  let ?b = "(refill t b)\<lparr>bkTokens := bkTokens (refill t b) - 1\<rparr>"
  have acq: "Budget_TryAcquire t i g = (True, g\<lparr>bgBuckets := (bgBuckets g)(i \<mapsto> ?b)\<rparr>)"
    using tok by (simp add: Budget_TryAcquire_def Bucket_TryAcquire_def Let_def flip: b_def)
  show "fst (Budget_TryAcquire t i g)" by (simp add: acq)
  have bok: "bucket_ok p ?b" using bucket_ok_refill [OF p(1) b, of t] tok by (simp add: bucket_ok_def)
  have "of_nat k \<le> bkTokens (refill u ?b)" for u
    using refill_mono [OF p(1) bok, of u] tok by simp
  moreover have "of_nat k \<le> bkTokens (refill u c)" if "bgBuckets g j = Some c" "T \<le> u" for j c u
  proof -
    have "of_nat (Suc k) \<le> bkTokens (refill u c)" using r that unfolding rich_def by blast
    then show ?thesis by simp
  qed
  ultimately show "rich T k p (snd (Budget_TryAcquire t i g))"
    using p budget_ok_upd [OF g bok] unfolding rich_def acq by auto
  show "\<forall>b \<in> ran (bgBuckets (snd (Budget_TryAcquire t i g))). bkLast b \<le> E" if "\<forall>b \<in> ran (bgBuckets g). bkLast b \<le> E" "t \<le> E"
    using that unfolding acq b_def by (auto simp: ran_def NewBucket_def split: if_splits option.splits)
qed

lemma gate_accepts:
  assumes "fst (Budget_TryAcquire t i g)" and "\<not> cancelled 0" and "fst (fn s) = None"
  shows "Gate_Do t cancelled draw i fn g s = (None, [], snd (Budget_TryAcquire t i g), snd (fn s))"
  using assms by (cases "fn s") (simp add: Gate_Do_def case_prod_beta gate_loop.simps gate_limit_def)


lemma filter_taken:
  assumes "distinct (map f xs)"
  shows "filter (\<lambda>x. f x \<notin> f ` set (take n xs)) xs = drop n xs"
proof -
  have "distinct (map f (take n xs @ drop n xs))" using assms by simp
  then have "\<forall>x \<in> set (drop n xs). f x \<notin> f ` set (take n xs)" unfolding map_append distinct_append set_map by blast
  then have "filter (\<lambda>x. f x \<notin> f ` set (take n xs)) (take n xs @ drop n xs) = drop n xs"
    unfolding filter_append by (simp add: filter_empty_conv)
  then show ?thesis by simp
qed

text \<open>A calm pass: between its start and its end the context is live, the database answers, and GitHub accepts; passes of
  \<open>calm_ticks\<close> are an hour apart.\<close>

definition calm_env :: "gotime \<Rightarrow> gotime \<Rightarrow> (nat \<Rightarrow> DrainEnv) \<Rightarrow> bool" where
  "calm_env t0 t1 ev \<longleftrightarrow> (\<forall>i. t0 \<le> dvAcquireAt (ev i) \<and> dvAcquireAt (ev i) \<le> t1 \<and> \<not> dvCancelled (ev i) 0 \<and> dvUp (ev i))"

fun calm_ticks :: "gotime \<Rightarrow> (gotime \<times> gotime \<times> (nat \<Rightarrow> DrainEnv)) list \<Rightarrow> bool" where
  "calm_ticks lo [] = True"
| "calm_ticks lo ((t0, t1, ev) # ts) = (lo \<le> t0 \<and> t0 \<le> t1 \<and> calm_env t0 t1 ev \<and> calm_ticks (t1 + 3600 * gosecond) ts)"

fun drain_ticks :: "(bool \<Rightarrow> gotime \<Rightarrow> nat \<Rightarrow> 'q \<Rightarrow> PendingWrite list option) \<Rightarrow> (bool \<Rightarrow> string \<Rightarrow> gotime \<Rightarrow> 'q \<Rightarrow> 'q option) \<Rightarrow>
    (bool \<Rightarrow> string \<Rightarrow> gotime \<Rightarrow> int \<Rightarrow> 'q \<Rightarrow> 'q option) \<Rightarrow> (PendingWrite \<Rightarrow> 's \<Rightarrow> GhErr option \<times> 's) \<Rightarrow>
    (gotime \<times> gotime \<times> (nat \<Rightarrow> DrainEnv)) list \<Rightarrow> 'q \<times> Budget \<times> 's \<Rightarrow> 'q \<times> Budget \<times> 's" where
  "drain_ticks due mark resch deliver [] st = st"
| "drain_ticks due mark resch deliver ((t0, t1, ev) # ts) st =
     drain_ticks due mark resch deliver ts (snd (drain_tick due mark resch deliver True t0 ev st))"

abbreviation settled_by :: "gotime \<Rightarrow> Budget \<Rightarrow> bool" where
  "settled_by E g \<equiv> \<forall>b \<in> ran (bgBuckets g). bkLast b \<le> E"

context pending_store
begin

lemma deliver_due_accepts:
  assumes acc: "\<And>w s. fst (deliver w s) = None" and calm: "calm_env t0 t1 ev"
  shows "ok q \<Longrightarrow> rich t0 (length ws) p g \<Longrightarrow> settled_by t1 g \<Longrightarrow>
    \<exists>outs q' g' s'. deliver_due mark resch deliver ev i ws (q, g, s) = (outs, q', g', s') \<and> ok q' \<and> budget_ok p g' \<and> settled_by t1 g' \<and>
      view q' = filter (\<lambda>x. pwID x \<notin> pwID ` set ws) (view q)"
proof (induction ws arbitrary: q g s i)
  case Nil
  then show ?case by (auto simp: rich_def)
next
  case (Cons w ws)
  let ?t = "dvAcquireAt (ev i)" and ?i = "pwInstallationID w"
  let ?g = "snd (Budget_TryAcquire ?t ?i g)"
  have t: "t0 \<le> ?t" "?t \<le> t1" "\<not> dvCancelled (ev i) 0" "dvUp (ev i)" using calm by (simp_all add: calm_env_def)
  have r: "rich t0 (Suc (length ws)) p g" using Cons.prems(2) by simp
  have "Gate_Do ?t (dvCancelled (ev i)) (dvDraw (ev i)) ?i (deliver w) g s = (None, [], ?g, snd (deliver w s))"
    by (intro gate_accepts rich_acquire(1) [OF r t(1)] t(3) acc)
  moreover obtain q1 where q1: "mark True (pwID w) (dvDoneAt (ev i)) q = Some q1" using mark_up by blast
  ultimately have d1: "deliverOne mark resch deliver (ev i) w (q, g, s) = (None, q1, ?g, snd (deliver w s))"
    using t(4) by (simp add: deliverOne_def)
  have ok1: "ok q1" "view q1 = filter (\<lambda>x. pwID x \<noteq> pwID w) (view q)" using mark_some [OF Cons.prems(1) q1] by simp_all
  obtain outs q' g' s' where d2: "deliver_due mark resch deliver ev (i + 1) ws (q1, ?g, snd (deliver w s)) = (outs, q', g', s')"
      "ok q'" "budget_ok p g'" "settled_by t1 g'" "view q' = filter (\<lambda>x. pwID x \<notin> pwID ` set ws) (view q1)"
    using Cons.IH [OF ok1(1) rich_acquire(2) [OF r t(1)] rich_acquire(3) [OF r t(1) Cons.prems(3) t(2)]] by metis
  then show ?case using d1 ok1(2) by (auto simp: filter_filter intro: filter_cong)
qed

lemma drain_tick_accepts:
  assumes acc: "\<And>w s. fst (deliver w s) = None" and calm: "calm_env t0 t1 ev" "t0 \<le> t1"
    and ok: "ok q" and g: "int drain_batch \<le> p" "budget_ok p g" "\<forall>b \<in> ran (bgBuckets g). bkLast b + 3600 * gosecond \<le> t0"
    and due: "\<forall>w \<in> set (view q). pwNextAttemptAt w \<le> t0"
  shows "\<exists>outs q' g' s'. drain_tick due mark resch deliver True t0 ev (q, g, s) = (outs, q', g', s') \<and> ok q' \<and> budget_ok p g' \<and>
    settled_by t1 g' \<and> set (view q') \<subseteq> set (view q) \<and> length (view q') = length (view q) - drain_batch"
proof -
  obtain ws where ws: "due True t0 drain_batch q = Some ws" using due_up by blast
  obtain xs where "mset xs = mset (filter (\<lambda>w. pwNextAttemptAt w \<le> t0) (view q))" and take: "ws = take drain_batch xs"
    using due_some [OF ok ws] by blast
  then have xs: "mset xs = mset (view q)" using due by (simp add: filter_True)
  have len: "length ws = min drain_batch (length (view q))" using mset_eq_length [OF xs] by (simp add: take min.commute)
  have settled: "settled_by t1 g"
  proof
    fix b assume "b \<in> ran (bgBuckets g)"
    then have "bkLast b + 3600 * gosecond \<le> t0" by (rule bspec [OF g(3)])
    then show "bkLast b \<le> t1" using calm(2) gosecond_pos(1) by linarith
  qed
  have "rich t0 (length ws) p g" using g len by (intro rich_after_hour) auto
  from deliver_due_accepts [of deliver, OF acc calm(1) ok this settled, of 0 s]
  obtain outs q' g' s' where d: "deliver_due mark resch deliver ev 0 ws (q, g, s) = (outs, q', g', s')" "ok q'" "budget_ok p g'" "settled_by t1 g'"
      and view: "view q' = filter (\<lambda>x. pwID x \<notin> pwID ` set ws) (view q)"
    by (elim exE conjE) (rule that)
  have "distinct (map pwID xs)" using ok_ids [OF ok] mset_eq_imp_distinct_iff [of "map pwID xs" "map pwID (view q)"] xs by simp
  then have ids: "filter (\<lambda>x. pwID x \<notin> pwID ` set ws) xs = drop drain_batch xs"
    unfolding take by (rule filter_taken)
  have "mset (view q') = mset (filter (\<lambda>x. pwID x \<notin> pwID ` set ws) xs)" unfolding view using xs by simp
  then have "length (view q') = length (drop drain_batch xs)" unfolding ids by (metis size_mset)
  then have "length (view q') = length (view q) - drain_batch" using mset_eq_length [OF xs] by simp
  moreover have "set (view q') \<subseteq> set (view q)" unfolding view by auto
  ultimately show ?thesis using d ws by (auto simp: drain_tick_def)
qed

lemma drain_ticks_empty:
  assumes acc: "\<And>w s. fst (deliver w s) = None" and p: "int drain_batch \<le> p"
  shows "calm_ticks lo ts \<Longrightarrow> ok q \<Longrightarrow> budget_ok p g \<Longrightarrow> \<forall>b \<in> ran (bgBuckets g). bkLast b + 3600 * gosecond \<le> lo \<Longrightarrow>
    \<forall>w \<in> set (view q). pwNextAttemptAt w \<le> lo \<Longrightarrow> length (view q) \<le> drain_batch * length ts \<Longrightarrow>
    view (fst (drain_ticks due mark resch deliver ts (q, g, s))) = []"
proof (induction lo ts arbitrary: q g s rule: calm_ticks.induct)
  case (2 lo t0 t1 ev ts)
  have lo: "lo \<le> t0" "t0 \<le> t1" "calm_env t0 t1 ev" "calm_ticks (t1 + 3600 * gosecond) ts" using 2(2) by simp_all
  have idle: "\<forall>b \<in> ran (bgBuckets g). bkLast b + 3600 * gosecond \<le> t0" using 2(5) lo(1) by (meson order_trans)
  have due_now: "\<forall>w \<in> set (view q). pwNextAttemptAt w \<le> t0" using 2(6) lo(1) by (meson order_trans)
  obtain outs q' g' s' where d: "drain_tick due mark resch deliver True t0 ev (q, g, s) = (outs, q', g', s')" "ok q'" "budget_ok p g'"
      "settled_by t1 g'" "set (view q') \<subseteq> set (view q)" "length (view q') = length (view q) - drain_batch"
    using drain_tick_accepts [of deliver, OF acc lo(3,2) 2(3) p 2(4) idle due_now] by metis
  have "pwNextAttemptAt w \<le> t1 + 3600 * gosecond" if "w \<in> set (view q')" for w
  proof -
    have "pwNextAttemptAt w \<le> t0" using due_now that d(5) by blast
    then show ?thesis using lo(2) gosecond_pos(1) by linarith
  qed
  moreover have "length (view q') \<le> drain_batch * length ts" using d(6) 2(7) by simp
  ultimately have "view (fst (drain_ticks due mark resch deliver ts (q', g', s'))) = []"
    using d(4) by (intro 2(1) [OF lo(4) d(2,3)]) auto
  then show ?case using d(1) by simp
qed simp

end


text \<open>C29: The outbox empties. When GitHub accepts the writes and the hourly budget covers a batch of 25, passes an hour
  apart empty an outbox of at most 25 writes per pass: no write waits for ever behind the others.\<close>

theorem drain_empties_outbox:
  assumes "\<And>w s. fst (deliver w s) = None" and "25 \<le> perHour" and "budget_ok perHour g"
    and "\<forall>b \<in> ran (bgBuckets g). bkLast b + 3600 * gosecond \<le> lo" and "calm_ticks lo ticks"
    and "pg_queue_ok rows" and "\<forall>w \<in> set (pg_undelivered rows). pwNextAttemptAt w \<le> lo" and "length (pg_undelivered rows) \<le> 25 * length ticks"
    and "mem_queue_ok m" and "\<forall>w \<in> set (mem_listed m). pwNextAttemptAt w \<le> lo" and "length (mem_listed m) \<le> 25 * length ticks"
  shows "pg_undelivered (fst (drain_ticks PG_Due PG_MarkDelivered PG_Reschedule deliver ticks (rows, g, s))) = []
    \<and> mem_listed (fst (drain_ticks Mem_Due Mem_MarkDelivered Mem_Reschedule deliver ticks (m, g, s))) = []"
proof
  have p: "int drain_batch \<le> perHour" using assms(2) by (simp add: drain_batch_def)
  show "pg_undelivered (fst (drain_ticks PG_Due PG_MarkDelivered PG_Reschedule deliver ticks (rows, g, s))) = []"
    using assms(8) by (intro pgq.drain_ticks_empty [OF assms(1) p assms(5,6,3,4,7)]) (simp add: drain_batch_def)
  show "mem_listed (fst (drain_ticks Mem_Due Mem_MarkDelivered Mem_Reschedule deliver ticks (m, g, s))) = []"
    using assms(11) by (intro memq.drain_ticks_empty [OF assms(1) p assms(5,9,3,4,10)]) (simp add: drain_batch_def)
qed

definition sample_write :: PendingWrite where
  "sample_write = \<lparr>pwID = [], pwKey = ''cand_1:completed'', pwInstallationID = 7, pwRepo = ''acme/app'', pwOp = OpCreateCheck,
     pwCheckRunID = 0, pwPayload = RenderStalled ''cand_1'' ''aa'' [] 10, pwCreatedAt = zero_time, pwNextAttemptAt = zero_time, pwAttempts = 0\<rparr>"

definition sample_pg :: PGQueue where
  "sample_pg = the (PG_Enqueue True ''pw_1'' 5 sample_write [])"

definition sample_mem :: MemQueue where
  "sample_mem = the (Mem_Enqueue True [] 5 sample_write NewMemQueue)"

definition calm_drain :: "gotime \<Rightarrow> nat \<Rightarrow> DrainEnv" where
  "calm_drain t i = \<lparr>dvAcquireAt = t, dvDoneAt = t, dvCancelled = (\<lambda>_. False), dvDraw = (\<lambda>_ _. 0), dvUp = True\<rparr>"

lemma mem_listed_New [simp]: "mem_listed NewMemQueue = []"
  by (simp add: mem_listed_def NewMemQueue_def)

lemma mem_queue_ok_New: "mem_queue_ok NewMemQueue"
  by (simp add: mem_queue_ok_def) (simp add: NewMemQueue_def)

lemma sample_pg_ok: "pg_queue_ok sample_pg \<and> length (pg_undelivered sample_pg) = 1 \<and> pwNextAttemptAt (hd (pg_undelivered sample_pg)) = 5"
  by (simp add: sample_pg_def PG_Enqueue_def pg_queue_ok_def pg_undelivered_def stamp_write_def sample_write_def Let_def)

lemma sample_mem_ok: "mem_queue_ok sample_mem \<and> length (mem_listed sample_mem) = 1 \<and> pwNextAttemptAt (hd (mem_listed sample_mem)) = 5"
proof -
  have e: "Mem_Enqueue True [] 5 sample_write NewMemQueue = Some sample_mem"
    by (simp add: sample_mem_def Mem_Enqueue_def byKeyLocked_def mem_listed_def NewMemQueue_def Let_def)
  have "mem_queue_ok sample_mem \<and> (\<exists>ident. mem_listed sample_mem = mem_listed NewMemQueue @ [stamp_write ident 5 sample_write])"
    by (rule mem_enqueue_new [OF mem_queue_ok_New _ _ e]) (simp_all add: sample_write_def)
  then show ?thesis by (auto simp: stamp_write_def sample_write_def Let_def)
qed

theorem drain_empties_outbox_witness:
  "pg_undelivered (fst (drain_ticks PG_Due PG_MarkDelivered PG_Reschedule (\<lambda>w n. (None, n + 1)) [(10, 10, calm_drain 10)]
     (sample_pg, NewBudget 300, 0 :: int))) = []"
proof -
  have one: "set xs = {hd xs}" if "length xs = 1" for xs :: "PendingWrite list" using that by (cases xs) auto
  have "calm_ticks 10 [(10, 10, calm_drain 10)]" by (simp add: calm_env_def calm_drain_def)
  moreover have "\<forall>w \<in> set (pg_undelivered sample_pg). pwNextAttemptAt w \<le> 10" "\<forall>w \<in> set (mem_listed sample_mem). pwNextAttemptAt w \<le> 10"
    using sample_pg_ok sample_mem_ok by (simp_all add: one)
  ultimately show ?thesis
    using drain_empties_outbox [of "\<lambda>w n. (None, n + 1)" 300 "NewBudget 300" 10 "[(10, 10, calm_drain 10)]" sample_pg sample_mem "0 :: int"]
      sample_pg_ok sample_mem_ok budget_ok_New [of 300] by (simp add: NewBudget_def)
qed

theorem drain_loses_no_write_witness:
  "case drain_tick PG_Due PG_MarkDelivered PG_Reschedule (\<lambda>w n. (Some (gh_status 422), n + 1)) True 10 (calm_drain 10) (sample_pg, NewBudget 300, 0 :: int) of
     (outs, rows, g, s) \<Rightarrow> drained_ok (pg_undelivered sample_pg) outs (pg_undelivered rows)"
proof -
  let ?d = "\<lambda>w n. (Some (gh_status 422), n + 1)"
  obtain outs rows g s where t: "drain_tick PG_Due PG_MarkDelivered PG_Reschedule ?d True 10 (calm_drain 10) (sample_pg, NewBudget 300, 0 :: int) = (outs, rows, g, s)"
    by (metis prod_cases4)
  obtain outs' m' g' s' where t': "drain_tick Mem_Due Mem_MarkDelivered Mem_Reschedule ?d True 10 (calm_drain 10) (sample_mem, NewBudget 300, 0 :: int) = (outs', m', g', s')"
    by (metis prod_cases4)
  show ?thesis
    using drain_loses_no_write [OF _ t _ t'] sample_pg_ok sample_mem_ok t by simp
qed

end
