(* ===== verification/Tracking.thy ===== *)
theory Tracking
  imports Checks
begin

text \<open>
  The connector's record of one check run per candidate revision (internal/tracking, internal/store/pg_tracking.go): the
  GitHub id of the run, its phase, and the last applied decision. Both implementations of the interface
  \<^verbatim>\<open>tracking.Store\<close> are modelled, and the locale \<open>revision_tracker\<close> states what the push
  flows rely on. \<open>up\<close> tells whether the database answers; the clock is an argument.
\<close>

subsection \<open>Records (tracking/tracking.go)\<close>

datatype TrackErr = ErrTrackNotFound | ErrTrackStorage

record TrackRecord =
  trCandidateID :: string
  trHeadSHA :: string
  trRepo :: string
  trCheckRunID :: int
  trPhase :: string
  trConclusion :: string
  trDecisionID :: string
  trLastDecision :: "DecisionEnvelope option"
  trStalled :: bool
  trUpdatedAt :: gotime

subsection \<open>The in-memory store (tracking/memory.go)\<close>

text \<open>The map \<^verbatim>\<open>revisions\<close> as its entries in iteration order, which is arbitrary.\<close>

record MemTracker =
  mtRevisions :: "(string \<times> TrackRecord) list"
  mtByDecision :: "string \<rightharpoonup> string"

definition NewMemTracker :: MemTracker where
  "NewMemTracker = \<lparr>mtRevisions = [], mtByDecision = Map.empty\<rparr>"

definition revisionKey :: "string \<Rightarrow> string \<Rightarrow> string" where
  "revisionKey candidateID headSHA = candidateID @ CHR 0x00 # headSHA"

fun put_entry :: "'k \<Rightarrow> 'v \<Rightarrow> ('k \<times> 'v) list \<Rightarrow> ('k \<times> 'v) list" where
  "put_entry k v [] = [(k, v)]"
| "put_entry k v ((j, u) # es) = (if j = k then (k, v) # es else (j, u) # put_entry k v es)"

definition mem_merge :: "TrackRecord \<Rightarrow> TrackRecord \<Rightarrow> TrackRecord" where
  "mem_merge existing rec =
    (let e1 = (if trCheckRunID rec \<noteq> 0 then existing\<lparr>trCheckRunID := trCheckRunID rec\<rparr> else existing);
         e2 = (if trPhase rec \<noteq> [] then
                 (let e = e1\<lparr>trPhase := trPhase rec\<rparr> in
                  if trPhase rec = PhaseCompleted then e\<lparr>trConclusion := trConclusion rec, trStalled := trStalled rec\<rparr> else e)
               else e1);
         e3 = (if trDecisionID rec \<noteq> [] then e2\<lparr>trDecisionID := trDecisionID rec\<rparr> else e2);
         e4 = (if trLastDecision rec \<noteq> None then e3\<lparr>trLastDecision := trLastDecision rec\<rparr> else e3) in
     if trRepo rec \<noteq> [] then e4\<lparr>trRepo := trRepo rec\<rparr> else e4)"

definition MemT_RecordCheckReport :: "bool \<Rightarrow> gotime \<Rightarrow> TrackRecord \<Rightarrow> MemTracker \<Rightarrow> MemTracker option" where
  "MemT_RecordCheckReport up now rec m =
    (let key = revisionKey (trCandidateID rec) (trHeadSHA rec);
         existing = (case map_of (mtRevisions m) key of None \<Rightarrow> rec | Some e \<Rightarrow> mem_merge e rec);
         by1 = (if trDecisionID existing \<noteq> [] \<and> trDecisionID existing \<noteq> trDecisionID rec
                then (mtByDecision m)(trDecisionID existing := None) else mtByDecision m) in
     Some \<lparr>mtRevisions = put_entry key (existing\<lparr>trUpdatedAt := now\<rparr>) (mtRevisions m),
       mtByDecision = (if trDecisionID existing \<noteq> [] then by1(trDecisionID existing \<mapsto> key) else by1)\<rparr>)"

definition MemT_LookupCheckReport :: "bool \<Rightarrow> string \<Rightarrow> string \<Rightarrow> MemTracker \<Rightarrow> TrackErr + TrackRecord" where
  "MemT_LookupCheckReport up candidateID headSHA m = (case map_of (mtRevisions m) (revisionKey candidateID headSHA) of
     None \<Rightarrow> Inl ErrTrackNotFound | Some r \<Rightarrow> Inr r)"

text \<open>\<^verbatim>\<open>m.revisions[key]\<close> of an indexed key is always there.\<close>

definition MemT_FindByDecision :: "bool \<Rightarrow> string \<Rightarrow> MemTracker \<Rightarrow> TrackErr + TrackRecord" where
  "MemT_FindByDecision up decisionID m = (case mtByDecision m decisionID of None \<Rightarrow> Inl ErrTrackNotFound
     | Some key \<Rightarrow> (case map_of (mtRevisions m) key of None \<Rightarrow> Inl ErrTrackNotFound | Some r \<Rightarrow> Inr r))"

definition MemT_OpenCheckReports :: "bool \<Rightarrow> gotime \<Rightarrow> nat \<Rightarrow> MemTracker \<Rightarrow> TrackRecord list option" where
  "MemT_OpenCheckReports up updatedBefore limit m =
    (let opened = sort_by (\<lambda>a b. trUpdatedAt a < trUpdatedAt b)
           (filter (\<lambda>r. trPhase r \<noteq> PhaseCompleted \<and> trUpdatedAt r < updatedBefore) (map snd (mtRevisions m))) in
     Some (if length opened > limit then take limit opened else opened))"

subsection \<open>The Postgres store (store/pg_tracking.go)\<close>

text \<open>The table with its primary key over candidate and head; \<^verbatim>\<open>last_decision\<close> holds the decision
  itself (its JSON is written and read back by the same type).\<close>

definition pg_upsert :: "gotime \<Rightarrow> TrackRecord \<Rightarrow> TrackRecord \<Rightarrow> TrackRecord" where
  "pg_upsert now row ex = row\<lparr>
     trRepo := (if trRepo ex \<noteq> [] then trRepo ex else trRepo row),
     trCheckRunID := (if trCheckRunID ex \<noteq> 0 then trCheckRunID ex else trCheckRunID row),
     trPhase := (if trPhase ex \<noteq> [] then trPhase ex else trPhase row),
     trConclusion := (if trPhase ex = ''completed'' then trConclusion ex else trConclusion row),
     trStalled := (if trPhase ex = ''completed'' then trStalled ex else trStalled row),
     trDecisionID := (if trDecisionID ex \<noteq> [] then trDecisionID ex else trDecisionID row),
     trLastDecision := (case trLastDecision ex of Some d \<Rightarrow> Some d | None \<Rightarrow> trLastDecision row),
     trUpdatedAt := now\<rparr>"

definition same_revision :: "string \<Rightarrow> string \<Rightarrow> TrackRecord \<Rightarrow> bool" where
  "same_revision candidateID headSHA r \<longleftrightarrow> trCandidateID r = candidateID \<and> trHeadSHA r = headSHA"

definition PGT_RecordCheckReport :: "bool \<Rightarrow> gotime \<Rightarrow> TrackRecord \<Rightarrow> TrackRecord list \<Rightarrow> TrackRecord list option" where
  "PGT_RecordCheckReport up now rec rows = (if \<not> up then None
     else if list_ex (same_revision (trCandidateID rec) (trHeadSHA rec)) rows
     then Some (map (\<lambda>r. if same_revision (trCandidateID rec) (trHeadSHA rec) r then pg_upsert now r rec else r) rows)
     else Some (rows @ [rec\<lparr>trUpdatedAt := now\<rparr>]))"

definition PGT_LookupCheckReport :: "bool \<Rightarrow> string \<Rightarrow> string \<Rightarrow> TrackRecord list \<Rightarrow> TrackErr + TrackRecord" where
  "PGT_LookupCheckReport up candidateID headSHA rows = (if \<not> up then Inl ErrTrackStorage
     else case find (same_revision candidateID headSHA) rows of None \<Rightarrow> Inl ErrTrackNotFound | Some r \<Rightarrow> Inr r)"

definition PGT_FindByDecision :: "bool \<Rightarrow> string \<Rightarrow> TrackRecord list \<Rightarrow> TrackErr + TrackRecord" where
  "PGT_FindByDecision up decisionID rows = (if \<not> up then Inl ErrTrackStorage
     else case find (\<lambda>r. trDecisionID r = decisionID \<and> trDecisionID r \<noteq> []) rows of None \<Rightarrow> Inl ErrTrackNotFound | Some r \<Rightarrow> Inr r)"

definition PGT_OpenCheckReports :: "bool \<Rightarrow> gotime \<Rightarrow> nat \<Rightarrow> TrackRecord list \<Rightarrow> TrackRecord list option" where
  "PGT_OpenCheckReports up updatedBefore limit rows = (if \<not> up then None
     else Some (take limit (sort_by (\<lambda>a b. trUpdatedAt a < trUpdatedAt b)
       (filter (\<lambda>r. trPhase r \<noteq> ''completed'' \<and> trUpdatedAt r < updatedBefore) rows))))"

subsection \<open>What the flows rely on\<close>

text \<open>The row of a revision, and how a report changes it: partial reports never blank what is tracked, and conclusion and
  stalled mark move only with a completed phase.\<close>

definition merge_report :: "gotime \<Rightarrow> TrackRecord option \<Rightarrow> TrackRecord \<Rightarrow> TrackRecord" where
  "merge_report now old rec = (case old of None \<Rightarrow> rec\<lparr>trUpdatedAt := now\<rparr> | Some row \<Rightarrow> pg_upsert now row rec)"

definition plain_sha :: "string \<Rightarrow> bool" where
  "plain_sha sha \<longleftrightarrow> CHR 0x00 \<notin> set sha"

locale revision_tracker =
  fixes row :: "'t \<Rightarrow> string \<Rightarrow> string \<Rightarrow> TrackRecord option"
    and ok :: "'t \<Rightarrow> bool"
    and record_report :: "bool \<Rightarrow> gotime \<Rightarrow> TrackRecord \<Rightarrow> 't \<Rightarrow> 't option"
    and lookup :: "bool \<Rightarrow> string \<Rightarrow> string \<Rightarrow> 't \<Rightarrow> TrackErr + TrackRecord"
    and find_decision :: "bool \<Rightarrow> string \<Rightarrow> 't \<Rightarrow> TrackErr + TrackRecord"
    and open_reports :: "bool \<Rightarrow> gotime \<Rightarrow> nat \<Rightarrow> 't \<Rightarrow> TrackRecord list option"
  assumes record_some: "ok t \<Longrightarrow> plain_sha (trHeadSHA rec) \<Longrightarrow> record_report up now rec t = Some t' \<Longrightarrow> ok t' \<and>
      (\<forall>c h. plain_sha h \<longrightarrow> row t' c h =
        (if c = trCandidateID rec \<and> h = trHeadSHA rec then Some (merge_report now (row t c h) rec) else row t c h))"
    and record_up: "record_report True now rec t \<noteq> None"
    and row_key: "ok t \<Longrightarrow> plain_sha h \<Longrightarrow> row t c h = Some r \<Longrightarrow> trCandidateID r = c \<and> trHeadSHA r = h"
    and lookup_found: "ok t \<Longrightarrow> lookup up c h t = Inr r \<Longrightarrow> row t c h = Some r"
    and lookup_absent: "ok t \<Longrightarrow> lookup up c h t = Inl ErrTrackNotFound \<Longrightarrow> row t c h = None"
    and lookup_up: "lookup True c h t \<noteq> Inl ErrTrackStorage"
    and find_current: "ok t \<Longrightarrow> plain_sha h \<Longrightarrow> row t c h = Some r \<Longrightarrow> trDecisionID r \<noteq> [] \<Longrightarrow> find_decision up (trDecisionID r) t \<noteq> Inl ErrTrackNotFound"
    and find_up: "find_decision True d t \<noteq> Inl ErrTrackStorage"
    and open_some: "ok t \<Longrightarrow> open_reports up before n t = Some rs \<Longrightarrow>
      \<forall>r \<in> set rs. trPhase r \<noteq> PhaseCompleted \<and> trUpdatedAt r < before \<and> (plain_sha (trHeadSHA r) \<longrightarrow> row t (trCandidateID r) (trHeadSHA r) = Some r)"
    and open_all: "ok t \<Longrightarrow> open_reports up before n t = Some rs \<Longrightarrow> length rs < n \<Longrightarrow> plain_sha h \<Longrightarrow> row t c h = Some r \<Longrightarrow>
      trPhase r \<noteq> PhaseCompleted \<Longrightarrow> trUpdatedAt r < before \<Longrightarrow> r \<in> set rs"
    and open_up: "open_reports True before n t \<noteq> None"


subsection \<open>The two stores provide it\<close>

lemma map_of_put_entry [simp]: "map_of (put_entry k v es) = (map_of es)(k \<mapsto> v)"
  by (induction k v es rule: put_entry.induct) auto

lemma fst_put_entry: "fst ` set (put_entry k v es) = insert k (fst ` set es)"
  by (induction k v es rule: put_entry.induct) auto

lemma distinct_put_entry: "distinct (map fst es) \<Longrightarrow> distinct (map fst (put_entry k v es))"
  by (induction k v es rule: put_entry.induct) (auto simp: fst_put_entry)

lemma revisionKey_inject:
  "plain_sha h \<Longrightarrow> plain_sha h' \<Longrightarrow> revisionKey c h = revisionKey c' h' \<longleftrightarrow> c = c' \<and> h = h'"
  by (simp add: revisionKey_def plain_sha_def sep_split_last)

lemma mem_merge_upsert: "(mem_merge row rec)\<lparr>trUpdatedAt := now\<rparr> = pg_upsert now row rec"
  by (simp add: mem_merge_def pg_upsert_def PhaseCompleted_def Let_def split: option.split)

definition memt_ok :: "MemTracker \<Rightarrow> bool" where
  "memt_ok m \<longleftrightarrow> distinct (map fst (mtRevisions m)) \<and>
     (\<forall>k r. map_of (mtRevisions m) k = Some r \<longrightarrow> k = revisionKey (trCandidateID r) (trHeadSHA r) \<and> plain_sha (trHeadSHA r) \<and>
        (trDecisionID r \<noteq> [] \<longrightarrow> trDecisionID r \<in> dom (mtByDecision m))) \<and>
     ran (mtByDecision m) \<subseteq> dom (map_of (mtRevisions m))"

definition memt_row :: "MemTracker \<Rightarrow> string \<Rightarrow> string \<Rightarrow> TrackRecord option" where
  "memt_row m c h = map_of (mtRevisions m) (revisionKey c h)"

lemma merge_report_key:
  "(case old of None \<Rightarrow> True | Some r \<Rightarrow> trCandidateID r = trCandidateID rec \<and> trHeadSHA r = trHeadSHA rec) \<Longrightarrow>
     trCandidateID (merge_report now old rec) = trCandidateID rec \<and> trHeadSHA (merge_report now old rec) = trHeadSHA rec"
  by (cases old) (simp_all add: merge_report_def pg_upsert_def)

lemma memt_row_key:
  assumes "memt_ok m" and "plain_sha h" and "memt_row m c h = Some r"
  shows "trCandidateID r = c \<and> trHeadSHA r = h"
proof -
  have "revisionKey c h = revisionKey (trCandidateID r) (trHeadSHA r)" and "plain_sha (trHeadSHA r)"
    using assms(1,3) by (auto simp: memt_ok_def memt_row_def)
  then show ?thesis using assms(2) by (simp add: revisionKey_inject)
qed

lemma memt_record_form:
  assumes "MemT_RecordCheckReport up now rec m = Some m'"
  shows "\<exists>idx. m' = \<lparr>mtRevisions = put_entry (revisionKey (trCandidateID rec) (trHeadSHA rec))
         (merge_report now (memt_row m (trCandidateID rec) (trHeadSHA rec)) rec) (mtRevisions m), mtByDecision = idx\<rparr> \<and>
      dom (mtByDecision m) \<subseteq> dom idx \<and> ran idx \<subseteq> insert (revisionKey (trCandidateID rec) (trHeadSHA rec)) (ran (mtByDecision m)) \<and>
      (trDecisionID (merge_report now (memt_row m (trCandidateID rec) (trHeadSHA rec)) rec) \<noteq> [] \<longrightarrow>
       trDecisionID (merge_report now (memt_row m (trCandidateID rec) (trHeadSHA rec)) rec) \<in> dom idx)"
proof -
  let ?k = "revisionKey (trCandidateID rec) (trHeadSHA rec)"
  define e where "e = (case map_of (mtRevisions m) ?k of None \<Rightarrow> rec | Some x \<Rightarrow> mem_merge x rec)"
  have m: "merge_report now (memt_row m (trCandidateID rec) (trHeadSHA rec)) rec = e\<lparr>trUpdatedAt := now\<rparr>"
    by (simp add: e_def merge_report_def memt_row_def mem_merge_upsert split: option.split)
  show ?thesis
    unfolding m using assms
    by (auto simp: MemT_RecordCheckReport_def Let_def ran_def dom_def simp flip: e_def split: if_splits)
qed

lemma memt_record:
  assumes ok: "memt_ok m" and sha: "plain_sha (trHeadSHA rec)" and r: "MemT_RecordCheckReport up now rec m = Some m'"
  shows "memt_ok m'"
    and "plain_sha h \<Longrightarrow> memt_row m' c h =
      (if c = trCandidateID rec \<and> h = trHeadSHA rec then Some (merge_report now (memt_row m c h) rec) else memt_row m c h)"
proof -
  let ?k = "revisionKey (trCandidateID rec) (trHeadSHA rec)" and ?v = "merge_report now (memt_row m (trCandidateID rec) (trHeadSHA rec)) rec"
  obtain idx where m': "m' = \<lparr>mtRevisions = put_entry ?k ?v (mtRevisions m), mtByDecision = idx\<rparr>"
      and idx: "dom (mtByDecision m) \<subseteq> dom idx" "ran idx \<subseteq> insert ?k (ran (mtByDecision m))" "trDecisionID ?v \<noteq> [] \<longrightarrow> trDecisionID ?v \<in> dom idx"
    using memt_record_form [OF r] by blast
  have "trCandidateID ?v = trCandidateID rec \<and> trHeadSHA ?v = trHeadSHA rec"
    using memt_row_key [OF ok sha] by (intro merge_report_key) (simp split: option.split)
  then show "memt_ok m'"
    using ok sha idx unfolding memt_ok_def m' by (auto simp: distinct_put_entry) blast+
  show "memt_row m' c h = (if c = trCandidateID rec \<and> h = trHeadSHA rec then Some (merge_report now (memt_row m c h) rec) else memt_row m c h)"
    if "plain_sha h"
    using revisionKey_inject [OF that sha] by (auto simp: memt_row_def m')
qed

lemma map_of_values: "distinct (map fst es) \<Longrightarrow> r \<in> snd ` set es \<longleftrightarrow> (\<exists>k. map_of es k = Some r)"
  by (force simp: image_iff)

interpretation memt: revision_tracker memt_row memt_ok MemT_RecordCheckReport MemT_LookupCheckReport MemT_FindByDecision MemT_OpenCheckReports
proof unfold_locales
  fix m m' :: MemTracker and rec r up now h c before n rs
  assume ok: "memt_ok m"
  then have d: "distinct (map fst (mtRevisions m))" by (simp add: memt_ok_def)
  show "memt_ok m' \<and> (\<forall>c h. plain_sha h \<longrightarrow> memt_row m' c h =
      (if c = trCandidateID rec \<and> h = trHeadSHA rec then Some (merge_report now (memt_row m c h) rec) else memt_row m c h))"
    if "plain_sha (trHeadSHA rec)" "MemT_RecordCheckReport up now rec m = Some m'"
    using memt_record [OF ok that] by blast
  show "trCandidateID r = c \<and> trHeadSHA r = h" if "plain_sha h" "memt_row m c h = Some r"
    by (rule memt_row_key [OF ok that])
  show "memt_row m c h = Some r" if "MemT_LookupCheckReport up c h m = Inr r"
    using that by (simp add: MemT_LookupCheckReport_def memt_row_def split: option.splits)
  show "memt_row m c h = None" if "MemT_LookupCheckReport up c h m = Inl ErrTrackNotFound"
    using that by (simp add: MemT_LookupCheckReport_def memt_row_def split: option.splits)
  show "MemT_FindByDecision up (trDecisionID r) m \<noteq> Inl ErrTrackNotFound" if "plain_sha h" "memt_row m c h = Some r" "trDecisionID r \<noteq> []"
  proof -
    have "trDecisionID r \<in> dom (mtByDecision m)" using ok that unfolding memt_ok_def memt_row_def by blast
    then obtain k where k: "mtByDecision m (trDecisionID r) = Some k" by blast
    then have "k \<in> dom (map_of (mtRevisions m))" using ok ranI [of "mtByDecision m" "trDecisionID r" k, OF k] unfolding memt_ok_def by blast
    with k show ?thesis by (auto simp: MemT_FindByDecision_def)
  qed
  assume o: "MemT_OpenCheckReports up before n m = Some rs"
  define xs where "xs = sort_by (\<lambda>a b. trUpdatedAt a < trUpdatedAt b)
      (filter (\<lambda>r. trPhase r \<noteq> PhaseCompleted \<and> trUpdatedAt r < before) (map snd (mtRevisions m)))"
  have rs: "rs = take n xs" using o by (auto simp: MemT_OpenCheckReports_def Let_def simp flip: xs_def)
  have xs: "x \<in> set xs \<longleftrightarrow> trPhase x \<noteq> PhaseCompleted \<and> trUpdatedAt x < before \<and> (\<exists>k. map_of (mtRevisions m) k = Some x)" for x
    using map_of_values [OF d, of x] by (auto simp: xs_def)
  show "\<forall>r \<in> set rs. trPhase r \<noteq> PhaseCompleted \<and> trUpdatedAt r < before \<and> (plain_sha (trHeadSHA r) \<longrightarrow> memt_row m (trCandidateID r) (trHeadSHA r) = Some r)"
  proof
    fix x assume "x \<in> set rs"
    then have "x \<in> set xs" unfolding rs by (rule in_set_takeD)
    then show "trPhase x \<noteq> PhaseCompleted \<and> trUpdatedAt x < before \<and> (plain_sha (trHeadSHA x) \<longrightarrow> memt_row m (trCandidateID x) (trHeadSHA x) = Some x)"
      using ok unfolding xs by (auto simp: memt_ok_def memt_row_def)
  qed
  show "r \<in> set rs" if "length rs < n" "plain_sha h" "memt_row m c h = Some r" "trPhase r \<noteq> PhaseCompleted" "trUpdatedAt r < before"
    using that xs [of r] unfolding rs by (auto simp: memt_row_def)
qed (auto simp: MemT_RecordCheckReport_def MemT_LookupCheckReport_def MemT_FindByDecision_def MemT_OpenCheckReports_def Let_def split: option.splits)


definition pgt_ok :: "TrackRecord list \<Rightarrow> bool" where
  "pgt_ok rows \<longleftrightarrow> distinct (map (\<lambda>r. (trCandidateID r, trHeadSHA r)) rows)"

definition pgt_row :: "TrackRecord list \<Rightarrow> string \<Rightarrow> string \<Rightarrow> TrackRecord option" where
  "pgt_row rows c h = find (same_revision c h) rows"

lemma pgt_row_Some: "pgt_row rows c h = Some r \<Longrightarrow> r \<in> set rows \<and> trCandidateID r = c \<and> trHeadSHA r = h"
  by (auto simp: pgt_row_def find_Some_iff same_revision_def)

lemma pgt_row_member: "pgt_ok rows \<Longrightarrow> r \<in> set rows \<Longrightarrow> pgt_row rows (trCandidateID r) (trHeadSHA r) = Some r"
  by (induction rows) (auto simp: pgt_ok_def pgt_row_def same_revision_def image_iff)

lemma pgt_row_append: "pgt_row (rows @ [r]) c h = (case pgt_row rows c h of Some x \<Rightarrow> Some x | None \<Rightarrow> if same_revision c h r then Some r else None)"
  by (induction rows) (auto simp: pgt_row_def)

lemma pgt_row_map:
  assumes "\<And>r. same_revision c' h' (f r) = same_revision c' h' r"
  shows "pgt_row (map f rows) c' h' = map_option f (pgt_row rows c' h')"
  using assms by (induction rows) (auto simp: pgt_row_def)

lemma pgt_record:
  assumes ok: "pgt_ok rows" and r: "PGT_RecordCheckReport up now rec rows = Some rows'"
  shows "pgt_ok rows'"
    and "pgt_row rows' c h = (if c = trCandidateID rec \<and> h = trHeadSHA rec then Some (merge_report now (pgt_row rows c h) rec) else pgt_row rows c h)"
proof -
  let ?same = "same_revision (trCandidateID rec) (trHeadSHA rec)"
  let ?f = "\<lambda>r. if ?same r then pg_upsert now r rec else r"
  have keys: "trCandidateID (?f x) = trCandidateID x \<and> trHeadSHA (?f x) = trHeadSHA x" for x by (simp add: pg_upsert_def)
  consider (old) "list_ex ?same rows" "rows' = map ?f rows" | (new) "\<not> list_ex ?same rows" "rows' = rows @ [rec\<lparr>trUpdatedAt := now\<rparr>]"
    using r by (auto simp: PGT_RecordCheckReport_def split: if_splits)
  then have "pgt_ok rows' \<and> pgt_row rows' c h = (if c = trCandidateID rec \<and> h = trHeadSHA rec then Some (merge_report now (pgt_row rows c h) rec) else pgt_row rows c h)"
  proof cases
    case old
    have "map (\<lambda>r. (trCandidateID r, trHeadSHA r)) rows' = map (\<lambda>r. (trCandidateID r, trHeadSHA r)) rows"
      unfolding old(2) using keys by simp
    then have "pgt_ok rows'" using ok by (simp only: pgt_ok_def)
    moreover have row: "pgt_row rows' c h = map_option ?f (pgt_row rows c h)"
      unfolding old(2) by (rule pgt_row_map) (simp add: same_revision_def pg_upsert_def)
    moreover have "pgt_row rows (trCandidateID rec) (trHeadSHA rec) \<noteq> None"
      using old(1) by (auto simp: pgt_row_def find_None_iff list_ex_iff)
    ultimately show ?thesis
      using pgt_row_Some [of rows c h]
      by (cases "pgt_row rows c h") (auto simp: merge_report_def same_revision_def)
  next
    case new
    have "pgt_row rows (trCandidateID rec) (trHeadSHA rec) = None" using new(1) by (auto simp: pgt_row_def find_None_iff list_ex_iff)
    then show ?thesis
      using ok new by (auto simp: pgt_row_append merge_report_def same_revision_def pgt_ok_def list_ex_iff split: option.splits)
  qed
  then show "pgt_ok rows'"
    and "pgt_row rows' c h = (if c = trCandidateID rec \<and> h = trHeadSHA rec then Some (merge_report now (pgt_row rows c h) rec) else pgt_row rows c h)"
    by blast+
qed

interpretation pgt: revision_tracker pgt_row pgt_ok PGT_RecordCheckReport PGT_LookupCheckReport PGT_FindByDecision PGT_OpenCheckReports
proof unfold_locales
  fix rows rows' :: "TrackRecord list" and rec r up now h c before n rs
  assume ok: "pgt_ok rows"
  show "pgt_ok rows' \<and> (\<forall>c h. plain_sha h \<longrightarrow> pgt_row rows' c h =
      (if c = trCandidateID rec \<and> h = trHeadSHA rec then Some (merge_report now (pgt_row rows c h) rec) else pgt_row rows c h))"
    if "PGT_RecordCheckReport up now rec rows = Some rows'"
    using pgt_record [OF ok that] by blast
  show "trCandidateID r = c \<and> trHeadSHA r = h" if "pgt_row rows c h = Some r"
    using pgt_row_Some [OF that] by blast
  show "pgt_row rows c h = Some r" if "PGT_LookupCheckReport up c h rows = Inr r"
    using that by (simp add: PGT_LookupCheckReport_def pgt_row_def split: option.splits if_splits)
  show "pgt_row rows c h = None" if "PGT_LookupCheckReport up c h rows = Inl ErrTrackNotFound"
    using that by (simp add: PGT_LookupCheckReport_def pgt_row_def split: option.splits if_splits)
  show "PGT_FindByDecision up (trDecisionID r) rows \<noteq> Inl ErrTrackNotFound" if "pgt_row rows c h = Some r" "trDecisionID r \<noteq> []"
    using pgt_row_Some [OF that(1)] that(2) by (auto simp: PGT_FindByDecision_def find_None_iff split: option.splits)
  assume o: "PGT_OpenCheckReports up before n rows = Some rs"
  define xs where "xs = sort_by (\<lambda>a b. trUpdatedAt a < trUpdatedAt b) (filter (\<lambda>r. trPhase r \<noteq> ''completed'' \<and> trUpdatedAt r < before) rows)"
  have rs: "rs = take n xs" using o by (auto simp: PGT_OpenCheckReports_def split: if_splits simp flip: xs_def)
  have xs: "x \<in> set xs \<longleftrightarrow> trPhase x \<noteq> PhaseCompleted \<and> trUpdatedAt x < before \<and> x \<in> set rows" for x
    by (auto simp: xs_def PhaseCompleted_def)
  show "\<forall>r \<in> set rs. trPhase r \<noteq> PhaseCompleted \<and> trUpdatedAt r < before \<and> (plain_sha (trHeadSHA r) \<longrightarrow> pgt_row rows (trCandidateID r) (trHeadSHA r) = Some r)"
    using pgt_row_member [OF ok] unfolding rs by (auto dest!: in_set_takeD simp: xs)
  show "r \<in> set rs" if "length rs < n" "pgt_row rows c h = Some r" "trPhase r \<noteq> PhaseCompleted" "trUpdatedAt r < before"
    using that xs [of r] pgt_row_Some [OF that(2)] unfolding rs by auto
qed (auto simp: PGT_RecordCheckReport_def PGT_LookupCheckReport_def PGT_FindByDecision_def PGT_OpenCheckReports_def split: option.splits)

subsection \<open>The stores agree\<close>

fun reports :: "(bool \<Rightarrow> gotime \<Rightarrow> TrackRecord \<Rightarrow> 't \<Rightarrow> 't option) \<Rightarrow> (gotime \<times> TrackRecord) list \<Rightarrow> 't \<Rightarrow> 't" where
  "reports rp [] t = t"
| "reports rp ((now, rec) # rs) t = reports rp rs (case rp True now rec t of Some t' \<Rightarrow> t' | None \<Rightarrow> t)"

lemma reports_agree:
  "memt_ok m \<Longrightarrow> pgt_ok rows \<Longrightarrow> \<forall>(now, rec) \<in> set rs. plain_sha (trHeadSHA rec) \<Longrightarrow>
     \<forall>c h. plain_sha h \<longrightarrow> memt_row m c h = pgt_row rows c h \<Longrightarrow> plain_sha h \<Longrightarrow>
     memt_row (reports MemT_RecordCheckReport rs m) c h = pgt_row (reports PGT_RecordCheckReport rs rows) c h"
proof (induction rs arbitrary: m rows)
  case (Cons nr rs)
  obtain now rec where nr: "nr = (now, rec)" by force
  obtain m' where m': "MemT_RecordCheckReport True now rec m = Some m'" using memt.record_up by blast
  obtain rows' where rows': "PGT_RecordCheckReport True now rec rows = Some rows'" using pgt.record_up by blast
  have sha: "plain_sha (trHeadSHA rec)" using Cons.prems(3) nr by auto
  note a = memt.record_some [OF Cons.prems(1) sha m'] and b = pgt.record_some [OF Cons.prems(2) sha rows']
  have "memt_row (reports MemT_RecordCheckReport rs m') c h = pgt_row (reports PGT_RecordCheckReport rs rows') c h"
    using a b Cons.prems by (intro Cons.IH) auto
  then show ?case by (simp add: nr m' rows')
qed simp

text \<open>The in-memory tracker is faithful to the durable one: after the same reports, both hold the same row for every
  revision, the field-wise merge of the reports of that revision.\<close>

theorem trackers_hold_same_rows:
  assumes "\<forall>(now, rec) \<in> set rs. plain_sha (trHeadSHA rec)" and "plain_sha headSHA"
  shows "memt_row (reports MemT_RecordCheckReport rs NewMemTracker) candidateID headSHA
    = pgt_row (reports PGT_RecordCheckReport rs []) candidateID headSHA"
  using assms by (intro reports_agree) (auto simp: memt_ok_def NewMemTracker_def memt_row_def pgt_ok_def pgt_row_def)

definition sample_report :: "string \<Rightarrow> TrackRecord" where
  "sample_report dec = \<lparr>trCandidateID = ''cand_1'', trHeadSHA = ''aa'', trRepo = ''acme/app'', trCheckRunID = 9, trPhase = PhaseCompleted,
     trConclusion = ''success'', trDecisionID = dec, trLastDecision = None, trStalled = False, trUpdatedAt = 0\<rparr>"

theorem trackers_hold_same_rows_witness:
  "memt_row (reports MemT_RecordCheckReport [(5, sample_report ''dec_1''), (6, sample_report ''dec_2'')] NewMemTracker) ''cand_1'' ''aa''
    = Some ((sample_report ''dec_2'')\<lparr>trUpdatedAt := 6\<rparr>)"
proof -
  have "memt_row (reports MemT_RecordCheckReport [(5, sample_report ''dec_1''), (6, sample_report ''dec_2'')] NewMemTracker) ''cand_1'' ''aa''
      = pgt_row (reports PGT_RecordCheckReport [(5, sample_report ''dec_1''), (6, sample_report ''dec_2'')] []) ''cand_1'' ''aa''"
    by (rule trackers_hold_same_rows) (simp_all add: sample_report_def plain_sha_def)
  also have "\<dots> = Some ((sample_report ''dec_2'')\<lparr>trUpdatedAt := 6\<rparr>)"
    by (simp add: PGT_RecordCheckReport_def pgt_row_def same_revision_def sample_report_def pg_upsert_def PhaseCompleted_def)
  finally show ?thesis .
qed

text \<open>They differ on superseded decisions: the in-memory index keeps the id of a replaced decision (its entry is deleted
  under the new id), the Postgres query only sees the current one.\<close>

lemma superseded_decision_lookup:
  "MemT_FindByDecision True ''dec_1'' (reports MemT_RecordCheckReport [(5, sample_report ''dec_1''), (6, sample_report ''dec_2'')] NewMemTracker)
      = Inr ((sample_report ''dec_2'')\<lparr>trUpdatedAt := 6\<rparr>)
   \<and> PGT_FindByDecision True ''dec_1'' (reports PGT_RecordCheckReport [(5, sample_report ''dec_1''), (6, sample_report ''dec_2'')] []) = Inl ErrTrackNotFound"
  by (simp add: MemT_RecordCheckReport_def MemT_FindByDecision_def PGT_RecordCheckReport_def PGT_FindByDecision_def NewMemTracker_def
      same_revision_def sample_report_def pg_upsert_def mem_merge_def PhaseCompleted_def revisionKey_def Let_def)

end
