(* ===== verification/Seen.thy ===== *)
theory Seen
  imports Sprintf
begin

text \<open>
  The replay window of the webhook edge (ingest/internal/seen): the content class of a delivery and the bounded LRU of
  classes seen recently. The cache's list is \<open>scEntries\<close>, most recently used first; the index map of the source
  is the lookup in it. \<^verbatim>\<open>json.Unmarshal\<close>, \<^verbatim>\<open>json.Marshal\<close> and SHA-256 are parameters.
\<close>

subsection \<open>Content classes (class.go)\<close>

text \<open>A decoded document. An object is the list of its fields in the order the map iteration visits them; a number
  carries the text it is marshalled to.\<close>

datatype jval = VNull | VBool bool | VNum string | VStr string | VArr "jval list" | VObj "(string \<times> jval) list"

record JsonCodec =
  jcUnmarshal :: "string \<Rightarrow> jval option"
  jcMarshal :: "jval \<Rightarrow> string"
  jcSHA256 :: "string \<Rightarrow> string"

definition volatileKeys :: "string list" where
  "volatileKeys = [''request_id'', ''delivery'', ''delivery_id'', ''received_at'', ''uploaded_at'', ''forwarded_at'']"

fun join_commas :: "string list \<Rightarrow> string" where
  "join_commas [] = []"
| "join_commas [x] = x"
| "join_commas (x # y # xs) = x @ '','' @ join_commas (y # xs)"

fun encodeCanonical :: "(jval \<Rightarrow> string) \<Rightarrow> jval \<Rightarrow> string" where
  "encodeCanonical mj (VObj kvs) = ''{'' @ join_commas (map (\<lambda>(k, txt). mj (VStr k) @ '':'' @ txt)
     (sort_key fst (filter (\<lambda>(k, txt). k \<notin> set volatileKeys) (map (\<lambda>(k, v). (k, encodeCanonical mj v)) kvs)))) @ ''}''"
| "encodeCanonical mj (VArr vs) = ''['' @ join_commas (map (encodeCanonical mj) vs) @ '']''"
| "encodeCanonical mj v = mj v"

definition canonicalize :: "JsonCodec \<Rightarrow> string \<Rightarrow> string" where
  "canonicalize jc raw = (case jcUnmarshal jc raw of None \<Rightarrow> raw | Some v \<Rightarrow> encodeCanonical (jcMarshal jc) v)"

definition ClassHash :: "JsonCodec \<Rightarrow> string \<Rightarrow> string \<Rightarrow> string \<Rightarrow> string \<Rightarrow> string" where
  "ClassHash jc source repo eventKind rawPayload =
     jcSHA256 jc (source @ ''|'' @ repo @ ''|'' @ eventKind @ ''|'' @ canonicalize jc rawPayload)"

text \<open>Two documents have the same content when they differ only in the order of fields and in volatile fields, at any
  depth.\<close>

inductive same_content :: "jval \<Rightarrow> jval \<Rightarrow> bool" where
  leaf: "same_content v v"
| arr: "list_all2 same_content vs ws \<Longrightarrow> same_content (VArr vs) (VArr ws)"
| obj: "distinct (map fst kvs) \<Longrightarrow> distinct (map fst lws) \<Longrightarrow>
    (\<And>k. k \<notin> set volatileKeys \<Longrightarrow> rel_option same_content (map_of kvs k) (map_of lws k)) \<Longrightarrow> same_content (VObj kvs) (VObj lws)"

lemma map_of_map_snd: "map_of (map (\<lambda>(k, v). (k, f v)) xs) k = map_option f (map_of xs k)"
  by (induction xs) auto

lemma map_of_filter_key: "map_of (filter (\<lambda>(k, v). P k) xs) k = (if P k then map_of xs k else None)"
  by (induction xs) auto

lemma sort_key_fst_map_of:
  fixes xs ys :: "('a::linorder \<times> 'b) list"
  assumes "distinct (map fst xs)" and "distinct (map fst ys)" and "map_of xs = map_of ys"
  shows "sort_key fst xs = sort_key fst ys"
proof -
  have "set xs = set ys" using assms by (metis map_of_eq_Some_iff subsetI subset_antisym surj_pair)
  then have "mset xs = mset ys" using assms by (simp add: distinct_map set_eq_iff_mset_eq_distinct)
  moreover have "inj_on fst (set xs)" using assms(1) by (simp add: distinct_map)
  ultimately show ?thesis by (rule sort_key_eq_sort_key)
qed


lemma same_content_canonical: "same_content v w \<Longrightarrow> encodeCanonical mj v = encodeCanonical mj w"
proof (induction rule: same_content.induct)
  case (arr vs ws)
  then have "map (encodeCanonical mj) vs = map (encodeCanonical mj) ws" by (auto simp: list_all2_conv_all_nth intro!: nth_equalityI)
  then show ?case by simp
next
  case (obj kvs lws)
  let ?enc = "\<lambda>xs. filter (\<lambda>(k, txt). k \<notin> set volatileKeys) (map (\<lambda>(k, v). (k, encodeCanonical mj v)) xs)"
  have keys: "map fst (map (\<lambda>(k, v). (k, encodeCanonical mj v)) xs) = map fst xs" for xs :: "(string \<times> jval) list"
    by (simp add: case_prod_unfold o_def)
  have dist: "distinct (map fst (?enc xs))" if "distinct (map fst xs)" for xs
    using that by (metis distinct_map_filter keys)
  have "map_of (?enc kvs) k = map_of (?enc lws) k" for k
    unfolding map_of_filter_key map_of_map_snd using obj.IH [of k]
    by (auto elim!: option.rel_cases simp: option_rel_Some1)
  then have "sort_key fst (?enc kvs) = sort_key fst (?enc lws)"
    by (intro sort_key_fst_map_of dist obj.hyps ext)
  then show ?case by simp
qed simp

subsection \<open>The window (lru.go)\<close>

text \<open>\<^verbatim>\<open>time.Time.Sub\<close> saturates at the ends of the 64-bit range.\<close>

definition time_sub :: "gotime \<Rightarrow> gotime \<Rightarrow> duration" where
  "time_sub a b = max (- (2 ^ 63)) (min (2 ^ 63 - 1) (a - b))"

record SeenCache =
  scMax :: nat
  scTTL :: duration
  scEntries :: "(string \<times> gotime) list"
  scEvicted :: nat

definition DefaultMaxEntries :: int where
  "DefaultMaxEntries = 100000"

definition DefaultTTL :: duration where
  "DefaultTTL = 86400000000000"

definition NewCache :: "int \<Rightarrow> duration \<Rightarrow> SeenCache" where
  "NewCache maxEntries ttl = \<lparr>scMax = nat (if maxEntries \<le> 0 then DefaultMaxEntries else maxEntries),
     scTTL = (if ttl \<le> 0 then DefaultTTL else ttl), scEntries = [], scEvicted = 0\<rparr>"

function evict_loop :: "SeenCache \<Rightarrow> SeenCache" where
  "evict_loop c = (if length (scEntries c) > scMax c
     then evict_loop (c\<lparr>scEntries := butlast (scEntries c), scEvicted := scEvicted c + 1\<rparr>) else c)"
  by pat_completeness auto

termination evict_loop
  by (relation "measure (\<lambda>c. length (scEntries c))") auto

declare evict_loop.simps [simp del]

definition SeenOrAdd :: "gotime \<Rightarrow> string \<Rightarrow> SeenCache \<Rightarrow> bool \<times> SeenCache" where
  "SeenOrAdd now key c =
    (let others = filter (\<lambda>(k, t). k \<noteq> key) (scEntries c) in
     case map_of (scEntries c) key of
       Some stamp \<Rightarrow>
         if time_sub now stamp < scTTL c then (True, c\<lparr>scEntries := (key, now) # others\<rparr>)
         else (False, evict_loop (c\<lparr>scEntries := (key, now) # others, scEvicted := scEvicted c + 1\<rparr>))
     | None \<Rightarrow> (False, evict_loop (c\<lparr>scEntries := (key, now) # scEntries c\<rparr>)))"

text \<open>The calls made so far, latest first, and the classes in them by their latest call.\<close>

type_synonym history = "(string \<times> gotime) list"

fun recency :: "history \<Rightarrow> (string \<times> gotime) list" where
  "recency [] = []"
| "recency ((k, t) # h) = (k, t) # filter (\<lambda>(k', t'). k' \<noteq> k) (recency h)"

fun after_calls :: "history \<Rightarrow> SeenCache \<Rightarrow> SeenCache" where
  "after_calls [] c = c"
| "after_calls ((k, t) # h) c = snd (SeenOrAdd t k (after_calls h c))"

lemma evict_loop_eq: "evict_loop c = c\<lparr>scEntries := take (scMax c) (scEntries c), scEvicted := scEvicted c + (length (scEntries c) - scMax c)\<rparr>"
proof (induction c rule: evict_loop.induct)
  case (1 c)
  show ?case
  proof (cases "length (scEntries c) > scMax c")
    case True
    then have "take (scMax c) (butlast (scEntries c)) = take (scMax c) (scEntries c)" by (simp add: butlast_conv_take min_absorb1)
    with True 1 show ?thesis by (subst evict_loop.simps) simp
  next
    case False
    then show ?thesis by (subst evict_loop.simps) simp
  qed
qed

lemma recency_keys: "fst ` set (recency h) = fst ` set h"
  by (induction h rule: recency.induct) (simp_all, fastforce)

lemma recency_distinct: "distinct (map fst (recency h))"
  by (induction h rule: recency.induct) (auto simp: distinct_map_filter)

lemma length_recency: "length (recency h) = card (fst ` set h)"
  by (metis recency_keys recency_distinct distinct_card length_map list.set_map)

lemma recency_split:
  "k \<notin> fst ` set h1 \<Longrightarrow> recency (h1 @ (k, t) # h2) =
     recency h1 @ (k, t) # filter (\<lambda>(k', t'). k' \<noteq> k \<and> k' \<notin> fst ` set h1) (recency h2)"
  by (induction h1 rule: recency.induct) (auto simp: filter_filter intro!: filter_cong)

lemma take_filter_key_in:
  "distinct (map fst xs) \<Longrightarrow> map_of (take n xs) k = Some t \<Longrightarrow>
     filter (\<lambda>(k', t'). k' \<noteq> k) (take n xs) = take (n - 1) (filter (\<lambda>(k', t'). k' \<noteq> k) xs)"
proof (induction xs arbitrary: n)
  case (Cons x xs)
  obtain m where n: "n = Suc m" using Cons(3) by (cases n) auto
  show ?case
  proof (cases "fst x = k")
    case True
    with Cons(2) have "k \<notin> fst ` set xs" by auto
    then have "filter (\<lambda>(k', t'). k' \<noteq> k) xs = xs" by (auto simp: filter_id_conv rev_image_eqI)
    then have "filter (\<lambda>(k', t'). k' \<noteq> k) (take m xs) = take m xs" by (auto simp: filter_id_conv dest: in_set_takeD)
    with True n \<open>filter (\<lambda>(k', t'). k' \<noteq> k) xs = xs\<close> show ?thesis by (cases x) simp
  next
    case False
    with Cons n show ?thesis by (cases x; cases m) auto
  qed
qed simp

lemma take_filter_key_out: "map_of (take n xs) k = None \<Longrightarrow> take n (filter (\<lambda>(k', t'). k' \<noteq> k) xs) = take n xs"
proof (induction xs arbitrary: n)
  case (Cons x xs)
  then show ?case by (cases n; cases x) (auto split: if_splits)
qed simp

lemma SeenOrAdd_recency:
  assumes "scEntries c = take (scMax c) (recency h)" and "0 < scMax c"
  shows "scEntries (snd (SeenOrAdd t k c)) = take (scMax c) (recency ((k, t) # h))"
    and "scMax (snd (SeenOrAdd t k c)) = scMax c" and "scTTL (snd (SeenOrAdd t k c)) = scTTL c"
proof -
  obtain m where m: "scMax c = Suc m" using assms(2) by (cases "scMax c") auto
  show "scEntries (snd (SeenOrAdd t k c)) = take (scMax c) (recency ((k, t) # h))"
  proof (cases "map_of (scEntries c) k")
    case None
    then have "k \<notin> fst ` set (take (Suc m) (recency h))" by (simp add: assms(1) m map_of_eq_None_iff)
    then have "map_of (take m (recency h)) k = None" using set_take_subset_set_take [of m "Suc m" "recency h"] by (auto simp: map_of_eq_None_iff)
    from take_filter_key_out [OF this] have "take m (filter (\<lambda>(k', t'). k' \<noteq> k) (recency h)) = take m (recency h)" .
    with None m assms(1) show ?thesis by (simp add: SeenOrAdd_def Let_def evict_loop_eq)
  next
    case (Some stamp)
    have "filter (\<lambda>(k', t'). k' \<noteq> k) (scEntries c) = take m (filter (\<lambda>(k', t'). k' \<noteq> k) (recency h))"
      using take_filter_key_in [OF recency_distinct, of "Suc m" h k stamp] Some assms(1) m by simp
    with Some m show ?thesis by (simp add: SeenOrAdd_def Let_def evict_loop_eq)
  qed
qed (simp_all add: SeenOrAdd_def Let_def evict_loop_eq split: option.split)

lemma after_calls_recency:
  assumes "scEntries c = []" and "0 < scMax c"
  shows "scEntries (after_calls h c) = take (scMax c) (recency h) \<and> scMax (after_calls h c) = scMax c \<and> scTTL (after_calls h c) = scTTL c"
  using assms by (induction h rule: recency.induct) (use SeenOrAdd_recency in \<open>force+\<close>)


lemma recency_lookup:
  "map_of (take n (recency h)) k = Some t \<longleftrightarrow>
     (\<exists>h1 h2. h = h1 @ (k, t) # h2 \<and> k \<notin> fst ` set h1 \<and> card (fst ` set h1) < n)" (is "?l \<longleftrightarrow> ?r")
proof
  assume ?l
  then have mem: "(k, t) \<in> set (take n (recency h))" by (rule map_of_SomeD)
  then have "k \<in> fst ` set h" by (metis fst_conv image_eqI in_set_takeD recency_keys)
  then have "\<exists>x \<in> set h. fst x = k" by auto
  from split_list_first_prop [OF this] obtain h1 t' h2 where h: "h = h1 @ (k, t') # h2" "k \<notin> fst ` set h1" by (metis image_iff prod.collapse)
  let ?rest = "filter (\<lambda>(k', t'). k' \<noteq> k \<and> k' \<notin> fst ` set h1) (recency h2)"
  have rec: "recency h = recency h1 @ (k, t') # ?rest" using h recency_split by simp
  have out: "(k, t) \<notin> set (recency h1)" using h(2) recency_keys [of h1] by force
  have "card (fst ` set h1) < n"
  proof (rule ccontr)
    assume "\<not> card (fst ` set h1) < n"
    then have "take n (recency h) = take n (recency h1)" by (simp add: rec length_recency)
    with mem out show False by (auto dest: in_set_takeD)
  qed
  moreover have "t' = t" using mem rec out by (auto dest!: in_set_takeD)
  ultimately show ?r using h by blast
next
  assume ?r
  then obtain h1 h2 where h: "h = h1 @ (k, t) # h2" "k \<notin> fst ` set h1" "card (fst ` set h1) < n" by blast
  let ?rest = "filter (\<lambda>(k', t'). k' \<noteq> k \<and> k' \<notin> fst ` set h1) (recency h2)"
  obtain m where m: "n - card (fst ` set h1) = Suc m" using h(3) by (metis Suc_diff_Suc)
  have "take n (recency h) = recency h1 @ (k, t) # take m ?rest"
    using h m by (simp add: recency_split length_recency)
  moreover have "map_of (recency h1) k = None" using h(2) by (simp add: map_of_eq_None_iff recency_keys)
  ultimately show ?l by (simp add: map_add_def)
qed

text \<open>The replay window is exact. Whatever calls were made before on a new cache, latest first in \<open>h\<close>, a class is reported
  as seen exactly when it was presented before, fewer than the capacity of other classes have been presented since, and its
  latest presentation is less than the time to live ago; and the cache never holds more than its capacity.\<close>

theorem seen_window_exact:
  "(fst (SeenOrAdd now key (after_calls h (NewCache maxEntries ttl))) \<longleftrightarrow>
     (\<exists>h1 t h2. h = h1 @ (key, t) # h2 \<and> key \<notin> fst ` set h1 \<and> card (fst ` set h1) < scMax (NewCache maxEntries ttl) \<and>
        time_sub now t < scTTL (NewCache maxEntries ttl))) \<and>
   length (scEntries (after_calls h (NewCache maxEntries ttl))) \<le> scMax (NewCache maxEntries ttl)"
proof -
  let ?c = "NewCache maxEntries ttl" and ?c' = "after_calls h (NewCache maxEntries ttl)"
  have c': "scEntries ?c' = take (scMax ?c) (recency h)" "scTTL ?c' = scTTL ?c"
    using after_calls_recency [of ?c h] by (simp_all add: NewCache_def DefaultMaxEntries_def)
  have "fst (SeenOrAdd now key ?c') \<longleftrightarrow> (\<exists>t. map_of (scEntries ?c') key = Some t \<and> time_sub now t < scTTL ?c)"
    by (simp add: SeenOrAdd_def Let_def c'(2) split: option.split)
  then show ?thesis unfolding c'(1) recency_lookup by auto
qed

text \<open>The class of a delivery does not depend on the order of the fields of its payload nor on the fields that only
  describe the transport, at any depth.\<close>

theorem class_ignores_transport:
  assumes "jcUnmarshal jc raw = Some v" and "jcUnmarshal jc raw' = Some v'" and "same_content v v'"
  shows "ClassHash jc source repo eventKind raw = ClassHash jc source repo eventKind raw'"
  using assms by (simp add: ClassHash_def canonicalize_def same_content_canonical)

end
