(* ===== verification/Ingest.thy ===== *)
theory Ingest
  imports Seen
begin

text \<open>
  Deliveries of the webhook edge (services/ingest): the two delivery stores, redaction and forwarding to the control plane,
  and the retry worker. The worker calls the store through its interface, so the operations are arguments of its
  definitions; the locale \<open>delivery_store\<close> states what it relies on, and the Postgres and the in-memory store are the
  two providers. HMAC, SHA-256, JSON, the redaction patterns and \<^verbatim>\<open>time.Parse\<close> are parameters
  (\<open>EdgeEnv\<close>); ULIDs and the clock are arguments.
\<close>

subsection \<open>Deliveries (domain/delivery.go)\<close>

datatype DeliveryStatus = DlvPending | DlvForwarded | DlvForwardFailed | DlvRejected | DlvDuplicateSuspect

datatype IngestErr = ErrDuplicateDelivery | ErrDeliveryNotFound | ErrIngestStorage

record Delivery =
  dlID :: string
  dlSource :: string
  dlExtDeliveryID :: string
  dlEventKind :: string
  dlRepo :: string
  dlSigOK :: bool
  dlHeaders :: "(string \<times> string) list"
  dlPayload :: string
  dlStatus :: DeliveryStatus
  dlAttempts :: int
  dlReceivedAt :: gotime
  dlLastAttemptAt :: "gotime option"
  dlForwardedAt :: "gotime option"
  dlPayloadClassHash :: string
  dlDuplicateSuspect :: bool

definition SourceGitHub :: string where
  "SourceGitHub = ''github''"

definition Retryable :: "int \<Rightarrow> Delivery \<Rightarrow> bool" where
  "Retryable maxAttempts d \<longleftrightarrow> dlStatus d \<noteq> DlvForwarded \<and> dlStatus d \<noteq> DlvRejected \<and> dlAttempts d < maxAttempts"

subsection \<open>The Postgres store (store/pg.go)\<close>

text \<open>The table with its primary key and the unique index over \<open>(source, ext_delivery_id)\<close> of the rows with a valid
  signature. \<open>up\<close> tells whether the database answers.\<close>

definition dlv_conflict :: "Delivery \<Rightarrow> Delivery \<Rightarrow> bool" where
  "dlv_conflict d row \<longleftrightarrow> dlID row = dlID d \<or>
     dlSigOK row \<and> dlSigOK d \<and> dlSource row = dlSource d \<and> dlExtDeliveryID row = dlExtDeliveryID d"

definition PG_InsertDelivery :: "bool \<Rightarrow> Delivery \<Rightarrow> Delivery list \<Rightarrow> IngestErr + Delivery list" where
  "PG_InsertDelivery up d rows = (if \<not> up then Inl ErrIngestStorage
     else if list_ex (dlv_conflict d) rows then Inl ErrDuplicateDelivery else Inr (rows @ [d\<lparr>dlLastAttemptAt := None, dlForwardedAt := None\<rparr>]))"

definition PG_GetDelivery :: "string \<Rightarrow> string \<Rightarrow> Delivery list \<Rightarrow> IngestErr + Delivery" where
  "PG_GetDelivery source ext rows = (case find (\<lambda>d. dlSource d = source \<and> dlExtDeliveryID d = ext) rows of
     None \<Rightarrow> Inl ErrDeliveryNotFound | Some d \<Rightarrow> Inr d)"

definition PG_UpdateForwardState :: "string \<Rightarrow> DeliveryStatus \<Rightarrow> int \<Rightarrow> gotime \<Rightarrow> gotime option \<Rightarrow> Delivery list \<Rightarrow> IngestErr + Delivery list" where
  "PG_UpdateForwardState ident status attempts lastAttemptAt forwardedAt rows =
    (if \<not> list_ex (\<lambda>d. dlID d = ident) rows then Inl ErrDeliveryNotFound
     else Inr (map (\<lambda>d. if dlID d = ident then d\<lparr>dlStatus := status, dlAttempts := attempts, dlLastAttemptAt := Some lastAttemptAt,
       dlForwardedAt := forwardedAt\<rparr> else d) rows))"

definition last_try :: "Delivery \<Rightarrow> gotime" where
  "last_try d = (case dlLastAttemptAt d of None \<Rightarrow> dlReceivedAt d | Some t \<Rightarrow> t)"

definition PG_DueDeliveries :: "gotime \<Rightarrow> duration \<Rightarrow> int \<Rightarrow> nat \<Rightarrow> Delivery list \<Rightarrow> Delivery list" where
  "PG_DueDeliveries now olderThan maxAttempts limit rows =
    map (\<lambda>d. d\<lparr>dlHeaders := [], dlLastAttemptAt := Some (last_try d), dlForwardedAt := None\<rparr>)
      (take limit (sort_by (\<lambda>a b. dlReceivedAt a < dlReceivedAt b)
        (filter (\<lambda>d. dlStatus d \<in> {DlvPending, DlvForwardFailed, DlvDuplicateSuspect} \<and> dlAttempts d < maxAttempts \<and>
           last_try d \<le> now - olderThan) rows)))"

definition PG_CountByStatus :: "Delivery list \<Rightarrow> DeliveryStatus \<Rightarrow> int option" where
  "PG_CountByStatus rows st = (let n = length (filter (\<lambda>d. dlStatus d = st) rows) in if n = 0 then None else Some (int n))"

subsection \<open>The in-memory store (store/memory.go)\<close>

text \<open>The map \<^verbatim>\<open>deliveries\<close> as its entries in iteration order, which is arbitrary.\<close>

type_synonym MemDeliveries = "(string \<times> Delivery) list"

definition dlv_key :: "string \<Rightarrow> string \<Rightarrow> string" where
  "dlv_key source ext = source @ [CHR 0x00] @ ext"

definition Mem_InsertDelivery :: "Delivery \<Rightarrow> MemDeliveries \<Rightarrow> IngestErr + MemDeliveries" where
  "Mem_InsertDelivery d m = (let key = dlv_key (dlSource d) (dlExtDeliveryID d) in
     case map_of m key of
       Some existing \<Rightarrow> if dlSigOK d \<and> dlSigOK existing then Inl ErrDuplicateDelivery
         else Inr (map (\<lambda>(k, x). if k = key then (k, d) else (k, x)) m)
     | None \<Rightarrow> Inr (m @ [(key, d)]))"

definition Mem_GetDelivery :: "string \<Rightarrow> string \<Rightarrow> MemDeliveries \<Rightarrow> IngestErr + Delivery" where
  "Mem_GetDelivery source ext m = (case map_of m (dlv_key source ext) of None \<Rightarrow> Inl ErrDeliveryNotFound | Some d \<Rightarrow> Inr d)"

fun Mem_UpdateForwardState :: "string \<Rightarrow> DeliveryStatus \<Rightarrow> int \<Rightarrow> gotime \<Rightarrow> gotime option \<Rightarrow> MemDeliveries \<Rightarrow> IngestErr + MemDeliveries" where
  "Mem_UpdateForwardState ident status attempts lastAttemptAt forwardedAt [] = Inl ErrDeliveryNotFound"
| "Mem_UpdateForwardState ident status attempts lastAttemptAt forwardedAt ((k, d) # m) =
    (if dlID d = ident then Inr ((k, d\<lparr>dlStatus := status, dlAttempts := attempts, dlLastAttemptAt := Some lastAttemptAt,
       dlForwardedAt := forwardedAt\<rparr>) # m)
     else case Mem_UpdateForwardState ident status attempts lastAttemptAt forwardedAt m of Inl e \<Rightarrow> Inl e | Inr m' \<Rightarrow> Inr ((k, d) # m'))"

fun due_loop :: "gotime \<Rightarrow> duration \<Rightarrow> int \<Rightarrow> nat \<Rightarrow> Delivery list \<Rightarrow> MemDeliveries \<Rightarrow> Delivery list" where
  "due_loop now olderThan maxAttempts limit out [] = out"
| "due_loop now olderThan maxAttempts limit out ((k, d) # m) =
    (if dlStatus d = DlvForwarded \<or> dlStatus d = DlvRejected \<or> dlAttempts d \<ge> maxAttempts then due_loop now olderThan maxAttempts limit out m
     else if time_sub now (last_try d) \<ge> olderThan
       then (if length (out @ [d]) \<ge> limit then out @ [d] else due_loop now olderThan maxAttempts limit (out @ [d]) m)
     else due_loop now olderThan maxAttempts limit out m)"

definition Mem_DueDeliveries :: "gotime \<Rightarrow> duration \<Rightarrow> int \<Rightarrow> nat \<Rightarrow> MemDeliveries \<Rightarrow> Delivery list" where
  "Mem_DueDeliveries now olderThan maxAttempts limit m = due_loop now olderThan maxAttempts limit [] m"

subsection \<open>Redaction and forwarding (redact/redact.go, forward/forwarder.go)\<close>

record Envelope =
  enSource :: string
  enExtDeliveryID :: string
  enEventKind :: string
  enRepo :: string
  enReceivedAt :: gotime
  enPayload :: string
  enDuplicateSuspect :: bool
  enQuarantineReason :: string

text \<open>\<open>eeDecode\<close> is a \<^verbatim>\<open>json.Decoder\<close> reading the first value of its input; \<open>eeActionOf\<close> and \<open>eeRepoOf\<close>
  are the decoding of the two probe structs, \<open>None\<close> where it fails.\<close>

record EdgeEnv = JsonCodec +
  eeDecode :: "string \<Rightarrow> jval option"
  eeActionOf :: "string \<Rightarrow> string option"
  eeRepoOf :: "string \<Rightarrow> string option"
  eeHMAC :: "string \<Rightarrow> string \<Rightarrow> string"
  eeScrub :: "string \<Rightarrow> string"
  eeSensitive :: "string \<Rightarrow> bool"
  eeMarshalEnvelope :: "Envelope \<Rightarrow> string"
  eeParseRFC3339 :: "string \<Rightarrow> gotime option"

fun redact_walk :: "(string \<Rightarrow> bool) \<Rightarrow> (string \<Rightarrow> string) \<Rightarrow> jval \<Rightarrow> jval" where
  "redact_walk sens scrub (VObj kvs) = VObj (map (\<lambda>(k, v). (k, if sens k then VStr ''[REDACTED]'' else redact_walk sens scrub v)) kvs)"
| "redact_walk sens scrub (VArr vs) = VArr (map (redact_walk sens scrub) vs)"
| "redact_walk sens scrub (VStr s) = VStr (scrub s)"
| "redact_walk sens scrub v = v"

definition RedactPayload :: "EdgeEnv \<Rightarrow> string \<Rightarrow> unit + string" where
  "RedactPayload ee raw = (case eeDecode ee raw of None \<Rightarrow> Inl ()
     | Some doc \<Rightarrow> Inr (jcMarshal ee (redact_walk (eeSensitive ee) (eeScrub ee) doc)))"

datatype ForwardResult = ResultAccepted | ResultUnavailable | ResultRejected

definition hex_digit :: "nat \<Rightarrow> char" where
  "hex_digit n = (if n < 10 then char_of (48 + n) else char_of (87 + n))"

definition hex_encode :: "string \<Rightarrow> string" where
  "hex_encode s = concat (map (\<lambda>c. [hex_digit (of_char c div 16), hex_digit (of_char c mod 16)]) s)"

record SignedRequest =
  srIdempotencyKey :: string
  srSignature :: string
  srBody :: string

text \<open>\<open>answer\<close> is what the POST gives: \<open>None\<close> for a transport error, else the status code.\<close>

definition Send_request :: "EdgeEnv \<Rightarrow> string \<Rightarrow> Envelope \<Rightarrow> SignedRequest" where
  "Send_request ee secret env = (let body = eeMarshalEnvelope ee env in
     \<lparr>srIdempotencyKey = enExtDeliveryID env, srSignature = ''sha256='' @ hex_encode (eeHMAC ee secret body), srBody = body\<rparr>)"

definition Send_result :: "nat option \<Rightarrow> ForwardResult" where
  "Send_result answer = (case answer of None \<Rightarrow> ResultUnavailable | Some code \<Rightarrow>
     if code = 200 \<or> code = 202 then ResultAccepted else if code = 503 then ResultUnavailable else ResultRejected)"

definition Send :: "EdgeEnv \<Rightarrow> string \<Rightarrow> (SignedRequest \<Rightarrow> nat option) \<Rightarrow> Envelope \<Rightarrow> ForwardResult" where
  "Send ee secret transport env = Send_result (transport (Send_request ee secret env))"

definition delivery_envelope :: "Delivery \<Rightarrow> string \<Rightarrow> Envelope" where
  "delivery_envelope d clean = \<lparr>enSource = dlSource d, enExtDeliveryID = dlExtDeliveryID d, enEventKind = dlEventKind d, enRepo = dlRepo d,
     enReceivedAt = dlReceivedAt d, enPayload = clean, enDuplicateSuspect = dlDuplicateSuspect d, enQuarantineReason = []\<rparr>"


subsection \<open>The retry worker (retry/worker.go)\<close>

definition attemptsPerScan :: nat where
  "attemptsPerScan = 3"

definition dueAge :: duration where
  "dueAge = 30000000000"

text \<open>The backoff between two sends of a burst; the product of the base delay and a power of two is exact below
  \<open>2 ^ 53\<close> nanoseconds.\<close>

definition backoff :: "duration \<Rightarrow> nat \<Rightarrow> duration" where
  "backoff baseDelay attempt = (let d = baseDelay * 2 ^ (attempt - 1) in if d > 30000000000 then 30000000000 else d)"

text \<open>Whether the context of the worker ends while an attempt is sent or while the worker waits after it.\<close>

datatype CtxState = CtxLive | CtxEndedSend | CtxEndedWait

function retry_loop :: "(nat \<Rightarrow> ForwardResult) \<Rightarrow> (nat \<Rightarrow> CtxState) \<Rightarrow> nat \<Rightarrow> ForwardResult option" where
  "retry_loop send ctx attempt =
    (if send attempt \<noteq> ResultUnavailable \<or> ctx attempt = CtxEndedSend then Some (send attempt)
     else if attempt < attemptsPerScan
     then (if ctx attempt = CtxEndedWait then None else retry_loop send ctx (attempt + 1))
     else Some (send attempt))"
  by pat_completeness auto

termination retry_loop
  by (relation "measure (\<lambda>(send, ctx, attempt). attemptsPerScan - attempt)") auto

declare retry_loop.simps [simp del]

text \<open>What one scan meets: the time of the query and, per delivery, the answers of the control plane, the state of the
  context, the clock and whether the context has ended when the delivery is done.\<close>

record ScanEnv =
  seNow :: gotime
  seTransport :: "string \<Rightarrow> nat \<Rightarrow> SignedRequest \<Rightarrow> nat option"
  seCtx :: "string \<Rightarrow> nat \<Rightarrow> CtxState"
  seClock :: "string \<Rightarrow> gotime"
  seStop :: "string \<Rightarrow> bool"

type_synonym 's update_op = "string \<Rightarrow> DeliveryStatus \<Rightarrow> int \<Rightarrow> gotime \<Rightarrow> gotime option \<Rightarrow> 's \<Rightarrow> IngestErr + 's"
type_synonym 's due_op = "gotime \<Rightarrow> duration \<Rightarrow> int \<Rightarrow> nat \<Rightarrow> 's \<Rightarrow> Delivery list"

definition try_update :: "'s update_op \<Rightarrow> string \<Rightarrow> DeliveryStatus \<Rightarrow> int \<Rightarrow> gotime \<Rightarrow> gotime option \<Rightarrow> 's \<Rightarrow> 's" where
  "try_update upd ident st attempts lastAttemptAt forwardedAt s =
    (case upd ident st attempts lastAttemptAt forwardedAt s of Inl _ \<Rightarrow> s | Inr s' \<Rightarrow> s')"

definition markFailed :: "'s update_op \<Rightarrow> gotime \<Rightarrow> Delivery \<Rightarrow> 's \<Rightarrow> 's" where
  "markFailed upd now d s = try_update upd (dlID d) DlvForwardFailed (dlAttempts d + int attemptsPerScan) now None s"

definition processOne :: "'s update_op \<Rightarrow> EdgeEnv \<Rightarrow> string \<Rightarrow> int \<Rightarrow> ScanEnv \<Rightarrow> Delivery \<Rightarrow> 's \<Rightarrow> 's" where
  "processOne upd ee secret maxAttempts se d s =
    (let now = seClock se (dlID d) in
     case RedactPayload ee (dlPayload d) of
       Inl _ \<Rightarrow> markFailed upd now d s
     | Inr clean \<Rightarrow>
         (case retry_loop (\<lambda>attempt. Send ee secret (seTransport se (dlID d) attempt) (delivery_envelope d clean)) (seCtx se (dlID d)) 1 of
            None \<Rightarrow> s
          | Some result \<Rightarrow>
              let attempts = dlAttempts d + int attemptsPerScan in
              case result of
                ResultAccepted \<Rightarrow> try_update upd (dlID d) DlvForwarded attempts now (Some now) s
              | ResultUnavailable \<Rightarrow> try_update upd (dlID d) (if attempts \<ge> maxAttempts then DlvForwardFailed else DlvPending) attempts now None s
              | ResultRejected \<Rightarrow> markFailed upd now d s))"

fun scan_loop :: "'s update_op \<Rightarrow> EdgeEnv \<Rightarrow> string \<Rightarrow> int \<Rightarrow> ScanEnv \<Rightarrow> Delivery list \<Rightarrow> 's \<Rightarrow> 's" where
  "scan_loop upd ee secret maxAttempts se [] s = s"
| "scan_loop upd ee secret maxAttempts se (d # ds) s =
    (let s' = processOne upd ee secret maxAttempts se d s in
     if seStop se (dlID d) then s' else scan_loop upd ee secret maxAttempts se ds s')"

definition scanOnce :: "'s due_op \<Rightarrow> 's update_op \<Rightarrow> EdgeEnv \<Rightarrow> string \<Rightarrow> int \<Rightarrow> ScanEnv \<Rightarrow> 's \<Rightarrow> 's" where
  "scanOnce due upd ee secret maxAttempts se s =
     scan_loop upd ee secret maxAttempts se (due (seNow se) dueAge maxAttempts 100 s) s"

subsection \<open>What the worker relies on\<close>

definition set_forward :: "DeliveryStatus \<Rightarrow> int \<Rightarrow> gotime \<Rightarrow> gotime option \<Rightarrow> Delivery \<Rightarrow> Delivery" where
  "set_forward st attempts la fa d = d\<lparr>dlStatus := st, dlAttempts := attempts, dlLastAttemptAt := Some la, dlForwardedAt := fa\<rparr>"

fun scans :: "'s due_op \<Rightarrow> 's update_op \<Rightarrow> EdgeEnv \<Rightarrow> string \<Rightarrow> int \<Rightarrow> ScanEnv list \<Rightarrow> 's \<Rightarrow> 's" where
  "scans due upd ee secret maxAttempts [] s = s"
| "scans due upd ee secret maxAttempts (se # ses) s = scans due upd ee secret maxAttempts ses (scanOnce due upd ee secret maxAttempts se s)"

text \<open>The worker is not shut down during a scan.\<close>

definition calm :: "ScanEnv \<Rightarrow> bool" where
  "calm se \<longleftrightarrow> (\<forall>ident n. seCtx se ident n \<noteq> CtxEndedWait) \<and> (\<forall>ident. \<not> seStop se ident)"

text \<open>Scans that are not shut down, each lasting at most \<open>burst\<close> and starting \<open>dueAge\<close> or more after the one before.\<close>

fun spaced :: "duration \<Rightarrow> gotime \<Rightarrow> ScanEnv list \<Rightarrow> bool" where
  "spaced burst t [] \<longleftrightarrow> True"
| "spaced burst t (se # ses) \<longleftrightarrow> t + dueAge \<le> seNow se \<and> calm se \<and> (\<forall>ident. seClock se ident \<le> seNow se + burst) \<and>
     spaced burst (seNow se + burst) ses"

text \<open>What forwarding never changes of a delivery.\<close>

definition dlv_identity :: "Delivery \<Rightarrow> (string \<times> string \<times> string \<times> string) \<times> string \<times> string \<times> bool \<times> (string \<times> string) list \<times> bool" where
  "dlv_identity d = ((dlID d, dlSource d, dlExtDeliveryID d, dlEventKind d), dlRepo d, dlPayload d, dlSigOK d, dlHeaders d, dlDuplicateSuspect d)"

definition tried :: "int \<Rightarrow> ScanEnv \<Rightarrow> int \<Rightarrow> Delivery \<Rightarrow> Delivery \<Rightarrow> bool" where
  "tried mx se n x x' \<longleftrightarrow> (\<exists>st fa. st \<noteq> DlvRejected \<and> (n + 3 < mx \<or> st \<noteq> DlvPending) \<and> x' = set_forward st (n + 3) (seClock se (dlID x)) fa x)"

definition scan_effect :: "int \<Rightarrow> ScanEnv \<Rightarrow> Delivery list \<Rightarrow> Delivery \<Rightarrow> Delivery \<Rightarrow> bool" where
  "scan_effect mx se ds x x' \<longleftrightarrow> x' = x \<and> (dlID x \<notin> dlID ` set ds \<or> \<not> calm se) \<or> (\<exists>d \<in> set ds. dlID d = dlID x \<and> tried mx se (dlAttempts d) x x')"

lemma set_forward_sel [simp]:
  "dlID (set_forward st n la fa d) = dlID d" "dlStatus (set_forward st n la fa d) = st" "dlAttempts (set_forward st n la fa d) = n"
  "dlSource (set_forward st n la fa d) = dlSource d" "dlExtDeliveryID (set_forward st n la fa d) = dlExtDeliveryID d"
  "dlSigOK (set_forward st n la fa d) = dlSigOK d" "dlPayload (set_forward st n la fa d) = dlPayload d"
  "dlDuplicateSuspect (set_forward st n la fa d) = dlDuplicateSuspect d" "dlReceivedAt (set_forward st n la fa d) = dlReceivedAt d"
  "last_try (set_forward st n la fa d) = la"
  by (simp_all add: set_forward_def last_try_def)

lemma list_all2_right: "list_all2 P xs ys \<Longrightarrow> y \<in> set ys \<Longrightarrow> \<exists>x \<in> set xs. P x y"
  by (induction rule: list_all2_induct) auto

lemma dlv_identity_forward: "dlv_identity (set_forward st n la fa d) = dlv_identity d"
  by (simp add: dlv_identity_def set_forward_def)

lemma retry_loop_None: "retry_loop send ctx attempt = None \<Longrightarrow> \<exists>n. ctx n = CtxEndedWait"
proof (induction send ctx attempt rule: retry_loop.induct)
  case (1 send ctx attempt)
  from 1(2) show ?case by (subst (asm) retry_loop.simps) (auto split: if_splits intro: 1(1))
qed

locale delivery_store =
  fixes dlvs :: "'s \<Rightarrow> Delivery list"
    and upd :: "'s update_op"
    and due :: "'s due_op"
    and inv :: "'s \<Rightarrow> bool"
  assumes inv_ids: "inv s \<Longrightarrow> distinct (map dlID (dlvs s))"
    and upd_found: "inv s \<Longrightarrow> ident \<in> dlID ` set (dlvs s) \<Longrightarrow> \<exists>s'. upd ident st n la fa s = Inr s' \<and> inv s' \<and>
      dlvs s' = map (\<lambda>d. if dlID d = ident then set_forward st n la fa d else d) (dlvs s)"
    and upd_missing: "inv s \<Longrightarrow> ident \<notin> dlID ` set (dlvs s) \<Longrightarrow> upd ident st n la fa s = Inl ErrDeliveryNotFound"
    and due_sound: "inv s \<Longrightarrow> d \<in> set (due now age maxAttempts limit s) \<Longrightarrow>
      \<exists>x \<in> set (dlvs s). dlID x = dlID d \<and> dlAttempts x = dlAttempts d \<and> Retryable maxAttempts x"
    and due_distinct: "inv s \<Longrightarrow> distinct (map dlID (due now age maxAttempts limit s))"
    and due_complete: "inv s \<Longrightarrow> length (dlvs s) \<le> limit \<Longrightarrow> x \<in> set (dlvs s) \<Longrightarrow> Retryable maxAttempts x \<Longrightarrow>
      0 \<le> age \<Longrightarrow> age < 2 ^ 63 \<Longrightarrow> age \<le> now - last_try x \<Longrightarrow> dlID x \<in> dlID ` set (due now age maxAttempts limit s)"
begin

lemma try_update_rows:
  assumes "inv s"
  shows "inv (try_update upd ident st n la fa s)"
    and "dlvs (try_update upd ident st n la fa s) = map (\<lambda>d. if dlID d = ident then set_forward st n la fa d else d) (dlvs s)"
proof -
  have "inv (try_update upd ident st n la fa s) \<and>
    dlvs (try_update upd ident st n la fa s) = map (\<lambda>d. if dlID d = ident then set_forward st n la fa d else d) (dlvs s)"
  proof (cases "ident \<in> dlID ` set (dlvs s)")
    case True
    from upd_found [OF assms this, of st n la fa] show ?thesis by (auto simp: try_update_def)
  next
    case False
    then have "map (\<lambda>d. if dlID d = ident then set_forward st n la fa d else d) (dlvs s) = dlvs s" by (intro map_idI) auto
    with upd_missing [OF assms False] assms show ?thesis by (simp add: try_update_def)
  qed
  then show "inv (try_update upd ident st n la fa s)"
    and "dlvs (try_update upd ident st n la fa s) = map (\<lambda>d. if dlID d = ident then set_forward st n la fa d else d) (dlvs s)" by blast+
qed


text \<open>Processing one delivery touches the row with its id and no other; the row stays as it is when the context ends
  during a wait.\<close>

lemma processOne_rows:
  assumes "inv s"
  shows "inv (processOne upd ee secret mx se d s) \<and> (processOne upd ee secret mx se d s = s \<and> (\<exists>n. seCtx se (dlID d) n = CtxEndedWait) \<or>
    (\<exists>st fa. st \<noteq> DlvRejected \<and> (dlAttempts d + 3 < mx \<or> st \<noteq> DlvPending) \<and> dlvs (processOne upd ee secret mx se d s) =
      map (\<lambda>x. if dlID x = dlID d then set_forward st (dlAttempts d + 3) (seClock se (dlID d)) fa x else x) (dlvs s)))"
proof -
  let ?ok = "\<lambda>s'. inv s' \<and> (\<exists>st fa. st \<noteq> DlvRejected \<and> (dlAttempts d + 3 < mx \<or> st \<noteq> DlvPending) \<and>
    dlvs s' = map (\<lambda>x. if dlID x = dlID d then set_forward st (dlAttempts d + 3) (seClock se (dlID d)) fa x else x) (dlvs s))"
  have ok: "?ok (try_update upd (dlID d) st (dlAttempts d + 3) (seClock se (dlID d)) fa s)"
    if "st \<noteq> DlvRejected" "dlAttempts d + 3 < mx \<or> st \<noteq> DlvPending" for st fa
    using try_update_rows [OF assms] that by blast
  show ?thesis
  proof (cases "RedactPayload ee (dlPayload d)")
    case (Inl u)
    then show ?thesis using ok [of DlvForwardFailed None] by (simp add: processOne_def markFailed_def attemptsPerScan_def)
  next
    case (Inr clean)
    let ?loop = "retry_loop (\<lambda>attempt. Send ee secret (seTransport se (dlID d) attempt) (delivery_envelope d clean)) (seCtx se (dlID d)) 1"
    show ?thesis
    proof (cases ?loop)
      case None
      then have "\<exists>n. seCtx se (dlID d) n = CtxEndedWait" by (rule retry_loop_None)
      with None Inr assms show ?thesis by (simp add: processOne_def)
    next
      case (Some result)
      then show ?thesis
        using Inr ok [of DlvForwarded "Some (seClock se (dlID d))"] ok [of DlvForwardFailed None] ok [of DlvPending None]
        by (cases result) (auto simp: processOne_def markFailed_def attemptsPerScan_def Let_def)
    qed
  qed
qed


lemma processOne_effect:
  assumes "inv s"
  shows "inv (processOne upd ee secret mx se d s) \<and> list_all2 (scan_effect mx se [d]) (dlvs s) (dlvs (processOne upd ee secret mx se d s))"
proof -
  let ?s' = "processOne upd ee secret mx se d s"
  from processOne_rows [OF assms, of ee secret mx se d]
  consider "inv ?s'" "?s' = s" "\<not> calm se"
    | st fa where "inv ?s'" "st \<noteq> DlvRejected" "dlAttempts d + 3 < mx \<or> st \<noteq> DlvPending"
        "dlvs ?s' = map (\<lambda>x. if dlID x = dlID d then set_forward st (dlAttempts d + 3) (seClock se (dlID d)) fa x else x) (dlvs s)"
    unfolding calm_def by blast
  then show ?thesis
  proof cases
    case 1
    then show ?thesis by (simp add: scan_effect_def list_all2_same)
  next
    case 2
    then have "tried mx se (dlAttempts d) x (set_forward st (dlAttempts d + 3) (seClock se (dlID d)) fa x)" if "dlID x = dlID d" for x
      unfolding tried_def using that by metis
    with 2 show ?thesis by (auto simp: scan_effect_def list_all2_map2 list_all2_same)
  qed
qed

lemma scan_loop_rows:
  "inv s \<Longrightarrow> distinct (map dlID ds) \<Longrightarrow> inv (scan_loop upd ee secret mx se ds s) \<and>
     list_all2 (scan_effect mx se ds) (dlvs s) (dlvs (scan_loop upd ee secret mx se ds s))"
proof (induction ds arbitrary: s)
  case Nil
  then show ?case by (simp add: scan_effect_def list_all2_same)
next
  case (Cons d ds)
  let ?s1 = "processOne upd ee secret mx se d s"
  have one: "inv ?s1" "list_all2 (scan_effect mx se [d]) (dlvs s) (dlvs ?s1)" using processOne_effect [OF Cons(2)] by blast+
  show ?case
  proof (cases "seStop se (dlID d)")
    case True
    then have "\<not> calm se" by (auto simp: calm_def)
    then have "scan_effect mx se (d # ds) x x'" if "scan_effect mx se [d] x x'" for x x' using that by (auto simp: scan_effect_def)
    with True one show ?thesis by (auto elim: list_all2_mono)
  next
    case False
    have rest: "inv (scan_loop upd ee secret mx se ds ?s1)" "list_all2 (scan_effect mx se ds) (dlvs ?s1) (dlvs (scan_loop upd ee secret mx se ds ?s1))"
      using Cons one(1) by auto
    have "scan_effect mx se (d # ds) x z" if "scan_effect mx se [d] x y" "scan_effect mx se ds y z" for x y z
    proof (cases "dlID x = dlID d")
      case True
      have "dlID y = dlID x" using that(1) by (auto simp: scan_effect_def tried_def)
      then have "\<nexists>d'. d' \<in> set ds \<and> dlID d' = dlID y" using Cons(3) True by (auto simp: rev_image_eqI)
      with that(2) have "z = y" unfolding scan_effect_def by blast
      with that(1) True show ?thesis unfolding scan_effect_def by auto
    next
      case False
      then show ?thesis using that by (auto simp: scan_effect_def)
    qed
    then have "list_all2 (scan_effect mx se (d # ds)) (dlvs s) (dlvs (scan_loop upd ee secret mx se ds ?s1))"
      using list_all2_trans [OF _ one(2) rest(2)] by blast
    with False rest(1) show ?thesis by simp
  qed
qed

lemma scan_rows:
  assumes "inv s"
  shows "inv (scanOnce due upd ee secret mx se s)"
    and "list_all2 (\<lambda>x x'. x' = x \<and> (dlID x \<notin> dlID ` set (due (seNow se) dueAge mx 100 s) \<or> \<not> calm se) \<or> Retryable mx x \<and> tried mx se (dlAttempts x) x x')
      (dlvs s) (dlvs (scanOnce due upd ee secret mx se s))"
proof -
  let ?ds = "due (seNow se) dueAge mx 100 s" and ?s' = "scanOnce due upd ee secret mx se s"
  have loop: "inv ?s'" "list_all2 (scan_effect mx se ?ds) (dlvs s) (dlvs ?s')"
    using scan_loop_rows [OF assms due_distinct [OF assms]] by (simp_all add: scanOnce_def)
  show "inv ?s'" by (rule loop)
  have "x' = x \<and> (dlID x \<notin> dlID ` set ?ds \<or> \<not> calm se) \<or> Retryable mx x \<and> tried mx se (dlAttempts x) x x'"
    if "x \<in> set (dlvs s)" "scan_effect mx se ?ds x x'" for x x'
  proof -
    have "Retryable mx x \<and> dlAttempts d = dlAttempts x" if "d \<in> set ?ds" "dlID d = dlID x" for d
    proof -
      have "\<exists>y \<in> set (dlvs s). dlID y = dlID d \<and> dlAttempts y = dlAttempts d \<and> Retryable mx y"
        by (rule due_sound [OF assms that(1)])
      then obtain y where y: "y \<in> set (dlvs s)" "dlID y = dlID d" "dlAttempts y = dlAttempts d" "Retryable mx y" by blast
      have "y = x" using inv_ids [OF assms] \<open>x \<in> set (dlvs s)\<close> y that(2) by (auto simp: distinct_map inj_on_def)
      with y show ?thesis by simp
    qed
    with that(2) show ?thesis by (auto simp: scan_effect_def)
  qed
  then show "list_all2 (\<lambda>x x'. x' = x \<and> (dlID x \<notin> dlID ` set ?ds \<or> \<not> calm se) \<or> Retryable mx x \<and> tried mx se (dlAttempts x) x x') (dlvs s) (dlvs ?s')"
    using loop(2) by (auto simp: list_all2_conv_all_nth)
qed


lemma scan_identity:
  assumes "inv s"
  shows "map dlv_identity (dlvs (scanOnce due upd ee secret mx se s)) = map dlv_identity (dlvs s)"
  using scan_rows(2) [OF assms, of se mx ee secret]
  by (auto simp: list_all2_conv_all_nth tried_def intro!: nth_equalityI) (metis dlv_identity_forward)

lemma scan_step:
  assumes "inv s" and "length (dlvs s) \<le> 100" and "\<forall>x \<in> set (dlvs s). last_try x \<le> t" and "calm se" and "t + dueAge \<le> seNow se"
    and "\<forall>ident. seClock se ident \<le> seNow se + burst" and "0 \<le> burst" and "\<forall>x \<in> set (dlvs s). Retryable mx x \<longrightarrow> k \<le> dlAttempts x"
    and "x' \<in> set (dlvs (scanOnce due upd ee secret mx se s))"
  shows "last_try x' \<le> seNow se + burst \<and> (Retryable mx x' \<longrightarrow> k + 3 \<le> dlAttempts x')"
proof -
  obtain x where x: "x \<in> set (dlvs s)" "x' = x \<and> dlID x \<notin> dlID ` set (due (seNow se) dueAge mx 100 s) \<or> Retryable mx x \<and> tried mx se (dlAttempts x) x x'"
    using list_all2_right [OF scan_rows(2) [OF assms(1)] assms(9)] assms(4) by blast
  from x(2) show ?thesis
  proof
    assume same: "x' = x \<and> dlID x \<notin> dlID ` set (due (seNow se) dueAge mx 100 s)"
    have "last_try x \<le> t" using x(1) assms(3) by blast
    then have "\<not> Retryable mx x"
      using due_complete [OF assms(1,2) x(1), of mx dueAge "seNow se"] same assms(5) by (auto simp: dueAge_def)
    with same \<open>last_try x \<le> t\<close> assms(5,7) show ?thesis by (simp add: dueAge_def)
  next
    assume "Retryable mx x \<and> tried mx se (dlAttempts x) x x'"
    with x(1) assms(6,8) show ?thesis by (auto simp: tried_def)
  qed
qed

lemma scans_settle:
  assumes "inv s" and "length (dlvs s) \<le> 100" and "\<forall>x \<in> set (dlvs s). last_try x \<le> t" and "spaced burst t ses" and "0 \<le> burst"
    and "\<forall>x \<in> set (dlvs s). Retryable mx x \<longrightarrow> k \<le> dlAttempts x"
  shows "map dlv_identity (dlvs (scans due upd ee secret mx ses s)) = map dlv_identity (dlvs s) \<and>
    (\<forall>x \<in> set (dlvs (scans due upd ee secret mx ses s)). Retryable mx x \<longrightarrow> k + 3 * int (length ses) \<le> dlAttempts x)"
  using assms
proof (induction ses arbitrary: s t k)
  case (Cons se ses)
  let ?s1 = "scanOnce due upd ee secret mx se s"
  have se: "calm se" "t + dueAge \<le> seNow se" "\<forall>ident. seClock se ident \<le> seNow se + burst" "spaced burst (seNow se + burst) ses"
    using Cons(5) by simp_all
  have idy: "map dlv_identity (dlvs ?s1) = map dlv_identity (dlvs s)" by (rule scan_identity [OF Cons(2)])
  then have "length (dlvs ?s1) \<le> 100" using Cons(3) by (metis length_map)
  moreover have "last_try x' \<le> seNow se + burst \<and> (Retryable mx x' \<longrightarrow> k + 3 \<le> dlAttempts x')" if "x' \<in> set (dlvs ?s1)" for x'
    using scan_step [OF Cons(2-4) se(1-3) Cons(6,7) that] .
  ultimately have "map dlv_identity (dlvs (scans due upd ee secret mx ses ?s1)) = map dlv_identity (dlvs ?s1) \<and>
      (\<forall>x \<in> set (dlvs (scans due upd ee secret mx ses ?s1)). Retryable mx x \<longrightarrow> (k + 3) + 3 * int (length ses) \<le> dlAttempts x)"
    by (intro Cons.IH [OF scan_rows(1) [OF Cons(2)] _ _ se(4) Cons(6)]) blast+
  with idy show ?case by (simp add: algebra_simps)
qed simp

end


subsection \<open>Both stores serve the worker\<close>

definition pg_ids_ok :: "Delivery list \<Rightarrow> bool" where
  "pg_ids_ok rows \<longleftrightarrow> distinct (map dlID rows)"

definition mem_ids_ok :: "MemDeliveries \<Rightarrow> bool" where
  "mem_ids_ok m \<longleftrightarrow> distinct (map (\<lambda>(k, d). dlID d) m)"

lemma PG_Update_rows:
  "PG_UpdateForwardState ident st n la fa rows =
     (if ident \<in> dlID ` set rows then Inr (map (\<lambda>d. if dlID d = ident then set_forward st n la fa d else d) rows) else Inl ErrDeliveryNotFound)"
  by (auto simp: PG_UpdateForwardState_def set_forward_def list_ex_iff)

lemma map_forward_ids: "map dlID (map (\<lambda>d. if dlID d = ident then set_forward st n la fa d else d) rows) = map dlID rows"
  by simp

lemma PG_Due_complete:
  assumes "length rows \<le> limit" and "x \<in> set rows" and "Retryable mx x" and "age \<le> now - last_try x"
  shows "dlID x \<in> dlID ` set (PG_DueDeliveries now age mx limit rows)"
proof -
  let ?P = "\<lambda>d. dlStatus d \<in> {DlvPending, DlvForwardFailed, DlvDuplicateSuspect} \<and> dlAttempts d < mx \<and> last_try d \<le> now - age"
  let ?sorted = "sort_by (\<lambda>a b. dlReceivedAt a < dlReceivedAt b) (filter ?P rows)"
  have "length (filter ?P rows) \<le> limit" by (rule order_trans [OF length_filter_le assms(1)])
  then have "take limit ?sorted = ?sorted" by simp
  moreover have "?P x" using assms(3,4) by (cases "dlStatus x") (simp_all add: Retryable_def)
  ultimately show ?thesis using assms(2) unfolding PG_DueDeliveries_def by (auto simp: image_image intro!: image_eqI [of _ _ x])
qed

lemma due_loop_eq:
  "due_loop now age mx limit out m = out @ take (max 1 (limit - length out))
     (filter (\<lambda>d. Retryable mx d \<and> time_sub now (last_try d) \<ge> age) (map snd m))"
proof (induction m arbitrary: out)
  case (Cons kd m)
  obtain k d where kd: "kd = (k, d)" by (cases kd)
  consider "\<not> Retryable mx d" | "Retryable mx d" "\<not> time_sub now (last_try d) \<ge> age" | "Retryable mx d" "time_sub now (last_try d) \<ge> age" "length out + 1 \<ge> limit"
    | "Retryable mx d" "time_sub now (last_try d) \<ge> age" "length out + 1 < limit" by linarith
  then show ?case
  proof cases
    case 4
    then have "max 1 (limit - length out) = Suc (max 1 (limit - length (out @ [d])))" by simp
    with 4 Cons kd show ?thesis by (auto simp: Retryable_def)
  next
    case 3
    then have "max 1 (limit - length out) = 1" by simp
    with 3 kd show ?thesis by (auto simp: Retryable_def)
  qed (use Cons kd in \<open>auto simp: Retryable_def\<close>)
qed simp

lemma Mem_Update_rows:
  "distinct (map (\<lambda>(k, d). dlID d) m) \<Longrightarrow> Mem_UpdateForwardState ident st n la fa m =
     (if ident \<in> (\<lambda>(k, d). dlID d) ` set m then Inr (map (\<lambda>(k, d). (k, if dlID d = ident then set_forward st n la fa d else d)) m)
      else Inl ErrDeliveryNotFound)"
proof (induction m)
  case (Cons kd m)
  obtain k d where kd: "kd = (k, d)" by (cases kd)
  have "map (\<lambda>(k, d). (k, if dlID d = ident then set_forward st n la fa d else d)) m = m" if "ident \<notin> (\<lambda>(k, d). dlID d) ` set m"
    using that by (intro map_idI) force
  with Cons kd show ?case by (auto simp: set_forward_def)
qed simp

lemma time_sub_ge: "0 \<le> age \<Longrightarrow> age < 2 ^ 63 \<Longrightarrow> age \<le> now - t \<Longrightarrow> age \<le> time_sub now t"
  by (simp add: time_sub_def)

interpretation pgd: delivery_store "\<lambda>rows. rows" PG_UpdateForwardState PG_DueDeliveries pg_ids_ok
proof
  fix rows :: "Delivery list" and ident st n la fa
  assume "pg_ids_ok rows" "ident \<in> dlID ` set rows"
  then show "\<exists>s'. PG_UpdateForwardState ident st n la fa rows = Inr s' \<and> pg_ids_ok s' \<and>
      s' = map (\<lambda>d. if dlID d = ident then set_forward st n la fa d else d) rows"
    by (simp add: PG_Update_rows pg_ids_ok_def o_def if_distrib cong: if_cong)
next
  fix rows :: "Delivery list" and now age mx limit
  assume "pg_ids_ok rows"
  then show "distinct (map dlID (PG_DueDeliveries now age mx limit rows))"
    by (simp add: PG_DueDeliveries_def pg_ids_ok_def o_def take_map [symmetric] distinct_map_sort_by distinct_map_filter)
next
  fix rows :: "Delivery list" and limit x mx and age now :: int
  assume "length rows \<le> limit" "x \<in> set rows" "Retryable mx x" "age \<le> now - last_try x"
  then show "dlID x \<in> dlID ` set (PG_DueDeliveries now age mx limit rows)" by (rule PG_Due_complete)
qed (auto simp: PG_Update_rows pg_ids_ok_def PG_DueDeliveries_def Retryable_def dest!: in_set_takeD)

lemma mem_ids: "map (\<lambda>(k, d). dlID d) m = map dlID (map snd m)"
  by (simp add: case_prod_unfold)

interpretation memd: delivery_store "map snd" Mem_UpdateForwardState Mem_DueDeliveries mem_ids_ok
proof
  fix m :: MemDeliveries and ident st n la fa
  assume "mem_ids_ok m" "ident \<in> dlID ` set (map snd m)"
  moreover have "dlID ` set (map snd m) = (\<lambda>(k, d). dlID d) ` set m" by (auto simp: image_image case_prod_unfold)
  ultimately show "\<exists>s'. Mem_UpdateForwardState ident st n la fa m = Inr s' \<and> mem_ids_ok s' \<and>
      map snd s' = map (\<lambda>d. if dlID d = ident then set_forward st n la fa d else d) (map snd m)"
    by (simp add: Mem_Update_rows mem_ids_ok_def o_def case_prod_unfold if_distrib cong: if_cong)
next
  fix m :: MemDeliveries and ident st n la fa
  assume "mem_ids_ok m" "ident \<notin> dlID ` set (map snd m)"
  moreover have "dlID ` set (map snd m) = (\<lambda>(k, d). dlID d) ` set m" by (auto simp: image_image case_prod_unfold)
  ultimately show "Mem_UpdateForwardState ident st n la fa m = Inl ErrDeliveryNotFound" by (simp add: Mem_Update_rows mem_ids_ok_def)
next
  fix m :: MemDeliveries and now age mx limit
  assume "mem_ids_ok m"
  then show "distinct (map dlID (Mem_DueDeliveries now age mx limit m))"
    by (simp add: Mem_DueDeliveries_def due_loop_eq mem_ids_ok_def mem_ids take_map [symmetric] distinct_map_filter del: map_map)
next
  fix m :: MemDeliveries and limit x mx and age now :: int
  assume "length (map snd m) \<le> limit" "x \<in> set (map snd m)" "Retryable mx x" "0 \<le> age" "age < 2 ^ 63" "age \<le> now - last_try x"
  then have "x \<in> set (filter (\<lambda>d. Retryable mx d \<and> time_sub now (last_try d) \<ge> age) (map snd m))"
      "length (filter (\<lambda>d. Retryable mx d \<and> time_sub now (last_try d) \<ge> age) (map snd m)) \<le> limit"
    using time_sub_ge length_filter_le [of _ "map snd m"] order_trans by (auto simp del: length_map, blast)
  then show "dlID x \<in> dlID ` set (Mem_DueDeliveries now age mx limit m)" unfolding Mem_DueDeliveries_def due_loop_eq by simp
qed (auto simp: mem_ids_ok_def mem_ids Mem_DueDeliveries_def due_loop_eq dest!: in_set_takeD)



end
