(* ===== verification/Hook.thy ===== *)
theory Hook
  imports Ingest
begin

text \<open>
  The hook handler of the webhook edge (ingest/internal/api). It is split where it waits for the control plane:
  \<open>hook_admit\<close> runs up to the insert of the delivery, \<open>hook_finish\<close> from the answer of the control plane, so that other
  requests and scans of the retry worker can run in between; \<open>ingest_step\<close> is one such step over the Postgres store.
\<close>

subsection \<open>Signatures and timestamps (api/signature.go)\<close>

definition hex_value :: "char \<Rightarrow> nat option" where
  "hex_value c = (let n = of_char c in if 48 \<le> n \<and> n \<le> 57 then Some (n - 48) else if 97 \<le> n \<and> n \<le> 102 then Some (n - 87)
     else if 65 \<le> n \<and> n \<le> 70 then Some (n - 55) else None)"

fun hex_decode :: "string \<Rightarrow> string option" where
  "hex_decode [] = Some []"
| "hex_decode [c] = None"
| "hex_decode (a # b # s) = (case (hex_value a, hex_value b, hex_decode s) of
     (Some x, Some y, Some t) \<Rightarrow> Some (char_of (16 * x + y) # t) | _ \<Rightarrow> None)"

definition VerifyGitHubSignature :: "EdgeEnv \<Rightarrow> string \<Rightarrow> string \<Rightarrow> string \<Rightarrow> bool" where
  "VerifyGitHubSignature ee secret body header =
    (if take 7 header \<noteq> ''sha256='' then False
     else case hex_decode (drop 7 header) of None \<Rightarrow> False | Some given \<Rightarrow> given = eeHMAC ee secret body)"

fun VerifyGitHubSignatureAny :: "EdgeEnv \<Rightarrow> string list \<Rightarrow> string \<Rightarrow> string \<Rightarrow> bool" where
  "VerifyGitHubSignatureAny ee [] body header = False"
| "VerifyGitHubSignatureAny ee (secret # secrets) body header =
    (if VerifyGitHubSignature ee secret body header then True else VerifyGitHubSignatureAny ee secrets body header)"

definition parseUnixMillis :: "string \<Rightarrow> gotime option" where
  "parseUnixMillis s = map_option (\<lambda>ms. ms * 1000000) (Atoi s)"

text \<open>The difference saturates and its negation wraps around.\<close>

definition VerifyTimestampSkew :: "EdgeEnv \<Rightarrow> string \<Rightarrow> gotime \<Rightarrow> duration \<Rightarrow> bool" where
  "VerifyTimestampSkew ee header now tolerance =
    (if header = [] then True
     else case (case eeParseRFC3339 ee header of Some ts \<Rightarrow> Some ts | None \<Rightarrow> parseUnixMillis header) of
       None \<Rightarrow> False
     | Some ts \<Rightarrow> let skew0 = time_sub now ts; skew = (if skew0 < 0 then i64 (- skew0) else skew0) in \<not> skew > tolerance)"

subsection \<open>Audit markers (api/audit\_markers.go)\<close>

record MarkerQueue =
  mqItems :: "Envelope list"
  mqDropped :: nat
  mqStopped :: bool

definition markerBuffer :: nat where
  "markerBuffer = 256"

definition marker_send :: "Envelope \<Rightarrow> MarkerQueue \<Rightarrow> MarkerQueue" where
  "marker_send env q = (if mqStopped q then q
     else if length (mqItems q) < markerBuffer then q\<lparr>mqItems := mqItems q @ [env]\<rparr>
     else q\<lparr>mqItems := tl (mqItems q) @ [env], mqDropped := mqDropped q + 1\<rparr>)"

subsection \<open>The hook handler (api/github\_hook\_handler.go, hook\_lifecycle.go, http\_util.go)\<close>

record HookReq =
  hrMethod :: string
  hrBody :: "string option"
  hrSignature :: string
  hrDelivery :: string
  hrEvent :: string
  hrTimestamp :: string
  hrContentType :: string

record 's Hook =
  hkStore :: 's
  hkInflight :: "string list"
  hkSeen :: "SeenCache option"
  hkMarkers :: MarkerQueue

record HookCfg =
  hcMaxBody :: nat
  hcSkew :: duration
  hcSecrets :: "string list"
  hcPrimary :: string

record HookResp =
  hpCode :: nat
  hpStatus :: string

definition maxInflight :: nat where
  "maxInflight = 64"

definition acquire :: "string \<Rightarrow> 's Hook \<Rightarrow> bool \<times> 's Hook" where
  "acquire extDeliveryID h = (let key = dlv_key SourceGitHub extDeliveryID in
     if length (hkInflight h) \<ge> maxInflight then (False, h)
     else if key \<in> set (hkInflight h) then (False, h)
     else (True, h\<lparr>hkInflight := key # hkInflight h\<rparr>))"

definition hook_release :: "string \<Rightarrow> 's Hook \<Rightarrow> 's Hook" where
  "hook_release extDeliveryID h = h\<lparr>hkInflight := removeAll (dlv_key SourceGitHub extDeliveryID) (hkInflight h)\<rparr>"

definition extractRepo :: "EdgeEnv \<Rightarrow> string \<Rightarrow> string" where
  "extractRepo ee raw = (case eeRepoOf ee raw of None \<Rightarrow> [] | Some r \<Rightarrow> r)"

definition composeEventKind :: "EdgeEnv \<Rightarrow> string \<Rightarrow> string \<Rightarrow> string" where
  "composeEventKind ee eventHeader raw = (if eventHeader = [] then [] else
     case eeActionOf ee raw of None \<Rightarrow> eventHeader | Some action \<Rightarrow> if action = [] then eventHeader else eventHeader @ ''.'' @ action)"

definition readBody :: "string option \<Rightarrow> nat \<Rightarrow> string option" where
  "readBody body capBytes = (case body of None \<Rightarrow> None | Some raw \<Rightarrow> if length raw > capBytes then None else Some raw)"

type_synonym 's insert_op = "Delivery \<Rightarrow> 's \<Rightarrow> IngestErr + 's"

definition quarantine_row :: "string \<Rightarrow> gotime \<Rightarrow> string \<Rightarrow> string \<Rightarrow> string \<Rightarrow> Delivery" where
  "quarantine_row ident now deliveryID eventKind raw = \<lparr>dlID = ident, dlSource = SourceGitHub, dlExtDeliveryID = deliveryID,
     dlEventKind = eventKind, dlRepo = [], dlSigOK = False, dlHeaders = [(''x-github-event'', eventKind), (''x-github-delivery'', deliveryID)],
     dlPayload = raw, dlStatus = DlvRejected, dlAttempts = 0, dlReceivedAt = now, dlLastAttemptAt = None, dlForwardedAt = None,
     dlPayloadClassHash = [], dlDuplicateSuspect = False\<rparr>"

definition sigfailed_marker :: "EdgeEnv \<Rightarrow> gotime \<Rightarrow> string \<Rightarrow> string \<Rightarrow> string \<Rightarrow> Envelope" where
  "sigfailed_marker ee now deliveryID nonce raw = \<lparr>enSource = SourceGitHub, enExtDeliveryID = deliveryID @ ''.sigfailed.'' @ nonce,
     enEventKind = ''sig_failed'', enRepo = extractRepo ee raw, enReceivedAt = now,
     enPayload = ''{'' @ [CHR 0x22] @ ''reason'' @ [CHR 0x22] @ '':'' @ [CHR 0x22] @ ''signature_verification_failed'' @ [CHR 0x22] @ ''}'',
     enDuplicateSuspect = False, enQuarantineReason = ''signature_verification_failed''\<rparr>"

definition hook_delivery :: "EdgeEnv \<Rightarrow> string \<Rightarrow> gotime \<Rightarrow> HookReq \<Rightarrow> string \<Rightarrow> string \<Rightarrow> bool \<Rightarrow> Delivery" where
  "hook_delivery ee ident now req raw classHash suspect = (let eventKind = composeEventKind ee (hrEvent req) raw in
     \<lparr>dlID = ident, dlSource = SourceGitHub, dlExtDeliveryID = hrDelivery req, dlEventKind = eventKind, dlRepo = extractRepo ee raw,
      dlSigOK = True, dlHeaders = [(''x-github-event'', eventKind), (''x-github-delivery'', hrDelivery req),
        (''x-hub-signature-256'', hrSignature req), (''content-type'', hrContentType req)], dlPayload = raw,
      dlStatus = (if suspect then DlvDuplicateSuspect else DlvPending), dlAttempts = 0, dlReceivedAt = now, dlLastAttemptAt = None,
      dlForwardedAt = None, dlPayloadClassHash = classHash, dlDuplicateSuspect = suspect\<rparr>)"

text \<open>A request whose signature fails is quarantined and reported; a request that holds its delivery id passes the replay
  window and is inserted. The clock is read once per request; \<open>ident\<close> and \<open>nonce\<close> are its ULIDs.\<close>

definition hook_quarantine :: "'s insert_op \<Rightarrow> EdgeEnv \<Rightarrow> string \<Rightarrow> string \<Rightarrow> gotime \<Rightarrow> HookReq \<Rightarrow> string \<Rightarrow> 's Hook \<Rightarrow> 's Hook" where
  "hook_quarantine ins ee ident nonce now req raw h =
    (let row = quarantine_row (''dlv_'' @ ident) now (hrDelivery req) (composeEventKind ee (hrEvent req) raw) raw in
     h\<lparr>hkStore := (case ins row (hkStore h) of Inl _ \<Rightarrow> hkStore h | Inr s \<Rightarrow> s),
       hkMarkers := marker_send (sigfailed_marker ee now (hrDelivery req) nonce raw) (hkMarkers h)\<rparr>)"

definition hook_persist :: "'s insert_op \<Rightarrow> EdgeEnv \<Rightarrow> string \<Rightarrow> gotime \<Rightarrow> HookReq \<Rightarrow> string \<Rightarrow> 's Hook \<Rightarrow> (HookResp + Delivery) \<times> 's Hook" where
  "hook_persist ins ee ident now req raw h =
    (let key = ClassHash (JsonCodec.truncate ee) SourceGitHub (extractRepo ee raw) (composeEventKind ee (hrEvent req) raw) raw;
         classHash = (if hkSeen h = None then [] else key);
         suspect = (case hkSeen h of None \<Rightarrow> False | Some c \<Rightarrow> fst (SeenOrAdd now key c));
         h1 = h\<lparr>hkSeen := (case hkSeen h of None \<Rightarrow> None | Some c \<Rightarrow> Some (snd (SeenOrAdd now key c)))\<rparr>;
         d = hook_delivery ee (''dlv_'' @ ident) now req raw classHash suspect in
     case ins d (hkStore h1) of
       Inl e \<Rightarrow> (Inl (if e = ErrDuplicateDelivery then \<lparr>hpCode = 202, hpStatus = ''deduplicated''\<rparr> else \<lparr>hpCode = 503, hpStatus = ''unavailable''\<rparr>),
         hook_release (hrDelivery req) h1)
     | Inr s \<Rightarrow> (Inr d, h1\<lparr>hkStore := s\<rparr>))"

text \<open>Up to the insert of the delivery: an answer, or the delivery to forward.\<close>

definition hook_admit :: "'s insert_op \<Rightarrow> HookCfg \<Rightarrow> EdgeEnv \<Rightarrow> string \<Rightarrow> string \<Rightarrow> gotime \<Rightarrow> HookReq \<Rightarrow> 's Hook \<Rightarrow>
    (HookResp + Delivery) \<times> 's Hook" where
  "hook_admit ins cfg ee ident nonce now req h =
    (if hrMethod req \<noteq> ''POST'' then (Inl \<lparr>hpCode = 405, hpStatus = []\<rparr>, h)
     else case readBody (hrBody req) (hcMaxBody cfg) of None \<Rightarrow> (Inl \<lparr>hpCode = 413, hpStatus = ''payload_too_large''\<rparr>, h) | Some raw \<Rightarrow>
     if hrSignature req = [] \<or> \<not> VerifyGitHubSignatureAny ee (hcSecrets cfg) raw (hrSignature req)
     then (Inl \<lparr>hpCode = 401, hpStatus = ''unauthorized''\<rparr>, hook_quarantine ins ee ident nonce now req raw h)
     else if \<not> VerifyTimestampSkew ee (hrTimestamp req) now (hcSkew cfg) then (Inl \<lparr>hpCode = 401, hpStatus = ''unauthorized''\<rparr>, h)
     else if hrDelivery req = [] \<or> composeEventKind ee (hrEvent req) raw = [] then (Inl \<lparr>hpCode = 400, hpStatus = ''validation_failed''\<rparr>, h)
     else case acquire (hrDelivery req) h of
       (False, h1) \<Rightarrow> (Inl \<lparr>hpCode = 202, hpStatus = ''deduplicated''\<rparr>, h1)
     | (True, h1) \<Rightarrow> hook_persist ins ee ident now req raw h1)"

definition forwardOne :: "EdgeEnv \<Rightarrow> string \<Rightarrow> (SignedRequest \<Rightarrow> nat option) \<Rightarrow> Delivery \<Rightarrow> ForwardResult" where
  "forwardOne ee secret transport d = (case RedactPayload ee (dlPayload d) of Inl _ \<Rightarrow> ResultRejected
     | Inr clean \<Rightarrow> Send ee secret transport (delivery_envelope d clean))"

definition recordOutcome :: "'s update_op \<Rightarrow> gotime \<Rightarrow> Delivery \<Rightarrow> ForwardResult \<Rightarrow> 's \<Rightarrow> 's" where
  "recordOutcome upd now d result s = (case result of
     ResultAccepted \<Rightarrow> try_update upd (dlID d) DlvForwarded (dlAttempts d) now (Some now) s
   | ResultUnavailable \<Rightarrow> try_update upd (dlID d) DlvPending (dlAttempts d + 1) now None s
   | ResultRejected \<Rightarrow> try_update upd (dlID d) DlvForwardFailed (dlAttempts d + 1) now None s)"

definition hook_finish :: "'s update_op \<Rightarrow> HookCfg \<Rightarrow> EdgeEnv \<Rightarrow> (SignedRequest \<Rightarrow> nat option) \<Rightarrow> gotime \<Rightarrow> Delivery \<Rightarrow> 's Hook \<Rightarrow> HookResp \<times> 's Hook" where
  "hook_finish upd cfg ee transport now d h =
    (let result = forwardOne ee (hcPrimary cfg) transport d;
         h' = hook_release (dlExtDeliveryID d) (h\<lparr>hkStore := recordOutcome upd now d result (hkStore h)\<rparr>) in
     (case result of
        ResultAccepted \<Rightarrow> \<lparr>hpCode = 202, hpStatus = ''accepted''\<rparr>
      | ResultUnavailable \<Rightarrow> \<lparr>hpCode = 503, hpStatus = ''unavailable''\<rparr>
      | ResultRejected \<Rightarrow> \<lparr>hpCode = 202, hpStatus = ''accepted_deferred''\<rparr>, h'))"


subsection \<open>Steps of the edge\<close>

text \<open>An answer of the control plane comes in for a delivery that was admitted, so its row has a valid signature.\<close>

inductive ingest_step :: "HookCfg \<Rightarrow> EdgeEnv \<Rightarrow> Delivery list Hook \<Rightarrow> Delivery list Hook \<Rightarrow> bool" for cfg ee where
  admit: "hook_admit (PG_InsertDelivery up) cfg ee ident nonce now req h = (out, h') \<Longrightarrow> ingest_step cfg ee h h'"
| finish: "row \<in> set (hkStore h) \<Longrightarrow> dlID row = dlID d \<Longrightarrow> dlSigOK row \<Longrightarrow>
    hook_finish PG_UpdateForwardState cfg ee transport now d h = (resp, h') \<Longrightarrow> ingest_step cfg ee h h'"
| scan: "ingest_step cfg ee h (h\<lparr>hkStore := scanOnce PG_DueDeliveries PG_UpdateForwardState ee secret mx se (hkStore h)\<rparr>)"

definition signed_row :: "HookCfg \<Rightarrow> EdgeEnv \<Rightarrow> Delivery \<Rightarrow> bool" where
  "signed_row cfg ee d \<longleftrightarrow> (\<exists>header. map_of (dlHeaders d) ''x-hub-signature-256'' = Some header \<and>
     VerifyGitHubSignatureAny ee (hcSecrets cfg) (dlPayload d) header)"

definition edge_inv :: "HookCfg \<Rightarrow> EdgeEnv \<Rightarrow> Delivery list \<Rightarrow> bool" where
  "edge_inv cfg ee rows \<longleftrightarrow> pg_ids_ok rows \<and>
     distinct (map (\<lambda>d. (dlSource d, dlExtDeliveryID d)) (filter dlSigOK rows)) \<and>
     (\<forall>a \<in> set rows. (dlSigOK a \<longrightarrow> signed_row cfg ee a) \<and> (dlStatus a = DlvRejected \<longleftrightarrow> \<not> dlSigOK a))"

lemma PG_Insert_Inr: "PG_InsertDelivery up d rows = Inr rows' \<longleftrightarrow> up \<and> (\<forall>row \<in> set rows. \<not> dlv_conflict d row) \<and>
    rows' = rows @ [d\<lparr>dlLastAttemptAt := None, dlForwardedAt := None\<rparr>]"
  by (auto simp: PG_InsertDelivery_def list_ex_iff)

lemma edge_inv_insert:
  assumes inv: "edge_inv cfg ee rows" and ins: "PG_InsertDelivery up d rows = Inr rows'" and "dlSigOK d \<longrightarrow> signed_row cfg ee d"
    and "dlStatus d = DlvRejected \<longleftrightarrow> \<not> dlSigOK d"
  shows "edge_inv cfg ee rows'"
proof -
  let ?d = "d\<lparr>dlLastAttemptAt := None, dlForwardedAt := None\<rparr>"
  have free: "\<not> dlv_conflict d row" if "row \<in> set rows" for row using ins that by (simp add: PG_Insert_Inr)
  have eq: "rows' = rows @ [?d]" using ins by (simp add: PG_Insert_Inr)
  have "dlID d \<notin> dlID ` set rows" using free by (fastforce simp: dlv_conflict_def)
  moreover have "(dlSource d, dlExtDeliveryID d) \<notin> (\<lambda>d. (dlSource d, dlExtDeliveryID d)) ` set (filter dlSigOK rows)" if "dlSigOK d"
    using free that by (fastforce simp: dlv_conflict_def)
  moreover have "signed_row cfg ee ?d \<longleftrightarrow> signed_row cfg ee d" by (simp add: signed_row_def)
  ultimately show ?thesis using inv assms(3,4) unfolding eq edge_inv_def pg_ids_ok_def by simp
qed

lemma acquire_store [simp]: "hkStore (snd (acquire e h)) = hkStore h" "hkSeen (snd (acquire e h)) = hkSeen h"
  by (simp_all add: acquire_def Let_def)


lemma hook_delivery_sel [simp]:
  "dlSigOK (hook_delivery ee i now req raw ch sus)" "dlPayload (hook_delivery ee i now req raw ch sus) = raw"
  "dlExtDeliveryID (hook_delivery ee i now req raw ch sus) = hrDelivery req" "dlSource (hook_delivery ee i now req raw ch sus) = SourceGitHub"
  "dlStatus (hook_delivery ee i now req raw ch sus) \<noteq> DlvRejected" "dlDuplicateSuspect (hook_delivery ee i now req raw ch sus) = sus"
  "map_of (dlHeaders (hook_delivery ee i now req raw ch sus)) ''x-hub-signature-256'' = Some (hrSignature req)"
  by (simp_all add: hook_delivery_def Let_def)

lemma hook_persist_cases:
  assumes "hook_persist ins ee ident now req raw h = (out, h')"
  obtains ch sus where "out = Inr (hook_delivery ee (''dlv_'' @ ident) now req raw ch sus)"
      "ins (hook_delivery ee (''dlv_'' @ ident) now req raw ch sus) (hkStore h) = Inr (hkStore h')"
    | resp where "out = Inl resp" "hkStore h' = hkStore h"
proof -
  let ?key = "ClassHash (JsonCodec.truncate ee) SourceGitHub (extractRepo ee raw) (composeEventKind ee (hrEvent req) raw) raw"
  let ?d = "hook_delivery ee (''dlv_'' @ ident) now req raw (if hkSeen h = None then [] else ?key)
    (case hkSeen h of None \<Rightarrow> False | Some c \<Rightarrow> fst (SeenOrAdd now ?key c))"
  show thesis
  proof (cases "ins ?d (hkStore h)")
    case (Inl e)
    with assms show ?thesis by (intro that(2)) (auto simp: hook_persist_def Let_def hook_release_def)
  next
    case (Inr s)
    with assms show ?thesis by (intro that(1)) (auto simp: hook_persist_def Let_def)
  qed
qed

text \<open>Either the store is as it was, or one row was inserted: a quarantined one, or the delivery the answer hands on.\<close>

lemma hook_admit_store:
  assumes "hook_admit ins cfg ee ident nonce now req h = (out, h')"
  shows "hkStore h' = hkStore h \<and> (\<exists>resp. out = Inl resp) \<or>
    (\<exists>kind raw. (\<exists>resp. out = Inl resp) \<and> ins (quarantine_row (''dlv_'' @ ident) now (hrDelivery req) kind raw) (hkStore h) = Inr (hkStore h')) \<or>
    (\<exists>d. out = Inr d \<and> ins d (hkStore h) = Inr (hkStore h') \<and> dlSigOK d \<and> dlStatus d \<noteq> DlvRejected \<and> signed_row cfg ee d \<and>
      dlExtDeliveryID d = hrDelivery req \<and> hrBody req = Some (dlPayload d) \<and> VerifyTimestampSkew ee (hrTimestamp req) now (hcSkew cfg))"
proof (cases "hrMethod req = ''POST'' \<and> (\<exists>raw. readBody (hrBody req) (hcMaxBody cfg) = Some raw)")
  case False
  then show ?thesis using assms by (auto simp: hook_admit_def split: if_splits option.splits)
next
  case True
  then obtain raw where raw: "readBody (hrBody req) (hcMaxBody cfg) = Some raw" "hrBody req = Some raw"
    by (auto simp: readBody_def split: option.splits if_splits)
  show ?thesis
  proof (cases "hrSignature req = [] \<or> \<not> VerifyGitHubSignatureAny ee (hcSecrets cfg) raw (hrSignature req)")
    case bad: True
    with True raw assms have "out = Inl \<lparr>hpCode = 401, hpStatus = ''unauthorized''\<rparr>" "h' = hook_quarantine ins ee ident nonce now req raw h"
      by (auto simp: hook_admit_def)
    then show ?thesis by (auto simp: hook_quarantine_def Let_def split: sum.splits)
  next
    case good: False
    obtain ok h1 where acq: "acquire (hrDelivery req) h = (ok, h1)" by (cases "acquire (hrDelivery req) h")
    have store1: "hkStore h1 = hkStore h" using acquire_store(1) [of "hrDelivery req" h] by (simp add: acq)
    have signed: "signed_row cfg ee (hook_delivery ee i now req raw ch sus)" for i ch sus
      using good by (simp add: signed_row_def)
    show ?thesis
    proof (cases "VerifyTimestampSkew ee (hrTimestamp req) now (hcSkew cfg) \<and> hrDelivery req \<noteq> [] \<and> composeEventKind ee (hrEvent req) raw \<noteq> [] \<and> ok")
      case True
      then have "hook_persist ins ee ident now req raw h1 = (out, h')"
        using assms good raw acq \<open>hrMethod req = ''POST'' \<and> _\<close> by (simp add: hook_admit_def)
      then show ?thesis using True raw(2) signed store1 by (cases rule: hook_persist_cases) auto
    next
      case False
      then show ?thesis using assms good raw acq store1 \<open>hrMethod req = ''POST'' \<and> _\<close> by (auto simp: hook_admit_def split: if_splits)
    qed
  qed
qed


text \<open>What an outcome of forwarding may do to a row.\<close>

definition refreshed :: "Delivery \<Rightarrow> Delivery \<Rightarrow> bool" where
  "refreshed x x' \<longleftrightarrow> x' = x \<or> dlSigOK x \<and> (\<exists>st n la fa. st \<noteq> DlvRejected \<and> x' = set_forward st n la fa x)"

lemma refreshed_refl [simp]: "refreshed x x"
  by (simp add: refreshed_def)

lemma refreshedI: "dlSigOK x \<Longrightarrow> st \<noteq> DlvRejected \<Longrightarrow> refreshed x (set_forward st n la fa x)"
  unfolding refreshed_def by blast

lemma signed_forward [simp]: "signed_row cfg ee (set_forward st n la fa x) = signed_row cfg ee x"
  by (simp add: signed_row_def set_forward_def)

lemma map_forward_inv:
  assumes "edge_inv cfg ee rows" and "list_all2 refreshed rows rows'"
  shows "edge_inv cfg ee rows' \<and> map dlv_identity rows' = map dlv_identity rows"
proof -
  have ok: "\<forall>a \<in> set rows. (dlSigOK a \<longrightarrow> signed_row cfg ee a) \<and> (dlStatus a = DlvRejected \<longleftrightarrow> \<not> dlSigOK a)"
    using assms(1) by (simp add: edge_inv_def)
  have each: "dlv_identity x' = dlv_identity x" "dlStatus x' = DlvRejected \<longleftrightarrow> \<not> dlSigOK x'" "dlSigOK x' \<longrightarrow> signed_row cfg ee x'"
    if "x \<in> set rows" "refreshed x x'" for x x'
    using that(2) bspec [OF ok that(1)] unfolding refreshed_def by (elim disjE, simp, force simp: dlv_identity_forward)+
  have idy: "map dlv_identity rows' = map dlv_identity rows"
    using assms(2) each(1) by (auto simp: list_all2_conv_all_nth intro!: nth_equalityI)
  have "map dlID rows' = map (\<lambda>x. fst (fst x)) (map dlv_identity rows')" by (simp add: dlv_identity_def)
  then have ids: "map dlID rows' = map dlID rows" unfolding idy by (simp add: dlv_identity_def)
  have keys: "map (\<lambda>d. (dlSource d, dlExtDeliveryID d)) (filter dlSigOK xs) =
      map (\<lambda>((i, s, e, k), r, p, ok, hs, sus). (s, e)) (filter (\<lambda>((i, s, e, k), r, p, ok, hs, sus). ok) (map dlv_identity xs))" for xs
    by (induction xs) (simp_all add: dlv_identity_def)
  have "(dlStatus x' = DlvRejected \<longleftrightarrow> \<not> dlSigOK x') \<and> (dlSigOK x' \<longrightarrow> signed_row cfg ee x')" if "x' \<in> set rows'" for x'
    using list_all2_right [OF assms(2) that] each(2,3) by blast
  then show ?thesis using assms(1) idy unfolding edge_inv_def pg_ids_ok_def ids keys idy by blast
qed

lemma edge_scan:
  assumes "edge_inv cfg ee rows"
  shows "edge_inv cfg ee (scanOnce PG_DueDeliveries PG_UpdateForwardState ee' secret mx se rows) \<and>
    map dlv_identity (scanOnce PG_DueDeliveries PG_UpdateForwardState ee' secret mx se rows) = map dlv_identity rows"
proof (rule map_forward_inv [OF assms])
  have ids: "pg_ids_ok rows" using assms by (simp add: edge_inv_def)
  have sig: "dlSigOK x" if "x \<in> set rows" "Retryable mx x" for x using that assms by (auto simp: edge_inv_def Retryable_def)
  let ?rows' = "scanOnce PG_DueDeliveries PG_UpdateForwardState ee' secret mx se rows"
  show "list_all2 refreshed rows ?rows'"
    by (rule list.rel_mono_strong [OF pgd.scan_rows(2) [OF ids]]) (auto simp: tried_def sig refreshedI)
qed

lemma edge_finish:
  assumes "edge_inv cfg ee rows" and "row \<in> set rows" "dlID row = dlID d" "dlSigOK row"
  shows "edge_inv cfg ee (recordOutcome PG_UpdateForwardState now d result rows) \<and>
    map dlv_identity (recordOutcome PG_UpdateForwardState now d result rows) = map dlv_identity rows"
proof (rule map_forward_inv [OF assms(1)])
  have ids: "pg_ids_ok rows" using assms by (simp add: edge_inv_def)
  have "dlSigOK x" if "x \<in> set rows" "dlID x = dlID d" for x
    using that ids assms(2-4) by (auto simp: pg_ids_ok_def distinct_map inj_on_def)
  then have "list_all2 refreshed rows
      (map (\<lambda>x. if dlID x = dlID d then set_forward st n la fa x else x) rows)" if "st \<noteq> DlvRejected" for st n la fa
    using that by (auto simp: list_all2_map2 list_all2_same refreshedI)
  then show "list_all2 refreshed rows
      (recordOutcome PG_UpdateForwardState now d result rows)"
    by (cases result) (simp_all add: recordOutcome_def pgd.try_update_rows(2) [OF ids])
qed

lemma ingest_step_inv:
  assumes "ingest_step cfg ee h h'" and "edge_inv cfg ee (hkStore h)"
  shows "edge_inv cfg ee (hkStore h') \<and> (\<exists>new. map dlv_identity (hkStore h') = map dlv_identity (hkStore h) @ new)"
  using assms(1)
proof cases
  case (admit up ident nonce now req out)
  from hook_admit_store [OF this] show ?thesis
  proof (elim disjE exE conjE)
    fix d assume d: "PG_InsertDelivery up d (hkStore h) = Inr (hkStore h')" "dlSigOK d" "dlStatus d \<noteq> DlvRejected" "signed_row cfg ee d"
    have "edge_inv cfg ee (hkStore h')" using d by (intro edge_inv_insert [OF assms(2) d(1)]) auto
    with d(1) show ?thesis by (auto simp: PG_Insert_Inr)
  next
    fix kind raw assume d: "PG_InsertDelivery up (quarantine_row (''dlv_'' @ ident) now (hrDelivery req) kind raw) (hkStore h) = Inr (hkStore h')"
    have "edge_inv cfg ee (hkStore h')" by (intro edge_inv_insert [OF assms(2) d]) (simp_all add: quarantine_row_def)
    with d show ?thesis by (auto simp: PG_Insert_Inr)
  qed (use assms(2) in simp)
next
  case (finish row d transport now resp)
  have "hkStore h' = recordOutcome PG_UpdateForwardState now d (forwardOne ee (hcPrimary cfg) transport d) (hkStore h)"
    using finish(4) by (auto simp: hook_finish_def Let_def hook_release_def)
  with edge_finish [OF assms(2) finish(1-3)] show ?thesis by simp
next
  case (scan secret mx se)
  with edge_scan [OF assms(2)] show ?thesis by simp
qed


lemma edge_reach_inv:
  "(ingest_step cfg ee)\<^sup>*\<^sup>* h h' \<Longrightarrow> edge_inv cfg ee (hkStore h) \<Longrightarrow>
     edge_inv cfg ee (hkStore h') \<and> (\<exists>new. map dlv_identity (hkStore h') = map dlv_identity (hkStore h) @ new)"
  by (induction rule: rtranclp_induct) (use ingest_step_inv in \<open>fastforce+\<close>)

lemma edge_unique:
  assumes "edge_inv cfg ee rows" and "a \<in> set rows" and "b \<in> set rows" and "dlSigOK a" and "dlSigOK b"
    and "dlSource a = dlSource b" and "dlExtDeliveryID a = dlExtDeliveryID b"
  shows "a = b"
proof -
  have "inj_on (\<lambda>d. (dlSource d, dlExtDeliveryID d)) (set (filter dlSigOK rows))"
    using assms(1) by (simp add: edge_inv_def distinct_map)
  from inj_onD [OF this, of a b] assms(2-7) show ?thesis by simp
qed

lemma edge_inv_empty: "edge_inv cfg ee []"
  by (simp add: edge_inv_def pg_ids_ok_def)


text \<open>C23: Nothing unsigned is retried. In every state reached from an empty store, each delivery the retry worker takes up is a
  stored row whose body verifies under a configured secret; quarantined requests are never forwarded.\<close>

theorem retried_deliveries_are_signed:
  assumes "hkStore h = []" and "(ingest_step cfg ee)\<^sup>*\<^sup>* h h'" and "d \<in> set (PG_DueDeliveries now age mx limit (hkStore h'))"
  shows "\<exists>row \<in> set (hkStore h'). dlID row = dlID d \<and> dlPayload row = dlPayload d \<and> dlSigOK row \<and> signed_row cfg ee row \<and> dlAttempts row < mx"
proof -
  have inv: "edge_inv cfg ee (hkStore h')" using edge_reach_inv [OF assms(2)] edge_inv_empty assms(1) by simp
  obtain row where row: "row \<in> set (hkStore h')" "dlStatus row \<in> {DlvPending, DlvForwardFailed, DlvDuplicateSuspect}" "dlAttempts row < mx"
      "d = row\<lparr>dlHeaders := [], dlLastAttemptAt := Some (last_try row), dlForwardedAt := None\<rparr>"
    using assms(3) by (auto simp: PG_DueDeliveries_def dest!: in_set_takeD)
  with inv show ?thesis by (intro bexI [OF _ row(1)]) (auto simp: edge_inv_def)
qed

subsection \<open>Lost deliveries\<close>

definition hook_valid :: "HookCfg \<Rightarrow> EdgeEnv \<Rightarrow> gotime \<Rightarrow> HookReq \<Rightarrow> string \<Rightarrow> bool" where
  "hook_valid cfg ee now req raw \<longleftrightarrow> hrMethod req = ''POST'' \<and> readBody (hrBody req) (hcMaxBody cfg) = Some raw \<and> hrSignature req \<noteq> [] \<and>
     VerifyGitHubSignatureAny ee (hcSecrets cfg) raw (hrSignature req) \<and> VerifyTimestampSkew ee (hrTimestamp req) now (hcSkew cfg) \<and>
     hrDelivery req \<noteq> [] \<and> composeEventKind ee (hrEvent req) raw \<noteq> []"

lemma hook_admit_valid:
  "hook_valid cfg ee now req raw \<Longrightarrow> hook_admit ins cfg ee ident nonce now req h =
     (case acquire (hrDelivery req) h of (False, h1) \<Rightarrow> (Inl \<lparr>hpCode = 202, hpStatus = ''deduplicated''\<rparr>, h1)
      | (True, h1) \<Rightarrow> hook_persist ins ee ident now req raw h1)"
  by (simp add: hook_valid_def hook_admit_def)

text \<open>An overloaded edge swallows deliveries. With 64 requests in flight, a valid delivery that is not one of them is answered
  202 and \<^verbatim>\<open>deduplicated\<close>, so the sender does not deliver it again, while nothing is stored.\<close>

theorem overloaded_edge_swallows_delivery:
  assumes "hook_valid cfg ee now req raw" and "64 \<le> length (hkInflight h)"
  shows "hook_admit ins cfg ee ident nonce now req h = (Inl \<lparr>hpCode = 202, hpStatus = ''deduplicated''\<rparr>, h)"
  using assms(2) by (simp add: hook_admit_valid [OF assms(1)] acquire_def maxInflight_def)

lemma SeenOrAdd_front:
  assumes "0 < scMax c"
  shows "map_of (scEntries (snd (SeenOrAdd now key c))) key = Some now" and "scTTL (snd (SeenOrAdd now key c)) = scTTL c"
proof -
  obtain m where "scMax c = Suc m" using assms by (cases "scMax c") auto
  then show "map_of (scEntries (snd (SeenOrAdd now key c))) key = Some now"
    by (simp add: SeenOrAdd_def Let_def evict_loop_eq split: option.split)
qed (simp add: SeenOrAdd_def Let_def evict_loop_eq split: option.split)

text \<open>A database outage turns the redelivery into a record. When the insert of a fresh valid delivery fails, the sender is told
  to deliver again; but its class has already entered the replay window, so the redelivery is admitted as a duplicate suspect, which
  the control plane records without any effect.\<close>

theorem outage_makes_redelivery_record_only:
  assumes "hook_valid cfg ee now req raw" and "hook_valid cfg ee now' req raw" and "length (hkInflight h) < 64"
    and "dlv_key SourceGitHub (hrDelivery req) \<notin> set (hkInflight h)" and "hkSeen h = Some c" and "0 < scMax c"
    and "now \<le> now'" and "now' - now < scTTL c" and "scTTL c < 2 ^ 63"
    and "\<forall>row \<in> set (hkStore h). dlID row \<noteq> ''dlv_'' @ ident' \<and> dlExtDeliveryID row \<noteq> hrDelivery req"
  shows "\<exists>h1 d h2. hook_admit (PG_InsertDelivery False) cfg ee ident nonce now req h = (Inl \<lparr>hpCode = 503, hpStatus = ''unavailable''\<rparr>, h1) \<and>
    hook_admit (PG_InsertDelivery True) cfg ee ident' nonce' now' req h1 = (Inr d, h2) \<and> dlDuplicateSuspect d \<and>
    (\<forall>clean. enDuplicateSuspect (delivery_envelope d clean))"
proof -
  let ?k = "dlv_key SourceGitHub (hrDelivery req)"
  let ?key = "ClassHash (JsonCodec.truncate ee) SourceGitHub (extractRepo ee raw) (composeEventKind ee (hrEvent req) raw) raw"
  let ?c1 = "snd (SeenOrAdd now ?key c)"
  let ?h1 = "h\<lparr>hkSeen := Some ?c1\<rparr>"
  have rel: "hook_release (hrDelivery req) (h\<lparr>hkInflight := ?k # hkInflight h, hkSeen := Some ?c1\<rparr>) = ?h1"
    using assms(4) by (simp add: hook_release_def)
  have first: "hook_admit (PG_InsertDelivery False) cfg ee ident nonce now req h = (Inl \<lparr>hpCode = 503, hpStatus = ''unavailable''\<rparr>, ?h1)"
    using assms(3-5) rel by (simp add: hook_admit_valid [OF assms(1)] acquire_def maxInflight_def hook_persist_def Let_def PG_InsertDelivery_def)
  have seen: "fst (SeenOrAdd now' ?key ?c1)"
    using SeenOrAdd_front [OF assms(6)] assms(7-9) by (simp add: SeenOrAdd_def [of now'] Let_def time_sub_def)
  let ?d = "hook_delivery ee (''dlv_'' @ ident') now' req raw ?key True"
  have "dlID ?d = ''dlv_'' @ ident'" by (simp add: hook_delivery_def Let_def)
  then have "\<not> list_ex (dlv_conflict ?d) (hkStore h)" using assms(10) by (auto simp: list_ex_iff dlv_conflict_def)
  then have "\<exists>h2. hook_admit (PG_InsertDelivery True) cfg ee ident' nonce' now' req ?h1 = (Inr ?d, h2)"
    using assms(3,4) seen by (simp add: hook_admit_valid [OF assms(2)] acquire_def maxInflight_def hook_persist_def Let_def PG_InsertDelivery_def)
  with first show ?thesis by (auto simp: delivery_envelope_def)
qed

text \<open>A timestamp far enough in the future passes the skew check: the difference saturates at the least 64-bit integer, whose
  negation is itself.\<close>

theorem far_future_timestamp_passes:
  assumes "eeParseRFC3339 ee header = Some ts" and "now + 2 ^ 63 \<le> ts" and "0 \<le> tolerance"
  shows "VerifyTimestampSkew ee header now tolerance"
proof -
  have "time_sub now ts = - (2 ^ 63)" using assms(2) by (simp add: time_sub_def)
  moreover have "i64 (2 ^ 63) = - (2 ^ 63)" by (simp add: i64_alt)
  ultimately show ?thesis using assms by (simp add: VerifyTimestampSkew_def Let_def)
qed

text \<open>In the in-memory store a request with a bad signature erases the stored delivery with the same id.\<close>

lemma memory_quarantine_erases_delivery:
  assumes "map_of m (dlv_key SourceGitHub ext) = Some d" and "dlSigOK d"
  shows "\<exists>m'. Mem_InsertDelivery (quarantine_row ident now ext kind raw) m = Inr m' \<and>
    map_of m' (dlv_key SourceGitHub ext) = Some (quarantine_row ident now ext kind raw)"
proof -
  have "map_of (map (\<lambda>(k, x). if k = key then (k, q) else (k, x)) m) key = Some q" if "map_of m key = Some d" for key q
    using that by (induction m) (auto split: if_splits)
  with assms show ?thesis by (auto simp: Mem_InsertDelivery_def quarantine_row_def Let_def)
qed


subsection \<open>Sample requests\<close>

definition sample_edge :: EdgeEnv where
  "sample_edge = \<lparr>jcUnmarshal = (\<lambda>_. Some VNull), jcMarshal = (\<lambda>_. ''null''), jcSHA256 = (\<lambda>s. s), eeDecode = (\<lambda>_. Some VNull),
     eeActionOf = (\<lambda>_. None), eeRepoOf = (\<lambda>_. None), eeHMAC = (\<lambda>_ _. ''A''), eeScrub = (\<lambda>s. s), eeSensitive = (\<lambda>_. False),
     eeMarshalEnvelope = enExtDeliveryID, eeParseRFC3339 = (\<lambda>_. Some (2 ^ 64))\<rparr>"

definition sample_cfg :: HookCfg where
  "sample_cfg = \<lparr>hcMaxBody = 100, hcSkew = 300, hcSecrets = [''s''], hcPrimary = ''s''\<rparr>"

definition sample_req :: HookReq where
  "sample_req = \<lparr>hrMethod = ''POST'', hrBody = Some ''b'', hrSignature = ''sha256=41'', hrDelivery = ''g1'', hrEvent = ''push'',
     hrTimestamp = [], hrContentType = []\<rparr>"

definition sample_hook :: "Delivery list Hook" where
  "sample_hook = \<lparr>hkStore = [], hkInflight = [], hkSeen = Some (NewCache 5 1000), hkMarkers = \<lparr>mqItems = [], mqDropped = 0, mqStopped = False\<rparr>\<rparr>"

lemma sample_valid: "hook_valid sample_cfg sample_edge now sample_req ''b''"
proof -
  have "hook_valid sample_cfg sample_edge 0 sample_req ''b''" by code_simp
  then show ?thesis by (simp add: hook_valid_def VerifyTimestampSkew_def sample_req_def)
qed

definition sample_admitted :: "Delivery list Hook" where
  "sample_admitted = snd (hook_admit (PG_InsertDelivery True) sample_cfg sample_edge ''1'' ''2'' 10 sample_req sample_hook)"

lemma sample_admit:
  "\<exists>d. hook_admit (PG_InsertDelivery True) sample_cfg sample_edge ''1'' ''2'' 10 sample_req sample_hook = (Inr d, sample_admitted)"
proof -
  have "\<not> isl (fst (hook_admit (PG_InsertDelivery True) sample_cfg sample_edge ''1'' ''2'' 10 sample_req sample_hook))" by code_simp
  then show ?thesis unfolding sample_admitted_def by (metis prod.collapse sum.collapse(2))
qed

lemma sample_step: "(ingest_step sample_cfg sample_edge)\<^sup>*\<^sup>* sample_hook sample_admitted"
  using sample_admit ingest_step.admit by blast


theorem retried_deliveries_are_signed_witness:
  "\<exists>row \<in> set (hkStore sample_admitted). dlSigOK row \<and> signed_row sample_cfg sample_edge row \<and> dlAttempts row < 9"
proof -
  have "PG_DueDeliveries 100 30 9 100 (hkStore sample_admitted) \<noteq> []" by code_simp
  then obtain d where d: "d \<in> set (PG_DueDeliveries 100 30 9 100 (hkStore sample_admitted))" by (meson last_in_set)
  have "hkStore sample_hook = []" by (simp add: sample_hook_def)
  from retried_deliveries_are_signed [OF this sample_step d] show ?thesis by blast
qed

theorem overloaded_edge_swallows_delivery_witness:
  "hook_admit (PG_InsertDelivery True) sample_cfg sample_edge ''1'' ''2'' 10 sample_req (sample_hook\<lparr>hkInflight := replicate 64 ''x''\<rparr>) =
     (Inl \<lparr>hpCode = 202, hpStatus = ''deduplicated''\<rparr>, sample_hook\<lparr>hkInflight := replicate 64 ''x''\<rparr>)"
  by (rule overloaded_edge_swallows_delivery [OF sample_valid]) simp

theorem outage_makes_redelivery_record_only_witness:
  "\<exists>h1 d h2. hook_admit (PG_InsertDelivery False) sample_cfg sample_edge ''1'' ''2'' 10 sample_req sample_hook =
       (Inl \<lparr>hpCode = 503, hpStatus = ''unavailable''\<rparr>, h1) \<and>
     hook_admit (PG_InsertDelivery True) sample_cfg sample_edge ''3'' ''4'' 20 sample_req h1 = (Inr d, h2) \<and> dlDuplicateSuspect d"
  using outage_makes_redelivery_record_only [OF sample_valid sample_valid, of sample_hook "NewCache 5 1000" 10 20 "''3''" "''1''" "''2''" "''4''"]
  by (auto simp: sample_hook_def NewCache_def)

theorem far_future_timestamp_passes_witness: "VerifyTimestampSkew sample_edge ''9999-01-01T00:00:00Z'' 0 300"
  by (rule far_future_timestamp_passes [where ts = "2 ^ 64"]) (simp_all add: sample_edge_def)

definition calm_scan :: "gotime \<Rightarrow> ScanEnv" where
  "calm_scan t = \<lparr>seNow = t, seTransport = (\<lambda>_ _ _. None), seCtx = (\<lambda>_ _. CtxLive), seClock = (\<lambda>_. t), seStop = (\<lambda>_. False)\<rparr>"


end
