(* ===== verification/Connector.thy ===== *)
theory Connector
  imports Pending Tracking Hook
begin

text \<open>
  The push flows of the GitHub connector: publication of check runs (internal/checks/publisher.go, internal/emit), the
  decision, lifecycle and re-run flows (internal/api), the re-run guardrails (internal/rerun), the sweeper of stalled checks
  (internal/sweeper) and the delivery of queued writes. The trackers and the outbox are called through their interfaces, so
  their operations are fields of the wiring \<open>Wiring\<close>; the GitHub API, the control plane, JSON and HMAC are parameters
  there too. What one request meets (clock, answers of the database, of the installation resolver and of the context, jitter, a
  fresh id) is a \<open>ConnReq\<close>.
\<close>

subsection \<open>Publishing check runs (checks/publisher.go)\<close>

text \<open>The options sent to the Checks API; an update carries neither head nor external id.\<close>

record CheckOpts =
  koName :: string
  koHeadSHA :: "string option"
  koStatus :: string
  koConclusion :: "string option"
  koCompletedAt :: "gotime option"
  koDetailsURL :: string
  koExternalID :: "string option"
  koTitle :: string
  koSummary :: string
  koAnnotations :: "(string \<times> string \<times> (string \<times> int \<times> int) option) list"

definition outputFor :: "CheckPayload \<Rightarrow> (string \<times> string \<times> (string \<times> int \<times> int) option) list" where
  "outputFor payload = map (\<lambda>a. (anMessage a, anTitle a, if anPath a \<noteq> [] then Some (anPath a, anStartLine a, anEndLine a) else None)) (cpAnnotations payload)"

definition update_opts :: "CheckPayload \<Rightarrow> CheckOpts" where
  "update_opts payload = \<lparr>koName = cpName payload, koHeadSHA = None, koStatus = cpStatus payload,
     koConclusion = (if cpConclusion payload \<noteq> [] then Some (cpConclusion payload) else None), koCompletedAt = cpCompletedAt payload,
     koDetailsURL = cpDetailsURL payload, koExternalID = None, koTitle = CheckName, koSummary = cpSummary payload, koAnnotations = outputFor payload\<rparr>"

definition create_opts :: "CheckPayload \<Rightarrow> CheckOpts" where
  "create_opts payload = (update_opts payload)\<lparr>koHeadSHA := Some (cpHeadSHA payload), koExternalID := Some (cpExternalID payload)\<rparr>"

definition plain_error :: "string \<Rightarrow> GhErr" where
  "plain_error msg = \<lparr>geAbuse = None, geRateLimit = False, geResponse = None, geText = msg\<rparr>"

datatype RerunPolicy = PolicyReplan | PolicyReplayCached

definition ParsePolicy :: "string \<Rightarrow> RerunPolicy option" where
  "ParsePolicy raw = (let v = ToLower (TrimSpace raw) in
     if v = [] then Some PolicyReplan else if v = ''replan'' then Some PolicyReplan
     else if v = ''replay_cached'' then Some PolicyReplayCached else None)"

record ('q, 't, 'w) Wiring =
  wiRecord :: "bool \<Rightarrow> gotime \<Rightarrow> TrackRecord \<Rightarrow> 't \<Rightarrow> 't option"
  wiLookup :: "bool \<Rightarrow> string \<Rightarrow> string \<Rightarrow> 't \<Rightarrow> TrackErr + TrackRecord"
  wiFind :: "bool \<Rightarrow> string \<Rightarrow> 't \<Rightarrow> TrackErr + TrackRecord"
  wiOpen :: "bool \<Rightarrow> gotime \<Rightarrow> nat \<Rightarrow> 't \<Rightarrow> TrackRecord list option"
  wiEnqueue :: "(bool \<Rightarrow> string \<Rightarrow> gotime \<Rightarrow> PendingWrite \<Rightarrow> 'q \<Rightarrow> 'q option) option"
  wiRegistry :: bool
  wiResolver :: bool
  wiClient :: "int \<Rightarrow> bool"
  wiCreate :: "int \<Rightarrow> string \<Rightarrow> string \<Rightarrow> CheckOpts \<Rightarrow> 'w \<Rightarrow> (GhErr + int) \<times> 'w"
  wiUpdate :: "int \<Rightarrow> string \<Rightarrow> string \<Rightarrow> int \<Rightarrow> CheckOpts \<Rightarrow> 'w \<Rightarrow> GhErr option \<times> 'w"
  wiReporter :: "(DecisionEnvelope \<Rightarrow> 'w \<Rightarrow> 'w) option"
  wiControl :: "(string \<Rightarrow> string \<Rightarrow> 'w \<Rightarrow> int option \<times> 'w) option"
  wiDetails :: string
  wiPolicy :: RerunPolicy

record ConnReq =
  rqNow :: gotime
  rqFindUp :: bool
  rqLookupUp :: bool
  rqRecordUp :: bool
  rqEnqueueUp :: bool
  rqResolve :: "string \<Rightarrow> string \<Rightarrow> int option"
  rqCancelled :: "nat \<Rightarrow> bool"
  rqDraw :: "nat \<Rightarrow> int \<Rightarrow> int"
  rqFresh :: string

definition Live_Create :: "('q, 't, 'w) Wiring \<Rightarrow> int \<Rightarrow> string \<Rightarrow> CheckPayload \<Rightarrow> 'w \<Rightarrow> (GhErr + int) \<times> 'w" where
  "Live_Create wi inst repo payload w = (case SplitRepo repo of None \<Rightarrow> (Inl (plain_error ''repo must be owner/name''), w)
     | Some (owner, name) \<Rightarrow> wiCreate wi inst owner name (create_opts payload) w)"

definition Live_Update :: "('q, 't, 'w) Wiring \<Rightarrow> int \<Rightarrow> string \<Rightarrow> int \<Rightarrow> CheckPayload \<Rightarrow> 'w \<Rightarrow> GhErr option \<times> 'w" where
  "Live_Update wi inst repo checkRunID payload w = (case SplitRepo repo of None \<Rightarrow> (Some (plain_error ''repo must be owner/name''), w)
     | Some (owner, name) \<Rightarrow> wiUpdate wi inst owner name checkRunID (update_opts payload) w)"

subsection \<open>Re-run guardrails (rerun/budget.go, rerun/control.go)\<close>

record RerunBudget =
  rbMaxPerCandidate :: int
  rbRatePerHour :: int
  rbPerCandidate :: "string \<rightharpoonup> int"
  rbHourly :: "string \<rightharpoonup> int"

definition hour_key :: "gotime \<Rightarrow> int \<Rightarrow> string" where
  "hour_key now inst = itoa (if inst = 0 then - 1 else inst) @ ''|'' @ itoa ((now div gosecond) sdiv 3600)"

datatype RerunVerdict = RerunAllowed | RerunBlocked string

definition Rerun_Allow :: "gotime \<Rightarrow> string \<Rightarrow> int \<Rightarrow> RerunBudget \<Rightarrow> RerunVerdict" where
  "Rerun_Allow now candidateID inst b =
    (if get0 (rbPerCandidate b) candidateID \<ge> rbMaxPerCandidate b then RerunBlocked ''candidate_cap''
     else if get0 (rbHourly b) (hour_key now inst) \<ge> rbRatePerHour b then RerunBlocked ''hour_rate''
     else RerunAllowed)"

definition Rerun_Record :: "gotime \<Rightarrow> string \<Rightarrow> int \<Rightarrow> RerunBudget \<Rightarrow> RerunBudget" where
  "Rerun_Record now candidateID inst b = b\<lparr>
     rbPerCandidate := (rbPerCandidate b)(candidateID \<mapsto> get0 (rbPerCandidate b) candidateID + 1),
     rbHourly := (rbHourly b)(hour_key now inst \<mapsto> get0 (rbHourly b) (hour_key now inst) + 1)\<rparr>"

record Dedupe =
  ddSeen :: "string \<rightharpoonup> gotime"
  ddTTL :: duration

definition FirstSeen :: "gotime \<Rightarrow> string \<Rightarrow> Dedupe \<Rightarrow> bool \<times> Dedupe" where
  "FirstSeen now key d =
    (let cutoff = now - ddTTL d;
         live = (\<lambda>k. case ddSeen d k of Some t \<Rightarrow> if t < cutoff then None else Some t | None \<Rightarrow> None) in
     if live key \<noteq> None then (False, d\<lparr>ddSeen := live\<rparr>) else (True, d\<lparr>ddSeen := live(key \<mapsto> now)\<rparr>))"

datatype RevalidateErr = ErrUnknownCandidate | ErrRerunBudgetExhausted | ErrRevalidateOther

text \<open>\<^verbatim>\<open>Revalidate\<close>: no call without a configured control plane or with a key outside 16 to 128 bytes;
  the parameter answers with the status of the response, or nothing when the call fails.\<close>

definition Revalidate :: "('q, 't, 'w) Wiring \<Rightarrow> string \<Rightarrow> string \<Rightarrow> 'w \<Rightarrow> RevalidateErr option \<times> 'w" where
  "Revalidate wi candidateID key w = (case wiControl wi of None \<Rightarrow> (Some ErrRevalidateOther, w)
     | Some call \<Rightarrow> if length key < 16 \<or> length key > 128 then (Some ErrRevalidateOther, w)
       else (case call candidateID key w of (None, w') \<Rightarrow> (Some ErrRevalidateOther, w')
         | (Some code, w') \<Rightarrow> ((if code = 202 then None else if code = 404 then Some ErrUnknownCandidate
             else if code = 409 then Some ErrRerunBudgetExhausted else Some ErrRevalidateOther), w')))"

subsection \<open>Routing writes (emit/router.go)\<close>

record ('q, 't, 'w) Conn =
  cnTracker :: 't
  cnPending :: 'q
  cnBudget :: Budget
  cnGitHub :: 'w
  cnDry :: "(string \<times> int \<times> CheckPayload) list"
  cnRerun :: RerunBudget
  cnSeen :: Dedupe

datatype RouteErr = RouteRepo | RouteClient | RouteExhausted | RouteEnqueue | RoutePublish GateErr

record RouteResult =
  rrQueued :: bool
  rrCheckRunID :: int
  rrDryRun :: bool

definition resolvePublisher :: "('q, 't, 'w) Wiring \<Rightarrow> ConnReq \<Rightarrow> string \<Rightarrow> RouteErr + int option" where
  "resolvePublisher wi rq repo = (if \<not> wiRegistry wi then Inr None else if \<not> wiResolver wi then Inr None
     else case SplitRepo repo of None \<Rightarrow> Inl RouteRepo
     | Some (owner, name) \<Rightarrow> (case rqResolve rq owner name of None \<Rightarrow> Inr None
         | Some inst \<Rightarrow> if wiClient wi inst then Inr (Some inst) else Inl RouteClient))"

definition InstallationFor :: "('q, 't, 'w) Wiring \<Rightarrow> ConnReq \<Rightarrow> string \<Rightarrow> int" where
  "InstallationFor wi rq repo = (if \<not> wiResolver wi then 0
     else case SplitRepo repo of None \<Rightarrow> 0 | Some (owner, name) \<Rightarrow> (case rqResolve rq owner name of None \<Rightarrow> 0 | Some inst \<Rightarrow> inst))"

definition dryWrite :: "string \<Rightarrow> int \<Rightarrow> CheckPayload \<Rightarrow> ('q, 't, 'w) Conn \<Rightarrow> int \<times> ('q, 't, 'w) Conn" where
  "dryWrite repo checkRunID payload st = ((if checkRunID > 0 then checkRunID else 0),
     st\<lparr>cnDry := cnDry st @ [(repo, if checkRunID > 0 then checkRunID else 0, payload)]\<rparr>)"

definition publish_once :: "('q, 't, 'w) Wiring \<Rightarrow> int \<Rightarrow> string \<Rightarrow> int \<Rightarrow> CheckPayload \<Rightarrow> 'w \<times> int \<Rightarrow> GhErr option \<times> 'w \<times> int" where
  "publish_once wi inst repo checkRunID payload s =
    (if checkRunID > 0 then (case Live_Update wi inst repo checkRunID payload (fst s) of (e, w) \<Rightarrow> (e, w, checkRunID))
     else (case Live_Create wi inst repo payload (fst s) of (Inl e, w) \<Rightarrow> (Some e, w, 0) | (Inr ident, w) \<Rightarrow> (None, w, ident)))"

definition pending_of :: "int \<Rightarrow> string \<Rightarrow> int \<Rightarrow> CheckPayload \<Rightarrow> PendingWrite" where
  "pending_of inst repo checkRunID payload = \<lparr>pwID = [], pwKey = cpExternalID payload @ '':'' @ cpStatus payload, pwInstallationID = inst,
     pwRepo = repo, pwOp = (if checkRunID > 0 then OpUpdateCheck else OpCreateCheck), pwCheckRunID = checkRunID, pwPayload = payload,
     pwCreatedAt = zero_time, pwNextAttemptAt = zero_time, pwAttempts = 0\<rparr>"

definition route_write :: "('q, 't, 'w) Wiring \<Rightarrow> ConnReq \<Rightarrow> string \<Rightarrow> int \<Rightarrow> CheckPayload \<Rightarrow> ('q, 't, 'w) Conn \<Rightarrow> (RouteErr + RouteResult) \<times> ('q, 't, 'w) Conn" where
  "route_write wi rq repo checkRunID payload st = (case resolvePublisher wi rq repo of Inl e \<Rightarrow> (Inl e, st)
     | Inr None \<Rightarrow> (let (ident, st') = dryWrite repo checkRunID payload st in (Inr \<lparr>rrQueued = False, rrCheckRunID = ident, rrDryRun = True\<rparr>, st'))
     | Inr (Some inst) \<Rightarrow>
         (case Gate_Do (rqNow rq) (rqCancelled rq) (rqDraw rq) inst (publish_once wi inst repo checkRunID payload) (cnBudget st) (cnGitHub st, 0) of
           (err, _, g, w, ident) \<Rightarrow>
             (let st1 = st\<lparr>cnBudget := g, cnGitHub := w\<rparr> in
              case err of None \<Rightarrow> (Inr \<lparr>rrQueued = False, rrCheckRunID = ident, rrDryRun = False\<rparr>, st1)
              | Some GateBudgetExhausted \<Rightarrow>
                  (case wiEnqueue wi of None \<Rightarrow> (Inl RouteExhausted, st1)
                   | Some enq \<Rightarrow> (case enq (rqEnqueueUp rq) (rqFresh rq) (rqNow rq) (pending_of inst repo checkRunID payload) (cnPending st1) of
                       None \<Rightarrow> (Inl RouteEnqueue, st1)
                     | Some q \<Rightarrow> (Inr \<lparr>rrQueued = True, rrCheckRunID = 0, rrDryRun = False\<rparr>, st1\<lparr>cnPending := q\<rparr>)))
              | Some e \<Rightarrow> (Inl (RoutePublish e), st1))))"

definition Router_Create :: "('q, 't, 'w) Wiring \<Rightarrow> ConnReq \<Rightarrow> string \<Rightarrow> CheckPayload \<Rightarrow> ('q, 't, 'w) Conn \<Rightarrow> (RouteErr + RouteResult) \<times> ('q, 't, 'w) Conn" where
  "Router_Create wi rq repo payload st = route_write wi rq repo 0 payload st"

definition Router_Update :: "('q, 't, 'w) Wiring \<Rightarrow> ConnReq \<Rightarrow> string \<Rightarrow> int \<Rightarrow> CheckPayload \<Rightarrow> ('q, 't, 'w) Conn \<Rightarrow> (RouteErr + RouteResult) \<times> ('q, 't, 'w) Conn" where
  "Router_Update wi rq repo checkRunID payload st =
    (if checkRunID \<le> 0 then route_write wi rq repo 0 payload st else route_write wi rq repo checkRunID payload st)"

text \<open>The drain path: the token was granted by the drainer. Its result, the id of a created run included, is dropped by
  \<^verbatim>\<open>deliverFunc\<close> (server/server.go).\<close>

definition PublishDirect :: "('q, 't, 'w) Wiring \<Rightarrow> ConnReq \<Rightarrow> string \<Rightarrow> int \<Rightarrow> CheckPayload \<Rightarrow>
    'w \<times> (string \<times> int \<times> CheckPayload) list \<Rightarrow> (GhErr + RouteResult) \<times> 'w \<times> (string \<times> int \<times> CheckPayload) list" where
  "PublishDirect wi rq repo checkRunID payload s = (case resolvePublisher wi rq repo of
       Inl _ \<Rightarrow> (Inl (plain_error ''emit''), s)
     | Inr None \<Rightarrow> (let ident = (if checkRunID > 0 then checkRunID else 0) in
         (Inr \<lparr>rrQueued = False, rrCheckRunID = ident, rrDryRun = True\<rparr>, fst s, snd s @ [(repo, ident, payload)]))
     | Inr (Some inst) \<Rightarrow>
         if checkRunID > 0 then (case Live_Update wi inst repo checkRunID payload (fst s) of
             (None, w) \<Rightarrow> (Inr \<lparr>rrQueued = False, rrCheckRunID = checkRunID, rrDryRun = False\<rparr>, w, snd s) | (Some e, w) \<Rightarrow> (Inl e, w, snd s))
         else (case Live_Create wi inst repo payload (fst s) of
             (Inr ident, w) \<Rightarrow> (Inr \<lparr>rrQueued = False, rrCheckRunID = ident, rrDryRun = False\<rparr>, w, snd s) | (Inl e, w) \<Rightarrow> (Inl e, w, snd s)))"

definition deliverFunc :: "('q, 't, 'w) Wiring \<Rightarrow> ConnReq \<Rightarrow> PendingWrite \<Rightarrow> 'w \<times> (string \<times> int \<times> CheckPayload) list \<Rightarrow>
    GhErr option \<times> 'w \<times> (string \<times> int \<times> CheckPayload) list" where
  "deliverFunc wi rq w s = (case PublishDirect wi rq (pwRepo w) (pwCheckRunID w) (pwPayload w) s of (Inl e, s') \<Rightarrow> (Some e, s') | (Inr _, s') \<Rightarrow> (None, s'))"


subsection \<open>Flows (api/flow_decision.go, api/flow_lifecycle.go, api/flow_rerun.go)\<close>

record PushCodec =
  pcKind :: "string \<Rightarrow> string option"
  pcDecision :: "string \<Rightarrow> DecisionEnvelope option"
  pcLifecycle :: "string \<Rightarrow> LifecycleEnvelope option"
  pcRerun :: "string \<Rightarrow> RerunEnvelope option"
  pcHMAC :: "string \<Rightarrow> string \<Rightarrow> string"

record PushResp =
  psStatus :: int
  psAccepted :: bool
  psDryRun :: bool
  psReplay :: bool
  psQueued :: bool
  psOutcome :: string
  psError :: string

definition push_error :: "int \<Rightarrow> string \<Rightarrow> PushResp" where
  "push_error code err = \<lparr>psStatus = code, psAccepted = False, psDryRun = False, psReplay = False, psQueued = False, psOutcome = [], psError = err\<rparr>"

definition push_replay :: PushResp where
  "push_replay = \<lparr>psStatus = 200, psAccepted = True, psDryRun = False, psReplay = True, psQueued = False, psOutcome = [], psError = []\<rparr>"

definition push_accepted :: "RouteResult \<Rightarrow> PushResp" where
  "push_accepted r = \<lparr>psStatus = 202, psAccepted = True, psDryRun = rrDryRun r, psReplay = False, psQueued = rrQueued r, psOutcome = [], psError = []\<rparr>"

definition rerunOutcome :: "string \<Rightarrow> PushResp" where
  "rerunOutcome outcome = \<lparr>psStatus = 202, psAccepted = True, psDryRun = False, psReplay = False, psQueued = False, psOutcome = outcome, psError = []\<rparr>"

definition new_revision :: "string \<Rightarrow> string \<Rightarrow> string \<Rightarrow> TrackRecord" where
  "new_revision candidateID headSHA repo = \<lparr>trCandidateID = candidateID, trHeadSHA = headSHA, trRepo = repo, trCheckRunID = 0, trPhase = [],
     trConclusion = [], trDecisionID = [], trLastDecision = None, trStalled = False, trUpdatedAt = zero_time\<rparr>"

definition flow_publish :: "('q, 't, 'w) Wiring \<Rightarrow> ConnReq \<Rightarrow> TrackRecord \<Rightarrow> CheckPayload \<Rightarrow> ('q, 't, 'w) Conn \<Rightarrow> (PushResp + RouteResult) \<times> ('q, 't, 'w) Conn" where
  "flow_publish wi rq rec payload st =
    (case (if trCheckRunID rec > 0 then Router_Update wi rq (trRepo rec) (trCheckRunID rec) payload st else Router_Create wi rq (trRepo rec) payload st) of
       (Inl _, st') \<Rightarrow> (Inl (push_error 502 ''upstream_error''), st')
     | (Inr r, st') \<Rightarrow> (Inr r, st'))"

definition maybePostStickyReport :: "('q, 't, 'w) Wiring \<Rightarrow> DecisionEnvelope \<Rightarrow> RouteResult \<Rightarrow> ('q, 't, 'w) Conn \<Rightarrow> ('q, 't, 'w) Conn" where
  "maybePostStickyReport wi env r st = (case wiReporter wi of None \<Rightarrow> st
     | Some post \<Rightarrow> if rrDryRun r \<or> rrQueued r \<or> dePRNumber env \<le> 0 then st else st\<lparr>cnGitHub := post env (cnGitHub st)\<rparr>)"

definition decision_report :: "DecisionEnvelope \<Rightarrow> CheckPayload \<Rightarrow> RouteResult \<Rightarrow> TrackRecord" where
  "decision_report env payload r = \<lparr>trCandidateID = deCandidateID env, trHeadSHA = deHeadSHA env, trRepo = deRepo env,
     trCheckRunID = rrCheckRunID r, trPhase = PhaseCompleted, trConclusion = cpConclusion payload, trDecisionID = deDecisionID env,
     trLastDecision = Some env, trStalled = False, trUpdatedAt = zero_time\<rparr>"

definition serveDecision :: "('q, 't, 'w) Wiring \<Rightarrow> PushCodec \<Rightarrow> ConnReq \<Rightarrow> string \<Rightarrow> string \<Rightarrow> ('q, 't, 'w) Conn \<Rightarrow> PushResp \<times> ('q, 't, 'w) Conn" where
  "serveDecision wi pc rq raw idemKey st = (case pcDecision pc raw of None \<Rightarrow> (push_error 400 ''validation_failed'', st)
     | Some env \<Rightarrow>
       if DecisionEnvelope_Validate env \<noteq> None then (push_error 400 ''validation_failed'', st)
       else if idemKey \<noteq> deDecisionID env then (push_error 400 ''validation_failed'', st)
       else (case wiFind wi (rqFindUp rq) (deDecisionID env) (cnTracker st) of
         Inr _ \<Rightarrow> (push_replay, st)
       | Inl ErrTrackStorage \<Rightarrow> (push_error 503 ''unavailable'', st)
       | Inl ErrTrackNotFound \<Rightarrow>
         (case RenderDecision env (wiDetails wi) of None \<Rightarrow> (push_error 400 ''validation_failed'', st)
          | Some payload \<Rightarrow>
            (case (case wiLookup wi (rqLookupUp rq) (deCandidateID env) (deHeadSHA env) (cnTracker st) of
                Inl ErrTrackNotFound \<Rightarrow> Some (new_revision (deCandidateID env) (deHeadSHA env) (deRepo env)) | Inl ErrTrackStorage \<Rightarrow> None | Inr rec \<Rightarrow> Some rec) of
              None \<Rightarrow> (push_error 503 ''unavailable'', st)
            | Some rec \<Rightarrow>
              (case flow_publish wi rq rec payload st of (Inl resp, st1) \<Rightarrow> (resp, st1)
               | (Inr r, st1) \<Rightarrow>
                 (case wiRecord wi (rqRecordUp rq) (rqNow rq) (decision_report env payload r) (cnTracker st1) of
                   None \<Rightarrow> (push_error 503 ''unavailable'', st1)
                 | Some t \<Rightarrow> (push_accepted r, maybePostStickyReport wi env r (st1\<lparr>cnTracker := t\<rparr>))))))))"

definition serveLifecycle :: "('q, 't, 'w) Wiring \<Rightarrow> PushCodec \<Rightarrow> ConnReq \<Rightarrow> string \<Rightarrow> string \<Rightarrow> ('q, 't, 'w) Conn \<Rightarrow> PushResp \<times> ('q, 't, 'w) Conn" where
  "serveLifecycle wi pc rq raw idemKey st = (case pcLifecycle pc raw of None \<Rightarrow> (push_error 400 ''validation_failed'', st)
     | Some env \<Rightarrow>
       if LifecycleEnvelope_Validate env \<noteq> None then (push_error 400 ''validation_failed'', st)
       else if idemKey \<noteq> leCandidateID env @ '':'' @ lePhase env then (push_error 400 ''validation_failed'', st)
       else (case GitHubPhase (lePhase env) of None \<Rightarrow> (push_error 400 ''validation_failed'', st)
       | Some phase \<Rightarrow>
         (case (case wiLookup wi (rqLookupUp rq) (leCandidateID env) (leHeadSHA env) (cnTracker st) of
             Inl ErrTrackNotFound \<Rightarrow> Some (new_revision (leCandidateID env) (leHeadSHA env) (leRepo env)) | Inl ErrTrackStorage \<Rightarrow> None | Inr rec \<Rightarrow> Some rec) of
           None \<Rightarrow> (push_error 503 ''unavailable'', st)
         | Some rec \<Rightarrow>
           if trPhase rec = PhaseCompleted \<or> trPhase rec = phase then (push_replay, st)
           else (case RenderLifecycle env (wiDetails wi) of None \<Rightarrow> (push_error 400 ''validation_failed'', st)
             | Some payload \<Rightarrow>
               (case flow_publish wi rq rec payload st of (Inl resp, st1) \<Rightarrow> (resp, st1)
                | (Inr r, st1) \<Rightarrow>
                  (case wiRecord wi (rqRecordUp rq) (rqNow rq) ((new_revision (leCandidateID env) (leHeadSHA env) (leRepo env))
                      \<lparr>trCheckRunID := rrCheckRunID r, trPhase := phase\<rparr>) (cnTracker st1) of
                    None \<Rightarrow> (push_error 503 ''unavailable'', st1)
                  | Some t \<Rightarrow> (push_accepted r, st1\<lparr>cnTracker := t\<rparr>)))))))"

text \<open>The re-run paths ignore the error of the final record, and of the publication keep only that it happened.\<close>

definition record_ignoring :: "('q, 't, 'w) Wiring \<Rightarrow> ConnReq \<Rightarrow> TrackRecord \<Rightarrow> ('q, 't, 'w) Conn \<Rightarrow> ('q, 't, 'w) Conn" where
  "record_ignoring wi rq rec st = (case wiRecord wi (rqRecordUp rq) (rqNow rq) rec (cnTracker st) of None \<Rightarrow> st | Some t \<Rightarrow> st\<lparr>cnTracker := t\<rparr>)"

definition declineRerun :: "('q, 't, 'w) Wiring \<Rightarrow> ConnReq \<Rightarrow> TrackRecord \<Rightarrow> bool \<Rightarrow> ('q, 't, 'w) Conn \<Rightarrow> PushResp \<times> ('q, 't, 'w) Conn" where
  "declineRerun wi rq rec exhausted st =
    (let payload = RenderRerunDeclined (trCandidateID rec) (trHeadSHA rec) (wiDetails wi) (rqNow rq) exhausted in
     case flow_publish wi rq rec payload st of (Inl resp, st1) \<Rightarrow> (resp, st1)
     | (Inr _, st1) \<Rightarrow> (rerunOutcome (if exhausted then ''exhausted'' else ''unavailable''),
         record_ignoring wi rq ((new_revision (trCandidateID rec) (trHeadSHA rec) (trRepo rec))\<lparr>trCheckRunID := trCheckRunID rec, trPhase := PhaseCompleted,
           trConclusion := cpConclusion payload, trDecisionID := trDecisionID rec, trLastDecision := trLastDecision rec\<rparr>) st1))"

definition replayCached :: "('q, 't, 'w) Wiring \<Rightarrow> ConnReq \<Rightarrow> TrackRecord \<Rightarrow> ('q, 't, 'w) Conn \<Rightarrow> PushResp \<times> ('q, 't, 'w) Conn" where
  "replayCached wi rq rec st = (case trLastDecision rec of None \<Rightarrow> (rerunOutcome ''no_cached_decision'', st)
     | Some d \<Rightarrow> (case RenderCached d (wiDetails wi) of None \<Rightarrow> (rerunOutcome ''render_failed'', st)
       | Some payload \<Rightarrow> (case flow_publish wi rq rec payload st of (Inl resp, st1) \<Rightarrow> (resp, st1)
         | (Inr _, st1) \<Rightarrow> (rerunOutcome ''replayed_cached'',
             record_ignoring wi rq ((new_revision (trCandidateID rec) (trHeadSHA rec) (trRepo rec))\<lparr>trCheckRunID := trCheckRunID rec, trPhase := PhaseCompleted,
               trConclusion := cpConclusion payload, trDecisionID := trDecisionID rec, trLastDecision := trLastDecision rec\<rparr>) st1))))"

definition replan :: "('q, 't, 'w) Wiring \<Rightarrow> ConnReq \<Rightarrow> TrackRecord \<Rightarrow> int \<Rightarrow> string \<Rightarrow> ('q, 't, 'w) Conn \<Rightarrow> PushResp \<times> ('q, 't, 'w) Conn" where
  "replan wi rq rec inst idemKey st = (case Revalidate wi (trCandidateID rec) idemKey (cnGitHub st) of (err, w) \<Rightarrow>
     (let st0 = st\<lparr>cnGitHub := w\<rparr> in case err of
       None \<Rightarrow>
         (let st1 = st0\<lparr>cnRerun := Rerun_Record (rqNow rq) (trCandidateID rec) inst (cnRerun st0)\<rparr>;
              queued = \<lparr>leKind = kind_string KindLifecycle, lePhase = ''queued'', leCandidateID = trCandidateID rec, leRepo = trRepo rec,
                leHeadSHA = trHeadSHA rec, leAt = rqNow rq\<rparr> in
          case RenderLifecycle queued (wiDetails wi) of
            Some payload \<Rightarrow> (case flow_publish wi rq rec payload st1 of (Inl resp, st2) \<Rightarrow> (resp, st2)
              | (Inr _, st2) \<Rightarrow> (rerunOutcome ''replanned'',
                  record_ignoring wi rq ((new_revision (trCandidateID rec) (trHeadSHA rec) (trRepo rec))
                    \<lparr>trCheckRunID := trCheckRunID rec, trPhase := PhaseQueued, trLastDecision := trLastDecision rec\<rparr>) st2))
          | None \<Rightarrow> declineRerun wi rq rec False st1)
     | Some ErrUnknownCandidate \<Rightarrow> (push_error 404 ''unknown_candidate'', st0)
     | Some ErrRerunBudgetExhausted \<Rightarrow> declineRerun wi rq rec True st0
     | Some ErrRevalidateOther \<Rightarrow> declineRerun wi rq rec False st0))"

definition serveRerun :: "('q, 't, 'w) Wiring \<Rightarrow> PushCodec \<Rightarrow> ConnReq \<Rightarrow> string \<Rightarrow> string \<Rightarrow> ('q, 't, 'w) Conn \<Rightarrow> PushResp \<times> ('q, 't, 'w) Conn" where
  "serveRerun wi pc rq raw idemKey st = (case pcRerun pc raw of None \<Rightarrow> (push_error 400 ''validation_failed'', st)
     | Some env \<Rightarrow>
       if RerunEnvelope_Validate env \<noteq> None then (push_error 400 ''validation_failed'', st)
       else if idemKey = [] then (push_error 400 ''validation_failed'', st)
       else (case FirstSeen (rqNow rq) idemKey (cnSeen st) of (first, seen) \<Rightarrow>
         (let st0 = st\<lparr>cnSeen := seen\<rparr> in
          if \<not> first then (push_replay, st0)
          else (case wiLookup wi (rqLookupUp rq) (reCandidateID env) (reHeadSHA env) (cnTracker st0) of
            Inl ErrTrackNotFound \<Rightarrow> (push_error 404 ''unknown_candidate'', st0)
          | Inl ErrTrackStorage \<Rightarrow> (push_error 503 ''unavailable'', st0)
          | Inr rec \<Rightarrow>
            (let inst = InstallationFor wi rq (reRepo env) in
             case Rerun_Allow (rqNow rq) (reCandidateID env) inst (cnRerun st0) of
               RerunBlocked _ \<Rightarrow> declineRerun wi rq rec True st0
             | RerunAllowed \<Rightarrow> (case wiPolicy wi of PolicyReplayCached \<Rightarrow> replayCached wi rq rec st0
                 | PolicyReplan \<Rightarrow> replan wi rq rec inst idemKey st0))))))"

subsection \<open>The push endpoint (api/decisions_handler.go, api/signature.go)\<close>

definition conn_VerifyHMAC :: "PushCodec \<Rightarrow> string \<Rightarrow> string \<Rightarrow> string \<Rightarrow> bool" where
  "conn_VerifyHMAC pc secret body header = (if \<not> has_prefix header ''sha256='' then False
     else case hex_decode (drop 7 header) of None \<Rightarrow> False | Some given \<Rightarrow> given = pcHMAC pc secret body)"

definition maxDecisionBodyBytes :: int where
  "maxDecisionBodyBytes = 2 ^ 20"

definition serve_push :: "('q, 't, 'w) Wiring \<Rightarrow> PushCodec \<Rightarrow> string \<Rightarrow> ConnReq \<Rightarrow> string \<Rightarrow> string \<Rightarrow> string \<Rightarrow> string \<Rightarrow> ('q, 't, 'w) Conn \<Rightarrow> PushResp \<times> ('q, 't, 'w) Conn" where
  "serve_push wi pc secret rq verb raw signature idemKey st =
    (if verb \<noteq> ''POST'' then (push_error 405 [], st)
     else if int (length raw) > maxDecisionBodyBytes then (push_error 413 ''payload_too_large'', st)
     else if \<not> conn_VerifyHMAC pc secret raw signature then (push_error 401 ''unauthorized'', st)
     else case pcKind pc raw of None \<Rightarrow> (push_error 400 ''validation_failed'', st)
     | Some k \<Rightarrow> (case KindFor k of None \<Rightarrow> (push_error 400 ''validation_failed'', st)
         | Some KindDecision \<Rightarrow> serveDecision wi pc rq raw idemKey st
         | Some KindLifecycle \<Rightarrow> serveLifecycle wi pc rq raw idemKey st
         | Some KindRerun \<Rightarrow> serveRerun wi pc rq raw idemKey st))"

subsection \<open>The sweeper (sweeper/stalled.go)\<close>

definition flipOne :: "('q, 't, 'w) Wiring \<Rightarrow> ConnReq \<Rightarrow> TrackRecord \<Rightarrow> ('q, 't, 'w) Conn \<Rightarrow> ('q, 't, 'w) Conn" where
  "flipOne wi rq rec st =
    (let payload = RenderStalled (trCandidateID rec) (trHeadSHA rec) (wiDetails wi) (rqNow rq) in
     case (if trCheckRunID rec > 0 then Router_Update wi rq (trRepo rec) (trCheckRunID rec) payload st else Router_Create wi rq (trRepo rec) payload st) of
       (Inl _, st1) \<Rightarrow> st1
     | (Inr r, st1) \<Rightarrow> if rrQueued r then st1
         else record_ignoring wi rq ((new_revision (trCandidateID rec) (trHeadSHA rec) (trRepo rec))\<lparr>trCheckRunID := rrCheckRunID r, trPhase := PhaseCompleted,
           trConclusion := ''neutral'', trStalled := True\<rparr>) st1)"

fun flip_all :: "('q, 't, 'w) Wiring \<Rightarrow> (nat \<Rightarrow> ConnReq) \<Rightarrow> nat \<Rightarrow> TrackRecord list \<Rightarrow> ('q, 't, 'w) Conn \<Rightarrow> ('q, 't, 'w) Conn" where
  "flip_all wi rqs i [] st = st"
| "flip_all wi rqs i (r # rs) st = flip_all wi rqs (i + 1) rs (flipOne wi (rqs i) r st)"

definition sweep_tick :: "('q, 't, 'w) Wiring \<Rightarrow> duration \<Rightarrow> bool \<Rightarrow> gotime \<Rightarrow> (nat \<Rightarrow> ConnReq) \<Rightarrow> ('q, 't, 'w) Conn \<Rightarrow> ('q, 't, 'w) Conn" where
  "sweep_tick wi maxAge up now rqs st = (case wiOpen wi up (now - maxAge) 100 (cnTracker st) of None \<Rightarrow> st | Some rs \<Rightarrow> flip_all wi rqs 0 rs st)"

subsection \<open>Where a write goes\<close>

lemma route_write_frame:
  "route_write wi rq repo checkRunID payload st = (res, st') \<Longrightarrow>
     cnTracker st' = cnTracker st \<and> cnRerun st' = cnRerun st \<and> cnSeen st' = cnSeen st"
  by (auto simp: route_write_def dryWrite_def Let_def split: sum.splits option.splits prod.splits GateErr.splits)

text \<open>A routed write ends in one of three ways: logged in dry-run, queued, or accepted by GitHub for the installation the
  resolver named.\<close>

definition published_to :: "('q, 't, 'w) Wiring \<Rightarrow> ConnReq \<Rightarrow> string \<Rightarrow> int \<Rightarrow> CheckPayload \<Rightarrow> int \<Rightarrow> 'w \<Rightarrow> bool" where
  "published_to wi rq repo checkRunID payload ident w \<longleftrightarrow> (\<exists>owner name inst s. SplitRepo repo = Some (owner, name) \<and>
     rqResolve rq owner name = Some inst \<and> publish_once wi inst repo checkRunID payload s = (None, w, ident))"

lemma resolvePublisher_Some:
  "resolvePublisher wi rq repo = Inr (Some inst) \<Longrightarrow> \<exists>owner name. SplitRepo repo = Some (owner, name) \<and> rqResolve rq owner name = Some inst"
  by (auto simp: resolvePublisher_def split: if_splits option.splits)

lemma gate_success_state:
  assumes "Gate_Do now cancelled draw inst fn g s = (None, waits, g', s')"
  shows "\<exists>s1. fn s1 = (None, s')"
proof -
  obtain e1 ws1 s1 where l: "gate_loop cancelled draw fn 0 None s = (e1, ws1, s1)" by (metis prod_cases3)
  then have "e1 = None" "s' = s1" using assms by (auto simp: Gate_Do_def case_prod_beta split: if_splits)
  then obtain k where k: "s' = after_tries fn k s" "0 < k" "fst (fn (after_tries fn (k - 1) s)) = None"
    using gate_loop_calls [OF l] by (auto simp: gate_limit_def)
  then have "fn (after_tries fn (k - 1) s) = (None, s')" by (cases k) (auto simp: prod_eq_iff)
  then show ?thesis by blast
qed

lemma route_write_result:
  assumes "route_write wi rq repo checkRunID payload st = (Inr r, st')"
  shows "(rrDryRun r \<and> \<not> rrQueued r \<and> cnGitHub st' = cnGitHub st \<and> cnPending st' = cnPending st \<and>
       cnDry st' = cnDry st @ [(repo, rrCheckRunID r, payload)])
    \<or> (rrQueued r \<and> \<not> rrDryRun r \<and> rrCheckRunID r = 0 \<and> (\<exists>enq inst. wiEnqueue wi = Some enq \<and>
       enq (rqEnqueueUp rq) (rqFresh rq) (rqNow rq) (pending_of inst repo checkRunID payload) (cnPending st) = Some (cnPending st')))
    \<or> (\<not> rrDryRun r \<and> \<not> rrQueued r \<and> cnPending st' = cnPending st \<and> published_to wi rq repo checkRunID payload (rrCheckRunID r) (cnGitHub st'))"
proof (cases "resolvePublisher wi rq repo")
  case (Inr oi)
  show ?thesis
  proof (cases oi)
    case None
    then show ?thesis using assms Inr by (auto simp: route_write_def dryWrite_def Let_def)
  next
    case (Some inst)
    obtain err ws g w ident where gd: "Gate_Do (rqNow rq) (rqCancelled rq) (rqDraw rq) inst (publish_once wi inst repo checkRunID payload)
        (cnBudget st) (cnGitHub st, 0) = (err, ws, g, w, ident)" by (metis prod_cases5)
    show ?thesis
    proof (cases err)
      case None
      then have "published_to wi rq repo checkRunID payload ident w"
        using gate_success_state [of "rqNow rq" "rqCancelled rq" "rqDraw rq" inst] gd resolvePublisher_Some [of wi rq repo inst] Inr Some
        unfolding published_to_def by metis
      then show ?thesis using assms Inr Some gd None by (auto simp: route_write_def Let_def)
    next
      case e: (Some e)
      then show ?thesis using assms Inr Some gd by (cases e) (auto simp: route_write_def Let_def split: option.splits)
    qed
  qed
qed (use assms in \<open>simp add: route_write_def\<close>)

lemma validateRepoHead_plain: "validateRepoHead repo sha = None \<Longrightarrow> plain_sha sha"
  by (auto simp: validateRepoHead_def isHex_def list_all_iff plain_sha_def is_digit_def split: if_splits)

lemma decision_plain: "DecisionEnvelope_Validate env = None \<Longrightarrow> plain_sha (deHeadSHA env)"
  by (rule validateRepoHead_plain [of "deRepo env"]) (auto simp: DecisionEnvelope_Validate_def split: if_splits option.splits)

lemma lifecycle_plain: "LifecycleEnvelope_Validate env = None \<Longrightarrow> plain_sha (leHeadSHA env)"
  by (rule validateRepoHead_plain [of "leRepo env"]) (auto simp: LifecycleEnvelope_Validate_def split: if_splits option.splits)

lemma rerun_plain: "RerunEnvelope_Validate env = None \<Longrightarrow> plain_sha (reHeadSHA env)"
  by (rule validateRepoHead_plain [of "reRepo env"]) (auto simp: RerunEnvelope_Validate_def split: if_splits option.splits)

lemma flow_publish_route:
  "flow_publish wi rq rec payload st = (Inr r, st') \<longleftrightarrow> route_write wi rq (trRepo rec) (max 0 (trCheckRunID rec)) payload st = (Inr r, st')"
  by (auto simp: flow_publish_def Router_Update_def Router_Create_def max_def split: prod.splits sum.splits)


subsection \<open>Decision pushes\<close>

lemma serveDecision_accepted:
  assumes "serveDecision wi pc rq raw key st = (resp, st')" and "psStatus resp = 202"
  obtains env rec payload r st1 t where "pcDecision pc raw = Some env" "DecisionEnvelope_Validate env = None" "key = deDecisionID env"
    "wiFind wi (rqFindUp rq) (deDecisionID env) (cnTracker st) = Inl ErrTrackNotFound" "RenderDecision env (wiDetails wi) = Some payload"
    "wiLookup wi (rqLookupUp rq) (deCandidateID env) (deHeadSHA env) (cnTracker st) = Inr rec \<or>
       wiLookup wi (rqLookupUp rq) (deCandidateID env) (deHeadSHA env) (cnTracker st) = Inl ErrTrackNotFound \<and>
       rec = new_revision (deCandidateID env) (deHeadSHA env) (deRepo env)"
    "route_write wi rq (trRepo rec) (max 0 (trCheckRunID rec)) payload st = (Inr r, st1)"
    "wiRecord wi (rqRecordUp rq) (rqNow rq) (decision_report env payload r) (cnTracker st1) = Some t"
    "resp = push_accepted r" "st' = maybePostStickyReport wi env r (st1\<lparr>cnTracker := t\<rparr>)"
proof -
  obtain env where env: "pcDecision pc raw = Some env" using assms by (auto simp: serveDecision_def push_error_def split: option.splits)
  have v: "DecisionEnvelope_Validate env = None" "key = deDecisionID env"
    using assms env by (auto simp: serveDecision_def push_error_def split: if_splits)
  have f: "wiFind wi (rqFindUp rq) (deDecisionID env) (cnTracker st) = Inl ErrTrackNotFound"
    using assms env v by (auto simp: serveDecision_def push_error_def push_replay_def split: sum.splits TrackErr.splits)
  obtain payload where p: "RenderDecision env (wiDetails wi) = Some payload"
    using assms env v f by (auto simp: serveDecision_def push_error_def split: option.splits)
  define found where "found = wiLookup wi (rqLookupUp rq) (deCandidateID env) (deHeadSHA env) (cnTracker st)"
  obtain rec where rec: "(case found of Inl ErrTrackNotFound \<Rightarrow> Some (new_revision (deCandidateID env) (deHeadSHA env) (deRepo env))
      | Inl ErrTrackStorage \<Rightarrow> None | Inr rec \<Rightarrow> Some rec) = Some rec"
  proof (cases found)
    case (Inl e)
    have "found \<noteq> Inl ErrTrackStorage"
      using assms env v f p by (auto simp: serveDecision_def push_error_def simp flip: found_def)
    then show ?thesis using Inl that by (cases e) auto
  qed (use that in auto)
  have found: "found = Inr rec \<or> found = Inl ErrTrackNotFound \<and> rec = new_revision (deCandidateID env) (deHeadSHA env) (deRepo env)"
    using rec by (auto split: sum.splits TrackErr.splits)
  have body: "(resp, st') = (case flow_publish wi rq rec payload st of (Inl resp, st1) \<Rightarrow> (resp, st1)
      | (Inr r, st1) \<Rightarrow> (case wiRecord wi (rqRecordUp rq) (rqNow rq) (decision_report env payload r) (cnTracker st1) of
          None \<Rightarrow> (push_error 503 ''unavailable'', st1)
        | Some t \<Rightarrow> (push_accepted r, maybePostStickyReport wi env r (st1\<lparr>cnTracker := t\<rparr>))))"
    using assms(1) env v f p rec by (simp add: serveDecision_def flip: found_def)
  obtain r st1 where pub: "flow_publish wi rq rec payload st = (Inr r, st1)"
    using body assms(2) by (auto simp: flow_publish_def push_error_def split: prod.splits sum.splits)
  obtain t where t: "wiRecord wi (rqRecordUp rq) (rqNow rq) (decision_report env payload r) (cnTracker st1) = Some t"
    using body pub assms(2) by (auto simp: push_error_def split: option.splits)
  have "resp = push_accepted r" "st' = maybePostStickyReport wi env r (st1\<lparr>cnTracker := t\<rparr>)" using body pub t by simp_all
  then show ?thesis
    by (rule that [OF env v f p found [unfolded found_def] pub [unfolded flow_publish_route] t])
qed

lemma maybePost_frame [simp]:
  "cnTracker (maybePostStickyReport wi env r st) = cnTracker st" "cnPending (maybePostStickyReport wi env r st) = cnPending st"
  "cnDry (maybePostStickyReport wi env r st) = cnDry st" "cnSeen (maybePostStickyReport wi env r st) = cnSeen st"
  by (auto simp: maybePostStickyReport_def split: option.splits)

locale push_flow = revision_tracker row ok record_report lookup find_decision open_reports
  for row :: "'t \<Rightarrow> string \<Rightarrow> string \<Rightarrow> TrackRecord option" and ok record_report lookup find_decision open_reports +
  fixes wi :: "('q, 't, 'w) Wiring"
  assumes wired: "wiRecord wi = record_report" "wiLookup wi = lookup" "wiFind wi = find_decision" "wiOpen wi = open_reports"
begin

lemma accepted_decision_tracked:
  assumes ok: "ok (cnTracker st)" and s: "serveDecision wi pc rq raw key st = (resp, st')" and acc: "psStatus resp = 202"
  shows "\<exists>env payload r. pcDecision pc raw = Some env \<and> DecisionEnvelope_Validate env = None \<and> key = deDecisionID env \<and> ok (cnTracker st') \<and>
    RenderDecision env (wiDetails wi) = Some payload \<and> resp = push_accepted r \<and>
    (\<exists>tr. row (cnTracker st') (deCandidateID env) (deHeadSHA env) = Some tr \<and> trPhase tr = PhaseCompleted \<and>
       trDecisionID tr = deDecisionID env \<and> trConclusion tr = cpConclusion payload \<and> trLastDecision tr = Some env)"
proof -
  obtain env rec payload r st1 t where e: "pcDecision pc raw = Some env" "DecisionEnvelope_Validate env = None" "key = deDecisionID env"
      and "wiFind wi (rqFindUp rq) (deDecisionID env) (cnTracker st) = Inl ErrTrackNotFound"
      and e4: "RenderDecision env (wiDetails wi) = Some payload"
      and "wiLookup wi (rqLookupUp rq) (deCandidateID env) (deHeadSHA env) (cnTracker st) = Inr rec \<or>
       wiLookup wi (rqLookupUp rq) (deCandidateID env) (deHeadSHA env) (cnTracker st) = Inl ErrTrackNotFound \<and>
       rec = new_revision (deCandidateID env) (deHeadSHA env) (deRepo env)"
      and e5: "route_write wi rq (trRepo rec) (max 0 (trCheckRunID rec)) payload st = (Inr r, st1)"
      "wiRecord wi (rqRecordUp rq) (rqNow rq) (decision_report env payload r) (cnTracker st1) = Some t"
      "resp = push_accepted r" "st' = maybePostStickyReport wi env r (st1\<lparr>cnTracker := t\<rparr>)"
    by (rule serveDecision_accepted [OF s acc])
  have st1: "cnTracker st1 = cnTracker st" using route_write_frame [OF e5(1)] by simp
  have sha: "plain_sha (trHeadSHA (decision_report env payload r))" using decision_plain [OF e(2)] by (simp add: decision_report_def)
  have "ok t \<and> row t (deCandidateID env) (deHeadSHA env) =
      Some (merge_report (rqNow rq) (row (cnTracker st) (deCandidateID env) (deHeadSHA env)) (decision_report env payload r))"
    using record_some [OF ok sha, of "rqRecordUp rq" "rqNow rq" t] e5(2) decision_plain [OF e(2)] unfolding st1 wired by (simp add: decision_report_def)
  moreover have "deDecisionID env \<noteq> []" using e(2) by (auto simp: DecisionEnvelope_Validate_def has_prefix_def split: if_splits)
  ultimately show ?thesis
    using e e4 e5 by (auto simp: merge_report_def pg_upsert_def decision_report_def PhaseCompleted_def split: option.splits)
qed

text \<open>Redelivery of an applied decision changes nothing.\<close>

lemma redelivered_decision:
  assumes ok: "ok (cnTracker st)" and s: "serveDecision wi pc rq raw key st = (resp, st')" and acc: "psStatus resp = 202"
    and again: "rqFindUp rq'"
  shows "serveDecision wi pc rq' raw key st' = (push_replay, st')"
proof -
  obtain env payload r tr where e: "pcDecision pc raw = Some env" "DecisionEnvelope_Validate env = None" "key = deDecisionID env" "ok (cnTracker st')"
      "row (cnTracker st') (deCandidateID env) (deHeadSHA env) = Some tr" "trDecisionID tr = deDecisionID env"
    using accepted_decision_tracked [OF ok s acc] by blast
  have ne: "deDecisionID env \<noteq> []" using e(2) by (auto simp: DecisionEnvelope_Validate_def has_prefix_def split: if_splits)
  have "find_decision True (deDecisionID env) (cnTracker st') \<noteq> Inl ErrTrackNotFound"
    using find_current [OF e(4) decision_plain [OF e(2)] e(5), of True] e(6) ne by simp
  then obtain x where "find_decision True (deDecisionID env) (cnTracker st') = Inr x"
    using find_up [of "deDecisionID env" "cnTracker st'"] by (cases "find_decision True (deDecisionID env) (cnTracker st')") (auto intro: TrackErr.exhaust)
  then show ?thesis using e again by (simp add: serveDecision_def wired)
qed

text \<open>A completed revision ignores lifecycle pushes.\<close>

lemma completed_ignores_lifecycle:
  assumes ok: "ok (cnTracker st)" and env: "pcLifecycle pc raw = Some env"
    and fin: "row (cnTracker st) (leCandidateID env) (leHeadSHA env) = Some tr" "trPhase tr = PhaseCompleted"
  shows "snd (serveLifecycle wi pc rq raw key st) = st"
proof -
  have "lookup (rqLookupUp rq) (leCandidateID env) (leHeadSHA env) (cnTracker st) = Inr tr \<or>
      lookup (rqLookupUp rq) (leCandidateID env) (leHeadSHA env) (cnTracker st) = Inl ErrTrackStorage"
    using lookup_found [OF ok] lookup_absent [OF ok] fin(1)
    by (cases "lookup (rqLookupUp rq) (leCandidateID env) (leHeadSHA env) (cnTracker st)") (auto, metis TrackErr.exhaust option.distinct(1))
  then show ?thesis using env fin(2) by (auto simp: serveLifecycle_def wired split: option.split)
qed

end

subsection \<open>The production wiring (server/server.go, cmd/github-connector/main.go)\<close>

text \<open>Everything outside the two stores: whether credentials and resolver are configured, the GitHub clients and API, the
  sticky report, the control plane.\<close>

record 'w Outside =
  ouRegistry :: bool
  ouResolver :: bool
  ouClient :: "int \<Rightarrow> bool"
  ouCreate :: "int \<Rightarrow> string \<Rightarrow> string \<Rightarrow> CheckOpts \<Rightarrow> 'w \<Rightarrow> (GhErr + int) \<times> 'w"
  ouUpdate :: "int \<Rightarrow> string \<Rightarrow> string \<Rightarrow> int \<Rightarrow> CheckOpts \<Rightarrow> 'w \<Rightarrow> GhErr option \<times> 'w"
  ouReporter :: "(DecisionEnvelope \<Rightarrow> 'w \<Rightarrow> 'w) option"
  ouControl :: "(string \<Rightarrow> string \<Rightarrow> 'w \<Rightarrow> int option \<times> 'w) option"
  ouDetails :: string
  ouPolicy :: RerunPolicy

definition pg_wiring :: "'w Outside \<Rightarrow> (PGQueue, TrackRecord list, 'w) Wiring" where
  "pg_wiring ou = \<lparr>wiRecord = PGT_RecordCheckReport, wiLookup = PGT_LookupCheckReport, wiFind = PGT_FindByDecision, wiOpen = PGT_OpenCheckReports,
     wiEnqueue = Some PG_Enqueue, wiRegistry = ouRegistry ou, wiResolver = ouResolver ou, wiClient = ouClient ou, wiCreate = ouCreate ou,
     wiUpdate = ouUpdate ou, wiReporter = ouReporter ou, wiControl = ouControl ou, wiDetails = ouDetails ou, wiPolicy = ouPolicy ou\<rparr>"

definition mem_wiring :: "'w Outside \<Rightarrow> (MemQueue, MemTracker, 'w) Wiring" where
  "mem_wiring ou = \<lparr>wiRecord = MemT_RecordCheckReport, wiLookup = MemT_LookupCheckReport, wiFind = MemT_FindByDecision, wiOpen = MemT_OpenCheckReports,
     wiEnqueue = Some Mem_Enqueue, wiRegistry = ouRegistry ou, wiResolver = ouResolver ou, wiClient = ouClient ou, wiCreate = ouCreate ou,
     wiUpdate = ouUpdate ou, wiReporter = ouReporter ou, wiControl = ouControl ou, wiDetails = ouDetails ou, wiPolicy = ouPolicy ou\<rparr>"

lemma pg_wiring_simps [simp]:
  "wiRecord (pg_wiring ou) = PGT_RecordCheckReport" "wiLookup (pg_wiring ou) = PGT_LookupCheckReport" "wiFind (pg_wiring ou) = PGT_FindByDecision"
  "wiOpen (pg_wiring ou) = PGT_OpenCheckReports" "wiEnqueue (pg_wiring ou) = Some PG_Enqueue" "wiRegistry (pg_wiring ou) = ouRegistry ou"
  "wiResolver (pg_wiring ou) = ouResolver ou" "wiClient (pg_wiring ou) = ouClient ou" "wiReporter (pg_wiring ou) = ouReporter ou"
  "wiControl (pg_wiring ou) = ouControl ou" "wiDetails (pg_wiring ou) = ouDetails ou" "wiPolicy (pg_wiring ou) = ouPolicy ou"
  by (simp_all add: pg_wiring_def)

interpretation prod: push_flow pgt_row pgt_ok PGT_RecordCheckReport PGT_LookupCheckReport PGT_FindByDecision PGT_OpenCheckReports "pg_wiring ou" for ou
  by unfold_locales (simp_all add: pg_wiring_def)

interpretation dev: push_flow memt_row memt_ok MemT_RecordCheckReport MemT_LookupCheckReport MemT_FindByDecision MemT_OpenCheckReports "mem_wiring ou" for ou
  by unfold_locales (simp_all add: mem_wiring_def)

subsection \<open>Decisions\<close>

lemma pg_enqueued_key:
  assumes "pg_queue_ok rows" and "pwID w = []" and "pg_usable fresh rows" and "PG_Enqueue up fresh now w rows = Some rows'"
  shows "pwKey w \<in> pwKey ` set (pg_undelivered rows')"
proof (cases "pwKey w \<in> pwKey ` set (pg_undelivered rows)")
  case True
  then show ?thesis using pgq.enq_known [OF assms(1) True assms(4)] by simp
next
  case False
  then obtain ident where "pg_undelivered rows' = pg_undelivered rows @ [stamp_write ident now w]"
    using pgq.enq_new [OF assms(1-3) False assms(4)] by blast
  then show ?thesis by (simp add: stamp_write_def Let_def)
qed

definition verdict_shown :: "'w Outside \<Rightarrow> ConnReq \<Rightarrow> DecisionEnvelope \<Rightarrow> CheckPayload \<Rightarrow> PushResp \<Rightarrow> (PGQueue, TrackRecord list, 'w) Conn \<Rightarrow> bool" where
  "verdict_shown ou rq env payload resp st' \<longleftrightarrow>
    (if psDryRun resp then payload \<in> snd ` snd ` set (cnDry st')
     else if psQueued resp then deCandidateID env @ '':completed'' \<in> pwKey ` set (pg_undelivered (cnPending st'))
     else (\<exists>repo checkRunID ident w. published_to (pg_wiring ou) rq repo checkRunID payload ident w \<and>
       (cnGitHub st' = w \<or> (\<exists>post. ouReporter ou = Some post \<and> cnGitHub st' = post env w))))"


subsection \<open>Where a verdict is lost\<close>

lemma pg_enqueue_key_known:
  "pwKey w \<in> pwKey ` set (pg_undelivered rows) \<Longrightarrow> PG_Enqueue True fresh now w rows = Some rows"
  by (auto simp: PG_Enqueue_def Let_def list_ex_iff pg_undelivered_def stamp_write_def image_iff)

lemma route_write_collapses:
  assumes "resolvePublisher (pg_wiring ou) rq repo = Inr (Some inst)" and "\<not> fst (Budget_TryAcquire (rqNow rq) inst (cnBudget st))"
    and "rqEnqueueUp rq" and "cpExternalID payload @ '':'' @ cpStatus payload \<in> pwKey ` set (pg_undelivered (cnPending st))"
  shows "route_write (pg_wiring ou) rq repo checkRunID payload st =
    (Inr \<lparr>rrQueued = True, rrCheckRunID = 0, rrDryRun = False\<rparr>, st\<lparr>cnBudget := snd (Budget_TryAcquire (rqNow rq) inst (cnBudget st))\<rparr>)"
proof -
  have "PG_Enqueue True (rqFresh rq) (rqNow rq) (pending_of inst repo checkRunID payload) (cnPending st) = Some (cnPending st)"
    using assms(4) by (intro pg_enqueue_key_known) (simp add: pending_of_def)
  then show ?thesis using assms(1-3) by (simp add: route_write_def Gate_Do_def case_prod_beta Let_def)
qed

definition tracked_repo :: "TrackRecord list \<Rightarrow> DecisionEnvelope \<Rightarrow> string" where
  "tracked_repo rows env = (case pgt_row rows (deCandidateID env) (deHeadSHA env) of Some r \<Rightarrow> trRepo r | None \<Rightarrow> deRepo env)"


text \<open>When the resolver does not answer, a write is logged in dry-run and reported as done: in the drainer, the queued
  write counts as delivered.\<close>

lemma unresolved_write_counts_as_delivered:
  assumes "ouRegistry ou" and "ouResolver ou" and "SplitRepo (pwRepo w) = Some (owner, name)" and "rqResolve rq owner name = None"
  shows "deliverFunc (pg_wiring ou) rq w (gh, dry) = (None, gh, dry @ [(pwRepo w, if pwCheckRunID w > 0 then pwCheckRunID w else 0, pwPayload w)])"
  using assms by (simp add: deliverFunc_def PublishDirect_def resolvePublisher_def Let_def)

text \<open>A re-run is marked as seen before the revision is looked up: when the database does not answer, the push is told to
  redeliver, and the redelivery is then answered as a replay and does nothing.\<close>

theorem failed_rerun_is_never_retried:
  assumes "pcRerun pc raw = Some env" and "RerunEnvelope_Validate env = None" and "key \<noteq> []"
    and "ddSeen (cnSeen st) key = None" and "\<not> rqLookupUp rq"
    and "rqNow rq' \<le> rqNow rq + ddTTL (cnSeen st)"
  shows "\<exists>st'. serveRerun (pg_wiring ou) pc rq raw key st = (push_error 503 ''unavailable'', st')
    \<and> (\<exists>st''. serveRerun (pg_wiring ou) pc rq' raw key st' = (push_replay, st'')
        \<and> cnTracker st'' = cnTracker st \<and> cnGitHub st'' = cnGitHub st \<and> cnPending st'' = cnPending st \<and> cnDry st'' = cnDry st \<and> cnRerun st'' = cnRerun st)"
  using assms by (simp add: serveRerun_def FirstSeen_def PGT_LookupCheckReport_def Let_def)

subsection \<open>The connector as a state machine\<close>

definition conn_drain :: "'w Outside \<Rightarrow> bool \<Rightarrow> gotime \<Rightarrow> (nat \<Rightarrow> DrainEnv) \<Rightarrow> ConnReq \<Rightarrow> (PGQueue, TrackRecord list, 'w) Conn \<Rightarrow> (PGQueue, TrackRecord list, 'w) Conn" where
  "conn_drain ou up now ev rq st =
    (case drain_tick PG_Due PG_MarkDelivered PG_Reschedule (deliverFunc (pg_wiring ou) rq) up now ev (cnPending st, cnBudget st, cnGitHub st, cnDry st) of
       (_, q, g, w, dry) \<Rightarrow> st\<lparr>cnPending := q, cnBudget := g, cnGitHub := w, cnDry := dry\<rparr>)"

text \<open>The steps of the running connector: a push, a pass of the drainer, and the flip of one stalled revision by the sweeper.
  Ids drawn for queued writes are fresh.\<close>

inductive conn_step :: "'w Outside \<Rightarrow> PushCodec \<Rightarrow> string \<Rightarrow> (PGQueue, TrackRecord list, 'w) Conn \<Rightarrow> (PGQueue, TrackRecord list, 'w) Conn \<Rightarrow> bool"
  for ou pc secret where
  step_push: "pg_usable (rqFresh rq) (cnPending st) \<Longrightarrow>
     conn_step ou pc secret st (snd (serve_push (pg_wiring ou) pc secret rq verb raw signature key st))"
| step_drain: "conn_step ou pc secret st (conn_drain ou up now ev rq st)"
| step_flip: "PGT_OpenCheckReports up before n (cnTracker st) = Some rs \<Longrightarrow> rec \<in> set rs \<Longrightarrow> plain_sha (trHeadSHA rec) \<Longrightarrow>
     pg_usable (rqFresh rq) (cnPending st) \<Longrightarrow> conn_step ou pc secret st (flipOne (pg_wiring ou) rq rec st)"

inductive_cases conn_stepE: "conn_step ou pc secret st st'"

definition conn_inv :: "int \<Rightarrow> int \<Rightarrow> (PGQueue, TrackRecord list, 'w) Conn \<Rightarrow> bool" where
  "conn_inv p cap st \<longleftrightarrow> pgt_ok (cnTracker st) \<and> pg_queue_ok (cnPending st) \<and> budget_ok p (cnBudget st) \<and>
     rbMaxPerCandidate (cnRerun st) = cap \<and> (\<forall>c. get0 (rbPerCandidate (cnRerun st)) c \<le> max 0 cap)"

lemma conn_inv_frame [simp]:
  "conn_inv p cap (st\<lparr>cnGitHub := w\<rparr>) = conn_inv p cap st" "conn_inv p cap (st\<lparr>cnDry := d\<rparr>) = conn_inv p cap st" "conn_inv p cap (st\<lparr>cnSeen := s\<rparr>) = conn_inv p cap st"
  by (simp_all add: conn_inv_def)

lemma budget_ok_acquire: "0 \<le> p \<Longrightarrow> budget_ok p g \<Longrightarrow> budget_ok p (snd (Budget_TryAcquire now i g))"
  using budget_ok_call [of p g "(now, CallTryAcquire i)"] by simp

lemma budget_ok_retry: "0 \<le> p \<Longrightarrow> budget_ok p g \<Longrightarrow> budget_ok p (snd (Budget_RetryIn now i g))"
  using budget_ok_call [of p g "(now, CallRetryIn i)"] by simp

lemma Gate_Do_budget: "Gate_Do now cancelled draw i fn g s = (e, ws, g', s') \<Longrightarrow> g' = snd (Budget_TryAcquire now i g)"
  by (auto simp: Gate_Do_def case_prod_beta split: if_splits)

lemma route_write_inv:
  assumes inv: "conn_inv p cap st" and p: "0 \<le> p" and fresh: "pg_usable (rqFresh rq) (cnPending st)"
  shows "conn_inv p cap (snd (route_write (pg_wiring ou) rq repo i payload st))"
proof (cases "resolvePublisher (pg_wiring ou) rq repo")
  case (Inr oi)
  show ?thesis
  proof (cases oi)
    case None
    then show ?thesis using inv Inr by (simp add: route_write_def dryWrite_def Let_def)
  next
    case (Some inst)
    obtain err ws g w ident where gd: "Gate_Do (rqNow rq) (rqCancelled rq) (rqDraw rq) inst (publish_once (pg_wiring ou) inst repo i payload)
        (cnBudget st) (cnGitHub st, 0) = (err, ws, g, w, ident)" by (metis prod_cases5)
    have g: "budget_ok p g" using inv p unfolding Gate_Do_budget [OF gd] conn_inv_def by (simp add: budget_ok_acquire)
    have q: "pg_queue_ok q" if "PG_Enqueue (rqEnqueueUp rq) (rqFresh rq) (rqNow rq) (pending_of inst repo i payload) (cnPending st) = Some q" for q
      using pgq.enq_ok [OF _ _ fresh that] inv by (simp add: conn_inv_def pending_of_def)
    show ?thesis
      using inv g q Inr Some gd by (auto simp: route_write_def conn_inv_def Let_def split: option.splits GateErr.splits)
  qed
qed (use inv in \<open>simp add: route_write_def\<close>)

lemma flow_publish_snd:
  "snd (flow_publish wi rq rec payload st) = snd (route_write wi rq (trRepo rec) (max 0 (trCheckRunID rec)) payload st)"
  by (auto simp: flow_publish_def Router_Update_def Router_Create_def max_def split: prod.splits sum.splits)

lemma flow_publish_inv:
  "conn_inv p cap st \<Longrightarrow> 0 \<le> p \<Longrightarrow> pg_usable (rqFresh rq) (cnPending st) \<Longrightarrow> flow_publish (pg_wiring ou) rq rec payload st = (res, st') \<Longrightarrow> conn_inv p cap st'"
  using route_write_inv [of p cap st rq ou "trRepo rec" "max 0 (trCheckRunID rec)" payload] flow_publish_snd [of "pg_wiring ou" rq rec payload st] by simp

lemma record_inv:
  "conn_inv p cap st \<Longrightarrow> PGT_RecordCheckReport up now rec (cnTracker st) = Some t \<Longrightarrow> conn_inv p cap (st\<lparr>cnTracker := t\<rparr>)"
  using pgt_record(1) by (auto simp: conn_inv_def)

lemma record_ignoring_inv: "conn_inv p cap st \<Longrightarrow> conn_inv p cap (record_ignoring (pg_wiring ou) rq rec st)"
  by (auto simp: record_ignoring_def record_inv split: option.split)

lemma maybePost_inv [simp]: "conn_inv p cap (maybePostStickyReport wi env r st) = conn_inv p cap st"
  by (simp add: maybePostStickyReport_def split: option.split)

lemma serveDecision_inv:
  assumes "conn_inv p cap st" and "0 \<le> p" and "pg_usable (rqFresh rq) (cnPending st)"
  shows "conn_inv p cap (snd (serveDecision (pg_wiring ou) pc rq raw key st))"
  using assms
  by (auto simp: serveDecision_def split: option.splits sum.splits prod.splits TrackErr.splits intro: record_inv dest: flow_publish_inv [OF assms])

lemma serveLifecycle_inv:
  assumes "conn_inv p cap st" and "0 \<le> p" and "pg_usable (rqFresh rq) (cnPending st)"
  shows "conn_inv p cap (snd (serveLifecycle (pg_wiring ou) pc rq raw key st))"
  using assms
  by (auto simp: serveLifecycle_def split: option.splits sum.splits prod.splits TrackErr.splits intro: record_inv dest: flow_publish_inv [OF assms])

lemma declineRerun_inv:
  assumes "conn_inv p cap st" and "0 \<le> p" and "pg_usable (rqFresh rq) (cnPending st)"
  shows "conn_inv p cap (snd (declineRerun (pg_wiring ou) rq rec ex st))"
  using flow_publish_inv [OF assms] by (auto simp: declineRerun_def Let_def record_ignoring_inv split: sum.splits prod.splits)

lemma replayCached_inv:
  assumes "conn_inv p cap st" and "0 \<le> p" and "pg_usable (rqFresh rq) (cnPending st)"
  shows "conn_inv p cap (snd (replayCached (pg_wiring ou) rq rec st))"
  using assms flow_publish_inv [OF assms] by (auto simp: replayCached_def record_ignoring_inv split: option.splits sum.splits prod.splits)

lemma replan_inv:
  assumes inv: "conn_inv p cap st" and p: "0 \<le> p" and fresh: "pg_usable (rqFresh rq) (cnPending st)"
    and allowed: "Rerun_Allow now (trCandidateID rec) i (cnRerun st) = RerunAllowed"
  shows "conn_inv p cap (snd (replan (pg_wiring ou) rq rec inst key st))"
proof -
  obtain err w where rv: "Revalidate (pg_wiring ou) (trCandidateID rec) key (cnGitHub st) = (err, w)" by force
  let ?st0 = "st\<lparr>cnGitHub := w\<rparr>"
  let ?st1 = "?st0\<lparr>cnRerun := Rerun_Record (rqNow rq) (trCandidateID rec) inst (cnRerun ?st0)\<rparr>"
  have "conn_inv p cap ?st1"
    using inv allowed by (auto simp: conn_inv_def Rerun_Record_def Rerun_Allow_def split: if_splits)
  then have "flow_publish (pg_wiring ou) rq rec payload ?st1 = (res, st') \<Longrightarrow> conn_inv p cap st'" "conn_inv p cap (snd (declineRerun (pg_wiring ou) rq rec False ?st1))" for payload res st'
    using flow_publish_inv [of p cap ?st1 rq ou rec payload res st'] declineRerun_inv [of p cap ?st1 rq ou rec False] p fresh by simp_all
  moreover have "conn_inv p cap (snd (declineRerun (pg_wiring ou) rq rec ex ?st0))" for ex
    using declineRerun_inv [of p cap ?st0 rq ou rec ex] inv p fresh by simp
  ultimately show ?thesis
    using inv rv by (auto simp: replan_def Let_def record_ignoring_inv split: option.splits RevalidateErr.splits sum.splits prod.splits)
qed


lemma serveRerun_inv:
  assumes inv: "conn_inv p cap st" and p: "0 \<le> p" and fresh: "pg_usable (rqFresh rq) (cnPending st)"
  shows "conn_inv p cap (snd (serveRerun (pg_wiring ou) pc rq raw key st))"
proof (cases "pcRerun pc raw")
  case (Some env)
  obtain first seen where fs: "FirstSeen (rqNow rq) key (cnSeen st) = (first, seen)" by force
  let ?st0 = "st\<lparr>cnSeen := seen\<rparr>"
  have inv0: "conn_inv p cap ?st0" and fresh0: "pg_usable (rqFresh rq) (cnPending ?st0)" using inv fresh by simp_all
  have "conn_inv p cap (snd (replan (pg_wiring ou) rq rec i key ?st0))"
    if "PGT_LookupCheckReport (rqLookupUp rq) (reCandidateID env) (reHeadSHA env) (cnTracker st) = Inr rec"
      "Rerun_Allow (rqNow rq) (reCandidateID env) i (cnRerun st) = RerunAllowed" for rec i
  proof -
    have "trCandidateID rec = reCandidateID env"
      using pgt.lookup_found [OF _ that(1)] pgt_row_Some inv by (auto simp: conn_inv_def)
    then show ?thesis using replan_inv [OF inv0 p fresh0, of "rqNow rq" rec i] that(2) by simp
  qed
  then show ?thesis
    using Some fs inv declineRerun_inv [OF inv0 p fresh0] replayCached_inv [OF inv0 p fresh0]
    by (auto simp: serveRerun_def Let_def split: option.splits sum.splits TrackErr.splits RerunVerdict.splits RerunPolicy.splits)
qed (use inv in \<open>simp add: serveRerun_def\<close>)

lemma serve_push_inv:
  "conn_inv p cap st \<Longrightarrow> 0 \<le> p \<Longrightarrow> pg_usable (rqFresh rq) (cnPending st) \<Longrightarrow>
     conn_inv p cap (snd (serve_push (pg_wiring ou) pc secret rq verb raw signature key st))"
  by (auto simp: serve_push_def serveDecision_inv serveLifecycle_inv serveRerun_inv split: option.split EnvelopeKind.split)

lemma deliverOne_budget:
  assumes "0 \<le> p" and "budget_ok p g" and "deliverOne mark resch deliver ev w (q, g, s) = (err, q', g', s')"
  shows "budget_ok p g'"
proof -
  obtain e ws g1 s1 where gd: "Gate_Do (dvAcquireAt ev) (dvCancelled ev) (dvDraw ev) (pwInstallationID w) (deliver w) g s = (e, ws, g1, s1)"
    by (metis prod_cases4)
  have g1: "budget_ok p g1" unfolding Gate_Do_budget [OF gd] by (rule budget_ok_acquire [OF assms(1,2)])
  have "g' = g1 \<or> g' = snd (Budget_RetryIn (dvDoneAt ev) (pwInstallationID w) g1)"
  proof (cases e)
    case (Some x)
    then show ?thesis using assms(3) gd by (cases x) (auto simp: deliverOne_def Let_def split: prod.splits)
  qed (use assms(3) gd in \<open>auto simp: deliverOne_def\<close>)
  then show ?thesis using g1 budget_ok_retry [OF assms(1) g1] by auto
qed

lemma deliver_due_budget:
  assumes "0 \<le> p"
  shows "budget_ok p g \<Longrightarrow> deliver_due mark resch deliver ev i ws (q, g, s) = (outs, q', g', s') \<Longrightarrow> budget_ok p g'"
proof (induction ws arbitrary: i q g s outs)
  case (Cons w ws)
  obtain err q1 g1 s1 where d1: "deliverOne mark resch deliver (ev i) w (q, g, s) = (err, q1, g1, s1)" by (metis prod_cases4)
  then have "budget_ok p g1" by (rule deliverOne_budget [OF assms Cons.prems(1)])
  then show ?case using Cons.IH [of g1] Cons.prems(2) d1 by (auto split: prod.splits)
qed simp

lemma conn_drain_inv:
  assumes inv: "conn_inv p cap st" and p: "0 \<le> p"
  shows "conn_inv p cap (conn_drain ou up now ev rq st)"
proof -
  obtain outs q g w dry where d: "drain_tick PG_Due PG_MarkDelivered PG_Reschedule (deliverFunc (pg_wiring ou) rq) up now ev
      (cnPending st, cnBudget st, cnGitHub st, cnDry st) = (outs, q, g, w, dry)" by (metis prod_cases5)
  have "pg_queue_ok q" using pgq.drain_tick_keeps [OF _ d] inv by (simp add: conn_inv_def)
  moreover have "budget_ok p g"
    using d inv deliver_due_budget [OF p] by (auto simp: drain_tick_def conn_inv_def split: option.splits)
  ultimately show ?thesis using inv d by (simp add: conn_drain_def conn_inv_def)
qed

lemma flipOne_route:
  "flipOne wi rq rec st = (case flow_publish wi rq rec (RenderStalled (trCandidateID rec) (trHeadSHA rec) (wiDetails wi) (rqNow rq)) st of
     (Inl _, st1) \<Rightarrow> st1 | (Inr r, st1) \<Rightarrow> if rrQueued r then st1
         else record_ignoring wi rq ((new_revision (trCandidateID rec) (trHeadSHA rec) (trRepo rec))\<lparr>trCheckRunID := rrCheckRunID r, trPhase := PhaseCompleted,
           trConclusion := ''neutral'', trStalled := True\<rparr>) st1)"
  by (simp add: flipOne_def flow_publish_def Let_def split: sum.splits prod.splits)

lemma flipOne_inv:
  assumes "conn_inv p cap st" and "0 \<le> p" and "pg_usable (rqFresh rq) (cnPending st)"
  shows "conn_inv p cap (flipOne (pg_wiring ou) rq rec st)"
  unfolding flipOne_route
  by (auto simp: record_ignoring_inv split: sum.splits prod.splits dest: flow_publish_inv [OF assms])

lemma conn_step_inv: "conn_step ou pc secret st st' \<Longrightarrow> 0 \<le> p \<Longrightarrow> conn_inv p cap st \<Longrightarrow> conn_inv p cap st'"
  by (erule conn_stepE) (simp_all add: serve_push_inv conn_drain_inv flipOne_inv)


subsection \<open>The sweeper\<close>

abbreviation revision :: "TrackRecord \<Rightarrow> string \<times> string" where
  "revision r \<equiv> (trCandidateID r, trHeadSHA r)"

definition stalled_report :: "TrackRecord \<Rightarrow> int \<Rightarrow> TrackRecord" where
  "stalled_report rec ident = (new_revision (trCandidateID rec) (trHeadSHA rec) (trRepo rec))\<lparr>trCheckRunID := ident, trPhase := PhaseCompleted,
     trConclusion := ''neutral'', trStalled := True\<rparr>"

lemma flipOne_tracker:
  "cnTracker (flipOne (pg_wiring ou) rq rec st) = cnTracker st \<or>
   (\<exists>ident up now. PGT_RecordCheckReport up now (stalled_report rec ident) (cnTracker st) = Some (cnTracker (flipOne (pg_wiring ou) rq rec st)))"
proof -
  obtain res st1 where p: "flow_publish (pg_wiring ou) rq rec (RenderStalled (trCandidateID rec) (trHeadSHA rec) (ouDetails ou) (rqNow rq)) st = (res, st1)" by force
  have "cnTracker st1 = cnTracker st"
    using route_write_frame [of "pg_wiring ou" rq "trRepo rec" "max 0 (trCheckRunID rec)" _ st] p
      flow_publish_snd [of "pg_wiring ou" rq rec "RenderStalled (trCandidateID rec) (trHeadSHA rec) (ouDetails ou) (rqNow rq)" st]
    by (metis prod.collapse snd_conv)
  then show ?thesis
    unfolding flipOne_route using p
    by (auto simp: record_ignoring_def stalled_report_def split: sum.splits option.splits)
qed

lemma flipOne_rows:
  assumes "pgt_ok (cnTracker st)"
  shows "pgt_ok (cnTracker (flipOne (pg_wiring ou) rq rec st))"
    and "(c, h) \<noteq> revision rec \<Longrightarrow> pgt_row (cnTracker (flipOne (pg_wiring ou) rq rec st)) c h = pgt_row (cnTracker st) c h"
    and "pgt_row (cnTracker (flipOne (pg_wiring ou) rq rec st)) (trCandidateID rec) (trHeadSHA rec) = pgt_row (cnTracker st) (trCandidateID rec) (trHeadSHA rec) \<or>
      (\<exists>ident now. pgt_row (cnTracker (flipOne (pg_wiring ou) rq rec st)) (trCandidateID rec) (trHeadSHA rec) =
        Some (merge_report now (pgt_row (cnTracker st) (trCandidateID rec) (trHeadSHA rec)) (stalled_report rec ident)))"
proof -
  have keys: "trCandidateID (stalled_report rec i) = trCandidateID rec" "trHeadSHA (stalled_report rec i) = trHeadSHA rec" for i
    by (simp_all add: stalled_report_def new_revision_def)
  note cases = flipOne_tracker [of ou rq rec st]
  show "pgt_ok (cnTracker (flipOne (pg_wiring ou) rq rec st))" using cases pgt_record(1) [OF assms] assms by auto
  show "pgt_row (cnTracker (flipOne (pg_wiring ou) rq rec st)) c h = pgt_row (cnTracker st) c h" if "(c, h) \<noteq> revision rec"
    using cases pgt_record(2) [OF assms, of _ _ _ _ c h] that by (auto simp: keys)
  show "pgt_row (cnTracker (flipOne (pg_wiring ou) rq rec st)) (trCandidateID rec) (trHeadSHA rec) = pgt_row (cnTracker st) (trCandidateID rec) (trHeadSHA rec) \<or>
      (\<exists>ident now. pgt_row (cnTracker (flipOne (pg_wiring ou) rq rec st)) (trCandidateID rec) (trHeadSHA rec) =
        Some (merge_report now (pgt_row (cnTracker st) (trCandidateID rec) (trHeadSHA rec)) (stalled_report rec ident)))"
    using cases
  proof
    assume "\<exists>ident up now. PGT_RecordCheckReport up now (stalled_report rec ident) (cnTracker st) = Some (cnTracker (flipOne (pg_wiring ou) rq rec st))"
    then obtain ident up now where "PGT_RecordCheckReport up now (stalled_report rec ident) (cnTracker st) = Some (cnTracker (flipOne (pg_wiring ou) rq rec st))" by blast
    from pgt_record(2) [OF assms this, of "trCandidateID rec" "trHeadSHA rec"] show ?thesis by (auto simp: keys)
  qed simp
qed

lemma flip_all_rows:
  "pgt_ok (cnTracker st) \<Longrightarrow> distinct (map revision rs) \<Longrightarrow>
     (if (c, h) \<in> revision ` set rs
      then pgt_row (cnTracker (flip_all (pg_wiring ou) rqs i rs st)) c h = pgt_row (cnTracker st) c h \<or>
        (\<exists>rec ident now. rec \<in> set rs \<and> revision rec = (c, h) \<and> pgt_row (cnTracker (flip_all (pg_wiring ou) rqs i rs st)) c h =
          Some (merge_report now (pgt_row (cnTracker st) c h) (stalled_report rec ident)))
      else pgt_row (cnTracker (flip_all (pg_wiring ou) rqs i rs st)) c h = pgt_row (cnTracker st) c h)"
proof (induction rs arbitrary: i st)
  case (Cons rec rs)
  let ?st = "flipOne (pg_wiring ou) (rqs i) rec st"
  note f = flipOne_rows(1) [OF Cons.prems(1), of ou "rqs i" rec] flipOne_rows(2) [OF Cons.prems(1), of c h rec ou "rqs i"]
    flipOne_rows(3) [OF Cons.prems(1), of ou "rqs i" rec]
  have d: "distinct (map revision rs)" using Cons.prems(2) by simp
  have ih: "if (c, h) \<in> revision ` set rs
      then pgt_row (cnTracker (flip_all (pg_wiring ou) rqs (i + 1) rs ?st)) c h = pgt_row (cnTracker ?st) c h \<or>
        (\<exists>rec ident now. rec \<in> set rs \<and> revision rec = (c, h) \<and> pgt_row (cnTracker (flip_all (pg_wiring ou) rqs (i + 1) rs ?st)) c h =
          Some (merge_report now (pgt_row (cnTracker ?st) c h) (stalled_report rec ident)))
      else pgt_row (cnTracker (flip_all (pg_wiring ou) rqs (i + 1) rs ?st)) c h = pgt_row (cnTracker ?st) c h"
    by (rule Cons.IH [OF f(1) d])
  show ?case
  proof (cases "(c, h) = revision rec")
    case True
    then have "(c, h) \<notin> revision ` set rs" using Cons.prems(2) by auto
    then show ?thesis using ih f(3) True by auto
  next
    case False
    then show ?thesis using ih f(2) by (simp split: if_splits) blast+
  qed
qed simp

text \<open>A sweep touches only revisions that were open and had not moved for the given age, and what it makes of one is a
  completed, neutral, stalled check that keeps its last decision.\<close>

theorem sweep_flips_only_stalled:
  assumes "pgt_ok (cnTracker st)"
  shows "let st' = sweep_tick (pg_wiring ou) maxAge up now rqs st in
    pgt_row (cnTracker st') c h = pgt_row (cnTracker st) c h \<or>
    (\<exists>old new. pgt_row (cnTracker st) c h = Some old \<and> trPhase old \<noteq> PhaseCompleted \<and> trUpdatedAt old < now - maxAge \<and>
      pgt_row (cnTracker st') c h = Some new \<and> trPhase new = PhaseCompleted \<and> trConclusion new = ''neutral'' \<and> trStalled new \<and>
      trDecisionID new = trDecisionID old \<and> trLastDecision new = trLastDecision old)"
proof (cases "PGT_OpenCheckReports up (now - maxAge) 100 (cnTracker st)")
  case None
  then show ?thesis by (simp add: sweep_tick_def)
next
  case (Some rs)
  define xs where "xs = filter (\<lambda>r. trPhase r \<noteq> ''completed'' \<and> trUpdatedAt r < now - maxAge) (cnTracker st)"
  have rs: "rs = take 100 (sort_by (\<lambda>a b. trUpdatedAt a < trUpdatedAt b) xs)"
    using Some by (simp add: PGT_OpenCheckReports_def xs_def split: if_splits)
  have "distinct (map revision xs)" using assms by (simp add: xs_def pgt_ok_def distinct_map_filter)
  then have d: "distinct (map revision rs)" unfolding rs by (simp add: distinct_map_sort_by flip: take_map)
  have st': "sweep_tick (pg_wiring ou) maxAge up now rqs st = flip_all (pg_wiring ou) rqs 0 rs st" using Some by (simp add: sweep_tick_def)
  have stale: "trPhase r \<noteq> PhaseCompleted \<and> trUpdatedAt r < now - maxAge \<and> pgt_row (cnTracker st) (trCandidateID r) (trHeadSHA r) = Some r"
    if "r \<in> set rs" for r
    using that pgt_row_member [OF assms] in_set_takeD [of r 100] unfolding rs by (force simp: xs_def PhaseCompleted_def)
  show ?thesis
    using flip_all_rows [OF assms d, of c h ou rqs 0] stale unfolding st' Let_def
    by (auto simp: merge_report_def pg_upsert_def stalled_report_def new_revision_def PhaseCompleted_def split: if_splits)
qed

end
