(* ===== verification/Sticky.thy ===== *)
theory Sticky
  imports Ratelimit Checks
begin

text \<open>
  The sticky verification comment of the GitHub connector (internal/report): the renderer, byte for byte, and the poster that
  keeps one comment per pull request. The Issues API is called through the interface
  \<^verbatim>\<open>IssuesServiceAPI\<close>, whose operations are arguments of the definitions; the locale
  \<open>issue_comments\<close> states what is relied on.
\<close>

subsection \<open>Rendering (report/render.go, report/render_details.go)\<close>

definition emdash :: string where
  "emdash = [CHR 0xE2, CHR 0x80, CHR 0x94]"

definition MarkerLine :: string where
  "MarkerLine = ''<!-- cisync:report -->''"

definition confidenceWord :: "float64 \<Rightarrow> string" where
  "confidenceWord c = (if c \<ge> 95 / 100 then ''high'' else if c \<ge> 80 / 100 then ''moderate'' else if c \<ge> 50 / 100 then ''low'' else ''insufficient'')"

definition verdictGlyph :: "string \<Rightarrow> string" where
  "verdictGlyph verdict = (if verdict = ''accepted'' then [CHR 0xE2, CHR 0x9C, CHR 0x93]
     else if verdict = ''deferred'' then [CHR 0xE2, CHR 0x97, CHR 0x8B] else [CHR 0xE2, CHR 0x9C, CHR 0x97])"

definition formatDuration :: "int \<Rightarrow> string" where
  "formatDuration ms = (if ms < 1000 then itoa ms @ ''ms'' else itoa (ms sdiv 1000) @ ''s'')"

definition writeEvidenceTable :: "EvidenceRow list \<Rightarrow> string" where
  "writeEvidenceTable rows = ''| kind | tier | verdict | executed | skipped | duration |'' @ line_feed @ ''|---|---|---|---|---|---|'' @ line_feed @
     concat (map (\<lambda>r. ''| '' @ erKind r @ '' | '' @ itoa (erTier r) @ '' | '' @ verdictGlyph (erVerdict r) @ '' '' @ erVerdict r @ '' | '' @
       itoa (erExecuted r) @ '' | '' @ itoa (erSkipped r) @ '' | '' @ formatDuration (erDurationMS r) @ '' |'' @ line_feed) rows)"

definition evidenceSection :: "DecisionEnvelope \<Rightarrow> string" where
  "evidenceSection env = ''### Evidence by kind'' @ line_feed @
     (case deReport env of
        Some r \<Rightarrow> if rdEvidenceRows r \<noteq> [] then writeEvidenceTable (rdEvidenceRows r) else ''_per-kind breakdown not pushed by control-plane._'' @ line_feed
      | None \<Rightarrow> ''_per-kind breakdown not pushed by control-plane._'' @ line_feed) @
     (case deEvidence env of
        Some e \<Rightarrow> line_feed @ ''Aggregate census: '' @ itoa (evRequired e) @ '' required '' @ middot @ '' '' @ itoa (evAccepted e) @ '' accepted '' @ middot @ '' '' @
          itoa (evDeferred e) @ '' deferred (reason-linked) '' @ middot @ '' '' @ itoa (evFailed e) @ '' failed.'' @ line_feed @ line_feed
      | None \<Rightarrow> line_feed)"

definition skippedSection :: "ReportDossier option \<Rightarrow> string" where
  "skippedSection r = ''### Skipped as non-evidence'' @ line_feed @
     (case (case r of None \<Rightarrow> None | Some d \<Rightarrow> rdSkipped d) of
        Some s \<Rightarrow> if snRationale s \<noteq> [] then ''**'' @ itoa (snTotal s) @ ''** items skipped as non-evidence '' @ emdash @ '' '' @ snRationale s @ ''.'' @ line_feed @ line_feed
          else ''_skip rationale not pushed by control-plane._'' @ line_feed @ line_feed
      | None \<Rightarrow> ''_skip rationale not pushed by control-plane._'' @ line_feed @ line_feed)"

definition writeReproBlock :: "string \<Rightarrow> string" where
  "writeReproBlock command = (if command = [] then ''   _No reproduction command provided._'' @ line_feed
     else ''   ```bash'' @ line_feed @ ''   '' @ map (\<lambda>c. if c = CHR 0x0A then CHR '' '' else c) command @ line_feed @ ''   ```'' @ line_feed)"

definition failure_line :: "nat \<Rightarrow> FailureCaseReport \<Rightarrow> string" where
  "failure_line number f = itoa (int number) @ ''. **'' @ fcKind f @ '' '' @ emdash @ '' '' @ fcClassification f @ ''** (confidence '' @ fmt_2f (fcConfidence f) @ '', '' @
     confidenceWord (fcConfidence f) @ '') '' @ middot @ '' routed: `'' @ fcRoutedAction f @ ''` '' @ middot @
     (if fcRepairMax f > 0 then '' repair attempt '' @ itoa (fcRepairAttempt f) @ ''/'' @ itoa (fcRepairMax f) else '' no repair attempts spent'') @ line_feed @
     writeReproBlock (fcReproductionCommand f)"

definition failuresSection :: "ReportDossier option \<Rightarrow> string" where
  "failuresSection r = ''### Failures & Repairs'' @ line_feed @
     (case r of None \<Rightarrow> ''No failed-required evidence kinds.'' @ line_feed @ line_feed
      | Some d \<Rightarrow> if rdFailures d = [] then ''No failed-required evidence kinds.'' @ line_feed @ line_feed
          else concat (map (\<lambda>(i, f). failure_line (i + 1) f) (enumerate 0 (rdFailures d))) @ line_feed)"

definition timelineSection :: "ReportDossier option \<Rightarrow> string" where
  "timelineSection r = ''### Decision timeline'' @ line_feed @
     (case r of None \<Rightarrow> ''_timeline not pushed by control-plane._'' @ line_feed @ line_feed
      | Some d \<Rightarrow> if rdTimeline d = [] then ''_timeline not pushed by control-plane._'' @ line_feed @ line_feed
          else concat (map (\<lambda>e. ''- `'' @ rfc3339 (teAt e) @ ''` '' @ teEvent e @ line_feed) (sort_by (\<lambda>a b. teAt a < teAt b) (rdTimeline d))) @ line_feed)"

definition dossierLink :: "string \<Rightarrow> string \<Rightarrow> string" where
  "dossierLink detailsBase candidateID = ''> Full dossier: '' @ detailsURLFor detailsBase candidateID @ '' '' @ emdash @ '' live link'' @ line_feed"

definition RenderComment :: "DecisionEnvelope \<Rightarrow> string \<Rightarrow> string option" where
  "RenderComment env detailsBase = (case headlineForVerb (deVerb env) of None \<Rightarrow> None
     | Some headline \<Rightarrow> Some (MarkerLine @ line_feed @ ''## CISync Verification Report'' @ line_feed @ line_feed @
         ''**'' @ headline @ ''** '' @ middot @ '' confidence '' @ fmt_2f (deConfidence env) @ '' ('' @ confidenceWord (deConfidence env) @ '') '' @ middot @
         '' policy '' @ dePolicyID env @ '' v'' @ itoa (dePolicyVersion env) @ line_feed @ line_feed @
         (if deSummary env \<noteq> [] then deSummary env @ line_feed @ line_feed else []) @
         evidenceSection env @ skippedSection (deReport env) @ failuresSection (deReport env) @ timelineSection (deReport env) @
         dossierLink detailsBase (deCandidateID env)))"

subsection \<open>Posting (report/poster.go)\<close>

type_synonym comment = "int \<times> string"

definition startsWithMarker :: "string \<Rightarrow> bool" where
  "startsWithMarker body = has_prefix body (MarkerLine @ line_feed)"

text \<open>The pages of the issue's comments, 100 each, as the service answers them during the scan; the loop runs until a page is
  not full.\<close>

partial_function (option) findStickyComment :: "(nat \<Rightarrow> GhErr + comment list) \<Rightarrow> nat \<Rightarrow> (GhErr + int option) option" where
  "findStickyComment pages page = (case pages page of Inl e \<Rightarrow> Some (Inl e)
     | Inr comments \<Rightarrow> (case find (\<lambda>c. startsWithMarker (snd c)) comments of Some c \<Rightarrow> Some (Inr (Some (fst c)))
         | None \<Rightarrow> if length comments < 100 then Some (Inr None) else findStickyComment pages (page + 1)))"

datatype PostErr = PostRender | PostResolve | PostList GhErr | PostEdit GhErr | PostCreate GhErr

text \<open>\<^verbatim>\<open>Post\<close>: \<open>None\<close> when the scan never ends, otherwise the error if any and the state of the
  service. \<open>installation\<close> is the resolver's answer, \<open>client\<close> whether the registry builds a client.\<close>

definition Post :: "(string \<Rightarrow> string \<Rightarrow> int option) \<Rightarrow> (int \<Rightarrow> bool) \<Rightarrow> (int \<Rightarrow> nat \<Rightarrow> 'i \<Rightarrow> GhErr + comment list) \<Rightarrow>
    (int \<Rightarrow> string \<Rightarrow> 'i \<Rightarrow> (GhErr + int) \<times> 'i) \<Rightarrow> (int \<Rightarrow> string \<Rightarrow> 'i \<Rightarrow> GhErr option \<times> 'i) \<Rightarrow> string \<Rightarrow> DecisionEnvelope \<Rightarrow> 'i \<Rightarrow> (PostErr option \<times> 'i) option" where
  "Post resolve client list_page create edit details env s = (case RenderComment env details of None \<Rightarrow> Some (Some PostRender, s)
     | Some body \<Rightarrow> (case SplitRepo (deRepo env) of None \<Rightarrow> Some (Some PostResolve, s)
       | Some (owner, name) \<Rightarrow> (case resolve owner name of None \<Rightarrow> Some (Some PostResolve, s)
         | Some inst \<Rightarrow> if \<not> client inst then Some (Some PostResolve, s)
           else (case findStickyComment (\<lambda>page. list_page (dePRNumber env) page s) 1 of None \<Rightarrow> None
             | Some (Inl e) \<Rightarrow> Some (Some (PostList e), s)
             | Some (Inr (Some ident)) \<Rightarrow> (case edit ident body s of (None, s') \<Rightarrow> Some (None, s') | (Some e, s') \<Rightarrow> Some (Some (PostEdit e), s'))
             | Some (Inr None) \<Rightarrow> (case create (dePRNumber env) body s of (Inr _, s') \<Rightarrow> Some (None, s') | (Inl e, s') \<Rightarrow> Some (Some (PostCreate e), s'))))))"


subsection \<open>Finding the comment\<close>

declare findStickyComment.simps [code]

lemma find_append: "find P (xs @ ys) = (case find P xs of Some x \<Rightarrow> Some x | None \<Rightarrow> find P ys)"
  by (induction xs) auto

lemma find_take_drop: "find P xs = (case find P (take n xs) of Some x \<Rightarrow> Some x | None \<Rightarrow> find P (drop n xs))"
  by (metis append_take_drop_id find_append)

lemma findSticky_from:
  "1 \<le> page \<Longrightarrow> findStickyComment (\<lambda>p. Inr (take 100 (drop (100 * (p - 1)) cs))) page =
     Some (Inr (map_option fst (find (\<lambda>c. startsWithMarker (snd c)) (drop (100 * (page - 1)) cs))))"
proof (induction "length cs - 100 * (page - 1)" arbitrary: page rule: less_induct)
  case less
  let ?P = "\<lambda>c. startsWithMarker (snd c)" and ?rest = "drop (100 * (page - 1)) cs"
  show ?case
  proof (cases "find ?P (take 100 ?rest)")
    case (Some c)
    then show ?thesis using find_take_drop [of ?P ?rest 100] by (subst findStickyComment.simps) simp
  next
    case none: None
    show ?thesis
    proof (cases "length ?rest < 100")
      case True
      then show ?thesis using none by (subst findStickyComment.simps) simp
    next
      case False
      have "100 * page = 100 + 100 * (page - 1)" using less.prems by simp
      then have next_rest: "drop (100 * page) cs = drop 100 ?rest" by (simp add: add.commute)
      have "findStickyComment (\<lambda>p. Inr (take 100 (drop (100 * (p - 1)) cs))) (page + 1) =
          Some (Inr (map_option fst (find ?P (drop (100 * (page + 1 - 1)) cs))))"
        using False less.prems by (intro less.hyps) auto
      moreover have "find ?P ?rest = find ?P (drop (100 * page) cs)"
        using find_take_drop [of ?P ?rest 100] none unfolding next_rest by simp
      ultimately show ?thesis using none False by (subst findStickyComment.simps) simp
    qed
  qed
qed

text \<open>The scan ends. Over the pages of any list of comments the loop returns, with the first comment whose first line is the
  marker, or with none when there is none.\<close>

theorem findStickyComment_complete:
  "findStickyComment (\<lambda>page. Inr (take 100 (drop (100 * (page - 1)) comments))) 1 =
     Some (Inr (map_option fst (find (\<lambda>c. startsWithMarker (snd c)) comments)))"
  using findSticky_from [of 1 comments] by simp

lemma RenderComment_marked: "RenderComment env base = Some body \<Longrightarrow> startsWithMarker body"
  by (auto simp: RenderComment_def startsWithMarker_def has_prefix_def split: option.splits)

subsection \<open>One comment per pull request\<close>

text \<open>What the poster relies on, for issues whose comments fit one page.\<close>

locale issue_comments =
  fixes comments :: "'i \<Rightarrow> int \<Rightarrow> comment list"
    and ok :: "'i \<Rightarrow> bool"
    and list_page :: "int \<Rightarrow> nat \<Rightarrow> 'i \<Rightarrow> GhErr + comment list"
    and create :: "int \<Rightarrow> string \<Rightarrow> 'i \<Rightarrow> (GhErr + int) \<times> 'i"
    and edit :: "int \<Rightarrow> string \<Rightarrow> 'i \<Rightarrow> GhErr option \<times> 'i"
  assumes ok_ids: "ok s \<Longrightarrow> distinct (map fst (comments s n))"
    and list_first: "ok s \<Longrightarrow> length (comments s n) < 100 \<Longrightarrow> list_page n 1 s = Inr (comments s n)"
    and create_ok: "ok s \<Longrightarrow> create n body s = (Inr ident, s') \<Longrightarrow> ok s' \<and> mset (comments s' n) = add_mset (ident, body) (mset (comments s n))"
    and edit_ok: "ok s \<Longrightarrow> edit ident body s = (None, s') \<Longrightarrow> ok s' \<and>
      comments s' n = map (\<lambda>(i, b). if i = ident then (i, body) else (i, b)) (comments s n)"
begin

lemma find_first_page:
  "ok s \<Longrightarrow> length (comments s n) < 100 \<Longrightarrow> findStickyComment (\<lambda>page. list_page n page s) 1 =
     Some (Inr (map_option fst (find (\<lambda>c. startsWithMarker (snd c)) (comments s n))))"
  using list_first [of s n] by (subst findStickyComment.simps) (auto split: option.split)

lemma edited_once:
  fixes cs :: "comment list"
  assumes "distinct (map fst cs)" and "find (\<lambda>c. startsWithMarker (snd c)) cs = Some c" and "startsWithMarker body"
    and "length (filter (\<lambda>c. startsWithMarker (snd c)) cs) \<le> 1"
  shows "filter (\<lambda>c. startsWithMarker (snd c)) (map (\<lambda>(i, b). if i = fst c then (i, body) else (i, b)) cs) = [(fst c, body)] \<and>
    filter (\<lambda>c. \<not> startsWithMarker (snd c)) (map (\<lambda>(i, b). if i = fst c then (i, body) else (i, b)) cs) = filter (\<lambda>c. \<not> startsWithMarker (snd c)) cs"
  using assms
proof (induction cs)
  case (Cons d cs)
  have id: "map (\<lambda>(i, b). if i = fst d then (i, body) else (i, b)) cs = cs" if "fst d \<notin> fst ` set cs" for d :: comment
    using that by (intro map_idI) (auto simp: image_iff)
  show ?case
  proof (cases "startsWithMarker (snd d)")
    case True
    then have c: "c = d" and none: "filter (\<lambda>c. startsWithMarker (snd c)) cs = []" using Cons.prems by auto
    have "fst d \<notin> fst ` set cs" using Cons.prems(1) by simp
    from id [OF this] show ?thesis using True c none Cons.prems(3) by (cases d) simp
  next
    case False
    then have "c \<in> set cs" using Cons.prems(2) by (auto simp: find_Some_iff)
    then have "fst d \<noteq> fst c" using Cons.prems(1) by force
    then show ?thesis using Cons False by (cases d) auto
  qed
qed simp

lemma Post_keeps_one:
  assumes ok: "ok s" and few: "length (comments s (dePRNumber env)) < 100"
    and one: "length (filter (\<lambda>c. startsWithMarker (snd c)) (comments s (dePRNumber env))) \<le> 1"
    and p: "Post resolve client list_page create edit details env s = Some (None, s')"
  shows "\<exists>ident body. RenderComment env details = Some body \<and>
    filter (\<lambda>c. startsWithMarker (snd c)) (comments s' (dePRNumber env)) = [(ident, body)] \<and>
    mset (filter (\<lambda>c. \<not> startsWithMarker (snd c)) (comments s' (dePRNumber env))) = mset (filter (\<lambda>c. \<not> startsWithMarker (snd c)) (comments s (dePRNumber env)))"
proof -
  let ?n = "dePRNumber env"
  obtain body where body: "RenderComment env details = Some body" using p by (auto simp: Post_def split: option.splits)
  note marked = RenderComment_marked [OF body]
  note scan = find_first_page [OF ok few]
  show ?thesis
  proof (cases "find (\<lambda>c. startsWithMarker (snd c)) (comments s ?n)")
    case none: None
    then obtain ident where c: "create ?n body s = (Inr ident, s')"
      using p body scan by (auto simp: Post_def split: option.splits sum.splits prod.splits if_splits)
    have m: "mset (comments s' ?n) = add_mset (ident, body) (mset (comments s ?n))" using create_ok [OF ok c] by simp
    have "filter (\<lambda>c. startsWithMarker (snd c)) (comments s ?n) = []" using none by (auto simp: find_None_iff filter_empty_conv)
    then have "filter_mset (\<lambda>c. startsWithMarker (snd c)) (mset (comments s ?n)) = {#}" by (metis mset.simps(1) mset_filter)
    then have "mset (filter (\<lambda>c. startsWithMarker (snd c)) (comments s' ?n)) = {#(ident, body)#}"
      unfolding mset_filter m using marked by simp
    then have "filter (\<lambda>c. startsWithMarker (snd c)) (comments s' ?n) = [(ident, body)]" by (simp only: mset_single_iff)
    moreover have "mset (filter (\<lambda>c. \<not> startsWithMarker (snd c)) (comments s' ?n)) = mset (filter (\<lambda>c. \<not> startsWithMarker (snd c)) (comments s ?n))"
      using m marked by simp
    ultimately show ?thesis using body by blast
  next
    case (Some c)
    then have e: "edit (fst c) body s = (None, s')"
      using p body scan by (auto simp: Post_def split: option.splits sum.splits prod.splits if_splits)
    show ?thesis
      using edited_once [OF ok_ids [OF ok] Some marked one] edit_ok [OF ok e, of ?n] body by auto
  qed
qed

end

text \<open>Whoever starts a comment with the marker line owns the comment the poster edits: the scan looks at bodies, not at
  authors.\<close>

lemma foreign_marker_comment_is_edited:
  "findStickyComment (\<lambda>page. Inr (take 100 (drop (100 * (page - 1)) [(7, MarkerLine @ line_feed @ ''merge this''), (8, MarkerLine @ line_feed @ ''ours'')]))) 1
     = Some (Inr (Some 7))"
  unfolding findSticky_from [OF order_refl] by (simp add: startsWithMarker_def has_prefix_def)

end
