(* ===== verification/Fakegithub.thy ===== *)
theory Fakegithub
  imports Connector Sticky
begin

text \<open>
  The stand-in for the GitHub API the repository tests against (internal/testsupport): check-run writes with injected
  failures, and issue comments. It provides the interface of the sticky-comment poster, and with it the flows of the
  connector run to the end on concrete pushes.
\<close>

subsection \<open>State and wire (testsupport/fakegithub.go, fakegithub_wire.go)\<close>

record CheckCall =
  ccMethod :: string
  ccOwner :: string
  ccRepo :: string
  ccCheckRunID :: int
  ccName :: string
  ccHeadSHA :: string
  ccStatus :: string
  ccConclusion :: string
  ccExternalID :: string
  ccSummary :: string
  ccTitle :: string
  ccAnnotations :: "Annotation list"

record FailureStep =
  fsCode :: int
  fsRetryAfter :: string
  fsRateLimit :: bool

record StoredIssueComment =
  icID :: int
  icIssue :: int
  icBody :: string
  icAuthor :: string
  icType :: string

record IssueCommentCall =
  iiMethod :: string
  iiIssue :: int
  iiID :: int
  iiBody :: string

record FakeGitHub =
  fgNextID :: int
  fgChecks :: "CheckCall list"
  fgFailures :: "FailureStep list"
  fgComments :: "StoredIssueComment list"
  fgIssueCalls :: "IssueCommentCall list"
  fgRequests :: int

definition NewFakeGitHub :: FakeGitHub where
  "NewFakeGitHub = \<lparr>fgNextID = 1000, fgChecks = [], fgFailures = [], fgComments = [], fgIssueCalls = [], fgRequests = 0\<rparr>"

definition QueueFailure :: "FailureStep \<Rightarrow> FakeGitHub \<Rightarrow> FakeGitHub" where
  "QueueFailure step f = f\<lparr>fgFailures := fgFailures f @ [step]\<rparr>"

definition SeedForeignIssueComment :: "int \<Rightarrow> string \<Rightarrow> FakeGitHub \<Rightarrow> int \<times> FakeGitHub" where
  "SeedForeignIssueComment issue body f = (let ident = fgNextID f + 1 in (ident, f\<lparr>fgNextID := ident,
     fgComments := fgComments f @ [\<lparr>icID = ident, icIssue = issue, icBody = body, icAuthor = ''somehuman'', icType = ''User''\<rparr>]\<rparr>))"

definition popFailure :: "FakeGitHub \<Rightarrow> FailureStep option \<times> FakeGitHub" where
  "popFailure f = (case fgFailures f of [] \<Rightarrow> (None, f) | step # rest \<Rightarrow> (Some step, f\<lparr>fgFailures := rest\<rparr>))"

text \<open>What the client makes of an injected failure: a 403 without remaining requests is the typed primary rate limit, any
  other status an error response with its Retry-After header.\<close>

definition writeFailure :: "FailureStep \<Rightarrow> GhErr" where
  "writeFailure step = (if fsRateLimit step \<and> fsCode step = 403 then \<lparr>geAbuse = None, geRateLimit = True, geResponse = None, geText = ''injected failure''\<rparr>
     else \<lparr>geAbuse = None, geRateLimit = False, geResponse = Some (fsCode step, fsRetryAfter step), geText = ''injected failure''\<rparr>)"

definition derefString :: "string option \<Rightarrow> string" where
  "derefString s = (case s of None \<Rightarrow> [] | Some x \<Rightarrow> x)"

definition decodeBody :: "CheckOpts \<Rightarrow> CheckCall \<Rightarrow> CheckCall" where
  "decodeBody opts call = call\<lparr>ccName := koName opts, ccHeadSHA := derefString (koHeadSHA opts), ccStatus := koStatus opts,
     ccConclusion := derefString (koConclusion opts), ccExternalID := derefString (koExternalID opts), ccSummary := koSummary opts, ccTitle := koTitle opts,
     ccAnnotations := map (\<lambda>(msg, title, place). case place of
        Some (path, startLine, endLine) \<Rightarrow> \<lparr>anPath = path, anStartLine = startLine, anEndLine = endLine, anMessage = msg, anTitle = title\<rparr>
      | None \<Rightarrow> \<lparr>anPath = [], anStartLine = 0, anEndLine = 0, anMessage = msg, anTitle = title\<rparr>) (koAnnotations opts)\<rparr>"

definition blank_call :: "string \<Rightarrow> string \<Rightarrow> string \<Rightarrow> int \<Rightarrow> CheckCall" where
  "blank_call verb owner repo ident = \<lparr>ccMethod = verb, ccOwner = owner, ccRepo = repo, ccCheckRunID = ident, ccName = [], ccHeadSHA = [], ccStatus = [],
     ccConclusion = [], ccExternalID = [], ccSummary = [], ccTitle = [], ccAnnotations = []\<rparr>"

definition handleCreate :: "int \<Rightarrow> string \<Rightarrow> string \<Rightarrow> CheckOpts \<Rightarrow> FakeGitHub \<Rightarrow> (GhErr + int) \<times> FakeGitHub" where
  "handleCreate inst owner name opts f0 = (case popFailure (f0\<lparr>fgRequests := fgRequests f0 + 1\<rparr>) of
       (Some step, f) \<Rightarrow> (Inl (writeFailure step), f)
     | (None, f) \<Rightarrow> (let ident = fgNextID f + 1 in
         (Inr ident, f\<lparr>fgNextID := ident, fgChecks := fgChecks f @ [decodeBody opts (blank_call ''create'' owner name 0)]\<rparr>)))"

definition handleUpdate :: "int \<Rightarrow> string \<Rightarrow> string \<Rightarrow> int \<Rightarrow> CheckOpts \<Rightarrow> FakeGitHub \<Rightarrow> GhErr option \<times> FakeGitHub" where
  "handleUpdate inst owner name ident opts f0 = (case popFailure (f0\<lparr>fgRequests := fgRequests f0 + 1\<rparr>) of
       (Some step, f) \<Rightarrow> (Some (writeFailure step), f)
     | (None, f) \<Rightarrow> (None, f\<lparr>fgChecks := fgChecks f @ [decodeBody opts (blank_call ''update'' owner name ident)]\<rparr>))"

subsection \<open>Issue comments (testsupport/fakegithub_issues.go)\<close>

text \<open>The map of comments as its entries in iteration order; every page holds all comments of the issue.\<close>

definition handleIssueList :: "int \<Rightarrow> nat \<Rightarrow> FakeGitHub \<Rightarrow> GhErr + comment list" where
  "handleIssueList issue page f = Inr (map (\<lambda>c. (icID c, icBody c)) (filter (\<lambda>c. icIssue c = issue) (fgComments f)))"

definition handleIssueCreate :: "int \<Rightarrow> string \<Rightarrow> FakeGitHub \<Rightarrow> (GhErr + int) \<times> FakeGitHub" where
  "handleIssueCreate issue body f = (let ident = fgNextID f + 1 in (Inr ident, f\<lparr>fgNextID := ident,
     fgComments := fgComments f @ [\<lparr>icID = ident, icIssue = issue, icBody = body, icAuthor = ''cisync-app[bot]'', icType = ''Bot''\<rparr>],
     fgIssueCalls := fgIssueCalls f @ [\<lparr>iiMethod = ''create'', iiIssue = issue, iiID = ident, iiBody = body\<rparr>]\<rparr>))"

definition handleIssueEdit :: "int \<Rightarrow> string \<Rightarrow> FakeGitHub \<Rightarrow> GhErr option \<times> FakeGitHub" where
  "handleIssueEdit ident body f = (case find (\<lambda>c. icID c = ident) (fgComments f) of
       None \<Rightarrow> (Some \<lparr>geAbuse = None, geRateLimit = False, geResponse = Some (404, []), geText = ''Not Found''\<rparr>, f)
     | Some stored \<Rightarrow> (None, f\<lparr>fgComments := map (\<lambda>c. if icID c = ident then c\<lparr>icBody := body\<rparr> else c) (fgComments f),
         fgIssueCalls := fgIssueCalls f @ [\<lparr>iiMethod = ''edit'', iiIssue = icIssue stored, iiID = ident, iiBody = body\<rparr>]\<rparr>))"

definition fake_comments :: "FakeGitHub \<Rightarrow> int \<Rightarrow> comment list" where
  "fake_comments f issue = map (\<lambda>c. (icID c, icBody c)) (filter (\<lambda>c. icIssue c = issue) (fgComments f))"

definition fake_ok :: "FakeGitHub \<Rightarrow> bool" where
  "fake_ok f \<longleftrightarrow> distinct (map icID (fgComments f)) \<and> (\<forall>c \<in> set (fgComments f). icID c \<le> fgNextID f)"

lemma fake_edit_comments:
  "map (\<lambda>c. (icID c, icBody c)) (filter (\<lambda>c. icIssue c = n) (map (\<lambda>c. if icID c = ident then c\<lparr>icBody := body\<rparr> else c) cs)) =
     map (\<lambda>(i, b). if i = ident then (i, body) else (i, b)) (map (\<lambda>c. (icID c, icBody c)) (filter (\<lambda>c. icIssue c = n) cs))"
  by (induction cs) auto

lemma fake_ids: "map icID (map (\<lambda>c. if icID c = ident then c\<lparr>icBody := body\<rparr> else c) cs) = map icID cs"
  by auto

lemma fake_edit_ok:
  assumes "fake_ok f" and "handleIssueEdit ident body f = (None, f')"
  shows "fake_ok f' \<and> fake_comments f' n = map (\<lambda>(i, b). if i = ident then (i, body) else (i, b)) (fake_comments f n)"
proof -
  have f': "fgComments f' = map (\<lambda>c. if icID c = ident then c\<lparr>icBody := body\<rparr> else c) (fgComments f)" "fgNextID f' = fgNextID f"
    using assms(2) by (auto simp: handleIssueEdit_def split: option.splits)
  have "fake_ok f'" using assms(1) unfolding fake_ok_def f' fake_ids by auto
  then show ?thesis using fake_edit_comments [of n ident body "fgComments f"] by (simp add: fake_comments_def f')
qed

interpretation fake: issue_comments fake_comments fake_ok handleIssueList handleIssueCreate handleIssueEdit
proof unfold_locales
  fix f f' :: FakeGitHub and n body ident
  assume ok: "fake_ok f"
  show "distinct (map fst (fake_comments f n))"
    using ok by (simp add: fake_ok_def fake_comments_def o_def distinct_map_filter)
  show "handleIssueList n 1 f = Inr (fake_comments f n)" by (simp add: handleIssueList_def fake_comments_def)
  show "fake_ok f' \<and> mset (fake_comments f' n) = add_mset (ident, body) (mset (fake_comments f n))" if "handleIssueCreate n body f = (Inr ident, f')"
    using that ok by (force simp: handleIssueCreate_def fake_ok_def fake_comments_def Let_def)
  show "fake_ok f' \<and> fake_comments f' n = map (\<lambda>(i, b). if i = ident then (i, body) else (i, b)) (fake_comments f n)" if "handleIssueEdit ident body f = (None, f')"
    by (rule fake_edit_ok [OF ok that])
qed


subsection \<open>Pushes against the fake\<close>

definition fake_outside :: "FakeGitHub Outside" where
  "fake_outside = \<lparr>ouRegistry = True, ouResolver = True, ouClient = (\<lambda>_. True), ouCreate = handleCreate, ouUpdate = handleUpdate,
     ouReporter = None, ouControl = None, ouDetails = [], ouPolicy = PolicyReplan\<rparr>"

definition fake_request :: "gotime \<Rightarrow> string \<Rightarrow> ConnReq" where
  "fake_request now fresh = \<lparr>rqNow = now, rqFindUp = True, rqLookupUp = True, rqRecordUp = True, rqEnqueueUp = True, rqResolve = (\<lambda>_ _. Some 7),
     rqCancelled = (\<lambda>_. False), rqDraw = (\<lambda>_ _. 0), rqFresh = fresh\<rparr>"

definition fake_start :: "int \<Rightarrow> (PGQueue, TrackRecord list, FakeGitHub) Conn" where
  "fake_start perHour = \<lparr>cnTracker = [], cnPending = [], cnBudget = NewBudget perHour, cnGitHub = NewFakeGitHub, cnDry = [],
     cnRerun = \<lparr>rbMaxPerCandidate = 3, rbRatePerHour = 10, rbPerCandidate = Map.empty, rbHourly = Map.empty\<rparr>, cnSeen = \<lparr>ddSeen = Map.empty, ddTTL = 86400 * gosecond\<rparr>\<rparr>"

definition sample_lifecycle :: LifecycleEnvelope where
  "sample_lifecycle = \<lparr>leKind = ''lifecycle'', lePhase = ''queued'', leCandidateID = ''cand_1'', leRepo = ''acme/app'', leHeadSHA = replicate 40 (CHR ''a''), leAt = 1\<rparr>"

definition sample_rerun :: RerunEnvelope where
  "sample_rerun = \<lparr>reKind = ''rerun_requested'', reCandidateID = ''cand_1'', reRepo = ''acme/app'', reHeadSHA = replicate 40 (CHR ''a''), reRequestedBy = [], reRequestedAt = 1\<rparr>"

text \<open>Bodies are named by their envelope: \<open>d\<close> and \<open>e\<close> are two decisions of the same revision.\<close>

definition fake_codec :: PushCodec where
  "fake_codec = \<lparr>pcKind = (\<lambda>_. Some []),
     pcDecision = (\<lambda>raw. if raw = ''d'' then Some sample_decision
       else if raw = ''e'' then Some (sample_decision\<lparr>deDecisionID := ''dec_2'', deVerb := VerbEligibleForMergeTrain\<rparr>) else None),
     pcLifecycle = (\<lambda>_. Some sample_lifecycle), pcRerun = (\<lambda>_. Some sample_rerun), pcHMAC = (\<lambda>_ _. [])\<rparr>"

abbreviation fake_wiring :: "(PGQueue, TrackRecord list, FakeGitHub) Wiring" where
  "fake_wiring \<equiv> pg_wiring fake_outside"

text \<open>The id of a check run created by the drainer is not recorded: a queued push that found no token, a drain an hour
  later and the decision after that create two check runs for one revision.\<close>

definition empty_budget :: Budget where
  "empty_budget = snd (Budget_TryAcquire 0 7 (NewBudget 1))"

definition drained_once :: "(PGQueue, TrackRecord list, FakeGitHub) Conn" where
  "drained_once = conn_drain fake_outside True (7200 * gosecond) (calm_drain (7200 * gosecond)) (fake_request (7200 * gosecond) [])
     (snd (serveLifecycle fake_wiring fake_codec (fake_request 0 ''pw_1'') [] ''cand_1:queued'' ((fake_start 1)\<lparr>cnBudget := empty_budget\<rparr>)))"

lemma drained_run_is_created_twice:
  "map (\<lambda>c. (ccMethod c, ccExternalID c, ccStatus c))
     (fgChecks (cnGitHub (snd (serveDecision fake_wiring fake_codec (fake_request (14400 * gosecond) ''pw_2'') ''d'' ''dec_1'' drained_once))))
   = [(''create'', ''cand_1'', ''queued''), (''create'', ''cand_1'', ''completed'')]"
  by code_simp


text \<open>Only the last decision of a revision is recognised as a replay: a redelivery of the first one after the second is
  applied again and turns the check back.\<close>

definition push_decision :: "gotime \<Rightarrow> string \<Rightarrow> string \<Rightarrow> (PGQueue, TrackRecord list, FakeGitHub) Conn \<Rightarrow> (PGQueue, TrackRecord list, FakeGitHub) Conn" where
  "push_decision now raw key st = snd (serveDecision fake_wiring fake_codec (fake_request now ''pw_1'') raw key st)"

lemma superseded_decision_turns_check_back:
  "map (\<lambda>c. (ccMethod c, ccCheckRunID c, ccConclusion c))
     (fgChecks (cnGitHub (push_decision 3 ''d'' ''dec_1'' (push_decision 2 ''e'' ''dec_2'' (push_decision 1 ''d'' ''dec_1'' (fake_start 300))))))
   = [(''create'', 0, ''failure''), (''update'', 1001, ''success''), (''update'', 1001, ''failure'')]"
  by code_simp

text \<open>A resolver that does not answer turns a live push into a dry-run: the push is accepted, the revision recorded as
  completed, and the redelivery is a replay, so GitHub never gets the verdict.\<close>

definition unresolved_request :: ConnReq where
  "unresolved_request = (fake_request 1 ''pw_1'')\<lparr>rqResolve := (\<lambda>_ _. None)\<rparr>"

lemma unresolved_verdict_is_swallowed:
  "(let (r1, st1) = serveDecision fake_wiring fake_codec unresolved_request ''d'' ''dec_1'' (fake_start 300);
        (r2, st2) = serveDecision fake_wiring fake_codec (fake_request 2 ''pw_1'') ''d'' ''dec_1'' st1 in
    (psStatus r1, psDryRun r1, psReplay r2, map trPhase (cnTracker st2), fgRequests (cnGitHub st2), cnPending st2))
   = (202, True, True, [PhaseCompleted], 0, [])"
  by code_simp

subsection \<open>Witnesses\<close>


definition queued_verdict :: "(PGQueue, TrackRecord list, FakeGitHub) Conn" where
  "queued_verdict = push_decision 0 ''d'' ''dec_1'' ((fake_start 1)\<lparr>cnBudget := empty_budget\<rparr>)"


theorem failed_rerun_is_never_retried_witness:
  "\<exists>st'. serveRerun fake_wiring fake_codec ((fake_request 1 [])\<lparr>rqLookupUp := False\<rparr>) [] ''delivery-0123456789'' (fake_start 300)
       = (push_error 503 ''unavailable'', st')
     \<and> fst (serveRerun fake_wiring fake_codec (fake_request 2 []) [] ''delivery-0123456789'' st') = push_replay"
proof -
  have "pcRerun fake_codec [] = Some sample_rerun" by (simp add: fake_codec_def)
  moreover have "RerunEnvelope_Validate sample_rerun = None" by code_simp
  ultimately show ?thesis
    using failed_rerun_is_never_retried [of fake_codec "[]" sample_rerun "''delivery-0123456789''" "fake_start 300" "(fake_request 1 [])\<lparr>rqLookupUp := False\<rparr>"
        "fake_request 2 []" fake_outside]
    by (fastforce simp: fake_start_def fake_request_def gosecond_def)
qed


definition stale_lifecycle :: "(PGQueue, TrackRecord list, FakeGitHub) Conn" where
  "stale_lifecycle = snd (serveLifecycle fake_wiring fake_codec (fake_request 0 ''pw_1'') [] ''cand_1:queued'' (fake_start 300))"

theorem sweep_flips_only_stalled_witness:
  "\<exists>new. pgt_row (cnTracker (sweep_tick fake_wiring 10 True 100 (\<lambda>_. fake_request 100 ''pw_2'') stale_lifecycle)) ''cand_1'' (replicate 40 (CHR ''a'')) = Some new
     \<and> trPhase new = PhaseCompleted \<and> trConclusion new = ''neutral'' \<and> trStalled new"
proof -
  let ?st' = "sweep_tick fake_wiring 10 True 100 (\<lambda>_. fake_request 100 ''pw_2'') stale_lifecycle"
  have "distinct (map (\<lambda>r. (trCandidateID r, trHeadSHA r)) (cnTracker stale_lifecycle))" by code_simp
  then have ok: "pgt_ok (cnTracker stale_lifecycle)" by (simp add: pgt_ok_def)
  have "map_option trPhase (pgt_row (cnTracker ?st') ''cand_1'' (replicate 40 (CHR ''a''))) \<noteq>
      map_option trPhase (pgt_row (cnTracker stale_lifecycle) ''cand_1'' (replicate 40 (CHR ''a'')))" by code_simp
  then show ?thesis
    using sweep_flips_only_stalled [OF ok, of fake_outside 10 True 100 "\<lambda>_. fake_request 100 ''pw_2''" "''cand_1''" "replicate 40 (CHR ''a'')"]
    unfolding Let_def by metis
qed


end
