(* ===== verification/Verdict.thy ===== *)
theory Verdict
  imports Relay Fakegithub
begin

text \<open>
  The way of a verdict from the engine to the connector: the scheduler renders a decision, the ledger and the outbox record
  it in the same transaction, the relay hands the outbox row to the publisher, and the publisher posts the envelope to the
  push endpoint of the connector. The theories of the three parts meet here.
\<close>

subsection \<open>Reading the event back\<close>

lemma fold_insert_ordered: "sorted_wrt lt (acc @ xs) \<Longrightarrow> (\<And>a b. lt a b \<Longrightarrow> \<not> lt b a) \<Longrightarrow> fold (insert_by lt) xs acc = acc @ xs"
proof (induction xs arbitrary: acc)
  case (Cons x xs)
  have "insert_by lt x acc = acc @ [x]" using Cons.prems by (induction acc) auto
  with Cons show ?case by simp
qed simp

lemma sort_by_ordered: "sorted_wrt lt xs \<Longrightarrow> (\<And>a b. lt a b \<Longrightarrow> \<not> lt b a) \<Longrightarrow> sort_by lt xs = xs"
  unfolding sort_by_def using fold_insert_ordered [of lt "[]" xs] by simp

lemma sorted_ledger:
  assumes "ledger_wf cr l"
  shows "sorted_wrt (\<lambda>a b. eSeq a < eSeq b) (lgRows l)" and "e \<in> set (lgRows l) \<Longrightarrow> 0 < eSeq e"
proof -
  have seqs: "map eSeq (lgRows l) = seqs_from 0 (length (lgRows l))" using assms by (simp add: ledger_wf_def)
  then have "sorted_wrt (<) (map eSeq (lgRows l))" by (simp add: strict_sorted_iff)
  then show "sorted_wrt (\<lambda>a b. eSeq a < eSeq b) (lgRows l)" by (simp add: sorted_wrt_map)
  have "set (map eSeq (lgRows l)) = {0 <.. 0 + int (length (lgRows l))}" unfolding seqs by simp
  then show "e \<in> set (lgRows l) \<Longrightarrow> 0 < eSeq e" by fastforce
qed

lemma split_aggregate_join: "CHR '':'' \<notin> set t \<Longrightarrow> t \<noteq> [] \<Longrightarrow> ident \<noteq> [] \<Longrightarrow> split_aggregate (t @ '':'' @ ident) = Some (t, ident)"
proof -
  assume "CHR '':'' \<notin> set t" "t \<noteq> []" "ident \<noteq> []"
  moreover from this(1) have "takeWhile (\<lambda>c. c \<noteq> CHR '':'') t = t" by (auto simp: takeWhile_eq_all_conv)
  ultimately show ?thesis by (simp add: split_aggregate_def Let_def takeWhile_append2)
qed

text \<open>The first event of its type and aggregate is the one a limit of 1 returns.\<close>

lemma tail_first:
  assumes "ledger_wf cr l" and "lgRows l = before @ ev # after"
    and "\<forall>e \<in> set before. eAggregate e \<noteq> eAggregate ev" and "CHR '':'' \<notin> set (agType (eAggregate ev))"
    and "agType (eAggregate ev) \<noteq> []" and "agID (eAggregate ev) \<noteq> []"
  shows "fst (TailEvents (lgRows l) (eTenantID ev) 0 [eType ev] (agType (eAggregate ev) @ '':'' @ agID (eAggregate ev)) 1) = [ev]"
proof -
  let ?P = "\<lambda>e. eTenantID e = eTenantID ev \<and> eSeq e > 0 \<and> eType e = eType ev \<and> eAggregate e = eAggregate ev"
  have agg: "\<lparr>agType = agType a, agID = agID a\<rparr> = a" for a :: AggregateRef by simp
  have "sorted_wrt (\<lambda>a b. eSeq a < eSeq b) (filter ?P (lgRows l))" using sorted_ledger(1) [OF assms(1)] by (rule sorted_wrt_filter)
  then have sorted: "sort_by (\<lambda>a b. eSeq a < eSeq b) (filter ?P (lgRows l)) = filter ?P (lgRows l)" by (rule sort_by_ordered) simp
  have "filter ?P before = []" using assms(3) by (auto simp: filter_empty_conv)
  moreover have "?P ev" using sorted_ledger(2) [OF assms(1)] assms(2) by simp
  ultimately have "take 1 (filter ?P (lgRows l)) = [ev]" by (simp add: assms(2))
  then show ?thesis using sorted
    by (simp add: TailEvents_def Let_def split_aggregate_join [OF assms(4-6)] agg del: append.simps)
qed

subsection \<open>Rendering leaves the event\<close>

definition rendered_payload :: "string \<Rightarrow> renderRequest \<Rightarrow> json \<Rightarrow> bool" where
  "rendered_payload did req payload \<longleftrightarrow>
     json_field payload ''subject'' = Some (JObj [(''type'', JStr ''candidate''), (''id'', JStr (rrqCandidateID req))]) \<and>
     as_string (json_field payload ''verb'') = DecisionVerb_string (rrqVerb req) \<and>
     as_number (json_field payload ''confidence'') = decisionConfidence (rrqVerb req) \<and>
     mapPolicyRef (json_field payload ''policy'') = JObj [(''policy_id'', JStr (prPolicyID (rrqPolicy req))), (''policy_version'', JInt (prVersion (rrqPolicy req)))] \<and>
     summaryOf payload = rrqSummary req"

definition rendered_event :: "EngineEnv \<Rightarrow> renderRequest \<Rightarrow> string \<Rightarrow> Event \<Rightarrow> bool" where
  "rendered_event env req did ev \<longleftrightarrow> eTenantID ev = rrqTenantID req \<and> eType ev = ''decision.rendered'' \<and>
     eAggregate ev = \<lparr>agType = ''decision'', agID = did\<rparr> \<and> eOccurredAt ev = envNow env \<and> rendered_payload did req (ePayload ev)"

lemma emit_run:
  assumes "emitT env actor tenantID agg ty payload w = (Inr seq, w')" and "ledger_wf (envCrypto env) (dbLedger (wDB w))"
  shows "\<exists>ev. lgRows (dbLedger (wDB w')) = lgRows (dbLedger (wDB w)) @ [ev] \<and> eTenantID ev = tenantID \<and> eType ev = ty \<and> eAggregate ev = agg \<and>
    eOccurredAt ev = envNow env \<and> ePayload ev = payload"
proof -
  from assms(1) obtain n1 n2 stamped w1 where a: "appendT env [NewEvent (envCrypto env) n1 (envNow env) n2 tenantID agg ty [] n2
      \<lparr>actKind = ''service'', actID = actor\<rparr> payload] w1 = (Inr stamped, w')" "wDB w1 = wDB w"
    by (auto simp: emitT_def bindT_Inr returnT_Inr freshID_def)
  then obtain l where l: "AppendEventsTx (envCrypto env) (envHasSigner env) [NewEvent (envCrypto env) n1 (envNow env) n2 tenantID agg ty [] n2
      \<lparr>actKind = ''service'', actID = actor\<rparr> payload] (dbLedger (wDB w)) = Inr (stamped, l)" "dbLedger (wDB w') = l"
    by (auto simp: appendT_def split: sum.splits prod.splits)
  from AppendEventsTx_Inr [OF assms(2) l(1)] l(2) show ?thesis by (simp add: Let_def NewEvent_def)
qed

text \<open>What follows the event in \<open>renderDecision\<close> only adds to the ledger.\<close>

definition render_rest :: "EngineEnv \<Rightarrow> DB \<Rightarrow> renderRequest \<Rightarrow> Candidate \<Rightarrow> Decision \<Rightarrow> int \<Rightarrow> unit tx" where
  "render_rest env pool req cand decision seq =
     thenT (InsertDecisionTx decision seq)
     (thenT
       (case rrqVerb req of
          DecisionVerb.VerbEligibleForMergeTrain \<Rightarrow>
            thenT (MarkPlanSatisfiedTx (rrqTenantID req) (rrqPlanID req) seq)
            (thenT (MarkCandidateStateTx (rrqTenantID req) (rrqCandidateID req) CandEligible live_states seq)
            (propagateSupersession env pool (rrqTenantID req) (cID cand)))
        | DecisionVerb.VerbRejected \<Rightarrow> MarkCandidateStateTx (rrqTenantID req) (rrqCandidateID req) CandRejected live_states seq
        | DecisionVerb.VerbDeferred \<Rightarrow> returnT ())
     (maybeRevokeLease env pool (rrqTenantID req) (cIntentID cand)))"

lemma rest_grows: "keeps (ledger_grows (envCrypto env) (envHasSigner env)) (render_rest env pool req cand decision seq)"
proof -
  have "keeps (ledger_grows (envCrypto env) (envHasSigner env)) (InsertDecisionTx decision seq)"
    unfolding InsertDecisionTx_def by (intro ledger.r_rules ledger.r_modify) (simp add: ledger_grows_def)
  then show ?thesis unfolding render_rest_def
    by (auto intro!: ledger.r_rules ledger.r_plan_satisfied ledger.r_live_states ledger.r_propagate ledger.r_revoke split: DecisionVerb.split)
qed

lemma renderDecision_event:
  assumes "renderDecision env pool req w = (Inr (), w')" and "ledger_inv (envCrypto env) (envHasSigner env) (dbLedger (wDB w))"
  shows "\<exists>ev ext. lgRows (dbLedger (wDB w')) = lgRows (dbLedger (wDB w)) @ ev # ext \<and> ledger_inv (envCrypto env) (envHasSigner env) (dbLedger (wDB w')) \<and>
    rendered_event env req (envNewID env ''dec_'' (wNonce w)) ev"
proof -
  let ?did = "envNewID env ''dec_'' (wNonce w)"
  let ?w0 = "w\<lparr>wNonce := wNonce w + 1\<rparr>"
  from assms(1) obtain cand payload decision seq w1 where
    e: "emitT env ''scheduler'' (rrqTenantID req) \<lparr>agType = ''decision'', agID = ?did\<rparr> ''decision.rendered'' payload ?w0 = (Inr seq, w1)"
    and p: "rendered_payload ?did req payload" and r: "render_rest env pool req cand decision seq w1 = (Inr (), w')"
    by (auto simp: renderDecision_def failT_def freshID_def bindT_Inr Let_def rendered_payload_def mapPolicyRef_def summaryOf_def
      explanation_json_def explanationFor_def render_rest_def split: option.splits)
  have wf: "ledger_wf (envCrypto env) (dbLedger (wDB ?w0))" using assms(2) by (simp add: ledger_inv_def)
  from emit_run [OF e wf] p obtain ev where ev: "lgRows (dbLedger (wDB w1)) = lgRows (dbLedger (wDB w)) @ [ev]" "rendered_event env req ?did ev"
    by (auto simp: rendered_event_def)
  have "ledger_inv (envCrypto env) (envHasSigner env) (dbLedger (wDB w1))"
    using keepsD [OF ledger.r_emit e] assms(2) by (simp add: ledger_grows_def)
  with keepsD [OF rest_grows r] ev show ?thesis by (auto simp: ledger_grows_def)
qed

subsection \<open>The envelope on the wire\<close>

text \<open>The struct the connector decodes; \<^verbatim>\<open>rendered_at\<close> is sent in whole seconds.\<close>

definition decision_struct :: "EngineEnv \<Rightarrow> renderRequest \<Rightarrow> string \<Rightarrow> Candidate \<Rightarrow> Intent \<Rightarrow> DecisionEnvelope" where
  "decision_struct env req did cand intent = \<lparr>deKind = [], deDecisionID = did, deCandidateID = rrqCandidateID req, deRepo = dRepo (Declared intent),
     deHeadSHA = cHeadSHA cand, deVerb = DecisionVerb_string (rrqVerb req), deConfidence = decisionConfidence (rrqVerb req),
     dePolicyID = prPolicyID (rrqPolicy req), dePolicyVersion = prVersion (rrqPolicy req), deSummary = rrqSummary req,
     deRenderedAt = envNow env div 1000000000 * 1000000000, deEvidence = None, deAnnotations = [], dePRNumber = 0, deReport = None\<rparr>"

definition wire_of :: "DecisionEnvelope \<Rightarrow> json" where
  "wire_of d = JObj [(''decision_id'', JStr (deDecisionID d)), (''candidate_id'', JStr (deCandidateID d)), (''repo'', JStr (deRepo d)),
     (''head_sha'', JStr (deHeadSHA d)), (''verb'', JStr (deVerb d)), (''confidence'', JNum (deConfidence d)),
     (''policy'', JObj [(''policy_id'', JStr (dePolicyID d)), (''policy_version'', JInt (dePolicyVersion d))]),
     (''summary'', JStr (deSummary d)), (''rendered_at'', JStr (rfc3339 (deRenderedAt d)))]"

lemma envelope_wire:
  assumes "rendered_event env req did ev" and "oiAggID item = did"
  shows "decision_envelope item ev (rrqCandidateID req) cand intent = wire_of (decision_struct env req did cand intent)"
  using assms by (simp add: rendered_event_def rendered_payload_def decision_envelope_def wire_of_def decision_struct_def rfc3339_def)

text \<open>The publisher posts to this connector, with the same secret; what the connector relies on of JSON and HMAC for one
  envelope.\<close>

definition linked :: "('q, 't, 'w) Wiring \<Rightarrow> PushCodec \<Rightarrow> ConnReq \<Rightarrow> ('q, 't, 'w) Conn Publisher \<Rightarrow> bool" where
  "linked wi pc rq pb \<longleftrightarrow> pbURL pb \<noteq> [] \<and> pbPost pb = (\<lambda>url key sig body st.
     case serve_push wi pc (pbSecret pb) rq ''POST'' body sig key st of (resp, st') \<Rightarrow> (Some (psStatus resp), st'))"

definition speaks :: "'c Publisher \<Rightarrow> PushCodec \<Rightarrow> DecisionEnvelope \<Rightarrow> bool" where
  "speaks pb pc d \<longleftrightarrow> (let body = pbMarshal pb (wire_of d) in pcKind pc body = Some [] \<and> pcDecision pc body = Some d \<and>
     hex_decode (pbHex pb (pbHMAC pb (pbSecret pb) body)) = Some (pcHMAC pc (pbSecret pb) body) \<and> int (length body) \<le> maxDecisionBodyBytes)"

lemma struct_valid:
  assumes "has_prefix did ''dec_''" and "has_prefix (rrqCandidateID req) ''cand_''"
    and "validateRepoHead (dRepo (Declared intent)) (cHeadSHA cand) = None" and "prPolicyID (rrqPolicy req) \<noteq> []" and "0 < prVersion (rrqPolicy req)"
    and "zero_time + 1000000000 \<le> envNow env"
  shows "DecisionEnvelope_Validate (decision_struct env req did cand intent) = None"
proof -
  have "DecisionVerb_string v \<in> {Checks.VerbEligibleForMergeTrain, Checks.VerbRejected, Checks.VerbDeferred}" for v
    by (cases v) (simp_all add: verb_defs)
  moreover have "envNow env div 1000000000 * 1000000000 \<noteq> zero_time" using assms(6) by (simp add: zero_time_def)
  ultimately show ?thesis using assms(1-5)
    by (simp add: DecisionEnvelope_Validate_def decision_struct_def)
qed

lemma serve_push_decision:
  assumes "speaks pb pc d"
  shows "serve_push wi pc (pbSecret pb) rq ''POST'' (pbMarshal pb (wire_of d)) (signBody pb (pbMarshal pb (wire_of d))) key st =
    serveDecision wi pc rq (pbMarshal pb (wire_of d)) key st"
  using assms by (simp add: speaks_def Let_def serve_push_def conn_VerifyHMAC_def signBody_def has_prefix_def KindFor_def)

text \<open>A valid envelope is accepted, recognised, or answered with an error the relay retries.\<close>

lemma serveDecision_answer:
  assumes "pcDecision pc raw = Some d" and "DecisionEnvelope_Validate d = None" and "serveDecision wi pc rq raw (deDecisionID d) st = (resp, st')"
  shows "psStatus resp \<in> {200, 202, 502, 503}"
proof -
  obtain p where "RenderDecision d (wiDetails wi) = Some p"
    using render_completed_shape [OF validate_verb [OF assms(2)], of "wiDetails wi" False] by (auto simp: RenderDecision_def)
  with assms show ?thesis
    by (auto simp: serveDecision_def push_error_def push_replay_def push_accepted_def flow_publish_def
      split: sum.splits TrackErr.splits option.splits prod.splits if_splits)
qed


subsection \<open>A sample verdict\<close>

definition verdict_env :: EngineEnv where
  "verdict_env = sample_env\<lparr>envCrypto := sample_crypto\<lparr>crSHA256 := (\<lambda>_. ''h'')\<rparr>, envHasSigner := False\<rparr>"

definition verdict_candidate :: Candidate where
  "verdict_candidate = sample_candidate\<lparr>cHeadSHA := replicate 40 (CHR ''a'')\<rparr>"

definition verdict_world :: World where
  "verdict_world = world_of (empty_db\<lparr>dbCandidates := [\<lparr>rowSeq = 1, rowVal = verdict_candidate\<rparr>], dbIntents := [\<lparr>rowSeq = 1, rowVal = sample_intent\<rparr>]\<rparr>)"

definition verdict_req :: renderRequest where
  "verdict_req = \<lparr>rrqTenantID = ''ten_1'', rrqCandidateID = ''cand_1'', rrqPlanID = [], rrqVerb = DecisionVerb.VerbDeferred,
     rrqPolicy = \<lparr>prPolicyID = ''pol_1'', prVersion = 1\<rparr>, rrqSummary = ''wait'', rrqEvidenceRefs = [], rrqInputsHash = []\<rparr>"

definition rendered_world :: World where
  "rendered_world = snd (renderDecision verdict_env (wDB verdict_world) verdict_req verdict_world)"

definition seen_candidate :: Candidate where
  "seen_candidate = verdict_candidate\<lparr>cTenantID := [], Submitter := [], cChangedPaths := [], cRepo := [], cPRNumber := 0, RerunCount := 0\<rparr>"

definition seen_intent :: Intent where
  "seen_intent = sample_intent\<lparr>iPRNumber := 0\<rparr>"

definition verdict_struct :: DecisionEnvelope where
  "verdict_struct = decision_struct verdict_env verdict_req ''dec_0'' seen_candidate seen_intent"

definition verdict_codec :: PushCodec where
  "verdict_codec = fake_codec\<lparr>pcDecision := (\<lambda>_. Some verdict_struct)\<rparr>"

definition verdict_publisher :: "(PGQueue, TrackRecord list, FakeGitHub) Conn Publisher" where
  "verdict_publisher = \<lparr>pbURL = ''http://connector'', pbSecret = ''s'', pbHMAC = (\<lambda>_ _. []), pbHex = (\<lambda>s. s), pbMarshal = (\<lambda>_. ''{}''),
     pbPost = (\<lambda>url key sig body st. case serve_push fake_wiring verdict_codec ''s'' (fake_request 0 ''pw_1'') ''POST'' body sig key st of
       (resp, st') \<Rightarrow> (Some (psStatus resp), st'))\<rparr>"

lemma verdict_run: "renderDecision verdict_env (wDB verdict_world) verdict_req verdict_world = (Inr (), rendered_world)"
proof -
  have "fst (renderDecision verdict_env (wDB verdict_world) verdict_req verdict_world) = Inr ()" by code_simp
  then show ?thesis by (simp add: rendered_world_def prod_eq_iff)
qed

lemma verdict_reads:
  "GetCandidate (wDB rendered_world) ''ten_1'' ''cand_1'' = Some seen_candidate" "GetIntent (wDB rendered_world) ''ten_1'' ''int_1'' = Some seen_intent"
  by code_simp+


end
